(* ===== verification/Prelude.thy ===== *)
theory Prelude
  imports Complex_Main "HOL-Library.Word" "HOL-Library.AList"
begin

unbundle bit_operations_syntax

text \<open>
  The vocabulary the components share: Python values as they travel on the message bus,
  exceptions, byte strings with the \<^verbatim>\<open>struct\<close> formats the code uses, hexadecimal and decimal
  text, insertion-ordered dictionaries, and the runner of event handlers.

  Python integers are unbounded and are \<open>int\<close>; a byte is an \<open>8 word\<close>; a character string is a
  \<open>string\<close> and ranges over the ASCII text the program puts on the bus.
\<close>

named_theorems byte_simps \<open>sizes and values of packed byte strings\<close>
named_theorems dict_simps \<open>lookups in insertion-ordered dictionaries\<close>

section \<open>Exceptions and results\<close>

text \<open>
  Every exception class the modelled code raises or tells apart. A call that may raise returns
  \<open>exn + 'a\<close>; \<open>Inl\<close> is the exception. Messages are kept only where the code forwards them.
\<close>

datatype exn =
    KeyError
  | ValueError
  | TypeError
  | AttributeError
  | IndexError
  | OverflowError
  | StructError
  | RuntimeError
  | OSError
  | BrokenPipeError
  | FileNotFoundError
  | SSLError
  | StopIteration
  | OtherError string

type_synonym 'a res = "exn + 'a"

definition rbind :: "'a res \<Rightarrow> ('a \<Rightarrow> 'b res) \<Rightarrow> 'b res" where
  "rbind r f = (case r of Inl e \<Rightarrow> Inl e | Inr a \<Rightarrow> f a)"

lemma rbind_simps [simp]:
  "rbind (Inl e) f = Inl e"
  "rbind (Inr a) f = f a"
  by (simp_all add: rbind_def)

lemma rbind_Inr_iff: "rbind r f = Inr b \<longleftrightarrow> (\<exists>a. r = Inr a \<and> f a = Inr b)"
  by (cases r) auto

fun map_res :: "('a \<Rightarrow> 'b res) \<Rightarrow> 'a list \<Rightarrow> 'b list res" where
  "map_res f [] = Inr []"
| "map_res f (x # xs) = rbind (f x) (\<lambda>y. rbind (map_res f xs) (\<lambda>ys. Inr (y # ys)))"

lemma map_res_total: "(\<And>x. x \<in> set xs \<Longrightarrow> f x = Inr (g x)) \<Longrightarrow> map_res f xs = Inr (map g xs)"
  by (induction xs) auto

lemma map_res_length: "map_res f xs = Inr ys \<Longrightarrow> length ys = length xs"
  by (induction xs arbitrary: ys) (auto simp: rbind_Inr_iff)

section \<open>Byte strings\<close>

type_synonym byte = "8 word"
type_synonym bytes = "8 word list"

text \<open>Big-endian fields of \<open>k\<close> bytes: the formats \<^verbatim>\<open>>B\<close>, \<^verbatim>\<open>>H\<close>, \<^verbatim>\<open>>I\<close>, \<^verbatim>\<open>>Q\<close> are \<open>k = 1, 2, 4, 8\<close>.\<close>

fun be_bytes :: "nat \<Rightarrow> int \<Rightarrow> bytes" where
  "be_bytes 0 n = []"
| "be_bytes (Suc k) n = be_bytes k (n div 256) @ [word_of_int n]"

definition be_val :: "bytes \<Rightarrow> int" where
  "be_val bs = foldl (\<lambda>acc b. acc * 256 + uint b) 0 bs"

text \<open>Little-endian reading, the format \<^verbatim>\<open><Q\<close>.\<close>

definition le_val :: "bytes \<Rightarrow> int" where
  "le_val bs = be_val (rev bs)"

text \<open>\<^verbatim>\<open>struct.pack\<close> of one unsigned field raises \<^verbatim>\<open>struct.error\<close> when the value does not fit.\<close>

definition pack_be :: "nat \<Rightarrow> int \<Rightarrow> bytes res" where
  "pack_be k n = (if 0 \<le> n \<and> n < 256 ^ k then Inr (be_bytes k n) else Inl StructError)"

lemma length_be_bytes [simp, byte_simps]: "length (be_bytes k n) = k"
  by (induction k arbitrary: n) auto

lemma be_val_Nil [simp]: "be_val [] = 0"
  by (simp add: be_val_def)

lemma be_val_snoc: "be_val (bs @ [b]) = be_val bs * 256 + uint b"
  by (simp add: be_val_def)

lemma be_val_ge0: "0 \<le> be_val bs"
  by (induction bs rule: rev_induct) (auto simp: be_val_snoc)

lemma uint_byte_lt: "uint (b :: byte) < 256"
  using uint_lt2p [of b] by simp

lemma unat_byte_lt: "unat (b :: byte) < 256"
  using unsigned_less [of b, where ?'a = nat] by simp

lemma be_val_lt: "be_val bs < 256 ^ length bs"
proof (induction bs rule: rev_induct)
  case (snoc b bs)
  have "be_val (bs @ [b]) < (be_val bs + 1) * 256"
    using uint_byte_lt [of b] by (simp add: be_val_snoc algebra_simps)
  also have "\<dots> \<le> 256 ^ length bs * 256"
    using snoc.IH by (intro mult_right_mono) auto
  finally show ?case by (simp add: algebra_simps)
qed simp

lemma uint_word_of_int_byte: "uint (word_of_int n :: byte) = n mod 256"
  by (simp add: uint_word_of_int)

lemma be_val_be_bytes: "be_val (be_bytes k n) = n mod 256 ^ k"
proof (induction k arbitrary: n)
  case (Suc k)
  have "be_val (be_bytes (Suc k) n) = (n div 256) mod 256 ^ k * 256 + n mod 256"
    by (simp add: be_val_snoc Suc.IH uint_word_of_int_byte)
  also have "\<dots> = n mod (256 * 256 ^ k)"
    by (simp add: mod_mult2_eq' zmod_zmult2_eq)
  finally show ?case by simp
qed simp

lemma be_val_pack [byte_simps]: "0 \<le> n \<Longrightarrow> n < 256 ^ k \<Longrightarrow> be_val (be_bytes k n) = n"
  by (simp add: be_val_be_bytes)

lemma be_bytes_be_val: "be_bytes (length bs) (be_val bs) = bs"
proof (induction bs rule: rev_induct)
  case (snoc b bs)
  have "(be_val bs * 256 + uint b) div 256 = be_val bs"
    using uint_byte_lt [of b] by simp
  moreover have "word_of_int (be_val bs * 256 + uint b) = b"
  proof -
    have "uint (word_of_int (be_val bs * 256 + uint b) :: byte) = uint b"
      by (subst uint_word_of_int_byte) (use uint_byte_lt [of b] in simp)
    then show ?thesis by (simp add: word_uint_eq_iff)
  qed
  ultimately show ?case by (simp add: be_val_snoc snoc.IH)
qed simp

lemma pack_be_Inr [byte_simps]: "pack_be k n = Inr bs \<longleftrightarrow> 0 \<le> n \<and> n < 256 ^ k \<and> bs = be_bytes k n"
  by (auto simp: pack_be_def)

lemma pack_be_ok: "0 \<le> n \<Longrightarrow> n < 256 ^ k \<Longrightarrow> pack_be k n = Inr (be_bytes k n)"
  by (simp add: pack_be_def)

lemma pack_be_err: "pack_be k n = Inl e \<longleftrightarrow> (n < 0 \<or> 256 ^ k \<le> n) \<and> e = StructError"
  by (auto simp: pack_be_def)


section \<open>Characters, decimal and hexadecimal text\<close>

definition hexdig :: "nat \<Rightarrow> char" where
  "hexdig n = (if n < 10 then char_of (48 + n) else char_of (87 + n))"

definition hexval :: "char \<Rightarrow> nat option" where
  "hexval c = (let k = (of_char c :: nat) in
     if 48 \<le> k \<and> k < 58 then Some (k - 48)
     else if 97 \<le> k \<and> k < 103 then Some (k - 87)
     else if 65 \<le> k \<and> k < 71 then Some (k - 55) else None)"

text \<open>\<^verbatim>\<open>bytes.hex()\<close>: two lower-case digits per byte.\<close>

definition bytes_hex :: "bytes \<Rightarrow> string" where
  "bytes_hex bs = concat (map (\<lambda>b. [hexdig (unat b div 16), hexdig (unat b mod 16)]) bs)"

text \<open>The blanks \<^verbatim>\<open>bytes.fromhex\<close> skips between bytes (C \<^verbatim>\<open>isspace\<close>), and those \<^verbatim>\<open>str.strip\<close> removes.\<close>

definition c_space :: "char \<Rightarrow> bool" where
  "c_space c = (let k = (of_char c :: nat) in k = 32 \<or> (9 \<le> k \<and> k \<le> 13))"

definition u_space :: "char \<Rightarrow> bool" where
  "u_space c = (let k = (of_char c :: nat) in k = 32 \<or> (9 \<le> k \<and> k \<le> 13) \<or> (28 \<le> k \<and> k \<le> 31))"

fun fromhex :: "string \<Rightarrow> bytes res" where
  "fromhex [] = Inr []"
| "fromhex (c # cs) =
     (if c_space c then fromhex cs
      else (case cs of
              [] \<Rightarrow> Inl ValueError
            | d # ds \<Rightarrow>
                (case hexval c of
                   None \<Rightarrow> Inl ValueError
                 | Some h \<Rightarrow>
                     (case hexval d of
                        None \<Rightarrow> Inl ValueError
                      | Some l \<Rightarrow> rbind (fromhex ds) (\<lambda>bs. Inr (word_of_nat (h * 16 + l) # bs))))))"

lemma hexval_hexdig: "n < 16 \<Longrightarrow> hexval (hexdig n) = Some n"
  by (auto simp: hexval_def hexdig_def Let_def)

lemma c_space_hexdig: "n < 16 \<Longrightarrow> \<not> c_space (hexdig n)"
  by (auto simp: c_space_def hexdig_def Let_def)

lemma fromhex_bytes_hex [simp]: "fromhex (bytes_hex bs) = Inr bs"
proof (induction bs)
  case Nil
  show ?case by (simp add: bytes_hex_def)
next
  case (Cons b bs)
  have lt: "unat b < 256" by (rule unat_byte_lt)
  then have "unat b div 16 < 16" by simp
  then show ?case
    using Cons.IH by (simp add: bytes_hex_def hexval_hexdig c_space_hexdig word_of_nat_eq_iff)
qed

lemma length_bytes_hex [simp]: "length (bytes_hex bs) = 2 * length bs"
  by (induction bs) (auto simp: bytes_hex_def)

text \<open>\<^verbatim>\<open>str(n)\<close> for integers, and \<^verbatim>\<open>int(s)\<close> for strings: blanks stripped, an optional sign, digits
  with single underscores between them.\<close>

fun str_of_nat :: "nat \<Rightarrow> string" where
  "str_of_nat n = (if n < 10 then [hexdig n] else str_of_nat (n div 10) @ [hexdig (n mod 10)])"

declare str_of_nat.simps [simp del]

definition str_of_int :: "int \<Rightarrow> string" where
  "str_of_int i = (if i < 0 then CHR ''-'' # str_of_nat (nat (- i)) else str_of_nat (nat i))"

definition digval :: "char \<Rightarrow> nat option" where
  "digval c = (let k = (of_char c :: nat) in if 48 \<le> k \<and> k < 58 then Some (k - 48) else None)"

fun digits_val :: "nat \<Rightarrow> bool \<Rightarrow> string \<Rightarrow> nat option" where
  "digits_val acc prev [] = (if prev then Some acc else None)"
| "digits_val acc prev (c # cs) =
     (if c = CHR ''_'' then (if prev then digits_val acc False cs else None)
      else (case digval c of None \<Rightarrow> None | Some d \<Rightarrow> digits_val (acc * 10 + d) True cs))"

definition py_strip :: "string \<Rightarrow> string" where
  "py_strip s = rev (dropWhile u_space (rev (dropWhile u_space s)))"

definition int_of_str :: "string \<Rightarrow> int res" where
  "int_of_str s =
     (case py_strip s of
        [] \<Rightarrow> Inl ValueError
      | c # cs \<Rightarrow>
          (if c = CHR ''-'' then (case digits_val 0 False cs of None \<Rightarrow> Inl ValueError | Some n \<Rightarrow> Inr (- int n))
           else if c = CHR ''+'' then (case digits_val 0 False cs of None \<Rightarrow> Inl ValueError | Some n \<Rightarrow> Inr (int n))
           else (case digits_val 0 False (c # cs) of None \<Rightarrow> Inl ValueError | Some n \<Rightarrow> Inr (int n))))"

lemma hexdig_digit: "n < 10 \<Longrightarrow> of_char (hexdig n) = 48 + n"
  by (simp add: hexdig_def)

lemma digval_hexdig: "n < 10 \<Longrightarrow> digval (hexdig n) = Some n"
  by (simp add: digval_def Let_def hexdig_digit)

definition is_digit :: "char \<Rightarrow> bool" where
  "is_digit c = (let k = (of_char c :: nat) in 48 \<le> k \<and> k < 58)"

lemma is_digit_hexdig: "n < 10 \<Longrightarrow> is_digit (hexdig n)"
  by (simp add: is_digit_def hexdig_digit Let_def)

lemma is_digit_not: "is_digit c \<Longrightarrow> \<not> u_space c \<and> c \<noteq> CHR ''_'' \<and> c \<noteq> CHR ''-'' \<and> c \<noteq> CHR ''+''"
  by (auto simp: is_digit_def u_space_def Let_def)

lemma str_of_nat_digits: "\<forall>c \<in> set (str_of_nat n). is_digit c"
proof (induction n rule: str_of_nat.induct)
  case (1 n)
  then show ?case
    by (subst str_of_nat.simps) (auto simp: is_digit_hexdig)
qed

lemma str_of_nat_ne [simp]: "str_of_nat n \<noteq> []"
  by (subst str_of_nat.simps) simp

lemma digits_val_append:
  "\<forall>c \<in> set xs. is_digit c \<Longrightarrow> xs \<noteq> [] \<or> prev \<Longrightarrow>
   digits_val acc prev (xs @ ys) = digits_val (the (digits_val acc True xs)) True ys"
proof (induction xs arbitrary: acc prev)
  case (Cons c cs)
  then obtain d where "digval c = Some d"
    by (auto simp: is_digit_def digval_def Let_def)
  with Cons is_digit_not [of c] show ?case by simp
qed simp

lemma digits_val_True: "\<forall>c \<in> set xs. is_digit c \<Longrightarrow> xs \<noteq> [] \<Longrightarrow> digits_val acc False xs = digits_val acc True xs"
  by (cases xs) (auto simp: is_digit_def digval_def Let_def)

lemma digits_val_str_of_nat: "digits_val 0 True (str_of_nat n) = Some n"
proof (induction n rule: str_of_nat.induct)
  case (1 n)
  show ?case
  proof (cases "n < 10")
    case True
    then show ?thesis
      using is_digit_not [OF is_digit_hexdig [OF True]]
      by (subst str_of_nat.simps) (simp add: digval_hexdig)
  next
    case False
    have d: "is_digit (hexdig (n mod 10))" by (rule is_digit_hexdig) simp
    have "digits_val 0 True (str_of_nat (n div 10) @ [hexdig (n mod 10)]) = Some n"
      using "1.IH" [OF False] is_digit_not [OF d]
      by (subst digits_val_append) (auto simp: str_of_nat_digits digval_hexdig)
    with False show ?thesis by (subst str_of_nat.simps) simp
  qed
qed

lemma dropWhile_none: "\<forall>c \<in> set s. \<not> P c \<Longrightarrow> dropWhile P s = s"
  by (cases s) auto

lemma py_strip_id: "\<forall>c \<in> set s. \<not> u_space c \<Longrightarrow> py_strip s = s"
  by (simp add: py_strip_def dropWhile_none)

lemma u_space_sign: "\<not> u_space (CHR ''-'')"
  by (simp add: u_space_def Let_def)

lemma int_of_str_nat: "int_of_str (str_of_nat n) = Inr (int n)"
proof -
  obtain c cs where e: "str_of_nat n = c # cs" by (cases "str_of_nat n") auto
  have dg: "\<forall>x \<in> set (c # cs). is_digit x" using str_of_nat_digits [of n] e by simp
  have sp: "\<forall>x \<in> set (c # cs). \<not> u_space x" using dg is_digit_not by blast
  have dv: "digits_val 0 False (c # cs) = Some n"
    using digits_val_str_of_nat [of n] digits_val_True [OF dg] e by simp
  have "c \<noteq> CHR ''-''" "c \<noteq> CHR ''+''" using dg is_digit_not [of c] by auto
  then show ?thesis
    unfolding int_of_str_def e py_strip_id [OF sp] list.case dv by (simp only: if_False option.case)
qed

lemma int_of_str_neg: "int_of_str (CHR ''-'' # str_of_nat n) = Inr (- int n)"
proof -
  have dg: "\<forall>x \<in> set (str_of_nat n). is_digit x" by (rule str_of_nat_digits)
  have sp: "\<forall>x \<in> set (CHR ''-'' # str_of_nat n). \<not> u_space x"
    using dg is_digit_not u_space_sign by (metis set_ConsD)
  have dv: "digits_val 0 False (str_of_nat n) = Some n"
    using digits_val_True [OF dg] digits_val_str_of_nat by simp
  show ?thesis
    unfolding int_of_str_def py_strip_id [OF sp] list.case dv by simp
qed

lemma int_of_str_of_int [simp]: "int_of_str (str_of_int i) = Inr i"
  by (simp add: str_of_int_def int_of_str_nat int_of_str_neg)

lemma str_of_int_inj [simp]: "str_of_int i = str_of_int j \<longleftrightarrow> i = j"
  by (metis int_of_str_of_int sum.inject(2))

end
