(* ===== verification/PyVal.thy ===== *)
theory PyVal
  imports Prelude "HOL-Library.Countable"
begin

text \<open>
  Python values as the bus carries them (the values JSON can hold), truth and conversion of
  values, and dictionaries. A \<^verbatim>\<open>dict\<close> is an association list in insertion order with distinct
  keys: assigning to a present key keeps its place, as Python does, so \<open>AList.update\<close> and
  \<open>AList.delete\<close> are the two updates. The locale \<open>keyed_store\<close> is what the components rely on.
\<close>

section \<open>Values\<close>

text \<open>A float is a rational, an infinity or a NaN; the rounding of conversions into floats is left to
  the functions that need it.\<close>

datatype pyfloat = Fin rat | PosInf | NegInf | NaN

datatype pyval =
    PNone
  | PBool bool
  | PInt int
  | PFloat pyfloat
  | PStr string
  | PList "pyval list"
  | PDict "(string \<times> pyval) list"

text \<open>Values can be numbered, which gives examples of codecs.\<close>

instance pyfloat :: countable
  by countable_datatype

instance pyval :: countable
  by countable_datatype

type_synonym ('k, 'v) dict = "('k \<times> 'v) list"
type_synonym payload = "(string, pyval) dict"

text \<open>Truth of a value, \<^verbatim>\<open>bool(v)\<close>.\<close>

fun truthy :: "pyval \<Rightarrow> bool" where
  "truthy PNone = False"
| "truthy (PBool b) = b"
| "truthy (PInt i) = (i \<noteq> 0)"
| "truthy (PFloat x) = (x \<noteq> Fin 0)"
| "truthy (PStr s) = (s \<noteq> [])"
| "truthy (PList xs) = (xs \<noteq> [])"
| "truthy (PDict d) = (d \<noteq> [])"

text \<open>\<^verbatim>\<open>int(v)\<close>: floats are truncated towards zero.\<close>

fun py_int :: "pyval \<Rightarrow> int res" where
  "py_int (PBool b) = Inr (if b then 1 else 0)"
| "py_int (PInt i) = Inr i"
| "py_int (PFloat (Fin r)) = Inr (if 0 \<le> r then \<lfloor>r\<rfloor> else \<lceil>r\<rceil>)"
| "py_int (PFloat NaN) = Inl ValueError"
| "py_int (PFloat PosInf) = Inl OverflowError"
| "py_int (PFloat NegInf) = Inl OverflowError"
| "py_int (PStr s) = int_of_str s"
| "py_int PNone = Inl TypeError"
| "py_int (PList xs) = Inl TypeError"
| "py_int (PDict d) = Inl TypeError"

text \<open>\<^verbatim>\<open>bytes.fromhex(v)\<close> takes a string only.\<close>

fun py_fromhex :: "pyval \<Rightarrow> bytes res" where
  "py_fromhex (PStr s) = fromhex s"
| "py_fromhex v = Inl TypeError"

text \<open>\<^verbatim>\<open>v == n\<close> for an integer \<open>n\<close>: booleans and integral floats compare equal to integers.\<close>

fun py_eq_int :: "pyval \<Rightarrow> int \<Rightarrow> bool" where
  "py_eq_int (PInt i) n = (i = n)"
| "py_eq_int (PBool b) n = ((if b then 1 else 0) = n)"
| "py_eq_int (PFloat (Fin r)) n = (r = of_int n)"
| "py_eq_int v n = False"

section \<open>Dictionaries\<close>

text \<open>\<^verbatim>\<open>d.get(k)\<close> is \<open>map_of d k\<close>; \<^verbatim>\<open>d.get(k, v)\<close> and \<^verbatim>\<open>d[k]\<close>:\<close>

definition dget_or :: "('k, 'v) dict \<Rightarrow> 'k \<Rightarrow> 'v \<Rightarrow> 'v" where
  "dget_or d k v = (case map_of d k of None \<Rightarrow> v | Some w \<Rightarrow> w)"

definition dget :: "payload \<Rightarrow> string \<Rightarrow> pyval" where
  "dget d k = dget_or d k PNone"

definition dindex :: "('k, 'v) dict \<Rightarrow> 'k \<Rightarrow> 'v res" where
  "dindex d k = (case map_of d k of None \<Rightarrow> Inl KeyError | Some v \<Rightarrow> Inr v)"

definition dset :: "'k \<Rightarrow> 'v \<Rightarrow> ('k, 'v) dict \<Rightarrow> ('k, 'v) dict" where
  "dset = AList.update"

definition ddel :: "'k \<Rightarrow> ('k, 'v) dict \<Rightarrow> ('k, 'v) dict" where
  "ddel = AList.delete"

definition dkeys :: "('k, 'v) dict \<Rightarrow> 'k list" where
  "dkeys d = map fst d"

definition dwf :: "('k, 'v) dict \<Rightarrow> bool" where
  "dwf d = distinct (map fst d)"

text \<open>\<^verbatim>\<open>d.update(e)\<close> assigns the entries of \<open>e\<close> in order.\<close>

definition dupdate :: "('k, 'v) dict \<Rightarrow> ('k, 'v) dict \<Rightarrow> ('k, 'v) dict" where
  "dupdate d e = foldl (\<lambda>acc (k, v). dset k v acc) d e"

lemma dset_code [code, simp]:
  "dset k v [] = [(k, v)]"
  "dset k v (p # ps) = (if fst p = k then (k, v) # ps else p # dset k v ps)"
  by (simp_all add: dset_def)

lemma ddel_code [code, simp]:
  "ddel k [] = []"
  "ddel k (p # ps) = (if fst p = k then ddel k ps else p # ddel k ps)"
  by (auto simp: ddel_def AList.delete_eq)

lemma map_of_dset [dict_simps]: "map_of (dset k v d) k' = (if k' = k then Some v else map_of d k')"
  by (simp add: dset_def update_conv')

lemma map_of_ddel [dict_simps]: "map_of (ddel k d) k' = (if k' = k then None else map_of d k')"
  by (simp add: ddel_def delete_conv')

lemma dwf_Nil [simp]: "dwf []"
  by (simp add: dwf_def)

lemma dwf_dset [simp]: "dwf d \<Longrightarrow> dwf (dset k v d)"
  by (simp add: dwf_def dset_def distinct_update)

lemma dwf_ddel [simp]: "dwf d \<Longrightarrow> dwf (ddel k d)"
  by (simp add: dwf_def ddel_def distinct_delete)

lemma set_dkeys: "set (dkeys d) = dom (map_of d)"
  by (simp add: dkeys_def dom_map_of_conv_image_fst)

lemma set_dkeys_dset: "set (dkeys (dset k v d)) = insert k (set (dkeys d))"
  by (auto simp: set_dkeys map_of_dset split: if_splits)

lemma set_dkeys_ddel: "set (dkeys (ddel k d)) = set (dkeys d) - {k}"
  by (auto simp: set_dkeys map_of_ddel split: if_splits)

lemma dset_new: "map_of d k = None \<Longrightarrow> dset k v d = d @ [(k, v)]"
  by (induction d) (auto split: if_splits)

lemma dget_or_simps [dict_simps]:
  "map_of d k = Some w \<Longrightarrow> dget_or d k v = w"
  "map_of d k = None \<Longrightarrow> dget_or d k v = v"
  by (simp_all add: dget_or_def)

lemma map_of_dupdate:
  "map_of (dupdate d e) k = (case map_of (rev e) k of None \<Rightarrow> map_of d k | Some v \<Rightarrow> Some v)"
proof (induction e rule: rev_induct)
  case (snoc p e)
  then show ?case by (cases p) (simp add: dupdate_def map_of_dset)
qed (simp add: dupdate_def)

section \<open>Keyed stores\<close>

text \<open>
  The interface every table of the program is used through: buffers by channel, schemas by
  module, processes by name, subscriptions by topic.
\<close>

locale keyed_store =
  fixes look :: "'m \<Rightarrow> 'k \<Rightarrow> 'v option"
    and put :: "'k \<Rightarrow> 'v \<Rightarrow> 'm \<Rightarrow> 'm"
    and del :: "'k \<Rightarrow> 'm \<Rightarrow> 'm"
    and wf :: "'m \<Rightarrow> bool"
  assumes look_put: "look (put k v m) k' = (if k' = k then Some v else look m k')"
    and look_del: "look (del k m) k' = (if k' = k then None else look m k')"
    and wf_put: "wf m \<Longrightarrow> wf (put k v m)"
    and wf_del: "wf m \<Longrightarrow> wf (del k m)"
begin

lemma look_put_same: "look (put k v m) k = Some v"
  by (simp add: look_put)

lemma look_put_other: "k' \<noteq> k \<Longrightarrow> look (put k v m) k' = look m k'"
  by (simp add: look_put)

lemma look_put_put: "look (put k v (put k w m)) = look (put k v m)"
  by (rule ext) (simp add: look_put)

lemma look_put_commute: "k \<noteq> l \<Longrightarrow> look (put k v (put l w m)) = look (put l w (put k v m))"
  by (rule ext) (simp add: look_put)

lemma look_del_put: "look (del k (put k v m)) = look (del k m)"
  by (rule ext) (simp add: look_put look_del)

lemma look_fold_put: "look (foldl (\<lambda>acc (k, v). put k v acc) m kvs) k =
    (case map_of (rev kvs) k of None \<Rightarrow> look m k | Some v \<Rightarrow> Some v)"
proof (induction kvs rule: rev_induct)
  case (snoc p kvs)
  then show ?case by (cases p) (simp add: look_put)
qed simp

lemma wf_fold_put: "wf m \<Longrightarrow> wf (foldl (\<lambda>acc (k, v). put k v acc) m kvs)"
  by (induction kvs arbitrary: m) (auto intro: wf_put split: prod.splits)

end

interpretation ds: keyed_store map_of dset ddel dwf
  by unfold_locales (auto simp: dict_simps)

lemmas dict_look = ds.look_put_same ds.look_put_other ds.look_put_put ds.look_del_put

end
