(* ===== verification/Machines.thy ===== *)
theory Machines
  imports PyVal
begin

text \<open>
  Every module of the program is a set of handlers that the bus calls one after the other, each
  of which updates the module's state and publishes messages. \<open>run_events\<close> is that loop over a
  given order of calls; a component's step function says what one call does. The locale
  \<open>event_machine\<close> lifts facts about one step to every run.
\<close>

type_synonym busmsg = "string \<times> payload"

fun run_events :: "('s \<Rightarrow> 'e \<Rightarrow> 's \<times> 'o list) \<Rightarrow> 's \<Rightarrow> 'e list \<Rightarrow> 's \<times> 'o list" where
  "run_events step s [] = (s, [])"
| "run_events step s (e # es) =
     (let r = step s e; q = run_events step (fst r) es in (fst q, snd r @ snd q))"

lemma run_events_append:
  "run_events step s (xs @ ys) =
     (let r = run_events step s xs; q = run_events step (fst r) ys in (fst q, snd r @ snd q))"
  by (induction xs arbitrary: s) (auto simp: Let_def)

lemma fst_run_snoc: "fst (run_events step s (xs @ [e])) = fst (step (fst (run_events step s xs)) e)"
  by (simp add: run_events_append Let_def)

locale event_machine =
  fixes step :: "'s \<Rightarrow> 'e \<Rightarrow> 's \<times> 'o list"
    and inv :: "'s \<Rightarrow> bool"
    and good :: "'o \<Rightarrow> bool"
  assumes step_inv: "inv s \<Longrightarrow> inv (fst (step s e))"
    and step_good: "inv s \<Longrightarrow> o' \<in> set (snd (step s e)) \<Longrightarrow> good o'"
begin

lemma run_inv: "inv s \<Longrightarrow> inv (fst (run_events step s es))"
proof (induction es arbitrary: s)
  case (Cons e es)
  then have "inv (fst (run_events step (fst (step s e)) es))" by (simp add: step_inv)
  then show ?case by (simp add: Let_def)
qed simp

lemma run_good: "inv s \<Longrightarrow> o' \<in> set (snd (run_events step s es)) \<Longrightarrow> good o'"
proof (induction es arbitrary: s)
  case (Cons e es)
  have "inv (fst (step s e))" using Cons.prems(1) by (rule step_inv)
  then show ?case
    using Cons.IH [of "fst (step s e)"] Cons.prems step_good [of s o' e]
    by (auto simp: Let_def)
qed simp

end

text \<open>
  A machine seen through what it publishes: an observer folds the outputs into its own view, and the
  view stays in a relation with the state.
\<close>

locale observed_machine =
  fixes step :: "'s \<Rightarrow> 'e \<Rightarrow> 's \<times> 'o list"
    and see :: "'a \<Rightarrow> 'o \<Rightarrow> 'a"
    and rel :: "'s \<Rightarrow> 'a \<Rightarrow> bool"
  assumes step_rel: "rel s a \<Longrightarrow> rel (fst (step s e)) (foldl see a (snd (step s e)))"
begin

lemma run_rel: "rel s a \<Longrightarrow> rel (fst (run_events step s es)) (foldl see a (snd (run_events step s es)))"
proof (induction es arbitrary: s a)
  case (Cons e es)
  show ?case
    using Cons.IH [OF step_rel [OF Cons.prems, of e]] by (simp add: Let_def)
qed simp

end

end
