(* ===== verification/AACryptor.thy ===== *)
theory AACryptor
  imports Machines
begin

text \<open>
  \<^verbatim>\<open>v2/modules/tcp_server/aa_cryptor.py\<close>: TLS carried inside AA frames. The TLS engine itself
  (\<^verbatim>\<open>ssl.SSLObject\<close> with its two memory BIOs) is not code of the repository: it is the parameter
  \<open>tls_lib\<close>, a record of the calls the class makes, over an engine state \<open>'e\<close> that stands for
  the SSL object together with the BIOs it is wired to.
\<close>

section \<open>The TLS engine as a parameter\<close>

text \<open>\<^verbatim>\<open>do_handshake\<close> finishes, asks for more input, fails with another \<^verbatim>\<open>SSLError\<close>, or raises
  something the class does not catch.\<close>

datatype hs_outcome = HsDone | HsWantRead | HsSSLError | HsRaise exn

text \<open>\<^verbatim>\<open>read(4096)\<close> returns a chunk (empty at the end of the TLS stream), raises
  \<^verbatim>\<open>SSLWantReadError\<close> when the input BIO is drained, or raises another exception.\<close>

datatype rd_outcome = RdChunk bytes | RdWantRead | RdRaise exn

record 'e tls_lib =
  tls_connect :: "exn + 'e"
  bio_write :: "bytes \<Rightarrow> 'e \<Rightarrow> 'e"
  bio_read :: "'e \<Rightarrow> bytes \<times> 'e"
  tls_do_handshake :: "'e \<Rightarrow> hs_outcome \<times> 'e"
  tls_write :: "bytes \<Rightarrow> 'e \<Rightarrow> exn option \<times> 'e"
  tls_read :: "'e \<Rightarrow> rd_outcome \<times> 'e"

section \<open>The class\<close>

text \<open>The SSL object, its context and its BIOs are set and cleared together, so one field holds them.\<close>

record 'e cryptor =
  ssl_obj :: "'e option"
  active :: bool

definition new_cryptor :: "'e cryptor" where
  "new_cryptor = \<lparr>ssl_obj = None, active = False\<rparr>"

definition crypt_init :: "'e tls_lib \<Rightarrow> 'e cryptor \<Rightarrow> unit res \<times> 'e cryptor" where
  "crypt_init L c =
     (case tls_connect L of
        Inl x \<Rightarrow> (Inl x, c)
      | Inr e \<Rightarrow> (Inr (), c\<lparr>ssl_obj := Some e, active := False\<rparr>))"

definition crypt_deinit :: "'e cryptor \<Rightarrow> 'e cryptor" where
  "crypt_deinit c = c\<lparr>ssl_obj := None, active := False\<rparr>"

definition write_handshake_input :: "'e tls_lib \<Rightarrow> bytes \<Rightarrow> 'e cryptor \<Rightarrow> 'e cryptor" where
  "write_handshake_input L data c =
     (case ssl_obj c of None \<Rightarrow> c | Some e \<Rightarrow> c\<lparr>ssl_obj := Some (bio_write L data e)\<rparr>)"

definition read_out_bio :: "'e tls_lib \<Rightarrow> 'e cryptor \<Rightarrow> bytes \<times> 'e cryptor" where
  "read_out_bio L c =
     (case ssl_obj c of
        None \<Rightarrow> ([], c)
      | Some e \<Rightarrow> (let (data, e') = bio_read L e in (data, c\<lparr>ssl_obj := Some e'\<rparr>)))"

definition drive_handshake :: "'e tls_lib \<Rightarrow> 'e cryptor \<Rightarrow> bytes res \<times> 'e cryptor" where
  "drive_handshake L c =
     (case ssl_obj c of
        None \<Rightarrow> (Inr [], c)
      | Some e \<Rightarrow>
          (if active c then (let (d, c') = read_out_bio L c in (Inr d, c'))
           else
             (case tls_do_handshake L e of
                (HsDone, e') \<Rightarrow>
                  (let (d, c') = read_out_bio L (c\<lparr>ssl_obj := Some e', active := True\<rparr>) in (Inr d, c'))
              | (HsRaise x, e') \<Rightarrow> (Inl x, c\<lparr>ssl_obj := Some e'\<rparr>)
              | (_, e') \<Rightarrow> (let (d, c') = read_out_bio L (c\<lparr>ssl_obj := Some e'\<rparr>) in (Inr d, c')))))"

definition crypt_encrypt :: "'e tls_lib \<Rightarrow> bytes \<Rightarrow> 'e cryptor \<Rightarrow> bytes res \<times> 'e cryptor" where
  "crypt_encrypt L plaintext c =
     (case ssl_obj c of
        None \<Rightarrow> (Inl RuntimeError, c)
      | Some e \<Rightarrow>
          (if \<not> active c then (Inl RuntimeError, c)
           else
             (case tls_write L plaintext e of
                (Some x, e') \<Rightarrow> (Inl x, c\<lparr>ssl_obj := Some e'\<rparr>)
              | (None, e') \<Rightarrow> (let (d, c') = read_out_bio L (c\<lparr>ssl_obj := Some e'\<rparr>) in (Inr d, c')))))"

text \<open>
  The read loop of \<^verbatim>\<open>decrypt\<close> may not end, so it is partial. It is left with the last chunk read
  (by \<^verbatim>\<open>break\<close>, the chunk being empty), or by an exception. The statement
  \<^verbatim>\<open>buf.extend(chunk)\<close> stands after the loop in the source, at the indentation of \<^verbatim>\<open>while\<close>.
\<close>

datatype loop_end = LoopBreak bytes | LoopWantRead | LoopRaise exn

partial_function (option) decrypt_loop :: "'e tls_lib \<Rightarrow> 'e \<Rightarrow> (loop_end \<times> 'e) option" where
  "decrypt_loop L e =
     (case fst (tls_read L e) of
        RdChunk chunk \<Rightarrow>
          (if chunk = [] then Some (LoopBreak chunk, snd (tls_read L e))
           else decrypt_loop L (snd (tls_read L e)))
      | RdWantRead \<Rightarrow> Some (LoopWantRead, snd (tls_read L e))
      | RdRaise x \<Rightarrow> Some (LoopRaise x, snd (tls_read L e)))"

text \<open>What the rest of the body makes of each way the loop ends, \<open>buf\<close> being the buffer so far.\<close>

fun decrypt_result :: "bytes \<Rightarrow> loop_end \<Rightarrow> bytes res" where
  "decrypt_result buf (LoopBreak chunk) = Inr (buf @ chunk)"
| "decrypt_result buf LoopWantRead = Inr buf"
| "decrypt_result buf (LoopRaise x) = Inl x"

definition crypt_decrypt :: "'e tls_lib \<Rightarrow> bytes \<Rightarrow> 'e cryptor \<Rightarrow> (bytes res \<times> 'e cryptor) option" where
  "crypt_decrypt L ciphertext c =
     (case ssl_obj c of
        None \<Rightarrow> Some (Inl RuntimeError, c)
      | Some e \<Rightarrow>
          (if \<not> active c then Some (Inl RuntimeError, c)
           else
             map_option (\<lambda>r. (decrypt_result [] (fst r), c\<lparr>ssl_obj := Some (snd r)\<rparr>))
               (decrypt_loop L (bio_write L ciphertext e))))"

section \<open>Invariant and state machine\<close>

text \<open>TLS counts as active only while there is an SSL object.\<close>

definition crypt_wf :: "'e cryptor \<Rightarrow> bool" where
  "crypt_wf c \<longleftrightarrow> (active c \<longrightarrow> ssl_obj c \<noteq> None)"

lemma read_out_bio_frame:
  "active (snd (read_out_bio L c)) = active c"
  "ssl_obj (snd (read_out_bio L c)) = None \<longleftrightarrow> ssl_obj c = None"
  by (auto simp: read_out_bio_def Let_def split: option.splits prod.splits)

lemma crypt_wf_new [simp]: "crypt_wf new_cryptor"
  by (simp add: crypt_wf_def new_cryptor_def)

lemma crypt_wf_deinit [simp]: "crypt_wf (crypt_deinit c)"
  by (simp add: crypt_wf_def crypt_deinit_def)

lemma crypt_wf_init: "crypt_wf c \<Longrightarrow> crypt_wf (snd (crypt_init L c))"
  by (auto simp: crypt_wf_def crypt_init_def split: sum.splits)

lemma crypt_wf_input: "crypt_wf c \<Longrightarrow> crypt_wf (write_handshake_input L d c)"
  by (auto simp: crypt_wf_def write_handshake_input_def split: option.splits)

lemma crypt_wf_read: "crypt_wf c \<Longrightarrow> crypt_wf (snd (read_out_bio L c))"
  using read_out_bio_frame [of L c] by (simp add: crypt_wf_def)

lemma crypt_wf_drive: "crypt_wf c \<Longrightarrow> crypt_wf (snd (drive_handshake L c))"
  by (auto simp: drive_handshake_def crypt_wf_def read_out_bio_def Let_def
        split: option.splits prod.splits hs_outcome.splits)

lemma crypt_wf_encrypt: "crypt_wf c \<Longrightarrow> crypt_wf (snd (crypt_encrypt L d c))"
  by (auto simp: crypt_encrypt_def crypt_wf_def read_out_bio_def Let_def
        split: option.splits prod.splits)

lemma crypt_wf_decrypt: "crypt_wf c \<Longrightarrow> crypt_decrypt L d c = Some (r, c') \<Longrightarrow> crypt_wf c'"
  by (auto simp: crypt_decrypt_def crypt_wf_def split: option.splits if_splits)

lemma drive_keeps_active: "active c \<Longrightarrow> active (snd (drive_handshake L c))"
  by (auto simp: drive_handshake_def read_out_bio_def Let_def split: option.splits prod.splits hs_outcome.splits)

lemma encrypt_keeps_active: "active (snd (crypt_encrypt L d c)) = active c"
  by (auto simp: crypt_encrypt_def read_out_bio_def Let_def split: option.splits prod.splits)

lemma decrypt_keeps_active: "crypt_decrypt L d c = Some (r, c') \<Longrightarrow> active c' = active c"
  by (auto simp: crypt_decrypt_def split: option.splits if_splits)

text \<open>The calls made on one object between its creation and its deinitialisation.\<close>

datatype crypt_op = OpInit | OpInput bytes | OpDrive | OpEncrypt bytes | OpDeinit

fun crypt_step :: "'e tls_lib \<Rightarrow> 'e cryptor \<Rightarrow> crypt_op \<Rightarrow> 'e cryptor \<times> bytes res list" where
  "crypt_step L c OpInit = (let r = crypt_init L c in (snd r, []))"
| "crypt_step L c (OpInput d) = (write_handshake_input L d c, [])"
| "crypt_step L c OpDrive = (let r = drive_handshake L c in (snd r, [fst r]))"
| "crypt_step L c (OpEncrypt d) = (let r = crypt_encrypt L d c in (snd r, [fst r]))"
| "crypt_step L c OpDeinit = (crypt_deinit c, [])"

interpretation cryptm: event_machine "crypt_step L" crypt_wf "\<lambda>_. True"
proof
  fix s e
  show "crypt_wf s \<Longrightarrow> crypt_wf (fst (crypt_step L s e))"
    by (cases e) (auto simp: Let_def crypt_wf_init crypt_wf_input crypt_wf_drive crypt_wf_encrypt)
qed simp

section \<open>Encryption and decryption\<close>

text \<open>The loop keeps no chunk: it is only left with an empty one.\<close>

lemma decrypt_loop_break: "decrypt_loop L e = Some (LoopBreak chunk, e') \<Longrightarrow> chunk = []"
proof -
  assume ret: "decrypt_loop L e = Some (LoopBreak chunk, e')"
  have "\<forall>c. fst (LoopBreak chunk, e') = LoopBreak c \<longrightarrow> c = []"
  proof (rule decrypt_loop.raw_induct [where P = "\<lambda>L e r. \<forall>c. fst r = LoopBreak c \<longrightarrow> c = []", OF _ ret])
    fix f :: "'a tls_lib \<Rightarrow> 'a \<Rightarrow> (loop_end \<times> 'a) option" and L e r
    assume IH: "\<And>L e r. f L e = Some r \<Longrightarrow> \<forall>c. fst r = LoopBreak c \<longrightarrow> c = []"
      and eq: "(case fst (tls_read L e) of
        RdChunk chunk \<Rightarrow>
          (if chunk = [] then Some (LoopBreak chunk, snd (tls_read L e))
           else f L (snd (tls_read L e)))
      | RdWantRead \<Rightarrow> Some (LoopWantRead, snd (tls_read L e))
      | RdRaise x \<Rightarrow> Some (LoopRaise x, snd (tls_read L e))) = Some r"
    show "\<forall>c. fst r = LoopBreak c \<longrightarrow> c = []"
      using eq IH by (auto split: rd_outcome.splits if_splits)
  qed
  then show ?thesis by simp
qed

text \<open>When every nonempty chunk leaves less to read, the loop returns.\<close>

lemma decrypt_loop_returns:
  assumes "\<And>e chunk. fst (tls_read L e) = RdChunk chunk \<Longrightarrow> chunk \<noteq> [] \<Longrightarrow> (m (snd (tls_read L e)) :: nat) < m e"
  shows "\<exists>r. decrypt_loop L e = Some r"
proof (induction "m e" arbitrary: e rule: less_induct)
  case less
  show ?case
  proof (cases "fst (tls_read L e)")
    case (RdChunk chunk)
    show ?thesis
    proof (cases "chunk = []")
      case False
      with RdChunk assms have "m (snd (tls_read L e)) < m e" by blast
      then obtain r where "decrypt_loop L (snd (tls_read L e)) = Some r"
        using less.hyps by blast
      with RdChunk False show ?thesis by (subst decrypt_loop.simps) simp
    qed (use RdChunk in \<open>subst decrypt_loop.simps, simp\<close>)
  qed (subst decrypt_loop.simps, simp)+
qed

lemma encrypt_inactive: "crypt_wf c \<Longrightarrow> (fst (crypt_encrypt L d c) = Inl RuntimeError \<and> snd (crypt_encrypt L d c) = c)
   \<or> (active c \<and> ssl_obj c \<noteq> None)"
  by (auto simp: crypt_encrypt_def crypt_wf_def split: option.splits)

lemma decrypt_result_empty: "decrypt_result [] r = Inr pt \<Longrightarrow> (\<And>chunk. r = LoopBreak chunk \<Longrightarrow> chunk = []) \<Longrightarrow> pt = []"
  by (cases r) auto

lemma decrypt_empty: "crypt_decrypt L d c = Some (Inr pt, c') \<Longrightarrow> pt = []"
  by (auto simp: crypt_decrypt_def split: option.splits if_splits
        elim!: decrypt_result_empty dest!: decrypt_loop_break)

section \<open>Properties\<close>

text \<open>An engine whose state is the plaintext not yet read, for the witnesses.\<close>

definition echo_tls :: "bytes tls_lib" where
  "echo_tls = \<lparr>tls_connect = Inr [], bio_write = (\<lambda>d e. e @ d), bio_read = (\<lambda>e. ([], e)),
     tls_do_handshake = (\<lambda>e. (HsDone, e)), tls_write = (\<lambda>d e. (None, e)),
     tls_read = (\<lambda>e. if e = [] then (RdWantRead, e) else (RdChunk (take 4096 e), drop 4096 e))\<rparr>"

lemma echo_returns: "\<exists>r. decrypt_loop echo_tls e = Some r"
proof (rule decrypt_loop_returns)
  fix e chunk
  assume "fst (tls_read echo_tls e) = RdChunk chunk" "chunk \<noteq> []"
  then show "length (snd (tls_read echo_tls e)) < length e"
    by (auto simp: echo_tls_def split: if_splits)
qed

text \<open>Whatever calls are made on a new cryptor, its handshake-complete flag is up only while it
  holds an SSL object, and \<^verbatim>\<open>encrypt\<close> either raises \<^verbatim>\<open>RuntimeError\<close> leaving the object as it was, or
  works on an object whose handshake is complete.\<close>

theorem cryptor_calls_safe:
  "crypt_wf (fst (run_events (crypt_step L) new_cryptor ops)) \<and>
   (crypt_encrypt L d (fst (run_events (crypt_step L) new_cryptor ops))
      = (Inl RuntimeError, fst (run_events (crypt_step L) new_cryptor ops)) \<or>
    (active (fst (run_events (crypt_step L) new_cryptor ops)) \<and>
     ssl_obj (fst (run_events (crypt_step L) new_cryptor ops)) \<noteq> None))"
proof -
  let ?c = "fst (run_events (crypt_step L) new_cryptor ops)"
  have wf: "crypt_wf ?c" by (rule cryptm.run_inv) simp
  then show ?thesis
    using encrypt_inactive [OF wf, of L d] by (cases "crypt_encrypt L d ?c") auto
qed

text \<open>\<^verbatim>\<open>decrypt\<close> always comes back when every chunk read leaves less plaintext to read, but what it
  comes back with is the empty byte string, whatever the engine decrypted, or an exception: the
  chunks read in the loop are dropped, since the statement that stores them stands after the loop.\<close>

theorem decrypt_discards_plaintext:
  assumes "ssl_obj c = Some e" and "active c"
    and "\<And>e chunk. fst (tls_read L e) = RdChunk chunk \<Longrightarrow> chunk \<noteq> [] \<Longrightarrow> (m (snd (tls_read L e)) :: nat) < m e"
  shows "\<exists>r c'. crypt_decrypt L ciphertext c = Some (r, c') \<and> (r = Inr [] \<or> (\<exists>x. r = Inl x))"
proof -
  obtain q e' where q: "decrypt_loop L (bio_write L ciphertext e) = Some (q, e')"
    using decrypt_loop_returns [of L m "bio_write L ciphertext e"] assms(3) by (metis surj_pair)
  then have d: "crypt_decrypt L ciphertext c = Some (decrypt_result [] q, c\<lparr>ssl_obj := Some e'\<rparr>)"
    using assms(1,2) by (simp add: crypt_decrypt_def)
  show ?thesis
  proof (cases "decrypt_result [] q")
    case (Inr pt)
    then show ?thesis using d decrypt_empty [of L ciphertext c pt] by auto
  qed (use d in auto)
qed

lemma decrypt_discards_plaintext_witness:
  "\<exists>r c'. crypt_decrypt echo_tls [1, 2, 3] \<lparr>ssl_obj = Some [], active = True\<rparr> = Some (r, c') \<and>
     (r = Inr [] \<or> (\<exists>x. r = Inl x))"
  by (rule decrypt_discards_plaintext [where m = length]) (auto simp: echo_tls_def split: if_splits)

end
