(* ===== verification/FrameCodec.thy ===== *)
theory FrameCodec
  imports AACryptor
begin

text \<open>
  \<^verbatim>\<open>v2/modules/tcp_server/frame_codec.py\<close>: building the wire frames of a message, and the
  per-channel reassembly of multi-frame messages. The wire format is also stated on its own
  (\<open>wire_enc\<close>, \<open>raw_frames\<close>), as what the building functions are shown to produce.
\<close>

section \<open>Constants and flag policy\<close>

definition FRAME_SIZE_THRESHOLD :: nat where "FRAME_SIZE_THRESHOLD = 4096"

definition FT_MIDDLE :: int where "FT_MIDDLE = 0"
definition FT_FIRST :: int where "FT_FIRST = 1"
definition FT_LAST :: int where "FT_LAST = 2"
definition FT_BULK :: int where "FT_BULK = 3"
definition MT_SPECIFIC :: int where "MT_SPECIFIC = 0"
definition MT_CONTROL :: int where "MT_CONTROL = 4"
definition ET_PLAIN :: int where "ET_PLAIN = 0"
definition ET_ENCRYPTED :: int where "ET_ENCRYPTED = 8"
definition MSG_CHANNEL_OPEN_RESPONSE :: int where "MSG_CHANNEL_OPEN_RESPONSE = 8"

definition CH0_PLAIN_IDS :: "int list" where
  "CH0_PLAIN_IDS = [1, 2, 3, 4, 11, 12]"

lemmas frame_consts = FT_MIDDLE_def FT_FIRST_def FT_LAST_def FT_BULK_def MT_SPECIFIC_def
  MT_CONTROL_def ET_PLAIN_def ET_ENCRYPTED_def MSG_CHANNEL_OPEN_RESPONSE_def

definition message_type :: "int \<Rightarrow> int \<Rightarrow> int" where
  "message_type channel_id message_id =
     (if channel_id \<noteq> 0 \<and> message_id = MSG_CHANNEL_OPEN_RESPONSE then MT_CONTROL else MT_SPECIFIC)"

definition encryption_type :: "int \<Rightarrow> int \<Rightarrow> bool \<Rightarrow> int" where
  "encryption_type channel_id message_id ssl_active =
     (if \<not> ssl_active then ET_PLAIN
      else if channel_id = 0 \<and> message_id \<in> set CH0_PLAIN_IDS then ET_PLAIN
      else ET_ENCRYPTED)"

section \<open>Building frames\<close>

definition build_frame :: "int \<Rightarrow> int \<Rightarrow> bytes \<Rightarrow> int option \<Rightarrow> bytes res" where
  "build_frame channel_id flags payload total_size =
     rbind (pack_be 1 channel_id) (\<lambda>c.
     rbind (pack_be 1 flags) (\<lambda>f.
     rbind (pack_be 2 (int (length payload))) (\<lambda>n.
       (case total_size of
          Some t \<Rightarrow> (if flags AND 3 = FT_FIRST
                     then rbind (pack_be 4 t) (\<lambda>tb. Inr (c @ f @ n @ tb @ payload))
                     else Inr (c @ f @ n @ payload))
        | None \<Rightarrow> Inr (c @ f @ n @ payload)))))"

text \<open>The \<^verbatim>\<open>while\<close> loop of \<^verbatim>\<open>_build_multi_frame\<close>, from a given offset: the frames and the final offset.\<close>

function middle_frames :: "int \<Rightarrow> int \<Rightarrow> int \<Rightarrow> bytes \<Rightarrow> nat \<Rightarrow> (bytes list \<times> nat) res" where
  "middle_frames channel_id msg_type enc_type payload offset =
     (if offset + FRAME_SIZE_THRESHOLD < length payload
      then rbind (build_frame channel_id (FT_MIDDLE OR msg_type OR enc_type)
                    (take FRAME_SIZE_THRESHOLD (drop offset payload)) None)
             (\<lambda>f. rbind (middle_frames channel_id msg_type enc_type payload (offset + FRAME_SIZE_THRESHOLD))
             (\<lambda>r. Inr (f # fst r, snd r)))
      else Inr ([], offset))"
  by pat_completeness auto
termination
  by (relation "measure (\<lambda>(c, m, e, payload, offset). length payload - offset)")
    (auto simp: FRAME_SIZE_THRESHOLD_def)

declare middle_frames.simps [simp del]

definition build_multi_frame :: "int \<Rightarrow> int \<Rightarrow> int \<Rightarrow> bytes \<Rightarrow> bytes list res" where
  "build_multi_frame channel_id msg_type enc_type payload =
     rbind (build_frame channel_id (FT_FIRST OR msg_type OR enc_type)
              (take FRAME_SIZE_THRESHOLD payload) (Some (int (length payload))))
       (\<lambda>first. rbind (middle_frames channel_id msg_type enc_type payload FRAME_SIZE_THRESHOLD)
       (\<lambda>r. rbind (build_frame channel_id (FT_LAST OR msg_type OR enc_type) (drop (snd r) payload) None)
       (\<lambda>last. Inr (first # fst r @ [last]))))"

definition frame_payload :: "int \<Rightarrow> int \<Rightarrow> int \<Rightarrow> bytes \<Rightarrow> bytes list res" where
  "frame_payload channel_id msg_type enc_type payload =
     (if length payload \<le> FRAME_SIZE_THRESHOLD
      then rbind (build_frame channel_id (FT_BULK OR msg_type OR enc_type) payload None) (\<lambda>f. Inr [f])
      else build_multi_frame channel_id msg_type enc_type payload)"

text \<open>
  \<^verbatim>\<open>encode\<close>: the cryptor, when there is one, is threaded through, since encrypting advances it.
\<close>

definition encode :: "'e tls_lib \<Rightarrow> int \<Rightarrow> int \<Rightarrow> bytes \<Rightarrow> bool \<Rightarrow> 'e cryptor option
    \<Rightarrow> bytes list res \<times> 'e cryptor option" where
  "encode L channel_id message_id body ssl_active crypt =
     (let msg_type = message_type channel_id message_id;
          enc_type = encryption_type channel_id message_id ssl_active
      in case pack_be 2 message_id of
           Inl x \<Rightarrow> (Inl x, crypt)
         | Inr mid \<Rightarrow>
             (let payload = mid @ body in
              if enc_type = ET_ENCRYPTED then
                (case crypt of
                   None \<Rightarrow> (frame_payload channel_id msg_type ET_PLAIN payload, crypt)
                 | Some c \<Rightarrow>
                     (if \<not> active c then (frame_payload channel_id msg_type ET_PLAIN payload, crypt)
                      else
                        (case crypt_encrypt L payload c of
                           (Inl x, c') \<Rightarrow> (Inl x, Some c')
                         | (Inr ct, c') \<Rightarrow> (frame_payload channel_id msg_type enc_type ct, Some c'))))
              else (frame_payload channel_id msg_type enc_type payload, crypt)))"

section \<open>Reassembly\<close>

record chbuf =
  chunks :: "bytes list"
  total_size :: int
  first_flags :: int

type_synonym assembler = "(int, chbuf) dict"

text \<open>A raw frame off the wire: channel, flags, payload and, for FIRST frames, the declared total.\<close>

type_synonym rawframe = "int \<times> int \<times> bytes \<times> int"

definition asm_reset :: "int option \<Rightarrow> assembler \<Rightarrow> assembler" where
  "asm_reset channel_id bufs = (case channel_id of None \<Rightarrow> [] | Some c \<Rightarrow> ddel c bufs)"

definition feed :: "int \<Rightarrow> int \<Rightarrow> bytes \<Rightarrow> int \<Rightarrow> assembler \<Rightarrow> rawframe option \<times> assembler" where
  "feed channel_id flags payload tot bufs =
     (let frame_type = flags AND 3 in
      if frame_type = FT_BULK then (Some (channel_id, flags, payload, tot), bufs)
      else if frame_type = FT_FIRST then
        (None, dset channel_id \<lparr>chunks = [payload], total_size = tot, first_flags = flags\<rparr> bufs)
      else
        (case map_of bufs channel_id of
           None \<Rightarrow> (None, bufs)
         | Some buf \<Rightarrow>
             (let buf' = buf\<lparr>chunks := chunks buf @ [payload]\<rparr> in
              if frame_type = FT_LAST then
                (Some (channel_id, (first_flags buf AND NOT 3) OR FT_BULK, concat (chunks buf'), total_size buf'),
                 ddel channel_id bufs)
              else (None, dset channel_id buf' bufs))))"

text \<open>Feeding a sequence of frames, as one machine: the state is the buffers, the outputs are messages.\<close>

fun feed_step :: "assembler \<Rightarrow> rawframe \<Rightarrow> assembler \<times> rawframe list" where
  "feed_step bufs (c, f, p, t) =
     (let r = feed c f p t bufs in (snd r, (case fst r of None \<Rightarrow> [] | Some m \<Rightarrow> [m])))"

section \<open>The wire format\<close>

definition wire_enc :: "rawframe \<Rightarrow> bytes" where
  "wire_enc fr = (case fr of (c, f, p, t) \<Rightarrow>
     be_bytes 1 c @ be_bytes 1 f @ be_bytes 2 (int (length p)) @ (if f AND 3 = 1 then be_bytes 4 t else []) @ p)"

definition wire_valid :: "rawframe \<Rightarrow> bool" where
  "wire_valid fr = (case fr of (c, f, p, t) \<Rightarrow>
     0 \<le> c \<and> c < 256 \<and> 0 \<le> f \<and> f < 256 \<and> length p < 65536 \<and>
     (if f AND 3 = 1 then 0 \<le> t \<and> t < 256 ^ 4 else t = 0))"

fun split_chunks :: "nat \<Rightarrow> 'a list \<Rightarrow> 'a list list" where
  "split_chunks n xs = (if n = 0 \<or> length xs \<le> n then [xs] else take n xs # split_chunks n (drop n xs))"

declare split_chunks.simps [simp del]

text \<open>The frames a payload is sent as, \<open>k\<close> being the message and encryption bits.\<close>

definition raw_frames :: "int \<Rightarrow> int \<Rightarrow> bytes \<Rightarrow> rawframe list" where
  "raw_frames c k payload =
     (if length payload \<le> FRAME_SIZE_THRESHOLD then [(c, FT_BULK OR k, payload, 0)]
      else (let cs = split_chunks FRAME_SIZE_THRESHOLD (drop FRAME_SIZE_THRESHOLD payload) in
        (c, FT_FIRST OR k, take FRAME_SIZE_THRESHOLD payload, int (length payload))
        # map (\<lambda>p. (c, FT_MIDDLE OR k, p, 0)) (butlast cs) @ [(c, FT_LAST OR k, last cs, 0)]))"

text \<open>What a receiver should get from those frames.\<close>

definition whole_message :: "int \<Rightarrow> int \<Rightarrow> bytes \<Rightarrow> rawframe" where
  "whole_message c k payload =
     (c, FT_BULK OR k, payload, if length payload \<le> FRAME_SIZE_THRESHOLD then 0 else int (length payload))"

lemma split_chunks_ne [simp]: "split_chunks n xs \<noteq> []"
  by (subst split_chunks.simps) simp

lemma concat_split_chunks [simp]: "concat (split_chunks n xs) = xs"
  by (induction n xs rule: split_chunks.induct) (subst split_chunks.simps, simp)

lemma split_chunks_le: "0 < n \<Longrightarrow> p \<in> set (split_chunks n xs) \<Longrightarrow> length p \<le> n"
proof (induction n xs rule: split_chunks.induct)
  case (1 n xs)
  show ?case
  proof (cases "length xs \<le> n")
    case True
    with 1 show ?thesis by (simp add: split_chunks.simps [of n xs])
  next
    case False
    with 1 show ?thesis by (auto simp: split_chunks.simps [of n xs])
  qed
qed

lemma split_chunks_length:
  "0 < n \<Longrightarrow> xs \<noteq> [] \<Longrightarrow> length (split_chunks n xs) = (length xs + n - 1) div n"
proof (induction n xs rule: split_chunks.induct)
  case (1 n xs)
  show ?case
  proof (cases "length xs \<le> n")
    case True
    then have "(length xs + n - 1) div n = 1"
      using "1.prems" by (intro div_nat_eqI) (auto simp: neq_Nil_conv)
    with True show ?thesis by (simp add: split_chunks.simps [of n xs])
  next
    case False
    then have "length xs + n - 1 = (length xs - n + n - 1) + n" by simp
    then have "(length xs + n - 1) div n = Suc ((length xs - n + n - 1) div n)"
      using "1.prems"(1) by (metis div_add_self2 add.commute plus_1_eq_Suc less_numeral_extra(3))
    with False 1 show ?thesis by (simp add: split_chunks.simps [of n xs])
  qed
qed

lemma butlast_last_concat: "cs \<noteq> [] \<Longrightarrow> concat (butlast cs) @ last cs = concat cs"
  by (induction cs rule: rev_induct) auto


section \<open>Building produces the wire format\<close>

definition kind_bits :: "int \<Rightarrow> bool" where
  "kind_bits k \<longleftrightarrow> k = 0 \<or> k = 4 \<or> k = 8 \<or> k = 12"

lemma kind_bits_or:
  assumes "m = MT_SPECIFIC \<or> m = MT_CONTROL" and "e = ET_PLAIN \<or> e = ET_ENCRYPTED"
  shows "kind_bits (m OR e)"
  using assms by (auto simp: kind_bits_def frame_consts)

lemma message_type_cases: "message_type c m = MT_SPECIFIC \<or> message_type c m = MT_CONTROL"
  by (simp add: message_type_def)

lemma encryption_type_cases: "encryption_type c m a = ET_PLAIN \<or> encryption_type c m a = ET_ENCRYPTED"
  by (simp add: encryption_type_def)

text \<open>The frame-type bits and the others do not disturb each other.\<close>

lemma frame_flag_bits:
  assumes "kind_bits k"
  shows "(FT_FIRST OR k) AND 3 = FT_FIRST" "(FT_MIDDLE OR k) AND 3 = FT_MIDDLE"
    "(FT_LAST OR k) AND 3 = FT_LAST" "(FT_BULK OR k) AND 3 = FT_BULK"
    "((FT_FIRST OR k) AND NOT 3) OR FT_BULK = FT_BULK OR k"
    "(FT_BULK OR k) AND 8 = k AND 8"
  using assms by (auto simp: kind_bits_def frame_consts)

lemma frame_flag_range:
  assumes "kind_bits k"
  shows "0 \<le> FT_FIRST OR k" "FT_FIRST OR k < 256" "0 \<le> FT_MIDDLE OR k" "FT_MIDDLE OR k < 256"
    "0 \<le> FT_LAST OR k" "FT_LAST OR k < 256" "0 \<le> FT_BULK OR k" "FT_BULK OR k < 256"
  using assms by (auto simp: kind_bits_def frame_consts)

lemma build_frame_plain:
  assumes "0 \<le> c" "c < 256" "0 \<le> f" "f < 256" "length p < 65536" "f AND 3 \<noteq> FT_FIRST"
  shows "build_frame c f p None = Inr (wire_enc (c, f, p, 0))"
  using assms by (simp add: build_frame_def wire_enc_def pack_be_ok frame_consts)

lemma build_frame_first:
  assumes "0 \<le> c" "c < 256" "0 \<le> f" "f < 256" "length p < 65536" "f AND 3 = FT_FIRST" "0 \<le> t" "t < 256 ^ 4"
  shows "build_frame c f p (Some t) = Inr (wire_enc (c, f, p, t))"
  using assms by (simp add: build_frame_def wire_enc_def pack_be_ok frame_consts)

lemma build_middle:
  assumes "0 \<le> c" "c < 256" and "kind_bits (mt OR et)" and "length p < 65536"
  shows "build_frame c (FT_MIDDLE OR mt OR et) p None = Inr (wire_enc (c, FT_MIDDLE OR (mt OR et), p, 0))"
  using assms frame_flag_range [OF assms(3)] frame_flag_bits [OF assms(3)]
  by (subst build_frame_plain) (auto simp: or.assoc frame_consts)

lemma build_last:
  assumes "0 \<le> c" "c < 256" and "kind_bits (mt OR et)" and "length p < 65536"
  shows "build_frame c (FT_LAST OR mt OR et) p None = Inr (wire_enc (c, FT_LAST OR (mt OR et), p, 0))"
  using assms frame_flag_range [OF assms(3)] frame_flag_bits [OF assms(3)]
  by (subst build_frame_plain) (auto simp: or.assoc frame_consts)

lemma build_bulk:
  assumes "0 \<le> c" "c < 256" and "kind_bits (mt OR et)" and "length p < 65536"
  shows "build_frame c (FT_BULK OR mt OR et) p None = Inr (wire_enc (c, FT_BULK OR (mt OR et), p, 0))"
  using assms frame_flag_range [OF assms(3)] frame_flag_bits [OF assms(3)]
  by (subst build_frame_plain) (auto simp: or.assoc frame_consts)

lemma build_first:
  assumes "0 \<le> c" "c < 256" and "kind_bits (mt OR et)" and "length p < 65536" "0 \<le> t" "t < 256 ^ 4"
  shows "build_frame c (FT_FIRST OR mt OR et) p (Some t) = Inr (wire_enc (c, FT_FIRST OR (mt OR et), p, t))"
  using assms frame_flag_range [OF assms(3)] frame_flag_bits [OF assms(3)]
  by (subst build_frame_first) (auto simp: or.assoc)

lemma split_chunks_step: "0 < n \<Longrightarrow> n < length xs \<Longrightarrow> split_chunks n xs = take n xs # split_chunks n (drop n xs)"
  by (subst split_chunks.simps) simp

lemma split_chunks_one: "length xs \<le> n \<Longrightarrow> split_chunks n xs = [xs]"
  by (subst split_chunks.simps) simp

lemma threshold_pos: "0 < FRAME_SIZE_THRESHOLD" "FRAME_SIZE_THRESHOLD < 65536"
  by (simp_all add: FRAME_SIZE_THRESHOLD_def)

lemma middle_frames_ok:
  assumes "0 \<le> c" "c < 256" "kind_bits (mt OR et)" "off \<le> length payload"
  shows "\<exists>off'. middle_frames c mt et payload off
      = Inr (map (\<lambda>p. wire_enc (c, FT_MIDDLE OR (mt OR et), p, 0))
               (butlast (split_chunks FRAME_SIZE_THRESHOLD (drop off payload))), off') \<and>
    drop off' payload = last (split_chunks FRAME_SIZE_THRESHOLD (drop off payload))"
  using assms
proof (induction c mt et payload off rule: middle_frames.induct)
  case (1 ch mt et pl off)
  let ?T = FRAME_SIZE_THRESHOLD
  show ?case
  proof (cases "off + ?T < length pl")
    case False
    then show ?thesis
      by (simp add: middle_frames.simps [of ch mt et pl off] split_chunks_one)
  next
    case True
    let ?p = "take ?T (drop off pl)"
    have "length ?p < 65536" using threshold_pos by simp
    then have b: "build_frame ch (FT_MIDDLE OR mt OR et) ?p None
        = Inr (wire_enc (ch, FT_MIDDLE OR (mt OR et), ?p, 0))"
      using "1.prems" by (intro build_middle) auto
    have s: "split_chunks ?T (drop off pl) = ?p # split_chunks ?T (drop (off + ?T) pl)"
      using True threshold_pos by (subst split_chunks_step) (auto simp: add.commute)
    obtain off' where
      "middle_frames ch mt et pl (off + ?T) = Inr (map (\<lambda>p. wire_enc (ch, FT_MIDDLE OR (mt OR et), p, 0))
         (butlast (split_chunks ?T (drop (off + ?T) pl))), off')"
      "drop off' pl = last (split_chunks ?T (drop (off + ?T) pl))"
      using "1.IH" [OF True] "1.prems" True by auto
    with True b s show ?thesis
      by (simp add: middle_frames.simps [of ch mt et pl off])
  qed
qed

text \<open>Refinement: the code's frames are the wire encoding of \<open>raw_frames\<close>.\<close>

lemma frame_payload_ok:
  assumes "0 \<le> c" "c < 256" "kind_bits (mt OR et)" "length payload < 2 ^ 32"
  shows "frame_payload c mt et payload = Inr (map wire_enc (raw_frames c (mt OR et) payload))"
proof (cases "length payload \<le> FRAME_SIZE_THRESHOLD")
  case True
  with assms threshold_pos show ?thesis
    by (simp add: frame_payload_def raw_frames_def build_bulk)
next
  case False
  let ?T = FRAME_SIZE_THRESHOLD
  let ?cs = "split_chunks ?T (drop ?T payload)"
  obtain off' where mid: "middle_frames c mt et payload ?T
      = Inr (map (\<lambda>p. wire_enc (c, FT_MIDDLE OR (mt OR et), p, 0)) (butlast ?cs), off')"
    and off': "drop off' payload = last ?cs"
    using middle_frames_ok [of c mt et ?T payload] assms False by auto
  have "length (last ?cs) \<le> ?T"
    by (rule split_chunks_le [OF threshold_pos(1) last_in_set]) simp
  then have "length (last ?cs) < 65536" using threshold_pos by simp
  then have l: "build_frame c (FT_LAST OR mt OR et) (last ?cs) None
      = Inr (wire_enc (c, FT_LAST OR (mt OR et), last ?cs, 0))"
    using assms by (intro build_last) auto
  have f: "build_frame c (FT_FIRST OR mt OR et) (take ?T payload) (Some (int (length payload)))
      = Inr (wire_enc (c, FT_FIRST OR (mt OR et), take ?T payload, int (length payload)))"
    using assms threshold_pos by (intro build_first) auto
  show ?thesis
    using False mid off' l f
    by (simp add: frame_payload_def build_multi_frame_def raw_frames_def Let_def)
qed

lemma raw_frames_valid:
  assumes "0 \<le> c" "c < 256" "kind_bits k" "length payload < 2 ^ 32" "fr \<in> set (raw_frames c k payload)"
  shows "wire_valid fr"
proof -
  let ?T = FRAME_SIZE_THRESHOLD
  have ch: "length p < 65536" if "p \<in> set (split_chunks ?T xs)" for p and xs :: bytes
    using split_chunks_le [OF threshold_pos(1) that] threshold_pos by simp
  have mid: "p \<in> set (butlast (split_chunks ?T xs)) \<Longrightarrow> length p < 65536" for p and xs :: bytes
    by (rule ch) (rule in_set_butlastD)
  have la: "length (last (split_chunks ?T xs)) < 65536" for xs :: bytes
    by (rule ch [OF last_in_set]) simp
  have fst_len: "length (take ?T payload) < 65536" using threshold_pos by simp
  show ?thesis
    using assms(5) frame_flag_bits [OF assms(3)] frame_flag_range [OF assms(3)] assms(1,2,4) threshold_pos
    by (auto simp: raw_frames_def wire_valid_def Let_def mid la fst_len frame_consts simp del: length_take
        split: if_splits)
qed


section \<open>Reassembly\<close>

text \<open>A frame of another channel leaves a channel's buffer alone and yields nothing for it.\<close>

lemma feed_other:
  assumes "ch \<noteq> c"
  shows "map_of (snd (feed ch f p t A)) c = map_of A c"
    and "fst (feed ch f p t A) = Some m \<Longrightarrow> fst m \<noteq> c"
  using assms by (auto simp: feed_def Let_def dict_simps split: option.splits if_splits)

text \<open>What a frame does to its own channel depends on that channel's buffer only.\<close>

lemma feed_own:
  assumes "map_of A c = map_of B c"
  shows "fst (feed c f p t A) = fst (feed c f p t B)"
    and "map_of (snd (feed c f p t A)) c = map_of (snd (feed c f p t B)) c"
    and "fst (feed c f p t A) = Some m \<Longrightarrow> fst m = c"
  using assms by (auto simp: feed_def Let_def dict_simps split: option.splits if_splits)

lemma feed_dwf: "dwf A \<Longrightarrow> dwf (snd (feed c f p t A))"
  by (auto simp: feed_def Let_def split: option.splits)

interpretation asm: event_machine feed_step dwf "\<lambda>_. True"
proof
  fix A e
  show "dwf A \<Longrightarrow> dwf (fst (feed_step A e))"
    by (cases e) (auto simp: Let_def feed_dwf)
qed simp

lemma feed_run_project:
  assumes "map_of A c = map_of B c"
  shows "filter (\<lambda>m. fst m = c) (snd (run_events feed_step A fs))
      = snd (run_events feed_step B (filter (\<lambda>fr. fst fr = c) fs))"
  using assms
proof (induction fs arbitrary: A B)
  case (Cons fr fs)
  obtain ch f p t where fr: "fr = (ch, f, p, t)" by (cases fr)
  show ?case
  proof (cases "ch = c")
    case True
    have "map_of (snd (feed c f p t A)) c = map_of (snd (feed c f p t B)) c"
      using Cons.prems by (rule feed_own(2))
    then show ?thesis
      using Cons.IH feed_own [OF Cons.prems, of f p t] fr True
      by (auto simp: Let_def split: option.splits)
  next
    case False
    have "map_of (snd (feed ch f p t A)) c = map_of B c"
      using Cons.prems feed_other(1) [OF False] by simp
    then show ?thesis
      using Cons.IH feed_other(2) [OF False, of f p t A] fr False
      by (auto simp: Let_def split: option.splits)
  qed
qed simp

text \<open>MIDDLE frames of a channel with a buffer are appended to it.\<close>

lemma feed_middles:
  assumes k: "kind_bits k" and b: "map_of A c = Some b"
  shows "snd (run_events feed_step A (map (\<lambda>p. (c, FT_MIDDLE OR k, p, 0)) ps)) = [] \<and>
    map_of (fst (run_events feed_step A (map (\<lambda>p. (c, FT_MIDDLE OR k, p, 0)) ps))) =
      (map_of A)(c \<mapsto> b\<lparr>chunks := chunks b @ ps\<rparr>)"
  using b
proof (induction ps arbitrary: A b)
  case Nil
  then show ?case by auto
next
  case (Cons p ps)
  let ?b = "b\<lparr>chunks := chunks b @ [p]\<rparr>"
  have st: "feed c (FT_MIDDLE OR k) p 0 A = (None, dset c ?b A)"
    using frame_flag_bits(2) [OF k] Cons.prems by (simp add: feed_def Let_def frame_consts)
  have "map_of (dset c ?b A) c = Some ?b" by (simp add: dict_simps)
  from Cons.IH [OF this] show ?case
    using st by (auto simp: Let_def dict_simps fun_eq_iff)
qed

text \<open>The frames of one payload, fed in order, give the whole message and clear the channel.\<close>

lemma feed_raw_frames:
  assumes k: "kind_bits k"
  shows "snd (run_events feed_step A (raw_frames c k payload)) = [whole_message c k payload]"
    and "FRAME_SIZE_THRESHOLD < length payload \<Longrightarrow>
      map_of (fst (run_events feed_step A (raw_frames c k payload))) = (map_of A)(c := None)"
proof -
  let ?T = FRAME_SIZE_THRESHOLD
  let ?cs = "split_chunks ?T (drop ?T payload)"
  let ?b = "\<lparr>chunks = [take ?T payload], total_size = int (length payload), first_flags = FT_FIRST OR k\<rparr>"
  let ?A1 = "dset c ?b A"
  let ?mids = "map (\<lambda>p. (c, FT_MIDDLE OR k, p, 0)) (butlast ?cs)"
  let ?A2 = "fst (run_events feed_step ?A1 ?mids)"
  note bits = frame_flag_bits [OF k]
  have first: "feed c (FT_FIRST OR k) (take ?T payload) (int (length payload)) A = (None, ?A1)"
    using bits(1) by (simp add: feed_def Let_def frame_consts)
  have a1: "map_of ?A1 c = Some ?b" by (simp add: dict_simps)
  note mid = feed_middles [OF k a1, of "butlast ?cs"]
  have a2: "map_of ?A2 c = Some (?b\<lparr>chunks := take ?T payload # butlast ?cs\<rparr>)" using mid by simp
  have "concat (butlast ?cs) @ last ?cs = drop ?T payload" by (simp add: butlast_last_concat)
  then have whole: "concat ((take ?T payload # butlast ?cs) @ [last ?cs]) = payload" by simp
  have last: "feed c (FT_LAST OR k) (last ?cs) 0 ?A2
      = (Some (c, FT_BULK OR k, payload, int (length payload)), ddel c ?A2)"
    using bits(3,5) a2 whole by (simp add: feed_def Let_def frame_consts)
  have bulk: "length payload \<le> ?T \<Longrightarrow> feed c (FT_BULK OR k) payload 0 A = (Some (c, FT_BULK OR k, payload, 0), A)"
    using bits(4) by (simp add: feed_def)
  show "snd (run_events feed_step A (raw_frames c k payload)) = [whole_message c k payload]"
    using first mid last bulk
    by (simp add: raw_frames_def whole_message_def Let_def run_events_append)
  show "?T < length payload \<Longrightarrow>
      map_of (fst (run_events feed_step A (raw_frames c k payload))) = (map_of A)(c := None)"
    using first mid last
    by (auto simp: raw_frames_def Let_def run_events_append dict_simps fun_eq_iff)
qed

lemma feed_many:
  assumes "\<forall>km \<in> set ms. kind_bits (fst km)"
  shows "snd (run_events feed_step A (concat (map (\<lambda>(k, p). raw_frames c k p) ms)))
      = map (\<lambda>(k, p). whole_message c k p) ms"
  using assms
proof (induction ms arbitrary: A)
  case (Cons km ms)
  then show ?case
    by (cases km) (auto simp: run_events_append Let_def feed_raw_frames(1))
qed simp

section \<open>Properties\<close>

lemma build_frame_flags: "build_frame c f p t = Inr b \<Longrightarrow> b ! Suc 0 = word_of_int f"
  by (auto simp: build_frame_def rbind_Inr_iff pack_be_Inr split: option.splits if_splits)

lemma middle_frames_flags:
  "middle_frames c mt et p off = Inr (fs, off') \<Longrightarrow> f \<in> set fs \<Longrightarrow> f ! Suc 0 = word_of_int (FT_MIDDLE OR mt OR et)"
proof (induction c mt et p off arbitrary: fs rule: middle_frames.induct)
  case (1 c mt et p off)
  then show ?case
    by (auto simp: middle_frames.simps [of c mt et p off] rbind_Inr_iff dest: build_frame_flags split: if_splits)
qed

lemma frame_payload_flags:
  "frame_payload c mt et p = Inr fs \<Longrightarrow> f \<in> set fs \<Longrightarrow>
     \<exists>ft \<in> {FT_BULK, FT_FIRST, FT_MIDDLE, FT_LAST}. f ! 1 = word_of_int (ft OR mt OR et)"
  by (auto simp: frame_payload_def build_multi_frame_def rbind_Inr_iff
      dest!: build_frame_flags dest: middle_frames_flags split: if_splits)

text \<open>The encryption flag of every frame \<^verbatim>\<open>encode\<close> builds is set exactly when its payload was
  encrypted: the caller asked for it, the message is not one of the plaintext handshake messages of
  channel 0, and there is a cryptor whose handshake is complete.\<close>

theorem encode_flag_iff_encrypted:
  assumes "fst (encode L ch mid body ssl crypt) = Inr fs" and "f \<in> set fs"
  shows "f ! 1 AND 8 \<noteq> 0 \<longleftrightarrow>
    ssl \<and> \<not> (ch = 0 \<and> mid \<in> set CH0_PLAIN_IDS) \<and> (\<exists>c. crypt = Some c \<and> active c)"
proof -
  let ?mt = "message_type ch mid" and ?et = "encryption_type ch mid ssl"
  have bits: "(word_of_int (ft OR mt OR et) :: byte) AND 8 \<noteq> 0 \<longleftrightarrow> et = ET_ENCRYPTED"
    if "ft \<in> {FT_BULK, FT_FIRST, FT_MIDDLE, FT_LAST}" "mt = MT_SPECIFIC \<or> mt = MT_CONTROL"
      "et = ET_PLAIN \<or> et = ET_ENCRYPTED" for ft mt et
    using that by (auto simp: frame_consts)
  have fin: "f ! 1 AND 8 \<noteq> 0 \<longleftrightarrow> et = ET_ENCRYPTED"
    if "frame_payload ch ?mt et p = Inr fs" "et = ET_PLAIN \<or> et = ET_ENCRYPTED" for et p
    using frame_payload_flags [OF that(1) assms(2)] bits [OF _ message_type_cases that(2)] by metis
  have ne: "ET_PLAIN \<noteq> ET_ENCRYPTED" by (simp add: frame_consts)
  have pol: "?et = ET_ENCRYPTED \<longleftrightarrow> ssl \<and> \<not> (ch = 0 \<and> mid \<in> set CH0_PLAIN_IDS)"
    using ne by (auto simp: encryption_type_def)
  show ?thesis
    using assms(1) ne pol fin [of ?et, OF _ encryption_type_cases] fin [of ET_PLAIN]
    by (auto simp: encode_def Let_def split: sum.splits if_splits option.splits prod.splits)
qed

lemma encode_flag_iff_encrypted_witness:
  "fst (encode echo_tls 5 32768 [7] True (Some \<lparr>ssl_obj = Some [], active = True\<rparr>)) = Inr [[5, 11, 0, 0]] \<and>
   (([5, 11, 0, 0] :: bytes) ! 1 AND 8 \<noteq> 0 \<longleftrightarrow>
      True \<and> \<not> ((5::int) = 0 \<and> (32768::int) \<in> set CH0_PLAIN_IDS) \<and>
      (\<exists>c. Some \<lparr>ssl_obj = Some ([]::bytes), active = True\<rparr> = Some c \<and> active c))"
proof
  show e: "fst (encode echo_tls 5 32768 [7] True (Some \<lparr>ssl_obj = Some [], active = True\<rparr>)) = Inr [[5, 11, 0, 0]]"
    by code_simp
  show "([5, 11, 0, 0] :: bytes) ! 1 AND 8 \<noteq> 0 \<longleftrightarrow>
      True \<and> \<not> ((5::int) = 0 \<and> (32768::int) \<in> set CH0_PLAIN_IDS) \<and>
      (\<exists>c. Some \<lparr>ssl_obj = Some ([]::bytes), active = True\<rparr> = Some c \<and> active c)"
    by (rule encode_flag_iff_encrypted [OF e]) simp
qed

text \<open>A payload above the threshold is cut into as many frames as 4096-byte blocks are needed;
  no frame is longer than a block and its header, and the payloads of the frames put end to end are
  the payload.\<close>

theorem multi_frame_shape:
  assumes "0 \<le> c" "c < 256" "kind_bits (mt OR et)" "length p < 2 ^ 32" "FRAME_SIZE_THRESHOLD < length p"
  shows "\<exists>frs. frame_payload c mt et p = Inr (map wire_enc frs) \<and>
    length frs = (length p + 4095) div 4096 \<and> concat (map (\<lambda>(_, _, q, _). q) frs) = p \<and>
    (\<forall>fr \<in> set frs. length (wire_enc fr) \<le> 4104)"
proof (intro exI conjI)
  let ?T = FRAME_SIZE_THRESHOLD and ?frs = "raw_frames c (mt OR et) p"
  let ?cs = "split_chunks ?T (drop ?T p)"
  show "frame_payload c mt et p = Inr (map wire_enc ?frs)" by (rule frame_payload_ok [OF assms(1-4)])
  have "length ?cs = (length p - ?T + ?T - 1) div ?T"
    using assms(5) by (subst split_chunks_length) (auto simp: threshold_pos)
  moreover have "(length p + 4095) div 4096 = Suc ((length p - 1) div 4096)"
    using assms(5) by (simp add: FRAME_SIZE_THRESHOLD_def)
  moreover have "length ?frs = Suc (length ?cs)"
    using assms(5) by (simp add: raw_frames_def Let_def)
  ultimately show "length ?frs = (length p + 4095) div 4096"
    using assms(5) by (simp add: FRAME_SIZE_THRESHOLD_def)
  show "concat (map (\<lambda>(_, _, q, _). q) ?frs) = p"
    using assms(5) by (simp add: raw_frames_def Let_def comp_def flip: concat_append)
  have le: "q \<in> set ?cs \<Longrightarrow> length q \<le> 4096" for q
    using split_chunks_le [of ?T q "drop ?T p"] by (simp add: FRAME_SIZE_THRESHOLD_def)
  have "fr \<in> set ?frs \<Longrightarrow> length (fst (snd (snd fr))) \<le> 4096" for fr
    using assms(5) le [OF in_set_butlastD] le [OF last_in_set]
    by (auto simp: raw_frames_def Let_def FRAME_SIZE_THRESHOLD_def)
  then show "\<forall>fr \<in> set ?frs. length (wire_enc fr) \<le> 4104"
    by (fastforce simp: wire_enc_def)
qed

lemma multi_frame_shape_witness:
  "\<exists>frs. frame_payload 3 MT_SPECIFIC ET_PLAIN (replicate 5000 0) = Inr (map wire_enc frs) \<and>
    length frs = (length (replicate 5000 (0::byte)) + 4095) div 4096 \<and>
    concat (map (\<lambda>(_, _, q, _). q) frs) = replicate 5000 0 \<and> (\<forall>fr \<in> set frs. length (wire_enc fr) \<le> 4104)"
  by (rule multi_frame_shape) (simp_all add: kind_bits_def frame_consts FRAME_SIZE_THRESHOLD_def)

text \<open>Channels do not disturb each other in the assembler: what comes out for a channel is what
  would come out if the frames of that channel alone had been fed.\<close>

theorem assembler_isolates_channels:
  "filter (\<lambda>m. fst m = c) (snd (run_events feed_step A fs))
     = snd (run_events feed_step A (filter (\<lambda>fr. fst fr = c) fs))"
  by (rule feed_run_project) simp

text \<open>Reassembly recovers from any history: after any frames at all, complete or interrupted, the
  frames of one message give exactly that message, and a message of several frames leaves no buffer
  of its channel behind.\<close>

theorem assembler_recovers:
  assumes "kind_bits k"
  shows "snd (run_events feed_step A (fs @ raw_frames c k p))
      = snd (run_events feed_step A fs) @ [whole_message c k p] \<and>
    (length p \<le> FRAME_SIZE_THRESHOLD \<or>
     map_of (fst (run_events feed_step A (fs @ raw_frames c k p))) c = None)"
  using feed_raw_frames [OF assms, where A = "fst (run_events feed_step A fs)" and c = c and payload = p]
  by (cases "length p \<le> FRAME_SIZE_THRESHOLD") (simp_all add: run_events_append Let_def)

lemma assembler_recovers_witness:
  "snd (run_events feed_step [] ([(3, 1, [9], 100)] @ raw_frames 3 4 [1, 2]))
      = snd (run_events feed_step [] [(3, 1, [9], 100)]) @ [whole_message 3 4 [1, 2]] \<and>
    (length ([1, 2] :: bytes) \<le> FRAME_SIZE_THRESHOLD \<or>
     map_of (fst (run_events feed_step [] ([(3, 1, [9], 100)] @ raw_frames 3 4 [1, 2]))) 3 = None)"
  by (rule assembler_recovers) (simp add: kind_bits_def)

text \<open>A MIDDLE or LAST frame of a channel with no FIRST frame pending is dropped, and changes
  nothing.\<close>

theorem orphan_frame_dropped:
  assumes "map_of A c = None" and "f AND 3 = FT_MIDDLE \<or> f AND 3 = FT_LAST"
  shows "feed c f p t A = (None, A)"
  using assms by (auto simp: feed_def Let_def frame_consts)

lemma orphan_frame_dropped_witness: "feed 3 10 [1] 0 [] = (None, [])"
  by (rule orphan_frame_dropped) (simp_all add: frame_consts)

end
