(* ===== verification/Transport.thy ===== *)
theory Transport
  imports FrameCodec
begin

text \<open>
  Stream sockets as the code sees them, and the two interfaces the readers of the program are
  built on: reading exactly \<open>n\<close> bytes (\<open>exact_reader\<close>) and self-delimiting encodings
  (\<open>framing\<close>).
\<close>

section \<open>Receiving\<close>

text \<open>
  A receiving socket is what its future \<^verbatim>\<open>recv\<close> calls will meet: blocks of bytes as the kernel
  hands them over, or errors; the end of the list is the peer's close. \<^verbatim>\<open>recv(n)\<close> returns at most \<open>n\<close>
  bytes of the next block, and \<^verbatim>\<open>b""\<close> when the peer has closed.
\<close>

datatype recv_ev = Data bytes | RecvErr exn

type_synonym rsock = "recv_ev list"

fun recv :: "nat \<Rightarrow> rsock \<Rightarrow> bytes res \<times> rsock" where
  "recv n [] = (Inr [], [])"
| "recv n (RecvErr x # s) = (Inl x, s)"
| "recv n (Data bs # s) =
     (if length bs \<le> n then (Inr bs, s) else (Inr (take n bs), Data (drop n bs) # s))"

text \<open>The bytes that can still be read before an error or the close.\<close>

fun avail :: "rsock \<Rightarrow> bytes" where
  "avail [] = []"
| "avail (RecvErr x # s) = []"
| "avail (Data bs # s) = (if bs = [] then [] else bs @ avail s)"

lemma recv_nonempty:
  "recv n s = (Inr c, s') \<Longrightarrow> c \<noteq> [] \<Longrightarrow> length c \<le> n \<and> avail s = c @ avail s'"
  by (induction n s rule: recv.induct) (auto split: if_splits)

lemma recv_stop: "0 < n \<Longrightarrow> fst (recv n s) = Inr [] \<or> (\<exists>x. fst (recv n s) = Inl x) \<Longrightarrow> avail s = []"
  by (induction n s rule: recv.induct) (auto split: if_splits)

locale exact_reader =
  fixes rx :: "nat \<Rightarrow> rsock \<Rightarrow> bytes option \<times> rsock"
  assumes rx_enough: "n \<le> length (avail s) \<Longrightarrow>
      fst (rx n s) = Some (take n (avail s)) \<and> avail (snd (rx n s)) = drop n (avail s)"
    and rx_short: "length (avail s) < n \<Longrightarrow> fst (rx n s) = None"
begin

lemma rx_Some: "rx n s = (Some b, s') \<Longrightarrow> length b = n \<and> avail s = b @ avail s'"
  using rx_enough [of n s] rx_short [of s n] by (cases "n \<le> length (avail s)") auto

lemma rx_None: "rx n s = (None, s') \<Longrightarrow> length (avail s) < n"
  using rx_enough [of n s] by (cases "n \<le> length (avail s)") auto

lemma rx_step: "n \<le> length (avail s) \<Longrightarrow> \<exists>s'. rx n s = (Some (take n (avail s)), s') \<and> avail s' = drop n (avail s)"
  using rx_enough [of n s] by (cases "rx n s") auto

text \<open>Reading depends on the bytes on the wire only, not on how they were cut into blocks.\<close>

lemma rx_blocks: "avail s = avail t \<Longrightarrow>
    fst (rx n s) = fst (rx n t) \<and> (n \<le> length (avail s) \<longrightarrow> avail (snd (rx n s)) = avail (snd (rx n t)))"
  using rx_enough [of n s] rx_enough [of n t] rx_short [of s n] rx_short [of t n]
  by (cases "n \<le> length (avail s)") auto

end

section \<open>Sending\<close>

text \<open>
  A sending socket: how many bytes each coming \<^verbatim>\<open>send\<close> will take, or the error it raises, and the
  bytes written so far. Past the end of the list every \<^verbatim>\<open>send\<close> takes all it is given.
\<close>

datatype send_ev = Accept nat | SendErr exn

record wsock =
  caps :: "send_ev list"
  written :: bytes

fun take_cap :: "send_ev list \<Rightarrow> nat \<Rightarrow> nat res \<times> send_ev list" where
  "take_cap [] n = (Inr n, [])"
| "take_cap (Accept k # cs) n = (Inr (min k n), cs)"
| "take_cap (SendErr x # cs) n = (Inl x, cs)"

definition sock_send :: "bytes \<Rightarrow> wsock \<Rightarrow> nat res \<times> wsock" where
  "sock_send data w =
     (case take_cap (caps w) (length data) of
        (Inl x, cs) \<Rightarrow> (Inl x, w\<lparr>caps := cs\<rparr>)
      | (Inr n, cs) \<Rightarrow> (Inr n, w\<lparr>caps := cs, written := written w @ take n data\<rparr>))"

lemma take_cap_le: "take_cap cs n = (Inr k, cs') \<Longrightarrow> k \<le> n"
  by (induction cs n rule: take_cap.induct) auto

lemma sock_send_Inr: "sock_send data w = (Inr n, w') \<Longrightarrow> n \<le> length data \<and> written w' = written w @ take n data"
  by (auto simp: sock_send_def split: prod.splits sum.splits dest: take_cap_le)

lemma sock_send_Inl: "sock_send data w = (Inl x, w') \<Longrightarrow> written w' = written w"
  by (auto simp: sock_send_def split: prod.splits sum.splits)

section \<open>Self-delimiting encodings\<close>

text \<open>All items at the front of a byte string.\<close>

function decode_stream :: "(bytes \<Rightarrow> ('a \<times> bytes) option) \<Rightarrow> bytes \<Rightarrow> 'a list \<times> bytes" where
  "decode_stream dec bs =
     (case dec bs of
        None \<Rightarrow> ([], bs)
      | Some (x, rest) \<Rightarrow>
          (if length rest < length bs then (let r = decode_stream dec rest in (x # fst r, snd r)) else ([], bs)))"
  by pat_completeness auto
termination
  by (relation "measure (\<lambda>(dec, bs). length bs)") auto

declare decode_stream.simps [simp del]

locale framing =
  fixes valid :: "'a \<Rightarrow> bool"
    and enc :: "'a \<Rightarrow> bytes"
    and dec :: "bytes \<Rightarrow> ('a \<times> bytes) option"
  assumes dec_enc: "valid x \<Longrightarrow> dec (enc x @ rest) = Some (x, rest)"
    and dec_inv: "dec bs = Some (x, rest) \<Longrightarrow> valid x \<and> bs = enc x @ rest"
    and enc_ne: "enc x \<noteq> []"
begin

lemma dec_shrinks: "dec bs = Some (x, rest) \<Longrightarrow> length rest < length bs"
  using dec_inv [of bs x rest] enc_ne [of x] by auto

lemma enc_inj: "valid x \<Longrightarrow> valid y \<Longrightarrow> enc x = enc y \<Longrightarrow> x = y"
  using dec_enc [of x "[]"] dec_enc [of y "[]"] by simp

text \<open>A truncated item is not taken for a complete one.\<close>

lemma dec_truncated:
  assumes "valid x" and "enc x = p @ q" and "q \<noteq> []"
  shows "dec p = None"
proof (rule ccontr)
  assume "dec p \<noteq> None"
  then obtain y r where "dec p = Some (y, r)" by auto
  then have y: "valid y" and p: "p = enc y @ r" using dec_inv by blast+
  have "dec (enc y @ (r @ q)) = Some (y, r @ q)" using y by (rule dec_enc)
  moreover have "dec (enc y @ (r @ q)) = Some (x, [])"
    using dec_enc [OF assms(1), of "[]"] assms(2) p by simp
  ultimately show False using assms(3) by simp
qed

lemma stream_dec:
  assumes "\<forall>x \<in> set xs. valid x"
  shows "decode_stream dec (concat (map enc xs) @ tail) = (xs @ fst (decode_stream dec tail), snd (decode_stream dec tail))"
  using assms
proof (induction xs)
  case (Cons x xs)
  let ?rest = "concat (map enc xs) @ tail"
  have d: "dec (enc x @ ?rest) = Some (x, ?rest)" using Cons.prems by (intro dec_enc) simp
  have "length ?rest < length (enc x @ ?rest)" using enc_ne [of x] by simp
  with d Cons show ?case by (simp add: decode_stream.simps [of dec "enc x @ ?rest"] Let_def)
qed simp

end

section \<open>The AA wire format is self-delimiting\<close>

definition wire_dec :: "bytes \<Rightarrow> (rawframe \<times> bytes) option" where
  "wire_dec bs =
     (if length bs < 4 then None
      else (let c = be_val (take 1 bs); f = be_val (take 1 (drop 1 bs));
                n = nat (be_val (take 2 (drop 2 bs))); r = drop 4 bs
        in if f AND 3 = 1 then
             (if length r < 4 + n then None
              else Some ((c, f, take n (drop 4 r), be_val (take 4 r)), drop n (drop 4 r)))
           else if length r < n then None
           else Some ((c, f, take n r, 0), drop n r)))"

lemma wire_dec_enc: "wire_valid fr \<Longrightarrow> wire_dec (wire_enc fr @ rest) = Some (fr, rest)"
proof -
  obtain c f p t where fr: "fr = (c, f, p, t)" by (cases fr)
  assume v: "wire_valid fr"
  let ?n = "be_bytes 2 (int (length p))"
  let ?bs = "wire_enc fr @ rest"
  have bs: "?bs = be_bytes 1 c @ be_bytes 1 f @ ?n @ (if f AND 3 = 1 then be_bytes 4 t else []) @ p @ rest"
    by (simp add: wire_enc_def fr)
  have h: "take 1 ?bs = be_bytes 1 c" "take 1 (drop 1 ?bs) = be_bytes 1 f" "take 2 (drop 2 ?bs) = ?n"
    "drop 4 ?bs = (if f AND 3 = 1 then be_bytes 4 t else []) @ p @ rest" "\<not> length ?bs < 4"
    unfolding bs by simp_all
  have v1: "be_val (be_bytes 1 c) = c" "be_val (be_bytes 1 f) = f"
    by (rule be_val_pack; use v in \<open>simp add: wire_valid_def fr\<close>)+
  have "be_val ?n = int (length p)"
    by (rule be_val_pack) (use v in \<open>auto simp: wire_valid_def fr\<close>)
  then have v2: "nat (be_val ?n) = length p" by simp
  have v3: "f AND 3 = 1 \<Longrightarrow> be_val (be_bytes 4 t) = t" "f AND 3 \<noteq> 1 \<Longrightarrow> t = 0"
    using v by (auto simp: wire_valid_def fr intro!: be_val_pack)
  note vals = v1 v2
  show ?thesis
    unfolding wire_dec_def h Let_def vals using v3 h(5) by (simp add: fr)
qed

lemma wire_dec_inv:
  assumes "wire_dec bs = Some (fr, rest)"
  shows "wire_valid fr \<and> bs = wire_enc fr @ rest"
proof -
  let ?c = "be_val (take 1 bs)" and ?f = "be_val (take 1 (drop 1 bs))"
  let ?n = "nat (be_val (take 2 (drop 2 bs)))" and ?r = "drop 4 bs"
  have len: "4 \<le> length bs" using assms by (auto simp: wire_dec_def split: if_splits)
  have e1: "be_bytes 1 ?c = take 1 bs" "be_bytes 1 ?f = take 1 (drop 1 bs)"
    using len be_bytes_be_val [of "take 1 bs"] be_bytes_be_val [of "take 1 (drop 1 bs)"] by simp_all
  have e2: "be_bytes 2 (be_val (take 2 (drop 2 bs))) = take 2 (drop 2 bs)"
    using len be_bytes_be_val [of "take 2 (drop 2 bs)"] by simp
  have nn: "int ?n = be_val (take 2 (drop 2 bs))" using be_val_ge0 by simp
  have rng: "0 \<le> ?c" "?c < 256" "0 \<le> ?f" "?f < 256" "?n < 65536"
    using len be_val_ge0 be_val_lt [of "take 1 bs"] be_val_lt [of "take 1 (drop 1 bs)"]
      be_val_lt [of "take 2 (drop 2 bs)"] nn by simp_all
  have split4: "bs = take 1 bs @ take 1 (drop 1 bs) @ take 2 (drop 2 bs) @ ?r"
    by (metis append_take_drop_id drop_drop numeral_Bit0 one_add_one add.assoc)
  show ?thesis
  proof (cases "?f AND 3 = 1")
    case True
    have l: "4 + ?n \<le> length ?r" and fr: "fr = (?c, ?f, take ?n (drop 4 ?r), be_val (take 4 ?r))"
      and rest: "rest = drop ?n (drop 4 ?r)"
      using assms True len by (auto simp: wire_dec_def Let_def split: if_splits)
    have e4: "be_bytes 4 (be_val (take 4 ?r)) = take 4 ?r"
      using l be_bytes_be_val [of "take 4 ?r"] by simp
    have lp: "length (take ?n (drop 4 ?r)) = ?n" using l by simp
    have "be_val (take 4 ?r) < 256 ^ 4" using be_val_lt [of "take 4 ?r"] l by simp
    then have v: "wire_valid fr"
      using rng lp True be_val_ge0 by (simp add: wire_valid_def fr)
    have "?r = take 4 ?r @ take ?n (drop 4 ?r) @ rest" unfolding rest by (metis append_take_drop_id)
    then have "bs = wire_enc fr @ rest"
      using split4 True unfolding wire_enc_def fr by (simp only: prod.case lp nn e1 e2 e4 if_True simp_thms append_assoc)
    with v show ?thesis by simp
  next
    case False
    have l: "?n \<le> length ?r" and fr: "fr = (?c, ?f, take ?n ?r, 0)" and rest: "rest = drop ?n ?r"
      using assms False len by (auto simp: wire_dec_def Let_def split: if_splits)
    have lp: "length (take ?n ?r) = ?n" using l by simp
    have v: "wire_valid fr" using rng lp False by (simp add: wire_valid_def fr)
    have "?r = take ?n ?r @ rest" unfolding rest by (rule append_take_drop_id [symmetric])
    then have "bs = wire_enc fr @ rest"
      using split4 False unfolding wire_enc_def fr
      by (simp only: prod.case lp nn e1 e2 if_False append_assoc append_Nil)
    with v show ?thesis by simp
  qed
qed

interpretation aa_wire: framing wire_valid wire_enc wire_dec
proof
  show "wire_enc x \<noteq> []" for x by (cases x) (simp add: wire_enc_def)
qed (simp_all add: wire_dec_enc wire_dec_inv)

end
