(* ===== verification/FrameRelay.thy ===== *)
theory FrameRelay
  imports Transport
begin

text \<open>
  \<^verbatim>\<open>v2/modules/tcp_server/frame_relay.py\<close>: reading AA frames off the socket and handing each to a
  callback, and writing encoded frames back. The callbacks are parameters that act on the state
  \<open>'s\<close> of their owner, may raise, and may never return (\<open>None\<close>); the flag \<^verbatim>\<open>_running\<close> is read from that state, since a
  callback (through \<^verbatim>\<open>stop\<close>) is what clears it.
\<close>

definition FRAME_HEADER_SIZE :: nat where "FRAME_HEADER_SIZE = 2"
definition FRAME_SIZE_FIELD :: nat where "FRAME_SIZE_FIELD = 2"
definition FRAME_TOTAL_LEN_FIELD :: nat where "FRAME_TOTAL_LEN_FIELD = 4"
definition FRAMETYPE_FIRST :: int where "FRAMETYPE_FIRST = 1"

lemmas relay_consts = FRAME_HEADER_SIZE_def FRAME_SIZE_FIELD_def FRAME_TOTAL_LEN_FIELD_def FRAMETYPE_FIRST_def

section \<open>Reading\<close>

text \<open>\<^verbatim>\<open>_recv_exact\<close>: every exception of \<^verbatim>\<open>recv\<close>, and the peer's close, give \<^verbatim>\<open>None\<close>.\<close>

function recv_exact_from :: "nat \<Rightarrow> bytes \<Rightarrow> rsock \<Rightarrow> bytes option \<times> rsock" where
  "recv_exact_from n buf s =
     (if length buf < n then
        (case recv (n - length buf) s of
           (Inl x, s') \<Rightarrow> (None, s')
         | (Inr chunk, s') \<Rightarrow> (if chunk = [] then (None, s') else recv_exact_from n (buf @ chunk) s'))
      else (Some buf, s))"
  by pat_completeness auto
termination
  by (relation "measure (\<lambda>(n, buf, s). n - length buf)") (auto simp: length_greater_0_conv [symmetric] simp del: length_greater_0_conv)

declare recv_exact_from.simps [simp del]

definition recv_exact :: "nat \<Rightarrow> rsock \<Rightarrow> bytes option \<times> rsock" where
  "recv_exact n s = recv_exact_from n [] s"

text \<open>Steps 3 and 4 of \<^verbatim>\<open>_read_frame\<close>: the total-length field of FIRST frames, and the payload.\<close>

definition read_total :: "int \<Rightarrow> rsock \<Rightarrow> int option \<times> rsock" where
  "read_total frame_type s =
     (if frame_type = FRAMETYPE_FIRST then
        (case recv_exact FRAME_TOTAL_LEN_FIELD s of
           (None, s') \<Rightarrow> (None, s')
         | (Some f, s') \<Rightarrow> (Some (be_val f), s'))
      else (Some 0, s))"

definition read_payload :: "nat \<Rightarrow> rsock \<Rightarrow> bytes option \<times> rsock" where
  "read_payload n s = (if n \<noteq> 0 then recv_exact n s else (Some [], s))"

definition read_frame :: "rsock \<Rightarrow> rawframe option \<times> rsock" where
  "read_frame s =
     (case recv_exact FRAME_HEADER_SIZE s of
        (None, s1) \<Rightarrow> (None, s1)
      | (Some header, s1) \<Rightarrow>
          (let channel_id = be_val (take 1 header); flags = be_val (take 1 (drop 1 header)) in
           case recv_exact FRAME_SIZE_FIELD s1 of
             (None, s2) \<Rightarrow> (None, s2)
           | (Some size_field, s2) \<Rightarrow>
               (case read_total (flags AND 3) s2 of
                  (None, s3) \<Rightarrow> (None, s3)
                | (Some tot, s3) \<Rightarrow>
                    (case read_payload (nat (be_val size_field)) s3 of
                       (None, s4) \<Rightarrow> (None, s4)
                     | (Some payload, s4) \<Rightarrow> (Some (channel_id, flags, payload, tot), s4)))))"

lemma recv_exact_from_spec:
  "length buf \<le> n \<Longrightarrow>
   (if n - length buf \<le> length (avail s)
    then fst (recv_exact_from n buf s) = Some (buf @ take (n - length buf) (avail s)) \<and>
         avail (snd (recv_exact_from n buf s)) = drop (n - length buf) (avail s)
    else fst (recv_exact_from n buf s) = None)"
proof (induction n buf s rule: recv_exact_from.induct)
  case (1 n buf s)
  show ?case
  proof (cases "length buf < n")
    case False
    with "1.prems" show ?thesis by (simp add: recv_exact_from.simps [of n buf s])
  next
    case True
    obtain r s' where rs: "recv (n - length buf) s = (r, s')" by (cases "recv (n - length buf) s")
    show ?thesis
    proof (cases "\<exists>c. r = Inr c \<and> c \<noteq> []")
      case False
      then have "avail s = []"
        using recv_stop [of "n - length buf" s] rs True by (cases r) auto
      with False True rs show ?thesis
        by (cases r) (auto simp: recv_exact_from.simps [of n buf s])
    next
      case True': True
      then obtain c where r: "r = Inr c" "c \<noteq> []" by blast
      have c: "length c \<le> n - length buf" "avail s = c @ avail s'"
        using recv_nonempty rs r by blast+
      have le: "length (buf @ c) \<le> n" using c True by simp
      have st: "recv_exact_from n buf s = recv_exact_from n (buf @ c) s'"
        using True rs r by (simp add: recv_exact_from.simps [of n buf s])
      have "n - length buf = length c + (n - length (buf @ c))" using c True by simp
      then show ?thesis
        using "1.IH" [OF True _ _ r(2) le] rs r(1) st c(2) by simp
    qed
  qed
qed

interpretation relay_rx: exact_reader recv_exact
  by unfold_locales
    (use recv_exact_from_spec [of "[]"] in \<open>auto simp: recv_exact_def split: if_splits\<close>)

lemma read_payload_spec:
  "(if n \<le> length (avail s)
    then \<exists>s'. read_payload n s = (Some (take n (avail s)), s') \<and> avail s' = drop n (avail s)
    else \<exists>s'. read_payload n s = (None, s'))"
  using relay_rx.rx_step [of n s] relay_rx.rx_short [of s n]
  by (cases "recv_exact n s") (auto simp: read_payload_def not_le)

lemma read_total_spec:
  "(if ft = 1
    then (if 4 \<le> length (avail s)
          then \<exists>s'. read_total ft s = (Some (be_val (take 4 (avail s))), s') \<and> avail s' = drop 4 (avail s)
          else \<exists>s'. read_total ft s = (None, s'))
    else read_total ft s = (Some 0, s))"
  using relay_rx.rx_step [of 4 s] relay_rx.rx_short [of s 4]
  by (cases "recv_exact 4 s") (auto simp: read_total_def relay_consts not_le)

text \<open>Reading a frame is parsing the bytes on the wire, however they arrive.\<close>

lemma read_frame_short: "length (avail s) < 4 \<Longrightarrow> fst (read_frame s) = None"
proof (cases "recv_exact 2 s")
  case (Pair h s1)
  assume short: "length (avail s) < 4"
  show ?thesis
  proof (cases h)
    case (Some header)
    then have "length (avail s1) < 2" using short relay_rx.rx_Some [of 2 s header s1] Pair by auto
    then have "fst (recv_exact 2 s1) = None" by (rule relay_rx.rx_short)
    then show ?thesis using Pair Some
      by (cases "recv_exact 2 s1") (auto simp: read_frame_def relay_consts Let_def)
  qed (use Pair in \<open>simp add: read_frame_def relay_consts\<close>)
qed

lemma read_frame_long:
  assumes "4 \<le> length (avail s)"
  shows "\<exists>s2. avail s2 = drop 4 (avail s) \<and>
    read_frame s =
     (case read_total (be_val (take 1 (drop 1 (avail s))) AND 3) s2 of
        (None, s3) \<Rightarrow> (None, s3)
      | (Some tot, s3) \<Rightarrow>
          (case read_payload (nat (be_val (take 2 (drop 2 (avail s))))) s3 of
             (None, s4) \<Rightarrow> (None, s4)
           | (Some payload, s4) \<Rightarrow>
               (Some (be_val (take 1 (avail s)), be_val (take 1 (drop 1 (avail s))), payload, tot), s4)))"
proof -
  obtain s1 where s1: "recv_exact 2 s = (Some (take 2 (avail s)), s1)" "avail s1 = drop 2 (avail s)"
    using relay_rx.rx_step [of 2 s] assms by auto
  have "2 \<le> length (avail s1)" using s1(2) assms by simp
  then obtain s2 where s2: "recv_exact 2 s1 = (Some (take 2 (avail s1)), s2)" "avail s2 = drop 2 (avail s1)"
    using relay_rx.rx_step [of 2 s1] by auto
  have h: "take 1 (take 2 (avail s)) = take 1 (avail s)"
    "take 1 (drop 1 (take 2 (avail s))) = take 1 (drop 1 (avail s))"
    by (simp_all add: min_def drop_take)
  show ?thesis
  proof (intro exI [of _ s2] conjI)
    show "avail s2 = drop 4 (avail s)" using s1(2) s2(2) by simp
  qed (simp only: read_frame_def relay_consts s1(1) s2(1) [unfolded s1(2)] prod.case option.case Let_def h)
qed

lemma read_frame_parse:
  "(case wire_dec (avail s) of
      None \<Rightarrow> fst (read_frame s) = None
    | Some (fr, rest) \<Rightarrow> fst (read_frame s) = Some fr \<and> avail (snd (read_frame s)) = rest)"
proof (cases "4 \<le> length (avail s)")
  case False
  then show ?thesis using read_frame_short [of s] by (simp add: wire_dec_def)
next
  case True
  let ?n = "nat (be_val (take 2 (drop 2 (avail s))))"
  obtain s2 where a2: "avail s2 = drop 4 (avail s)"
    and rf: "read_frame s =
     (case read_total (be_val (take 1 (drop 1 (avail s))) AND 3) s2 of
        (None, s3) \<Rightarrow> (None, s3)
      | (Some tot, s3) \<Rightarrow>
          (case read_payload ?n s3 of
             (None, s4) \<Rightarrow> (None, s4)
           | (Some payload, s4) \<Rightarrow>
               (Some (be_val (take 1 (avail s)), be_val (take 1 (drop 1 (avail s))), payload, tot), s4)))"
    using read_frame_long [OF True] by blast
  show ?thesis
  proof (cases "be_val (take 1 (drop 1 (avail s))) AND 3 = 1")
    case False
    then have "read_total (be_val (take 1 (drop 1 (avail s))) AND 3) s2 = (Some 0, s2)"
      using read_total_spec [of "be_val (take 1 (drop 1 (avail s))) AND 3" s2] by simp
    with False True a2 rf read_payload_spec [of ?n s2] show ?thesis
      by (auto simp: wire_dec_def Let_def split: if_splits)
  next
    case first: True
    show ?thesis
    proof (cases "4 \<le> length (avail s2)")
      case False
      then have "fst (read_frame s) = None"
        using rf first read_total_spec [of 1 s2] by auto
      moreover have "wire_dec (avail s) = None"
        using False first True a2 by (simp add: wire_dec_def Let_def)
      ultimately show ?thesis by simp
    next
      case four: True
      then obtain s3 where "read_total 1 s2 = (Some (be_val (take 4 (avail s2))), s3)"
        and a3: "avail s3 = drop 4 (avail s2)"
        using read_total_spec [of 1 s2] by auto
      with first rf have rf2: "read_frame s = (case read_payload ?n s3 of
             (None, s4) \<Rightarrow> (None, s4)
           | (Some payload, s4) \<Rightarrow>
               (Some (be_val (take 1 (avail s)), be_val (take 1 (drop 1 (avail s))), payload,
                      be_val (take 4 (avail s2))), s4))"
        by simp
      show ?thesis
        using rf2 read_payload_spec [of ?n s3] first True four a2 a3
        by (auto simp: wire_dec_def Let_def split: if_splits)
    qed
  qed
qed

lemma read_frame_cases:
  "read_frame s = (Some fr, s') \<Longrightarrow> wire_dec (avail s) = Some (fr, avail s')"
  using read_frame_parse [of s] by (auto split: option.splits)

lemma read_frame_shrinks: "read_frame s = (Some fr, s') \<Longrightarrow> length (avail s') < length (avail s)"
  using read_frame_cases aa_wire.dec_shrinks by blast

lemma read_frame_None:
  "read_frame s = (None, s') \<Longrightarrow> wire_dec (avail s) = None"
  using read_frame_parse [of s] by (auto split: option.splits)

section \<open>The receive loop\<close>

type_synonym 's callback = "'s \<Rightarrow> (exn option \<times> 's) option"

function relay_loop :: "('s \<Rightarrow> bool) \<Rightarrow> (rawframe \<Rightarrow> 's callback) \<Rightarrow> rsock \<Rightarrow> 's
    \<Rightarrow> (exn option \<times> 's) option" where
  "relay_loop running on_frame s st =
     (if running st then
        (case read_frame s of
           (None, s') \<Rightarrow> Some (None, st)
         | (Some fr, s') \<Rightarrow>
             (case on_frame fr st of
                None \<Rightarrow> None
              | Some (Some x, st') \<Rightarrow> Some (Some x, st')
              | Some (None, st') \<Rightarrow> relay_loop running on_frame s' st'))
      else Some (None, st))"
  by pat_completeness auto
termination
  by (relation "measure (\<lambda>(running, on_frame, s, st). length (avail s))")
    (auto dest: read_frame_shrinks read_frame_shrinks [OF sym])

declare relay_loop.simps [simp del]

text \<open>\<^verbatim>\<open>start\<close>: the \<^verbatim>\<open>finally\<close> block clears the flag and tells the owner, whatever ended the loop; an
  exception of the owner's callback replaces the loop's.\<close>

definition relay_start :: "('s \<Rightarrow> bool) \<Rightarrow> (bool \<Rightarrow> 's \<Rightarrow> 's) \<Rightarrow> (rawframe \<Rightarrow> 's callback)
    \<Rightarrow> ('s \<Rightarrow> exn option \<times> 's) \<Rightarrow> rsock \<Rightarrow> 's callback" where
  "relay_start running set_running on_frame on_closed s st =
     map_option (\<lambda>(x, st1). (let (y, st2) = on_closed (set_running False st1)
                             in (case y of None \<Rightarrow> x | Some e \<Rightarrow> Some e, st2)))
       (relay_loop running on_frame s (set_running True st))"

section \<open>Writing\<close>

function send_raw_from :: "bytes \<Rightarrow> nat \<Rightarrow> wsock \<Rightarrow> exn option \<times> wsock" where
  "send_raw_from data tot w =
     (if tot < length data then
        (case sock_send (drop tot data) w of
           (Inl x, w') \<Rightarrow> (Some x, w')
         | (Inr sent, w') \<Rightarrow> (if sent = 0 then (Some BrokenPipeError, w') else send_raw_from data (tot + sent) w'))
      else (None, w))"
  by pat_completeness auto
termination
  by (relation "measure (\<lambda>(data, tot, w). length data - tot)") auto

declare send_raw_from.simps [simp del]

definition send_raw :: "bytes \<Rightarrow> wsock \<Rightarrow> exn option \<times> wsock" where
  "send_raw data w = send_raw_from data 0 w"

lemma send_raw_from_written:
  "tot \<le> length data \<Longrightarrow> send_raw_from data tot w = (x, w') \<Longrightarrow>
   (x = None \<longrightarrow> written w' = written w @ drop tot data) \<and>
   (\<exists>n. written w' = written w @ take n (drop tot data))"
proof (induction data tot w arbitrary: x w' rule: send_raw_from.induct)
  case (1 data tot w)
  show ?case
  proof (cases "tot < length data")
    case False
    with "1.prems"(2) have "x = None" "w' = w" by (simp_all add: send_raw_from.simps [of data tot w])
    with False show ?thesis by simp
  next
    case True
    obtain r w1 where rs: "sock_send (drop tot data) w = (r, w1)" by (cases "sock_send (drop tot data) w")
    show ?thesis
    proof (cases r)
      case (Inl e)
      then have "written w1 = written w" using rs sock_send_Inl by blast
      with Inl rs True "1.prems" show ?thesis
        by (auto simp: send_raw_from.simps [of data tot w] intro: exI [of _ 0])
    next
      case (Inr sent)
      have sn: "sent \<le> length data - tot" "written w1 = written w @ take sent (drop tot data)"
        using sock_send_Inr [of "drop tot data" w sent w1] rs Inr by auto
      show ?thesis
      proof (cases "sent = 0")
        case True': True
        with Inr rs True "1.prems" sn show ?thesis
          by (auto simp: send_raw_from.simps [of data tot w] intro: exI [of _ 0])
      next
        case False
        have le: "tot + sent \<le> length data" using sn True by simp
        have st: "send_raw_from data (tot + sent) w1 = (x, w')"
          using "1.prems" True rs Inr False by (simp add: send_raw_from.simps [of data tot w])
        from "1.IH" [OF True rs [symmetric] Inr False le st]
        obtain n where a: "x = None \<longrightarrow> written w' = written w1 @ drop (tot + sent) data"
          and b: "written w' = written w1 @ take n (drop (tot + sent) data)" by blast
        have cat: "take sent (drop tot data) @ drop (tot + sent) data = drop tot data"
          by (metis append_take_drop_id drop_drop add.commute)
        have "take sent (drop tot data) @ take n (drop (tot + sent) data) = take (sent + n) (drop tot data)"
          by (simp only: take_add drop_drop) (simp add: add.commute)
        with a b cat sn(2) show ?thesis by auto
      qed
    qed
  qed
qed


section \<open>What the relay delivers\<close>

text \<open>Handing over a list of frames one by one, as long as nothing raises and the flag stays up.\<close>

fun deliver :: "('s \<Rightarrow> bool) \<Rightarrow> (rawframe \<Rightarrow> 's callback) \<Rightarrow> rawframe list \<Rightarrow> 's callback" where
  "deliver running on_frame [] st = Some (None, st)"
| "deliver running on_frame (fr # frs) st =
     (if running st then
        (case on_frame fr st of
           None \<Rightarrow> None
         | Some (Some x, st') \<Rightarrow> Some (Some x, st')
         | Some (None, st') \<Rightarrow> deliver running on_frame frs st')
      else Some (None, st))"

lemma relay_loop_delivers:
  "relay_loop running on_frame s st = deliver running on_frame (fst (decode_stream wire_dec (avail s))) st"
proof (induction running on_frame s st rule: relay_loop.induct)
  case (1 running on_frame s st)
  show ?case
  proof (cases "read_frame s")
    case (Pair r s')
    show ?thesis
    proof (cases r)
      case None
      then have "wire_dec (avail s) = None" using Pair read_frame_None by blast
      with None Pair show ?thesis
        by (simp add: relay_loop.simps [of running on_frame s st] decode_stream.simps [of wire_dec "avail s"])
    next
      case (Some fr)
      then have d: "wire_dec (avail s) = Some (fr, avail s')" using Pair read_frame_cases by blast
      then have l: "length (avail s') < length (avail s)" by (rule aa_wire.dec_shrinks)
      have ds: "fst (decode_stream wire_dec (avail s)) = fr # fst (decode_stream wire_dec (avail s'))"
        using d l by (simp add: decode_stream.simps [of wire_dec "avail s"] Let_def)
      have IH: "relay_loop running on_frame s' st' = deliver running on_frame (fst (decode_stream wire_dec (avail s'))) st'"
        if "running st" "on_frame fr st = Some (None, st')" for st'
        using "1.IH" [OF that(1) Pair [symmetric] Some that(2)] by simp
      show ?thesis
        using Pair Some ds IH
        by (auto simp: relay_loop.simps [of running on_frame s st] split: option.splits)
    qed
  qed
qed

section \<open>Properties\<close>

text \<open>C23 \<^verbatim>\<open>_read_frame\<close> is a parser of the wire format whatever blocks the socket hands over: it returns
  the frame at the front of the byte stream and leaves the rest, and returns \<^verbatim>\<open>None\<close> exactly when the
  stream ends before a frame does.\<close>

theorem read_frame_refines_format:
  "(case wire_dec (avail s) of
      None \<Rightarrow> fst (read_frame s) = None
    | Some (fr, rest) \<Rightarrow> fst (read_frame s) = Some fr \<and> avail (snd (read_frame s)) = rest)"
  by (rule read_frame_parse)

text \<open>\<^verbatim>\<open>send_raw\<close> writes the whole of its argument when it returns, however few bytes each \<^verbatim>\<open>send\<close>
  takes; when it raises, what was written is a prefix.\<close>

theorem send_raw_all_or_prefix:
  assumes "send_raw data w = (x, w')"
  shows "(case x of None \<Rightarrow> written w' = written w @ data
            | Some e \<Rightarrow> \<exists>n. written w' = written w @ take n data)"
  using send_raw_from_written [of 0 data w x w'] assms by (auto simp: send_raw_def split: option.splits)

lemma send_raw_all_or_prefix_witness:
  "written (snd (send_raw [1, 2, 3] \<lparr>caps = [Accept 1, SendErr OSError], written = []\<rparr>)) = [1] \<and>
   (case Some OSError of None \<Rightarrow> written (snd (send_raw [1, 2, 3] \<lparr>caps = [Accept 1, SendErr OSError], written = []\<rparr>))
        = written \<lparr>caps = [Accept 1, SendErr OSError], written = []\<rparr> @ [1, 2, 3]
      | Some e \<Rightarrow> \<exists>n. written (snd (send_raw [1, 2, 3] \<lparr>caps = [Accept 1, SendErr OSError], written = []\<rparr>))
        = written \<lparr>caps = [Accept 1, SendErr OSError], written = []\<rparr> @ take n [1, 2, 3])"
proof
  show "written (snd (send_raw [1, 2, 3] \<lparr>caps = [Accept 1, SendErr OSError], written = []\<rparr>)) = [1]"
    by code_simp
  have "fst (send_raw [1, 2, 3] \<lparr>caps = [Accept 1, SendErr OSError], written = []\<rparr>) = Some OSError"
    by code_simp
  then have "send_raw [1, 2, 3] \<lparr>caps = [Accept 1, SendErr OSError], written = []\<rparr>
      = (Some OSError, snd (send_raw [1, 2, 3] \<lparr>caps = [Accept 1, SendErr OSError], written = []\<rparr>))"
    by (metis prod.collapse)
  then show "case Some OSError of None \<Rightarrow> written (snd (send_raw [1, 2, 3] \<lparr>caps = [Accept 1, SendErr OSError], written = []\<rparr>))
        = written \<lparr>caps = [Accept 1, SendErr OSError], written = []\<rparr> @ [1, 2, 3]
      | Some e \<Rightarrow> \<exists>n. written (snd (send_raw [1, 2, 3] \<lparr>caps = [Accept 1, SendErr OSError], written = []\<rparr>))
        = written \<lparr>caps = [Accept 1, SendErr OSError], written = []\<rparr> @ take n [1, 2, 3]"
    by (rule send_raw_all_or_prefix)
qed

end
