(* ===== verification/TcpServer.thy ===== *)
theory TcpServer
  imports FrameRelay
begin

text \<open>
  \<^verbatim>\<open>v2/modules/tcp_server/server.py\<close> and \<^verbatim>\<open>v2/modules/tcp_server/main.py\<close>: the listening
  socket, the module's globals as one record, and each handler as a function on it. A handler
  returns the exception it lets escape (the bus client catches it), the new globals and the
  messages it publishes. Log files and log messages are left out, except where a log call itself
  raises.
\<close>

section \<open>The listening socket\<close>

record tcpserver =
  srv_host :: string
  srv_port :: int
  srv_sock :: bool
  srv_running :: bool

definition new_server :: tcpserver where
  "new_server = \<lparr>srv_host = ''0.0.0.0'', srv_port = 5288, srv_sock = False, srv_running = False\<rparr>"

text \<open>What the operating system does: the socket cannot be created, cannot be bound, or listens.\<close>

datatype bind_env = SocketFails | BindFails | ListenOk
datatype accept_env = AccConn string int | AccTimeout | AccError

fun srv_start :: "bind_env \<Rightarrow> tcpserver \<Rightarrow> bool \<times> tcpserver" where
  "srv_start SocketFails s = (False, s)"
| "srv_start BindFails s = (False, s\<lparr>srv_sock := True\<rparr>)"
| "srv_start ListenOk s = (True, s\<lparr>srv_sock := True, srv_running := True\<rparr>)"

definition srv_stop :: "tcpserver \<Rightarrow> tcpserver" where
  "srv_stop s = s\<lparr>srv_running := False, srv_sock := False\<rparr>"

definition srv_accept :: "accept_env \<Rightarrow> tcpserver \<Rightarrow> string option" where
  "srv_accept env s =
     (if \<not> srv_running s \<or> \<not> srv_sock s then None
      else (case env of AccConn h p \<Rightarrow> Some (h @ '':'' @ str_of_int p) | _ \<Rightarrow> None))"

section \<open>Module state\<close>

definition TCP_PRIORITY :: int where "TCP_PRIORITY = 1"
definition FLAG_ENCRYPTED :: int where "FLAG_ENCRYPTED = 8"
definition MSG_SHUTDOWN_REQUEST :: int where "MSG_SHUTDOWN_REQUEST = 13"
definition MSG_SHUTDOWN_RESPONSE :: int where "MSG_SHUTDOWN_RESPONSE = 14"

text \<open>The relay object as its owner sees it: the loop flag and the socket it writes to.\<close>

record relay =
  relay_running :: bool
  relay_sock :: wsock

definition relay_stop :: "relay \<Rightarrow> relay" where
  "relay_stop r = r\<lparr>relay_running := False\<rparr>"

record 'e tcp_state =
  t_server :: "tcpserver option"
  t_relay :: "relay option"
  t_cryptor :: "'e cryptor option"
  t_assembler :: "assembler option"
  t_starting :: bool
  t_restart_pending :: bool
  t_shutdown_ack :: bool

definition tcp_init :: "'e tcp_state" where
  "tcp_init = \<lparr>t_server = None, t_relay = None, t_cryptor = None, t_assembler = None,
     t_starting = False, t_restart_pending = False, t_shutdown_ack = False\<rparr>"

type_synonym 'e effect = "exn option \<times> 'e tcp_state \<times> busmsg list"

section \<open>Boot protocol\<close>

definition ready_payload :: "string \<Rightarrow> int \<Rightarrow> payload" where
  "ready_payload name priority = [(''name'', PStr name), (''priority'', PInt priority)]"

text \<open>The topics subscribed and the message published when it is this module's turn.\<close>

definition tcp_on_system_start :: "payload \<Rightarrow> string list \<times> busmsg list" where
  "tcp_on_system_start payload =
     (if \<not> py_eq_int (dget payload ''priority'') TCP_PRIORITY then ([], [])
      else ([''rfcomm.handshake.completed'', ''aa.frame.send'', ''aa.handshake.start_tls'',
             ''aa.handshake.feed_input'', ''aa.session.restart'', ''aa.frame.ch0''],
            [(''system.ready'', ready_payload ''tcp_server'' TCP_PRIORITY)]))"

definition tcp_teardown :: "'e tcp_state \<Rightarrow> 'e tcp_state" where
  "tcp_teardown s =
     s\<lparr>t_relay := None, t_server := None, t_cryptor := None, t_assembler := None, t_starting := False\<rparr>"

section \<open>Handlers\<close>

text \<open>Whether a new server thread is spawned, and the globals after.\<close>

definition tcp_on_handshake_completed :: "'e tcp_state \<Rightarrow> bool \<times> 'e tcp_state" where
  "tcp_on_handshake_completed s =
     (if t_starting s \<or> t_server s \<noteq> None then (False, s) else (True, s\<lparr>t_starting := True\<rparr>))"

text \<open>Writing a list of frames to the socket stops at the first failing write.\<close>

fun send_frames :: "bytes list \<Rightarrow> wsock \<Rightarrow> exn option \<times> wsock" where
  "send_frames [] w = (None, w)"
| "send_frames (f # fs) w =
     (case send_raw f w of (Some x, w') \<Rightarrow> (Some x, w') | (None, w') \<Rightarrow> send_frames fs w')"

text \<open>Reading the fields of an \<^verbatim>\<open>aa.frame.send\<close> payload, in the order of the source.\<close>

definition frame_fields :: "payload \<Rightarrow> (int \<times> int \<times> bytes \<times> bool) res" where
  "frame_fields payload =
     rbind (rbind (dindex payload ''channel_id'') py_int) (\<lambda>ch.
     rbind (rbind (dindex payload ''message_id'') py_int) (\<lambda>mid.
     rbind (rbind (dindex payload ''payload_hex'') py_fromhex) (\<lambda>body.
       Inr (ch, mid, body, truthy (dget_or payload ''encrypted'' (PBool False))))))"

definition tcp_on_frame_send :: "'e tls_lib \<Rightarrow> payload \<Rightarrow> 'e tcp_state \<Rightarrow> 'e effect" where
  "tcp_on_frame_send L payload s =
     (case t_relay s of
        None \<Rightarrow> (None, s, [])
      | Some relay \<Rightarrow>
          (case frame_fields payload of
             Inl x \<Rightarrow> (if x = KeyError \<or> x = ValueError then None else Some x, s, [])
           | Inr (ch, mid, body, ssl_active) \<Rightarrow>
               (case encode L ch mid body ssl_active (t_cryptor s) of
                  (Inl x, c') \<Rightarrow> (None, s\<lparr>t_cryptor := c'\<rparr>, [])
                | (Inr frames, c') \<Rightarrow>
                    (let w' = snd (send_frames frames (relay_sock relay)) in
                     (None, s\<lparr>t_cryptor := c', t_relay := Some (relay\<lparr>relay_sock := w'\<rparr>)\<rparr>, [])))))"

definition tls_blob :: "bytes \<Rightarrow> busmsg" where
  "tls_blob outgoing = (''tcp.server.tls_handshake'', [(''outgoing_hex'', PStr (bytes_hex outgoing))])"

definition tcp_on_handshake_start_tls :: "'e tls_lib \<Rightarrow> 'e tcp_state \<Rightarrow> 'e effect" where
  "tcp_on_handshake_start_tls L s =
     (case crypt_init L new_cryptor of
        (Inl x, c1) \<Rightarrow> (Some x, s\<lparr>t_cryptor := Some c1\<rparr>, [])
      | (Inr _, c1) \<Rightarrow>
          (case drive_handshake L c1 of
             (Inl x, c2) \<Rightarrow> (Some x, s\<lparr>t_cryptor := Some c2\<rparr>, [])
           | (Inr outgoing, c2) \<Rightarrow>
               (None, s\<lparr>t_cryptor := Some c2\<rparr>, if outgoing \<noteq> [] then [tls_blob outgoing] else [])))"

definition tcp_on_handshake_feed_input :: "'e tls_lib \<Rightarrow> payload \<Rightarrow> 'e tcp_state \<Rightarrow> 'e effect" where
  "tcp_on_handshake_feed_input L payload s =
     (case t_cryptor s of
        None \<Rightarrow> (None, s, [])
      | Some c \<Rightarrow>
          (case rbind (dindex payload ''payload_hex'') py_fromhex of
             Inl x \<Rightarrow> (if x = KeyError \<or> x = ValueError then None else Some x, s, [])
           | Inr data \<Rightarrow>
               (case drive_handshake L (write_handshake_input L data c) of
                  (Inl x, c') \<Rightarrow> (Some x, s\<lparr>t_cryptor := Some c'\<rparr>, [])
                | (Inr outgoing, c') \<Rightarrow>
                    (None, s\<lparr>t_cryptor := Some c'\<rparr>,
                     if active c' then [(''tcp.server.tls_handshake_completed'', [])]
                     else if outgoing \<noteq> [] then [tls_blob outgoing] else []))))"

text \<open>
  \<^verbatim>\<open>on_aa_session_restart\<close> blocks in the middle, waiting up to three seconds for the flag
  \<^verbatim>\<open>_shutdown_ack_event\<close>; it is split there. The first half says whether the handler goes on to
  wait, the second runs once the wait is over.
\<close>

definition tcp_restart_begin :: "'e tls_lib \<Rightarrow> 'e tcp_state \<Rightarrow> bool \<times> 'e effect" where
  "tcp_restart_begin L s =
     (case t_relay s of
        None \<Rightarrow> (False, None, s, [])
      | Some relay \<Rightarrow>
          (let s1 = s\<lparr>t_restart_pending := True, t_shutdown_ack := False\<rparr>;
               ssl = (case t_cryptor s1 of None \<Rightarrow> False | Some c \<Rightarrow> active c)
           in case encode L 0 MSG_SHUTDOWN_REQUEST [] ssl (t_cryptor s1) of
                (Inl x, c') \<Rightarrow> (False, Some x, s1\<lparr>t_cryptor := c'\<rparr>, [])
              | (Inr frames, c') \<Rightarrow>
                  (case send_frames frames (relay_sock relay) of
                     (None, w') \<Rightarrow>
                       (True, None, s1\<lparr>t_cryptor := c', t_relay := Some (relay\<lparr>relay_sock := w'\<rparr>)\<rparr>, [])
                   | (Some x, w') \<Rightarrow>
                       (False, None, s1\<lparr>t_cryptor := c', t_relay := Some (relay\<lparr>relay_sock := w'\<rparr>),
                                        t_restart_pending := False\<rparr>, []))))"

definition tcp_restart_end :: "'e tcp_state \<Rightarrow> 'e effect" where
  "tcp_restart_end s =
     (None,
      s\<lparr>t_cryptor := map_option crypt_deinit (t_cryptor s),
        t_assembler := map_option (asm_reset None) (t_assembler s),
        t_restart_pending := False\<rparr>,
      [(''aa.session.restarting'', [])])"

definition tcp_on_ch0_frame :: "payload \<Rightarrow> 'e tcp_state \<Rightarrow> 'e effect" where
  "tcp_on_ch0_frame payload s =
     (if \<not> t_restart_pending s then (None, s, [])
      else (case py_int (dget_or payload ''message_id'' (PInt (- 1))) of
              Inl x \<Rightarrow> (Some x, s, [])
            | Inr m \<Rightarrow> (None, if m = MSG_SHUTDOWN_RESPONSE then s\<lparr>t_shutdown_ack := True\<rparr> else s, [])))"

section \<open>Incoming frames\<close>

text \<open>
  The end of \<^verbatim>\<open>_on_raw_frame\<close>, from the length check on. When the declared total differs from the
  assembled length the warning is formatted with arguments its text has no place for, and
  \<^verbatim>\<open>Logger.warning\<close> (\<^verbatim>\<open>msg % args\<close>) raises \<^verbatim>\<open>TypeError\<close>.
\<close>

definition frame_data :: "int \<Rightarrow> int \<Rightarrow> bool \<Rightarrow> bytes \<Rightarrow> payload" where
  "frame_data ch mid encrypted body =
     [(''channel_id'', PInt ch), (''message_id'', PInt mid), (''encrypted'', PBool encrypted),
      (''payload_hex'', PStr (bytes_hex body))]"

definition received_data :: "bool \<Rightarrow> int \<Rightarrow> int \<Rightarrow> bool \<Rightarrow> bytes \<Rightarrow> payload" where
  "received_data full ch mid encrypted body =
     [(''channel_id'', PInt ch), (''message_id'', PInt mid), (''encrypted'', PBool encrypted),
      (''payload_len'', PInt (int (length body))), (''payload_head'', PStr (bytes_hex (take 16 body)))]
     @ (if full then [(''payload_hex'', PStr (bytes_hex body))] else [])"

definition ch_topic :: "int \<Rightarrow> string" where
  "ch_topic ch = ''aa.frame.ch'' @ str_of_int ch"

definition publish_frame :: "bool \<Rightarrow> int \<Rightarrow> bool \<Rightarrow> bytes \<Rightarrow> int \<Rightarrow> exn option \<times> busmsg list" where
  "publish_frame full ch encrypted assembled tot =
     (if length assembled < 2 then (None, [])
      else if tot \<noteq> 0 \<and> int (length assembled) \<noteq> tot then (Some TypeError, [])
      else (let mid = be_val (take 2 assembled); body = drop 2 assembled in
        (None, [(''aa.frame.received'', received_data full ch mid encrypted body),
                (ch_topic ch, frame_data ch mid encrypted body)])))"

text \<open>\<open>None\<close>: the call never returns, because decryption does not.\<close>

definition on_raw_frame :: "'e tls_lib \<Rightarrow> bool \<Rightarrow> rawframe \<Rightarrow> 'e tcp_state \<Rightarrow> 'e effect option" where
  "on_raw_frame L full fr s =
     (case fr of (ch, flags, payload, tot) \<Rightarrow>
      (case t_assembler s of
         None \<Rightarrow> Some (Some AttributeError, s, [])
       | Some A \<Rightarrow>
           (case feed ch flags payload tot A of
              (None, A') \<Rightarrow> Some (None, s\<lparr>t_assembler := Some A'\<rparr>, [])
            | (Some (ch', flags', assembled, tot'), A') \<Rightarrow>
                (let s1 = s\<lparr>t_assembler := Some A'\<rparr>; encrypted = (flags' AND FLAG_ENCRYPTED \<noteq> 0);
                     plain = (\<lambda>s' data. let r = publish_frame full ch' encrypted data tot' in
                                        Some (fst r, s', snd r))
                 in if encrypted then
                      (case t_cryptor s1 of
                         None \<Rightarrow> plain s1 assembled
                       | Some c \<Rightarrow>
                           (if active c then
                              (case crypt_decrypt L assembled c of
                                 None \<Rightarrow> None
                               | Some (Inl x, c') \<Rightarrow> Some (None, s1\<lparr>t_cryptor := Some c'\<rparr>, [])
                               | Some (Inr pt, c') \<Rightarrow> plain (s1\<lparr>t_cryptor := Some c'\<rparr>) pt)
                            else plain s1 assembled))
                    else plain s1 assembled))))"

definition on_session_closed :: "'e tcp_state \<Rightarrow> 'e effect" where
  "on_session_closed s =
     (if t_restart_pending s then (None, s, [])
      else (None, tcp_teardown s, [(''tcp.session.closed'', [])]))"

section \<open>The server thread\<close>

text \<open>\<^verbatim>\<open>_start_server\<close> up to \<^verbatim>\<open>accept\<close>: whether the thread goes on to accept.\<close>

definition start_server_listen :: "bind_env \<Rightarrow> 'e tcp_state \<Rightarrow> bool \<times> 'e tcp_state \<times> busmsg list" where
  "start_server_listen env s =
     (let r = srv_start env new_server in
      if \<not> fst r then
        (False, s\<lparr>t_server := None, t_starting := False\<rparr>,
         [(''tcp.server.error'', [(''error'', PStr ''TCPServer.start() failed'')])])
      else
        (True, s\<lparr>t_server := Some (snd r), t_starting := False\<rparr>,
         [(''tcp.server.started'', [(''host'', PStr (srv_host (snd r))), (''port'', PInt (srv_port (snd r)))])]))"

text \<open>
  The accept: \<open>srv\<close> is the thread's own reference to the server object. On a connection the
  relay is created with the writing side \<open>w\<close> of the socket.
\<close>

definition start_server_accept :: "accept_env \<Rightarrow> wsock \<Rightarrow> 'e tcp_state \<Rightarrow> bool \<times> 'e tcp_state \<times> busmsg list" where
  "start_server_accept env w s =
     (case (case t_server s of None \<Rightarrow> None | Some srv \<Rightarrow> srv_accept env srv) of
        None \<Rightarrow>
          (False, tcp_teardown s, [(''tcp.server.error'', [(''error'', PStr ''No connection within timeout'')])])
      | Some address \<Rightarrow>
          (True, s\<lparr>t_assembler := Some [], t_relay := Some \<lparr>relay_running = True, relay_sock = w\<rparr>\<rparr>,
           [(''tcp.session.connected'', [(''address'', PStr address)])]))"

section \<open>Properties\<close>

lemma send_raw_spec: "send_raw data w = (x, w') \<Longrightarrow>
    (x = None \<longrightarrow> written w' = written w @ data) \<and> (\<exists>n. written w' = written w @ take n data)"
  using send_raw_from_written [of 0 data w x w'] by (simp add: send_raw_def)

lemma sock_send_open: "caps w = [] \<Longrightarrow> sock_send data w = (Inr (length data), w\<lparr>written := written w @ data\<rparr>)"
  by (simp add: sock_send_def)

lemma send_raw_open: "caps w = [] \<Longrightarrow> send_raw data w = (None, w\<lparr>written := written w @ data\<rparr>)"
  by (cases "data = []")
    (simp_all add: send_raw_def send_raw_from.simps [of data] send_raw_from.simps [of "[]"] sock_send_open)

lemma send_frames_spec: "send_frames fs w = (x, w') \<Longrightarrow>
    (x = None \<longrightarrow> written w' = written w @ concat fs) \<and> (\<exists>n. written w' = written w @ take n (concat fs))"
proof (induction fs arbitrary: w)
  case (Cons f fs)
  obtain y w1 where r: "send_raw f w = (y, w1)" by (cases "send_raw f w")
  show ?case
  proof (cases y)
    case None
    then have a: "written w1 = written w @ f" using send_raw_spec [OF r] by simp
    have st: "send_frames fs w1 = (x, w')" using Cons.prems r None by simp
    obtain n where "written w' = written w1 @ take n (concat fs)" using Cons.IH [OF st] by blast
    then have p: "written w' = written w @ take (length f + n) (concat (f # fs))" by (simp add: a)
    have "x = None \<Longrightarrow> written w' = written w @ concat (f # fs)" using Cons.IH [OF st] a by simp
    with p show ?thesis by blast
  next
    case (Some e)
    obtain n where "written w1 = written w @ take n f" using send_raw_spec [OF r] by blast
    then have "written w1 = written w @ take (min n (length f)) (concat (f # fs))"
      by (simp add: min_def)
    with Some Cons.prems r show ?thesis by (auto intro: exI [of _ "min n (length f)"])
  qed
qed simp

lemma send_frames_open: "caps w = [] \<Longrightarrow> send_frames fs w = (None, w\<lparr>written := written w @ concat fs\<rparr>)"
  by (induction fs arbitrary: w) (simp_all add: send_raw_open)

text \<open>A well-formed \<^verbatim>\<open>aa.frame.send\<close> puts on the socket the frames the codec builds, in order: all of
  them when the socket takes everything, a prefix of their bytes otherwise, nothing when encoding
  fails. It publishes nothing and no exception leaves the handler.\<close>

theorem frame_send_writes_frames:
  assumes "t_relay s = Some r" and "frame_fields p = Inr (ch, mid, body, ssl)"
    and "encode L ch mid body ssl (t_cryptor s) = (res, c')"
    and "fs = (case res of Inl _ \<Rightarrow> [] | Inr frames \<Rightarrow> frames)"
  shows "\<exists>w'. tcp_on_frame_send L p s
      = (None, s\<lparr>t_cryptor := c', t_relay := Some (r\<lparr>relay_sock := w'\<rparr>)\<rparr>, []) \<and>
    (\<exists>n. written w' = written (relay_sock r) @ take n (concat fs)) \<and>
    (caps (relay_sock r) \<noteq> [] \<or> written w' = written (relay_sock r) @ concat fs)"
proof (cases res)
  case (Inl x)
  then have "tcp_on_frame_send L p s = (None, s\<lparr>t_cryptor := c', t_relay := Some (r\<lparr>relay_sock := relay_sock r\<rparr>)\<rparr>, [])"
    using assms by (simp add: tcp_on_frame_send_def)
  with Inl assms(4) show ?thesis by (intro exI [of _ "relay_sock r"] conjI exI [of _ 0]) simp_all
next
  case (Inr frames)
  obtain x w' where w': "send_frames frames (relay_sock r) = (x, w')"
    by (cases "send_frames frames (relay_sock r)")
  have "tcp_on_frame_send L p s = (None, s\<lparr>t_cryptor := c', t_relay := Some (r\<lparr>relay_sock := w'\<rparr>)\<rparr>, [])"
    using assms(1-3) Inr w' by (simp add: tcp_on_frame_send_def)
  moreover have "caps (relay_sock r) = [] \<Longrightarrow> x = None"
    using w' by (simp add: send_frames_open)
  ultimately show ?thesis
    using send_frames_spec [OF w'] Inr assms(4) by auto
qed

lemma frame_send_writes_frames_witness:
  "\<exists>w'. tcp_on_frame_send echo_tls
      [(''channel_id'', PInt 0), (''message_id'', PInt 4), (''payload_hex'', PStr ''0800'')]
      (tcp_init\<lparr>t_relay := Some \<lparr>relay_running = True, relay_sock = \<lparr>caps = [], written = []\<rparr>\<rparr>\<rparr>)
      = (None, tcp_init\<lparr>t_cryptor := None, t_relay := Some \<lparr>relay_running = True, relay_sock = w'\<rparr>\<rparr>, []) \<and>
    (\<exists>n. written w' = take n [0, 3, 0, 4, 0, 4, 8, 0]) \<and> (False \<or> written w' = [0, 3, 0, 4, 0, 4, 8, 0])"
proof -
  let ?r = "\<lparr>relay_running = True, relay_sock = \<lparr>caps = [], written = []\<rparr>\<rparr>"
  let ?s = "tcp_init\<lparr>t_relay := Some ?r\<rparr> :: bytes tcp_state"
  let ?p = "[(''channel_id'', PInt 0), (''message_id'', PInt 4), (''payload_hex'', PStr ''0800'')]"
  have f: "frame_fields ?p = Inr (0, 4, [8, 0], False)" by code_simp
  have e: "encode echo_tls 0 4 [8, 0] False (t_cryptor ?s) = (Inr [[0, 3, 0, 4, 0, 4, 8, 0]], None)"
    by code_simp
  show ?thesis
    using frame_send_writes_frames [OF _ f e, of ?r "[[0, 3, 0, 4, 0, 4, 8, 0]]"] by (simp add: tcp_init_def)
qed

text \<open>Once TLS is active, no encrypted message is ever published: the call that decrypts returns,
  if at all, with no exception and no message on the bus.\<close>

theorem encrypted_message_lost:
  assumes "on_raw_frame L full (ch, fl, p, tot) s = Some (x, s', ms)" and "t_assembler s = Some A"
    and "fst (feed ch fl p tot A) = Some (ch', fl', body, tot')" and "fl' AND FLAG_ENCRYPTED \<noteq> 0"
    and "t_cryptor s = Some c" and "active c"
  shows "x = None \<and> ms = []"
proof -
  obtain A' where f: "feed ch fl p tot A = (Some (ch', fl', body, tot'), A')"
    using assms(3) by (cases "feed ch fl p tot A") auto
  have "publish_frame full ch' True [] tot' = (None, [])" by (simp add: publish_frame_def)
  then show ?thesis
    using assms f decrypt_empty [of L body c]
    by (auto simp: on_raw_frame_def Let_def split: option.splits sum.splits prod.splits)
qed

lemma encrypted_message_lost_witness:
  "(let s = tcp_init\<lparr>t_assembler := Some [], t_cryptor := Some \<lparr>ssl_obj = Some [], active = True\<rparr>\<rparr> in
    case on_raw_frame echo_tls False (3, 11, [0, 5, 1, 2], 0) s of
      None \<Rightarrow> False | Some (x, s', ms) \<Rightarrow> x = None \<and> ms = [])"
proof -
  let ?s = "tcp_init\<lparr>t_assembler := Some [], t_cryptor := Some \<lparr>ssl_obj = Some ([] :: bytes), active = True\<rparr>\<rparr>"
  have "\<exists>r. crypt_decrypt echo_tls [0, 5, 1, 2] \<lparr>ssl_obj = Some [], active = True\<rparr> = Some r"
    using echo_returns by (auto simp: crypt_decrypt_def)
  then have "\<exists>r. on_raw_frame echo_tls False (3, 11, [0, 5, 1, 2], 0) ?s = Some r"
    by (auto simp: on_raw_frame_def feed_def frame_consts FLAG_ENCRYPTED_def Let_def split: sum.split)
  then obtain x s' ms where r: "on_raw_frame echo_tls False (3, 11, [0, 5, 1, 2], 0) ?s = Some (x, s', ms)"
    by (metis surj_pair)
  have "x = None \<and> ms = []"
    by (rule encrypted_message_lost [OF r, where A = "[]" and c = "\<lparr>ssl_obj = Some [], active = True\<rparr>"
          and ch' = 3 and fl' = 11 and body = "[0, 5, 1, 2]" and tot' = 0])
      (simp_all add: feed_def frame_consts FLAG_ENCRYPTED_def)
  with r show ?thesis by simp
qed

text \<open>A reassembled plaintext message whose length is not the declared total, which the code means
  to report and still publish, raises \<^verbatim>\<open>TypeError\<close> out of \<^verbatim>\<open>_on_raw_frame\<close> (the warning's arguments
  have no place in its text) and nothing is published.\<close>

theorem size_mismatch_raises:
  assumes "t_assembler s = Some A" and "feed ch fl p tot A = (Some (ch', fl', body, tot'), A')"
    and "fl' AND FLAG_ENCRYPTED = 0" and "2 \<le> length body" and "tot' \<noteq> 0" and "int (length body) \<noteq> tot'"
  shows "on_raw_frame L full (ch, fl, p, tot) s = Some (Some TypeError, s\<lparr>t_assembler := Some A'\<rparr>, [])"
  using assms by (simp add: on_raw_frame_def publish_frame_def)

lemma size_mismatch_raises_witness:
  "on_raw_frame echo_tls False (3, 2, [9], 0)
     (tcp_init\<lparr>t_assembler := Some [(3, \<lparr>chunks = [[0, 5]], total_size = 4, first_flags = 1\<rparr>)]\<rparr>)
   = Some (Some TypeError, tcp_init\<lparr>t_assembler := Some []\<rparr>, [])"
  by (subst size_mismatch_raises [where ch' = 3 and fl' = 3 and body = "[0, 5, 9]" and tot' = 4 and A' = "[]"
        and A = "[(3, \<lparr>chunks = [[0, 5]], total_size = 4, first_flags = 1\<rparr>)]"])
    (simp_all add: feed_def frame_consts FLAG_ENCRYPTED_def tcp_init_def Let_def)

end
