(* ===== verification/TcpSystem.thy ===== *)
theory TcpSystem
  imports TcpServer "HOL-Library.Sublist"
begin

text \<open>
  The threads of the tcp_server module. The bus thread runs one handler at a time
  (\<^verbatim>\<open>BusClient._receive_loop\<close> calls the handler inline), so while \<^verbatim>\<open>on_aa_session_restart\<close> waits for
  the acknowledgement no other handler of the module runs; the server threads go on. A step is
  one handler call of the bus thread or one stage of a server thread, in any order.
  \<^verbatim>\<open>_teardown\<close> holds no lock over its body, so on a server thread it is five steps, one per global
  it clears, with the steps of the other threads in between.
\<close>

text \<open>The parts of \<^verbatim>\<open>_teardown\<close>, in the order of the code.\<close>

datatype teardown_part = TdRelay | TdServer | TdCryptor | TdAssembler | TdStarting

fun teardown_part_run :: "teardown_part \<Rightarrow> 'e tcp_state \<Rightarrow> 'e tcp_state" where
  "teardown_part_run TdRelay g = g\<lparr>t_relay := None\<rparr>"
| "teardown_part_run TdServer g = g\<lparr>t_server := None\<rparr>"
| "teardown_part_run TdCryptor g = g\<lparr>t_cryptor := None\<rparr>"
| "teardown_part_run TdAssembler g = g\<lparr>t_assembler := None\<rparr>"
| "teardown_part_run TdStarting g = g\<lparr>t_starting := False\<rparr>"

definition teardown_parts :: "teardown_part list" where
  "teardown_parts = [TdRelay, TdServer, TdCryptor, TdAssembler, TdStarting]"

lemma teardown_parts_run: "fold teardown_part_run teardown_parts g = tcp_teardown g"
  by (simp add: teardown_parts_def tcp_teardown_def)

text \<open>A server thread: started, accepting on its own server object, relaying, or with the listed
  parts of \<^verbatim>\<open>_teardown\<close> still to run.\<close>

datatype thread_phase = ThBegin | ThAccept tcpserver | ThRelay rsock | ThTear "teardown_part list"

fun tearing :: "thread_phase \<Rightarrow> bool" where
  "tearing (ThTear ps) = True"
| "tearing _ = False"

text \<open>The last field records whether a server was ever started while a teardown was under way.\<close>

record 'e tcp_sys =
  glob :: "'e tcp_state"
  threads :: "thread_phase list"
  waiting :: bool
  stopped :: bool
  overlapped :: bool

definition sys_init :: "'e tcp_sys" where
  "sys_init = \<lparr>glob = tcp_init, threads = [], waiting = False, stopped = False, overlapped = False\<rparr>"

datatype bus_event = EvFrameSend payload | EvStartTls | EvFeedInput payload | EvCh0 payload

fun bus_handler :: "'e tls_lib \<Rightarrow> bus_event \<Rightarrow> 'e tcp_state \<Rightarrow> 'e effect" where
  "bus_handler L (EvFrameSend p) g = tcp_on_frame_send L p g"
| "bus_handler L EvStartTls g = tcp_on_handshake_start_tls L g"
| "bus_handler L (EvFeedInput p) g = tcp_on_handshake_feed_input L p g"
| "bus_handler L (EvCh0 p) g = tcp_on_ch0_frame p g"

definition relay_runs :: "'e tcp_state \<Rightarrow> bool" where
  "relay_runs g = (case t_relay g of None \<Rightarrow> False | Some r \<Rightarrow> relay_running r)"

text \<open>
  The \<^verbatim>\<open>finally\<close> block of the relay up to the call of \<^verbatim>\<open>_teardown\<close>: the flag is cleared and, outside
  a restart, the close is announced; whether the thread goes on to tear down.
\<close>

definition relay_finally :: "'e tcp_state \<Rightarrow> bool \<times> 'e tcp_state \<times> busmsg list" where
  "relay_finally g =
     (let h = g\<lparr>t_relay := map_option relay_stop (t_relay g)\<rparr> in
      if t_restart_pending h then (False, h, []) else (True, h, [(''tcp.session.closed'', [])]))"

lemma relay_finally_closed:
  "relay_finally g = (b, h, ms) \<Longrightarrow>
   on_session_closed (g\<lparr>t_relay := map_option relay_stop (t_relay g)\<rparr>) =
     (None, if b then fold teardown_part_run teardown_parts h else h, ms)"
  by (auto simp: relay_finally_def on_session_closed_def teardown_parts_run Let_def split: if_splits)

text \<open>The connection accepted: the assembler and the relay are created.\<close>

definition session_opened :: "wsock \<Rightarrow> 'e tcp_state \<Rightarrow> 'e tcp_state" where
  "session_opened w g = g\<lparr>t_assembler := Some [], t_relay := Some \<lparr>relay_running = True, relay_sock = w\<rparr>\<rparr>"

lemma start_server_accept_parts:
  "t_server g = Some srv \<Longrightarrow> start_server_accept env w g =
     (case srv_accept env srv of
        None \<Rightarrow> (False, fold teardown_part_run teardown_parts g,
          [(''tcp.server.error'', [(''error'', PStr ''No connection within timeout'')])])
      | Some address \<Rightarrow> (True, session_opened w g, [(''tcp.session.connected'', [(''address'', PStr address)])]))"
  by (simp add: start_server_accept_def session_opened_def teardown_parts_run split: option.split)

text \<open>
  The rules follow a thread through the globals it shares. They are exact as long as one server
  thread is alive; once a second one exists (which is what \<open>overlapped\<close> records) the relay the
  globals hold may be the other thread's.
\<close>

inductive tcp_step :: "'e tls_lib \<Rightarrow> bool \<Rightarrow> 'e tcp_sys \<Rightarrow> busmsg list \<Rightarrow> 'e tcp_sys \<Rightarrow> bool"
  for L :: "'e tls_lib" and full :: bool
where
  spawn: "\<lbrakk> \<not> waiting s; \<not> stopped s; tcp_on_handshake_completed (glob s) = (b, g) \<rbrakk> \<Longrightarrow>
    tcp_step L full s [] (s\<lparr>glob := g, threads := threads s @ (if b then [ThBegin] else []),
      overlapped := (overlapped s \<or> b \<and> list_ex tearing (threads s))\<rparr>)"
| bus_call: "\<lbrakk> \<not> waiting s; \<not> stopped s; bus_handler L e (glob s) = (x, g, ms) \<rbrakk> \<Longrightarrow>
    tcp_step L full s ms (s\<lparr>glob := g\<rparr>)"
| restart_call: "\<lbrakk> \<not> waiting s; \<not> stopped s; tcp_restart_begin L (glob s) = (w, x, g, ms) \<rbrakk> \<Longrightarrow>
    tcp_step L full s ms (s\<lparr>glob := g, waiting := w\<rparr>)"
| restart_done: "\<lbrakk> waiting s; tcp_restart_end (glob s) = (x, g, ms) \<rbrakk> \<Longrightarrow>
    tcp_step L full s ms (s\<lparr>glob := g, waiting := False\<rparr>)"
| stop: "\<lbrakk> \<not> waiting s; \<not> stopped s \<rbrakk> \<Longrightarrow>
    tcp_step L full s [] (s\<lparr>glob := tcp_teardown (glob s), stopped := True\<rparr>)"
| listen: "\<lbrakk> threads s = xs @ ThBegin # ys; start_server_listen env (glob s) = (b, g, ms) \<rbrakk> \<Longrightarrow>
    tcp_step L full s ms (s\<lparr>glob := g,
      threads := xs @ (if b then [ThAccept (snd (srv_start env new_server))] else []) @ ys\<rparr>)"
| accepted: "\<lbrakk> threads s = xs @ ThAccept srv # ys; srv_accept env srv = Some address \<rbrakk> \<Longrightarrow>
    tcp_step L full s [(''tcp.session.connected'', [(''address'', PStr address)])]
      (s\<lparr>glob := session_opened w (glob s), threads := xs @ ThRelay rs # ys\<rparr>)"
| accept_failed: "\<lbrakk> threads s = xs @ ThAccept srv # ys; srv_accept env srv = None \<rbrakk> \<Longrightarrow>
    tcp_step L full s [(''tcp.server.error'', [(''error'', PStr ''No connection within timeout'')])]
      (s\<lparr>threads := xs @ ThTear teardown_parts # ys\<rparr>)"
| frame: "\<lbrakk> threads s = xs @ ThRelay rs # ys; relay_runs (glob s); read_frame rs = (Some fr, rs');
      on_raw_frame L full fr (glob s) = Some (None, g, ms) \<rbrakk> \<Longrightarrow>
    tcp_step L full s ms (s\<lparr>glob := g, threads := xs @ ThRelay rs' # ys\<rparr>)"
| frame_raises: "\<lbrakk> threads s = xs @ ThRelay rs # ys; relay_runs (glob s); read_frame rs = (Some fr, rs');
      on_raw_frame L full fr (glob s) = Some (Some e, g, ms); relay_finally g = (b, g', ms') \<rbrakk> \<Longrightarrow>
    tcp_step L full s (ms @ ms') (s\<lparr>glob := g', threads := xs @ (if b then [ThTear teardown_parts] else []) @ ys\<rparr>)"
| ended: "\<lbrakk> threads s = xs @ ThRelay rs # ys; relay_runs (glob s) \<Longrightarrow> fst (read_frame rs) = None;
      relay_finally (glob s) = (b, g, ms) \<rbrakk> \<Longrightarrow>
    tcp_step L full s ms (s\<lparr>glob := g, threads := xs @ (if b then [ThTear teardown_parts] else []) @ ys\<rparr>)"
| tear: "threads s = xs @ ThTear (p # ps) # ys \<Longrightarrow>
    tcp_step L full s [] (s\<lparr>glob := teardown_part_run p (glob s), threads := xs @ ThTear ps # ys\<rparr>)"
| torn: "threads s = xs @ ThTear [] # ys \<Longrightarrow> tcp_step L full s [] (s\<lparr>threads := xs @ ys\<rparr>)"

inductive tcp_reach :: "'e tls_lib \<Rightarrow> bool \<Rightarrow> 'e tcp_sys \<Rightarrow> 'e tcp_sys \<Rightarrow> bool"
  for L :: "'e tls_lib" and full :: bool
where
  refl: "tcp_reach L full s s"
| step: "\<lbrakk> tcp_reach L full s t; tcp_step L full t ms u \<rbrakk> \<Longrightarrow> tcp_reach L full s u"

section \<open>Frame conditions of the handlers\<close>

text \<open>What the handlers of the bus do to the fields the threads depend on.\<close>

definition same_control :: "'e tcp_state \<Rightarrow> 'e tcp_state \<Rightarrow> bool" where
  "same_control g h \<longleftrightarrow> t_server h = t_server g \<and> t_starting h = t_starting g \<and>
     (t_relay h = None \<longleftrightarrow> t_relay g = None) \<and> (t_assembler h = None \<longleftrightarrow> t_assembler g = None)"

lemma same_control_refl [simp]: "same_control g g"
  by (simp add: same_control_def)

lemma frame_send_control: "tcp_on_frame_send L p g = (x, h, ms) \<Longrightarrow> same_control g h"
  by (auto simp: tcp_on_frame_send_def same_control_def Let_def split: option.splits sum.splits prod.splits)

lemma start_tls_control: "tcp_on_handshake_start_tls L g = (x, h, ms) \<Longrightarrow> same_control g h"
  by (auto simp: tcp_on_handshake_start_tls_def same_control_def split: sum.splits prod.splits)

lemma feed_input_control: "tcp_on_handshake_feed_input L p g = (x, h, ms) \<Longrightarrow> same_control g h"
  by (auto simp: tcp_on_handshake_feed_input_def same_control_def split: option.splits sum.splits prod.splits)

lemma ch0_control: "tcp_on_ch0_frame p g = (x, h, ms) \<Longrightarrow> same_control g h"
  by (auto simp: tcp_on_ch0_frame_def same_control_def split: sum.splits if_splits)

lemma bus_control: "bus_handler L e g = (x, h, ms) \<Longrightarrow> same_control g h"
  by (cases e) (auto dest: frame_send_control start_tls_control feed_input_control ch0_control)

lemma restart_begin_control: "tcp_restart_begin L g = (w, x, h, ms) \<Longrightarrow> same_control g h"
  by (auto simp: tcp_restart_begin_def same_control_def Let_def split: option.splits sum.splits prod.splits)

lemma restart_begin_waits:
  "tcp_restart_begin L g = (w, x, h, ms) \<Longrightarrow> w \<Longrightarrow> t_restart_pending h \<and> \<not> t_shutdown_ack h"
  by (auto simp: tcp_restart_begin_def Let_def split: option.splits sum.splits prod.splits)

lemma restart_end_control: "tcp_restart_end g = (x, h, ms) \<Longrightarrow> same_control g h"
  by (auto simp: tcp_restart_end_def same_control_def)

lemma raw_frame_control: "on_raw_frame L full fr g = Some (x, h, ms) \<Longrightarrow> same_control g h"
  by (auto simp: on_raw_frame_def same_control_def Let_def
        split: option.splits sum.splits prod.splits if_splits)

lemma raw_frame_flags: "on_raw_frame L full fr g = Some (x, h, ms) \<Longrightarrow>
    t_restart_pending h = t_restart_pending g \<and> t_shutdown_ack h = t_shutdown_ack g"
  by (auto simp: on_raw_frame_def Let_def split: option.splits sum.splits prod.splits if_splits)

lemma finally_flags: "relay_finally g = (b, h, ms) \<Longrightarrow>
    t_restart_pending h = t_restart_pending g \<and> t_shutdown_ack h = t_shutdown_ack g"
  by (auto simp: relay_finally_def Let_def split: if_splits)

lemma tear_flags: "t_restart_pending (teardown_part_run p g) = t_restart_pending g \<and>
    t_shutdown_ack (teardown_part_run p g) = t_shutdown_ack g"
  by (cases p) auto

lemma opened_flags: "t_restart_pending (session_opened w g) = t_restart_pending g \<and>
    t_shutdown_ack (session_opened w g) = t_shutdown_ack g"
  by (simp add: session_opened_def)

lemma listen_flags: "start_server_listen env g = (b, h, ms) \<Longrightarrow>
    t_restart_pending h = t_restart_pending g \<and> t_shutdown_ack h = t_shutdown_ack g"
  by (auto simp: start_server_listen_def Let_def split: if_splits)

section \<open>At most one server thread\<close>

text \<open>How the guard flags and the thread agree while the module runs.\<close>

fun phase_ok :: "'e tcp_state \<Rightarrow> thread_phase list \<Rightarrow> bool" where
  "phase_ok g [] = (\<not> t_starting g)"
| "phase_ok g [ThBegin] = (t_starting g \<and> t_server g = None)"
| "phase_ok g [ThAccept srv] = (\<not> t_starting g \<and> t_server g = Some srv)"
| "phase_ok g [ThRelay rs] = (\<not> t_starting g \<and> t_server g \<noteq> None \<and> t_relay g \<noteq> None \<and> t_assembler g \<noteq> None)"
| "phase_ok g [ThTear ps] =
     (\<not> t_starting g \<and> suffix ps teardown_parts \<and> (t_server g \<noteq> None \<longleftrightarrow> TdServer \<in> set ps))"
| "phase_ok g (_ # _ # _) = False"

definition tcp_inv :: "'e tcp_sys \<Rightarrow> bool" where
  "tcp_inv s \<longleftrightarrow>
     (\<not> overlapped s \<longrightarrow> length (threads s) \<le> 1 \<and> (\<not> stopped s \<longrightarrow> phase_ok (glob s) (threads s))) \<and>
     (waiting s \<longrightarrow> t_restart_pending (glob s) \<and> \<not> t_shutdown_ack (glob s))"

lemma phase_ok_control: "same_control g h \<Longrightarrow> phase_ok g ts \<Longrightarrow> phase_ok h ts"
  by (induction g ts rule: phase_ok.induct) (auto simp: same_control_def)

lemma one_thread: "length (xs @ p # ys) \<le> 1 \<Longrightarrow> xs = [] \<and> ys = []"
  by (cases xs; cases ys) auto

lemma phase_finally: "relay_finally g = (b, h, ms) \<Longrightarrow> \<not> t_starting g \<Longrightarrow> t_server g \<noteq> None \<Longrightarrow>
    phase_ok h (if b then [ThTear teardown_parts] else [])"
  by (auto simp: relay_finally_def Let_def teardown_parts_def split: if_splits)

lemma phase_listen: "start_server_listen env g = (b, h, ms) \<Longrightarrow>
    phase_ok h (if b then [ThAccept (snd (srv_start env new_server))] else [])"
  by (auto simp: start_server_listen_def Let_def split: if_splits)

lemma phase_tear: "phase_ok g [ThTear (p # ps)] \<Longrightarrow> phase_ok (teardown_part_run p g) [ThTear ps]"
  by (cases p) (auto simp: teardown_parts_def suffix_Cons)

lemma phase_spawn:
  "tcp_on_handshake_completed g = (b, h) \<Longrightarrow> phase_ok g ts \<Longrightarrow> \<not> (b \<and> list_ex tearing ts) \<Longrightarrow>
   phase_ok h (ts @ (if b then [ThBegin] else []))"
  by (induction g ts rule: phase_ok.induct) (auto simp: tcp_on_handshake_completed_def split: if_splits)

lemma phase_ok_length: "phase_ok g ts \<Longrightarrow> length ts \<le> 1"
  by (induction g ts rule: phase_ok.induct) auto

text \<open>A step of a lone thread keeps the invariant when the phase it reaches agrees with the flags and
  it leaves the flags of a restart alone.\<close>

lemma tcp_inv_thread:
  assumes inv: "tcp_inv s" and ts: "threads s = xs @ t # ys" "threads s' = xs @ ts @ ys"
    and same: "overlapped s' = overlapped s" "stopped s' = stopped s" "waiting s' = waiting s"
    and flags: "t_restart_pending (glob s') = t_restart_pending (glob s) \<and> t_shutdown_ack (glob s') = t_shutdown_ack (glob s)"
    and len: "length ts \<le> 1" and phase: "phase_ok (glob s) [t] \<Longrightarrow> phase_ok (glob s') ts"
  shows "tcp_inv s'"
proof -
  have "length (threads s') \<le> 1 \<and> (\<not> stopped s' \<longrightarrow> phase_ok (glob s') (threads s'))" if "\<not> overlapped s'"
  proof -
    have i: "length (threads s) \<le> 1" "\<not> stopped s \<longrightarrow> phase_ok (glob s) (threads s)"
      using inv that same by (simp_all add: tcp_inv_def)
    then have "xs = [] \<and> ys = []" using ts(1) by (intro one_thread) simp
    then show ?thesis using i ts len phase same by simp
  qed
  then show ?thesis using inv same flags by (simp add: tcp_inv_def)
qed

lemma tcp_inv_bus:
  assumes "tcp_inv s" and "\<not> stopped s" and "same_control (glob s) g"
    and "w \<Longrightarrow> t_restart_pending g \<and> \<not> t_shutdown_ack g"
  shows "tcp_inv (s\<lparr>glob := g, waiting := w\<rparr>)"
  using assms phase_ok_control [OF assms(3)] by (auto simp: tcp_inv_def)

lemma tcp_inv_init: "tcp_inv sys_init"
  by (simp add: tcp_inv_def sys_init_def tcp_init_def)

lemma tcp_inv_step: "tcp_step L full s ms s' \<Longrightarrow> tcp_inv s \<Longrightarrow> tcp_inv s'"
proof (induction rule: tcp_step.induct)
  case (spawn s b g)
  let ?ts = "threads s @ (if b then [ThBegin] else [])"
  have "length ?ts \<le> 1 \<and> phase_ok g ?ts" if "\<not> overlapped s" "\<not> (b \<and> list_ex tearing (threads s))"
  proof -
    have "phase_ok g ?ts"
      using spawn.prems spawn.hyps(2) that by (intro phase_spawn [OF spawn.hyps(3)]) (auto simp: tcp_inv_def)
    with phase_ok_length [OF this] show ?thesis by simp
  qed
  with spawn show ?case by (auto simp: tcp_inv_def)
next
  case (bus_call s e x g ms)
  from tcp_inv_bus [OF bus_call.prems bus_call.hyps(2) bus_control [OF bus_call.hyps(3)], of False] bus_call.hyps(1)
  show ?case by (simp add: tcp_inv_def)
next
  case (restart_call s w x g ms)
  show ?case
    by (rule tcp_inv_bus [OF restart_call.prems restart_call.hyps(2) restart_begin_control [OF restart_call.hyps(3)]])
      (rule restart_begin_waits [OF restart_call.hyps(3)])
next
  case (restart_done s x g ms)
  have "phase_ok (glob s) ts \<Longrightarrow> phase_ok g ts" for ts
    by (rule phase_ok_control [OF restart_end_control [OF restart_done.hyps(2)]])
  with restart_done.prems show ?case by (simp add: tcp_inv_def)
next
  case (stop s)
  then show ?case by (simp add: tcp_inv_def)
next
  case (listen s xs ys env b g ms)
  show ?case
    by (rule tcp_inv_thread [OF listen.prems listen.hyps(1)])
      (use phase_listen [OF listen.hyps(2)] listen_flags [OF listen.hyps(2)] in auto)
next
  case (accepted s xs srv ys env address rs w)
  show ?case
    by (rule tcp_inv_thread [OF accepted.prems accepted.hyps(1), where ts = "[ThRelay rs]"])
      (use opened_flags in \<open>auto simp: session_opened_def\<close>)
next
  case (accept_failed s xs srv ys env)
  show ?case
    by (rule tcp_inv_thread [OF accept_failed.prems accept_failed.hyps(1), where ts = "[ThTear teardown_parts]"])
      (auto simp: teardown_parts_def)
next
  case (frame s xs rs ys fr rs' g ms)
  show ?case
    by (rule tcp_inv_thread [OF frame.prems frame.hyps(1), where ts = "[ThRelay rs']"])
      (use raw_frame_flags [OF frame.hyps(4)] raw_frame_control [OF frame.hyps(4)] in \<open>auto simp: same_control_def\<close>)
next
  case (frame_raises s xs rs ys fr rs' e g ms b g' ms')
  show ?case
    by (rule tcp_inv_thread [OF frame_raises.prems frame_raises.hyps(1)])
      (use raw_frame_flags [OF frame_raises.hyps(4)] raw_frame_control [OF frame_raises.hyps(4)]
        finally_flags [OF frame_raises.hyps(5)] phase_finally [OF frame_raises.hyps(5)] in \<open>auto simp: same_control_def\<close>)
next
  case (ended s xs rs ys b g ms)
  show ?case
    by (rule tcp_inv_thread [OF ended.prems ended.hyps(1)])
      (use finally_flags [OF ended.hyps(3)] phase_finally [OF ended.hyps(3)] in auto)
next
  case (tear s xs p ps ys)
  show ?case
    by (rule tcp_inv_thread [OF tear.prems tear.hyps, where ts = "[ThTear ps]"])
      (simp_all add: tear_flags phase_tear del: phase_ok.simps)
next
  case (torn s xs ys)
  show ?case by (rule tcp_inv_thread [OF torn.prems torn.hyps, where ts = "[]"]) auto
qed

lemma tcp_inv_reach: "tcp_reach L full s t \<Longrightarrow> tcp_inv s \<Longrightarrow> tcp_inv t"
  by (induction rule: tcp_reach.induct) (auto intro: tcp_inv_step)

lemma tcp_reachable_inv: "tcp_reach L full sys_init s \<Longrightarrow> tcp_inv s"
  using tcp_inv_reach tcp_inv_init by blast

section \<open>A session closed during a restart\<close>

text \<open>No server thread is left, yet the module believes its server is up.\<close>

definition wedged :: "'e tcp_sys \<Rightarrow> bool" where
  "wedged s \<longleftrightarrow> threads s = [] \<and> t_server (glob s) \<noteq> None"

definition tls_topic :: "busmsg \<Rightarrow> bool" where
  "tls_topic m \<longleftrightarrow> fst m = ''tcp.server.tls_handshake'' \<or> fst m = ''tcp.server.tls_handshake_completed''"

lemma frame_send_silent: "tcp_on_frame_send L p g = (x, h, ms) \<Longrightarrow> ms = []"
  by (auto simp: tcp_on_frame_send_def Let_def split: option.splits sum.splits prod.splits)

lemma start_tls_topics: "tcp_on_handshake_start_tls L g = (x, h, ms) \<Longrightarrow> list_all tls_topic ms"
  by (auto simp: tcp_on_handshake_start_tls_def tls_blob_def tls_topic_def split: sum.splits prod.splits)

lemma feed_input_topics: "tcp_on_handshake_feed_input L p g = (x, h, ms) \<Longrightarrow> list_all tls_topic ms"
  by (auto simp: tcp_on_handshake_feed_input_def tls_blob_def tls_topic_def split: option.splits sum.splits prod.splits)

lemma ch0_silent: "tcp_on_ch0_frame p g = (x, h, ms) \<Longrightarrow> ms = []"
  by (auto simp: tcp_on_ch0_frame_def split: sum.splits if_splits)

lemma bus_topics: "bus_handler L e g = (x, h, ms) \<Longrightarrow> list_all tls_topic ms"
  by (cases e) (auto dest: frame_send_silent start_tls_topics feed_input_topics ch0_silent)

lemma restart_begin_silent: "tcp_restart_begin L g = (w, x, h, ms) \<Longrightarrow> ms = []"
  by (auto simp: tcp_restart_begin_def Let_def split: option.splits sum.splits prod.splits)

lemma restart_end_topics: "tcp_restart_end g = (x, h, ms) \<Longrightarrow> ms = [(''aa.session.restarting'', [])]"
  by (simp add: tcp_restart_end_def)

lemma tls_topic_not_session: "list_all tls_topic ms \<Longrightarrow>
    (''tcp.session.closed'', p) \<notin> set ms \<and> (''tcp.session.connected'', p) \<notin> set ms"
  by (induction ms) (auto simp: tls_topic_def)

lemma wedged_step:
  assumes "tcp_step L full s ms s'" and "wedged s" and "\<not> stopped s'"
  shows "wedged s' \<and> (\<forall>p. (''tcp.session.closed'', p) \<notin> set ms \<and> (''tcp.session.connected'', p) \<notin> set ms)"
  using assms
proof (induction rule: tcp_step.induct)
  case (spawn s b g)
  then show ?case by (auto simp: wedged_def tcp_on_handshake_completed_def)
next
  case (bus_call s e x g ms)
  then show ?case
    using bus_control [OF bus_call.hyps(3)] tls_topic_not_session [OF bus_topics [OF bus_call.hyps(3)]]
    by (simp add: wedged_def same_control_def)
next
  case (restart_call s w x g ms)
  then show ?case
    using restart_begin_control [OF restart_call.hyps(3)] restart_begin_silent [OF restart_call.hyps(3)]
    by (simp add: wedged_def same_control_def)
next
  case (restart_done s x g ms)
  then show ?case
    using restart_end_control [OF restart_done.hyps(2)] restart_end_topics [OF restart_done.hyps(2)]
    by (auto simp: wedged_def same_control_def)
qed (auto simp: wedged_def)

lemma tcp_stopped_step: "tcp_step L full t ms u \<Longrightarrow> stopped t \<Longrightarrow> stopped u"
  by (induction rule: tcp_step.induct) auto

lemma wedged_reach: "tcp_reach L full s t \<Longrightarrow> wedged s \<Longrightarrow> \<not> stopped t \<Longrightarrow> wedged t"
proof (induction rule: tcp_reach.induct)
  case (step s t ms u)
  then show ?case using wedged_step tcp_stopped_step by blast
qed simp

section \<open>Properties\<close>

text \<open>A run that gets as far as the wait of a restart, the phone having closed the connection.\<close>

definition open_sys :: "bytes tcp_sys" where
  "open_sys = sys_init\<lparr>threads := [ThRelay []], glob := tcp_init\<lparr>
     t_server := Some (new_server\<lparr>srv_sock := True, srv_running := True\<rparr>),
     t_assembler := Some [], t_relay := Some \<lparr>relay_running = True, relay_sock = \<lparr>caps = [], written = []\<rparr>\<rparr>\<rparr>\<rparr>"

lemma open_sys_reach: "tcp_reach L full sys_init open_sys"
proof -
  let ?s1 = "sys_init\<lparr>glob := tcp_init\<lparr>t_starting := True\<rparr>, threads := [ThBegin]\<rparr> :: bytes tcp_sys"
  let ?srv = "new_server\<lparr>srv_sock := True, srv_running := True\<rparr>"
  let ?s2 = "?s1\<lparr>glob := tcp_init\<lparr>t_server := Some ?srv\<rparr>, threads := [ThAccept ?srv]\<rparr>"
  have 1: "tcp_step L full sys_init [] ?s1"
    using tcp_step.spawn [of sys_init True "tcp_init\<lparr>t_starting := True\<rparr>" L full]
    by (simp add: sys_init_def tcp_on_handshake_completed_def tcp_init_def)
  obtain ms where 2: "tcp_step L full ?s1 ms ?s2"
    using tcp_step.listen [where s = "?s1" and xs = "[]" and ys = "[]" and env = ListenOk and L = L and full = full]
    by (auto simp: sys_init_def tcp_init_def start_server_listen_def Let_def)
  obtain ms' where 3: "tcp_step L full ?s2 ms' open_sys"
    using tcp_step.accepted [where s = "?s2" and xs = "[]" and ys = "[]" and srv = ?srv and env = "AccConn ''a'' 1"
        and w = "\<lparr>caps = [], written = []\<rparr>" and rs = "[]" and L = L and full = full]
    by (auto simp: sys_init_def open_sys_def tcp_init_def srv_accept_def session_opened_def)
  show ?thesis using 1 2 3 by (blast intro: tcp_reach.intros)
qed

definition waiting_sys :: "bytes tcp_sys" where
  "waiting_sys = open_sys\<lparr>waiting := True, glob := (glob open_sys)\<lparr>t_restart_pending := True,
     t_relay := Some \<lparr>relay_running = True, relay_sock = \<lparr>caps = [], written = [0, 3, 0, 2, 0, 13]\<rparr>\<rparr>\<rparr>\<rparr>"

lemma waiting_sys_reach: "tcp_reach echo_tls False sys_init waiting_sys"
proof -
  have e: "encode echo_tls 0 13 [] False (None :: bytes cryptor option) = (Inr [[0, 3, 0, 2, 0, 13]], None)"
    by code_simp
  have "tcp_restart_begin echo_tls (glob open_sys) = (True, None, glob waiting_sys, [])"
    by (simp add: tcp_restart_begin_def open_sys_def waiting_sys_def sys_init_def tcp_init_def e
        MSG_SHUTDOWN_REQUEST_def send_raw_open Let_def)
  then have "tcp_step echo_tls False open_sys [] (open_sys\<lparr>glob := glob waiting_sys, waiting := True\<rparr>)"
    by (intro tcp_step.restart_call) (simp_all add: open_sys_def sys_init_def)
  moreover have "open_sys\<lparr>glob := glob waiting_sys, waiting := True\<rparr> = waiting_sys"
    by (simp add: waiting_sys_def)
  ultimately show ?thesis using open_sys_reach by (auto intro: tcp_reach.intros)
qed

lemmas sys_defs = waiting_sys_def open_sys_def sys_init_def tcp_init_def

text \<open>
  A completed handshake that arrives while the relay's thread is in the middle of \<^verbatim>\<open>_teardown\<close>: the
  server is already gone and the starting flag still down, so a second thread is started; the
  teardown then lowers the starting flag of that thread, and the next completed handshake starts a
  third one.
\<close>

definition torn_sys :: "teardown_part list \<Rightarrow> thread_phase list \<Rightarrow> bool \<Rightarrow> bytes tcp_state \<Rightarrow> bytes tcp_sys" where
  "torn_sys ps ts b g = \<lparr>glob = g, threads = ThTear ps # ts, waiting = False, stopped = False, overlapped = b\<rparr>"

lemma torn_step: "tcp_step L full (torn_sys (p # ps) ts b g) [] (torn_sys ps ts b (teardown_part_run p g))"
  using tcp_step.tear [where s = "torn_sys (p # ps) ts b g" and xs = "[]"] by (simp add: torn_sys_def)

lemma torn_steps: "tcp_reach L full s (torn_sys (ps @ qs) ts b g) \<Longrightarrow>
    tcp_reach L full s (torn_sys qs ts b (fold teardown_part_run ps g))"
proof (induction ps arbitrary: g)
  case (Cons p ps)
  from Cons.prems have "tcp_reach L full s (torn_sys (p # ps @ qs) ts b g)" by simp
  from Cons.IH [OF tcp_reach.step [OF this torn_step]] show ?case by simp
qed simp

lemma torn_spawn:
  assumes "\<not> t_starting g" and "t_server g = None"
  shows "tcp_step L full (torn_sys ps ts b g) [] (torn_sys ps (ts @ [ThBegin]) True (g\<lparr>t_starting := True\<rparr>))"
  using tcp_step.spawn [where s = "torn_sys ps ts b g" and b = True and g = "g\<lparr>t_starting := True\<rparr>"] assms
  by (simp add: torn_sys_def tcp_on_handshake_completed_def)

lemma teardown_overlap:
  "\<exists>t :: bytes tcp_sys. tcp_reach L full sys_init t \<and> overlapped t \<and> \<not> stopped t \<and> threads t = [ThBegin, ThBegin]"
proof -
  let ?h = "(glob open_sys)\<lparr>t_relay := map_option relay_stop (t_relay (glob open_sys))\<rparr>"
  let ?g = "fold teardown_part_run [TdRelay, TdServer] ?h"
  let ?g' = "fold teardown_part_run [TdCryptor, TdAssembler, TdStarting] (?g\<lparr>t_starting := True\<rparr>)"
  let ?t = "torn_sys [] [ThBegin, ThBegin] True (?g'\<lparr>t_starting := True\<rparr>)"
  let ?u = "?t\<lparr>threads := [ThBegin, ThBegin]\<rparr>"
  have "fst (read_frame []) = None"
    by (simp add: read_frame_def relay_consts recv_exact_def recv_exact_from.simps [of 2])
  then have 1: "tcp_step L full open_sys [(''tcp.session.closed'', [])] (torn_sys teardown_parts [] False ?h)"
    using tcp_step.ended [where s = open_sys and xs = "[]" and rs = "[]" and ys = "[]" and b = True and g = ?h
        and ms = "[(''tcp.session.closed'', [])]"]
    by (simp add: open_sys_def sys_init_def tcp_init_def relay_finally_def torn_sys_def)
  have 2: "tcp_reach L full sys_init (torn_sys [TdCryptor, TdAssembler, TdStarting] [] False ?g)"
    using tcp_reach.step [OF open_sys_reach 1]
    by (intro torn_steps [where ps = "[TdRelay, TdServer]"]) (simp add: teardown_parts_def)
  have 3: "tcp_reach L full sys_init (torn_sys [TdCryptor, TdAssembler, TdStarting] [ThBegin] True (?g\<lparr>t_starting := True\<rparr>))"
    using tcp_reach.step [OF 2 torn_spawn] by (simp add: open_sys_def sys_init_def tcp_init_def)
  have 4: "tcp_reach L full sys_init (torn_sys [] [ThBegin] True ?g')"
    by (rule torn_steps) (use 3 in simp)
  have 5: "tcp_reach L full sys_init ?t"
    using tcp_reach.step [OF 4 torn_spawn] by (simp add: open_sys_def sys_init_def tcp_init_def)
  have "tcp_step L full ?t [] ?u"
    using tcp_step.torn [where s = ?t and xs = "[]"] by (simp add: torn_sys_def)
  from tcp_reach.step [OF 5 this] show ?thesis by (intro exI [of _ ?u]) (simp add: torn_sys_def)
qed

text \<open>C39 However the bus handlers and the server threads interleave, the parts of a teardown included,
  there is never more than one server thread until a completed handshake is taken up while a teardown
  is under way, and while the module is not stopped the guard flags agree with that thread: one that
  has accepted a phone has its server, relay and assembler in place. The exception is real: a run of
  two completed handshakes during one teardown ends with two fresh server threads at once.\<close>

theorem one_server_thread:
  assumes "tcp_reach L full sys_init s"
  shows "(overlapped s \<or> length (threads s) \<le> 1 \<and> (stopped s \<or> phase_ok (glob s) (threads s))) \<and>
    (\<exists>t :: bytes tcp_sys. tcp_reach M full sys_init t \<and> overlapped t \<and> \<not> stopped t \<and> threads t = [ThBegin, ThBegin])"
  using tcp_reachable_inv [OF assms] teardown_overlap by (auto simp: tcp_inv_def)

lemma one_server_thread_witness:
  "(overlapped waiting_sys \<or> length (threads waiting_sys) \<le> 1 \<and>
      (stopped waiting_sys \<or> phase_ok (glob waiting_sys) (threads waiting_sys))) \<and>
    (\<exists>t :: bytes tcp_sys. tcp_reach echo_tls False sys_init t \<and> overlapped t \<and> \<not> stopped t \<and> threads t = [ThBegin, ThBegin])"
  by (rule one_server_thread [OF waiting_sys_reach])

text \<open>The restart handler never sees the phone's acknowledgement: while it waits, the flag it waits
  for is down in every reachable state, since the handler that would raise it runs on the thread that
  is waiting. The wait always lasts its full three seconds.\<close>

theorem restart_ack_never_seen:
  assumes "tcp_reach L full sys_init s" and "waiting s"
  shows "t_restart_pending (glob s) \<and> \<not> t_shutdown_ack (glob s)"
  using tcp_reachable_inv [OF assms(1)] assms(2) by (simp add: tcp_inv_def)

lemma restart_ack_never_seen_witness:
  "t_restart_pending (glob waiting_sys) \<and> \<not> t_shutdown_ack (glob waiting_sys)"
  by (rule restart_ack_never_seen [OF waiting_sys_reach]) (simp add: sys_defs)

text \<open>When the phone closes the connection while a restart waits, the module is stuck until it is
  stopped: the close is not announced and the server is kept, so that from then on every completed
  handshake is ignored and no server thread is ever started again.\<close>

theorem close_during_restart_wedges:
  assumes "tcp_reach L full sys_init s" and "waiting s" and "\<not> stopped s" and "\<not> overlapped s"
    and "threads s = [ThRelay rs]"
    and "fst (read_frame rs) = None"
  shows "\<exists>t. tcp_reach L full s t \<and> \<not> waiting t \<and> \<not> stopped t \<and>
    (\<forall>u. tcp_reach L full t u \<longrightarrow>
       stopped u \<or> (threads u = [] \<and> tcp_on_handshake_completed (glob u) = (False, glob u)))"
proof -
  have inv: "tcp_inv s" by (rule tcp_reachable_inv [OF assms(1)])
  then have p: "t_restart_pending (glob s)" "t_server (glob s) \<noteq> None"
    using assms(2-5) by (auto simp: tcp_inv_def)
  let ?g = "(glob s)\<lparr>t_relay := map_option relay_stop (t_relay (glob s))\<rparr>"
  let ?s1 = "s\<lparr>glob := ?g, threads := []\<rparr>"
  obtain x g ms where e: "tcp_restart_end ?g = (x, g, ms)" by (cases "tcp_restart_end ?g") auto
  let ?t = "?s1\<lparr>glob := g, waiting := False\<rparr>"
  have "relay_finally (glob s) = (False, ?g, [])" using p by (simp add: relay_finally_def)
  then have 1: "tcp_step L full s [] ?s1"
    using tcp_step.ended [where s = s and xs = "[]" and ys = "[]" and rs = rs and b = False and g = ?g and ms = "[]"]
      assms(5,6) by simp
  have 2: "tcp_step L full ?s1 ms ?t" by (rule tcp_step.restart_done) (use assms(2) e in simp_all)
  have w: "wedged ?t" using restart_end_control [OF e] p by (simp add: wedged_def same_control_def)
  have "tcp_reach L full s ?t" using 1 2 by (blast intro: tcp_reach.intros)
  moreover have "stopped u \<or> (threads u = [] \<and> tcp_on_handshake_completed (glob u) = (False, glob u))"
    if "tcp_reach L full ?t u" for u
    using wedged_reach [OF that w] by (cases "stopped u") (auto simp: wedged_def tcp_on_handshake_completed_def)
  ultimately show ?thesis using assms(3) by (intro exI [of _ ?t]) simp
qed

lemma close_during_restart_wedges_witness:
  "\<exists>t. tcp_reach echo_tls False waiting_sys t \<and> \<not> waiting t \<and> \<not> stopped t \<and>
    (\<forall>u. tcp_reach echo_tls False t u \<longrightarrow>
       stopped u \<or> (threads u = [] \<and> tcp_on_handshake_completed (glob u) = (False, glob u)))"
proof (rule close_during_restart_wedges [OF waiting_sys_reach])
  show "fst (read_frame []) = None"
    by (simp add: read_frame_def relay_consts recv_exact_def recv_exact_from.simps [of 2])
qed (simp_all add: sys_defs)

end
