(* ===== verification/TcpSession.thy ===== *)
theory TcpSession
  imports TcpSystem
begin

text \<open>
  The two ends of the data path of tcp_server together: what one side builds with \<^verbatim>\<open>encode\<close> and
  writes to the socket, and what the other side's relay loop reads, reassembles and publishes.
\<close>

section \<open>The receiving end\<close>

text \<open>The relay's callback as the loop sees it: the module state and the messages published so far.\<close>

type_synonym 'e receiver = "'e tcp_state \<times> busmsg list"

definition relay_callback :: "'e tls_lib \<Rightarrow> bool \<Rightarrow> rawframe \<Rightarrow> 'e receiver callback" where
  "relay_callback L full fr st =
     map_option (\<lambda>(x, s', ms). (x, (s', snd st @ ms))) (on_raw_frame L full fr (fst st))"

definition serve :: "'e tls_lib \<Rightarrow> bool \<Rightarrow> rsock \<Rightarrow> 'e receiver callback" where
  "serve L full rs st = relay_loop (\<lambda>st. relay_runs (fst st)) (relay_callback L full) rs st"

definition plain_ok :: "rawframe \<Rightarrow> bool" where
  "plain_ok m = (case m of (c, f, p, t) \<Rightarrow> f AND FLAG_ENCRYPTED = 0 \<and> 2 \<le> length p \<and> (t = 0 \<or> int (length p) = t))"

definition pub :: "bool \<Rightarrow> rawframe \<Rightarrow> busmsg list" where
  "pub full m = (case m of (c, f, p, t) \<Rightarrow>
     [(''aa.frame.received'', received_data full c (be_val (take 2 p)) False (drop 2 p)),
      (ch_topic c, frame_data c (be_val (take 2 p)) False (drop 2 p))])"

lemma on_raw_frame_none:
  "t_assembler s = Some A \<Longrightarrow> feed c f p t A = (None, A') \<Longrightarrow>
   on_raw_frame L full (c, f, p, t) s = Some (None, s\<lparr>t_assembler := Some A'\<rparr>, [])"
  by (simp add: on_raw_frame_def)

lemma on_raw_frame_plain:
  "t_assembler s = Some A \<Longrightarrow> feed c f p t A = (Some m, A') \<Longrightarrow> plain_ok m \<Longrightarrow>
   on_raw_frame L full (c, f, p, t) s = Some (None, s\<lparr>t_assembler := Some A'\<rparr>, pub full m)"
  by (cases m) (auto simp: on_raw_frame_def plain_ok_def publish_frame_def pub_def Let_def)

lemma relay_runs_assembler [simp]: "relay_runs (s\<lparr>t_assembler := A\<rparr>) = relay_runs s"
  by (simp add: relay_runs_def)

lemma deliver_plain:
  assumes "t_assembler s = Some A" and "relay_runs s"
    and "\<forall>m \<in> set (snd (run_events feed_step A frs)). plain_ok m"
  shows "\<exists>s'. deliver (\<lambda>st. relay_runs (fst st)) (relay_callback L full) frs (s, lg)
      = Some (None, (s', lg @ concat (map (pub full) (snd (run_events feed_step A frs)))))"
  using assms
proof (induction frs arbitrary: s A lg)
  case (Cons fr frs)
  obtain c f p t where fr: "fr = (c, f, p, t)" by (cases fr)
  obtain r A' where fd: "feed c f p t A = (r, A')" by (cases "feed c f p t A")
  let ?s = "s\<lparr>t_assembler := Some A'\<rparr>"
  have ok: "\<forall>m \<in> set (snd (run_events feed_step A' frs)). plain_ok m"
    using Cons.prems(3) fr fd by (auto simp: Let_def)
  have IH: "\<exists>s'. deliver (\<lambda>st. relay_runs (fst st)) (relay_callback L full) frs (?s, lg')
      = Some (None, (s', lg' @ concat (map (pub full) (snd (run_events feed_step A' frs)))))" for lg'
    using Cons.prems(2) ok by (intro Cons.IH) simp_all
  show ?case
  proof (cases r)
    case None
    have "relay_callback L full fr (s, lg) = Some (None, (?s, lg))"
      using fr on_raw_frame_none [OF Cons.prems(1) fd [unfolded None], of L full]
      by (simp add: relay_callback_def)
    with IH [of lg] None show ?thesis using Cons.prems(2) fr fd by (simp add: Let_def)
  next
    case (Some m)
    then have "plain_ok m" using Cons.prems(3) fr fd by (simp add: Let_def)
    then have "relay_callback L full fr (s, lg) = Some (None, (?s, lg @ pub full m))"
      using fr on_raw_frame_plain [OF Cons.prems(1) fd [unfolded Some], of L full]
      by (simp add: relay_callback_def)
    then show ?thesis
      using Cons.prems(2) fr fd Some IH [of "lg @ pub full m"] by (simp add: Let_def)
  qed
qed simp

section \<open>The sending end\<close>

definition sent :: "'e tls_lib \<Rightarrow> int \<Rightarrow> bool \<Rightarrow> 'e cryptor option \<Rightarrow> int \<times> bytes \<Rightarrow> bytes list" where
  "sent L c ssl crypt m = (case fst (encode L c (fst m) (snd m) ssl crypt) of Inl _ \<Rightarrow> [] | Inr fs \<Rightarrow> fs)"

definition plain_cryptor :: "'e cryptor option \<Rightarrow> bool" where
  "plain_cryptor crypt = (case crypt of None \<Rightarrow> True | Some c \<Rightarrow> \<not> active c)"

definition sendable :: "int \<times> bytes \<Rightarrow> bool" where
  "sendable m \<longleftrightarrow> 0 \<le> fst m \<and> fst m < 65536 \<and> length (snd m) < 2 ^ 32 - 2"

definition msg_payload :: "int \<times> bytes \<Rightarrow> bytes" where
  "msg_payload m = be_bytes 2 (fst m) @ snd m"

lemma kind_bits_plain: "kind_bits (message_type c mid)"
  by (simp add: message_type_def kind_bits_def frame_consts)

lemma sent_plain:
  assumes "0 \<le> c" "c < 256" "plain_cryptor crypt" "sendable m"
  shows "sent L c ssl crypt m = map wire_enc (raw_frames c (message_type c (fst m)) (msg_payload m))"
proof -
  have "pack_be 2 (fst m) = Inr (be_bytes 2 (fst m))"
    using assms(4) by (simp add: sendable_def pack_be_ok)
  moreover have "frame_payload c (message_type c (fst m)) ET_PLAIN (msg_payload m)
      = Inr (map wire_enc (raw_frames c (message_type c (fst m)) (msg_payload m)))"
    using frame_payload_ok [of c "message_type c (fst m)" ET_PLAIN "msg_payload m"] assms kind_bits_plain
    by (simp add: msg_payload_def sendable_def ET_PLAIN_def)
  moreover have "encryption_type c (fst m) ssl \<noteq> ET_ENCRYPTED \<Longrightarrow> encryption_type c (fst m) ssl = ET_PLAIN"
    using encryption_type_cases [of c "fst m" ssl] by simp
  ultimately show ?thesis
    using assms(3) by (auto simp: sent_def encode_def Let_def msg_payload_def plain_cryptor_def split: option.splits)
qed

definition dec_frame :: "bytes \<Rightarrow> rawframe" where
  "dec_frame f = fst (the (wire_dec f))"

lemma dec_wire_enc: "wire_valid fr \<Longrightarrow> dec_frame (wire_enc fr) = fr"
  using wire_dec_enc [of fr "[]"] by (simp add: dec_frame_def)

lemma wire_enc_channel: "wire_valid fr \<Longrightarrow> (wire_enc fr ! 0 = word_of_int c) = (fst fr mod 256 = c mod 256)"
proof -
  obtain ch f p t where fr: "fr = (ch, f, p, t)" by (cases fr)
  have "(word_of_int ch :: byte) = word_of_int c \<longleftrightarrow> ch mod 256 = c mod 256"
    by (simp add: word_uint_eq_iff uint_word_of_int_byte)
  then show ?thesis by (simp add: fr wire_enc_def)
qed

lemma sent_valid:
  assumes "0 \<le> c" "c < 256" "sendable m" "fr \<in> set (raw_frames c (message_type c (fst m)) (msg_payload m))"
  shows "wire_valid fr" and "fst fr = c"
proof -
  show "wire_valid fr"
    by (rule raw_frames_valid [OF assms(1,2) kind_bits_plain _ assms(4)])
      (use assms(3) in \<open>simp add: sendable_def msg_payload_def\<close>)
  show "fst fr = c" using assms(4) by (auto simp: raw_frames_def Let_def split: if_splits)
qed

lemma whole_plain_ok: "sendable m \<Longrightarrow> plain_ok (whole_message c (message_type c (fst m)) (msg_payload m))"
  by (simp add: plain_ok_def whole_message_def msg_payload_def message_type_def frame_consts FLAG_ENCRYPTED_def)

lemma pub_whole: "sendable m \<Longrightarrow>
    filter (\<lambda>b. fst b = ch_topic c) (pub full (whole_message c k (msg_payload m)))
      = [(ch_topic c, frame_data c (fst m) False (snd m))]"
  by (simp add: pub_def whole_message_def msg_payload_def ch_topic_def be_val_pack sendable_def)

lemma pub_other: "fst m \<noteq> c \<Longrightarrow> filter (\<lambda>b. fst b = ch_topic c) (pub full m) = []"
  by (auto simp: pub_def ch_topic_def split: prod.splits)

lemma pub_filter:
  "filter (\<lambda>b. fst b = ch_topic c) (concat (map (pub full) outs))
     = filter (\<lambda>b. fst b = ch_topic c) (concat (map (pub full) (filter (\<lambda>m. fst m = c) outs)))"
  by (induction outs) (auto simp: pub_other)

section \<open>From one end to the other\<close>

text \<open>The frames on the wire, those of each channel in the order that channel sent its messages.\<close>

definition interleaved :: "'e tls_lib \<Rightarrow> bool \<Rightarrow> 'e cryptor option \<Rightarrow> (int \<Rightarrow> (int \<times> bytes) list) \<Rightarrow> bytes list \<Rightarrow> bool" where
  "interleaved L ssl crypt msgs wire \<longleftrightarrow>
     (\<forall>c \<in> {0..<256}. filter (\<lambda>f. f ! 0 = word_of_int c) wire = concat (map (sent L c ssl crypt) (msgs c)))"

lemma interleaved_frames:
  assumes "interleaved L ssl crypt msgs wire" and "plain_cryptor crypt"
    and "\<forall>c \<in> {0..<256}. \<forall>m \<in> set (msgs c). sendable m"
  obtains frs where "wire = map wire_enc frs" "\<forall>fr \<in> set frs. wire_valid fr"
    "\<forall>c \<in> {0..<256}. filter (\<lambda>fr. fst fr = c) frs
       = concat (map (\<lambda>(k, p). raw_frames c k p) (map (\<lambda>m. (message_type c (fst m), msg_payload m)) (msgs c)))"
proof -
  let ?raw = "\<lambda>c. concat (map (\<lambda>m. raw_frames c (message_type c (fst m)) (msg_payload m)) (msgs c))"
  have snt: "concat (map (sent L c ssl crypt) (msgs c)) = map wire_enc (?raw c)" if "c \<in> {0..<256}" for c
  proof -
    have "map (sent L c ssl crypt) (msgs c)
        = map (\<lambda>m. map wire_enc (raw_frames c (message_type c (fst m)) (msg_payload m))) (msgs c)"
      using assms(2,3) that by (intro map_cong refl sent_plain) auto
    then show ?thesis by (simp only: map_concat map_map comp_def)
  qed
  have int: "filter (\<lambda>f. f ! 0 = word_of_int c) wire = map wire_enc (?raw c)" if c: "c \<in> {0..<256}" for c
    using assms(1) c snt [OF c] unfolding interleaved_def by (simp only: Ball_def simp_thms)
  have val: "wire_valid fr \<and> fst fr = c" if r: "fr \<in> set (?raw c)" and c: "c \<in> {0..<256}" for fr c
  proof -
    obtain m where "m \<in> set (msgs c)" and fr: "fr \<in> set (raw_frames c (message_type c (fst m)) (msg_payload m))"
      using r by auto
    then have "sendable m" using assms(3) c by blast
    then show ?thesis using sent_valid [OF _ _ _ fr] c by simp
  qed
  have each: "\<exists>fr. f = wire_enc fr \<and> wire_valid fr" if "f \<in> set wire" for f
  proof -
    let ?c = "uint (f ! 0)"
    have c: "?c \<in> {0..<256}" using uint_byte_lt by simp
    have "f \<in> set (filter (\<lambda>f. f ! 0 = word_of_int ?c) wire)" using that by simp
    then have "f \<in> set (map wire_enc (?raw ?c))" unfolding int [OF c] .
    then obtain fr where "f = wire_enc fr" "fr \<in> set (?raw ?c)" unfolding set_map by blast
    with val [OF _ c] show ?thesis by blast
  qed
  let ?frs = "map dec_frame wire"
  have w: "wire = map wire_enc ?frs"
    by (simp add: comp_def, rule map_idI [symmetric]) (use each dec_wire_enc in fastforce)
  have v: "\<forall>fr \<in> set ?frs. wire_valid fr" using each dec_wire_enc by fastforce
  have "filter (\<lambda>fr. fst fr = c) ?frs = ?raw c" if c: "c \<in> {0..<256}" for c
  proof -
    have "(fst (dec_frame f) = c) = (f ! 0 = word_of_int c)" if f: "f \<in> set wire" for f
    proof -
      obtain fr where fr: "f = wire_enc fr" "wire_valid fr" using each [OF f] by blast
      then have "0 \<le> fst fr" "fst fr < 256" by (auto simp: wire_valid_def split: prod.splits)
      then show ?thesis using fr c wire_enc_channel [OF fr(2), of c] by (simp add: dec_wire_enc)
    qed
    then have "filter (\<lambda>fr. fst fr = c) ?frs = map dec_frame (filter (\<lambda>f. f ! 0 = word_of_int c) wire)"
      by (simp add: filter_map comp_def cong: filter_cong)
    also have "\<dots> = map dec_frame (map wire_enc (?raw c))" by (simp only: int [OF c])
    also have "\<dots> = ?raw c"
      unfolding map_map comp_def by (rule map_idI) (use val c dec_wire_enc in blast)
    finally show ?thesis .
  qed
  then show thesis using w v by (intro that [of ?frs]) (auto simp: comp_def)
qed

text \<open>C1 Plaintext messages go through whole: whatever messages each channel sends with \<^verbatim>\<open>encode\<close>,
  however the frames of different channels are interleaved on the socket and however the socket cuts
  the byte stream into blocks, the receiving loop ends without an exception and has published, on the
  topic of each channel, exactly the messages sent on it, in order, with their identifiers and
  bodies.\<close>

theorem messages_delivered:
  assumes "interleaved L ssl crypt msgs wire" and "plain_cryptor crypt"
    and "\<forall>c \<in> {0..<256}. \<forall>m \<in> set (msgs c). sendable m"
    and "avail rs = concat wire" and "t_assembler s = Some A" and "relay_runs s"
  shows "\<exists>s' lg. serve L full rs (s, []) = Some (None, (s', lg)) \<and>
    (\<forall>c \<in> {0..<256}. filter (\<lambda>b. fst b = ch_topic c) lg
       = map (\<lambda>m. (ch_topic c, frame_data c (fst m) False (snd m))) (msgs c))"
proof -
  let ?ks = "\<lambda>c. map (\<lambda>m. (message_type c (fst m), msg_payload m)) (msgs c)"
  let ?ws = "\<lambda>c. map (\<lambda>m. whole_message c (message_type c (fst m)) (msg_payload m)) (msgs c)"
  obtain frs where frs: "wire = map wire_enc frs" "\<forall>fr \<in> set frs. wire_valid fr"
      "\<forall>c \<in> {0..<256}. filter (\<lambda>fr. fst fr = c) frs = concat (map (\<lambda>(k, p). raw_frames c k p) (?ks c))"
    by (rule interleaved_frames [OF assms(1-3)])
  let ?outs = "snd (run_events feed_step A frs)"
  have outs: "filter (\<lambda>m. fst m = c) ?outs = ?ws c" if c: "c \<in> {0..<256}" for c
  proof -
    have "filter (\<lambda>m. fst m = c) ?outs = snd (run_events feed_step A (filter (\<lambda>fr. fst fr = c) frs))"
      by (rule feed_run_project) simp
    also have "\<dots> = map (\<lambda>(k, p). whole_message c k p) (?ks c)"
      unfolding bspec [OF frs(3) c] by (rule feed_many) (auto simp: kind_bits_plain)
    finally show ?thesis by (simp add: comp_def)
  qed
  have "plain_ok m" if "m \<in> set ?outs" for m
  proof -
    have m: "m \<in> set (filter (\<lambda>x. fst x = fst m) ?outs)" using that by simp
    have c: "fst m \<in> {0..<256}"
    proof (rule ccontr)
      assume n: "fst m \<notin> {0..<256}"
      have "filter (\<lambda>fr. fst fr = fst m) frs = []"
        using frs(2) n by (auto simp: filter_empty_conv wire_valid_def split: prod.splits)
      then have "filter (\<lambda>x. fst x = fst m) ?outs = []"
        using feed_run_project [of A "fst m" A frs] by simp
      with m show False by simp
    qed
    have "m \<in> set (?ws (fst m))" using m outs [OF c] by simp
    then obtain x where x: "x \<in> set (msgs (fst m))"
      and e: "m = whole_message (fst m) (message_type (fst m) (fst x)) (msg_payload x)" by fastforce
    have "sendable x" using assms(3) c x by blast
    from whole_plain_ok [OF this, of "fst m"] e show ?thesis by simp
  qed
  then obtain s' where d: "deliver (\<lambda>st. relay_runs (fst st)) (relay_callback L full) frs (s, [])
      = Some (None, (s', concat (map (pub full) ?outs)))"
    using deliver_plain [OF assms(5,6), of frs L full "[]"] by auto
  have "fst (decode_stream wire_dec (avail rs)) = frs"
    using aa_wire.stream_dec [OF frs(2), of "[]"] assms(4) frs(1)
    by (simp add: decode_stream.simps [of wire_dec "[]"] wire_dec_def)
  then have "serve L full rs (s, []) = Some (None, (s', concat (map (pub full) ?outs)))"
    using d by (simp add: serve_def relay_loop_delivers)
  moreover have "filter (\<lambda>b. fst b = ch_topic c) (concat (map (pub full) ?outs))
      = map (\<lambda>m. (ch_topic c, frame_data c (fst m) False (snd m))) (msgs c)" if c: "c \<in> {0..<256}" for c
  proof -
    have *: "filter (\<lambda>b. fst b = ch_topic c) (concat (map (pub full)
        (map (\<lambda>m. whole_message c (message_type c (fst m)) (msg_payload m)) ms)))
        = map (\<lambda>m. (ch_topic c, frame_data c (fst m) False (snd m))) ms" if "\<forall>m \<in> set ms. sendable m" for ms
      using that by (induction ms) (simp_all add: pub_whole)
    show ?thesis unfolding pub_filter [of c full ?outs] outs [OF c] by (rule *) (use assms(3) c in blast)
  qed
  ultimately show ?thesis by blast
qed

definition demo_msgs :: "int \<Rightarrow> (int \<times> bytes) list" where
  "demo_msgs c = (if c = 3 then [(32768, [7])] else [])"

definition demo_receiver :: "bytes tcp_state" where
  "demo_receiver = tcp_init\<lparr>t_assembler := Some [],
     t_relay := Some \<lparr>relay_running = True, relay_sock = \<lparr>caps = [], written = []\<rparr>\<rparr>\<rparr>"

lemma demo_interleaved: "interleaved echo_tls False None demo_msgs [[3, 3, 0, 3, 128, 0, 7]]"
proof -
  have s: "sent echo_tls 3 False None (32768, [7]) = [[3, 3, 0, 3, 128, 0, 7]]" by code_simp
  have "(3 :: byte) = word_of_int c \<longleftrightarrow> c = 3" if "0 \<le> c" "c < 256" for c
    using that by (simp add: word_uint_eq_iff uint_word_of_int)
  then show ?thesis by (auto simp: interleaved_def demo_msgs_def s)
qed

lemma messages_delivered_witness:
  "\<exists>s' lg. serve echo_tls False [Data [3, 3, 0], Data [3, 128, 0, 7]] (demo_receiver, []) = Some (None, (s', lg)) \<and>
    (\<forall>c \<in> {0..<256}. filter (\<lambda>b. fst b = ch_topic c) lg
       = map (\<lambda>m. (ch_topic c, frame_data c (fst m) False (snd m))) (demo_msgs c))"
  by (rule messages_delivered [OF demo_interleaved, where A = "[]"])
    (simp_all add: plain_cryptor_def demo_msgs_def sendable_def demo_receiver_def relay_runs_def)

end
