(* ===== verification/RfcommPacket.thy ===== *)
theory RfcommPacket
  imports Transport
begin

text \<open>
  \<^verbatim>\<open>v2/modules/rfcomm_handshake/packet.py\<close>: the packets of the RFCOMM wireless handshake, a
  big-endian length and message identifier followed by the payload.
\<close>

definition MSG_WIFI_START_REQUEST :: int where "MSG_WIFI_START_REQUEST = 1"
definition MSG_WIFI_INFO_REQUEST :: int where "MSG_WIFI_INFO_REQUEST = 2"
definition MSG_WIFI_INFO_RESPONSE :: int where "MSG_WIFI_INFO_RESPONSE = 3"
definition MSG_WIFI_START_RESPONSE :: int where "MSG_WIFI_START_RESPONSE = 6"
definition MSG_WIFI_CONNECT_STATUS :: int where "MSG_WIFI_CONNECT_STATUS = 7"
definition HEADER_SIZE :: nat where "HEADER_SIZE = 4"

lemmas wifi_msg_ids = MSG_WIFI_START_REQUEST_def MSG_WIFI_INFO_REQUEST_def MSG_WIFI_INFO_RESPONSE_def
  MSG_WIFI_START_RESPONSE_def MSG_WIFI_CONNECT_STATUS_def

record packet =
  pk_id :: int
  pk_payload :: bytes

section \<open>Encoding and decoding\<close>

definition packet_encode :: "int \<Rightarrow> bytes \<Rightarrow> bytes res" where
  "packet_encode msg_id payload =
     rbind (pack_be 2 (int (length payload))) (\<lambda>l. rbind (pack_be 2 msg_id) (\<lambda>m. Inr (l @ m @ payload)))"

definition packet_decode :: "bytes \<Rightarrow> packet option" where
  "packet_decode data =
     (if length data < HEADER_SIZE then None
      else (let payload_len = nat (be_val (take 2 data)); msg_id = be_val (take 2 (drop 2 data));
                payload = take payload_len (drop HEADER_SIZE data)
            in if length payload < payload_len then None
               else Some \<lparr>pk_id = msg_id, pk_payload = payload\<rparr>))"

section \<open>Sockets\<close>

text \<open>\<^verbatim>\<open>_recv_exact\<close>: an exception of \<^verbatim>\<open>recv\<close> goes through, the peer's close gives \<^verbatim>\<open>None\<close>.\<close>

function pk_recv_from :: "nat \<Rightarrow> bytes \<Rightarrow> rsock \<Rightarrow> bytes option res \<times> rsock" where
  "pk_recv_from n buf s =
     (if length buf < n then
        (case recv (n - length buf) s of
           (Inl x, s') \<Rightarrow> (Inl x, s')
         | (Inr chunk, s') \<Rightarrow> (if chunk = [] then (Inr None, s') else pk_recv_from n (buf @ chunk) s'))
      else (Inr (Some buf), s))"
  by pat_completeness auto
termination
  by (relation "measure (\<lambda>(n, buf, s). n - length buf)") (auto simp: length_greater_0_conv [symmetric] simp del: length_greater_0_conv)

declare pk_recv_from.simps [simp del]

definition pk_recv_exact :: "nat \<Rightarrow> rsock \<Rightarrow> bytes option res \<times> rsock" where
  "pk_recv_exact n s = pk_recv_from n [] s"

definition recv_packet :: "rsock \<Rightarrow> packet option \<times> rsock" where
  "recv_packet s =
     (case pk_recv_exact HEADER_SIZE s of
        (Inr (Some header), s1) \<Rightarrow>
          (let payload_len = nat (be_val (take 2 header)); msg_id = be_val (take 2 (drop 2 header)) in
           if payload_len \<noteq> 0 then
             (case pk_recv_exact payload_len s1 of
                (Inr (Some payload), s2) \<Rightarrow> (Some \<lparr>pk_id = msg_id, pk_payload = payload\<rparr>, s2)
              | (_, s2) \<Rightarrow> (None, s2))
           else (Some \<lparr>pk_id = msg_id, pk_payload = []\<rparr>, s1))
      | (_, s1) \<Rightarrow> (None, s1))"

text \<open>\<^verbatim>\<open>socket.sendall\<close> goes on until everything is taken or a \<^verbatim>\<open>send\<close> raises.\<close>

fun sendall_caps :: "send_ev list \<Rightarrow> bytes \<Rightarrow> exn option \<times> send_ev list \<times> bytes" where
  "sendall_caps [] data = (None, [], data)"
| "sendall_caps (SendErr x # cs) data = (if data = [] then (None, SendErr x # cs, []) else (Some x, cs, []))"
| "sendall_caps (Accept k # cs) data =
     (if data = [] then (None, Accept k # cs, [])
      else (let (x, cs', sent) = sendall_caps cs (drop k data) in (x, cs', take k data @ sent)))"

definition sock_sendall :: "bytes \<Rightarrow> wsock \<Rightarrow> exn option \<times> wsock" where
  "sock_sendall data w =
     (let (x, cs, sent) = sendall_caps (caps w) data in (x, w\<lparr>caps := cs, written := written w @ sent\<rparr>))"

definition send_packet :: "int \<Rightarrow> bytes \<Rightarrow> wsock \<Rightarrow> bool \<times> wsock" where
  "send_packet msg_id payload w =
     (case packet_encode msg_id payload of
        Inl x \<Rightarrow> (False, w)
      | Inr data \<Rightarrow> (case sock_sendall data w of (None, w') \<Rightarrow> (True, w') | (Some x, w') \<Rightarrow> (False, w')))"

section \<open>The reader\<close>

definition pk_rx :: "nat \<Rightarrow> rsock \<Rightarrow> bytes option \<times> rsock" where
  "pk_rx n s = (case pk_recv_exact n s of (Inr r, s') \<Rightarrow> (r, s') | (Inl x, s') \<Rightarrow> (None, s'))"

lemma pk_recv_from_spec:
  "length buf \<le> n \<Longrightarrow>
   (if n - length buf \<le> length (avail s)
    then fst (pk_recv_from n buf s) = Inr (Some (buf @ take (n - length buf) (avail s))) \<and>
         avail (snd (pk_recv_from n buf s)) = drop (n - length buf) (avail s)
    else fst (pk_recv_from n buf s) = Inr None \<or> (\<exists>x. fst (pk_recv_from n buf s) = Inl x))"
proof (induction n buf s rule: pk_recv_from.induct)
  case (1 n buf s)
  show ?case
  proof (cases "length buf < n")
    case False
    with "1.prems" show ?thesis by (simp add: pk_recv_from.simps [of n buf s])
  next
    case True
    obtain r s' where rs: "recv (n - length buf) s = (r, s')" by (cases "recv (n - length buf) s")
    show ?thesis
    proof (cases "\<exists>c. r = Inr c \<and> c \<noteq> []")
      case False
      then have "avail s = []"
        using recv_stop [of "n - length buf" s] rs True by (cases r) auto
      with False True rs show ?thesis
        by (cases r) (auto simp: pk_recv_from.simps [of n buf s])
    next
      case True': True
      then obtain c where r: "r = Inr c" "c \<noteq> []" by blast
      have c: "length c \<le> n - length buf" "avail s = c @ avail s'"
        using recv_nonempty rs r by blast+
      have le: "length (buf @ c) \<le> n" using c True by simp
      have st: "pk_recv_from n buf s = pk_recv_from n (buf @ c) s'"
        using True rs r by (simp add: pk_recv_from.simps [of n buf s])
      have "n - length buf = length c + (n - length (buf @ c))" using c True by simp
      then show ?thesis
        using "1.IH" [OF True _ _ r(2) le] rs r(1) st c(2) by simp
    qed
  qed
qed

interpretation pk_reader: exact_reader pk_rx
proof
  fix n s
  show "n \<le> length (avail s) \<Longrightarrow> fst (pk_rx n s) = Some (take n (avail s)) \<and> avail (snd (pk_rx n s)) = drop n (avail s)"
    using pk_recv_from_spec [of "[]" n s]
    by (cases "pk_recv_exact n s") (auto simp: pk_rx_def pk_recv_exact_def)
  show "length (avail s) < n \<Longrightarrow> fst (pk_rx n s) = None"
    using pk_recv_from_spec [of "[]" n s]
    by (cases "pk_recv_exact n s") (auto simp: pk_rx_def pk_recv_exact_def)
qed

section \<open>The packet format is self-delimiting\<close>

definition pk_valid :: "packet \<Rightarrow> bool" where
  "pk_valid p \<longleftrightarrow> 0 \<le> pk_id p \<and> pk_id p < 65536 \<and> length (pk_payload p) < 65536"

definition pk_enc :: "packet \<Rightarrow> bytes" where
  "pk_enc p = be_bytes 2 (int (length (pk_payload p))) @ be_bytes 2 (pk_id p) @ pk_payload p"

definition pk_dec :: "bytes \<Rightarrow> (packet \<times> bytes) option" where
  "pk_dec data = (case packet_decode data of None \<Rightarrow> None
     | Some p \<Rightarrow> Some (p, drop (HEADER_SIZE + length (pk_payload p)) data))"

lemma packet_encode_ok: "pk_valid p \<Longrightarrow> packet_encode (pk_id p) (pk_payload p) = Inr (pk_enc p)"
  by (simp add: packet_encode_def pk_valid_def pk_enc_def pack_be_ok)

lemma packet_encode_Inr: "packet_encode i d = Inr bs \<Longrightarrow> pk_valid \<lparr>pk_id = i, pk_payload = d\<rparr>"
  by (auto simp: packet_encode_def pk_valid_def rbind_Inr_iff pack_be_Inr)

lemma pk_dec_enc: "pk_valid p \<Longrightarrow> pk_dec (pk_enc p @ rest) = Some (p, rest)"
  by (simp add: pk_dec_def packet_decode_def pk_enc_def HEADER_SIZE_def pk_valid_def be_val_pack Let_def)

lemma pk_dec_inv: "pk_dec bs = Some (p, rest) \<Longrightarrow> pk_valid p \<and> bs = pk_enc p @ rest"
proof -
  assume "pk_dec bs = Some (p, rest)"
  then have len: "4 \<le> length bs" and n: "nat (be_val (take 2 bs)) \<le> length (drop 4 bs)"
    and p: "p = \<lparr>pk_id = be_val (take 2 (drop 2 bs)), pk_payload = take (nat (be_val (take 2 bs))) (drop 4 bs)\<rparr>"
    and rest: "rest = drop (4 + length (pk_payload p)) bs"
    by (auto simp: pk_dec_def packet_decode_def HEADER_SIZE_def Let_def not_less split: if_splits)
  have e: "be_bytes 2 (be_val (take 2 bs)) = take 2 bs" "be_bytes 2 (be_val (take 2 (drop 2 bs))) = take 2 (drop 2 bs)"
    using len be_bytes_be_val [of "take 2 bs"] be_bytes_be_val [of "take 2 (drop 2 bs)"] by simp_all
  have l: "length (pk_payload p) = nat (be_val (take 2 bs))" using n p by simp
  have li: "int (length (pk_payload p)) = be_val (take 2 bs)" using l be_val_ge0 by simp
  have "be_val (take 2 bs) < 65536" "be_val (take 2 (drop 2 bs)) < 65536"
    using be_val_lt [of "take 2 bs"] be_val_lt [of "take 2 (drop 2 bs)"] len by simp_all
  then have v: "pk_valid p" using l li be_val_ge0 p by (simp add: pk_valid_def)
  have "bs = take 2 bs @ take 2 (drop 2 bs) @ drop 4 bs"
    by (metis append_take_drop_id drop_drop numeral_Bit0 one_add_one add.assoc)
  also have "drop 4 bs = pk_payload p @ rest"
    using rest l p by (metis append_take_drop_id drop_drop select_convs(2) add.commute)
  finally have "bs = pk_enc p @ rest" using e li p by (simp add: pk_enc_def)
  with v show ?thesis ..
qed

interpretation pk_wire: framing pk_valid pk_enc pk_dec
proof
  show "pk_enc x \<noteq> []" for x by (simp add: pk_enc_def flip: length_0_conv)
qed (simp_all add: pk_dec_enc pk_dec_inv)

text \<open>Reading a packet off a socket is decoding the bytes to come.\<close>

lemma recv_packet_rx:
  "recv_packet s =
     (case pk_rx HEADER_SIZE s of
        (None, s1) \<Rightarrow> (None, s1)
      | (Some header, s1) \<Rightarrow>
          (if nat (be_val (take 2 header)) = 0
           then (Some \<lparr>pk_id = be_val (take 2 (drop 2 header)), pk_payload = []\<rparr>, s1)
           else (case pk_rx (nat (be_val (take 2 header))) s1 of
              (None, s2) \<Rightarrow> (None, s2)
            | (Some payload, s2) \<Rightarrow> (Some \<lparr>pk_id = be_val (take 2 (drop 2 header)), pk_payload = payload\<rparr>, s2))))"
  by (auto simp: recv_packet_def pk_rx_def Let_def split: prod.splits sum.splits option.splits)

lemma recv_packet_parse:
  "(case pk_dec (avail s) of
      None \<Rightarrow> fst (recv_packet s) = None
    | Some (p, rest) \<Rightarrow> fst (recv_packet s) = Some p \<and> avail (snd (recv_packet s)) = rest)"
proof (cases "4 \<le> length (avail s)")
  case False
  then show ?thesis using pk_reader.rx_short [of s 4]
    by (cases "pk_rx 4 s") (simp add: recv_packet_rx pk_dec_def packet_decode_def HEADER_SIZE_def)
next
  case True
  let ?n = "nat (be_val (take 2 (avail s)))"
  obtain s1 where s1: "pk_rx 4 s = (Some (take 4 (avail s)), s1)" "avail s1 = drop 4 (avail s)"
    using pk_reader.rx_step [OF True] by blast
  have h: "take 2 (take 4 (avail s)) = take 2 (avail s)"
    "take 2 (drop 2 (take 4 (avail s))) = take 2 (drop 2 (avail s))"
    by (simp_all add: min_def drop_take)
  show ?thesis
  proof (cases "?n \<le> length (avail s1)")
    case False
    moreover have "fst (pk_rx ?n s1) = None" using False by (intro pk_reader.rx_short) simp
    ultimately show ?thesis using True s1 h
      by (cases "pk_rx ?n s1") (auto simp: recv_packet_rx pk_dec_def packet_decode_def HEADER_SIZE_def Let_def)
  next
    case n: True
    obtain s2 where s2: "pk_rx ?n s1 = (Some (take ?n (avail s1)), s2)" "avail s2 = drop ?n (avail s1)"
      using pk_reader.rx_step [OF n] by blast
    show ?thesis using True n s1 s2 h
      by (auto simp: recv_packet_rx pk_dec_def packet_decode_def HEADER_SIZE_def Let_def add.commute)
  qed
qed

lemma sendall_open: "caps w = [] \<Longrightarrow> sock_sendall data w = (None, w\<lparr>written := written w @ data\<rparr>)"
  by (simp add: sock_sendall_def)

lemma send_packet_open:
  "caps w = [] \<Longrightarrow> pk_valid \<lparr>pk_id = i, pk_payload = d\<rparr> \<Longrightarrow>
   send_packet i d w = (True, w\<lparr>written := written w @ pk_enc \<lparr>pk_id = i, pk_payload = d\<rparr>\<rparr>)"
  using packet_encode_ok [of "\<lparr>pk_id = i, pk_payload = d\<rparr>"] by (simp add: send_packet_def sendall_open)

section \<open>Properties\<close>

text \<open>A packet that \<^verbatim>\<open>send_packet\<close> reports as sent is read back by \<^verbatim>\<open>recv_packet\<close> as the same
  packet whatever blocks the peer's socket receives it in, leaving what follows; \<^verbatim>\<open>decode\<close> of the same
  bytes agrees.\<close>

theorem packet_roundtrip:
  assumes "caps w = []" and "send_packet i d w = (True, w')" and "avail s = drop (length (written w)) (written w') @ rest"
  shows "fst (recv_packet s) = Some \<lparr>pk_id = i, pk_payload = d\<rparr> \<and> avail (snd (recv_packet s)) = rest \<and>
    packet_decode (avail s) = Some \<lparr>pk_id = i, pk_payload = d\<rparr>"
proof -
  let ?p = "\<lparr>pk_id = i, pk_payload = d\<rparr>"
  have v: "pk_valid ?p" using assms(2) packet_encode_Inr [of i d]
    by (cases "packet_encode i d") (auto simp: send_packet_def)
  then have "w' = w\<lparr>written := written w @ pk_enc ?p\<rparr>"
    using send_packet_open [OF assms(1) v] assms(2) by simp
  with assms(3) have a: "avail s = pk_enc ?p @ rest" by simp
  have d: "pk_dec (avail s) = Some (?p, rest)" unfolding a by (rule pk_dec_enc [OF v])
  then have "packet_decode (avail s) = Some ?p" by (auto simp: pk_dec_def split: option.splits)
  with recv_packet_parse [of s] d show ?thesis by simp
qed

lemma packet_roundtrip_witness:
  "fst (recv_packet [Data [0, 1, 0], Data [2, 9, 7]]) = Some \<lparr>pk_id = 2, pk_payload = [9]\<rparr> \<and>
   avail (snd (recv_packet [Data [0, 1, 0], Data [2, 9, 7]])) = [7] \<and>
   packet_decode (avail [Data [0, 1, 0], Data [2, 9, 7]]) = Some \<lparr>pk_id = 2, pk_payload = [9]\<rparr>"
proof (rule packet_roundtrip [where w = "\<lparr>caps = [], written = []\<rparr>" and w' = "\<lparr>caps = [], written = [0, 1, 0, 2, 9]\<rparr>"])
  show "send_packet 2 [9] \<lparr>caps = [], written = []\<rparr> = (True, \<lparr>caps = [], written = [0, 1, 0, 2, 9]\<rparr>)"
    by code_simp
qed simp_all

text \<open>\<^verbatim>\<open>recv_packet\<close> never takes a truncated packet for a complete one: when the peer closes, or the
  socket fails, inside a packet, the result is \<^verbatim>\<open>None\<close>.\<close>

theorem truncated_packet_none:
  assumes "pk_valid p" and "pk_enc p = avail s @ q" and "q \<noteq> []"
  shows "fst (recv_packet s) = None"
  using pk_wire.dec_truncated [OF assms] recv_packet_parse [of s] by simp

lemma truncated_packet_none_witness: "fst (recv_packet [Data [0, 2], Data [0, 7, 1], RecvErr OSError]) = None"
  by (rule truncated_packet_none [where p = "\<lparr>pk_id = 7, pk_payload = [1, 5]\<rparr>" and q = "[5]"])
    (simp_all add: pk_valid_def pk_enc_def numeral_2_eq_2)

end
