(* ===== verification/RfcommHandshake.thy ===== *)
theory RfcommHandshake
  imports RfcommPacket
begin

text \<open>
  \<^verbatim>\<open>v2/modules/rfcomm_handshake/handshake.py\<close>: the event loop of the wireless handshake. The
  protobuf classes it builds and parses are generated code and are the parameter \<open>wifi_proto\<close>.
\<close>

text \<open>Serialising a request may raise (a value of the wrong type for its field); \<open>parse_start\<close> gives
  the address of a start response, or \<open>None\<close> when the payload does not parse; \<open>exn_text\<close> is
  \<^verbatim>\<open>str(e)\<close>.\<close>

record wifi_proto =
  ser_start :: "pyval \<Rightarrow> int \<Rightarrow> bytes res"
  ser_security :: "pyval \<Rightarrow> pyval \<Rightarrow> pyval \<Rightarrow> pyval \<Rightarrow> pyval \<Rightarrow> bytes res"
  parse_start :: "bytes \<Rightarrow> string option"
  exn_text :: "exn \<Rightarrow> string"

definition DEFAULT_TCP_PORT :: int where "DEFAULT_TCP_PORT = 5288"
definition WPA2_SECURITY_MODE :: int where "WPA2_SECURITY_MODE = 8"
definition AP_TYPE_DYNAMIC :: int where "AP_TYPE_DYNAMIC = 1"
definition MAX_MESSAGES :: nat where "MAX_MESSAGES = 20"

datatype hs_result = HsOk string | HsFailed string

section \<open>Senders and handlers\<close>

definition send_start_request :: "wifi_proto \<Rightarrow> payload \<Rightarrow> wsock \<Rightarrow> bool res \<times> wsock" where
  "send_start_request P creds w =
     (case py_int (dget_or creds ''tcp_port'' (PInt DEFAULT_TCP_PORT)) of
        Inl x \<Rightarrow> (Inl x, w)
      | Inr port \<Rightarrow>
          (case ser_start P (dget_or creds ''gateway_ip'' (PStr [])) port of
             Inl x \<Rightarrow> (Inl x, w)
           | Inr payload \<Rightarrow> (let (ok, w') = send_packet MSG_WIFI_START_REQUEST payload w in (Inr ok, w'))))"

text \<open>\<^verbatim>\<open>len(passphrase)\<close> in the log line, evaluated when the passphrase is not empty.\<close>

fun has_len :: "pyval \<Rightarrow> bool" where
  "has_len (PStr s) = True"
| "has_len (PList l) = True"
| "has_len (PDict d) = True"
| "has_len v = False"

definition send_info_response :: "wifi_proto \<Rightarrow> payload \<Rightarrow> wsock \<Rightarrow> bool res \<times> wsock" where
  "send_info_response P creds w =
     (let ssid = dget_or creds ''ssid'' (PStr []);
          bssid = dget_or creds ''bssid'' (PStr []);
          passphrase = dget_or creds ''key'' (PStr []);
          security_mode = dget_or creds ''security_mode'' (PInt WPA2_SECURITY_MODE);
          ap_type = dget_or creds ''ap_type'' (PInt AP_TYPE_DYNAMIC)
      in if truthy passphrase \<and> \<not> has_len passphrase then (Inl TypeError, w)
         else (case ser_security P ssid bssid passphrase security_mode ap_type of
                 Inl x \<Rightarrow> (Inl x, w)
               | Inr payload \<Rightarrow> (let (ok, w') = send_packet MSG_WIFI_INFO_RESPONSE payload w in (Inr ok, w'))))"

definition handle_start_response :: "wifi_proto \<Rightarrow> packet \<Rightarrow> string \<Rightarrow> string" where
  "handle_start_response P pkt phone_ip =
     (case parse_start P (pk_payload pkt) of
        None \<Rightarrow> phone_ip
      | Some ip \<Rightarrow> (if ip \<noteq> [] then ip else phone_ip))"

section \<open>The event loop\<close>

text \<open>
  \<^verbatim>\<open>for _ in range(_MAX_MESSAGES)\<close>: \<open>n\<close> counts the messages still allowed. The stages reported to
  \<^verbatim>\<open>on_stage\<close> are returned in order.
\<close>

fun hs_loop :: "wifi_proto \<Rightarrow> payload \<Rightarrow> nat \<Rightarrow> rsock \<Rightarrow> wsock \<Rightarrow> string \<Rightarrow> hs_result \<times> wsock \<times> string list" where
  "hs_loop P creds 0 rs w ip =
     (HsFailed (''Event loop exhausted after '' @ str_of_nat MAX_MESSAGES @ '' messages without completion''), w, [])"
| "hs_loop P creds (Suc n) rs w ip =
     (case recv_packet rs of
        (None, rs') \<Rightarrow> (HsFailed ''Socket closed or recv error'', w, [])
      | (Some pkt, rs') \<Rightarrow>
          (if pk_id pkt = MSG_WIFI_START_RESPONSE then
             (let (r, w', st) = hs_loop P creds n rs' w (handle_start_response P pkt ip)
              in (r, w', ''WifiStartResponse'' # st))
           else if pk_id pkt = MSG_WIFI_INFO_REQUEST then
             (case send_info_response P creds w of
                (Inl x, w') \<Rightarrow> (HsFailed (exn_text P x), w', [''WifiInfoRequest'', ''WifiInfoResponse''])
              | (Inr ok, w') \<Rightarrow>
                  (if \<not> ok then (HsFailed ''Failed to send WifiInfoResponse'', w', [''WifiInfoRequest'', ''WifiInfoResponse''])
                   else (let (r, w'', st) = hs_loop P creds n rs' w' ip
                         in (r, w'', ''WifiInfoRequest'' # ''WifiInfoResponse'' # st))))
           else if pk_id pkt = MSG_WIFI_CONNECT_STATUS then
             (HsOk ip, w, [''WifiConnectionStatus''])
           else hs_loop P creds n rs' w ip))"

definition hs_run :: "wifi_proto \<Rightarrow> payload \<Rightarrow> rsock \<Rightarrow> wsock \<Rightarrow> hs_result \<times> wsock \<times> string list" where
  "hs_run P creds rs w =
     (case send_start_request P creds w of
        (Inl x, w') \<Rightarrow> (HsFailed (exn_text P x), w', [''WifiStartRequest''])
      | (Inr ok, w') \<Rightarrow>
          (if \<not> ok then (HsFailed ''Failed to send WifiStartRequest'', w', [''WifiStartRequest''])
           else (let (r, w'', st) = hs_loop P creds MAX_MESSAGES rs w' [] in (r, w'', ''WifiStartRequest'' # st))))"

section \<open>Specification\<close>

text \<open>
  What the handshake means to do, on the packets the phone sends: it succeeds with the first
  connection status among the first twenty, the address is the last one announced before it, and
  every credential request before it is answered.
\<close>

fun hs_outcome :: "wifi_proto \<Rightarrow> string \<Rightarrow> packet list \<Rightarrow> string option" where
  "hs_outcome P ip [] = None"
| "hs_outcome P ip (p # ps) =
     (if pk_id p = 7 then Some ip
      else hs_outcome P (if pk_id p = 6 then handle_start_response P p ip else ip) ps)"

definition before_status :: "packet list \<Rightarrow> packet list" where
  "before_status ps = takeWhile (\<lambda>p. pk_id p \<noteq> 7) ps"

definition info_requests :: "packet list \<Rightarrow> nat" where
  "info_requests ps = length (filter (\<lambda>p. pk_id p = 2) (before_status ps))"

definition incoming :: "rsock \<Rightarrow> packet list" where
  "incoming rs = fst (decode_stream pk_dec (avail rs))"

lemma incoming_step:
  "(case recv_packet rs of
      (None, rs') \<Rightarrow> incoming rs = []
    | (Some p, rs') \<Rightarrow> incoming rs = p # incoming rs')"
proof (cases "pk_dec (avail rs)")
  case None
  then show ?thesis using recv_packet_parse [of rs]
    by (cases "recv_packet rs") (simp add: incoming_def decode_stream.simps [of pk_dec "avail rs"])
next
  case (Some q)
  obtain p rest where q: "q = (p, rest)" by (cases q)
  with Some have "length rest < length (avail rs)" using pk_wire.dec_shrinks by blast
  with Some q recv_packet_parse [of rs] show ?thesis
    by (cases "recv_packet rs") (simp add: incoming_def decode_stream.simps [of pk_dec "avail rs"] Let_def)
qed

text \<open>The credentials are good when the response can be built and fits in a packet.\<close>

definition good_creds :: "wifi_proto \<Rightarrow> payload \<Rightarrow> bytes \<Rightarrow> bytes \<Rightarrow> bool" where
  "good_creds P creds req resp \<longleftrightarrow>
     (\<exists>port. py_int (dget_or creds ''tcp_port'' (PInt DEFAULT_TCP_PORT)) = Inr port \<and>
        ser_start P (dget_or creds ''gateway_ip'' (PStr [])) port = Inr req) \<and> length req < 65536 \<and>
     \<not> (truthy (dget_or creds ''key'' (PStr [])) \<and> \<not> has_len (dget_or creds ''key'' (PStr []))) \<and>
     ser_security P (dget_or creds ''ssid'' (PStr [])) (dget_or creds ''bssid'' (PStr []))
       (dget_or creds ''key'' (PStr [])) (dget_or creds ''security_mode'' (PInt WPA2_SECURITY_MODE))
       (dget_or creds ''ap_type'' (PInt AP_TYPE_DYNAMIC)) = Inr resp \<and> length resp < 65536"

definition info_packet :: "bytes \<Rightarrow> bytes" where
  "info_packet resp = pk_enc \<lparr>pk_id = MSG_WIFI_INFO_RESPONSE, pk_payload = resp\<rparr>"

lemma send_info_good:
  "good_creds P creds req resp \<Longrightarrow> caps w = [] \<Longrightarrow>
   send_info_response P creds w = (Inr True, w\<lparr>written := written w @ info_packet resp\<rparr>)"
  by (auto simp: send_info_response_def good_creds_def Let_def info_packet_def send_packet_open pk_valid_def wifi_msg_ids)

lemma send_start_good:
  "good_creds P creds req resp \<Longrightarrow> caps w = [] \<Longrightarrow>
   send_start_request P creds w
     = (Inr True, w\<lparr>written := written w @ pk_enc \<lparr>pk_id = MSG_WIFI_START_REQUEST, pk_payload = req\<rparr>\<rparr>)"
  by (auto simp: send_start_request_def good_creds_def send_packet_open pk_valid_def wifi_msg_ids)

definition hs_failure :: "nat \<Rightarrow> packet list \<Rightarrow> string" where
  "hs_failure n ps = (if length ps < n then ''Socket closed or recv error''
     else ''Event loop exhausted after '' @ str_of_nat MAX_MESSAGES @ '' messages without completion'')"

lemma hs_loop_refines:
  assumes "good_creds P creds req resp" and "caps w = []"
  shows "\<exists>st. hs_loop P creds n rs w ip =
     ((case hs_outcome P ip (take n (incoming rs)) of Some a \<Rightarrow> HsOk a | None \<Rightarrow> HsFailed (hs_failure n (incoming rs))),
      w\<lparr>written := written w @ concat (replicate (info_requests (take n (incoming rs))) (info_packet resp))\<rparr>, st)"
  using assms(2)
proof (induction n arbitrary: rs w ip)
  case 0
  then show ?case by (simp add: hs_failure_def info_requests_def before_status_def)
next
  case (Suc n)
  show ?case
  proof (cases "recv_packet rs")
    case (Pair r rs')
    show ?thesis
    proof (cases r)
      case None
      then have "incoming rs = []" using incoming_step [of rs] Pair by simp
      with Pair None show ?thesis by (simp add: hs_failure_def info_requests_def before_status_def)
    next
      case (Some p)
      then have inc: "incoming rs = p # incoming rs'" using incoming_step [of rs] Pair by simp
      show ?thesis
      proof (cases "pk_id p = MSG_WIFI_INFO_REQUEST")
        case True
        let ?w = "w\<lparr>written := written w @ info_packet resp\<rparr>"
        obtain st where "hs_loop P creds n rs' ?w ip =
           ((case hs_outcome P ip (take n (incoming rs')) of Some a \<Rightarrow> HsOk a | None \<Rightarrow> HsFailed (hs_failure n (incoming rs'))),
            ?w\<lparr>written := written ?w @ concat (replicate (info_requests (take n (incoming rs'))) (info_packet resp))\<rparr>, st)"
          using Suc.IH [of ?w rs' ip] Suc.prems by auto
        then show ?thesis
          using Pair Some True inc send_info_good [OF assms(1) Suc.prems]
          by (auto simp: wifi_msg_ids hs_failure_def info_requests_def before_status_def split: option.splits)
      next
        case False
        then show ?thesis
          using Pair Some inc Suc.IH [OF Suc.prems, of rs' "handle_start_response P p ip"] Suc.IH [OF Suc.prems, of rs' ip]
          by (auto simp: wifi_msg_ids hs_failure_def info_requests_def before_status_def split: option.splits)
      qed
    qed
  qed
qed

section \<open>Properties\<close>

text \<open>C16 With credentials that can be sent, the run implements its specification: it succeeds exactly
  when a connection status is among the first twenty packets, whatever else the phone sends and
  however the bytes arrive; the address is the last one the phone announced before; and what was
  written is the start request followed by one credential response per credential request.\<close>

theorem handshake_refines_spec:
  assumes "good_creds P creds req resp" and "caps w = []"
  shows "\<exists>st. hs_run P creds rs w =
     ((case hs_outcome P [] (take 20 (incoming rs)) of Some a \<Rightarrow> HsOk a | None \<Rightarrow> HsFailed (hs_failure 20 (incoming rs))),
      w\<lparr>written := written w @ pk_enc \<lparr>pk_id = MSG_WIFI_START_REQUEST, pk_payload = req\<rparr>
          @ concat (replicate (info_requests (take 20 (incoming rs))) (info_packet resp))\<rparr>, st)"
proof -
  let ?w = "w\<lparr>written := written w @ pk_enc \<lparr>pk_id = MSG_WIFI_START_REQUEST, pk_payload = req\<rparr>\<rparr>"
  obtain st where "hs_loop P creds 20 rs ?w [] =
     ((case hs_outcome P [] (take 20 (incoming rs)) of Some a \<Rightarrow> HsOk a | None \<Rightarrow> HsFailed (hs_failure 20 (incoming rs))),
      ?w\<lparr>written := written ?w @ concat (replicate (info_requests (take 20 (incoming rs))) (info_packet resp))\<rparr>, st)"
    using hs_loop_refines [OF assms(1), of ?w 20 rs "[]"] assms(2) by auto
  then show ?thesis
    using send_start_good [OF assms] by (simp add: hs_run_def MAX_MESSAGES_def)
qed

definition demo_proto :: wifi_proto where
  "demo_proto = \<lparr>ser_start = (\<lambda>_ _. Inr [1]), ser_security = (\<lambda>_ _ _ _ _. Inr [2]),
     parse_start = (\<lambda>bs. if bs = [] then None else Some ''10.0.0.2''), exn_text = (\<lambda>_. ''error'')\<rparr>"

lemma handshake_refines_spec_witness:
  "\<exists>st. hs_run demo_proto [] [Data [0, 1, 0, 6, 9, 0, 0], Data [0, 2], Data [0, 0, 0, 7]] \<lparr>caps = [], written = []\<rparr> =
     ((case hs_outcome demo_proto [] (take 20 (incoming [Data [0, 1, 0, 6, 9, 0, 0], Data [0, 2], Data [0, 0, 0, 7]])) of
         Some a \<Rightarrow> HsOk a
       | None \<Rightarrow> HsFailed (hs_failure 20 (incoming [Data [0, 1, 0, 6, 9, 0, 0], Data [0, 2], Data [0, 0, 0, 7]]))),
      \<lparr>caps = [], written = []\<rparr>\<lparr>written := written \<lparr>caps = [], written = []\<rparr> @ pk_enc \<lparr>pk_id = MSG_WIFI_START_REQUEST, pk_payload = [1]\<rparr>
          @ concat (replicate (info_requests (take 20 (incoming [Data [0, 1, 0, 6, 9, 0, 0], Data [0, 2], Data [0, 0, 0, 7]]))) (info_packet [2]))\<rparr>, st)"
  by (rule handshake_refines_spec)
    (simp_all add: good_creds_def demo_proto_def dget_or_def DEFAULT_TCP_PORT_def)

text \<open>The content of the connection status is never looked at: a phone that reports that it could
  not join the network completes the handshake like one that could.\<close>

theorem connect_status_ignored:
  assumes "good_creds P creds req resp" and "caps w = []"
    and "incoming rs = ps @ \<lparr>pk_id = 7, pk_payload = a\<rparr> # qs" and "incoming rs' = ps @ \<lparr>pk_id = 7, pk_payload = b\<rparr> # qs"
    and "length ps < 20"
  shows "fst (hs_run P creds rs w) = fst (hs_run P creds rs' w) \<and> (\<exists>ip. fst (hs_run P creds rs w) = HsOk ip)"
proof -
  have ex: "\<exists>ip. \<forall>a. hs_outcome P i (ps @ \<lparr>pk_id = 7, pk_payload = a\<rparr> # qs') = Some ip" for i and qs' :: "packet list"
    by (induction ps arbitrary: i) auto
  have t: "take 20 (ps @ x # qs) = ps @ x # take (19 - length ps) qs" for x
  proof -
    have "20 - length ps = Suc (19 - length ps)" using assms(5) by simp
    then show ?thesis by simp
  qed
  obtain ip where ip: "\<And>a. hs_outcome P [] (ps @ \<lparr>pk_id = 7, pk_payload = a\<rparr> # take (19 - length ps) qs) = Some ip"
    using ex [of "[]" "take (19 - length ps) qs"] by blast
  have run: "fst (hs_run P creds r w) = HsOk ip" if "incoming r = ps @ \<lparr>pk_id = 7, pk_payload = c\<rparr> # qs" for r c
  proof -
    have "hs_outcome P [] (take 20 (incoming r)) = Some ip" unfolding that t by (rule ip)
    then show ?thesis
      using hs_loop_refines [OF assms(1), of "w\<lparr>written := written w @ pk_enc \<lparr>pk_id = MSG_WIFI_START_REQUEST, pk_payload = req\<rparr>\<rparr>" 20 r "[]"]
        send_start_good [OF assms(1,2)] assms(2)
      by (auto simp: hs_run_def MAX_MESSAGES_def)
  qed
  show ?thesis using run [OF assms(3)] run [OF assms(4)] by simp
qed

lemma connect_status_ignored_witness:
  "fst (hs_run demo_proto [] [Data [0, 1, 0, 7, 0]] \<lparr>caps = [], written = []\<rparr>)
     = fst (hs_run demo_proto [] [Data [0, 1, 0, 7, 1]] \<lparr>caps = [], written = []\<rparr>) \<and>
   (\<exists>ip. fst (hs_run demo_proto [] [Data [0, 1, 0, 7, 0]] \<lparr>caps = [], written = []\<rparr>) = HsOk ip)"
proof (rule connect_status_ignored [where ps = "[]" and qs = "[]" and a = "[0]" and b = "[1]" and req = "[1]" and resp = "[2]"])
  have "incoming [Data (pk_enc p)] = [p]" if "pk_valid p" for p
    using pk_wire.stream_dec [of "[p]" "[]"] that pk_wire.enc_ne [of p]
    by (simp add: incoming_def decode_stream.simps [of pk_dec "[]"] pk_dec_def packet_decode_def HEADER_SIZE_def)
  from this [of "\<lparr>pk_id = 7, pk_payload = [0]\<rparr>"] this [of "\<lparr>pk_id = 7, pk_payload = [1]\<rparr>"]
  show "incoming [Data [0, 1, 0, 7, 0]] = [] @ \<lparr>pk_id = 7, pk_payload = [0]\<rparr> # []"
    "incoming [Data [0, 1, 0, 7, 1]] = [] @ \<lparr>pk_id = 7, pk_payload = [1]\<rparr> # []"
    by (simp_all add: pk_valid_def pk_enc_def numeral_2_eq_2)
qed (simp_all add: good_creds_def demo_proto_def dget_or_def DEFAULT_TCP_PORT_def)

end
