(* ===== verification/PyStr.thy ===== *)
theory PyStr
  imports PyVal
begin

text \<open>
  String methods the code uses on paths and topics: \<^verbatim>\<open>startswith\<close>, \<^verbatim>\<open>in\<close>, \<^verbatim>\<open>split\<close> and
  \<^verbatim>\<open>replace\<close> of a character.
\<close>

definition starts :: "string \<Rightarrow> string \<Rightarrow> bool" where
  "starts pre s = (take (length pre) s = pre)"

fun has_sub :: "string \<Rightarrow> string \<Rightarrow> bool" where
  "has_sub sub [] = (sub = [])"
| "has_sub sub (c # cs) = (starts sub (c # cs) \<or> has_sub sub cs)"

text \<open>\<^verbatim>\<open>s.split(sep)\<close> for a nonempty separator; \<open>acc\<close> is the piece read so far, reversed.\<close>

function split_acc :: "string \<Rightarrow> string \<Rightarrow> string \<Rightarrow> string list" where
  "split_acc sep acc s =
     (if s = [] \<or> sep = [] then [rev acc @ s]
      else if starts sep s then rev acc # split_acc sep [] (drop (length sep) s)
      else split_acc sep (hd s # acc) (tl s))"
  by pat_completeness auto
termination
  by (relation "measure (\<lambda>(sep, acc, s). length s)") (auto simp: length_greater_0_conv [symmetric] simp del: length_greater_0_conv)

declare split_acc.simps [simp del]

definition py_split :: "string \<Rightarrow> string \<Rightarrow> string list" where
  "py_split sep s = split_acc sep [] s"

definition replace_char :: "char \<Rightarrow> char \<Rightarrow> string \<Rightarrow> string" where
  "replace_char a b s = map (\<lambda>c. if c = a then b else c) s"

lemma starts_append [simp]: "starts pre (pre @ s)"
  by (simp add: starts_def)

lemma starts_iff: "starts pre s \<longleftrightarrow> (\<exists>t. s = pre @ t)"
  by (metis append_take_drop_id starts_append starts_def)

lemma has_sub_append: "has_sub sub (a @ sub @ b)"
proof (induction a)
  case Nil
  have "starts sub (sub @ b)" by (rule starts_append)
  then show ?case by (cases "sub @ b") auto
qed simp

lemma has_sub_split: "has_sub sub s \<Longrightarrow> \<exists>a b. s = a @ sub @ b"
proof (induction s)
  case (Cons c cs)
  show ?case
  proof (cases "starts sub (c # cs)")
    case True
    then obtain b where "c # cs = [] @ sub @ b" by (auto simp: starts_iff)
    then show ?thesis by blast
  next
    case False
    with Cons obtain a b where "cs = a @ sub @ b" by auto
    then have "c # cs = (c # a) @ sub @ b" by simp
    then show ?thesis by blast
  qed
qed simp

lemma split_acc_stop: "s = [] \<or> sep = [] \<Longrightarrow> split_acc sep acc s = [rev acc @ s]"
  by (simp add: split_acc.simps [of sep acc s])

lemma split_acc_none: "\<not> has_sub sep s \<Longrightarrow> split_acc sep acc s = [rev acc @ s]"
proof (induction s arbitrary: acc)
  case (Cons c cs)
  then have "split_acc sep acc (c # cs) = split_acc sep (c # acc) cs"
    using has_sub_append [of sep "[]" "c # cs"]
    by (cases "sep = []") (simp_all add: split_acc.simps [of sep acc "c # cs"])
  with Cons show ?case by simp
qed (simp add: split_acc_stop)

lemma split_acc_ne [simp]: "split_acc sep acc s \<noteq> []"
  by (induction sep acc s rule: split_acc.induct) (subst split_acc.simps, auto)

text \<open>The last piece is what follows the last separator, for a separator that cannot overlap itself.\<close>

lemma split_acc_last:
  assumes "x \<notin> set t" and "x \<notin> set b"
  shows "last (split_acc (x # t) acc (a @ (x # t) @ b)) = b"
proof (induction "length a" arbitrary: a acc rule: less_induct)
  case less
  let ?s = "a @ (x # t) @ b"
  have nb: "\<not> has_sub (x # t) b" using assms(2) by (auto dest!: has_sub_split)
  show ?case
  proof (cases a)
    case Nil
    have "starts (x # t) ((x # t) @ b)" by (rule starts_append)
    then show ?thesis
      using Nil split_acc_none [OF nb, of "[]"] by (simp add: split_acc.simps [of _ acc])
  next
    case (Cons c a')
    show ?thesis
    proof (cases "starts (x # t) ?s")
      case False
      then have "split_acc (x # t) acc ?s = split_acc (x # t) (c # acc) (a' @ (x # t) @ b)"
        using Cons by (simp add: split_acc.simps [of _ acc])
      then show ?thesis using less.hyps [of a' "c # acc"] Cons by simp
    next
      case True
      have "length (x # t) \<le> length a"
      proof (rule ccontr)
        assume "\<not> length (x # t) \<le> length a"
        then have l: "length a < length (x # t)" "0 < length a" using Cons by auto
        have e: "take (length (x # t)) ?s = x # t" using True by (simp only: starts_def)
        have "?s ! length a = x" by (simp add: nth_append)
        then have "(x # t) ! length a = x" using e l by (metis nth_take)
        then show False using l assms(1) by (cases "length a") auto
      qed
      then obtain a'' where a'': "a = (x # t) @ a''"
        using True unfolding starts_def by (metis append_take_drop_id take_append diff_is_0_eq' take_eq_Nil append_Nil2)
      then have "split_acc (x # t) acc ?s = rev acc # split_acc (x # t) [] (a'' @ (x # t) @ b)"
        using True by (simp add: split_acc.simps [of _ acc])
      then show ?thesis using less.hyps [of a'' "[]"] a'' by simp
    qed
  qed
qed

end
