(* ===== verification/RfcommMain.thy ===== *)
theory RfcommMain
  imports RfcommHandshake PyStr
begin

text \<open>
  \<^verbatim>\<open>v2/modules/rfcomm_handshake/main.py\<close>, and the address helper of \<^verbatim>\<open>dbus_rfcomm.py\<close>: when a
  connected phone and fresh credentials are both there, one handshake thread runs. Sockets are
  numbers, so that which ones were closed can be stated.
\<close>

definition RFCOMM_PRIORITY :: int where "RFCOMM_PRIORITY = 1"

definition device_address_from_path :: "string \<Rightarrow> string" where
  "device_address_from_path path =
     (if \<not> has_sub ''/dev_'' path then path
      else replace_char (CHR ''_'') (CHR '':'') (last (py_split ''/dev_'' path)))"

section \<open>Module state\<close>

record rf_state =
  rf_credentials :: "payload option"
  rf_device :: "string option"
  rf_pending :: "nat option"
  rf_running :: bool

text \<open>The handshake thread: spawned, or running with its own copies of the shared variables.\<close>

datatype rf_thread = Spawned | Running "string option" nat payload

record rf_sys = rf_state +
  rf_thread :: "rf_thread option"
  rf_closed :: "nat list"

definition rf_init :: rf_sys where
  "rf_init = \<lparr>rf_credentials = None, rf_device = None, rf_pending = None, rf_running = False,
     rf_thread = None, rf_closed = []\<rparr>"

definition opt_str :: "string option \<Rightarrow> pyval" where
  "opt_str a = (case a of None \<Rightarrow> PNone | Some s \<Rightarrow> PStr s)"

section \<open>Handlers\<close>

definition rf_on_system_start :: "bool \<Rightarrow> payload \<Rightarrow> string list \<times> busmsg list" where
  "rf_on_system_start listener_ok payload =
     (if \<not> py_eq_int (dget payload ''priority'') RFCOMM_PRIORITY then ([], [])
      else ([''hostapd.ready''],
            (if listener_ok then [] else
               [(''rfcomm.handshake.failed'',
                 [(''device_address'', PStr []), (''error'', PStr ''RFCOMM D-Bus listener failed to start'')])])
            @ [(''system.ready'', [(''name'', PStr ''rfcomm_handshake''), (''priority'', PInt RFCOMM_PRIORITY)])]))"

definition close_pending :: "rf_sys \<Rightarrow> rf_sys" where
  "close_pending s =
     (case rf_pending s of None \<Rightarrow> s | Some k \<Rightarrow> s\<lparr>rf_pending := None, rf_closed := rf_closed s @ [k]\<rparr>)"

definition try_start_handshake :: "rf_sys \<Rightarrow> rf_sys" where
  "try_start_handshake s =
     (if rf_running s \<or> rf_device s = None \<or> rf_device s = Some [] \<or> rf_credentials s = None \<or>
         rf_credentials s = Some [] \<or> rf_pending s = None then s
      else s\<lparr>rf_running := True, rf_thread := Some Spawned\<rparr>)"

definition on_rfcomm_connected :: "nat \<Rightarrow> string \<Rightarrow> rf_sys \<Rightarrow> rf_sys \<times> busmsg list" where
  "on_rfcomm_connected sock address s =
     (if rf_running s then (s\<lparr>rf_closed := rf_closed s @ [sock]\<rparr>, [])
      else (let s1 = (if rf_pending s \<noteq> None \<and> rf_pending s \<noteq> Some sock then close_pending s else s);
                s2 = s1\<lparr>rf_credentials := None, rf_device := Some address, rf_pending := Some sock\<rparr>
            in (try_start_handshake s2,
                [(''bluetooth_manager.rfcomm.connected'', [(''device_address'', PStr address)])])))"

definition on_hostapd_ready :: "payload \<Rightarrow> rf_sys \<Rightarrow> rf_sys" where
  "on_hostapd_ready payload s = try_start_handshake (s\<lparr>rf_credentials := Some payload\<rparr>)"

definition failed_msg :: "pyval \<Rightarrow> string \<Rightarrow> busmsg" where
  "failed_msg address err = (''rfcomm.handshake.failed'', [(''device_address'', address), (''error'', PStr err)])"

text \<open>\<^verbatim>\<open>_run_handshake\<close> up to the call of \<^verbatim>\<open>hs.run()\<close>, and from its return on.\<close>

definition run_handshake_begin :: "rf_sys \<Rightarrow> rf_sys \<times> busmsg list" where
  "run_handshake_begin s =
     (let address = opt_str (rf_device s); started = (''rfcomm.handshake.started'', [(''device_address'', address)]) in
      case rf_pending s of
        None \<Rightarrow> (s\<lparr>rf_running := False, rf_thread := None\<rparr>, [started, failed_msg address ''RFCOMM socket unavailable''])
      | Some k \<Rightarrow>
          (s\<lparr>rf_thread := Some (Running (rf_device s) k (case rf_credentials s of None \<Rightarrow> [] | Some c \<Rightarrow> c))\<rparr>, [started]))"

definition run_handshake_end :: "hs_result \<Rightarrow> string option \<Rightarrow> rf_sys \<Rightarrow> rf_sys \<times> busmsg list" where
  "run_handshake_end r address s =
     ((close_pending s)\<lparr>rf_running := False, rf_thread := None\<rparr>,
      [case r of
         HsOk ip \<Rightarrow> (''rfcomm.handshake.completed'', [(''device_address'', opt_str address), (''phone_ip'', PStr ip)])
       | HsFailed err \<Rightarrow> failed_msg (opt_str address) err])"

definition rf_on_system_stop :: "rf_sys \<Rightarrow> rf_sys" where
  "rf_on_system_stop s = close_pending s"

section \<open>The module as a machine\<close>

text \<open>
  The D-Bus thread, the bus thread and the handshake thread share the state; a step is one call,
  or one half of the handshake thread, whose run ends with the result its socket leads to.
\<close>

datatype rf_event =
    RfConnected nat string
  | RfHostapd payload
  | RfThread
  | RfReturn rsock wsock
  | RfStop

fun rf_step :: "wifi_proto \<Rightarrow> rf_sys \<Rightarrow> rf_event \<Rightarrow> rf_sys \<times> busmsg list" where
  "rf_step P s (RfConnected k a) = on_rfcomm_connected k a s"
| "rf_step P s (RfHostapd p) = (on_hostapd_ready p s, [])"
| "rf_step P s RfThread = (if rf_thread s = Some Spawned then run_handshake_begin s else (s, []))"
| "rf_step P s (RfReturn rs w) =
     (case rf_thread s of
        Some (Running a k creds) \<Rightarrow> run_handshake_end (fst (hs_run P creds rs w)) a s
      | _ \<Rightarrow> (s, []))"
| "rf_step P s RfStop = (rf_on_system_stop s, [])"

definition rf_inv :: "rf_sys \<Rightarrow> bool" where
  "rf_inv s \<longleftrightarrow> (rf_running s \<longleftrightarrow> rf_thread s \<noteq> None) \<and>
     (case rf_thread s of Some (Running a k c) \<Rightarrow> rf_pending s = Some k \<or> (rf_pending s = None \<and> k \<in> set (rf_closed s)) | _ \<Rightarrow> True)"

definition rf_topics :: "string list" where
  "rf_topics = [''bluetooth_manager.rfcomm.connected'', ''rfcomm.handshake.started'',
     ''rfcomm.handshake.completed'', ''rfcomm.handshake.failed'']"

lemma close_pending_fields [simp]:
  "rf_running (close_pending s) = rf_running s" "rf_thread (close_pending s) = rf_thread s"
  "rf_device (close_pending s) = rf_device s" "rf_credentials (close_pending s) = rf_credentials s"
  "rf_pending (close_pending s) = None"
  "set (rf_closed (close_pending s)) = set_option (rf_pending s) \<union> set (rf_closed s)"
  by (auto simp: close_pending_def split: option.splits)

lemma try_start_fields [simp]:
  "rf_pending (try_start_handshake s) = rf_pending s" "rf_closed (try_start_handshake s) = rf_closed s"
  "rf_device (try_start_handshake s) = rf_device s" "rf_credentials (try_start_handshake s) = rf_credentials s"
  by (simp_all add: try_start_handshake_def)

lemma try_start_inv: "rf_inv s \<Longrightarrow> rf_inv (try_start_handshake s)"
  by (auto simp: rf_inv_def try_start_handshake_def)

lemma connected_inv: "rf_inv s \<Longrightarrow> rf_inv (fst (on_rfcomm_connected k a s))"
  by (auto simp: on_rfcomm_connected_def Let_def intro!: try_start_inv)
    (auto simp: rf_inv_def split: option.splits rf_thread.splits)

lemma hostapd_inv: "rf_inv s \<Longrightarrow> rf_inv (on_hostapd_ready p s)"
  unfolding on_hostapd_ready_def
  by (rule try_start_inv) (simp add: rf_inv_def split: option.splits rf_thread.splits)

lemma begin_inv: "rf_inv s \<Longrightarrow> rf_thread s = Some Spawned \<Longrightarrow> rf_inv (fst (run_handshake_begin s))"
  by (auto simp: run_handshake_begin_def rf_inv_def Let_def split: option.splits)

lemma end_inv: "rf_inv (fst (run_handshake_end r a s))"
  by (simp add: run_handshake_end_def rf_inv_def)

lemma stop_inv: "rf_inv s \<Longrightarrow> rf_inv (rf_on_system_stop s)"
  by (auto simp: rf_on_system_stop_def rf_inv_def split: option.splits rf_thread.splits)

lemmas rf_step_inv = connected_inv hostapd_inv begin_inv end_inv stop_inv

interpretation rfm: event_machine "rf_step P" rf_inv "\<lambda>m. fst m \<in> set rf_topics"
proof
  fix s e m
  show "rf_inv s \<Longrightarrow> rf_inv (fst (rf_step P s e))"
    by (cases e) (auto simp: rf_step_inv split: option.splits rf_thread.splits)
  show "m \<in> set (snd (rf_step P s e)) \<Longrightarrow> fst m \<in> set rf_topics"
    by (cases e) (auto simp: rf_topics_def on_rfcomm_connected_def run_handshake_begin_def failed_msg_def
        run_handshake_end_def Let_def split: option.splits rf_thread.splits hs_result.splits if_splits)
qed

lemma rf_init_inv: "rf_inv rf_init"
  by (simp add: rf_inv_def rf_init_def)

section \<open>Handshakes do not overlap\<close>

text \<open>A trace in which every start is followed by its end before the next start; \<open>busy\<close>: a handshake
  has started and not ended.\<close>

fun hs_trace :: "bool \<Rightarrow> busmsg list \<Rightarrow> bool option" where
  "hs_trace busy [] = Some busy"
| "hs_trace busy (m # ms) =
     (if fst m = ''rfcomm.handshake.started'' then (if busy then None else hs_trace True ms)
      else if fst m = ''rfcomm.handshake.completed'' \<or> fst m = ''rfcomm.handshake.failed'' then
        (if busy then hs_trace False ms else None)
      else hs_trace busy ms)"

lemma hs_trace_append: "hs_trace b (xs @ ys) = (case hs_trace b xs of None \<Rightarrow> None | Some b' \<Rightarrow> hs_trace b' ys)"
  by (induction b xs rule: hs_trace.induct) auto

definition rf_busy :: "rf_sys \<Rightarrow> bool" where
  "rf_busy s = (case rf_thread s of Some (Running a k c) \<Rightarrow> True | _ \<Rightarrow> False)"

lemma try_start_busy [simp]: "rf_inv s \<Longrightarrow> rf_busy (try_start_handshake s) = rf_busy s"
  by (auto simp: try_start_handshake_def rf_busy_def rf_inv_def)

lemma step_trace: "rf_inv s \<Longrightarrow> hs_trace (rf_busy s) (snd (rf_step P s e)) = Some (rf_busy (fst (rf_step P s e)))"
proof (cases e)
  case (RfConnected k a)
  assume i: "rf_inv s"
  show ?thesis
    using i connected_inv [OF i, of k a] RfConnected
    by (auto simp: on_rfcomm_connected_def Let_def try_start_handshake_def rf_busy_def rf_inv_def)
next
  case (RfHostapd p)
  assume i: "rf_inv s"
  then show ?thesis using RfHostapd
    by (auto simp: on_hostapd_ready_def try_start_handshake_def rf_busy_def rf_inv_def)
qed (auto simp: run_handshake_begin_def run_handshake_end_def rf_busy_def failed_msg_def Let_def
      rf_on_system_stop_def split: option.splits rf_thread.splits hs_result.splits)

lemma run_trace: "rf_inv s \<Longrightarrow> hs_trace (rf_busy s) (snd (run_events (rf_step P) s es)) \<noteq> None"
proof (induction es arbitrary: s)
  case (Cons e es)
  have "rf_inv (fst (rf_step P s e))" by (rule rfm.step_inv [OF Cons.prems])
  from Cons.IH [OF this] step_trace [OF Cons.prems, of P e] show ?case
    by (simp add: Let_def hs_trace_append)
qed simp

text \<open>Every socket handed over is closed or still the pending one.\<close>

fun rf_socks :: "rf_event list \<Rightarrow> nat list" where
  "rf_socks [] = []"
| "rf_socks (RfConnected k a # es) = k # rf_socks es"
| "rf_socks (_ # es) = rf_socks es"

definition rf_accounted :: "rf_sys \<Rightarrow> nat set" where
  "rf_accounted s = set_option (rf_pending s) \<union> set (rf_closed s)"

lemma try_start_accounted [simp]: "rf_accounted (try_start_handshake s) = rf_accounted s"
  by (simp add: rf_accounted_def)

lemma close_accounted [simp]: "rf_accounted (close_pending s) = rf_accounted s"
  by (simp add: rf_accounted_def)

lemma step_accounted: "rf_accounted s \<union> set (rf_socks [e]) \<subseteq> rf_accounted (fst (rf_step P s e))"
  by (cases e) (auto simp: on_rfcomm_connected_def on_hostapd_ready_def run_handshake_begin_def
      run_handshake_end_def rf_on_system_stop_def Let_def rf_accounted_def split: option.splits rf_thread.splits)

lemma rf_socks_Cons: "set (rf_socks (e # es)) = set (rf_socks [e]) \<union> set (rf_socks es)"
  by (cases e) auto

lemma run_accounted: "rf_accounted s \<union> set (rf_socks es) \<subseteq> rf_accounted (fst (run_events (rf_step P) s es))"
proof (induction es arbitrary: s)
  case (Cons e es)
  have "rf_accounted (fst (rf_step P s e)) \<union> set (rf_socks es)
      \<subseteq> rf_accounted (fst (run_events (rf_step P) (fst (rf_step P s e)) es))" by (rule Cons.IH)
  moreover have "rf_accounted s \<union> set (rf_socks (e # es)) \<subseteq> rf_accounted (fst (rf_step P s e)) \<union> set (rf_socks es)"
    using step_accounted [of s e P] unfolding rf_socks_Cons [of e es] by auto
  ultimately have "rf_accounted s \<union> set (rf_socks (e # es))
      \<subseteq> rf_accounted (fst (run_events (rf_step P) (fst (rf_step P s e)) es))" by (meson subset_trans)
  then show ?case by (simp add: Let_def)
qed simp

section \<open>Properties\<close>

text \<open>Whatever connections, credentials, thread steps and stops come, in any order, at most one
  handshake runs at a time: on the bus every start is followed by its own completion or failure
  before the next start, and nothing else than the module's four topics is published.\<close>

theorem handshakes_do_not_overlap:
  "hs_trace False (snd (run_events (rf_step P) rf_init es)) \<noteq> None \<and>
   list_all (\<lambda>m. fst m \<in> set rf_topics) (snd (run_events (rf_step P) rf_init es))"
proof
  have "rf_busy rf_init = False" by (simp add: rf_busy_def rf_init_def)
  with run_trace [OF rf_init_inv, of P es]
  show "hs_trace False (snd (run_events (rf_step P) rf_init es)) \<noteq> None" by simp
  show "list_all (\<lambda>m. fst m \<in> set rf_topics) (snd (run_events (rf_step P) rf_init es))"
    using rfm.run_good [OF rf_init_inv] by (auto simp: list_all_iff)
qed

text \<open>C37 No accepted Bluetooth socket is lost: after any run, each one handed over by BlueZ is closed or
  is the pending one, and when no thread runs the flag that blocks new connections is down.\<close>

theorem rfcomm_sockets_accounted:
  "set (rf_socks es) \<subseteq> set_option (rf_pending (fst (run_events (rf_step P) rf_init es)))
      \<union> set (rf_closed (fst (run_events (rf_step P) rf_init es))) \<and>
   rf_running (fst (run_events (rf_step P) rf_init es)) = (rf_thread (fst (run_events (rf_step P) rf_init es)) \<noteq> None)"
  using run_accounted [of rf_init es P] rfm.run_inv [OF rf_init_inv, of P es]
  by (auto simp: rf_accounted_def rf_inv_def)

text \<open>A new connection needs new credentials: after one is accepted nothing starts until
  \<^verbatim>\<open>hostapd.ready\<close> comes, and the handshake then started uses that socket, that address and those
  credentials.\<close>

theorem fresh_credentials_needed:
  assumes "\<not> rf_running s" and "rf_inv s" and "address \<noteq> []" and "creds \<noteq> []"
  shows "rf_thread (fst (on_rfcomm_connected k address s)) = None \<and>
    rf_thread (fst (run_events (rf_step P) s [RfConnected k address, RfHostapd creds, RfThread]))
      = Some (Running (Some address) k creds)"
  using assms
  by (auto simp: on_rfcomm_connected_def on_hostapd_ready_def try_start_handshake_def run_handshake_begin_def
      rf_inv_def Let_def close_pending_def split: option.splits)

lemma fresh_credentials_needed_witness:
  "rf_thread (fst (on_rfcomm_connected 7 ''AA:BB'' rf_init)) = None \<and>
    rf_thread (fst (run_events (rf_step demo_proto) rf_init [RfConnected 7 ''AA:BB'', RfHostapd [(''ssid'', PStr ''n'')], RfThread]))
      = Some (Running (Some ''AA:BB'') 7 [(''ssid'', PStr ''n'')])"
  by (rule fresh_credentials_needed) (simp_all add: rf_init_def rf_inv_def)

text \<open>The device address is recovered from a BlueZ object path: what follows the last \<^verbatim>\<open>/dev_\<close>, with
  its underscores turned to colons, whatever the adapter's path is.\<close>

theorem device_address_recovered:
  assumes "CHR ''/'' \<notin> set mac" and "CHR ''_'' \<notin> set mac"
  shows "device_address_from_path (adapter @ ''/dev_'' @ replace_char (CHR '':'') (CHR ''_'') mac) = mac"
proof -
  have "CHR ''/'' \<notin> set (replace_char (CHR '':'') (CHR ''_'') mac)"
    using assms(1) by (auto simp: replace_char_def)
  then have "last (py_split ''/dev_'' (adapter @ ''/dev_'' @ replace_char (CHR '':'') (CHR ''_'') mac))
      = replace_char (CHR '':'') (CHR ''_'') mac"
    using split_acc_last [of "CHR ''/''" "''dev_''"] by (simp add: py_split_def)
  moreover have "has_sub ''/dev_'' (adapter @ ''/dev_'' @ replace_char (CHR '':'') (CHR ''_'') mac)"
    by (rule has_sub_append)
  moreover have "replace_char (CHR ''_'') (CHR '':'') (replace_char (CHR '':'') (CHR ''_'') mac) = mac"
    using assms(2) by (auto simp: replace_char_def intro!: map_idI)
  ultimately show ?thesis by (simp add: device_address_from_path_def)
qed

lemma device_address_recovered_witness:
  "device_address_from_path (''/org/bluez/hci0'' @ ''/dev_'' @ replace_char (CHR '':'') (CHR ''_'') ''DC:A6:32'') = ''DC:A6:32''"
  by (rule device_address_recovered) simp_all

end
