(* ===== verification/OaaHandshake.thy ===== *)
theory OaaHandshake
  imports Machines
begin

text \<open>
  \<^verbatim>\<open>v2/modules/oaa_control_channel/handshake.py\<close>: the state machine of the control channel. The
  protobuf classes and the service-discovery builder it calls are the parameter \<open>ctl_lib\<close>; what the
  machine sends, publishes and calls back is returned as a list of outputs in order.
\<close>

section \<open>Message identifiers and states\<close>

text \<open>The values of the generated enumeration \<^verbatim>\<open>ControlMessage\<close>.\<close>

definition CTL_VERSION_REQUEST :: int where "CTL_VERSION_REQUEST = 1"
definition CTL_VERSION_RESPONSE :: int where "CTL_VERSION_RESPONSE = 2"
definition CTL_SSL_HANDSHAKE :: int where "CTL_SSL_HANDSHAKE = 3"
definition CTL_AUTH_COMPLETE :: int where "CTL_AUTH_COMPLETE = 4"
definition CTL_SERVICE_DISCOVERY_REQ :: int where "CTL_SERVICE_DISCOVERY_REQ = 5"
definition CTL_SERVICE_DISCOVERY_RES :: int where "CTL_SERVICE_DISCOVERY_RES = 6"
definition CTL_CHANNEL_OPEN_REQ :: int where "CTL_CHANNEL_OPEN_REQ = 7"
definition CTL_CHANNEL_OPEN_RES :: int where "CTL_CHANNEL_OPEN_RES = 8"
definition CTL_PING_REQUEST :: int where "CTL_PING_REQUEST = 11"
definition CTL_PING_RESPONSE :: int where "CTL_PING_RESPONSE = 12"
definition CTL_NAV_FOCUS_REQUEST :: int where "CTL_NAV_FOCUS_REQUEST = 13"
definition CTL_NAV_FOCUS_RESPONSE :: int where "CTL_NAV_FOCUS_RESPONSE = 14"
definition CTL_SHUTDOWN_REQUEST :: int where "CTL_SHUTDOWN_REQUEST = 15"
definition CTL_SHUTDOWN_RESPONSE :: int where "CTL_SHUTDOWN_RESPONSE = 16"
definition CTL_VOICE_SESSION_REQUEST :: int where "CTL_VOICE_SESSION_REQUEST = 17"
definition CTL_AUDIO_FOCUS_REQUEST :: int where "CTL_AUDIO_FOCUS_REQUEST = 18"
definition CTL_AUDIO_FOCUS_RESPONSE :: int where "CTL_AUDIO_FOCUS_RESPONSE = 19"
definition CTL_BATTERY_STATUS :: int where "CTL_BATTERY_STATUS = 23"

lemmas ctl_ids = CTL_VERSION_REQUEST_def CTL_VERSION_RESPONSE_def CTL_SSL_HANDSHAKE_def CTL_AUTH_COMPLETE_def
  CTL_SERVICE_DISCOVERY_REQ_def CTL_SERVICE_DISCOVERY_RES_def CTL_CHANNEL_OPEN_REQ_def CTL_CHANNEL_OPEN_RES_def
  CTL_PING_REQUEST_def CTL_PING_RESPONSE_def CTL_NAV_FOCUS_REQUEST_def CTL_NAV_FOCUS_RESPONSE_def
  CTL_SHUTDOWN_REQUEST_def CTL_SHUTDOWN_RESPONSE_def CTL_VOICE_SESSION_REQUEST_def
  CTL_AUDIO_FOCUS_REQUEST_def CTL_AUDIO_FOCUS_RESPONSE_def CTL_BATTERY_STATUS_def

text \<open>\<^verbatim>\<open>HandshakeState\<close> is an \<^verbatim>\<open>IntEnum\<close>: its members are ordered by their values.\<close>

datatype hstate = IDLE | VERSION_SENT | TLS_IN_PROGRESS | AUTH_OK | WAITING_CHANNELS | CHANNELS_OPENING | ACTIVE | SHUTDOWN

fun hstate_value :: "hstate \<Rightarrow> nat" where
  "hstate_value IDLE = 1"
| "hstate_value VERSION_SENT = 2"
| "hstate_value TLS_IN_PROGRESS = 3"
| "hstate_value AUTH_OK = 4"
| "hstate_value WAITING_CHANNELS = 5"
| "hstate_value CHANNELS_OPENING = 6"
| "hstate_value ACTIVE = 7"
| "hstate_value SHUTDOWN = 8"

fun hstate_name :: "hstate \<Rightarrow> string" where
  "hstate_name IDLE = ''IDLE''"
| "hstate_name VERSION_SENT = ''VERSION_SENT''"
| "hstate_name TLS_IN_PROGRESS = ''TLS_IN_PROGRESS''"
| "hstate_name AUTH_OK = ''AUTH_OK''"
| "hstate_name WAITING_CHANNELS = ''WAITING_CHANNELS''"
| "hstate_name CHANNELS_OPENING = ''CHANNELS_OPENING''"
| "hstate_name ACTIVE = ''ACTIVE''"
| "hstate_name SHUTDOWN = ''SHUTDOWN''"

lemma hstate_value_inj: "hstate_value s = hstate_value t \<longleftrightarrow> s = t"
  by (cases s; cases t) simp_all

instantiation hstate :: linorder
begin

definition less_eq_hstate :: "hstate \<Rightarrow> hstate \<Rightarrow> bool" where
  "less_eq_hstate s t = (hstate_value s \<le> hstate_value t)"

definition less_hstate :: "hstate \<Rightarrow> hstate \<Rightarrow> bool" where
  "less_hstate s t = (hstate_value s < hstate_value t)"

instance
  by standard (auto simp: less_eq_hstate_def less_hstate_def hstate_value_inj)

end

section \<open>The libraries as a parameter\<close>

text \<open>
  \<open>decode_proto\<close> gives no message for a body that does not parse, so each parsing function returns
  an option: the timestamp of a ping, the channel of an open request, the type of a focus request.
  Building a message may raise. \<open>sdr_loggable\<close> is the exception raised by the parse made for the log
  line of \<^verbatim>\<open>on_channels_ready\<close>, when there is one.
\<close>

record ctl_lib =
  build_sdr :: "payload \<Rightarrow> bytes res"
  sdr_channels :: "bytes \<Rightarrow> pyval list res"
  sdr_loggable :: "bytes \<Rightarrow> exn option"
  parse_ping :: "bytes \<Rightarrow> int option"
  parse_open :: "bytes \<Rightarrow> int option"
  parse_focus :: "bytes \<Rightarrow> int option"
  enc_auth_ok :: bytes
  enc_open_ok :: bytes
  enc_pong :: "int \<Rightarrow> bytes res"
  enc_focus :: "int \<Rightarrow> bytes"
  enc_nav :: bytes

datatype ctl_out =
    Send int bytes bool
  | Publish string payload
  | CallActive
  | CallShutdown

record ctl =
  c_state :: hstate
  c_open :: "int set"
  c_sdr_enc :: bool

definition new_ctl :: ctl where
  "new_ctl = \<lparr>c_state = IDLE, c_open = {}, c_sdr_enc = False\<rparr>"

type_synonym ctl_eff = "exn option \<times> ctl \<times> ctl_out list"

section \<open>Operations\<close>

definition version_body :: bytes where
  "version_body = be_bytes 2 1 @ be_bytes 2 7"

definition send_version_request :: "ctl \<Rightarrow> ctl \<times> ctl_out list" where
  "send_version_request h = (h\<lparr>c_state := VERSION_SENT\<rparr>, [Send CTL_VERSION_REQUEST version_body False])"

definition on_version_response :: "bytes \<Rightarrow> bool \<Rightarrow> ctl \<Rightarrow> ctl_eff" where
  "on_version_response body enc h =
     (None, h\<lparr>c_state := TLS_IN_PROGRESS\<rparr>, [Publish ''aa.handshake.start_tls'' []])"

definition on_ssl_handshake :: "bytes \<Rightarrow> bool \<Rightarrow> ctl \<Rightarrow> ctl_eff" where
  "on_ssl_handshake body enc h =
     (None, h, [Publish ''aa.handshake.feed_input'' [(''payload_hex'', PStr (bytes_hex body))]])"

definition on_auth_complete :: "bytes \<Rightarrow> bool \<Rightarrow> ctl \<Rightarrow> ctl_eff" where
  "on_auth_complete body enc h = (None, h\<lparr>c_state := AUTH_OK\<rparr>, [])"

definition on_service_discovery_request :: "ctl_lib \<Rightarrow> payload \<Rightarrow> bytes \<Rightarrow> bool \<Rightarrow> ctl \<Rightarrow> ctl_eff" where
  "on_service_discovery_request L cfg body enc h =
     (case build_sdr L cfg of
        Inl x \<Rightarrow> (Some x, h, [])
      | Inr sdr \<Rightarrow>
          (let h1 = h\<lparr>c_sdr_enc := enc\<rparr> in
           case sdr_channels L sdr of
             Inl x \<Rightarrow> (Some x, h1, [])
           | Inr channels \<Rightarrow>
               (None, h1\<lparr>c_state := WAITING_CHANNELS\<rparr>,
                [Publish ''oaa_control_channel.open_channels''
                   [(''sdr_bytes_hex'', PStr (bytes_hex sdr)), (''channels'', PList channels)]])))"

definition on_channel_open_request :: "ctl_lib \<Rightarrow> bytes \<Rightarrow> bool \<Rightarrow> ctl \<Rightarrow> ctl_eff" where
  "on_channel_open_request L body enc h =
     (let ch = (case parse_open L body of None \<Rightarrow> - 1 | Some c \<Rightarrow> c) in
      (None, h\<lparr>c_open := insert ch (c_open h)\<rparr>, [Send CTL_CHANNEL_OPEN_RES (enc_open_ok L) enc]))"

text \<open>\<^verbatim>\<open>resp.timestamp = timestamp\<close> and serialising raise together as \<open>enc_pong\<close>.\<close>

definition on_ping_request :: "ctl_lib \<Rightarrow> bytes \<Rightarrow> bool \<Rightarrow> ctl \<Rightarrow> ctl_eff" where
  "on_ping_request L body enc h =
     (case enc_pong L (case parse_ping L body of None \<Rightarrow> 0 | Some t \<Rightarrow> t) of
        Inl x \<Rightarrow> (Some x, h, [])
      | Inr pong \<Rightarrow>
          (let reply = Send CTL_PING_RESPONSE pong enc in
           if c_state h \<noteq> ACTIVE then (None, h\<lparr>c_state := ACTIVE\<rparr>, [reply, CallActive]) else (None, h, [reply])))"

text \<open>The focus state granted: the enumerations \<^verbatim>\<open>AudioFocusType\<close> and \<^verbatim>\<open>AudioFocusState\<close>.\<close>

definition focus_state :: "int option \<Rightarrow> int" where
  "focus_state t =
     (if t = Some 1 then 1 else if t = Some 2 then 2 else if t = Some 3 then 7 else if t = Some 4 then 3 else 0)"

definition on_audio_focus_request :: "ctl_lib \<Rightarrow> bytes \<Rightarrow> bool \<Rightarrow> ctl \<Rightarrow> ctl_eff" where
  "on_audio_focus_request L body enc h =
     (let reply = Send CTL_AUDIO_FOCUS_RESPONSE (enc_focus L (focus_state (parse_focus L body))) enc in
      if c_state h = CHANNELS_OPENING then (None, h\<lparr>c_state := ACTIVE\<rparr>, [reply, CallActive]) else (None, h, [reply]))"

definition on_navigation_focus_request :: "ctl_lib \<Rightarrow> bytes \<Rightarrow> bool \<Rightarrow> ctl \<Rightarrow> ctl_eff" where
  "on_navigation_focus_request L body enc h = (None, h, [Send CTL_NAV_FOCUS_RESPONSE (enc_nav L) enc])"

definition on_shutdown_request :: "bytes \<Rightarrow> bool \<Rightarrow> ctl \<Rightarrow> ctl_eff" where
  "on_shutdown_request body enc h =
     (None, h\<lparr>c_state := SHUTDOWN\<rparr>, [Send CTL_SHUTDOWN_RESPONSE [] enc, CallShutdown])"

text \<open>Voice-session and battery messages are only logged.\<close>

definition on_message :: "ctl_lib \<Rightarrow> payload \<Rightarrow> int \<Rightarrow> bytes \<Rightarrow> bool \<Rightarrow> ctl \<Rightarrow> ctl_eff" where
  "on_message L cfg mid body enc h =
     (if mid = CTL_VERSION_RESPONSE then on_version_response body enc h
      else if mid = CTL_SSL_HANDSHAKE then on_ssl_handshake body enc h
      else if mid = CTL_AUTH_COMPLETE then on_auth_complete body enc h
      else if mid = CTL_SERVICE_DISCOVERY_REQ then on_service_discovery_request L cfg body enc h
      else if mid = CTL_CHANNEL_OPEN_REQ then on_channel_open_request L body enc h
      else if mid = CTL_PING_REQUEST then on_ping_request L body enc h
      else if mid = CTL_AUDIO_FOCUS_REQUEST then on_audio_focus_request L body enc h
      else if mid = CTL_NAV_FOCUS_REQUEST then on_navigation_focus_request L body enc h
      else if mid = CTL_SHUTDOWN_REQUEST then on_shutdown_request body enc h
      else (None, h, []))"

definition on_tls_handshake_blob :: "pyval \<Rightarrow> ctl \<Rightarrow> ctl_eff" where
  "on_tls_handshake_blob outgoing_hex h =
     (case py_fromhex outgoing_hex of
        Inl x \<Rightarrow> (Some x, h, [])
      | Inr outgoing \<Rightarrow> (None, h, [Send CTL_SSL_HANDSHAKE outgoing False]))"

definition on_tls_complete :: "ctl_lib \<Rightarrow> ctl \<Rightarrow> ctl_eff" where
  "on_tls_complete L h = (None, h\<lparr>c_state := AUTH_OK\<rparr>, [Send CTL_AUTH_COMPLETE (enc_auth_ok L) False])"

definition on_channels_ready :: "ctl_lib \<Rightarrow> pyval \<Rightarrow> ctl \<Rightarrow> ctl_eff" where
  "on_channels_ready L sdr_hex h =
     (if c_state h \<noteq> WAITING_CHANNELS then (None, h, [])
      else (case py_fromhex sdr_hex of
              Inl x \<Rightarrow> (Some x, h, [])
            | Inr sdr \<Rightarrow>
                (case sdr_loggable L sdr of
                   Some x \<Rightarrow> (Some x, h, [])
                 | None \<Rightarrow> (None, h\<lparr>c_state := CHANNELS_OPENING\<rparr>, [Send CTL_SERVICE_DISCOVERY_RES sdr (c_sdr_enc h)]))))"

section \<open>Runs\<close>

text \<open>The calls made on one handshake object, an exception being left to the caller.\<close>

datatype ctl_event =
    EvVersion
  | EvMessage int bytes bool
  | EvBlob pyval
  | EvTlsDone
  | EvChannels pyval

fun ctl_step :: "ctl_lib \<Rightarrow> payload \<Rightarrow> ctl \<Rightarrow> ctl_event \<Rightarrow> ctl \<times> ctl_out list" where
  "ctl_step L cfg h EvVersion = send_version_request h"
| "ctl_step L cfg h (EvMessage mid body enc) = snd (on_message L cfg mid body enc h)"
| "ctl_step L cfg h (EvBlob v) = snd (on_tls_handshake_blob v h)"
| "ctl_step L cfg h EvTlsDone = snd (on_tls_complete L h)"
| "ctl_step L cfg h (EvChannels v) = snd (on_channels_ready L v h)"

lemmas ctl_ops = send_version_request_def on_version_response_def on_ssl_handshake_def on_auth_complete_def
  on_service_discovery_request_def on_channel_open_request_def on_ping_request_def on_audio_focus_request_def
  on_navigation_focus_request_def on_shutdown_request_def on_tls_handshake_blob_def on_tls_complete_def
  on_channels_ready_def

text \<open>What goes to the phone: a known identifier, and never the encrypted bit on the messages the machine
  itself starts.\<close>

definition hu_ids :: "int list" where
  "hu_ids = [1, 3, 4, 6, 8, 12, 14, 16, 19]"

definition ctl_good :: "ctl_out \<Rightarrow> bool" where
  "ctl_good out = (case out of Send mid body enc \<Rightarrow> mid \<in> set hu_ids \<and> (mid \<in> {1, 3, 4} \<longrightarrow> \<not> enc) | _ \<Rightarrow> True)"

interpretation ctlm: event_machine "ctl_step L cfg" "\<lambda>_. True" ctl_good
proof
  fix s e out
  assume "out \<in> set (snd (ctl_step L cfg s e))"
  then show "ctl_good out"
    by (cases e) (auto simp: ctl_ops on_message_def ctl_good_def hu_ids_def ctl_ids Let_def
        split: sum.splits option.splits if_splits)
qed simp

text \<open>Counting discovery requests against discovery responses.\<close>

fun sdr_responses :: "ctl_out list \<Rightarrow> nat" where
  "sdr_responses [] = 0"
| "sdr_responses (Send mid body enc # os) = (if mid = CTL_SERVICE_DISCOVERY_RES then 1 else 0) + sdr_responses os"
| "sdr_responses (_ # os) = sdr_responses os"

fun sdr_opens :: "ctl_out list \<Rightarrow> nat" where
  "sdr_opens [] = 0"
| "sdr_opens (Publish t p # os) = (if t = ''oaa_control_channel.open_channels'' then 1 else 0) + sdr_opens os"
| "sdr_opens (_ # os) = sdr_opens os"

lemma sdr_responses_append [simp]: "sdr_responses (xs @ ys) = sdr_responses xs + sdr_responses ys"
  by (induction xs rule: sdr_responses.induct) auto

lemma sdr_opens_append [simp]: "sdr_opens (xs @ ys) = sdr_opens xs + sdr_opens ys"
  by (induction xs rule: sdr_opens.induct) auto

definition pending_sdr :: "ctl \<Rightarrow> nat" where
  "pending_sdr h = (if c_state h = WAITING_CHANNELS then 1 else 0)"

lemma sdr_balance:
  "sdr_responses (snd (ctl_step L cfg h e)) + pending_sdr (fst (ctl_step L cfg h e))
     \<le> sdr_opens (snd (ctl_step L cfg h e)) + pending_sdr h"
  by (cases e) (auto simp: ctl_ops on_message_def pending_sdr_def ctl_ids Let_def split: sum.splits option.splits)

lemma sdr_balance_run:
  "sdr_responses (snd (run_events (ctl_step L cfg) h es)) + pending_sdr (fst (run_events (ctl_step L cfg) h es))
     \<le> sdr_opens (snd (run_events (ctl_step L cfg) h es)) + pending_sdr h"
proof (induction es arbitrary: h)
  case (Cons e es)
  show ?case using Cons.IH [of "fst (ctl_step L cfg h e)"] sdr_balance [of L cfg h e] by (simp add: Let_def)
qed simp

section \<open>Properties\<close>

text \<open>C2 The phone gets a service-discovery response only after the channels it names were opened: over
  any sequence of calls the responses sent are at most as many as the openings asked of the channel
  manager, and everything sent has one of the head unit's message identifiers, the version, TLS and
  authentication messages always in clear.\<close>

theorem discovery_response_after_channels:
  "sdr_responses (snd (run_events (ctl_step L cfg) new_ctl es)) \<le> sdr_opens (snd (run_events (ctl_step L cfg) new_ctl es)) \<and>
   list_all ctl_good (snd (run_events (ctl_step L cfg) new_ctl es))"
proof
  show "sdr_responses (snd (run_events (ctl_step L cfg) new_ctl es)) \<le> sdr_opens (snd (run_events (ctl_step L cfg) new_ctl es))"
    using sdr_balance_run [of L cfg new_ctl es] by (simp add: pending_sdr_def new_ctl_def split: if_splits)
  show "list_all ctl_good (snd (run_events (ctl_step L cfg) new_ctl es))"
    using ctlm.run_good by (simp add: list_all_iff)
qed

text \<open>The reply each request of the phone calls for.\<close>

definition reply_id :: "int \<Rightarrow> int option" where
  "reply_id mid =
     (if mid = 7 then Some 8 else if mid = 11 then Some 12 else if mid = 13 then Some 14
      else if mid = 15 then Some 16 else if mid = 18 then Some 19 else None)"

fun sends :: "ctl_out list \<Rightarrow> (int \<times> bool) list" where
  "sends [] = []"
| "sends (Send mid body enc # os) = (mid, enc) # sends os"
| "sends (_ # os) = sends os"

text \<open>C25 Five requests of the phone are answered at once, in any state: a channel-open, ping, navigation
  focus, shutdown or audio-focus request gets exactly one message back, the matching response,
  encrypted as the request was. (Of the other requests, service discovery is answered once the channels are known, and a
  voice session request not at all.)\<close>

theorem requests_answered_once:
  assumes "on_message L cfg mid body enc h = (None, h', outs)"
  shows "sends outs = (case reply_id mid of Some r \<Rightarrow> [(r, enc)] | None \<Rightarrow> [])"
  using assms
  by (auto simp: on_message_def ctl_ops reply_id_def ctl_ids Let_def split: if_splits sum.splits)

definition demo_ctl :: ctl_lib where
  "demo_ctl = \<lparr>build_sdr = (\<lambda>_. Inr [1]), sdr_channels = (\<lambda>_. Inr [PInt 3]), sdr_loggable = (\<lambda>_. None),
     parse_ping = (\<lambda>b. Some 5), parse_open = (\<lambda>b. Some 3), parse_focus = (\<lambda>b. Some 1), enc_auth_ok = [],
     enc_open_ok = [8, 0], enc_pong = (\<lambda>t. Inr [8]), enc_focus = (\<lambda>s. [8, 1]), enc_nav = [8, 2]\<rparr>"

lemma requests_answered_once_witness:
  "sends [Send 12 [8] True, CallActive] = (case reply_id 11 of Some r \<Rightarrow> [(r, True)] | None \<Rightarrow> [])"
proof (rule requests_answered_once)
  show "on_message demo_ctl [] 11 [] True new_ctl = (None, new_ctl\<lparr>c_state := ACTIVE\<rparr>, [Send 12 [8] True, CallActive])"
    by (simp add: on_message_def on_ping_request_def demo_ctl_def new_ctl_def ctl_ids)
qed

text \<open>The session is announced exactly when it becomes active: a call makes the active callback if
  and only if it takes the machine from another state to ACTIVE. A ping does so from every other
  state, whether or not TLS, service discovery or a shutdown came before.\<close>

theorem active_announced_on_entry:
  "(CallActive \<in> set (snd (ctl_step L cfg h e)) \<longleftrightarrow>
      c_state (fst (ctl_step L cfg h e)) = ACTIVE \<and> c_state h \<noteq> ACTIVE) \<and>
   (c_state h = ACTIVE \<or> (\<exists>x. enc_pong L (case parse_ping L body of None \<Rightarrow> 0 | Some t \<Rightarrow> t) = Inl x) \<or>
    CallActive \<in> set (snd (ctl_step L cfg h (EvMessage CTL_PING_REQUEST body enc))))"
  by (cases e) (auto simp: ctl_ops on_message_def ctl_ids Let_def split: sum.splits option.splits)

end
