(* ===== verification/OaaMain.thy ===== *)
theory OaaMain
  imports OaaHandshake
begin

text \<open>
  \<^verbatim>\<open>v2/modules/oaa_control_channel/main.py\<close>: the module around the handshake machine. Its globals are
  the current machine, if any, and the configuration, which every machine it makes shares with it.
  A handler returns the exception it lets escape, the new globals and the messages published.
\<close>

section \<open>Module state\<close>

definition OAA_PRIORITY :: int where "OAA_PRIORITY = 2"

record oaa =
  o_hs :: "ctl option"
  o_cfg :: payload

definition oaa_init :: "payload \<Rightarrow> oaa" where
  "oaa_init defaults = \<lparr>o_hs = None, o_cfg = defaults\<rparr>"

type_synonym oaa_eff = "exn option \<times> oaa \<times> busmsg list"

definition hs_state_msg :: "string \<Rightarrow> busmsg" where
  "hs_state_msg name = (''aa.handshake.state'', [(''state'', PStr name)])"

text \<open>The callbacks \<^verbatim>\<open>_make_handshake\<close> wires: \<^verbatim>\<open>send_fn\<close>, \<^verbatim>\<open>bus.publish\<close>, \<^verbatim>\<open>_on_session_active\<close> and
  \<^verbatim>\<open>_on_session_shutdown\<close>.\<close>

fun oaa_out :: "ctl_out \<Rightarrow> busmsg list" where
  "oaa_out (Send mid body enc) =
     [(''aa.frame.send'', [(''channel_id'', PInt 0), (''message_id'', PInt mid),
                            (''payload_hex'', PStr (bytes_hex body)), (''encrypted'', PBool enc)])]"
| "oaa_out (Publish topic p) = [(topic, p)]"
| "oaa_out CallActive = [(''aa.session.active'', []), hs_state_msg ''ACTIVE'']"
| "oaa_out CallShutdown = [(''aa.session.shutdown'', []), hs_state_msg ''SHUTDOWN'']"

definition oaa_outs :: "ctl_out list \<Rightarrow> busmsg list" where
  "oaa_outs outs = concat (map oaa_out outs)"

lemma oaa_outs_simps [simp]: "oaa_outs [] = []" "oaa_outs (x # xs) = oaa_out x @ oaa_outs xs"
  by (simp_all add: oaa_outs_def)

section \<open>Handlers\<close>

text \<open>Whether the configuration is asked for, when it is this module's turn to start.\<close>

definition oaa_on_system_start :: "payload \<Rightarrow> bool" where
  "oaa_on_system_start payload = py_eq_int (dget payload ''priority'') OAA_PRIORITY"

definition on_config_loaded :: "payload \<Rightarrow> oaa \<Rightarrow> oaa \<times> string list \<times> busmsg list" where
  "on_config_loaded config s =
     ((if config \<noteq> [] then s\<lparr>o_cfg := dupdate (o_cfg s) (filter (\<lambda>kv. fst kv \<in> set (dkeys (o_cfg s))) config)\<rparr> else s),
      [''tcp.session.connected'', ''tcp.session.closed'', ''aa.frame.ch0'', ''tcp.server.tls_handshake'',
       ''tcp.server.tls_handshake_completed'', ''aa.session.restarting'', ''channel_manager.channels_ready''],
      [(''system.ready'', [(''name'', PStr ''oaa_control_channel''), (''priority'', PInt OAA_PRIORITY)])])"

definition on_config_changed :: "string \<Rightarrow> pyval \<Rightarrow> oaa \<Rightarrow> oaa_eff" where
  "on_config_changed key v s =
     (if key \<notin> set (dkeys (o_cfg s)) then (None, s, [])
      else (let s1 = s\<lparr>o_cfg := dset key v (o_cfg s)\<rparr> in
        (None, s1\<lparr>o_hs := None\<rparr>,
         (if o_hs s1 \<noteq> None then [(''aa.session.shutdown'', []), hs_state_msg ''DISCONNECTED''] else [])
         @ [(''aa.session.restart'', [])])))"

text \<open>A fresh machine, and the version request it starts with.\<close>

definition fresh_handshake :: "oaa \<Rightarrow> oaa_eff" where
  "fresh_handshake s =
     (let (h, outs) = send_version_request new_ctl in
      (None, s\<lparr>o_hs := Some h\<rparr>, hs_state_msg ''IDLE'' # oaa_outs outs))"

definition on_tcp_session_connected :: "oaa \<Rightarrow> oaa_eff" where
  "on_tcp_session_connected s = fresh_handshake s"

definition on_aa_session_restarting :: "oaa \<Rightarrow> oaa_eff" where
  "on_aa_session_restarting s = fresh_handshake s"

definition on_tcp_session_closed :: "oaa \<Rightarrow> oaa_eff" where
  "on_tcp_session_closed s = (None, s\<lparr>o_hs := None\<rparr>, [(''aa.session.shutdown'', []), hs_state_msg ''DISCONNECTED''])"

text \<open>A call of the machine, followed by the publication of its state unless it raised.\<close>

definition drive :: "(ctl \<Rightarrow> ctl_eff) \<Rightarrow> ctl \<Rightarrow> oaa \<Rightarrow> oaa_eff" where
  "drive f h s =
     (let (x, h', outs) = f h in
      (x, s\<lparr>o_hs := Some h'\<rparr>, oaa_outs outs @ (if x = None then [hs_state_msg (hstate_name (c_state h'))] else [])))"

definition ch0_fields :: "payload \<Rightarrow> (int \<times> bool \<times> bytes) res" where
  "ch0_fields payload =
     rbind (rbind (dindex payload ''message_id'') py_int) (\<lambda>mid.
     rbind (rbind (dindex payload ''payload_hex'') py_fromhex) (\<lambda>body.
       Inr (mid, truthy (dget_or payload ''encrypted'' (PBool False)), body)))"

definition on_frame_ch0 :: "ctl_lib \<Rightarrow> payload \<Rightarrow> oaa \<Rightarrow> oaa_eff" where
  "on_frame_ch0 L payload s =
     (case o_hs s of
        None \<Rightarrow> (None, s, [])
      | Some h \<Rightarrow>
          (case ch0_fields payload of
             Inl x \<Rightarrow> (if x = KeyError \<or> x = ValueError then None else Some x, s, [])
           | Inr (mid, enc, body) \<Rightarrow> drive (on_message L (o_cfg s) mid body enc) h s))"

definition on_channel_ready :: "ctl_lib \<Rightarrow> payload \<Rightarrow> oaa \<Rightarrow> oaa_eff" where
  "on_channel_ready L payload s =
     (case o_hs s of
        None \<Rightarrow> (None, s, [])
      | Some h \<Rightarrow>
          (case dindex payload ''sdr_bytes_hex'' of
             Inl x \<Rightarrow> (None, s, [])
           | Inr v \<Rightarrow> drive (on_channels_ready L v) h s))"

definition on_tls_handshake :: "payload \<Rightarrow> oaa \<Rightarrow> oaa_eff" where
  "on_tls_handshake payload s =
     (case o_hs s of
        None \<Rightarrow> (None, s, [])
      | Some h \<Rightarrow>
          (case dindex payload ''outgoing_hex'' of
             Inl x \<Rightarrow> (None, s, [])
           | Inr v \<Rightarrow> drive (on_tls_handshake_blob v) h s))"

definition on_tls_handshake_completed :: "ctl_lib \<Rightarrow> oaa \<Rightarrow> oaa_eff" where
  "on_tls_handshake_completed L s = (case o_hs s of None \<Rightarrow> (None, s, []) | Some h \<Rightarrow> drive (on_tls_complete L) h s)"

section \<open>Runs\<close>

datatype oaa_event =
    OConfigLoaded payload
  | OConfigChanged string pyval
  | OConnected
  | OClosed
  | ORestarting
  | OFrame payload
  | OChannels payload
  | OTls payload
  | OTlsDone

fun oaa_step :: "ctl_lib \<Rightarrow> oaa \<Rightarrow> oaa_event \<Rightarrow> oaa \<times> busmsg list" where
  "oaa_step L s (OConfigLoaded c) = (fst (on_config_loaded c s), snd (snd (on_config_loaded c s)))"
| "oaa_step L s (OConfigChanged k v) = snd (on_config_changed k v s)"
| "oaa_step L s OConnected = snd (on_tcp_session_connected s)"
| "oaa_step L s OClosed = snd (on_tcp_session_closed s)"
| "oaa_step L s ORestarting = snd (on_aa_session_restarting s)"
| "oaa_step L s (OFrame p) = snd (on_frame_ch0 L p s)"
| "oaa_step L s (OChannels p) = snd (on_channel_ready L p s)"
| "oaa_step L s (OTls p) = snd (on_tls_handshake p s)"
| "oaa_step L s OTlsDone = snd (on_tls_handshake_completed L s)"

section \<open>What the rest of the system sees\<close>

text \<open>The state last announced on \<^verbatim>\<open>aa.handshake.state\<close>.\<close>

fun see_state :: "pyval \<Rightarrow> busmsg \<Rightarrow> pyval" where
  "see_state v (topic, p) = (if topic = ''aa.handshake.state'' then dget p ''state'' else v)"

definition announced :: "oaa \<Rightarrow> pyval \<Rightarrow> bool" where
  "announced s v =
     (case o_hs s of
        None \<Rightarrow> v = PStr ''DISCONNECTED''
      | Some h \<Rightarrow> v = PStr (hstate_name (c_state h)) \<or> (v = PStr ''IDLE'' \<and> c_state h = VERSION_SENT))"

lemma see_state_hs [simp]: "see_state v (hs_state_msg n) = PStr n"
  by (simp add: hs_state_msg_def dget_def dget_or_def)

lemma raise_keeps_state:
  "on_message L cfg mid body enc h = (Some x, h', outs) \<Longrightarrow> c_state h' = c_state h \<and> outs = []"
  "on_channels_ready L v h = (Some x, h', outs) \<Longrightarrow> c_state h' = c_state h \<and> outs = []"
  "on_tls_handshake_blob v h = (Some x, h', outs) \<Longrightarrow> c_state h' = c_state h \<and> outs = []"
  "on_tls_complete L h \<noteq> (Some x, h', outs)"
  by (auto simp: on_message_def ctl_ops Let_def split: if_splits sum.splits option.splits)

lemma drive_announced:
  assumes "o_hs s = Some h" "announced s v"
    and "\<And>x h' outs. f h = (Some x, h', outs) \<Longrightarrow> c_state h' = c_state h \<and> outs = []"
  shows "announced (fst (snd (drive f h s))) (foldl see_state v (snd (snd (drive f h s))))"
proof (cases "f h")
  case (fields x h' outs)
  show ?thesis
  proof (cases x)
    case None
    then show ?thesis by (simp add: drive_def fields announced_def)
  next
    case (Some e)
    then have "c_state h' = c_state h \<and> outs = []" using assms(3) fields by blast
    with Some assms(1,2) show ?thesis by (auto simp: drive_def fields announced_def)
  qed
qed

lemmas oaa_handlers = on_config_loaded_def on_config_changed_def fresh_handshake_def on_tcp_session_connected_def
  on_aa_session_restarting_def on_tcp_session_closed_def on_frame_ch0_def on_channel_ready_def
  on_tls_handshake_def on_tls_handshake_completed_def

lemma oaa_step_announced:
  assumes "announced s v"
  shows "announced (fst (oaa_step L s e)) (foldl see_state v (snd (oaa_step L s e)))"
proof (cases e)
  case (OConfigLoaded c)
  then show ?thesis using assms by (simp add: oaa_handlers announced_def)
next
  case (OConfigChanged k w)
  then show ?thesis using assms
    by (auto simp: oaa_handlers announced_def Let_def split: option.splits if_splits)
next
  case OConnected
  then show ?thesis by (simp add: oaa_handlers announced_def send_version_request_def)
next
  case OClosed
  then show ?thesis by (simp add: oaa_handlers announced_def)
next
  case ORestarting
  then show ?thesis by (simp add: oaa_handlers announced_def send_version_request_def)
next
  case (OFrame p)
  show ?thesis
  proof (cases "o_hs s")
    case (Some h)
    then show ?thesis using assms OFrame
        drive_announced [OF Some assms] raise_keeps_state(1)
      by (auto simp: on_frame_ch0_def split: sum.splits)
  qed (use assms OFrame in \<open>simp add: on_frame_ch0_def\<close>)
next
  case (OChannels p)
  show ?thesis
  proof (cases "o_hs s")
    case (Some h)
    then show ?thesis using assms OChannels
        drive_announced [OF Some assms] raise_keeps_state(2)
      by (auto simp: on_channel_ready_def split: sum.splits)
  qed (use assms OChannels in \<open>simp add: on_channel_ready_def\<close>)
next
  case (OTls p)
  show ?thesis
  proof (cases "o_hs s")
    case (Some h)
    then show ?thesis using assms OTls
        drive_announced [OF Some assms] raise_keeps_state(3)
      by (auto simp: on_tls_handshake_def split: sum.splits)
  qed (use assms OTls in \<open>simp add: on_tls_handshake_def\<close>)
next
  case OTlsDone
  show ?thesis
  proof (cases "o_hs s")
    case (Some h)
    then show ?thesis using assms OTlsDone
        drive_announced [OF Some assms, of "on_tls_complete L"] raise_keeps_state(4) [of L]
      by (simp add: on_tls_handshake_completed_def)
  qed (use assms OTlsDone in \<open>simp add: on_tls_handshake_completed_def\<close>)
qed

interpretation oaam: observed_machine "oaa_step L" see_state announced
  by unfold_locales (rule oaa_step_announced)

section \<open>Configuration\<close>

fun cfg_after :: "oaa_event \<Rightarrow> payload \<Rightarrow> payload" where
  "cfg_after (OConfigLoaded c) d = dupdate d (filter (\<lambda>kv. fst kv \<in> set (dkeys d)) c)"
| "cfg_after (OConfigChanged k v) d = (if k \<in> set (dkeys d) then dset k v d else d)"
| "cfg_after _ d = d"

lemma drive_cfg [simp]: "o_cfg (fst (snd (drive f h s))) = o_cfg s"
  by (simp add: drive_def split: prod.splits)

lemma step_cfg: "o_cfg (fst (oaa_step L s e)) = cfg_after e (o_cfg s)"
  by (cases e) (auto simp: oaa_handlers Let_def dupdate_def send_version_request_def
      split: option.splits sum.splits)

lemma cfg_after_keys: "set (dkeys (cfg_after e d)) = set (dkeys d)"
proof (cases e)
  case (OConfigLoaded c)
  have "map_of (dupdate d (filter (\<lambda>kv. fst kv \<in> set (dkeys d)) c)) k = None \<longleftrightarrow> map_of d k = None" for k
    by (auto simp: map_of_dupdate rev_filter map_of_filter_in set_dkeys dom_def split: option.splits
        dest!: map_of_SomeD)
  with OConfigLoaded show ?thesis by (auto simp: set_dkeys dom_def)
qed (auto simp: set_dkeys_dset)

fun sets_key :: "string \<Rightarrow> oaa_event \<Rightarrow> bool" where
  "sets_key k (OConfigLoaded c) = (k \<in> set (dkeys c))"
| "sets_key k (OConfigChanged k' v) = (k' = k)"
| "sets_key k _ = False"

lemma cfg_after_other: "\<not> sets_key k e \<Longrightarrow> map_of (cfg_after e d) k = map_of d k"
proof (cases e)
  case (OConfigLoaded c)
  assume "\<not> sets_key k e"
  then have "map_of (rev (filter (\<lambda>kv. fst kv \<in> set (dkeys d)) c)) k = None"
    using OConfigLoaded by (auto simp: map_of_eq_None_iff dkeys_def)
  with OConfigLoaded show ?thesis by (simp add: map_of_dupdate)
qed (auto simp: map_of_dset)

lemma run_keeps_key:
  "\<forall>e \<in> set es. \<not> sets_key k e \<Longrightarrow>
   map_of (o_cfg (fst (run_events (oaa_step L) s es))) k = map_of (o_cfg s) k"
proof (induction es arbitrary: s)
  case (Cons e es)
  then show ?case using Cons.IH [of "fst (oaa_step L s e)"] cfg_after_other [of k e "o_cfg s"]
    by (simp add: Let_def step_cfg)
qed simp

section \<open>Properties\<close>

text \<open>The announced handshake state is the true one: over any sequence of handler calls the last state
  published on \<^verbatim>\<open>aa.handshake.state\<close> is DISCONNECTED exactly while there is no handshake, and otherwise
  the state the machine is in, except that IDLE is still announced after the version request of a new
  machine has taken it to VERSION_SENT.\<close>

theorem handshake_state_announced:
  "announced (fst (run_events (oaa_step L) (oaa_init cfg) es))
     (foldl see_state (PStr ''DISCONNECTED'') (snd (run_events (oaa_step L) (oaa_init cfg) es)))"
  by (rule oaam.run_rel) (simp add: announced_def oaa_init_def)

text \<open>C32 A configuration change reaches the next service discovery: once a known key was changed, and as
  long as no later event sets the same key, whatever sessions come and go, the discovery request of
  the phone is answered from a configuration that maps the key to the new value, and the channels
  opened are those of the response built from it.\<close>

theorem config_reaches_discovery:
  assumes "k \<in> set (dkeys (o_cfg s))" and "\<forall>e \<in> set es. \<not> sets_key k e"
    and "s' = fst (run_events (oaa_step L) s (OConfigChanged k v # es))" and "o_hs s' = Some h"
    and "build_sdr L (o_cfg s') = Inr sdr" and "sdr_channels L sdr = Inr chs"
    and "ch0_fields p = Inr (CTL_SERVICE_DISCOVERY_REQ, enc, body)"
  shows "map_of (o_cfg s') k = Some v \<and>
    (''oaa_control_channel.open_channels'', [(''sdr_bytes_hex'', PStr (bytes_hex sdr)), (''channels'', PList chs)])
      \<in> set (snd (oaa_step L s' (OFrame p)))"
proof
  have "map_of (o_cfg s') k = map_of (o_cfg (fst (oaa_step L s (OConfigChanged k v)))) k"
    using run_keeps_key [OF assms(2), of L "fst (oaa_step L s (OConfigChanged k v))"]
    unfolding assms(3) by (simp add: Let_def del: oaa_step.simps)
  then show "map_of (o_cfg s') k = Some v"
    using assms(1) by (simp add: step_cfg map_of_dset del: oaa_step.simps)
  show "(''oaa_control_channel.open_channels'', [(''sdr_bytes_hex'', PStr (bytes_hex sdr)), (''channels'', PList chs)])
      \<in> set (snd (oaa_step L s' (OFrame p)))"
    using assms(4-7)
    by (simp add: on_frame_ch0_def drive_def on_message_def on_service_discovery_request_def ctl_ids Let_def)
qed

lemma config_reaches_discovery_witness:
  "\<exists>s'. map_of (o_cfg s') ''sw_version'' = Some (PStr ''3'') \<and>
    (''oaa_control_channel.open_channels'', [(''sdr_bytes_hex'', PStr ''01''), (''channels'', PList [PInt 3])])
      \<in> set (snd (oaa_step demo_ctl s' (OFrame [(''message_id'', PInt 5), (''payload_hex'', PStr [])])))"
proof -
  define s where "s = oaa_init [(''sw_version'', PStr ''2'')]"
  define s' where "s' = fst (run_events (oaa_step demo_ctl) s [OConfigChanged ''sw_version'' (PStr ''3''), ORestarting])"
  have hs: "o_hs s' = Some (new_ctl\<lparr>c_state := VERSION_SENT\<rparr>)"
    by (simp add: s'_def s_def oaa_init_def oaa_handlers send_version_request_def dkeys_def Let_def)
  have hx: "bytes_hex [1] = ''01''" by code_simp
  have f: "ch0_fields [(''message_id'', PInt 5), (''payload_hex'', PStr [])] = Inr (CTL_SERVICE_DISCOVERY_REQ, False, [])"
    by (simp add: ch0_fields_def dindex_def dget_or_def ctl_ids)
  show ?thesis
    using config_reaches_discovery [of "''sw_version''" s "[ORestarting]" s' demo_ctl "PStr ''3''" _ "[1]" "[PInt 3]",
        OF _ _ _ hs _ _ f] hx
    by (intro exI [of _ s']) (simp add: demo_ctl_def s_def oaa_init_def dkeys_def s'_def [unfolded s_def])
qed

text \<open>Nothing is sent to the phone without a session: from a state with no handshake, and until a
  connection or a completed restart makes one, no handler publishes a frame, whatever frames, TLS
  blobs, channel notices and configuration changes arrive.\<close>

theorem silent_without_session:
  assumes "o_hs s = None" and "\<forall>e \<in> set es. e \<noteq> OConnected \<and> e \<noteq> ORestarting"
  shows "o_hs (fst (run_events (oaa_step L) s es)) = None \<and>
    filter (\<lambda>m. fst m = ''aa.frame.send'') (snd (run_events (oaa_step L) s es)) = []"
  using assms
proof (induction es arbitrary: s)
  case (Cons e es)
  have "o_hs (fst (oaa_step L s e)) = None \<and> (\<forall>m \<in> set (snd (oaa_step L s e)). fst m \<noteq> ''aa.frame.send'')"
    using Cons.prems by (cases e) (auto simp: oaa_handlers hs_state_msg_def Let_def)
  then show ?case
    using Cons.IH [of "fst (oaa_step L s e)"] Cons.prems by (auto simp: Let_def filter_empty_conv)
qed simp

lemma silent_without_session_witness:
  "o_hs (fst (run_events (oaa_step demo_ctl) (oaa_init []) [OTlsDone, OFrame [], OClosed])) = None \<and>
    filter (\<lambda>m. fst m = ''aa.frame.send'') (snd (run_events (oaa_step demo_ctl) (oaa_init []) [OTlsDone, OFrame [], OClosed])) = []"
  by (rule silent_without_session) (simp_all add: oaa_init_def)

end
