(* ===== verification/Serializer.thy ===== *)
theory Serializer
  imports FrameCodec
begin

text \<open>
  \<^verbatim>\<open>v2/modules/oaa_control_channel/serializer.py\<close>: a second implementation of the wire format, with its
  own numbering of the frame types, compared here with \<^verbatim>\<open>frame_codec.py\<close>. The threshold is an argument
  of the class and may be zero, in which case the fragmentation loop does not end: \<open>ser_middle\<close> and what
  calls it give \<open>None\<close> then.
\<close>

section \<open>Headers\<close>

definition SER_FIRST :: int where "SER_FIRST = 1"
definition SER_MIDDLE :: int where "SER_MIDDLE = 2"
definition SER_LAST :: int where "SER_LAST = 3"
definition SER_BULK :: int where "SER_BULK = SER_FIRST OR SER_LAST"
definition SER_SPECIFIC :: int where "SER_SPECIFIC = 0"
definition SER_CONTROL :: int where "SER_CONTROL = 4"
definition SER_PLAIN :: int where "SER_PLAIN = 0"
definition SER_ENCRYPTED :: int where "SER_ENCRYPTED = 8"

lemmas ser_consts = SER_FIRST_def SER_MIDDLE_def SER_LAST_def SER_BULK_def SER_SPECIFIC_def
  SER_CONTROL_def SER_PLAIN_def SER_ENCRYPTED_def

record frame_header =
  h_channel :: int
  h_frame :: int
  h_enc :: int
  h_msg :: int

definition header_serialize :: "frame_header \<Rightarrow> bytes res" where
  "header_serialize h =
     rbind (pack_be 1 (h_channel h)) (\<lambda>c.
     rbind (pack_be 1 (h_frame h OR h_enc h OR h_msg h)) (\<lambda>f. Inr (c @ f)))"

definition header_parse :: "bytes \<Rightarrow> frame_header res" where
  "header_parse data =
     (if length data < 2 then Inl ValueError
      else (let flags = uint (data ! 1) in
        Inr \<lparr>h_channel = uint (data ! 0), h_frame = flags AND 3, h_enc = flags AND 8, h_msg = flags AND 4\<rparr>))"

section \<open>Frames\<close>

text \<open>A FIRST frame with no total is \<^verbatim>\<open>struct.pack('>I', None)\<close>.\<close>

definition ser_frame :: "frame_header \<Rightarrow> bytes \<Rightarrow> int option \<Rightarrow> bytes res" where
  "ser_frame h payload tot =
     rbind (header_serialize h) (\<lambda>hd.
     rbind (pack_be 2 (int (length payload))) (\<lambda>n.
       if h_frame h = SER_FIRST then
         (case tot of
            None \<Rightarrow> Inl StructError
          | Some t \<Rightarrow> rbind (pack_be 4 t) (\<lambda>tb. Inr (hd @ n @ tb @ payload)))
       else Inr (hd @ n @ payload)))"

partial_function (option) ser_middle :: "nat \<Rightarrow> frame_header \<Rightarrow> bytes \<Rightarrow> nat \<Rightarrow> nat \<Rightarrow> (bytes list \<times> nat) res option" where
  "ser_middle T h payload tot offset =
     (if offset + T < tot then
        (case ser_frame (h\<lparr>h_frame := SER_MIDDLE\<rparr>) (take T (drop offset payload)) None of
           Inl x \<Rightarrow> Some (Inl x)
         | Inr f \<Rightarrow> Option.bind (ser_middle T h payload tot (offset + T))
             (\<lambda>r. Some (rbind r (\<lambda>q. Inr (f # fst q, snd q)))))
      else Some (Inr ([], offset)))"

definition ser_multi :: "nat \<Rightarrow> frame_header \<Rightarrow> bytes \<Rightarrow> nat \<Rightarrow> bytes list res option" where
  "ser_multi T h payload tot =
     (case ser_frame (h\<lparr>h_frame := SER_FIRST\<rparr>) (take T payload) (Some (int tot)) of
        Inl x \<Rightarrow> Some (Inl x)
      | Inr first \<Rightarrow> Option.bind (ser_middle T h payload tot T)
          (\<lambda>r. Some (rbind r (\<lambda>q.
             rbind (ser_frame (h\<lparr>h_frame := SER_LAST\<rparr>) (drop (snd q) payload) None) (\<lambda>last.
               Inr (first # fst q @ [last]))))))"

definition ser_serialize :: "nat \<Rightarrow> int \<Rightarrow> int \<Rightarrow> int \<Rightarrow> bytes \<Rightarrow> bytes list res option" where
  "ser_serialize T channel_id msg_type enc_type payload =
     (if \<not> (0 \<le> channel_id \<and> channel_id \<le> 255) then Some (Inl ValueError)
      else if length payload \<le> T then
        Some (rbind (ser_frame \<lparr>h_channel = channel_id, h_frame = SER_BULK, h_enc = enc_type, h_msg = msg_type\<rparr>
                       payload None) (\<lambda>f. Inr [f]))
      else ser_multi T \<lparr>h_channel = channel_id, h_frame = SER_FIRST, h_enc = enc_type, h_msg = msg_type\<rparr>
             payload (length payload))"

definition ser_raw :: "int \<Rightarrow> int \<Rightarrow> int \<Rightarrow> int \<Rightarrow> bytes \<Rightarrow> bytes res" where
  "ser_raw channel_id frame_type enc_type msg_type payload =
     ser_frame \<lparr>h_channel = channel_id, h_frame = frame_type, h_enc = enc_type, h_msg = msg_type\<rparr>
       payload (Some (int (length payload)))"

section \<open>The messenger\<close>

definition ser_message_type :: "int \<Rightarrow> int \<Rightarrow> int" where
  "ser_message_type channel_id message_id =
     (if channel_id = 0 then SER_SPECIFIC else if message_id = 8 then SER_CONTROL else SER_SPECIFIC)"

definition ser_encryption_type :: "int \<Rightarrow> int \<Rightarrow> bool \<Rightarrow> int" where
  "ser_encryption_type channel_id message_id ssl_active =
     (if \<not> ssl_active then SER_PLAIN
      else if channel_id = 0 \<and> message_id \<in> {1, 2, 3, 4, 11, 12} then SER_PLAIN
      else SER_ENCRYPTED)"

text \<open>\<^verbatim>\<open>f"{n:04x}"\<close>: at least four characters, the sign included.\<close>

fun hex_of_nat :: "nat \<Rightarrow> string" where
  "hex_of_nat n = (if n < 16 then [hexdig n] else hex_of_nat (n div 16) @ [hexdig (n mod 16)])"

declare hex_of_nat.simps [simp del]

definition fmt_04x :: "int \<Rightarrow> string" where
  "fmt_04x n =
     (let d = hex_of_nat (nat \<bar>n\<bar>) in
      if n < 0 then ''-'' @ replicate (3 - length d) (CHR ''0'') @ d else replicate (4 - length d) (CHR ''0'') @ d)"

text \<open>The payload argument is bytes or a hexadecimal string. The conditional expression covers the
  whole concatenation, so a string is taken as it is.\<close>

datatype ser_arg = ArgBytes bytes | ArgStr string

definition full_payload :: "int \<Rightarrow> ser_arg \<Rightarrow> string" where
  "full_payload message_id a = (case a of ArgBytes b \<Rightarrow> fmt_04x message_id @ bytes_hex b | ArgStr s \<Rightarrow> s)"

definition serialize_and_log :: "nat \<Rightarrow> int \<Rightarrow> int \<Rightarrow> ser_arg \<Rightarrow> bool \<Rightarrow> bytes list res option" where
  "serialize_and_log T channel_id message_id a ssl_active =
     (case fromhex (full_payload message_id a) of
        Inl x \<Rightarrow> Some (Inl x)
      | Inr payload \<Rightarrow> ser_serialize T channel_id (ser_message_type channel_id message_id)
          (ser_encryption_type channel_id message_id ssl_active) payload)"

section \<open>Lemmas\<close>

lemma ser_types: "ser_message_type c m = message_type c m" "ser_encryption_type c m a = encryption_type c m a"
  by (auto simp: ser_message_type_def message_type_def ser_encryption_type_def encryption_type_def
      CH0_PLAIN_IDS_def ser_consts frame_consts)

text \<open>What the class writes, as raw frames: \<open>k\<close> is the message and encryption bits.\<close>

definition ser_frames :: "nat \<Rightarrow> int \<Rightarrow> int \<Rightarrow> bytes \<Rightarrow> rawframe list" where
  "ser_frames T c k payload =
     (if length payload \<le> T then [(c, SER_BULK OR k, payload, 0)]
      else (let cs = split_chunks T (drop T payload) in
        (c, SER_FIRST OR k, take T payload, int (length payload))
        # map (\<lambda>p. (c, SER_MIDDLE OR k, p, 0)) (butlast cs) @ [(c, SER_LAST OR k, last cs, 0)]))"

lemma ser_flag_bits:
  assumes "kind_bits k"
  shows "0 \<le> t \<Longrightarrow> t < 4 \<Longrightarrow> (t OR k) AND 3 = t" "0 \<le> t \<Longrightarrow> t < 4 \<Longrightarrow> 0 \<le> t OR k"
    "0 \<le> t \<Longrightarrow> t < 4 \<Longrightarrow> t OR k < 256"
proof -
  assume "0 \<le> t" "t < 4"
  then have "t = 0 \<or> t = 1 \<or> t = 2 \<or> t = 3" by auto
  then show "(t OR k) AND 3 = t" "0 \<le> t OR k" "t OR k < 256"
    using assms by (auto simp: kind_bits_def)
qed

lemma ser_frame_ok:
  assumes "0 \<le> c" "c < 256" "kind_bits (et OR mt)" "length p < 65536" "0 \<le> t" "t < 4"
    and "t = 1 \<longleftrightarrow> tot \<noteq> None" and "\<forall>n. tot = Some n \<longrightarrow> 0 \<le> n \<and> n < 256 ^ 4"
  shows "ser_frame \<lparr>h_channel = c, h_frame = t, h_enc = et, h_msg = mt\<rparr> p tot
      = Inr (wire_enc (c, t OR (et OR mt), p, case tot of None \<Rightarrow> 0 | Some n \<Rightarrow> n))"
  using assms ser_flag_bits [OF assms(3) assms(5,6)]
  by (cases tot) (auto simp: ser_frame_def header_serialize_def wire_enc_def pack_be_ok or.assoc ser_consts)

lemma ser_middle_ok:
  assumes "0 < T" "T < 65536" "0 \<le> c" "c < 256" "kind_bits (et OR mt)" "off \<le> length payload"
  shows "\<exists>off'. ser_middle T \<lparr>h_channel = c, h_frame = ft, h_enc = et, h_msg = mt\<rparr> payload (length payload) off
      = Some (Inr (map (\<lambda>p. wire_enc (c, SER_MIDDLE OR (et OR mt), p, 0))
               (butlast (split_chunks T (drop off payload))), off')) \<and>
    drop off' payload = last (split_chunks T (drop off payload))"
  using assms(6)
proof (induction "length payload - off" arbitrary: off rule: less_induct)
  case less
  let ?h = "\<lparr>h_channel = c, h_frame = ft, h_enc = et, h_msg = mt\<rparr>"
  show ?case
  proof (cases "off + T < length payload")
    case False
    then show ?thesis
      by (simp add: ser_middle.simps [of T ?h payload "length payload" off] split_chunks_one)
  next
    case True
    let ?p = "take T (drop off payload)"
    have b: "ser_frame (?h\<lparr>h_frame := SER_MIDDLE\<rparr>) ?p None = Inr (wire_enc (c, SER_MIDDLE OR (et OR mt), ?p, 0))"
      using assms ser_frame_ok [of c et mt ?p 2 None] by (simp add: SER_MIDDLE_def)
    have s: "split_chunks T (drop off payload) = ?p # split_chunks T (drop (off + T) payload)"
      using True assms by (subst split_chunks_step) (auto simp: add.commute)
    have lt: "length payload - (off + T) < length payload - off" and le: "off + T \<le> length payload"
      using True assms(1) by auto
    obtain off' where
      "ser_middle T ?h payload (length payload) (off + T)
        = Some (Inr (map (\<lambda>p. wire_enc (c, SER_MIDDLE OR (et OR mt), p, 0))
               (butlast (split_chunks T (drop (off + T) payload))), off'))"
      "drop off' payload = last (split_chunks T (drop (off + T) payload))"
      using less.hyps [OF lt le] by blast
    with True b s show ?thesis
      by (simp add: ser_middle.simps [of T ?h payload "length payload" off])
  qed
qed

lemma ser_serialize_ok:
  assumes "0 < T" "T < 65536" "0 \<le> c" "c < 256" "kind_bits (et OR mt)" "length payload < 2 ^ 32"
  shows "ser_serialize T c mt et payload = Some (Inr (map wire_enc (ser_frames T c (et OR mt) payload)))"
proof (cases "length payload \<le> T")
  case True
  then show ?thesis
    using assms ser_frame_ok [of c et mt payload 3 None]
    by (simp add: ser_serialize_def ser_frames_def ser_consts)
next
  case False
  let ?cs = "split_chunks T (drop T payload)"
  let ?h = "\<lparr>h_channel = c, h_frame = SER_FIRST, h_enc = et, h_msg = mt\<rparr>"
  obtain off' where mid: "ser_middle T ?h payload (length payload) T
      = Some (Inr (map (\<lambda>p. wire_enc (c, SER_MIDDLE OR (et OR mt), p, 0)) (butlast ?cs), off'))"
    and off': "drop off' payload = last ?cs"
    using ser_middle_ok [of T c et mt T payload SER_FIRST] assms False by auto
  have lc: "length (last ?cs) < 65536"
    using split_chunks_le [of T "last ?cs" "drop T payload"] assms last_in_set [of ?cs] by simp
  have f: "ser_frame (?h\<lparr>h_frame := SER_FIRST\<rparr>) (take T payload) (Some (int (length payload)))
      = Inr (wire_enc (c, SER_FIRST OR (et OR mt), take T payload, int (length payload)))"
    using assms ser_frame_ok [of c et mt "take T payload" 1 "Some (int (length payload))"]
    by (simp add: SER_FIRST_def)
  have l: "ser_frame (?h\<lparr>h_frame := SER_LAST\<rparr>) (last ?cs) None
      = Inr (wire_enc (c, SER_LAST OR (et OR mt), last ?cs, 0))"
    using assms lc ser_frame_ok [of c et mt "last ?cs" 3 None] by (simp add: SER_LAST_def)
  show ?thesis
    using False assms mid off' f l
    by (simp add: ser_serialize_def ser_multi_def ser_frames_def Let_def)
qed

lemma hexdig_0: "hexdig 0 = CHR ''0''"
  by code_simp

lemma hex_of_nat_4:
  assumes "n < 65536"
  shows "replicate (4 - length (hex_of_nat n)) (CHR ''0'') @ hex_of_nat n
      = [hexdig (n div 4096), hexdig (n div 256 mod 16), hexdig (n div 16 mod 16), hexdig (n mod 16)]"
proof -
  have d: "hex_of_nat m = hex_of_nat (m div 16) @ [hexdig (m mod 16)]" if "\<not> m < 16" for m
    using that by (subst hex_of_nat.simps) simp
  have z: "hex_of_nat m = [hexdig m]" if "m < 16" for m
    using that by (subst hex_of_nat.simps) simp
  consider "n < 16" | "16 \<le> n \<and> n < 256" | "256 \<le> n \<and> n < 4096" | "4096 \<le> n" by linarith
  then show ?thesis
  proof cases
    case 1
    then show ?thesis using z [of n] by (simp add: hexdig_0 numeral_3_eq_3)
  next
    case 2
    then have "n div 16 < 16" "n div 16 mod 16 = n div 16" by auto
    with 2 have "hex_of_nat n = [hexdig (n div 16), hexdig (n mod 16)]"
      using d [of n] z [of "n div 16"] by simp
    moreover have "n div 16 mod 16 = n div 16" "n div 256 = 0" "n div 4096 = 0" using 2 by auto
    ultimately show ?thesis by (simp add: hexdig_0 numeral_2_eq_2)
  next
    case 3
    then have "n div 256 < 16" "n div 256 mod 16 = n div 256" "\<not> n div 16 < 16" by auto
    with 3 have "hex_of_nat n = [hexdig (n div 256), hexdig (n div 16 mod 16), hexdig (n mod 16)]"
      using d [of n] d [of "n div 16"] z [of "n div 256"] by (simp add: div_mult2_eq [symmetric])
    moreover have "n div 256 mod 16 = n div 256" "n div 4096 = 0" using 3 by auto
    ultimately show ?thesis by (simp add: hexdig_0)
  next
    case 4
    then have "n div 4096 < 16" "\<not> n div 256 < 16" "\<not> n div 16 < 16" using assms by auto
    with 4 have "hex_of_nat n = [hexdig (n div 4096), hexdig (n div 256 mod 16), hexdig (n div 16 mod 16), hexdig (n mod 16)]"
      using assms d [of n] d [of "n div 16"] d [of "n div 256"] z [of "n div 4096"]
      by (simp add: div_mult2_eq [symmetric])
    then show ?thesis by simp
  qed
qed

lemma fmt_04x_bytes:
  assumes "0 \<le> m" "m < 65536"
  shows "fmt_04x m = bytes_hex (be_bytes 2 m)"
proof -
  define n where "n = nat m"
  have n: "n < 65536" "m = int n" using assms by (auto simp: n_def)
  have u: "unat (word_of_nat a :: byte) = a mod 256" for a
    by (simp add: unat_of_nat)
  have "be_bytes 2 m = [word_of_int (int (n div 256)), word_of_int (int n)]"
    by (simp add: n(2) numeral_2_eq_2 zdiv_int)
  moreover have lo: "a mod 256 mod 16 = a mod 16" "a mod 256 div 16 = a div 16 mod 16" for a :: nat
    using mod_mult2_eq [of a 16 16] by (simp_all add: mod_mod_cancel)
  moreover have "n div 256 mod 256 = n div 256" "n div 256 div 16 = n div 4096"
    using n(1) by (simp_all add: div_mult2_eq [symmetric])
  ultimately have "bytes_hex (be_bytes 2 m) = [hexdig (n div 4096), hexdig (n div 256 mod 16), hexdig (n div 16 mod 16), hexdig (n mod 16)]"
    by (simp add: bytes_hex_def u del: be_bytes.simps)
  then show ?thesis using hex_of_nat_4 [OF n(1)] n by (simp add: fmt_04x_def Let_def)
qed

text \<open>A zero threshold: the loop stands still.\<close>

lemma ser_middle_zero:
  "ser_middle T h payload tot off = Some r \<Longrightarrow> T = 0 \<longrightarrow> off < tot \<longrightarrow>
     (\<exists>x. ser_frame (h\<lparr>h_frame := SER_MIDDLE\<rparr>) [] None = Inl x)"
  by (rule ser_middle.raw_induct [where P = "\<lambda>T h payload tot off r. T = 0 \<longrightarrow> off < tot \<longrightarrow>
        (\<exists>x. ser_frame (h\<lparr>h_frame := SER_MIDDLE\<rparr>) [] None = Inl x)"])
    (fastforce split: sum.splits if_splits simp: Option.bind_eq_Some_conv)+

lemma ser_serialize_zero:
  assumes "0 \<le> c" "c < 256" "kind_bits (et OR mt)" "payload \<noteq> []" "length payload < 2 ^ 32"
  shows "ser_serialize 0 c mt et payload = None"
proof -
  let ?h = "\<lparr>h_channel = c, h_frame = SER_FIRST, h_enc = et, h_msg = mt\<rparr>"
  have "ser_frame (?h\<lparr>h_frame := SER_MIDDLE\<rparr>) [] None = Inr (wire_enc (c, SER_MIDDLE OR (et OR mt), [], 0))"
    using assms ser_frame_ok [of c et mt "[]" 2 None] by (simp add: SER_MIDDLE_def)
  then have m: "ser_middle 0 ?h payload (length payload) 0 = None"
    using ser_middle_zero [of 0 ?h payload "length payload" 0] assms(4)
    by (cases "ser_middle 0 ?h payload (length payload) 0") auto
  have "ser_frame (?h\<lparr>h_frame := SER_FIRST\<rparr>) [] (Some (int (length payload)))
      = Inr (wire_enc (c, SER_FIRST OR (et OR mt), [], int (length payload)))"
    using assms ser_frame_ok [of c et mt "[]" 1 "Some (int (length payload))"] by (simp add: SER_FIRST_def)
  with m show ?thesis using assms by (simp add: ser_serialize_def ser_multi_def)
qed

text \<open>What \<open>feed\<close> makes of the frames of this class.\<close>

lemma feed_ser_frames:
  assumes k: "kind_bits k" and "0 < T"
  shows "snd (run_events feed_step A (ser_frames T c k p)) =
    (if length p \<le> T then [(c, FT_BULK OR k, p, 0)]
     else (if length p \<le> 2 * T then [] else [(c, FT_BULK OR k, take (2 * T) p, int (length p))])
       @ [(c, FT_BULK OR k, last (split_chunks T (drop T p)), 0)])"
proof (cases "length p \<le> T")
  case True
  then show ?thesis
    using ser_flag_bits(1) [OF k, of 3]
    by (simp add: ser_frames_def feed_def ser_consts frame_consts)
next
  case False
  let ?cs = "split_chunks T (drop T p)"
  let ?b = "\<lparr>chunks = [take T p], total_size = int (length p), first_flags = FT_FIRST OR k\<rparr>"
  let ?A1 = "dset c ?b A"
  have first: "feed c (SER_FIRST OR k) (take T p) (int (length p)) A = (None, ?A1)"
    using ser_flag_bits(1) [OF k, of 1] by (simp add: feed_def Let_def ser_consts frame_consts)
  have bulk: "feed c (SER_LAST OR k) q 0 B = (Some (c, FT_BULK OR k, q, 0), B)" for q B
    using ser_flag_bits(1) [OF k, of 3] by (simp add: feed_def ser_consts frame_consts)
  have orphan: "map_of B c = None \<Longrightarrow> snd (run_events feed_step B (map (\<lambda>p. (c, SER_MIDDLE OR k, p, 0)) ps)) = []" for B ps
  proof (induction ps)
    case (Cons q ps)
    have "feed c (SER_MIDDLE OR k) q 0 B = (None, B)"
      using ser_flag_bits(1) [OF k, of 2] Cons.prems by (simp add: feed_def ser_consts frame_consts)
    with Cons show ?case by (simp add: Let_def)
  qed simp
  show ?thesis
  proof (cases "length p \<le> 2 * T")
    case True
    then have "?cs = [drop T p]" by (intro split_chunks_one) simp
    with False True first bulk show ?thesis by (simp add: ser_frames_def Let_def)
  next
    case long: False
    have cs: "?cs = take T (drop T p) # split_chunks T (drop (2 * T) p)"
      using assms(2) long by (subst split_chunks_step) (auto simp: mult_2)
    have second: "feed c (SER_MIDDLE OR k) (take T (drop T p)) 0 ?A1
        = (Some (c, FT_BULK OR k, take (2 * T) p, int (length p)), ddel c ?A1)"
      using ser_flag_bits(1) [OF k, of 2] frame_flag_bits(5) [OF k]
      by (simp add: feed_def ser_consts frame_consts dict_simps mult_2 take_add Let_def)
    have "map_of (ddel c ?A1) c = None" by (simp add: dict_simps)
    from orphan [OF this] show ?thesis
      using False long first bulk second cs
      by (simp add: ser_frames_def Let_def run_events_append)
  qed
qed

section \<open>Properties\<close>

text \<open>The two implementations of the wire format agree on messages of one frame: for a body that fits,
  \<^verbatim>\<open>Messenger.serialize_and_log\<close> returns, and its only frame is the one \<^verbatim>\<open>frame_codec\<close> builds for the
  same message, message type and encryption flag. (The body is not encrypted here.)\<close>

theorem serializer_agrees:
  assumes "0 \<le> c" "c < 256" "0 \<le> m" "m < 65536" and "length body + 2 \<le> FRAME_SIZE_THRESHOLD"
  shows "serialize_and_log FRAME_SIZE_THRESHOLD c m (ArgBytes body) ssl =
    Some (frame_payload c (message_type c m) (encryption_type c m ssl) (be_bytes 2 m @ body))"
proof -
  let ?mt = "message_type c m" and ?et = "encryption_type c m ssl"
  have k: "kind_bits (?mt OR ?et)" using message_type_cases encryption_type_cases by (rule kind_bits_or)
  have k': "kind_bits (?et OR ?mt)" using k by (simp add: or.commute)
  have fp: "full_payload m (ArgBytes body) = bytes_hex (be_bytes 2 m @ body)"
    using fmt_04x_bytes [OF assms(3,4)] by (simp add: full_payload_def bytes_hex_def)
  show ?thesis
    using assms threshold_pos ser_serialize_ok [OF threshold_pos assms(1,2) k', of "be_bytes 2 m @ body"]
      frame_payload_ok [OF assms(1,2) k, of "be_bytes 2 m @ body"]
    by (simp add: serialize_and_log_def fp ser_types ser_frames_def raw_frames_def ser_consts frame_consts or.commute)
qed

lemma serializer_agrees_witness:
  "serialize_and_log FRAME_SIZE_THRESHOLD 3 8 (ArgBytes [7]) True =
    Some (frame_payload 3 (message_type 3 8) (encryption_type 3 8 True) (be_bytes 2 8 @ [7]))"
  by (rule serializer_agrees) (simp_all add: FRAME_SIZE_THRESHOLD_def)

text \<open>Longer messages are not: the class numbers the frame types 1, 2, 3 where the wire has 1, 0, 2
  and 3 for a single frame. Its frames, fed to the receiver of this repository, never give the message:
  up to two thresholds only the tail arrives, as a message of its own; beyond, the first two chunks
  arrive as if they were all, under the declared total, and then the tail.\<close>

theorem long_serialized_misassembled:
  assumes "0 \<le> c" "c < 256" "kind_bits (et OR mt)" and "FRAME_SIZE_THRESHOLD < length p" "length p < 2 ^ 32"
  shows "\<exists>frs tail. ser_serialize FRAME_SIZE_THRESHOLD c mt et p = Some (Inr (map wire_enc frs)) \<and>
    length tail < length p \<and>
    snd (run_events feed_step [] frs) =
      (if length p \<le> 2 * FRAME_SIZE_THRESHOLD then []
       else [(c, FT_BULK OR (et OR mt), take (2 * FRAME_SIZE_THRESHOLD) p, int (length p))])
      @ [(c, FT_BULK OR (et OR mt), tail, 0)]"
proof (intro exI conjI)
  show "ser_serialize FRAME_SIZE_THRESHOLD c mt et p
      = Some (Inr (map wire_enc (ser_frames FRAME_SIZE_THRESHOLD c (et OR mt) p)))"
    using assms by (intro ser_serialize_ok threshold_pos) auto
  show "snd (run_events feed_step [] (ser_frames FRAME_SIZE_THRESHOLD c (et OR mt) p)) =
      (if length p \<le> 2 * FRAME_SIZE_THRESHOLD then []
       else [(c, FT_BULK OR (et OR mt), take (2 * FRAME_SIZE_THRESHOLD) p, int (length p))])
      @ [(c, FT_BULK OR (et OR mt), last (split_chunks FRAME_SIZE_THRESHOLD (drop FRAME_SIZE_THRESHOLD p)), 0)]"
    using assms(4) feed_ser_frames [OF assms(3) threshold_pos(1), of "[]" c p] by simp
  have "length (last (split_chunks FRAME_SIZE_THRESHOLD (drop FRAME_SIZE_THRESHOLD p))) \<le> FRAME_SIZE_THRESHOLD"
    by (rule split_chunks_le [OF threshold_pos(1)]) (rule last_in_set, simp)
  then show "length (last (split_chunks FRAME_SIZE_THRESHOLD (drop FRAME_SIZE_THRESHOLD p))) < length p"
    using assms(4) by simp
qed

lemma long_serialized_misassembled_witness:
  "\<exists>frs tail. ser_serialize FRAME_SIZE_THRESHOLD 3 0 0 (replicate 9000 1) = Some (Inr (map wire_enc frs)) \<and>
    length tail < length (replicate 9000 (1 :: byte)) \<and>
    snd (run_events feed_step [] frs) =
      (if length (replicate 9000 (1 :: byte)) \<le> 2 * FRAME_SIZE_THRESHOLD then []
       else [(3, FT_BULK OR (0 OR 0), take (2 * FRAME_SIZE_THRESHOLD) (replicate 9000 1), int (length (replicate 9000 (1 :: byte))))])
      @ [(3, FT_BULK OR (0 OR 0), tail, 0)]"
  by (rule long_serialized_misassembled) (simp_all add: kind_bits_def FRAME_SIZE_THRESHOLD_def)

text \<open>With a positive threshold below 65536 serialising returns, for every channel, message and payload the
  formats can hold; with a threshold of zero it never returns for a non-empty payload.\<close>

theorem serializer_terminates:
  assumes "0 \<le> c" "c < 256" "kind_bits (et OR mt)" "length p < 2 ^ 32" "T < 65536"
  shows "ser_serialize T c mt et p = None \<longleftrightarrow> T = 0 \<and> p \<noteq> []"
proof (cases "T = 0")
  case True
  have "ser_serialize 0 c mt et [] = Some (Inr [wire_enc (c, SER_BULK OR (et OR mt), [], 0)])"
    using assms ser_frame_ok [of c et mt "[]" 3 None] by (simp add: ser_serialize_def ser_consts)
  then show ?thesis using True ser_serialize_zero [OF assms(1-3), of p] assms(4) by (cases "p = []") auto
next
  case False
  then show ?thesis using assms by (simp add: ser_serialize_ok)
qed

lemma serializer_terminates_witness: "ser_serialize 0 1 0 0 [5] = None \<longleftrightarrow> (0 :: nat) = 0 \<and> [5 :: byte] \<noteq> []"
  by (rule serializer_terminates) (simp_all add: kind_bits_def)

text \<open>A payload given as a hexadecimal string is sent without its message identifier: the identifier
  changes at most the flag bits, never the bytes that are framed.\<close>

theorem string_payload_loses_id:
  "serialize_and_log T c m (ArgStr s) ssl =
    (case fromhex s of
       Inl x \<Rightarrow> Some (Inl x)
     | Inr p \<Rightarrow> ser_serialize T c (message_type c m) (encryption_type c m ssl) p)"
  by (simp add: serialize_and_log_def full_payload_def ser_types split: sum.split)

text \<open>A header survives serialising and parsing.\<close>

lemma header_roundtrip:
  assumes "0 \<le> h_channel h" "h_channel h < 256" "0 \<le> h_frame h" "h_frame h < 4"
    and "h_enc h = 0 \<or> h_enc h = 8" and "h_msg h = 0 \<or> h_msg h = 4"
  shows "rbind (header_serialize h) header_parse = Inr h"
proof -
  have f: "h_frame h = 0 \<or> h_frame h = 1 \<or> h_frame h = 2 \<or> h_frame h = 3" using assms(3,4) by auto
  have c: "uint (word_of_int (h_channel h) :: byte) = h_channel h"
    using assms(1,2) by (simp add: uint_word_of_int_byte)
  show ?thesis
    using f assms(5,6) assms(1,2) c
    by (cases h) (auto simp: header_serialize_def header_parse_def pack_be_ok Let_def)
qed

end
