(* ===== verification/ConfigSchema.thy ===== *)
theory ConfigSchema
  imports PyStr
begin

text \<open>
  \<^verbatim>\<open>v2/shared/config_schema.py\<close>: schema descriptors of configuration keys, their conversion to and
  from the plain dictionaries of the bus, and the validation of values. Python's text forms of floats,
  lists and dictionaries, \<^verbatim>\<open>float\<close> on strings and the rounding of \<^verbatim>\<open>float\<close> on integers are the parameter
  \<open>py_text\<close>.
\<close>

section \<open>Descriptors\<close>

text \<open>Attributes take what \<^verbatim>\<open>from_dict\<close> finds in a payload, so they are values of any kind; an absent
  bound is \<open>PNone\<close>.\<close>

record scalar =
  sc_type :: pyval
  sc_default :: pyval
  sc_min :: pyval
  sc_max :: pyval
  sc_choices :: pyval

datatype node =
    NScalar scalar
  | NMessage "(string \<times> node) list" pyval
  | NList node pyval
  | NOneof "(string \<times> node) list" pyval

type_synonym schema = "(string, node) dict"

text \<open>\<^verbatim>\<open>list(v)\<close>, and \<^verbatim>\<open>k in d\<close> for a dictionary.\<close>

fun py_list :: "pyval \<Rightarrow> pyval list res" where
  "py_list (PList l) = Inr l"
| "py_list (PStr s) = Inr (map (\<lambda>c. PStr [c]) s)"
| "py_list (PDict d) = Inr (map (\<lambda>kv. PStr (fst kv)) d)"
| "py_list v = Inl TypeError"

definition py_in_dict :: "pyval \<Rightarrow> (string, 'b) dict \<Rightarrow> bool res" where
  "py_in_dict v d =
     (case v of
        PStr s \<Rightarrow> Inr (s \<in> set (dkeys d))
      | PList l \<Rightarrow> Inl TypeError
      | PDict e \<Rightarrow> Inl TypeError
      | _ \<Rightarrow> Inr False)"

text \<open>The dataclass constructor of a oneof checks its active branch.\<close>

definition make_oneof :: "(string \<times> node) list \<Rightarrow> pyval \<Rightarrow> node res" where
  "make_oneof branches active =
     rbind (py_in_dict active branches) (\<lambda>ok. if ok then Inr (NOneof branches active) else Inl ValueError)"

section \<open>To and from dictionaries\<close>

lemma map_res_cong [fundef_cong]:
  "xs = ys \<Longrightarrow> (\<And>x. x \<in> set ys \<Longrightarrow> f x = g x) \<Longrightarrow> map_res f xs = map_res g ys"
  by (induction ys arbitrary: xs) auto

definition scalar_to_dict :: "scalar \<Rightarrow> pyval res" where
  "scalar_to_dict s =
     (let d = [(''type'', sc_type s), (''default'', sc_default s)]
            @ (if sc_min s \<noteq> PNone then [(''min'', sc_min s)] else [])
            @ (if sc_max s \<noteq> PNone then [(''max'', sc_max s)] else [])
      in if truthy (sc_choices s)
         then rbind (py_list (sc_choices s)) (\<lambda>l. Inr (PDict (d @ [(''choices'', PList l)])))
         else Inr (PDict d))"

definition scalar_from_dict :: "payload \<Rightarrow> scalar res" where
  "scalar_from_dict d =
     rbind (dindex d ''type'') (\<lambda>t.
       Inr \<lparr>sc_type = t, sc_default = dget d ''default'', sc_min = dget d ''min'', sc_max = dget d ''max'',
            sc_choices = dget_or d ''choices'' (PList [])\<rparr>)"

fun node_to_dict :: "node \<Rightarrow> pyval res" where
  "node_to_dict (NScalar s) = scalar_to_dict s"
| "node_to_dict (NMessage members optional) =
     rbind (map_res (\<lambda>(k, n). rbind (node_to_dict n) (\<lambda>d. Inr (k, d))) members) (\<lambda>fs.
       Inr (PDict [(''type'', PStr ''message''), (''optional'', optional), (''fields'', PDict fs)]))"
| "node_to_dict (NList item deflt) =
     rbind (node_to_dict item) (\<lambda>d.
       Inr (PDict [(''type'', PStr ''list''), (''item_schema'', d), (''default'', deflt)]))"
| "node_to_dict (NOneof branches active) =
     rbind (map_res (\<lambda>(k, n). rbind (node_to_dict n) (\<lambda>d. Inr (k, d))) branches) (\<lambda>bs.
       Inr (PDict [(''type'', PStr ''oneof''), (''active_branch'', active), (''branches'', PDict bs)]))"

text \<open>\<^verbatim>\<open>d.get("fields", \{\}).items()\<close>\<close>

definition items_of :: "payload \<Rightarrow> string \<Rightarrow> payload res" where
  "items_of d k = (case dget_or d k (PDict []) of PDict e \<Rightarrow> Inr e | _ \<Rightarrow> Inl AttributeError)"

lemma map_of_size: "map_of d k = Some (v :: pyval) \<Longrightarrow> size v < Suc (size_list (size_prod (\<lambda>_. 0) size) d)"
proof (induction d)
  case (Cons p d)
  then show ?case by (cases p) (auto split: if_splits)
qed simp

lemma items_of_size:
  "items_of d k = Inr e \<Longrightarrow> x \<in> set e \<Longrightarrow> size (snd x) < Suc (size_list (size_prod (\<lambda>_. 0) size) d)"
proof -
  assume e: "items_of d k = Inr e" and x: "x \<in> set e"
  have s: "size (snd x) \<le> size_list (size_prod (\<lambda>_. 0) size) e"
    using x by (induction e) auto
  have "map_of d k = Some (PDict e) \<or> e = []"
    using e by (auto simp: items_of_def dget_or_def split: option.splits pyval.splits)
  then show ?thesis using map_of_size [of d k "PDict e"] s x by auto
qed

lemma dindex_size: "dindex d k = Inr (v :: pyval) \<Longrightarrow> size v < Suc (size_list (size_prod (\<lambda>_. 0) size) d)"
  by (auto simp: dindex_def map_of_size split: option.splits)

lemma rbind_cong [fundef_cong]:
  "r = r' \<Longrightarrow> (\<And>a. r' = Inr a \<Longrightarrow> f a = g a) \<Longrightarrow> rbind r f = rbind r' g"
  by (cases r') auto

function node_from_dict :: "pyval \<Rightarrow> node res" where
  "node_from_dict v =
     (case v of
        PDict d \<Rightarrow>
          (let t = dget d ''type'' in
           if t = PStr ''message'' then
             rbind (items_of d ''fields'') (\<lambda>e.
             rbind (map_res (\<lambda>kv. rbind (node_from_dict (snd kv)) (\<lambda>n. Inr (fst kv, n))) e) (\<lambda>fs.
               Inr (NMessage fs (dget_or d ''optional'' (PBool False)))))
           else if t = PStr ''list'' then
             rbind (dindex d ''item_schema'') (\<lambda>i.
             rbind (node_from_dict i) (\<lambda>n. Inr (NList n (dget_or d ''default'' (PList [])))))
           else if t = PStr ''oneof'' then
             rbind (items_of d ''branches'') (\<lambda>e.
             rbind (map_res (\<lambda>kv. rbind (node_from_dict (snd kv)) (\<lambda>n. Inr (fst kv, n))) e) (\<lambda>bs.
             rbind (dindex d ''active_branch'') (\<lambda>a. make_oneof bs a)))
           else rbind (scalar_from_dict d) (\<lambda>s. Inr (NScalar s)))
      | _ \<Rightarrow> Inl AttributeError)"
  by pat_completeness auto
termination
  by (relation "measure size") (auto dest: items_of_size dindex_size)

declare node_from_dict.simps [simp del]

definition schema_to_dict :: "schema \<Rightarrow> payload res" where
  "schema_to_dict sch = map_res (\<lambda>(k, n). rbind (node_to_dict n) (\<lambda>d. Inr (k, d))) sch"

definition schema_from_dict :: "payload \<Rightarrow> schema res" where
  "schema_from_dict d = map_res (\<lambda>kv. rbind (node_from_dict (snd kv)) (\<lambda>n. Inr (fst kv, n))) d"

section \<open>Constructors\<close>

definition field_string :: "string \<Rightarrow> node" where
  "field_string d = NScalar \<lparr>sc_type = PStr ''string'', sc_default = PStr d, sc_min = PNone, sc_max = PNone, sc_choices = PList []\<rparr>"

definition field_int :: "int \<Rightarrow> pyval \<Rightarrow> pyval \<Rightarrow> node" where
  "field_int d lo hi = NScalar \<lparr>sc_type = PStr ''int'', sc_default = PInt d, sc_min = lo, sc_max = hi, sc_choices = PList []\<rparr>"

definition field_float :: "pyfloat \<Rightarrow> pyval \<Rightarrow> pyval \<Rightarrow> node" where
  "field_float d lo hi = NScalar \<lparr>sc_type = PStr ''float'', sc_default = PFloat d, sc_min = lo, sc_max = hi, sc_choices = PList []\<rparr>"

definition field_enum :: "string \<Rightarrow> string list \<Rightarrow> node res" where
  "field_enum d choices =
     (if d \<notin> set choices then Inl ValueError
      else Inr (NScalar \<lparr>sc_type = PStr ''enum'', sc_default = PStr d, sc_min = PNone, sc_max = PNone,
                         sc_choices = PList (map PStr choices)\<rparr>))"

definition field_bool :: "pyval \<Rightarrow> node" where
  "field_bool d = NScalar \<lparr>sc_type = PStr ''bool'', sc_default = PBool (truthy d), sc_min = PNone, sc_max = PNone, sc_choices = PList []\<rparr>"

lemmas field_defs = field_string_def field_int_def field_float_def field_enum_def field_bool_def

section \<open>Round trip\<close>

text \<open>The descriptors the constructors build: scalar types are not the names of the structured ones,
  choices are a list, and the active branch of a oneof is one of its branches.\<close>

fun node_wf :: "node \<Rightarrow> bool" where
  "node_wf (NScalar s) =
     (sc_type s \<notin> {PStr ''message'', PStr ''list'', PStr ''oneof''} \<and> (case sc_choices s of PList l \<Rightarrow> True | _ \<Rightarrow> False))"
| "node_wf (NMessage members optional) = (\<forall>kn \<in> set members. node_wf (snd kn))"
| "node_wf (NList item deflt) = node_wf item"
| "node_wf (NOneof branches active) =
     ((\<forall>kn \<in> set branches. node_wf (snd kn)) \<and> (case active of PStr s \<Rightarrow> s \<in> set (dkeys branches) | _ \<Rightarrow> False))"

definition schema_wf :: "schema \<Rightarrow> bool" where
  "schema_wf sch = (\<forall>kn \<in> set sch. node_wf (snd kn))"

lemma field_wf [simp]:
  "node_wf (field_string d)" "node_wf (field_int i lo hi)" "node_wf (field_float x lo hi)" "node_wf (field_bool b)"
  "field_enum c cs = Inr n \<Longrightarrow> node_wf n"
  by (auto simp: field_defs split: if_splits)

lemma members_roundtrip:
  assumes "\<forall>kn \<in> set ms. \<exists>d. to_d (snd kn) = Inr d \<and> from_d d = Inr (snd kn)"
  shows "\<exists>ds. map_res (\<lambda>(k, n). rbind (to_d n) (\<lambda>d. Inr (k, d))) ms = Inr ds \<and>
    map_res (\<lambda>kv. rbind (from_d (snd kv)) (\<lambda>n. Inr (fst kv, n))) ds = Inr ms"
  using assms
proof (induction ms)
  case (Cons kn ms)
  then obtain d ds where "to_d (snd kn) = Inr d" "from_d d = Inr (snd kn)"
    "map_res (\<lambda>(k, n). rbind (to_d n) (\<lambda>d. Inr (k, d))) ms = Inr ds"
    "map_res (\<lambda>kv. rbind (from_d (snd kv)) (\<lambda>n. Inr (fst kv, n))) ds = Inr ms"
    by auto
  then show ?case by (cases kn) (auto intro!: exI [of _ "(fst kn, d) # ds"])
qed simp

lemma scalar_roundtrip:
  assumes "node_wf (NScalar s)"
  shows "\<exists>d. node_to_dict (NScalar s) = Inr (PDict d) \<and> node_from_dict (PDict d) = Inr (NScalar s)"
proof -
  obtain l where l: "sc_choices s = PList l" using assms by (auto split: pyval.splits)
  have "s = \<lparr>sc_type = sc_type s, sc_default = sc_default s, sc_min = sc_min s, sc_max = sc_max s, sc_choices = PList l\<rparr>"
    using l by simp
  then show ?thesis
    using assms l
    by (cases l) (auto simp: scalar_to_dict_def scalar_from_dict_def node_from_dict.simps dget_def dget_or_def
        dindex_def Let_def)
qed

lemma node_roundtrip:
  "node_wf n \<Longrightarrow> \<exists>d. node_to_dict n = Inr (PDict d) \<and> node_from_dict (PDict d) = Inr n"
proof (induction n rule: node_wf.induct)
  case (1 s)
  then show ?case by (rule scalar_roundtrip)
next
  case (2 members optional)
  then have "\<forall>kn \<in> set members. \<exists>d. node_to_dict (snd kn) = Inr d \<and> node_from_dict d = Inr (snd kn)"
    by fastforce
  from members_roundtrip [OF this] show ?case
    by (auto simp: node_from_dict.simps [of "PDict _"] items_of_def dget_def dget_or_def Let_def)
next
  case (3 item deflt)
  then show ?case
    by (auto simp: node_from_dict.simps [of "PDict (_ # _)"] dindex_def dget_def dget_or_def Let_def)
next
  case (4 branches active)
  then have "\<forall>kn \<in> set branches. \<exists>d. node_to_dict (snd kn) = Inr d \<and> node_from_dict d = Inr (snd kn)"
    by fastforce
  from members_roundtrip [OF this] 4 show ?case
    by (auto simp: node_from_dict.simps [of "PDict (_ # _)"] items_of_def dget_def dget_or_def dindex_def Let_def
        make_oneof_def py_in_dict_def split: pyval.splits)
qed

lemma schema_survives:
  assumes "schema_wf sch"
  shows "\<exists>d. schema_to_dict sch = Inr d \<and> schema_from_dict d = Inr sch"
proof -
  have "\<forall>kn \<in> set sch. \<exists>d. node_to_dict (snd kn) = Inr d \<and> node_from_dict d = Inr (snd kn)"
    using assms node_roundtrip by (fastforce simp: schema_wf_def)
  from members_roundtrip [OF this] show ?thesis by (simp add: schema_to_dict_def schema_from_dict_def)
qed

text \<open>C22 A schema survives the bus: what \<^verbatim>\<open>schema_to_dict\<close> makes of well-formed descriptors, nested to any
  depth, is read back by \<^verbatim>\<open>schema_from_dict\<close> as the same schema.\<close>

theorem schema_roundtrip:
  assumes "schema_wf sch"
  shows "\<exists>d. schema_to_dict sch = Inr d \<and> schema_from_dict d = Inr sch"
  using assms by (rule schema_survives)

definition demo_schema :: schema where
  "demo_schema = [(''pin'', field_string ''1234''), (''volume'', field_int 80 (PInt 0) (PInt 100)),
     (''eq'', NList (NMessage [(''gain'', field_float (Fin 1) PNone PNone)] (PBool False)) (PList [])),
     (''out'', NOneof [(''usb'', field_bool (PBool True))] (PStr ''usb''))]"

lemma schema_roundtrip_witness: "\<exists>d. schema_to_dict demo_schema = Inr d \<and> schema_from_dict d = Inr demo_schema"
  by (rule schema_roundtrip) (simp add: schema_wf_def demo_schema_def dkeys_def)

section \<open>Validation\<close>

record py_text =
  t_repr :: "pyval \<Rightarrow> string"
  t_float :: "string \<Rightarrow> pyfloat option"
  t_round :: "int \<Rightarrow> pyfloat option"

fun py_str :: "py_text \<Rightarrow> pyval \<Rightarrow> string" where
  "py_str T PNone = ''None''"
| "py_str T (PBool b) = (if b then ''True'' else ''False'')"
| "py_str T (PInt i) = str_of_int i"
| "py_str T (PStr s) = s"
| "py_str T v = t_repr T v"

definition py_repr :: "py_text \<Rightarrow> pyval \<Rightarrow> string" where
  "py_repr T v = (case v of PStr s \<Rightarrow> t_repr T v | _ \<Rightarrow> py_str T v)"

fun type_name :: "pyval \<Rightarrow> string" where
  "type_name PNone = ''NoneType''"
| "type_name (PBool b) = ''bool''"
| "type_name (PInt i) = ''int''"
| "type_name (PFloat x) = ''float''"
| "type_name (PStr s) = ''str''"
| "type_name (PList l) = ''list''"
| "type_name (PDict d) = ''dict''"

definition lower_char :: "char \<Rightarrow> char" where
  "lower_char c = (let k = (of_char c :: nat) in if 65 \<le> k \<and> k \<le> 90 then char_of (k + 32) else c)"

definition BOOL_TRUE :: "string list" where "BOOL_TRUE = [''true'', ''1'', ''yes'', ''on'']"
definition BOOL_FALSE :: "string list" where "BOOL_FALSE = [''false'', ''0'', ''no'', ''off'']"

text \<open>\<^verbatim>\<open>float(v)\<close>: an integer too large for a float raises \<^verbatim>\<open>OverflowError\<close>.\<close>

fun py_float :: "py_text \<Rightarrow> pyval \<Rightarrow> pyfloat res" where
  "py_float T (PFloat x) = Inr x"
| "py_float T (PBool b) = Inr (Fin (if b then 1 else 0))"
| "py_float T (PInt i) = (case t_round T i of None \<Rightarrow> Inl OverflowError | Some x \<Rightarrow> Inr x)"
| "py_float T (PStr s) = (case t_float T s of None \<Rightarrow> Inl ValueError | Some x \<Rightarrow> Inr x)"
| "py_float T v = Inl TypeError"

text \<open>\<^verbatim>\<open>v < w\<close> for numbers; comparisons with a NaN are false.\<close>

fun num_of :: "pyval \<Rightarrow> pyfloat option" where
  "num_of (PInt i) = Some (Fin (of_int i))"
| "num_of (PBool b) = Some (Fin (if b then 1 else 0))"
| "num_of (PFloat x) = Some x"
| "num_of v = None"

fun float_less :: "pyfloat \<Rightarrow> pyfloat \<Rightarrow> bool" where
  "float_less NaN y = False"
| "float_less x NaN = False"
| "float_less (Fin a) (Fin b) = (a < b)"
| "float_less NegInf y = (y \<noteq> NegInf)"
| "float_less x PosInf = (x \<noteq> PosInf)"
| "float_less x y = False"

definition py_less :: "pyval \<Rightarrow> pyval \<Rightarrow> bool res" where
  "py_less v w =
     (case num_of v of
        None \<Rightarrow> Inl TypeError
      | Some x \<Rightarrow> (case num_of w of None \<Rightarrow> Inl TypeError | Some y \<Rightarrow> Inr (float_less x y)))"

text \<open>\<^verbatim>\<open>s in choices\<close>\<close>

fun in_choices :: "string \<Rightarrow> pyval \<Rightarrow> bool res" where
  "in_choices s (PList l) = Inr (PStr s \<in> set l)"
| "in_choices s (PStr c) = Inr (has_sub s c)"
| "in_choices s (PDict d) = Inr (s \<in> set (dkeys d))"
| "in_choices s v = Inl TypeError"

text \<open>Validation fails with the \<^verbatim>\<open>ValueError\<close> of the code and its text, or another exception escapes.\<close>

datatype verr = Invalid string | Raises exn

definition check_bounds :: "py_text \<Rightarrow> scalar \<Rightarrow> pyval \<Rightarrow> verr + pyval" where
  "check_bounds T f v =
     (case (if sc_min f = PNone then Inr False else py_less v (sc_min f)) of
        Inl x \<Rightarrow> Inl (Raises x)
      | Inr low \<Rightarrow>
          (if low then Inl (Invalid (py_str T v @ '' is below minimum '' @ py_str T (sc_min f)))
           else (case (if sc_max f = PNone then Inr False else py_less (sc_max f) v) of
                   Inl x \<Rightarrow> Inl (Raises x)
                 | Inr high \<Rightarrow>
                     (if high then Inl (Invalid (py_str T v @ '' is above maximum '' @ py_str T (sc_max f)))
                      else Inr v))))"

definition expected :: "py_text \<Rightarrow> string \<Rightarrow> pyval \<Rightarrow> verr" where
  "expected T what v = Invalid (''expected '' @ what @ '', got '' @ type_name v @ '' ('' @ py_repr T v @ '')'')"

definition validate_bool :: "py_text \<Rightarrow> pyval \<Rightarrow> verr + pyval" where
  "validate_bool T v =
     (case v of
        PBool b \<Rightarrow> Inr v
      | PInt i \<Rightarrow> Inr (PBool (i \<noteq> 0))
      | _ \<Rightarrow>
          (let s = map lower_char (py_strip (py_str T v)) in
           if s \<in> set BOOL_TRUE then Inr (PBool True)
           else if s \<in> set BOOL_FALSE then Inr (PBool False)
           else Inl (Invalid (''expected bool (true/false/yes/no/on/off/1/0), got '' @ py_repr T v))))"

definition validate_enum :: "py_text \<Rightarrow> scalar \<Rightarrow> pyval \<Rightarrow> verr + pyval" where
  "validate_enum T f v =
     (case in_choices (py_str T v) (sc_choices f) of
        Inl x \<Rightarrow> Inl (Raises x)
      | Inr ok \<Rightarrow>
          (if ok then Inr (PStr (py_str T v))
           else Inl (Invalid (''expected one of '' @ py_str T (sc_choices f) @ '', got '' @ py_repr T v))))"

definition validate_int :: "py_text \<Rightarrow> scalar \<Rightarrow> pyval \<Rightarrow> verr + pyval" where
  "validate_int T f v =
     (case py_int v of
        Inl x \<Rightarrow> Inl (if x = TypeError \<or> x = ValueError then expected T ''int'' v else Raises x)
      | Inr i \<Rightarrow> check_bounds T f (PInt i))"

definition validate_float :: "py_text \<Rightarrow> scalar \<Rightarrow> pyval \<Rightarrow> verr + pyval" where
  "validate_float T f v =
     (case py_float T v of
        Inl x \<Rightarrow> Inl (if x = TypeError \<or> x = ValueError then expected T ''float'' v else Raises x)
      | Inr y \<Rightarrow> check_bounds T f (PFloat y))"

definition validate_value :: "py_text \<Rightarrow> scalar \<Rightarrow> pyval \<Rightarrow> verr + pyval" where
  "validate_value T f v =
     (if sc_type f = PStr ''bool'' then validate_bool T v
      else if sc_type f = PStr ''string'' then Inr (PStr (py_str T v))
      else if sc_type f = PStr ''enum'' then validate_enum T f v
      else if sc_type f = PStr ''int'' then validate_int T f v
      else if sc_type f = PStr ''float'' then validate_float T f v
      else Inl (Invalid (''unknown schema type '' @ py_repr T (sc_type f))))"

lemmas validate_defs = validate_value_def validate_bool_def validate_enum_def validate_int_def validate_float_def

text \<open>
  What the schema promises of a value it lets through. A bound that is set is a number, and the value is
  on its side of it unless one of the two is a NaN.
\<close>

fun float_leq :: "pyfloat \<Rightarrow> pyfloat \<Rightarrow> bool" where
  "float_leq NaN y = False"
| "float_leq x NaN = False"
| "float_leq (Fin a) (Fin b) = (a \<le> b)"
| "float_leq NegInf y = True"
| "float_leq x PosInf = True"
| "float_leq x y = False"

definition leq_or_nan :: "pyval \<Rightarrow> pyval \<Rightarrow> bool" where
  "leq_or_nan v w =
     (case (num_of v, num_of w) of (Some x, Some y) \<Rightarrow> x = NaN \<or> y = NaN \<or> float_leq x y | _ \<Rightarrow> False)"

definition above :: "pyval \<Rightarrow> pyval \<Rightarrow> bool" where
  "above lo v = (lo = PNone \<or> leq_or_nan lo v)"

definition below :: "pyval \<Rightarrow> pyval \<Rightarrow> bool" where
  "below hi v = (hi = PNone \<or> leq_or_nan v hi)"

lemma not_less_leq: "\<not> float_less y x \<longleftrightarrow> x = NaN \<or> y = NaN \<or> float_leq x y"
  by (cases x; cases y) auto

lemma py_less_leq: "py_less w v = Inr False \<longleftrightarrow> leq_or_nan v w"
  by (auto simp: py_less_def leq_or_nan_def not_less_leq split: option.splits)

definition conforms :: "scalar \<Rightarrow> pyval \<Rightarrow> bool" where
  "conforms f w =
     (case w of
        PBool b \<Rightarrow> sc_type f = PStr ''bool''
      | PStr s \<Rightarrow> sc_type f = PStr ''string'' \<or> (sc_type f = PStr ''enum'' \<and> in_choices s (sc_choices f) = Inr True)
      | PInt i \<Rightarrow> sc_type f = PStr ''int'' \<and> above (sc_min f) w \<and> below (sc_max f) w
      | PFloat x \<Rightarrow> sc_type f = PStr ''float'' \<and> above (sc_min f) w \<and> below (sc_max f) w
      | _ \<Rightarrow> False)"

lemma check_bounds_Inr: "check_bounds T f v = Inr w \<longleftrightarrow> w = v \<and> above (sc_min f) v \<and> below (sc_max f) v"
  by (auto simp: check_bounds_def above_def below_def simp flip: py_less_leq split: sum.splits if_splits)

lemma validate_conforms: "validate_value T f v = Inr w \<Longrightarrow> conforms f w"
  by (auto simp: validate_defs conforms_def check_bounds_Inr Let_def split: if_splits sum.splits pyval.splits)

lemma conforms_validate: "conforms f w \<Longrightarrow> validate_value T f w = Inr w"
  by (cases w) (auto simp: conforms_def validate_defs check_bounds_Inr)

text \<open>C18 Validation is sound and stable: a value is accepted only as one of the declared type, a text of an
  enumeration only among the choices, and validating what was accepted gives it back unchanged. A number is
  within every bound that is a number: always for an integer field with integer bounds, and for a float field
  unless the value accepted (or the bound) is a NaN, which passes every comparison.\<close>

theorem validation_sound:
  assumes "validate_value T f v = Inr w"
  shows "validate_value T f w = Inr w \<and>
    (case w of
       PBool b \<Rightarrow> sc_type f = PStr ''bool''
     | PStr s \<Rightarrow> sc_type f = PStr ''string'' \<or> (sc_type f = PStr ''enum'' \<and> in_choices s (sc_choices f) = Inr True)
     | PInt i \<Rightarrow> sc_type f = PStr ''int''
     | PFloat x \<Rightarrow> sc_type f = PStr ''float''
     | _ \<Rightarrow> False) \<and>
    (\<forall>lo hi. sc_type f = PStr ''int'' \<longrightarrow> sc_min f = PInt lo \<longrightarrow> sc_max f = PInt hi \<longrightarrow>
       (\<exists>i. w = PInt i \<and> lo \<le> i \<and> i \<le> hi)) \<and>
    (sc_type f = PStr ''int'' \<or> sc_type f = PStr ''float'' \<longrightarrow>
      (\<exists>x. num_of w = Some x \<and> (x = NaN \<longrightarrow> w = PFloat NaN) \<and>
        (x \<noteq> NaN \<longrightarrow>
          (\<forall>lo. num_of (sc_min f) = Some lo \<longrightarrow> lo \<noteq> NaN \<longrightarrow> float_leq lo x) \<and>
          (\<forall>hi. num_of (sc_max f) = Some hi \<longrightarrow> hi \<noteq> NaN \<longrightarrow> float_leq x hi))))"
proof -
  have c: "conforms f w" using assms by (rule validate_conforms)
  then have "validate_value T f w = Inr w" by (rule conforms_validate)
  with c show ?thesis
    by (cases w) (auto simp: conforms_def above_def below_def leq_or_nan_def split: option.splits)
qed

definition demo_text :: py_text where
  "demo_text = \<lparr>t_repr = (\<lambda>v. ''?''), t_float = (\<lambda>s. if s = ''nan'' then Some NaN else None),
     t_round = (\<lambda>i. Some (Fin (of_int i)))\<rparr>"

definition demo_volume :: scalar where
  "demo_volume = \<lparr>sc_type = PStr ''int'', sc_default = PInt 80, sc_min = PInt 0, sc_max = PInt 100, sc_choices = PList []\<rparr>"

lemma validation_sound_witness:
  "validate_value demo_text demo_volume (PInt 42) = Inr (PInt 42) \<and> sc_type demo_volume = PStr ''int''"
proof -
  have "validate_value demo_text demo_volume (PStr ''42'') = Inr (PInt 42)" by code_simp
  from validation_sound [OF this] show ?thesis by simp
qed

text \<open>Two values slip past the bounds check of numeric fields: a NaN is accepted by every float field,
  whatever its minimum and maximum, and an infinity given to an integer field raises \<^verbatim>\<open>OverflowError\<close>,
  which is not the \<^verbatim>\<open>ValueError\<close> the callers handle.\<close>

theorem nan_passes_bounds:
  assumes "sc_min f = PNone \<or> num_of (sc_min f) \<noteq> None" and "sc_max f = PNone \<or> num_of (sc_max f) \<noteq> None"
  shows "(sc_type f = PStr ''float'' \<longrightarrow> validate_value T f (PFloat NaN) = Inr (PFloat NaN)) \<and>
    (sc_type f = PStr ''int'' \<longrightarrow> validate_value T f (PFloat PosInf) = Inl (Raises OverflowError))"
proof -
  have "above (sc_min f) (PFloat NaN)" "below (sc_max f) (PFloat NaN)"
    using assms by (auto simp: above_def below_def leq_or_nan_def)
  then show ?thesis by (auto simp: validate_defs check_bounds_Inr)
qed

lemma nan_passes_bounds_witness:
  "validate_value demo_text (demo_volume\<lparr>sc_type := PStr ''float''\<rparr>) (PFloat NaN) = Inr (PFloat NaN) \<and>
   validate_value demo_text demo_volume (PFloat PosInf) = Inl (Raises OverflowError)"
  using nan_passes_bounds [of demo_volume demo_text]
    nan_passes_bounds [of "demo_volume\<lparr>sc_type := PStr ''float''\<rparr>" demo_text]
  by (simp add: demo_volume_def)

end
