(* ===== verification/ProtoSchema.thy ===== *)
theory ProtoSchema
  imports ConfigSchema
begin

text \<open>
  \<^verbatim>\<open>v2/shared/proto_utils.py\<close>, the descriptor-driven half: the configuration schema derived from a
  message descriptor, and the population of a message from a plain dictionary. Descriptors are a pool
  indexed by full name, so that messages may refer to each other in cycles; the accessors of the
  protobuf classes the code reads (\<^verbatim>\<open>fields\<close>, \<^verbatim>\<open>oneofs\<close>, \<^verbatim>\<open>enum_type\<close>, \<^verbatim>\<open>message_type\<close>) are the
  components of these records.
\<close>

section \<open>Descriptors\<close>

datatype ftype =
    TBool
  | TString
  | TBytes
  | TEnum "(string \<times> int) list"
  | TInt
  | TFloat
  | TMessage string

text \<open>A scalar field of a proto3 message has no presence: its default value is the same as not set.\<close>

record fdesc =
  f_name :: string
  f_type :: ftype
  f_repeated :: bool
  f_implicit :: bool

record mdesc =
  m_fields :: "fdesc list"
  m_oneofs :: "(string \<times> fdesc list) list"

type_synonym pool = "(string, mdesc) dict"

section \<open>The schema of a message\<close>

text \<open>An enumeration without values, which no descriptor has, would give a string field.\<close>

definition scalar_field :: "fdesc \<Rightarrow> node" where
  "scalar_field fd =
     (case f_type fd of
        TBool \<Rightarrow> field_bool (PBool False)
      | TString \<Rightarrow> field_string []
      | TBytes \<Rightarrow> field_string []
      | TEnum vs \<Rightarrow>
          (let choices = map fst vs; deflt = (if choices \<noteq> [] then hd choices else []) in
           case field_enum deflt choices of Inl x \<Rightarrow> field_string [] | Inr n \<Rightarrow> n)
      | TInt \<Rightarrow> field_int 0 PNone PNone
      | TFloat \<Rightarrow> field_float (Fin 0) PNone PNone
      | TMessage m \<Rightarrow> field_string [])"

text \<open>\<^verbatim>\<open>oneof_names[fname]\<close>: the group of a field, and \<^verbatim>\<open>oneofs_by_name[group]\<close>.\<close>

definition group_of :: "mdesc \<Rightarrow> string \<Rightarrow> (string \<times> fdesc list) option" where
  "group_of D fname = find (\<lambda>g. fname \<in> set (map f_name (snd g))) (m_oneofs D)"

text \<open>The messages of the pool that are not being visited: a recursion into a new one leaves fewer.\<close>

definition unvisited :: "pool \<Rightarrow> string set \<Rightarrow> nat" where
  "unvisited P visited = card (set (map fst P) - visited)"

lemma unvisited_less:
  assumes "map_of P name = Some D" "name \<notin> visited"
  shows "unvisited P (insert name visited) < unvisited P visited"
proof -
  have "name \<in> set (map fst P) - visited" using assms by (auto dest: map_of_SomeD intro: rev_image_eqI)
  moreover have "set (map fst P) - insert name visited = (set (map fst P) - visited) - {name}" by auto
  ultimately show ?thesis
    unfolding unvisited_def by (metis List.finite_set card_Diff1_less finite_Diff)
qed

text \<open>
  The recursion carries the names being visited. A name seen before, or unknown to the pool, gives no
  fields. \<open>fields_schema\<close> is the loop over the fields, with the groups already processed and the schema
  built so far; a field keeps the place of its first assignment, as in a Python dictionary.
\<close>

function (sequential) msg_schema :: "pool \<Rightarrow> string set \<Rightarrow> string \<Rightarrow> schema"
    and fields_schema :: "pool \<Rightarrow> string set \<Rightarrow> mdesc \<Rightarrow> fdesc list \<Rightarrow> string list \<Rightarrow> schema \<Rightarrow> schema" where
  "msg_schema P visited name =
     (if name \<in> visited then []
      else (case map_of P name of
              None \<Rightarrow> []
            | Some D \<Rightarrow> fields_schema P (insert name visited) D (m_fields D) [] []))"
| "fields_schema P visited D [] processed acc = acc"
| "fields_schema P visited D (fd # fds) processed acc =
     (case group_of D (f_name fd) of
        Some (grp, members) \<Rightarrow>
          (if grp \<in> set processed then fields_schema P visited D fds processed acc
           else (let branches = map (\<lambda>b. (f_name b,
                     case f_type b of TMessage m \<Rightarrow> NMessage (msg_schema P visited m) (PBool True) | _ \<Rightarrow> scalar_field b)) members
                 in fields_schema P visited D fds (grp # processed)
                      (dset grp (NOneof branches (PStr (f_name (hd members)))) acc)))
      | None \<Rightarrow>
          (let node =
             (if f_repeated fd then
                NList (case f_type fd of TMessage m \<Rightarrow> NMessage (msg_schema P visited m) (PBool False) | _ \<Rightarrow> scalar_field fd) (PList [])
              else (case f_type fd of TMessage m \<Rightarrow> NMessage (msg_schema P visited m) (PBool True) | _ \<Rightarrow> scalar_field fd))
           in fields_schema P visited D fds processed (dset (f_name fd) node acc)))"
  by pat_completeness auto

termination
  by (relation "measures
      [\<lambda>a. case a of Inl (P, visited, name) \<Rightarrow> unvisited P visited | Inr (P, visited, D, fds, processed, acc) \<Rightarrow> unvisited P visited,
       \<lambda>a. case a of Inl x \<Rightarrow> 0 | Inr (P, visited, D, fds, processed, acc) \<Rightarrow> Suc (length fds)]")
    (auto simp: unvisited_less)

declare msg_schema.simps [simp del]

definition schema_from_proto :: "pool \<Rightarrow> string \<Rightarrow> schema" where
  "schema_from_proto P name = msg_schema P {} name"

text \<open>What descriptors guarantee: a group has members.\<close>

definition pool_ok :: "pool \<Rightarrow> bool" where
  "pool_ok P = (\<forall>nd \<in> set P. \<forall>g \<in> set (m_oneofs (snd nd)). snd g \<noteq> [])"

lemma scalar_field_wf: "node_wf (scalar_field fd)"
  by (auto simp: scalar_field_def Let_def split: ftype.splits sum.splits)

lemma schema_wf_dset: "schema_wf acc \<Longrightarrow> node_wf n \<Longrightarrow> schema_wf (dset k n acc)"
  by (induction acc) (auto simp: schema_wf_def)

lemma group_of_mem: "group_of D f = Some g \<Longrightarrow> g \<in> set (m_oneofs D)"
  by (auto simp: group_of_def find_Some_iff)

text \<open>One field or branch, given that the messages it refers to have well-formed schemas.\<close>

definition member_node :: "pool \<Rightarrow> string set \<Rightarrow> bool \<Rightarrow> fdesc \<Rightarrow> node" where
  "member_node P visited optional fd =
     (case f_type fd of TMessage m \<Rightarrow> NMessage (msg_schema P visited m) (PBool optional) | _ \<Rightarrow> scalar_field fd)"

lemma member_node_wf: "(\<And>m. schema_wf (msg_schema P visited m)) \<Longrightarrow> node_wf (member_node P visited optional fd)"
  by (auto simp: member_node_def schema_wf_def scalar_field_wf split: ftype.splits)

lemma fields_schema_Cons:
  "fields_schema P visited D (fd # fds) processed acc =
     (case group_of D (f_name fd) of
        Some (grp, members) \<Rightarrow>
          (if grp \<in> set processed then fields_schema P visited D fds processed acc
           else fields_schema P visited D fds (grp # processed)
                  (dset grp (NOneof (map (\<lambda>b. (f_name b, member_node P visited True b)) members) (PStr (f_name (hd members)))) acc))
      | None \<Rightarrow> fields_schema P visited D fds processed
                  (dset (f_name fd) (if f_repeated fd then NList (member_node P visited False fd) (PList [])
                                     else member_node P visited True fd) acc))"
  by (simp add: member_node_def Let_def split: option.splits)

lemma fields_wf:
  assumes sub: "\<And>m. schema_wf (msg_schema P visited m)" and "\<forall>g \<in> set (m_oneofs D). snd g \<noteq> []"
  shows "schema_wf acc \<Longrightarrow> dwf acc \<Longrightarrow>
    schema_wf (fields_schema P visited D fds processed acc) \<and> dwf (fields_schema P visited D fds processed acc)"
proof (induction fds arbitrary: processed acc)
  case (Cons fd fds)
  show ?case
  proof (cases "group_of D (f_name fd)")
    case None
    have "node_wf (if f_repeated fd then NList (member_node P visited False fd) (PList []) else member_node P visited True fd)"
      using member_node_wf [OF sub] by simp
    then show ?thesis using Cons None by (simp add: fields_schema_Cons schema_wf_dset del: fields_schema.simps)
  next
    case (Some g)
    obtain grp members where g: "g = (grp, members)" by (cases g)
    have "members \<noteq> []" using group_of_mem [OF Some] assms(2) g by auto
    then have "node_wf (NOneof (map (\<lambda>b. (f_name b, member_node P visited True b)) members) (PStr (f_name (hd members))))"
      using member_node_wf [OF sub] by (auto simp: dkeys_def comp_def)
    then show ?thesis
      using Cons Some g by (simp add: fields_schema_Cons schema_wf_dset del: fields_schema.simps)
  qed
qed simp

lemma msg_schema_wf:
  assumes "pool_ok P"
  shows "schema_wf (msg_schema P visited name) \<and> dwf (msg_schema P visited name)"
proof (induction "unvisited P visited" arbitrary: visited name rule: less_induct)
  case less
  show ?case
  proof (cases "name \<in> visited \<or> map_of P name = None")
    case True
    then show ?thesis by (auto simp: msg_schema.simps schema_wf_def split: option.split)
  next
    case False
    then obtain D where D: "map_of P name = Some D" "name \<notin> visited" by auto
    have g: "\<forall>g \<in> set (m_oneofs D). snd g \<noteq> []"
      using assms D(1) by (fastforce simp: pool_ok_def dest: map_of_SomeD)
    have sub: "schema_wf (msg_schema P (insert name visited) m)" for m
      using less [OF unvisited_less [OF D]] by blast
    have "schema_wf []" by (simp add: schema_wf_def)
    from fields_wf [OF sub g this] D show ?thesis by (simp add: msg_schema.simps)
  qed
qed

text \<open>C33 The schema derived from a message descriptor is always usable: for any pool of descriptors, also
  when messages contain each other in cycles, the derivation ends, every oneof has an active branch
  among its branches, keys are distinct, and the schema survives the trip over the bus.\<close>

theorem proto_schema_usable:
  assumes "pool_ok P"
  shows "schema_wf (schema_from_proto P name) \<and> dwf (schema_from_proto P name) \<and>
    (\<exists>d. schema_to_dict (schema_from_proto P name) = Inr d \<and> schema_from_dict d = Inr (schema_from_proto P name))"
proof -
  have "schema_wf (schema_from_proto P name)" "dwf (schema_from_proto P name)"
    using msg_schema_wf [OF assms] by (simp_all add: schema_from_proto_def)
  moreover have "\<forall>kn \<in> set (schema_from_proto P name). \<exists>d. node_to_dict (snd kn) = Inr d \<and> node_from_dict d = Inr (snd kn)"
    using calculation(1) node_roundtrip by (fastforce simp: schema_wf_def)
  from members_roundtrip [OF this] have
    "\<exists>d. schema_to_dict (schema_from_proto P name) = Inr d \<and> schema_from_dict d = Inr (schema_from_proto P name)"
    by (simp add: schema_to_dict_def schema_from_dict_def)
  ultimately show ?thesis by blast
qed

text \<open>Two messages that contain each other, as \<^verbatim>\<open>CarControl\<close> and \<^verbatim>\<open>CarControlGroup\<close> do.\<close>

definition cyclic_pool :: pool where
  "cyclic_pool =
     (let grp = \<lparr>f_name = ''group'', f_type = TMessage ''Group'', f_repeated = False, f_implicit = False\<rparr>;
          on = \<lparr>f_name = ''on'', f_type = TBool, f_repeated = False, f_implicit = True\<rparr>
      in [(''Control'', \<lparr>m_fields = [grp, on], m_oneofs = [(''control'', [grp])]\<rparr>),
          (''Group'', \<lparr>m_fields = [\<lparr>f_name = ''controls'', f_type = TMessage ''Control'', f_repeated = True, f_implicit = False\<rparr>],
                      m_oneofs = []\<rparr>)])"

lemma proto_schema_usable_witness:
  "schema_wf (schema_from_proto cyclic_pool ''Control'') \<and> dwf (schema_from_proto cyclic_pool ''Control'') \<and>
    (\<exists>d. schema_to_dict (schema_from_proto cyclic_pool ''Control'') = Inr d \<and>
         schema_from_dict d = Inr (schema_from_proto cyclic_pool ''Control''))"
  by (rule proto_schema_usable) (simp add: pool_ok_def cyclic_pool_def Let_def)

section \<open>Populating a message\<close>

text \<open>A message object: the fields that are set, in the order of the descriptor.\<close>

datatype pmsg = PMsg "(string \<times> pfield) list"
and pfield = FVal pyval | FMsg pmsg | FVals "pyval list" | FMsgs "pmsg list"

fun set_fields :: "pmsg \<Rightarrow> (string \<times> pfield) list" where
  "set_fields (PMsg fs) = fs"

definition p_look :: "pmsg \<Rightarrow> string \<Rightarrow> pfield option" where
  "p_look m k = map_of (set_fields m) k"

text \<open>Assigning a field clears the other members of its group.\<close>

definition p_clear :: "mdesc \<Rightarrow> string \<Rightarrow> pmsg \<Rightarrow> pmsg" where
  "p_clear D k m =
     (case group_of D k of
        None \<Rightarrow> m
      | Some g \<Rightarrow> PMsg (filter (\<lambda>kv. fst kv = k \<or> fst kv \<notin> set (map f_name (snd g))) (set_fields m)))"

definition p_put :: "mdesc \<Rightarrow> string \<Rightarrow> pfield option \<Rightarrow> pmsg \<Rightarrow> pmsg" where
  "p_put D k v m =
     (let old = set_fields (p_clear D k m) in
      PMsg (concat (map (\<lambda>fd. case (if f_name fd = k then v else map_of old (f_name fd)) of
                                  None \<Rightarrow> [] | Some w \<Rightarrow> [(f_name fd, w)]) (m_fields D))))"

definition p_sub :: "pmsg \<Rightarrow> string \<Rightarrow> pmsg" where
  "p_sub m k = (case p_look m k of Some (FMsg s) \<Rightarrow> s | _ \<Rightarrow> PMsg [])"

definition p_msgs :: "pmsg \<Rightarrow> string \<Rightarrow> pmsg list" where
  "p_msgs m k = (case p_look m k of Some (FMsgs l) \<Rightarrow> l | _ \<Rightarrow> [])"

definition p_vals :: "pmsg \<Rightarrow> string \<Rightarrow> pyval list" where
  "p_vals m k = (case p_look m k of Some (FVals l) \<Rightarrow> l | _ \<Rightarrow> [])"

definition p_has :: "pmsg \<Rightarrow> string \<Rightarrow> bool" where
  "p_has m k = (case p_look m k of Some (FMsg s) \<Rightarrow> True | _ \<Rightarrow> False)"

text \<open>The default of a scalar field, which \<^verbatim>\<open>getattr\<close> gives when it is not set.\<close>

fun scalar_default :: "ftype \<Rightarrow> pyval" where
  "scalar_default TBool = PBool False"
| "scalar_default TString = PStr []"
| "scalar_default TBytes = PStr []"
| "scalar_default (TEnum vs) = PInt 0"
| "scalar_default TInt = PInt 0"
| "scalar_default TFloat = PFloat (Fin 0)"
| "scalar_default (TMessage m) = PNone"

text \<open>The runtime's check of an assigned scalar, a parameter: the exception for a value it refuses.\<close>

type_synonym pb_check = "ftype \<Rightarrow> pyval \<Rightarrow> exn option"

definition upper_char :: "char \<Rightarrow> char" where
  "upper_char c = (let k = (of_char c :: nat) in if 97 \<le> k \<and> k \<le> 122 then char_of (k - 32) else c)"

definition coerce_scalar :: "py_text \<Rightarrow> ftype \<Rightarrow> pyval \<Rightarrow> pyval res" where
  "coerce_scalar T t v =
     (case t of
        TEnum vs \<Rightarrow>
          (case v of
             PStr s \<Rightarrow>
               (case map_of vs s of
                  Some n \<Rightarrow> Inr (PInt n)
                | None \<Rightarrow>
                    (case find (\<lambda>nv. map upper_char (fst nv) = map upper_char s) vs of
                       Some nv \<Rightarrow> Inr (PInt (snd nv))
                     | None \<Rightarrow> rbind (py_int v) (\<lambda>i. Inr (PInt i))))
           | _ \<Rightarrow> rbind (py_int v) (\<lambda>i. Inr (PInt i)))
      | TBool \<Rightarrow>
          (case v of
             PStr s \<Rightarrow> Inr (PBool (map lower_char s \<in> {''true'', ''1'', ''yes'', ''on''}))
           | _ \<Rightarrow> Inr (PBool (truthy v)))
      | TInt \<Rightarrow> rbind (py_int v) (\<lambda>i. Inr (PInt i))
      | TFloat \<Rightarrow> rbind (py_float T v) (\<lambda>x. Inr (PFloat x))
      | _ \<Rightarrow> Inr (PStr (py_str T v)))"

definition checked :: "py_text \<Rightarrow> pb_check \<Rightarrow> ftype \<Rightarrow> pyval \<Rightarrow> pyval res" where
  "checked T A t v = rbind (coerce_scalar T t v) (\<lambda>w. case A t w of None \<Rightarrow> Inr w | Some x \<Rightarrow> Inl x)"

definition msg_desc :: "pool \<Rightarrow> string \<Rightarrow> mdesc" where
  "msg_desc P name = dget_or P name \<lparr>m_fields = [], m_oneofs = []\<rparr>"

text \<open>
  \<^verbatim>\<open>dict_to_proto\<close>: whether anything was assigned, and the message. Assigning inside a sub-message makes
  it present; a dictionary of which nothing is assigned leaves it absent. Only the assignment of a
  single scalar is guarded by \<^verbatim>\<open>try\<close>.
\<close>

lemma item_size: "PDict d \<in> set l \<Longrightarrow> size_list (size_prod (\<lambda>_. 0) size) d < size_list size l"
  by (induction l) auto

function (sequential) dict_to_proto :: "pool \<Rightarrow> py_text \<Rightarrow> pb_check \<Rightarrow> mdesc \<Rightarrow> payload \<Rightarrow> bool \<times> pmsg \<Rightarrow> (bool \<times> pmsg) res" where
  "dict_to_proto P T A D [] tm = Inr tm"
| "dict_to_proto P T A D ((k, v) # kvs) tm =
     (case find (\<lambda>fd. f_name fd = k) (m_fields D) of
        None \<Rightarrow> dict_to_proto P T A D kvs tm
      | Some fd \<Rightarrow>
          rbind
            (if f_repeated fd then
               (let items = (case v of PList l \<Rightarrow> l | _ \<Rightarrow> []) in
                if items = [] then Inr tm
                else (case f_type fd of
                   TMessage n \<Rightarrow>
                     rbind (map_res (\<lambda>item. case item of
                                PDict d \<Rightarrow> rbind (dict_to_proto P T A (msg_desc P n) d (False, PMsg [])) (\<lambda>r. Inr (snd r))
                              | _ \<Rightarrow> Inr (PMsg [])) items)
                       (\<lambda>es. Inr (True, p_put D k (Some (FMsgs (p_msgs (snd tm) k @ es))) (snd tm)))
                 | t \<Rightarrow>
                     rbind (map_res (checked T A t) items)
                       (\<lambda>ws. Inr (True, p_put D k (Some (FVals (p_vals (snd tm) k @ ws))) (snd tm)))))
             else
               (case f_type fd of
                  TMessage n \<Rightarrow>
                    (case v of
                       PDict d \<Rightarrow>
                         rbind (dict_to_proto P T A (msg_desc P n) d (False, p_sub (snd tm) k))
                           (\<lambda>r. if fst r then Inr (True, p_put D k (Some (FMsg (snd r))) (snd tm)) else Inr tm)
                     | _ \<Rightarrow> Inr tm)
                | t \<Rightarrow>
                    (case checked T A t v of
                       Inl x \<Rightarrow> (if x \<in> {AttributeError, ValueError, TypeError} then Inr tm else Inl x)
                     | Inr w \<Rightarrow>
                         Inr (True, p_put D k (if f_implicit fd \<and> w = scalar_default t then None else Some (FVal w)) (snd tm)))))
            (dict_to_proto P T A D kvs))"
  by pat_completeness auto
termination
  by (relation "measure (\<lambda>(P, T, A, D, kvs, tm). size_list (size_prod (\<lambda>_. 0) size) kvs)")
    (auto split: pyval.splits dest: item_size)

end
