(* ===== verification/SdrDescriptors.thy ===== *)
theory SdrDescriptors
  imports ProtoSchema
begin

text \<open>
  The descriptors reachable from the message \<^verbatim>\<open>ServiceDiscoveryResponse\<close>, read off the serialised
  descriptors in the generated files \<^verbatim>\<open>v2/protos/oaa/**/*_pb2.py\<close>: data, not translated code. Short
  message and enumeration names stand for the full ones, which is unambiguous here.
\<close>

definition single :: "string \<Rightarrow> ftype \<Rightarrow> fdesc" where
  "single n t = \<lparr>f_name = n, f_type = t, f_repeated = False, f_implicit = False\<rparr>"

definition implicit :: "string \<Rightarrow> ftype \<Rightarrow> fdesc" where
  "implicit n t = \<lparr>f_name = n, f_type = t, f_repeated = False, f_implicit = True\<rparr>"

definition many :: "string \<Rightarrow> ftype \<Rightarrow> fdesc" where
  "many n t = \<lparr>f_name = n, f_type = t, f_repeated = True, f_implicit = False\<rparr>"

definition enum_DriverPosition :: "(string \<times> int) list" where
  "enum_DriverPosition =
     [(''LEFT'', 0), (''RIGHT'', 1), (''CENTER'', 2), (''UNKNOWN'', 3)]"

definition enum_FuelType :: "(string \<times> int) list" where
  "enum_FuelType =
     [(''UNKNOWN'', 0), (''UNLEADED'', 1), (''LEADED'', 2), (''DIESEL_1'', 3), (''DIESEL_2'', 4),
      (''BIODIESEL'', 5), (''E85'', 6), (''LPG'', 7), (''CNG'', 8), (''LNG'', 9), (''ELECTRIC'', 10),
      (''HYDROGEN'', 11), (''OTHER'', 12)]"

definition enum_EVConnectorType :: "(string \<times> int) list" where
  "enum_EVConnectorType =
     [(''UNKNOWN'', 0), (''J1772'', 1), (''MENNEKES'', 2), (''CHADEMO'', 3), (''COMBO_1'', 4), (''COMBO_2'', 5),
      (''TESLA_ROADSTER'', 6), (''TESLA_HPWC'', 7), (''TESLA_SUPERCHARGER'', 8), (''GBT'', 9), (''GBT_DC'', 10),
      (''LECCS'', 11), (''NACS'', 14)]"

definition enum_MediaCodecType :: "(string \<times> int) list" where
  "enum_MediaCodecType =
     [(''MEDIA_CODEC_UNKNOWN'', 0), (''MEDIA_CODEC_AUDIO_PCM'', 1), (''MEDIA_CODEC_AUDIO_AAC_LC'', 2),
      (''MEDIA_CODEC_VIDEO_H264_BP'', 3), (''MEDIA_CODEC_AUDIO_AAC_LC_ADTS'', 4),
      (''MEDIA_CODEC_VIDEO_VP9'', 5), (''MEDIA_CODEC_VIDEO_AV1'', 6), (''MEDIA_CODEC_VIDEO_H265'', 7)]"

definition enum_AudioType :: "(string \<times> int) list" where
  "enum_AudioType =
     [(''NONE'', 0), (''SPEECH'', 1), (''SYSTEM'', 2), (''MEDIA'', 3), (''ALARM'', 4)]"

definition enum_DisplayType :: "(string \<times> int) list" where
  "enum_DisplayType =
     [(''MAIN'', 0), (''CLUSTER'', 1), (''AUXILIARY'', 2)]"

definition enum_AndroidKeycode :: "(string \<times> int) list" where
  "enum_AndroidKeycode =
     [(''KEYCODE_UNKNOWN'', 0), (''KEYCODE_HOME'', 3), (''KEYCODE_BACK'', 4), (''KEYCODE_CALL'', 5),
      (''KEYCODE_ENDCALL'', 6), (''KEYCODE_DPAD_UP'', 19), (''KEYCODE_DPAD_DOWN'', 20),
      (''KEYCODE_DPAD_LEFT'', 21), (''KEYCODE_DPAD_RIGHT'', 22), (''KEYCODE_DPAD_CENTER'', 23),
      (''KEYCODE_VOLUME_UP'', 24), (''KEYCODE_VOLUME_DOWN'', 25), (''KEYCODE_POWER'', 26),
      (''KEYCODE_ENTER'', 66), (''KEYCODE_HEADSETHOOK'', 79), (''KEYCODE_MENU'', 82), (''KEYCODE_SEARCH'', 84),
      (''KEYCODE_MEDIA_PLAY_PAUSE'', 85), (''KEYCODE_MEDIA_STOP'', 86), (''KEYCODE_MEDIA_NEXT'', 87),
      (''KEYCODE_MEDIA_PREVIOUS'', 88), (''KEYCODE_MEDIA_REWIND'', 89), (''KEYCODE_MEDIA_FAST_FORWARD'', 90),
      (''KEYCODE_MUTE'', 91), (''KEYCODE_ESCAPE'', 111), (''KEYCODE_MEDIA_PLAY'', 126),
      (''KEYCODE_MEDIA_PAUSE'', 127), (''KEYCODE_VOLUME_MUTE'', 164), (''KEYCODE_ASSIST'', 219),
      (''KEYCODE_VOICE_ASSIST'', 231), (''KEYCODE_NAVIGATE_PREVIOUS'', 260), (''KEYCODE_NAVIGATE_NEXT'', 261),
      (''KEYCODE_NAVIGATE_IN'', 262), (''KEYCODE_NAVIGATE_OUT'', 263), (''KEYCODE_SENTINEL'', 65535),
      (''KEYCODE_ROTARY_CONTROLLER'', 65536), (''KEYCODE_MEDIA'', 65537), (''KEYCODE_TERTIARY_BUTTON'', 65543),
      (''KEYCODE_TURN_CARD'', 65544)]"

definition enum_ColorSchemeSupport :: "(string \<times> int) list" where
  "enum_ColorSchemeSupport =
     [(''COLOR_SCHEME_BASIC'', 0), (''COLOR_SCHEME_MATERIAL_YOU_V2'', 2), (''COLOR_SCHEME_MATERIAL_YOU_V3'', 3)]"

definition enum_HapticFeedbackType :: "(string \<times> int) list" where
  "enum_HapticFeedbackType =
     [(''FEEDBACK_SELECT'', 1), (''FEEDBACK_FOCUS_CHANGE'', 2), (''FEEDBACK_DRAG_SELECT'', 3),
      (''FEEDBACK_DRAG_START'', 4), (''FEEDBACK_DRAG_END'', 5)]"

definition enum_AVStreamType :: "(string \<times> int) list" where
  "enum_AVStreamType =
     [(''NONE'', 0), (''AUDIO'', 1), (''VIDEO'', 3)]"

definition enum_BluetoothPairingMethod :: "(string \<times> int) list" where
  "enum_BluetoothPairingMethod =
     [(''NONE'', 0), (''OOB'', 1), (''NUMERIC_COMPARISON'', 2), (''PASSKEY_ENTRY'', 3), (''PIN'', 4)]"

definition enum_SensorType :: "(string \<times> int) list" where
  "enum_SensorType =
     [(''NONE'', 0), (''LOCATION'', 1), (''COMPASS'', 2), (''CAR_SPEED'', 3), (''RPM'', 4), (''ODOMETER'', 5),
      (''FUEL_LEVEL'', 6), (''PARKING_BRAKE'', 7), (''GEAR'', 8), (''DIAGNOSTICS'', 9), (''NIGHT_DATA'', 10),
      (''ENVIRONMENT'', 11), (''HVAC'', 12), (''DRIVING_STATUS'', 13), (''DEAD_RECONING'', 14),
      (''PASSENGER'', 15), (''DOOR'', 16), (''LIGHT'', 17), (''TIRE'', 18), (''ACCEL'', 19), (''GYRO'', 20),
      (''GPS'', 21), (''TOLL_CARD'', 22), (''VEHICLE_ENERGY_MODEL'', 23), (''TRAILER'', 24),
      (''RAW_VEHICLE_ENERGY_MODEL'', 25), (''RAW_EV_TRIP_SETTINGS'', 26)]"

definition enum_VideoResolution :: "(string \<times> int) list" where
  "enum_VideoResolution =
     [(''NONE'', 0), (''VIDEO_800x480'', 1), (''VIDEO_1280x720'', 2), (''VIDEO_1920x1080'', 3),
      (''VIDEO_2560x1440'', 4), (''VIDEO_3840x2160'', 5), (''VIDEO_720x1280'', 6), (''VIDEO_1080x1920'', 7),
      (''VIDEO_1440x2560'', 8), (''VIDEO_2160x3840'', 9)]"

definition enum_VideoFPS :: "(string \<times> int) list" where
  "enum_VideoFPS =
     [(''NONE'', 0), (''_60'', 1), (''_30'', 2)]"

definition enum_CarPropertyId :: "(string \<times> int) list" where
  "enum_CarPropertyId =
     [(''CAR_PROPERTY_UNKNOWN'', 0), (''HMG_CAR_ALERTS_COUNT'', 34908672),
      (''HVAC_TEMPERATURE_DISPLAY_UNITS'', 289408270), (''HVAC_STEERING_WHEEL_HEAT'', 289408269),
      (''ELECTRONIC_TOLL_COLLECTION_CARD_STATUS'', 289410874), (''HVAC_DEFROSTER'', 320865540),
      (''HVAC_SIDE_MIRROR_HEAT'', 339739916), (''HVAC_AC_ON'', 354419973), (''HVAC_MAX_AC_ON'', 354419974),
      (''HVAC_MAX_DEFROST_ON'', 354419975), (''HVAC_RECIRC_ON'', 354419976), (''HVAC_DUAL_ON'', 354419977),
      (''HVAC_AUTO_ON'', 354419978), (''HVAC_POWER_ON'', 354419984), (''HVAC_AUTO_RECIRC_ON'', 354419986),
      (''HVAC_FAN_SPEED'', 356517120), (''HVAC_FAN_DIRECTION'', 356517121),
      (''HVAC_SEAT_TEMPERATURE'', 356517131), (''HVAC_SEAT_VENTILATION'', 356517139),
      (''HVAC_FAN_DIRECTION_AVAILABLE'', 356582673), (''HVAC_TEMPERATURE_SET'', 358614275),
      (''DOOR_LOCK'', 371198722), (''HMG_HVAC_TEMPERATURE_RANGE'', 557940737),
      (''HMG_HVAC_MTC_TEMPERATURE'', 624984185), (''HMG_HVAC_TEMPERATURE_SET_FAHRENHEIT'', 627081339),
      (''HMG_HVAC_TEMPERATURE_SET_CELSIUS'', 627081341)]"

definition enum_CarPropertyAccessMode :: "(string \<times> int) list" where
  "enum_CarPropertyAccessMode =
     [(''CAR_PROPERTY_ACCESS_NONE'', 0), (''CAR_PROPERTY_ACCESS_READ'', 1), (''CAR_PROPERTY_ACCESS_WRITE'', 2),
      (''CAR_PROPERTY_ACCESS_READ_WRITE'', 3)]"

definition enum_CarPropertyChangeMode :: "(string \<times> int) list" where
  "enum_CarPropertyChangeMode =
     [(''CAR_PROPERTY_CHANGE_STATIC'', 0), (''CAR_PROPERTY_CHANGE_ON_CHANGE'', 1),
      (''CAR_PROPERTY_CHANGE_CONTINUOUS'', 2)]"

definition enum_CarPropertyType :: "(string \<times> int) list" where
  "enum_CarPropertyType =
     [(''CAR_PROPERTY_TYPE_UNKNOWN'', 0), (''CAR_PROPERTY_TYPE_BOOLEAN'', 1), (''CAR_PROPERTY_TYPE_INT32'', 2),
      (''CAR_PROPERTY_TYPE_INT64'', 3), (''CAR_PROPERTY_TYPE_FLOAT'', 4), (''CAR_PROPERTY_TYPE_STRING'', 5),
      (''CAR_PROPERTY_TYPE_BYTES'', 6), (''CAR_PROPERTY_TYPE_INT32_VEC'', 7),
      (''CAR_PROPERTY_TYPE_INT64_VEC'', 8), (''CAR_PROPERTY_TYPE_FLOAT_VEC'', 9),
      (''CAR_PROPERTY_TYPE_MIXED'', 10)]"

definition enum_CarControlMetadataType :: "(string \<times> int) list" where
  "enum_CarControlMetadataType =
     [(''METADATA_UNKNOWN'', 0), (''METADATA_COMPACT_UI'', 1), (''METADATA_PREFER_STATUS_BAR'', 2)]"

definition enum_SideAffinity :: "(string \<times> int) list" where
  "enum_SideAffinity =
     [(''SIDE_NONE'', 0), (''SIDE_DRIVER'', 1), (''SIDE_PASSENGER'', 2)]"

definition enum_UITheme :: "(string \<times> int) list" where
  "enum_UITheme =
     [(''UI_THEME_AUTOMATIC'', 0), (''UI_THEME_LIGHT'', 1), (''UI_THEME_DARK'', 2)]"

definition enum_UIElement :: "(string \<times> int) list" where
  "enum_UIElement =
     [(''UI_ELEMENT_UNKNOWN'', 0), (''UI_ELEMENT_CLOCK'', 1), (''UI_ELEMENT_BATTERY_LEVEL'', 2),
      (''UI_ELEMENT_PHONE_SIGNAL'', 3), (''UI_ELEMENT_NATIVE_UI_AFFORDANCE'', 4),
      (''UI_ELEMENT_NAVIGATION_TURN_DATA_AVAILABLE'', 5)]"

definition enum_RadioBandType :: "(string \<times> int) list" where
  "enum_RadioBandType =
     [(''BAND_TYPE_UNKNOWN'', 0), (''BAND_TYPE_AM'', 1), (''BAND_TYPE_FM'', 2), (''BAND_TYPE_DAB'', 3)]"

definition enum_CarAreaType :: "(string \<times> int) list" where
  "enum_CarAreaType =
     [(''CAR_AREA_GLOBAL'', 0), (''CAR_AREA_WINDOW'', 2), (''CAR_AREA_SEAT'', 3), (''CAR_AREA_MIRROR'', 4),
      (''CAR_AREA_WHEEL'', 5), (''CAR_AREA_DOOR'', 6)]"

definition enum_VehicleAreaWindow :: "(string \<times> int) list" where
  "enum_VehicleAreaWindow =
     [(''VEHICLE_AREA_WINDOW_UNKNOWN'', 0), (''VEHICLE_AREA_WINDOW_FRONT_WINDSHIELD'', 1),
      (''VEHICLE_AREA_WINDOW_REAR_WINDSHIELD'', 2), (''VEHICLE_AREA_WINDOW_ROW_1_LEFT'', 16),
      (''VEHICLE_AREA_WINDOW_ROW_1_RIGHT'', 64), (''VEHICLE_AREA_WINDOW_ROW_2_LEFT'', 256),
      (''VEHICLE_AREA_WINDOW_ROW_2_RIGHT'', 1024), (''VEHICLE_AREA_WINDOW_ROW_3_LEFT'', 4096),
      (''VEHICLE_AREA_WINDOW_ROW_3_RIGHT'', 16384), (''VEHICLE_AREA_WINDOW_ROOF_TOP_1'', 65536),
      (''VEHICLE_AREA_WINDOW_ROOF_TOP_2'', 131072)]"

definition enum_VehicleAreaSeat :: "(string \<times> int) list" where
  "enum_VehicleAreaSeat =
     [(''VEHICLE_AREA_SEAT_UNKNOWN'', 0), (''VEHICLE_AREA_SEAT_ROW_1_LEFT'', 1),
      (''VEHICLE_AREA_SEAT_ROW_1_CENTER'', 2), (''VEHICLE_AREA_SEAT_ROW_1_RIGHT'', 4),
      (''VEHICLE_AREA_SEAT_ROW_2_LEFT'', 16), (''VEHICLE_AREA_SEAT_ROW_2_CENTER'', 32),
      (''VEHICLE_AREA_SEAT_ROW_2_RIGHT'', 64), (''VEHICLE_AREA_SEAT_ROW_3_LEFT'', 256),
      (''VEHICLE_AREA_SEAT_ROW_3_RIGHT'', 1024)]"

definition enum_VehicleAreaMirror :: "(string \<times> int) list" where
  "enum_VehicleAreaMirror =
     [(''VEHICLE_AREA_MIRROR_UNKNOWN'', 0), (''VEHICLE_AREA_MIRROR_DRIVER_LEFT'', 1),
      (''VEHICLE_AREA_MIRROR_DRIVER_RIGHT'', 2), (''VEHICLE_AREA_MIRROR_DRIVER_CENTER'', 4)]"

definition enum_VehicleAreaDoor :: "(string \<times> int) list" where
  "enum_VehicleAreaDoor =
     [(''VEHICLE_AREA_DOOR_UNKNOWN'', 0), (''VEHICLE_AREA_DOOR_ROW_1_LEFT'', 1),
      (''VEHICLE_AREA_DOOR_ROW_1_RIGHT'', 4), (''VEHICLE_AREA_DOOR_ROW_2_LEFT'', 16),
      (''VEHICLE_AREA_DOOR_ROW_2_RIGHT'', 64), (''VEHICLE_AREA_DOOR_ROW_3_LEFT'', 256),
      (''VEHICLE_AREA_DOOR_ROW_3_RIGHT'', 1024), (''VEHICLE_AREA_DOOR_HOOD'', 268435456),
      (''VEHICLE_AREA_DOOR_REAR'', 536870912)]"

definition enum_VehicleAreaWheel :: "(string \<times> int) list" where
  "enum_VehicleAreaWheel =
     [(''VEHICLE_AREA_WHEEL_UNKNOWN'', 0), (''VEHICLE_AREA_WHEEL_LEFT_FRONT'', 1),
      (''VEHICLE_AREA_WHEEL_RIGHT_FRONT'', 2), (''VEHICLE_AREA_WHEEL_LEFT_REAR'', 4),
      (''VEHICLE_AREA_WHEEL_RIGHT_REAR'', 8)]"

definition enum_CarControlGroupType :: "(string \<times> int) list" where
  "enum_CarControlGroupType =
     [(''CAR_CONTROL_GROUP_UNKNOWN'', 0), (''CAR_CONTROL_GROUP_PRIMARY'', 1)]"

definition enum_CarActionId :: "(string \<times> int) list" where
  "enum_CarActionId =
     [(''CAR_ACTION_UNKNOWN'', 0), (''CAR_ACTION_LAUNCH_HVAC'', 3), (''CAR_ACTION_LAUNCH_CAR_MEDIA'', 4),
      (''CAR_ACTION_LAUNCH_CONTROL_CENTER'', 5), (''CAR_ACTION_LAUNCH_CAR_ALERTS'', 6)]"

definition enum_ResizeActionType :: "(string \<times> int) list" where
  "enum_ResizeActionType =
     [(''ACTION_UNKNOWN'', 0), (''ACTION_RESIZE_TO_SMALLER'', 1), (''ACTION_RESIZE_TO_LARGER'', 2)]"

definition msg_ServiceDiscoveryResponse :: mdesc where
  "msg_ServiceDiscoveryResponse = \<lparr>m_fields =
       [many ''channels'' (TMessage ''ChannelDescriptor''),
        single ''head_unit_name'' TString,
        single ''car_model'' TString,
        single ''car_year'' TString,
        single ''car_serial'' TString,
        single ''driver_position'' (TEnum enum_DriverPosition),
        single ''headunit_manufacturer'' TString,
        single ''headunit_model'' TString,
        single ''sw_build'' TString,
        single ''sw_version'' TString,
        single ''can_play_native_media_during_vr'' TBool,
        single ''session_configuration'' TInt,
        single ''display_name'' TString,
        single ''probe_for_support'' TBool,
        single ''headunit_info'' (TMessage ''HeadUnitInfo'')],
     m_oneofs = []\<rparr>"

definition msg_ChannelDescriptor :: mdesc where
  "msg_ChannelDescriptor = \<lparr>m_fields =
       [single ''channel_id'' TInt,
        single ''sensor_channel'' (TMessage ''SensorChannel''),
        single ''av_channel'' (TMessage ''AVChannel''),
        single ''input_channel'' (TMessage ''InputChannelConfig''),
        single ''av_input_channel'' (TMessage ''AVInputChannel''),
        single ''bluetooth_channel'' (TMessage ''BluetoothChannel''),
        single ''radio_channel'' (TMessage ''RadioChannelConfig''),
        single ''navigation_channel'' (TMessage ''NavigationChannel''),
        single ''media_info_channel'' (TMessage ''MediaInfoChannel''),
        single ''phone_status_channel'' (TMessage ''PhoneStatusChannel''),
        single ''media_browser_channel'' (TMessage ''MediaBrowserChannel''),
        single ''vendor_extension_channel'' (TMessage ''VendorExtensionChannel''),
        single ''notification_channel'' (TMessage ''NotificationChannel''),
        single ''wifi_channel'' (TMessage ''WifiChannel''),
        single ''car_control_channel'' (TMessage ''CarControlChannel''),
        single ''generic_notification_channel'' (TMessage ''GenericNotificationChannel''),
        single ''voice_channel'' (TMessage ''VoiceChannel'')],
     m_oneofs = []\<rparr>"

definition msg_HeadUnitInfo :: mdesc where
  "msg_HeadUnitInfo = \<lparr>m_fields =
       [single ''make'' TString,
        single ''model'' TString,
        single ''year'' TString,
        single ''vehicle_id'' TString,
        single ''head_unit_make'' TString,
        single ''head_unit_model'' TString,
        single ''head_unit_software_build'' TString,
        single ''head_unit_software_version'' TString,
        single ''vehicle_type'' TInt],
     m_oneofs = []\<rparr>"

definition msg_SensorChannel :: mdesc where
  "msg_SensorChannel = \<lparr>m_fields =
       [many ''sensors'' (TMessage ''Sensor''),
        single ''location_characterization'' TInt,
        many ''fuel_types'' (TEnum enum_FuelType),
        many ''ev_connectors'' (TEnum enum_EVConnectorType)],
     m_oneofs = []\<rparr>"

definition msg_AVChannel :: mdesc where
  "msg_AVChannel = \<lparr>m_fields =
       [single ''codec'' (TEnum enum_MediaCodecType),
        single ''audio_type'' (TEnum enum_AudioType),
        many ''audio_configs'' (TMessage ''AudioConfig''),
        many ''video_configs'' (TMessage ''VideoConfig''),
        single ''channel_id'' TInt,
        single ''display_type'' (TEnum enum_DisplayType),
        single ''keycode'' (TEnum enum_AndroidKeycode),
        single ''color_scheme_support'' (TEnum enum_ColorSchemeSupport)],
     m_oneofs = []\<rparr>"

definition msg_InputChannelConfig :: mdesc where
  "msg_InputChannelConfig = \<lparr>m_fields =
       [many ''supported_keycodes'' TInt,
        many ''touch_screen_configs'' (TMessage ''TouchScreenConfig''),
        many ''touchpad_configs'' (TMessage ''TouchPadConfig''),
        many ''supported_haptic_types'' (TEnum enum_HapticFeedbackType),
        single ''display_id'' TInt],
     m_oneofs = []\<rparr>"

definition msg_AVInputChannel :: mdesc where
  "msg_AVInputChannel = \<lparr>m_fields =
       [single ''stream_type'' (TEnum enum_AVStreamType),
        single ''audio_config'' (TMessage ''AudioConfig'')],
     m_oneofs = []\<rparr>"

definition msg_BluetoothChannel :: mdesc where
  "msg_BluetoothChannel = \<lparr>m_fields =
       [single ''adapter_address'' TString,
        many ''supported_pairing_methods'' (TEnum enum_BluetoothPairingMethod)],
     m_oneofs = []\<rparr>"

definition msg_RadioChannelConfig :: mdesc where
  "msg_RadioChannelConfig = \<lparr>m_fields =
       [single ''config_id'' TInt,
        single ''bands'' (TMessage ''RadioBands'')],
     m_oneofs = []\<rparr>"

definition msg_NavigationChannel :: mdesc where
  "msg_NavigationChannel = \<lparr>m_fields =
       [single ''minimum_interval_ms'' TInt,
        single ''type'' TInt,
        single ''image_options'' (TMessage ''NavigationImageOptions'')],
     m_oneofs = []\<rparr>"

definition msg_MediaInfoChannel :: mdesc where
  "msg_MediaInfoChannel = \<lparr>m_fields =
       [],
     m_oneofs = []\<rparr>"

definition msg_PhoneStatusChannel :: mdesc where
  "msg_PhoneStatusChannel = \<lparr>m_fields =
       [],
     m_oneofs = []\<rparr>"

definition msg_MediaBrowserChannel :: mdesc where
  "msg_MediaBrowserChannel = \<lparr>m_fields =
       [],
     m_oneofs = []\<rparr>"

definition msg_VendorExtensionChannel :: mdesc where
  "msg_VendorExtensionChannel = \<lparr>m_fields =
       [single ''name'' TString,
        many ''package_white_list'' TString,
        single ''data'' TBytes],
     m_oneofs = []\<rparr>"

definition msg_NotificationChannel :: mdesc where
  "msg_NotificationChannel = \<lparr>m_fields =
       [single ''enabled'' TBool],
     m_oneofs = []\<rparr>"

definition msg_WifiChannel :: mdesc where
  "msg_WifiChannel = \<lparr>m_fields =
       [single ''bssid'' TString],
     m_oneofs = []\<rparr>"

definition msg_CarControlChannel :: mdesc where
  "msg_CarControlChannel = \<lparr>m_fields =
       [many ''property_configs'' (TMessage ''CarPropertyConfig''),
        many ''controls'' (TMessage ''CarControl''),
        many ''action_entries'' (TMessage ''CarActionEntry'')],
     m_oneofs = []\<rparr>"

definition msg_GenericNotificationChannel :: mdesc where
  "msg_GenericNotificationChannel = \<lparr>m_fields =
       [],
     m_oneofs = []\<rparr>"

definition msg_VoiceChannel :: mdesc where
  "msg_VoiceChannel = \<lparr>m_fields =
       [],
     m_oneofs = []\<rparr>"

definition msg_Sensor :: mdesc where
  "msg_Sensor = \<lparr>m_fields =
       [single ''type'' (TEnum enum_SensorType)],
     m_oneofs = []\<rparr>"

definition msg_AudioConfig :: mdesc where
  "msg_AudioConfig = \<lparr>m_fields =
       [single ''sample_rate'' TInt,
        single ''bit_depth'' TInt,
        single ''channel_count'' TInt],
     m_oneofs = []\<rparr>"

definition msg_VideoConfig :: mdesc where
  "msg_VideoConfig = \<lparr>m_fields =
       [single ''video_resolution'' (TEnum enum_VideoResolution),
        single ''video_fps'' (TEnum enum_VideoFPS),
        single ''margin_width'' TInt,
        single ''margin_height'' TInt,
        single ''dpi'' TInt,
        single ''decoder_additional_depth'' TInt,
        single ''viewing_distance'' TInt,
        single ''pixel_aspect_ratio_e4'' TInt,
        single ''real_density'' TInt,
        single ''codec'' (TEnum enum_MediaCodecType),
        single ''additional_config'' (TMessage ''AdditionalVideoConfig'')],
     m_oneofs = []\<rparr>"

definition msg_TouchScreenConfig :: mdesc where
  "msg_TouchScreenConfig = \<lparr>m_fields =
       [single ''width'' TInt,
        single ''height'' TInt,
        single ''display_type'' (TEnum enum_DisplayType)],
     m_oneofs = []\<rparr>"

definition msg_TouchPadConfig :: mdesc where
  "msg_TouchPadConfig = \<lparr>m_fields =
       [single ''width'' TInt,
        single ''height'' TInt,
        single ''ui_navigation'' TBool,
        single ''physical_width'' TInt,
        single ''physical_height'' TInt,
        single ''ui_absolute'' TBool,
        single ''tap_as_select'' TBool,
        single ''sensitivity'' TInt],
     m_oneofs = []\<rparr>"

definition msg_RadioBands :: mdesc where
  "msg_RadioBands = \<lparr>m_fields =
       [many ''groups'' (TMessage ''RadioBandGroup'')],
     m_oneofs = []\<rparr>"

definition msg_NavigationImageOptions :: mdesc where
  "msg_NavigationImageOptions = \<lparr>m_fields =
       [single ''width'' TInt,
        single ''height'' TInt,
        single ''colour_depth_bits'' TInt],
     m_oneofs = []\<rparr>"

definition msg_CarPropertyConfig :: mdesc where
  "msg_CarPropertyConfig = \<lparr>m_fields =
       [implicit ''property_id'' (TEnum enum_CarPropertyId),
        implicit ''access_mode'' (TEnum enum_CarPropertyAccessMode),
        implicit ''change_mode'' (TEnum enum_CarPropertyChangeMode),
        many ''area_ids'' (TMessage ''CarAreaId''),
        implicit ''property_type'' (TEnum enum_CarPropertyType),
        many ''config_array'' TInt,
        many ''area_configs'' (TMessage ''CarPropertyAreaConfig'')],
     m_oneofs = []\<rparr>"

definition msg_CarControl :: mdesc where
  "msg_CarControl = \<lparr>m_fields =
       [single ''property_control'' (TMessage ''CarPropertyControl''),
        single ''action_control'' (TMessage ''CarActionControl''),
        single ''control_group'' (TMessage ''CarControlGroup''),
        single ''enabled'' TBool,
        many ''metadata'' (TEnum enum_CarControlMetadataType),
        single ''side_affinity'' (TEnum enum_SideAffinity)],
     m_oneofs = [(''control'',
        [single ''property_control'' (TMessage ''CarPropertyControl''),
         single ''action_control'' (TMessage ''CarActionControl''),
         single ''control_group'' (TMessage ''CarControlGroup'')])]\<rparr>"

definition msg_CarActionEntry :: mdesc where
  "msg_CarActionEntry = \<lparr>m_fields =
       [single ''action'' (TMessage ''CarAction'')],
     m_oneofs = []\<rparr>"

definition msg_AdditionalVideoConfig :: mdesc where
  "msg_AdditionalVideoConfig = \<lparr>m_fields =
       [single ''min_resolution'' (TMessage ''VideoResolutionRange''),
        single ''max_resolution'' (TMessage ''VideoResolutionRange''),
        single ''preferred_resolution'' (TMessage ''VideoResolutionRange''),
        single ''ui_theme'' (TEnum enum_UITheme),
        many ''hidden_ui_elements'' (TEnum enum_UIElement),
        many ''resize_actions'' (TMessage ''VideoResizeAction''),
        many ''margin_configs'' (TMessage ''VideoMarginConfig'')],
     m_oneofs = []\<rparr>"

definition msg_RadioBandGroup :: mdesc where
  "msg_RadioBandGroup = \<lparr>m_fields =
       [many ''band_types'' (TEnum enum_RadioBandType),
        single ''hide_empty_group'' TBool,
        single ''band_scan_action'' TString],
     m_oneofs = []\<rparr>"

definition msg_CarAreaId :: mdesc where
  "msg_CarAreaId = \<lparr>m_fields =
       [implicit ''area_type'' (TEnum enum_CarAreaType),
        many ''window_ids'' (TEnum enum_VehicleAreaWindow),
        many ''seat_ids'' (TEnum enum_VehicleAreaSeat),
        many ''mirror_ids'' (TEnum enum_VehicleAreaMirror),
        many ''door_ids'' (TEnum enum_VehicleAreaDoor),
        many ''wheel_ids'' (TEnum enum_VehicleAreaWheel)],
     m_oneofs = []\<rparr>"

definition msg_CarPropertyAreaConfig :: mdesc where
  "msg_CarPropertyAreaConfig = \<lparr>m_fields =
       [single ''area_id'' (TMessage ''CarAreaId''),
        single ''min_value'' (TMessage ''CarPropertyValue''),
        single ''max_value'' (TMessage ''CarPropertyValue'')],
     m_oneofs = []\<rparr>"

definition msg_CarPropertyControl :: mdesc where
  "msg_CarPropertyControl = \<lparr>m_fields =
       [single ''property'' (TMessage ''CarProperty''),
        single ''associated_action'' (TMessage ''CarAction''),
        single ''associated_property'' (TMessage ''CarProperty'')],
     m_oneofs = []\<rparr>"

definition msg_CarActionControl :: mdesc where
  "msg_CarActionControl = \<lparr>m_fields =
       [single ''action'' (TMessage ''CarAction'')],
     m_oneofs = []\<rparr>"

definition msg_CarControlGroup :: mdesc where
  "msg_CarControlGroup = \<lparr>m_fields =
       [single ''group_type'' (TEnum enum_CarControlGroupType),
        many ''controls'' (TMessage ''CarControl'')],
     m_oneofs = []\<rparr>"

definition msg_CarAction :: mdesc where
  "msg_CarAction = \<lparr>m_fields =
       [implicit ''action_id'' (TEnum enum_CarActionId)],
     m_oneofs = []\<rparr>"

definition msg_VideoResolutionRange :: mdesc where
  "msg_VideoResolutionRange = \<lparr>m_fields =
       [single ''width'' TInt,
        single ''height'' TInt,
        single ''density'' TInt,
        single ''fps'' TInt],
     m_oneofs = []\<rparr>"

definition msg_VideoResizeAction :: mdesc where
  "msg_VideoResizeAction = \<lparr>m_fields =
       [single ''action'' (TEnum enum_ResizeActionType)],
     m_oneofs = []\<rparr>"

definition msg_VideoMarginConfig :: mdesc where
  "msg_VideoMarginConfig = \<lparr>m_fields =
       [single ''insets'' (TMessage ''VideoInsets'')],
     m_oneofs = []\<rparr>"

definition msg_CarPropertyValue :: mdesc where
  "msg_CarPropertyValue = \<lparr>m_fields =
       [single ''int_value'' TInt,
        single ''float_value'' TFloat,
        single ''bool_value'' TBool,
        single ''long_value'' TInt,
        single ''string_value'' TString,
        single ''int_array'' (TMessage ''IntValues''),
        single ''long_array'' (TMessage ''LongValues''),
        single ''float_array'' (TMessage ''FloatValues'')],
     m_oneofs = [(''value'',
        [single ''int_value'' TInt,
         single ''float_value'' TFloat,
         single ''bool_value'' TBool,
         single ''long_value'' TInt,
         single ''string_value'' TString,
         single ''int_array'' (TMessage ''IntValues''),
         single ''long_array'' (TMessage ''LongValues''),
         single ''float_array'' (TMessage ''FloatValues'')])]\<rparr>"

definition msg_CarProperty :: mdesc where
  "msg_CarProperty = \<lparr>m_fields =
       [implicit ''property_id'' (TEnum enum_CarPropertyId),
        single ''area_id'' (TMessage ''CarAreaId'')],
     m_oneofs = []\<rparr>"

definition msg_VideoInsets :: mdesc where
  "msg_VideoInsets = \<lparr>m_fields =
       [single ''left'' TInt,
        single ''top'' TInt,
        single ''right'' TInt,
        single ''bottom'' TInt],
     m_oneofs = []\<rparr>"

definition msg_IntValues :: mdesc where
  "msg_IntValues = \<lparr>m_fields =
       [many ''values'' TInt],
     m_oneofs = []\<rparr>"

definition msg_LongValues :: mdesc where
  "msg_LongValues = \<lparr>m_fields =
       [many ''values'' TInt],
     m_oneofs = []\<rparr>"

definition msg_FloatValues :: mdesc where
  "msg_FloatValues = \<lparr>m_fields =
       [many ''values'' TFloat],
     m_oneofs = []\<rparr>"

definition sdr_pool :: pool where
  "sdr_pool =
     [(''ServiceDiscoveryResponse'', msg_ServiceDiscoveryResponse),
      (''ChannelDescriptor'', msg_ChannelDescriptor),
      (''HeadUnitInfo'', msg_HeadUnitInfo),
      (''SensorChannel'', msg_SensorChannel),
      (''AVChannel'', msg_AVChannel),
      (''InputChannelConfig'', msg_InputChannelConfig),
      (''AVInputChannel'', msg_AVInputChannel),
      (''BluetoothChannel'', msg_BluetoothChannel),
      (''RadioChannelConfig'', msg_RadioChannelConfig),
      (''NavigationChannel'', msg_NavigationChannel),
      (''MediaInfoChannel'', msg_MediaInfoChannel),
      (''PhoneStatusChannel'', msg_PhoneStatusChannel),
      (''MediaBrowserChannel'', msg_MediaBrowserChannel),
      (''VendorExtensionChannel'', msg_VendorExtensionChannel),
      (''NotificationChannel'', msg_NotificationChannel),
      (''WifiChannel'', msg_WifiChannel),
      (''CarControlChannel'', msg_CarControlChannel),
      (''GenericNotificationChannel'', msg_GenericNotificationChannel),
      (''VoiceChannel'', msg_VoiceChannel),
      (''Sensor'', msg_Sensor),
      (''AudioConfig'', msg_AudioConfig),
      (''VideoConfig'', msg_VideoConfig),
      (''TouchScreenConfig'', msg_TouchScreenConfig),
      (''TouchPadConfig'', msg_TouchPadConfig),
      (''RadioBands'', msg_RadioBands),
      (''NavigationImageOptions'', msg_NavigationImageOptions),
      (''CarPropertyConfig'', msg_CarPropertyConfig),
      (''CarControl'', msg_CarControl),
      (''CarActionEntry'', msg_CarActionEntry),
      (''AdditionalVideoConfig'', msg_AdditionalVideoConfig),
      (''RadioBandGroup'', msg_RadioBandGroup),
      (''CarAreaId'', msg_CarAreaId),
      (''CarPropertyAreaConfig'', msg_CarPropertyAreaConfig),
      (''CarPropertyControl'', msg_CarPropertyControl),
      (''CarActionControl'', msg_CarActionControl),
      (''CarControlGroup'', msg_CarControlGroup),
      (''CarAction'', msg_CarAction),
      (''VideoResolutionRange'', msg_VideoResolutionRange),
      (''VideoResizeAction'', msg_VideoResizeAction),
      (''VideoMarginConfig'', msg_VideoMarginConfig),
      (''CarPropertyValue'', msg_CarPropertyValue),
      (''CarProperty'', msg_CarProperty),
      (''VideoInsets'', msg_VideoInsets),
      (''IntValues'', msg_IntValues),
      (''LongValues'', msg_LongValues),
      (''FloatValues'', msg_FloatValues)]"

lemmas sdr_msgs = msg_ServiceDiscoveryResponse_def
  msg_ChannelDescriptor_def
  msg_HeadUnitInfo_def
  msg_SensorChannel_def
  msg_AVChannel_def
  msg_InputChannelConfig_def
  msg_AVInputChannel_def
  msg_BluetoothChannel_def
  msg_RadioChannelConfig_def
  msg_NavigationChannel_def
  msg_MediaInfoChannel_def
  msg_PhoneStatusChannel_def
  msg_MediaBrowserChannel_def
  msg_VendorExtensionChannel_def
  msg_NotificationChannel_def
  msg_WifiChannel_def
  msg_CarControlChannel_def
  msg_GenericNotificationChannel_def
  msg_VoiceChannel_def
  msg_Sensor_def
  msg_AudioConfig_def
  msg_VideoConfig_def
  msg_TouchScreenConfig_def
  msg_TouchPadConfig_def
  msg_RadioBands_def
  msg_NavigationImageOptions_def
  msg_CarPropertyConfig_def
  msg_CarControl_def
  msg_CarActionEntry_def
  msg_AdditionalVideoConfig_def
  msg_RadioBandGroup_def
  msg_CarAreaId_def
  msg_CarPropertyAreaConfig_def
  msg_CarPropertyControl_def
  msg_CarActionControl_def
  msg_CarControlGroup_def
  msg_CarAction_def
  msg_VideoResolutionRange_def
  msg_VideoResizeAction_def
  msg_VideoMarginConfig_def
  msg_CarPropertyValue_def
  msg_CarProperty_def
  msg_VideoInsets_def
  msg_IntValues_def
  msg_LongValues_def
  msg_FloatValues_def

lemma sdr_pool_ok: "pool_ok sdr_pool"
  by code_simp

end
