(* ===== verification/ChannelLauncher.thy ===== *)
theory ChannelLauncher
  imports Machines
begin

text \<open>
  \<^verbatim>\<open>v2/modules/channel_manager/registry.py\<close> and \<^verbatim>\<open>launcher.py\<close>: which module serves a channel, and the
  subprocesses of a session. A channel of the service-discovery list has an integer identifier and
  its descriptor fields.
\<close>

section \<open>Registry\<close>

text \<open>The enumeration values come from the generated classes \<^verbatim>\<open>MediaCodecType\<close> and \<^verbatim>\<open>AudioType\<close>.\<close>

definition AUDIO_CODEC_VALUES :: "int list" where "AUDIO_CODEC_VALUES = [4, 1, 2]"
definition VIDEO_CODEC_VALUES :: "int list" where "VIDEO_CODEC_VALUES = [3, 5, 6, 7]"
definition AUDIO_TYPE_SPEECH :: int where "AUDIO_TYPE_SPEECH = 1"
definition AUDIO_TYPE_SYSTEM :: int where "AUDIO_TYPE_SYSTEM = 2"
definition AUDIO_TYPE_MEDIA :: int where "AUDIO_TYPE_MEDIA = 3"

definition SKIP_KEYS :: "string list" where
  "SKIP_KEYS = [''navigation_channel'', ''media_info_channel'', ''phone_status_channel'']"

lemmas registry_consts = AUDIO_CODEC_VALUES_def VIDEO_CODEC_VALUES_def AUDIO_TYPE_SPEECH_def
  AUDIO_TYPE_SYSTEM_def AUDIO_TYPE_MEDIA_def SKIP_KEYS_def

definition SkipChannel :: exn where "SkipChannel = OtherError ''SkipChannel''"

record channel =
  chan_id :: int
  chan_desc :: payload

text \<open>\<^verbatim>\<open>v in frozenset(...)\<close> of integers: lists and dictionaries are not hashable.\<close>

definition in_ints :: "pyval \<Rightarrow> int list \<Rightarrow> bool res" where
  "in_ints v ns = (case v of PList l \<Rightarrow> Inl TypeError | PDict d \<Rightarrow> Inl TypeError | _ \<Rightarrow> Inr (\<exists>n \<in> set ns. py_eq_int v n))"

definition resolve_av :: "payload \<Rightarrow> string res" where
  "resolve_av av =
     (let av_type = dget av ''av_type''; audio_type = dget av ''audio_type'' in
      rbind (in_ints av_type VIDEO_CODEC_VALUES) (\<lambda>video.
        if video then Inr ''video''
        else rbind (in_ints av_type AUDIO_CODEC_VALUES) (\<lambda>audio.
          if audio \<and> (py_eq_int audio_type AUDIO_TYPE_MEDIA \<or> py_eq_int audio_type AUDIO_TYPE_SPEECH \<or>
                      py_eq_int audio_type AUDIO_TYPE_SYSTEM)
          then Inr ''audio'' else Inl KeyError)))"

definition resolve_module_type :: "channel \<Rightarrow> string res" where
  "resolve_module_type ch =
     (let has = (\<lambda>k. map_of (chan_desc ch) k \<noteq> None) in
      if has ''av_channel'' then
        (case dget (chan_desc ch) ''av_channel'' of PDict av \<Rightarrow> resolve_av av | _ \<Rightarrow> Inl AttributeError)
      else if has ''input_channel'' then Inr ''input''
      else if has ''sensor_channel'' then Inr ''sensor''
      else if has ''av_input_channel'' then Inr ''av_input''
      else if has ''bluetooth_channel'' then Inr ''bluetooth''
      else if has ''wifi_channel'' then Inr ''wifi''
      else if (\<exists>k \<in> set SKIP_KEYS. has k) then Inl SkipChannel
      else if chan_desc ch = [] then Inl SkipChannel
      else Inl KeyError)"

definition chan_module_name :: "string \<Rightarrow> int \<Rightarrow> string" where
  "chan_module_name module_type channel_id = ''channel_'' @ module_type @ ''_'' @ str_of_int channel_id"

section \<open>Processes\<close>

text \<open>The operating system: process identifiers given out so far, and those that run.\<close>

record os =
  next_pid :: nat
  alive :: "nat list"

definition spawn :: "os \<Rightarrow> nat \<times> os" where
  "spawn w = (next_pid w, \<lparr>next_pid = Suc (next_pid w), alive = alive w @ [next_pid w]\<rparr>)"

definition kill :: "nat \<Rightarrow> os \<Rightarrow> os" where
  "kill p w = w\<lparr>alive := filter (\<lambda>q. q \<noteq> p) (alive w)\<rparr>"

record launch =
  l_name :: string
  l_type :: string
  l_chan :: int
  l_sdr :: string

record chanproc = launch +
  cp_pid :: nat

type_synonym launcher = "(string, chanproc) dict"

text \<open>\<^verbatim>\<open>ChannelProcess.start\<close>; \<open>scripts\<close> says for which module types the script is on disk.\<close>

definition cp_start :: "(string \<Rightarrow> bool) \<Rightarrow> launch \<Rightarrow> os \<Rightarrow> chanproc res \<times> os" where
  "cp_start scripts l w =
     (if \<not> scripts (l_type l) then (Inl FileNotFoundError, w)
      else (let (p, w') = spawn w in (Inr (launch.extend l \<lparr>cp_pid = p\<rparr>), w')))"

text \<open>\<^verbatim>\<open>ChannelProcess.stop\<close> returns once the process is gone: by itself in time, or terminated, or
  killed.\<close>

definition cp_stop :: "chanproc \<Rightarrow> os \<Rightarrow> os" where
  "cp_stop cp w = kill (cp_pid cp) w"

definition stop_all :: "launcher \<Rightarrow> os \<Rightarrow> launcher \<times> os" where
  "stop_all procs w = ([], foldl (\<lambda>w cp. cp_stop cp w) w (rev (map snd procs)))"

text \<open>The loop of \<^verbatim>\<open>start_all\<close>: it stops at the first missing script, what was started staying started.\<close>

fun start_loop :: "(string \<Rightarrow> bool) \<Rightarrow> launch list \<Rightarrow> launcher \<Rightarrow> os \<Rightarrow> string list res \<times> launcher \<times> os" where
  "start_loop scripts [] procs w = (Inr [], procs, w)"
| "start_loop scripts (l # ls) procs w =
     (case cp_start scripts l w of
        (Inl x, w') \<Rightarrow> (Inl x, procs, w')
      | (Inr cp, w') \<Rightarrow>
          (let (r, procs', w'') = start_loop scripts ls (dset (l_name l) cp procs) w'
           in (rbind r (\<lambda>names. Inr (l_name l # names)), procs', w'')))"

definition start_all :: "(string \<Rightarrow> bool) \<Rightarrow> launch list \<Rightarrow> launcher \<Rightarrow> os \<Rightarrow> string list res \<times> launcher \<times> os" where
  "start_all scripts ls procs w =
     (let (procs', w') = (if procs \<noteq> [] then stop_all procs w else (procs, w)) in start_loop scripts ls procs' w')"

definition check_crashes :: "launcher \<Rightarrow> os \<Rightarrow> string list" where
  "check_crashes procs w = map fst (filter (\<lambda>(n, cp). cp_pid cp \<notin> set (alive w)) procs)"

section \<open>Facts\<close>

lemma foldl_stop_alive:
  "set (alive (foldl (\<lambda>w cp. cp_stop cp w) w cps)) = set (alive w) - cp_pid ` set cps"
  by (induction cps arbitrary: w) (auto simp: cp_stop_def kill_def)

lemma foldl_stop_next: "next_pid (foldl (\<lambda>w cp. cp_stop cp w) w cps) = next_pid w"
  by (induction cps arbitrary: w) (auto simp: cp_stop_def kill_def)

definition launcher_pids :: "launcher \<Rightarrow> nat set" where
  "launcher_pids procs = cp_pid ` set (map snd procs)"

lemma stop_all_alive [simp]:
  "set (alive (snd (stop_all procs w))) = set (alive w) - launcher_pids procs"
  "fst (stop_all procs w) = []" "next_pid (snd (stop_all procs w)) = next_pid w"
  by (auto simp: stop_all_def foldl_stop_alive foldl_stop_next launcher_pids_def)

definition os_wf :: "os \<Rightarrow> bool" where
  "os_wf w \<longleftrightarrow> (\<forall>p \<in> set (alive w). p < next_pid w)"

lemma os_wf_spawn: "os_wf w \<Longrightarrow> os_wf (snd (spawn w))"
  by (auto simp: os_wf_def spawn_def)

lemma os_wf_stop_all: "os_wf w \<Longrightarrow> os_wf (snd (stop_all procs w))"
  by (auto simp: os_wf_def)

text \<open>Starting a list whose scripts are all there.\<close>

lemma start_loop_ok:
  "\<forall>l \<in> set ls. scripts (l_type l) \<Longrightarrow>
   \<exists>procs' w'. start_loop scripts ls procs w = (Inr (map l_name ls), procs', w') \<and>
     set (dkeys procs') = set (dkeys procs) \<union> l_name ` set ls \<and> next_pid w' = next_pid w + length ls \<and>
     alive w' = alive w @ [next_pid w ..< next_pid w + length ls]"
proof (induction ls arbitrary: procs w)
  case (Cons l ls)
  let ?cp = "launch.extend l \<lparr>cp_pid = next_pid w\<rparr>"
  let ?w = "\<lparr>next_pid = Suc (next_pid w), alive = alive w @ [next_pid w]\<rparr>"
  obtain procs' w' where
    r: "start_loop scripts ls (dset (l_name l) ?cp procs) ?w = (Inr (map l_name ls), procs', w')"
      "set (dkeys procs') = set (dkeys (dset (l_name l) ?cp procs)) \<union> l_name ` set ls"
      "next_pid w' = next_pid ?w + length ls" "alive w' = alive ?w @ [next_pid ?w ..< next_pid ?w + length ls]"
    using Cons.IH [of "dset (l_name l) ?cp procs" ?w] Cons.prems by auto
  have "[next_pid w] @ [Suc (next_pid w) ..< Suc (next_pid w) + length ls] = [next_pid w ..< next_pid w + length (l # ls)]"
    by (simp add: upt_rec)
  then show ?case
    using Cons.prems r by (auto simp: cp_start_def spawn_def set_dkeys_dset)
qed simp

lemma start_loop_missing:
  assumes "\<forall>l \<in> set as. scripts (l_type l)" and "\<not> scripts (l_type b)"
  shows "fst (start_loop scripts (as @ b # cs) procs w) = Inl FileNotFoundError \<and>
     alive (snd (snd (start_loop scripts (as @ b # cs) procs w))) = alive w @ [next_pid w ..< next_pid w + length as]"
  using assms(1)
proof (induction as arbitrary: procs w)
  case Nil
  then show ?case using assms(2) by (simp add: cp_start_def)
next
  case (Cons l ls)
  let ?cp = "launch.extend l \<lparr>cp_pid = next_pid w\<rparr>"
  let ?w = "\<lparr>next_pid = Suc (next_pid w), alive = alive w @ [next_pid w]\<rparr>"
  have "[next_pid w] @ [Suc (next_pid w) ..< Suc (next_pid w) + length ls] = [next_pid w ..< next_pid w + length (l # ls)]"
    by (simp add: upt_rec)
  then show ?case
    using Cons.IH [of "dset (l_name l) ?cp procs" ?w] Cons.prems
    by (auto simp: cp_start_def spawn_def split: prod.splits)
qed

lemma start_loop_pids:
  "start_loop scripts ls procs w = (r, procs', w') \<Longrightarrow>
   launcher_pids procs' \<subseteq> launcher_pids procs \<union> {next_pid w ..< next_pid w'} \<and> next_pid w \<le> next_pid w' \<and>
   set (alive w') = set (alive w) \<union> {next_pid w ..< next_pid w'}"
proof (induction ls arbitrary: procs w r)
  case (Cons l ls)
  show ?case
  proof (cases "scripts (l_type l)")
    case False
    with Cons.prems show ?thesis by (simp add: cp_start_def)
  next
    case True
    let ?cp = "launch.extend l \<lparr>cp_pid = next_pid w\<rparr>"
    let ?w = "\<lparr>next_pid = Suc (next_pid w), alive = alive w @ [next_pid w]\<rparr>"
    obtain r' where st: "start_loop scripts ls (dset (l_name l) ?cp procs) ?w = (r', procs', w')"
      using Cons.prems True by (auto simp: cp_start_def spawn_def split: prod.splits)
    have "launcher_pids (dset (l_name l) ?cp procs) \<subseteq> insert (next_pid w) (launcher_pids procs)"
      by (induction procs) (auto simp: launcher_pids_def launch.defs)
    moreover have "Suc (next_pid w) \<le> next_pid w'" using Cons.IH [OF st] by simp
    then have "{next_pid w ..< next_pid w'} = insert (next_pid w) {Suc (next_pid w) ..< next_pid w'}" by auto
    ultimately show ?thesis using Cons.IH [OF st] by auto
  qed
qed simp

text \<open>Names of a plan with distinct channels are distinct: the identifier is what follows the last
  underscore.\<close>

lemma digits_no_underscore: "CHR ''_'' \<notin> set (str_of_int i)"
  using str_of_nat_digits is_digit_not by (auto simp: str_of_int_def)

lemma underscore_suffix:
  assumes "a @ ''_'' @ x = b @ ''_'' @ y" and "CHR ''_'' \<notin> set x" and "CHR ''_'' \<notin> set y"
  shows "x = y"
proof -
  have "takeWhile (\<lambda>c. c \<noteq> CHR ''_'') (rev (p @ ''_'' @ q)) = rev q" if "CHR ''_'' \<notin> set q" for p q :: string
  proof -
    have "\<forall>c \<in> set (rev q). c \<noteq> CHR ''_''" using that by auto
    then show ?thesis by (simp, subst takeWhile_append2) auto
  qed
  from this [OF assms(2), of a] this [OF assms(3), of b] have "rev x = rev y"
    unfolding assms(1) by (rule trans [OF sym])
  then show ?thesis by simp
qed

lemma module_name_inj: "chan_module_name t i = chan_module_name u j \<Longrightarrow> i = j"
  using underscore_suffix [of "''channel_'' @ t" "str_of_int i" "''channel_'' @ u" "str_of_int j"]
    digits_no_underscore by (auto simp: chan_module_name_def)

text \<open>With distinct names every process started is in the table.\<close>

lemma start_loop_covers:
  "start_loop scripts ls procs w = (r, procs', w') \<Longrightarrow> distinct (map l_name ls) \<Longrightarrow>
   set (map l_name ls) \<inter> set (dkeys procs) = {} \<Longrightarrow>
   launcher_pids procs' = launcher_pids procs \<union> {next_pid w ..< next_pid w'}"
proof (induction ls arbitrary: procs w r)
  case (Cons l ls)
  show ?case
  proof (cases "scripts (l_type l)")
    case False
    with Cons.prems show ?thesis by (simp add: cp_start_def)
  next
    case True
    let ?cp = "launch.extend l \<lparr>cp_pid = next_pid w\<rparr>"
    let ?w = "\<lparr>next_pid = Suc (next_pid w), alive = alive w @ [next_pid w]\<rparr>"
    obtain r' where st: "start_loop scripts ls (dset (l_name l) ?cp procs) ?w = (r', procs', w')"
      using Cons.prems True by (auto simp: cp_start_def spawn_def split: prod.splits)
    have n: "map_of procs (l_name l) = None" using Cons.prems(3) by (auto simp: set_dkeys)
    then have "launcher_pids (dset (l_name l) ?cp procs) = insert (next_pid w) (launcher_pids procs)"
      by (simp add: dset_new launcher_pids_def launch.defs)
    moreover have "launcher_pids procs' = launcher_pids (dset (l_name l) ?cp procs) \<union> {next_pid ?w ..< next_pid w'}"
      using Cons.prems by (intro Cons.IH [OF st]) (auto simp: set_dkeys_dset)
    moreover have "Suc (next_pid w) \<le> next_pid w'" using start_loop_pids [OF st] by simp
    then have "{next_pid w ..< next_pid w'} = insert (next_pid w) {Suc (next_pid w) ..< next_pid w'}" by auto
    ultimately show ?thesis by auto
  qed
qed simp

lemma start_all_empty: "start_all scripts ls [] w = start_loop scripts ls [] w"
  by (simp add: start_all_def)

section \<open>Properties\<close>

definition channel_module_types :: "string list" where
  "channel_module_types = [''video'', ''audio'', ''input'', ''sensor'', ''av_input'', ''bluetooth'', ''wifi'']"

lemma resolve_av_cases: "resolve_av av = Inr t \<Longrightarrow> t = ''video'' \<or> t = ''audio''"
  by (auto simp: resolve_av_def Let_def rbind_Inr_iff split: if_splits)

lemma resolve_types: "resolve_module_type ch = Inr t \<Longrightarrow> t \<in> set channel_module_types"
  by (auto simp: resolve_module_type_def channel_module_types_def Let_def dest: resolve_av_cases
      split: if_splits pyval.splits)

text \<open>A missing script leaves processes behind: when the script of one channel is not on disk,
  \<^verbatim>\<open>start_all\<close> raises \<^verbatim>\<open>FileNotFoundError\<close> with the processes of the channels before it running.\<close>

theorem missing_script_leaves_processes:
  assumes "\<forall>l \<in> set as. scripts (l_type l)" and "\<not> scripts (l_type b)"
  shows "fst (start_all scripts (as @ b # cs) [] w) = Inl FileNotFoundError \<and>
    alive (snd (snd (start_all scripts (as @ b # cs) [] w))) = alive w @ [next_pid w ..< next_pid w + length as]"
  unfolding start_all_empty by (rule start_loop_missing [OF assms])

lemma missing_script_leaves_processes_witness:
  "fst (start_all (\<lambda>t. t = ''video'') ([\<lparr>l_name = ''channel_video_3'', l_type = ''video'', l_chan = 3, l_sdr = ''00''\<rparr>]
       @ \<lparr>l_name = ''channel_input_1'', l_type = ''input'', l_chan = 1, l_sdr = ''00''\<rparr> # []) [] \<lparr>next_pid = 9, alive = []\<rparr>)
     = Inl FileNotFoundError \<and>
   alive (snd (snd (start_all (\<lambda>t. t = ''video'') ([\<lparr>l_name = ''channel_video_3'', l_type = ''video'', l_chan = 3, l_sdr = ''00''\<rparr>]
       @ \<lparr>l_name = ''channel_input_1'', l_type = ''input'', l_chan = 1, l_sdr = ''00''\<rparr> # []) [] \<lparr>next_pid = 9, alive = []\<rparr>)))
     = alive \<lparr>next_pid = 9, alive = []\<rparr> @ [next_pid \<lparr>next_pid = 9, alive = []\<rparr> ..< next_pid \<lparr>next_pid = 9, alive = []\<rparr>
         + length [\<lparr>l_name = ''channel_video_3'', l_type = ''video'', l_chan = 3, l_sdr = ''00''\<rparr>]]"
  by (rule missing_script_leaves_processes) simp_all

end
