(* ===== verification/ChannelManager.thy ===== *)
theory ChannelManager
  imports ChannelLauncher
begin

text \<open>
  \<^verbatim>\<open>v2/modules/channel_manager/main.py\<close>: the life of a session of channel modules. Sessions are
  objects that outlive their place in the global \<^verbatim>\<open>_session\<close> (the thread that waits for readiness
  keeps its own), so the state holds all of them by number. Priorities are integers, as the modules
  announce them. A step is one handler call, or one stretch of a waiting thread from the end of one
  \<^verbatim>\<open>wait\<close> to the next.
\<close>

definition CM_PRIORITY :: int where "CM_PRIORITY = 2"

section \<open>Sessions\<close>

record chan_info =
  ci_name :: string
  ci_type :: string
  ci_chan :: int

record session =
  s_active :: bool
  s_launcher :: launcher
  s_expected :: "string set"
  s_rts :: "string set"
  s_ready :: "string set"
  s_stopped :: "string set"
  s_all_ready :: bool
  s_all_rts :: bool
  s_all_stopped :: bool
  s_started :: "chan_info list"
  s_ready_chans :: "(chan_info \<times> int) list"
  s_active_chans :: "chan_info list"
  s_priorities :: "int list"

definition new_session :: session where
  "new_session = \<lparr>s_active = False, s_launcher = [], s_expected = {}, s_rts = {}, s_ready = {}, s_stopped = {},
     s_all_ready = False, s_all_rts = False, s_all_stopped = False, s_started = [], s_ready_chans = [],
     s_active_chans = [], s_priorities = []\<rparr>"

text \<open>The resolving loop of \<^verbatim>\<open>start\<close>: the launch list so far, and the exception that ended it.\<close>

fun launch_plan :: "string \<Rightarrow> channel list \<Rightarrow> exn option \<times> launch list" where
  "launch_plan sdr [] = (None, [])"
| "launch_plan sdr (ch # chs) =
     (if chan_id ch = 0 then launch_plan sdr chs
      else (case resolve_module_type ch of
              Inl x \<Rightarrow> (if x = SkipChannel then launch_plan sdr chs else (Some x, []))
            | Inr t \<Rightarrow> (let (x, ls) = launch_plan sdr chs in
                (x, \<lparr>l_name = chan_module_name t (chan_id ch), l_type = t, l_chan = chan_id ch, l_sdr = sdr\<rparr> # ls))))"

definition info_of :: "launch \<Rightarrow> chan_info" where
  "info_of l = \<lparr>ci_name = l_name l, ci_type = l_type l, ci_chan = l_chan l\<rparr>"

definition session_start :: "(string \<Rightarrow> bool) \<Rightarrow> string \<Rightarrow> channel list \<Rightarrow> session \<Rightarrow> os \<Rightarrow> exn option \<times> session \<times> os" where
  "session_start scripts sdr channels s w =
     (let (x, ls) = launch_plan sdr channels;
          s1 = s\<lparr>s_active := True, s_started := s_started s @ map info_of ls\<rparr>
      in case x of
           Some e \<Rightarrow> (Some e, s1, w)
         | None \<Rightarrow>
             (case start_all scripts ls (s_launcher s1) w of
                (Inl e, procs, w') \<Rightarrow> (Some e, s1\<lparr>s_launcher := procs\<rparr>, w')
              | (Inr started, procs, w') \<Rightarrow>
                  (None, s1\<lparr>s_launcher := procs, s_expected := set started, s_ready := {}, s_stopped := {},
                     s_all_ready := (started = []), s_all_rts := (started = []), s_all_stopped := False\<rparr>, w')))"

text \<open>\<^verbatim>\<open>next(ch for ch in ... if ch["module_name"] == name)\<close> raises \<^verbatim>\<open>StopIteration\<close> when there is none.\<close>

definition on_module_ready_to_start :: "string \<Rightarrow> int \<Rightarrow> session \<Rightarrow> exn option \<times> session" where
  "on_module_ready_to_start name priority s =
     (if name \<notin> s_expected s then (None, s)
      else (let s1 = s\<lparr>s_rts := insert name (s_rts s)\<rparr> in
        case find (\<lambda>ci. ci_name ci = name) (s_started s) of
          None \<Rightarrow> (Some StopIteration, s1)
        | Some ci \<Rightarrow>
            (None, s1\<lparr>s_ready_chans := s_ready_chans s @ [(ci, priority)],
                      s_all_rts := (if s_expected s - s_rts s1 = {} then True else s_all_rts s)\<rparr>)))"

definition same_priority :: "string \<Rightarrow> session \<Rightarrow> string set" where
  "same_priority name s =
     (case find (\<lambda>(ci, p). ci_name ci = name) (s_ready_chans s) of
        None \<Rightarrow> {}
      | Some (ci, target) \<Rightarrow> ci_name ` fst ` set (filter (\<lambda>(c, p). p = target) (s_ready_chans s)))"

definition on_module_ready :: "string \<Rightarrow> session \<Rightarrow> exn option \<times> session" where
  "on_module_ready name s =
     (if name \<notin> s_expected s then (None, s)
      else (let s1 = s\<lparr>s_ready := insert name (s_ready s)\<rparr> in
        case find (\<lambda>ci. ci_name ci = name) (s_started s) of
          None \<Rightarrow> (Some StopIteration, s1)
        | Some ci \<Rightarrow>
            (None, s1\<lparr>s_active_chans := s_active_chans s @ [ci],
                      s_all_ready := (if same_priority name s - s_ready s1 = {} then True else s_all_ready s)\<rparr>)))"

definition on_module_stopped :: "string \<Rightarrow> session \<Rightarrow> session" where
  "on_module_stopped name s =
     (if name \<notin> s_expected s then s
      else (let s1 = s\<lparr>s_stopped := insert name (s_stopped s)\<rparr> in
        s1\<lparr>s_all_stopped := (if s_expected s - s_stopped s1 = {} then True else s_all_stopped s)\<rparr>))"

definition info_payload :: "chan_info \<Rightarrow> payload" where
  "info_payload ci = [(''module_name'', PStr (ci_name ci)), (''module_type'', PStr (ci_type ci)), (''channel_id'', PInt (ci_chan ci))]"

definition session_shutdown :: "session \<Rightarrow> os \<Rightarrow> session \<times> os \<times> busmsg list" where
  "session_shutdown s w =
     (let (procs, w') = stop_all (s_launcher s) w in
      (s\<lparr>s_active := False, s_active_chans := [], s_started := [], s_launcher := procs\<rparr>, w',
       map (\<lambda>ci. (''aa.channel.close'', info_payload ci)) (s_active_chans s)
       @ [(''channel_manager.module_stop'', []), (''channel_manager.stopped'', [])]))"

definition session_crashed :: "session \<Rightarrow> os \<Rightarrow> bool" where
  "session_crashed s w = (s_active s \<and> check_crashes (s_launcher s) w \<noteq> [])"

section \<open>The module\<close>

text \<open>A waiting thread waits for all children to announce themselves, or for those of one priority,
  the priorities after it being still to come.\<close>

datatype wait_phase = WaitStart | WaitReady int "int list"

record cm_sys =
  sessions :: "session list"
  cur :: "nat option"
  waits :: "(nat \<times> string \<times> wait_phase) list"
  cm_os :: os

definition cm_init :: cm_sys where
  "cm_init = \<lparr>sessions = [], cur = None, waits = [], cm_os = \<lparr>next_pid = 0, alive = []\<rparr>\<rparr>"

definition put_session :: "nat \<Rightarrow> session \<Rightarrow> cm_sys \<Rightarrow> cm_sys" where
  "put_session k s c = c\<lparr>sessions := (sessions c)[k := s]\<rparr>"

text \<open>Shutting down session \<open>k\<close>, whatever \<^verbatim>\<open>_session\<close> is.\<close>

definition shutdown_nr :: "nat \<Rightarrow> cm_sys \<Rightarrow> cm_sys \<times> busmsg list" where
  "shutdown_nr k c =
     (let (s, w, ms) = session_shutdown (sessions c ! k) (cm_os c) in ((put_session k s c)\<lparr>cm_os := w\<rparr>, ms))"

definition shutdown_cur :: "cm_sys \<Rightarrow> cm_sys \<times> busmsg list" where
  "shutdown_cur c = (case cur c of None \<Rightarrow> (c, []) | Some k \<Rightarrow> shutdown_nr k c)"

definition open_channels :: "(string \<Rightarrow> bool) \<Rightarrow> string \<Rightarrow> channel list \<Rightarrow> cm_sys \<Rightarrow> exn option \<times> cm_sys \<times> busmsg list" where
  "open_channels scripts sdr channels c =
     (if sdr = [] \<or> channels = [] then (None, c, [])
      else (let (c1, ms) = shutdown_cur c; k = length (sessions c1) in
        case session_start scripts sdr channels new_session (cm_os c1) of
          (None, s, w) \<Rightarrow>
            (None, c1\<lparr>sessions := sessions c1 @ [s], cur := Some k, cm_os := w, waits := waits c1 @ [(k, sdr, WaitStart)]\<rparr>, ms)
        | (Some x, s, w) \<Rightarrow>
            (if x = FileNotFoundError \<or> x = KeyError
             then (None, c1\<lparr>sessions := sessions c1 @ [s], cur := None, cm_os := w\<rparr>, ms)
             else (Some x, c1\<lparr>sessions := sessions c1 @ [s], cur := Some k, cm_os := w\<rparr>, ms))))"

definition on_session_end :: "cm_sys \<Rightarrow> cm_sys \<times> busmsg list" where
  "on_session_end c = (let (c', ms) = shutdown_cur c in (c'\<lparr>cur := None\<rparr>, ms))"

text \<open>The end of \<^verbatim>\<open>_wait\<close>, the next round of its loop, and what one wait makes of its flag.\<close>

definition wait_finish :: "bool \<Rightarrow> nat \<Rightarrow> string \<Rightarrow> cm_sys \<Rightarrow> cm_sys \<times> busmsg list" where
  "wait_finish ok k sdr c =
     (if \<not> ok then (let (c', ms) = shutdown_nr k c in (c'\<lparr>cur := (if cur c' = Some k then None else cur c')\<rparr>, ms))
      else (c, [(''channel_manager.channels_ready'', [(''sdr_bytes_hex'', PStr sdr)])]))"

definition drop_nth :: "nat \<Rightarrow> 'a list \<Rightarrow> 'a list" where
  "drop_nth i xs = take i xs @ drop (Suc i) xs"

definition wait_next :: "bool \<Rightarrow> nat \<Rightarrow> nat \<Rightarrow> string \<Rightarrow> int list \<Rightarrow> cm_sys \<Rightarrow> cm_sys \<times> busmsg list" where
  "wait_next ok i k sdr prios c =
     (case prios of
        [] \<Rightarrow> wait_finish ok k sdr (c\<lparr>waits := drop_nth i (waits c)\<rparr>)
      | p # ps \<Rightarrow> (c\<lparr>waits := (waits c)[i := (k, sdr, WaitReady p ps)]\<rparr>, [(''channel_manager.module_start'', [(''priority'', PInt p)])]))"

text \<open>\<open>order\<close> is the order in which Python iterates over a set of priorities.\<close>

definition wait_step :: "(int list \<Rightarrow> int list) \<Rightarrow> nat \<Rightarrow> bool \<Rightarrow> cm_sys \<Rightarrow> cm_sys \<times> busmsg list" where
  "wait_step order i timed_out c =
     (if i \<ge> length (waits c) then (c, [])
      else (case waits c ! i of
        (k, sdr, WaitStart) \<Rightarrow>
          (let s = sessions c ! k in
           if s_all_rts s then
             (let prios = order (remdups (map snd (s_ready_chans s)))
              in wait_next True i k sdr prios (put_session k (s\<lparr>s_priorities := prios\<rparr>) c))
           else if timed_out then wait_next False i k sdr (s_priorities s) c
           else (c, []))
      | (k, sdr, WaitReady p ps) \<Rightarrow>
          (let s = sessions c ! k; c' = put_session k (s\<lparr>s_all_ready := False\<rparr>) c in
           if s_all_ready s then
             (let (c'', ms) = wait_next True i k sdr ps c'
              in (c'', map (\<lambda>ci. (''aa.channel.open'', info_payload ci)) (s_active_chans s) @ ms))
           else if timed_out then wait_next False i k sdr ps c'
           else (c, []))))"

definition on_cur :: "(session \<Rightarrow> session) \<Rightarrow> cm_sys \<Rightarrow> cm_sys" where
  "on_cur f c = (case cur c of None \<Rightarrow> c | Some k \<Rightarrow> put_session k (f (sessions c ! k)) c)"

datatype cm_event =
    OpenChannels string "channel list"
  | ReadyToStart string int
  | ModuleReady string
  | ModuleStopped string
  | SessionEnd
  | WaitThread nat bool
  | ProcExit nat
  | CrashPoll

fun cm_step :: "(string \<Rightarrow> bool) \<Rightarrow> (int list \<Rightarrow> int list) \<Rightarrow> cm_sys \<Rightarrow> cm_event \<Rightarrow> cm_sys \<times> busmsg list" where
  "cm_step scripts order c (OpenChannels sdr chs) = snd (open_channels scripts sdr chs c)"
| "cm_step scripts order c (ReadyToStart n p) = (on_cur (\<lambda>s. snd (on_module_ready_to_start n p s)) c, [])"
| "cm_step scripts order c (ModuleReady n) = (on_cur (\<lambda>s. snd (on_module_ready n s)) c, [])"
| "cm_step scripts order c (ModuleStopped n) = (on_cur (on_module_stopped n) c, [])"
| "cm_step scripts order c SessionEnd = on_session_end c"
| "cm_step scripts order c (WaitThread i t) = wait_step order i t c"
| "cm_step scripts order c (ProcExit p) = (c\<lparr>cm_os := kill p (cm_os c)\<rparr>, [])"
| "cm_step scripts order c CrashPoll =
     (c, (case cur c of None \<Rightarrow> []
          | Some k \<Rightarrow> (if session_crashed (sessions c ! k) (cm_os c) then [(''system.shutdown'', [])] else [])))"

section \<open>Invariant\<close>

text \<open>The processes that run are those of the current session; every other session has none.\<close>

definition cm_inv :: "cm_sys \<Rightarrow> bool" where
  "cm_inv c \<longleftrightarrow> (\<forall>k. cur c = Some k \<longrightarrow> k < length (sessions c)) \<and>
     (\<forall>j \<in> fst ` set (waits c). j < length (sessions c)) \<and>
     (\<forall>k < length (sessions c). cur c \<noteq> Some k \<longrightarrow> s_launcher (sessions c ! k) = []) \<and>
     set (alive (cm_os c)) \<subseteq> (case cur c of None \<Rightarrow> {} | Some k \<Rightarrow> launcher_pids (s_launcher (sessions c ! k)))"

definition session_wf :: "session \<Rightarrow> bool" where
  "session_wf s \<longleftrightarrow> (s_all_rts s \<longrightarrow> s_expected s \<subseteq> s_rts s)"

definition ev_ok :: "cm_event \<Rightarrow> bool" where
  "ev_ok e = (case e of OpenChannels sdr chs \<Rightarrow> distinct (map chan_id chs) | _ \<Rightarrow> True)"

lemma launcher_pids_Nil [simp]: "launcher_pids [] = {}"
  by (simp add: launcher_pids_def)

lemma shutdown_nr_fields:
  "cur (fst (shutdown_nr k c)) = cur c" "waits (fst (shutdown_nr k c)) = waits c"
  "length (sessions (fst (shutdown_nr k c))) = length (sessions c)"
  "j \<noteq> k \<Longrightarrow> sessions (fst (shutdown_nr k c)) ! j = sessions c ! j"
  "k < length (sessions c) \<Longrightarrow> s_launcher (sessions (fst (shutdown_nr k c)) ! k) = []"
  "set (alive (cm_os (fst (shutdown_nr k c)))) = set (alive (cm_os c)) - launcher_pids (s_launcher (sessions c ! k))"
  by (simp_all add: shutdown_nr_def session_shutdown_def put_session_def case_prod_unfold Let_def)

lemma cm_inv_none:
  assumes "cm_inv c" and "cur c = Some k"
  shows "cm_inv ((fst (shutdown_nr k c))\<lparr>cur := None\<rparr>)"
proof -
  have k: "k < length (sessions c)" using assms by (simp add: cm_inv_def)
  have "s_launcher (sessions (fst (shutdown_nr k c)) ! j) = []" if "j < length (sessions c)" for j
    using assms that shutdown_nr_fields(4) [of j k c] shutdown_nr_fields(5) [OF k]
    by (cases "j = k") (auto simp: cm_inv_def)
  then show ?thesis
    using assms k by (auto simp: cm_inv_def shutdown_nr_fields(1-3,6))
qed

lemma cm_inv_other:
  assumes "cm_inv c" and "cur c \<noteq> Some k" and "k < length (sessions c)"
  shows "cm_inv (fst (shutdown_nr k c))"
proof -
  have e: "s_launcher (sessions c ! k) = []" using assms by (simp add: cm_inv_def)
  have l: "s_launcher (sessions (fst (shutdown_nr k c)) ! j) = s_launcher (sessions c ! j)" for j
    using e shutdown_nr_fields(4) [of j k c] shutdown_nr_fields(5) [OF assms(3)] by (cases "j = k") auto
  show ?thesis
    using assms(1) unfolding cm_inv_def shutdown_nr_fields(1-3,6) l e by simp
qed

lemma session_end_inv: "cm_inv c \<Longrightarrow> cm_inv (fst (on_session_end c))"
  using cm_inv_none [of c]
  by (cases "cur c") (auto simp: on_session_end_def shutdown_cur_def cm_inv_def case_prod_unfold Let_def)

text \<open>Changes to a session that leave its processes alone.\<close>

lemma put_session_inv:
  "cm_inv c \<Longrightarrow> k < length (sessions c) \<Longrightarrow> s_launcher s = s_launcher (sessions c ! k) \<Longrightarrow> cm_inv (put_session k s c)"
  by (auto simp: cm_inv_def put_session_def nth_list_update split: option.splits)

lemma on_cur_inv: "cm_inv c \<Longrightarrow> (\<And>s. s_launcher (f s) = s_launcher s) \<Longrightarrow> cm_inv (on_cur f c)"
  by (auto simp: on_cur_def cm_inv_def [of c] intro!: put_session_inv split: option.splits)

lemma handlers_keep_launcher:
  "s_launcher (snd (on_module_ready_to_start n p s)) = s_launcher s"
  "s_launcher (snd (on_module_ready n s)) = s_launcher s"
  "s_launcher (on_module_stopped n s) = s_launcher s"
  by (auto simp: on_module_ready_to_start_def on_module_ready_def on_module_stopped_def Let_def split: option.splits)

lemma plan_names:
  "distinct (map chan_id chs) \<Longrightarrow> distinct (map l_name (snd (launch_plan sdr chs)))"
  "n \<in> l_name ` set (snd (launch_plan sdr chs)) \<Longrightarrow>
     \<exists>ch \<in> set chs. \<exists>t. n = chan_module_name t (chan_id ch) \<and> t \<in> set channel_module_types"
proof -
  show *: "n \<in> l_name ` set (snd (launch_plan sdr chs)) \<Longrightarrow>
     \<exists>ch \<in> set chs. \<exists>t. n = chan_module_name t (chan_id ch) \<and> t \<in> set channel_module_types" for n chs
    by (induction chs) (auto split: sum.splits prod.splits if_splits dest: resolve_types)
  show "distinct (map chan_id chs) \<Longrightarrow> distinct (map l_name (snd (launch_plan sdr chs)))"
  proof (induction chs)
    case (Cons ch chs)
    have "chan_module_name t (chan_id ch) \<notin> l_name ` set (snd (launch_plan sdr chs))" for t
      using * [of "chan_module_name t (chan_id ch)" chs] Cons.prems module_name_inj by fastforce
    with Cons show ?case by (auto simp: case_prod_unfold Let_def split: sum.splits simp del: image_iff)
  qed simp
qed

lemma plan_types: "\<forall>l \<in> set (snd (launch_plan sdr chs)). l_type l \<in> set channel_module_types"
  by (induction chs) (auto split: sum.splits prod.splits if_splits intro: resolve_types)

lemma session_start_new:
  assumes "distinct (map chan_id chs)" and "session_start scripts sdr chs new_session w = (x, s, w')"
    and "\<forall>t \<in> set channel_module_types. scripts t"
  shows "launcher_pids (s_launcher s) = {next_pid w ..< next_pid w'} \<and>
    set (alive w') = set (alive w) \<union> {next_pid w ..< next_pid w'} \<and> (x \<noteq> None \<longrightarrow> s_launcher s = [])"
proof (cases "launch_plan sdr chs")
  case (Pair y ls)
  show ?thesis
  proof (cases y)
    case (Some e)
    with Pair assms(2) show ?thesis by (auto simp: session_start_def new_session_def)
  next
    case None
    have d: "distinct (map l_name ls)" using plan_names(1) [OF assms(1), of sdr] Pair by simp
    have "\<forall>l \<in> set ls. l_type l \<in> set channel_module_types" using plan_types [of sdr chs] Pair by simp
    then have sc: "\<forall>l \<in> set ls. scripts (l_type l)" using assms(3) by blast
    obtain procs w'' where r: "start_loop scripts ls [] w = (Inr (map l_name ls), procs, w'')"
      using start_loop_ok [OF sc, of "[]" w] by blast
    then have e: "x = None" "s_launcher s = procs" "w' = w''"
      using assms(2) Pair None by (auto simp: session_start_def start_all_empty new_session_def)
    have "launcher_pids procs = launcher_pids [] \<union> {next_pid w ..< next_pid w''}"
      by (rule start_loop_covers [OF r d]) (simp add: dkeys_def)
    moreover have "set (alive w'') = set (alive w) \<union> {next_pid w ..< next_pid w''}"
      using start_loop_pids [OF r] by simp
    ultimately show ?thesis using e by simp
  qed
qed

lemma open_inv:
  assumes "cm_inv c" and "distinct (map chan_id chs)" and "\<forall>t \<in> set channel_module_types. scripts t"
  shows "cm_inv (fst (snd (open_channels scripts sdr chs c)))"
proof (cases "sdr = [] \<or> chs = []")
  case True
  with assms(1) show ?thesis by (auto simp: open_channels_def)
next
  case False
  let ?c1 = "fst (shutdown_cur c)"
  have i: "cm_inv (?c1\<lparr>cur := None\<rparr>)"
    using session_end_inv [OF assms(1)] by (simp add: on_session_end_def case_prod_unfold Let_def)
  then have e: "alive (cm_os ?c1) = []" "\<forall>k < length (sessions ?c1). s_launcher (sessions ?c1 ! k) = []"
    "\<forall>j \<in> fst ` set (waits ?c1). j < length (sessions ?c1)"
    by (auto simp: cm_inv_def)
  obtain x s w where st: "session_start scripts sdr chs new_session (cm_os ?c1) = (x, s, w)"
    by (cases "session_start scripts sdr chs new_session (cm_os ?c1)") auto
  note new = session_start_new [OF assms(2) st assms(3)]
  have nth: "k < Suc (length (sessions ?c1)) \<Longrightarrow> k \<noteq> length (sessions ?c1) \<Longrightarrow>
      s_launcher ((sessions ?c1 @ [s]) ! k) = []" for k
    using e(2) by (simp add: nth_append)
  show ?thesis
  proof (cases x)
    case None
    then show ?thesis
      using False st new e nth
      by (auto simp: open_channels_def cm_inv_def Let_def nth_append less_Suc_eq case_prod_unfold)
  next
    case (Some y)
    then have "s_launcher s = []" "alive w = []"
      using new e(1) by auto
    then show ?thesis
      using Some False st e nth
      by (auto simp: open_channels_def cm_inv_def Let_def nth_append less_Suc_eq case_prod_unfold)
  qed
qed

lemma cur_id: "cur x = v \<Longrightarrow> x\<lparr>cur := v\<rparr> = x"
  by (cases x) simp

lemma wait_finish_inv: "cm_inv c \<Longrightarrow> k < length (sessions c) \<Longrightarrow> cm_inv (fst (wait_finish ok k sdr c))"
  using cm_inv_none [of c k] cm_inv_other [of c k] shutdown_nr_fields(1) [of k c]
  by (cases "cur c = Some k")
    (auto simp: wait_finish_def case_prod_unfold Let_def cur_id [OF shutdown_nr_fields(1)])

lemma cm_inv_waits: "cm_inv c \<Longrightarrow> (\<And>j. j \<in> fst ` set ws \<Longrightarrow> j < length (sessions c)) \<Longrightarrow> cm_inv (c\<lparr>waits := ws\<rparr>)"
  by (auto simp: cm_inv_def split: option.splits)

lemma set_drop_nth: "set (drop_nth i xs) \<subseteq> set xs"
  by (auto simp: drop_nth_def dest: in_set_takeD in_set_dropD)

lemma wait_next_inv:
  assumes "cm_inv c" and "k < length (sessions c)"
  shows "cm_inv (fst (wait_next ok i k sdr prios c))"
proof (cases prios)
  case Nil
  have "cm_inv (c\<lparr>waits := drop_nth i (waits c)\<rparr>)"
    using assms(1) set_drop_nth [of i "waits c"] by (intro cm_inv_waits) (auto simp: cm_inv_def)
  with Nil assms(2) show ?thesis by (simp add: wait_next_def wait_finish_inv)
next
  case (Cons p ps)
  have "cm_inv (c\<lparr>waits := (waits c)[i := (k, sdr, WaitReady p ps)]\<rparr>)"
  proof (rule cm_inv_waits [OF assms(1)])
    fix j assume "j \<in> fst ` set ((waits c)[i := (k, sdr, WaitReady p ps)])"
    moreover have "fst ` set ((waits c)[i := (k, sdr, WaitReady p ps)]) \<subseteq> fst ` insert (k, sdr, WaitReady p ps) (set (waits c))"
      by (intro image_mono set_update_subset_insert)
    ultimately have "j = k \<or> j \<in> fst ` set (waits c)" by auto
    with assms show "j < length (sessions c)" unfolding cm_inv_def by blast
  qed
  with Cons show ?thesis by (simp add: wait_next_def)
qed

lemma wait_step_inv: "cm_inv c \<Longrightarrow> cm_inv (fst (wait_step order i t c))"
proof (cases "i < length (waits c)")
  case True
  assume inv: "cm_inv c"
  obtain k sdr ph where w: "waits c ! i = (k, sdr, ph)" by (cases "waits c ! i")
  have k: "k < length (sessions c)" using inv w True nth_mem [OF True] by (auto simp: cm_inv_def)
  have p: "cm_inv (put_session k s c)" "k < length (sessions (put_session k s c))"
    if "s_launcher s = s_launcher (sessions c ! k)" for s
    using put_session_inv [OF inv k that] k by (simp_all add: put_session_def)
  show ?thesis
    using True w inv k p wait_next_inv
    by (cases ph) (auto simp: wait_step_def Let_def case_prod_unfold)
qed (simp add: wait_step_def)

lemma kill_inv: "cm_inv c \<Longrightarrow> cm_inv (c\<lparr>cm_os := kill p (cm_os c)\<rparr>)"
  by (auto simp: cm_inv_def kill_def split: option.splits)

lemma cm_step_inv:
  "cm_inv c \<Longrightarrow> ev_ok e \<Longrightarrow> \<forall>t \<in> set channel_module_types. scripts t \<Longrightarrow> cm_inv (fst (cm_step scripts order c e))"
  using open_inv on_cur_inv handlers_keep_launcher session_end_inv wait_step_inv kill_inv
  by (cases e) (simp_all add: ev_ok_def)

lemma cm_run_inv:
  "cm_inv c \<Longrightarrow> \<forall>e \<in> set es. ev_ok e \<Longrightarrow> \<forall>t \<in> set channel_module_types. scripts t \<Longrightarrow>
   cm_inv (fst (run_events (cm_step scripts order) c es))"
proof (induction es arbitrary: c)
  case (Cons e es)
  have "cm_inv (fst (cm_step scripts order c e))" using Cons.prems by (intro cm_step_inv) auto
  then show ?case using Cons by (simp add: Let_def)
qed simp

section \<open>Readiness flags\<close>

lemma ready_to_start_wf: "session_wf s \<Longrightarrow> session_wf (snd (on_module_ready_to_start n p s))"
  by (auto simp: session_wf_def on_module_ready_to_start_def Let_def split: option.splits if_splits)

lemma module_ready_wf: "session_wf s \<Longrightarrow> session_wf (snd (on_module_ready n s))"
  by (auto simp: session_wf_def on_module_ready_def Let_def split: option.splits if_splits)

lemma module_stopped_wf: "session_wf s \<Longrightarrow> session_wf (on_module_stopped n s)"
  by (auto simp: session_wf_def on_module_stopped_def Let_def)

lemma shutdown_wf: "session_wf s \<Longrightarrow> session_wf (fst (session_shutdown s w))"
  by (simp add: session_wf_def session_shutdown_def case_prod_unfold Let_def)

lemma session_start_wf: "session_wf (fst (snd (session_start scripts sdr chs new_session w)))"
  by (auto simp: session_wf_def session_start_def new_session_def Let_def split: prod.splits option.splits sum.splits)

definition all_wf :: "cm_sys \<Rightarrow> bool" where
  "all_wf c \<longleftrightarrow> (\<forall>s \<in> set (sessions c). session_wf s)"

lemma put_session_wf: "all_wf c \<Longrightarrow> session_wf s \<Longrightarrow> all_wf (put_session k s c)"
  using set_update_subset_insert [of "sessions c" k s] by (auto simp: all_wf_def put_session_def)

lemma wf_nth: "all_wf c \<Longrightarrow> k < length (sessions c) \<Longrightarrow> session_wf (sessions c ! k)"
  by (simp add: all_wf_def)

lemma put_session_wf': "all_wf c \<Longrightarrow> (k < length (sessions c) \<Longrightarrow> session_wf s) \<Longrightarrow> all_wf (put_session k s c)"
  using put_session_wf [of c s k] by (cases "k < length (sessions c)") (auto simp: put_session_def list_update_beyond)

lemma all_wf_fields [simp]:
  "all_wf (c\<lparr>cur := a\<rparr>) = all_wf c" "all_wf (c\<lparr>waits := b\<rparr>) = all_wf c" "all_wf (c\<lparr>cm_os := d\<rparr>) = all_wf c"
  by (simp_all add: all_wf_def)

lemma shutdown_nr_wf: "all_wf c \<Longrightarrow> all_wf (fst (shutdown_nr k c))"
  by (auto simp: shutdown_nr_def case_prod_unfold Let_def intro!: put_session_wf' shutdown_wf wf_nth)

lemma shutdown_cur_wf: "all_wf c \<Longrightarrow> all_wf (fst (shutdown_cur c))"
  by (auto simp: shutdown_cur_def shutdown_nr_wf split: option.splits)

lemma open_wf: "all_wf c \<Longrightarrow> all_wf (fst (snd (open_channels scripts sdr chs c)))"
  using shutdown_cur_wf [of c] session_start_wf [of scripts sdr chs "cm_os (fst (shutdown_cur c))"]
  by (auto simp: open_channels_def all_wf_def case_prod_unfold Let_def split: option.splits)

lemma wait_next_wf: "all_wf c \<Longrightarrow> all_wf (fst (wait_next ok i k sdr ps c))"
  by (auto simp: wait_next_def wait_finish_def case_prod_unfold Let_def shutdown_nr_wf split: list.splits)

lemma wait_step_wf: "all_wf c \<Longrightarrow> all_wf (fst (wait_step order i t c))"
  by (auto simp: wait_step_def case_prod_unfold Let_def session_wf_def
      intro!: wait_next_wf put_session_wf' dest: wf_nth split: wait_phase.splits)

lemma on_cur_wf: "all_wf c \<Longrightarrow> (\<And>s. session_wf s \<Longrightarrow> session_wf (f s)) \<Longrightarrow> all_wf (on_cur f c)"
  by (auto simp: on_cur_def intro!: put_session_wf' wf_nth split: option.splits)

lemma cm_step_wf: "all_wf c \<Longrightarrow> all_wf (fst (cm_step scripts order c e))"
  by (cases e) (auto simp: open_wf on_cur_wf ready_to_start_wf module_ready_wf module_stopped_wf wait_step_wf
      on_session_end_def case_prod_unfold Let_def shutdown_cur_wf)

interpretation cmm: event_machine "cm_step scripts order" all_wf "\<lambda>_. True"
  by unfold_locales (simp_all add: cm_step_wf)

lemma all_wf_init: "all_wf cm_init"
  by (simp add: all_wf_def cm_init_def)

section \<open>Announced priorities\<close>

text \<open>Everyone expected has announced itself, someone with this priority.\<close>

definition announced :: "session \<Rightarrow> int \<Rightarrow> bool" where
  "announced s q \<longleftrightarrow> s_expected s \<subseteq> s_rts s \<and> q \<in> snd ` set (s_ready_chans s)"

definition plan_ok :: "session \<Rightarrow> bool" where
  "plan_ok s \<longleftrightarrow> (\<forall>q \<in> set (s_priorities s). announced s q)"

definition grows :: "session \<Rightarrow> session \<Rightarrow> bool" where
  "grows s s' \<longleftrightarrow> s_expected s' = s_expected s \<and> s_rts s \<subseteq> s_rts s' \<and> set (s_ready_chans s) \<subseteq> set (s_ready_chans s')"

text \<open>Every session keeps to what was announced, and so does every thread past its first wait.\<close>

definition wait_ok :: "cm_sys \<Rightarrow> nat \<times> string \<times> wait_phase \<Rightarrow> bool" where
  "wait_ok c w = (case w of (k, sdr, ph) \<Rightarrow> k < length (sessions c) \<and>
     (case ph of WaitStart \<Rightarrow> True | WaitReady p ps \<Rightarrow> (\<forall>q \<in> set (p # ps). announced (sessions c ! k) q)))"

definition start_inv :: "cm_sys \<Rightarrow> bool" where
  "start_inv c \<longleftrightarrow> (\<forall>s \<in> set (sessions c). session_wf s \<and> plan_ok s) \<and> (\<forall>w \<in> set (waits c). wait_ok c w)"

lemma announced_grows: "grows s s' \<Longrightarrow> announced s q \<Longrightarrow> announced s' q"
  by (auto simp: grows_def announced_def)

lemma plan_ok_grows: "grows s s' \<Longrightarrow> s_priorities s' = s_priorities s \<Longrightarrow> plan_ok s \<Longrightarrow> plan_ok s'"
  using announced_grows by (auto simp: plan_ok_def)

lemma handlers_grow:
  "grows s (snd (on_module_ready_to_start n p s))" "s_priorities (snd (on_module_ready_to_start n p s)) = s_priorities s"
  "grows s (snd (on_module_ready n s))" "s_priorities (snd (on_module_ready n s)) = s_priorities s"
  "grows s (on_module_stopped n s)" "s_priorities (on_module_stopped n s) = s_priorities s"
  "grows s (fst (session_shutdown s w))" "s_priorities (fst (session_shutdown s w)) = s_priorities s"
  by (auto simp: grows_def on_module_ready_to_start_def on_module_ready_def on_module_stopped_def
      session_shutdown_def case_prod_unfold Let_def split: option.splits)

lemma start_inv_cong: "sessions d = sessions c \<Longrightarrow> waits d = waits c \<Longrightarrow> start_inv d = start_inv c"
  by (simp add: start_inv_def wait_ok_def)

lemma start_inv_fields [simp]:
  "start_inv (c\<lparr>cur := a\<rparr>) = start_inv c" "start_inv (c\<lparr>cm_os := d\<rparr>) = start_inv c"
  by (simp_all add: start_inv_def wait_ok_def)

lemma put_session_start:
  assumes "start_inv c"
    and "k < length (sessions c) \<Longrightarrow> grows (sessions c ! k) s \<and> session_wf s \<and> plan_ok s"
  shows "start_inv (put_session k s c)"
proof (cases "k < length (sessions c)")
  case True
  have "announced ((sessions c)[k := s] ! j) q" if "announced (sessions c ! j) q" for j q
    using that True assms(2) announced_grows by (cases "j = k") auto
  then have "wait_ok (put_session k s c) w" if "wait_ok c w" for w
    using that by (auto simp: wait_ok_def put_session_def split: prod.splits wait_phase.splits)
  then show ?thesis
    using assms True set_update_subset_insert [of "sessions c" k s]
    by (auto simp: start_inv_def) (auto simp: put_session_def)
next
  case False
  then show ?thesis using assms(1) by (simp add: put_session_def list_update_beyond)
qed

lemma put_session_kept:
  assumes "start_inv c" and "\<And>s. grows s (f s)" and "\<And>s. s_priorities (f s) = s_priorities s"
    and "\<And>s. session_wf s \<Longrightarrow> session_wf (f s)"
  shows "start_inv (put_session k (f (sessions c ! k)) c)"
proof (rule put_session_start [OF assms(1)])
  assume "k < length (sessions c)"
  then have "session_wf (sessions c ! k) \<and> plan_ok (sessions c ! k)" using assms(1) by (simp add: start_inv_def)
  then show "grows (sessions c ! k) (f (sessions c ! k)) \<and> session_wf (f (sessions c ! k)) \<and> plan_ok (f (sessions c ! k))"
    using assms(2,4) plan_ok_grows [OF assms(2,3)] by blast
qed

lemma on_cur_start:
  "start_inv c \<Longrightarrow> (\<And>s. grows s (f s)) \<Longrightarrow> (\<And>s. s_priorities (f s) = s_priorities s) \<Longrightarrow>
   (\<And>s. session_wf s \<Longrightarrow> session_wf (f s)) \<Longrightarrow> start_inv (on_cur f c)"
  by (auto simp: on_cur_def put_session_kept split: option.splits)

lemma shutdown_nr_start: "start_inv c \<Longrightarrow> start_inv (fst (shutdown_nr k c))"
  using put_session_kept [of c "\<lambda>s. fst (session_shutdown s (cm_os c))" k]
  by (simp add: shutdown_nr_def case_prod_unfold Let_def handlers_grow shutdown_wf)

lemma shutdown_cur_start: "start_inv c \<Longrightarrow> start_inv (fst (shutdown_cur c))"
  by (auto simp: shutdown_cur_def shutdown_nr_start split: option.splits)

lemma session_start_plan: "plan_ok (fst (snd (session_start scripts sdr chs new_session w)))"
  by (auto simp: plan_ok_def session_start_def new_session_def Let_def split: prod.splits option.splits sum.splits)

lemma add_session_start:
  assumes "start_inv c" and "session_wf s" and "plan_ok s" and "ws = [] \<or> ws = [(length (sessions c), sdr, WaitStart)]"
  shows "start_inv (c\<lparr>sessions := sessions c @ [s], waits := waits c @ ws\<rparr>)"
proof -
  let ?c = "c\<lparr>sessions := sessions c @ [s], waits := waits c @ ws\<rparr>"
  have "wait_ok ?c w" if "wait_ok c w" for w
    using that by (auto simp: wait_ok_def nth_append split: prod.splits wait_phase.splits)
  moreover have "wait_ok ?c w" if "w \<in> set ws" for w
    using that assms(4) by (auto simp: wait_ok_def)
  ultimately show ?thesis using assms(1-3) by (auto simp: start_inv_def)
qed

lemma open_start: "start_inv c \<Longrightarrow> start_inv (fst (snd (open_channels scripts sdr chs c)))"
proof (cases "sdr = [] \<or> chs = []")
  case False
  assume inv: "start_inv c"
  let ?c1 = "fst (shutdown_cur c)"
  obtain x s w where st: "session_start scripts sdr chs new_session (cm_os ?c1) = (x, s, w)"
    by (cases "session_start scripts sdr chs new_session (cm_os ?c1)") auto
  have s: "session_wf s" "plan_ok s"
    using session_start_wf [of scripts sdr chs "cm_os ?c1"] session_start_plan [of scripts sdr chs "cm_os ?c1"] st by simp_all
  note add = add_session_start [OF shutdown_cur_start [OF inv] s]
  have "start_inv (?c1\<lparr>sessions := sessions ?c1 @ [s], waits := waits ?c1 @ [(length (sessions ?c1), sdr, WaitStart)]\<rparr>)"
    "start_inv (?c1\<lparr>sessions := sessions ?c1 @ [s]\<rparr>)"
    using add [of "[(length (sessions ?c1), sdr, WaitStart)]" sdr] add [of "[]" sdr] by simp_all
  note i = this [THEN start_inv_cong [THEN iffD2, rotated 2]]
  show ?thesis
    using False st by (auto simp: open_channels_def case_prod_unfold Let_def intro: i split: option.split)
qed (auto simp: open_channels_def)

lemma wait_finish_start: "start_inv c \<Longrightarrow> start_inv (fst (wait_finish ok k sdr c))"
  by (auto simp: wait_finish_def case_prod_unfold Let_def shutdown_nr_start)

lemma wait_next_start:
  assumes "start_inv c" and "k < length (sessions c)" and "\<forall>q \<in> set prios. announced (sessions c ! k) q"
  shows "start_inv (fst (wait_next ok i k sdr prios c))"
proof (cases prios)
  case Nil
  have "start_inv (c\<lparr>waits := drop_nth i (waits c)\<rparr>)"
    using assms(1) set_drop_nth [of i "waits c"] by (auto simp: start_inv_def wait_ok_def)
  with Nil show ?thesis by (simp add: wait_next_def wait_finish_start)
next
  case (Cons p ps)
  have "wait_ok c (k, sdr, WaitReady p ps)" using assms(2,3) Cons by (simp add: wait_ok_def)
  then show ?thesis
    using assms(1) Cons set_update_subset_insert [of "waits c" i "(k, sdr, WaitReady p ps)"]
    by (auto simp: wait_next_def start_inv_def wait_ok_def)
qed

lemma wait_step_start:
  assumes "start_inv c" and "\<And>xs. set (order xs) = set xs"
  shows "start_inv (fst (wait_step order i t c))"
proof (cases "i < length (waits c)")
  case True
  obtain k sdr ph where w: "waits c ! i = (k, sdr, ph)" by (cases "waits c ! i")
  have ok: "wait_ok c (k, sdr, ph)" using assms(1) w nth_mem [OF True] by (simp add: start_inv_def)
  then have k: "k < length (sessions c)" by (simp add: wait_ok_def)
  have s: "session_wf (sessions c ! k)" "plan_ok (sessions c ! k)" using assms(1) k by (simp_all add: start_inv_def)
  show ?thesis
  proof (cases ph)
    case WaitStart
    let ?ps = "order (remdups (map snd (s_ready_chans (sessions c ! k))))"
    let ?s = "(sessions c ! k)\<lparr>s_priorities := ?ps\<rparr>"
    have a: "\<forall>q \<in> set ?ps. announced ?s q" if "s_all_rts (sessions c ! k)"
      using s(1) that by (auto simp: announced_def session_wf_def assms(2))
    then have "start_inv (put_session k ?s c)" if "s_all_rts (sessions c ! k)"
      using that s(1) by (intro put_session_start [OF assms(1)]) (auto simp: grows_def plan_ok_def session_wf_def)
    then show ?thesis
      using True w WaitStart a k assms(1) s(2)
      by (auto simp: wait_step_def Let_def put_session_def plan_ok_def intro!: wait_next_start)
  next
    case (WaitReady p ps)
    let ?s = "(sessions c ! k)\<lparr>s_all_ready := False\<rparr>"
    have i: "start_inv (put_session k ?s c)"
      using s by (intro put_session_start [OF assms(1)]) (auto simp: grows_def session_wf_def intro: plan_ok_grows)
    have "\<forall>q \<in> set ps. announced (sessions (put_session k ?s c) ! k) q"
      using ok k WaitReady by (auto simp: wait_ok_def put_session_def announced_def)
    then have "start_inv (fst (wait_next b i k sdr ps (put_session k ?s c)))" for b
      using k by (intro wait_next_start [OF i]) (simp_all add: put_session_def)
    then show ?thesis
      using True w WaitReady assms(1) by (auto simp: wait_step_def Let_def case_prod_unfold)
  qed
qed (simp add: wait_step_def assms(1))

lemma cm_step_start:
  "start_inv c \<Longrightarrow> (\<And>xs. set (order xs) = set xs) \<Longrightarrow> start_inv (fst (cm_step scripts order c e))"
  using open_start on_cur_start handlers_grow ready_to_start_wf module_ready_wf module_stopped_wf wait_step_start
    shutdown_cur_start
  by (cases e) (simp_all add: on_session_end_def case_prod_unfold Let_def)

lemma cm_run_start:
  "start_inv c \<Longrightarrow> (\<And>xs. set (order xs) = set xs) \<Longrightarrow> start_inv (fst (run_events (cm_step scripts order) c es))"
proof (induction es arbitrary: c)
  case (Cons e es)
  then show ?case using cm_step_start [OF Cons.prems(1), of order scripts e] by (simp add: Let_def)
qed simp

lemma start_inv_init: "start_inv cm_init"
  by (simp add: start_inv_def cm_init_def)

lemma module_start_from: "(''channel_manager.module_start'', p) \<in> set (snd (cm_step scripts order c e)) \<Longrightarrow>
    \<exists>i t. e = WaitThread i t \<and> i < length (waits c)"
  by (cases e)
    (auto simp: open_channels_def on_session_end_def shutdown_cur_def shutdown_nr_def session_shutdown_def wait_step_def
      case_prod_unfold Let_def split: if_splits option.splits)

lemma wait_next_publishes:
  "(''channel_manager.module_start'', p) \<in> set (snd (wait_next ok i k sdr prios c)) \<Longrightarrow>
   \<exists>q \<in> set prios. p = [(''priority'', PInt q)]"
  by (auto simp: wait_next_def wait_finish_def shutdown_nr_def session_shutdown_def case_prod_unfold Let_def
      split: list.splits if_splits)

section \<open>Properties\<close>

text \<open>C4 No channel process outlives its session: with distinct channel identifiers and every script on
  disk, after any sequence of openings, announcements, ends of session, waits that succeed or time
  out and processes that exit, the processes that run are those of the current session; when there
  is none, no process runs.\<close>

theorem no_orphan_process:
  assumes "\<forall>e \<in> set es. ev_ok e" and "\<forall>t \<in> set channel_module_types. scripts t"
  shows "set (alive (cm_os (fst (run_events (cm_step scripts order) cm_init es)))) \<subseteq>
    (case cur (fst (run_events (cm_step scripts order) cm_init es)) of
       None \<Rightarrow> {}
     | Some k \<Rightarrow> launcher_pids (s_launcher (sessions (fst (run_events (cm_step scripts order) cm_init es)) ! k)))"
proof -
  have "cm_inv cm_init" by (simp add: cm_inv_def cm_init_def)
  from cm_run_inv [OF this assms, of order] show ?thesis by (simp add: cm_inv_def)
qed

definition demo_open :: cm_event where
  "demo_open = OpenChannels ''00'' [\<lparr>chan_id = 1, chan_desc = [(''input_channel'', PDict [])]\<rparr>,
     \<lparr>chan_id = 2, chan_desc = [(''sensor_channel'', PDict [])]\<rparr>]"

definition demo_sys :: cm_sys where
  "demo_sys = fst (run_events (cm_step (\<lambda>_. True) id) cm_init [demo_open])"

lemma no_orphan_process_witness:
  "set (alive (cm_os (fst (run_events (cm_step (\<lambda>_. True) id) cm_init [demo_open, SessionEnd])))) \<subseteq>
    (case cur (fst (run_events (cm_step (\<lambda>_. True) id) cm_init [demo_open, SessionEnd])) of
       None \<Rightarrow> {}
     | Some k \<Rightarrow> launcher_pids (s_launcher (sessions (fst (run_events (cm_step (\<lambda>_. True) id) cm_init [demo_open, SessionEnd])) ! k)))"
  by (rule no_orphan_process) (simp_all add: ev_ok_def demo_open_def)

text \<open>C17 No module is told to start before all have announced themselves: whatever has happened, when an
  event publishes \<^verbatim>\<open>module_start\<close>, for the first priority or a later one, it is a waiting thread that
  goes on, every process its session expects has sent \<^verbatim>\<open>module_ready_to_start\<close>, and the priority is one
  that an announced process gave.\<close>

theorem start_after_all_announced:
  assumes "c = fst (run_events (cm_step scripts order) cm_init es)" and "\<And>xs. set (order xs) = set xs"
    and "(''channel_manager.module_start'', p) \<in> set (snd (cm_step scripts order c e))"
  shows "\<exists>i t k sdr ph q ci. e = WaitThread i t \<and> i < length (waits c) \<and> waits c ! i = (k, sdr, ph) \<and>
    k < length (sessions c) \<and> s_expected (sessions c ! k) \<subseteq> s_rts (sessions c ! k) \<and>
    p = [(''priority'', PInt q)] \<and> (ci, q) \<in> set (s_ready_chans (sessions c ! k))"
proof -
  have inv: "start_inv c" unfolding assms(1) by (rule cm_run_start [OF start_inv_init assms(2)])
  obtain i t where e: "e = WaitThread i t" "i < length (waits c)" using module_start_from [OF assms(3)] by blast
  obtain k sdr ph where w: "waits c ! i = (k, sdr, ph)" by (cases "waits c ! i")
  have ok: "wait_ok c (k, sdr, ph)" using inv w nth_mem [OF e(2)] by (simp add: start_inv_def)
  then have k: "k < length (sessions c)" by (simp add: wait_ok_def)
  have s: "session_wf (sessions c ! k)" "plan_ok (sessions c ! k)" using inv k by (simp_all add: start_inv_def)
  have "\<exists>q. p = [(''priority'', PInt q)] \<and> announced (sessions c ! k) q"
    using assms(3) e w s ok
    by (auto simp: wait_step_def Let_def case_prod_unfold wait_ok_def plan_ok_def session_wf_def announced_def assms(2)
        dest!: wait_next_publishes split: wait_phase.splits if_splits)
  then show ?thesis using e w k by (auto simp: announced_def)
qed

definition demo_announced :: cm_sys where
  "demo_announced = fst (run_events (cm_step (\<lambda>_. True) id) cm_init
     [demo_open, ReadyToStart ''channel_input_1'' 1, ReadyToStart ''channel_sensor_2'' 2])"

lemma start_after_all_announced_witness:
  "\<exists>i t k sdr ph q ci. WaitThread 0 False = WaitThread i t \<and> i < length (waits demo_announced) \<and>
    waits demo_announced ! i = (k, sdr, ph) \<and> k < length (sessions demo_announced) \<and>
    s_expected (sessions demo_announced ! k) \<subseteq> s_rts (sessions demo_announced ! k) \<and>
    [(''priority'', PInt 1)] = [(''priority'', PInt q)] \<and> (ci, q) \<in> set (s_ready_chans (sessions demo_announced ! k))"
proof (rule start_after_all_announced [OF demo_announced_def])
  show "(''channel_manager.module_start'', [(''priority'', PInt 1)]) \<in> set (snd (cm_step (\<lambda>_. True) id demo_announced (WaitThread 0 False)))"
    by code_simp
qed simp

text \<open>A failed priority is forgotten: when the modules of one priority time out and those of the next
  become ready, the session is announced as complete on \<^verbatim>\<open>channels_ready\<close>, although modules that
  never became ready are missing.\<close>

theorem later_priority_hides_timeout:
  assumes "i < length (waits c)" and "waits c ! i = (k, sdr, WaitReady p [q])" and "k < length (sessions c)"
    and "\<not> s_all_ready (sessions c ! k)" and "m \<in> s_expected (sessions c ! k)" and "m \<notin> s_ready (sessions c ! k)"
    and "c1 = fst (wait_step order i True c)"
    and "c2 = put_session k ((sessions c1 ! k)\<lparr>s_all_ready := True\<rparr>) c1"
  shows "(''channel_manager.channels_ready'', [(''sdr_bytes_hex'', PStr sdr)]) \<in> set (snd (wait_step order i t c2)) \<and>
    m \<in> s_expected (sessions (fst (wait_step order i t c2)) ! k) \<and> m \<notin> s_ready (sessions (fst (wait_step order i t c2)) ! k)"
proof -
  let ?s = "(sessions c ! k)\<lparr>s_all_ready := False\<rparr>"
  have c1: "c1 = (put_session k ?s c)\<lparr>waits := (waits c)[i := (k, sdr, WaitReady q [])]\<rparr>"
    using assms(1-4,7) by (simp add: wait_step_def wait_next_def put_session_def Let_def)
  show ?thesis
    unfolding assms(8) c1
    using assms(1-6) by (simp add: wait_step_def wait_next_def wait_finish_def put_session_def Let_def)
qed

lemma later_priority_hides_timeout_witness:
  "let c = fst (wait_step id 0 False demo_announced); c1 = fst (wait_step id 0 True c);
       c2 = put_session 0 ((sessions c1 ! 0)\<lparr>s_all_ready := True\<rparr>) c1 in
   (''channel_manager.channels_ready'', [(''sdr_bytes_hex'', PStr ''00'')]) \<in> set (snd (wait_step id 0 False c2)) \<and>
    ''channel_input_1'' \<in> s_expected (sessions (fst (wait_step id 0 False c2)) ! 0) \<and>
    ''channel_input_1'' \<notin> s_ready (sessions (fst (wait_step id 0 False c2)) ! 0)"
proof -
  let ?c = "fst (wait_step id 0 False demo_announced)"
  have a: "0 < length (waits ?c)" "waits ?c ! 0 = (0, ''00'', WaitReady 1 [2])" "0 < length (sessions ?c)"
    "\<not> s_all_ready (sessions ?c ! 0)" "''channel_input_1'' \<in> s_expected (sessions ?c ! 0)"
    "''channel_input_1'' \<notin> s_ready (sessions ?c ! 0)"
    by code_simp+
  show ?thesis
    unfolding Let_def
    by (rule later_priority_hides_timeout [OF a(1-6) refl refl])
qed

text \<open>Channels are opened again at every later priority: when the wait for a priority succeeds,
  \<^verbatim>\<open>aa.channel.open\<close> is published for every channel active so far, those already opened for an
  earlier priority included.\<close>

theorem open_published_for_all_active:
  assumes "i < length (waits c)" and "waits c ! i = (k, sdr, WaitReady p ps)" and "s_all_ready (sessions c ! k)"
    and "ci \<in> set (s_active_chans (sessions c ! k))"
  shows "(''aa.channel.open'', info_payload ci) \<in> set (snd (wait_step order i t c)) \<and>
    (k \<ge> length (sessions c) \<or> s_active_chans (sessions (fst (wait_step order i t c)) ! k) = s_active_chans (sessions c ! k))"
  using assms
  by (cases "k < length (sessions c)"; cases ps)
    (auto simp: wait_step_def wait_next_def wait_finish_def put_session_def case_prod_unfold Let_def)

definition demo_active :: cm_sys where
  "demo_active = fst (run_events (cm_step (\<lambda>_. True) id) demo_announced
     [WaitThread 0 False, ModuleReady ''channel_input_1'', WaitThread 0 False, ModuleReady ''channel_sensor_2''])"

lemma open_published_for_all_active_witness:
  "(''aa.channel.open'', info_payload \<lparr>ci_name = ''channel_input_1'', ci_type = ''input'', ci_chan = 1\<rparr>)
      \<in> set (snd (wait_step id 0 False demo_active)) \<and>
   (0 \<ge> length (sessions demo_active) \<or>
    s_active_chans (sessions (fst (wait_step id 0 False demo_active)) ! 0) = s_active_chans (sessions demo_active ! 0))"
proof (rule open_published_for_all_active)
  show "0 < length (waits demo_active)" "waits demo_active ! 0 = (0, ''00'', WaitReady 2 [])"
    "s_all_ready (sessions demo_active ! 0)"
    by code_simp+
  show "\<lparr>ci_name = ''channel_input_1'', ci_type = ''input'', ci_chan = 1\<rparr> \<in> set (s_active_chans (sessions demo_active ! 0))"
    by code_simp
qed

text \<open>The thread of an abandoned session stops the modules of the one that replaced it: when its wait
  times out it publishes \<^verbatim>\<open>channel_manager.module_stop\<close>, which is addressed to every channel module,
  while the new session stays current.\<close>

theorem stale_wait_stops_new_session:
  assumes "i < length (waits c)" and "waits c ! i = (k, sdr, WaitStart)" and "\<not> s_all_rts (sessions c ! k)"
    and "s_priorities (sessions c ! k) = []" and "cur c = Some k'" and "k' \<noteq> k"
  shows "(''channel_manager.module_stop'', []) \<in> set (snd (wait_step order i True c)) \<and>
    cur (fst (wait_step order i True c)) = Some k' \<and>
    sessions (fst (wait_step order i True c)) ! k' = sessions c ! k'"
  using assms shutdown_nr_fields(1,4) [where k = k and c = "c\<lparr>waits := drop_nth i (waits c)\<rparr>"]
  by (auto simp: wait_step_def wait_next_def wait_finish_def shutdown_nr_def session_shutdown_def case_prod_unfold Let_def)

definition demo_stale :: cm_sys where
  "demo_stale = fst (run_events (cm_step (\<lambda>_. True) id) cm_init [demo_open, SessionEnd, demo_open])"

lemma stale_wait_stops_new_session_witness:
  "(''channel_manager.module_stop'', []) \<in> set (snd (wait_step id 0 True demo_stale)) \<and>
    cur (fst (wait_step id 0 True demo_stale)) = Some 1 \<and>
    sessions (fst (wait_step id 0 True demo_stale)) ! 1 = sessions demo_stale ! 1"
proof (rule stale_wait_stops_new_session)
  show "0 < length (waits demo_stale)" "waits demo_stale ! 0 = (0, ''00'', WaitStart)"
    "\<not> s_all_rts (sessions demo_stale ! 0)" "s_priorities (sessions demo_stale ! 0) = []" "cur demo_stale = Some 1"
    by code_simp+
qed simp

end
