(* ===== verification/ServiceDiscovery.thy ===== *)
theory ServiceDiscovery
  imports SdrDescriptors ChannelManager OaaHandshake
begin

text \<open>
  \<^verbatim>\<open>v2/modules/oaa_control_channel/service_discovery.py\<close> and the channel helpers of
  \<^verbatim>\<open>v2/shared/proto_utils.py\<close>: the default configuration, the response built from a configuration,
  and the list of channels read back from its bytes. The protobuf runtime (serialising, parsing, the
  check of an assigned value) is the parameter \<open>pb_lib\<close>. The properties follow a configuration
  through the handshake to the channel manager.
\<close>

section \<open>Default configuration\<close>

definition audio_cfg :: "int \<Rightarrow> pyval" where
  "audio_cfg channels =
     PDict [(''sample_rate'', PInt 48000), (''bit_depth'', PInt 16), (''channel_count'', PInt channels)]"

definition audio_defaults :: "int \<Rightarrow> string \<Rightarrow> string \<Rightarrow> int \<Rightarrow> pyval" where
  "audio_defaults channel codec audio_type channels =
     PDict [(''channel_id'', PInt channel),
            (''av_channel'', PDict [(''codec'', PStr codec), (''audio_type'', PStr audio_type),
                                    (''audio_configs'', PList [audio_cfg channels])])]"

definition channel_defaults :: "pyval list" where
  "channel_defaults =
     [PDict [(''channel_id'', PInt 1),
             (''input_channel'', PDict
                [(''touch_screen_configs'', PList [PDict [(''width'', PInt 1280), (''height'', PInt 720)]]),
                 (''supported_keycodes'', PList (map PInt [3, 4, 84, 85, 86, 87, 88, 126, 127, 219, 231]))])],
      PDict [(''channel_id'', PInt 2),
             (''sensor_channel'', PDict
                [(''sensors'', PList [PDict [(''type'', PStr ''NIGHT_DATA'')],
                                      PDict [(''type'', PStr ''DRIVING_STATUS'')],
                                      PDict [(''type'', PStr ''PARKING_BRAKE'')]])])],
      PDict [(''channel_id'', PInt 3),
             (''av_channel'', PDict
                [(''codec'', PStr ''MEDIA_CODEC_VIDEO_H264_BP''),
                 (''video_configs'', PList
                    [PDict [(''video_resolution'', PStr ''VIDEO_1280x720''), (''video_fps'', PStr ''_30''),
                            (''margin_width'', PInt 0), (''margin_height'', PInt 0), (''dpi'', PInt 140)]])])],
      audio_defaults 4 ''MEDIA_CODEC_AUDIO_AAC_LC_ADTS'' ''MEDIA'' 2,
      audio_defaults 5 ''MEDIA_CODEC_AUDIO_PCM'' ''SPEECH'' 1,
      audio_defaults 6 ''MEDIA_CODEC_AUDIO_PCM'' ''SYSTEM'' 1,
      PDict [(''channel_id'', PInt 7),
             (''av_input_channel'', PDict [(''codec'', PStr ''MEDIA_CODEC_AUDIO_PCM''), (''audio_config'', audio_cfg 1)])]]"

definition SEMANTIC_DEFAULTS :: payload where
  "SEMANTIC_DEFAULTS =
     [(''head_unit_name'', PStr ''NemoHeadUnit''),
      (''headunit_manufacturer'', PStr ''Nemo''),
      (''headunit_model'', PStr ''NemoHeadUnit-Wireless''),
      (''sw_version'', PStr ''2.0''),
      (''sw_build'', PStr ''1''),
      (''car_model'', PStr ''Universal''),
      (''car_year'', PStr ''2025''),
      (''car_serial'', PStr ''20250101''),
      (''driver_position'', PStr ''LEFT''),
      (''can_play_native_media_during_vr'', PBool True),
      (''channels'', PList channel_defaults)]"

text \<open>\<^verbatim>\<open>_apply_defaults_to_schema\<close> replaces the defaults of scalar and list nodes, in place.\<close>

definition apply_default :: "string \<Rightarrow> pyval \<Rightarrow> schema \<Rightarrow> schema" where
  "apply_default k v S =
     (case map_of S k of
        Some (NScalar s) \<Rightarrow> dset k (NScalar (s\<lparr>sc_default := v\<rparr>)) S
      | Some (NList item deflt) \<Rightarrow> dset k (NList item (case v of PList l \<Rightarrow> v | _ \<Rightarrow> PList [])) S
      | _ \<Rightarrow> S)"

definition apply_defaults_to_schema :: "schema \<Rightarrow> payload \<Rightarrow> schema" where
  "apply_defaults_to_schema S overrides = foldl (\<lambda>acc (k, v). apply_default k v acc) S overrides"

definition sdr_schema :: schema where
  "sdr_schema = apply_defaults_to_schema (schema_from_proto sdr_pool ''ServiceDiscoveryResponse'') SEMANTIC_DEFAULTS"

section \<open>The protobuf runtime\<close>

record pb_lib =
  pb_ser :: "pmsg \<Rightarrow> bytes res"
  pb_parse :: "bytes \<Rightarrow> pmsg res"
  pb_accepts :: pb_check
  pb_text :: py_text

text \<open>What its documentation promises: parsing what was serialised gives the message, the empty string is
  the empty message where nothing is required, values in the range of a field are accepted.\<close>

fun in_range :: "ftype \<Rightarrow> pyval \<Rightarrow> bool" where
  "in_range TInt (PInt i) = (0 \<le> i \<and> i < 2 ^ 31)"
| "in_range (TEnum vs) (PInt i) = (i \<in> snd ` set vs)"
| "in_range TBool (PBool b) = True"
| "in_range TString (PStr s) = True"
| "in_range t v = False"

definition pb_ok :: "pb_lib \<Rightarrow> bool" where
  "pb_ok B \<longleftrightarrow> (\<forall>m b. pb_ser B m = Inr b \<longrightarrow> pb_parse B b = Inr m) \<and>
     pb_parse B [] = Inr (PMsg []) \<and> (\<forall>t v. in_range t v \<longrightarrow> pb_accepts B t v = None)"

definition encode_proto :: "pb_lib \<Rightarrow> pmsg \<Rightarrow> bytes" where
  "encode_proto B m = (case pb_ser B m of Inl x \<Rightarrow> [] | Inr b \<Rightarrow> b)"

definition decode_proto :: "pb_lib \<Rightarrow> bytes \<Rightarrow> pmsg option" where
  "decode_proto B data = (if data = [] then None else case pb_parse B data of Inl x \<Rightarrow> None | Inr m \<Rightarrow> Some m)"

text \<open>Reading a scalar field, and changing every element of a repeated message field.\<close>

definition p_get :: "pmsg \<Rightarrow> string \<Rightarrow> pyval \<Rightarrow> pyval" where
  "p_get m k deflt = (case p_look m k of Some (FVal v) \<Rightarrow> v | _ \<Rightarrow> deflt)"

definition p_each :: "string \<Rightarrow> (pmsg \<Rightarrow> pmsg) \<Rightarrow> pmsg \<Rightarrow> pmsg" where
  "p_each k f m =
     PMsg (map (\<lambda>(j, v). (j, if j = k then (case v of FMsgs l \<Rightarrow> FMsgs (map f l) | _ \<Rightarrow> v) else v)) (set_fields m))"

section \<open>Building\<close>

definition put_in_sub :: "string \<Rightarrow> string \<Rightarrow> string \<Rightarrow> pmsg \<Rightarrow> pmsg" where
  "put_in_sub sub n v ch =
     (if p_has ch sub
      then (case find (\<lambda>fd. f_name fd = sub) (m_fields msg_ChannelDescriptor) of
              Some fd \<Rightarrow> (case f_type fd of
                  TMessage t \<Rightarrow> p_put msg_ChannelDescriptor sub
                     (Some (FMsg (p_put (msg_desc sdr_pool t) n (Some (FVal (PStr v))) (p_sub ch sub)))) ch
                | _ \<Rightarrow> ch)
            | None \<Rightarrow> ch)
      else ch)"

definition inject_runtime :: "string \<Rightarrow> string \<Rightarrow> pmsg \<Rightarrow> pmsg" where
  "inject_runtime bt_mac wifi_bssid resp =
     p_each ''channels'' (\<lambda>ch. put_in_sub ''wifi_channel'' ''bssid'' wifi_bssid
                                 (put_in_sub ''bluetooth_channel'' ''adapter_address'' bt_mac ch)) resp"

definition sdr_message :: "pb_lib \<Rightarrow> payload \<Rightarrow> string \<Rightarrow> string \<Rightarrow> pmsg res" where
  "sdr_message B cfg bt_mac wifi_bssid =
     rbind (dict_to_proto sdr_pool (pb_text B) (pb_accepts B) msg_ServiceDiscoveryResponse cfg (False, PMsg []))
       (\<lambda>r. Inr (inject_runtime bt_mac wifi_bssid (snd r)))"

definition build_from_schema_cfg :: "pb_lib \<Rightarrow> payload \<Rightarrow> string \<Rightarrow> string \<Rightarrow> bytes res" where
  "build_from_schema_cfg B cfg bt_mac wifi_bssid =
     rbind (sdr_message B cfg bt_mac wifi_bssid) (\<lambda>m. Inr (encode_proto B m))"

section \<open>Reading back\<close>

definition ONEOF_CHANNEL_FIELDS :: "string list" where
  "ONEOF_CHANNEL_FIELDS =
     [''av_channel'', ''sensor_channel'', ''input_channel'', ''bluetooth_channel'', ''wifi_channel'',
      ''navigation_channel'', ''media_info_channel'', ''av_input_channel'', ''phone_status_channel'']"

definition SDR_AUDIO_CODECS :: "int list" where "SDR_AUDIO_CODECS = [4, 1, 2]"

text \<open>The two readers differ in what they say of an audio channel: \<open>extra\<close>.\<close>

definition channel_entry :: "(pmsg \<Rightarrow> payload) \<Rightarrow> pmsg \<Rightarrow> payload" where
  "channel_entry extra ch =
     (''channel_id'', p_get ch ''channel_id'' (PInt 0)) #
     (case find (p_has ch) ONEOF_CHANNEL_FIELDS of
        None \<Rightarrow> []
      | Some k \<Rightarrow>
          (if k = ''av_channel'' then
             (let sub = p_sub ch k; codec = p_get sub ''codec'' (PInt 0) in
              [(k, PDict ((''av_type'', codec) #
                          (if (\<exists>n \<in> set SDR_AUDIO_CODECS. py_eq_int codec n)
                           then (''audio_type'', p_get sub ''audio_type'' (PInt 0)) # extra sub else [])))])
           else [(k, PDict [])]))"

definition channels_from_sdr_bytes :: "pb_lib \<Rightarrow> bytes \<Rightarrow> payload list" where
  "channels_from_sdr_bytes B sdr =
     (case pb_parse B sdr of
        Inl x \<Rightarrow> []
      | Inr resp \<Rightarrow> map (channel_entry (\<lambda>_. [])) (p_msgs resp ''channels''))"

definition message_from_sdr_bytes :: "pb_lib \<Rightarrow> bytes \<Rightarrow> pmsg option" where
  "message_from_sdr_bytes B sdr = (case pb_parse B sdr of Inl x \<Rightarrow> None | Inr m \<Rightarrow> Some m)"

text \<open>The reader of \<^verbatim>\<open>proto_utils\<close> takes hexadecimal and adds the audio formats.\<close>

definition enum_name :: "mdesc \<Rightarrow> pmsg \<Rightarrow> string \<Rightarrow> string" where
  "enum_name D m k =
     (case find (\<lambda>fd. f_name fd = k) (m_fields D) of
        None \<Rightarrow> []
      | Some fd \<Rightarrow>
          (case f_type fd of
             TEnum vs \<Rightarrow> (case find (\<lambda>nv. py_eq_int (p_get m k (PInt 0)) (snd nv)) vs of None \<Rightarrow> [] | Some nv \<Rightarrow> fst nv)
           | _ \<Rightarrow> []))"

definition audio_configs_of :: "pmsg \<Rightarrow> payload" where
  "audio_configs_of sub =
     [(''audio_configs'', PList (map (\<lambda>ac. PDict
         [(''sample_rate'', p_get ac ''sample_rate'' (PInt 0)), (''bit_depth'', p_get ac ''bit_depth'' (PInt 0)),
          (''channel_count'', p_get ac ''channel_count'' (PInt 0)), (''codec'', PStr (enum_name msg_AudioConfig ac ''codec''))])
        (p_msgs sub ''audio_configs'')))]"

definition channels_from_sdr_hex :: "pb_lib \<Rightarrow> pyval \<Rightarrow> payload list" where
  "channels_from_sdr_hex B h =
     (case rbind (py_fromhex h) (pb_parse B) of
        Inl x \<Rightarrow> []
      | Inr resp \<Rightarrow> map (channel_entry audio_configs_of) (p_msgs resp ''channels''))"

definition channel_config_from_sdr :: "pb_lib \<Rightarrow> pyval \<Rightarrow> int \<Rightarrow> payload option" where
  "channel_config_from_sdr B h channel_id =
     find (\<lambda>ch. py_eq_int (dget ch ''channel_id'') channel_id) (channels_from_sdr_hex B h)"

section \<open>The default session\<close>

text \<open>A channel as the registry takes it: its identifier and the rest of its entry.\<close>

definition as_channel :: "payload \<Rightarrow> channel" where
  "as_channel ch =
     \<lparr>chan_id = (case dget ch ''channel_id'' of PInt i \<Rightarrow> i | _ \<Rightarrow> 0), chan_desc = filter (\<lambda>kv. fst kv \<noteq> ''channel_id'') ch\<rparr>"

definition default_message :: pmsg where
  "default_message =
     PMsg [(''channels'', FMsgs [PMsg [(''channel_id'', FVal (PInt 1)), (''input_channel'',
      FMsg (PMsg [(''supported_keycodes'', FVals [PInt 3, PInt 4, PInt 84, PInt 85, PInt 86, PInt 87, PInt 88,
      PInt 126, PInt 127, PInt 219, PInt 231]), (''touch_screen_configs'', FMsgs [PMsg [(''width'',
      FVal (PInt 1280)), (''height'', FVal (PInt 720))]])]))], PMsg [(''channel_id'', FVal (PInt 2)),
      (''sensor_channel'', FMsg (PMsg [(''sensors'', FMsgs [PMsg [(''type'', FVal (PInt 10))], PMsg [(''type'',
      FVal (PInt 13))], PMsg [(''type'', FVal (PInt 7))]])]))], PMsg [(''channel_id'', FVal (PInt 3)),
      (''av_channel'', FMsg (PMsg [(''codec'', FVal (PInt 3)), (''video_configs'',
      FMsgs [PMsg [(''video_resolution'', FVal (PInt 2)), (''video_fps'', FVal (PInt 2)), (''margin_width'',
      FVal (PInt 0)), (''margin_height'', FVal (PInt 0)), (''dpi'', FVal (PInt 140))]])]))], PMsg [(''channel_id'',
      FVal (PInt 4)), (''av_channel'', FMsg (PMsg [(''codec'', FVal (PInt 4)), (''audio_type'', FVal (PInt 3)),
      (''audio_configs'', FMsgs [PMsg [(''sample_rate'', FVal (PInt 48000)), (''bit_depth'', FVal (PInt 16)),
      (''channel_count'', FVal (PInt 2))]])]))], PMsg [(''channel_id'', FVal (PInt 5)), (''av_channel'',
      FMsg (PMsg [(''codec'', FVal (PInt 1)), (''audio_type'', FVal (PInt 1)), (''audio_configs'',
      FMsgs [PMsg [(''sample_rate'', FVal (PInt 48000)), (''bit_depth'', FVal (PInt 16)), (''channel_count'',
      FVal (PInt 1))]])]))], PMsg [(''channel_id'', FVal (PInt 6)), (''av_channel'', FMsg (PMsg [(''codec'',
      FVal (PInt 1)), (''audio_type'', FVal (PInt 2)), (''audio_configs'', FMsgs [PMsg [(''sample_rate'',
      FVal (PInt 48000)), (''bit_depth'', FVal (PInt 16)), (''channel_count'', FVal (PInt 1))]])]))],
      PMsg [(''channel_id'', FVal (PInt 7)), (''av_input_channel'', FMsg (PMsg [(''audio_config'',
      FMsg (PMsg [(''sample_rate'', FVal (PInt 48000)), (''bit_depth'', FVal (PInt 16)), (''channel_count'',
      FVal (PInt 1))]))]))]]), (''head_unit_name'', FVal (PStr ''NemoHeadUnit'')), (''car_model'',
      FVal (PStr ''Universal'')), (''car_year'', FVal (PStr ''2025'')), (''car_serial'', FVal (PStr ''20250101'')),
      (''driver_position'', FVal (PInt 0)), (''headunit_manufacturer'', FVal (PStr ''Nemo'')), (''headunit_model'',
      FVal (PStr ''NemoHeadUnit-Wireless'')), (''sw_build'', FVal (PStr ''1'')), (''sw_version'',
      FVal (PStr ''2.0'')), (''can_play_native_media_during_vr'', FVal (PBool True))]"

lemma default_populated:
  "dict_to_proto sdr_pool T (\<lambda>t v. if in_range t v then None else A t v) msg_ServiceDiscoveryResponse SEMANTIC_DEFAULTS
     (False, PMsg []) = Inr (True, default_message)"
  by code_simp

lemma pb_ok_accepts: "pb_ok B \<Longrightarrow> pb_accepts B = (\<lambda>t v. if in_range t v then None else pb_accepts B t v)"
  by (intro ext) (auto simp: pb_ok_def)

lemma default_injected: "inject_runtime bt_mac wifi_bssid default_message = default_message"
  by code_simp

lemma default_sdr_message:
  assumes "pb_ok B"
  shows "sdr_message B SEMANTIC_DEFAULTS bt_mac wifi_bssid = Inr default_message"
  unfolding sdr_message_def
  by (subst pb_ok_accepts [OF assms]) (simp add: default_populated default_injected)

definition default_launches :: "string \<Rightarrow> launch list" where
  "default_launches sdr =
     map (\<lambda>(t, c). \<lparr>l_name = chan_module_name t c, l_type = t, l_chan = c, l_sdr = sdr\<rparr>)
       [(''input'', 1), (''sensor'', 2), (''video'', 3), (''audio'', 4), (''audio'', 5), (''audio'', 6), (''av_input'', 7)]"

lemma default_plan:
  "launch_plan sdr (map as_channel (map (channel_entry (\<lambda>_. [])) (p_msgs default_message ''channels''))) =
     (None, default_launches sdr)"
  by code_simp

lemma encode_proto_parsed: "pb_ok B \<Longrightarrow> encode_proto B m = b \<Longrightarrow> b \<noteq> [] \<Longrightarrow> pb_parse B b = Inr m"
  by (auto simp: pb_ok_def encode_proto_def split: sum.splits)

text \<open>C3 The default configuration gives a full session: whatever addresses are injected, when the
  response built from it serialises, the channel list read back from its bytes resolves to the seven
  modules input, sensor, video, three audio and microphone on channels 1 to 7, and each audio module
  finds its own sampling format in the same bytes. These are the values of \<^verbatim>\<open>SEMANTIC_DEFAULTS\<close>; the
  file's header lists more channels, PCM on channel 4 and 16 kHz on channel 6.\<close>

theorem default_config_launches:
  assumes "pb_ok B" and "build_from_schema_cfg B SEMANTIC_DEFAULTS bt_mac wifi_bssid = Inr b" and "b \<noteq> []"
  shows "launch_plan sdr (map as_channel (channels_from_sdr_bytes B b)) = (None, default_launches sdr) \<and>
    map (channel_config_from_sdr B (PStr (bytes_hex b))) [4, 5, 6] =
      map (\<lambda>(c, t, f, n). Some [(''channel_id'', PInt c), (''av_channel'', PDict
         [(''av_type'', PInt t), (''audio_type'', PInt f), (''audio_configs'', PList [PDict
            [(''sample_rate'', PInt 48000), (''bit_depth'', PInt 16), (''channel_count'', PInt n), (''codec'', PStr [])]])])])
        [(4, 4, 3, 2), (5, 1, 1, 1), (6, 1, 2, 1)]"
proof -
  have "pb_parse B b = Inr default_message"
    using assms encode_proto_parsed by (auto simp: build_from_schema_cfg_def default_sdr_message)
  then have c: "channels_from_sdr_bytes B b = map (channel_entry (\<lambda>_. [])) (p_msgs default_message ''channels'')"
    and h: "channels_from_sdr_hex B (PStr (bytes_hex b)) = map (channel_entry audio_configs_of) (p_msgs default_message ''channels'')"
    by (simp_all add: channels_from_sdr_bytes_def channels_from_sdr_hex_def)
  show ?thesis
    unfolding c default_plan channel_config_from_sdr_def h by code_simp
qed

text \<open>A runtime for the examples: it serialises the default response and refuses every other message.\<close>

definition demo_pb :: pb_lib where
  "demo_pb =
     \<lparr>pb_ser = (\<lambda>m. if m = default_message then Inr [8, 1] else Inl (OtherError ''EncodeError'')),
      pb_parse = (\<lambda>b. if b = [] then Inr (PMsg []) else if b = [8, 1] then Inr default_message else Inl ValueError),
      pb_accepts = (\<lambda>t v. if in_range t v then None else Some ValueError),
      pb_text = \<lparr>t_repr = (\<lambda>_. []), t_float = (\<lambda>_. None), t_round = (\<lambda>_. None)\<rparr>\<rparr>"

lemma demo_pb_ok: "pb_ok demo_pb"
  by (simp add: pb_ok_def demo_pb_def)

lemma default_config_launches_witness:
  "launch_plan ''0801'' (map as_channel (channels_from_sdr_bytes demo_pb [8, 1])) = (None, default_launches ''0801'') \<and>
    map (channel_config_from_sdr demo_pb (PStr (bytes_hex [8, 1]))) [4, 5, 6] =
      map (\<lambda>(c, t, f, n). Some [(''channel_id'', PInt c), (''av_channel'', PDict
         [(''av_type'', PInt t), (''audio_type'', PInt f), (''audio_configs'', PList [PDict
            [(''sample_rate'', PInt 48000), (''bit_depth'', PInt 16), (''channel_count'', PInt n), (''codec'', PStr [])]])])])
        [(4, 4, 3, 2), (5, 1, 1, 1), (6, 1, 2, 1)]"
proof (rule default_config_launches [OF demo_pb_ok])
  show "build_from_schema_cfg demo_pb SEMANTIC_DEFAULTS [] [] = Inr [8, 1]"
    by (simp add: build_from_schema_cfg_def default_sdr_message [OF demo_pb_ok] encode_proto_def) (simp add: demo_pb_def)
qed simp

section \<open>Configurations that do not start\<close>

text \<open>The control channel on this service discovery. The log line of \<^verbatim>\<open>on_channels_ready\<close> fails on bytes
  that do not parse.\<close>

definition sdr_ctl_lib :: "pb_lib \<Rightarrow> string \<Rightarrow> string \<Rightarrow> ctl_lib \<Rightarrow> ctl_lib" where
  "sdr_ctl_lib B bt_mac wifi_bssid L =
     L\<lparr>build_sdr := (\<lambda>cfg. build_from_schema_cfg B cfg bt_mac wifi_bssid),
       sdr_channels := (\<lambda>b. Inr (map PDict (channels_from_sdr_bytes B b))),
       sdr_loggable := (\<lambda>b. case message_from_sdr_bytes B b of None \<Rightarrow> Some AttributeError | Some m \<Rightarrow> None)\<rparr>"

text \<open>A configuration the runtime refuses to serialise, such as a touch screen with no height, stops
  discovery silently: the exception is swallowed, the control channel asks for an empty response and
  no channels and waits, and the channel manager ignores the request, whatever its state.\<close>

theorem unserialisable_config_hangs:
  assumes "pb_ok B" and "sdr_message B cfg bt_mac wifi_bssid = Inr m" and "pb_ser B m = Inl x"
  shows "on_service_discovery_request (sdr_ctl_lib B bt_mac wifi_bssid L) cfg body enc h =
      (None, h\<lparr>c_state := WAITING_CHANNELS, c_sdr_enc := enc\<rparr>,
       [Publish ''oaa_control_channel.open_channels'' [(''sdr_bytes_hex'', PStr []), (''channels'', PList [])]]) \<and>
    open_channels scripts [] (map as_channel (channels_from_sdr_bytes B [])) c = (None, c, [])"
proof -
  have b: "build_from_schema_cfg B cfg bt_mac wifi_bssid = Inr []"
    using assms(2,3) by (simp add: build_from_schema_cfg_def encode_proto_def)
  have ch: "channels_from_sdr_bytes B [] = []"
    using assms(1) by (simp add: pb_ok_def channels_from_sdr_bytes_def p_msgs_def p_look_def)
  show ?thesis
    by (simp add: on_service_discovery_request_def sdr_ctl_lib_def b ch open_channels_def bytes_hex_def)
qed

definition flat_screen_cfg :: payload where
  "flat_screen_cfg =
     [(''channels'', PList [PDict [(''channel_id'', PInt 1), (''input_channel'', PDict
        [(''touch_screen_configs'', PList [PDict [(''width'', PInt 1280)]])])]])]"

definition flat_screen_message :: pmsg where
  "flat_screen_message =
     PMsg [(''channels'', FMsgs [PMsg [(''channel_id'', FVal (PInt 1)), (''input_channel'', FMsg
        (PMsg [(''touch_screen_configs'', FMsgs [PMsg [(''width'', FVal (PInt 1280))]])]))]])]"

lemma unserialisable_config_hangs_witness:
  "on_service_discovery_request (sdr_ctl_lib demo_pb [] [] demo_ctl) flat_screen_cfg [] True new_ctl =
      (None, new_ctl\<lparr>c_state := WAITING_CHANNELS, c_sdr_enc := True\<rparr>,
       [Publish ''oaa_control_channel.open_channels'' [(''sdr_bytes_hex'', PStr []), (''channels'', PList [])]]) \<and>
    open_channels (\<lambda>_. True) [] (map as_channel (channels_from_sdr_bytes demo_pb [])) cm_init = (None, cm_init, [])"
proof (rule unserialisable_config_hangs [OF demo_pb_ok])
  show "sdr_message demo_pb flat_screen_cfg [] [] = Inr flat_screen_message" by code_simp
  show "pb_ser demo_pb flat_screen_message = Inl (OtherError ''EncodeError'')" by code_simp
qed

text \<open>What a channel descriptor resolves to. Enumerated fields of a parsed message are integers.\<close>

definition av_fields :: "pmsg \<Rightarrow> (int \<times> int) option" where
  "av_fields ch =
     (case (p_get (p_sub ch ''av_channel'') ''codec'' (PInt 0), p_get (p_sub ch ''av_channel'') ''audio_type'' (PInt 0)) of
        (PInt c, PInt a) \<Rightarrow> Some (c, a) | _ \<Rightarrow> None)"

definition service_type :: "pmsg \<Rightarrow> string res" where
  "service_type ch =
     (case find (p_has ch) ONEOF_CHANNEL_FIELDS of
        None \<Rightarrow> Inl SkipChannel
      | Some k \<Rightarrow>
          (if k = ''av_channel'' then
             (case av_fields ch of
                None \<Rightarrow> Inl KeyError
              | Some (c, a) \<Rightarrow> (if c \<in> {3, 5, 6, 7} then Inr ''video''
                               else if c \<in> {1, 2, 4} \<and> a \<in> {1, 2, 3} then Inr ''audio'' else Inl KeyError))
           else if k = ''sensor_channel'' then Inr ''sensor''
           else if k = ''input_channel'' then Inr ''input''
           else if k = ''av_input_channel'' then Inr ''av_input''
           else if k = ''bluetooth_channel'' then Inr ''bluetooth''
           else if k = ''wifi_channel'' then Inr ''wifi''
           else Inl SkipChannel))"

lemma find_channel_field: "find (p_has ch) ONEOF_CHANNEL_FIELDS = Some k \<Longrightarrow> k \<in> set ONEOF_CHANNEL_FIELDS"
  by (auto simp: find_Some_iff)

lemma entry_resolves:
  assumes "av_fields ch \<noteq> None"
  shows "resolve_module_type (as_channel (channel_entry (\<lambda>_. []) ch)) = service_type ch"
proof -
  obtain c a where ca: "p_get (p_sub ch ''av_channel'') ''codec'' (PInt 0) = PInt c"
      "p_get (p_sub ch ''av_channel'') ''audio_type'' (PInt 0) = PInt a"
    using assms by (auto simp: av_fields_def split: pyval.splits)
  show ?thesis
  proof (cases "find (p_has ch) ONEOF_CHANNEL_FIELDS")
    case None
    then show ?thesis
      by (simp add: service_type_def channel_entry_def as_channel_def resolve_module_type_def)
  next
    case (Some k)
    show ?thesis
    proof (cases "k = ''av_channel''")
      case True
      then show ?thesis
        using Some ca by (auto simp: service_type_def channel_entry_def as_channel_def resolve_module_type_def av_fields_def
            resolve_av_def in_ints_def dget_def dget_or_def registry_consts SDR_AUDIO_CODECS_def)
    next
      case False
      then show ?thesis
        using Some find_channel_field [OF Some]
        by (auto simp: ONEOF_CHANNEL_FIELDS_def service_type_def channel_entry_def as_channel_def resolve_module_type_def SKIP_KEYS_def)
    qed
  qed
qed

definition channel_no :: "pmsg \<Rightarrow> int" where
  "channel_no ch = (case p_get ch ''channel_id'' (PInt 0) of PInt i \<Rightarrow> i | _ \<Rightarrow> 0)"

definition plain_entry :: "pmsg \<Rightarrow> channel" where
  "plain_entry ch = as_channel (channel_entry (\<lambda>_. []) ch)"

lemma plain_entry_id: "chan_id (plain_entry ch) = channel_no ch"
  by (simp add: plain_entry_def as_channel_def channel_entry_def channel_no_def dget_def dget_or_def)

lemma service_type_errors: "service_type ch = Inl x \<Longrightarrow> x = SkipChannel \<or> x = KeyError"
  by (auto simp: service_type_def split: option.splits if_splits prod.splits)

lemma plan_blocked:
  assumes "\<forall>ch \<in> set chs. av_fields ch \<noteq> None"
    and "\<exists>ch \<in> set chs. channel_no ch \<noteq> 0 \<and> service_type ch = Inl KeyError"
  shows "fst (launch_plan sdr (map plain_entry chs)) = Some KeyError"
  using assms
proof (induction chs)
  case (Cons ch chs)
  have r: "resolve_module_type (plain_entry ch) = service_type ch"
    using Cons.prems entry_resolves by (simp add: plain_entry_def)
  have ne: "SkipChannel \<noteq> KeyError" by (simp add: SkipChannel_def)
  show ?case
  proof (cases "channel_no ch \<noteq> 0 \<and> service_type ch = Inl KeyError")
    case True
    then show ?thesis using r ne by (simp add: plain_entry_id)
  next
    case False
    then have "fst (launch_plan sdr (map plain_entry chs)) = Some KeyError" using Cons by auto
    then show ?thesis
      using False r ne service_type_errors [of ch]
      by (auto simp: plain_entry_id split: sum.splits prod.splits)
  qed
qed simp

text \<open>One channel the registry does not know blocks the whole session: when a parsed response has a
  channel (other than 0) with an unknown codec, or an audio codec and the alarm or no audio type, the
  channel manager ends the running session and starts nothing for the other channels either, no
  module, no waiting thread, and publishes no more than that shutdown.\<close>

theorem one_bad_channel_blocks_session:
  assumes "message_from_sdr_bytes B b = Some m" and "b \<noteq> []"
    and "\<forall>ch \<in> set (p_msgs m ''channels''). av_fields ch \<noteq> None"
    and "\<exists>ch \<in> set (p_msgs m ''channels''). channel_no ch \<noteq> 0 \<and> service_type ch = Inl KeyError"
  shows "\<exists>c'. open_channels scripts (bytes_hex b) (map as_channel (channels_from_sdr_bytes B b)) c =
      (None, c', snd (shutdown_cur c)) \<and> cur c' = None \<and> waits c' = waits (fst (shutdown_cur c)) \<and>
      alive (cm_os c') = alive (cm_os (fst (shutdown_cur c)))"
proof -
  have ch: "map as_channel (channels_from_sdr_bytes B b) = map plain_entry (p_msgs m ''channels'')"
    using assms(1) by (simp add: message_from_sdr_bytes_def channels_from_sdr_bytes_def plain_entry_def split: sum.splits)
  have "bytes_hex b \<noteq> []"
  proof
    assume "bytes_hex b = []"
    then have "length (bytes_hex b) = 0" by simp
    then show False using assms(2) unfolding length_bytes_hex by simp
  qed
  then have ne: "bytes_hex b \<noteq> []" "map plain_entry (p_msgs m ''channels'') \<noteq> []"
    using assms(4) by auto
  have p: "fst (launch_plan sdr (map plain_entry (p_msgs m ''channels''))) = Some KeyError" for sdr
    by (rule plan_blocked) (use assms in auto)
  obtain ls where ls: "launch_plan (bytes_hex b) (map plain_entry (p_msgs m ''channels'')) = (Some KeyError, ls)"
    using p [of "bytes_hex b"] by (cases "launch_plan (bytes_hex b) (map plain_entry (p_msgs m ''channels''))") auto
  show ?thesis
    unfolding ch using ne by (simp add: open_channels_def session_start_def ls Let_def split: prod.split)
qed

definition alarm_message :: pmsg where
  "alarm_message =
     PMsg [(''channels'', FMsgs
       [PMsg [(''channel_id'', FVal (PInt 1)), (''sensor_channel'', FMsg (PMsg []))],
        PMsg [(''channel_id'', FVal (PInt 5)),
              (''av_channel'', FMsg (PMsg [(''codec'', FVal (PInt 1)), (''audio_type'', FVal (PInt 4))]))]])]"

definition alarm_pb :: pb_lib where
  "alarm_pb = demo_pb\<lparr>pb_parse := (\<lambda>b. Inr alarm_message)\<rparr>"

lemma one_bad_channel_blocks_session_witness:
  "\<exists>c'. open_channels (\<lambda>_. True) (bytes_hex [8]) (map as_channel (channels_from_sdr_bytes alarm_pb [8])) cm_init =
      (None, c', snd (shutdown_cur cm_init)) \<and> cur c' = None \<and> waits c' = waits (fst (shutdown_cur cm_init)) \<and>
      alive (cm_os c') = alive (cm_os (fst (shutdown_cur cm_init)))"
proof (rule one_bad_channel_blocks_session)
  show "message_from_sdr_bytes alarm_pb [8] = Some alarm_message"
    by (simp add: message_from_sdr_bytes_def alarm_pb_def)
  show "\<forall>ch \<in> set (p_msgs alarm_message ''channels''). av_fields ch \<noteq> None" by code_simp
  show "\<exists>ch \<in> set (p_msgs alarm_message ''channels''). channel_no ch \<noteq> 0 \<and> service_type ch = Inl KeyError" by code_simp
qed simp

end
