(* ===== verification/BusClient.thy ===== *)
theory BusClient
  imports ConfigSchema Machines
begin

text \<open>
  \<^verbatim>\<open>v2/shared/bus_client.py\<close> and \<^verbatim>\<open>v2/shared/bus_trace.py\<close>: what every module publishes and receives
  through. JSON is the parameter \<open>json_lib\<close>; the clock, the outcome of a ZeroMQ call and the exception
  a handler raises are arguments of the step they belong to. A handler is a name of type \<open>'h\<close>; the
  calls the client makes are part of its output, and trace events are kept with the fields that do
  not depend on the clock.
\<close>

section \<open>State\<close>

definition BUS_HWM :: int where "BUS_HWM = 5000"

text \<open>What \<^verbatim>\<open>json.loads(payload_b.decode("utf-8"))\<close> does: it gives a value, raises \<^verbatim>\<open>JSONDecodeError\<close>, or raises another exception
  (\<^verbatim>\<open>UnicodeDecodeError\<close>; \<^verbatim>\<open>RecursionError\<close> on deep nesting; \<^verbatim>\<open>ValueError\<close> on an integer with too many digits).\<close>

datatype loaded = LoadRaises exn | NotJson | Loaded pyval

record json_lib =
  json_dumps :: "pyval \<Rightarrow> bytes res"
  json_loads :: "bytes \<Rightarrow> loaded"
  json_text :: py_text

record 'h busclient =
  bc_name :: string
  bc_subs :: "(string, 'h) dict"
  bc_filters :: "string list"
  bc_running :: bool
  bc_seq :: "(string, int) dict"
  bc_last :: "(string \<times> string, int) dict"
  bc_black :: "string list"
  bc_ok :: int
  bc_drop :: int
  bc_recv :: int
  bc_drops :: "(string, int) dict"

datatype trace_event = Trace string payload

text \<open>\<open>env\<close> is the value of \<^verbatim>\<open>BUS_TRACE_BLACKLIST_PREFIXES\<close>.\<close>

definition bus_client :: "string \<Rightarrow> string \<Rightarrow> 'h busclient" where
  "bus_client name env =
     \<lparr>bc_name = name, bc_subs = [], bc_filters = [], bc_running = False, bc_seq = [], bc_last = [],
      bc_black = filter (\<lambda>p. p \<noteq> []) (map py_strip (py_split '','' env)),
      bc_ok = 0, bc_drop = 0, bc_recv = 0, bc_drops = []\<rparr>"

definition trace_topic_enabled :: "'h busclient \<Rightarrow> string \<Rightarrow> bool" where
  "trace_topic_enabled b topic = (\<not> (\<exists>p \<in> set (bc_black b). starts p topic))"

definition next_trace_seq :: "string \<Rightarrow> 'h busclient \<Rightarrow> int \<times> 'h busclient" where
  "next_trace_seq topic b =
     (let n = dget_or (bc_seq b) topic 0 + 1 in (n, b\<lparr>bc_seq := dset topic n (bc_seq b)\<rparr>))"

definition payload_size :: "string \<Rightarrow> bytes \<Rightarrow> int" where
  "payload_size topic pb = int (length topic) + int (length pb)"

definition subscribe :: "string \<Rightarrow> 'h \<Rightarrow> 'h busclient \<Rightarrow> 'h busclient" where
  "subscribe topic h b = b\<lparr>bc_subs := dset topic h (bc_subs b), bc_filters := bc_filters b @ [topic]\<rparr>"

text \<open>A ZeroMQ subscription is a prefix: what the socket receives.\<close>

definition bus_receives :: "'h busclient \<Rightarrow> string \<Rightarrow> bool" where
  "bus_receives b topic = (\<exists>p \<in> set (bc_filters b). starts p topic)"

section \<open>Publishing\<close>

datatype send_outcome = SendOk | SendAgain | SendFail exn

definition published_dict :: "pyval \<Rightarrow> payload" where
  "published_dict v = (case v of PNone \<Rightarrow> [] | PDict d \<Rightarrow> d | _ \<Rightarrow> [(''value'', v)])"

definition trace_stamp :: "'h busclient \<Rightarrow> string \<Rightarrow> int \<Rightarrow> int \<Rightarrow> pyval" where
  "trace_stamp b topic seq now =
     PDict [(''src_module'', PStr (bc_name b)), (''topic'', PStr topic), (''seq'', PInt seq), (''ts_ns'', PInt now)]"

text \<open>The send itself, with its counters. \<open>ev\<close> makes a trace event when tracing is on.\<close>

definition send_frames_out :: "(string \<Rightarrow> payload \<Rightarrow> trace_event list) \<Rightarrow> send_outcome \<Rightarrow> string \<Rightarrow> bytes \<Rightarrow> 'h busclient \<Rightarrow>
    bool res \<times> 'h busclient \<times> (string \<times> bytes) list \<times> trace_event list" where
  "send_frames_out ev outcome topic pb b =
     (case outcome of
        SendOk \<Rightarrow> (Inr True, b\<lparr>bc_ok := bc_ok b + 1\<rparr>, [(topic, pb)], ev ''publish_ok'' [])
      | SendAgain \<Rightarrow>
          (let n = dget_or (bc_drops b) topic 0 + 1; d = bc_drop b + 1 in
           (Inr False, b\<lparr>bc_drop := d, bc_drops := dset topic n (bc_drops b)\<rparr>, [],
            ev ''publish_drop'' [(''reason'', PStr ''zmq_again''), (''total_drops'', PInt d), (''topic_drops'', PInt n)]))
      | SendFail x \<Rightarrow> (Inl x, b, [], ev ''publish_error'' []))"

text \<open>\<open>sockopt\<close> is whether \<^verbatim>\<open>getsockopt\<close> answers: when it raises, \<^verbatim>\<open>get_sock_opt_ok\<close> is never assigned.\<close>

definition publish :: "json_lib \<Rightarrow> bool \<Rightarrow> int \<Rightarrow> send_outcome \<Rightarrow> string \<Rightarrow> pyval \<Rightarrow> 'h busclient \<Rightarrow>
    bool res \<times> 'h busclient \<times> (string \<times> bytes) list \<times> trace_event list" where
  "publish J sockopt now outcome topic v b =
     (let enabled = trace_topic_enabled b topic;
          (seq, b1) = (if enabled then next_trace_seq topic b else (0, b));
          out = (if enabled then dset ''_trace'' (trace_stamp b topic seq now) (published_dict v) else published_dict v);
          ev = (\<lambda>name extra. if enabled
                  then [Trace name ([(''topic'', PStr topic), (''seq'', PInt seq)] @ extra)] else [])
      in case json_dumps J (PDict out) of
           Inl x \<Rightarrow> (Inl x, b1, [], ev ''publish_encode_error'' [])
         | Inr pb \<Rightarrow>
             (if enabled \<and> \<not> sockopt then (Inl (OtherError ''UnboundLocalError''), b1, [], [])
              else (let sized = (\<lambda>name extra. ev name ((''bytes'', PInt (payload_size topic pb)) # extra));
                        (r, b2, sent, tr) = send_frames_out sized outcome topic pb b1
                    in (r, b2, sent, sized ''publish_attempt'' [] @ tr))))"

section \<open>Receiving\<close>

datatype in_frames = FewFrames nat | Frames string bytes

text \<open>A sequence number against the last one seen: the gap, whether it is a duplicate, whether it went
  back.\<close>

definition seq_check :: "int option \<Rightarrow> int \<Rightarrow> int \<times> bool \<times> bool" where
  "seq_check prev seq =
     (case prev of
        None \<Rightarrow> (0, False, False)
      | Some l \<Rightarrow>
          (if seq = l then (0, True, False)
           else if l + 1 < seq then (seq - l - 1, False, False)
           else if seq < l then (0, False, True)
           else (0, False, False)))"

fun as_int :: "pyval \<Rightarrow> int option" where
  "as_int (PInt i) = Some i"
| "as_int (PBool b) = Some (if b then 1 else 0)"
| "as_int v = None"

definition check_trace :: "json_lib \<Rightarrow> string \<Rightarrow> pyval \<Rightarrow> 'h busclient \<Rightarrow> (int \<times> bool \<times> bool) \<times> 'h busclient" where
  "check_trace J topic trace b =
     (case trace of
        PDict tr \<Rightarrow>
          (case as_int (dget tr ''seq'') of
             Some seq \<Rightarrow>
               (if truthy (dget tr ''src_module'') then
                  (let key = (py_str (json_text J) (dget tr ''src_module''), topic); prev = map_of (bc_last b) key;
                       c = seq_check prev seq in
                   (c, if prev = None \<or> the prev < seq \<or> snd (snd c) then b\<lparr>bc_last := dset key seq (bc_last b)\<rparr> else b))
                else ((0, False, False), b))
           | None \<Rightarrow> ((0, False, False), b))
      | _ \<Rightarrow> ((0, False, False), b))"

text \<open>The exception that escapes, the new state, the handler call made, and the trace. \<open>raised\<close> is what
  the handler raises; \<open>sockopt\<close> as above. The handler sees the payload without its stamp.\<close>

definition handle_received :: "json_lib \<Rightarrow> bool \<Rightarrow> exn option \<Rightarrow> in_frames \<Rightarrow> 'h busclient \<Rightarrow>
    exn option \<times> 'h busclient \<times> ('h \<times> string \<times> payload) list \<times> trace_event list" where
  "handle_received J sockopt raised frames b =
     (case frames of
        FewFrames n \<Rightarrow> (None, b, [], [Trace ''recv_malformed'' [(''frame_count'', PInt (int n))]])
      | Frames topic pb \<Rightarrow>
          (case json_loads J pb of
             LoadRaises x \<Rightarrow> (Some x, b, [], [])
           | NotJson \<Rightarrow> (None, b, [], [Trace ''recv_invalid_json'' [(''topic'', PStr topic), (''bytes'', PInt (payload_size topic pb))]])
           | Loaded v \<Rightarrow>
               (let d = (case v of PDict d \<Rightarrow> d | _ \<Rightarrow> [(''value'', v)]);
                    ((gap, dup, rewind), b1) = check_trace J topic (dget d ''_trace'') b;
                    b2 = b1\<lparr>bc_recv := bc_recv b1 + 1\<rparr>;
                    info = [(''topic'', PStr topic), (''bytes'', PInt (payload_size topic pb))];
                    marks = [(''seq_gap'', PInt gap), (''duplicate'', PBool dup), (''seq_rewind'', PBool rewind)]
                in case map_of (bc_subs b) topic of
                     None \<Rightarrow> (None, b2, [], [Trace ''recv_no_handler'' info])
                   | Some h \<Rightarrow>
                       (None, b2, [(h, topic, ddel ''_trace'' d)],
                        (if raised \<noteq> None then [Trace ''callback_error'' (info @ marks)]
                         else if sockopt then [Trace ''recv_ok'' (info @ marks)] else [])))))"

section \<open>The receive loop\<close>

datatype poll =
    PollNothing
  | PollMessage in_frames bool "exn option"
  | PollZmqError
  | PollInterrupt
  | StopCalled

datatype loop_end = StillRunning | LoopEnded | LoopDied exn

text \<open>One round per poll; \<open>StopCalled\<close> is \<^verbatim>\<open>stop()\<close> on another thread. \<^verbatim>\<open>_log_stats\<close> only traces.\<close>

fun receive_loop :: "json_lib \<Rightarrow> 'h busclient \<Rightarrow> poll list \<Rightarrow> loop_end \<times> 'h busclient \<times> ('h \<times> string \<times> payload) list" where
  "receive_loop J b [] = (if bc_running b then StillRunning else LoopEnded, b, [])"
| "receive_loop J b (p # ps) =
     (if \<not> bc_running b then (LoopEnded, b, [])
      else (case p of
              PollNothing \<Rightarrow> receive_loop J b ps
            | PollMessage fr sockopt raised \<Rightarrow>
                (case handle_received J sockopt raised fr b of
                   (Some x, b', calls, tr) \<Rightarrow> (LoopDied x, b', calls)
                 | (None, b', calls, tr) \<Rightarrow>
                     (let (e, b'', calls') = receive_loop J b' ps in (e, b'', calls @ calls')))
            | PollZmqError \<Rightarrow> (LoopEnded, b, [])
            | PollInterrupt \<Rightarrow> (LoopEnded, b, [])
            | StopCalled \<Rightarrow> receive_loop J (b\<lparr>bc_running := False\<rparr>) ps))"

definition start_bus :: "'h busclient \<Rightarrow> 'h busclient" where
  "start_bus b = b\<lparr>bc_running := True\<rparr>"

text \<open>The saturation summary: the three topics with most drops, in the order of first drop among equals.\<close>

definition log_stats :: "'h busclient \<Rightarrow> trace_event" where
  "log_stats b =
     (let attempts = bc_ok b + bc_drop b in
      Trace ''bus_stats''
        [(''recv'', PInt (bc_recv b)), (''pub_ok'', PInt (bc_ok b)), (''pub_drop'', PInt (bc_drop b)),
         (''drop_pct'', PFloat (Fin (if attempts = 0 then 0 else of_int (bc_drop b) / of_int attempts * 100))),
         (''top_drop_topics'', PDict (map (\<lambda>(t, n). (t, PInt n)) (take 3 (sort_key (\<lambda>kv. - snd kv) (bc_drops b)))))])"

section \<open>Delivery\<close>

text \<open>What JSON promises for values with string keys: they have a text, which reads back as the value.\<close>

definition json_ok :: "json_lib \<Rightarrow> bool" where
  "json_ok J = (\<forall>v. \<exists>pb. json_dumps J v = Inr pb \<and> json_loads J pb = Loaded v)"

definition demo_json :: json_lib where
  "demo_json = \<lparr>json_dumps = (\<lambda>v. Inr (replicate (to_nat v) 0)), json_loads = (\<lambda>pb. Loaded (from_nat (length pb))),
     json_text = \<lparr>t_repr = (\<lambda>_. []), t_float = (\<lambda>_. None), t_round = (\<lambda>_. None)\<rparr>\<rparr>"

lemma demo_json_ok: "json_ok demo_json"
  by (simp add: json_ok_def demo_json_def)

lemma ddel_absent: "map_of d k = None \<Longrightarrow> ddel k d = d"
  by (induction d) (auto split: if_splits)

lemma ddel_dset: "map_of d k = None \<Longrightarrow> ddel k (dset k v d) = d"
  by (induction d) (auto simp: ddel_absent split: if_splits)

lemma check_trace_fields:
  "bc_subs (snd (check_trace J t tr c)) = bc_subs c" "bc_recv (snd (check_trace J t tr c)) = bc_recv c"
  "bc_running (snd (check_trace J t tr c)) = bc_running c"
  by (auto simp: check_trace_def Let_def split: pyval.split option.split)

lemma publish_sent:
  assumes "publish J sockopt now outcome t v b = (Inr True, b', sent, tr)"
  shows "outcome = SendOk \<and> (\<exists>pb d. sent = [(t, pb)] \<and> json_dumps J (PDict d) = Inr pb \<and>
    d = (if trace_topic_enabled b t then dset ''_trace'' (trace_stamp b t (fst (next_trace_seq t b)) now) (published_dict v) else published_dict v))"
  using assms
  by (cases "next_trace_seq t b"; cases outcome)
    (auto simp: publish_def send_frames_out_def Let_def trace_stamp_def next_trace_seq_def split: sum.splits if_splits)

text \<open>C7 What is published is what the handler gets: when a publication is accepted, the receiving client
  calls the handler subscribed to exactly that topic, and no other, with the payload as published,
  the trace stamp being added and removed on the way.\<close>

theorem published_is_delivered:
  assumes "json_ok J" and "publish J sockopt now outcome t v b = (Inr True, b', sent, tr)"
    and "map_of (published_dict v) ''_trace'' = None"
  shows "\<exists>pb c' tr'. sent = [(t, pb)] \<and> handle_received J so raised (Frames t pb) c =
    (None, c', (case map_of (bc_subs c) t of None \<Rightarrow> [] | Some h \<Rightarrow> [(h, t, published_dict v)]), tr')"
proof -
  obtain pb d where s: "sent = [(t, pb)]" "json_dumps J (PDict d) = Inr pb"
    and d: "d = published_dict v \<or> (\<exists>st. d = dset ''_trace'' st (published_dict v))"
    using publish_sent [OF assms(2)] by (auto split: if_splits)
  have l: "json_loads J pb = Loaded (PDict d)"
    using assms(1) s(2) unfolding json_ok_def by (metis Inr_inject)
  have p: "ddel ''_trace'' d = published_dict v"
    using d ddel_dset [OF assms(3)] ddel_absent [OF assms(3)] by auto
  obtain gap dup rew c1 where c1: "check_trace J t (dget d ''_trace'') c = ((gap, dup, rew), c1)"
    by (metis prod_cases3 surj_pair)
  have "bc_subs c1 = bc_subs c" using check_trace_fields(1) [of J t "dget d ''_trace''" c] c1 by simp
  then show ?thesis
    using s(1) l p c1 by (auto simp: handle_received_def Let_def split: option.split)
qed

definition demo_pub :: "string busclient" where
  "demo_pub = bus_client ''tcp_server'' ''log.''"

definition demo_sub :: "string busclient" where
  "demo_sub = subscribe ''aa.frame'' ''other'' (subscribe ''aa.frame.ch0'' ''on_ch0'' (bus_client ''oaa'' []))"

lemma published_is_delivered_witness:
  "\<exists>pb c' tr'. [(''aa.frame.ch0'', replicate (to_nat (PDict [(''n'', PInt 3), (''_trace'', trace_stamp demo_pub ''aa.frame.ch0'' 1 7)])) 0)] = [(''aa.frame.ch0'', pb)] \<and>
    handle_received demo_json True None (Frames ''aa.frame.ch0'' pb) demo_sub =
      (None, c', (case map_of (bc_subs demo_sub) ''aa.frame.ch0'' of None \<Rightarrow> []
         | Some h \<Rightarrow> [(h, ''aa.frame.ch0'', published_dict (PDict [(''n'', PInt 3)]))]), tr')"
proof (rule published_is_delivered [OF demo_json_ok])
  show "publish demo_json True 7 SendOk ''aa.frame.ch0'' (PDict [(''n'', PInt 3)]) demo_pub =
    (Inr True, snd (next_trace_seq ''aa.frame.ch0'' demo_pub)\<lparr>bc_ok := 1\<rparr>,
     [(''aa.frame.ch0'', replicate (to_nat (PDict [(''n'', PInt 3), (''_trace'', trace_stamp demo_pub ''aa.frame.ch0'' 1 7)])) 0)],
     snd (snd (snd (publish demo_json True 7 SendOk ''aa.frame.ch0'' (PDict [(''n'', PInt 3)]) demo_pub))))"
    by (simp add: publish_def demo_json_def published_dict_def trace_topic_enabled_def next_trace_seq_def send_frames_out_def
        demo_pub_def bus_client_def py_split_def split_acc.simps starts_def py_strip_def u_space_def dget_or_def Let_def trace_stamp_def)
qed (simp add: published_dict_def)

section \<open>Sequence numbers\<close>

definition pub_step :: "json_lib \<Rightarrow> string \<Rightarrow> 'h busclient \<Rightarrow> int \<times> pyval \<times> bool \<Rightarrow> 'h busclient \<times> bytes list" where
  "pub_step J t b e =
     (case e of (now, v, ok) \<Rightarrow>
        (let (r, b', sent, tr) = publish J True now (if ok then SendOk else SendAgain) t v b in (b', map snd sent)))"

definition gap_marks :: "trace_event list \<Rightarrow> int list" where
  "gap_marks tr = map (\<lambda>ev. case ev of Trace n fs \<Rightarrow> (case dget fs ''seq_gap'' of PInt i \<Rightarrow> i | _ \<Rightarrow> 0)) tr"

definition recv_step :: "json_lib \<Rightarrow> exn option \<Rightarrow> string \<Rightarrow> 'g busclient \<Rightarrow> bytes \<Rightarrow> 'g busclient \<times> int list" where
  "recv_step J raised t c pb =
     (let (x, c', calls, tr) = handle_received J True raised (Frames t pb) c in (c', gap_marks tr))"

definition stamped :: "json_lib \<Rightarrow> string \<Rightarrow> string \<Rightarrow> int \<Rightarrow> bytes \<Rightarrow> bool" where
  "stamped J name t seq pb \<longleftrightarrow> (\<exists>d now. json_loads J pb = Loaded (PDict (dset ''_trace''
     (PDict [(''src_module'', PStr name), (''topic'', PStr t), (''seq'', PInt seq), (''ts_ns'', PInt now)]) d)))"

lemma pub_step_seq:
  assumes "json_ok J" "trace_topic_enabled b t"
  shows "\<exists>b' pbs. pub_step J t b (now, v, ok) = (b', pbs) \<and> trace_topic_enabled b' t \<and> bc_name b' = bc_name b \<and>
    dget_or (bc_seq b') t 0 = dget_or (bc_seq b) t 0 + 1 \<and>
    (if ok then \<exists>pb. pbs = [pb] \<and> stamped J (bc_name b) t (dget_or (bc_seq b) t 0 + 1) pb else pbs = [])"
proof -
  obtain pb where pb: "json_dumps J (PDict (dset ''_trace'' (trace_stamp b t (dget_or (bc_seq b) t 0 + 1) now) (published_dict v))) = Inr pb"
      "json_loads J pb = Loaded (PDict (dset ''_trace'' (trace_stamp b t (dget_or (bc_seq b) t 0 + 1) now) (published_dict v)))"
    using assms(1) unfolding json_ok_def by metis
  have "stamped J (bc_name b) t (dget_or (bc_seq b) t 0 + 1) pb"
    using pb(2) unfolding stamped_def trace_stamp_def by blast
  then show ?thesis
    using assms(2) pb(1)
    by (cases ok) (auto simp: pub_step_def publish_def next_trace_seq_def send_frames_out_def Let_def trace_topic_enabled_def
        trace_stamp_def dget_or_def map_of_dset)
qed

lemma recv_step_seq:
  assumes "stamped J name t s pb" "name \<noteq> []" "map_of (bc_subs c) t = Some h"
    and "map_of (bc_last c) (name, t) = l" "case l of None \<Rightarrow> True | Some n \<Rightarrow> n < s"
  shows "\<exists>c'. recv_step J raised t c pb = (c', [case l of None \<Rightarrow> 0 | Some n \<Rightarrow> s - n - 1]) \<and>
    map_of (bc_subs c') t = Some h \<and> map_of (bc_last c') (name, t) = Some s"
proof -
  obtain d now where d: "json_loads J pb = Loaded (PDict (dset ''_trace''
      (PDict [(''src_module'', PStr name), (''topic'', PStr t), (''seq'', PInt s), (''ts_ns'', PInt now)]) d))"
    using assms(1) by (auto simp: stamped_def)
  show ?thesis
    using assms(2-) d
    by (auto simp: recv_step_def handle_received_def check_trace_def seq_check_def dget_def dget_or_def map_of_dset Let_def
        gap_marks_def split: option.splits)
qed

definition drops :: "(int \<times> pyval \<times> bool) list \<Rightarrow> int" where
  "drops es = int (length (filter (\<lambda>e. \<not> snd (snd e)) es))"

lemma gaps_from:
  assumes "json_ok J" "name \<noteq> []"
  shows "trace_topic_enabled b t \<Longrightarrow> bc_name b = name \<Longrightarrow> map_of (bc_subs c) t = Some h \<Longrightarrow>
    map_of (bc_last c) (name, t) = Some l \<Longrightarrow> l \<le> dget_or (bc_seq b) t 0 \<Longrightarrow> es \<noteq> [] \<Longrightarrow> snd (snd (last es)) \<Longrightarrow>
    sum_list (snd (run_events (recv_step J raised t) c (snd (run_events (pub_step J t) b es)))) =
      dget_or (bc_seq b) t 0 - l + drops es"
proof (induction es arbitrary: b c l)
  case (Cons e es)
  obtain now v ok where e: "e = (now, v, ok)" by (metis prod_cases3)
  let ?n = "dget_or (bc_seq b) t 0"
  obtain b' pbs where b': "pub_step J t b e = (b', pbs)" "trace_topic_enabled b' t" "bc_name b' = name"
      "dget_or (bc_seq b') t 0 = ?n + 1"
      "if ok then \<exists>pb. pbs = [pb] \<and> stamped J name t (?n + 1) pb else pbs = []"
    using pub_step_seq [OF assms(1) Cons.prems(1), of now v ok] Cons.prems(2) e by auto
  show ?case
  proof (cases ok)
    case False
    then have "es \<noteq> []" "snd (snd (last es))" using Cons.prems e by (auto split: if_splits)
    then show ?thesis
      using Cons.IH [OF b'(2,3) Cons.prems(3,4)] b' Cons.prems(5) False e by (simp add: Let_def drops_def)
  next
    case True
    then obtain pb where pb: "pbs = [pb]" "stamped J name t (?n + 1) pb" using b'(5) by auto
    obtain c' where c': "recv_step J raised t c pb = (c', [?n - l])" "map_of (bc_subs c') t = Some h"
        "map_of (bc_last c') (name, t) = Some (?n + 1)"
      using recv_step_seq [OF pb(2) assms(2) Cons.prems(3,4)] Cons.prems(5) by auto
    show ?thesis
    proof (cases "es = []")
      case True
      then show ?thesis using b'(1) pb(1) c'(1) e \<open>ok\<close> by (simp add: Let_def drops_def)
    next
      case False
      then show ?thesis
        using Cons.IH [OF b'(2,3) c'(2,3)] b'(1,4) pb(1) c'(1) Cons.prems(7) e \<open>ok\<close> by (simp add: Let_def drops_def)
    qed
  qed
qed simp

text \<open>The gaps a subscriber counts are the publications that were lost: of a series on one topic whose
  first and last are delivered, some being dropped because the socket is saturated, the gaps reported
  add up to the number dropped, whatever the subscriber's handler raises.\<close>

theorem gaps_count_drops:
  assumes "json_ok J" and "trace_topic_enabled b t" and "bc_name b \<noteq> []"
    and "map_of (bc_subs c) t = Some h" and "map_of (bc_last c) (bc_name b, t) = None"
    and "snd (snd (hd es))" and "snd (snd (last es))" and "es \<noteq> []"
  shows "sum_list (snd (run_events (recv_step J raised t) c (snd (run_events (pub_step J t) b es)))) = drops es"
proof -
  obtain now v es' where es: "es = (now, v, True) # es'" using assms(6,8) by (cases es) auto
  let ?n = "dget_or (bc_seq b) t 0"
  obtain b' pb where b': "pub_step J t b (now, v, True) = (b', [pb])" "trace_topic_enabled b' t" "bc_name b' = bc_name b"
      "dget_or (bc_seq b') t 0 = ?n + 1" "stamped J (bc_name b) t (?n + 1) pb"
    using pub_step_seq [OF assms(1,2), of now v True] by auto
  obtain c' where c': "recv_step J raised t c pb = (c', [0])" "map_of (bc_subs c') t = Some h"
      "map_of (bc_last c') (bc_name b, t) = Some (?n + 1)"
    using recv_step_seq [OF b'(5) assms(3,4,5)] by auto
  show ?thesis
  proof (cases "es' = []")
    case True
    then show ?thesis using b'(1) c'(1) es by (simp add: Let_def drops_def)
  next
    case False
    then show ?thesis
      using gaps_from [OF assms(1,3) b'(2,3) c'(2,3), of es' raised] assms(7) b'(1,4) c'(1) es by (simp add: Let_def drops_def)
  qed
qed

lemma gaps_count_drops_witness:
  "sum_list (snd (run_events (recv_step demo_json None ''aa.frame.ch0'') demo_sub
     (snd (run_events (pub_step demo_json ''aa.frame.ch0'') demo_pub [(1, PNone, True), (2, PNone, False), (3, PNone, True)])))) =
   drops [(1, PNone, True), (2, PNone, False), (3, PNone, True)]"
proof (rule gaps_count_drops [OF demo_json_ok, where h = "''on_ch0''"])
  show "trace_topic_enabled demo_pub ''aa.frame.ch0''" by code_simp
qed (simp_all add: demo_pub_def demo_sub_def bus_client_def subscribe_def)

section \<open>The loop survives\<close>

definition received_dict :: "pyval \<Rightarrow> payload" where
  "received_dict v = (case v of PDict d \<Rightarrow> d | _ \<Rightarrow> [(''value'', v)])"

fun readable :: "json_lib \<Rightarrow> poll \<Rightarrow> bool" where
  "readable J PollNothing = True"
| "readable J (PollMessage (FewFrames n) so r) = True"
| "readable J (PollMessage (Frames t pb) so r) = (case json_loads J pb of LoadRaises x \<Rightarrow> False | _ \<Rightarrow> True)"
| "readable J p = False"

fun calls_for :: "json_lib \<Rightarrow> (string, 'h) dict \<Rightarrow> poll \<Rightarrow> ('h \<times> string \<times> payload) list" where
  "calls_for J subs (PollMessage (Frames t pb) so r) =
     (case json_loads J pb of
        Loaded v \<Rightarrow> (case map_of subs t of None \<Rightarrow> [] | Some h \<Rightarrow> [(h, t, ddel ''_trace'' (received_dict v))])
      | _ \<Rightarrow> [])"
| "calls_for J subs p = []"

lemma handle_readable:
  assumes "readable J (PollMessage fr so r)"
  shows "\<exists>b' tr. handle_received J so r fr b = (None, b', calls_for J (bc_subs b) (PollMessage fr so r), tr) \<and>
    bc_subs b' = bc_subs b \<and> bc_running b' = bc_running b"
proof (cases fr)
  case (Frames t pb)
  then show ?thesis
  proof (cases "json_loads J pb")
    case (Loaded v)
    obtain gap dup rew b1 where b1: "check_trace J t (dget (received_dict v) ''_trace'') b = ((gap, dup, rew), b1)"
      by (metis prod_cases3 surj_pair)
    have "bc_subs b1 = bc_subs b" "bc_running b1 = bc_running b"
      using check_trace_fields [of J t "dget (received_dict v) ''_trace''" b] b1 by simp_all
    then show ?thesis
      using Frames Loaded b1 by (auto simp: handle_received_def received_dict_def [symmetric] Let_def split: option.split)
  qed (use assms in \<open>auto simp: handle_received_def\<close>)
qed (simp add: handle_received_def)

lemma loop_prefix:
  assumes "bc_running b" "\<forall>p \<in> set ps. readable J p"
  shows "\<exists>b'. bc_running b' \<and> bc_subs b' = bc_subs b \<and> (\<forall>qs. receive_loop J b (ps @ qs) =
    (let (e, b'', calls) = receive_loop J b' qs in (e, b'', concat (map (calls_for J (bc_subs b)) ps) @ calls)))"
  using assms
proof (induction ps arbitrary: b)
  case (Cons p ps)
  show ?case
  proof (cases p)
    case PollNothing
    then show ?thesis using Cons.IH [of b] Cons.prems by auto
  next
    case (PollMessage fr so r)
    obtain b1 tr where b1: "handle_received J so r fr b = (None, b1, calls_for J (bc_subs b) p, tr)"
        "bc_subs b1 = bc_subs b" "bc_running b1"
      using handle_readable [of J fr so r b] Cons.prems PollMessage by auto
    obtain b' where "bc_running b'" "bc_subs b' = bc_subs b1" "\<forall>qs. receive_loop J b1 (ps @ qs) =
        (let (e, b'', calls) = receive_loop J b' qs in (e, b'', concat (map (calls_for J (bc_subs b1)) ps) @ calls))"
      using Cons.IH [OF b1(3)] Cons.prems(2) by auto
    then show ?thesis
      using b1 Cons.prems(1) PollMessage by (intro exI [of _ b']) (simp add: Let_def split: prod.split)
  qed (use Cons.prems in auto)
qed auto

text \<open>C26 The receive loop serves every message in turn: malformed messages, texts that are not JSON,
  topics nobody handles and handlers that raise leave it running, and the handlers called are those
  of the messages, in order. A payload on which \<^verbatim>\<open>json.loads\<close> raises anything else than \<^verbatim>\<open>JSONDecodeError\<close>
  (one that is not UTF-8, for instance) ends the thread.\<close>

theorem receive_loop_survives:
  assumes "bc_running b" and "\<forall>p \<in> set ps. readable J p" and "json_loads J bad = LoadRaises x"
  shows "(\<exists>b'. receive_loop J b ps = (StillRunning, b', concat (map (calls_for J (bc_subs b)) ps))) \<and>
    fst (receive_loop J b (ps @ PollMessage (Frames t bad) so r # qs)) = LoopDied x"
proof -
  obtain b' where b': "bc_running b'" "\<forall>qs. receive_loop J b (ps @ qs) =
      (let (e, b'', calls) = receive_loop J b' qs in (e, b'', concat (map (calls_for J (bc_subs b)) ps) @ calls))"
    using loop_prefix [OF assms(1,2)] by blast
  have "receive_loop J b (ps @ []) = (StillRunning, b', concat (map (calls_for J (bc_subs b)) ps))"
    using b' by (simp only: b'(2)) simp
  moreover have "fst (receive_loop J b (ps @ PollMessage (Frames t bad) so r # qs)) = LoopDied x"
    using b'(1) assms(3) by (simp only: b'(2)) (simp add: handle_received_def)
  ultimately show ?thesis by auto
qed

definition narrow_json :: json_lib where
  "narrow_json = demo_json\<lparr>json_loads := (\<lambda>pb. if pb = [255] then LoadRaises (OtherError ''UnicodeDecodeError'') else if pb = [1] then Loaded (PDict []) else NotJson)\<rparr>"

lemma receive_loop_survives_witness:
  "(\<exists>b'. receive_loop narrow_json (start_bus demo_sub) [PollNothing, PollMessage (Frames ''aa.frame.ch0'' [1]) True (Some KeyError)] =
      (StillRunning, b', concat (map (calls_for narrow_json (bc_subs (start_bus demo_sub)))
         [PollNothing, PollMessage (Frames ''aa.frame.ch0'' [1]) True (Some KeyError)]))) \<and>
    fst (receive_loop narrow_json (start_bus demo_sub)
      ([PollNothing, PollMessage (Frames ''aa.frame.ch0'' [1]) True (Some KeyError)] @ PollMessage (Frames ''x'' [255]) True None # [PollNothing])) =
      LoopDied (OtherError ''UnicodeDecodeError'')"
  by (rule receive_loop_survives) (simp_all add: start_bus_def narrow_json_def)

section \<open>The trace channel\<close>

text \<open>\<^verbatim>\<open>BusTracer\<close>: a bounded queue drained by a thread; what does not fit or cannot be sent is counted.\<close>

record tracer =
  tr_enabled :: bool
  tr_max :: nat
  tr_queue :: "trace_event list"
  tr_dropped :: nat
  tr_reported :: nat

definition trace_emit :: "trace_event \<Rightarrow> tracer \<Rightarrow> tracer" where
  "trace_emit ev s =
     (if \<not> tr_enabled s then s
      else if length (tr_queue s) < tr_max s then s\<lparr>tr_queue := tr_queue s @ [ev]\<rparr>
      else s\<lparr>tr_dropped := Suc (tr_dropped s)\<rparr>)"

text \<open>\<open>sent\<close> is whether the non-blocking send succeeds.\<close>

definition send_now :: "bool \<Rightarrow> trace_event \<Rightarrow> tracer \<Rightarrow> tracer \<times> trace_event list" where
  "send_now sent ev s = (if sent then (s, [ev]) else (s\<lparr>tr_dropped := Suc (tr_dropped s)\<rparr>, []))"

definition drain_step :: "bool \<Rightarrow> tracer \<Rightarrow> tracer \<times> trace_event list" where
  "drain_step sent s =
     (case tr_queue s of
        [] \<Rightarrow>
          (if tr_dropped s \<noteq> tr_reported s
           then send_now sent (Trace ''trace_local_drop'' [(''dropped'', PInt (int (tr_dropped s)))]) (s\<lparr>tr_reported := tr_dropped s\<rparr>)
           else (s, []))
      | ev # q \<Rightarrow> send_now sent ev (s\<lparr>tr_queue := q\<rparr>))"

datatype tracer_event = Emit trace_event | Drain bool

fun tracer_step :: "tracer \<Rightarrow> tracer_event \<Rightarrow> tracer \<times> trace_event list" where
  "tracer_step s (Emit ev) = (trace_emit ev s, [])"
| "tracer_step s (Drain sent) = drain_step sent s"

interpretation trm: event_machine tracer_step "\<lambda>s. length (tr_queue s) \<le> tr_max s" "\<lambda>_. True"
proof
  fix s :: tracer and e
  assume "length (tr_queue s) \<le> tr_max s"
  then show "length (tr_queue (fst (tracer_step s e))) \<le> tr_max (fst (tracer_step s e))"
    by (cases e) (auto simp: trace_emit_def drain_step_def send_now_def split: list.split)
qed simp

text \<open>No event disappears uncounted while the thread drains: an event emitted adds one to what is queued,
  dropped or sent, and draining keeps that sum, a report of drops adding itself.\<close>

definition tracer_load :: "tracer \<Rightarrow> nat" where
  "tracer_load s = length (tr_queue s) + tr_dropped s"

lemma tracer_conserves:
  "tr_enabled s \<Longrightarrow> tracer_load (trace_emit ev s) = Suc (tracer_load s)"
  "tracer_load (fst (drain_step sent s)) + length (snd (drain_step sent s)) =
     tracer_load s + (if tr_queue s = [] \<and> tr_dropped s \<noteq> tr_reported s then 1 else 0)"
  by (auto simp: trace_emit_def drain_step_def send_now_def tracer_load_def split: list.split)

end
