(* ===== verification/Orchestrator.thy ===== *)
theory Orchestrator
  imports PyStr Machines "HOL-Library.List_Lexorder" "HOL-Library.Char_ord" "HOL-Library.Multiset"
begin

text \<open>
  \<^verbatim>\<open>v2/main.py\<close>: discovery of the modules, the boot by priority levels, and the shutdown of all
  processes. What arrives on a socket before its deadline is a list of messages; a poll that times
  out is not in the list. Names are strings and priorities integers, as the modules announce them;
  publications are the attempts made, the bus may drop them.
\<close>

section \<open>Discovery\<close>

text \<open>The argument is the directories of \<^verbatim>\<open>modules/\<close> that hold a \<^verbatim>\<open>main.py\<close>.\<close>

definition discover_modules :: "string list \<Rightarrow> string list" where
  "discover_modules dirs = sort (filter (\<lambda>n. \<not> starts ''_'' n) dirs)"

section \<open>Collecting priorities\<close>

text \<open>A message with fewer than two frames or that is not JSON, or an announcement: its name, empty when
  missing, and its priority when it has one.\<close>

datatype boot_msg = Junk | Announce string "int option"

type_synonym priority_map = "(int, string list) dict"

record collecting =
  co_map :: priority_map
  co_replied :: "string set"
  co_ready :: nat

definition dappend :: "'k \<Rightarrow> 'v \<Rightarrow> ('k, 'v list) dict \<Rightarrow> ('k, 'v list) dict" where
  "dappend k v d = dset k (dget_or d k [] @ [v]) d"

definition collect_step :: "boot_msg \<Rightarrow> collecting \<Rightarrow> collecting" where
  "collect_step m s =
     (case m of
        Junk \<Rightarrow> s
      | Announce name priority \<Rightarrow>
          (if name \<noteq> [] \<and> name \<notin> co_replied s
           then \<lparr>co_map = dappend (case priority of None \<Rightarrow> 1 | Some p \<Rightarrow> p) name (co_map s),
                 co_replied = insert name (co_replied s), co_ready = Suc (co_ready s)\<rparr>
           else s))"

fun collect_loop :: "nat \<Rightarrow> boot_msg list \<Rightarrow> collecting \<Rightarrow> collecting" where
  "collect_loop n [] s = s"
| "collect_loop n (m # ms) s = (if co_ready s \<ge> n then s else collect_loop n ms (collect_step m s))"

fun fallback_loop :: "string list \<Rightarrow> string set \<Rightarrow> priority_map \<Rightarrow> priority_map" where
  "fallback_loop [] replied pm = pm"
| "fallback_loop (n # ns) replied pm = fallback_loop ns replied (if n \<in> replied then pm else dappend 1 n pm)"

definition collect_module_ready :: "string list \<Rightarrow> boot_msg list \<Rightarrow> priority_map" where
  "collect_module_ready names msgs =
     (let s = collect_loop (length names) msgs \<lparr>co_map = [], co_replied = {}, co_ready = 0\<rparr>
      in fallback_loop names (co_replied s) (co_map s))"

section \<open>Starting the levels\<close>

text \<open>\<^verbatim>\<open>system.ready\<close>: the modules still awaited when the loop ends.\<close>

fun ready_loop :: "int \<Rightarrow> boot_msg list \<Rightarrow> string set \<Rightarrow> string set" where
  "ready_loop priority [] pending = pending"
| "ready_loop priority (m # ms) pending =
     (if pending = {} then pending
      else ready_loop priority ms
        (case m of
           Junk \<Rightarrow> pending
         | Announce name p \<Rightarrow> (if name \<in> pending \<and> p = Some priority then pending - {name} else pending)))"

definition wait_for_level_ready :: "int \<Rightarrow> string list \<Rightarrow> boot_msg list \<Rightarrow> busmsg list \<times> string set" where
  "wait_for_level_ready priority expected msgs =
     (if expected = [] then ([], {})
      else ([(''system.start'', [(''priority'', PInt priority)])], ready_loop priority msgs (set expected)))"

text \<open>The loop of \<^verbatim>\<open>run\<close>; \<open>arrivals\<close> gives the messages of each level.\<close>

definition boot_levels :: "priority_map \<Rightarrow> (int \<Rightarrow> boot_msg list) \<Rightarrow> (busmsg list \<times> string set) list" where
  "boot_levels pm arrivals =
     map (\<lambda>level. wait_for_level_ready level (dget_or pm level []) (arrivals level)) (sort (dkeys pm))"

definition boot :: "string list \<Rightarrow> boot_msg list \<Rightarrow> (int \<Rightarrow> boot_msg list) \<Rightarrow> (busmsg list \<times> string set) list" where
  "boot dirs msgs arrivals = boot_levels (collect_module_ready (discover_modules dirs) msgs) arrivals"

section \<open>The boot against the clock\<close>

text \<open>
  The same loops with the time they take, in milliseconds of the monotonic clock. A message is paired
  with the time it reaches the socket; a poll waits for the first one at most \<^verbatim>\<open>min(remaining_ms, 200)\<close>,
  and only waiting takes time. Both loops of the code have this frame: \<open>go\<close> is the condition
  beside the deadline, \<open>h\<close> what is done with a message.
\<close>

definition READYTOSTART_WINDOW :: nat where "READYTOSTART_WINDOW = 20"
definition MODULE_READY_TIMEOUT :: nat where "MODULE_READY_TIMEOUT = 5"

type_synonym arrivals = "(nat \<times> boot_msg) list"

function poll_loop :: "('s \<Rightarrow> bool) \<Rightarrow> (boot_msg \<Rightarrow> 's \<Rightarrow> 's) \<Rightarrow> nat \<Rightarrow> arrivals \<Rightarrow> nat \<Rightarrow> 's \<Rightarrow> 's \<times> nat" where
  "poll_loop go h deadline ms now s =
     (if deadline \<le> now \<or> \<not> go s then (s, now)
      else
        let timeout = min (deadline - now) 200 in
        (case ms of
           [] \<Rightarrow> poll_loop go h deadline [] (now + timeout) s
         | (t, m) # rest \<Rightarrow>
             (if t < now + timeout then poll_loop go h deadline rest (max now t) (h m s)
              else poll_loop go h deadline ms (now + timeout) s)))"
  by pat_completeness auto
termination
  by (relation "measure (\<lambda>(go, h, deadline, ms, now, s). (deadline - now) + length ms)") auto

declare poll_loop.simps [simp del]

definition collect_module_ready_run :: "string list \<Rightarrow> arrivals \<Rightarrow> nat \<Rightarrow> priority_map \<times> nat" where
  "collect_module_ready_run names ms now =
     (let start = now + 100;
          (s, end) = poll_loop (\<lambda>s. co_ready s < length names) collect_step
            (start + 1000 * READYTOSTART_WINDOW) ms start \<lparr>co_map = [], co_replied = {}, co_ready = 0\<rparr>
      in (fallback_loop names (co_replied s) (co_map s), end))"

definition ready_step :: "int \<Rightarrow> boot_msg \<Rightarrow> string set \<Rightarrow> string set" where
  "ready_step priority m pending =
     (case m of
        Junk \<Rightarrow> pending
      | Announce name p \<Rightarrow> (if name \<in> pending \<and> p = Some priority then pending - {name} else pending))"

text \<open>The deadline of the level, its publications and what it still lacks, and the time it ends.\<close>

definition wait_for_level_ready_run ::
    "int \<Rightarrow> string list \<Rightarrow> arrivals \<Rightarrow> nat \<Rightarrow> (nat \<times> busmsg list \<times> string set) \<times> nat" where
  "wait_for_level_ready_run priority expected ms now =
     (if expected = [] then ((now, [], {}), now)
      else
        let start = now + 50;
            deadline = start + 1000 * MODULE_READY_TIMEOUT * length expected;
            (pending, end) = poll_loop (\<lambda>pending. pending \<noteq> {}) (ready_step priority) deadline ms start (set expected)
        in ((deadline, [(''system.start'', [(''priority'', PInt priority)])], pending), end))"

fun boot_levels_run :: "int list \<Rightarrow> priority_map \<Rightarrow> (int \<Rightarrow> arrivals) \<Rightarrow> nat \<Rightarrow> (nat \<times> busmsg list \<times> string set) list \<times> nat" where
  "boot_levels_run [] pm arr now = ([], now)"
| "boot_levels_run (l # ls) pm arr now =
     (let (r, now1) = wait_for_level_ready_run l (dget_or pm l []) (arr l) now;
          (rs, now2) = boot_levels_run ls pm arr now1
      in (r # rs, now2))"

definition boot_run :: "string list \<Rightarrow> arrivals \<Rightarrow> (int \<Rightarrow> arrivals) \<Rightarrow> nat \<Rightarrow> (nat \<times> busmsg list \<times> string set) list \<times> nat" where
  "boot_run dirs ms arr now =
     (let (pm, now1) = collect_module_ready_run (discover_modules dirs) ms now
      in boot_levels_run (sort (dkeys pm)) pm arr now1)"

text \<open>The other side, the same in every module: \<^verbatim>\<open>on_system_readytostart\<close> and the frame of
  \<^verbatim>\<open>on_system_start\<close>.\<close>

definition announce_ready :: "string \<Rightarrow> int \<Rightarrow> busmsg" where
  "announce_ready name priority = (''system.module_ready'', [(''name'', PStr name), (''priority'', PInt priority)])"

definition on_system_start :: "string \<Rightarrow> int \<Rightarrow> payload \<Rightarrow> busmsg list" where
  "on_system_start name priority p =
     (if \<not> py_eq_int (dget p ''priority'') priority then []
      else [(''system.ready'', [(''name'', PStr name), (''priority'', PInt priority)])])"

section \<open>Shutdown\<close>

text \<open>How a process ends: by itself in the grace period, when asked, or only when killed.\<close>

datatype fate = ExitsAlone | ExitsOnTerm | Stubborn

datatype action = Publishes busmsg | Terminates string | Kills string | StopMain

definition terminate_all :: "(string \<times> fate) list \<Rightarrow> action list" where
  "terminate_all procs =
     map (\<lambda>p. Terminates (fst p)) (filter (\<lambda>p. snd p \<noteq> ExitsAlone) (rev procs)) @
     map (\<lambda>p. Kills (fst p)) (filter (\<lambda>p. snd p = Stubborn) procs)"

definition terminate_broker :: "fate \<Rightarrow> action list" where
  "terminate_broker f =
     (case f of
        ExitsAlone \<Rightarrow> []
      | ExitsOnTerm \<Rightarrow> [Terminates ''bus_broker'']
      | Stubborn \<Rightarrow> [Terminates ''bus_broker'', Kills ''bus_broker''])"

text \<open>Waiting for \<^verbatim>\<open>channel_manager.stopped\<close>: a poll without a message, at which the process may be
  found gone, or a message with its topic. Without such a process there is nothing to poll.\<close>

datatype stop_poll = Quiet bool | Arrived string

fun wait_channel_manager_stopped :: "bool \<Rightarrow> stop_poll list \<Rightarrow> bool res" where
  "wait_channel_manager_stopped present [] = Inr False"
| "wait_channel_manager_stopped present (Quiet gone # ps) =
     (if \<not> present then Inl AttributeError
      else if gone then Inr True else wait_channel_manager_stopped present ps)"
| "wait_channel_manager_stopped present (Arrived topic # ps) =
     (if topic = ''channel_manager.stopped'' then Inr True else wait_channel_manager_stopped present ps)"

text \<open>The listener thread on \<^verbatim>\<open>system.shutdown\<close>: an exception ends it where it is.\<close>

definition on_shutdown :: "(string \<times> fate) list \<Rightarrow> stop_poll list \<Rightarrow> exn option \<times> action list" where
  "on_shutdown procs polls =
     (let stop = [Publishes (''system.stop'', [(''reason'', PStr ''system.shutdown'')])] in
      case wait_channel_manager_stopped (''channel_manager'' \<in> set (map fst procs)) polls of
        Inl x \<Rightarrow> (Some x, stop)
      | Inr ack \<Rightarrow> (None, stop @ terminate_all procs @ [StopMain]))"

text \<open>The main thread ends the broker once the listener has set the event.\<close>

definition shutdown_run :: "(string \<times> fate) list \<Rightarrow> fate \<Rightarrow> stop_poll list \<Rightarrow> action list" where
  "shutdown_run procs broker polls =
     (let acts = snd (on_shutdown procs polls) in
      acts @ (if StopMain \<in> set acts then terminate_broker broker else []))"

definition on_sigint :: "(string \<times> fate) list \<Rightarrow> fate \<Rightarrow> action list" where
  "on_sigint procs broker =
     [Publishes (''system.stop'', [(''reason'', PStr ''user_interrupt'')])] @ terminate_all procs @ terminate_broker broker"

section \<open>Module list\<close>

record module_proc =
  mp_label :: string
  mp_pid :: int
  mp_code :: "int option"

definition module_status :: "module_proc \<Rightarrow> string" where
  "module_status p = (case mp_code p of None \<Rightarrow> ''active'' | Some c \<Rightarrow> ''exited ('' @ str_of_int c @ '')'')"

definition modules_response :: "module_proc list \<Rightarrow> busmsg" where
  "modules_response procs =
     (''system.modules_response'', [(''modules'', PList (map (\<lambda>p. PDict
        [(''name'', PStr (mp_label p)), (''pid'', PInt (mp_pid p)), (''status'', PStr (module_status p))]) procs))])"

section \<open>The levels of the modules\<close>

definition level_of :: "boot_msg list \<Rightarrow> string \<Rightarrow> int" where
  "level_of msgs name =
     (case find (\<lambda>m. case m of Junk \<Rightarrow> False | Announce n p \<Rightarrow> n = name) msgs of
        Some (Announce n (Some p)) \<Rightarrow> p | _ \<Rightarrow> 1)"

definition announcers :: "boot_msg list \<Rightarrow> string set" where
  "announcers msgs = {n. n \<noteq> [] \<and> (\<exists>p. Announce n p \<in> set msgs)}"

definition placed :: "priority_map \<Rightarrow> (int \<times> string) set" where
  "placed pm = {(l, n). n \<in> set (dget_or pm l [])}"

definition pm_ok :: "priority_map \<Rightarrow> bool" where
  "pm_ok pm = (dwf pm \<and> [] \<notin> snd ` set pm)"

definition pm_size :: "priority_map \<Rightarrow> nat" where
  "pm_size pm = sum_list (map (length \<circ> snd) pm)"

lemma placed_dappend: "placed (dappend l n pm) = insert (l, n) (placed pm)"
  by (auto simp: placed_def dappend_def dget_or_def map_of_dset split: if_splits option.splits)

lemma set_dset: "set (dset k v d) \<subseteq> insert (k, v) (set d)"
  by (induction d) auto

lemma pm_ok_dappend: "pm_ok pm \<Longrightarrow> pm_ok (dappend l n pm)"
  using set_dset [of l "dget_or pm l [] @ [n]" pm] by (auto simp: pm_ok_def dappend_def)

lemma pm_size_dappend: "pm_size (dappend l n pm) = Suc (pm_size pm)"
  by (induction pm) (auto simp: pm_size_def dappend_def dget_or_def)

lemma pm_levels: "pm_ok pm \<Longrightarrow> set (dkeys pm) = fst ` placed pm"
proof -
  assume ok: "pm_ok pm"
  have "l \<in> set (dkeys pm) \<longleftrightarrow> (\<exists>n. n \<in> set (dget_or pm l []))" for l
  proof (cases "map_of pm l")
    case (Some ns)
    then have "ns \<noteq> []" using ok by (force simp: pm_ok_def dest: map_of_SomeD)
    then show ?thesis using Some by (cases ns) (auto simp: set_dkeys dget_or_def)
  qed (auto simp: set_dkeys dget_or_def)
  then show ?thesis by (force simp: placed_def)
qed

lemma level_of_Cons:
  "level_of (m # ms) n = (case m of Junk \<Rightarrow> level_of ms n
     | Announce k p \<Rightarrow> if k = n then (case p of None \<Rightarrow> 1 | Some q \<Rightarrow> q) else level_of ms n)"
  by (auto simp: level_of_def split: boot_msg.split option.split)

lemma announcers_Cons:
  "announcers (m # ms) = (case m of Junk \<Rightarrow> announcers ms
     | Announce n p \<Rightarrow> (if n = [] then announcers ms else insert n (announcers ms)))"
  by (auto simp: announcers_def split: boot_msg.split)

lemma Nil_not_announcer [simp]: "[] \<notin> announcers msgs"
  by (simp add: announcers_def)

lemma collect_loop_spec:
  assumes "finite N"
  shows "announcers msgs \<subseteq> N \<Longrightarrow> co_replied s \<subseteq> N \<Longrightarrow> co_ready s = card (co_replied s) \<Longrightarrow> pm_ok (co_map s) \<Longrightarrow>
    (let s' = collect_loop (card N) msgs s in
     placed (co_map s') = placed (co_map s) \<union> (\<lambda>n. (level_of msgs n, n)) ` (announcers msgs - co_replied s) \<and>
     co_replied s' = co_replied s \<union> announcers msgs \<and> pm_ok (co_map s') \<and>
     pm_size (co_map s') + card (co_replied s) = pm_size (co_map s) + card (co_replied s'))"
proof (induction msgs arbitrary: s)
  case Nil
  then show ?case by (simp add: announcers_def Let_def)
next
  case (Cons m ms)
  show ?case
  proof (cases "co_ready s \<ge> card N")
    case True
    then have "co_replied s = N"
      using Cons.prems(2,3) assms by (metis card_seteq)
    then show ?thesis using True Cons.prems(1,4) by (auto simp: Let_def)
  next
    case False
    have sub: "announcers ms \<subseteq> N" using Cons.prems(1) by (auto simp: announcers_def)
    show ?thesis
    proof (cases "\<exists>n p. m = Announce n p \<and> n \<noteq> [] \<and> n \<notin> co_replied s")
      case new: True
      then obtain n p where m: "m = Announce n p" "n \<noteq> []" "n \<notin> co_replied s" by auto
      let ?s = "collect_step m s"
      have fin: "finite (co_replied s)" using Cons.prems(2) assms finite_subset by blast
      have s: "co_replied ?s = insert n (co_replied s)" "co_ready ?s = Suc (co_ready s)"
          "co_map ?s = dappend (case p of None \<Rightarrow> 1 | Some p \<Rightarrow> p) n (co_map s)"
        using m by (simp_all add: collect_step_def)
      have "n \<in> N" using Cons.prems(1) m by (auto simp: announcers_def)
      then have IH: "let s' = collect_loop (card N) ms ?s in
          placed (co_map s') = placed (co_map ?s) \<union> (\<lambda>n. (level_of ms n, n)) ` (announcers ms - co_replied ?s) \<and>
          co_replied s' = co_replied ?s \<union> announcers ms \<and> pm_ok (co_map s') \<and>
          pm_size (co_map s') + card (co_replied ?s) = pm_size (co_map ?s) + card (co_replied s')"
        using Cons.IH [of ?s] sub Cons.prems(2-4) s m fin by (simp add: pm_ok_dappend)
      show ?thesis
        using IH False m s fin
        by (auto simp: Let_def placed_dappend pm_size_dappend level_of_Cons announcers_Cons split: option.splits)
    next
      case False': False
      then have st: "collect_step m s = s" by (auto simp: collect_step_def split: boot_msg.split)
      have an: "announcers (m # ms) - co_replied s = announcers ms - co_replied s"
          "co_replied s \<union> announcers (m # ms) = co_replied s \<union> announcers ms"
        using False' by (auto simp: announcers_Cons split: boot_msg.splits if_splits)
      have "level_of (m # ms) n = level_of ms n" if "n \<in> announcers ms - co_replied s" for n
        using that False' by (cases m) (auto simp: level_of_Cons)
      then have "(\<lambda>n. (level_of (m # ms) n, n)) ` (announcers ms - co_replied s) =
          (\<lambda>n. (level_of ms n, n)) ` (announcers ms - co_replied s)"
        by (intro image_cong) auto
      then show ?thesis
        using Cons.IH [of s] sub Cons.prems(2-4) False st unfolding an by (simp add: Let_def)
    qed
  qed
qed

lemma fallback_loop_spec:
  assumes "distinct ns"
  shows "pm_ok pm \<Longrightarrow> placed (fallback_loop ns R pm) = placed pm \<union> Pair 1 ` (set ns - R) \<and> pm_ok (fallback_loop ns R pm) \<and>
    pm_size (fallback_loop ns R pm) = pm_size pm + card (set ns - R)"
  using assms
proof (induction ns arbitrary: pm)
  case (Cons n ns)
  have "card (set (n # ns) - R) = card (set ns - R) + (if n \<in> R then 0 else 1)"
    using Cons.prems(2) by (simp add: insert_Diff_if)
  then show ?case
    using Cons.IH [of pm] Cons.IH [of "dappend 1 n pm"] Cons.prems
    by (auto simp: placed_dappend pm_ok_dappend pm_size_dappend)
qed simp

lemma level_of_silent: "n \<notin> announcers msgs \<Longrightarrow> n \<noteq> [] \<Longrightarrow> level_of msgs n = 1"
  by (induction msgs) (auto simp: level_of_Cons announcers_Cons level_of_def [of "[]"] split: boot_msg.splits if_splits)

lemma collect_spec:
  assumes "distinct names" "[] \<notin> set names" "announcers msgs \<subseteq> set names"
  shows "placed (collect_module_ready names msgs) = (\<lambda>n. (level_of msgs n, n)) ` set names \<and>
    pm_ok (collect_module_ready names msgs) \<and> pm_size (collect_module_ready names msgs) = length names"
proof -
  let ?init = "\<lparr>co_map = [], co_replied = {}, co_ready = 0\<rparr> :: collecting"
  let ?res = "collect_loop (length names) msgs ?init"
  have n: "length names = card (set names)" using assms(1) by (simp add: distinct_card)
  have empty_map: "placed [] = {}" "pm_ok []" "pm_size [] = 0"
    by (simp_all add: pm_ok_def pm_size_def placed_def dget_or_def)
  have s: "placed (co_map ?res) = (\<lambda>n. (level_of msgs n, n)) ` announcers msgs \<and> co_replied ?res = announcers msgs \<and>
      pm_ok (co_map ?res) \<and> pm_size (co_map ?res) = card (announcers msgs)"
    using collect_loop_spec [where N = "set names" and msgs = msgs and s = ?init] assms(3) n
      empty_map by (simp add: Let_def)
  have c: "card (announcers msgs) + card (set names - announcers msgs) = length names"
    using assms(3) n by (simp add: card_Diff_subset finite_subset card_mono)
  have l: "Pair 1 ` (set names - announcers msgs) = (\<lambda>n. (level_of msgs n, n)) ` (set names - announcers msgs)"
  proof (rule image_cong [OF refl])
    fix n assume "n \<in> set names - announcers msgs"
    moreover from this have "n \<noteq> []" using assms(2) by auto
    ultimately show "(1, n) = (level_of msgs n, n)" by (simp add: level_of_silent)
  qed
  have u: "set names = announcers msgs \<union> (set names - announcers msgs)" using assms(3) by auto
  have r: "collect_module_ready names msgs = fallback_loop names (announcers msgs) (co_map ?res)"
    using s by (simp add: collect_module_ready_def Let_def)
  have "(\<lambda>n. (level_of msgs n, n)) ` announcers msgs \<union> (\<lambda>n. (level_of msgs n, n)) ` (set names - announcers msgs) =
      (\<lambda>n. (level_of msgs n, n)) ` set names"
    using u by (simp only: image_Un [symmetric])
  then show ?thesis
    unfolding r using fallback_loop_spec [OF assms(1), of "co_map ?res" "announcers msgs"] s c l by simp
qed

lemma dkeys_sorted: "dwf d \<Longrightarrow> sort (dkeys d) = sorted_list_of_set (set (dkeys d))"
  unfolding dwf_def dkeys_def sorted_list_of_set_sort_remdups by (simp add: distinct_remdups_id)

lemma pm_size_levels: "dwf pm \<Longrightarrow> sum_list (map (\<lambda>l. length (dget_or pm l [])) (sort (dkeys pm))) = pm_size pm"
proof -
  assume w: "dwf pm"
  have "sum_list (map (\<lambda>l. length (dget_or pm l [])) (sort (dkeys pm))) = sum_list (map (\<lambda>l. length (dget_or pm l [])) (dkeys pm))"
    by (simp flip: sum_mset_sum_list)
  moreover have "map (\<lambda>l. length (dget_or pm l [])) (dkeys pm) = map (length \<circ> snd) pm"
    using w by (auto simp: dkeys_def dwf_def dget_or_def map_of_is_SomeI)
  ultimately show ?thesis by (simp add: pm_size_def)
qed

lemma ready_loop_spec: "ready_loop p msgs pending = pending - {n. Announce n (Some p) \<in> set msgs}"
  by (induction msgs arbitrary: pending) (auto split: boot_msg.split)

definition start_msg :: "int \<Rightarrow> busmsg" where
  "start_msg p = (''system.start'', [(''priority'', PInt p)])"

lemma boot_pm:
  assumes "distinct dirs" and "[] \<notin> set dirs" and "announcers msgs \<subseteq> set (discover_modules dirs)"
  defines "pm \<equiv> collect_module_ready (discover_modules dirs) msgs"
  shows "sort (dkeys pm) = sorted_list_of_set (level_of msgs ` set (discover_modules dirs))"
    "set (dget_or pm l []) = {n \<in> set (discover_modules dirs). level_of msgs n = l}"
    "sum_list (map (\<lambda>l. length (dget_or pm l [])) (sort (dkeys pm))) = length (discover_modules dirs)"
proof -
  let ?names = "discover_modules dirs"
  have d: "distinct ?names" "[] \<notin> set ?names" using assms(1,2) by (auto simp: discover_modules_def)
  from collect_spec [OF d assms(3)]
  have pm: "placed pm = (\<lambda>n. (level_of msgs n, n)) ` set ?names" "pm_ok pm" "pm_size pm = length ?names"
    by (auto simp: pm_def)
  show "sort (dkeys pm) = sorted_list_of_set (level_of msgs ` set ?names)"
    using pm_levels [OF pm(2)] pm(1,2) dkeys_sorted [of pm] by (simp add: pm_ok_def image_image)
  show "set (dget_or pm l []) = {n \<in> set ?names. level_of msgs n = l}"
    using pm(1) by (auto simp: placed_def set_eq_iff)
  show "sum_list (map (\<lambda>l. length (dget_or pm l [])) (sort (dkeys pm))) = length ?names"
    using pm_size_levels [of pm] pm(2,3) by (simp add: pm_ok_def)
qed

lemma level_wait:
  assumes "distinct dirs" and "[] \<notin> set dirs" and "announcers msgs \<subseteq> set (discover_modules dirs)"
    and "l \<in> level_of msgs ` set (discover_modules dirs)"
  shows "wait_for_level_ready l (dget_or (collect_module_ready (discover_modules dirs) msgs) l []) heard =
    ([start_msg l], {n \<in> set (discover_modules dirs). level_of msgs n = l \<and> Announce n (Some l) \<notin> set heard})"
proof -
  have "dget_or (collect_module_ready (discover_modules dirs) msgs) l [] \<noteq> []"
    using boot_pm(2) [OF assms(1-3), of l] assms(4) by auto
  then show ?thesis
    using boot_pm(2) [OF assms(1-3), of l] by (auto simp: wait_for_level_ready_def ready_loop_spec start_msg_def)
qed

lemma boot_eq:
  assumes "distinct dirs" and "[] \<notin> set dirs" and "announcers msgs \<subseteq> set (discover_modules dirs)"
  shows "boot dirs msgs arrivals = map (\<lambda>l. ([start_msg l],
      {n \<in> set (discover_modules dirs). level_of msgs n = l \<and> Announce n (Some l) \<notin> set (arrivals l)}))
      (sorted_list_of_set (level_of msgs ` set (discover_modules dirs)))"
  unfolding boot_def boot_levels_def boot_pm(1) [OF assms] using level_wait [OF assms] by (intro map_cong) auto

section \<open>Time\<close>

text \<open>The messages that arrive before a deadline, and a loop over messages only.\<close>

definition in_time :: "nat \<Rightarrow> arrivals \<Rightarrow> boot_msg list" where
  "in_time deadline ms = map snd (takeWhile (\<lambda>a. fst a < deadline) ms)"

fun msg_loop :: "('s \<Rightarrow> bool) \<Rightarrow> (boot_msg \<Rightarrow> 's \<Rightarrow> 's) \<Rightarrow> boot_msg list \<Rightarrow> 's \<Rightarrow> 's" where
  "msg_loop go h [] s = s"
| "msg_loop go h (m # ms) s = (if go s then msg_loop go h ms (h m s) else s)"

lemma in_time_simps [simp]:
  "in_time d [] = []" "in_time d ((t, m) # ms) = (if t < d then m # in_time d ms else [])"
  by (simp_all add: in_time_def)

lemma msg_loop_done: "\<not> go s \<Longrightarrow> msg_loop go h ms s = s"
  by (cases ms) auto

lemma poll_loop_late: "d \<le> now \<Longrightarrow> poll_loop go h d ms now s = (s, now)"
  by (simp add: poll_loop.simps [of go h d ms now s])

text \<open>A polling loop does what the loop over the messages in time does, and ends by its deadline.\<close>

lemma poll_loop_spec:
  "now < d \<Longrightarrow> fst (poll_loop go h d ms now s) = msg_loop go h (in_time d ms) s \<and>
   snd (poll_loop go h d ms now s) \<le> d"
proof (induction go h d ms now s rule: poll_loop.induct)
  case (1 go h d ms now s)
  show ?case
  proof (cases "go s")
    case False
    then show ?thesis using "1.prems" by (simp add: poll_loop.simps [of go h d ms now s] msg_loop_done)
  next
    case True
    let ?t = "min (d - now) 200"
    have late: "fst (poll_loop go h d ms (now + ?t) s) = msg_loop go h (in_time d ms) s \<and>
        snd (poll_loop go h d ms (now + ?t) s) \<le> d" if "ms = [] \<or> now + ?t \<le> fst (hd ms)"
    proof (cases "now + ?t < d")
      case True
      then show ?thesis using "1.IH"(1) [of ?t] "1.IH"(3) [of ?t] "1.prems" \<open>go s\<close> that by (cases ms) auto
    next
      case False
      then have e: "now + ?t = d" using "1.prems" by auto
      then show ?thesis using that unfolding e by (cases ms) (auto simp: poll_loop_late)
    qed
    show ?thesis
    proof (cases "ms = [] \<or> now + ?t \<le> fst (hd ms)")
      case True
      then show ?thesis using late "1.prems" \<open>go s\<close>
        by (subst (1 2) poll_loop.simps) (cases ms; auto simp: Let_def)
    next
      case False
      then obtain t m rest where m: "ms = (t, m) # rest" "t < now + ?t" by (cases ms) auto
      then have "max now t < d" using "1.prems" by auto
      then show ?thesis using "1.IH"(2) [of ?t "(t, m)" rest t m] "1.prems" \<open>go s\<close> m
        by (simp add: poll_loop.simps [of go h d "(t, m) # rest" now s] Let_def)
    qed
  qed
qed

lemma collect_loop_msgs: "collect_loop n ms s = msg_loop (\<lambda>s. co_ready s < n) collect_step ms s"
  by (induction ms arbitrary: s) (auto simp: not_less)

lemma ready_loop_msgs: "ready_loop p ms pending = msg_loop (\<lambda>x. x \<noteq> {}) (ready_step p) ms pending"
  by (induction ms arbitrary: pending) (auto simp: ready_step_def)

lemma collect_run_spec:
  "fst (collect_module_ready_run names ms now) = collect_module_ready names (in_time (now + 20100) ms) \<and>
   snd (collect_module_ready_run names ms now) \<le> now + 20100"
  using poll_loop_spec [of "now + 100" "now + 20100" "\<lambda>s. co_ready s < length names" collect_step ms
      "\<lparr>co_map = [], co_replied = {}, co_ready = 0\<rparr>"]
  by (simp add: collect_module_ready_run_def collect_module_ready_def READYTOSTART_WINDOW_def
      collect_loop_msgs Let_def case_prod_beta add.commute [of now 20100])

lemma wait_run_spec:
  assumes "expected \<noteq> []"
  shows "snd (fst (wait_for_level_ready_run l expected ms now)) =
      wait_for_level_ready l expected (in_time (fst (fst (wait_for_level_ready_run l expected ms now))) ms) \<and>
    snd (wait_for_level_ready_run l expected ms now) \<le> now + 50 + 5000 * length expected"
  using poll_loop_spec [of "now + 50" "now + 50 + 5000 * length expected" "\<lambda>x. x \<noteq> {}" "ready_step l" ms "set expected"] assms
  by (simp add: wait_for_level_ready_run_def wait_for_level_ready_def MODULE_READY_TIMEOUT_def
      ready_loop_msgs Let_def case_prod_beta)

lemma levels_run_spec:
  "list_all (\<lambda>l. dget_or pm l [] \<noteq> []) ls \<Longrightarrow>
   list_all2 (\<lambda>l r. snd r = wait_for_level_ready l (dget_or pm l []) (in_time (fst r) (arr l))) ls (fst (boot_levels_run ls pm arr now)) \<and>
   snd (boot_levels_run ls pm arr now) \<le> now + 50 * length ls + 5000 * sum_list (map (\<lambda>l. length (dget_or pm l [])) ls)"
proof (induction ls arbitrary: now)
  case (Cons l ls)
  let ?w = "wait_for_level_ready_run l (dget_or pm l []) (arr l) now"
  show ?case
    using Cons.IH [of "snd ?w"] Cons.prems wait_run_spec [of "dget_or pm l []" l "arr l" now]
    by (simp add: case_prod_beta Let_def algebra_simps)
qed simp

text \<open>C5 Timed by the code's own sleeps and deadlines, with the sockets delivering anything at any time
  except that only discovered modules announce themselves in the window, the boot starts every level once, in ascending order, and awaits every module in its own level: the
  level it announced first within the 20 s window, or 1 if it announced none; what a level still lacks
  when its wait ends are exactly its modules whose \<^verbatim>\<open>system.ready\<close> for it had not arrived by the
  deadline of the level; and the boot ends after at most the 0.1 s before the window, the window, 0.05 s
  for each level and 5 s for each module.\<close>

theorem boot_starts_levels:
  assumes "distinct dirs" and "[] \<notin> set dirs"
    and "announcers (in_time (now + 20100) ms) \<subseteq> set (discover_modules dirs)"
  shows "list_all2 (\<lambda>l (deadline, starts, pending). starts = [start_msg l] \<and>
        pending = {n \<in> set (discover_modules dirs). level_of (in_time (now + 20100) ms) n = l \<and>
          Announce n (Some l) \<notin> set (in_time deadline (arr l))})
      (sorted_list_of_set (level_of (in_time (now + 20100) ms) ` set (discover_modules dirs)))
      (fst (boot_run dirs ms arr now)) \<and>
    snd (boot_run dirs ms arr now) \<le> now + 100 + 20000 +
      50 * card (level_of (in_time (now + 20100) ms) ` set (discover_modules dirs)) + 5000 * length (discover_modules dirs)"
proof -
  let ?names = "discover_modules dirs" and ?in = "in_time (now + 20100) ms"
  let ?pm = "collect_module_ready ?names ?in" and ?r = "collect_module_ready_run ?names ms now"
  let ?ls = "sort (dkeys ?pm)" and ?levels = "level_of ?in ` set ?names"
  have r: "fst ?r = ?pm" "snd ?r \<le> now + 20100" using collect_run_spec by auto
  note pm = boot_pm [OF assms]
  have ne: "dget_or ?pm l [] \<noteq> []" if "l \<in> ?levels" for l using pm(2) [of l] that by auto
  then have all: "list_all (\<lambda>l. dget_or ?pm l [] \<noteq> []) ?ls" by (simp add: pm(1) list_all_iff)
  note spec = levels_run_spec [OF all, of arr "snd ?r"]
  have "list_all2 (\<lambda>l (deadline, starts, pending). starts = [start_msg l] \<and>
      pending = {n \<in> set ?names. level_of ?in n = l \<and> Announce n (Some l) \<notin> set (in_time deadline (arr l))})
      ?ls (fst (boot_levels_run ?ls ?pm arr (snd ?r)))"
    by (rule list.rel_mono_strong [OF conjunct1 [OF spec]]) (auto simp: pm(1) level_wait [OF assms])
  moreover have "snd (boot_levels_run ?ls ?pm arr (snd ?r)) \<le> now + 20100 + 50 * card ?levels + 5000 * length ?names"
    using conjunct2 [OF spec] r(2) pm(1,3) by (simp add: length_sorted_list_of_set)
  ultimately show ?thesis using r(1) pm(1) by (simp add: boot_run_def case_prod_beta)
qed

definition demo_dirs :: "string list" where
  "demo_dirs = [''video_ui'', ''tcp_server'', ''_template'', ''config_manager'']"

definition demo_msgs :: "boot_msg list" where
  "demo_msgs = [Announce ''config_manager'' (Some 0), Junk, Announce ''tcp_server'' (Some 1)]"

definition demo_arrivals :: "int \<Rightarrow> boot_msg list" where
  "demo_arrivals l = (if l = 0 then [Announce ''config_manager'' (Some 0)] else [])"

text \<open>The same messages on the clock: one second apart in the window, at once in level 0.\<close>

definition demo_timed :: arrivals where
  "demo_timed = [(300, Announce ''config_manager'' (Some 0)), (1300, Junk), (2300, Announce ''tcp_server'' (Some 1))]"

lemma boot_starts_levels_witness:
  "list_all2 (\<lambda>l (deadline, starts, pending). starts = [start_msg l] \<and>
        pending = {n \<in> set (discover_modules demo_dirs). level_of (in_time (0 + 20100) demo_timed) n = l \<and>
          Announce n (Some l) \<notin> set (in_time deadline (map (Pair 20200) (demo_arrivals l)))})
      (sorted_list_of_set (level_of (in_time (0 + 20100) demo_timed) ` set (discover_modules demo_dirs)))
      (fst (boot_run demo_dirs demo_timed (\<lambda>l. map (Pair 20200) (demo_arrivals l)) 0)) \<and>
    snd (boot_run demo_dirs demo_timed (\<lambda>l. map (Pair 20200) (demo_arrivals l)) 0) \<le> 0 + 100 + 20000 +
      50 * card (level_of (in_time (0 + 20100) demo_timed) ` set (discover_modules demo_dirs)) +
      5000 * length (discover_modules demo_dirs)"
  by (rule boot_starts_levels) (auto simp: demo_dirs_def demo_timed_def announcers_def discover_modules_def starts_def)

text \<open>C40 A module of another level that misses the window is never started: when it announced nothing, its
  priority is not 1 and no other module has that priority, none of the start messages of the boot is
  for it, and level 1 waits for it in vain.\<close>

theorem silent_module_never_started:
  assumes "distinct dirs" and "[] \<notin> set dirs" and "announcers msgs \<subseteq> set (discover_modules dirs)"
    and "m \<in> set (discover_modules dirs)" and "m \<notin> announcers msgs" and "p \<noteq> 1"
    and "\<forall>n \<in> announcers msgs. level_of msgs n \<noteq> p"
  shows "concat (map (\<lambda>b. on_system_start m p (snd b)) (concat (map fst (boot dirs msgs arrivals)))) = [] \<and>
    m \<in> set (dget_or (collect_module_ready (discover_modules dirs) msgs) 1 [])"
proof -
  let ?names = "set (discover_modules dirs)"
  have ne: "n \<noteq> []" if "n \<in> ?names" for n using assms(2) that by (auto simp: discover_modules_def)
  have "level_of msgs n \<noteq> p" if "n \<in> ?names" for n
    using assms(6,7) that level_of_silent [of n msgs] ne by (cases "n \<in> announcers msgs") auto
  then have "\<forall>l \<in> set (sorted_list_of_set (level_of msgs ` ?names)). on_system_start m p (snd (start_msg l)) = []"
    by (auto simp: on_system_start_def start_msg_def dget_def dget_or_def)
  moreover have "concat (map fst (boot dirs msgs arrivals)) = map start_msg (sorted_list_of_set (level_of msgs ` ?names))"
    unfolding boot_eq [OF assms(1-3)] by (simp add: comp_def)
  moreover have "level_of msgs m = 1" using level_of_silent assms(4,5) ne by blast
  ultimately show ?thesis
    using boot_pm(2) [OF assms(1-3)] assms(4) by simp
qed

lemma silent_module_never_started_witness:
  "concat (map (\<lambda>b. on_system_start ''video_ui'' 2 (snd b)) (concat (map fst (boot demo_dirs demo_msgs demo_arrivals)))) = [] \<and>
    ''video_ui'' \<in> set (dget_or (collect_module_ready (discover_modules demo_dirs) demo_msgs) 1 [])"
proof (rule silent_module_never_started)
  show "\<forall>n \<in> announcers demo_msgs. level_of demo_msgs n \<noteq> 2"
    by (auto simp: announcers_def demo_msgs_def level_of_def)
qed (auto simp: demo_dirs_def demo_msgs_def announcers_def discover_modules_def starts_def)

section \<open>Every process ends\<close>

text \<open>The processes left running after a sequence of actions.\<close>

definition survivors :: "(string \<times> fate) list \<Rightarrow> action list \<Rightarrow> (string \<times> fate) list" where
  "survivors procs acts = filter (\<lambda>p. case snd p of ExitsAlone \<Rightarrow> False
     | ExitsOnTerm \<Rightarrow> Terminates (fst p) \<notin> set acts | Stubborn \<Rightarrow> Kills (fst p) \<notin> set acts) procs"

lemma terminate_all_ends: "survivors procs (xs @ terminate_all procs @ ys) = []"
  by (auto simp: survivors_def terminate_all_def filter_empty_conv split: fate.split)

lemma wait_present: "\<exists>ack. wait_channel_manager_stopped True polls = Inr ack"
  by (induction True polls rule: wait_channel_manager_stopped.induct) auto

text \<open>A shutdown request ends everything when the channel manager runs: whatever polls come, every
  module and the broker are gone at the end, the stop being announced first. Without a channel manager
  among the modules the first quiet poll ends the listener by an exception: the stop is announced, but
  nothing is terminated and the main thread never learns of the shutdown.\<close>

theorem shutdown_ends_all:
  assumes "p \<in> set procs" and "snd p \<noteq> ExitsAlone"
  shows "(if ''channel_manager'' \<in> set (map fst procs)
     then survivors (procs @ [(''bus_broker'', broker)]) (shutdown_run procs broker polls) = []
     else shutdown_run procs broker (Quiet gone # polls) = [Publishes (''system.stop'', [(''reason'', PStr ''system.shutdown'')])] \<and>
       p \<in> set (survivors procs (shutdown_run procs broker (Quiet gone # polls))))"
proof (cases "''channel_manager'' \<in> set (map fst procs)")
  case True
  obtain ack where "wait_channel_manager_stopped True polls = Inr ack" using wait_present by blast
  then have r: "shutdown_run procs broker polls =
      [Publishes (''system.stop'', [(''reason'', PStr ''system.shutdown'')])] @ terminate_all procs @ [StopMain] @ terminate_broker broker"
    using True by (simp add: shutdown_run_def on_shutdown_def)
  have "survivors procs (shutdown_run procs broker polls) = []"
    unfolding r by (rule terminate_all_ends)
  moreover have "survivors [(''bus_broker'', broker)] (shutdown_run procs broker polls) = []"
    unfolding r by (simp add: survivors_def terminate_broker_def split: fate.split)
  ultimately show ?thesis using True by (simp add: survivors_def)
next
  case False
  then show ?thesis
    using assms(1,2) by (auto simp: shutdown_run_def on_shutdown_def survivors_def split: fate.split)
qed

lemma shutdown_ends_all_witness:
  "(if ''channel_manager'' \<in> set (map fst [(''tcp_server'', Stubborn)])
     then survivors ([(''tcp_server'', Stubborn)] @ [(''bus_broker'', ExitsOnTerm)]) (shutdown_run [(''tcp_server'', Stubborn)] ExitsOnTerm []) = []
     else shutdown_run [(''tcp_server'', Stubborn)] ExitsOnTerm (Quiet False # []) = [Publishes (''system.stop'', [(''reason'', PStr ''system.shutdown'')])] \<and>
       (''tcp_server'', Stubborn) \<in> set (survivors [(''tcp_server'', Stubborn)] (shutdown_run [(''tcp_server'', Stubborn)] ExitsOnTerm (Quiet False # []))))"
  by (rule shutdown_ends_all) simp_all

end
