(* ===== verification/ProtoUtils.thy ===== *)
theory ProtoUtils
  imports PyVal
begin

unbundle bit_operations_syntax

text \<open>
  \<^verbatim>\<open>v2/shared/proto_utils.py\<close>, the byte-level half: the frame helpers of the channel modules and the
  parser of timestamped media frames, which reads either protobuf fields or a bare big-endian
  timestamp followed by the data.
\<close>

section \<open>Frames\<close>

definition AA_FLAG_FIRST :: int where "AA_FLAG_FIRST = 1"
definition AA_FLAG_LAST :: int where "AA_FLAG_LAST = 2"
definition AA_FLAG_ENCRYPTED :: int where "AA_FLAG_ENCRYPTED = 8"
definition AA_FLAG_CONTROL :: int where "AA_FLAG_CONTROL = 4"
definition AA_FLAG_FULL :: int where "AA_FLAG_FULL = AA_FLAG_FIRST OR AA_FLAG_LAST"

lemmas aa_flags = AA_FLAG_FIRST_def AA_FLAG_LAST_def AA_FLAG_ENCRYPTED_def AA_FLAG_CONTROL_def AA_FLAG_FULL_def

definition encode_aa_frame :: "int \<Rightarrow> int \<Rightarrow> bytes \<Rightarrow> bool \<Rightarrow> payload res" where
  "encode_aa_frame channel_id message_id proto_body control =
     rbind (pack_be 2 message_id) (\<lambda>m.
       Inr [(''channel_id'', PInt channel_id),
            (''flags'', PInt (AA_FLAG_FULL OR (if control then AA_FLAG_CONTROL else 0) OR AA_FLAG_ENCRYPTED)),
            (''payload_hex'', PStr (bytes_hex (m @ proto_body)))])"

definition decode_aa_frame :: "bytes \<Rightarrow> (int \<times> bytes) option" where
  "decode_aa_frame data = (if length data < 2 then None else Some (be_val (take 2 data), drop 2 data))"

section \<open>Varints and skipping\<close>

text \<open>The position is an index into the buffer, as in the code.\<close>

function read_varint_from :: "bytes \<Rightarrow> nat \<Rightarrow> int \<Rightarrow> nat \<Rightarrow> int option \<times> nat" where
  "read_varint_from buf pos result shift =
     (if pos < length buf then
        (let b = uint (buf ! pos); result' = result OR push_bit shift (b AND 127) in
         if b AND 128 = 0 then (Some result', pos + 1)
         else if shift + 7 \<ge> 64 then (None, pos + 1)
         else read_varint_from buf (pos + 1) result' (shift + 7))
      else (None, pos))"
  by pat_completeness auto
termination
  by (relation "measure (\<lambda>(buf, pos, result, shift). length buf - pos)") auto

declare read_varint_from.simps [simp del]

definition read_varint :: "bytes \<Rightarrow> nat \<Rightarrow> int option \<times> nat" where
  "read_varint buf pos = read_varint_from buf pos 0 0"

definition skip_field :: "bytes \<Rightarrow> nat \<Rightarrow> int \<Rightarrow> nat option" where
  "skip_field buf pos wire_type =
     (if wire_type = 0 then Some (snd (read_varint buf pos))
      else if wire_type = 1 then (if pos + 8 \<le> length buf then Some (pos + 8) else None)
      else if wire_type = 2 then
        (case read_varint buf pos of
           (None, p) \<Rightarrow> None
         | (Some n, p) \<Rightarrow> (if p + nat n \<le> length buf then Some (p + nat n) else None))
      else if wire_type = 5 then (if pos + 4 \<le> length buf then Some (pos + 4) else None)
      else None)"

lemma read_varint_from_pos: "pos \<le> snd (read_varint_from buf pos result shift)"
proof (induction buf pos result shift rule: read_varint_from.induct)
  case (1 buf pos result shift)
  then show ?case
    by (subst read_varint_from.simps) (auto simp: Let_def intro: Suc_leD)
qed

lemma read_varint_pos: "read_varint buf pos = (r, p) \<Longrightarrow> pos \<le> p"
  using read_varint_from_pos [of pos buf 0 0] by (simp add: read_varint_def)

lemma skip_field_pos: "skip_field buf pos w = Some p \<Longrightarrow> pos \<le> p"
  by (auto simp: skip_field_def split: if_splits option.splits prod.splits dest: read_varint_pos)
    (metis read_varint_pos prod.collapse)+

section \<open>Timestamped media\<close>

text \<open>The parsing loop, from a position, with the timestamp and the data found so far.\<close>

function media_loop :: "bytes \<Rightarrow> nat \<Rightarrow> int \<Rightarrow> bytes \<Rightarrow> int \<times> bytes" where
  "media_loop body pos ts data =
     (if pos < length body then
        (let tag = uint (body ! pos); field_number = drop_bit 3 tag; wire_type = tag AND 7 in
         if field_number = 1 \<and> wire_type = 1 then
           (if pos + 1 + 8 > length body then (ts, data)
            else media_loop body (pos + 1 + 8) (le_val (take 8 (drop (pos + 1) body))) data)
         else if field_number = 2 \<and> wire_type = 2 then
           (case read_varint body (pos + 1) of
              (None, p) \<Rightarrow> (ts, data)
            | (Some n, p) \<Rightarrow> media_loop body (p + nat n) ts (take (nat n) (drop p body)))
         else
           (case skip_field body (pos + 1) wire_type of
              None \<Rightarrow> (ts, data)
            | Some p \<Rightarrow> media_loop body p ts data))
      else (ts, data))"
  by pat_completeness auto
termination
  by (relation "measure (\<lambda>(body, pos, ts, data). length body - pos)")
    (auto dest: read_varint_pos skip_field_pos dest!: sym [of "(Some _, _)"])

declare media_loop.simps [simp del]

definition parse_media_with_timestamp :: "bytes \<Rightarrow> int \<times> bytes" where
  "parse_media_with_timestamp body =
     (let (raw_ts, raw_data) = (if length body \<ge> 8 then (be_val (take 8 body), drop 8 body) else (0, []));
          (ts, data) = media_loop body 0 0 []
      in if data \<noteq> [] then (ts, data) else if raw_data \<noteq> [] then (raw_ts, raw_data) else (ts, data))"

definition build_media_with_timestamp :: "int \<Rightarrow> bytes \<Rightarrow> bytes res" where
  "build_media_with_timestamp ts_us data = rbind (pack_be 8 ts_us) (\<lambda>t. Inr (t @ data))"

section \<open>Reading what a writer wrote\<close>

fun enc_varint :: "nat \<Rightarrow> bytes" where
  "enc_varint n = (if n < 128 then [word_of_nat n] else word_of_nat (n mod 128 + 128) # enc_varint (n div 128))"

declare enc_varint.simps [simp del]

lemma varint_bits:
  "0 \<le> x \<Longrightarrow> x < 256 \<Longrightarrow> (x :: int) AND 127 = x mod 128"
  "0 \<le> x \<Longrightarrow> x < 256 \<Longrightarrow> (x :: int) AND 128 = 0 \<longleftrightarrow> x < 128"
proof -
  assume x: "0 \<le> x" "x < 256"
  have "x AND 127 = take_bit 7 x" by (simp add: take_bit_eq_mask mask_eq_exp_minus_1)
  then show "x AND 127 = x mod 128" by (simp add: take_bit_eq_mod)
  have "x AND 2 ^ 7 = 0 \<longleftrightarrow> \<not> bit x 7" by (rule and_exp_eq_0_iff_not_bit)
  also have "\<dots> \<longleftrightarrow> even (x div 128)" by (simp add: bit_iff_odd)
  also have "\<dots> \<longleftrightarrow> x < 128"
  proof (cases "x < 128")
    case False
    then have "x div 128 = 1" using x by simp
    then show ?thesis using False by simp
  qed (use x in simp)
  finally show "x AND 128 = 0 \<longleftrightarrow> x < 128" by simp
qed

lemma uint_small_byte: "k < 256 \<Longrightarrow> uint (word_of_nat k :: byte) = int k"
  by (simp add: uint_nat unat_of_nat)

lemma or_shift_add:
  fixes r x :: int
  assumes "0 \<le> r" "r < 2 ^ s"
  shows "r OR push_bit s x = r + x * 2 ^ s"
proof -
  have "r = take_bit s r" using assms by (simp add: take_bit_int_eq_self)
  then have nb: "s \<le> n \<Longrightarrow> \<not> bit r n" for n by (metis bit_take_bit_iff not_le)
  have "\<not> bit r n \<or> \<not> bit (push_bit s x) n" for n
    using nb [of n] by (cases "s \<le> n") (simp_all add: bit_push_bit_iff)
  then have "r OR push_bit s x = r + push_bit s x"
    by (rule disjunctive_add [symmetric])
  then show ?thesis by (simp add: push_bit_eq_mult)
qed

lemma read_enc_varint_from:
  assumes "0 \<le> r" "r < 2 ^ s" "int n * 2 ^ s < 2 ^ 63"
  shows "read_varint_from (pre @ enc_varint n @ post) (length pre) r s
    = (Some (r + int n * 2 ^ s), length pre + length (enc_varint n))"
  using assms
proof (induction n arbitrary: pre r s rule: enc_varint.induct)
  case (1 n)
  show ?case
  proof (cases "n < 128")
    case True
    have u: "uint (word_of_nat n :: byte) = int n" using True by (simp add: uint_nat unat_of_nat)
    show ?thesis
      using True 1(2-4) varint_bits [of "int n"] u
      by (subst read_varint_from.simps)
        (simp add: enc_varint.simps [of n] Let_def nth_append or_shift_add del: push_bit_and)
  next
    case False
    let ?b = "word_of_nat (n mod 128 + 128) :: byte"
    have "n mod 128 + 128 < 256" using mod_less_divisor [of 128 n] by linarith
    then have u: "uint ?b = int (n mod 128) + 128" using uint_small_byte [of "n mod 128 + 128"] by simp
    have bits: "uint ?b AND 127 = int (n mod 128)" "uint ?b AND 128 \<noteq> 0"
    proof -
      define y where "y = int (n mod 128)"
      have y: "0 \<le> y" "y < 128" by (simp_all add: y_def)
      have "(y + 128) AND 127 = y" using varint_bits(1) [of "y + 128"] y by simp
      moreover have "(y + 128) AND 128 \<noteq> 0" using varint_bits(2) [of "y + 128"] y by simp
      ultimately show "uint ?b AND 127 = int (n mod 128)" "uint ?b AND 128 \<noteq> 0"
        unfolding u y_def by auto
    qed
    have "(2 :: int) ^ (s + 7) = 128 * 2 ^ s" by (simp add: power_add)
    also have "\<dots> \<le> int n * 2 ^ s" using False by (intro mult_right_mono) auto
    also have "\<dots> < 2 ^ 63" by (rule 1(4))
    finally have s: "s + 7 < 63" by (rule power_less_imp_less_exp [rotated]) simp
    have r: "r OR push_bit s (int (n mod 128)) = r + int (n mod 128) * 2 ^ s"
      using 1(2,3) by (rule or_shift_add)
    have m: "int (n mod 128) * 2 ^ s \<le> 127 * 2 ^ s" by (intro mult_right_mono) auto
    have lt: "r + int (n mod 128) * 2 ^ s < 2 ^ (s + 7)"
    proof -
      have "(2 :: int) ^ (s + 7) = 127 * 2 ^ s + 2 ^ s" by (simp add: power_add)
      then show ?thesis using m 1(3) by linarith
    qed
    have n: "int n = int (n mod 128) + 128 * int (n div 128)"
      by (simp add: zdiv_int zmod_int)
    have big: "int (n div 128) * 2 ^ (s + 7) < 2 ^ 63"
    proof -
      have "int (n div 128) * 2 ^ (s + 7) = (128 * int (n div 128)) * 2 ^ s" by (simp add: power_add)
      also have "\<dots> \<le> int n * 2 ^ s" using n by (intro mult_right_mono) auto
      finally show ?thesis using 1(4) by simp
    qed
    have ih: "read_varint_from ((pre @ [?b]) @ enc_varint (n div 128) @ post) (length (pre @ [?b]))
        (r + int (n mod 128) * 2 ^ s) (s + 7)
      = (Some (r + int (n mod 128) * 2 ^ s + int (n div 128) * 2 ^ (s + 7)),
         length (pre @ [?b]) + length (enc_varint (n div 128)))"
      using False lt big 1(2) by (intro 1(1)) auto
    have tot: "r + int (n mod 128) * 2 ^ s + int (n div 128) * 2 ^ (s + 7) = r + int n * 2 ^ s"
      using n by (simp add: power_add algebra_simps)
    have e: "enc_varint n = ?b # enc_varint (n div 128)" using False by (simp add: enc_varint.simps [of n])
    show ?thesis
      using ih s bits r tot
      by (subst read_varint_from.simps) (simp add: e Let_def nth_append del: push_bit_and)
  qed
qed

lemma read_enc_varint:
  "int n < 2 ^ 63 \<Longrightarrow> length pre = k \<Longrightarrow>
   read_varint (pre @ enc_varint n @ post) k = (Some (int n), k + length (enc_varint n))"
  using read_enc_varint_from [of 0 0 n pre post] by (simp add: read_varint_def)

section \<open>Properties\<close>

text \<open>The protobuf form of a media message: a fixed64 timestamp, then the data.\<close>

definition proto_media :: "int \<Rightarrow> bytes \<Rightarrow> bytes" where
  "proto_media ts data = 9 # rev (be_bytes 8 ts) @ 18 # enc_varint (length data) @ data"

lemma le_val_rev: "0 \<le> n \<Longrightarrow> n < 256 ^ k \<Longrightarrow> le_val (rev (be_bytes k n)) = n"
  by (simp add: le_val_def be_val_pack)

lemma media_loop_end: "length body \<le> pos \<Longrightarrow> media_loop body pos ts data = (ts, data)"
  by (simp add: media_loop.simps)

lemma media_loop_ts:
  assumes "body ! pos = 9" "pos + 9 \<le> length body"
  shows "media_loop body pos ts data = media_loop body (pos + 9) (le_val (take 8 (drop (pos + 1) body))) data"
  using assms by (subst media_loop.simps) (simp add: Let_def add.commute [of 9])

lemma media_loop_data:
  assumes "pos < length body" "body ! pos = 18" "read_varint body (pos + 1) = (Some n, p)"
  shows "media_loop body pos ts data = media_loop body (p + nat n) ts (take (nat n) (drop p body))"
  using assms by (subst media_loop.simps) (simp add: Let_def)

text \<open>C24 Media in protobuf form is read exactly: the parser returns the timestamp and the data that were
  encoded as fields 1 and 2, for every 64-bit timestamp and every non-empty payload, and so inverts
  that encoding.\<close>

theorem proto_media_roundtrip:
  assumes "0 \<le> ts" "ts < 2 ^ 64" and "data \<noteq> []" "int (length data) < 2 ^ 63"
  shows "parse_media_with_timestamp (proto_media ts data) = (ts, data)"
proof -
  let ?body = "proto_media ts data"
  let ?v = "enc_varint (length data)"
  have l8: "length (be_bytes 8 ts) = 8" by simp
  have len: "length ?body = 10 + length ?v + length data" by (simp add: proto_media_def)
  have split: "?body = (9 # rev (be_bytes 8 ts) @ [18]) @ ?v @ data" by (simp add: proto_media_def)
  have t8: "take 8 (drop 1 ?body) = rev (be_bytes 8 ts)" by (simp add: proto_media_def)
  have tag: "?body ! 9 = 18" by (simp add: proto_media_def nth_append)
  have rv: "read_varint ?body 10 = (Some (int (length data)), 10 + length ?v)"
    unfolding split by (rule read_enc_varint) (use assms(4) in simp_all)
  have dr: "drop (10 + length ?v) ?body = data"
  proof -
    have "?body = (9 # rev (be_bytes 8 ts) @ 18 # ?v) @ data" by (simp add: proto_media_def)
    moreover have "length (9 # rev (be_bytes 8 ts) @ 18 # ?v) = 10 + length ?v" by simp
    ultimately show ?thesis by (metis append_eq_conv_conj)
  qed
  have "media_loop ?body 0 0 [] = media_loop ?body 9 (le_val (take 8 (drop 1 ?body))) []"
    using media_loop_ts [of ?body 0 0 "[]"] len by (simp add: proto_media_def)
  also have "le_val (take 8 (drop 1 ?body)) = ts" unfolding t8 using assms(1,2) by (simp add: le_val_rev)
  also have "media_loop ?body 9 ts [] = media_loop ?body (10 + length ?v + length data) ts data"
    using media_loop_data [of 9 ?body "int (length data)" "10 + length ?v" ts "[]"] tag rv dr len by simp
  also have "\<dots> = (ts, data)" using len by (simp add: media_loop_end)
  finally show ?thesis using assms(3) by (simp add: parse_media_with_timestamp_def Let_def)
qed

lemma proto_media_roundtrip_witness: "parse_media_with_timestamp (proto_media 1000 [1, 2, 3]) = (1000, [1, 2, 3])"
  by (rule proto_media_roundtrip) simp_all

text \<open>Media in the bare form is not always read: although \<^verbatim>\<open>build_media_with_timestamp\<close> writes it, the parser
  first takes the same bytes for protobuf fields, and a timestamp ending in the bytes 12 04 looks like
  a field of four bytes. For every such timestamp below 2^23 an H.264 unit that begins with the start
  code and a sequence parameter set is cut down to its start code, with timestamp 0.\<close>

theorem raw_media_misparsed:
  assumes "0 \<le> hi" "hi < 128"
  shows "\<exists>body. build_media_with_timestamp (hi * 65536 + 4612) ([0, 0, 0, 1, 103] @ unit_rest) = Inr body \<and>
    parse_media_with_timestamp body = (0, [0, 0, 0, 1])"
proof -
  let ?h = "word_of_int hi :: byte"
  let ?body = "[0, 0, 0, 0, 0, ?h, 18, 4, 0, 0, 0, 1, 103] @ unit_rest"
  have uh: "uint ?h = hi" using assms by (simp add: uint_word_of_int_byte)
  have "be_bytes 8 (hi * 65536 + 4612) = [0, 0, 0, 0, 0, ?h, 18, 4]"
  proof -
    have "be_val [0, 0, 0, 0, 0, ?h, 18, 4] = hi * 65536 + 4612" by (simp add: be_val_def uh)
    moreover have "length [0, 0, 0, 0, 0, ?h, 18, 4] = 8" by simp
    ultimately show ?thesis using be_bytes_be_val [of "[0, 0, 0, 0, 0, ?h, 18, 4]"] by presburger
  qed
  then have b: "build_media_with_timestamp (hi * 65536 + 4612) ([0, 0, 0, 1, 103] @ unit_rest) = Inr ?body"
    using assms by (simp add: build_media_with_timestamp_def pack_be_ok)
  have bits: "hi AND 127 = hi" "hi AND 128 = 0" using varint_bits [of hi] assms by auto
  have v: "read_varint ?body 1 = (Some 0, 2)" "read_varint ?body 3 = (Some 0, 4)" "read_varint ?body 5 = (Some hi, 6)"
    "read_varint ?body 7 = (Some 4, 8)"
    using uh bits by (simp_all add: read_varint_def read_varint_from.simps Let_def)
  define b where "b = ?body"
  have nth: "b ! 0 = 0" "b ! 2 = 0" "b ! 4 = 0" "b ! 6 = 18" "b ! 12 = 103" "take 4 (drop 8 b) = [0, 0, 0, 1]"
    "12 < length b" "b \<noteq> []"
    by (simp_all add: b_def)
  have m: "media_loop ?body 0 0 [] = (0, [0, 0, 0, 1])"
    using v nth unfolding b_def [symmetric]
    by (simp add: media_loop.simps [of b 0] media_loop.simps [of b 2] media_loop.simps [of b 4]
        media_loop.simps [of b 6] media_loop.simps [of b 12] skip_field_def Let_def)
  then have "parse_media_with_timestamp ?body = (0, [0, 0, 0, 1])"
    by (simp add: parse_media_with_timestamp_def Let_def)
  with b show ?thesis by blast
qed

lemma raw_media_misparsed_witness:
  "\<exists>body. build_media_with_timestamp (5 * 65536 + 4612) ([0, 0, 0, 1, 103] @ [66, 0]) = Inr body \<and>
    parse_media_with_timestamp body = (0, [0, 0, 0, 1])"
  by (rule raw_media_misparsed) simp_all

text \<open>A frame built by \<^verbatim>\<open>encode_aa_frame\<close> is split by \<^verbatim>\<open>decode_aa_frame\<close> into the message identifier and body
  it was built from; its flag byte is 0x0B, or 0x0F when \<^verbatim>\<open>control\<close> is set, so that argument does reach
  the wire.\<close>

theorem aa_frame_roundtrip:
  assumes "0 \<le> mid" "mid < 65536"
  shows "\<exists>p raw. encode_aa_frame ch mid body control = Inr p \<and> dget p ''flags'' = PInt (if control then 15 else 11) \<and>
    py_fromhex (dget p ''payload_hex'') = Inr raw \<and> decode_aa_frame raw = Some (mid, body)"
  using assms
  by (auto simp: encode_aa_frame_def pack_be_ok aa_flags dget_def dget_or_def decode_aa_frame_def be_val_pack)

lemma aa_frame_roundtrip_witness:
  "\<exists>p raw. encode_aa_frame 3 8 [1] True = Inr p \<and> dget p ''flags'' = PInt (if True then 15 else 11) \<and>
    py_fromhex (dget p ''payload_hex'') = Inr raw \<and> decode_aa_frame raw = Some (8, [1])"
  by (rule aa_frame_roundtrip) simp_all

end
