(* ===== verification/ConfigManager.thy ===== *)
theory ConfigManager
  imports ConfigSchema Machines "HOL-Library.List_Lexorder" "HOL-Library.Char_ord"
begin

text \<open>
  \<^verbatim>\<open>v2/modules/config_manager/main.py\<close> and \<^verbatim>\<open>v2/shared/config_client.py\<close>: the store of one YAML file per
  module, the registry of schemas, and the client side of the two requests. The YAML library is the
  parameter \<open>yaml\<close>; what the file system does to one call is an argument. Module names and keys are
  strings, as \<^verbatim>\<open>ConfigClient\<close> sends them; a request without one is ignored.
\<close>

section \<open>Files\<close>

record yaml =
  y_dump :: "payload \<Rightarrow> string"
  y_load :: "string \<Rightarrow> pyval option"

text \<open>Writing succeeds, or the file cannot be opened, or it is opened (and so emptied) and a part of the
  text is written before the error.\<close>

datatype save_env = Saved | OpenFailed | WriteFailed string

record cfgman =
  g_schemas :: "(string, schema) dict"
  g_files :: "(string, string) dict"

definition cfg_init :: cfgman where
  "cfg_init = \<lparr>g_schemas = [], g_files = []\<rparr>"

text \<open>Unreadable files, files that do not parse and files that hold no dictionary all read as empty.\<close>

definition load_config :: "yaml \<Rightarrow> bool \<Rightarrow> string \<Rightarrow> cfgman \<Rightarrow> payload" where
  "load_config Y readable mname s =
     (case map_of (g_files s) mname of
        None \<Rightarrow> []
      | Some txt \<Rightarrow> (if \<not> readable then [] else (case y_load Y txt of Some (PDict d) \<Rightarrow> d | _ \<Rightarrow> [])))"

fun save_config :: "yaml \<Rightarrow> save_env \<Rightarrow> string \<Rightarrow> payload \<Rightarrow> cfgman \<Rightarrow> bool \<times> cfgman" where
  "save_config Y Saved mname data s = (True, s\<lparr>g_files := dset mname (y_dump Y data) (g_files s)\<rparr>)"
| "save_config Y OpenFailed mname data s = (False, s)"
| "save_config Y (WriteFailed txt) mname data s = (False, s\<lparr>g_files := dset mname txt (g_files s)\<rparr>)"

definition schema_for_response :: "string \<Rightarrow> cfgman \<Rightarrow> payload res" where
  "schema_for_response mname s =
     (case map_of (g_schemas s) mname of
        None \<Rightarrow> Inr []
      | Some sch \<Rightarrow> (if sch = [] then Inr [] else rbind (schema_to_dict sch) (\<lambda>d. Inr [(''schema'', PDict d)])))"

definition default_of :: "node \<Rightarrow> pyval option" where
  "default_of n =
     (case n of
        NScalar sc \<Rightarrow> (if sc_default sc \<noteq> PNone then Some (sc_default sc) else None)
      | NList item d \<Rightarrow> (if truthy d then Some d else None)
      | _ \<Rightarrow> None)"

definition schema_defaults :: "schema \<Rightarrow> payload" where
  "schema_defaults sch = map (\<lambda>(k, n). (k, the (default_of n))) (filter (\<lambda>(k, n). default_of n \<noteq> None) sch)"

definition defaults_from_schema :: "string \<Rightarrow> cfgman \<Rightarrow> payload" where
  "defaults_from_schema mname s = schema_defaults (dget_or (g_schemas s) mname [])"

section \<open>Handlers\<close>

type_synonym cfg_eff = "exn option \<times> cfgman \<times> busmsg list"

definition register_schema :: "string \<Rightarrow> pyval \<Rightarrow> cfgman \<Rightarrow> cfgman" where
  "register_schema mname raw s =
     (case raw of
        PDict d \<Rightarrow>
          (if d = [] then s
           else (case schema_from_dict d of Inl x \<Rightarrow> s | Inr sch \<Rightarrow> s\<lparr>g_schemas := dset mname sch (g_schemas s)\<rparr>))
      | _ \<Rightarrow> s)"

definition seed_of :: "pyval \<Rightarrow> string \<Rightarrow> cfgman \<Rightarrow> payload" where
  "seed_of defaults mname s =
     (case defaults of
        PDict d \<Rightarrow> (if d \<noteq> [] then d else defaults_from_schema mname s)
      | _ \<Rightarrow> defaults_from_schema mname s)"

definition seed_config :: "yaml \<Rightarrow> save_env \<Rightarrow> pyval \<Rightarrow> string \<Rightarrow> payload \<Rightarrow> cfgman \<Rightarrow> payload \<times> cfgman" where
  "seed_config Y env defaults mname config s =
     (if config \<noteq> [] then (config, s)
      else (let seed = seed_of defaults mname s in
        if seed = [] then (config, s)
        else (let (ok, s') = save_config Y env mname seed s in (if ok then seed else config, s'))))"

definition on_config_get :: "yaml \<Rightarrow> bool \<Rightarrow> save_env \<Rightarrow> payload \<Rightarrow> cfgman \<Rightarrow> cfg_eff" where
  "on_config_get Y readable env payload s =
     (case dget payload ''module'' of
        PStr mname \<Rightarrow>
          (if mname = [] then (None, s, [])
           else (let s1 = register_schema mname (dget payload ''schema'') s;
                     (config, s2) = seed_config Y env (dget payload ''defaults'') mname (load_config Y readable mname s1) s1
                 in (case schema_for_response mname s2 of
                       Inl x \<Rightarrow> (Some x, s2, [])
                     | Inr sp \<Rightarrow>
                         (None, s2,
                          [(''config.response'',
                            [(''module'', PStr mname), (''config'', PDict config),
                             (''requester'', dget_or payload ''requester'' (PStr []))] @ sp)]))))
      | _ \<Rightarrow> (None, s, []))"

definition validated :: "py_text \<Rightarrow> string \<Rightarrow> string \<Rightarrow> pyval \<Rightarrow> cfgman \<Rightarrow> verr + pyval" where
  "validated T mname key v s =
     (case map_of (dget_or (g_schemas s) mname []) key of
        Some (NScalar f) \<Rightarrow> validate_value T f v
      | _ \<Rightarrow> Inr v)"

definition on_config_set :: "py_text \<Rightarrow> yaml \<Rightarrow> bool \<Rightarrow> save_env \<Rightarrow> payload \<Rightarrow> cfgman \<Rightarrow> cfg_eff" where
  "on_config_set T Y readable env payload s =
     (case (dget payload ''module'', dget payload ''key'') of
        (PStr mname, PStr key) \<Rightarrow>
          (if mname = [] then (None, s, [])
           else (case validated T mname key (dget payload ''value'') s of
              Inl (Raises x) \<Rightarrow> (Some x, s, [])
            | Inl (Invalid reason) \<Rightarrow>
                (None, s, [(''config.error'', [(''module'', PStr mname), (''key'', PStr key),
                                               (''value'', dget payload ''value''), (''reason'', PStr reason)])])
            | Inr v \<Rightarrow>
                (let data = dset key v (load_config Y readable mname s);
                     (ok, s') = save_config Y env mname data s in
                 (None, s',
                  if ok then [(''config.changed'', [(''module'', PStr mname), (''key'', PStr key), (''value'', v)])]
                  else []))))
      | _ \<Rightarrow> (None, s, []))"

section \<open>The client\<close>

definition client_get :: "string \<Rightarrow> payload option \<Rightarrow> schema option \<Rightarrow> busmsg res" where
  "client_get name defaults schema =
     rbind (case schema of None \<Rightarrow> Inr [] | Some sch \<Rightarrow> rbind (schema_to_dict sch) (\<lambda>d. Inr [(''schema'', PDict d)]))
       (\<lambda>sp. Inr (''config.get'',
          [(''module'', PStr name), (''requester'', PStr name)]
          @ (case defaults of None \<Rightarrow> [] | Some d \<Rightarrow> [(''defaults'', PDict d)]) @ sp))"

definition client_set :: "string \<Rightarrow> string \<Rightarrow> pyval \<Rightarrow> busmsg" where
  "client_set name key v = (''config.set'', [(''module'', PStr name), (''key'', PStr key), (''value'', v)])"

text \<open>What the two callbacks of the owner are called with, if they are.\<close>

definition client_on_response :: "string \<Rightarrow> payload \<Rightarrow> pyval option" where
  "client_on_response name payload =
     (if dget payload ''module'' \<noteq> PStr name then None
      else if dget payload ''requester'' \<noteq> PStr name then None
      else Some (dget_or payload ''config'' (PDict [])))"

definition client_on_changed :: "string \<Rightarrow> payload \<Rightarrow> (pyval \<times> pyval) option" where
  "client_on_changed name payload =
     (if dget payload ''module'' \<noteq> PStr name then None else Some (dget payload ''key'', dget payload ''value''))"

section \<open>What the library promises\<close>

text \<open>\<^verbatim>\<open>safe_dump\<close> writes a dictionary with its keys sorted, at every level, and \<^verbatim>\<open>safe_load\<close> reads that text
  back; whatever it reads, a dictionary has distinct keys.\<close>

fun py_canon :: "pyval \<Rightarrow> pyval" where
  "py_canon (PDict d) = PDict (sort_key fst (map (\<lambda>kv. (fst kv, py_canon (snd kv))) d))"
| "py_canon (PList l) = PList (map py_canon l)"
| "py_canon v = v"

definition yaml_ok :: "yaml \<Rightarrow> bool" where
  "yaml_ok Y \<longleftrightarrow> (\<forall>d. dwf d \<longrightarrow> y_load Y (y_dump Y d) = Some (py_canon (PDict d))) \<and>
     (\<forall>txt d. y_load Y txt = Some (PDict d) \<longrightarrow> dwf d)"

definition canon_dict :: "payload \<Rightarrow> payload" where
  "canon_dict d = sort_key fst (map (\<lambda>kv. (fst kv, py_canon (snd kv))) d)"

lemma py_canon_dict: "py_canon (PDict d) = PDict (canon_dict d)"
  by (simp add: canon_dict_def)

lemma map_of_sort_key:
  assumes "distinct (map fst xs)"
  shows "map_of (sort_key fst xs) = map_of xs"
proof (rule map_of_eqI)
  show "set (map fst (sort_key fst xs)) = set (map fst xs)" by simp
  have d: "distinct (map fst (sort_key fst xs))"
    using assms by (simp add: distinct_map inj_on_def)
  show "\<forall>k \<in> set (map fst (sort_key fst xs)). map_of (sort_key fst xs) k = map_of xs k"
  proof
    fix k
    assume "k \<in> set (map fst (sort_key fst xs))"
    then obtain v where kv: "(k, v) \<in> set xs" by auto
    then have "map_of xs k = Some v" using assms by simp
    moreover have "map_of (sort_key fst xs) k = Some v" using d kv by simp
    ultimately show "map_of (sort_key fst xs) k = map_of xs k" by simp
  qed
qed

lemma map_of_canon: "dwf d \<Longrightarrow> map_of (canon_dict d) k = map_option py_canon (map_of d k)"
proof -
  assume d: "dwf d"
  have "distinct (map fst (map (\<lambda>kv. (fst kv, py_canon (snd kv))) d))" using d by (simp add: dwf_def comp_def)
  then have "map_of (canon_dict d) k = map_of (map (\<lambda>kv. (fst kv, py_canon (snd kv))) d) k"
    unfolding canon_dict_def by (simp only: map_of_sort_key)
  also have "map (\<lambda>kv. (fst kv, py_canon (snd kv))) d = map (\<lambda>(k, v). (k, py_canon v)) d" by auto
  also have "map_of (map (\<lambda>(k, v). (k, py_canon v)) d) k = map_option py_canon (map_of d k)"
    by (simp add: map_of_map)
  finally show ?thesis .
qed

lemma canon_dict_Nil [simp]: "canon_dict d = [] \<longleftrightarrow> d = []"
  by (metis canon_dict_def length_0_conv length_map length_sort)

lemma load_dwf: "yaml_ok Y \<Longrightarrow> dwf (load_config Y r m s)"
  by (auto simp: load_config_def yaml_ok_def split: option.splits pyval.splits)

lemma load_saved:
  assumes "yaml_ok Y" "dwf d" "save_config Y Saved m d s = (ok, s')"
  shows "ok" "load_config Y True m s' = canon_dict d" "g_schemas s' = g_schemas s"
  using assms by (auto simp: load_config_def yaml_ok_def map_of_dset py_canon_dict simp del: py_canon.simps)

lemma load_schemas [simp]: "load_config Y r m (s\<lparr>g_schemas := x\<rparr>) = load_config Y r m s"
  by (simp add: load_config_def)

lemma register_files [simp]: "g_files (register_schema m raw s) = g_files s"
  by (auto simp: register_schema_def split: pyval.splits sum.splits)

lemma register_load [simp]: "load_config Y r m (register_schema n raw s) = load_config Y r m s"
  by (simp add: load_config_def)

text \<open>The accepted request, and what it leaves behind.\<close>

lemma config_set_accepted:
  assumes "on_config_set T Y r Saved p s = (x, s', [(''config.changed'', q)])"
    and "dget p ''module'' = PStr m" "dget p ''key'' = PStr k"
  shows "\<exists>v. validated T m k (dget p ''value'') s = Inr v \<and> dget q ''value'' = v \<and>
    s' = snd (save_config Y Saved m (dset k v (load_config Y r m s)) s)"
  using assms
  by (auto simp: on_config_set_def dget_def dget_or_def split: if_splits sum.splits verr.splits)

section \<open>Properties\<close>

lemma config_set_saved:
  assumes "on_config_set T Y r env p s = (x, s', [(''config.changed'', q)])"
    and "dget p ''module'' = PStr m" "dget p ''key'' = PStr k"
  shows "env = Saved"
  using assms by (cases env) (auto simp: on_config_set_def split: if_splits sum.splits verr.splits)

text \<open>C19 A setting that was accepted is what the next reading of the file returns: after \<^verbatim>\<open>config.set\<close> was
  answered by \<^verbatim>\<open>config.changed\<close>, a \<^verbatim>\<open>config.get\<close> for the module that can read the file returns the
  published value under the key (with the keys of dictionaries inside it sorted, as YAML writes them), and
  every other key as it was, provided that the set could read the file and found a dictionary in it; when it
  could not (the file was unreadable, did not parse or held something else), every other key is gone. A
  \<^verbatim>\<open>config.get\<close> that cannot read the file answers with nothing or with the defaults instead.\<close>

theorem set_then_get:
  assumes "yaml_ok Y" and "on_config_set T Y readable env p s = (x, s', [(''config.changed'', q)])"
    and "dget p ''module'' = PStr m" "dget p ''key'' = PStr k"
    and "dget p2 ''module'' = PStr m" and "on_config_get Y readable' env' p2 s' = (y, s2, [r])"
  shows "\<exists>d. dget (snd r) ''config'' = PDict d \<and>
    (if readable'
     then map_of d k = Some (py_canon (dget q ''value'')) \<and>
       (\<forall>k'. k' \<noteq> k \<longrightarrow> map_of d k' =
          (case map_of (g_files s) m of
             None \<Rightarrow> None
           | Some text \<Rightarrow> if readable then (case y_load Y text of Some (PDict old) \<Rightarrow> map_option py_canon (map_of old k') | _ \<Rightarrow> None)
               else None))
     else d = [] \<or> d = seed_of (dget p2 ''defaults'') m (register_schema m (dget p2 ''schema'') s'))"
proof (cases readable')
  case True
  let ?v = "dget q ''value''"
  let ?d = "dset k ?v (load_config Y readable m s)"
  have s': "s' = snd (save_config Y Saved m ?d s)"
    using config_set_accepted [of T Y readable p s x s' q m k] config_set_saved [OF assms(2-4)] assms(2-4) by auto
  have d: "dwf ?d" using load_dwf [OF assms(1)] by simp
  have l: "load_config Y True m s' = canon_dict ?d"
    using load_saved(2) [OF assms(1) d] s' by (metis prod.collapse)
  have ne: "canon_dict ?d \<noteq> []"
    using map_of_dset [of k ?v "load_config Y readable m s" k] by auto
  have m: "m \<noteq> []" using assms(2-4) by (auto simp: on_config_set_def)
  have "dget (snd r) ''config'' = PDict (canon_dict ?d)"
    using assms(5,6) l ne m True
    by (auto simp: on_config_get_def seed_config_def dget_def dget_or_def Let_def split: sum.splits)
  moreover have "map_option py_canon (map_of (load_config Y readable m s) k') =
      (case map_of (g_files s) m of
         None \<Rightarrow> None
       | Some text \<Rightarrow> if readable then (case y_load Y text of Some (PDict old) \<Rightarrow> map_option py_canon (map_of old k') | _ \<Rightarrow> None)
           else None)" for k'
    by (auto simp: load_config_def split: option.split pyval.split)
  ultimately show ?thesis using map_of_canon [OF d] True by (auto simp: map_of_dset)
next
  case False
  have "m \<noteq> []" using assms(2-4) by (auto simp: on_config_set_def)
  moreover have "load_config Y False m z = []" for z by (simp add: load_config_def split: option.split)
  ultimately show ?thesis
    using assms(5,6) False
    by (auto simp: on_config_get_def seed_config_def dget_def dget_or_def Let_def split: sum.splits if_splits prod.splits)
qed

text \<open>A library that keeps the promises: texts as numbers of dictionaries, since values are countable.\<close>

definition demo_yaml :: yaml where
  "demo_yaml = \<lparr>y_dump = (\<lambda>d. replicate (to_nat d) (CHR ''x'')),
     y_load = (\<lambda>t. let d = from_nat (length t) in if dwf d then Some (py_canon (PDict d)) else None)\<rparr>"

lemma canon_dwf: "dwf d \<Longrightarrow> dwf (canon_dict d)"
proof -
  assume "dwf d"
  then have "distinct (map fst (map (\<lambda>kv. (fst kv, py_canon (snd kv))) d))" by (simp add: dwf_def comp_def)
  then have "distinct (map fst (sort_key fst (map (\<lambda>kv. (fst kv, py_canon (snd kv))) d)))"
    by (simp only: distinct_map distinct_sort set_sort)
  then show ?thesis by (simp only: canon_dict_def dwf_def)
qed

lemma demo_yaml_ok: "yaml_ok demo_yaml"
  by (auto simp: yaml_ok_def demo_yaml_def Let_def py_canon_dict canon_dwf simp del: py_canon.simps split: if_splits)

definition demo_set :: payload where
  "demo_set = [(''module'', PStr ''m''), (''key'', PStr ''k''), (''value'', PInt 5)]"

lemma set_then_get_witness:
  "\<exists>s2 r d. on_config_get demo_yaml True Saved [(''module'', PStr ''m'')]
       (snd (save_config demo_yaml Saved ''m'' [(''k'', PInt 5)] cfg_init)) = (None, s2, [r]) \<and>
     dget (snd r) ''config'' = PDict d \<and> map_of d ''k'' = Some (PInt 5)"
proof -
  let ?s = "snd (save_config demo_yaml Saved ''m'' [(''k'', PInt 5)] cfg_init)"
  let ?q = "[(''module'', PStr ''m''), (''key'', PStr ''k''), (''value'', PInt 5)]"
  have set: "on_config_set demo_text demo_yaml True Saved demo_set cfg_init = (None, ?s, [(''config.changed'', ?q)])"
    by (simp add: on_config_set_def demo_set_def dget_def dget_or_def cfg_init_def validated_def load_config_def)
  have "dwf [(''k'', PInt 5)]" by (simp add: dwf_def)
  then have l: "load_config demo_yaml True ''m'' ?s = canon_dict [(''k'', PInt 5)]"
    using load_saved(2) [OF demo_yaml_ok] by (metis prod.collapse)
  have c: "canon_dict [(''k'', PInt 5)] = [(''k'', PInt 5)]" by (simp add: canon_dict_def)
  obtain s2 r where get: "on_config_get demo_yaml True Saved [(''module'', PStr ''m'')] ?s = (None, s2, [r])"
    using l c by (simp add: on_config_get_def dget_def dget_or_def register_schema_def seed_config_def
        schema_for_response_def cfg_init_def Let_def)
  show ?thesis
    using set_then_get [OF demo_yaml_ok set _ _ _ get, of "''m''" "''k''"] get
    by (auto simp: demo_set_def dget_def dget_or_def)
qed

lemma dwf_schema_defaults: "dwf sch \<Longrightarrow> dwf (schema_defaults sch)"
proof -
  assume "dwf sch"
  moreover have "map fst (schema_defaults sch) = map fst (filter (\<lambda>(k, n). default_of n \<noteq> None) sch)"
    by (simp add: schema_defaults_def comp_def case_prod_unfold)
  ultimately show ?thesis by (simp add: dwf_def distinct_map_filter)
qed

text \<open>First boot: the request \<^verbatim>\<open>ConfigClient.get(schema=...)\<close> of a module that has no file registers its
  schema as the module declared it, and the answer reaches that module alone, carrying the defaults of
  the schema; a reading afterwards finds the same defaults in the store.\<close>

theorem first_boot_seeds_defaults:
  assumes "yaml_ok Y" and "schema_wf sch" "dwf sch" "sch \<noteq> []" and "m \<noteq> []" and "map_of (g_files s) m = None"
    and "client_get m None (Some sch) = Inr (t, p)" and "on_config_get Y r Saved p s = (x, s', msgs)"
  shows "x = None \<and> map_of (g_schemas s') m = Some sch \<and>
    (\<exists>q. msgs = [(''config.response'', q)] \<and> client_on_response m q = Some (PDict (schema_defaults sch)) \<and>
       (\<forall>n. n \<noteq> m \<longrightarrow> client_on_response n q = None)) \<and>
    load_config Y True m s' = canon_dict (schema_defaults sch)"
proof -
  obtain d where d: "schema_to_dict sch = Inr d" "schema_from_dict d = Inr sch"
    using schema_survives [OF assms(2)] by blast
  have dne: "d \<noteq> []" using d assms(4) by (auto simp: schema_from_dict_def)
  have p: "p = [(''module'', PStr m), (''requester'', PStr m), (''schema'', PDict d)]"
    using assms(7) d by (simp add: client_get_def)
  let ?s1 = "s\<lparr>g_schemas := dset m sch (g_schemas s)\<rparr>"
  have reg: "register_schema m (PDict d) s = ?s1" using d dne by (simp add: register_schema_def)
  have l1: "load_config Y b m ?s1 = []" for b using assms(6) by (simp add: load_config_def)
  have df: "defaults_from_schema m ?s1 = schema_defaults sch"
    by (simp add: defaults_from_schema_def dget_or_def map_of_dset)
  let ?s2 = "if schema_defaults sch = [] then ?s1 else snd (save_config Y Saved m (schema_defaults sch) ?s1)"
  have seed: "seed_config Y Saved PNone m [] ?s1 = (schema_defaults sch, ?s2)"
    using df by (simp add: seed_config_def seed_of_def Let_def)
  have resp: "schema_for_response m ?s2 = Inr [(''schema'', PDict d)]"
    using assms(4) d by (simp add: schema_for_response_def map_of_dset)
  have out: "(x, s', msgs) = (None, ?s2, [(''config.response'',
      [(''module'', PStr m), (''config'', PDict (schema_defaults sch)), (''requester'', PStr m), (''schema'', PDict d)])])"
    using assms(5,8) reg l1 seed resp
    by (simp add: on_config_get_def p dget_def dget_or_def)
  have "load_config Y True m ?s2 = canon_dict (schema_defaults sch)"
    using l1 load_saved(2) [OF assms(1) dwf_schema_defaults [OF assms(3)], of m ?s1]
    by (auto simp: canon_dict_def)
  with out show ?thesis
    by (auto simp: client_on_response_def dget_def dget_or_def map_of_dset)
qed

lemma demo_schema_get:
  "client_get ''m'' None (Some [(''pin'', field_string ''1'')]) = Inr (''config.get'',
     [(''module'', PStr ''m''), (''requester'', PStr ''m''),
      (''schema'', PDict [(''pin'', PDict [(''type'', PStr ''string''), (''default'', PStr ''1'')])])])"
  by (simp add: client_get_def schema_to_dict_def field_string_def scalar_to_dict_def)

lemma first_boot_seeds_defaults_witness:
  "\<exists>x s' msgs. on_config_get demo_yaml True Saved
      [(''module'', PStr ''m''), (''requester'', PStr ''m''),
       (''schema'', PDict [(''pin'', PDict [(''type'', PStr ''string''), (''default'', PStr ''1'')])])] cfg_init = (x, s', msgs) \<and>
    load_config demo_yaml True ''m'' s' = canon_dict (schema_defaults [(''pin'', field_string ''1'')])"
proof -
  let ?p = "[(''module'', PStr ''m''), (''requester'', PStr ''m''),
    (''schema'', PDict [(''pin'', PDict [(''type'', PStr ''string''), (''default'', PStr ''1'')])])]"
  obtain x s' msgs where o: "on_config_get demo_yaml True Saved ?p cfg_init = (x, s', msgs)"
    by (cases "on_config_get demo_yaml True Saved ?p cfg_init")
  have "schema_wf [(''pin'', field_string ''1'')]" "dwf [(''pin'', field_string ''1'')]"
    by (simp_all add: schema_wf_def dwf_def)
  from first_boot_seeds_defaults [OF demo_yaml_ok this _ _ _ demo_schema_get o] o show ?thesis
    by (auto simp: cfg_init_def)
qed

text \<open>C35 A value the schema refuses is never stored: for a key declared as a scalar, \<^verbatim>\<open>config.set\<close> announces
  a change only with a value that conforms to the declaration, and when validation fails it leaves
  the store as it was and announces no change.\<close>

theorem invalid_never_stored:
  assumes "on_config_set T Y r env p s = (x, s', msgs)"
    and "dget p ''module'' = PStr m" "dget p ''key'' = PStr k"
    and "map_of (dget_or (g_schemas s) m []) k = Some (NScalar f)"
  shows "(\<forall>q. (''config.changed'', q) \<in> set msgs \<longrightarrow> conforms f (dget q ''value'')) \<and>
    ((\<forall>v. validate_value T f (dget p ''value'') \<noteq> Inr v) \<longrightarrow>
      s' = s \<and> (\<forall>q. (''config.changed'', q) \<notin> set msgs))"
proof (cases "validate_value T f (dget p ''value'')")
  case (Inl e)
  have "s' = s \<and> (\<forall>q. (''config.changed'', q) \<notin> set msgs)"
    using assms Inl
    by (cases e) (auto simp: on_config_set_def validated_def split: if_splits)
  then show ?thesis by blast
next
  case (Inr v)
  have "conforms f v" using Inr by (rule validate_conforms)
  moreover have "(''config.changed'', q) \<in> set msgs \<Longrightarrow> dget q ''value'' = v" for q
    using assms Inr
    by (auto simp: on_config_set_def validated_def dget_def dget_or_def Let_def split: if_splits prod.splits)
  ultimately show ?thesis using Inr by auto
qed

definition volume_sys :: cfgman where
  "volume_sys = cfg_init\<lparr>g_schemas := [(''m'', [(''k'', NScalar demo_volume)])]\<rparr>"

lemma invalid_never_stored_witness:
  "\<exists>x s' msgs. on_config_set demo_text demo_yaml True Saved (demo_set @ [(''value'', PInt 5)]) volume_sys = (x, s', msgs) \<and>
    (\<forall>q. (''config.changed'', q) \<in> set msgs \<longrightarrow> conforms demo_volume (dget q ''value''))"
proof -
  obtain x s' msgs where o: "on_config_set demo_text demo_yaml True Saved (demo_set @ [(''value'', PInt 5)]) volume_sys = (x, s', msgs)"
    by (cases "on_config_set demo_text demo_yaml True Saved (demo_set @ [(''value'', PInt 5)]) volume_sys")
  have "map_of (dget_or (g_schemas volume_sys) ''m'' []) ''k'' = Some (NScalar demo_volume)"
    by (simp add: volume_sys_def dget_or_def)
  from invalid_never_stored [OF o _ _ this] o show ?thesis
    by (auto simp: demo_set_def dget_def dget_or_def)
qed

text \<open>Settings can be lost. When the file of a module exists but cannot be read or does not parse, an
  accepted \<^verbatim>\<open>config.set\<close> replaces the whole file by the one key it sets; and when writing fails after
  the file was opened, what is left is the part already written, and nobody is told: no message is
  published, neither \<^verbatim>\<open>config.changed\<close> nor \<^verbatim>\<open>config.error\<close>.\<close>

theorem settings_can_be_lost:
  assumes "dget p ''module'' = PStr m" "m \<noteq> []" "dget p ''key'' = PStr k"
    and "validated T m k (dget p ''value'') s = Inr v" and "map_of (g_files s) m = Some old"
  shows "(\<not> r \<or> (\<forall>d. y_load Y old \<noteq> Some (PDict d)) \<longrightarrow>
      (\<exists>s'. on_config_set T Y r Saved p s
          = (None, s', [(''config.changed'', [(''module'', PStr m), (''key'', PStr k), (''value'', v)])]) \<and>
        map_of (g_files s') m = Some (y_dump Y [(k, v)]))) \<and>
    (\<exists>s'. on_config_set T Y r (WriteFailed part) p s = (None, s', []) \<and> map_of (g_files s') m = Some part)"
  using assms
  by (auto simp: on_config_set_def load_config_def map_of_dset split: option.splits pyval.splits)

lemma settings_can_be_lost_witness:
  "\<exists>s'. on_config_set demo_text demo_yaml False (WriteFailed ''pin'') demo_set (cfg_init\<lparr>g_files := [(''m'', ''a: 1'')]\<rparr>)
      = (None, s', []) \<and> map_of (g_files s') ''m'' = Some ''pin''"
  using settings_can_be_lost [of demo_set "''m''" "''k''" demo_text "cfg_init\<lparr>g_files := [(''m'', ''a: 1'')]\<rparr>"
      "PInt 5" "''a: 1''" False demo_yaml "''pin''"]
  by (simp add: demo_set_def dget_def dget_or_def validated_def cfg_init_def)

end
