(* ===== verification/ChannelBase.thy ===== *)
theory ChannelBase
  imports ConfigManager
begin

text \<open>
  \<^verbatim>\<open>v2/modules/channel_modules/base_channel_module.py\<close>: what every channel module inherits, the boot
  protocol with the channel manager, the configuration callbacks, the life of the channel and the
  dispatch of frames. The methods a subclass overrides are a record of hooks; each call carries an
  environment \<open>'e\<close>, what the operating system or a library answers during it. The state of a
  subclass extends \<open>chan\<close>. Settings of a schema are scalars with a default.
\<close>

section \<open>State and hooks\<close>

record chan =
  ch_name :: string
  ch_id :: int
  ch_prio :: int
  ch_sdr :: "payload option"
  ch_schema :: schema
  ch_config :: payload
  ch_open :: bool
  ch_init_done :: bool
  ch_loaded :: bool
  ch_published :: bool

type_synonym 's effect = "exn option \<times> 's \<times> busmsg list"

text \<open>Sequencing: an exception ends the handler, what was published before stays published.\<close>

definition eff_then :: "'s effect \<Rightarrow> ('s \<Rightarrow> 's effect) \<Rightarrow> 's effect" where
  "eff_then a f =
     (case a of
        (Some x, s, ms) \<Rightarrow> (Some x, s, ms)
      | (None, s, ms) \<Rightarrow> (let (x, s', ms') = f s in (x, s', ms @ ms')))"

definition eff_ok :: "'s \<Rightarrow> busmsg list \<Rightarrow> 's effect" where
  "eff_ok s ms = (None, s, ms)"

text \<open>A computation without effect that may raise, and what follows it.\<close>

definition eff_res :: "'s \<Rightarrow> 'a res \<Rightarrow> ('a \<Rightarrow> 's effect) \<Rightarrow> 's effect" where
  "eff_res s r f = (case r of Inl x \<Rightarrow> (Some x, s, []) | Inr v \<Rightarrow> f v)"

lemma eff_simps [simp]:
  "eff_then (eff_ok s ms) f = (let (x, s', ms') = f s in (x, s', ms @ ms'))"
  "eff_then (Some x, s, ms) f = (Some x, s, ms)"
  "eff_then (None, s, ms) f = (let (x, s', ms') = f s in (x, s', ms @ ms'))"
  "eff_res s (Inl x) g = (Some x, s, [])"
  "eff_res s (Inr v) g = g v"
  by (simp_all add: eff_then_def eff_ok_def eff_res_def)

text \<open>The publications and the state an effect leaves.\<close>

definition eff_msgs :: "'s effect \<Rightarrow> busmsg list" where
  "eff_msgs a = snd (snd a)"

definition eff_state :: "'s effect \<Rightarrow> 's" where
  "eff_state a = fst (snd a)"

text \<open>\<open>h_own\<close> are the handlers a subclass adds for its own topics.\<close>

record ('e, 'x, 's) hooks =
  h_init :: "'e \<Rightarrow> 's \<Rightarrow> 's effect"
  h_cleanup :: "'e \<Rightarrow> 's \<Rightarrow> 's effect"
  h_is_ready :: "'s \<Rightarrow> bool"
  h_on_open :: "'e \<Rightarrow> 's \<Rightarrow> 's effect"
  h_on_close :: "'e \<Rightarrow> 's \<Rightarrow> 's effect"
  h_on_frame :: "'e \<Rightarrow> int \<Rightarrow> bool \<Rightarrow> bytes \<Rightarrow> 's \<Rightarrow> 's effect"
  h_loaded :: "'e \<Rightarrow> payload \<Rightarrow> 's \<Rightarrow> 's effect"
  h_changed :: "'e \<Rightarrow> string \<Rightarrow> pyval \<Rightarrow> 's \<Rightarrow> 's effect"
  h_own :: "'e \<Rightarrow> 'x \<Rightarrow> 's \<Rightarrow> 's effect"

text \<open>\<^verbatim>\<open>p[i]\<close> for a constant \<open>i\<close>.\<close>

fun py_item :: "nat \<Rightarrow> pyval \<Rightarrow> pyval res" where
  "py_item i (PList l) = (if i < length l then Inr (l ! i) else Inl IndexError)"
| "py_item i (PStr s) = (if i < length s then Inr (PStr [s ! i]) else Inl IndexError)"
| "py_item i (PDict d) = Inl KeyError"
| "py_item i v = Inl TypeError"

section \<open>Construction and configuration\<close>

definition node_default :: "node \<Rightarrow> pyval" where
  "node_default n = (case n of NScalar sc \<Rightarrow> sc_default sc | NList item d \<Rightarrow> d | _ \<Rightarrow> PNone)"

definition schema_values :: "schema \<Rightarrow> payload" where
  "schema_values sch = map (\<lambda>(k, n). (k, node_default n)) sch"

text \<open>\<open>sdr\<close> is the channel found in the response given on the command line, if any.\<close>

definition new_chan :: "string \<Rightarrow> int \<Rightarrow> int \<Rightarrow> payload option \<Rightarrow> schema \<Rightarrow> chan" where
  "new_chan name cid prio sdr sch =
     \<lparr>ch_name = name, ch_id = cid, ch_prio = prio, ch_sdr = sdr, ch_schema = sch, ch_config = schema_values sch,
      ch_open = False, ch_init_done = False, ch_loaded = False, ch_published = False\<rparr>"

definition structural :: "pyval \<Rightarrow> bool" where
  "structural v = (case v of PDict d \<Rightarrow> True | PList l \<Rightarrow> True | _ \<Rightarrow> False)"

definition merge_config :: "schema \<Rightarrow> payload \<Rightarrow> payload" where
  "merge_config sch config =
     dupdate (schema_values sch) (filter (\<lambda>(k, v). k \<in> set (dkeys sch) \<and> \<not> structural v) config)"

section \<open>Readiness\<close>

definition ready_msg :: "'a chan_scheme \<Rightarrow> busmsg" where
  "ready_msg s = (''channel_manager.module_ready'', [(''module_name'', PStr (ch_name s)), (''priority'', PInt (ch_prio s))])"

definition ready_to_start_msg :: "'a chan_scheme \<Rightarrow> busmsg" where
  "ready_to_start_msg s =
     (''channel_manager.module_ready_to_start'', [(''module_name'', PStr (ch_name s)), (''priority'', PInt (ch_prio s))])"

definition may_publish :: "('a chan_scheme \<Rightarrow> bool) \<Rightarrow> 'a chan_scheme \<Rightarrow> bool" where
  "may_publish ready s =
     (\<not> ch_published s \<and> ch_sdr s \<noteq> None \<and> ch_init_done s \<and> (ch_schema s = [] \<or> ch_loaded s) \<and> ready s)"

definition try_publish_ready :: "('a chan_scheme \<Rightarrow> bool) \<Rightarrow> 'a chan_scheme \<Rightarrow> 'a chan_scheme effect" where
  "try_publish_ready ready s =
     (if may_publish ready s then eff_ok (s\<lparr>ch_published := True\<rparr>) [ready_msg s] else eff_ok s [])"

definition base_config_loaded :: "('a chan_scheme \<Rightarrow> bool) \<Rightarrow> payload \<Rightarrow> 'a chan_scheme \<Rightarrow> 'a chan_scheme effect" where
  "base_config_loaded ready config s =
     try_publish_ready ready
       ((if config = [] then s else s\<lparr>ch_config := merge_config (ch_schema s) config\<rparr>)\<lparr>ch_loaded := True\<rparr>)"

definition base_config_changed :: "string \<Rightarrow> pyval \<Rightarrow> 'a chan_scheme \<Rightarrow> 'a chan_scheme" where
  "base_config_changed key v s =
     (if key \<notin> set (dkeys (ch_schema s)) \<or> structural v then s else s\<lparr>ch_config := dset key v (ch_config s)\<rparr>)"

section \<open>Boot protocol\<close>

text \<open>The request for the configuration; converting the schema does not fail for the schemas in use.\<close>

definition config_request :: "'a chan_scheme \<Rightarrow> 'a chan_scheme effect" where
  "config_request s =
     (if ch_schema s = [] then eff_ok s []
      else (case client_get (ch_name s) None (Some (ch_schema s)) of Inl x \<Rightarrow> (Some x, s, []) | Inr m \<Rightarrow> eff_ok s [m]))"

definition on_module_start :: "('e, 'x, 'a chan_scheme) hooks \<Rightarrow> 'e \<Rightarrow> payload \<Rightarrow> 'a chan_scheme \<Rightarrow> 'a chan_scheme effect" where
  "on_module_start H e p s =
     (if \<not> py_eq_int (dget p ''priority'') (ch_prio s) then eff_ok s []
      else eff_then (eff_then (config_request s) (h_init H e))
             (\<lambda>s. try_publish_ready (h_is_ready H) (s\<lparr>ch_init_done := True\<rparr>)))"

definition on_module_stop :: "('e, 'x, 'a chan_scheme) hooks \<Rightarrow> 'e \<Rightarrow> 'a chan_scheme \<Rightarrow> 'a chan_scheme effect" where
  "on_module_stop H e s =
     eff_then (h_cleanup H e s) (\<lambda>s. eff_ok s [(''channel_manager.module_stopped'', [(''name'', PStr (ch_name s))])])"

section \<open>The channel\<close>

definition on_aa_channel_open :: "('e, 'x, 'a chan_scheme) hooks \<Rightarrow> 'e \<Rightarrow> payload \<Rightarrow> 'a chan_scheme \<Rightarrow> 'a chan_scheme effect" where
  "on_aa_channel_open H e p s =
     (if \<not> py_eq_int (dget p ''channel_id'') (ch_id s) then eff_ok s [] else h_on_open H e (s\<lparr>ch_open := True\<rparr>))"

definition on_aa_channel_close :: "('e, 'x, 'a chan_scheme) hooks \<Rightarrow> 'e \<Rightarrow> payload \<Rightarrow> 'a chan_scheme \<Rightarrow> 'a chan_scheme effect" where
  "on_aa_channel_close H e p s =
     (if \<not> py_eq_int (dget p ''channel_id'') (ch_id s) then eff_ok s [] else h_on_close H e (s\<lparr>ch_open := False\<rparr>))"

text \<open>The four fields of a frame payload, read in the order of the code.\<close>

definition frame_args :: "payload \<Rightarrow> (int \<times> bool \<times> bytes) res" where
  "frame_args p =
     rbind (rbind (dindex p ''channel_id'') py_int) (\<lambda>_.
     rbind (rbind (dindex p ''message_id'') py_int) (\<lambda>mid.
     rbind (rbind (dindex p ''payload_hex'') py_fromhex) (\<lambda>body.
       Inr (mid, truthy (dget_or p ''encrypted'' (PBool False)), body))))"

definition on_aa_frame :: "('e, 'x, 'a chan_scheme) hooks \<Rightarrow> 'e \<Rightarrow> payload \<Rightarrow> 'a chan_scheme \<Rightarrow> 'a chan_scheme effect" where
  "on_aa_frame H e p s =
     (case frame_args p of
        Inl x \<Rightarrow> (if x = KeyError \<or> x = ValueError then eff_ok s [] else (Some x, s, []))
      | Inr (mid, enc, body) \<Rightarrow> (if \<not> ch_open s then eff_ok s [] else h_on_frame H e mid enc body s))"

definition send_frame :: "'a chan_scheme \<Rightarrow> int \<Rightarrow> bytes \<Rightarrow> busmsg" where
  "send_frame s mid body =
     (''aa.frame.send'', [(''channel_id'', PInt (ch_id s)), (''message_id'', PInt mid),
        (''payload_hex'', PStr (bytes_hex body)), (''encrypted'', PBool True)])"

section \<open>Runs\<close>

datatype ('e, 'x) chan_event =
    ModuleStart 'e payload
  | ModuleStop 'e
  | ChannelOpen 'e payload
  | ChannelClose 'e payload
  | FrameIn 'e payload
  | ConfigLoaded 'e payload
  | ConfigChanged 'e string pyval
  | Own 'e 'x

fun chan_call :: "('e, 'x, 'a chan_scheme) hooks \<Rightarrow> ('e, 'x) chan_event \<Rightarrow> 'a chan_scheme \<Rightarrow> 'a chan_scheme effect" where
  "chan_call H (ModuleStart e p) s = on_module_start H e p s"
| "chan_call H (ModuleStop e) s = on_module_stop H e s"
| "chan_call H (ChannelOpen e p) s = on_aa_channel_open H e p s"
| "chan_call H (ChannelClose e p) s = on_aa_channel_close H e p s"
| "chan_call H (FrameIn e p) s = on_aa_frame H e p s"
| "chan_call H (ConfigLoaded e c) s = h_loaded H e c s"
| "chan_call H (ConfigChanged e k v) s = h_changed H e k v s"
| "chan_call H (Own e x) s = h_own H e x s"

text \<open>An exception is caught by the bus client.\<close>

definition chan_step :: "('e, 'x, 'a chan_scheme) hooks \<Rightarrow> 'a chan_scheme \<Rightarrow> ('e, 'x) chan_event \<Rightarrow> 'a chan_scheme \<times> busmsg list" where
  "chan_step H s ev = snd (chan_call H ev s)"

section \<open>What a subclass promises\<close>

text \<open>Hooks leave the base class's own fields alone and do not announce readiness themselves; only the
  configuration callback, which the base class implements, may.\<close>

definition same_base :: "'a chan_scheme \<Rightarrow> 'a chan_scheme \<Rightarrow> bool" where
  "same_base s s' \<longleftrightarrow> ch_name s' = ch_name s \<and> ch_id s' = ch_id s \<and> ch_prio s' = ch_prio s \<and> ch_sdr s' = ch_sdr s \<and>
     ch_schema s' = ch_schema s \<and> ch_open s' = ch_open s \<and> ch_init_done s' = ch_init_done s \<and> ch_published s' = ch_published s \<and>
     (ch_loaded s \<longrightarrow> ch_loaded s')"

definition readies :: "busmsg list \<Rightarrow> busmsg list" where
  "readies ms = filter (\<lambda>m. fst m = ''channel_manager.module_ready'') ms"

definition hook_ok :: "'a chan_scheme \<Rightarrow> 'a chan_scheme effect \<Rightarrow> bool" where
  "hook_ok s a \<longleftrightarrow> same_base s (fst (snd a)) \<and> readies (snd (snd a)) = []"

text \<open>The gate: readiness is announced with the module's name, at the step that sets the flag, and only
  with the channel found, the initialisation done and the configuration there.\<close>

definition gate_ok :: "'a chan_scheme \<Rightarrow> bool" where
  "gate_ok s = (ch_published s \<longrightarrow> ch_sdr s \<noteq> None \<and> ch_init_done s \<and> (ch_schema s = [] \<or> ch_loaded s))"

definition gate_step :: "'a chan_scheme \<Rightarrow> 'a chan_scheme \<times> busmsg list \<Rightarrow> bool" where
  "gate_step s r \<longleftrightarrow> ready_msg (fst r) = ready_msg s \<and> (gate_ok s \<longrightarrow> gate_ok (fst r)) \<and> (ch_published s \<longrightarrow> ch_published (fst r)) \<and>
     readies (snd r) = (if ch_published (fst r) \<and> \<not> ch_published s then [ready_msg s] else [])"

lemma hook_gate: "hook_ok s a \<Longrightarrow> gate_step s (snd a)"
  by (cases a) (auto simp: hook_ok_def gate_step_def same_base_def gate_ok_def ready_msg_def)

lemma hook_eff_ok: "same_base s s' \<Longrightarrow> readies ms = [] \<Longrightarrow> hook_ok s (eff_ok s' ms)"
  by (simp add: hook_ok_def eff_ok_def)

lemma hook_raise: "same_base s s' \<Longrightarrow> readies ms = [] \<Longrightarrow> hook_ok s (x, s', ms)"
  by (simp add: hook_ok_def)

lemma hook_res: "(\<And>v. r = Inr v \<Longrightarrow> hook_ok s (f v)) \<Longrightarrow> hook_ok s (eff_res s r f)"
  by (cases r) (simp_all add: hook_raise same_base_def readies_def)

lemma same_base_trans: "same_base s s' \<Longrightarrow> same_base s' s'' \<Longrightarrow> same_base s s''"
  by (simp add: same_base_def)

lemma same_base_refl [simp]: "same_base s s"
  by (simp add: same_base_def)

lemma hook_then: "hook_ok s a \<Longrightarrow> (\<And>s'. hook_ok s' (f s')) \<Longrightarrow> hook_ok s (eff_then a f)"
proof -
  assume a: "hook_ok s a" and f: "\<And>s'. hook_ok s' (f s')"
  obtain x s1 ms where r: "a = (x, s1, ms)" by (cases a)
  obtain y s2 ms' where q: "f s1 = (y, s2, ms')" by (cases "f s1")
  show ?thesis
    using a f [of s1] r q
    by (cases x) (auto simp: hook_ok_def eff_then_def readies_def intro: same_base_trans)
qed

lemma readies_send [simp]: "readies [send_frame s mid b] = []"
  by (simp add: readies_def send_frame_def)

lemmas hook_intros = hook_eff_ok hook_raise hook_res hook_then

lemma readies_append: "readies (xs @ ys) = readies xs @ readies ys"
  by (simp add: readies_def)

lemma gate_trans:
  "gate_step s (s', ms) \<Longrightarrow> gate_step s' (s'', ms') \<Longrightarrow> gate_step s (s'', ms @ ms')"
  unfolding gate_step_def
  by (cases "ch_published s"; cases "ch_published s'"; cases "ch_published s''"; simp add: readies_append)

lemma gate_then: "gate_step s (snd a) \<Longrightarrow> (\<And>s'. gate_step s' (snd (f s'))) \<Longrightarrow> gate_step s (snd (eff_then a f))"
proof -
  assume a: "gate_step s (snd a)" and f: "\<And>s'. gate_step s' (snd (f s'))"
  obtain x s1 ms where r: "a = (x, s1, ms)" by (cases a)
  obtain y s2 ms' where q: "f s1 = (y, s2, ms')" by (cases "f s1")
  show ?thesis
  proof (cases x)
    case None
    then show ?thesis using gate_trans [of s s1 ms s2 ms'] a f [of s1] r q by (simp add: eff_then_def)
  qed (use a r in \<open>simp add: eff_then_def\<close>)
qed

lemma gate_open: "gate_step (s\<lparr>ch_open := b\<rparr>) r \<Longrightarrow> gate_step s r"
  by (simp add: gate_step_def gate_ok_def ready_msg_def)

lemma gate_try: "ch_published s' = ch_published s \<Longrightarrow> ready_msg s' = ready_msg s \<Longrightarrow> ch_sdr s' = ch_sdr s \<Longrightarrow> ch_schema s' = ch_schema s \<Longrightarrow>
    (ch_init_done s \<longrightarrow> ch_init_done s') \<Longrightarrow> (ch_loaded s \<longrightarrow> ch_loaded s') \<Longrightarrow> gate_step s (snd (try_publish_ready ready s'))"
  by (auto simp: try_publish_ready_def may_publish_def eff_ok_def gate_step_def gate_ok_def ready_msg_def readies_def)

lemma gate_ok_eff: "readies ms = [] \<Longrightarrow> gate_step s (snd (eff_ok s ms))"
  by (simp add: eff_ok_def gate_step_def)

lemma gate_base_loaded: "gate_step s (snd (base_config_loaded ready c s))"
  unfolding base_config_loaded_def by (rule gate_try) (auto simp: ready_msg_def)

lemma hook_config_request: "hook_ok s (config_request s)"
  by (auto simp: config_request_def hook_ok_def eff_ok_def same_base_def readies_def client_get_def rbind_def split: sum.splits)

lemma hook_base_changed: "hook_ok s (eff_ok (base_config_changed k v s) [])"
  by (auto simp: hook_ok_def eff_ok_def base_config_changed_def same_base_def readies_def)

locale channel_module =
  fixes H :: "('e, 'x, 'a chan_scheme) hooks"
  assumes init_ok: "hook_ok s (h_init H e s)"
    and cleanup_ok: "hook_ok s (h_cleanup H e s)"
    and open_ok: "hook_ok s (h_on_open H e s)"
    and close_ok: "hook_ok s (h_on_close H e s)"
    and frame_ok: "hook_ok s (h_on_frame H e mid enc body s)"
    and changed_ok: "hook_ok s (h_changed H e k v s)"
    and own_gate: "gate_step s (snd (h_own H e x s))"
    and loaded_gate: "gate_step s (snd (h_loaded H e c s))"
begin

lemma step_gate: "gate_step s (chan_step H s ev)"
proof (cases ev)
  case (ModuleStart e p)
  have "gate_step s' (snd (try_publish_ready (h_is_ready H) (s'\<lparr>ch_init_done := True\<rparr>)))" for s'
    by (rule gate_try) (auto simp: ready_msg_def)
  moreover have "gate_step s (snd (eff_then (config_request s) (h_init H e)))"
    by (rule gate_then) (auto intro: hook_gate hook_config_request init_ok)
  ultimately show ?thesis
    using ModuleStart by (auto simp: chan_step_def on_module_start_def readies_def intro: gate_then gate_ok_eff)
next
  case (ModuleStop e)
  have "gate_step s (snd (eff_then (h_cleanup H e s)
      (\<lambda>s. eff_ok s [(''channel_manager.module_stopped'', [(''name'', PStr (ch_name s))])])))"
    by (rule gate_then) (auto simp: readies_def intro: hook_gate cleanup_ok gate_ok_eff)
  then show ?thesis using ModuleStop by (simp add: chan_step_def on_module_stop_def)
next
  case (ChannelOpen e p)
  then show ?thesis
    by (auto simp: chan_step_def on_aa_channel_open_def readies_def intro: gate_ok_eff gate_open hook_gate open_ok)
next
  case (ChannelClose e p)
  then show ?thesis
    by (auto simp: chan_step_def on_aa_channel_close_def readies_def intro: gate_ok_eff gate_open hook_gate close_ok)
next
  case (FrameIn e p)
  have "gate_step s (s, [])" using gate_ok_eff [of "[]" s] by (simp add: eff_ok_def readies_def)
  then show ?thesis
    using FrameIn by (auto simp: chan_step_def on_aa_frame_def eff_ok_def intro: hook_gate frame_ok split: sum.split)
qed (auto simp: chan_step_def intro: hook_gate changed_ok own_gate loaded_gate)

lemma run_gate: "gate_step s (run_events (chan_step H) s es)"
proof (induction es arbitrary: s)
  case Nil
  show ?case using gate_ok_eff [of "[]" s] by (simp add: eff_ok_def readies_def)
next
  case (Cons ev es)
  show ?case
    using gate_trans [of s "fst (chan_step H s ev)" "snd (chan_step H s ev)"] step_gate [of s ev] Cons.IH [of "fst (chan_step H s ev)"]
    by (simp add: Let_def)
qed

end

end
