(* ===== verification/AvProtocol.thy ===== *)
theory AvProtocol
  imports TcpServer ChannelBase
begin

text \<open>
  What the audio, video and microphone channels share: the message numbers of an audio/video channel, the
  protobuf messages they parse and serialise (parameters), and the frames of the phone as the socket
  server publishes them.
\<close>

definition AV_MEDIA_WITH_TIMESTAMP :: int where "AV_MEDIA_WITH_TIMESTAMP = 0"
definition AV_MEDIA :: int where "AV_MEDIA = 1"
definition AV_OPEN_REQUEST :: int where "AV_OPEN_REQUEST = 7"
definition AV_OPEN_RESPONSE :: int where "AV_OPEN_RESPONSE = 8"
definition AV_SETUP_REQUEST :: int where "AV_SETUP_REQUEST = 32768"
definition AV_START :: int where "AV_START = 32769"
definition AV_STOP :: int where "AV_STOP = 32770"
definition AV_SETUP_RESPONSE :: int where "AV_SETUP_RESPONSE = 32771"
definition AV_ACK :: int where "AV_ACK = 32772"
definition AV_INPUT_OPEN_REQUEST :: int where "AV_INPUT_OPEN_REQUEST = 32773"
definition AV_INPUT_OPEN_RESPONSE :: int where "AV_INPUT_OPEN_RESPONSE = 32774"
definition AV_FOCUS_REQUEST :: int where "AV_FOCUS_REQUEST = 32775"
definition AV_FOCUS_INDICATION :: int where "AV_FOCUS_INDICATION = 32776"

lemmas av_ids = AV_MEDIA_WITH_TIMESTAMP_def AV_MEDIA_def AV_OPEN_REQUEST_def AV_OPEN_RESPONSE_def AV_SETUP_REQUEST_def AV_START_def
  AV_STOP_def AV_SETUP_RESPONSE_def AV_ACK_def AV_INPUT_OPEN_REQUEST_def AV_INPUT_OPEN_RESPONSE_def AV_FOCUS_REQUEST_def AV_FOCUS_INDICATION_def

text \<open>\<open>av_setup v\<close> assigns the configured \<^verbatim>\<open>max_unacked\<close>, which raises for a value of the wrong type.\<close>

record av_lib =
  av_open_ok :: bytes
  av_parse_setup :: "bytes \<Rightarrow> int res"
  av_setup :: "pyval \<Rightarrow> bytes res"
  av_parse_start :: "bytes \<Rightarrow> int res"
  av_ack :: "int \<Rightarrow> bytes"

section \<open>Frames\<close>

text \<open>What the socket server publishes is what the channel modules read.\<close>

lemma frame_data_args [simp]: "frame_args (frame_data cid mid enc body) = Inr (mid, enc, body)"
  by (simp add: frame_args_def frame_data_def dindex_def dget_or_def)

definition frame_of :: "int \<Rightarrow> 'e \<times> int \<times> bool \<times> bytes \<Rightarrow> ('e, 'x) chan_event" where
  "frame_of cid f = (case f of (e, mid, enc, body) \<Rightarrow> FrameIn e (frame_data cid mid enc body))"

lemma frame_step: "ch_open s \<Longrightarrow> chan_step H s (frame_of cid (e, mid, enc, body)) = snd (h_on_frame H e mid enc body s)"
  by (simp add: chan_step_def frame_of_def on_aa_frame_def)

definition sent :: "int \<Rightarrow> busmsg list \<Rightarrow> busmsg list" where
  "sent mid ms = filter (\<lambda>m. fst m = ''aa.frame.send'' \<and> dget (snd m) ''message_id'' = PInt mid) ms"

lemma sent_append: "sent mid (xs @ ys) = sent mid xs @ sent mid ys"
  by (simp add: sent_def)

lemma sent_Nil [simp]: "sent mid [] = []"
  by (simp add: sent_def)

lemma sent_Cons [simp]: "sent mid (send_frame s k b # ms) = (if k = mid then send_frame s k b # sent mid ms else sent mid ms)"
  by (simp add: sent_def send_frame_def dget_def dget_or_def)

lemma sent_skip [simp]: "fst m \<noteq> ''aa.frame.send'' \<Longrightarrow> sent mid (m # ms) = sent mid ms"
  by (simp add: sent_def)

text \<open>The session number of every acknowledgement due, from the frames alone: a start indication names the
  session, a stop forgets it, and each media frame is acknowledged once.\<close>

fun due :: "'z av_lib_scheme \<Rightarrow> int \<Rightarrow> (int \<times> bytes) list \<Rightarrow> int list" where
  "due L ses [] = []"
| "due L ses ((mid, body) # fs) =
     (if mid = AV_MEDIA_WITH_TIMESTAMP \<or> mid = AV_MEDIA then ses # due L ses fs
      else if mid = AV_START then due L (case av_parse_start L body of Inl x \<Rightarrow> ses | Inr n \<Rightarrow> n) fs
      else if mid = AV_STOP then due L 0 fs
      else due L ses fs)"

end
