(* ===== verification/AudioChannel.thy ===== *)
theory AudioChannel
  imports ProtoUtils ServiceDiscovery AvProtocol
begin

text \<open>
  \<^verbatim>\<open>v2/modules/channel_modules/audio/main.py\<close>: negotiation, acknowledgement and playback of one audio
  channel. A \<^verbatim>\<open>pacat\<close> process is what was written to its pipe; whether it starts, whether a write
  succeeds and what the AAC decoder yields are the environment of a call. Sample rate, depth and channel
  count are protobuf numbers, hence integers, and a sink is a string or null. The two functions that only
  format log lines are left out.
\<close>

section \<open>Codecs\<close>

definition CODEC_PCM :: int where "CODEC_PCM = 1"
definition CODEC_AAC_LC :: int where "CODEC_AAC_LC = 2"
definition CODEC_AAC_LC_ADTS :: int where "CODEC_AAC_LC_ADTS = 4"
definition AAC_CODECS :: "int list" where "AAC_CODECS = [CODEC_AAC_LC, CODEC_AAC_LC_ADTS]"
definition PREBUFFER_MS :: int where "PREBUFFER_MS = 100"
definition PREBUFFER_BYTES_DEFAULT :: int where "PREBUFFER_BYTES_DEFAULT = 48000 * 2 * 2 * PREBUFFER_MS div 1000"

lemmas codecs = CODEC_PCM_def CODEC_AAC_LC_def CODEC_AAC_LC_ADTS_def AAC_CODECS_def

text \<open>An audio type never changes the answer: both branches of the code end in PCM.\<close>

fun normalise_audio_codec :: "pyval \<Rightarrow> int" where
  "normalise_audio_codec (PInt i) = i"
| "normalise_audio_codec (PBool b) = (if b then 1 else 0)"
| "normalise_audio_codec (PStr s) =
     (if s = ''MEDIA_CODEC_AUDIO_PCM'' then CODEC_PCM
      else if s = ''MEDIA_CODEC_AUDIO_AAC_LC'' then CODEC_AAC_LC
      else if s = ''MEDIA_CODEC_AUDIO_AAC_LC_ADTS'' then CODEC_AAC_LC_ADTS
      else CODEC_PCM)"
| "normalise_audio_codec v = CODEC_PCM"

section \<open>State\<close>

record pacat =
  pc_cmd :: "string list"
  pc_in :: "bytes list"

record audio = chan +
  au_rate :: int
  au_depth :: int
  au_channels :: int
  au_codec :: int
  au_type :: pyval
  au_state :: string
  au_session :: int
  au_proc :: "pacat option"
  au_ctx :: bool
  au_media_count :: nat
  au_pcm_count :: nat
  au_sink :: "string option"
  au_asc :: "bytes option"
  au_prebuffer :: "bytes list"
  au_prebytes :: int
  au_threshold :: int

datatype pipe = PipeOk | PipeBroken | PipeError

record audio_env =
  can_spawn :: "string option \<Rightarrow> bool"
  can_open_codec :: bool
  decoded :: "bytes \<Rightarrow> bytes option"
  pipe_result :: pipe

definition audio_schema :: schema where
  "audio_schema = [(''max_unacked'', field_int 1 (PInt 1) (PInt 16))]"

definition new_audio :: "string \<Rightarrow> int \<Rightarrow> payload option \<Rightarrow> audio" where
  "new_audio name cid sdr = chan.extend (new_chan name cid 1 sdr audio_schema)
     \<lparr>au_rate = 48000, au_depth = 16, au_channels = 2, au_codec = CODEC_AAC_LC, au_type = PNone, au_state = ''IDLE'',
      au_session = 0, au_proc = None, au_ctx = False, au_media_count = 0, au_pcm_count = 0, au_sink = None, au_asc = None,
      au_prebuffer = [], au_prebytes = 0, au_threshold = PREBUFFER_BYTES_DEFAULT\<rparr>"

definition audio_set_state :: "string \<Rightarrow> audio \<Rightarrow> audio effect" where
  "audio_set_state new s =
     (if au_state s = new then eff_ok s []
      else eff_ok (s\<lparr>au_state := new\<rparr>) [(''audio.state'', [(''channel_id'', PInt (ch_id s)), (''state'', PStr new)])])"

definition clear_prebuffer :: "audio \<Rightarrow> audio" where
  "clear_prebuffer s = s\<lparr>au_prebuffer := [], au_prebytes := 0\<rparr>"

section \<open>The playback process and the decoder\<close>

definition close_stream :: "audio \<Rightarrow> audio" where
  "close_stream s = s\<lparr>au_proc := None\<rparr>"

definition pacat_fmt :: "int \<Rightarrow> string" where
  "pacat_fmt depth = (if depth = 8 then ''u8'' else if depth = 24 then ''s24le'' else if depth = 32 then ''s32le'' else ''s16le'')"

definition pacat_cmd :: "audio \<Rightarrow> string option \<Rightarrow> string list" where
  "pacat_cmd s candidate =
     [''pacat'', ''--playback'', ''--format='' @ pacat_fmt (au_depth s), ''--channels='' @ str_of_int (au_channels s),
      ''--rate='' @ str_of_int (au_rate s), ''--client-name=NemoHU'', ''--stream-name=ch'' @ str_of_int (ch_id s)]
     @ (case candidate of None \<Rightarrow> [] | Some d \<Rightarrow> [''--device='' @ d])"

definition sink_candidates :: "string option \<Rightarrow> string option list" where
  "sink_candidates sink = (case sink of Some d \<Rightarrow> (if d \<noteq> [] \<and> d \<noteq> ''default'' then [Some d] else []) | None \<Rightarrow> []) @ [None]"

definition open_stream :: "audio_env \<Rightarrow> audio \<Rightarrow> audio" where
  "open_stream e s =
     (let s = close_stream s in
      case find (can_spawn e) (sink_candidates (au_sink s)) of
        None \<Rightarrow> s
      | Some c \<Rightarrow> s\<lparr>au_proc := Some \<lparr>pc_cmd = pacat_cmd s c, pc_in = []\<rparr>\<rparr>)"

definition close_av_codec :: "audio \<Rightarrow> audio" where
  "close_av_codec s = s\<lparr>au_ctx := False\<rparr>"

definition open_av_codec :: "audio_env \<Rightarrow> audio \<Rightarrow> audio" where
  "open_av_codec e s =
     (let s = close_av_codec s in
      if au_codec s \<notin> set AAC_CODECS then s else s\<lparr>au_ctx := can_open_codec e\<rparr>)"

section \<open>Initialisation\<close>

text \<open>The number a descriptor entry has, or the present one.\<close>

definition sdr_number :: "payload \<Rightarrow> string \<Rightarrow> int \<Rightarrow> int res" where
  "sdr_number c k old = (case map_of c k of None \<Rightarrow> Inr old | Some (PInt i) \<Rightarrow> Inr i | Some v \<Rightarrow> Inl TypeError)"

definition as_dict :: "pyval \<Rightarrow> payload res" where
  "as_dict v = (case v of PDict d \<Rightarrow> Inr d | _ \<Rightarrow> Inl AttributeError)"

definition read_audio_config :: "audio \<Rightarrow> audio res" where
  "read_audio_config s =
     (case ch_sdr s of
        None \<Rightarrow> Inr s
      | Some cfg \<Rightarrow>
          rbind (as_dict (dget_or cfg ''av_channel'' (PDict []))) (\<lambda>av.
            let configs = dget_or av ''audio_configs'' (PList []) in
            if \<not> truthy configs then Inr s
            else rbind (rbind (py_item 0 configs) as_dict) (\<lambda>c.
              rbind (sdr_number c ''sample_rate'' (au_rate s)) (\<lambda>rate.
              rbind (sdr_number c ''bit_depth'' (au_depth s)) (\<lambda>depth.
              rbind (sdr_number c ''channel_count'' (au_channels s)) (\<lambda>channels.
                Inr (s\<lparr>au_type := dget av ''audio_type'', au_rate := rate, au_depth := depth, au_channels := channels,
                       au_codec := normalise_audio_codec (dget c ''codec'')\<rparr>)))))))"

text \<open>The threshold is exact while the rate is below \<open>2 ^ 53\<close> bytes per second.\<close>

definition set_threshold :: "audio \<Rightarrow> audio" where
  "set_threshold s = s\<lparr>au_threshold := au_rate s * au_channels s * (au_depth s div 8) * PREBUFFER_MS div 1000\<rparr>"

definition audio_init :: "audio_env \<Rightarrow> audio \<Rightarrow> audio effect" where
  "audio_init e s =
     eff_res s (read_audio_config s) (\<lambda>s. eff_ok (open_stream e (open_av_codec e (set_threshold s))) [])"

definition audio_cleanup :: "audio \<Rightarrow> audio effect" where
  "audio_cleanup s = audio_set_state ''IDLE'' (clear_prebuffer (close_av_codec (close_stream s)\<lparr>au_asc := None\<rparr>))"

definition audio_is_ready :: "audio \<Rightarrow> bool" where
  "audio_is_ready s = (au_proc s \<noteq> None)"

definition audio_config_loaded :: "audio_env \<Rightarrow> payload \<Rightarrow> audio \<Rightarrow> audio effect" where
  "audio_config_loaded e c s =
     eff_then (base_config_loaded audio_is_ready c s)
       (\<lambda>s. try_publish_ready audio_is_ready (if ch_init_done s then open_stream e s else s))"

definition on_audio_sink_selected :: "audio_env \<Rightarrow> payload \<Rightarrow> audio \<Rightarrow> audio" where
  "on_audio_sink_selected e p s =
     (let sink = (case dget_or p ''sink'' (PStr ''default'') of PStr d \<Rightarrow> (if d = ''default'' then None else Some d) | _ \<Rightarrow> None) in
      if sink = au_sink s then s
      else (let s = s\<lparr>au_sink := sink\<rparr> in if au_proc s \<noteq> None then open_stream e s else s))"

definition audio_session_shutdown :: "audio \<Rightarrow> audio effect" where
  "audio_session_shutdown s = audio_set_state ''IDLE'' (clear_prebuffer (s\<lparr>au_session := 0, au_asc := None\<rparr>))"

definition audio_channel_open :: "audio \<Rightarrow> audio effect" where
  "audio_channel_open s = audio_set_state ''IDLE'' s"

definition audio_channel_close :: "audio \<Rightarrow> audio effect" where
  "audio_channel_close s = audio_set_state ''IDLE'' (clear_prebuffer (s\<lparr>au_session := 0\<rparr>))"

section \<open>Playback\<close>

definition decode_aac :: "audio_env \<Rightarrow> bytes \<Rightarrow> audio \<Rightarrow> bytes" where
  "decode_aac e frame s =
     (if \<not> au_ctx s then []
      else (let feed = (case au_asc s of
                  Some asc \<Rightarrow> (if au_codec s = CODEC_AAC_LC \<and> asc \<noteq> [] then asc @ frame else frame)
                | None \<Rightarrow> frame)
            in case decoded e feed of None \<Rightarrow> [] | Some pcm \<Rightarrow> pcm))"

definition pipe_write :: "audio_env \<Rightarrow> bytes \<Rightarrow> audio \<Rightarrow> audio" where
  "pipe_write e pcm s =
     (case pipe_result e of
        PipeOk \<Rightarrow> s\<lparr>au_proc := map_option (\<lambda>p. p\<lparr>pc_in := pc_in p @ [pcm]\<rparr>) (au_proc s)\<rparr>
      | PipeBroken \<Rightarrow> close_stream s
      | PipeError \<Rightarrow> s)"

definition play_pcm :: "audio_env \<Rightarrow> bytes \<Rightarrow> audio \<Rightarrow> audio" where
  "play_pcm e pcm s =
     (if pcm = [] \<or> au_proc s = None then s
      else (let s = s\<lparr>au_pcm_count := au_pcm_count s + 1\<rparr> in
        if au_prebytes s < au_threshold s then
          (let s = s\<lparr>au_prebuffer := au_prebuffer s @ [pcm], au_prebytes := au_prebytes s + int (length pcm)\<rparr> in
           if au_prebytes s < au_threshold s then s
           else pipe_write e (concat (au_prebuffer s)) (clear_prebuffer s))
        else pipe_write e pcm s))"

definition write_audio :: "audio_env \<Rightarrow> bytes \<Rightarrow> audio \<Rightarrow> audio" where
  "write_audio e encoded s =
     (if encoded = [] then s
      else if au_codec s \<in> set AAC_CODECS then play_pcm e (decode_aac e encoded s) s
      else if au_codec s = CODEC_PCM then play_pcm e encoded s
      else s)"

section \<open>Frames of the phone\<close>

definition audio_setup_request :: "av_lib \<Rightarrow> bytes \<Rightarrow> audio \<Rightarrow> audio effect" where
  "audio_setup_request L body s =
     eff_res s (av_parse_setup L body) (\<lambda>codec.
       let t = s\<lparr>au_codec := normalise_audio_codec (PInt codec)\<rparr> in
       eff_res t (av_setup L (dget_or (ch_config s) ''max_unacked'' (PInt 1))) (\<lambda>resp.
         eff_then (eff_ok t [send_frame t AV_SETUP_RESPONSE resp]) (audio_set_state ''SETUP'')))"

definition audio_open_request :: "av_lib \<Rightarrow> audio \<Rightarrow> audio effect" where
  "audio_open_request L s = eff_then (eff_ok s [send_frame s AV_OPEN_RESPONSE (av_open_ok L)]) (audio_set_state ''OPEN'')"

definition audio_start_indication :: "av_lib \<Rightarrow> bytes \<Rightarrow> audio \<Rightarrow> audio effect" where
  "audio_start_indication L body s =
     audio_set_state ''PLAYING'' (case av_parse_start L body of Inl x \<Rightarrow> s | Inr n \<Rightarrow> s\<lparr>au_session := n\<rparr>)"

definition audio_stop_indication :: "audio \<Rightarrow> audio effect" where
  "audio_stop_indication s = audio_set_state ''STOPPED'' (clear_prebuffer (s\<lparr>au_session := 0\<rparr>))"

definition send_media_ack :: "av_lib \<Rightarrow> audio \<Rightarrow> audio effect" where
  "send_media_ack L s = eff_ok s [send_frame s AV_ACK (av_ack L (au_session s))]"

definition resume_playing :: "audio \<Rightarrow> audio effect" where
  "resume_playing s = (if au_state s = ''OPEN'' \<or> au_state s = ''PLAYING'' then eff_ok s [] else audio_set_state ''PLAYING'' s)"

definition log_media_sample :: "audio \<Rightarrow> audio" where
  "log_media_sample s = s\<lparr>au_media_count := au_media_count s + 1\<rparr>"

definition audio_media_with_timestamp :: "av_lib \<Rightarrow> audio_env \<Rightarrow> bytes \<Rightarrow> audio \<Rightarrow> audio effect" where
  "audio_media_with_timestamp L e body s =
     eff_then (resume_playing s) (\<lambda>s.
     eff_then (send_media_ack L (log_media_sample s)) (\<lambda>s.
       eff_ok (write_audio e (snd (parse_media_with_timestamp body)) s) []))"

text \<open>Behind the eight bytes of timestamp, two bytes alone are the decoder's configuration.\<close>

definition media_payload :: "bytes \<Rightarrow> bytes" where
  "media_payload body = (if length body > 8 then drop 8 body else body)"

definition audio_media :: "av_lib \<Rightarrow> audio_env \<Rightarrow> bytes \<Rightarrow> audio \<Rightarrow> audio effect" where
  "audio_media L e body s =
     (let pl = media_payload body in
      if length pl = 2 \<and> au_codec s \<in> set AAC_CODECS then send_media_ack L (s\<lparr>au_asc := Some pl\<rparr>)
      else eff_then (resume_playing s) (\<lambda>s.
           eff_then (send_media_ack L s) (\<lambda>s. eff_ok (write_audio e pl (log_media_sample s)) [])))"

definition audio_on_frame :: "av_lib \<Rightarrow> audio_env \<Rightarrow> int \<Rightarrow> bytes \<Rightarrow> audio \<Rightarrow> audio effect" where
  "audio_on_frame L e mid data s =
     (if mid = AV_SETUP_REQUEST then audio_setup_request L data s
      else if mid = AV_OPEN_REQUEST then audio_open_request L s
      else if mid = AV_START then audio_start_indication L data s
      else if mid = AV_STOP then audio_stop_indication s
      else if mid = AV_MEDIA then audio_media L e data s
      else if mid = AV_MEDIA_WITH_TIMESTAMP then audio_media_with_timestamp L e data s
      else eff_ok s [])"

section \<open>The module\<close>

datatype audio_topic = AudioShutdown | SinkSelected payload

fun audio_own :: "audio_env \<Rightarrow> audio_topic \<Rightarrow> audio \<Rightarrow> audio effect" where
  "audio_own e AudioShutdown s = audio_session_shutdown s"
| "audio_own e (SinkSelected p) s = eff_ok (on_audio_sink_selected e p s) []"

definition audio_hooks :: "av_lib \<Rightarrow> (audio_env, audio_topic, audio) hooks" where
  "audio_hooks L =
     \<lparr>h_init = audio_init, h_cleanup = (\<lambda>_. audio_cleanup), h_is_ready = audio_is_ready,
      h_on_open = (\<lambda>_. audio_channel_open), h_on_close = (\<lambda>_. audio_channel_close),
      h_on_frame = (\<lambda>e mid enc data. audio_on_frame L e mid data),
      h_loaded = audio_config_loaded,
      h_changed = (\<lambda>_ k v s. eff_ok (base_config_changed k v s) []), h_own = audio_own\<rparr>"

section \<open>The base class's fields stay\<close>

lemma audio_base:
  "same_base s (clear_prebuffer s)" "same_base s (close_stream s)" "same_base s (open_stream e s)" "same_base s (open_av_codec e s)"
  "same_base s (close_av_codec s)" "same_base s (set_threshold s)" "same_base s (pipe_write e pcm s)" "same_base s (log_media_sample s)"
  by (simp_all add: same_base_def clear_prebuffer_def close_stream_def open_stream_def open_av_codec_def close_av_codec_def
      set_threshold_def pipe_write_def log_media_sample_def Let_def split: option.split pipe.split)

lemma audio_base_play: "same_base s (play_pcm e pcm s)"
  by (simp add: play_pcm_def Let_def pipe_write_def clear_prebuffer_def close_stream_def same_base_def split: pipe.split)

lemma audio_base_write: "same_base s (write_audio e b s)"
  by (simp add: write_audio_def audio_base_play)

lemma audio_base_sink: "same_base s (on_audio_sink_selected e p s)"
  by (simp add: on_audio_sink_selected_def Let_def open_stream_def close_stream_def same_base_def split: option.split)

lemma audio_base_read: "read_audio_config s = Inr s' \<Longrightarrow> same_base s s'"
  by (auto simp: read_audio_config_def rbind_Inr_iff Let_def same_base_def split: option.splits if_splits)

lemma hook_audio_state: "same_base s s' \<Longrightarrow> hook_ok s (audio_set_state new s')"
  by (simp add: audio_set_state_def hook_ok_def eff_ok_def same_base_def readies_def)

lemma hook_send: "same_base s s' \<Longrightarrow> hook_ok s (eff_ok s' [send_frame s'' mid b])"
  by (rule hook_eff_ok) simp_all

lemma hook_then': "same_base s s0 \<Longrightarrow> hook_ok s0 a \<Longrightarrow> (\<And>s'. hook_ok s' (f s')) \<Longrightarrow> hook_ok s (eff_then a f)"
proof -
  assume s: "same_base s s0" and a: "hook_ok s0 a" and f: "\<And>s'. hook_ok s' (f s')"
  have "hook_ok s a" using s a by (auto simp: hook_ok_def intro: same_base_trans)
  then show ?thesis using f by (rule hook_then)
qed

lemma hook_resume: "hook_ok s (resume_playing s)"
  by (auto simp: resume_playing_def readies_def intro: hook_eff_ok hook_audio_state)

lemma hook_ack: "same_base s s' \<Longrightarrow> hook_ok s (send_media_ack L s')"
  unfolding send_media_ack_def by (rule hook_send)

lemma readies_Nil [simp]: "readies [] = []"
  by (simp add: readies_def)

lemma hook_media_ts: "hook_ok s (audio_media_with_timestamp L e body s)"
  unfolding audio_media_with_timestamp_def
  by (intro hook_then hook_resume hook_ack audio_base hook_eff_ok audio_base_write readies_Nil)

lemma hook_media: "hook_ok s (audio_media L e body s)"
  unfolding audio_media_def Let_def
  by (auto intro!: hook_then hook_resume hook_ack hook_eff_ok same_base_trans [OF audio_base(8) audio_base_write] simp: same_base_def simp del: eff_simps)

lemma hook_setup: "hook_ok s (audio_setup_request L body s)"
  by (cases "av_parse_setup L body"; cases "av_setup L (dget_or (ch_config s) ''max_unacked'' (PInt 1))")
    (simp_all add: audio_setup_request_def Let_def audio_set_state_def hook_ok_def eff_ok_def readies_def send_frame_def same_base_def)

lemma hook_audio_frame: "hook_ok s (audio_on_frame L e mid data s)"
  by (auto simp: audio_on_frame_def audio_open_request_def audio_start_indication_def audio_stop_indication_def clear_prebuffer_def same_base_def
      intro!: hook_setup hook_media hook_media_ts hook_then hook_send hook_audio_state hook_eff_ok simp del: eff_simps split: sum.split)

lemma hook_audio_own: "hook_ok s (audio_own e x s)"
  by (cases x) (auto simp: audio_session_shutdown_def clear_prebuffer_def same_base_def intro!: hook_audio_state hook_eff_ok audio_base_sink)

lemma gate_audio_loaded: "gate_step s (snd (audio_config_loaded e c s))"
  unfolding audio_config_loaded_def
proof (rule gate_then)
  fix s' :: audio
  have "same_base s' (open_stream e s')" by (rule audio_base)
  then show "gate_step s' (snd (try_publish_ready audio_is_ready (if ch_init_done s' then open_stream e s' else s')))"
    by (intro gate_try) (auto simp: same_base_def ready_msg_def)
qed (rule gate_base_loaded)

lemma hook_audio_init: "hook_ok s (audio_init e s)"
proof (cases "read_audio_config s")
  case (Inr s')
  then show ?thesis
    using audio_base_read [OF Inr] audio_base(3) [of "open_av_codec e (set_threshold s')" e] audio_base(4) [of "set_threshold s'" e] audio_base(6) [of s']
    by (auto simp: audio_init_def intro!: hook_eff_ok) (meson same_base_trans)
qed (simp add: audio_init_def hook_raise)

interpretation audio_mod: channel_module "audio_hooks L" for L
proof unfold_locales
  fix e s c
  show "gate_step s (snd (h_loaded (audio_hooks L) e c s))"
    by (simp add: audio_hooks_def gate_audio_loaded)
qed (auto simp: audio_hooks_def audio_cleanup_def audio_channel_open_def audio_channel_close_def clear_prebuffer_def close_av_codec_def
    close_stream_def same_base_def hook_base_changed
    intro!: hook_audio_init hook_audio_state hook_gate hook_audio_own hook_audio_frame simp del: eff_simps)

section \<open>Acknowledgements\<close>

text \<open>One frame: the acknowledgements sent and the session afterwards.\<close>

lemma sent_audio_state [simp]: "sent k (snd (snd (audio_set_state new s))) = []"
  by (simp add: audio_set_state_def eff_ok_def)

lemma fst_audio_state [simp]: "fst (audio_set_state new s) = None"
  by (simp add: audio_set_state_def eff_ok_def)

lemma au_session_simps [simp]:
  "au_session (fst (snd (audio_set_state new s))) = au_session s" "au_session (clear_prebuffer s) = au_session s"
  "au_session (log_media_sample s) = au_session s" "au_session (write_audio e b s) = au_session s"
  by (simp_all add: audio_set_state_def eff_ok_def clear_prebuffer_def log_media_sample_def write_audio_def play_pcm_def pipe_write_def
      close_stream_def Let_def split: pipe.split)

lemma then_ok: "fst a = None \<Longrightarrow> snd (eff_then a f) = (fst (snd (f (fst (snd a)))), snd (snd a) @ snd (snd (f (fst (snd a)))))"
  by (cases a) (auto simp: eff_then_def split: prod.split)

lemma send_frame_base: "same_base s s' \<Longrightarrow> send_frame s' = send_frame s"
  by (simp add: fun_eq_iff same_base_def send_frame_def)

lemma send_frame_log [simp]: "send_frame (log_media_sample s) = send_frame s" "send_frame (s\<lparr>au_asc := x\<rparr>) = send_frame s"
  by (simp_all add: fun_eq_iff send_frame_def log_media_sample_def)

definition acked :: "audio \<Rightarrow> int list \<Rightarrow> int \<Rightarrow> av_lib \<Rightarrow> audio effect \<Rightarrow> bool" where
  "acked s ns ses L a \<longleftrightarrow> sent AV_ACK (snd (snd a)) = map (\<lambda>n. send_frame s AV_ACK (av_ack L n)) ns \<and> au_session (fst (snd a)) = ses"

lemma acked_frame:
  "acked s (due L (au_session s) [(mid, body)])
     (if mid = AV_START then (case av_parse_start L body of Inl x \<Rightarrow> au_session s | Inr n \<Rightarrow> n)
      else if mid = AV_STOP then 0 else au_session s) L (audio_on_frame L e mid body s)"
proof -
  have resume: "fst (resume_playing s) = None" "sent AV_ACK (snd (snd (resume_playing s))) = []"
      "au_session (fst (snd (resume_playing s))) = au_session s" "send_frame (fst (snd (resume_playing s))) = send_frame s"
    using send_frame_base [of s "fst (snd (resume_playing s))"] hook_resume [of s]
    by (simp_all add: resume_playing_def hook_ok_def) (simp_all add: eff_ok_def)
  have m0: "acked s [au_session s] (au_session s) L (audio_media_with_timestamp L e body s)"
    using resume by (simp add: acked_def audio_media_with_timestamp_def then_ok send_media_ack_def sent_append eff_ok_def)
  have m1: "acked s [au_session s] (au_session s) L (audio_media L e body s)"
    using resume by (simp add: acked_def audio_media_def Let_def then_ok send_media_ack_def sent_append eff_ok_def)
  have stp: "acked s [] (au_session s) L (audio_setup_request L body s)"
    by (cases "av_parse_setup L body"; cases "av_setup L (dget_or (ch_config s) ''max_unacked'' (PInt 1))")
      (simp_all add: acked_def audio_setup_request_def Let_def audio_set_state_def eff_ok_def av_ids)
  have opn: "acked s [] (au_session s) L (audio_open_request L s)"
    by (simp add: acked_def audio_open_request_def audio_set_state_def eff_ok_def av_ids)
  show ?thesis
    using m0 m1 stp opn
    by (simp add: audio_on_frame_def audio_start_indication_def audio_stop_indication_def acked_def av_ids eff_ok_def split: sum.split)
qed

text \<open>C10 Flow control: on an open channel, whatever pacat and the decoder do, the acknowledgements sent for a
  sequence of frames are one per media frame, in order, each with the session of the last start
  indication, or 0 after a stop.\<close>

theorem audio_acks_track_session:
  assumes "ch_open s"
  shows "sent AV_ACK (snd (run_events (chan_step (audio_hooks L)) s (map (frame_of cid) fs))) =
    map (\<lambda>n. send_frame s AV_ACK (av_ack L n)) (due L (au_session s) (map (\<lambda>(e, mid, enc, body). (mid, body)) fs))"
  using assms
proof (induction fs arbitrary: s)
  case (Cons f fs)
  obtain e mid enc body where f: "f = (e, mid, enc, body)" by (cases f)
  let ?a = "audio_on_frame L e mid body s"
  let ?s = "fst (snd ?a)"
  have st: "chan_step (audio_hooks L) s (frame_of cid f) = snd ?a"
    using Cons.prems by (simp add: f frame_step audio_hooks_def)
  have sb: "same_base s ?s" using hook_audio_frame [of s L e mid body] by (simp add: hook_ok_def)
  then have opn: "ch_open ?s" and sf: "send_frame ?s = send_frame s" using Cons.prems by (auto simp: same_base_def send_frame_base)
  show ?case
    using acked_frame [of s L mid body e] Cons.IH [OF opn] sf
    by (auto simp: Let_def st [unfolded f] f sent_append acked_def av_ids)
qed simp

definition demo_av :: av_lib where
  "demo_av = \<lparr>av_open_ok = [8, 0], av_parse_setup = (\<lambda>b. if b = [8, 4] then Inr 4 else Inr 1), av_setup = (\<lambda>v. Inr [8, 2, 16, 1, 24, 0]),
     av_parse_start = (\<lambda>b. if b = [] then Inl (OtherError ''DecodeError'') else Inr (uint (hd b))), av_ack = (\<lambda>n. [8, word_of_int n, 16, 1])\<rparr>"

definition quiet_env :: audio_env where
  "quiet_env = \<lparr>can_spawn = (\<lambda>d. True), can_open_codec = True, decoded = (\<lambda>b. Some b), pipe_result = PipeOk\<rparr>"

theorem audio_acks_track_session_witness:
  "map snd (sent AV_ACK (snd (run_events (chan_step (audio_hooks demo_av)) (new_audio ''channel_audio_5'' 5 (Some [])\<lparr>ch_open := True\<rparr>)
     (map (frame_of 5) [(quiet_env, AV_START, True, [7]), (quiet_env, AV_MEDIA, True, [1, 2]), (quiet_env, AV_STOP, True, []),
        (quiet_env\<lparr>pipe_result := PipeBroken\<rparr>, AV_MEDIA_WITH_TIMESTAMP, True, [3])])))) =
   map (\<lambda>n. snd (send_frame (new_audio ''channel_audio_5'' 5 None) AV_ACK [8, n, 16, 1])) [7, 0]"
  by (subst audio_acks_track_session) (simp_all add: av_ids demo_av_def new_audio_def new_chan_def chan.defs send_frame_def)

section \<open>Playback in order\<close>

text \<open>What the speaker gets: the bytes in the pipe and those held back.\<close>

definition piped :: "audio \<Rightarrow> bytes" where
  "piped s = (case au_proc s of None \<Rightarrow> [] | Some p \<Rightarrow> concat (pc_in p))"

definition held :: "audio \<Rightarrow> bytes" where
  "held s = concat (au_prebuffer s)"

definition pcm_ok :: "audio \<Rightarrow> bool" where
  "pcm_ok s \<longleftrightarrow> ch_open s \<and> au_proc s \<noteq> None \<and> au_codec s = CODEC_PCM \<and> au_prebytes s = int (length (held s)) \<and> au_prebytes s < au_threshold s"

definition media_bytes :: "int \<Rightarrow> bytes \<Rightarrow> bytes" where
  "media_bytes mid body = (if mid = AV_MEDIA then media_payload body else snd (parse_media_with_timestamp body))"

lemma play_in_order:
  assumes "pcm_ok s" "pipe_result e = PipeOk"
  shows "pcm_ok (write_audio e b s) \<and> piped (write_audio e b s) @ held (write_audio e b s) = piped s @ held s @ b"
  using assms
  by (auto simp: pcm_ok_def write_audio_def codecs play_pcm_def Let_def pipe_write_def clear_prebuffer_def piped_def held_def)

lemma pcm_ok_state [simp]:
  "pcm_ok (fst (snd (audio_set_state new s))) = pcm_ok s" "piped (fst (snd (audio_set_state new s))) = piped s"
  "held (fst (snd (audio_set_state new s))) = held s"
  "pcm_ok (fst (snd (resume_playing s))) = pcm_ok s" "piped (fst (snd (resume_playing s))) = piped s"
  "held (fst (snd (resume_playing s))) = held s" "fst (resume_playing s) = None"
  "pcm_ok (log_media_sample s) = pcm_ok s" "piped (log_media_sample s) = piped s" "held (log_media_sample s) = held s"
  by (simp_all add: pcm_ok_def piped_def held_def resume_playing_def audio_set_state_def eff_ok_def log_media_sample_def)

lemma media_in_order:
  assumes "pcm_ok s" "pipe_result e = PipeOk" "mid = AV_MEDIA \<or> mid = AV_MEDIA_WITH_TIMESTAMP"
    and s'_def: "s' = fst (snd (audio_on_frame L e mid body s))"
  shows "pcm_ok s' \<and> piped s' @ held s' = piped s @ held s @ media_bytes mid body"
proof -
  have c: "au_codec s \<notin> set AAC_CODECS" using assms(1) by (simp add: pcm_ok_def codecs)
  obtain s1 where s1: "s' = write_audio e (media_bytes mid body) s1" "pcm_ok s1" "piped s1 = piped s" "held s1 = held s"
    using assms(1,3) c by (auto simp: s'_def audio_on_frame_def audio_media_def audio_media_with_timestamp_def media_bytes_def av_ids
        then_ok send_media_ack_def Let_def) (auto simp: eff_ok_def)
  then show ?thesis using play_in_order [of s1 e "media_bytes mid body"] assms(2) by simp
qed

text \<open>C15 A PCM stream reaches the speaker complete and in order: while pacat accepts its input, what is in the
  pipe followed by what is held back is what was there before followed by the payloads of the media
  frames, and what is held back stays below the threshold.\<close>

theorem pcm_in_order:
  assumes "pcm_ok s"
    and "list_all (\<lambda>(e, mid, enc, body). pipe_result e = PipeOk \<and> (mid = AV_MEDIA \<or> mid = AV_MEDIA_WITH_TIMESTAMP)) fs"
    and "s' = fst (run_events (chan_step (audio_hooks L)) s (map (frame_of cid) fs))"
  shows "piped s' @ held s' = piped s @ held s @ concat (map (\<lambda>(e, mid, enc, body). media_bytes mid body) fs) \<and>
    int (length (held s')) < au_threshold s'"
proof -
  have "pcm_ok s' \<and> piped s' @ held s' = piped s @ held s @ concat (map (\<lambda>(e, mid, enc, body). media_bytes mid body) fs)"
    using assms
  proof (induction fs arbitrary: s)
    case (Cons f fs)
    obtain e mid enc body where f: "f = (e, mid, enc, body)" by (cases f)
    let ?s = "fst (snd (audio_on_frame L e mid body s))"
    have "ch_open s" using Cons.prems(1) by (simp add: pcm_ok_def)
    then have st: "chan_step (audio_hooks L) s (frame_of cid f) = snd (audio_on_frame L e mid body s)"
      by (simp add: f frame_step audio_hooks_def)
    have m: "pcm_ok ?s \<and> piped ?s @ held ?s = piped s @ held s @ media_bytes mid body"
      using Cons.prems(1,2) by (intro media_in_order [OF _ _ _ refl]) (auto simp: f)
    have "s' = fst (run_events (chan_step (audio_hooks L)) ?s (map (frame_of cid) fs))"
      using Cons.prems(3) st by (simp add: Let_def)
    then have "pcm_ok s' \<and> piped s' @ held s' = piped ?s @ held ?s @ concat (map (\<lambda>(e, mid, enc, body). media_bytes mid body) fs)"
      using Cons.IH [of ?s] m Cons.prems(2) by simp
    moreover have "piped ?s @ held ?s @ c = piped s @ held s @ media_bytes mid body @ c" for c
      using m by (metis append.assoc)
    ultimately show ?case by (simp add: f)
  qed simp
  then show ?thesis by (auto simp: pcm_ok_def)
qed

definition demo_pcm :: audio where
  "demo_pcm = new_audio ''channel_audio_5'' 5 (Some [])
     \<lparr>ch_open := True, au_codec := CODEC_PCM, au_proc := Some \<lparr>pc_cmd = [], pc_in = []\<rparr>, au_threshold := 4\<rparr>"

definition demo_media :: "(audio_env \<times> int \<times> bool \<times> bytes) list" where
  "demo_media = map (\<lambda>b. (quiet_env, AV_MEDIA, True, [0, 0, 0, 0, 0, 0, 0, 0] @ b)) [[1, 2, 3], [4, 5, 6], [7]]"

theorem pcm_in_order_witness:
  "piped (fst (run_events (chan_step (audio_hooks demo_av)) demo_pcm (map (frame_of 5) demo_media))) @
   held (fst (run_events (chan_step (audio_hooks demo_av)) demo_pcm (map (frame_of 5) demo_media))) = [1, 2, 3, 4, 5, 6, 7]"
  using pcm_in_order [of demo_pcm demo_media _ demo_av 5, OF _ _ refl]
  by (simp add: pcm_ok_def demo_pcm_def new_audio_def new_chan_def chan.defs held_def piped_def demo_media_def quiet_env_def
      media_bytes_def media_payload_def)

section \<open>The AAC channel of the default configuration\<close>

definition mute :: "audio \<Rightarrow> bool" where
  "mute s \<longleftrightarrow> au_codec s \<in> set AAC_CODECS \<and> \<not> au_ctx s \<and> piped s = []"

text \<open>Nothing but another initialisation, or a request for another codec, unmutes.\<close>

fun keeps_aac :: "av_lib \<Rightarrow> ('e, 'x) chan_event \<Rightarrow> bool" where
  "keeps_aac L (ModuleStart e p) = False"
| "keeps_aac L (FrameIn e p) =
     (case frame_args p of
        Inr (mid, enc, body) \<Rightarrow>
          mid \<noteq> AV_SETUP_REQUEST \<or> (case av_parse_setup L body of Inl x \<Rightarrow> True | Inr c \<Rightarrow> c \<in> set AAC_CODECS)
      | Inl x \<Rightarrow> True)"
| "keeps_aac L ev = True"

lemma mute_ops:
  "mute s \<Longrightarrow> mute (write_audio e b s)" "mute s \<Longrightarrow> mute (open_stream e s)" "mute s \<Longrightarrow> mute (fst (snd (audio_set_state new s)))"
  "mute s \<Longrightarrow> mute (fst (snd (resume_playing s)))" "mute s \<Longrightarrow> mute (clear_prebuffer s)" "mute s \<Longrightarrow> mute (close_stream s)"
  "mute s \<Longrightarrow> mute (log_media_sample s)" "mute s \<Longrightarrow> mute (on_audio_sink_selected e p s)"
  by (auto simp: mute_def write_audio_def decode_aac_def play_pcm_def open_stream_def close_stream_def Let_def piped_def
      audio_set_state_def resume_playing_def eff_ok_def clear_prebuffer_def log_media_sample_def on_audio_sink_selected_def
      split: option.split)

lemma mute_upd [simp]:
  "mute (s\<lparr>au_session := n\<rparr>) = mute s" "mute (s\<lparr>au_asc := a\<rparr>) = mute s" "mute (s\<lparr>ch_open := b\<rparr>) = mute s"
  "mute (s\<lparr>ch_published := b\<rparr>) = mute s" "mute (s\<lparr>ch_loaded := b\<rparr>) = mute s" "mute (s\<lparr>ch_config := c\<rparr>) = mute s"
  by (simp_all add: mute_def piped_def)

lemma mute_frame:
  assumes "mute s" "mid \<noteq> AV_SETUP_REQUEST \<or> (case av_parse_setup L body of Inl x \<Rightarrow> True | Inr c \<Rightarrow> c \<in> set AAC_CODECS)"
  shows "mute (fst (snd (audio_on_frame L e mid body s)))"
proof -
  have "mute (fst (snd (audio_setup_request L body s)))" if "mid = AV_SETUP_REQUEST"
    using assms that
    by (cases "av_setup L (dget_or (ch_config s) ''max_unacked'' (PInt 1))"; cases "av_parse_setup L body")
      (auto simp: audio_setup_request_def Let_def audio_set_state_def eff_ok_def mute_def piped_def)
  moreover have "mute (fst (snd (audio_media L e body s)))" "mute (fst (snd (audio_media_with_timestamp L e body s)))"
    using assms(1) by (auto simp: audio_media_def audio_media_with_timestamp_def Let_def then_ok send_media_ack_def)
      (auto simp: eff_ok_def intro!: mute_ops)
  moreover have "mute (fst (snd (audio_open_request L s)))" "mute (fst (snd (audio_start_indication L body s)))"
      "mute (fst (snd (audio_stop_indication s)))" "mute (fst (snd (eff_ok s [])))"
    using assms(1) by (simp_all add: audio_open_request_def audio_start_indication_def audio_stop_indication_def audio_set_state_def
        eff_ok_def clear_prebuffer_def mute_def piped_def split: sum.split)
  ultimately show ?thesis by (simp add: audio_on_frame_def)
qed

lemma mute_loaded: "mute s \<Longrightarrow> mute (fst (snd (audio_config_loaded e c s)))"
  by (auto simp: audio_config_loaded_def base_config_loaded_def try_publish_ready_def eff_ok_def eff_then_def mute_ops)

lemma mute_life:
  "mute s \<Longrightarrow> mute (fst (snd (audio_cleanup s)))" "mute s \<Longrightarrow> mute (fst (snd (audio_channel_open s)))"
  "mute s \<Longrightarrow> mute (fst (snd (audio_channel_close s)))" "mute s \<Longrightarrow> mute (fst (snd (audio_own e x s)))"
  by (cases x; simp add: audio_cleanup_def close_av_codec_def audio_channel_open_def audio_channel_close_def audio_session_shutdown_def
      audio_set_state_def eff_ok_def clear_prebuffer_def close_stream_def mute_def piped_def mute_ops [unfolded mute_def piped_def])+

lemma mute_stop:
  assumes "mute s"
  shows "mute (fst (snd (on_module_stop (audio_hooks L) e s)))"
  using mute_life(1) [OF assms] assms
  by (cases "audio_cleanup s") (auto simp: audio_hooks_def on_module_stop_def eff_then_def eff_ok_def split: option.split)

lemma mute_step: "mute s \<Longrightarrow> keeps_aac L ev \<Longrightarrow> mute (fst (chan_step (audio_hooks L) s ev))"
proof (induction L ev rule: keeps_aac.induct)
  case (2 L e p)
  then show ?case
    using mute_frame [of s] by (auto simp: chan_step_def on_aa_frame_def audio_hooks_def eff_ok_def split: sum.splits)
qed (use mute_life mute_loaded mute_stop in \<open>auto simp: chan_step_def audio_hooks_def on_aa_channel_open_def on_aa_channel_close_def eff_ok_def
      base_config_changed_def\<close>)

lemma mute_run: "mute s \<Longrightarrow> list_all (keeps_aac L) es \<Longrightarrow> mute (fst (run_events (chan_step (audio_hooks L)) s es))"
  by (induction es arbitrary: s) (simp_all add: Let_def mute_step)

text \<open>The entry of the media channel in the default response, as the module finds it in its bytes.\<close>

definition default_media_entry :: payload where
  "default_media_entry = channel_entry audio_configs_of (p_msgs default_message ''channels'' ! 3)"

lemma default_media_entry:
  "default_media_entry =
     [(''channel_id'', PInt 4), (''av_channel'', PDict [(''av_type'', PInt 4), (''audio_type'', PInt 3),
        (''audio_configs'', PList [PDict [(''sample_rate'', PInt 48000), (''bit_depth'', PInt 16), (''channel_count'', PInt 2),
           (''codec'', PStr [])]])])]"
  by code_simp

lemma default_media_init:
  assumes "ch_sdr s = Some default_media_entry"
  shows "\<exists>s'. audio_init e s = eff_ok s' [] \<and> \<not> au_ctx s' \<and> au_codec s' = CODEC_PCM \<and> piped s' = [] \<and> ch_id s' = ch_id s \<and>
    ch_config s' = ch_config s"
proof -
  have "read_audio_config s = Inr (s\<lparr>au_type := PInt 3, au_rate := 48000, au_depth := 16, au_channels := 2, au_codec := CODEC_PCM\<rparr>)"
    using assms by (simp add: read_audio_config_def default_media_entry dget_or_def dget_def as_dict_def sdr_number_def)
  then show ?thesis
    by (simp add: audio_init_def eff_ok_def open_stream_def open_av_codec_def close_av_codec_def close_stream_def set_threshold_def
        codecs piped_def Let_def split: option.split)
qed

text \<open>The music of the default configuration is never heard: the descriptor the module is started with names
  no codec, so it initialises for PCM without opening a decoder; the phone then negotiates AAC, and from
  there on nothing is ever written to the playback process, whatever arrives.\<close>

theorem default_media_channel_silent:
  assumes "ch_sdr s = Some default_media_entry" and "av_parse_setup L body = Inr codec" "codec \<in> set AAC_CODECS"
    and "list_all (keeps_aac L) es"
  shows "piped (fst (run_events (chan_step (audio_hooks L)) (eff_state (audio_init e s))
     (ChannelOpen e [(''channel_id'', PInt (ch_id s))] # frame_of cid (e, AV_SETUP_REQUEST, enc, body) # es))) = []"
proof -
  obtain s' where s': "audio_init e s = eff_ok s' []" "\<not> au_ctx s'" "au_codec s' = CODEC_PCM" "piped s' = []" "ch_id s' = ch_id s"
    using default_media_init [OF assms(1)] by blast
  let ?s1 = "fst (snd (audio_set_state ''IDLE'' (s'\<lparr>ch_open := True\<rparr>)))"
  have o: "chan_step (audio_hooks L) s' (ChannelOpen e [(''channel_id'', PInt (ch_id s))]) = snd (audio_set_state ''IDLE'' (s'\<lparr>ch_open := True\<rparr>))"
    using s'(5) by (simp add: chan_step_def audio_hooks_def on_aa_channel_open_def audio_channel_open_def dget_def dget_or_def)
  have "ch_open ?s1" by (simp add: audio_set_state_def eff_ok_def)
  then have f: "chan_step (audio_hooks L) ?s1 (frame_of cid (e, AV_SETUP_REQUEST, enc, body)) = snd (audio_setup_request L body ?s1)"
    by (simp add: frame_step audio_hooks_def audio_on_frame_def)
  have "mute (fst (snd (audio_setup_request L body ?s1)))"
    using s'(2,4) assms(2,3)
    by (cases "av_setup L (dget_or (ch_config ?s1) ''max_unacked'' (PInt 1))")
      (auto simp: audio_setup_request_def Let_def audio_set_state_def eff_ok_def mute_def piped_def)
  from mute_run [OF this assms(4)] show ?thesis using s'(1) by (simp add: eff_state_def eff_ok_def Let_def o f mute_def)
qed

theorem default_media_channel_silent_witness:
  "piped (fst (run_events (chan_step (audio_hooks demo_av)) (eff_state (audio_init quiet_env (new_audio ''channel_audio_4'' 4 (Some default_media_entry))))
     (ChannelOpen quiet_env [(''channel_id'', PInt 4)] # frame_of 4 (quiet_env, AV_SETUP_REQUEST, True, [8, 4]) #
      map (frame_of 4) demo_media))) = []"
  using default_media_channel_silent [of "new_audio ''channel_audio_4'' 4 (Some default_media_entry)" demo_av "[8, 4]" 4 "map (frame_of 4) demo_media"
      quiet_env 4 True]
  by (simp add: new_audio_def new_chan_def chan.defs demo_av_def codecs demo_media_def frame_of_def av_ids)

end
