(* ===== verification/AvInputChannel.thy ===== *)
theory AvInputChannel
  imports ProtoUtils AudioChannel
begin

text \<open>
  \<^verbatim>\<open>v2/modules/channel_modules/av_input/main.py\<close>: the microphone. A reader thread fills a queue from a
  \<^verbatim>\<open>pacat --record\<close> process, the handlers of the bus empty it. The thread's steps are calls of their own,
  taken between the handlers: a chunk read, or the end of the process's output. A reader that was told to
  stop ends within the two seconds it is given; the thread that only logs \<^verbatim>\<open>stderr\<close> is left out.
\<close>

section \<open>State\<close>

definition MAX_RETRIES :: nat where "MAX_RETRIES = 3"

record mic = chan +
  mi_state :: string
  mi_capturing :: bool
  mi_max :: pyval
  mi_rate :: int
  mi_depth :: int
  mi_channels :: int
  mi_pacat_ok :: bool
  mi_proc :: "string list option"
  mi_source :: "string option"
  mi_stop :: bool
  mi_queue :: "(int \<times> bytes) list"
  mi_thread :: "nat option"
  mi_alive :: bool

text \<open>What the system answers during a call.\<close>

record mic_env =
  pacat_there :: bool
  record_spawns :: bool

record mic_lib =
  mi_open_ok :: bytes
  mi_setup :: "pyval \<Rightarrow> bytes res"
  mi_parse_open :: "bytes \<Rightarrow> (bool \<times> int option) res"
  mi_input_open_ok :: bytes

definition mic_schema :: schema where
  "mic_schema = [(''max_unacked'', field_int 1 (PInt 1) (PInt 16))]"

definition new_mic :: "string \<Rightarrow> int \<Rightarrow> payload option \<Rightarrow> mic" where
  "new_mic name cid sdr = chan.extend (new_chan name cid 1 sdr mic_schema)
     \<lparr>mi_state = ''IDLE'', mi_capturing = False, mi_max = PInt 1, mi_rate = 48000, mi_depth = 16, mi_channels = 1,
      mi_pacat_ok = False, mi_proc = None, mi_source = None, mi_stop = False, mi_queue = [], mi_thread = None, mi_alive = False\<rparr>"

definition mic_set_state :: "string \<Rightarrow> mic \<Rightarrow> mic effect" where
  "mic_set_state new s =
     (if mi_state s = new then eff_ok s []
      else eff_ok (s\<lparr>mi_state := new\<rparr>) [(''av_input.state'', [(''channel_id'', PInt (ch_id s)), (''state'', PStr new)])])"

definition mic_started :: "mic \<Rightarrow> busmsg" where
  "mic_started s = (''av_input.mic_started'', [(''channel_id'', PInt (ch_id s))])"

definition mic_stopped :: "mic \<Rightarrow> busmsg" where
  "mic_stopped s = (''av_input.mic_stopped'', [(''channel_id'', PInt (ch_id s))])"

section \<open>The stream\<close>

text \<open>\<open>self\<close>: the call is made by the reader thread itself, which cannot join itself.\<close>

definition stop_stream :: "bool \<Rightarrow> bool \<Rightarrow> mic \<Rightarrow> mic effect" where
  "stop_stream self publish s =
     (let s = s\<lparr>mi_stop := True, mi_proc := None\<rparr> in
      if mi_thread s \<noteq> None \<and> self then (Some RuntimeError, s, [])
      else (let s = (if mi_thread s \<noteq> None then s\<lparr>mi_thread := None, mi_alive := False\<rparr> else s)\<lparr>mi_queue := []\<rparr> in
        if mi_capturing s then
          eff_then (mic_set_state ''STOPPED'' (s\<lparr>mi_capturing := False\<rparr>))
            (\<lambda>s. eff_ok s (if publish then [mic_stopped s] else []))
        else eff_ok s []))"

definition record_cmd :: "mic \<Rightarrow> string list" where
  "record_cmd s =
     [''pacat'', ''--record'', ''--format='' @ pacat_fmt (mi_depth s), ''--channels='' @ str_of_int (mi_channels s),
      ''--rate='' @ str_of_int (mi_rate s)]
     @ (case mi_source s of Some d \<Rightarrow> (if d \<noteq> [] \<and> d \<noteq> ''default'' then [''--device='' @ d] else []) | None \<Rightarrow> [])"

definition start_stream :: "bool \<Rightarrow> mic_env \<Rightarrow> nat \<Rightarrow> mic \<Rightarrow> mic effect" where
  "start_stream self e retry s =
     eff_then (stop_stream self False s) (\<lambda>s.
       let s = s\<lparr>mi_stop := False\<rparr> in
       if \<not> record_spawns e then eff_ok (s\<lparr>mi_proc := None, mi_capturing := False\<rparr>) []
       else eff_then (mic_set_state ''PLAYING'' (s\<lparr>mi_proc := Some (record_cmd s), mi_capturing := True\<rparr>)) (\<lambda>s.
              eff_ok (s\<lparr>mi_thread := Some retry, mi_alive := True\<rparr>) [mic_started s]))"

section \<open>The reader thread\<close>

definition reader_chunk :: "int \<Rightarrow> bytes \<Rightarrow> mic \<Rightarrow> mic effect" where
  "reader_chunk ts_us chunk s =
     (if mi_alive s \<and> \<not> mi_stop s \<and> chunk \<noteq> [] then eff_ok (s\<lparr>mi_queue := mi_queue s @ [(ts_us, chunk)]\<rparr>) [] else eff_ok s [])"

text \<open>The end of the output: a retry runs \<open>start_stream\<close> on the thread, whose end follows in every case.\<close>

definition reader_eof :: "mic_env \<Rightarrow> mic \<Rightarrow> mic effect" where
  "reader_eof e s =
     (case mi_thread s of
        Some retry \<Rightarrow>
          (if \<not> mi_alive s then eff_ok s []
           else if mi_stop s then eff_ok (s\<lparr>mi_alive := False\<rparr>) []
           else if retry < MAX_RETRIES then start_stream True e (retry + 1) (s\<lparr>mi_alive := False\<rparr>)
           else eff_then (mic_set_state ''STOPPED'' (s\<lparr>mi_alive := False, mi_capturing := False\<rparr>)) (\<lambda>s. eff_ok s [mic_stopped s]))
      | None \<Rightarrow> eff_ok s [])"

section \<open>Handlers\<close>

definition read_mic_config :: "mic \<Rightarrow> mic res" where
  "read_mic_config s =
     (case ch_sdr s of
        None \<Rightarrow> Inr s
      | Some cfg \<Rightarrow>
          rbind (as_dict (dget_or cfg ''av_input_channel'' (PDict []))) (\<lambda>av_input.
            if \<not> truthy (dget_or av_input ''audio_config'' (PDict [])) then Inr s
            else rbind (as_dict (dget_or av_input ''audio_config'' (PDict []))) (\<lambda>audio_cfg.
                 rbind (sdr_number audio_cfg ''sample_rate'' 48000) (\<lambda>rate.
                 rbind (sdr_number audio_cfg ''bit_depth'' 16) (\<lambda>depth.
                 rbind (sdr_number audio_cfg ''channel_count'' 1) (\<lambda>channels.
                   Inr (s\<lparr>mi_rate := rate, mi_depth := depth, mi_channels := channels\<rparr>)))))))"

definition mic_init :: "mic_env \<Rightarrow> mic \<Rightarrow> mic effect" where
  "mic_init e s =
     (if \<not> pacat_there e then eff_ok (s\<lparr>mi_pacat_ok := False\<rparr>) []
      else (let s = s\<lparr>mi_pacat_ok := True\<rparr> in eff_res s (read_mic_config s) (\<lambda>s. eff_ok s [])))"

definition mic_cleanup :: "mic \<Rightarrow> mic effect" where
  "mic_cleanup s = eff_then (stop_stream False False s) (mic_set_state ''IDLE'')"

definition mic_config_changed :: "string \<Rightarrow> pyval \<Rightarrow> mic \<Rightarrow> mic effect" where
  "mic_config_changed k v s =
     (let s = base_config_changed k v s in
      if k = ''max_unacked'' then eff_res s (py_int v) (\<lambda>i. eff_ok (s\<lparr>mi_max := PInt i\<rparr>) []) else eff_ok s [])"

definition on_audio_source_selected :: "mic_env \<Rightarrow> payload \<Rightarrow> mic \<Rightarrow> mic effect" where
  "on_audio_source_selected e p s =
     (let source = (case dget_or p ''source'' (PStr ''default'') of PStr d \<Rightarrow> (if d = ''default'' then None else Some d) | _ \<Rightarrow> None) in
      if source = mi_source s then eff_ok s []
      else (let s = s\<lparr>mi_source := source\<rparr> in
        if mi_capturing s then eff_then (stop_stream False False s) (start_stream False e 0) else eff_ok s []))"

definition mic_session_shutdown :: "mic \<Rightarrow> mic effect" where
  "mic_session_shutdown s = eff_then (stop_stream False True s) (mic_set_state ''IDLE'')"

definition mic_channel_open :: "mic \<Rightarrow> mic effect" where
  "mic_channel_open s = mic_set_state ''IDLE'' (s\<lparr>mi_capturing := False\<rparr>)"

definition mic_channel_close :: "mic \<Rightarrow> mic effect" where
  "mic_channel_close s = eff_then (if mi_capturing s then stop_stream False True s else eff_ok s []) (mic_set_state ''IDLE'')"

text \<open>Each chunk leaves the queue before it is packed.\<close>

fun drain :: "(int \<times> bytes) list \<Rightarrow> mic \<Rightarrow> mic effect" where
  "drain [] s = eff_ok (s\<lparr>mi_queue := []\<rparr>) []"
| "drain ((ts_us, pcm) # q) s =
     (case build_media_with_timestamp ts_us pcm of
        Inl x \<Rightarrow> (Some x, s\<lparr>mi_queue := q\<rparr>, [])
      | Inr media \<Rightarrow> eff_then (eff_ok s [send_frame s AV_MEDIA_WITH_TIMESTAMP media]) (drain q))"

definition drain_send_queue :: "mic \<Rightarrow> mic effect" where
  "drain_send_queue s = drain (mi_queue s) s"

definition mic_setup_request :: "mic_lib \<Rightarrow> mic \<Rightarrow> mic effect" where
  "mic_setup_request L s =
     (let max_unacked = dget_or (ch_config s) ''max_unacked'' (PInt 1); s = s\<lparr>mi_max := max_unacked\<rparr> in
      eff_res s (mi_setup L max_unacked) (\<lambda>resp.
        eff_then (eff_ok s [send_frame s AV_SETUP_RESPONSE resp]) (mic_set_state ''SETUP'')))"

definition mic_open_request :: "mic_lib \<Rightarrow> mic \<Rightarrow> mic effect" where
  "mic_open_request L s = eff_then (eff_ok s [send_frame s AV_OPEN_RESPONSE (mi_open_ok L)]) (mic_set_state ''OPEN'')"

definition mic_input_open_request :: "mic_lib \<Rightarrow> mic_env \<Rightarrow> bytes \<Rightarrow> mic \<Rightarrow> mic effect" where
  "mic_input_open_request L e body s =
     (case mi_parse_open L body of
        Inl x \<Rightarrow> eff_ok s []
      | Inr (opened, max_unacked) \<Rightarrow>
          (let s = (case max_unacked of None \<Rightarrow> s | Some m \<Rightarrow> s\<lparr>mi_max := PInt m\<rparr>) in
           eff_then (eff_ok s [send_frame s AV_INPUT_OPEN_RESPONSE (mi_input_open_ok L)])
             (if opened then start_stream False e 0 else stop_stream False True)))"

definition mic_on_frame :: "mic_lib \<Rightarrow> mic_env \<Rightarrow> int \<Rightarrow> bytes \<Rightarrow> mic \<Rightarrow> mic effect" where
  "mic_on_frame L e mid data s =
     eff_then (drain_send_queue s) (\<lambda>s.
       if mid = AV_SETUP_REQUEST then mic_setup_request L s
       else if mid = AV_OPEN_REQUEST then mic_open_request L s
       else if mid = AV_INPUT_OPEN_REQUEST then mic_input_open_request L e data s
       else eff_ok s [])"

section \<open>The module\<close>

datatype mic_topic = MicShutdown | SourceSelected payload | ReaderChunk int bytes | ReaderEof

fun mic_own :: "mic_env \<Rightarrow> mic_topic \<Rightarrow> mic \<Rightarrow> mic effect" where
  "mic_own e MicShutdown s = mic_session_shutdown s"
| "mic_own e (SourceSelected p) s = on_audio_source_selected e p s"
| "mic_own e (ReaderChunk ts chunk) s = reader_chunk ts chunk s"
| "mic_own e ReaderEof s = reader_eof e s"

definition mic_hooks :: "mic_lib \<Rightarrow> (mic_env, mic_topic, mic) hooks" where
  "mic_hooks L =
     \<lparr>h_init = mic_init, h_cleanup = (\<lambda>_. mic_cleanup), h_is_ready = mi_pacat_ok,
      h_on_open = (\<lambda>_. mic_channel_open), h_on_close = (\<lambda>_. mic_channel_close),
      h_on_frame = (\<lambda>e mid enc data. mic_on_frame L e mid data),
      h_loaded = (\<lambda>_ c. base_config_loaded mi_pacat_ok c),
      h_changed = (\<lambda>_. mic_config_changed), h_own = mic_own\<rparr>"

section \<open>The base class's fields stay\<close>

lemma hook_mic_state: "same_base s s' \<Longrightarrow> hook_ok s (mic_set_state new s')"
  by (simp add: mic_set_state_def hook_ok_def eff_ok_def same_base_def readies_def)

lemma hook_nothing: "same_base s s' \<Longrightarrow> hook_ok s (eff_ok s' [])"
  by (simp add: hook_eff_ok readies_def)

lemma readies_mic [simp]: "readies [mic_stopped s] = []" "readies [mic_started s] = []"
  by (simp_all add: readies_def mic_stopped_def mic_started_def)

lemma hook_shift: "same_base s s' \<Longrightarrow> hook_ok s' a \<Longrightarrow> hook_ok s a"
  by (auto simp: hook_ok_def intro: same_base_trans)

lemma hook_stop: "hook_ok s (stop_stream self publish s)"
  by (auto simp: stop_stream_def Let_def mic_set_state_def eff_ok_def hook_ok_def same_base_def readies_def mic_stopped_def)

lemma hook_start: "hook_ok s (start_stream self e retry s)"
  unfolding start_stream_def
  by (rule hook_then, rule hook_stop)
    (auto simp: Let_def mic_set_state_def eff_ok_def hook_ok_def same_base_def readies_def mic_started_def)

lemma hook_mic_own: "hook_ok s (mic_own e x s)"
proof (cases x)
  case ReaderEof
  have "hook_ok s (start_stream True e n (s\<lparr>mi_alive := False\<rparr>))" for n
    by (rule hook_shift [OF _ hook_start]) (simp add: same_base_def)
  then show ?thesis
    using ReaderEof
    by (auto simp: reader_eof_def mic_set_state_def eff_ok_def hook_ok_def same_base_def readies_def mic_stopped_def split: option.split)
next
  case (SourceSelected p)
  have "hook_ok s (eff_then (stop_stream False False (s\<lparr>mi_source := d\<rparr>)) (start_stream False e 0))" for d
    by (rule hook_then [OF hook_shift [OF _ hook_stop] hook_start]) (simp add: same_base_def)
  then show ?thesis using SourceSelected by (simp add: on_audio_source_selected_def Let_def hook_nothing same_base_def)
qed (auto simp: mic_session_shutdown_def reader_chunk_def same_base_def intro!: hook_then hook_stop hook_mic_state hook_nothing simp del: eff_simps)

lemma hook_drain: "hook_ok s (drain q s)"
proof (induction q s rule: drain.induct)
  case (2 ts pcm q s)
  then show ?case
    by (cases "build_media_with_timestamp ts pcm") (auto simp: same_base_def readies_def intro!: hook_raise hook_then hook_send simp del: eff_simps)
qed (simp add: hook_nothing same_base_def)

lemma hook_mic_input_open: "hook_ok s (mic_input_open_request L e body s)"
proof (cases "mi_parse_open L body")
  case (Inr r)
  obtain opened m where r: "r = (opened, m)" by (cases r)
  let ?s = "case m of None \<Rightarrow> s | Some k \<Rightarrow> s\<lparr>mi_max := PInt k\<rparr>"
  have "same_base s ?s" by (simp add: same_base_def split: option.split)
  moreover have "hook_ok ?s (eff_then (eff_ok ?s [send_frame ?s AV_INPUT_OPEN_RESPONSE (mi_input_open_ok L)])
      (if opened then start_stream False e 0 else stop_stream False True))"
    by (rule hook_then [OF hook_send]) (simp_all add: hook_start hook_stop)
  ultimately show ?thesis unfolding mic_input_open_request_def Inr r by (simp add: Let_def hook_shift del: eff_simps)
qed (simp add: mic_input_open_request_def hook_nothing)

lemma hook_mic_setup: "hook_ok s (mic_setup_request L s)"
  by (cases "mi_setup L (dget_or (ch_config s) ''max_unacked'' (PInt 1))")
    (simp_all add: mic_setup_request_def Let_def mic_set_state_def eff_ok_def hook_ok_def readies_def send_frame_def same_base_def)

lemma hook_mic_frame: "hook_ok s (mic_on_frame L e mid data s)"
  unfolding mic_on_frame_def drain_send_queue_def
  by (rule hook_then [OF hook_drain])
    (auto simp: mic_open_request_def hook_mic_setup hook_mic_input_open hook_nothing intro!: hook_then hook_send hook_mic_state simp del: eff_simps)

lemma mic_base_read: "read_mic_config s = Inr s' \<Longrightarrow> same_base s s'"
  by (auto simp: read_mic_config_def rbind_Inr_iff same_base_def split: option.splits if_splits)

lemma hook_mic_init: "hook_ok s (mic_init e s)"
proof (cases "read_mic_config (s\<lparr>mi_pacat_ok := True\<rparr>)")
  case (Inr s')
  then show ?thesis using mic_base_read [OF Inr] by (simp add: mic_init_def Let_def hook_ok_def eff_ok_def same_base_def readies_def)
qed (simp add: mic_init_def Let_def hook_ok_def eff_ok_def same_base_def readies_def)

lemma hook_mic_changed: "hook_ok s (mic_config_changed k v s)"
  by (cases "py_int v") (auto simp: mic_config_changed_def Let_def base_config_changed_def same_base_def
      hook_ok_def eff_ok_def)

interpretation mic_mod: channel_module "mic_hooks L" for L
proof unfold_locales
  fix e s c
  show "gate_step s (snd (h_loaded (mic_hooks L) e c s))"
    by (simp add: mic_hooks_def gate_base_loaded)
qed (auto simp: mic_hooks_def mic_cleanup_def mic_channel_open_def mic_channel_close_def same_base_def
    intro!: hook_mic_init hook_mic_state hook_gate hook_mic_own hook_mic_frame hook_mic_changed hook_then hook_stop hook_nothing simp del: eff_simps)

section \<open>Properties\<close>

lemma sent_not_frame: "list_all (\<lambda>m. fst m \<noteq> ''aa.frame.send'') ms \<Longrightarrow> sent k ms = []"
  by (induction ms) auto

lemma chunk_step:
  "mi_alive s \<Longrightarrow> \<not> mi_stop s \<Longrightarrow> c \<noteq> [] \<Longrightarrow>
   chan_step (mic_hooks L) s (Own e (ReaderChunk ts c)) = (s\<lparr>mi_queue := mi_queue s @ [(ts, c)]\<rparr>, [])"
  by (simp add: chan_step_def mic_hooks_def reader_chunk_def eff_ok_def)

definition chunk_ok :: "int \<times> bytes \<Rightarrow> bool" where
  "chunk_ok f = (case f of (ts, c) \<Rightarrow> 0 \<le> ts \<and> ts < 2 ^ 64 \<and> c \<noteq> [])"

lemma chunk_run:
  "mi_alive s \<Longrightarrow> \<not> mi_stop s \<Longrightarrow> list_all chunk_ok cs \<Longrightarrow>
   run_events (chan_step (mic_hooks L)) s (map (\<lambda>(ts, c). Own e (ReaderChunk ts c)) cs) = (s\<lparr>mi_queue := mi_queue s @ cs\<rparr>, [])"
proof (induction cs arbitrary: s)
  case (Cons f cs)
  obtain ts c where f: "f = (ts, c)" by (cases f)
  then show ?case using Cons.prems Cons.IH [of "s\<lparr>mi_queue := mi_queue s @ [(ts, c)]\<rparr>"] chunk_step [of s c L e ts] by (simp add: chunk_ok_def Let_def)
qed simp

lemma drain_sends:
  "list_all chunk_ok q \<Longrightarrow>
   drain q s = eff_ok (s\<lparr>mi_queue := []\<rparr>) (map (\<lambda>(ts, c). send_frame s AV_MEDIA_WITH_TIMESTAMP (be_bytes 8 ts @ c)) q)"
proof (induction q)
  case (Cons f q)
  obtain ts c where f: "f = (ts, c)" by (cases f)
  with Cons show ?case by (simp add: build_media_with_timestamp_def chunk_ok_def pack_be_def eff_ok_def)
qed simp

lemma sent_other:
  "sent AV_MEDIA_WITH_TIMESTAMP (snd (snd (mic_set_state n s))) = []"
  "sent AV_MEDIA_WITH_TIMESTAMP (snd (snd (stop_stream self p s))) = []"
  "sent AV_MEDIA_WITH_TIMESTAMP (snd (snd (start_stream self e r s))) = []"
  by (auto simp: mic_set_state_def stop_stream_def start_stream_def Let_def eff_ok_def eff_then_def mic_stopped_def mic_started_def
      split: option.splits)

lemma ids: "AV_OPEN_RESPONSE = AV_MEDIA_WITH_TIMESTAMP \<longleftrightarrow> False" "AV_INPUT_OPEN_RESPONSE = AV_MEDIA_WITH_TIMESTAMP \<longleftrightarrow> False"
  by (simp_all add: av_ids)

lemma sent_answers:
  "sent AV_MEDIA_WITH_TIMESTAMP (snd (snd (mic_setup_request L s))) = []"
  "sent AV_MEDIA_WITH_TIMESTAMP (snd (snd (mic_open_request L s))) = []"
  "sent AV_MEDIA_WITH_TIMESTAMP (snd (snd (mic_input_open_request L e body s))) = []"
proof -
  have t: "sent AV_MEDIA_WITH_TIMESTAMP (snd (snd (eff_then (eff_ok s' [send_frame s' k b]) f))) = []"
    if "k \<noteq> AV_MEDIA_WITH_TIMESTAMP" "\<And>s'. sent AV_MEDIA_WITH_TIMESTAMP (snd (snd (f s'))) = []" for k b f and s' :: mic
    using that(1) that(2) [of s'] by (cases "f s'") simp
  show "sent AV_MEDIA_WITH_TIMESTAMP (snd (snd (mic_setup_request L s))) = []"
    by (cases "mi_setup L (dget_or (ch_config s) ''max_unacked'' (PInt 1))")
      (simp_all add: mic_setup_request_def Let_def mic_set_state_def eff_ok_def av_ids)
  show "sent AV_MEDIA_WITH_TIMESTAMP (snd (snd (mic_open_request L s))) = []"
    unfolding mic_open_request_def by (rule t) (simp_all only: ids sent_other not_False_eq_True)
  show "sent AV_MEDIA_WITH_TIMESTAMP (snd (snd (mic_input_open_request L e body s))) = []"
    unfolding mic_input_open_request_def
    by (auto simp: Let_def ids sent_other intro!: t simp del: eff_simps split: sum.split prod.split) (simp add: eff_ok_def)
qed

text \<open>The microphone only talks when spoken to: while the phone sends no frame nothing of what is recorded
  goes out, however much it is; the next frame, whatever it is, sends every recorded chunk, once and in
  order, behind its timestamp.\<close>

theorem mic_sent_only_on_frames:
  assumes "ch_open s" "mi_alive s" "\<not> mi_stop s" "list_all chunk_ok (mi_queue s)" "list_all chunk_ok cs"
    and "r = run_events (chan_step (mic_hooks L)) s (map (\<lambda>(ts, c). Own e (ReaderChunk ts c)) cs)"
  shows "snd r = [] \<and>
    sent AV_MEDIA_WITH_TIMESTAMP (snd (chan_step (mic_hooks L) (fst r) (frame_of cid (e', mid, enc, body)))) =
      map (\<lambda>(ts, c). send_frame s AV_MEDIA_WITH_TIMESTAMP (be_bytes 8 ts @ c)) (mi_queue s @ cs)"
proof -
  let ?s = "s\<lparr>mi_queue := mi_queue s @ cs\<rparr>"
  have r: "r = (?s, [])" using chunk_run [OF assms(2,3,5)] assms(6) by simp
  have d: "drain (mi_queue ?s) ?s = eff_ok (?s\<lparr>mi_queue := []\<rparr>)
      (map (\<lambda>(ts, c). send_frame ?s AV_MEDIA_WITH_TIMESTAMP (be_bytes 8 ts @ c)) (mi_queue s @ cs))"
    using drain_sends [of "mi_queue s @ cs" ?s] assms(4,5) by simp
  have f: "send_frame ?s = send_frame s" by (simp add: fun_eq_iff send_frame_def)
  have m: "sent AV_MEDIA_WITH_TIMESTAMP (map (\<lambda>(ts, c). send_frame s AV_MEDIA_WITH_TIMESTAMP (be_bytes 8 ts @ c)) q) =
      map (\<lambda>(ts, c). send_frame s AV_MEDIA_WITH_TIMESTAMP (be_bytes 8 ts @ c)) q" for q
    by (induction q) auto
  have "chan_step (mic_hooks L) ?s (frame_of cid (e', mid, enc, body)) = snd (mic_on_frame L e' mid body ?s)"
    using assms(1) by (simp add: frame_step mic_hooks_def)
  moreover have "sent AV_MEDIA_WITH_TIMESTAMP (snd (snd (mic_on_frame L e' mid body ?s))) =
      map (\<lambda>(ts, c). send_frame s AV_MEDIA_WITH_TIMESTAMP (be_bytes 8 ts @ c)) (mi_queue s @ cs)"
    unfolding mic_on_frame_def drain_send_queue_def d
    by (subst then_ok) (auto simp: eff_ok_def sent_append f m sent_answers)
  ultimately show ?thesis using r by simp
qed

definition demo_mic :: mic where
  "demo_mic = new_mic ''channel_av_input_7'' 7 (Some [])
     \<lparr>ch_open := True, mi_state := ''PLAYING'', mi_capturing := True, mi_proc := Some [], mi_thread := Some 0, mi_alive := True\<rparr>"

definition demo_mic_lib :: mic_lib where
  "demo_mic_lib = \<lparr>mi_open_ok = [8, 0], mi_setup = (\<lambda>v. Inr [8, 2]), mi_parse_open = (\<lambda>b. Inr (True, None)), mi_input_open_ok = [8, 0, 16, 0]\<rparr>"

definition demo_mic_env :: mic_env where
  "demo_mic_env = \<lparr>pacat_there = True, record_spawns = True\<rparr>"

theorem mic_sent_only_on_frames_witness:
  "snd (run_events (chan_step (mic_hooks demo_mic_lib)) demo_mic
      (map (\<lambda>(ts, c). Own demo_mic_env (ReaderChunk ts c)) [(10, [1, 2]), (20, [3, 4])])) = [] \<and>
   sent AV_MEDIA_WITH_TIMESTAMP (snd (chan_step (mic_hooks demo_mic_lib) (fst (run_events (chan_step (mic_hooks demo_mic_lib)) demo_mic
      (map (\<lambda>(ts, c). Own demo_mic_env (ReaderChunk ts c)) [(10, [1, 2]), (20, [3, 4])]))) (frame_of 7 (demo_mic_env, AV_ACK, True, [])))) =
     [send_frame demo_mic AV_MEDIA_WITH_TIMESTAMP (be_bytes 8 10 @ [1, 2]), send_frame demo_mic AV_MEDIA_WITH_TIMESTAMP (be_bytes 8 20 @ [3, 4])]"
proof -
  have "ch_open demo_mic" "mi_alive demo_mic" "\<not> mi_stop demo_mic" "mi_queue demo_mic = []"
    by (simp_all add: demo_mic_def new_mic_def new_chan_def chan.defs)
  then show ?thesis
    using mic_sent_only_on_frames [of demo_mic "[(10, [1, 2]), (20, [3, 4])]" _ demo_mic_lib demo_mic_env 7 demo_mic_env AV_ACK True "[]", OF _ _ _ _ _ refl]
    by (simp add: chunk_ok_def)
qed

text \<open>What the thread and its process do by themselves.\<close>

fun reader_event :: "('e, mic_topic) chan_event \<Rightarrow> bool" where
  "reader_event (Own e (ReaderChunk ts c)) = True"
| "reader_event (Own e ReaderEof) = True"
| "reader_event ev = False"

lemma dead_reader:
  "\<not> mi_alive s \<Longrightarrow> list_all reader_event es \<Longrightarrow> run_events (chan_step (mic_hooks L)) s es = (s, [])"
proof (induction es)
  case (Cons ev es)
  then have "reader_event ev" by simp
  then have "chan_step (mic_hooks L) s ev = (s, [])"
    using Cons.prems(1)
    by (cases ev rule: reader_event.cases) (simp_all add: chan_step_def mic_hooks_def reader_chunk_def reader_eof_def eff_ok_def split: option.split)
  with Cons show ?case by simp
qed simp

text \<open>A recorder that dies is never restarted: the retry runs on the reader thread, whose first act is to
  join itself, so it raises before a process is spawned; whatever the operating system would have
  answered, the module goes on announcing that it is capturing, with no process, no reader and no message.\<close>

theorem mic_retry_dies:
  assumes "mi_alive s" "\<not> mi_stop s" "mi_thread s = Some retry" "retry < MAX_RETRIES" "list_all reader_event es"
  shows "reader_eof e s = (Some RuntimeError, s\<lparr>mi_alive := False, mi_stop := True, mi_proc := None\<rparr>, []) \<and>
    run_events (chan_step (mic_hooks L)) s (Own e ReaderEof # es) = (s\<lparr>mi_alive := False, mi_stop := True, mi_proc := None\<rparr>, [])"
proof -
  have eof: "reader_eof e s = (Some RuntimeError, s\<lparr>mi_alive := False, mi_stop := True, mi_proc := None\<rparr>, [])"
    using assms(1-4) by (simp add: reader_eof_def start_stream_def stop_stream_def Let_def)
  then have "chan_step (mic_hooks L) s (Own e ReaderEof) = (s\<lparr>mi_alive := False, mi_stop := True, mi_proc := None\<rparr>, [])"
    by (simp add: chan_step_def mic_hooks_def)
  with eof dead_reader [of "s\<lparr>mi_alive := False, mi_stop := True, mi_proc := None\<rparr>" es L] assms(5) show ?thesis by simp
qed

theorem mic_retry_dies_witness:
  "run_events (chan_step (mic_hooks demo_mic_lib)) demo_mic [Own demo_mic_env ReaderEof, Own demo_mic_env (ReaderChunk 5 [1])] =
   (demo_mic\<lparr>mi_alive := False, mi_stop := True, mi_proc := None\<rparr>, [])"
  using mic_retry_dies [of demo_mic 0 "[Own demo_mic_env (ReaderChunk 5 [1])]" demo_mic_env demo_mic_lib]
  by (simp add: demo_mic_def new_mic_def new_chan_def chan.defs MAX_RETRIES_def)

end
