(* ===== verification/Base64.thy ===== *)
theory Base64
  imports Prelude
begin

text \<open>
  \<^verbatim>\<open>base64.b64encode\<close> of the standard library, which the video channel puts frames on the bus with, and
  \<^verbatim>\<open>base64.b64decode\<close> on its output, which the viewer takes them off with.
\<close>

definition b64_alphabet :: string where
  "b64_alphabet = ''ABCDEFGHIJKLMNOPQRSTUVWXYZabcdefghijklmnopqrstuvwxyz0123456789+/''"

definition b64_char :: "nat \<Rightarrow> char" where
  "b64_char i = b64_alphabet ! i"

definition b64_digit :: "char \<Rightarrow> nat option" where
  "b64_digit c = (let i = length (takeWhile (\<lambda>d. d \<noteq> c) b64_alphabet) in if i < 64 then Some i else None)"

text \<open>Three bytes are four digits; one or two left-over bytes are padded.\<close>

fun b64encode :: "bytes \<Rightarrow> string" where
  "b64encode (a # b # c # bs) =
     (let n = unat a * 65536 + unat b * 256 + unat c in
      [b64_char (n div 262144), b64_char (n div 4096 mod 64), b64_char (n div 64 mod 64), b64_char (n mod 64)] @ b64encode bs)"
| "b64encode [a, b] =
     (let n = unat a * 65536 + unat b * 256 in
      [b64_char (n div 262144), b64_char (n div 4096 mod 64), b64_char (n div 64 mod 64), CHR ''=''])"
| "b64encode [a] =
     (let n = unat a * 65536 in [b64_char (n div 262144), b64_char (n div 4096 mod 64), CHR ''='', CHR ''=''])"
| "b64encode [] = []"

fun b64decode :: "string \<Rightarrow> bytes option" where
  "b64decode [] = Some []"
| "b64decode (w # x # y # z # cs) =
     (case (b64_digit w, b64_digit x) of
        (Some i, Some j) \<Rightarrow>
          (if z = CHR ''='' \<and> y = CHR ''='' then (if cs = [] then Some [word_of_nat ((i * 64 + j) div 16)] else None)
           else (case b64_digit y of
                   None \<Rightarrow> None
                 | Some k \<Rightarrow>
                     (if z = CHR ''='' then
                        (if cs = [] then (let n = (i * 64 + j) * 64 + k in Some [word_of_nat (n div 1024), word_of_nat (n div 4)]) else None)
                      else (case b64_digit z of
                              None \<Rightarrow> None
                            | Some l \<Rightarrow>
                                (let n = ((i * 64 + j) * 64 + k) * 64 + l in
                                 map_option (\<lambda>bs. word_of_nat (n div 65536) # word_of_nat (n div 256) # word_of_nat n # bs) (b64decode cs))))))
      | _ \<Rightarrow> None)"
| "b64decode cs = None"

lemma b64_digits: "list_all (\<lambda>i. b64_digit (b64_char i) = Some i \<and> b64_char i \<noteq> CHR ''='') [0..<64]"
  by code_simp

lemma b64_digit_char [simp]: "i < 64 \<Longrightarrow> b64_digit (b64_char i) = Some i" "i < 64 \<Longrightarrow> b64_char i \<noteq> CHR ''=''"
  using b64_digits by (simp_all add: list_all_iff)

text \<open>Splitting a number of three bytes into digits and putting them together.\<close>

lemma join_two: "n div 262144 * 64 + n div 4096 mod 64 = (n :: nat) div 4096"
  using div_mult_mod_eq [of "n div 4096" 64] by (simp add: div_mult2_eq [symmetric])

lemma join_three: "(n div 262144 * 64 + n div 4096 mod 64) * 64 + n div 64 mod 64 = (n :: nat) div 64"
  unfolding join_two using div_mult_mod_eq [of "n div 64" 64] by (simp add: div_mult2_eq [symmetric])

lemma join_digits: "((n div 262144 * 64 + n div 4096 mod 64) * 64 + n div 64 mod 64) * 64 + n mod 64 = (n :: nat)"
  unfolding join_three by simp

lemma byte_mod: "m mod 256 = unat a \<Longrightarrow> (word_of_nat m :: byte) = a"
proof -
  assume "m mod 256 = unat a"
  then have "(word_of_nat m :: byte) = word_of_nat (unat a)"
    using unat_byte_lt [of a] by (simp only: word_of_nat_eq_iff) (simp add: take_bit_eq_mod)
  then show ?thesis by simp
qed

lemma b64_group3:
  "n < 16777216 \<Longrightarrow>
   b64decode (b64_char (n div 262144) # b64_char (n div 4096 mod 64) # b64_char (n div 64 mod 64) # b64_char (n mod 64) # cs) =
   map_option (\<lambda>bs. word_of_nat (n div 65536) # word_of_nat (n div 256) # word_of_nat n # bs) (b64decode cs)"
  using join_digits [of n] by (simp add: Let_def)

lemma b64_group2:
  "n < 16777216 \<Longrightarrow> n mod 256 = 0 \<Longrightarrow>
   b64decode [b64_char (n div 262144), b64_char (n div 4096 mod 64), b64_char (n div 64 mod 64), CHR ''=''] =
   Some [word_of_nat (n div 65536), word_of_nat (n div 256)]"
proof -
  assume n: "n < 16777216" "n mod 256 = 0"
  then show ?thesis using join_three [of n] by (simp add: Let_def div_mult2_eq [symmetric])
qed

lemma b64_group1:
  "n < 16777216 \<Longrightarrow>
   b64decode [b64_char (n div 262144), b64_char (n div 4096 mod 64), CHR ''='', CHR ''=''] = Some [word_of_nat (n div 65536)]"
proof -
  assume n: "n < 16777216"
  then show ?thesis using join_two [of n] by (simp add: div_mult2_eq [symmetric])
qed

lemma b64_roundtrip: "b64decode (b64encode bs) = Some bs"
proof (induction bs rule: b64encode.induct)
  case (1 a b c bs)
  let ?n = "unat a * 65536 + unat b * 256 + unat c"
  have lt: "?n < 16777216" using unat_byte_lt [of a] unat_byte_lt [of b] unat_byte_lt [of c] by simp
  have m: "?n div 65536 = unat a" "?n div 256 = unat b + 256 * unat a" "?n = unat c + 256 * (unat b + 256 * unat a)"
    using unat_byte_lt [of b] unat_byte_lt [of c] by simp_all
  have "?n div 65536 mod 256 = unat a" unfolding m(1) using unat_byte_lt [of a] by simp
  moreover have "?n div 256 mod 256 = unat b" unfolding m(2) using unat_byte_lt [of b] by simp
  moreover have "(unat c + 256 * k) mod 256 = unat c" for k using unat_byte_lt [of c] by simp
  then have "?n mod 256 = unat c" unfolding m(3) by this
  ultimately have w: "word_of_nat (?n div 65536) = a" "word_of_nat (?n div 256) = b" "word_of_nat ?n = c"
    by (simp_all only: byte_mod)
  then show ?case by (simp only: b64encode.simps Let_def append.simps b64_group3 [OF lt] 1 option.map w)
next
  case (2 a b)
  let ?n = "unat a * 65536 + unat b * 256"
  have lt: "?n < 16777216" "?n mod 256 = 0" using unat_byte_lt [of a] unat_byte_lt [of b] by simp_all
  have w: "word_of_nat (?n div 65536) = a" "word_of_nat (?n div 256) = b"
    by (rule byte_mod; use unat_byte_lt [of a] unat_byte_lt [of b] in simp)+
  then show ?case by (simp only: b64encode.simps Let_def b64_group2 [OF lt] w)
next
  case (3 a)
  let ?n = "unat a * 65536"
  have lt: "?n < 16777216" using unat_byte_lt [of a] by simp
  have w: "word_of_nat (?n div 65536) = a" by (rule byte_mod; use unat_byte_lt [of a] in simp)
  then show ?case by (simp only: b64encode.simps Let_def b64_group1 [OF lt] w)
qed simp

section \<open>Any input\<close>

text \<open>\<^verbatim>\<open>base64.b64decode(s)\<close> does not validate: characters outside of the alphabet are skipped, and padding that completes a group ends
  the input. The state is the place in the group, the bits left over and the number of pads; \<open>None\<close> is \<^verbatim>\<open>binascii.Error\<close>.\<close>

fun b64scan :: "nat \<Rightarrow> nat \<Rightarrow> nat \<Rightarrow> string \<Rightarrow> bytes option" where
  "b64scan quad left pads [] = (if quad = 0 then Some [] else None)"
| "b64scan quad left pads (c # cs) =
     (if c = CHR ''='' then
        (if 2 \<le> quad \<and> 4 \<le> quad + Suc pads then Some [] else b64scan quad left (if 2 \<le> quad then Suc pads else pads) cs)
      else (case b64_digit c of
          None \<Rightarrow> b64scan quad left pads cs
        | Some d \<Rightarrow>
            (if quad = 0 then b64scan 1 d 0 cs
             else if quad = 1 then map_option ((#) (word_of_nat (left * 4 + d div 16))) (b64scan 2 (d mod 16) 0 cs)
             else if quad = 2 then map_option ((#) (word_of_nat (left * 16 + d div 4))) (b64scan 3 (d mod 4) 0 cs)
             else map_option ((#) (word_of_nat (left * 64 + d))) (b64scan 0 0 0 cs))))"

definition py_b64decode :: "string \<Rightarrow> bytes option" where
  "py_b64decode s = b64scan 0 0 0 s"

lemma b64_digit_pad: "b64_digit (CHR ''='') = None"
  by code_simp

lemma b64_digit_lt: "b64_digit c = Some i \<Longrightarrow> i < 64 \<and> c \<noteq> CHR ''=''"
  using b64_digit_pad by (auto simp: b64_digit_def Let_def split: if_splits)

lemma low_byte: "m mod 256 = m' mod 256 \<Longrightarrow> (word_of_nat m :: byte) = word_of_nat m'"
  by (simp add: word_of_nat_eq_iff take_bit_eq_mod)

lemma join_parts_of: fixes i j k l a b c d :: nat
  assumes "j = a * 16 + b" "k = c * 4 + d"
  shows
  "(i * 64 + j) * 64 + k = (i * 4 + a) * 1024 + (b * 64 + k)"
  "(i * 64 + j) * 64 + k = ((i * 4 + a) * 256 + (b * 16 + c)) * 4 + d"
  "((i * 64 + j) * 64 + k) * 64 + l = (i * 4 + a) * 65536 + (b * 4096 + k * 64 + l)"
  "((i * 64 + j) * 64 + k) * 64 + l = ((i * 4 + a) * 256 + (b * 16 + c)) * 256 + (d * 64 + l)"
  "i * 64 + j = (i * 4 + a) * 16 + b"
  unfolding assms by simp_all

lemmas join_parts = join_parts_of [OF div_mult_mod_eq [symmetric] div_mult_mod_eq [symmetric]]

lemma div_parts: "r < n \<Longrightarrow> (a * n + r) div n = (a :: nat)"
  by simp

lemma scan_bytes:
  assumes "i < 64" "j < 64" "k < 64" "l < 64"
  shows "(word_of_nat ((i * 64 + j) div 16) :: byte) = word_of_nat (i * 4 + j div 16)"
    "(word_of_nat (((i * 64 + j) * 64 + k) div 1024) :: byte) = word_of_nat (i * 4 + j div 16)"
    "(word_of_nat (((i * 64 + j) * 64 + k) div 4) :: byte) = word_of_nat (j mod 16 * 16 + k div 4)"
    "(word_of_nat ((((i * 64 + j) * 64 + k) * 64 + l) div 65536) :: byte) = word_of_nat (i * 4 + j div 16)"
    "(word_of_nat ((((i * 64 + j) * 64 + k) * 64 + l) div 256) :: byte) = word_of_nat (j mod 16 * 16 + k div 4)"
    "(word_of_nat (((i * 64 + j) * 64 + k) * 64 + l) :: byte) = word_of_nat (k mod 4 * 64 + l)"
proof -
  have m: "j mod 16 < 16" "k mod 4 < 4" by simp_all
  have r: "j mod 16 < 16" "k mod 4 < 4" "j mod 16 * 64 + k < 1024" "j mod 16 * 4096 + k * 64 + l < 65536" "k mod 4 * 64 + l < 256"
    using assms m by linarith+
  show "(word_of_nat ((i * 64 + j) div 16) :: byte) = word_of_nat (i * 4 + j div 16)"
    unfolding join_parts(5) div_parts [OF r(1)] by (rule refl)
  show "(word_of_nat (((i * 64 + j) * 64 + k) div 1024) :: byte) = word_of_nat (i * 4 + j div 16)"
    unfolding join_parts(1) div_parts [OF r(3)] by (rule refl)
  show "(word_of_nat (((i * 64 + j) * 64 + k) div 4) :: byte) = word_of_nat (j mod 16 * 16 + k div 4)"
    unfolding join_parts(2) div_parts [OF r(2)] by (rule low_byte) (rule mod_mult_self3)
  show "(word_of_nat ((((i * 64 + j) * 64 + k) * 64 + l) div 65536) :: byte) = word_of_nat (i * 4 + j div 16)"
    unfolding join_parts(3) div_parts [OF r(4)] by (rule refl)
  show "(word_of_nat ((((i * 64 + j) * 64 + k) * 64 + l) div 256) :: byte) = word_of_nat (j mod 16 * 16 + k div 4)"
    unfolding join_parts(4) div_parts [OF r(5)] by (rule low_byte) (rule mod_mult_self3)
  show "(word_of_nat (((i * 64 + j) * 64 + k) * 64 + l) :: byte) = word_of_nat (k mod 4 * 64 + l)"
    unfolding join_parts(4) by (rule low_byte) (rule mod_mult_self3)
qed

text \<open>On what it accepts, \<open>b64decode\<close> agrees with it.\<close>

lemma py_b64decode_strict: "b64decode s = Some bs \<Longrightarrow> py_b64decode s = Some bs"
  unfolding py_b64decode_def
proof (induction s arbitrary: bs rule: b64decode.induct)
  case (2 w x y z cs)
  then obtain i j where ij: "b64_digit w = Some i" "b64_digit x = Some j" by (auto split: option.splits)
  note d = b64_digit_lt [OF ij(1)] b64_digit_lt [OF ij(2)]
  show ?case
  proof (cases "z = CHR ''='' \<and> y = CHR ''=''")
    case True
    then show ?thesis using 2 ij d scan_bytes(1) [of i j 0 0] by (simp split: if_splits)
  next
    case yz: False
    then obtain k where k: "b64_digit y = Some k" using 2 ij by (auto split: option.splits)
    note d = d b64_digit_lt [OF k]
    show ?thesis
    proof (cases "z = CHR ''=''")
      case True
      then show ?thesis using 2 ij k d yz scan_bytes(2,3) [of i j k 0] by (simp add: Let_def split: if_splits)
    next
      case False
      then obtain l bs' where l: "b64_digit z = Some l" "b64decode cs = Some bs'" using 2 ij k yz by (auto simp: Let_def split: option.splits)
      note d = d b64_digit_lt [OF l(1)]
      have "b64scan 0 0 0 cs = Some bs'" using "2.IH" ij k l yz False by simp
      then show ?thesis using 2 ij k l d yz False scan_bytes(4-6) [of i j k l] by (simp add: Let_def)
    qed
  qed
qed simp_all

lemma py_b64_roundtrip: "py_b64decode (b64encode bs) = Some bs"
  by (rule py_b64decode_strict) (rule b64_roundtrip)

end
