(* ===== verification/VideoChannel.thy ===== *)
theory VideoChannel
  imports ProtoUtils Base64 AvProtocol
begin

text \<open>
  \<^verbatim>\<open>v2/modules/channel_modules/video/main.py\<close>: negotiation of the video channel, acknowledgement of every
  media frame and publication of its data for the viewer. The protobuf messages are parameters, as for the
  audio channel, with the video focus indication added; setup requests are not parsed here.
\<close>

section \<open>State\<close>

record video_lib = av_lib +
  vi_focus :: bytes

record video = chan +
  vi_session :: int
  vi_state :: string
  vi_codec_sdr :: pyval
  vi_codec :: pyval
  vi_count :: nat

definition CODEC_H264_BP :: int where "CODEC_H264_BP = 3"

definition video_schema :: schema where
  "video_schema = [(''max_unacked'', field_int 1 (PInt 1) (PInt 16)), (''publish_frames'', field_bool (PBool True))]"

definition new_video :: "string \<Rightarrow> int \<Rightarrow> payload option \<Rightarrow> video" where
  "new_video name cid sdr = chan.extend (new_chan name cid 1 sdr video_schema)
     \<lparr>vi_session = 0, vi_state = ''IDLE'', vi_codec_sdr = PInt CODEC_H264_BP, vi_codec = PInt CODEC_H264_BP, vi_count = 0\<rparr>"

definition video_set_state :: "string \<Rightarrow> video \<Rightarrow> video effect" where
  "video_set_state new s =
     (if vi_state s = new then eff_ok s [] else eff_ok (s\<lparr>vi_state := new\<rparr>) [(''video.state'', [(''state'', PStr new)])])"

section \<open>Life of the channel\<close>

definition video_dict :: "pyval \<Rightarrow> payload res" where
  "video_dict v = (case v of PDict d \<Rightarrow> Inr d | _ \<Rightarrow> Inl AttributeError)"

definition video_init :: "video \<Rightarrow> video effect" where
  "video_init s =
     (case ch_sdr s of
        None \<Rightarrow> eff_ok s []
      | Some cfg \<Rightarrow>
          eff_res s (rbind (video_dict (dget_or cfg ''av_channel'' (PDict []))) (\<lambda>av.
              let configs = dget_or av ''video_configs'' (PList []) in
              if \<not> truthy configs then Inr None
              else rbind (rbind (py_item 0 configs) video_dict) (\<lambda>c. Inr (Some (dget_or c ''codec'' (vi_codec_sdr s))))))
            (\<lambda>codec. eff_ok (case codec of None \<Rightarrow> s | Some c \<Rightarrow> s\<lparr>vi_codec_sdr := c, vi_codec := c\<rparr>) []))"

definition video_reset :: "video \<Rightarrow> video effect" where
  "video_reset s = video_set_state ''IDLE'' (s\<lparr>vi_session := 0\<rparr>)"

definition video_session_shutdown :: "video \<Rightarrow> video effect" where
  "video_session_shutdown s = video_reset s"

definition video_channel_open :: "video \<Rightarrow> video effect" where
  "video_channel_open s = video_reset s"

definition video_channel_close :: "video \<Rightarrow> video effect" where
  "video_channel_close s = video_reset s"

section \<open>Frames of the phone\<close>

definition send_video_focus_indication :: "'z video_lib_scheme \<Rightarrow> video \<Rightarrow> video effect" where
  "send_video_focus_indication L s = eff_ok s [send_frame s AV_FOCUS_INDICATION (vi_focus L)]"

definition video_media_ack :: "'z video_lib_scheme \<Rightarrow> video \<Rightarrow> video effect" where
  "video_media_ack L s = eff_ok s [send_frame s AV_ACK (av_ack L (vi_session s))]"

definition video_setup_request :: "'z video_lib_scheme \<Rightarrow> video \<Rightarrow> video effect" where
  "video_setup_request L s =
     eff_res s (av_setup L (dget_or (ch_config s) ''max_unacked'' (PInt 1))) (\<lambda>resp.
       eff_then (eff_ok s [send_frame s AV_SETUP_RESPONSE resp]) (\<lambda>s.
       eff_then (video_set_state ''SETUP'' s) (send_video_focus_indication L)))"

definition video_open_request :: "'z video_lib_scheme \<Rightarrow> video \<Rightarrow> video effect" where
  "video_open_request L s = eff_then (eff_ok s [send_frame s AV_OPEN_RESPONSE (av_open_ok L)]) (video_set_state ''OPEN'')"

definition video_start_indication :: "'z video_lib_scheme \<Rightarrow> bytes \<Rightarrow> video \<Rightarrow> video effect" where
  "video_start_indication L body s =
     (case av_parse_start L body of Inl x \<Rightarrow> eff_ok s [] | Inr n \<Rightarrow> video_set_state ''PLAYING'' (s\<lparr>vi_session := n\<rparr>))"

definition video_stop_indication :: "video \<Rightarrow> video effect" where
  "video_stop_indication s = video_set_state ''STOPPED'' (s\<lparr>vi_session := 0\<rparr>)"

definition publish_video_frame :: "int \<Rightarrow> bytes \<Rightarrow> bool \<Rightarrow> video \<Rightarrow> video effect" where
  "publish_video_frame ts_us data is_config s =
     eff_ok (s\<lparr>vi_count := vi_count s + 1\<rparr>)
       (if truthy (dget_or (ch_config s) ''publish_frames'' (PBool True)) then
          [(''video.frame'', [(''channel_id'', PInt (ch_id s)), (''ts_us'', PInt ts_us), (''data_b64'', PStr (b64encode data)),
             (''codec'', vi_codec s), (''codec_sdr'', vi_codec_sdr s), (''is_config'', PBool is_config)])]
        else [])"

definition video_media :: "'z video_lib_scheme \<Rightarrow> bytes \<Rightarrow> video \<Rightarrow> video effect" where
  "video_media L body s =
     eff_then (video_media_ack L s) (\<lambda>s. if body \<noteq> [] then publish_video_frame 0 body True s else eff_ok s [])"

definition video_media_with_timestamp :: "'z video_lib_scheme \<Rightarrow> bytes \<Rightarrow> video \<Rightarrow> video effect" where
  "video_media_with_timestamp L body s =
     eff_then (if vi_state s = ''OPEN'' \<or> vi_state s = ''PLAYING'' then eff_ok s [] else video_set_state ''PLAYING'' s) (\<lambda>s.
       case parse_media_with_timestamp body of (ts_us, data) \<Rightarrow>
         eff_then (video_media_ack L s) (\<lambda>s. if data \<noteq> [] then publish_video_frame ts_us data False s else eff_ok s []))"

definition video_on_frame :: "'z video_lib_scheme \<Rightarrow> int \<Rightarrow> bytes \<Rightarrow> video \<Rightarrow> video effect" where
  "video_on_frame L mid data s =
     (if mid = AV_SETUP_REQUEST then video_setup_request L s
      else if mid = AV_OPEN_REQUEST then video_open_request L s
      else if mid = AV_START then video_start_indication L data s
      else if mid = AV_STOP then video_stop_indication s
      else if mid = AV_MEDIA then video_media L data s
      else if mid = AV_MEDIA_WITH_TIMESTAMP then video_media_with_timestamp L data s
      else if mid = AV_FOCUS_REQUEST then send_video_focus_indication L s
      else eff_ok s [])"

section \<open>The module\<close>

datatype video_topic = VideoActive | VideoShutdown

fun video_own :: "video_topic \<Rightarrow> video \<Rightarrow> video effect" where
  "video_own VideoActive s = eff_ok s []"
| "video_own VideoShutdown s = video_session_shutdown s"

definition video_hooks :: "'z video_lib_scheme \<Rightarrow> (unit, video_topic, video) hooks" where
  "video_hooks L =
     \<lparr>h_init = (\<lambda>_. video_init), h_cleanup = (\<lambda>_. video_set_state ''IDLE''), h_is_ready = (\<lambda>s. True),
      h_on_open = (\<lambda>_. video_channel_open), h_on_close = (\<lambda>_. video_channel_close),
      h_on_frame = (\<lambda>_ mid enc data. video_on_frame L mid data),
      h_loaded = (\<lambda>_ c. base_config_loaded (\<lambda>s. True) c),
      h_changed = (\<lambda>_ k v s. eff_ok (base_config_changed k v s) []), h_own = (\<lambda>_. video_own)\<rparr>"

lemma hook_video_state: "same_base s s' \<Longrightarrow> hook_ok s (video_set_state new s')"
  by (simp add: video_set_state_def hook_ok_def eff_ok_def same_base_def readies_def)

lemma hook_video_start: "hook_ok s (video_start_indication L body s)"
  by (auto simp: video_start_indication_def readies_def same_base_def intro!: hook_intros hook_video_state split: sum.split)

lemma hook_publish_frame: "hook_ok s (publish_video_frame ts d c s)"
  by (simp add: publish_video_frame_def hook_ok_def eff_ok_def same_base_def readies_def)

lemma hook_video_send: "hook_ok s (video_media_ack L s)" "hook_ok s (send_video_focus_indication L s)"
  by (simp_all add: video_media_ack_def send_video_focus_indication_def hook_eff_ok)

lemma hook_video_none: "hook_ok s (eff_ok s [])"
  by (simp add: hook_eff_ok readies_def)

lemma hook_video_media: "hook_ok s (video_media L body s)"
  unfolding video_media_def by (rule hook_then) (simp_all add: hook_video_send hook_publish_frame hook_video_none)

lemma hook_video_media_ts: "hook_ok s (video_media_with_timestamp L body s)"
  unfolding video_media_with_timestamp_def prod.case_eq_if
  by (intro hook_then) (simp_all add: hook_video_send hook_publish_frame hook_video_none hook_video_state)

lemma hook_video_setup: "hook_ok s (video_setup_request L s)"
  unfolding video_setup_request_def by (intro hook_res hook_then) (simp_all add: hook_video_send hook_video_state hook_eff_ok)

lemma hook_video_open: "hook_ok s (video_open_request L s)"
  unfolding video_open_request_def by (rule hook_then) (simp_all add: hook_video_state hook_eff_ok)

lemma hook_video_stop: "hook_ok s (video_stop_indication s)"
  unfolding video_stop_indication_def by (rule hook_video_state) (simp add: same_base_def)

lemma hook_video_frame: "hook_ok s (video_on_frame L mid data s)"
  by (simp add: video_on_frame_def hook_video_send hook_video_none hook_video_media hook_video_media_ts hook_video_setup hook_video_open
      hook_video_stop hook_video_start)

lemma hook_video_init: "hook_ok s (video_init s)"
proof (cases "ch_sdr s")
  case (Some cfg)
  have "same_base s (case c of None \<Rightarrow> s | Some v \<Rightarrow> s\<lparr>vi_codec_sdr := v, vi_codec := v\<rparr>)" for c
    by (simp add: same_base_def split: option.split)
  then show ?thesis
    unfolding video_init_def Some option.case by (intro hook_res hook_eff_ok) (simp_all add: readies_def)
qed (simp add: video_init_def hook_eff_ok readies_def)

interpretation video_mod: channel_module "video_hooks L" for L :: "'z video_lib_scheme"
proof unfold_locales
  fix e s c
  show "gate_step s (snd (h_loaded (video_hooks L) e c s))"
    by (simp add: video_hooks_def gate_base_loaded)
next
  fix e x s
  show "gate_step s (snd (h_own (video_hooks L) e x s))"
    by (rule hook_gate, cases x) (auto simp: video_hooks_def video_session_shutdown_def video_reset_def readies_def same_base_def
        intro!: hook_intros hook_video_state)
qed (auto simp: video_hooks_def video_channel_open_def video_channel_close_def video_reset_def same_base_def hook_base_changed
    intro!: hook_video_init hook_video_state hook_video_frame simp del: eff_simps)

section \<open>Properties\<close>

text \<open>What the viewer reads of a published frame.\<close>

definition video_frames :: "busmsg list \<Rightarrow> busmsg list" where
  "video_frames ms = filter (\<lambda>m. fst m = ''video.frame'') ms"

definition read_frame_msg :: "busmsg \<Rightarrow> (int \<times> bytes \<times> bool) option" where
  "read_frame_msg m =
     (case (dget (snd m) ''ts_us'', dget (snd m) ''data_b64'', dget (snd m) ''is_config'') of
        (PInt ts, PStr d, PBool c) \<Rightarrow> map_option (\<lambda>b. (ts, b, c)) (b64decode d)
      | _ \<Rightarrow> None)"

text \<open>What the frames of the phone carry.\<close>

fun frame_content :: "int \<times> bytes \<Rightarrow> (int \<times> bytes \<times> bool) list" where
  "frame_content (mid, body) =
     (if mid = AV_MEDIA \<and> body \<noteq> [] then [(0, body, True)]
      else if mid = AV_MEDIA_WITH_TIMESTAMP \<and> snd (parse_media_with_timestamp body) \<noteq> [] then
        [(fst (parse_media_with_timestamp body), snd (parse_media_with_timestamp body), False)]
      else [])"

lemma video_frames_append [simp]: "video_frames (xs @ ys) = video_frames xs @ video_frames ys"
  by (simp add: video_frames_def)

definition shows_frames :: "video \<Rightarrow> bool" where
  "shows_frames s \<longleftrightarrow> ch_open s \<and> truthy (dget_or (ch_config s) ''publish_frames'' (PBool True))"

definition relayed :: "video \<Rightarrow> (int \<times> bytes \<times> bool) list \<Rightarrow> int list \<Rightarrow> int \<Rightarrow> 'z video_lib_scheme \<Rightarrow> video effect \<Rightarrow> bool" where
  "relayed s vs ns ses L a \<longleftrightarrow>
     map read_frame_msg (video_frames (snd (snd a))) = map Some vs \<and>
     sent AV_ACK (snd (snd a)) = map (\<lambda>n. send_frame s AV_ACK (av_ack L n)) ns \<and>
     vi_session (fst (snd a)) = ses \<and> shows_frames (fst (snd a)) \<and> ch_id (fst (snd a)) = ch_id s"

lemma relayed_frame:
  assumes "shows_frames s"
  shows "relayed s (frame_content (mid, body)) (due L (vi_session s) [(mid, body)])
     (if mid = AV_START then (case av_parse_start L body of Inl x \<Rightarrow> vi_session s | Inr n \<Rightarrow> n)
      else if mid = AV_STOP then 0 else vi_session s) L (video_on_frame L mid body s)"
proof -
  note d = relayed_def eff_ok_def eff_then_def video_set_state_def video_frames_def shows_frames_def sent_def send_frame_def
    dget_def dget_or_def av_ids publish_video_frame_def read_frame_msg_def b64_roundtrip video_media_ack_def
  have fc: "frame_content (k, body) = []" if "k \<noteq> 0" "k \<noteq> 1" for k using that by (simp add: av_ids)
  have m0: "relayed s (frame_content (AV_MEDIA_WITH_TIMESTAMP, body)) [vi_session s] (vi_session s) L (video_media_with_timestamp L body s)"
    using assms by (cases "parse_media_with_timestamp body") (simp add: video_media_with_timestamp_def d)
  have m1: "relayed s (frame_content (AV_MEDIA, body)) [vi_session s] (vi_session s) L (video_media L body s)"
    using assms by (simp add: video_media_def d)
  have st: "relayed s [] [] (vi_session s) L (video_setup_request L s)"
    using assms by (cases "av_setup L (dget_or (ch_config s) ''max_unacked'' (PInt 1))")
      (simp_all add: video_setup_request_def send_video_focus_indication_def d)
  have rest: "relayed s [] [] (vi_session s) L (video_open_request L s)" "relayed s [] [] (vi_session s) L (send_video_focus_indication L s)"
      "relayed s [] [] 0 L (video_stop_indication s)" "relayed s [] [] (vi_session s) L (eff_ok s [])"
      "relayed s [] [] (case av_parse_start L body of Inl x \<Rightarrow> vi_session s | Inr n \<Rightarrow> n) L (video_start_indication L body s)"
    using assms by (simp_all add: video_open_request_def send_video_focus_indication_def video_stop_indication_def video_start_indication_def d
        split: sum.split)
  show ?thesis
    using m0 m1 st rest
    by (cases "mid = AV_MEDIA"; cases "mid = AV_MEDIA_WITH_TIMESTAMP") (simp_all add: video_on_frame_def av_ids del: frame_content.simps add: fc)
qed

lemma video_relay:
  assumes "shows_frames s" "ms = snd (run_events (chan_step (video_hooks L)) s (map (frame_of cid) fs))"
    and "bodies = map (\<lambda>(e, mid, enc, body). (mid, body)) fs"
  shows "map read_frame_msg (video_frames ms) = map Some (concat (map frame_content bodies)) \<and>
    sent AV_ACK ms = map (\<lambda>n. send_frame s AV_ACK (av_ack L n)) (due L (vi_session s) bodies)"
  using assms
proof (induction fs arbitrary: s ms bodies)
  case Nil
  then show ?case by (simp add: video_frames_def)
next
  case (Cons f fs)
  obtain mid enc body where f: "f = ((), mid, enc, body)" by (cases f) auto
  let ?a = "video_on_frame L mid body s"
  let ?s = "fst (snd ?a)"
  have st: "chan_step (video_hooks L) s (frame_of cid f) = snd ?a"
    using Cons.prems(1) by (simp add: f frame_step video_hooks_def shows_frames_def)
  have r: "relayed s (frame_content (mid, body)) (due L (vi_session s) [(mid, body)])
     (if mid = AV_START then (case av_parse_start L body of Inl x \<Rightarrow> vi_session s | Inr n \<Rightarrow> n)
      else if mid = AV_STOP then 0 else vi_session s) L ?a" by (rule relayed_frame [OF Cons.prems(1)])
  then have "send_frame ?s = send_frame s" "shows_frames ?s" by (simp_all add: relayed_def send_frame_def fun_eq_iff)
  with Cons.IH [OF this(2) refl refl] r show ?case
    by (auto simp: Cons.prems(2,3) Let_def st [unfolded f] f sent_append relayed_def av_ids simp del: frame_content.simps)
qed

lemmas video_frames_read = video_relay [THEN conjunct1]

text \<open>Every picture reaches the viewer: on an open channel, for any sequence of frames, what is published on
  \<^verbatim>\<open>video.frame\<close> decodes to exactly the nonempty media of the frames, in order, with timestamps and
  configuration marks; and each media frame is acknowledged once, with the session of the last start.\<close>

theorem video_media_relayed:
  assumes "shows_frames s" "ms = snd (run_events (chan_step (video_hooks L)) s (map (frame_of cid) fs))"
    and "bodies = map (\<lambda>(e, mid, enc, body). (mid, body)) fs"
  shows "map read_frame_msg (video_frames ms) = map Some (concat (map frame_content bodies)) \<and>
    sent AV_ACK ms = map (\<lambda>n. send_frame s AV_ACK (av_ack L n)) (due L (vi_session s) bodies)"
  by (rule video_relay [OF assms])

definition demo_video_lib :: video_lib where
  "demo_video_lib = \<lparr>av_open_ok = [8, 0], av_parse_setup = (\<lambda>b. Inr 3), av_setup = (\<lambda>v. Inr [8, 2, 16, 1, 24, 0]),
     av_parse_start = (\<lambda>b. if b = [] then Inl (OtherError ''DecodeError'') else Inr (uint (hd b))), av_ack = (\<lambda>n. [8, word_of_int n, 16, 1]),
     vi_focus = [8, 1, 16, 0]\<rparr>"

theorem video_media_relayed_witness:
  "map read_frame_msg (video_frames (snd (run_events (chan_step (video_hooks demo_video_lib)) (new_video ''video'' 3 (Some [])\<lparr>ch_open := True\<rparr>)
     (map (frame_of 3) [((), AV_SETUP_REQUEST, True, []), ((), AV_START, True, [5]), ((), AV_MEDIA, True, [0, 0, 0, 1, 103]), ((), AV_MEDIA, True, [])])))) =
   [Some (0, [0, 0, 0, 1, 103], True)]"
proof -
  have "shows_frames (new_video ''video'' 3 (Some [])\<lparr>ch_open := True\<rparr>)"
    by (simp add: shows_frames_def new_video_def new_chan_def chan.defs video_schema_def schema_values_def node_default_def
        field_bool_def field_int_def dget_or_def)
  from video_media_relayed [OF this refl refl, of demo_video_lib 3
      "[((), AV_SETUP_REQUEST, True, []), ((), AV_START, True, [5]), ((), AV_MEDIA, True, [0, 0, 0, 1, 103]), ((), AV_MEDIA, True, [])]"]
  show ?thesis by (simp add: av_ids)
qed

end
