(* ===== verification/ProtoWire.thy ===== *)
theory ProtoWire
  imports ProtoUtils
begin

text \<open>
  The hand-rolled protobuf writers that \<^verbatim>\<open>channel_modules/input\<close> and \<^verbatim>\<open>channel_modules/sensor\<close> both carry
  (the same text in each), and a reader of the wire format as specification: \<open>wire_fields\<close> splits a
  message into its numbered fields. A writer is right when the reader gives back what was written.
\<close>

section \<open>Writers\<close>

text \<open>The loop of \<^verbatim>\<open>_encode_varint\<close> on the list \<^verbatim>\<open>out\<close>, and \<^verbatim>\<open>bytes(out)\<close>.\<close>

function varint_loop :: "int \<Rightarrow> int list" where
  "varint_loop v = (if v > 127 then ((v AND 127) OR 128) # varint_loop (drop_bit 7 v) else [v])"
  by pat_completeness auto
termination
proof (relation "measure nat")
  fix v :: int
  assume "127 < v"
  then have "v div 128 < v" "0 \<le> v div 128" by (simp_all add: int_div_less_self)
  then show "(drop_bit 7 v, v) \<in> measure nat" by (simp add: drop_bit_eq_div)
qed simp

declare varint_loop.simps [simp del]

definition py_bytes :: "int list \<Rightarrow> bytes res" where
  "py_bytes xs = map_res (\<lambda>i. if 0 \<le> i \<and> i < 256 then Inr (word_of_int i) else Inl ValueError) xs"

definition encode_varint :: "int \<Rightarrow> bytes res" where
  "encode_varint v = py_bytes (varint_loop (if v < 0 then v + push_bit 64 1 else v))"

text \<open>Concatenation of parts, each of which may raise.\<close>

definition cat_res :: "bytes res list \<Rightarrow> bytes res" where
  "cat_res rs = rbind (map_res (\<lambda>r. r) rs) (\<lambda>bs. Inr (concat bs))"

definition field_tag :: "int \<Rightarrow> int \<Rightarrow> bytes res" where
  "field_tag field_number wire_type = encode_varint (push_bit 3 field_number OR wire_type)"

definition varint_field :: "int \<Rightarrow> int \<Rightarrow> bytes res" where
  "varint_field field_number v = cat_res [field_tag field_number 0, encode_varint v]"

definition bool_field :: "int \<Rightarrow> bool \<Rightarrow> bytes res" where
  "bool_field field_number v = varint_field field_number (if v then 1 else 0)"

definition bytes_field :: "int \<Rightarrow> bytes \<Rightarrow> bytes res" where
  "bytes_field field_number data = cat_res [field_tag field_number 2, encode_varint (int (length data)), Inr data]"

text \<open>\<^verbatim>\<open>struct.pack("<Q", v)\<close> and \<^verbatim>\<open>struct.pack("<i", v)\<close>.\<close>

definition pack_le64 :: "int \<Rightarrow> bytes res" where
  "pack_le64 v = rbind (pack_be 8 v) (\<lambda>b. Inr (rev b))"

definition pack_le_i32 :: "int \<Rightarrow> bytes res" where
  "pack_le_i32 v = (if - (2 ^ 31) \<le> v \<and> v < 2 ^ 31 then Inr (rev (be_bytes 4 (v mod 2 ^ 32))) else Inl StructError)"

section \<open>What the writers produce\<close>

lemma seven_bits: "0 \<le> (v :: int) \<Longrightarrow> (v AND 127) OR 128 = v mod 128 + 128"
proof -
  have m: "v AND 127 = v mod 128"
    by (simp add: take_bit_eq_mod [of 7, symmetric, simplified] take_bit_eq_mask mask_eq_exp_minus_1)
  have "(v mod 128) OR push_bit 7 1 = v mod 128 + 1 * 2 ^ 7"
    by (rule or_shift_add) simp_all
  then show ?thesis unfolding m by (simp add: push_bit_eq_mult)
qed

lemma varint_loop_bytes: "0 \<le> v \<Longrightarrow> py_bytes (varint_loop v) = Inr (enc_varint (nat v))"
proof (induction v rule: varint_loop.induct)
  case (1 v)
  show ?case
  proof (cases "v > 127")
    case False
    then have "nat v < 128" using 1(2) by simp
    then show ?thesis
      using False 1(2) by (simp add: varint_loop.simps [of v] enc_varint.simps [of "nat v"] py_bytes_def)
  next
    case True
    have d: "drop_bit 7 v = v div 128" by (simp add: drop_bit_eq_div)
    have "py_bytes (varint_loop (v div 128)) = Inr (enc_varint (nat (v div 128)))"
      using 1(1) [OF True] 1(2) by (simp add: d)
    moreover have "nat (v div 128) = nat v div 128" "nat (v mod 128 + 128) = nat v mod 128 + 128"
      using 1(2) by (simp_all add: nat_div_distrib nat_add_distrib nat_mod_distrib)
    moreover have "(word_of_int (v mod 128 + 128) :: byte) = word_of_nat (nat (v mod 128 + 128))"
      using 1(2) by (simp add: word_of_nat_eq_iff)
    moreover have "\<not> nat v < 128" using True by linarith
    ultimately show ?thesis
      using True 1(2) seven_bits [of v]
      by (simp add: varint_loop.simps [of v] enc_varint.simps [of "nat v"] py_bytes_def d)
  qed
qed

lemma encode_varint_nonneg: "0 \<le> v \<Longrightarrow> encode_varint v = Inr (enc_varint (nat v))"
  by (simp add: encode_varint_def varint_loop_bytes)

lemma encode_varint_neg: "v < 0 \<Longrightarrow> - (2 ^ 64) \<le> v \<Longrightarrow> encode_varint v = Inr (enc_varint (nat (v + 2 ^ 64)))"
  by (simp add: encode_varint_def push_bit_eq_mult varint_loop_bytes)

lemma encode_varint_refuses: "v < - (2 ^ 64) \<Longrightarrow> encode_varint v = Inl ValueError"
  by (simp add: encode_varint_def push_bit_eq_mult py_bytes_def varint_loop.simps)

section \<open>The wire format\<close>

datatype wire = WVarint int | WFix64 bytes | WBytes bytes | WFix32 bytes

lemma read_varint_from_adv: "read_varint_from buf pos r s = (Some v, p) \<Longrightarrow> pos < p"
  using read_varint_from_pos [of "pos + 1" buf "r OR push_bit s (uint (buf ! pos) AND 127)" "s + 7"]
  by (subst (asm) read_varint_from.simps) (auto simp: Let_def simp del: push_bit_and split: if_splits)

lemma read_varint_adv: "read_varint buf pos = (Some v, p) \<Longrightarrow> pos < p"
  unfolding read_varint_def by (rule read_varint_from_adv)

lemma varint_drop_less: "(Some tag, p) = read_varint bs 0 \<Longrightarrow> bs \<noteq> [] \<Longrightarrow> length (drop k (drop p bs)) < length bs"
  using read_varint_adv [of bs 0 tag p] by (cases bs) auto

function wire_fields :: "bytes \<Rightarrow> (int \<times> wire) list option" where
  "wire_fields bs =
     (if bs = [] then Some []
      else (case read_varint bs 0 of
              (None, p) \<Rightarrow> None
            | (Some tag, p) \<Rightarrow>
                (let rest = drop p bs; n = tag div 8; w = tag mod 8 in
                 if w = 0 then
                   (case read_varint rest 0 of
                      (None, q) \<Rightarrow> None
                    | (Some v, q) \<Rightarrow> map_option (Cons (n, WVarint v)) (wire_fields (drop q rest)))
                 else if w = 1 then
                   (if length rest < 8 then None
                    else map_option (Cons (n, WFix64 (take 8 rest))) (wire_fields (drop 8 rest)))
                 else if w = 2 then
                   (case read_varint rest 0 of
                      (None, q) \<Rightarrow> None
                    | (Some l, q) \<Rightarrow>
                        (if int (length rest) < int q + l then None
                         else map_option (Cons (n, WBytes (take (nat l) (drop q rest)))) (wire_fields (drop (q + nat l) rest))))
                 else if w = 5 then
                   (if length rest < 4 then None
                    else map_option (Cons (n, WFix32 (take 4 rest))) (wire_fields (drop 4 rest)))
                 else None)))"
  by pat_completeness auto
termination
  by (relation "measure length") (fastforce dest: varint_drop_less simp del: length_drop drop_drop)+

declare wire_fields.simps [simp del]

section \<open>Writers against the reader\<close>

text \<open>A part is right when, whatever follows it, the reader finds its fields and then the rest.\<close>

definition writes :: "bytes res \<Rightarrow> (int \<times> wire) list \<Rightarrow> bool" where
  "writes r fs \<longleftrightarrow> (\<exists>b. r = Inr b \<and> (\<forall>rest. wire_fields (b @ rest) = map_option ((@) fs) (wire_fields rest)))"

definition field_no :: "int \<Rightarrow> bool" where
  "field_no n = (0 \<le> n \<and> n < 2 ^ 28)"

lemma writesD: "writes r fs \<Longrightarrow> \<exists>b. r = Inr b \<and> wire_fields b = Some fs"
proof -
  assume "writes r fs"
  then obtain b where b: "r = Inr b" "\<forall>rest. wire_fields (b @ rest) = map_option ((@) fs) (wire_fields rest)"
    by (auto simp: writes_def)
  have "wire_fields b = Some fs" using b(2) [rule_format, of "[]"] by (simp add: wire_fields.simps [of "[]"])
  then show ?thesis using b(1) by blast
qed

lemma writes_cat: "list_all2 writes rs fss \<Longrightarrow> writes (cat_res rs) (concat fss)"
proof (induction rs fss rule: list_all2_induct)
  case Nil
  have "map_option ((@) []) o' = o'" for o' :: "(int \<times> wire) list option" by (cases o') auto
  then show ?case by (simp add: writes_def cat_res_def)
next
  case (Cons r rs fs fss)
  obtain b where b: "r = Inr b" "\<And>rest. wire_fields (b @ rest) = map_option ((@) fs) (wire_fields rest)"
    using Cons.hyps(1) by (auto simp: writes_def)
  obtain c where c: "cat_res rs = Inr c" "\<And>rest. wire_fields (c @ rest) = map_option ((@) (concat fss)) (wire_fields rest)"
    using Cons.IH by (auto simp: writes_def)
  have "cat_res (r # rs) = Inr (b @ c)" using b(1) c(1) by (auto simp: cat_res_def rbind_Inr_iff)
  moreover have "wire_fields ((b @ c) @ rest) = map_option ((@) (concat (fs # fss))) (wire_fields rest)" for rest
    using b(2) [of "c @ rest"] c(2) [of rest]
    by (cases "wire_fields rest") simp_all
  ultimately show ?case unfolding writes_def by blast
qed

lemma tag_value: "0 \<le> (n :: int) \<Longrightarrow> 0 \<le> w \<Longrightarrow> w < 8 \<Longrightarrow> push_bit 3 n OR w = w + n * 8"
proof -
  assume "0 \<le> n" "0 \<le> w" "w < 8"
  then have "w OR push_bit 3 n = w + n * 2 ^ 3" by (intro or_shift_add) simp_all
  then show ?thesis by (simp add: or.commute)
qed

lemma enc_varint_ne [simp]: "enc_varint n \<noteq> []"
  by (simp add: enc_varint.simps [of n])

lemma read_varint_start:
  "0 \<le> v \<Longrightarrow> v < 2 ^ 63 \<Longrightarrow> read_varint (enc_varint (nat v) @ rest) 0 = (Some v, length (enc_varint (nat v)))"
  using read_enc_varint [of "nat v" "[]" 0 rest] by simp

lemma field_tag_ok:
  assumes "field_no n" "0 \<le> w" "w < 8"
  shows "\<exists>t. field_tag n w = Inr t \<and> t \<noteq> [] \<and> (\<forall>rest. read_varint (t @ rest) 0 = (Some (w + n * 8), length t))"
proof -
  have "0 \<le> w + n * 8" "w + n * 8 < 2 ^ 63" using assms by (auto simp: field_no_def)
  then show ?thesis
    using assms tag_value [of n w] read_varint_start [of "w + n * 8"]
    by (intro exI [of _ "enc_varint (nat (w + n * 8))"]) (simp add: field_tag_def field_no_def encode_varint_nonneg)
qed

lemma tag_parts: "0 \<le> (w :: int) \<Longrightarrow> w < 8 \<Longrightarrow> (w + n * 8) div 8 = n \<and> (w + n * 8) mod 8 = w"
  by auto

lemma map_option_Cons: "map_option (Cons x) o' = map_option ((@) [x]) o'"
  by (cases o') auto

lemma writes_varint:
  assumes "field_no n" "0 \<le> v" "v < 2 ^ 63"
  shows "writes (varint_field n v) [(n, WVarint v)]"
proof -
  obtain t where t: "field_tag n 0 = Inr t" "t \<noteq> []" "\<And>rest. read_varint (t @ rest) 0 = (Some (0 + n * 8), length t)"
    using field_tag_ok [OF assms(1), of 0] by auto
  let ?v = "enc_varint (nat v)"
  have "wire_fields ((t @ ?v) @ rest) = map_option ((@) [(n, WVarint v)]) (wire_fields rest)" for rest
    using t(2) t(3) [of "?v @ rest"] read_varint_start [OF assms(2,3), of rest]
    by (subst wire_fields.simps) (simp add: map_option_Cons)
  moreover have "varint_field n v = Inr (t @ ?v)"
    using t(1) assms(2) by (simp add: varint_field_def cat_res_def encode_varint_nonneg)
  ultimately show ?thesis unfolding writes_def by blast
qed

lemma writes_bool: "field_no n \<Longrightarrow> writes (bool_field n b) [(n, WVarint (if b then 1 else 0))]"
  using writes_varint [of n "if b then 1 else 0"] by (simp add: bool_field_def)

lemma writes_bytes:
  assumes "field_no n" "int (length data) < 2 ^ 63"
  shows "writes (bytes_field n data) [(n, WBytes data)]"
proof -
  obtain t where t: "field_tag n 2 = Inr t" "t \<noteq> []" "\<And>rest. read_varint (t @ rest) 0 = (Some (2 + n * 8), length t)"
    using field_tag_ok [OF assms(1), of 2] by auto
  let ?l = "enc_varint (length data)"
  have "wire_fields ((t @ ?l @ data) @ rest) = map_option ((@) [(n, WBytes data)]) (wire_fields rest)" for rest
    using t(2) t(3) [of "?l @ data @ rest"] read_varint_start [of "int (length data)" "data @ rest"] assms(2) tag_parts [of 2 n]
    by (subst wire_fields.simps) (simp add: map_option_Cons Let_def)
  moreover have "bytes_field n data = Inr (t @ ?l @ data)"
    using t(1) by (simp add: bytes_field_def cat_res_def encode_varint_nonneg)
  ultimately show ?thesis unfolding writes_def by blast
qed

text \<open>A tag followed by a fixed-width value.\<close>

lemma writes_fix64:
  assumes "field_no n" "v = Inr b" "length b = 8"
  shows "writes (cat_res [field_tag n 1, v]) [(n, WFix64 b)]"
proof -
  obtain t where t: "field_tag n 1 = Inr t" "t \<noteq> []" "\<And>rest. read_varint (t @ rest) 0 = (Some (1 + n * 8), length t)"
    using field_tag_ok [OF assms(1), of 1] by auto
  have "wire_fields ((t @ b) @ rest) = map_option ((@) [(n, WFix64 b)]) (wire_fields rest)" for rest
    using t(2) t(3) [of "b @ rest"] assms(3) tag_parts [of 1 n]
    by (subst wire_fields.simps) (simp add: map_option_Cons Let_def)
  moreover have "cat_res [field_tag n 1, v] = Inr (t @ b)" using t(1) assms(2) by (simp add: cat_res_def)
  ultimately show ?thesis unfolding writes_def by blast
qed

lemma writes_fix32:
  assumes "field_no n" "v = Inr b" "length b = 4"
  shows "writes (cat_res [field_tag n 5, v]) [(n, WFix32 b)]"
proof -
  obtain t where t: "field_tag n 5 = Inr t" "t \<noteq> []" "\<And>rest. read_varint (t @ rest) 0 = (Some (5 + n * 8), length t)"
    using field_tag_ok [OF assms(1), of 5] by auto
  have "wire_fields ((t @ b) @ rest) = map_option ((@) [(n, WFix32 b)]) (wire_fields rest)" for rest
    using t(2) t(3) [of "b @ rest"] assms(3) tag_parts [of 5 n]
    by (subst wire_fields.simps) (simp add: map_option_Cons Let_def)
  moreover have "cat_res [field_tag n 5, v] = Inr (t @ b)" using t(1) assms(2) by (simp add: cat_res_def)
  ultimately show ?thesis unfolding writes_def by blast
qed

lemmas writers = writes_varint writes_bool writes_bytes

end
