(* ===== verification/InputChannel.thy ===== *)
theory InputChannel
  imports ChannelBase ProtoWire
begin

text \<open>
  \<^verbatim>\<open>v2/modules/channel_modules/input/main.py\<close>: touch and key events from the bus become input reports
  on the channel. The environment of a call is \<^verbatim>\<open>time.time_ns()\<close>; the two serialised responses are
  parameters. The report builders raise what their writers raise.
\<close>

section \<open>Constants and state\<close>

definition CHANNEL_OPEN_REQUEST :: int where "CHANNEL_OPEN_REQUEST = 7"
definition CHANNEL_OPEN_RESPONSE :: int where "CHANNEL_OPEN_RESPONSE = 8"
definition KEY_BINDING_REQUEST :: int where "KEY_BINDING_REQUEST = 32770"
definition KEY_BINDING_RESPONSE :: int where "KEY_BINDING_RESPONSE = 32771"
definition INPUT_REPORT :: int where "INPUT_REPORT = 32769"

lemmas input_ids = CHANNEL_OPEN_REQUEST_def CHANNEL_OPEN_RESPONSE_def KEY_BINDING_REQUEST_def KEY_BINDING_RESPONSE_def INPUT_REPORT_def

definition DEFAULT_KEYCODES :: "int list" where
  "DEFAULT_KEYCODES = [3, 4, 5, 6, 19, 20, 21, 22, 23, 66, 82, 85, 87, 88, 24, 25, 164, 231]"

definition ACTION_DOWN :: int where "ACTION_DOWN = 0"
definition ACTION_UP :: int where "ACTION_UP = 1"
definition ACTION_MOVED :: int where "ACTION_MOVED = 2"

record inp = chan +
  in_state :: string
  in_bound :: "int set"
  in_flag :: bool

record input_lib =
  open_ok :: bytes
  binding_ok :: bytes

definition new_input :: "string \<Rightarrow> int \<Rightarrow> payload option \<Rightarrow> inp" where
  "new_input name cid sdr = chan.extend (new_chan name cid 1 sdr []) \<lparr>in_state = ''IDLE'', in_bound = {}, in_flag = False\<rparr>"

definition set_state :: "string \<Rightarrow> inp \<Rightarrow> inp effect" where
  "set_state new s = eff_ok (s\<lparr>in_state := new\<rparr>) [(''input.state'', [(''state'', PStr new)])]"

section \<open>Life of the channel\<close>

definition input_cleanup :: "inp \<Rightarrow> inp effect" where
  "input_cleanup s = eff_then (set_state ''IDLE'' s) (\<lambda>s. eff_ok (s\<lparr>in_bound := {}, in_flag := False\<rparr>) [])"

definition on_aa_session_active :: "inp \<Rightarrow> inp effect" where
  "on_aa_session_active s = set_state ''IDLE'' (s\<lparr>in_bound := {}, in_flag := False\<rparr>)"

definition on_aa_session_shutdown :: "inp \<Rightarrow> inp effect" where
  "on_aa_session_shutdown s = set_state ''IDLE'' (s\<lparr>in_bound := {}, in_flag := False\<rparr>)"

definition on_channel_open :: "inp \<Rightarrow> inp effect" where
  "on_channel_open s = eff_ok (s\<lparr>in_flag := True\<rparr>) []"

definition on_channel_close :: "inp \<Rightarrow> inp effect" where
  "on_channel_close s = set_state ''IDLE'' (s\<lparr>in_flag := False\<rparr>)"

section \<open>Frames of the phone\<close>

lemma read_varint_snd: "pos \<le> snd (read_varint buf pos)"
  by (simp add: read_varint_def read_varint_from_pos)

text \<open>\<^verbatim>\<open>_parse_key_binding_request\<close>: a tag is one byte; the position may run past the end.\<close>

function binding_loop :: "bytes \<Rightarrow> nat \<Rightarrow> int set \<Rightarrow> int set" where
  "binding_loop body pos result =
     (if pos < length body then
        (let tag_byte = uint (body ! pos); field_number = drop_bit 3 tag_byte; wire_type = tag_byte AND 7; pos = pos + 1 in
         if field_number = 1 \<and> wire_type = 0 then
           (case read_varint body pos of
              (None, p) \<Rightarrow> binding_loop body p result
            | (Some v, p) \<Rightarrow> binding_loop body p (insert v result))
         else if wire_type = 0 then binding_loop body (snd (read_varint body pos)) result
         else if wire_type = 1 then binding_loop body (pos + 8) result
         else if wire_type = 2 then
           (case read_varint body pos of
              (None, p) \<Rightarrow> binding_loop body p result
            | (Some n, p) \<Rightarrow> binding_loop body (p + nat n) result)
         else if wire_type = 5 then binding_loop body (pos + 4) result
         else result)
      else result)"
  by pat_completeness auto
termination
  by (relation "measure (\<lambda>(body, pos, result). length body - pos)")
    (auto dest!: sym [of "(_, _)"] dest: read_varint_pos simp: Suc_le_lessD [OF read_varint_snd] intro!: diff_less_mono2)

declare binding_loop.simps [simp del]

definition parse_key_binding_request :: "bytes \<Rightarrow> int set" where
  "parse_key_binding_request body = binding_loop body 0 {}"

definition handle_open_request :: "input_lib \<Rightarrow> inp \<Rightarrow> inp effect" where
  "handle_open_request L s =
     eff_then (eff_ok s [send_frame s CHANNEL_OPEN_RESPONSE (open_ok L)]) (set_state ''OPEN'')"

definition handle_key_binding_request :: "input_lib \<Rightarrow> bytes \<Rightarrow> inp \<Rightarrow> inp effect" where
  "handle_key_binding_request L body s =
     (let requested = parse_key_binding_request body; supported = set DEFAULT_KEYCODES;
          s = s\<lparr>in_bound := if requested \<noteq> {} then requested \<inter> supported else supported\<rparr> in
      eff_then (eff_ok s [send_frame s KEY_BINDING_RESPONSE (binding_ok L)]) (set_state ''BOUND''))"

definition on_frame :: "input_lib \<Rightarrow> int \<Rightarrow> bytes \<Rightarrow> inp \<Rightarrow> inp effect" where
  "on_frame L mid data s =
     (if mid = CHANNEL_OPEN_REQUEST then handle_open_request L s
      else if mid = KEY_BINDING_REQUEST then handle_key_binding_request L data s
      else eff_ok s [])"

section \<open>Touches and keys\<close>

type_synonym pointer = "int \<times> int \<times> int"

definition pointer_args :: "pyval \<Rightarrow> pointer res" where
  "pointer_args p =
     rbind (rbind (py_item 0 p) py_int) (\<lambda>x.
     rbind (rbind (py_item 1 p) py_int) (\<lambda>y.
     rbind (rbind (py_item 2 p) py_int) (\<lambda>pid. Inr (x, y, pid))))"

definition touch_args :: "payload \<Rightarrow> (int \<times> int \<times> int \<times> pointer list) res" where
  "touch_args p =
     rbind (py_int (dget_or p ''action'' (PInt ACTION_DOWN))) (\<lambda>action.
     rbind (py_int (dget_or p ''action_index'' (PInt 0))) (\<lambda>action_index.
     rbind (py_int (dget_or p ''disp_channel_id'' (PInt 0))) (\<lambda>disp_channel_id.
     rbind (rbind (py_list (dget_or p ''pointers'' (PList []))) (map_res pointer_args)) (\<lambda>pointers.
       Inr (action, action_index, disp_channel_id, pointers)))))"

definition key_args :: "payload \<Rightarrow> (int \<times> bool \<times> int \<times> bool \<times> int) res" where
  "key_args p =
     rbind (py_int (dget_or p ''keycode'' (PInt 0))) (\<lambda>keycode.
     rbind (py_int (dget_or p ''metastate'' (PInt 0))) (\<lambda>metastate.
     rbind (py_int (dget_or p ''disp_channel_id'' (PInt 0))) (\<lambda>disp_channel_id.
       Inr (keycode, truthy (dget_or p ''down'' (PBool True)), metastate,
            truthy (dget_or p ''longpress'' (PBool False)), disp_channel_id))))"

definition pointer_body :: "pointer \<Rightarrow> bytes res" where
  "pointer_body q = (case q of (x, y, pid) \<Rightarrow> cat_res [varint_field 1 x, varint_field 2 y, varint_field 3 pid])"

definition build_touch_event :: "int \<Rightarrow> pointer list \<Rightarrow> int \<Rightarrow> bytes res" where
  "build_touch_event action pointers action_index =
     cat_res ([varint_field 1 action, varint_field 2 action_index] @
              map (\<lambda>q. rbind (pointer_body q) (bytes_field 3)) pointers)"

definition build_key_event :: "int \<Rightarrow> bool \<Rightarrow> int \<Rightarrow> bool \<Rightarrow> bytes res" where
  "build_key_event keycode down metastate longpress =
     rbind (cat_res [varint_field 1 keycode, bool_field 2 down, varint_field 3 metastate, bool_field 4 longpress]) (bytes_field 1)"

definition disp_field :: "int \<Rightarrow> bytes res" where
  "disp_field d = (if d \<noteq> 0 then varint_field 5 d else Inr [])"

definition build_input_report_touch :: "int \<Rightarrow> int \<Rightarrow> pointer list \<Rightarrow> int \<Rightarrow> int \<Rightarrow> bytes res" where
  "build_input_report_touch ts action pointers action_index disp =
     rbind (build_touch_event action pointers action_index) (\<lambda>touch.
       cat_res [cat_res [field_tag 1 1, pack_le64 ts], bytes_field 2 touch, disp_field disp])"

definition build_input_report_key :: "int \<Rightarrow> int \<Rightarrow> bool \<Rightarrow> int \<Rightarrow> bool \<Rightarrow> int \<Rightarrow> bytes res" where
  "build_input_report_key ts keycode down metastate longpress disp =
     rbind (build_key_event keycode down metastate longpress) (\<lambda>key.
       cat_res [cat_res [field_tag 1 1, pack_le64 ts], bytes_field 3 key, disp_field disp])"

definition live :: "inp \<Rightarrow> bool" where
  "live s = (in_state s = ''OPEN'' \<or> in_state s = ''BOUND'')"

definition on_input_touch :: "int \<Rightarrow> payload \<Rightarrow> inp \<Rightarrow> inp effect" where
  "on_input_touch t p s =
     (if \<not> live s then eff_ok s []
      else eff_res s (touch_args p) (\<lambda>(action, action_index, disp, pointers).
        if pointers = [] then eff_ok s []
        else eff_res s (build_input_report_touch (t div 1000) action pointers action_index disp) (\<lambda>report.
               eff_ok s [send_frame s INPUT_REPORT report])))"

definition on_input_key :: "int \<Rightarrow> payload \<Rightarrow> inp \<Rightarrow> inp effect" where
  "on_input_key t p s =
     (if \<not> live s then eff_ok s []
      else eff_res s (key_args p) (\<lambda>(keycode, down, metastate, longpress, disp).
        if in_bound s \<noteq> {} \<and> keycode \<notin> in_bound s then eff_ok s []
        else eff_res s (build_input_report_key (t div 1000) keycode down metastate longpress disp) (\<lambda>report.
               eff_ok s [send_frame s INPUT_REPORT report])))"

definition touch_payload :: "int \<Rightarrow> int \<Rightarrow> int \<Rightarrow> int \<Rightarrow> int \<Rightarrow> payload" where
  "touch_payload action x y pid disp =
     [(''action'', PInt action), (''pointers'', PList [PList [PInt x, PInt y, PInt pid]]), (''disp_channel_id'', PInt disp)]"

definition send_touch_down :: "int \<Rightarrow> int \<Rightarrow> int \<Rightarrow> int \<Rightarrow> int \<Rightarrow> inp \<Rightarrow> inp effect" where
  "send_touch_down t x y pid disp = on_input_touch t (touch_payload ACTION_DOWN x y pid disp)"

definition send_touch_up :: "int \<Rightarrow> int \<Rightarrow> int \<Rightarrow> int \<Rightarrow> int \<Rightarrow> inp \<Rightarrow> inp effect" where
  "send_touch_up t x y pid disp = on_input_touch t (touch_payload ACTION_UP x y pid disp)"

definition send_touch_move :: "int \<Rightarrow> int \<Rightarrow> int \<Rightarrow> int \<Rightarrow> int \<Rightarrow> inp \<Rightarrow> inp effect" where
  "send_touch_move t x y pid disp = on_input_touch t (touch_payload ACTION_MOVED x y pid disp)"

definition key_payload :: "int \<Rightarrow> bool \<Rightarrow> int \<Rightarrow> int \<Rightarrow> payload" where
  "key_payload keycode down metastate disp =
     [(''keycode'', PInt keycode), (''down'', PBool down), (''metastate'', PInt metastate), (''disp_channel_id'', PInt disp)]"

definition send_key_down :: "int \<Rightarrow> int \<Rightarrow> int \<Rightarrow> int \<Rightarrow> inp \<Rightarrow> inp effect" where
  "send_key_down t keycode metastate disp = on_input_key t (key_payload keycode True metastate disp)"

definition send_key_up :: "int \<Rightarrow> int \<Rightarrow> int \<Rightarrow> int \<Rightarrow> inp \<Rightarrow> inp effect" where
  "send_key_up t keycode metastate disp = on_input_key t (key_payload keycode False metastate disp)"

section \<open>The module\<close>

datatype input_topic = SessionActive | SessionShutdown | InputTouch payload | InputKey payload

fun input_own :: "int \<Rightarrow> input_topic \<Rightarrow> inp \<Rightarrow> inp effect" where
  "input_own t SessionActive s = on_aa_session_active s"
| "input_own t SessionShutdown s = on_aa_session_shutdown s"
| "input_own t (InputTouch p) s = on_input_touch t p s"
| "input_own t (InputKey p) s = on_input_key t p s"

definition input_hooks :: "input_lib \<Rightarrow> (int, input_topic, inp) hooks" where
  "input_hooks L =
     \<lparr>h_init = (\<lambda>t s. eff_ok s []), h_cleanup = (\<lambda>t. input_cleanup), h_is_ready = (\<lambda>s. True),
      h_on_open = (\<lambda>t. on_channel_open), h_on_close = (\<lambda>t. on_channel_close),
      h_on_frame = (\<lambda>t mid enc data. on_frame L mid data),
      h_loaded = (\<lambda>t c. base_config_loaded (\<lambda>s. True) c),
      h_changed = (\<lambda>t k v s. eff_ok (base_config_changed k v s) []), h_own = input_own\<rparr>"

lemma hook_set_state: "same_base s s' \<Longrightarrow> hook_ok s (set_state new s')"
  by (simp add: set_state_def hook_ok_def eff_ok_def same_base_def readies_def)

lemma hook_on_frame: "hook_ok s (on_frame L mid data s)"
  by (simp add: on_frame_def handle_open_request_def handle_key_binding_request_def set_state_def hook_ok_def eff_ok_def
      eff_then_def same_base_def readies_def send_frame_def Let_def)

lemma hook_input_own: "hook_ok s (input_own t x s)"
  by (cases x) (auto simp: on_aa_session_active_def on_aa_session_shutdown_def on_input_touch_def on_input_key_def readies_def
      intro!: hook_set_state hook_intros simp: same_base_def send_frame_def)

interpretation input_mod: channel_module "input_hooks L" for L
proof unfold_locales
  fix e s c
  show "gate_step s (snd (h_loaded (input_hooks L) e c s))"
    by (simp add: input_hooks_def gate_base_loaded)
qed (auto simp: input_hooks_def input_cleanup_def on_channel_open_def on_channel_close_def same_base_def
    readies_def hook_base_changed intro!: hook_intros hook_set_state hook_gate hook_input_own hook_on_frame simp del: eff_simps)

section \<open>The repository's schema\<close>

text \<open>
  The fields of the generated messages in \<^verbatim>\<open>v2/protos/oaa/input/\<close>: number, name, and whether the value
  is a number or a message on the wire. \<^verbatim>\<open>message_to_proto.py\<close> names the first one as the message of
  \<^verbatim>\<open>INPUT_EVENT_INDICATION\<close>, the identifier the reports are sent with.
\<close>

datatype wire_kind = KNumber | KMessage

type_synonym fields_desc = "(int \<times> string \<times> wire_kind) list"

definition INPUT_EVENT_INDICATION :: fields_desc where
  "INPUT_EVENT_INDICATION =
     [(1, ''timestamp'', KNumber), (3, ''touch_event'', KMessage), (4, ''button_event'', KMessage),
      (5, ''absolute_input_event'', KMessage), (6, ''relative_input_event'', KMessage), (7, ''touchpad_event'', KMessage)]"

definition TOUCH_EVENT :: fields_desc where
  "TOUCH_EVENT = [(1, ''touch_location'', KMessage), (2, ''action_index'', KNumber), (3, ''touch_action'', KNumber)]"

definition TOUCH_LOCATION :: fields_desc where
  "TOUCH_LOCATION = [(1, ''x'', KNumber), (2, ''y'', KNumber), (3, ''pointer_id'', KNumber)]"

fun of_kind :: "wire_kind \<Rightarrow> wire \<Rightarrow> bool" where
  "of_kind KNumber (WVarint v) = True"
| "of_kind KMessage (WBytes b) = True"
| "of_kind _ _ = False"

text \<open>
  A parser of generated messages is the protobuf runtime, which is not here: the argument \<open>R\<close>, of which
  its documented treatment of unknown fields is assumed. A field whose number the message does not have, or
  whose wire type is not that of the field, is set aside; the others are the message's, under their names.
\<close>

type_synonym pb_reader = "fields_desc \<Rightarrow> bytes \<Rightarrow> (string \<times> wire) list option"

definition known_fields :: "fields_desc \<Rightarrow> (int \<times> wire) list \<Rightarrow> (string \<times> wire) list" where
  "known_fields D ws = List.map_filter (\<lambda>(n, w). case map_of D n of
     Some (name, k) \<Rightarrow> if of_kind k w then Some (name, w) else None | None \<Rightarrow> None) ws"

definition skips_unknown :: "pb_reader \<Rightarrow> bool" where
  "skips_unknown R \<longleftrightarrow> (\<forall>D b ws. wire_fields b = Some ws \<longrightarrow> R D b = Some (known_fields D ws))"

section \<open>Reports on the wire\<close>

definition disp_wire :: "int \<Rightarrow> (int \<times> wire) list" where
  "disp_wire disp = (if disp = 0 then [] else [(5, WVarint disp)])"

definition pointer_wire :: "pointer \<Rightarrow> (int \<times> wire) list" where
  "pointer_wire q = (case q of (x, y, pid) \<Rightarrow> [(1, WVarint x), (2, WVarint y), (3, WVarint pid)])"

definition key_wire :: "int \<Rightarrow> bool \<Rightarrow> int \<Rightarrow> bool \<Rightarrow> (int \<times> wire) list" where
  "key_wire keycode down metastate longpress =
     [(1, WVarint keycode), (2, WVarint (if down then 1 else 0)), (3, WVarint metastate), (4, WVarint (if longpress then 1 else 0))]"

definition u63 :: "int \<Rightarrow> bool" where
  "u63 v = (0 \<le> v \<and> v < 2 ^ 63)"

definition u63_pointer :: "pointer \<Rightarrow> bool" where
  "u63_pointer q = (case q of (x, y, pid) \<Rightarrow> u63 x \<and> u63 y \<and> u63 pid)"

text \<open>Sizes.\<close>

lemma length_enc_varint: "n < 128 ^ k \<Longrightarrow> 0 < k \<Longrightarrow> length (enc_varint n) \<le> k"
proof (induction k arbitrary: n)
  case (Suc k)
  show ?case
  proof (cases "n < 128")
    case False
    then have "n div 128 < 128 ^ k" "0 < k" using Suc.prems by (auto simp: less_mult_imp_div_less mult.commute intro: Nat.gr0I)
    then show ?thesis using Suc.IH [of "n div 128"] False by (simp add: enc_varint.simps [of n])
  qed (simp add: enc_varint.simps [of n])
qed simp

definition at_most :: "nat \<Rightarrow> bytes res \<Rightarrow> bool" where
  "at_most k r = (\<forall>b. r = Inr b \<longrightarrow> length b \<le> k)"

lemma at_most_cat: "list_all (at_most k) rs \<Longrightarrow> at_most (length rs * k) (cat_res rs)"
  by (induction rs) (fastforce simp: at_most_def cat_res_def rbind_Inr_iff)+

lemma u63_varint: "u63 v \<Longrightarrow> encode_varint v = Inr (enc_varint (nat v)) \<and> length (enc_varint (nat v)) \<le> 9"
  using length_enc_varint [of "nat v" 9] by (simp add: u63_def encode_varint_nonneg nat_less_iff)

lemma tag_small: "0 \<le> n \<Longrightarrow> n < 16 \<Longrightarrow> 0 \<le> w \<Longrightarrow> w < 8 \<Longrightarrow> \<exists>t. field_tag n w = Inr t \<and> length t = 1"
proof -
  assume n: "0 \<le> n" "n < 16" "0 \<le> w" "w < 8"
  then have "nat (w + n * 8) < 128" by linarith
  then show ?thesis using n tag_value [of n w] by (simp add: field_tag_def encode_varint_nonneg enc_varint.simps [of "nat _"])
qed

lemma at_most_varint: "0 \<le> n \<Longrightarrow> n < 16 \<Longrightarrow> u63 v \<Longrightarrow> at_most 10 (varint_field n v)"
  using tag_small [of n 0] u63_varint [of v] by (auto simp: varint_field_def at_most_def cat_res_def)

lemma at_most_bytes: "0 \<le> n \<Longrightarrow> n < 16 \<Longrightarrow> u63 (int (length b)) \<Longrightarrow> at_most (length b + 10) (bytes_field n b)"
  using tag_small [of n 2] u63_varint [of "int (length b)"] by (auto simp: bytes_field_def at_most_def cat_res_def)

lemma at_most_mono: "at_most k r \<Longrightarrow> k \<le> l \<Longrightarrow> at_most l r"
  by (auto simp: at_most_def)

text \<open>What the builders write.\<close>

lemma writes_pair: "writes a x \<Longrightarrow> writes b y \<Longrightarrow> writes (cat_res [a, b]) (x @ y)"
  using writes_cat [of "[a, b]" "[x, y]"] by simp

lemma small_no [simp]: "field_no 1" "field_no 2" "field_no 3" "field_no 4" "field_no 5"
  by (simp_all add: field_no_def)

lemma writes_pointer: "u63_pointer q \<Longrightarrow> writes (pointer_body q) (pointer_wire q)"
  using writes_cat [of "[varint_field 1 (fst q), varint_field 2 (fst (snd q)), varint_field 3 (snd (snd q))]"
      "[[(1, WVarint (fst q))], [(2, WVarint (fst (snd q)))], [(3, WVarint (snd (snd q)))]]"]
  by (cases q) (simp add: pointer_body_def pointer_wire_def u63_pointer_def u63_def writes_varint)

lemma pointer_small: "u63_pointer q \<Longrightarrow> at_most 30 (pointer_body q)"
  using at_most_cat [of 10 "[varint_field 1 (fst q), varint_field 2 (fst (snd q)), varint_field 3 (snd (snd q))]"]
  by (cases q) (simp add: pointer_body_def u63_pointer_def at_most_varint)

lemma pointer_field:
  assumes "u63_pointer q"
  shows "\<exists>b. writes (rbind (pointer_body q) (bytes_field 3)) [(3, WBytes b)] \<and> wire_fields b = Some (pointer_wire q) \<and>
     at_most 40 (rbind (pointer_body q) (bytes_field 3))"
proof -
  obtain b where b: "pointer_body q = Inr b" "wire_fields b = Some (pointer_wire q)"
    using writesD [OF writes_pointer] assms by blast
  have l: "length b \<le> 30" using pointer_small [OF assms] b(1) by (simp add: at_most_def)
  then have "writes (bytes_field 3 b) [(3, WBytes b)]" by (intro writes_bytes) simp_all
  moreover have "at_most 40 (bytes_field 3 b)" using l by (intro at_most_mono [OF at_most_bytes]) (simp_all add: u63_def)
  ultimately show ?thesis using b by auto
qed

lemma pointer_fields:
  "list_all u63_pointer qs \<Longrightarrow>
   \<exists>locs. list_all2 writes (map (\<lambda>q. rbind (pointer_body q) (bytes_field 3)) qs) (map (\<lambda>l. [(3, WBytes l)]) locs) \<and>
     list_all2 (\<lambda>l q. wire_fields l = Some (pointer_wire q)) locs qs"
proof (induction qs)
  case (Cons q qs)
  then obtain locs where fs: "list_all2 writes (map (\<lambda>q. rbind (pointer_body q) (bytes_field 3)) qs) (map (\<lambda>l. [(3, WBytes l)]) locs)"
    "list_all2 (\<lambda>l q. wire_fields l = Some (pointer_wire q)) locs qs" by auto
  obtain b where "writes (rbind (pointer_body q) (bytes_field 3)) [(3, WBytes b)]" "wire_fields b = Some (pointer_wire q)"
    using pointer_field [of q] Cons.prems by auto
  with fs show ?case by (intro exI [of _ "b # locs"]) simp
qed simp

lemma touch_event_ok:
  assumes "u63 action" "u63 action_index" "list_all u63_pointer qs"
  shows "\<exists>b locs. build_touch_event action qs action_index = Inr b \<and> length b \<le> (length qs + 2) * 40 \<and>
    wire_fields b = Some ([(1, WVarint action), (2, WVarint action_index)] @ map (\<lambda>l. (3, WBytes l)) locs) \<and>
    list_all2 (\<lambda>l q. wire_fields l = Some (pointer_wire q)) locs qs"
proof -
  let ?ps = "map (\<lambda>q. rbind (pointer_body q) (bytes_field 3)) qs"
  obtain locs where fs: "list_all2 writes ?ps (map (\<lambda>l. [(3, WBytes l)]) locs)"
      "list_all2 (\<lambda>l q. wire_fields l = Some (pointer_wire q)) locs qs"
    using pointer_fields [OF assms(3)] by auto
  let ?rs = "[varint_field 1 action, varint_field 2 action_index] @ ?ps"
  have "writes (cat_res ?rs) (concat ([[(1, WVarint action)], [(2, WVarint action_index)]] @ map (\<lambda>l. [(3, WBytes l)]) locs))"
    by (rule writes_cat) (use fs(1) assms in \<open>simp add: writes_varint u63_def\<close>)
  moreover have "concat (map (\<lambda>l. [(3 :: int, WBytes l)]) locs) = map (\<lambda>l. (3, WBytes l)) locs"
    by (induction locs) auto
  ultimately obtain b where b: "cat_res ?rs = Inr b"
      "wire_fields b = Some ((1, WVarint action) # (2, WVarint action_index) # map (\<lambda>l. (3, WBytes l)) locs)"
    using writesD by fastforce
  have "list_all (at_most 40) ?rs"
    using assms pointer_field by (auto simp: list_all_iff intro!: at_most_mono [OF at_most_varint])
  then have "length b \<le> (length qs + 2) * 40" using at_most_cat [of 40 ?rs] b(1) by (simp add: at_most_def)
  then show ?thesis using b fs(2) by (auto simp: build_touch_event_def)
qed

lemma key_event_ok:
  assumes "u63 keycode" "u63 metastate"
  shows "\<exists>b k. build_key_event keycode down metastate longpress = Inr b \<and> length b \<le> 50 \<and>
    wire_fields b = Some [(1, WBytes k)] \<and> wire_fields k = Some (key_wire keycode down metastate longpress)"
proof -
  let ?rs = "[varint_field 1 keycode, bool_field 2 down, varint_field 3 metastate, bool_field 4 longpress]"
  let ?fs = "key_wire keycode down metastate longpress"
  have "writes (cat_res ?rs) (concat (map (\<lambda>f. [f]) ?fs))"
    by (rule writes_cat) (use assms in \<open>auto simp: key_wire_def writes_varint writes_bool u63_def\<close>)
  then obtain k where k: "cat_res ?rs = Inr k" "wire_fields k = Some ?fs"
    using writesD by (fastforce simp: key_wire_def)
  have "list_all (at_most 10) ?rs" using assms by (auto simp: bool_field_def u63_def intro!: at_most_varint)
  then have l: "length k \<le> 40" using at_most_cat [of 10 ?rs] k(1) by (simp add: at_most_def)
  obtain b where b: "bytes_field 1 k = Inr b" "wire_fields b = Some [(1, WBytes k)]"
    using writesD [OF writes_bytes [of 1 k]] l by auto
  have "length b \<le> 50" using at_most_bytes [of 1 k] b(1) l by (simp add: at_most_def u63_def)
  then show ?thesis using k b by (auto simp: build_key_event_def)
qed

lemma le_val_pack: "0 \<le> v \<Longrightarrow> v < 2 ^ 64 \<Longrightarrow> \<exists>b. pack_le64 v = Inr b \<and> length b = 8 \<and> le_val b = v"
  by (simp add: pack_le64_def pack_be_def le_val_def be_val_pack)

lemma report_ok:
  assumes "field_no n" "0 \<le> ts" "ts < 2 ^ 64" "u63 disp" "int (length ev) < 2 ^ 63"
  shows "\<exists>b stamp. cat_res [cat_res [field_tag 1 1, pack_le64 ts], bytes_field n ev, disp_field disp] = Inr b \<and>
    wire_fields b = Some ([(1, WFix64 stamp), (n, WBytes ev)] @ disp_wire disp) \<and> le_val stamp = ts"
proof -
  obtain p where p: "pack_le64 ts = Inr p" "length p = 8" "le_val p = ts" using le_val_pack [OF assms(2,3)] by blast
  have d: "writes (disp_field disp) (disp_wire disp)"
    using assms(4) writes_cat [of "[]" "[]"] by (auto simp: disp_field_def disp_wire_def u63_def cat_res_def intro: writes_varint)
  have "writes (cat_res [cat_res [field_tag 1 1, pack_le64 ts], bytes_field n ev, disp_field disp])
      (concat [[(1, WFix64 p)], [(n, WBytes ev)], disp_wire disp])"
    by (rule writes_cat) (use d p(1,2) assms in \<open>simp add: writes_fix64 writes_bytes\<close>)
  then obtain b where "cat_res [cat_res [field_tag 1 1, pack_le64 ts], bytes_field n ev, disp_field disp] = Inr b"
      "wire_fields b = Some ([(1, WFix64 p), (n, WBytes ev)] @ disp_wire disp)"
    using writesD by fastforce
  then show ?thesis using p(3) by blast
qed

lemma touch_report:
  assumes "u63 action" "u63 action_index" "u63 disp" "list_all u63_pointer qs" "length qs < 2 ^ 32" "u63 t"
  shows "\<exists>body stamp ev locs. build_input_report_touch (t div 1000) action qs action_index disp = Inr body \<and>
    wire_fields body = Some ([(1, WFix64 stamp), (2, WBytes ev)] @ disp_wire disp) \<and> le_val stamp = t div 1000 \<and>
    wire_fields ev = Some ([(1, WVarint action), (2, WVarint action_index)] @ map (\<lambda>l. (3, WBytes l)) locs) \<and>
    list_all2 (\<lambda>l q. wire_fields l = Some (pointer_wire q)) locs qs"
proof -
  obtain ev locs where ev: "build_touch_event action qs action_index = Inr ev" "length ev \<le> (length qs + 2) * 40"
      "wire_fields ev = Some ([(1, WVarint action), (2, WVarint action_index)] @ map (\<lambda>l. (3, WBytes l)) locs)"
      "list_all2 (\<lambda>l q. wire_fields l = Some (pointer_wire q)) locs qs"
    using touch_event_ok [OF assms(1,2,4)] by blast
  have "int (length ev) < 2 ^ 63" using ev(2) assms(5) by simp
  moreover have "0 \<le> t div 1000" "t div 1000 < 2 ^ 64" using assms(6) by (auto simp: u63_def)
  ultimately obtain body stamp where "build_input_report_touch (t div 1000) action qs action_index disp = Inr body"
      "wire_fields body = Some ([(1, WFix64 stamp), (2, WBytes ev)] @ disp_wire disp)" "le_val stamp = t div 1000"
    using report_ok [of 2 "t div 1000" disp ev] ev(1) assms(3) by (auto simp: build_input_report_touch_def)
  then show ?thesis using ev(3,4) by blast
qed

lemma key_report:
  assumes "u63 keycode" "u63 metastate" "u63 disp" "u63 t"
  shows "\<exists>body stamp ev k. build_input_report_key (t div 1000) keycode down metastate longpress disp = Inr body \<and>
    wire_fields body = Some ([(1, WFix64 stamp), (3, WBytes ev)] @ disp_wire disp) \<and> le_val stamp = t div 1000 \<and>
    wire_fields ev = Some [(1, WBytes k)] \<and> wire_fields k = Some (key_wire keycode down metastate longpress)"
proof -
  obtain ev k where ev: "build_key_event keycode down metastate longpress = Inr ev" "length ev \<le> 50"
      "wire_fields ev = Some [(1, WBytes k)]" "wire_fields k = Some (key_wire keycode down metastate longpress)"
    using key_event_ok [OF assms(1,2)] by blast
  have "0 \<le> t div 1000" "t div 1000 < 2 ^ 64" using assms(4) by (auto simp: u63_def)
  then obtain body stamp where "build_input_report_key (t div 1000) keycode down metastate longpress disp = Inr body"
      "wire_fields body = Some ([(1, WFix64 stamp), (3, WBytes ev)] @ disp_wire disp)" "le_val stamp = t div 1000"
    using report_ok [of 3 "t div 1000" disp ev] ev(1,2) assms(3) by (auto simp: build_input_report_key_def)
  then show ?thesis using ev(3,4) by blast
qed

lemma known_wire:
  "known_fields INPUT_EVENT_INDICATION ([(1, WFix64 stamp), (2, WBytes ev)] @ disp_wire disp) = []"
  "known_fields INPUT_EVENT_INDICATION ([(1, WFix64 stamp), (3, WBytes ev)] @ disp_wire disp) = [(''touch_event'', WBytes ev)]"
  "known_fields TOUCH_EVENT [(1, WBytes k)] = [(''touch_location'', WBytes k)]"
  "known_fields TOUCH_LOCATION (key_wire keycode down metastate longpress) =
     [(''x'', WVarint keycode), (''y'', WVarint (if down then 1 else 0)), (''pointer_id'', WVarint metastate)]"
  by (simp_all add: known_fields_def map_filter_simps INPUT_EVENT_INDICATION_def TOUCH_EVENT_def TOUCH_LOCATION_def
      disp_wire_def key_wire_def)

section \<open>Properties\<close>

text \<open>C9 The input reports are not the messages of the repository's own schema. On an open channel a touch, with
  numbers below \<open>2 ^ 63\<close>, goes out as one report that holds its time (eight bytes, field 1), its event (field 2:
  action, index and the pointers in order) and its display (field 5), and a parser of the generated
  \<^verbatim>\<open>InputEventIndication\<close>, which sets fields of other numbers and wire types aside, finds nothing in it: no time
  and no touch. A bound key goes out as a report in which the same parser finds no key but a touch event
  without an action, whose location has the keycode as x, whether it is down as y, and the meta state as pointer.\<close>

theorem input_reports_off_schema:
  assumes "skips_unknown R" "live s" "u63 t"
    and "touch_args p = Inr (action, action_index, disp, qs)" "qs \<noteq> []"
    and "u63 action" "u63 action_index" "u63 disp" "list_all u63_pointer qs" "length qs < 2 ^ 32"
    and "key_args kp = Inr (keycode, down, metastate, longpress, kdisp)" "keycode \<in> in_bound s"
    and "u63 keycode" "u63 metastate" "u63 kdisp"
  shows "(\<exists>body stamp ev locs. on_input_touch t p s = eff_ok s [send_frame s INPUT_REPORT body] \<and>
      wire_fields body = Some ([(1, WFix64 stamp), (2, WBytes ev)] @ (if disp = 0 then [] else [(5, WVarint disp)])) \<and>
      le_val stamp = t div 1000 \<and>
      wire_fields ev = Some ([(1, WVarint action), (2, WVarint action_index)] @ map (\<lambda>l. (3, WBytes l)) locs) \<and>
      list_all2 (\<lambda>l (x, y, pid). wire_fields l = Some [(1, WVarint x), (2, WVarint y), (3, WVarint pid)]) locs qs \<and>
      R INPUT_EVENT_INDICATION body = Some []) \<and>
    (\<exists>body ev k. on_input_key t kp s = eff_ok s [send_frame s INPUT_REPORT body] \<and>
      R INPUT_EVENT_INDICATION body = Some [(''touch_event'', WBytes ev)] \<and>
      R TOUCH_EVENT ev = Some [(''touch_location'', WBytes k)] \<and>
      R TOUCH_LOCATION k = Some [(''x'', WVarint keycode), (''y'', WVarint (if down then 1 else 0)), (''pointer_id'', WVarint metastate)])"
proof (rule conjI)
  have R: "wire_fields b = Some ws \<Longrightarrow> R D b = Some (known_fields D ws)" for D b ws
    using assms(1) by (simp add: skips_unknown_def)
  obtain body stamp ev locs where t: "build_input_report_touch (t div 1000) action qs action_index disp = Inr body"
      "wire_fields body = Some ([(1, WFix64 stamp), (2, WBytes ev)] @ disp_wire disp)" "le_val stamp = t div 1000"
      "wire_fields ev = Some ([(1, WVarint action), (2, WVarint action_index)] @ map (\<lambda>l. (3, WBytes l)) locs)"
      "list_all2 (\<lambda>l q. wire_fields l = Some (pointer_wire q)) locs qs"
    using touch_report [OF assms(6-10,3)] by blast
  have locs: "list_all2 (\<lambda>l (x, y, pid). wire_fields l = Some [(1, WVarint x), (2, WVarint y), (3, WVarint pid)]) locs qs"
    by (rule list_all2_mono [OF t(5)]) (auto simp: pointer_wire_def)
  have sent: "on_input_touch t p s = eff_ok s [send_frame s INPUT_REPORT body]"
    using assms(2,4,5) t(1) by (simp add: on_input_touch_def)
  show "\<exists>body stamp ev locs. on_input_touch t p s = eff_ok s [send_frame s INPUT_REPORT body] \<and>
      wire_fields body = Some ([(1, WFix64 stamp), (2, WBytes ev)] @ (if disp = 0 then [] else [(5, WVarint disp)])) \<and>
      le_val stamp = t div 1000 \<and>
      wire_fields ev = Some ([(1, WVarint action), (2, WVarint action_index)] @ map (\<lambda>l. (3, WBytes l)) locs) \<and>
      list_all2 (\<lambda>l (x, y, pid). wire_fields l = Some [(1, WVarint x), (2, WVarint y), (3, WVarint pid)]) locs qs \<and>
      R INPUT_EVENT_INDICATION body = Some []"
    by (rule exI [of _ body], rule exI [of _ stamp], rule exI [of _ ev], rule exI [of _ locs], intro conjI)
      (rule sent t(2) [unfolded disp_wire_def] t(3,4) locs R [OF t(2), of INPUT_EVENT_INDICATION, unfolded known_wire(1)])+
  obtain kbody kstamp kev k where k: "build_input_report_key (t div 1000) keycode down metastate longpress kdisp = Inr kbody"
      "wire_fields kbody = Some ([(1, WFix64 kstamp), (3, WBytes kev)] @ disp_wire kdisp)"
      "wire_fields kev = Some [(1, WBytes k)]" "wire_fields k = Some (key_wire keycode down metastate longpress)"
    using key_report [OF assms(13-15,3)] by blast
  have "on_input_key t kp s = eff_ok s [send_frame s INPUT_REPORT kbody]"
    using assms(2,11,12) k(1) by (auto simp: on_input_key_def)
  then show "\<exists>body ev k. on_input_key t kp s = eff_ok s [send_frame s INPUT_REPORT body] \<and>
      R INPUT_EVENT_INDICATION body = Some [(''touch_event'', WBytes ev)] \<and>
      R TOUCH_EVENT ev = Some [(''touch_location'', WBytes k)] \<and>
      R TOUCH_LOCATION k = Some [(''x'', WVarint keycode), (''y'', WVarint (if down then 1 else 0)), (''pointer_id'', WVarint metastate)]"
    using R [OF k(2), of INPUT_EVENT_INDICATION] R [OF k(3), of TOUCH_EVENT] R [OF k(4), of TOUCH_LOCATION]
    unfolding known_wire by blast
qed

definition demo_input :: inp where
  "demo_input = new_input ''input'' 1 (Some [])\<lparr>in_state := ''BOUND'', in_bound := {3, 4}\<rparr>"

lemma demo_input_live: "live demo_input"
  by (simp add: live_def demo_input_def)

text \<open>A reader for the example.\<close>

definition demo_reader :: pb_reader where
  "demo_reader D b = map_option (known_fields D) (wire_fields b)"

theorem input_reports_off_schema_witness:
  "(\<exists>body. send_touch_down 5000 800 480 0 0 demo_input = eff_ok demo_input [send_frame demo_input INPUT_REPORT body] \<and>
      demo_reader INPUT_EVENT_INDICATION body = Some []) \<and>
    (\<exists>body ev k. send_key_down 5000 3 0 0 demo_input = eff_ok demo_input [send_frame demo_input INPUT_REPORT body] \<and>
      demo_reader INPUT_EVENT_INDICATION body = Some [(''touch_event'', WBytes ev)] \<and>
      demo_reader TOUCH_EVENT ev = Some [(''touch_location'', WBytes k)] \<and>
      demo_reader TOUCH_LOCATION k = Some [(''x'', WVarint 3), (''y'', WVarint 1), (''pointer_id'', WVarint 0)])"
proof -
  have r: "skips_unknown demo_reader" by (simp add: skips_unknown_def demo_reader_def)
  have t: "touch_args (touch_payload ACTION_DOWN 800 480 0 0) = Inr (0, 0, 0, [(800, 480, 0)])"
    by (simp add: touch_args_def touch_payload_def dget_or_def pointer_args_def ACTION_DOWN_def)
  have k: "key_args (key_payload 3 True 0 0) = Inr (3, True, 0, False, 0)"
    by (simp add: key_args_def key_payload_def dget_or_def)
  have "3 \<in> in_bound demo_input" by (simp add: demo_input_def)
  from input_reports_off_schema [OF r demo_input_live _ t _ _ _ _ _ _ k this, of 5000]
  show ?thesis by (auto simp: u63_def u63_pointer_def send_touch_down_def send_key_down_def)
qed

lemma varint_field1: "0 \<le> v \<Longrightarrow> varint_field 1 v = Inr (8 # enc_varint (nat v))"
proof -
  assume v: "0 \<le> v"
  have "push_bit 3 1 OR 0 = (8 :: int)" by (simp add: push_bit_eq_mult)
  then show ?thesis using v by (simp add: varint_field_def cat_res_def field_tag_def encode_varint_nonneg enc_varint.simps [of 8])
qed

lemma binding_loop_reads:
  "list_all u63 ks \<Longrightarrow>
   binding_loop (pre @ concat (map (\<lambda>k. 8 # enc_varint (nat k)) ks)) (length pre) R = R \<union> set ks"
proof (induction ks arbitrary: pre R)
  case Nil
  then show ?case by (simp add: binding_loop.simps [of pre "length pre"])
next
  case (Cons k ks)
  let ?rest = "concat (map (\<lambda>k. 8 # enc_varint (nat k)) ks)"
  let ?e = "enc_varint (nat k)"
  let ?b = "pre @ concat (map (\<lambda>k. 8 # enc_varint (nat k)) (k # ks))"
  have k: "0 \<le> k" "k < 2 ^ 63" "list_all u63 ks" using Cons.prems by (auto simp: u63_def [of k])
  have r: "read_varint ?b (Suc (length pre)) = (Some k, length (pre @ 8 # ?e))"
    using read_enc_varint [of "nat k" "pre @ [8]" "Suc (length pre)" ?rest] k(1,2) by simp
  have "binding_loop ?b (length pre) R = binding_loop ?b (length (pre @ 8 # ?e)) (insert k R)"
    by (subst binding_loop.simps) (use r in \<open>simp add: drop_bit_eq_div nth_append\<close>)
  also have "\<dots> = insert k R \<union> set ks" using Cons.IH [OF k(3), of "pre @ 8 # ?e" "insert k R"] by simp
  finally show ?case by simp
qed

lemma binding_request_read:
  "list_all u63 ks \<Longrightarrow> cat_res (map (varint_field 1) ks) = Inr body \<Longrightarrow> parse_key_binding_request body = set ks"
proof -
  assume ks: "list_all u63 ks" and b: "cat_res (map (varint_field 1) ks) = Inr body"
  have "map_res (\<lambda>r. r) (map (varint_field 1) ks) = Inr (map (\<lambda>k. 8 # enc_varint (nat k)) ks)"
    using ks by (induction ks) (simp_all add: varint_field1 u63_def)
  then show ?thesis
    using b binding_loop_reads [OF ks, of "[]" "{}"] by (simp add: cat_res_def parse_key_binding_request_def)
qed

text \<open>After a binding request listing keycodes, the ones the head unit knows are bound, and a key goes out
  as a report that holds its fields exactly when it is bound; but when the request lists no known keycode the
  bound set is empty and every key goes out.\<close>

theorem key_binding_filters:
  assumes "list_all u63 ks" "ks \<noteq> []" "cat_res (map (varint_field 1) ks) = Inr body"
    and "key_args p = Inr (keycode, down, metastate, longpress, disp)"
    and "u63 keycode" "u63 metastate" "u63 disp" "u63 t"
    and "s' = eff_state (on_frame L KEY_BINDING_REQUEST body s)" "bound = set ks \<inter> set DEFAULT_KEYCODES"
  shows "in_bound s' = bound \<and> in_state s' = ''BOUND'' \<and>
    (if keycode \<in> bound \<or> bound = {}
     then \<exists>report stamp ev k. on_input_key t p s' = eff_ok s' [send_frame s' INPUT_REPORT report] \<and>
       wire_fields report = Some ([(1, WFix64 stamp), (3, WBytes ev)] @ disp_wire disp) \<and> le_val stamp = t div 1000 \<and>
       wire_fields ev = Some [(1, WBytes k)] \<and> wire_fields k = Some (key_wire keycode down metastate longpress)
     else on_input_key t p s' = eff_ok s' [])"
proof -
  have s': "in_bound s' = bound" "in_state s' = ''BOUND''"
    using assms(2,9,10) binding_request_read [OF assms(1,3)]
    by (simp_all add: on_frame_def input_ids handle_key_binding_request_def set_state_def eff_state_def eff_ok_def eff_then_def Let_def)
  then have l: "live s'" by (simp add: live_def)
  show ?thesis
    using s' l assms(4) key_report [OF assms(5,6,7,8), of down longpress] by (auto simp: on_input_key_def)
qed

theorem key_binding_filters_witness:
  "in_bound (eff_state (on_frame \<lparr>open_ok = [8, 0], binding_ok = [8, 0]\<rparr> KEY_BINDING_REQUEST [8, 84, 8, 3] demo_input)) = {3}"
proof -
  let ?s = "eff_state (on_frame \<lparr>open_ok = [8, 0], binding_ok = [8, 0]\<rparr> KEY_BINDING_REQUEST [8, 84, 8, 3] demo_input)"
  have b: "cat_res (map (varint_field 1) [84, 3]) = Inr [8, 84, 8, 3]"
    by (simp add: varint_field1 cat_res_def enc_varint.simps [of 84] enc_varint.simps [of 3])
  show ?thesis
    using key_binding_filters [of "[84, 3]" "[8, 84, 8, 3]" "key_payload 3 True 0 0" 3 True 0 False 0 5000
        ?s "\<lparr>open_ok = [8, 0], binding_ok = [8, 0]\<rparr>" demo_input "{3}"] b
    by (simp add: u63_def key_args_def key_payload_def dget_or_def DEFAULT_KEYCODES_def eff_state_def on_frame_def input_ids
        handle_key_binding_request_def set_state_def eff_ok_def eff_then_def Let_def)
qed

text \<open>What the user does between frames of the phone.\<close>

fun user_event :: "(int, input_topic) chan_event \<Rightarrow> bool" where
  "user_event (Own t (InputTouch p)) = True"
| "user_event (Own t (InputKey p)) = True"
| "user_event ev = False"

lemma not_live_silent:
  "\<not> live s \<Longrightarrow> list_all user_event es \<Longrightarrow> run_events (chan_step (input_hooks L)) s es = (s, [])"
proof (induction es)
  case (Cons ev es)
  from Cons.prems(2) have "user_event ev" by simp
  then have "chan_step (input_hooks L) s ev = (s, [])"
    using Cons.prems(1)
    by (cases ev rule: user_event.cases) (auto simp: chan_step_def input_hooks_def on_input_touch_def on_input_key_def eff_ok_def)
  then show ?case using Cons by simp
qed simp

text \<open>When the session becomes active after the phone opened and bound the input channel, the module falls
  back to idle: every touch and key is then dropped in silence, although the channel is open, until the
  phone opens or binds the channel again.\<close>

theorem session_active_mutes_input:
  assumes "list_all user_event es"
  shows "run_events (chan_step (input_hooks L)) s (Own t SessionActive # es) =
    (s\<lparr>in_state := ''IDLE'', in_bound := {}, in_flag := False\<rparr>, [(''input.state'', [(''state'', PStr ''IDLE'')])])"
proof -
  have "chan_step (input_hooks L) s (Own t SessionActive) =
      (s\<lparr>in_state := ''IDLE'', in_bound := {}, in_flag := False\<rparr>, [(''input.state'', [(''state'', PStr ''IDLE'')])])"
    by (simp add: chan_step_def input_hooks_def on_aa_session_active_def set_state_def eff_ok_def)
  then show ?thesis using not_live_silent [OF _ assms, of "s\<lparr>in_state := ''IDLE'', in_bound := {}, in_flag := False\<rparr>" L]
    by (simp add: live_def)
qed

theorem session_active_mutes_input_witness:
  "snd (run_events (chan_step (input_hooks L)) demo_input
     [Own 1 SessionActive, Own 2 (InputTouch (touch_payload 0 1 1 0 0)), Own 3 (InputKey (key_payload 3 True 0 0))]) =
   [(''input.state'', [(''state'', PStr ''IDLE'')])]"
  using session_active_mutes_input [of "[Own 2 (InputTouch (touch_payload 0 1 1 0 0)), Own 3 (InputKey (key_payload 3 True 0 0))]" L demo_input 1]
  by simp

end
