(* ===== verification/SensorChannel.thy ===== *)
theory SensorChannel
  imports InputChannel ServiceDiscovery
begin

text \<open>
  \<^verbatim>\<open>v2/modules/channel_modules/sensor/main.py\<close>: which sensors the phone started, and the reports the
  head unit sends for them. The serialised responses are parameters. The sensors the phone is offered
  come from the service discovery response, so the two components are read together at the end.
\<close>

section \<open>Constants and state\<close>

definition SENSOR_START_REQUEST :: int where "SENSOR_START_REQUEST = 32769"
definition SENSOR_START_RESPONSE :: int where "SENSOR_START_RESPONSE = 32770"
definition SENSOR_EVENT_INDICATION :: int where "SENSOR_EVENT_INDICATION = 32771"

definition SENSOR_DRIVING_STATUS :: int where "SENSOR_DRIVING_STATUS = 1"
definition SENSOR_NIGHT_MODE :: int where "SENSOR_NIGHT_MODE = 4"
definition SENSOR_LOCATION :: int where "SENSOR_LOCATION = 6"
definition DRIVE_STATUS_UNRESTRICTED :: int where "DRIVE_STATUS_UNRESTRICTED = 0"

lemmas sensor_ids = SENSOR_START_REQUEST_def SENSOR_START_RESPONSE_def SENSOR_EVENT_INDICATION_def
  SENSOR_DRIVING_STATUS_def SENSOR_NIGHT_MODE_def SENSOR_LOCATION_def DRIVE_STATUS_UNRESTRICTED_def

record sens = chan +
  se_state :: string
  se_started :: "int set"

record sensor_lib =
  se_open_ok :: bytes
  start_ok :: bytes

definition new_sensor :: "string \<Rightarrow> int \<Rightarrow> payload option \<Rightarrow> sens" where
  "new_sensor name cid sdr = chan.extend (new_chan name cid 1 sdr []) \<lparr>se_state = ''IDLE'', se_started = {}\<rparr>"

definition sensor_set_state :: "string \<Rightarrow> sens \<Rightarrow> sens effect" where
  "sensor_set_state new s =
     (if se_state s = new then eff_ok s [] else eff_ok (s\<lparr>se_state := new\<rparr>) [(''sensor.state'', [(''state'', PStr new)])])"

definition sensor_cleanup :: "sens \<Rightarrow> sens effect" where
  "sensor_cleanup s = sensor_set_state ''IDLE'' (s\<lparr>se_started := {}\<rparr>)"

definition sensor_session_active :: "sens \<Rightarrow> sens effect" where
  "sensor_session_active s = sensor_set_state ''IDLE'' (s\<lparr>se_started := {}\<rparr>)"

definition sensor_session_shutdown :: "sens \<Rightarrow> sens effect" where
  "sensor_session_shutdown s = sensor_set_state ''IDLE'' (s\<lparr>se_started := {}\<rparr>)"

definition sensor_channel_close :: "sens \<Rightarrow> sens effect" where
  "sensor_channel_close s = sensor_set_state ''IDLE'' (s\<lparr>se_started := {}\<rparr>)"

section \<open>Frames of the phone\<close>

text \<open>\<^verbatim>\<open>_parse_sensor_start_request\<close>: the first varint field 1, or 0.\<close>

function sensor_start_loop :: "bytes \<Rightarrow> nat \<Rightarrow> int" where
  "sensor_start_loop body pos =
     (if pos < length body then
        (let tag_byte = uint (body ! pos); field_number = drop_bit 3 tag_byte; wire_type = tag_byte AND 7; pos = pos + 1 in
         if field_number = 1 \<and> wire_type = 0 then
           (case fst (read_varint body pos) of None \<Rightarrow> 0 | Some v \<Rightarrow> v)
         else if wire_type = 0 then sensor_start_loop body (snd (read_varint body pos))
         else if wire_type = 1 then sensor_start_loop body (pos + 8)
         else if wire_type = 2 then
           (case read_varint body pos of
              (None, p) \<Rightarrow> sensor_start_loop body p
            | (Some n, p) \<Rightarrow> sensor_start_loop body (p + nat n))
         else if wire_type = 5 then sensor_start_loop body (pos + 4)
         else 0)
      else 0)"
  by pat_completeness auto
termination
  by (relation "measure (\<lambda>(body, pos). length body - pos)")
    (auto dest!: sym [of "(_, _)"] dest: read_varint_pos simp: Suc_le_lessD [OF read_varint_snd] intro!: diff_less_mono2)

declare sensor_start_loop.simps [simp del]

definition parse_sensor_start_request :: "bytes \<Rightarrow> int" where
  "parse_sensor_start_request body = sensor_start_loop body 0"

definition build_default_sensor_batch :: "int \<Rightarrow> bytes res" where
  "build_default_sensor_batch sensor_type =
     (if sensor_type = SENSOR_DRIVING_STATUS then rbind (varint_field 1 DRIVE_STATUS_UNRESTRICTED) (bytes_field 1)
      else if sensor_type = SENSOR_NIGHT_MODE then rbind (bool_field 1 False) (bytes_field 4)
      else Inr [])"

definition sensor_open_request :: "sensor_lib \<Rightarrow> sens \<Rightarrow> sens effect" where
  "sensor_open_request L s =
     eff_then (eff_ok s [send_frame s CHANNEL_OPEN_RESPONSE (se_open_ok L)]) (sensor_set_state ''OPEN'')"

definition handle_sensor_start_request :: "sensor_lib \<Rightarrow> bytes \<Rightarrow> sens \<Rightarrow> sens effect" where
  "handle_sensor_start_request L body s =
     (let sensor_type = parse_sensor_start_request body;
          s = s\<lparr>se_started := insert sensor_type (se_started s)\<rparr> in
      eff_then (eff_ok s [send_frame s SENSOR_START_RESPONSE (start_ok L)])
        (\<lambda>s. eff_res s (build_default_sensor_batch sensor_type) (\<lambda>batch.
           if batch \<noteq> [] then eff_ok s [send_frame s SENSOR_EVENT_INDICATION batch] else eff_ok s [])))"

definition sensor_on_frame :: "sensor_lib \<Rightarrow> int \<Rightarrow> bytes \<Rightarrow> sens \<Rightarrow> sens effect" where
  "sensor_on_frame L mid data s =
     (if mid = CHANNEL_OPEN_REQUEST then sensor_open_request L s
      else if mid = SENSOR_START_REQUEST then handle_sensor_start_request L data s
      else eff_ok s [])"

section \<open>Reports\<close>

definition sfixed32_field :: "int \<Rightarrow> int \<Rightarrow> bytes res" where
  "sfixed32_field field_number v = cat_res [field_tag field_number 5, pack_le_i32 v]"

definition int64_field :: "int \<Rightarrow> int \<Rightarrow> bytes res" where
  "int64_field field_number v = varint_field field_number v"

definition started :: "int \<Rightarrow> sens \<Rightarrow> bool" where
  "started k s = (se_state s = ''OPEN'' \<and> k \<in> se_started s)"

definition send_sensor_event :: "bytes \<Rightarrow> sens \<Rightarrow> sens effect" where
  "send_sensor_event batch s = eff_ok s [send_frame s SENSOR_EVENT_INDICATION batch]"

definition on_sensor_driving_status :: "payload \<Rightarrow> sens \<Rightarrow> sens effect" where
  "on_sensor_driving_status p s =
     (if \<not> started SENSOR_DRIVING_STATUS s then eff_ok s []
      else eff_res s (rbind (py_int (dget_or p ''status'' (PInt DRIVE_STATUS_UNRESTRICTED))) (\<lambda>status.
             rbind (varint_field 1 status) (bytes_field 1))) (\<lambda>batch. send_sensor_event batch s))"

definition on_sensor_night_mode :: "payload \<Rightarrow> sens \<Rightarrow> sens effect" where
  "on_sensor_night_mode p s =
     (if \<not> started SENSOR_NIGHT_MODE s then eff_ok s []
      else eff_res s (rbind (bool_field 1 (truthy (dget_or p ''night_mode'' (PBool False)))) (bytes_field 4))
             (\<lambda>batch. send_sensor_event batch s))"

text \<open>An optional key of the payload, \<^verbatim>\<open>if k in payload\<close>.\<close>

definition opt_field :: "payload \<Rightarrow> string \<Rightarrow> (int \<Rightarrow> bytes res) \<Rightarrow> bytes res" where
  "opt_field p k f = (case map_of p k of None \<Rightarrow> Inr [] | Some v \<Rightarrow> rbind (py_int v) f)"

definition gps_data :: "payload \<Rightarrow> bytes res" where
  "gps_data p =
     rbind (py_int (dget_or p ''latitude'' (PInt 0))) (\<lambda>lat.
     rbind (py_int (dget_or p ''longitude'' (PInt 0))) (\<lambda>lon.
     rbind (py_int (dget_or p ''bearing'' (PInt 0))) (\<lambda>bear.
     rbind (py_int (dget_or p ''speed'' (PInt 0))) (\<lambda>spd.
       cat_res [sfixed32_field 1 lat, sfixed32_field 2 lon, sfixed32_field 3 bear, sfixed32_field 4 spd,
                opt_field p ''altitude'' (sfixed32_field 5), opt_field p ''accuracy'' (sfixed32_field 6),
                opt_field p ''timestamp'' (int64_field 7)]))))"

definition on_sensor_gps :: "payload \<Rightarrow> sens \<Rightarrow> sens effect" where
  "on_sensor_gps p s =
     (if \<not> started SENSOR_LOCATION s then eff_ok s []
      else eff_res s (rbind (gps_data p) (bytes_field 6)) (\<lambda>batch. send_sensor_event batch s))"

section \<open>The module\<close>

datatype sensor_topic = SensorActive | SensorShutdown | DrivingStatus payload | NightMode payload | Gps payload

fun sensor_own :: "sensor_topic \<Rightarrow> sens \<Rightarrow> sens effect" where
  "sensor_own SensorActive s = sensor_session_active s"
| "sensor_own SensorShutdown s = sensor_session_shutdown s"
| "sensor_own (DrivingStatus p) s = on_sensor_driving_status p s"
| "sensor_own (NightMode p) s = on_sensor_night_mode p s"
| "sensor_own (Gps p) s = on_sensor_gps p s"

definition sensor_hooks :: "sensor_lib \<Rightarrow> (unit, sensor_topic, sens) hooks" where
  "sensor_hooks L =
     \<lparr>h_init = (\<lambda>_ s. eff_ok s []), h_cleanup = (\<lambda>_. sensor_cleanup), h_is_ready = (\<lambda>s. True),
      h_on_open = (\<lambda>_ s. eff_ok s []), h_on_close = (\<lambda>_. sensor_channel_close),
      h_on_frame = (\<lambda>_ mid enc data. sensor_on_frame L mid data),
      h_loaded = (\<lambda>_ c. base_config_loaded (\<lambda>s. True) c),
      h_changed = (\<lambda>_ k v s. eff_ok (base_config_changed k v s) []), h_own = (\<lambda>_. sensor_own)\<rparr>"

lemma hook_sensor_state: "same_base s s' \<Longrightarrow> hook_ok s (sensor_set_state new s')"
  by (simp add: sensor_set_state_def hook_ok_def eff_ok_def same_base_def readies_def)

lemma hook_sensor_frame: "hook_ok s (sensor_on_frame L mid data s)"
  by (cases "build_default_sensor_batch (parse_sensor_start_request data)")
    (simp_all add: sensor_on_frame_def sensor_open_request_def handle_sensor_start_request_def sensor_set_state_def hook_ok_def
      eff_ok_def eff_then_def same_base_def readies_def send_frame_def Let_def)

lemma hook_sensor_own: "hook_ok s (sensor_own x s)"
  by (cases x) (auto simp: sensor_session_active_def sensor_session_shutdown_def on_sensor_driving_status_def
      on_sensor_night_mode_def on_sensor_gps_def send_sensor_event_def readies_def send_frame_def same_base_def
      intro!: hook_sensor_state hook_intros)

interpretation sensor_mod: channel_module "sensor_hooks L" for L
proof unfold_locales
  fix e s c
  show "gate_step s (snd (h_loaded (sensor_hooks L) e c s))"
    by (simp add: sensor_hooks_def gate_base_loaded)
qed (auto simp: sensor_hooks_def sensor_cleanup_def sensor_channel_close_def same_base_def
    readies_def hook_base_changed intro!: hook_intros hook_sensor_state hook_gate hook_sensor_own hook_sensor_frame simp del: eff_simps)

section \<open>Reports read back\<close>

text \<open>A fixed32 or varint field as a signed number.\<close>

definition number_of :: "int \<times> wire \<Rightarrow> (int \<times> int) option" where
  "number_of f =
     (case f of
        (n, WFix32 b) \<Rightarrow> Some (n, if le_val b < 2 ^ 31 then le_val b else le_val b - 2 ^ 32)
      | (n, WVarint v) \<Rightarrow> Some (n, v)
      | _ \<Rightarrow> None)"

definition gps_of :: "bytes \<Rightarrow> (int \<times> int) list option" where
  "gps_of b =
     (case wire_fields b of
        Some [(n, WBytes g)] \<Rightarrow>
          (if n = 6 then (case wire_fields g of None \<Rightarrow> None | Some fs \<Rightarrow> those (map number_of fs)) else None)
      | _ \<Rightarrow> None)"

definition i32 :: "int \<Rightarrow> bool" where
  "i32 v = (- (2 ^ 31) \<le> v \<and> v < 2 ^ 31)"

definition opt_int :: "payload \<Rightarrow> string \<Rightarrow> int option res" where
  "opt_int p k = (case map_of p k of None \<Rightarrow> Inr None | Some v \<Rightarrow> rbind (py_int v) (\<lambda>i. Inr (Some i)))"

definition opt_list :: "int \<Rightarrow> int option \<Rightarrow> (int \<times> int) list" where
  "opt_list n v = (case v of None \<Rightarrow> [] | Some i \<Rightarrow> [(n, i)])"

text \<open>A part of the position: it writes fields that read as these numbers, in at most ten bytes.\<close>

definition numbers :: "bytes res \<Rightarrow> (int \<times> int) list \<Rightarrow> bool" where
  "numbers r ns = (\<exists>fs. writes r fs \<and> those (map number_of fs) = Some ns \<and> at_most 10 r)"

lemma those_append: "those xs = Some a \<Longrightarrow> those ys = Some b \<Longrightarrow> those (xs @ ys) = Some (a @ b)"
  by (induction xs arbitrary: a) (auto split: option.splits)

lemma numbers_cat:
  "list_all2 numbers rs nss \<Longrightarrow>
   \<exists>fs. writes (cat_res rs) fs \<and> those (map number_of fs) = Some (concat nss) \<and> at_most (length rs * 10) (cat_res rs)"
proof -
  assume a: "list_all2 numbers rs nss"
  have "\<exists>fss. list_all2 writes rs fss \<and> those (map number_of (concat fss)) = Some (concat nss) \<and> list_all (at_most 10) rs"
    using a
  proof (induction rs nss rule: list_all2_induct)
    case (Cons r rs ns nss)
    then obtain fs fss where "writes r fs" "those (map number_of fs) = Some ns" "at_most 10 r" "list_all2 writes rs fss"
      "those (map number_of (concat fss)) = Some (concat nss)" "list_all (at_most 10) rs" by (auto simp: numbers_def)
    then show ?case by (intro exI [of _ "fs # fss"]) (simp add: those_append)
  qed simp
  then show ?thesis using writes_cat at_most_cat by blast
qed

lemma i32_wrap: "i32 v \<Longrightarrow> (if v mod 2 ^ 32 < 2 ^ 31 then v mod 2 ^ 32 else v mod 2 ^ 32 - 2 ^ 32) = v"
proof (cases "0 \<le> v")
  case False
  assume "i32 v"
  then have "0 \<le> v + 2 ^ 32" "v + 2 ^ 32 < 2 ^ 32" using False by (simp_all add: i32_def)
  then have "v mod 2 ^ 32 = v + 2 ^ 32" using mod_pos_pos_trivial [of "v + 2 ^ 32" "2 ^ 32"] by simp
  then show ?thesis using False \<open>i32 v\<close> by (simp add: i32_def)
qed (simp add: i32_def)

lemma numbers_sfixed: "0 \<le> n \<Longrightarrow> n < 16 \<Longrightarrow> i32 v \<Longrightarrow> numbers (sfixed32_field n v) [(n, v)]"
proof -
  assume n: "0 \<le> n" "n < 16" and v: "i32 v"
  let ?b = "rev (be_bytes 4 (v mod 2 ^ 32))"
  have p: "pack_le_i32 v = Inr ?b" using v by (simp add: pack_le_i32_def i32_def)
  have l: "le_val ?b = v mod 2 ^ 32" by (simp add: le_val_def be_val_be_bytes)
  have "writes (sfixed32_field n v) [(n, WFix32 ?b)]"
    unfolding sfixed32_field_def by (rule writes_fix32) (use n p in \<open>simp_all add: field_no_def\<close>)
  moreover have "number_of (n, WFix32 ?b) = Some (n, v)"
    by (simp only: number_of_def l i32_wrap [OF v] prod.case wire.case)
  then have "those (map number_of [(n, WFix32 ?b)]) = Some [(n, v)]" by simp
  moreover have "at_most 10 (sfixed32_field n v)"
    using tag_small [of n 5] n p by (auto simp: at_most_def sfixed32_field_def cat_res_def)
  ultimately show ?thesis unfolding numbers_def by blast
qed

lemma numbers_int64: "u63 v \<Longrightarrow> numbers (int64_field 7 v) [(7, v)]"
  using writes_varint [of 7 v] at_most_varint [of 7 v]
  by (auto simp: numbers_def int64_field_def u63_def field_no_def number_of_def intro!: exI [of _ "[(7, WVarint v)]"])

lemma numbers_opt: "opt_int p k = Inr v \<Longrightarrow> (\<And>i. v = Some i \<Longrightarrow> numbers (f i) [(n, i)]) \<Longrightarrow> numbers (opt_field p k f) (opt_list n v)"
  using writes_cat [of "[]" "[]"]
  by (cases "map_of p k")
    (auto simp: opt_int_def opt_field_def opt_list_def rbind_Inr_iff numbers_def at_most_def cat_res_def intro: exI [of _ "[]"])

section \<open>Properties\<close>

text \<open>A position on an open channel whose location sensor is started goes out as one sensor event, and
  decoding the event gives back latitude, longitude, bearing and speed, signed, and exactly the optional
  altitude, accuracy and timestamp that were present.\<close>

theorem gps_report_roundtrip:
  assumes "started SENSOR_LOCATION s"
    and "py_int (dget_or p ''latitude'' (PInt 0)) = Inr lat" "py_int (dget_or p ''longitude'' (PInt 0)) = Inr lon"
    and "py_int (dget_or p ''bearing'' (PInt 0)) = Inr bear" "py_int (dget_or p ''speed'' (PInt 0)) = Inr spd"
    and "opt_int p ''altitude'' = Inr alt" "opt_int p ''accuracy'' = Inr acc" "opt_int p ''timestamp'' = Inr ts"
    and "i32 lat" "i32 lon" "i32 bear" "i32 spd" "pred_option i32 alt" "pred_option i32 acc" "pred_option u63 ts"
  shows "\<exists>batch. on_sensor_gps p s = eff_ok s [send_frame s SENSOR_EVENT_INDICATION batch] \<and>
    gps_of batch = Some ([(1, lat), (2, lon), (3, bear), (4, spd)] @ opt_list 5 alt @ opt_list 6 acc @ opt_list 7 ts)"
proof -
  let ?rs = "[sfixed32_field 1 lat, sfixed32_field 2 lon, sfixed32_field 3 bear, sfixed32_field 4 spd,
                opt_field p ''altitude'' (sfixed32_field 5), opt_field p ''accuracy'' (sfixed32_field 6),
                opt_field p ''timestamp'' (int64_field 7)]"
  have "list_all2 numbers ?rs [[(1, lat)], [(2, lon)], [(3, bear)], [(4, spd)], opt_list 5 alt, opt_list 6 acc, opt_list 7 ts]"
    using assms by (auto simp: pred_option_def intro!: numbers_sfixed numbers_int64 numbers_opt)
  from numbers_cat [OF this] obtain fs where fs: "writes (cat_res ?rs) fs" "at_most 70 (cat_res ?rs)"
      "those (map number_of fs) = Some ([(1, lat), (2, lon), (3, bear), (4, spd)] @ opt_list 5 alt @ opt_list 6 acc @ opt_list 7 ts)"
    by auto
  obtain g where g: "cat_res ?rs = Inr g" "wire_fields g = Some fs" using writesD [OF fs(1)] by blast
  have "length g \<le> 70" using fs(2) g(1) by (simp add: at_most_def)
  then obtain b where b: "bytes_field 6 g = Inr b" "wire_fields b = Some [(6, WBytes g)]"
    using writesD [OF writes_bytes [of 6 g]] by (auto simp: field_no_def)
  have "gps_data p = Inr g" using g(1) assms(2-5) by (simp add: gps_data_def)
  then show ?thesis
    using assms(1) b g(2) fs(3) by (intro exI [of _ b]) (simp add: on_sensor_gps_def send_sensor_event_def gps_of_def)
qed

definition demo_sensor :: sens where
  "demo_sensor = new_sensor ''sensor'' 2 (Some [])\<lparr>se_state := ''OPEN'', se_started := {6}\<rparr>"

theorem gps_report_roundtrip_witness:
  "\<exists>batch. on_sensor_gps [(''latitude'', PInt 451234567), (''longitude'', PInt (-93456789)), (''altitude'', PInt (-3))] demo_sensor =
      eff_ok demo_sensor [send_frame demo_sensor SENSOR_EVENT_INDICATION batch] \<and>
    gps_of batch = Some [(1, 451234567), (2, -93456789), (3, 0), (4, 0), (5, -3)]"
  using gps_report_roundtrip [of demo_sensor "[(''latitude'', PInt 451234567), (''longitude'', PInt (-93456789)), (''altitude'', PInt (-3))]"
      451234567 "-93456789" 0 0 "Some (-3)" None None]
  by (simp add: started_def demo_sensor_def sensor_ids dget_or_def opt_int_def opt_list_def i32_def)

text \<open>The sensor types the default response offers to the phone.\<close>

definition advertised_sensors :: "pmsg \<Rightarrow> int list" where
  "advertised_sensors m =
     concat (map (\<lambda>ch. map (\<lambda>se. case p_get se ''type'' (PInt 0) of PInt i \<Rightarrow> i | _ \<Rightarrow> 0)
                           (p_msgs (p_sub ch ''sensor_channel'') ''sensors''))
             (p_msgs m ''channels''))"

lemma advertised_default: "advertised_sensors default_message = [10, 13, 7]"
  by code_simp

text \<open>A phone that only starts sensors it was offered.\<close>

fun starts_only :: "int list \<Rightarrow> ('e, 'x) chan_event \<Rightarrow> bool" where
  "starts_only ks (FrameIn e p) =
     (case frame_args p of
        Inr (mid, enc, body) \<Rightarrow> mid \<noteq> SENSOR_START_REQUEST \<or> parse_sensor_start_request body \<in> set ks
      | Inl x \<Rightarrow> True)"
| "starts_only ks ev = True"

definition sensor_events :: "busmsg list \<Rightarrow> busmsg list" where
  "sensor_events ms = filter (\<lambda>m. fst m = ''aa.frame.send'' \<and> dget (snd m) ''message_id'' = PInt SENSOR_EVENT_INDICATION) ms"

definition deaf :: "sens \<Rightarrow> bool" where
  "deaf s = (se_started s \<subseteq> {7, 10, 13})"

lemma deaf_frame:
  "deaf s \<Longrightarrow> mid \<noteq> SENSOR_START_REQUEST \<or> parse_sensor_start_request body \<in> {7, 10, 13} \<Longrightarrow>
   deaf (fst (snd (sensor_on_frame L mid body s))) \<and> sensor_events (snd (snd (sensor_on_frame L mid body s))) = []"
  by (auto simp: sensor_on_frame_def sensor_open_request_def handle_sensor_start_request_def sensor_set_state_def deaf_def
      build_default_sensor_batch_def sensor_ids CHANNEL_OPEN_REQUEST_def CHANNEL_OPEN_RESPONSE_def sensor_events_def send_frame_def
      dget_def dget_or_def eff_ok_def Let_def)

lemma deaf_own: "deaf s \<Longrightarrow> deaf (fst (snd (sensor_own x s))) \<and> sensor_events (snd (snd (sensor_own x s))) = []"
  by (cases x) (auto simp: deaf_def sensor_session_active_def sensor_session_shutdown_def sensor_set_state_def
      on_sensor_driving_status_def on_sensor_night_mode_def on_sensor_gps_def started_def sensor_ids eff_ok_def sensor_events_def)

lemma sensor_events_append: "sensor_events (xs @ ys) = sensor_events xs @ sensor_events ys"
  by (simp add: sensor_events_def)

lemma deaf_step:
  assumes "deaf s" "starts_only [10, 13, 7] ev"
  shows "deaf (fst (chan_step (sensor_hooks L) s ev)) \<and> sensor_events (snd (chan_step (sensor_hooks L) s ev)) = []"
proof (cases ev)
  case (FrameIn e p)
  then show ?thesis
    using assms deaf_frame [of s] 
    by (auto simp: chan_step_def on_aa_frame_def sensor_hooks_def eff_ok_def sensor_events_def split: sum.splits)
next
  case (Own e x)
  then show ?thesis using deaf_own [OF assms(1)] by (simp add: chan_step_def sensor_hooks_def)
next
  case (ModuleStart e p)
  then show ?thesis
    using assms(1)
    by (auto simp: chan_step_def on_module_start_def sensor_hooks_def config_request_def client_get_def rbind_def try_publish_ready_def
        may_publish_def ready_msg_def eff_ok_def eff_then_def deaf_def sensor_events_def split: sum.splits)
qed (use assms(1) in \<open>auto simp: chan_step_def sensor_hooks_def on_module_stop_def on_aa_channel_open_def on_aa_channel_close_def
      base_config_loaded_def base_config_changed_def try_publish_ready_def ready_msg_def
      sensor_cleanup_def sensor_channel_close_def sensor_set_state_def eff_ok_def deaf_def sensor_events_def\<close>)

lemma deaf_run:
  "deaf s \<Longrightarrow> list_all (starts_only [10, 13, 7]) es \<Longrightarrow> sensor_events (snd (run_events (chan_step (sensor_hooks L)) s es)) = []"
proof (induction es arbitrary: s)
  case (Cons ev es)
  then show ?case using deaf_step [of s ev L] by (simp add: Let_def sensor_events_append)
qed (simp add: sensor_events_def)

text \<open>With the default configuration the sensor channel never reports anything: the numbers the module knows
  its sensors by are not those of the enumeration the phone is offered, so a phone that starts only the
  offered sensors gets its start requests accepted and never an event, whatever the car reports.\<close>

theorem default_sensors_silent:
  assumes "list_all (starts_only (advertised_sensors default_message)) es"
  shows "sensor_events (snd (run_events (chan_step (sensor_hooks L)) (new_sensor name cid sdr) es)) = []"
  using assms deaf_run [of "new_sensor name cid sdr" es L]
  by (simp add: advertised_default deaf_def new_sensor_def chan.defs)

definition demo_drive :: "(unit, sensor_topic) chan_event list" where
  "demo_drive =
     [ChannelOpen () [(''channel_id'', PInt 2)],
      FrameIn () [(''channel_id'', PInt 2), (''message_id'', PInt 7), (''encrypted'', PBool True), (''payload_hex'', PStr '''')],
      FrameIn () [(''channel_id'', PInt 2), (''message_id'', PInt 32769), (''encrypted'', PBool True), (''payload_hex'', PStr ''080d'')],
      Own () (DrivingStatus [(''status'', PInt 31)])]"

theorem default_sensors_silent_witness:
  "sensor_events (snd (run_events (chan_step (sensor_hooks L)) (new_sensor ''sensor'' 2 (Some [])) demo_drive)) = []"
proof -
  have r: "read_varint [8, 13] 1 = (Some 13, 2)"
    by (simp add: read_varint_def read_varint_from.simps [of "[8, 13]" "Suc 0"])
  have "parse_sensor_start_request [8, 13] = 13"
    unfolding parse_sensor_start_request_def by (subst sensor_start_loop.simps) (use r in \<open>simp add: drop_bit_eq_div\<close>)
  moreover have "fromhex ''080d'' = Inr [8, 13]"
    by (simp add: c_space_def hexval_def Let_def)
  ultimately have "list_all (starts_only (advertised_sensors default_message)) demo_drive"
    unfolding advertised_default by (simp add: demo_drive_def frame_args_def dindex_def dget_or_def SENSOR_START_REQUEST_def)
  then show ?thesis by (rule default_sensors_silent)
qed

end
