(* ===== verification/PlainChannels.thy ===== *)
theory PlainChannels
  imports ProtoUtils AvProtocol
begin

text \<open>
  \<^verbatim>\<open>v2/modules/channel_modules/bluetooth/main.py\<close> and \<^verbatim>\<open>wifi/main.py\<close>, the two channels without media.
  Their \<^verbatim>\<open>on_frame(channel_id, data)\<close> is still the one of an older base class: the present one calls it
  with four arguments. Protobuf messages are parameters; \<^verbatim>\<open>str\<close> of configured values is \<open>py_str T\<close>.
\<close>

section \<open>Bluetooth\<close>

definition BT_PAIRING_REQUEST :: int where "BT_PAIRING_REQUEST = 32769"
definition BT_PAIRING_RESPONSE :: int where "BT_PAIRING_RESPONSE = 32770"
definition BT_AUTH_DATA :: int where "BT_AUTH_DATA = 32771"
definition BT_AUTH_RESULT :: int where "BT_AUTH_RESULT = 32772"

text \<open>\<open>bt_parse\<close> gives address, name and method of a pairing request, each present or not.\<close>

record bt_lib =
  bt_open_ok :: bytes
  bt_parse :: "bytes \<Rightarrow> (string option \<times> string option \<times> int option) res"
  bt_paired :: bytes

definition bt_open_request :: "bt_lib \<Rightarrow> chan \<Rightarrow> chan effect" where
  "bt_open_request L s = eff_ok s [send_frame s AV_OPEN_RESPONSE (bt_open_ok L)]"

definition bt_pairing_request :: "bt_lib \<Rightarrow> bytes \<Rightarrow> chan \<Rightarrow> chan effect" where
  "bt_pairing_request L body s =
     (let (address, name, pairing) = (case bt_parse L body of Inl x \<Rightarrow> (None, None, None) | Inr r \<Rightarrow> r) in
      eff_ok s
        [(''bluetooth.pairing_request'',
           [(''phone_address'', PStr (case address of None \<Rightarrow> ''unknown'' | Some a \<Rightarrow> a)),
            (''phone_name'', PStr (case name of None \<Rightarrow> [] | Some n \<Rightarrow> n)),
            (''pairing_method'', PInt (case pairing of None \<Rightarrow> 0 | Some m \<Rightarrow> m))]),
         send_frame s BT_PAIRING_RESPONSE (bt_paired L)])"

definition bt_auth_data :: "bytes \<Rightarrow> chan \<Rightarrow> chan effect" where
  "bt_auth_data body s = eff_ok s [(''bluetooth.auth_data'', [(''data_hex'', PStr (bytes_hex body))])]"

definition bt_auth_result :: "bytes \<Rightarrow> chan \<Rightarrow> chan effect" where
  "bt_auth_result body s = eff_ok s [(''bluetooth.auth_result'', [(''data_hex'', PStr (bytes_hex body))])]"

definition bt_on_frame :: "bt_lib \<Rightarrow> int \<Rightarrow> bytes \<Rightarrow> chan \<Rightarrow> chan effect" where
  "bt_on_frame L channel_id data s =
     (case decode_aa_frame data of
        None \<Rightarrow> eff_ok s []
      | Some (mid, body) \<Rightarrow>
          (if mid = BT_PAIRING_REQUEST then bt_pairing_request L body s
           else if mid = AV_OPEN_REQUEST then bt_open_request L s
           else if mid = BT_AUTH_DATA then bt_auth_data body s
           else if mid = BT_AUTH_RESULT then bt_auth_result body s
           else eff_ok s []))"

section \<open>WiFi\<close>

definition WIFI_CREDENTIALS_REQUEST :: int where "WIFI_CREDENTIALS_REQUEST = 32769"
definition WIFI_CREDENTIALS_RESPONSE :: int where "WIFI_CREDENTIALS_RESPONSE = 32770"

record wifi = chan +
  wf_ssid :: string
  wf_password :: string
  wf_registered :: bool

record wifi_lib =
  wf_open_ok :: bytes
  wf_credentials :: "string \<Rightarrow> string \<Rightarrow> bytes res"

definition wifi_schema :: schema where
  "wifi_schema = [(''ssid'', field_string ''AndroidAutoAP''), (''ap_password'', field_string [])]"

definition new_wifi :: "string \<Rightarrow> int \<Rightarrow> payload option \<Rightarrow> wifi" where
  "new_wifi name cid sdr = chan.extend (new_chan name cid 1 sdr wifi_schema)
     \<lparr>wf_ssid = ''AndroidAutoAP'', wf_password = [], wf_registered = False\<rparr>"

text \<open>The second client registers on the same bus client: from then on the handlers of the configuration
  topics are its own, and the responses for this module are dropped by its filter.\<close>

definition hostapd_request :: "busmsg res" where
  "hostapd_request = client_get ''hostapd_helper'' None (Some wifi_schema)"

definition wifi_init :: "wifi \<Rightarrow> wifi effect" where
  "wifi_init s =
     (let s = s\<lparr>wf_registered := True\<rparr> in eff_res s hostapd_request (\<lambda>m. eff_ok s [m]))"

definition wifi_cleanup :: "wifi \<Rightarrow> wifi effect" where
  "wifi_cleanup s = eff_ok (s\<lparr>wf_ssid := ''AndroidAutoAP'', wf_password := []\<rparr>) []"

definition on_hostapd_config_loaded :: "py_text \<Rightarrow> payload \<Rightarrow> wifi \<Rightarrow> wifi effect" where
  "on_hostapd_config_loaded T config s =
     (let merged = merge_config wifi_schema config;
          s = (if config = [] then s
               else s\<lparr>wf_ssid := py_str T (dget merged ''ssid''), wf_password := py_str T (dget merged ''ap_password'')\<rparr>) in
      try_publish_ready (\<lambda>s. True) (s\<lparr>ch_loaded := True\<rparr>))"

definition on_hostapd_config_changed :: "py_text \<Rightarrow> string \<Rightarrow> pyval \<Rightarrow> wifi \<Rightarrow> wifi" where
  "on_hostapd_config_changed T key v s =
     (if key = ''ssid'' then s\<lparr>wf_ssid := py_str T v\<rparr>
      else if key = ''ap_password'' then s\<lparr>wf_password := py_str T v\<rparr> else s)"

definition wifi_hostapd_ready :: "py_text \<Rightarrow> payload \<Rightarrow> wifi \<Rightarrow> wifi" where
  "wifi_hostapd_ready T p s =
     (let s = (if dget p ''ssid'' \<noteq> PNone then s\<lparr>wf_ssid := py_str T (dget p ''ssid'')\<rparr> else s) in
      if dget p ''key'' \<noteq> PNone then s\<lparr>wf_password := py_str T (dget p ''key'')\<rparr> else s)"

definition wifi_open_request :: "wifi_lib \<Rightarrow> wifi \<Rightarrow> wifi effect" where
  "wifi_open_request L s = eff_ok s [send_frame s AV_OPEN_RESPONSE (wf_open_ok L)]"

definition wifi_credentials_request :: "wifi_lib \<Rightarrow> wifi \<Rightarrow> wifi effect" where
  "wifi_credentials_request L s =
     eff_res s (wf_credentials L (wf_ssid s) (wf_password s)) (\<lambda>body.
       eff_ok s [send_frame s WIFI_CREDENTIALS_RESPONSE body, (''wifi.credentials_sent'', [(''ssid'', PStr (wf_ssid s))])])"

definition wifi_on_frame :: "wifi_lib \<Rightarrow> int \<Rightarrow> bytes \<Rightarrow> wifi \<Rightarrow> wifi effect" where
  "wifi_on_frame L channel_id data s =
     (case decode_aa_frame data of
        None \<Rightarrow> eff_ok s []
      | Some (mid, body) \<Rightarrow>
          (if mid = WIFI_CREDENTIALS_REQUEST then wifi_credentials_request L s
           else if mid = AV_OPEN_REQUEST then wifi_open_request L s
           else eff_ok s []))"

section \<open>The modules\<close>

text \<open>A method is called with these positional arguments; it takes \<open>n\<close> of them. With any other number
  Python raises \<^verbatim>\<open>TypeError\<close> before the first statement.\<close>

datatype pyarg = AInt int | ABool bool | ABytes bytes

definition call_on_frame :: "(int \<Rightarrow> bytes \<Rightarrow> 's \<Rightarrow> 's effect) \<Rightarrow> pyarg list \<Rightarrow> 's \<Rightarrow> 's effect" where
  "call_on_frame f args s =
     (case args of [AInt channel_id, ABytes data] \<Rightarrow> f channel_id data s | _ \<Rightarrow> (Some TypeError, s, []))"

definition bt_hooks :: "bt_lib \<Rightarrow> (unit, unit, chan) hooks" where
  "bt_hooks L =
     \<lparr>h_init = (\<lambda>_ s. eff_ok s []), h_cleanup = (\<lambda>_ s. eff_ok s []), h_is_ready = (\<lambda>s. True),
      h_on_open = (\<lambda>_ s. eff_ok s []), h_on_close = (\<lambda>_ s. eff_ok s []),
      h_on_frame = (\<lambda>_ mid enc data s. call_on_frame (bt_on_frame L) [AInt (ch_id s), AInt mid, ABool enc, ABytes data] s),
      h_loaded = (\<lambda>_ c. base_config_loaded (\<lambda>s. True) c),
      h_changed = (\<lambda>_ k v s. eff_ok (base_config_changed k v s) []), h_own = (\<lambda>_ _ s. eff_ok s [])\<rparr>"

datatype wifi_topic = HostapdLoaded payload | HostapdChanged string pyval | HostapdReady payload

fun wifi_own :: "py_text \<Rightarrow> wifi_topic \<Rightarrow> wifi \<Rightarrow> wifi effect" where
  "wifi_own T (HostapdLoaded c) s = (if wf_registered s then on_hostapd_config_loaded T c s else eff_ok s [])"
| "wifi_own T (HostapdChanged k v) s = eff_ok (if wf_registered s then on_hostapd_config_changed T k v s else s) []"
| "wifi_own T (HostapdReady p) s = eff_ok (wifi_hostapd_ready T p s) []"

definition wifi_hooks :: "wifi_lib \<Rightarrow> py_text \<Rightarrow> (unit, wifi_topic, wifi) hooks" where
  "wifi_hooks L T =
     \<lparr>h_init = (\<lambda>_. wifi_init), h_cleanup = (\<lambda>_. wifi_cleanup), h_is_ready = (\<lambda>s. True),
      h_on_open = (\<lambda>_ s. eff_ok s []), h_on_close = (\<lambda>_ s. eff_ok s []),
      h_on_frame = (\<lambda>_ mid enc data s. call_on_frame (wifi_on_frame L) [AInt (ch_id s), AInt mid, ABool enc, ABytes data] s),
      h_loaded = (\<lambda>_ c s. if wf_registered s then eff_ok s [] else base_config_loaded (\<lambda>s. True) c s),
      h_changed = (\<lambda>_ k v s. eff_ok (if wf_registered s then s else base_config_changed k v s) []),
      h_own = (\<lambda>_. wifi_own T)\<rparr>"

lemma hook_still: "hook_ok s (eff_ok s [])" "hook_ok s (Some x, s, [])"
  by (simp_all add: hook_ok_def eff_ok_def readies_def)

interpretation bt_mod: channel_module "bt_hooks L" for L
proof unfold_locales
  fix e s c
  show "gate_step s (snd (h_loaded (bt_hooks L) e c s))"
    by (simp add: bt_hooks_def gate_base_loaded)
qed (simp_all add: bt_hooks_def call_on_frame_def hook_still hook_gate hook_base_changed)

lemma hostapd_request_topic: "hostapd_request = Inr m \<Longrightarrow> fst m = ''config.get''"
  by (auto simp: hostapd_request_def client_get_def rbind_Inr_iff)

lemma hook_wifi_init: "hook_ok s (wifi_init s)"
proof (cases hostapd_request)
  case (Inl x)
  show ?thesis unfolding wifi_init_def Let_def Inl by (simp add: hook_ok_def same_base_def readies_def)
next
  case (Inr m)
  show ?thesis
    unfolding wifi_init_def Let_def Inr using hostapd_request_topic [OF Inr] by (simp add: hook_ok_def eff_ok_def same_base_def readies_def)
qed

lemma gate_wifi_own: "gate_step s (snd (wifi_own T x s))"
proof (cases x)
  case (HostapdLoaded c)
  have "gate_step s (snd (on_hostapd_config_loaded T c s))"
    unfolding on_hostapd_config_loaded_def Let_def by (rule gate_try) (auto simp: ready_msg_def)
  then show ?thesis using HostapdLoaded by (simp add: hook_gate hook_still)
next
  case (HostapdChanged k v)
  then show ?thesis
    by (auto simp: on_hostapd_config_changed_def readies_def same_base_def hook_still intro!: hook_gate hook_eff_ok)
next
  case (HostapdReady p)
  then show ?thesis
    by (auto simp: wifi_hostapd_ready_def readies_def same_base_def Let_def intro!: hook_gate hook_eff_ok)
qed

interpretation wifi_mod: channel_module "wifi_hooks L T" for L T
proof unfold_locales
  fix e s c
  show "gate_step s (snd (h_loaded (wifi_hooks L T) e c s))"
    by (simp add: wifi_hooks_def gate_base_loaded hook_gate hook_still)
next
  fix e s
  show "hook_ok s (h_cleanup (wifi_hooks L T) e s)"
    by (simp add: wifi_hooks_def wifi_cleanup_def hook_ok_def eff_ok_def same_base_def readies_def)
qed (simp_all add: wifi_hooks_def call_on_frame_def hook_still hook_base_changed hook_wifi_init gate_wifi_own)

section \<open>Properties\<close>

definition silent :: "busmsg list \<Rightarrow> bool" where
  "silent ms = list_all (\<lambda>m. fst m \<noteq> ''aa.frame.send'') ms"

lemma silent_simps [simp]: "silent []" "silent (m # ms) \<longleftrightarrow> fst m \<noteq> ''aa.frame.send'' \<and> silent ms" "silent (xs @ ys) \<longleftrightarrow> silent xs \<and> silent ys"
  by (simp_all add: silent_def)

text \<open>A module whose hooks send no frame sends none.\<close>

definition mute_hooks :: "('e, 'x, 'a chan_scheme) hooks \<Rightarrow> bool" where
  "mute_hooks H \<longleftrightarrow>
     (\<forall>e s. silent (snd (snd (h_init H e s)))) \<and> (\<forall>e s. silent (snd (snd (h_cleanup H e s)))) \<and>
     (\<forall>e s. silent (snd (snd (h_on_open H e s)))) \<and> (\<forall>e s. silent (snd (snd (h_on_close H e s)))) \<and>
     (\<forall>e mid enc body s. silent (snd (snd (h_on_frame H e mid enc body s)))) \<and>
     (\<forall>e c s. silent (snd (snd (h_loaded H e c s)))) \<and> (\<forall>e k v s. silent (snd (snd (h_changed H e k v s)))) \<and>
     (\<forall>e x s. silent (snd (snd (h_own H e x s))))"

lemma silent_then: "silent (snd (snd a)) \<Longrightarrow> (\<And>s. silent (snd (snd (f s)))) \<Longrightarrow> silent (snd (snd (eff_then a f)))"
proof -
  assume a: "silent (snd (snd a))" and f: "\<And>s. silent (snd (snd (f s)))"
  obtain x s ms where r: "a = (x, s, ms)" by (cases a)
  obtain y s' ms' where q: "f s = (y, s', ms')" by (cases "f s")
  show ?thesis using a f [of s] r q by (cases x) simp_all
qed

lemma silent_ready: "silent (snd (snd (try_publish_ready r s)))"
  by (simp add: try_publish_ready_def eff_ok_def ready_msg_def)

lemma silent_step: "mute_hooks H \<Longrightarrow> silent (snd (chan_step H s ev))"
proof (cases ev)
  case (ModuleStart e p)
  assume H: "mute_hooks H"
  have "silent (snd (snd (config_request s)))"
    by (auto simp: config_request_def eff_ok_def client_get_def rbind_def split: sum.split)
  then show ?thesis
    using ModuleStart H
    by (auto simp: chan_step_def on_module_start_def mute_hooks_def eff_ok_def intro!: silent_then silent_ready)
next
  case (ModuleStop e)
  assume H: "mute_hooks H"
  then show ?thesis
    using ModuleStop by (auto simp: chan_step_def on_module_stop_def mute_hooks_def eff_ok_def intro!: silent_then)
qed (auto simp: chan_step_def mute_hooks_def on_aa_channel_open_def on_aa_channel_close_def on_aa_frame_def eff_ok_def split: sum.split)

lemma silent_run: "mute_hooks H \<Longrightarrow> silent (snd (run_events (chan_step H) s es))"
  by (induction es arbitrary: s) (simp_all add: Let_def silent_step)

lemma bt_mute: "mute_hooks (bt_hooks L)"
  by (simp add: mute_hooks_def bt_hooks_def call_on_frame_def eff_ok_def base_config_loaded_def silent_ready)

lemma wifi_mute: "mute_hooks (wifi_hooks L T)"
proof -
  have "silent (snd (snd (wifi_init s)))" for s
  proof (cases hostapd_request)
    case (Inl x)
    show ?thesis unfolding wifi_init_def Let_def Inl by simp
  next
    case (Inr m)
    show ?thesis unfolding wifi_init_def Let_def Inr using hostapd_request_topic [OF Inr] by (simp add: eff_ok_def)
  qed
  moreover have "silent (snd (snd (wifi_own T x s)))" for x s
    by (cases x) (simp_all add: eff_ok_def on_hostapd_config_loaded_def silent_ready Let_def)
  ultimately show ?thesis
    by (simp add: mute_hooks_def wifi_hooks_def call_on_frame_def eff_ok_def base_config_loaded_def silent_ready wifi_cleanup_def)
qed

text \<open>The bluetooth and WiFi channels never answer: the base class calls their frame handler with four
  arguments where it takes two, so whatever is configured and whatever the phone sends, neither module
  sends a frame, not even the response to the request to open its channel.\<close>

theorem plain_channels_never_answer:
  "filter (\<lambda>m. fst m = ''aa.frame.send'') (snd (run_events (chan_step (bt_hooks LB)) b bes)) = [] \<and>
   filter (\<lambda>m. fst m = ''aa.frame.send'') (snd (run_events (chan_step (wifi_hooks LW T)) w wes)) = []"
  using silent_run [OF bt_mute, of LB b bes] silent_run [OF wifi_mute, of LW T w wes]
  by (simp add: silent_def list_all_iff filter_empty_conv)

end
