(* ===== verification/PyText.thy ===== *)
theory PyText
  imports PyStr
begin

text \<open>
  String methods the code reads the output of programs with: \<^verbatim>\<open>splitlines\<close>, \<^verbatim>\<open>split\<close> on blanks and on a
  separator with a limit, \<^verbatim>\<open>replace\<close>, \<^verbatim>\<open>join\<close>, \<^verbatim>\<open>lower\<close>, \<^verbatim>\<open>upper\<close>, \<^verbatim>\<open>endswith\<close>, \<^verbatim>\<open>find\<close>. As everywhere, text is
  ASCII; a character beyond it counts as the bytes of its UTF-8 form, none of which these methods tell
  apart from a letter.
\<close>

section \<open>Lines and words\<close>

definition line_end :: "char \<Rightarrow> bool" where
  "line_end c = (let k = (of_char c :: nat) in (10 \<le> k \<and> k \<le> 13) \<or> (28 \<le> k \<and> k \<le> 30))"

definition CR :: char where "CR = CHR 0x0D"
definition LF :: char where "LF = CHR 0x0A"

text \<open>\<^verbatim>\<open>s.splitlines()\<close>; \<open>cr\<close> tells that the last character was a carriage return that ended a line, \<open>acc\<close> is the
  line read so far, reversed.\<close>

fun lines_acc :: "bool \<Rightarrow> string \<Rightarrow> string \<Rightarrow> string list" where
  "lines_acc cr acc [] = (if acc = [] then [] else [rev acc])"
| "lines_acc cr acc (c # cs) =
     (if cr \<and> c = LF then lines_acc False acc cs
      else if line_end c then rev acc # lines_acc (c = CR) [] cs
      else lines_acc False (c # acc) cs)"

definition splitlines :: "string \<Rightarrow> string list" where
  "splitlines s = lines_acc False [] s"

fun words_acc :: "string \<Rightarrow> string \<Rightarrow> string list" where
  "words_acc acc [] = (if acc = [] then [] else [rev acc])"
| "words_acc acc (c # cs) =
     (if u_space c then (if acc = [] then words_acc [] cs else rev acc # words_acc [] cs) else words_acc (c # acc) cs)"

text \<open>\<^verbatim>\<open>s.split()\<close>.\<close>

definition py_words :: "string \<Rightarrow> string list" where
  "py_words s = words_acc [] s"

fun py_join :: "string \<Rightarrow> string list \<Rightarrow> string" where
  "py_join sep [] = []"
| "py_join sep [x] = x"
| "py_join sep (x # y # ys) = x @ sep @ py_join sep (y # ys)"

text \<open>\<^verbatim>\<open>s.replace(old, new)\<close> for a nonempty \<open>old\<close>.\<close>

definition py_replace :: "string \<Rightarrow> string \<Rightarrow> string \<Rightarrow> string" where
  "py_replace old new s = py_join new (py_split old s)"

text \<open>\<^verbatim>\<open>s.split(c, 1)\<close>.\<close>

definition split_once :: "char \<Rightarrow> string \<Rightarrow> string list" where
  "split_once c s = (if c \<in> set s then [takeWhile (\<lambda>x. x \<noteq> c) s, tl (dropWhile (\<lambda>x. x \<noteq> c) s)] else [s])"

definition char_lower :: "char \<Rightarrow> char" where
  "char_lower c = (let k = (of_char c :: nat) in if 65 \<le> k \<and> k \<le> 90 then char_of (k + 32) else c)"

definition char_upper :: "char \<Rightarrow> char" where
  "char_upper c = (let k = (of_char c :: nat) in if 97 \<le> k \<and> k \<le> 122 then char_of (k - 32) else c)"

definition py_lower :: "string \<Rightarrow> string" where "py_lower = map char_lower"
definition py_upper :: "string \<Rightarrow> string" where "py_upper = map char_upper"

definition ends :: "string \<Rightarrow> string \<Rightarrow> bool" where
  "ends suf s = starts (rev suf) (rev s)"

section \<open>Facts\<close>

lemma lines_acc_prefix: "list_all (\<lambda>c. \<not> line_end c) l \<Longrightarrow> \<not> cr \<or> l \<noteq> [] \<Longrightarrow>
    lines_acc cr acc (l @ LF # s) = (rev acc @ l) # lines_acc False [] s"
proof (induction l arbitrary: cr acc)
  case Nil
  then show ?case by (simp add: LF_def CR_def line_end_def)
next
  case (Cons c l)
  then have "c \<noteq> LF" by (auto simp: LF_def line_end_def)
  with Cons show ?case by simp
qed

lemma splitlines_Cons:
  "list_all (\<lambda>c. \<not> line_end c) l \<Longrightarrow> splitlines (l @ LF # s) = l # splitlines s"
  by (simp add: splitlines_def lines_acc_prefix)

lemma splitlines_Nil [simp]: "splitlines [] = []"
  by (simp add: splitlines_def)

text \<open>Lines that end in line feeds are read back.\<close>

lemma splitlines_lines:
  "list_all (list_all (\<lambda>c. \<not> line_end c)) ls \<Longrightarrow> splitlines (concat (map (\<lambda>l. l @ [LF]) ls)) = ls"
proof (induction ls)
  case (Cons l ls)
  then show ?case using splitlines_Cons [of l "concat (map (\<lambda>l. l @ [LF]) ls)"] by simp
qed simp

text \<open>Text without the old string is not changed, and escaped text comes back.\<close>

definition escape_char :: "char \<Rightarrow> char \<Rightarrow> string \<Rightarrow> string" where
  "escape_char e c s = concat (map (\<lambda>x. if x = c then [e, c] else [x]) s)"

lemma escape_char_id: "c \<notin> set s \<Longrightarrow> escape_char e c s = s"
  by (induction s) (auto simp: escape_char_def)

lemma length_escape_char: "length (escape_char e c s) = length s + length (filter (\<lambda>x. x = c) s)"
  by (induction s) (auto simp: escape_char_def)

lemma escape_char_iff: "escape_char e c s = s \<longleftrightarrow> c \<notin> set s"
proof
  assume "escape_char e c s = s"
  then have "filter (\<lambda>x. x = c) s = []" using length_escape_char [of e c s] by simp
  then show "c \<notin> set s" by (auto simp: filter_empty_conv)
qed (rule escape_char_id)

lemma py_join_Cons: "ys \<noteq> [] \<Longrightarrow> py_join sep (x # ys) = x @ sep @ py_join sep ys"
  by (cases ys) auto

lemma split_escaped:
  assumes "e \<noteq> c"
  shows "e \<notin> set s \<Longrightarrow> py_join [c] (split_acc [e, c] acc (escape_char e c s)) = rev acc @ s"
proof (induction s arbitrary: acc)
  case Nil
  then show ?case by (simp add: escape_char_def split_acc_stop)
next
  case (Cons x s)
  show ?case
  proof (cases "x = c")
    case True
    have "split_acc [e, c] acc (e # c # escape_char e c s) = rev acc # split_acc [e, c] [] (escape_char e c s)"
      by (simp add: split_acc.simps [of _ acc] starts_def)
    then show ?thesis using True Cons.IH [of "[]"] Cons.prems by (simp add: escape_char_def py_join_Cons)
  next
    case False
    have "split_acc [e, c] acc (x # escape_char e c s) = split_acc [e, c] (x # acc) (escape_char e c s)"
      using Cons.prems by (auto simp: split_acc.simps [of _ acc] starts_def)
    then show ?thesis using False Cons.IH [of "x # acc"] Cons.prems by (simp add: escape_char_def)
  qed
qed

lemma replace_escaped: "e \<noteq> c \<Longrightarrow> e \<notin> set s \<Longrightarrow> py_replace [e, c] [c] (escape_char e c s) = s"
  using split_escaped [of e c s "[]"] by (simp add: py_replace_def py_split_def)

end
