(* ===== verification/ApDetect.thy ===== *)
theory ApDetect
  imports PyText ConfigSchema
begin

text \<open>
  \<^verbatim>\<open>services/ap_manager_service/ap_manager_service.py\<close>, the part that reads: the configuration a client sends,
  and the output of \<^verbatim>\<open>nmcli\<close> and \<^verbatim>\<open>ip\<close> from which the service decides whether the phone can join the network the
  head unit is on. What a program prints is an argument.
\<close>

section \<open>Configuration\<close>

record apconfig =
  ac_interface :: string
  ac_ssid :: string
  ac_key :: string
  ac_hw_mode :: string
  ac_channel :: int
  ac_subnet :: string
  ac_gateway_ip :: string
  ac_dhcp_start :: string
  ac_dhcp_end :: string
  ac_country :: string

definition default_apconfig :: apconfig where
  "default_apconfig = \<lparr>ac_interface = ''wlan0'', ac_ssid = ''AndroidAutoAP'', ac_key = [], ac_hw_mode = ''a'', ac_channel = 36,
     ac_subnet = ''10.0.0'', ac_gateway_ip = ''10.0.0.1'', ac_dhcp_start = ''10.0.0.10'', ac_dhcp_end = ''10.0.0.50'',
     ac_country = ''IT''\<rparr>"

text \<open>A \<^verbatim>\<open>ValueError\<close>, whose text is answered to the caller, or another exception.\<close>

datatype cfg_err = BadValue string | BadType exn

definition quoted :: "string \<Rightarrow> string" where
  "quoted s = CHR 0x27 # s @ [CHR 0x27]"

definition int_error_text :: "py_text \<Rightarrow> pyval \<Rightarrow> string" where
  "int_error_text T v =
     (case v of PStr s \<Rightarrow> ''invalid literal for int() with base 10: '' @ py_repr T v | _ \<Rightarrow> ''cannot convert float NaN to integer'')"

definition set_config_field :: "py_text \<Rightarrow> string \<Rightarrow> pyval \<Rightarrow> apconfig \<Rightarrow> cfg_err + apconfig" where
  "set_config_field T k v c =
     (if k = ''interface'' then Inr (c\<lparr>ac_interface := py_str T v\<rparr>)
      else if k = ''ssid'' then Inr (c\<lparr>ac_ssid := py_str T v\<rparr>)
      else if k = ''key'' then Inr (c\<lparr>ac_key := py_str T v\<rparr>)
      else if k = ''hw_mode'' then Inr (c\<lparr>ac_hw_mode := py_str T v\<rparr>)
      else if k = ''subnet'' then Inr (c\<lparr>ac_subnet := py_str T v\<rparr>)
      else if k = ''gateway_ip'' then Inr (c\<lparr>ac_gateway_ip := py_str T v\<rparr>)
      else if k = ''dhcp_range_start'' then Inr (c\<lparr>ac_dhcp_start := py_str T v\<rparr>)
      else if k = ''dhcp_range_end'' then Inr (c\<lparr>ac_dhcp_end := py_str T v\<rparr>)
      else if k = ''country_code'' then Inr (c\<lparr>ac_country := py_str T v\<rparr>)
      else if k = ''channel'' then
        (case py_int v of
           Inr i \<Rightarrow> Inr (c\<lparr>ac_channel := i\<rparr>)
         | Inl x \<Rightarrow> Inl (if x = ValueError then BadValue (int_error_text T v) else BadType x))
      else Inr c)"

fun config_fields :: "py_text \<Rightarrow> payload \<Rightarrow> apconfig \<Rightarrow> cfg_err + apconfig" where
  "config_fields T [] c = Inr c"
| "config_fields T ((k, v) # d) c = (case set_config_field T k v c of Inl e \<Rightarrow> Inl e | Inr c' \<Rightarrow> config_fields T d c')"

definition config_from_dbus_dict :: "py_text \<Rightarrow> payload \<Rightarrow> cfg_err + apconfig" where
  "config_from_dbus_dict T d =
     (case config_fields T d default_apconfig of
        Inl e \<Rightarrow> Inl e
      | Inr c \<Rightarrow>
          (if ac_hw_mode c \<noteq> ''a'' \<and> ac_hw_mode c \<noteq> ''g''
           then Inl (BadValue (''hw_mode must be '' @ quoted ''a'' @ '' or '' @ quoted ''g'' @ '', got '' @ quoted (ac_hw_mode c)))
           else if \<not> (1 \<le> ac_channel c \<and> ac_channel c \<le> 196)
           then Inl (BadValue (''channel must be 1-196, got '' @ str_of_int (ac_channel c)))
           else Inr c))"

section \<open>Output of programs\<close>

text \<open>A program could not be run (not found, timed out), or ended with a code and wrote this.\<close>

datatype cmd_result = CmdRaises exn | CmdDone int string

definition BS :: char where "BS = CHR 0x5C"
definition COLON :: char where "COLON = CHR 0x3A"

text \<open>\<^verbatim>\<open>re.split(r"(?<!\\):", line)\<close>: \<open>bs\<close> tells that the character before was a backslash.\<close>

fun nm_split :: "bool \<Rightarrow> string \<Rightarrow> string \<Rightarrow> string list" where
  "nm_split bs acc [] = [rev acc]"
| "nm_split bs acc (c # cs) =
     (if c = COLON \<and> \<not> bs then rev acc # nm_split False [] cs else nm_split (c = BS) (c # acc) cs)"

definition nm_unescape :: "string \<Rightarrow> string" where
  "nm_unescape s = py_replace [BS, COLON] [COLON] s"

definition ENTERPRISE_SECURITY_TYPES :: "string list" where
  "ENTERPRISE_SECURITY_TYPES = [''WPA2 802.1X'', ''WPA3 802.1X'', ''802.1X'']"

record wifi_net =
  wn_ssid :: string
  wn_bssid :: string
  wn_interface :: string
  wn_security :: string

text \<open>One line of the scan.\<close>

definition usable_wifi :: "string \<Rightarrow> wifi_net option" where
  "usable_wifi line =
     (case nm_split False [] line of
        active # ssid # bssid # device # security # net_type # rest \<Rightarrow>
          (let ssid = nm_unescape ssid; bssid = nm_unescape bssid; security = nm_unescape security in
           if py_lower active \<noteq> ''yes'' then None
           else if py_lower (py_strip net_type) \<noteq> ''wifi'' then None
           else if ssid = [] then None
           else if security = [] \<or> py_strip security = ''--'' then None
           else if list_ex (\<lambda>e. has_sub e security) ENTERPRISE_SECURITY_TYPES then None
           else Some \<lparr>wn_ssid = ssid, wn_bssid = py_upper bssid, wn_interface = py_strip device,
                      wn_security = py_strip security\<rparr>)
      | _ \<Rightarrow> None)"

text \<open>The first line a function gives a value for.\<close>

fun first_some :: "('a \<Rightarrow> 'b option) \<Rightarrow> 'a list \<Rightarrow> 'b option" where
  "first_some f [] = None"
| "first_some f (x # xs) = (case f x of None \<Rightarrow> first_some f xs | Some y \<Rightarrow> Some y)"

definition stdout_lines :: "cmd_result \<Rightarrow> string list" where
  "stdout_lines r = (case r of CmdRaises x \<Rightarrow> [] | CmdDone rc out \<Rightarrow> if rc \<noteq> 0 then [] else splitlines out)"

definition detect_existing_wifi :: "cmd_result \<Rightarrow> wifi_net option" where
  "detect_existing_wifi r = first_some usable_wifi (stdout_lines r)"

definition inet_address :: "string \<Rightarrow> string option" where
  "inet_address line =
     (let line = py_strip line; parts = py_words line in
      if starts ''inet '' line \<and> 2 \<le> length parts then Some (hd (py_split ''/'' (parts ! 1))) else None)"

definition get_iface_ip :: "cmd_result \<Rightarrow> string option" where
  "get_iface_ip r = first_some inet_address (stdout_lines r)"

definition PSK_FIELD :: string where "PSK_FIELD = ''802-11-wireless-security.psk:''"

definition psk_of_line :: "string \<Rightarrow> string option" where
  "psk_of_line line =
     (if \<not> has_sub PSK_FIELD line then None
      else (let psk = py_strip (last (split_once COLON line)) in if psk \<noteq> [] \<and> psk \<noteq> ''--'' then Some psk else None))"

definition get_wifi_psk :: "cmd_result \<Rightarrow> string option" where
  "get_wifi_psk r = first_some psk_of_line (stdout_lines r)"

definition get_mac :: "string option \<Rightarrow> string" where
  "get_mac file = (case file of None \<Rightarrow> ''00:00:00:00:00:00'' | Some s \<Rightarrow> py_upper (py_strip s))"

text \<open>A text file is iterated by lines, which end in line feeds or carriage returns.\<close>

definition count_dhcp_clients :: "string res \<Rightarrow> int" where
  "count_dhcp_clients file =
     (case file of
        Inl x \<Rightarrow> 0
      | Inr s \<Rightarrow> int (length (filter (\<lambda>l. py_strip l \<noteq> []) (py_split [LF] (replace_char CR LF s)))))"

section \<open>What nmcli prints\<close>

text \<open>A line of the terse format: fields joined by colons, a colon inside a field escaped by a backslash.\<close>

definition nm_line :: "string list \<Rightarrow> string" where
  "nm_line fs = py_join [COLON] (map (escape_char BS COLON) fs)"

lemma BS_COLON [simp]: "BS \<noteq> COLON" "COLON \<noteq> BS"
  by (simp_all add: BS_def COLON_def)

lemma nm_split_field:
  "BS \<notin> set f \<Longrightarrow> nm_split False acc (escape_char BS COLON f @ COLON # s) = (rev acc @ escape_char BS COLON f) # nm_split False [] s"
  by (induction f arbitrary: acc) (auto simp: escape_char_def)

lemma nm_split_last:
  "BS \<notin> set f \<Longrightarrow> nm_split False acc (escape_char BS COLON f) = [rev acc @ escape_char BS COLON f]"
  by (induction f arbitrary: acc) (auto simp: escape_char_def)

lemma nm_split_line:
  "fs \<noteq> [] \<Longrightarrow> \<forall>f \<in> set fs. BS \<notin> set f \<Longrightarrow> nm_split False [] (nm_line fs) = map (escape_char BS COLON) fs"
proof (induction fs)
  case (Cons f fs)
  show ?case
  proof (cases "fs = []")
    case True
    then show ?thesis using Cons.prems nm_split_last [of f "[]"] by (simp add: nm_line_def)
  next
    case False
    then have "nm_line (f # fs) = escape_char BS COLON f @ COLON # nm_line fs"
      by (simp add: nm_line_def py_join_Cons)
    then show ?thesis using Cons False nm_split_field [of f "[]"] by simp
  qed
qed simp

lemma nm_unescape_escape: "BS \<notin> set f \<Longrightarrow> nm_unescape (escape_char BS COLON f) = f"
  by (simp add: nm_unescape_def replace_escaped)

lemma first_some_Some: "first_some f xs = Some y \<Longrightarrow> \<exists>x \<in> set xs. f x = Some y"
  by (induction xs) (auto split: option.splits)

lemma first_some_skip: "list_all (\<lambda>x. f x = None) xs \<Longrightarrow> first_some f (xs @ ys) = first_some f ys"
  by (induction xs) auto

lemma usable_wifi_security:
  assumes "usable_wifi line = Some w"
  shows "wn_ssid w \<noteq> [] \<and> wn_security w \<noteq> ''--'' \<and>
    (\<exists>security. wn_security w = py_strip security \<and> security \<noteq> [] \<and> \<not> has_sub ''802.1X'' security)"
  using assms by (auto simp: usable_wifi_def Let_def ENTERPRISE_SECURITY_TYPES_def split: list.splits if_splits)

section \<open>Properties\<close>

text \<open>Every active network with a pre-shared key that \<^verbatim>\<open>nmcli\<close> lists is read back with its name, address, interface
  and security, colons in the name included, and it is chosen when no line before it is usable.\<close>

theorem wifi_scan_roundtrip:
  assumes "BS \<notin> set ssid" "BS \<notin> set bssid" "BS \<notin> set dev" "BS \<notin> set sec" "COLON \<notin> set dev" and "ssid \<noteq> []" "sec \<noteq> []" "py_strip sec \<noteq> ''--''"
    and "\<not> has_sub ''802.1X'' sec" and "line = nm_line [''yes'', ssid, bssid, dev, sec, ''wifi'']"
    and "list_all (list_all (\<lambda>c. \<not> line_end c)) (before @ line # after)" "list_all (\<lambda>l. usable_wifi l = None) before"
  shows "detect_existing_wifi (CmdDone 0 (concat (map (\<lambda>l. l @ [LF]) (before @ line # after)))) =
    Some \<lparr>wn_ssid = ssid, wn_bssid = py_upper bssid, wn_interface = py_strip dev, wn_security = py_strip sec\<rparr>"
proof -
  have plain: "BS \<notin> set ''yes''" "BS \<notin> set ''wifi''" "escape_char BS COLON ''yes'' = ''yes''" "escape_char BS COLON ''wifi'' = ''wifi''"
    by (simp_all add: BS_def COLON_def escape_char_def)
  have dev: "escape_char BS COLON dev = dev"
    using assms(5) by (rule escape_char_id)
  have split: "nm_split False [] line = [''yes'', escape_char BS COLON ssid, escape_char BS COLON bssid, dev, escape_char BS COLON sec, ''wifi'']"
    using assms(1-4,10) nm_split_line [of "[''yes'', ssid, bssid, dev, sec, ''wifi'']"] plain dev by simp
  have sub: "has_sub ''802.1X'' (a @ ''802.1X'')" for a using has_sub_append [of "''802.1X''" a "[]"] by simp
  have "\<not> has_sub e sec" if "e \<in> {''WPA2 802.1X'', ''WPA3 802.1X'', ''802.1X''}" for e
  proof
    assume "has_sub e sec"
    then obtain a b where ab: "sec = a @ e @ b" by (auto dest: has_sub_split)
    have "e = ''WPA2 '' @ ''802.1X'' \<or> e = ''WPA3 '' @ ''802.1X'' \<or> e = [] @ ''802.1X''" using that by auto
    then obtain c where "e = c @ ''802.1X''" by blast
    then have "sec = (a @ c) @ ''802.1X'' @ b" using ab by simp
    then have "has_sub ''802.1X'' sec" by (simp only: has_sub_append)
    with assms(9) show False by contradiction
  qed
  then have ent: "\<not> list_ex (\<lambda>e. has_sub e sec) ENTERPRISE_SECURITY_TYPES" by (simp add: ENTERPRISE_SECURITY_TYPES_def)
  have low: "py_lower ''yes'' = ''yes''" "py_lower (py_strip ''wifi'') = ''wifi''" by code_simp+
  have "usable_wifi line = Some \<lparr>wn_ssid = ssid, wn_bssid = py_upper bssid, wn_interface = py_strip dev, wn_security = py_strip sec\<rparr>"
    using assms(1-9) ent by (simp add: usable_wifi_def split nm_unescape_escape low Let_def)
  then show ?thesis
    using assms(12) unfolding detect_existing_wifi_def stdout_lines_def cmd_result.case splitlines_lines [OF assms(11)]
    by (simp add: first_some_skip)
qed

theorem wifi_scan_roundtrip_witness:
  "detect_existing_wifi (CmdDone 0 (concat (map (\<lambda>l. l @ [LF])
     ([''no:x:00:w:WPA2:wifi''] @ nm_line [''yes'', ''a:b'', ''0a:1b'', ''wlan0'', ''WPA2'', ''wifi''] # [])))) =
   Some \<lparr>wn_ssid = ''a:b'', wn_bssid = ''0A:1B'', wn_interface = ''wlan0'', wn_security = ''WPA2''\<rparr>"
proof -
  have "py_upper ''0a:1b'' = ''0A:1B''" "py_strip ''wlan0'' = ''wlan0''" "py_strip ''WPA2'' = ''WPA2''" by code_simp+
  moreover have "detect_existing_wifi (CmdDone 0 (concat (map (\<lambda>l. l @ [LF])
     ([''no:x:00:w:WPA2:wifi''] @ nm_line [''yes'', ''a:b'', ''0a:1b'', ''wlan0'', ''WPA2'', ''wifi''] # [])))) =
   Some \<lparr>wn_ssid = ''a:b'', wn_bssid = py_upper ''0a:1b'', wn_interface = py_strip ''wlan0'', wn_security = py_strip ''WPA2''\<rparr>"
    by (rule wifi_scan_roundtrip [OF _ _ _ _ _ _ _ _ _ refl]) code_simp+
  ultimately show ?thesis by simp
qed

text \<open>The key of a stored connection is read with its escapes: \<^verbatim>\<open>nmcli\<close> prints a colon in it as backslash and
  colon, and what comes back is that text and not the key.\<close>

theorem psk_keeps_escapes:
  assumes "list_all (\<lambda>c. \<not> u_space c \<and> \<not> line_end c \<and> c \<noteq> BS) psk" "psk \<noteq> []" "psk \<noteq> ''--''"
  shows "get_wifi_psk (CmdDone 0 (PSK_FIELD @ escape_char BS COLON psk @ [LF])) = Some (escape_char BS COLON psk) \<and>
    (escape_char BS COLON psk = psk \<longleftrightarrow> COLON \<notin> set psk)"
proof -
  let ?e = "escape_char BS COLON psk"
  have f: "\<forall>c \<in> set (PSK_FIELD @ ?e). \<not> line_end c" "\<forall>c \<in> set ?e. \<not> u_space c"
    using assms(1)
    by (auto simp: escape_char_def PSK_FIELD_def BS_def COLON_def line_end_def u_space_def list_all_iff Let_def split: if_splits)
  have l: "splitlines (PSK_FIELD @ ?e @ [LF]) = [PSK_FIELD @ ?e]"
    using f(1) splitlines_Cons [of "PSK_FIELD @ ?e" "[]"] by (simp add: list_all_iff)
  have n: "?e \<noteq> []" using assms(2) length_escape_char [of BS COLON psk] by (metis add_is_0 length_0_conv)
  have d: "?e \<noteq> ''--''"
  proof
    assume "?e = ''--''"
    then have "nm_unescape ?e = ''--''" by (simp add: nm_unescape_def py_replace_def py_split_def split_acc_none COLON_def BS_def starts_def)
    moreover have "nm_unescape ?e = psk" using assms(1) by (auto simp: nm_unescape_escape list_all_iff)
    ultimately show False using assms(3) by simp
  qed
  have s: "split_once COLON (PSK_FIELD @ ?e) = [''802-11-wireless-security.psk'', ?e]"
    by (simp add: split_once_def PSK_FIELD_def COLON_def)
  have "has_sub PSK_FIELD (PSK_FIELD @ ?e)" using has_sub_append [of PSK_FIELD "[]" ?e] by simp
  then have "get_wifi_psk (CmdDone 0 (PSK_FIELD @ ?e @ [LF])) = Some ?e"
    using n d by (simp add: get_wifi_psk_def stdout_lines_def l psk_of_line_def s py_strip_id [OF f(2)])
  then show ?thesis by (simp add: escape_char_iff)
qed

theorem psk_keeps_escapes_witness:
  "get_wifi_psk (CmdDone 0 (PSK_FIELD @ escape_char BS COLON ''pass:word'' @ [LF])) = Some (''pass'' @ [BS] @ '':word'')"
proof -
  have "escape_char BS COLON ''pass:word'' = ''pass'' @ [BS] @ '':word''" by code_simp
  moreover have "list_all (\<lambda>c. \<not> u_space c \<and> \<not> line_end c \<and> c \<noteq> BS) ''pass:word''" by code_simp
  ultimately show ?thesis using psk_keeps_escapes [of "''pass:word''"] by simp
qed

end
