(* ===== verification/ApService.thy ===== *)
theory ApService
  imports ApDetect Machines
begin

text \<open>
  \<^verbatim>\<open>services/ap_manager_service/ap_manager_service.py\<close>, the part that acts: the daemon that runs as root, starts
  and stops the access point (or lets the phone join the network the head unit is on) and answers over
  D-Bus. Everything it does to the system is an operation of a trace; what a program answers is a function
  of the place in the trace and of the command line, so that two runs of one command may differ.
\<close>

section \<open>The system\<close>

datatype ap_op =
    Cmd "string list"
  | Spawn "string list" nat
  | Kill nat
  | WriteTmp string string
  | Unlink string

datatype spawned = Spawned nat | NoBinary | SpawnRaises exn

text \<open>\<open>os_alive OS n p\<close>: after \<open>n\<close> operations \<^verbatim>\<open>poll()\<close> of process \<open>p\<close> returns \<^verbatim>\<open>None\<close>. \<open>os_stderr\<close> is what a process that ended
  wrote, \<open>os_tmp\<close> the path of a new temporary file, \<open>os_key\<close> the random key of the given length.\<close>

record ap_os =
  os_cmd :: "nat \<Rightarrow> string list \<Rightarrow> cmd_result"
  os_spawn :: "nat \<Rightarrow> string list \<Rightarrow> spawned"
  os_alive :: "nat \<Rightarrow> nat \<Rightarrow> bool"
  os_stderr :: "nat \<Rightarrow> string"
  os_tmp :: "nat \<Rightarrow> string res"
  os_mac :: "string \<Rightarrow> string option"
  os_key :: "nat \<Rightarrow> string"
  os_leases :: "string res"

datatype ap_mode = ApMode | JoinMode

record ap_runner =
  r_cfg :: "apconfig option"
  r_bssid :: string
  r_mode :: "ap_mode option"
  r_hostapd :: "nat option"
  r_dnsmasq :: "nat option"
  r_hconf :: "string option"
  r_dconf :: "string option"
  r_ops :: "ap_op list"

definition new_runner :: ap_runner where
  "new_runner = \<lparr>r_cfg = None, r_bssid = [], r_mode = None, r_hostapd = None, r_dnsmasq = None, r_hconf = None, r_dconf = None,
     r_ops = []\<rparr>"

text \<open>\<^verbatim>\<open>RuntimeError\<close> with its text, which \<^verbatim>\<open>Start\<close> handles, or any other exception.\<close>

datatype ap_exn = Failed string | Escapes exn

type_synonym ap_eff = "ap_exn option \<times> ap_runner"

definition ap_ok :: "ap_runner \<Rightarrow> ap_eff" where
  "ap_ok r = (None, r)"

definition ap_then :: "ap_eff \<Rightarrow> (ap_runner \<Rightarrow> ap_eff) \<Rightarrow> ap_eff" where
  "ap_then a f = (case a of (None, r) \<Rightarrow> f r | (Some x, r) \<Rightarrow> (Some x, r))"

definition op :: "ap_op \<Rightarrow> ap_runner \<Rightarrow> ap_runner" where
  "op x r = r\<lparr>r_ops := r_ops r @ [x]\<rparr>"

definition alive :: "ap_os \<Rightarrow> ap_runner \<Rightarrow> nat option \<Rightarrow> bool" where
  "alive OS r p = (case p of None \<Rightarrow> False | Some k \<Rightarrow> os_alive OS (length (r_ops r)) k)"

definition answer :: "ap_os \<Rightarrow> ap_runner \<Rightarrow> string list \<Rightarrow> cmd_result" where
  "answer OS r cmd = os_cmd OS (length (r_ops r)) cmd"

text \<open>\<^verbatim>\<open>_run\<close> where the result is not looked at.\<close>

definition run_cmd :: "ap_os \<Rightarrow> string list \<Rightarrow> ap_runner \<Rightarrow> ap_eff" where
  "run_cmd OS cmd r = (case answer OS r cmd of CmdRaises x \<Rightarrow> (Some (Escapes x), op (Cmd cmd) r) | _ \<Rightarrow> ap_ok (op (Cmd cmd) r))"

fun run_cmds :: "ap_os \<Rightarrow> string list list \<Rightarrow> ap_runner \<Rightarrow> ap_eff" where
  "run_cmds OS [] r = ap_ok r"
| "run_cmds OS (c # cs) r = ap_then (run_cmd OS c r) (run_cmds OS cs)"

definition write_temp :: "ap_os \<Rightarrow> string \<Rightarrow> ap_runner \<Rightarrow> exn option \<times> string \<times> ap_runner" where
  "write_temp OS content r =
     (case os_tmp OS (length (r_ops r)) of Inl x \<Rightarrow> (Some x, [], r) | Inr path \<Rightarrow> (None, path, op (WriteTmp path content) r))"

definition cleanup_file :: "string option \<Rightarrow> ap_runner \<Rightarrow> ap_runner" where
  "cleanup_file path r = (case path of None \<Rightarrow> r | Some p \<Rightarrow> if p = [] then r else op (Unlink p) r)"

definition kill_proc :: "ap_os \<Rightarrow> nat option \<Rightarrow> ap_runner \<Rightarrow> ap_runner" where
  "kill_proc OS p r = (if alive OS r p then op (Kill (the p)) r else r)"

section \<open>Commands\<close>

definition scan_cmd :: "string list" where
  "scan_cmd = [''nmcli'', ''-t'', ''-f'', ''active,ssid,bssid,device,security,type'', ''device'', ''wifi'']"

definition ip_cmd :: "string \<Rightarrow> string list" where
  "ip_cmd iface = [''ip'', ''-4'', ''addr'', ''show'', ''dev'', iface]"

definition psk_cmd :: "string \<Rightarrow> string list" where
  "psk_cmd ssid = [''nmcli'', ''-s'', ''-t'', ''-f'', ''802-11-wireless-security.psk'', ''connection'', ''show'', ssid]"

definition configure_cmds :: "string \<Rightarrow> string \<Rightarrow> string list list" where
  "configure_cmds iface gw =
     [[''rfkill'', ''unblock'', ''wifi''], [''ip'', ''link'', ''set'', iface, ''down''], [''ip'', ''addr'', ''flush'', ''dev'', iface],
      [''iw'', ''dev'', iface, ''set'', ''type'', ''__ap''], [''ip'', ''link'', ''set'', iface, ''up''],
      [''ip'', ''addr'', ''add'', gw @ ''/24'', ''dev'', iface]]"

definition nm_managed_cmd :: "string \<Rightarrow> bool \<Rightarrow> string list" where
  "nm_managed_cmd iface managed = [''nmcli'', ''device'', ''set'', iface, ''managed'', if managed then ''yes'' else ''no'']"

definition set_nm_managed :: "ap_os \<Rightarrow> bool \<Rightarrow> ap_runner \<Rightarrow> ap_eff" where
  "set_nm_managed OS managed r = (case r_cfg r of None \<Rightarrow> ap_ok r | Some c \<Rightarrow> run_cmd OS (nm_managed_cmd (ac_interface c) managed) r)"

definition restart_nm :: "string list" where
  "restart_nm = [''systemctl'', ''restart'', ''NetworkManager'']"

definition restore_interface :: "ap_os \<Rightarrow> ap_runner \<Rightarrow> ap_eff" where
  "restore_interface OS r =
     (case r_cfg r of None \<Rightarrow> ap_ok r | Some c \<Rightarrow> run_cmd OS [''ip'', ''addr'', ''flush'', ''dev'', ac_interface c] r)"

definition stop_conflicting :: "ap_os \<Rightarrow> ap_runner \<Rightarrow> ap_eff" where
  "stop_conflicting OS r =
     (let q = [''systemctl'', ''is-active'', ''--quiet'', ''hostapd'']; r' = op (Cmd q) r in
      case answer OS r q of
        CmdRaises x \<Rightarrow> (Some (Escapes x), r')
      | CmdDone rc out \<Rightarrow> (if rc \<noteq> 0 then ap_ok r' else run_cmd OS [''systemctl'', ''stop'', ''hostapd''] r'))"

definition kill_stale :: "ap_os \<Rightarrow> string \<Rightarrow> ap_runner \<Rightarrow> ap_eff" where
  "kill_stale OS pattern r =
     (let q = [''pgrep'', ''-af'', pattern]; r' = op (Cmd q) r in
      case answer OS r q of
        CmdRaises x \<Rightarrow> (Some (Escapes x), r')
      | CmdDone rc out \<Rightarrow>
          (if py_strip out = [] then ap_ok r'
           else run_cmds OS [[''pkill'', ''-TERM'', ''-f'', pattern], [''pkill'', ''-KILL'', ''-f'', pattern]] r'))"

definition cleanup_stale_daemons :: "ap_os \<Rightarrow> ap_runner \<Rightarrow> ap_eff" where
  "cleanup_stale_daemons OS r =
     ap_then (kill_stale OS ''hostapd /tmp/hostapd_'' r) (kill_stale OS ''dnsmasq --conf-file=/tmp/dnsmasq_'')"

section \<open>Configuration files\<close>

definition hostapd_lines :: "apconfig \<Rightarrow> string list" where
  "hostapd_lines c =
     [''interface='' @ ac_interface c, ''driver=nl80211'', ''country_code='' @ ac_country c, ''ieee80211d=1'', ''ssid='' @ ac_ssid c,
      ''hw_mode='' @ ac_hw_mode c, ''channel='' @ str_of_int (ac_channel c), ''ieee80211n=1'', ''wmm_enabled=1'', ''macaddr_acl=0'',
      ''auth_algs=1'', ''ignore_broadcast_ssid=0'', ''wpa=2'', ''wpa_passphrase='' @ ac_key c, ''wpa_key_mgmt=WPA-PSK'', ''rsn_pairwise=CCMP'']
     @ (if ac_hw_mode c = ''a'' then [''ht_capab=[HT40+][SHORT-GI-20][SHORT-GI-40]''] else [])"

definition dnsmasq_lines :: "apconfig \<Rightarrow> string list" where
  "dnsmasq_lines c =
     [''interface='' @ ac_interface c, ''dhcp-range='' @ ac_dhcp_start c @ '','' @ ac_dhcp_end c @ '',12h'',
      ''dhcp-option=3,'' @ ac_gateway_ip c, ''dhcp-option=6,'' @ ac_gateway_ip c, ''server=8.8.8.8'', ''log-queries'', ''log-dhcp'',
      ''listen-address='' @ ac_gateway_ip c, ''bind-interfaces'']"

definition conf_text :: "string list \<Rightarrow> string" where
  "conf_text ls = concat (map (\<lambda>l. l @ [LF]) ls)"

definition write_hostapd_conf :: "ap_os \<Rightarrow> apconfig \<Rightarrow> ap_runner \<Rightarrow> ap_eff" where
  "write_hostapd_conf OS c r =
     (case write_temp OS (conf_text (hostapd_lines c)) r of
        (Some x, _, r') \<Rightarrow> (Some (Escapes x), r') | (None, path, r') \<Rightarrow> ap_ok (r'\<lparr>r_hconf := Some path\<rparr>))"

definition write_dnsmasq_conf :: "ap_os \<Rightarrow> apconfig \<Rightarrow> ap_runner \<Rightarrow> ap_eff" where
  "write_dnsmasq_conf OS c r =
     (case write_temp OS (conf_text (dnsmasq_lines c)) r of
        (Some x, _, r') \<Rightarrow> (Some (Escapes x), r') | (None, path, r') \<Rightarrow> ap_ok (r'\<lparr>r_dconf := Some path\<rparr>))"

section \<open>Daemons\<close>

text \<open>Start a daemon and look 0.3 s later whether it is still there (the long dash of the messages is a hyphen
  here).\<close>

definition start_hostapd :: "ap_os \<Rightarrow> ap_runner \<Rightarrow> ap_eff" where
  "start_hostapd OS r =
     (let cmd = [''hostapd'', the (r_hconf r)] in
      case os_spawn OS (length (r_ops r)) cmd of
        NoBinary \<Rightarrow> (Some (Failed ''hostapd not found - install hostapd''), r)
      | SpawnRaises x \<Rightarrow> (Some (Escapes x), r)
      | Spawned p \<Rightarrow>
          (let r' = (op (Spawn cmd p) r)\<lparr>r_hostapd := Some p\<rparr> in
           if alive OS r' (Some p) then ap_ok r'
           else (Some (Failed (''hostapd exited immediately: '' @ py_strip (os_stderr OS p))), r')))"

definition start_dnsmasq :: "ap_os \<Rightarrow> ap_runner \<Rightarrow> ap_eff" where
  "start_dnsmasq OS r =
     (let cmd = [''dnsmasq'', ''--conf-file='' @ the (r_dconf r), ''--no-daemon''] in
      case os_spawn OS (length (r_ops r)) cmd of
        NoBinary \<Rightarrow> (Some (Failed ''dnsmasq not found - install dnsmasq''), r)
      | SpawnRaises x \<Rightarrow> (Some (Escapes x), r)
      | Spawned p \<Rightarrow>
          (let r' = (op (Spawn cmd p) r)\<lparr>r_dnsmasq := Some p\<rparr> in
           if alive OS r' (Some p) then ap_ok r'
           else (Some (Failed (''dnsmasq exited immediately: '' @ py_strip (os_stderr OS p))), r')))"

section \<open>The runner\<close>

definition reset_state :: "ap_runner \<Rightarrow> ap_runner" where
  "reset_state r = r\<lparr>r_cfg := None, r_bssid := [], r_mode := None, r_hconf := None, r_dconf := None\<rparr>"

definition with_key :: "ap_os \<Rightarrow> apconfig \<Rightarrow> apconfig" where
  "with_key OS c = (if ac_key c = [] then c\<lparr>ac_key := os_key OS 12\<rparr> else c)"

definition release_interface :: "ap_os \<Rightarrow> apconfig \<Rightarrow> ap_runner \<Rightarrow> ap_eff" where
  "release_interface OS c r = ap_then (run_cmd OS [''nmcli'', ''device'', ''disconnect'', ac_interface c] r) (set_nm_managed OS False)"

definition start_daemons :: "ap_os \<Rightarrow> ap_runner \<Rightarrow> ap_eff" where
  "start_daemons OS r =
     ap_then (ap_then (start_hostapd OS r) (start_dnsmasq OS)) (\<lambda>r. ap_ok (r\<lparr>r_mode := Some ApMode\<rparr>))"

definition prepare_ap :: "ap_os \<Rightarrow> apconfig \<Rightarrow> ap_runner \<Rightarrow> ap_eff" where
  "prepare_ap OS c r =
     ap_then (ap_then (stop_conflicting OS r) (cleanup_stale_daemons OS)) (\<lambda>r.
       ap_then (ap_then (release_interface OS c (r\<lparr>r_bssid := get_mac (os_mac OS (ac_interface c))\<rparr>))
                        (run_cmds OS (configure_cmds (ac_interface c) (ac_gateway_ip c))))
               (\<lambda>r. ap_then (write_hostapd_conf OS c r) (write_dnsmasq_conf OS c)))"

definition start_ap :: "ap_os \<Rightarrow> apconfig \<Rightarrow> ap_runner \<Rightarrow> ap_eff" where
  "start_ap OS cfg r =
     (let c = with_key OS cfg in ap_then (prepare_ap OS c (r\<lparr>r_cfg := Some c\<rparr>)) (start_daemons OS))"

definition join_config :: "string \<Rightarrow> string \<Rightarrow> string \<Rightarrow> string \<Rightarrow> apconfig" where
  "join_config iface ssid psk ip =
     default_apconfig\<lparr>ac_interface := iface, ac_ssid := ssid, ac_key := psk, ac_gateway_ip := ip\<rparr>"

definition start_join_network :: "ap_os \<Rightarrow> apconfig \<Rightarrow> wifi_net \<Rightarrow> ap_runner \<Rightarrow> ap_eff" where
  "start_join_network OS cfg w r =
     (let q = ip_cmd (wn_interface w); r1 = op (Cmd q) r in
      case get_iface_ip (answer OS r q) of
        None \<Rightarrow> start_ap OS cfg r1
      | Some ip \<Rightarrow>
          (if ip = [] then start_ap OS cfg r1
           else (let p = psk_cmd (wn_ssid w); r2 = op (Cmd p) r1 in
             case get_wifi_psk (answer OS r1 p) of
               None \<Rightarrow> start_ap OS cfg r2
             | Some psk \<Rightarrow>
                 ap_ok (r2\<lparr>r_cfg := Some (join_config (wn_interface w) (wn_ssid w) psk ip), r_bssid := wn_bssid w,
                           r_mode := Some JoinMode\<rparr>))))"

definition runner_start :: "ap_os \<Rightarrow> apconfig \<Rightarrow> ap_runner \<Rightarrow> ap_eff" where
  "runner_start OS cfg r =
     (let r' = op (Cmd scan_cmd) r in
      case detect_existing_wifi (answer OS r scan_cmd) of None \<Rightarrow> start_ap OS cfg r' | Some w \<Rightarrow> start_join_network OS cfg w r')"

definition teardown_ap :: "ap_os \<Rightarrow> ap_runner \<Rightarrow> ap_eff" where
  "teardown_ap OS r =
     (let r1 = kill_proc OS (r_hostapd r) r;
          r2 = kill_proc OS (r_dnsmasq r1) r1;
          r3 = r2\<lparr>r_hostapd := None, r_dnsmasq := None\<rparr>;
          r4 = cleanup_file (r_dconf r3) (cleanup_file (r_hconf r3) r3)
      in ap_then (ap_then (ap_then (restore_interface OS r4) (set_nm_managed OS True)) (run_cmd OS restart_nm)) (\<lambda>r. ap_ok (reset_state r)))"

definition runner_stop :: "ap_os \<Rightarrow> ap_runner \<Rightarrow> ap_eff" where
  "runner_stop OS r = (if r_mode r = Some JoinMode then ap_ok (reset_state r) else teardown_ap OS r)"

definition is_running :: "ap_os \<Rightarrow> ap_runner \<Rightarrow> bool" where
  "is_running OS r =
     (if r_mode r = Some JoinMode then r_cfg r \<noteq> None else alive OS r (r_hostapd r) \<and> alive OS r (r_dnsmasq r))"

definition get_params :: "ap_runner \<Rightarrow> payload" where
  "get_params r =
     (case r_cfg r of
        None \<Rightarrow> []
      | Some c \<Rightarrow>
          [(''ssid'', PStr (ac_ssid c)), (''bssid'', PStr (r_bssid r)), (''interface'', PStr (ac_interface c)),
           (''gateway_ip'', PStr (ac_gateway_ip c)), (''security_mode'', PInt 8), (''ap_type'', PInt 1)])"

definition get_key :: "ap_runner \<Rightarrow> string" where
  "get_key r = (case r_cfg r of None \<Rightarrow> [] | Some c \<Rightarrow> ac_key c)"

section \<open>The D-Bus service\<close>

text \<open>What a caller gets: an error with its D-Bus name and text, or the error D-Bus makes of an exception.\<close>

datatype dbus_err = DErr string string | PyErr exn

datatype ap_signal = APStarted payload | APStopped | APFailed string

text \<open>PolicyKit answers, raises a D-Bus error, or fails in another way.\<close>

datatype polkit = PolkitAnswer bool | PolkitError string string | PolkitBroken

definition polkit_check :: "string \<Rightarrow> polkit \<Rightarrow> dbus_err option" where
  "polkit_check action p =
     (case p of
        PolkitAnswer ok \<Rightarrow>
          (if ok then None
           else Some (DErr ''org.nemo.APManager.Error.NotAuthorized'' (''Not authorised for action '' @ quoted action)))
      | PolkitError n m \<Rightarrow> Some (DErr n m)
      | PolkitBroken \<Rightarrow> Some (DErr ''org.nemo.APManager.Error.NotAuthorized'' ''PolicyKit unavailable''))"

definition ap_start :: "py_text \<Rightarrow> ap_os \<Rightarrow> polkit \<Rightarrow> payload \<Rightarrow> ap_runner \<Rightarrow> (dbus_err option \<times> ap_runner \<times> ap_signal list)" where
  "ap_start T OS pk config r =
     (case polkit_check ''org.nemo.apmanager.start'' pk of
        Some e \<Rightarrow> (Some e, r, [])
      | None \<Rightarrow>
          (if is_running OS r then (Some (DErr ''org.nemo.APManager.Error.AlreadyRunning'' ''AP is already running''), r, [])
           else (case config_from_dbus_dict T config of
              Inl (BadValue m) \<Rightarrow> (Some (DErr ''org.nemo.APManager.Error.InvalidConfig'' m), r, [])
            | Inl (BadType x) \<Rightarrow> (Some (PyErr x), r, [])
            | Inr cfg \<Rightarrow>
                (case runner_start OS cfg r of
                   (None, r') \<Rightarrow> (None, r', [APStarted (map (\<lambda>(k, v). (k, PStr (py_str T v))) (get_params r'))])
                 | (Some (Escapes x), r') \<Rightarrow> (Some (PyErr x), r', [])
                 | (Some (Failed m), r') \<Rightarrow>
                     (Some (DErr ''org.nemo.APManager.Error.StartFailed'' m), snd (runner_stop OS r'), [APFailed m])))))"

definition ap_stop :: "ap_os \<Rightarrow> polkit \<Rightarrow> ap_runner \<Rightarrow> (dbus_err option \<times> ap_runner \<times> ap_signal list)" where
  "ap_stop OS pk r =
     (case polkit_check ''org.nemo.apmanager.stop'' pk of
        Some e \<Rightarrow> (Some e, r, [])
      | None \<Rightarrow>
          (if \<not> is_running OS r then (Some (DErr ''org.nemo.APManager.Error.NotRunning'' ''AP is not running''), r, [])
           else (case runner_stop OS r of
              (None, r') \<Rightarrow> (None, r', [APStopped])
            | (Some (Escapes x), r') \<Rightarrow> (Some (PyErr x), r', [])
            | (Some (Failed m), r') \<Rightarrow> (Some (PyErr RuntimeError), r', []))))"

record ap_status =
  st_state :: string
  st_ssid :: string
  st_bssid :: string
  st_gateway_ip :: string
  st_key :: string
  st_clients :: int

definition str_param :: "payload \<Rightarrow> string \<Rightarrow> string" where
  "str_param p k = (case dget_or p k (PStr []) of PStr s \<Rightarrow> s | _ \<Rightarrow> [])"

definition ap_status_of :: "ap_os \<Rightarrow> polkit \<Rightarrow> ap_runner \<Rightarrow> dbus_err + ap_status" where
  "ap_status_of OS pk r =
     (case polkit_check ''org.nemo.apmanager.status'' pk of
        Some e \<Rightarrow> Inl e
      | None \<Rightarrow>
          Inr (if is_running OS r
               then \<lparr>st_state = ''running'', st_ssid = str_param (get_params r) ''ssid'', st_bssid = str_param (get_params r) ''bssid'',
                     st_gateway_ip = str_param (get_params r) ''gateway_ip'', st_key = get_key r,
                     st_clients = count_dhcp_clients (os_leases OS)\<rparr>
               else \<lparr>st_state = ''stopped'', st_ssid = [], st_bssid = [], st_gateway_ip = [], st_key = [], st_clients = 0\<rparr>))"

text \<open>SIGTERM and SIGINT.\<close>

definition on_sigterm :: "ap_os \<Rightarrow> ap_runner \<Rightarrow> ap_eff" where
  "on_sigterm OS r = (if is_running OS r then runner_stop OS r else ap_ok r)"

section \<open>Rules for the steps\<close>

text \<open>What holds after a step that returns, and after one that raises.\<close>

definition ap_post :: "(ap_runner \<Rightarrow> bool) \<Rightarrow> (ap_exn \<Rightarrow> ap_runner \<Rightarrow> bool) \<Rightarrow> ap_eff \<Rightarrow> bool" where
  "ap_post Q X a = (case a of (None, r) \<Rightarrow> Q r | (Some x, r) \<Rightarrow> X x r)"

lemma ap_post_simps [simp]:
  "ap_post Q X (None, r) \<longleftrightarrow> Q r" "ap_post Q X (Some x, r) \<longleftrightarrow> X x r" "ap_post Q X (ap_ok r) \<longleftrightarrow> Q r"
  by (simp_all add: ap_post_def ap_ok_def)

lemma ap_post_then: "ap_post P X a \<Longrightarrow> (\<And>r. P r \<Longrightarrow> ap_post Q X (f r)) \<Longrightarrow> ap_post Q X (ap_then a f)"
  by (cases a; cases "fst a") (auto simp: ap_then_def)

lemma ap_post_mono: "ap_post P Y a \<Longrightarrow> (\<And>r. P r \<Longrightarrow> Q r) \<Longrightarrow> (\<And>x r. Y x r \<Longrightarrow> X x r) \<Longrightarrow> ap_post Q X a"
  by (auto simp: ap_post_def split: prod.splits option.splits)

lemma ap_post_ret: "ap_post Q X a \<Longrightarrow> a = (None, r) \<Longrightarrow> Q r"
  "ap_post Q X a \<Longrightarrow> a = (Some x, r) \<Longrightarrow> X x r"
  by (simp_all add: ap_post_def)

definition escapes :: "ap_exn \<Rightarrow> ap_runner \<Rightarrow> bool" where
  "escapes x r = (\<exists>e. x = Escapes e)"

text \<open>A step that only issues commands: the configuration and the daemons are as before.\<close>

definition only_cmds :: "ap_runner \<Rightarrow> ap_runner \<Rightarrow> bool" where
  "only_cmds r r' \<longleftrightarrow> (\<exists>cs. r' = r\<lparr>r_ops := r_ops r @ map Cmd cs\<rparr>)"

lemma only_cmds_refl: "only_cmds r r"
proof -
  have "r = r\<lparr>r_ops := r_ops r @ map Cmd []\<rparr>" by simp
  then show ?thesis unfolding only_cmds_def by blast
qed

lemma only_cmds_op: "only_cmds r r' \<Longrightarrow> only_cmds r (op (Cmd c) r')"
proof -
  assume "only_cmds r r'"
  then obtain cs where "r' = r\<lparr>r_ops := r_ops r @ map Cmd cs\<rparr>" by (auto simp: only_cmds_def)
  then have "op (Cmd c) r' = r\<lparr>r_ops := r_ops r @ map Cmd (cs @ [c])\<rparr>" by (simp add: op_def)
  then show ?thesis unfolding only_cmds_def by blast
qed

lemma only_cmds_bssid: "only_cmds r r' \<Longrightarrow> only_cmds (r\<lparr>r_bssid := b\<rparr>) (r'\<lparr>r_bssid := b\<rparr>)"
proof -
  assume "only_cmds r r'"
  then obtain cs where "r' = r\<lparr>r_ops := r_ops r @ map Cmd cs\<rparr>" by (auto simp: only_cmds_def)
  then have "r'\<lparr>r_bssid := b\<rparr> = (r\<lparr>r_bssid := b\<rparr>)\<lparr>r_ops := r_ops (r\<lparr>r_bssid := b\<rparr>) @ map Cmd cs\<rparr>" by simp
  then show ?thesis unfolding only_cmds_def by blast
qed

lemma only_cmds_fields:
  "only_cmds r r' \<Longrightarrow> r_cfg r' = r_cfg r \<and> r_mode r' = r_mode r \<and> r_hostapd r' = r_hostapd r \<and> r_dnsmasq r' = r_dnsmasq r \<and>
     r_hconf r' = r_hconf r \<and> r_dconf r' = r_dconf r \<and> r_bssid r' = r_bssid r \<and> (\<exists>cs. r_ops r' = r_ops r @ map Cmd cs)"
  by (auto simp: only_cmds_def)

text \<open>The predicate of the next rules: from a state reached by commands alone, commands alone follow.\<close>

definition cmd_step :: "(ap_runner \<Rightarrow> ap_eff) \<Rightarrow> bool" where
  "cmd_step f \<longleftrightarrow> (\<forall>r0 r. only_cmds r0 r \<longrightarrow> ap_post (only_cmds r0) (\<lambda>x r. escapes x r \<and> only_cmds r0 r) (f r))"

lemma cmd_stepI:
  "(\<And>r0 r. only_cmds r0 r \<Longrightarrow> ap_post (only_cmds r0) (\<lambda>x r. escapes x r \<and> only_cmds r0 r) (f r)) \<Longrightarrow> cmd_step f"
  by (simp add: cmd_step_def)

lemma cmd_stepD:
  "cmd_step f \<Longrightarrow> only_cmds r0 r \<Longrightarrow> ap_post (only_cmds r0) (\<lambda>x r. escapes x r \<and> only_cmds r0 r) (f r)"
  by (simp add: cmd_step_def)

lemma cmd_step_then: "cmd_step f \<Longrightarrow> cmd_step g \<Longrightarrow> cmd_step (\<lambda>r. ap_then (f r) g)"
  by (rule cmd_stepI) (rule ap_post_then [OF cmd_stepD cmd_stepD])

lemma cmd_step_run: "cmd_step (run_cmd OS c)"
  by (rule cmd_stepI) (auto simp: run_cmd_def escapes_def only_cmds_op split: cmd_result.split)

lemma cmd_step_ok: "cmd_step ap_ok"
  by (rule cmd_stepI) simp

lemma cmd_step_cmds: "cmd_step (run_cmds OS cs)"
proof (induction cs)
  case Nil
  have "run_cmds OS [] = ap_ok" by (rule ext) simp
  then show ?case using cmd_step_ok by simp
next
  case (Cons c cs)
  have "run_cmds OS (c # cs) = (\<lambda>r. ap_then (run_cmd OS c r) (run_cmds OS cs))" by (rule ext) simp
  then show ?case using cmd_step_then [OF cmd_step_run Cons] by simp
qed

lemma cmd_step_managed: "cmd_step (set_nm_managed OS b)"
  by (rule cmd_stepI) (auto simp: set_nm_managed_def cmd_stepD [OF cmd_step_run] split: option.split)

lemma cmd_step_conflicting: "cmd_step (stop_conflicting OS)"
  by (rule cmd_stepI)
    (auto simp: stop_conflicting_def Let_def escapes_def only_cmds_op split: cmd_result.split
      intro!: cmd_stepD [OF cmd_step_run, unfolded escapes_def])

lemma cmd_step_stale: "cmd_step (kill_stale OS pattern)"
proof (rule cmd_stepI)
  fix r0 r
  assume "only_cmds r0 r"
  then show "ap_post (only_cmds r0) (\<lambda>x r. escapes x r \<and> only_cmds r0 r) (kill_stale OS pattern r)"
    unfolding kill_stale_def Let_def
    by (auto simp: escapes_def only_cmds_op simp del: run_cmds.simps split: cmd_result.split
        intro!: cmd_stepD [OF cmd_step_cmds, unfolded escapes_def])
qed

lemma cmd_step_release: "cmd_step (release_interface OS c)"
proof -
  have "release_interface OS c = (\<lambda>r. ap_then (run_cmd OS [''nmcli'', ''device'', ''disconnect'', ac_interface c] r) (set_nm_managed OS False))"
    by (rule ext) (simp add: release_interface_def)
  then show ?thesis using cmd_step_then [OF cmd_step_run cmd_step_managed] by simp
qed

lemma cmd_step_cleanup: "cmd_step (cleanup_stale_daemons OS)"
proof -
  have "cleanup_stale_daemons OS = (\<lambda>r. ap_then (kill_stale OS ''hostapd /tmp/hostapd_'' r) (kill_stale OS ''dnsmasq --conf-file=/tmp/dnsmasq_''))"
    by (rule ext) (simp add: cleanup_stale_daemons_def)
  then show ?thesis using cmd_step_then [OF cmd_step_stale cmd_step_stale] by simp
qed

text \<open>Everything before the daemons: when it returns, both files are written and the rest of the state is as it was.\<close>

definition prepared :: "apconfig \<Rightarrow> ap_runner \<Rightarrow> string \<Rightarrow> string \<Rightarrow> ap_runner \<Rightarrow> bool" where
  "prepared c r hp dp r' \<longleftrightarrow>
     r_cfg r' = r_cfg r \<and> r_mode r' = r_mode r \<and> r_hostapd r' = r_hostapd r \<and> r_dnsmasq r' = r_dnsmasq r \<and>
     r_hconf r' = Some hp \<and> r_dconf r' = Some dp \<and> r_bssid r' = r_bssid r \<and>
     (\<exists>cs. r_ops r' = r_ops r @ map Cmd cs @ [WriteTmp hp (conf_text (hostapd_lines c)), WriteTmp dp (conf_text (dnsmasq_lines c))])"

lemma write_confs:
  assumes "only_cmds r0 r"
  shows "ap_post (\<lambda>r'. \<exists>hp dp. prepared c r0 hp dp r') (\<lambda>x r'. escapes x r' \<and> r_cfg r' = r_cfg r0 \<and> r_hostapd r' = r_hostapd r0 \<and> r_dnsmasq r' = r_dnsmasq r0)
    (ap_then (write_hostapd_conf OS c r) (write_dnsmasq_conf OS c))"
  using only_cmds_fields [OF assms]
  by (auto simp: write_hostapd_conf_def write_dnsmasq_conf_def write_temp_def ap_then_def ap_ok_def op_def escapes_def prepared_def
      ap_post_def split: sum.splits)

lemma prepare_ap_post:
  "ap_post (\<lambda>r'. \<exists>hp dp. prepared c (r\<lparr>r_bssid := get_mac (os_mac OS (ac_interface c))\<rparr>) hp dp r')
     (\<lambda>x r'. escapes x r' \<and> r_cfg r' = r_cfg r \<and> r_hostapd r' = r_hostapd r \<and> r_dnsmasq r' = r_dnsmasq r)
     (prepare_ap OS c r)"
  unfolding prepare_ap_def
proof (rule ap_post_then)
  show "ap_post (only_cmds r) (\<lambda>x r'. escapes x r' \<and> r_cfg r' = r_cfg r \<and> r_hostapd r' = r_hostapd r \<and> r_dnsmasq r' = r_dnsmasq r)
     (ap_then (stop_conflicting OS r) (cleanup_stale_daemons OS))"
    using cmd_stepD [OF cmd_step_then [OF cmd_step_conflicting cmd_step_cleanup] only_cmds_refl]
    by (rule ap_post_mono) (auto dest: only_cmds_fields)
next
  fix r1
  assume r1: "only_cmds r r1"
  let ?b = "get_mac (os_mac OS (ac_interface c))"
  have s: "cmd_step (\<lambda>r. ap_then (release_interface OS c r) (run_cmds OS (configure_cmds (ac_interface c) (ac_gateway_ip c))))"
    by (rule cmd_step_then [OF cmd_step_release cmd_step_cmds])
  show "ap_post (\<lambda>r'. \<exists>hp dp. prepared c (r\<lparr>r_bssid := ?b\<rparr>) hp dp r')
     (\<lambda>x r'. escapes x r' \<and> r_cfg r' = r_cfg r \<and> r_hostapd r' = r_hostapd r \<and> r_dnsmasq r' = r_dnsmasq r)
     (ap_then (ap_then (release_interface OS c (r1\<lparr>r_bssid := ?b\<rparr>)) (run_cmds OS (configure_cmds (ac_interface c) (ac_gateway_ip c))))
       (\<lambda>r. ap_then (write_hostapd_conf OS c r) (write_dnsmasq_conf OS c)))"
  proof (rule ap_post_then)
    show "ap_post (only_cmds (r\<lparr>r_bssid := ?b\<rparr>))
       (\<lambda>x r'. escapes x r' \<and> r_cfg r' = r_cfg r \<and> r_hostapd r' = r_hostapd r \<and> r_dnsmasq r' = r_dnsmasq r)
       (ap_then (release_interface OS c (r1\<lparr>r_bssid := ?b\<rparr>)) (run_cmds OS (configure_cmds (ac_interface c) (ac_gateway_ip c))))"
      using cmd_stepD [OF s only_cmds_bssid [OF r1]] by (rule ap_post_mono) (auto dest: only_cmds_fields)
  next
    fix r2
    assume "only_cmds (r\<lparr>r_bssid := ?b\<rparr>) r2"
    from write_confs [OF this]
    show "ap_post (\<lambda>r'. \<exists>hp dp. prepared c (r\<lparr>r_bssid := ?b\<rparr>) hp dp r')
       (\<lambda>x r'. escapes x r' \<and> r_cfg r' = r_cfg r \<and> r_hostapd r' = r_hostapd r \<and> r_dnsmasq r' = r_dnsmasq r)
       (ap_then (write_hostapd_conf OS c r2) (write_dnsmasq_conf OS c))"
      by (rule ap_post_mono) auto
  qed
qed

text \<open>The daemons: both are there, or every one that was started is known to the runner.\<close>

definition daemons_of :: "ap_runner \<Rightarrow> nat set" where
  "daemons_of r = set_option (r_hostapd r) \<union> set_option (r_dnsmasq r)"

definition same_setup :: "ap_runner \<Rightarrow> ap_runner \<Rightarrow> bool" where
  "same_setup r r' \<longleftrightarrow> r_cfg r' = r_cfg r \<and> r_bssid r' = r_bssid r \<and> r_hconf r' = r_hconf r \<and> r_dconf r' = r_dconf r"

lemma start_daemons_post:
  assumes "r_hconf r = Some hp" "r_dconf r = Some dp" "r_hostapd r = None" "r_dnsmasq r = None"
  shows "ap_post
    (\<lambda>r'. \<exists>p q. r_ops r' = r_ops r @ [Spawn [''hostapd'', hp] p, Spawn [''dnsmasq'', ''--conf-file='' @ dp, ''--no-daemon''] q] \<and>
       r_hostapd r' = Some p \<and> r_dnsmasq r' = Some q \<and> r_mode r' = Some ApMode \<and> same_setup r r')
    (\<lambda>x r'. r_mode r' = r_mode r \<and> same_setup r r' \<and>
       (\<exists>new. r_ops r' = r_ops r @ new \<and> (\<forall>y \<in> set new. \<exists>c p. y = Spawn c p \<and> p \<in> daemons_of r')))
    (start_daemons OS r)"
  using assms
  by (auto simp: start_daemons_def start_hostapd_def start_dnsmasq_def ap_then_def ap_ok_def op_def ap_post_def Let_def
      same_setup_def daemons_of_def split: spawned.splits)

text \<open>Starting the access point on a runner without daemons.\<close>

definition ap_started :: "apconfig \<Rightarrow> ap_os \<Rightarrow> ap_runner \<Rightarrow> ap_runner \<Rightarrow> bool" where
  "ap_started c OS r r' \<longleftrightarrow> r_mode r' = Some ApMode \<and> r_cfg r' = Some c \<and> r_bssid r' = get_mac (os_mac OS (ac_interface c)) \<and>
     (\<exists>cs hp dp p q. r_ops r' = r_ops r @ map Cmd cs @ [WriteTmp hp (conf_text (hostapd_lines c)), WriteTmp dp (conf_text (dnsmasq_lines c)),
        Spawn [''hostapd'', hp] p, Spawn [''dnsmasq'', ''--conf-file='' @ dp, ''--no-daemon''] q] \<and> r_hostapd r' = Some p \<and> r_dnsmasq r' = Some q)"

definition ap_half_started :: "apconfig \<Rightarrow> ap_runner \<Rightarrow> ap_runner \<Rightarrow> bool" where
  "ap_half_started c r r' \<longleftrightarrow> r_mode r' = r_mode r \<and> r_cfg r' = Some c \<and>
     (\<exists>cs hp dp new. r_ops r' = r_ops r @ map Cmd cs @ [WriteTmp hp (conf_text (hostapd_lines c)), WriteTmp dp (conf_text (dnsmasq_lines c))] @ new \<and>
        r_hconf r' = Some hp \<and> r_dconf r' = Some dp \<and> (\<forall>y \<in> set new. \<exists>k p. y = Spawn k p \<and> p \<in> daemons_of r'))"

lemma start_ap_post:
  assumes "r_hostapd r = None" "r_dnsmasq r = None"
  shows "ap_post (ap_started (with_key OS cfg) OS r) (\<lambda>x r'. escapes x r' \<or> ap_half_started (with_key OS cfg) r r') (start_ap OS cfg r)"
  unfolding start_ap_def Let_def
proof (rule ap_post_then)
  let ?c = "with_key OS cfg"
  show "ap_post (\<lambda>r'. \<exists>hp dp. prepared ?c (r\<lparr>r_cfg := Some ?c, r_bssid := get_mac (os_mac OS (ac_interface ?c))\<rparr>) hp dp r')
      (\<lambda>x r'. escapes x r' \<or> ap_half_started ?c r r') (prepare_ap OS ?c (r\<lparr>r_cfg := Some ?c\<rparr>))"
    using prepare_ap_post [where c = ?c and r = "r\<lparr>r_cfg := Some ?c\<rparr>" and OS = OS] by (rule ap_post_mono) auto
next
  let ?c = "with_key OS cfg"
  fix r1
  assume "\<exists>hp dp. prepared ?c (r\<lparr>r_cfg := Some ?c, r_bssid := get_mac (os_mac OS (ac_interface ?c))\<rparr>) hp dp r1"
  then obtain hp dp where p: "prepared ?c (r\<lparr>r_cfg := Some ?c, r_bssid := get_mac (os_mac OS (ac_interface ?c))\<rparr>) hp dp r1" by blast
  then have "r_hconf r1 = Some hp" "r_dconf r1 = Some dp" "r_hostapd r1 = None" "r_dnsmasq r1 = None"
    using assms by (simp_all add: prepared_def)
  from start_daemons_post [OF this, of OS]
  show "ap_post (ap_started ?c OS r) (\<lambda>x r'. escapes x r' \<or> ap_half_started ?c r r') (start_daemons OS r1)"
  proof (rule ap_post_mono)
    fix r'
    assume "\<exists>p q. r_ops r' = r_ops r1 @ [Spawn [''hostapd'', hp] p, Spawn [''dnsmasq'', ''--conf-file='' @ dp, ''--no-daemon''] q] \<and>
       r_hostapd r' = Some p \<and> r_dnsmasq r' = Some q \<and> r_mode r' = Some ApMode \<and> same_setup r1 r'"
    then show "ap_started ?c OS r r'" using p by (fastforce simp: ap_started_def prepared_def same_setup_def)
  next
    fix x r'
    assume "r_mode r' = r_mode r1 \<and> same_setup r1 r' \<and>
       (\<exists>new. r_ops r' = r_ops r1 @ new \<and> (\<forall>y \<in> set new. \<exists>c p. y = Spawn c p \<and> p \<in> daemons_of r'))"
    then show "escapes x r' \<or> ap_half_started ?c r r'" using p by (fastforce simp: ap_half_started_def prepared_def same_setup_def)
  qed
qed

text \<open>What a start comes down to.\<close>

lemma runner_start_cases:
  "(\<exists>r1. only_cmds r r1 \<and> runner_start OS cfg r = start_ap OS cfg r1) \<or>
   (\<exists>w ip psk. detect_existing_wifi (answer OS r scan_cmd) = Some w \<and>
      runner_start OS cfg r = ap_ok (r\<lparr>r_ops := r_ops r @ [Cmd scan_cmd, Cmd (ip_cmd (wn_interface w)), Cmd (psk_cmd (wn_ssid w))],
        r_cfg := Some (join_config (wn_interface w) (wn_ssid w) psk ip), r_bssid := wn_bssid w, r_mode := Some JoinMode\<rparr>))"
proof -
  have o: "only_cmds r (op (Cmd a) r)" "only_cmds r (op (Cmd b) (op (Cmd a) r))" "only_cmds r (op (Cmd c) (op (Cmd b) (op (Cmd a) r)))" for a b c
    by (intro only_cmds_op only_cmds_refl)+
  show ?thesis
    unfolding runner_start_def start_join_network_def Let_def using o
    by (cases "detect_existing_wifi (answer OS r scan_cmd)") (auto simp: op_def split: option.split, blast+)
qed

section \<open>Properties\<close>

text \<open>The values a configuration file of \<open>key=value\<close> lines gives a key, as a reader of lines such as
  \<^verbatim>\<open>hostapd\<close> sees them: a line ends at a line feed.\<close>

fun conf_lines :: "string \<Rightarrow> string \<Rightarrow> string list" where
  "conf_lines acc [] = [rev acc]"
| "conf_lines acc (c # cs) = (if c = LF then rev acc # conf_lines [] cs else conf_lines (c # acc) cs)"

definition conf_values :: "string \<Rightarrow> string \<Rightarrow> string list" where
  "conf_values k txt = map (drop (length k + 1)) (filter (starts (k @ ''='')) (conf_lines [] txt))"

text \<open>The texts of the request that go into the file.\<close>

definition conf_texts :: "apconfig \<Rightarrow> string set" where
  "conf_texts c = {ac_interface c, ac_ssid c, ac_key c, ac_hw_mode c, ac_country c}"

lemma no_lf_nat: "LF \<notin> set (str_of_nat n)"
  using str_of_nat_digits [of n] by (auto simp: list_all_iff is_digit_def LF_def)

lemma no_lf_int: "LF \<notin> set (str_of_int i)"
  using no_lf_nat by (auto simp: str_of_int_def LF_def)

lemma conf_lines_prefix: "LF \<notin> set l \<Longrightarrow> conf_lines acc (l @ LF # s) = (rev acc @ l) # conf_lines [] s"
  by (induction l arbitrary: acc) auto

lemma conf_lines_text: "\<forall>l \<in> set ls. LF \<notin> set l \<Longrightarrow> conf_lines [] (conf_text ls) = ls @ [[]]"
  unfolding conf_text_def
proof (induction ls)
  case (Cons l ls)
  then show ?case using conf_lines_prefix [of l "[]" "concat (map (\<lambda>l. l @ [LF]) ls)"] by simp
qed simp

lemma conf_lines_no_lf: "x \<in> set (conf_lines acc s) \<Longrightarrow> LF \<notin> set acc \<Longrightarrow> LF \<notin> set x"
  by (induction acc s rule: conf_lines.induct) (auto split: if_splits)

text \<open>No value that is read holds a line feed: a text with one is not read back.\<close>

lemma conf_values_no_lf: "x \<in> set (conf_values k s) \<Longrightarrow> LF \<notin> set x"
  using conf_lines_no_lf [of _ "[]" s] by (auto simp: conf_values_def dest: in_set_dropD)

lemma hostapd_conf_values:
  assumes "\<forall>t \<in> conf_texts c. LF \<notin> set t"
  shows "conf_values ''ssid'' (conf_text (hostapd_lines c)) = [ac_ssid c]"
    and "conf_values ''wpa_passphrase'' (conf_text (hostapd_lines c)) = [ac_key c]"
    and "conf_values ''interface'' (conf_text (hostapd_lines c)) = [ac_interface c]"
    and "conf_values ''wpa'' (conf_text (hostapd_lines c)) = [''2'']"
proof -
  have "\<forall>l \<in> set (hostapd_lines c). LF \<notin> set l"
    using assms no_lf_int [of "ac_channel c"] by (simp add: hostapd_lines_def conf_texts_def LF_def)
  then have l: "conf_lines [] (conf_text (hostapd_lines c)) = hostapd_lines c @ [[]]" by (rule conf_lines_text)
  show "conf_values ''ssid'' (conf_text (hostapd_lines c)) = [ac_ssid c]"
    "conf_values ''wpa_passphrase'' (conf_text (hostapd_lines c)) = [ac_key c]"
    "conf_values ''interface'' (conf_text (hostapd_lines c)) = [ac_interface c]"
    "conf_values ''wpa'' (conf_text (hostapd_lines c)) = [''2'']"
    unfolding conf_values_def l by (simp_all add: hostapd_lines_def starts_def)
qed

lemma start_no_error:
  assumes "ap_start T OS pk config r = (None, r', sigs)"
  shows "\<exists>cfg. config_from_dbus_dict T config = Inr cfg \<and> runner_start OS cfg r = (None, r') \<and>
    sigs = [APStarted (map (\<lambda>(k, v). (k, PStr (py_str T v))) (get_params r'))]"
  using assms by (auto simp: ap_start_def split: option.splits if_splits sum.splits cfg_err.splits prod.splits ap_exn.splits)

lemma started_access_point:
  assumes "ap_start T OS pk config r = (None, r', sigs)" "r_mode r' = Some ApMode" "r_hostapd r = None" "r_dnsmasq r = None"
    and "config_from_dbus_dict T config = Inr cfg" "c = with_key OS cfg"
  shows "\<exists>path content p. WriteTmp path content \<in> set (r_ops r') \<and> Spawn [''hostapd'', path] p \<in> set (r_ops r') \<and> r_hostapd r' = Some p \<and>
      content = conf_text (hostapd_lines c) \<and>
    (is_running OS' r' \<longrightarrow> ap_status_of OS' (PolkitAnswer True) r' =
       Inr \<lparr>st_state = ''running'', st_ssid = ac_ssid c, st_bssid = get_mac (os_mac OS (ac_interface c)), st_gateway_ip = ac_gateway_ip c,
            st_key = ac_key c, st_clients = count_dhcp_clients (os_leases OS')\<rparr>) \<and>
    sigs = [APStarted (map (\<lambda>(k, v). (k, PStr (py_str T v))) (get_params r'))]"
proof -
  have s: "runner_start OS cfg r = (None, r')" "sigs = [APStarted (map (\<lambda>(k, v). (k, PStr (py_str T v))) (get_params r'))]"
    using start_no_error [OF assms(1)] assms(5) by auto
  obtain r1 where r1: "only_cmds r r1" "runner_start OS cfg r = start_ap OS cfg r1"
    using runner_start_cases [of r OS cfg] s(1) assms(2) by (auto simp: ap_ok_def)
  have "ap_started c OS r1 r'"
    using ap_post_ret(1) [OF start_ap_post, of r1 OS cfg r'] only_cmds_fields [OF r1(1)] r1(2) s(1) assms(3,4,6) by simp
  then obtain cs path dp p q where o: "r_ops r' = r_ops r1 @ map Cmd cs @ [WriteTmp path (conf_text (hostapd_lines c)), WriteTmp dp (conf_text (dnsmasq_lines c)),
        Spawn [''hostapd'', path] p, Spawn [''dnsmasq'', ''--conf-file='' @ dp, ''--no-daemon''] q]"
      and f: "r_cfg r' = Some c" "r_bssid r' = get_mac (os_mac OS (ac_interface c))" "r_mode r' = Some ApMode" "r_hostapd r' = Some p"
    unfolding ap_started_def by blast
  have *: "r_cfg r' = Some c" "r_bssid r' = get_mac (os_mac OS (ac_interface c))" "r_mode r' = Some ApMode"
      "WriteTmp path (conf_text (hostapd_lines c)) \<in> set (r_ops r')" "Spawn [''hostapd'', path] p \<in> set (r_ops r')" "r_hostapd r' = Some p"
    using f by (simp_all add: o)
  have "ap_status_of OS' (PolkitAnswer True) r' =
       Inr \<lparr>st_state = ''running'', st_ssid = ac_ssid c, st_bssid = get_mac (os_mac OS (ac_interface c)), st_gateway_ip = ac_gateway_ip c,
            st_key = ac_key c, st_clients = count_dhcp_clients (os_leases OS')\<rparr>" if "is_running OS' r'"
    using that * by (simp add: ap_status_of_def polkit_check_def get_params_def get_key_def str_param_def dget_or_def)
  then show ?thesis
    using * s(2) by blast
qed

text \<open>C20 An access point that was started is the one that was asked for: when none of the request's texts (interface,
  name, key or the random key in its place, mode, country) holds a line feed, the file \<^verbatim>\<open>hostapd\<close> was started with
  sets the name and the key, once each and with WPA2; a name or key with a line feed, which is accepted, is never
  what the file sets. In either case \<open>Status\<close> answers the name, key, gateway and interface address of the request for
  as long as both daemons live, and the signal that announces it carries no key.\<close>

theorem access_point_as_configured:
  assumes "ap_start T OS pk config r = (None, r', sigs)" "r_mode r' = Some ApMode" "r_hostapd r = None" "r_dnsmasq r = None"
    and "config_from_dbus_dict T config = Inr cfg" "c = with_key OS cfg"
  shows "\<exists>path content p. WriteTmp path content \<in> set (r_ops r') \<and> Spawn [''hostapd'', path] p \<in> set (r_ops r') \<and> r_hostapd r' = Some p \<and>
    ((\<forall>t \<in> {ac_interface c, ac_ssid c, ac_key c, ac_hw_mode c, ac_country c}. LF \<notin> set t) \<longrightarrow>
      conf_values ''ssid'' content = [ac_ssid c] \<and> conf_values ''wpa_passphrase'' content = [ac_key c] \<and>
      conf_values ''wpa'' content = [''2'']) \<and>
    (LF \<in> set (ac_ssid c) \<longrightarrow> ac_ssid c \<notin> set (conf_values ''ssid'' content)) \<and>
    (LF \<in> set (ac_key c) \<longrightarrow> ac_key c \<notin> set (conf_values ''wpa_passphrase'' content)) \<and>
    (is_running OS' r' \<longrightarrow> ap_status_of OS' (PolkitAnswer True) r' =
       Inr \<lparr>st_state = ''running'', st_ssid = ac_ssid c, st_bssid = get_mac (os_mac OS (ac_interface c)), st_gateway_ip = ac_gateway_ip c,
            st_key = ac_key c, st_clients = count_dhcp_clients (os_leases OS')\<rparr>) \<and>
    (\<exists>ps. sigs = [APStarted ps] \<and> ''key'' \<notin> set (map fst ps))"
proof -
  have key: "''key'' \<notin> set (map fst (map (\<lambda>(k, v). (k, PStr (py_str T v))) (get_params r')))"
    by (auto simp: get_params_def split: option.splits)
  obtain path p where f: "WriteTmp path (conf_text (hostapd_lines c)) \<in> set (r_ops r')"
      "Spawn [''hostapd'', path] p \<in> set (r_ops r')" "r_hostapd r' = Some p"
      "is_running OS' r' \<longrightarrow> ap_status_of OS' (PolkitAnswer True) r' =
       Inr \<lparr>st_state = ''running'', st_ssid = ac_ssid c, st_bssid = get_mac (os_mac OS (ac_interface c)), st_gateway_ip = ac_gateway_ip c,
            st_key = ac_key c, st_clients = count_dhcp_clients (os_leases OS')\<rparr>"
      "sigs = [APStarted (map (\<lambda>(k, v). (k, PStr (py_str T v))) (get_params r'))]"
    using started_access_point [OF assms, of OS'] by blast
  show ?thesis
    by (rule exI [of _ path], rule exI [of _ "conf_text (hostapd_lines c)"], rule exI [of _ p],
        intro conjI impI notI f(1-4) f(4) [rule_format] exI)
      (use hostapd_conf_values [of c, unfolded conf_texts_def] conf_values_no_lf f(5) key in blast)+
qed

text \<open>A system on which every program works and there is no network to join.\<close>

definition demo_os :: ap_os where
  "demo_os = \<lparr>os_cmd = (\<lambda>n c. CmdDone 0 []), os_spawn = (\<lambda>n c. Spawned n), os_alive = (\<lambda>n p. True), os_stderr = (\<lambda>p. ''bad channel''),
     os_tmp = (\<lambda>n. Inr (''/tmp/'' @ str_of_nat n)), os_mac = (\<lambda>i. Some ''0a:1b''), os_key = (\<lambda>n. ''abcdefghijkl''), os_leases = Inr []\<rparr>"

definition demo_request :: payload where
  "demo_request = [(''ssid'', PStr ''Car''), (''channel'', PInt 36)]"

theorem access_point_as_configured_witness:
  "\<exists>path content. WriteTmp path content \<in> set (r_ops (fst (snd (ap_start demo_text demo_os (PolkitAnswer True) demo_request new_runner)))) \<and>
     conf_values ''ssid'' content = [''Car''] \<and> conf_values ''wpa_passphrase'' content = [''abcdefghijkl'']"
proof -
  let ?s = "ap_start demo_text demo_os (PolkitAnswer True) demo_request new_runner"
  let ?c = "default_apconfig\<lparr>ac_ssid := ''Car'', ac_key := ''abcdefghijkl''\<rparr>"
  have "fst ?s = None" by code_simp
  then have "?s = (None, fst (snd ?s), snd (snd ?s))" by (cases ?s) simp
  note p = access_point_as_configured [OF this, of "default_apconfig\<lparr>ac_ssid := ''Car''\<rparr>" ?c demo_os]
  have "r_mode (fst (snd ?s)) = Some ApMode" by code_simp
  moreover have "config_from_dbus_dict demo_text demo_request = Inr (default_apconfig\<lparr>ac_ssid := ''Car''\<rparr>)" by code_simp
  moreover have "?c = with_key demo_os (default_apconfig\<lparr>ac_ssid := ''Car''\<rparr>)"
    by (simp add: with_key_def demo_os_def default_apconfig_def)
  moreover have "\<forall>t \<in> {ac_interface ?c, ac_ssid ?c, ac_key ?c, ac_hw_mode ?c, ac_country ?c}. LF \<notin> set t" by code_simp
  moreover have "r_hostapd new_runner = None" "r_dnsmasq new_runner = None" by (simp_all add: new_runner_def)
  ultimately obtain path content where w: "WriteTmp path content \<in> set (r_ops (fst (snd ?s)))"
      "conf_values ''ssid'' content = [ac_ssid ?c]" "conf_values ''wpa_passphrase'' content = [ac_key ?c]"
    using p by blast
  then show ?thesis by auto
qed

lemma teardown_answers:
  assumes "\<And>n c. \<exists>rc out. os_cmd OS n c = CmdDone rc out" "r_cfg r = Some c"
  shows "\<exists>kills unlinks. teardown_ap OS r = ap_ok (new_runner\<lparr>r_ops := r_ops r @ kills @ unlinks @
      [Cmd [''ip'', ''addr'', ''flush'', ''dev'', ac_interface c], Cmd (nm_managed_cmd (ac_interface c) True), Cmd restart_nm]\<rparr>) \<and>
    (\<forall>p \<in> daemons_of r. Kill p \<in> set kills \<or> (\<exists>n. \<not> os_alive OS n p)) \<and>
    (\<forall>path. r_hconf r = Some path \<or> r_dconf r = Some path \<longrightarrow> path = [] \<or> Unlink path \<in> set unlinks) \<and>
    set kills \<subseteq> range Kill \<and> set unlinks \<subseteq> range Unlink"
proof -
  have run: "run_cmd OS cmd r = ap_ok (op (Cmd cmd) r)" for cmd r
    using assms(1) [of "length (r_ops r)" cmd] by (auto simp: run_cmd_def answer_def)
  let ?u = "\<lambda>p. case p of None \<Rightarrow> [] | Some path \<Rightarrow> if path = [] then [] else [Unlink path]"
  let ?r1 = "kill_proc OS (r_hostapd r) r"
  let ?k = "\<lambda>r p. if alive OS r p then [Kill (the p)] else []"
  have k: "kill_proc OS p r = r\<lparr>r_ops := r_ops r @ ?k r p\<rparr>" for p r
    by (simp add: kill_proc_def op_def)
  have u: "cleanup_file p r = r\<lparr>r_ops := r_ops r @ ?u p\<rparr>" for p r
    by (simp add: cleanup_file_def op_def split: option.split)
  have "teardown_ap OS r = ap_ok (new_runner\<lparr>r_ops := r_ops r @ (?k r (r_hostapd r) @ ?k ?r1 (r_dnsmasq r)) @ (?u (r_hconf r) @ ?u (r_dconf r)) @
      [Cmd [''ip'', ''addr'', ''flush'', ''dev'', ac_interface c], Cmd (nm_managed_cmd (ac_interface c) True), Cmd restart_nm]\<rparr>)"
    using assms(2)
    by (simp add: teardown_ap_def Let_def restore_interface_def set_nm_managed_def run ap_then_def ap_ok_def reset_state_def new_runner_def
        k u op_def)
  moreover have "\<forall>p \<in> daemons_of r. Kill p \<in> set (?k r (r_hostapd r) @ ?k ?r1 (r_dnsmasq r)) \<or> (\<exists>n. \<not> os_alive OS n p)"
    by (auto simp: daemons_of_def alive_def)
  moreover have "\<forall>path. r_hconf r = Some path \<or> r_dconf r = Some path \<longrightarrow> path = [] \<or> Unlink path \<in> set (?u (r_hconf r) @ ?u (r_dconf r))"
    by auto
  moreover have "set (?k r (r_hostapd r) @ ?k ?r1 (r_dnsmasq r)) \<subseteq> range Kill" "set (?u (r_hconf r) @ ?u (r_dconf r)) \<subseteq> range Unlink"
    by (auto split: option.splits)
  ultimately show ?thesis by blast
qed

text \<open>C21 A start that fails is undone: when \<open>Start\<close> answers \<open>StartFailed\<close> the failure is signalled once, every daemon
  that was started is killed or had ended by itself, the configuration files are gone, the interface is given
  back to NetworkManager, and the runner is as new. This needs the commands of the cleaning up themselves to
  run.\<close>

theorem failed_start_cleans_up:
  assumes "ap_start T OS (PolkitAnswer True) config r = (Some (DErr ''org.nemo.APManager.Error.StartFailed'' m), r', sigs)"
    and "r_hostapd r = None" "r_dnsmasq r = None" "r_mode r = None" and "\<And>n c. \<exists>rc out. os_cmd OS n c = CmdDone rc out"
  shows "sigs = [APFailed m] \<and> (\<exists>new iface. r' = new_runner\<lparr>r_ops := r_ops r @ new @ [Cmd (nm_managed_cmd iface True), Cmd restart_nm]\<rparr> \<and>
    (\<forall>k p. Spawn k p \<in> set new \<longrightarrow> Kill p \<in> set new \<or> (\<exists>n. \<not> os_alive OS n p)) \<and>
    (\<forall>path content. WriteTmp path content \<in> set new \<longrightarrow> path = [] \<or> Unlink path \<in> set new))"
proof -
  obtain cfg r2 where s: "runner_start OS cfg r = (Some (Failed m), r2)" "r' = snd (runner_stop OS r2)" "sigs = [APFailed m]"
    using assms(1) by (auto simp: ap_start_def polkit_check_def split: if_splits sum.splits cfg_err.splits prod.splits option.splits ap_exn.splits)
  obtain r1 where r1: "only_cmds r r1" "runner_start OS cfg r = start_ap OS cfg r1"
    using runner_start_cases [of r OS cfg] s(1) by (auto simp: ap_ok_def)
  obtain cs0 where o1: "r_ops r1 = r_ops r @ map Cmd cs0" using only_cmds_fields [OF r1(1)] by blast
  have "ap_half_started (with_key OS cfg) r1 r2"
    using ap_post_ret(2) [OF start_ap_post, of r1 OS cfg "Failed m" r2] only_cmds_fields [OF r1(1)] r1(2) s(1) assms(2,3)
    by (simp add: escapes_def)
  then obtain cs hp dp new where h: "r_mode r2 = None" "r_cfg r2 = Some (with_key OS cfg)" "r_hconf r2 = Some hp" "r_dconf r2 = Some dp"
      "r_ops r2 = r_ops r @ map Cmd cs0 @ map Cmd cs @ [WriteTmp hp (conf_text (hostapd_lines (with_key OS cfg))), WriteTmp dp (conf_text (dnsmasq_lines (with_key OS cfg)))] @ new"
      "\<forall>y \<in> set new. \<exists>k p. y = Spawn k p \<and> p \<in> daemons_of r2"
    unfolding ap_half_started_def using only_cmds_fields [OF r1(1)] assms(4) o1 by auto
  let ?i = "ac_interface (with_key OS cfg)"
  obtain kills unlinks where t: "teardown_ap OS r2 = ap_ok (new_runner\<lparr>r_ops := r_ops r2 @ kills @ unlinks @
      [Cmd [''ip'', ''addr'', ''flush'', ''dev'', ?i], Cmd (nm_managed_cmd ?i True), Cmd restart_nm]\<rparr>)"
    "\<forall>p \<in> daemons_of r2. Kill p \<in> set kills \<or> (\<exists>n. \<not> os_alive OS n p)"
    "\<forall>path. r_hconf r2 = Some path \<or> r_dconf r2 = Some path \<longrightarrow> path = [] \<or> Unlink path \<in> set unlinks"
    "set kills \<subseteq> range Kill" "set unlinks \<subseteq> range Unlink"
    using teardown_answers [OF assms(5) h(2)] by blast
  let ?n = "map Cmd cs0 @ map Cmd cs @ [WriteTmp hp (conf_text (hostapd_lines (with_key OS cfg))), WriteTmp dp (conf_text (dnsmasq_lines (with_key OS cfg)))] @ new
      @ kills @ unlinks @ [Cmd [''ip'', ''addr'', ''flush'', ''dev'', ?i]]"
  have r': "r' = new_runner\<lparr>r_ops := r_ops r @ ?n @ [Cmd (nm_managed_cmd ?i True), Cmd restart_nm]\<rparr>"
    using s(2) h(1,5) t(1) by (simp add: runner_stop_def ap_ok_def)
  have "Kill p \<in> set ?n \<or> (\<exists>n. \<not> os_alive OS n p)" if "Spawn k p \<in> set ?n" for k p
  proof -
    have "Spawn k p \<in> set new" using that t(4,5) by auto
    then have "p \<in> daemons_of r2" using h(6) by blast
    then show ?thesis using t(2) by auto
  qed
  moreover have "path = [] \<or> Unlink path \<in> set ?n" if "WriteTmp path content \<in> set ?n" for path content
  proof -
    have "path = hp \<or> path = dp" using that t(4,5) h(6) by auto
    then show ?thesis using t(3) h(3,4) by auto
  qed
  ultimately show ?thesis using s(3) r' by blast
qed

theorem failed_start_cleans_up_witness:
  "r_hostapd (fst (snd (ap_start demo_text (demo_os\<lparr>os_spawn := (\<lambda>n c. if hd c = ''dnsmasq'' then NoBinary else Spawned n)\<rparr>)
     (PolkitAnswer True) demo_request new_runner))) = None"
proof -
  let ?OS = "demo_os\<lparr>os_spawn := (\<lambda>n c. if hd c = ''dnsmasq'' then NoBinary else Spawned n)\<rparr>"
  let ?s = "ap_start demo_text ?OS (PolkitAnswer True) demo_request new_runner"
  have "fst ?s = Some (DErr ''org.nemo.APManager.Error.StartFailed'' ''dnsmasq not found - install dnsmasq'')" by code_simp
  then have "?s = (Some (DErr ''org.nemo.APManager.Error.StartFailed'' ''dnsmasq not found - install dnsmasq''), fst (snd ?s), snd (snd ?s))"
    by (cases ?s) simp
  note p = failed_start_cleans_up [OF this]
  have "\<exists>rc out. os_cmd ?OS n c = CmdDone rc out" for n c by (simp add: demo_os_def)
  then obtain new iface where "fst (snd ?s) = new_runner\<lparr>r_ops := r_ops new_runner @ new @ [Cmd (nm_managed_cmd iface True), Cmd restart_nm]\<rparr>"
    using p by (auto simp: new_runner_def)
  then show ?thesis by (simp add: new_runner_def)
qed

text \<open>Joining a network leaves the system alone: the start only asks three questions, the network it found has a key
  and no enterprise authentication, and the stop that follows does nothing to the system and is announced.\<close>

theorem join_mode_hands_off:
  assumes "ap_start T OS pk config r = (None, r', sigs)" "r_mode r' = Some JoinMode" "r_hostapd r = None" "r_dnsmasq r = None"
  shows "\<exists>w. detect_existing_wifi (answer OS r scan_cmd) = Some w \<and> wn_ssid w \<noteq> [] \<and> wn_security w \<noteq> ''--'' \<and>
    r_ops r' = r_ops r @ [Cmd scan_cmd, Cmd (ip_cmd (wn_interface w)), Cmd (psk_cmd (wn_ssid w))] \<and>
    ap_status_of OS' (PolkitAnswer True) r' = Inr \<lparr>st_state = ''running'', st_ssid = wn_ssid w, st_bssid = wn_bssid w,
       st_gateway_ip = str_param (get_params r') ''gateway_ip'', st_key = get_key r', st_clients = count_dhcp_clients (os_leases OS')\<rparr> \<and>
    (\<exists>r''. ap_stop OS' (PolkitAnswer True) r' = (None, r'', [APStopped]) \<and> r_ops r'' = r_ops r' \<and> \<not> is_running OS' r'')"
proof -
  obtain cfg where s: "runner_start OS cfg r = (None, r')" using start_no_error [OF assms(1)] by blast
  have no: "\<not> (\<exists>r1. only_cmds r r1 \<and> runner_start OS cfg r = start_ap OS cfg r1)"
  proof
    assume "\<exists>r1. only_cmds r r1 \<and> runner_start OS cfg r = start_ap OS cfg r1"
    then obtain r1 where r1: "only_cmds r r1" "runner_start OS cfg r = start_ap OS cfg r1" by blast
    have "ap_started (with_key OS cfg) OS r1 r'"
      using ap_post_ret(1) [OF start_ap_post, of r1 OS cfg r'] only_cmds_fields [OF r1(1)] r1(2) s assms(3,4) by simp
    then show False using assms(2) by (simp add: ap_started_def)
  qed
  obtain w ip psk where w: "detect_existing_wifi (answer OS r scan_cmd) = Some w"
      and r': "r' = r\<lparr>r_ops := r_ops r @ [Cmd scan_cmd, Cmd (ip_cmd (wn_interface w)), Cmd (psk_cmd (wn_ssid w))],
        r_cfg := Some (join_config (wn_interface w) (wn_ssid w) psk ip), r_bssid := wn_bssid w, r_mode := Some JoinMode\<rparr>"
  proof -
    assume *: "\<And>w psk ip. detect_existing_wifi (answer OS r scan_cmd) = Some w \<Longrightarrow>
      r' = r\<lparr>r_ops := r_ops r @ [Cmd scan_cmd, Cmd (ip_cmd (wn_interface w)), Cmd (psk_cmd (wn_ssid w))],
        r_cfg := Some (join_config (wn_interface w) (wn_ssid w) psk ip), r_bssid := wn_bssid w, r_mode := Some JoinMode\<rparr> \<Longrightarrow> thesis"
    obtain w ip psk where "detect_existing_wifi (answer OS r scan_cmd) = Some w"
      "runner_start OS cfg r = ap_ok (r\<lparr>r_ops := r_ops r @ [Cmd scan_cmd, Cmd (ip_cmd (wn_interface w)), Cmd (psk_cmd (wn_ssid w))],
        r_cfg := Some (join_config (wn_interface w) (wn_ssid w) psk ip), r_bssid := wn_bssid w, r_mode := Some JoinMode\<rparr>)"
      using runner_start_cases [of r OS cfg] no by blast
    then show thesis using * s unfolding ap_ok_def by (metis prod.inject)
  qed
  obtain line where "usable_wifi line = Some w"
    using first_some_Some [OF w [unfolded detect_existing_wifi_def]] by blast
  from usable_wifi_security [OF this] have sec: "wn_ssid w \<noteq> []" "wn_security w \<noteq> ''--''" by auto
  have f: "r_mode r' = Some JoinMode" "r_cfg r' = Some (join_config (wn_interface w) (wn_ssid w) psk ip)" "r_bssid r' = wn_bssid w"
      "r_hostapd r' = None"
      "r_ops r' = r_ops r @ [Cmd scan_cmd, Cmd (ip_cmd (wn_interface w)), Cmd (psk_cmd (wn_ssid w))]"
    using assms(3) by (simp_all add: r')
  have st: "ap_status_of OS' (PolkitAnswer True) r' = Inr \<lparr>st_state = ''running'', st_ssid = wn_ssid w, st_bssid = wn_bssid w,
       st_gateway_ip = str_param (get_params r') ''gateway_ip'', st_key = get_key r', st_clients = count_dhcp_clients (os_leases OS')\<rparr>"
    by (simp add: ap_status_of_def polkit_check_def is_running_def get_params_def str_param_def dget_or_def join_config_def f)
  have "ap_stop OS' (PolkitAnswer True) r' = (None, reset_state r', [APStopped])" "r_ops (reset_state r') = r_ops r'"
    "\<not> is_running OS' (reset_state r')"
    by (simp_all add: ap_stop_def polkit_check_def is_running_def runner_stop_def ap_ok_def reset_state_def alive_def f)
  then show ?thesis using w sec st f(5) by blast
qed

definition join_os :: ap_os where
  "join_os = demo_os\<lparr>os_cmd := (\<lambda>n c.
     if c = scan_cmd then CmdDone 0 (nm_line [''yes'', ''Home'', ''0a:1b'', ''wlan0'', ''WPA2'', ''wifi''] @ [LF])
     else if c = ip_cmd ''wlan0'' then CmdDone 0 (''inet 192.168.1.50/24 brd 192.168.1.255'' @ [LF])
     else if c = psk_cmd ''Home'' then CmdDone 0 (PSK_FIELD @ ''secret12'' @ [LF]) else CmdDone 0 [])\<rparr>"

theorem join_mode_hands_off_witness:
  "\<exists>r''. ap_stop demo_os (PolkitAnswer True) (fst (snd (ap_start demo_text join_os (PolkitAnswer True) demo_request new_runner))) = (None, r'', [APStopped]) \<and>
     length (r_ops r'') = 3"
proof -
  let ?s = "ap_start demo_text join_os (PolkitAnswer True) demo_request new_runner"
  have "fst ?s = None" by code_simp
  then have "?s = (None, fst (snd ?s), snd (snd ?s))" by (cases ?s) simp
  note p = join_mode_hands_off [OF this]
  have "r_mode (fst (snd ?s)) = Some JoinMode" by code_simp
  then show ?thesis using p [of demo_os] by (auto simp: new_runner_def)
qed

text \<open>Only \<^verbatim>\<open>RuntimeError\<close> is undone. When starting the second daemon fails in any other way (it may not be executed,
  say), \<open>Start\<close> ends in that exception without a signal and the first daemon stays: neither \<open>Stop\<close> nor the end of the
  service ends it, because the service does not count as running.\<close>

theorem escaped_start_leaks_hostapd:
  assumes "r_hconf r = Some hp" "r_dconf r = Some dp" "r_hostapd r = None" "r_dnsmasq r = None" "r_mode r = None"
    and "os_spawn OS (length (r_ops r)) [''hostapd'', hp] = Spawned p" "\<And>n. os_alive OS n p"
    and "os_spawn OS (Suc (length (r_ops r))) [''dnsmasq'', ''--conf-file='' @ dp, ''--no-daemon''] = SpawnRaises x"
  shows "\<exists>r'. start_daemons OS r = (Some (Escapes x), r') \<and> Spawn [''hostapd'', hp] p \<in> set (r_ops r') \<and>
    ap_stop OS (PolkitAnswer True) r' = (Some (DErr ''org.nemo.APManager.Error.NotRunning'' ''AP is not running''), r', []) \<and>
    on_sigterm OS r' = (None, r')"
  using assms
  by (simp add: start_daemons_def start_hostapd_def start_dnsmasq_def ap_then_def ap_ok_def op_def alive_def ap_stop_def
      polkit_check_def is_running_def on_sigterm_def Let_def)

theorem escaped_start_leaks_hostapd_witness:
  "\<exists>r'. start_daemons (demo_os\<lparr>os_spawn := (\<lambda>n c. if hd c = ''dnsmasq'' then SpawnRaises OSError else Spawned 7)\<rparr>)
      (new_runner\<lparr>r_hconf := Some ''/tmp/0'', r_dconf := Some ''/tmp/1''\<rparr>) = (Some (Escapes OSError), r') \<and>
     Spawn [''hostapd'', ''/tmp/0''] 7 \<in> set (r_ops r')"
  using escaped_start_leaks_hostapd [of "new_runner\<lparr>r_hconf := Some ''/tmp/0'', r_dconf := Some ''/tmp/1''\<rparr>" "''/tmp/0''" "''/tmp/1''"
      "demo_os\<lparr>os_spawn := (\<lambda>n c. if hd c = ''dnsmasq'' then SpawnRaises OSError else Spawned 7)\<rparr>" 7 OSError]
  by (auto simp: new_runner_def demo_os_def)

end
