(* ===== verification/HostapdHelper.thy ===== *)
theory HostapdHelper
  imports ApService ChannelBase
begin

text \<open>
  \<^verbatim>\<open>v2/modules/hostapd_helper/main.py\<close>: the module between the bus and the access point service. Every D-Bus
  call it makes is numbered, and what the service answers depends on the number; signals of the service are
  handled once for every receiver that was added. An error of a call is the pair of its D-Bus name and its text.
\<close>

definition hostapd_schema :: schema where
  "hostapd_schema =
     [(''interface'', field_string ''wlan0''), (''ssid'', field_string ''AndroidAutoAP''),
      (''hw_mode'', projr (field_enum ''a'' [''a'', ''g''])), (''channel'', field_int 36 (PInt 1) (PInt 196)),
      (''ap_password'', field_string []), (''subnet'', field_string ''10.0.0''), (''gateway_ip'', field_string ''10.0.0.1''),
      (''dhcp_range_start'', field_string ''10.0.0.10''), (''dhcp_range_end'', field_string ''10.0.0.50''),
      (''country_code'', field_string ''IT''), (''monitor_timeout'', field_int 30 (PInt 5) (PInt 120))]"

section \<open>The service as it is seen\<close>

type_synonym dbus_fail = "string \<times> string"

record ap_bus =
  sv_start :: "nat \<Rightarrow> payload \<Rightarrow> dbus_fail option"
  sv_stop :: "nat \<Rightarrow> dbus_fail option"
  sv_status :: "nat \<Rightarrow> dbus_fail + ap_status"

text \<open>\<open>h_calls\<close> counts the D-Bus calls made, \<open>h_receivers\<close> how often the three signal receivers were added.\<close>

record helper =
  h_config :: payload
  h_params :: "payload option"
  h_client :: bool
  h_receivers :: nat
  h_calls :: nat

definition new_helper :: helper where
  "new_helper = \<lparr>h_config = schema_values hostapd_schema, h_params = None, h_client = False, h_receivers = 0, h_calls = 0\<rparr>"

definition called :: "helper \<Rightarrow> helper" where
  "called h = h\<lparr>h_calls := Suc (h_calls h)\<rparr>"

definition client_status :: "ap_bus \<Rightarrow> helper \<Rightarrow> dbus_fail + ap_status" where
  "client_status B h = sv_status B (h_calls h)"

definition client_is_running :: "ap_bus \<Rightarrow> helper \<Rightarrow> bool" where
  "client_is_running B h = (case client_status B h of Inl e \<Rightarrow> False | Inr s \<Rightarrow> st_state s = ''running'')"

definition ensure_dbus :: "helper \<Rightarrow> helper" where
  "ensure_dbus h = h\<lparr>h_client := True\<rparr>"

definition subscribe_dbus_signals :: "helper \<Rightarrow> helper" where
  "subscribe_dbus_signals h = h\<lparr>h_receivers := Suc (h_receivers h)\<rparr>"

section \<open>Signals\<close>

definition ready_params :: "ap_status \<Rightarrow> string \<Rightarrow> payload" where
  "ready_params s iface =
     [(''ssid'', PStr (st_ssid s)), (''key'', PStr (st_key s)), (''bssid'', PStr (st_bssid s)), (''interface'', PStr iface),
      (''gateway_ip'', PStr (st_gateway_ip s)), (''security_mode'', PInt 8), (''ap_type'', PInt 1)]"

definition hostapd_failed :: "string \<Rightarrow> busmsg" where
  "hostapd_failed m = (''hostapd.failed'', [(''error'', PStr m)])"

definition on_dbus_ap_started :: "py_text \<Rightarrow> ap_bus \<Rightarrow> payload \<Rightarrow> helper \<Rightarrow> helper \<times> busmsg list" where
  "on_dbus_ap_started T B params h =
     (case client_status B h of
        Inl (n, m) \<Rightarrow> (called h, [hostapd_failed m])
      | Inr s \<Rightarrow>
          (let full = ready_params s (py_str T (dget_or params ''interface'' (dget (h_config h) ''interface''))) in
           ((called h)\<lparr>h_params := Some full\<rparr>, [(''hostapd.ready'', full)])))"

definition on_dbus_ap_stopped :: "helper \<Rightarrow> helper \<times> busmsg list" where
  "on_dbus_ap_stopped h = (h\<lparr>h_params := None\<rparr>, [(''hostapd.stopped'', [])])"

definition on_dbus_ap_failed :: "string \<Rightarrow> helper \<Rightarrow> helper \<times> busmsg list" where
  "on_dbus_ap_failed reason h = (h\<lparr>h_params := None\<rparr>, [hostapd_failed reason])"

fun on_signal :: "py_text \<Rightarrow> ap_bus \<Rightarrow> ap_signal \<Rightarrow> helper \<Rightarrow> helper \<times> busmsg list" where
  "on_signal T B (APStarted p) h = on_dbus_ap_started T B p h"
| "on_signal T B APStopped h = on_dbus_ap_stopped h"
| "on_signal T B (APFailed m) h = on_dbus_ap_failed m h"

text \<open>Every receiver that was added is called.\<close>

definition deliver_signal :: "py_text \<Rightarrow> ap_bus \<Rightarrow> helper \<Rightarrow> ap_signal \<Rightarrow> helper \<times> busmsg list" where
  "deliver_signal T B h sig = run_events (\<lambda>h sig. on_signal T B sig h) h (replicate (h_receivers h) sig)"

section \<open>Configuration and boot\<close>

definition helper_config_loaded :: "payload \<Rightarrow> helper \<Rightarrow> helper \<times> busmsg list" where
  "helper_config_loaded config h =
     (if config = [] then (h, [])
      else (subscribe_dbus_signals (ensure_dbus (h\<lparr>h_config := merge_config hostapd_schema config\<rparr>)),
            [(''system.ready'', [(''name'', PStr ''hostapd_helper''), (''priority'', PInt 1)])]))"

definition helper_config_changed :: "string \<Rightarrow> pyval \<Rightarrow> helper \<Rightarrow> helper" where
  "helper_config_changed key v h =
     (if key \<notin> set (dkeys hostapd_schema) \<or> structural v then h else h\<lparr>h_config := dset key v (h_config h)\<rparr>)"

definition build_dbus_config :: "py_text \<Rightarrow> payload \<Rightarrow> payload res" where
  "build_dbus_config T c =
     rbind (map_res (\<lambda>(k, key). rbind (dindex c key) (\<lambda>v. Inr (k, PStr (py_str T v))))
              [(''interface'', ''interface''), (''ssid'', ''ssid''), (''key'', ''ap_password''), (''hw_mode'', ''hw_mode'')]) (\<lambda>a.
     rbind (rbind (dindex c ''channel'') py_int) (\<lambda>ch.
     rbind (map_res (\<lambda>key. rbind (dindex c key) (\<lambda>v. Inr (key, PStr (py_str T v))))
              [''subnet'', ''gateway_ip'', ''dhcp_range_start'', ''dhcp_range_end'', ''country_code'']) (\<lambda>b.
     Inr (a @ (''channel'', PInt ch) # b))))"

definition helper_system_start :: "payload \<Rightarrow> helper \<Rightarrow> busmsg res list" where
  "helper_system_start p h =
     (if py_eq_int (dget p ''priority'') 1 then [client_get ''hostapd_helper'' None (Some hostapd_schema)] else [])"

definition helper_teardown :: "ap_bus \<Rightarrow> helper \<Rightarrow> helper" where
  "helper_teardown B h =
     (let h = h\<lparr>h_params := None\<rparr> in
      if \<not> h_client h then h else if client_is_running B h then called (called h) else called h)"

section \<open>A phone on RFCOMM\<close>

definition ALREADY_RUNNING :: string where "ALREADY_RUNNING = ''org.nemo.APManager.Error.AlreadyRunning''"

definition hostapd_starting :: "payload \<Rightarrow> busmsg" where
  "hostapd_starting c = (''hostapd.starting'', [(''ssid'', dget c ''ssid''), (''interface'', dget c ''interface'')])"

text \<open>The access point is there: publish what is known of it, or ask.\<close>

definition reuse_ap :: "py_text \<Rightarrow> ap_bus \<Rightarrow> helper \<Rightarrow> helper \<times> busmsg list" where
  "reuse_ap T B h =
     (case h_params h of
        Some (p # ps) \<Rightarrow> (h, [(''hostapd.ready'', p # ps)])
      | _ \<Rightarrow>
          (case client_status B h of
             Inl (n, m) \<Rightarrow> (called h, [hostapd_failed m])
           | Inr s \<Rightarrow> (called h, [(''hostapd.ready'', ready_params s (py_str T (dget (h_config h) ''interface'')))])))"

text \<open>\<^verbatim>\<open>on_rfcomm_connected\<close>; it calls itself when the service answers that the access point runs, so it need not
  return. The first component is an exception that leaves the handler.\<close>

partial_function (option) helper_rfcomm_connected ::
    "py_text \<Rightarrow> ap_bus \<Rightarrow> helper \<Rightarrow> (exn option \<times> helper \<times> busmsg list) option" where
  "helper_rfcomm_connected T B h0 =
     (let h = ensure_dbus h0 in
      if client_is_running B h then (let (h', ms) = reuse_ap T B (called h) in Some (None, h', ms))
      else (case build_dbus_config T (h_config h) of
         Inl x \<Rightarrow> Some (Some x, called h, [])
       | Inr c \<Rightarrow>
           (case sv_start B (h_calls (called h)) c of
              None \<Rightarrow> Some (None, called (called h), [hostapd_starting c])
            | Some (n, m) \<Rightarrow>
                (if n = ALREADY_RUNNING
                 then Option.bind (helper_rfcomm_connected T B (called (called h)))
                        (\<lambda>(x, h', ms). Some (x, h', hostapd_starting c # ms))
                 else Some (None, called (called h), [hostapd_starting c, hostapd_failed m])))))"

section \<open>Facts\<close>

lemma called_simps [simp]:
  "h_calls (called h) = Suc (h_calls h)" "h_config (called h) = h_config h" "h_params (called h) = h_params h"
  "h_client (called h) = h_client h" "h_receivers (called h) = h_receivers h"
  "h_calls (ensure_dbus h) = h_calls h" "h_config (ensure_dbus h) = h_config h" "h_params (ensure_dbus h) = h_params h"
  "h_client (ensure_dbus h)" "h_receivers (ensure_dbus h) = h_receivers h" "ensure_dbus (called h) = called (ensure_dbus h)"
  by (simp_all add: called_def ensure_dbus_def)

lemma ensure_dbus_idem [simp]: "ensure_dbus (ensure_dbus h) = ensure_dbus h"
  by (simp add: ensure_dbus_def)

lemma deliver_Suc:
  "run_events f h (replicate (Suc n) e) = (let r = f h e; q = run_events f (fst r) (replicate n e) in (fst q, snd r @ snd q))"
  by simp

text \<open>One call of the handler, with the reply to \<open>Start\<close>.\<close>

lemma rfcomm_step:
  assumes "\<not> client_is_running B (ensure_dbus h)" "build_dbus_config T (h_config h) = Inr c"
  shows "helper_rfcomm_connected T B h =
    (case sv_start B (Suc (h_calls h)) c of
       None \<Rightarrow> Some (None, called (called (ensure_dbus h)), [hostapd_starting c])
     | Some (n, m) \<Rightarrow>
         (if n = ALREADY_RUNNING
          then Option.bind (helper_rfcomm_connected T B (called (called (ensure_dbus h))))
                 (\<lambda>(x, h', ms). Some (x, h', hostapd_starting c # ms))
          else Some (None, called (called (ensure_dbus h)), [hostapd_starting c, hostapd_failed m])))"
  using assms by (subst helper_rfcomm_connected.simps) (simp add: Let_def)

section \<open>Properties\<close>

text \<open>The service says that it runs, or does not answer \<open>Start\<close> by saying that it already does.\<close>

definition settles :: "ap_bus \<Rightarrow> payload \<Rightarrow> nat \<Rightarrow> bool" where
  "settles B c k \<longleftrightarrow> (case sv_status B k of Inl e \<Rightarrow> False | Inr s \<Rightarrow> st_state s = ''running'') \<or>
     (case sv_start B (Suc k) c of None \<Rightarrow> True | Some (n, m) \<Rightarrow> n \<noteq> ALREADY_RUNNING)"

lemma rfcomm_settles:
  assumes "build_dbus_config T (h_config h) = Inr c" "settles B c (h_calls h + 2 * n)"
  shows "\<exists>r. helper_rfcomm_connected T B h = Some r"
  using assms
proof (induction n arbitrary: h)
  case 0
  show ?case
  proof (cases "client_is_running B (ensure_dbus h)")
    case True
    then show ?thesis by (subst helper_rfcomm_connected.simps) (simp add: Let_def split: prod.split)
  next
    case False
    then show ?thesis
      using rfcomm_step [OF False 0(1)] 0(2)
      by (auto simp: settles_def client_is_running_def client_status_def split: option.splits sum.splits)
  qed
next
  case (Suc n)
  let ?h = "called (called (ensure_dbus h))"
  have IH: "\<exists>r. helper_rfcomm_connected T B ?h = Some r"
    using Suc.IH [of ?h] Suc.prems by simp
  show ?case
  proof (cases "client_is_running B (ensure_dbus h)")
    case True
    then show ?thesis by (subst helper_rfcomm_connected.simps) (simp add: Let_def split: prod.split)
  next
    case False
    then show ?thesis
      using rfcomm_step [OF False Suc.prems(1)] IH by (auto split: option.splits prod.splits)
  qed
qed

text \<open>C34 The handler returns whenever, within any number of rounds, the service either says that it runs or does not
  answer \<open>Start\<close> by saying that it already does; a service that never does either keeps the handler calling itself
  for ever (Python ends that with an exception at its recursion limit).\<close>

theorem rfcomm_handler_returns:
  assumes "build_dbus_config T (h_config h) = Inr c"
  shows "(\<exists>r. helper_rfcomm_connected T B h = Some r) \<longleftrightarrow> (\<exists>n. settles B c (h_calls h + 2 * n))"
proof -
  have "helper_rfcomm_connected T B h = None" if "\<forall>n. \<not> settles B c (h_calls h + 2 * n)"
  proof -
    let ?P = "\<lambda>T B h (r :: exn option \<times> helper \<times> busmsg list). build_dbus_config T (h_config h) = Inr c \<longrightarrow>
        (\<exists>n. settles B c (h_calls h + 2 * n))"
    have "?P T B h r" if "helper_rfcomm_connected T B h = Some r" for r
    proof (rule helper_rfcomm_connected.raw_induct [where P = ?P, OF _ that], rule impI, rule ccontr)
      fix rec :: "py_text \<Rightarrow> ap_bus \<Rightarrow> helper \<Rightarrow> (exn option \<times> helper \<times> busmsg list) option"
        and T :: py_text and B :: ap_bus and h0 :: helper and r :: "exn option \<times> helper \<times> busmsg list"
      assume IH: "\<And>T B h r. rec T B h = Some r \<Longrightarrow> ?P T B h r"
      assume body: "(let h = ensure_dbus h0 in
          if client_is_running B h then (let (h', ms) = reuse_ap T B (called h) in Some (None, h', ms))
          else (case build_dbus_config T (h_config h) of
             Inl x \<Rightarrow> Some (Some x, called h, [])
           | Inr c \<Rightarrow>
               (case sv_start B (h_calls (called h)) c of
                  None \<Rightarrow> Some (None, called (called h), [hostapd_starting c])
                | Some (n, m) \<Rightarrow>
                    (if n = ALREADY_RUNNING
                     then Option.bind (rec T B (called (called h))) (\<lambda>(x, h', ms). Some (x, h', hostapd_starting c # ms))
                     else Some (None, called (called h), [hostapd_starting c, hostapd_failed m]))))) = Some r"
      assume c: "build_dbus_config T (h_config h0) = Inr c" and no: "\<nexists>n. settles B c (h_calls h0 + 2 * n)"
      have "\<not> settles B c (h_calls h0)" using no by (metis add_0_right mult_0_right)
      then have nr: "\<not> client_is_running B (ensure_dbus h0)"
        and "case sv_start B (Suc (h_calls h0)) c of None \<Rightarrow> False | Some (n, m) \<Rightarrow> n = ALREADY_RUNNING"
        by (auto simp: settles_def client_is_running_def client_status_def split: option.splits prod.splits)
      then obtain m where s: "sv_start B (Suc (h_calls h0)) c = Some (ALREADY_RUNNING, m)"
        by (auto split: option.splits prod.splits)
      let ?h = "called (called (ensure_dbus h0))"
      obtain q where q: "rec T B ?h = Some q"
        using body c nr s by (auto simp: Let_def split: Option.bind_splits)
      then obtain n where "settles B c (h_calls ?h + 2 * n)" using IH [OF q] c by auto
      then have "settles B c (h_calls h0 + 2 * Suc n)" by simp
      then show False using no by blast
    qed
    then show ?thesis using assms that by (cases "helper_rfcomm_connected T B h") blast+
  qed
  then show ?thesis using rfcomm_settles [OF assms] by (metis option.distinct(1))
qed

text \<open>A service that is stopped and starts when it is asked to.\<close>

definition demo_status :: "string \<Rightarrow> ap_status" where
  "demo_status st = \<lparr>st_state = st, st_ssid = ''Car'', st_bssid = ''0A:1B'', st_gateway_ip = ''10.0.0.1'', st_key = ''secret12'', st_clients = 0\<rparr>"

definition demo_bus :: ap_bus where
  "demo_bus = \<lparr>sv_start = (\<lambda>k c. None), sv_stop = (\<lambda>k. None), sv_status = (\<lambda>k. Inr (demo_status ''stopped''))\<rparr>"

theorem rfcomm_handler_returns_witness: "\<exists>r. helper_rfcomm_connected demo_text demo_bus new_helper = Some r"
proof -
  have "settles demo_bus (projr (build_dbus_config demo_text (h_config new_helper))) (h_calls new_helper + 2 * 0)"
    by (simp add: settles_def demo_bus_def)
  moreover have "build_dbus_config demo_text (h_config new_helper) = Inr (projr (build_dbus_config demo_text (h_config new_helper)))"
    by code_simp
  ultimately show ?thesis using rfcomm_handler_returns by blast
qed

end
