(* ===== verification/SessionBoot.thy ===== *)
theory SessionBoot
  imports ChannelManager AvInputChannel VideoChannel SensorChannel PlainChannels HostapdHelper
begin

text \<open>
  The channel manager and its children together: what the manager makes of the messages of the children,
  and what the children's configuration requests do to the configuration manager.
\<close>

section \<open>What the manager hears\<close>

text \<open>The three handlers read \<^verbatim>\<open>module_name\<close>, with \<^verbatim>\<open>""\<close> and priority 1 for what is absent.\<close>

definition heard_name :: "payload \<Rightarrow> string" where
  "heard_name p = (case dget_or p ''module_name'' (PStr []) of PStr n \<Rightarrow> n | _ \<Rightarrow> [])"

definition on_channel_manager_module_ready_to_start :: "payload \<Rightarrow> cm_sys \<Rightarrow> cm_sys" where
  "on_channel_manager_module_ready_to_start p c =
     on_cur (\<lambda>s. snd (on_module_ready_to_start (heard_name p) (case dget_or p ''priority'' (PInt 1) of PInt i \<Rightarrow> i | _ \<Rightarrow> 1) s)) c"

definition on_channel_manager_module_ready :: "payload \<Rightarrow> cm_sys \<Rightarrow> cm_sys" where
  "on_channel_manager_module_ready p c = on_cur (\<lambda>s. snd (on_module_ready (heard_name p) s)) c"

definition on_channel_manager_module_stopped :: "payload \<Rightarrow> cm_sys \<Rightarrow> cm_sys" where
  "on_channel_manager_module_stopped p c = on_cur (on_module_stopped (heard_name p)) c"

definition cm_hear :: "cm_sys \<Rightarrow> busmsg \<Rightarrow> cm_sys" where
  "cm_hear c m =
     (if fst m = ''channel_manager.module_ready_to_start'' then on_channel_manager_module_ready_to_start (snd m) c
      else if fst m = ''channel_manager.module_ready'' then on_channel_manager_module_ready (snd m) c
      else if fst m = ''channel_manager.module_stopped'' then on_channel_manager_module_stopped (snd m) c
      else c)"

text \<open>C13 A module of any kind announces that it is ready at most once in its life, at the step that sets its
  flag, under its own name, and only with its channel found, its initialisation done and its
  configuration there; the manager hears of exactly that module.\<close>

theorem ready_published_once:
  assumes "channel_module H" "\<not> ch_published s" "gate_ok s" "r = run_events (chan_step H) s es"
  shows "readies (snd r) = (if ch_published (fst r) then [ready_msg s] else []) \<and> gate_ok (fst r) \<and>
    foldl cm_hear c (readies (snd r)) = (if ch_published (fst r) then fst (cm_step scripts order c (ModuleReady (ch_name s))) else c)"
proof -
  have g: "gate_step s r" unfolding assms(4) by (rule channel_module.run_gate [OF assms(1)])
  then have "readies (snd r) = (if ch_published (fst r) then [ready_msg s] else [])" "gate_ok (fst r)"
    using assms(2,3) by (simp_all add: gate_step_def)
  moreover have "cm_hear c (ready_msg s) = fst (cm_step scripts order c (ModuleReady (ch_name s)))"
    by (simp add: cm_hear_def ready_msg_def on_channel_manager_module_ready_def heard_name_def dget_or_def)
  ultimately show ?thesis by simp
qed

theorem ready_published_once_witness:
  "readies (snd (run_events (chan_step (mic_hooks demo_mic_lib)) (new_mic ''channel_av_input_7'' 7 (Some []))
     [ModuleStart demo_mic_env [(''priority'', PInt 1)], ConfigLoaded demo_mic_env [], ConfigLoaded demo_mic_env []])) =
   [ready_msg (new_mic ''channel_av_input_7'' 7 (Some []))]"
proof -
  let ?s = "new_mic ''channel_av_input_7'' 7 (Some [])"
  let ?es = "[ModuleStart demo_mic_env [(''priority'', PInt 1)], ConfigLoaded demo_mic_env [], ConfigLoaded demo_mic_env []]"
  have "\<not> ch_published ?s" "gate_ok ?s" by (simp_all add: new_mic_def new_chan_def chan.defs gate_ok_def)
  moreover have "ch_published (fst (run_events (chan_step (mic_hooks demo_mic_lib)) ?s ?es))"
    by code_simp
  ultimately show ?thesis
    using ready_published_once [OF mic_mod.channel_module_axioms [of demo_mic_lib], of ?s _ ?es, OF _ _ refl] by simp
qed

section \<open>Stopping\<close>

definition acks_of :: "busmsg list \<Rightarrow> busmsg list" where
  "acks_of ms = filter (\<lambda>m. fst m = ''channel_manager.module_stopped'') ms"

text \<open>No child is ever seen to have stopped: the acknowledgement names it under \<^verbatim>\<open>name\<close> and the manager reads
  \<^verbatim>\<open>module_name\<close>, so the messages a stopping module sends leave the manager's sessions as they were.\<close>

theorem stop_ack_ignored:
  assumes "channel_module H" "\<forall>k. cur c = Some k \<longrightarrow> [] \<notin> s_expected (sessions c ! k)"
    and "h_cleanup H e s = (None, s', ms)" "acks_of ms = []"
  shows "acks_of (snd (chan_step H s (ModuleStop e))) = [(''channel_manager.module_stopped'', [(''name'', PStr (ch_name s))])] \<and>
    foldl cm_hear c (acks_of (snd (chan_step H s (ModuleStop e)))) = c"
proof -
  have "ch_name s' = ch_name s" using channel_module.cleanup_ok [OF assms(1), of s e] assms(3) by (simp add: hook_ok_def same_base_def)
  then have a: "acks_of (snd (chan_step H s (ModuleStop e))) = [(''channel_manager.module_stopped'', [(''name'', PStr (ch_name s))])]"
    using assms(3,4) by (simp add: chan_step_def on_module_stop_def eff_ok_def acks_of_def)
  have "on_cur (on_module_stopped []) c = c"
    using assms(2) by (cases c) (auto simp: on_cur_def put_session_def on_module_stopped_def split: option.split)
  then show ?thesis
    by (simp add: a cm_hear_def on_channel_manager_module_stopped_def heard_name_def dget_or_def)
qed

theorem stop_ack_ignored_witness:
  "foldl cm_hear demo_announced (acks_of (snd (chan_step (mic_hooks demo_mic_lib) demo_mic (ModuleStop demo_mic_env)))) = demo_announced"
proof -
  have "cur demo_announced = Some 0" "[] \<notin> s_expected (sessions demo_announced ! 0)" by code_simp+
  then have "\<forall>k. cur demo_announced = Some k \<longrightarrow> [] \<notin> s_expected (sessions demo_announced ! k)" by simp
  moreover have "h_cleanup (mic_hooks demo_mic_lib) demo_mic_env demo_mic =
      (None, fst (snd (mic_cleanup demo_mic)), snd (snd (mic_cleanup demo_mic)))" and "acks_of (snd (snd (mic_cleanup demo_mic))) = []"
    by (simp_all add: mic_hooks_def mic_cleanup_def stop_stream_def demo_mic_def new_mic_def new_chan_def chan.defs mic_set_state_def
        eff_ok_def Let_def acks_of_def)
  ultimately show ?thesis
    using stop_ack_ignored [OF mic_mod.channel_module_axioms [of demo_mic_lib], of demo_announced demo_mic_env demo_mic] by blast
qed

section \<open>Configuration of the access point\<close>

definition wifi_request :: payload where
  "wifi_request = snd (projr hostapd_request)"

lemma wifi_request: "hostapd_request = Inr (''config.get'', wifi_request)"
  "dget wifi_request ''module'' = PStr ''hostapd_helper''"
  "register_schema ''hostapd_helper'' (dget wifi_request ''schema'') g = g\<lparr>g_schemas := dset ''hostapd_helper'' wifi_schema (g_schemas g)\<rparr>"
proof -
  show "hostapd_request = Inr (''config.get'', wifi_request)" "dget wifi_request ''module'' = PStr ''hostapd_helper''" by code_simp+
  have "dget wifi_request ''schema'' = PDict [(''ssid'', PDict [(''type'', PStr ''string''), (''default'', PStr ''AndroidAutoAP'')]),
      (''ap_password'', PDict [(''type'', PStr ''string''), (''default'', PStr [])])]" by code_simp
  moreover have "schema_from_dict [(''ssid'', PDict [(''type'', PStr ''string''), (''default'', PStr ''AndroidAutoAP'')]),
      (''ap_password'', PDict [(''type'', PStr ''string''), (''default'', PStr [])])] = Inr wifi_schema" by code_simp
  ultimately show "register_schema ''hostapd_helper'' (dget wifi_request ''schema'') g =
      g\<lparr>g_schemas := dset ''hostapd_helper'' wifi_schema (g_schemas g)\<rparr>" by (simp add: register_schema_def)
qed

lemma save_schemas: "g_schemas (snd (save_config Y env n d g)) = g_schemas g"
  by (cases env) simp_all

lemma get_schemas: "g_schemas (fst (snd (on_config_get Y readable env wifi_request g))) = dset ''hostapd_helper'' wifi_schema (g_schemas g)"
proof -
  have "g_schemas (snd (seed_config Y env d n c h)) = g_schemas h" for d n c h
    using save_schemas [of Y env n "seed_of d n h" h] by (auto simp: seed_config_def Let_def split: prod.split)
  moreover
  let ?g = "g\<lparr>g_schemas := dset ''hostapd_helper'' wifi_schema (g_schemas g)\<rparr>"
  let ?r = "seed_config Y env (dget wifi_request ''defaults'') ''hostapd_helper'' (load_config Y readable ''hostapd_helper'' ?g) ?g"
  have "fst (snd (on_config_get Y readable env wifi_request g)) = snd ?r"
    unfolding on_config_get_def wifi_request(2) pyval.case wifi_request(3) Let_def
    by (cases ?r; cases "schema_for_response ''hostapd_helper'' (snd ?r)") simp_all
  ultimately show ?thesis by simp
qed

text \<open>The WiFi channel lifts the checks on the access point: its start registers its own two keys as the
  schema of \<^verbatim>\<open>hostapd_helper\<close>, replacing the helper's. A WiFi channel number that was refused before is
  then stored as it comes and announced, and so is any value of any other key.\<close>

theorem wifi_lifts_validation:
  assumes "map_of (g_schemas g) ''hostapd_helper'' = Some hostapd_schema" and "hostapd_request = Inr (topic, req)"
    and "g' = fst (snd (on_config_get Y readable env req g))" and "key \<noteq> ''ssid''" "key \<noteq> ''ap_password''"
  shows "(\<exists>reason. validated T ''hostapd_helper'' ''channel'' (PInt 9999) g = Inl (Invalid reason)) \<and>
    snd (snd (on_config_set T Y readable Saved [(''module'', PStr ''hostapd_helper''), (''key'', PStr key), (''value'', v)] g')) =
      [(''config.changed'', [(''module'', PStr ''hostapd_helper''), (''key'', PStr key), (''value'', v)])]"
proof -
  have "req = wifi_request" using assms(2) unfolding wifi_request(1) by simp
  then have "map_of (dget_or (g_schemas g') ''hostapd_helper'' []) key = None"
    using assms(3-5) get_schemas [of Y readable env g] by (simp add: dget_or_def map_of_dset wifi_schema_def)
  then have "validated T ''hostapd_helper'' key v g' = Inr v" by (simp add: validated_def)
  then have s: "snd (snd (on_config_set T Y readable Saved [(''module'', PStr ''hostapd_helper''), (''key'', PStr key), (''value'', v)] g')) =
      [(''config.changed'', [(''module'', PStr ''hostapd_helper''), (''key'', PStr key), (''value'', v)])]"
    by (simp add: on_config_set_def dget_def dget_or_def Let_def)
  have "map_of hostapd_schema ''channel'' = Some (field_int 36 (PInt 1) (PInt 196))"
    by (simp add: hostapd_schema_def)
  then have "\<exists>reason. validated T ''hostapd_helper'' ''channel'' (PInt 9999) g = Inl (Invalid reason)"
    using assms(1) by (simp add: validated_def dget_or_def field_int_def validate_value_def validate_int_def check_bounds_def py_less_def)
  with s show ?thesis by blast
qed

theorem wifi_lifts_validation_witness:
  "snd (snd (on_config_set demo_text demo_yaml True Saved
      [(''module'', PStr ''hostapd_helper''), (''key'', PStr ''channel''), (''value'', PInt 9999)]
      (fst (snd (on_config_get demo_yaml True Saved wifi_request \<lparr>g_schemas = [(''hostapd_helper'', hostapd_schema)], g_files = []\<rparr>))))) =
   [(''config.changed'', [(''module'', PStr ''hostapd_helper''), (''key'', PStr ''channel''), (''value'', PInt 9999)])]"
  using wifi_lifts_validation [OF _ wifi_request(1) refl, of "\<lparr>g_schemas = [(''hostapd_helper'', hostapd_schema)], g_files = []\<rparr>" "''channel''"]
  by simp

end
