(* ===== verification/WirelessSession.thy ===== *)
theory WirelessSession
  imports SessionBoot RfcommMain
begin

text \<open>
  The access point service, \<^verbatim>\<open>hostapd_helper\<close>, the WiFi channel, the configuration manager and \<^verbatim>\<open>rfcomm_handshake\<close>
  together: how the credentials of the access point get to the phone.
\<close>

section \<open>The service behind the bus\<close>

text \<open>\<open>rs k\<close> is the state of the service when it gets the \<open>k\<close>-th call, \<open>f\<close> what D-Bus makes of its errors: a caller sees
  the name of the error and a text.\<close>

definition serves :: "(dbus_err \<Rightarrow> dbus_fail) \<Rightarrow> py_text \<Rightarrow> ap_os \<Rightarrow> (nat \<Rightarrow> ap_runner) \<Rightarrow> ap_bus" where
  "serves f T OS rs =
     \<lparr>sv_start = (\<lambda>k c. map_option f (fst (ap_start T OS (PolkitAnswer True) c (rs k)))),
      sv_stop = (\<lambda>k. map_option f (fst (ap_stop OS (PolkitAnswer True) (rs k)))),
      sv_status = (\<lambda>k. map_sum f id (ap_status_of OS (PolkitAnswer True) (rs k)))\<rparr>"

definition dbus_names :: "(dbus_err \<Rightarrow> dbus_fail) \<Rightarrow> bool" where
  "dbus_names f \<longleftrightarrow> (\<forall>n m. fst (f (DErr n m)) = n) \<and> (\<forall>x. fst (f (PyErr x)) \<noteq> ALREADY_RUNNING)"

lemma serves_running:
  "client_is_running (serves f T OS rs) h \<longleftrightarrow> is_running OS (rs (h_calls h))"
  by (simp add: client_is_running_def client_status_def serves_def ap_status_of_def polkit_check_def)

section \<open>Properties\<close>

text \<open>A start of the access point that fails is reported more than once: the handler that asked for it publishes the error
  of the call, and every receiver of the signal publishes it again.\<close>

theorem failure_reported_twice:
  assumes "dbus_names f" "B = serves f T OS rs" "\<not> is_running OS (rs (h_calls h))" "build_dbus_config T (h_config h) = Inr c"
    and "ap_start T OS (PolkitAnswer True) c (rs (Suc (h_calls h))) = (Some (DErr ''org.nemo.APManager.Error.StartFailed'' m), r', [APFailed m])"
  shows "\<exists>h' e. helper_rfcomm_connected T B h = Some (None, h', [hostapd_starting c, hostapd_failed e]) \<and>
    snd (deliver_signal T B h' (APFailed m)) = replicate (h_receivers h) (hostapd_failed m)"
proof -
  have nr: "\<not> client_is_running B (ensure_dbus h)" using assms(2,3) by (simp add: serves_running)
  obtain n e where fe: "f (DErr ''org.nemo.APManager.Error.StartFailed'' m) = (n, e)"
    by (cases "f (DErr ''org.nemo.APManager.Error.StartFailed'' m)")
  have "n = ''org.nemo.APManager.Error.StartFailed''" using assms(1) fe unfolding dbus_names_def by (metis fst_conv)
  then have ne: "n \<noteq> ALREADY_RUNNING" by (simp add: ALREADY_RUNNING_def)
  have "helper_rfcomm_connected T B h = Some (None, called (called (ensure_dbus h)), [hostapd_starting c, hostapd_failed e])"
    using rfcomm_step [OF nr assms(4)] assms(2,5) fe ne by (simp add: serves_def)
  moreover have "snd (run_events (\<lambda>h sig. on_signal T B sig h) h'' (replicate k (APFailed m))) = replicate k (hostapd_failed m)" for k h''
    by (induction k arbitrary: h'') (simp_all add: Let_def on_dbus_ap_failed_def)
  ultimately show ?thesis by (auto simp: deliver_signal_def)
qed

definition demo_errors :: "dbus_err \<Rightarrow> dbus_fail" where
  "demo_errors e = (case e of DErr n m \<Rightarrow> (n, m) | PyErr x \<Rightarrow> (''org.freedesktop.DBus.Python'', []))"

definition no_dnsmasq :: ap_os where
  "no_dnsmasq = demo_os\<lparr>os_spawn := (\<lambda>n c. if hd c = ''dnsmasq'' then NoBinary else ApService.Spawned n)\<rparr>"

definition demo_helper :: helper where
  "demo_helper = new_helper\<lparr>h_client := True, h_receivers := 1\<rparr>"

definition helper_request :: payload where
  "helper_request = projr (build_dbus_config demo_text (h_config demo_helper))"

lemma helper_request: "build_dbus_config demo_text (h_config demo_helper) = Inr helper_request"
  unfolding helper_request_def by code_simp

lemma demo_errors_names: "dbus_names demo_errors"
  by (simp add: dbus_names_def demo_errors_def ALREADY_RUNNING_def)

theorem failure_reported_twice_witness:
  "\<exists>h' e. helper_rfcomm_connected demo_text (serves demo_errors demo_text no_dnsmasq (\<lambda>k. new_runner)) demo_helper =
      Some (None, h', [hostapd_starting helper_request, hostapd_failed e]) \<and>
    snd (deliver_signal demo_text (serves demo_errors demo_text no_dnsmasq (\<lambda>k. new_runner)) h' (APFailed ''dnsmasq not found - install dnsmasq'')) =
      [hostapd_failed ''dnsmasq not found - install dnsmasq'']"
proof -
  let ?s = "ap_start demo_text no_dnsmasq (PolkitAnswer True) helper_request new_runner"
  have "fst ?s = Some (DErr ''org.nemo.APManager.Error.StartFailed'' ''dnsmasq not found - install dnsmasq'')"
    "snd (snd ?s) = [APFailed ''dnsmasq not found - install dnsmasq'']" by code_simp+
  then have "?s = (Some (DErr ''org.nemo.APManager.Error.StartFailed'' ''dnsmasq not found - install dnsmasq''), fst (snd ?s),
      [APFailed ''dnsmasq not found - install dnsmasq''])"
    by (cases ?s) simp
  moreover have "\<not> is_running no_dnsmasq new_runner" by code_simp
  ultimately show ?thesis
    using failure_reported_twice [OF demo_errors_names refl _ helper_request, of no_dnsmasq "\<lambda>k. new_runner"]
    by (simp add: demo_helper_def)
qed

text \<open>C6 The phone is told the network that was set up: from the request of a phone on RFCOMM to the credentials that
  the handshake serialises, name and key are the ones of the access point that runs; when no text of the configuration
  (interface, name, key, mode, country) holds a line feed they are the ones in the file \<^verbatim>\<open>hostapd\<close> was started with.
  A name or key with a line feed is told to the phone as it is and is not in the file.\<close>

theorem credentials_reach_phone:
  assumes "B = serves f T OS rs" "h_receivers h = 1" "\<not> is_running OS (rs (h_calls h))" "build_dbus_config T (h_config h) = Inr c"
    and "ap_start T OS (PolkitAnswer True) c (rs (Suc (h_calls h))) = (None, r', [sig])" "r_mode r' = Some ApMode"
    and "r_hostapd (rs (Suc (h_calls h))) = None" "r_dnsmasq (rs (Suc (h_calls h))) = None"
    and "config_from_dbus_dict T c = Inr cfg" "d = with_key OS cfg"
    and "rs (Suc (Suc (h_calls h))) = r'" "is_running OS r'"
  shows "\<exists>h' h'' p path content pid bssid. helper_rfcomm_connected T B h = Some (None, h', [hostapd_starting c]) \<and>
    deliver_signal T B h' sig = (h'', [(''hostapd.ready'', p)]) \<and>
    Spawn [''hostapd'', path] pid \<in> set (r_ops r') \<and> WriteTmp path content \<in> set (r_ops r') \<and>
    ((\<forall>t \<in> {ac_interface d, ac_ssid d, ac_key d, ac_hw_mode d, ac_country d}. LF \<notin> set t) \<longrightarrow>
      conf_values ''ssid'' content = [ac_ssid d] \<and> conf_values ''wpa_passphrase'' content = [ac_key d]) \<and>
    (LF \<in> set (ac_ssid d) \<longrightarrow> ac_ssid d \<notin> set (conf_values ''ssid'' content)) \<and>
    (LF \<in> set (ac_key d) \<longrightarrow> ac_key d \<notin> set (conf_values ''wpa_passphrase'' content)) \<and>
    rf_credentials (on_hostapd_ready p s) = Some p \<and>
    send_info_response P p w =
      (case ser_security P (PStr (ac_ssid d)) (PStr bssid) (PStr (ac_key d)) (PInt 8) (PInt 1) of
         Inl x \<Rightarrow> (Inl x, w)
       | Inr body \<Rightarrow> (let (ok, w') = send_packet MSG_WIFI_INFO_RESPONSE body w in (Inr ok, w')))"
proof -
  let ?c = d
  have nr: "\<not> client_is_running B (ensure_dbus h)" using assms(1,3) by (simp add: serves_running)
  let ?h = "called (called (ensure_dbus h))"
  have h': "helper_rfcomm_connected T B h = Some (None, ?h, [hostapd_starting c])"
    using rfcomm_step [OF nr assms(4)] assms(1,5) by (simp add: serves_def)
  obtain path pid ps where k: "WriteTmp path (conf_text (hostapd_lines d)) \<in> set (r_ops r')" "Spawn [''hostapd'', path] pid \<in> set (r_ops r')"
      "sig = APStarted ps"
      "ap_status_of OS (PolkitAnswer True) r' = Inr \<lparr>st_state = ''running'', st_ssid = ac_ssid ?c, st_bssid = get_mac (os_mac OS (ac_interface ?c)),
         st_gateway_ip = ac_gateway_ip ?c, st_key = ac_key ?c, st_clients = count_dhcp_clients (os_leases OS)\<rparr>"
    using started_access_point [OF assms(5-10), of OS] assms(12) by auto
  let ?content = "conf_text (hostapd_lines d)"
  define p where "p = ready_params \<lparr>st_state = ''running'', st_ssid = ac_ssid ?c, st_bssid = get_mac (os_mac OS (ac_interface ?c)),
         st_gateway_ip = ac_gateway_ip ?c, st_key = ac_key ?c, st_clients = count_dhcp_clients (os_leases OS)\<rparr>
       (py_str T (dget_or ps ''interface'' (dget (h_config h) ''interface'')))"
  have "deliver_signal T B ?h sig = ((called ?h)\<lparr>h_params := Some p\<rparr>, [(''hostapd.ready'', p)])"
    using assms(2,11) k(3,4)
    by (simp add: deliver_signal_def on_dbus_ap_started_def client_status_def assms(1) serves_def p_def Let_def)
  moreover have "rf_credentials (on_hostapd_ready p s) = Some p" by (simp add: on_hostapd_ready_def)
  moreover have "send_info_response P p w =
        (case ser_security P (PStr (ac_ssid ?c)) (PStr (get_mac (os_mac OS (ac_interface ?c)))) (PStr (ac_key ?c)) (PInt 8) (PInt 1) of
           Inl x \<Rightarrow> (Inl x, w)
         | Inr body \<Rightarrow> (let (ok, w') = send_packet MSG_WIFI_INFO_RESPONSE body w in (Inr ok, w')))"
    by (simp add: send_info_response_def p_def ready_params_def dget_or_def Let_def)
  moreover have "(\<forall>t \<in> {ac_interface d, ac_ssid d, ac_key d, ac_hw_mode d, ac_country d}. LF \<notin> set t) \<longrightarrow>
      conf_values ''ssid'' ?content = [ac_ssid d] \<and> conf_values ''wpa_passphrase'' ?content = [ac_key d]"
    using hostapd_conf_values [of d] by (simp add: conf_texts_def)
  ultimately show ?thesis
    using h' k(1,2) conf_values_no_lf [of "ac_ssid d" "''ssid''" ?content] conf_values_no_lf [of "ac_key d" "''wpa_passphrase''" ?content]
    by blast
qed

definition demo_started :: ap_runner where
  "demo_started = fst (snd (ap_start demo_text demo_os (PolkitAnswer True) helper_request new_runner))"

definition demo_history :: "nat \<Rightarrow> ap_runner" where
  "demo_history k = (if k \<le> 1 then new_runner else demo_started)"

theorem credentials_reach_phone_witness:
  "\<exists>h' h'' p sig. helper_rfcomm_connected demo_text (serves demo_errors demo_text demo_os demo_history) demo_helper =
      Some (None, h', [hostapd_starting helper_request]) \<and>
    deliver_signal demo_text (serves demo_errors demo_text demo_os demo_history) h' sig = (h'', [(''hostapd.ready'', p)])"
proof -
  let ?s = "ap_start demo_text demo_os (PolkitAnswer True) helper_request new_runner"
  let ?cfg = "projr (config_from_dbus_dict demo_text helper_request)"
  let ?sig = "hd (snd (snd ?s))"
  have "fst ?s = None" "length (snd (snd ?s)) = 1" by code_simp+
  then have s: "ap_start demo_text demo_os (PolkitAnswer True) helper_request (demo_history (Suc (h_calls demo_helper))) = (None, demo_started, [?sig])"
    by (cases ?s) (auto simp: demo_history_def demo_started_def demo_helper_def new_helper_def length_Suc_conv)
  have m: "r_mode demo_started = Some ApMode" and run: "is_running demo_os demo_started" and stopped: "\<not> is_running demo_os new_runner" by code_simp+
  have cfg: "config_from_dbus_dict demo_text helper_request = Inr ?cfg" by code_simp
  have "h_calls demo_helper = 0" "h_receivers demo_helper = 1" by (simp_all add: demo_helper_def new_helper_def)
  then have "h_receivers demo_helper = 1" "\<not> is_running demo_os (demo_history (h_calls demo_helper))"
    "r_hostapd (demo_history (Suc (h_calls demo_helper))) = None" "r_dnsmasq (demo_history (Suc (h_calls demo_helper))) = None"
    "demo_history (Suc (Suc (h_calls demo_helper))) = demo_started"
    using stopped by (simp_all add: demo_history_def new_runner_def)
  from credentials_reach_phone [OF refl this(1,2) helper_request s m this(3,4) cfg refl this(5) run]
  show ?thesis by blast
qed

text \<open>The WiFi channel makes the helper announce every access point twice: the configuration manager's answer to the
  channel's request is addressed to \<^verbatim>\<open>hostapd_helper\<close>, which adds its signal receivers a second time and says again that
  it is ready.\<close>

theorem wifi_channel_doubles_ready:
  assumes "on_config_get Y readable env wifi_request g = (None, g', [(topic, resp)])"
    and "load_config Y readable ''hostapd_helper'' g \<noteq> []" "h_receivers h = 1" "\<And>k. sv_status B k = Inr st"
  shows "\<exists>config h'. client_on_response ''hostapd_helper'' resp = Some (PDict config) \<and>
    helper_config_loaded config h = (h', [(''system.ready'', [(''name'', PStr ''hostapd_helper''), (''priority'', PInt 1)])]) \<and>
    (\<exists>p. snd (deliver_signal T B h (APStarted ps)) = [(''hostapd.ready'', p)]) \<and>
    (\<exists>p. snd (deliver_signal T B h' (APStarted ps)) = [(''hostapd.ready'', p), (''hostapd.ready'', p)])"
proof -
  let ?config = "load_config Y readable ''hostapd_helper'' g"
  have q: "dget wifi_request ''requester'' = PStr ''hostapd_helper''" by code_simp
  have r: "client_on_response ''hostapd_helper'' resp = Some (PDict ?config)"
    using assms(1,2) q unfolding on_config_get_def wifi_request(2) pyval.case wifi_request(3) Let_def
    by (auto simp: seed_config_def client_on_response_def dget_def dget_or_def split: sum.splits option.splits)
  let ?h = "subscribe_dbus_signals (ensure_dbus (h\<lparr>h_config := merge_config hostapd_schema ?config\<rparr>))"
  have "helper_config_loaded ?config h = (?h, [(''system.ready'', [(''name'', PStr ''hostapd_helper''), (''priority'', PInt 1)])])"
    using assms(2) by (simp add: helper_config_loaded_def)
  moreover have "h_receivers ?h = 2" using assms(3) by (simp add: subscribe_dbus_signals_def ensure_dbus_def)
  ultimately show ?thesis
    using r assms(3,4)
    by (auto simp: deliver_signal_def on_dbus_ap_started_def client_status_def Let_def numeral_2_eq_2)
qed

definition stored_yaml :: yaml where
  "stored_yaml = \<lparr>y_dump = (\<lambda>d. []), y_load = (\<lambda>s. Some (PDict [(''ssid'', PStr ''Car'')]))\<rparr>"

definition stored_files :: cfgman where
  "stored_files = \<lparr>g_schemas = [], g_files = [(''hostapd_helper'', [])]\<rparr>"

theorem wifi_channel_doubles_ready_witness:
  "\<exists>config. length (snd (deliver_signal demo_text demo_bus (fst (helper_config_loaded config demo_helper)) (APStarted []))) = 2"
proof -
  let ?g = "on_config_get stored_yaml True Saved wifi_request stored_files"
  let ?m = "hd (snd (snd ?g))"
  have "fst ?g = None" "length (snd (snd ?g)) = 1" by code_simp+
  then have g: "?g = (None, fst (snd ?g), [(fst ?m, snd ?m)])"
    by (cases ?g) (auto simp: length_Suc_conv)
  have l: "load_config stored_yaml True ''hostapd_helper'' stored_files \<noteq> []" by code_simp
  have r: "h_receivers demo_helper = 1" by (simp add: demo_helper_def)
  have b: "sv_status demo_bus k = Inr (demo_status ''stopped'')" for k by (simp add: demo_bus_def)
  obtain config h' p where "helper_config_loaded config demo_helper = (h', [(''system.ready'', [(''name'', PStr ''hostapd_helper''), (''priority'', PInt 1)])])"
      "snd (deliver_signal demo_text demo_bus h' (APStarted [])) = [(''hostapd.ready'', p), (''hostapd.ready'', p)]"
    using wifi_channel_doubles_ready [OF g l r, of demo_bus "demo_status ''stopped''" demo_text "[]", OF b] by blast
  then have "length (snd (deliver_signal demo_text demo_bus (fst (helper_config_loaded config demo_helper)) (APStarted []))) = 2" by simp
  then show ?thesis by blast
qed

end
