(* ===== verification/BtDevices.thy ===== *)
theory BtDevices
  imports PyText ConfigSchema Machines
begin

text \<open>
  \<^verbatim>\<open>v2/modules/bluetooth_manager/paired_devices.py\<close> and \<^verbatim>\<open>discovery.py\<close>: what the module reads off BlueZ's object
  tree, connecting to a device with a watchdog, and a timed discovery. The object tree is the dictionary that
  \<^verbatim>\<open>GetManagedObjects\<close> returns, of object paths to interfaces to properties, or the exception it raises.
\<close>

type_synonym bluez_objects = "(string, (string, payload) dict) dict"

definition IFACE_DEVICE :: string where "IFACE_DEVICE = ''org.bluez.Device1''"
definition IFACE_ADAPTER :: string where "IFACE_ADAPTER = ''org.bluez.Adapter1''"

text \<open>\<^verbatim>\<open>ifaces.get("org.bluez.Device1")\<close>.\<close>

definition device_props :: "(string, payload) dict \<Rightarrow> payload option" where
  "device_props ifaces = map_of ifaces IFACE_DEVICE"

definition device_address :: "py_text \<Rightarrow> payload \<Rightarrow> string" where
  "device_address T dev = py_str T (dget_or dev ''Address'' (PStr []))"

fun find_device :: "py_text \<Rightarrow> string \<Rightarrow> bluez_objects \<Rightarrow> (string \<times> payload) option" where
  "find_device T address [] = None"
| "find_device T address ((path, ifaces) # objs) =
     (case device_props ifaces of
        Some dev \<Rightarrow> (if dev \<noteq> [] \<and> device_address T dev = address then Some (path, dev) else find_device T address objs)
      | None \<Rightarrow> find_device T address objs)"

definition resolve_device_path :: "py_text \<Rightarrow> bluez_objects res \<Rightarrow> string \<Rightarrow> string option" where
  "resolve_device_path T objs address =
     (case objs of Inl x \<Rightarrow> None | Inr o' \<Rightarrow> map_option fst (find_device T address o'))"

fun find_adapter_path :: "bluez_objects \<Rightarrow> string option" where
  "find_adapter_path [] = None"
| "find_adapter_path ((path, ifaces) # objs) = (if IFACE_ADAPTER \<in> set (dkeys ifaces) then Some path else find_adapter_path objs)"

definition resolve_adapter_path :: "bluez_objects res \<Rightarrow> string option" where
  "resolve_adapter_path objs = (case objs of Inl x \<Rightarrow> None | Inr o' \<Rightarrow> find_adapter_path o')"

definition device_to_dict :: "py_text \<Rightarrow> payload \<Rightarrow> payload" where
  "device_to_dict T props =
     [(''address'', PStr (device_address T props)),
      (''name'', PStr (py_str T (dget_or props ''Name'' (dget_or props ''Alias'' (PStr ''Unknown''))))),
      (''connected'', PBool (truthy (dget_or props ''Connected'' (PBool False)))),
      (''trusted'', PBool (truthy (dget_or props ''Trusted'' (PBool False)))),
      (''paired'', PBool (truthy (dget_or props ''Paired'' (PBool False))))]"

definition known_device :: "payload \<Rightarrow> bool" where
  "known_device dev = (truthy (dget dev ''Paired'') \<or> truthy (dget dev ''Trusted''))"

definition list_paired :: "py_text \<Rightarrow> bluez_objects res \<Rightarrow> payload list" where
  "list_paired T objs =
     (case objs of
        Inl x \<Rightarrow> []
      | Inr o' \<Rightarrow> map (device_to_dict T) (filter known_device (List.map_filter (\<lambda>(p, ifaces). device_props ifaces) o')))"

definition get_info :: "py_text \<Rightarrow> bluez_objects res \<Rightarrow> string \<Rightarrow> payload option" where
  "get_info T objs address =
     (case objs of Inl x \<Rightarrow> None | Inr o' \<Rightarrow> map_option (\<lambda>(p, dev). device_to_dict T dev) (find_device T address o'))"

text \<open>The tree is read once for the adapter and once for the device; the last argument is what \<^verbatim>\<open>RemoveDevice\<close> does. The
  result is the answer and the path the call was made with, if it was made.\<close>

definition remove_device :: "py_text \<Rightarrow> bluez_objects res \<Rightarrow> bluez_objects res \<Rightarrow> string \<Rightarrow> exn option \<Rightarrow> bool \<times> string option" where
  "remove_device T objs1 objs2 address raised =
     (case resolve_adapter_path objs1 of
        None \<Rightarrow> (False, None)
      | Some a \<Rightarrow>
          (if a = [] then (False, None)
           else (case resolve_device_path T objs2 address of
              None \<Rightarrow> (False, None)
            | Some d \<Rightarrow> (if d = [] then (False, None) else (raised = None, Some d)))))"

section \<open>Connecting\<close>

text \<open>How an attempt is reported to its caller.\<close>

datatype outcome = Connected | ConnFailed string

definition connect_verdict :: "string option \<Rightarrow> outcome" where
  "connect_verdict err =
     (case err of None \<Rightarrow> Connected | Some m \<Rightarrow> if has_sub ''AlreadyConnected'' m then Connected else ConnFailed m)"

definition timeout_text :: "int \<Rightarrow> string" where
  "timeout_text t = ''Timeout after '' @ str_of_int t @ ''s''"

definition disconnect_verdict :: "string option \<Rightarrow> outcome" where
  "disconnect_verdict err =
     (case err of None \<Rightarrow> Connected | Some m \<Rightarrow> if has_sub ''NotConnected'' m then Connected else ConnFailed m)"

text \<open>
  After \<^verbatim>\<open>Device1.Connect\<close> is dispatched two threads share the flag \<open>replied\<close>: the one that gets BlueZ's answer, and the
  watchdog. Each looks at the flag (the watchdog by waiting for it), then sets it and calls back. A step is one
  of these; \<open>answered\<close> is the handler between looking and setting, \<open>expired\<close> the watchdog between the two.
\<close>

record attempt =
  at_replied :: bool
  at_answer :: "string option option"
  at_expired :: bool
  at_done :: bool
  at_reports :: "outcome list"

definition new_attempt :: attempt where
  "new_attempt = \<lparr>at_replied = False, at_answer = None, at_expired = False, at_done = False, at_reports = []\<rparr>"

inductive attempt_step :: "int \<Rightarrow> attempt \<Rightarrow> attempt \<Rightarrow> bool" for t :: int where
  answer_looks: "\<not> at_replied a \<Longrightarrow> at_answer a = None \<Longrightarrow> attempt_step t a (a\<lparr>at_answer := Some err\<rparr>)"
| answer_fires: "at_answer a = Some err \<Longrightarrow>
    attempt_step t a (a\<lparr>at_replied := True, at_answer := None, at_reports := at_reports a @ [connect_verdict err]\<rparr>)"
| watchdog_expires: "\<not> at_replied a \<Longrightarrow> \<not> at_expired a \<Longrightarrow> \<not> at_done a \<Longrightarrow> attempt_step t a (a\<lparr>at_expired := True\<rparr>)"
| watchdog_fires: "at_expired a \<Longrightarrow> \<not> at_done a \<Longrightarrow>
    attempt_step t a (a\<lparr>at_replied := True, at_done := True, at_reports := at_reports a @ [ConnFailed (timeout_text t)]\<rparr>)"
| watchdog_leaves: "at_replied a \<Longrightarrow> \<not> at_expired a \<Longrightarrow> \<not> at_done a \<Longrightarrow> attempt_step t a (a\<lparr>at_done := True\<rparr>)"

inductive_cases attempt_stepE: "attempt_step t a b"

definition attempt_reach :: "int \<Rightarrow> attempt \<Rightarrow> attempt \<Rightarrow> bool" where
  "attempt_reach t = (attempt_step t)\<^sup>*\<^sup>*"

text \<open>The flag says that somebody reported; the answer reports at most once, and so does the watchdog.\<close>

definition attempt_inv :: "attempt \<Rightarrow> bool" where
  "attempt_inv a \<longleftrightarrow> (at_replied a \<longleftrightarrow> at_reports a \<noteq> []) \<and>
     length (at_reports a) + (if at_answer a = None then 0 else 1) + (if at_expired a \<and> \<not> at_done a then 1 else 0) \<le> 2 \<and>
     (at_done a \<longrightarrow> at_replied a) \<and>
     (\<not> at_expired a \<longrightarrow> length (at_reports a) + (if at_answer a = None then 0 else 1) \<le> 1)"

lemma attempt_inv_new: "attempt_inv new_attempt"
  by (simp add: attempt_inv_def new_attempt_def)

lemma attempt_inv_step: "attempt_step t a b \<Longrightarrow> attempt_inv a \<Longrightarrow> attempt_inv b"
  by (erule attempt_stepE) (auto simp: attempt_inv_def split: if_splits)

lemma attempt_inv_reach: "attempt_reach t a b \<Longrightarrow> attempt_inv a \<Longrightarrow> attempt_inv b"
  unfolding attempt_reach_def by (induction rule: rtranclp_induct) (auto intro: attempt_inv_step)

text \<open>What \<^verbatim>\<open>connect\<close> and \<^verbatim>\<open>disconnect\<close> report before they return, and whether the call was dispatched; the last argument is the text of
  an exception of the dispatch.\<close>

definition connect_device :: "py_text \<Rightarrow> bluez_objects res \<Rightarrow> string \<Rightarrow> string option \<Rightarrow> outcome list \<times> bool" where
  "connect_device T objs address raised =
     (case resolve_device_path T objs address of
        None \<Rightarrow> ([ConnFailed ''Device not found in BlueZ''], False)
      | Some p \<Rightarrow>
          (if p = [] then ([ConnFailed ''Device not found in BlueZ''], False)
           else (case raised of Some m \<Rightarrow> ([ConnFailed m], False) | None \<Rightarrow> ([], True))))"

section \<open>Discovery\<close>

text \<open>A device as it is reported; \<^verbatim>\<open>int(RSSI)\<close> may raise, which ends the poll with what was found.\<close>

definition found_device :: "py_text \<Rightarrow> payload \<Rightarrow> payload res" where
  "found_device T dev =
     rbind (py_int (dget_or dev ''RSSI'' (PInt 0))) (\<lambda>rssi.
       Inr [(''address'', PStr (device_address T dev)), (''name'', PStr (py_str T (dget_or dev ''Name'' (PStr [])))), (''rssi'', PInt rssi)])"

fun poll_found :: "py_text \<Rightarrow> bluez_objects \<Rightarrow> payload list" where
  "poll_found T [] = []"
| "poll_found T ((path, ifaces) # objs) =
     (case device_props ifaces of
        None \<Rightarrow> poll_found T objs
      | Some dev \<Rightarrow>
          (if dev = [] then poll_found T objs
           else (case found_device T dev of Inl x \<Rightarrow> [] | Inr d \<Rightarrow> d # poll_found T objs)))"

definition poll_devices :: "py_text \<Rightarrow> bluez_objects res \<Rightarrow> payload list" where
  "poll_devices T objs = (case objs of Inl x \<Rightarrow> [] | Inr o' \<Rightarrow> poll_found T o')"

definition addr_of :: "payload \<Rightarrow> string" where
  "addr_of dev = (case dget dev ''address'' of PStr a \<Rightarrow> a | _ \<Rightarrow> [])"

definition device_found :: "payload \<Rightarrow> busmsg" where
  "device_found dev =
     (''bluetooth_manager.device.found'',
      [(''address'', dget dev ''address''), (''name'', dget_or dev ''name'' (PStr [])), (''rssi'', dget_or dev ''rssi'' (PInt 0))])"

text \<open>The devices by address, in the order they were first seen.\<close>

fun note_devices :: "payload list \<Rightarrow> (string, payload) dict \<Rightarrow> (string, payload) dict \<times> busmsg list" where
  "note_devices [] seen = (seen, [])"
| "note_devices (d # ds) seen =
     (if addr_of d \<in> set (dkeys seen) then note_devices ds seen
      else (let (seen', ms) = note_devices ds (dset (addr_of d) d seen) in (seen', device_found d # ms)))"

text \<open>What one poll gives, for every second in which the session still runs.\<close>

fun discovery_loop :: "py_text \<Rightarrow> bluez_objects res list \<Rightarrow> (string, payload) dict \<Rightarrow> (string, payload) dict \<times> busmsg list" where
  "discovery_loop T [] seen = (seen, [])"
| "discovery_loop T (p # ps) seen =
     (let (seen1, ms) = note_devices (poll_devices T p) seen; (seen2, ns) = discovery_loop T ps seen1 in (seen2, ms @ ns))"

definition discovery_completed :: "(string, payload) dict \<Rightarrow> busmsg" where
  "discovery_completed seen = (''bluetooth_manager.discovery.completed'', [(''devices'', PList (map (PDict \<circ> snd) seen))])"

definition discovery_run :: "py_text \<Rightarrow> bluez_objects res list \<Rightarrow> busmsg list" where
  "discovery_run T polls = (let (seen, ms) = discovery_loop T polls [] in ms @ [discovery_completed seen])"

lemma note_devices_found:
  "note_devices ds seen = (seen', ms) \<Longrightarrow>
   \<exists>new. seen' = seen @ map (\<lambda>d. (addr_of d, d)) new \<and> ms = map device_found new \<and> set new \<subseteq> set ds \<and>
     addr_of ` set ds \<subseteq> set (dkeys seen') \<and> (distinct (dkeys seen) \<longrightarrow> distinct (dkeys seen'))"
proof (induction ds arbitrary: seen seen' ms)
  case (Cons d ds)
  show ?case
  proof (cases "addr_of d \<in> set (dkeys seen)")
    case True
    then obtain new where "seen' = seen @ map (\<lambda>d. (addr_of d, d)) new" "ms = map device_found new" "set new \<subseteq> set ds"
        "addr_of ` set ds \<subseteq> set (dkeys seen')" "distinct (dkeys seen) \<longrightarrow> distinct (dkeys seen')"
      using Cons.IH [of seen seen' ms] Cons.prems by auto
    then show ?thesis using True by (intro exI [of _ new]) (auto simp: dkeys_def)
  next
    case False
    then have "map_of seen (addr_of d) = None" by (simp add: map_of_eq_None_iff dkeys_def)
    then have s: "dset (addr_of d) d seen = seen @ [(addr_of d, d)]" by (rule dset_new)
    obtain ns where n: "note_devices ds (seen @ [(addr_of d, d)]) = (seen', ns)" "ms = device_found d # ns"
      using Cons.prems False s by (auto split: prod.splits)
    obtain new where "seen' = (seen @ [(addr_of d, d)]) @ map (\<lambda>d. (addr_of d, d)) new" "ns = map device_found new" "set new \<subseteq> set ds"
        "addr_of ` set ds \<subseteq> set (dkeys seen')" "distinct (dkeys (seen @ [(addr_of d, d)])) \<longrightarrow> distinct (dkeys seen')"
      using Cons.IH [OF n(1)] by blast
    then show ?thesis using False n(2) by (intro exI [of _ "d # new"]) (auto simp: dkeys_def)
  qed
qed simp

lemma discovery_loop_found:
  "discovery_loop T ps seen = (seen', ms) \<Longrightarrow>
   \<exists>new. seen' = seen @ map (\<lambda>d. (addr_of d, d)) new \<and> ms = map device_found new \<and>
     set new \<subseteq> (\<Union>p \<in> set ps. set (poll_devices T p)) \<and> (\<Union>p \<in> set ps. addr_of ` set (poll_devices T p)) \<subseteq> set (dkeys seen') \<and>
     (distinct (dkeys seen) \<longrightarrow> distinct (dkeys seen'))"
proof (induction ps arbitrary: seen ms)
  case (Cons p ps)
  obtain seen1 ms1 ns where s: "note_devices (poll_devices T p) seen = (seen1, ms1)" "discovery_loop T ps seen1 = (seen', ns)" "ms = ms1 @ ns"
    using Cons.prems by (auto split: prod.splits)
  obtain new1 where n1: "seen1 = seen @ map (\<lambda>d. (addr_of d, d)) new1" "ms1 = map device_found new1" "set new1 \<subseteq> set (poll_devices T p)"
      "addr_of ` set (poll_devices T p) \<subseteq> set (dkeys seen1)" "distinct (dkeys seen) \<longrightarrow> distinct (dkeys seen1)"
    using note_devices_found [OF s(1)] by blast
  obtain new2 where n2: "seen' = seen1 @ map (\<lambda>d. (addr_of d, d)) new2" "ns = map device_found new2"
      "set new2 \<subseteq> (\<Union>p \<in> set ps. set (poll_devices T p))"
      "(\<Union>p \<in> set ps. addr_of ` set (poll_devices T p)) \<subseteq> set (dkeys seen')" "distinct (dkeys seen1) \<longrightarrow> distinct (dkeys seen')"
    using Cons.IH [OF s(2)] by blast
  have "set (dkeys seen1) \<subseteq> set (dkeys seen')" by (auto simp: n2(1) dkeys_def)
  then show ?case using s(3) n1 n2 by (intro exI [of _ "new1 @ new2"]) auto
qed simp

section \<open>Properties\<close>

text \<open>A discovery reports every device the tree showed, once, when it is first seen, and ends with exactly one list: the
  reported devices in the order they were reported.\<close>

theorem discovery_reports_once:
  "\<exists>new. discovery_run T polls =
      map device_found new @ [(''bluetooth_manager.discovery.completed'', [(''devices'', PList (map PDict new))])] \<and>
    distinct (map addr_of new) \<and> addr_of ` set new = (\<Union>p \<in> set polls. addr_of ` set (poll_devices T p))"
proof -
  obtain seen ms where l: "discovery_loop T polls [] = (seen, ms)" by (cases "discovery_loop T polls []")
  have e: "distinct (dkeys ([] :: (string, payload) dict))" by (simp add: dkeys_def)
  obtain new where n: "seen = [] @ map (\<lambda>d. (addr_of d, d)) new" "ms = map device_found new"
      "set new \<subseteq> (\<Union>p \<in> set polls. set (poll_devices T p))"
      "(\<Union>p \<in> set polls. addr_of ` set (poll_devices T p)) \<subseteq> set (dkeys seen)" "distinct (dkeys seen)"
    using discovery_loop_found [OF l] e by blast
  have "dkeys seen = map addr_of new" by (simp add: n(1) dkeys_def comp_def)
  moreover have "addr_of ` set new \<subseteq> (\<Union>p \<in> set polls. addr_of ` set (poll_devices T p))" using n(3) by blast
  ultimately have "distinct (map addr_of new)" "addr_of ` set new = (\<Union>p \<in> set polls. addr_of ` set (poll_devices T p))"
    using n(4,5) by (simp_all add: subset_antisym)
  then show ?thesis
    using n(1,2) l by (intro exI [of _ new]) (simp add: discovery_run_def discovery_completed_def comp_def)
qed

text \<open>An attempt to connect is reported at least once when both threads are done, and at most twice. Twice happens: the
  watchdog and the answer do not look at the flag and set it in one step, so an answer that comes as the time runs
  out is reported as connected and as failed.\<close>

theorem connect_may_report_twice:
  "(\<forall>a. attempt_reach t new_attempt a \<longrightarrow> length (at_reports a) \<le> 2 \<and> (at_done a \<longrightarrow> at_reports a \<noteq> []) \<and>
      (\<not> at_expired a \<longrightarrow> length (at_reports a) \<le> 1)) \<and>
   (\<exists>a. attempt_reach t new_attempt a \<and> at_reports a = [Connected, ConnFailed (timeout_text t)])"
proof -
  have "attempt_inv a" if "attempt_reach t new_attempt a" for a
    using attempt_inv_reach [OF that attempt_inv_new] .
  then have inv: "attempt_reach t new_attempt a \<longrightarrow> length (at_reports a) \<le> 2 \<and> (at_done a \<longrightarrow> at_reports a \<noteq> []) \<and>
      (\<not> at_expired a \<longrightarrow> length (at_reports a) \<le> 1)" for a
    by (fastforce simp: attempt_inv_def split: if_splits)
  let ?a1 = "new_attempt\<lparr>at_expired := True\<rparr>"
  let ?a2 = "?a1\<lparr>at_answer := Some None\<rparr>"
  let ?a3 = "?a2\<lparr>at_replied := True, at_answer := None, at_reports := [Connected]\<rparr>"
  let ?a4 = "?a3\<lparr>at_replied := True, at_done := True, at_reports := [Connected, ConnFailed (timeout_text t)]\<rparr>"
  have "attempt_step t new_attempt ?a1" by (rule watchdog_expires) (simp_all add: new_attempt_def)
  moreover have "attempt_step t ?a1 ?a2" by (rule answer_looks) (simp_all add: new_attempt_def)
  moreover have "attempt_step t ?a2 ?a3"
    using answer_fires [of ?a2 None t] by (simp add: new_attempt_def connect_verdict_def)
  moreover have "attempt_step t ?a3 ?a4"
    using watchdog_fires [of ?a3 t] by (simp add: new_attempt_def)
  ultimately have "attempt_reach t new_attempt ?a4"
    unfolding attempt_reach_def by (meson converse_rtranclp_into_rtranclp rtranclp.rtrancl_refl)
  then show ?thesis using inv by (intro conjI allI exI [of _ ?a4]) auto
qed

theorem connect_may_report_twice_witness:
  "\<exists>a. attempt_reach 8 new_attempt a \<and> at_reports a = [Connected, ConnFailed ''Timeout after 8s'']"
proof -
  have "timeout_text 8 = ''Timeout after 8s''" by code_simp
  then show ?thesis using connect_may_report_twice [of 8] by simp
qed

end
