(* ===== verification/BtPairing.thy ===== *)
theory BtPairing
  imports BtDevices
begin

text \<open>
  \<^verbatim>\<open>v2/modules/bluetooth_manager/pairing.py\<close>: the pairing agent. BlueZ's requests are numbered; the reply to a
  request to confirm a passkey is sent by a worker thread, which waits for the user for five seconds. A step is a
  call of one method, or one part of a worker between two accesses to what the threads share; \<open>WorkerWakes\<close> runs all
  parts of a worker at one go. Addresses and PINs are strings.
\<close>

definition path_to_address :: "string \<Rightarrow> string" where
  "path_to_address path = py_replace ''_'' '':'' (py_replace ''dev_'' [] (last (py_split ''/'' path)))"

text \<open>\<^verbatim>\<open>str(passkey).zfill(6)\<close>; D-Bus passes an unsigned number.\<close>

definition passkey_pin :: "nat \<Rightarrow> string" where
  "passkey_pin k = replicate (6 - length (str_of_nat k)) (CHR ''0'') @ str_of_nat k"

text \<open>A worker that came back from its wait: the flag tells that the event was set; then it took the reply from its place; then it
  set the acceptance if its time was over.\<close>

datatype worker = Woken bool | Took bool "nat option" | Judges "nat option"

record agent =
  pa_pin :: string
  pa_address :: string
  pa_event :: bool
  pa_accepted :: bool
  pa_reply :: "nat option"
  pa_workers :: nat
  pa_awake :: "worker list"

definition new_agent :: agent where
  "new_agent = \<lparr>pa_pin = [], pa_address = [], pa_event = False, pa_accepted = False, pa_reply = None, pa_workers = 0, pa_awake = []\<rparr>"

datatype pair_out = Notify busmsg | AgentReply nat bool | PinReply string | SetTrusted string

definition pairing_pin :: "string \<Rightarrow> string \<Rightarrow> pair_out" where
  "pairing_pin a pin = Notify (''bluetooth_manager.pairing.pin'', [(''device_address'', PStr a), (''pin'', PStr pin)])"

definition pairing_completed :: "string \<Rightarrow> pair_out" where
  "pairing_completed a = Notify (''bluetooth_manager.pairing.completed'', [(''device_address'', PStr a)])"

definition pairing_failed :: "string \<Rightarrow> string \<Rightarrow> pair_out" where
  "pairing_failed a e = Notify (''bluetooth_manager.pairing.failed'', [(''device_address'', PStr a), (''error'', PStr e)])"

text \<open>\<open>raised\<close> is the text of an exception of the dispatch.\<close>

definition agent_pair :: "py_text \<Rightarrow> bluez_objects res \<Rightarrow> string option \<Rightarrow> string \<Rightarrow> agent \<Rightarrow> agent \<times> pair_out list" where
  "agent_pair T objs raised a s =
     (s\<lparr>pa_address := a, pa_pin := [], pa_event := False, pa_accepted := False\<rparr>,
      case resolve_device_path T objs a of
        None \<Rightarrow> [pairing_failed a (''Device '' @ a @ '' not found in BlueZ objects'')]
      | Some p \<Rightarrow>
          (if p = [] then [pairing_failed a (''Device '' @ a @ '' not found in BlueZ objects'')]
           else (case raised of None \<Rightarrow> [] | Some m \<Rightarrow> [pairing_failed a m])))"

definition trust_device :: "py_text \<Rightarrow> bluez_objects res \<Rightarrow> string \<Rightarrow> pair_out list" where
  "trust_device T objs a = (case resolve_device_path T objs a of None \<Rightarrow> [] | Some p \<Rightarrow> if p = [] then [] else [SetTrusted p])"

definition pair_reply_handler :: "py_text \<Rightarrow> bluez_objects res \<Rightarrow> string \<Rightarrow> pair_out list" where
  "pair_reply_handler T objs a = trust_device T objs a @ [pairing_completed a]"

definition pair_error_handler :: "py_text \<Rightarrow> bluez_objects res \<Rightarrow> string \<Rightarrow> string \<Rightarrow> pair_out list" where
  "pair_error_handler T objs a err =
     (if has_sub ''AlreadyExists'' err then trust_device T objs a @ [pairing_completed a] else [pairing_failed a err])"

definition agent_confirm :: "string \<Rightarrow> string \<Rightarrow> agent \<Rightarrow> agent" where
  "agent_confirm a pin s =
     (if a \<noteq> pa_address s then s
      else if pin \<noteq> pa_pin s then s\<lparr>pa_accepted := False, pa_event := True\<rparr>
      else s\<lparr>pa_accepted := True, pa_event := True\<rparr>)"

definition agent_reject :: "string \<Rightarrow> agent \<Rightarrow> agent" where
  "agent_reject a s = s\<lparr>pa_accepted := False, pa_event := True\<rparr>"

definition handle_cancel :: "agent \<Rightarrow> agent" where
  "handle_cancel s = s\<lparr>pa_accepted := False, pa_event := True\<rparr>"

text \<open>\<open>pin\<close> is the random PIN of four digits.\<close>

definition handle_pin_code_request :: "string \<Rightarrow> string \<Rightarrow> agent \<Rightarrow> agent \<times> pair_out list" where
  "handle_pin_code_request path pin s =
     (let a = path_to_address path in (s\<lparr>pa_pin := pin, pa_address := a\<rparr>, [pairing_pin a pin, PinReply pin]))"

definition handle_confirm_request :: "string \<Rightarrow> nat \<Rightarrow> nat \<Rightarrow> agent \<Rightarrow> agent \<times> pair_out list" where
  "handle_confirm_request path passkey request s =
     (let a = path_to_address path; pin = passkey_pin passkey in
      (s\<lparr>pa_pin := pin, pa_address := a, pa_event := False, pa_accepted := False, pa_reply := Some request, pa_workers := Suc (pa_workers s)\<rparr>,
       [pairing_pin a pin]))"

text \<open>The parts of a worker after its wait, which ends because the event was set or because five seconds are over.\<close>

definition worker_returns :: "agent \<Rightarrow> agent" where
  "worker_returns s = s\<lparr>pa_workers := pa_workers s - 1, pa_awake := pa_awake s @ [Woken (pa_event s)]\<rparr>"

fun worker_part :: "worker \<Rightarrow> agent \<Rightarrow> agent \<times> worker option \<times> pair_out list" where
  "worker_part (Woken confirmed) s = (s\<lparr>pa_reply := None\<rparr>, Some (Took confirmed (pa_reply s)), [])"
| "worker_part (Took confirmed r) s = ((if confirmed then s else s\<lparr>pa_accepted := True\<rparr>), Some (Judges r), [])"
| "worker_part (Judges r) s = (s, None, case r of None \<Rightarrow> [] | Some r \<Rightarrow> [AgentReply r (pa_accepted s)])"

definition worker_goes :: "nat \<Rightarrow> agent \<Rightarrow> agent \<times> pair_out list" where
  "worker_goes i s =
     (if i < length (pa_awake s) then
        (let (s', w, os) = worker_part (pa_awake s ! i) s in
         (s'\<lparr>pa_awake := take i (pa_awake s) @ (case w of None \<Rightarrow> [] | Some w \<Rightarrow> [w]) @ drop (Suc i) (pa_awake s)\<rparr>, os))
      else (s, []))"

text \<open>A worker wakes up and goes through to its end undisturbed.\<close>

definition confirm_worker :: "agent \<Rightarrow> agent \<times> pair_out list" where
  "confirm_worker s =
     (let accepted = (if pa_event s then pa_accepted s else True) in
      (s\<lparr>pa_reply := None, pa_accepted := accepted, pa_workers := pa_workers s - 1\<rparr>,
       case pa_reply s of None \<Rightarrow> [] | Some r \<Rightarrow> [AgentReply r accepted]))"

lemma confirm_worker_parts:
  assumes "worker_goes (length (pa_awake s)) (worker_returns s) = (s1, os1)" "worker_goes (length (pa_awake s)) s1 = (s2, os2)"
    "worker_goes (length (pa_awake s)) s2 = (s3, os3)"
  shows "confirm_worker s = (s3, os1 @ os2 @ os3)"
  using assms by (auto simp: worker_goes_def worker_returns_def confirm_worker_def Let_def split: option.split)

datatype agent_event =
    UserPair "bluez_objects res" "string option" string
  | UserConfirm string string
  | UserReject string
  | PinRequest string string
  | ConfirmRequest string nat nat
  | AgentCancel
  | WorkerWakes
  | WorkerReturns
  | WorkerGoes nat
  | PairReply "bluez_objects res" string
  | PairError "bluez_objects res" string string

fun agent_step :: "py_text \<Rightarrow> agent \<Rightarrow> agent_event \<Rightarrow> agent \<times> pair_out list" where
  "agent_step T s (UserPair objs raised a) = agent_pair T objs raised a s"
| "agent_step T s (UserConfirm a pin) = (agent_confirm a pin s, [])"
| "agent_step T s (UserReject a) = (agent_reject a s, [])"
| "agent_step T s (PinRequest path pin) = handle_pin_code_request path pin s"
| "agent_step T s (ConfirmRequest path k r) = handle_confirm_request path k r s"
| "agent_step T s AgentCancel = (handle_cancel s, [])"
| "agent_step T s WorkerWakes = (if pa_workers s = 0 then (s, []) else confirm_worker s)"
| "agent_step T s WorkerReturns = (if pa_workers s = 0 then (s, []) else (worker_returns s, []))"
| "agent_step T s (WorkerGoes i) = worker_goes i s"
| "agent_step T s (PairReply objs a) = (s, pair_reply_handler T objs a)"
| "agent_step T s (PairError objs a err) = (s, pair_error_handler T objs a err)"

section \<open>What the agent promises\<close>

text \<open>The decision that the events after a request stand for: which request the place for the reply belongs to, the device and
  the PIN a confirmation has to name, and the answer so far. An input of the user that concerns the device counts, the last one
  wins, and none means yes; a call of \<^verbatim>\<open>pair\<close> forgets the inputs before it and the PIN, a request for a legacy PIN replaces device
  and PIN, and another request to confirm takes the place.\<close>

record pending =
  pe_request :: nat
  pe_address :: string
  pe_pin :: string
  pe_answer :: bool

fun decide :: "pending \<Rightarrow> agent_event \<Rightarrow> pending" where
  "decide d (UserConfirm a p) = (if a = pe_address d then d\<lparr>pe_answer := (p = pe_pin d)\<rparr> else d)"
| "decide d (UserReject a) = d\<lparr>pe_answer := False\<rparr>"
| "decide d AgentCancel = d\<lparr>pe_answer := False\<rparr>"
| "decide d (UserPair objs raised a) = d\<lparr>pe_address := a, pe_pin := [], pe_answer := True\<rparr>"
| "decide d (PinRequest path pin) = d\<lparr>pe_address := path_to_address path, pe_pin := pin\<rparr>"
| "decide d (ConfirmRequest path k r) = \<lparr>pe_request = r, pe_address = path_to_address path, pe_pin = passkey_pin k, pe_answer = True\<rparr>"
| "decide d e = d"

definition request_of :: "string \<Rightarrow> nat \<Rightarrow> nat \<Rightarrow> pending" where
  "request_of path k r = \<lparr>pe_request = r, pe_address = path_to_address path, pe_pin = passkey_pin k, pe_answer = True\<rparr>"

text \<open>The events that are not a worker's.\<close>

definition no_worker :: "agent_event \<Rightarrow> bool" where
  "no_worker e = (case e of WorkerWakes \<Rightarrow> False | WorkerReturns \<Rightarrow> False | WorkerGoes i \<Rightarrow> False | _ \<Rightarrow> True)"

definition answers :: "pair_out list \<Rightarrow> pair_out list" where
  "answers os = filter (\<lambda>x. case x of AgentReply r v \<Rightarrow> True | _ \<Rightarrow> False) os"

lemma answers_simps [simp]:
  "answers [] = []" "answers (os @ os') = answers os @ answers os'" "answers (AgentReply r v # os) = AgentReply r v # answers os"
  "answers (Notify m # os) = answers os" "answers (PinReply p # os) = answers os" "answers (SetTrusted p # os) = answers os"
  by (simp_all add: answers_def)

text \<open>The state while a request waits.\<close>

definition waiting :: "pending \<Rightarrow> agent \<Rightarrow> bool" where
  "waiting d s \<longleftrightarrow> pa_address s = pe_address d \<and> pa_pin s = pe_pin d \<and> pa_reply s = Some (pe_request d) \<and> pa_workers s \<noteq> 0 \<and>
     (if pa_event s then pa_accepted s else True) = pe_answer d"

lemma waiting_event:
  "no_worker e \<Longrightarrow> waiting d s \<Longrightarrow> answers (snd (agent_step T s e)) = [] \<and> waiting (decide d e) (fst (agent_step T s e))"
  by (cases e) (auto simp: no_worker_def waiting_def agent_confirm_def agent_reject_def handle_cancel_def agent_pair_def
      handle_pin_code_request_def handle_confirm_request_def pair_reply_handler_def pair_error_handler_def trust_device_def
      pairing_pin_def pairing_completed_def pairing_failed_def Let_def split: option.split)

lemma waiting_events:
  "list_all no_worker es \<Longrightarrow> waiting d s \<Longrightarrow>
   answers (snd (run_events (agent_step T) s es)) = [] \<and> waiting (foldl decide d es) (fst (run_events (agent_step T) s es))"
proof (induction es arbitrary: s d)
  case (Cons e es)
  then have e: "answers (snd (agent_step T s e)) = []" "waiting (decide d e) (fst (agent_step T s e))"
    using waiting_event [of e d s T] by auto
  have "list_all no_worker es" using Cons.prems(1) by simp
  from Cons.IH [OF this e(2)] e(1) show ?case by (simp add: Let_def)
qed simp

section \<open>Properties\<close>

text \<open>C30 A request to confirm is followed by any events of the user, of BlueZ and of the bus, until a worker wakes up and runs
  undisturbed to its end. Then BlueZ got exactly one answer, and the user saw the passkey first. With no further request the
  answer is for this one: yes when the last input confirmed the pending device with the PIN that was shown, or when there was none
  before the time was over; no when it was a wrong PIN, a rejection or a cancellation (of any device). What else changes the
  decision is in \<open>decide\<close>: a further request takes the place of this one, which then gets no answer, and a call of \<^verbatim>\<open>pair\<close> in between
  drops the inputs before it and the PIN, so that confirming with the PIN that was shown is a refusal. What happens when
  other threads come between the parts of the worker is \<open>worker_races\<close>.\<close>

theorem agent_answers_as_user_decided:
  assumes "list_all no_worker es" and d: "d = foldl decide (request_of path k r) es"
    and os: "os = snd (run_events (agent_step T) s (ConfirmRequest path k r # es @ [WorkerWakes]))"
  shows "hd os = pairing_pin (path_to_address path) (passkey_pin k) \<and> answers os = [AgentReply (pe_request d) (pe_answer d)]"
proof -
  let ?s = "fst (handle_confirm_request path k r s)"
  let ?t = "fst (run_events (agent_step T) ?s es)"
  have "waiting (request_of path k r) ?s" by (simp add: waiting_def request_of_def handle_confirm_request_def Let_def)
  from waiting_events [OF assms(1) this]
  have i: "answers (snd (run_events (agent_step T) ?s es)) = []" "waiting d ?t" by (auto simp: d)
  then have "snd (agent_step T ?t WorkerWakes) = [AgentReply (pe_request d) (pe_answer d)]"
    by (simp add: waiting_def confirm_worker_def Let_def)
  then show ?thesis
    using i(1) unfolding os by (simp add: run_events_append Let_def) (simp add: handle_confirm_request_def pairing_pin_def Let_def)
qed

lemma demo_passkey: "path_to_address ''/org/bluez/hci0/dev_AA_01'' = ''AA:01''" "passkey_pin 42 = ''000042''"
  by code_simp+

theorem agent_answers_as_user_decided_witness:
  "answers (snd (run_events (agent_step demo_text) new_agent
     (ConfirmRequest ''/org/bluez/hci0/dev_AA_01'' 42 7 # [UserConfirm ''AA:01'' ''000042''] @ [WorkerWakes]))) = [AgentReply 7 True]
   \<and> answers (snd (run_events (agent_step demo_text) new_agent
     (ConfirmRequest ''/org/bluez/hci0/dev_AA_01'' 42 7 # [UserPair (Inl OSError) None ''AA:01'', UserConfirm ''AA:01'' ''000042''] @ [WorkerWakes])))
       = [AgentReply 7 False]"
  using agent_answers_as_user_decided [OF _ refl refl, of "[UserConfirm ''AA:01'' ''000042'']" demo_text new_agent "''/org/bluez/hci0/dev_AA_01''" 42 7]
    agent_answers_as_user_decided [OF _ refl refl, of "[UserPair (Inl OSError) None ''AA:01'', UserConfirm ''AA:01'' ''000042'']" demo_text new_agent
      "''/org/bluez/hci0/dev_AA_01''" 42 7]
  by (simp add: no_worker_def request_of_def demo_passkey)

text \<open>Two runs in which another thread comes between the parts of a worker: the user confirms with the right PIN, and a call of
  \<^verbatim>\<open>pair\<close> before the worker looks at the acceptance makes it a refusal; the time is over, and a rejection before the worker
  sets the acceptance is overwritten by it.\<close>

theorem worker_races:
  assumes "n = length (pa_awake s)" "pa_workers s = 0" "c = ConfirmRequest path k r"
  shows "answers (snd (run_events (agent_step T) s
      [c, UserConfirm (path_to_address path) (passkey_pin k), WorkerReturns, WorkerGoes n, UserPair objs raised b, WorkerGoes n, WorkerGoes n])) =
        [AgentReply r False]"
    and "answers (snd (run_events (agent_step T) s [c, WorkerReturns, UserReject (path_to_address path), WorkerGoes n, WorkerGoes n, WorkerGoes n])) =
        [AgentReply r True]"
  using assms
  by (auto simp: handle_confirm_request_def agent_confirm_def agent_reject_def worker_returns_def worker_goes_def agent_pair_def pairing_pin_def
      pairing_failed_def Let_def split: option.split)

lemma worker_races_witness:
  "answers (snd (run_events (agent_step demo_text) new_agent
      [ConfirmRequest ''/org/bluez/hci0/dev_AA_01'' 42 7, WorkerReturns, UserReject (path_to_address ''/org/bluez/hci0/dev_AA_01''),
       WorkerGoes 0, WorkerGoes 0, WorkerGoes 0])) = [AgentReply 7 True]"
  by (rule worker_races(2)) (simp_all add: new_agent_def)

text \<open>A worker or the place for the reply has the request.\<close>

fun worker_reply :: "worker \<Rightarrow> nat option" where
  "worker_reply (Woken c) = None"
| "worker_reply (Took c r) = r"
| "worker_reply (Judges r) = r"

definition holds :: "nat \<Rightarrow> agent \<Rightarrow> bool" where
  "holds r s \<longleftrightarrow> pa_reply s = Some r \<or> Some r \<in> worker_reply ` set (pa_awake s)"

lemma worker_goes_holds:
  assumes "\<not> holds r s"
  shows "\<not> holds r (fst (worker_goes i s)) \<and> AgentReply r v \<notin> set (snd (worker_goes i s))"
proof (cases "i < length (pa_awake s)")
  case True
  then have w: "worker_reply (pa_awake s ! i) \<noteq> Some r" using assms nth_mem [OF True] unfolding holds_def by (metis image_eqI)
  have "set (take i (pa_awake s)) \<subseteq> set (pa_awake s)" "set (drop (Suc i) (pa_awake s)) \<subseteq> set (pa_awake s)"
    by (simp_all add: set_take_subset set_drop_subset)
  then show ?thesis
    using True assms w by (cases "pa_awake s ! i") (auto simp: worker_goes_def holds_def image_iff split: option.split)
qed (use assms in \<open>simp add: worker_goes_def\<close>)

text \<open>A second request while the first one waits takes its place: whatever happens from then on, the first one is never
  answered, because there is one place for the reply of the request.\<close>

theorem overlapped_request_unanswered:
  assumes "r1 \<noteq> r2" "\<not> holds r1 s" "\<And>path k. ConfirmRequest path k r1 \<notin> set es"
  shows "AgentReply r1 v \<notin> set (snd (run_events (agent_step T) s (ConfirmRequest p1 k1 r1 # ConfirmRequest p2 k2 r2 # es)))"
proof -
  have run: "AgentReply r1 v \<notin> set (snd (run_events (agent_step T) s es))"
    if "\<not> holds r1 s" "\<And>path k. ConfirmRequest path k r1 \<notin> set es" for s es
    using that
  proof (induction es arbitrary: s)
    case (Cons e es)
    have nr: "\<And>path k. e \<noteq> ConfirmRequest path k r1" using Cons.prems(2) by (metis list.set_intros(1))
    have "\<not> holds r1 (fst (agent_step T s e)) \<and> AgentReply r1 v \<notin> set (snd (agent_step T s e))"
    proof (cases "\<exists>i. e = WorkerGoes i")
      case True
      then show ?thesis using worker_goes_holds [OF Cons.prems(1)] by auto
    next
      case False
      then show ?thesis
        using Cons.prems(1) nr
        by (cases e) (auto simp: holds_def agent_pair_def agent_confirm_def agent_reject_def handle_cancel_def handle_pin_code_request_def
            handle_confirm_request_def confirm_worker_def worker_returns_def pair_reply_handler_def pair_error_handler_def trust_device_def
            pairing_pin_def pairing_completed_def pairing_failed_def Let_def split: option.splits if_splits)
    qed
    then show ?case using Cons.IH [of "fst (agent_step T s e)"] Cons.prems(2) by (simp add: Let_def)
  qed simp
  let ?s = "fst (agent_step T (fst (agent_step T s (ConfirmRequest p1 k1 r1))) (ConfirmRequest p2 k2 r2))"
  have "\<not> holds r1 ?s" using assms(1,2) by (simp add: holds_def handle_confirm_request_def Let_def)
  from run [OF this assms(3)] show ?thesis
    by (simp add: Let_def handle_confirm_request_def pairing_pin_def)
qed

theorem overlapped_request_unanswered_witness:
  "AgentReply 1 v \<notin> set (snd (run_events (agent_step demo_text) new_agent
     (ConfirmRequest ''/a/dev_1'' 5 1 # ConfirmRequest ''/a/dev_2'' 6 2 # [WorkerWakes, WorkerWakes])))"
  by (rule overlapped_request_unanswered) (auto simp: holds_def new_agent_def)

end
