(* ===== verification/BtManager.thy ===== *)
theory BtManager
  imports BtPairing ChannelBase
begin

text \<open>
  \<^verbatim>\<open>v2/modules/bluetooth_manager/main.py\<close> and \<^verbatim>\<open>bluez_adapter.py\<close>: the handlers of the module and the thread that
  keeps trying to connect to a paired phone. What the module does to BlueZ and the waits of the thread are calls
  of a trace; what BlueZ answers is an argument of the event. Device addresses are strings.
\<close>

section \<open>The adapter\<close>

datatype init_env = NoSystemBus | Objects "bluez_objects res"

record adapter =
  ad_bus :: bool
  ad_init :: bool

definition new_adapter :: adapter where
  "new_adapter = \<lparr>ad_bus = False, ad_init = False\<rparr>"

fun adapter_init :: "init_env \<Rightarrow> adapter \<Rightarrow> bool \<times> adapter" where
  "adapter_init NoSystemBus a = (False, a)"
| "adapter_init (Objects objs) a =
     (case resolve_adapter_path objs of
        None \<Rightarrow> (False, a\<lparr>ad_bus := True\<rparr>)
      | Some p \<Rightarrow> (if p = [] then (False, a\<lparr>ad_bus := True\<rparr>) else (True, a\<lparr>ad_bus := True, ad_init := True\<rparr>)))"

text \<open>\<open>err\<close> is the text of the error \<^verbatim>\<open>RegisterProfile\<close> raises, if it does; the result tells whether it is passed on.\<close>

definition register_one :: "string option \<Rightarrow> bool" where
  "register_one err =
     (case err of None \<Rightarrow> True | Some e \<Rightarrow> has_sub ''UUID already registered'' e \<or> has_sub ''org.bluez.Error.NotPermitted'' e)"

definition register_profiles :: "string option \<Rightarrow> string option \<Rightarrow> adapter \<Rightarrow> bool" where
  "register_profiles hfp hsp a = (ad_init a \<and> register_one hfp \<and> register_one hsp)"

text \<open>Three attempts to set properties one after the other; \<open>n\<close> more attempts are left, and attempt \<open>k\<close> sets the first
  \<open>res k\<close> of them before it fails. The result is what was set, in order.\<close>

fun set_props :: "nat \<Rightarrow> (nat \<Rightarrow> nat) \<Rightarrow> nat \<Rightarrow> 'p list \<Rightarrow> 'p list" where
  "set_props 0 res k ps = []"
| "set_props (Suc n) res k ps = take (res k) ps @ (if length ps \<le> res k then [] else set_props n res (Suc k) ps)"

definition set_discoverable :: "(nat \<Rightarrow> nat) \<Rightarrow> bool \<Rightarrow> int \<Rightarrow> adapter \<Rightarrow> (string \<times> pyval) list" where
  "set_discoverable res enabled timeout a =
     (if \<not> ad_init a then []
      else set_props 3 res 0 [(''Discoverable'', PBool enabled), (''DiscoverableTimeout'', PInt timeout)])"

definition set_name :: "(nat \<Rightarrow> nat) \<Rightarrow> string \<Rightarrow> adapter \<Rightarrow> (string \<times> pyval) list" where
  "set_name res name a = (if \<not> ad_init a then [] else set_props 3 res 0 [(''Alias'', PStr name)])"

definition adapter_shutdown :: "adapter \<Rightarrow> adapter" where
  "adapter_shutdown a = a\<lparr>ad_init := False\<rparr>"

text \<open>Reading properties; \<open>r\<close> is the answer of BlueZ.\<close>

definition get_adapter_address :: "string res \<Rightarrow> adapter \<Rightarrow> string" where
  "get_adapter_address r a = (if ad_init a then (case r of Inl x \<Rightarrow> [] | Inr s \<Rightarrow> s) else [])"

definition is_discovering :: "bool res \<Rightarrow> adapter \<Rightarrow> bool" where
  "is_discovering r a = (ad_init a \<and> (case r of Inl x \<Rightarrow> False | Inr b \<Rightarrow> b))"

datatype disc_call = StartDiscovery | StopDiscovery | SetPowered bool | RegisterAgain

definition adapter_reset :: "exn option \<Rightarrow> exn option \<Rightarrow> adapter \<Rightarrow> bool \<times> disc_call list" where
  "adapter_reset off on a =
     (if \<not> ad_init a then (False, [])
      else if off \<noteq> None then (False, [SetPowered False])
      else if on \<noteq> None then (False, [SetPowered False, SetPowered True])
      else (True, [SetPowered False, SetPowered True, RegisterAgain]))"

text \<open>The calls a scan begins with: \<open>err\<close> is the text of the error the first call raises, \<open>d1\<close> and \<open>d2\<close> are what the property
  reads before and after it. An adapter that is not initialised has no proxy to call.\<close>

definition start_discovery :: "bool res \<Rightarrow> string option \<Rightarrow> bool res \<Rightarrow> exn option \<Rightarrow> exn option \<Rightarrow> adapter \<Rightarrow> disc_call list" where
  "start_discovery d1 err d2 off on a =
     (if \<not> ad_init a \<or> is_discovering d1 a then []
      else StartDiscovery #
        (case err of
           None \<Rightarrow> []
         | Some e \<Rightarrow>
             (if has_sub ''org.bluez.Error.InProgress'' e \<and> \<not> is_discovering d2 a
              then (let (ok, cs) = adapter_reset off on a in cs @ (if ok then [StartDiscovery] else []))
              else [])))"

definition stop_discovery :: "bool res \<Rightarrow> adapter \<Rightarrow> disc_call list" where
  "stop_discovery d a = (if is_discovering d a then [StopDiscovery] else [])"

section \<open>State\<close>

definition bt_schema :: schema where
  "bt_schema =
     [(''discoverable'', field_bool (PBool True)), (''discoverable_timeout'', field_int 0 (PInt 0) PNone),
      (''discovery_duration_sec'', field_int 10 (PInt 1) (PInt 120)), (''adapter_name'', field_string ''NemoHeadUnit''),
      (''autoconnect_enabled'', field_bool (PBool True)), (''autoconnect_connect_timeout_s'', field_int 8 (PInt 2) (PInt 30)),
      (''autoconnect_backoff_initial_s'', field_int 5 (PInt 1) (PInt 30)), (''autoconnect_backoff_cap_s'', field_int 60 (PInt 10) (PInt 300))]"

text \<open>Where the thread is: about to read its configuration, at the head of its loop, at a device, asleep (after a round,
  or because there is no adapter), or on its way out.\<close>

datatype ac_pc = AcHead | AcTrying "payload list" | AcSleeping bool | AcLeaving

datatype ac_thread = AcStarting | AcLoop ac_pc int int int

datatype bt_call = SetProps "(string \<times> pyval) list" | TryConnect string int | WaitFor int | WaitReply int | RegisterAgent | UnregisterAgent | Scan int

record btm =
  bm_config :: payload
  bm_adapter :: "adapter option"
  bm_scanning :: bool
  bm_agent :: "agent option"
  bm_registered :: bool
  bm_stop :: bool
  bm_active :: bool
  bm_thread :: "ac_thread option"
  bm_calls :: "bt_call list"

definition new_btm :: btm where
  "new_btm = \<lparr>bm_config = schema_values bt_schema, bm_adapter = None, bm_scanning = False, bm_agent = None, bm_registered = False, bm_stop = False,
     bm_active = False, bm_thread = None, bm_calls = []\<rparr>"

definition call :: "bt_call \<Rightarrow> btm \<Rightarrow> btm" where
  "call c s = s\<lparr>bm_calls := bm_calls s @ [c]\<rparr>"

definition bt_error :: "string \<Rightarrow> busmsg" where
  "bt_error m = (''bluetooth_manager.error'', [(''error'', PStr m)])"

section \<open>Autoconnect\<close>

definition start_autoconnect :: "btm \<Rightarrow> btm" where
  "start_autoconnect s =
     (if \<not> truthy (dget_or (bm_config s) ''autoconnect_enabled'' (PBool True)) then s
      else if bm_active s then s
      else s\<lparr>bm_stop := False, bm_active := True, bm_thread := Some AcStarting\<rparr>)"

definition stop_autoconnect :: "btm \<Rightarrow> btm" where
  "stop_autoconnect s = s\<lparr>bm_stop := True\<rparr>"

definition ac_goto :: "ac_pc \<Rightarrow> int \<Rightarrow> int \<Rightarrow> int \<Rightarrow> btm \<Rightarrow> btm" where
  "ac_goto pc b c t s = s\<lparr>bm_thread := Some (AcLoop pc b c t)\<rparr>"

definition read_int :: "payload \<Rightarrow> string \<Rightarrow> int res" where
  "read_int d k = rbind (dindex d k) py_int"

text \<open>A step of the thread. An exception while it reads its configuration ends it outside of its \<^verbatim>\<open>try\<close>. It pauses at two places: for a
  connection it asked for (\<^verbatim>\<open>done.wait\<close>, over when the answer comes or at the time recorded) and after a round
  (\<^verbatim>\<open>_autoconnect_stop.wait\<close>). A time beyond \<^verbatim>\<open>threading.TIMEOUT_MAX\<close>, at which \<^verbatim>\<open>wait\<close> raises, is left out.\<close>

definition ac_step :: "py_text \<Rightarrow> bluez_objects res \<Rightarrow> string option \<Rightarrow> btm \<Rightarrow> btm" where
  "ac_step T objs raised s =
     (case bm_thread s of
        None \<Rightarrow> s
      | Some AcStarting \<Rightarrow>
          (case rbind (read_int (bm_config s) ''autoconnect_backoff_initial_s'') (\<lambda>b.
                rbind (read_int (bm_config s) ''autoconnect_backoff_cap_s'') (\<lambda>c.
                rbind (read_int (bm_config s) ''autoconnect_connect_timeout_s'') (\<lambda>t. Inr (b, c, t)))) of
             Inl x \<Rightarrow> s\<lparr>bm_thread := None\<rparr>
           | Inr (b, c, t) \<Rightarrow> ac_goto AcHead b c t s)
      | Some (AcLoop AcHead b c t) \<Rightarrow>
          (if bm_stop s then ac_goto AcLeaving b c t s
           else (case bm_adapter s of
              Some a \<Rightarrow> (if ad_bus a then ac_goto (AcTrying (list_paired T objs)) b c t s else ac_goto (AcSleeping False) b c t s)
            | None \<Rightarrow> ac_goto (AcSleeping False) b c t s))
      | Some (AcLoop (AcTrying []) b c t) \<Rightarrow> ac_goto (if bm_stop s then AcLeaving else AcSleeping True) b c t s
      | Some (AcLoop (AcTrying (d # ds)) b c t) \<Rightarrow>
          (if bm_stop s then ac_goto AcLeaving b c t s
           else if truthy (dget d ''connected'') then ac_goto (AcTrying ds) b c t s
           else ac_goto (AcTrying ds) b c t
                  (call (WaitReply (t + 1))
                    (if snd (connect_device T objs (addr_of d) raised) then call (TryConnect (addr_of d) t) s else s)))
      | Some (AcLoop (AcSleeping grow) b c t) \<Rightarrow> ac_goto AcHead (if grow then min (b * 2) c else b) c t (call (WaitFor b) s)
      | Some (AcLoop AcLeaving b c t) \<Rightarrow> s\<lparr>bm_active := False, bm_thread := None\<rparr>)"

section \<open>Configuration and boot\<close>

text \<open>\<open>rn\<close> and \<open>rd\<close> are what BlueZ does to the attempts of the two setters.\<close>

definition apply_config :: "py_text \<Rightarrow> (nat \<Rightarrow> nat) \<Rightarrow> (nat \<Rightarrow> nat) \<Rightarrow> btm \<Rightarrow> btm effect" where
  "apply_config T rn rd s =
     (case bm_adapter s of
        None \<Rightarrow> eff_ok s []
      | Some a \<Rightarrow>
          eff_res s (dindex (bm_config s) ''adapter_name'') (\<lambda>name.
            (let s1 = call (SetProps (set_name rn (py_str T name) a)) s in
             eff_res s1 (dindex (bm_config s1) ''discoverable'') (\<lambda>d.
               eff_res s1 (read_int (bm_config s1) ''discoverable_timeout'') (\<lambda>t.
                 eff_ok (call (SetProps (set_discoverable rd (truthy d) t a)) s1) [])))))"

text \<open>The two methods of the agent that tell BlueZ about it; \<open>raised\<close> is what the call raises.\<close>

definition agent_register :: "exn option \<Rightarrow> btm \<Rightarrow> btm" where
  "agent_register raised s = (call RegisterAgent s)\<lparr>bm_registered := (raised = None)\<rparr>"

definition agent_unregister :: "exn option \<Rightarrow> btm \<Rightarrow> btm" where
  "agent_unregister raised s = (if bm_registered s then (call UnregisterAgent s)\<lparr>bm_registered := (raised \<noteq> None)\<rparr> else s)"

definition bt_ready :: busmsg where
  "bt_ready = (''system.ready'', [(''name'', PStr ''bluetooth_manager''), (''priority'', PInt 1)])"

definition bt_config_loaded :: "py_text \<Rightarrow> (nat \<Rightarrow> nat) \<Rightarrow> (nat \<Rightarrow> nat) \<Rightarrow> exn option \<Rightarrow> payload \<Rightarrow> btm \<Rightarrow> btm effect" where
  "bt_config_loaded T rn rd raised config s =
     (let s1 = (if config = [] then s else s\<lparr>bm_config := merge_config bt_schema config\<rparr>) in
      eff_then (apply_config T rn rd s1) (\<lambda>s2.
        (let s3 = (if bm_agent s2 = None \<and> bm_adapter s2 \<noteq> None then agent_register raised (s2\<lparr>bm_agent := Some new_agent\<rparr>) else s2)
         in eff_ok (start_autoconnect s3) [bt_ready])))"

definition bt_config_changed :: "py_text \<Rightarrow> (nat \<Rightarrow> nat) \<Rightarrow> (nat \<Rightarrow> nat) \<Rightarrow> string \<Rightarrow> pyval \<Rightarrow> btm \<Rightarrow> btm effect" where
  "bt_config_changed T rn rd key v s =
     (if key \<notin> set (dkeys bt_schema) \<or> structural v then eff_ok s []
      else apply_config T rn rd (s\<lparr>bm_config := dset key v (bm_config s)\<rparr>))"

definition bt_system_start :: "init_env \<Rightarrow> string option \<Rightarrow> string option \<Rightarrow> payload \<Rightarrow> btm \<Rightarrow> btm effect" where
  "bt_system_start env hfp hsp p s =
     (if \<not> py_eq_int (dget p ''priority'') 1 then eff_ok s []
      else (let (ok, a) = adapter_init env new_adapter;
                s' = s\<lparr>bm_adapter := Some a\<rparr>;
                errors = (if ok then [] else [bt_error ''D-Bus init failed''])
                         @ (if register_profiles hfp hsp a then [] else [bt_error ''Profile registration failed''])
            in eff_then (eff_ok s' errors) (\<lambda>s. eff_res s (client_get ''bluetooth_manager'' None (Some bt_schema)) (\<lambda>m. eff_ok s [m]))))"

definition bt_system_stop :: "(nat \<Rightarrow> nat) \<Rightarrow> exn option \<Rightarrow> btm \<Rightarrow> btm" where
  "bt_system_stop rd raised s =
     (let s1 = stop_autoconnect s;
          s2 = (if bm_agent s1 = None then s1 else agent_unregister raised s1)
      in case bm_adapter s2 of
           None \<Rightarrow> s2
         | Some a \<Rightarrow> (call (SetProps (set_discoverable rd False 0 a)) s2)\<lparr>bm_adapter := Some (adapter_shutdown a)\<rparr>)"

section \<open>Requests\<close>

definition addr_arg :: "payload \<Rightarrow> string" where
  "addr_arg p = (case dget_or p ''device_address'' (PStr []) of PStr a \<Rightarrow> a | _ \<Rightarrow> [])"

definition on_discover :: "payload \<Rightarrow> btm \<Rightarrow> btm effect" where
  "on_discover p s =
     (if bm_adapter s = None then eff_ok s [bt_error ''Adapter not ready'']
      else if bm_scanning s then eff_ok s []
      else eff_res s (rbind (dindex (bm_config s) ''discovery_duration_sec'') (\<lambda>d. py_int (dget_or p ''duration_sec'' d))) (\<lambda>n.
             eff_ok (call (Scan n) (s\<lparr>bm_scanning := True\<rparr>)) []))"

text \<open>The session ends, having seen these polls.\<close>

definition scan_ends :: "py_text \<Rightarrow> bluez_objects res list \<Rightarrow> btm \<Rightarrow> btm effect" where
  "scan_ends T polls s = (if bm_scanning s then eff_ok (s\<lparr>bm_scanning := False\<rparr>) (discovery_run T polls) else eff_ok s [])"

definition notices :: "pair_out list \<Rightarrow> busmsg list" where
  "notices os = List.map_filter (\<lambda>x. case x of Notify m \<Rightarrow> Some m | _ \<Rightarrow> None) os"

definition with_agent :: "(agent \<Rightarrow> btm effect) \<Rightarrow> btm \<Rightarrow> btm effect" where
  "with_agent f s = (case bm_agent s of None \<Rightarrow> eff_ok s [bt_error ''Pairing agent not ready''] | Some g \<Rightarrow> f g)"

definition on_pair :: "py_text \<Rightarrow> bluez_objects res \<Rightarrow> string option \<Rightarrow> payload \<Rightarrow> btm \<Rightarrow> btm effect" where
  "on_pair T objs raised p s = with_agent (\<lambda>g.
     if addr_arg p = [] then eff_ok s [bt_error ''bluetooth_manager.pair: missing device_address'']
     else (let (g', os) = agent_pair T objs raised (addr_arg p) g in eff_ok (s\<lparr>bm_agent := Some g'\<rparr>) (notices os))) s"

definition on_confirm_pairing :: "payload \<Rightarrow> btm \<Rightarrow> btm effect" where
  "on_confirm_pairing p s = with_agent (\<lambda>g.
     (case dget_or p ''pin'' (PStr []) of
        PStr pin \<Rightarrow>
          (if addr_arg p = [] \<or> pin = [] then eff_ok s [bt_error ''bluetooth_manager.confirm_pairing: missing fields'']
           else eff_ok (s\<lparr>bm_agent := Some (agent_confirm (addr_arg p) pin g)\<rparr>) [])
      | _ \<Rightarrow> eff_ok s [bt_error ''bluetooth_manager.confirm_pairing: missing fields''])) s"

definition on_reject_pairing :: "payload \<Rightarrow> btm \<Rightarrow> btm effect" where
  "on_reject_pairing p s = with_agent (\<lambda>g.
     eff_ok (if addr_arg p = [] then s else s\<lparr>bm_agent := Some (agent_reject (addr_arg p) g)\<rparr>) []) s"

text \<open>A call of BlueZ to the agent, or one of its threads.\<close>

definition agent_runs :: "py_text \<Rightarrow> agent_event \<Rightarrow> btm \<Rightarrow> btm effect" where
  "agent_runs T e s =
     (case bm_agent s of None \<Rightarrow> eff_ok s [] | Some g \<Rightarrow> (let (g', os) = agent_step T g e in eff_ok (s\<lparr>bm_agent := Some g'\<rparr>) (notices os)))"

definition on_paired_list :: "py_text \<Rightarrow> bluez_objects res \<Rightarrow> btm \<Rightarrow> btm effect" where
  "on_paired_list T objs s =
     (if bm_adapter s = None then eff_ok s [bt_error ''Adapter not ready'']
      else eff_ok s [(''bluetooth_manager.paired.devices'', [(''devices'', PList (map PDict (list_paired T objs)))])])"

definition paired_failed :: "string \<Rightarrow> string \<Rightarrow> busmsg" where
  "paired_failed a e = (''bluetooth_manager.paired.failed'', [(''device_address'', PStr a), (''error'', PStr e)])"

definition paired_done :: "string \<Rightarrow> string \<Rightarrow> busmsg" where
  "paired_done what a = (''bluetooth_manager.paired.'' @ what, [(''device_address'', PStr a)])"

definition with_device :: "string \<Rightarrow> (string \<Rightarrow> btm effect) \<Rightarrow> payload \<Rightarrow> btm \<Rightarrow> btm effect" where
  "with_device what f p s =
     (if addr_arg p = [] then eff_ok s [bt_error (''bluetooth_manager.paired.'' @ what @ '': missing device_address'')]
      else if bm_adapter s = None then eff_ok s [bt_error ''Adapter not ready'']
      else f (addr_arg p))"

definition on_paired_remove :: "py_text \<Rightarrow> bluez_objects res \<Rightarrow> bluez_objects res \<Rightarrow> exn option \<Rightarrow> payload \<Rightarrow> btm \<Rightarrow> btm effect" where
  "on_paired_remove T objs1 objs2 raised p s = with_device ''remove'' (\<lambda>a.
     eff_ok s [if fst (remove_device T objs1 objs2 a raised) then paired_done ''removed'' a else paired_failed a ''Remove failed'']) p s"

definition report :: "string \<Rightarrow> string \<Rightarrow> outcome \<Rightarrow> busmsg" where
  "report done_as a r = (case r of Connected \<Rightarrow> paired_done done_as a | ConnFailed e \<Rightarrow> paired_failed a e)"

definition on_paired_connect :: "py_text \<Rightarrow> bluez_objects res \<Rightarrow> string option \<Rightarrow> payload \<Rightarrow> btm \<Rightarrow> btm effect" where
  "on_paired_connect T objs raised p s = with_device ''connect'' (\<lambda>a.
     eff_res s (read_int (bm_config s) ''autoconnect_connect_timeout_s'') (\<lambda>t.
       (let (rs, sent) = connect_device T objs a raised in
        eff_ok (if sent then call (TryConnect a t) s else s) (map (report ''connected'' a) rs)))) p s"

definition on_paired_disconnect :: "py_text \<Rightarrow> bluez_objects res \<Rightarrow> string option \<Rightarrow> payload \<Rightarrow> btm \<Rightarrow> btm effect" where
  "on_paired_disconnect T objs raised p s = with_device ''disconnect'' (\<lambda>a.
     eff_ok s (map (report ''disconnected'' a) (fst (connect_device T objs a raised)))) p s"

section \<open>The module\<close>

datatype bt_event =
    BtStart init_env "string option" "string option" payload
  | BtLoaded "nat \<Rightarrow> nat" "nat \<Rightarrow> nat" "exn option" payload
  | BtChanged "nat \<Rightarrow> nat" "nat \<Rightarrow> nat" string pyval
  | BtRfcomm payload
  | BtTryAutoconnect
  | BtThread "bluez_objects res" "string option"
  | BtDiscover payload
  | BtScanEnds "bluez_objects res list"
  | BtPair "bluez_objects res" "string option" payload
  | BtConfirm payload
  | BtReject payload
  | BtAgent agent_event
  | BtPairedList "bluez_objects res"
  | BtPairedRemove "bluez_objects res" "bluez_objects res" "exn option" payload
  | BtPairedConnect "bluez_objects res" "string option" payload
  | BtPairedDisconnect "bluez_objects res" "string option" payload
  | BtReport string string outcome
  | BtStop "nat \<Rightarrow> nat" "exn option"

fun bt_handle :: "py_text \<Rightarrow> bt_event \<Rightarrow> btm \<Rightarrow> btm effect" where
  "bt_handle T (BtStart env hfp hsp p) s = bt_system_start env hfp hsp p s"
| "bt_handle T (BtLoaded rn rd raised c) s = bt_config_loaded T rn rd raised c s"
| "bt_handle T (BtChanged rn rd k v) s = bt_config_changed T rn rd k v s"
| "bt_handle T (BtRfcomm p) s = eff_ok (stop_autoconnect s) []"
| "bt_handle T BtTryAutoconnect s = eff_ok (start_autoconnect s) []"
| "bt_handle T (BtThread objs raised) s = eff_ok (ac_step T objs raised s) []"
| "bt_handle T (BtDiscover p) s = on_discover p s"
| "bt_handle T (BtScanEnds polls) s = scan_ends T polls s"
| "bt_handle T (BtPair objs raised p) s = on_pair T objs raised p s"
| "bt_handle T (BtConfirm p) s = on_confirm_pairing p s"
| "bt_handle T (BtReject p) s = on_reject_pairing p s"
| "bt_handle T (BtAgent e) s = agent_runs T e s"
| "bt_handle T (BtPairedList objs) s = on_paired_list T objs s"
| "bt_handle T (BtPairedRemove objs1 objs2 raised p) s = on_paired_remove T objs1 objs2 raised p s"
| "bt_handle T (BtPairedConnect objs raised p) s = on_paired_connect T objs raised p s"
| "bt_handle T (BtPairedDisconnect objs raised p) s = on_paired_disconnect T objs raised p s"
| "bt_handle T (BtReport done_as a r) s = eff_ok s [report done_as a r]"
| "bt_handle T (BtStop rd raised) s = eff_ok (bt_system_stop rd raised s) []"

definition bt_step :: "py_text \<Rightarrow> btm \<Rightarrow> bt_event \<Rightarrow> btm \<times> busmsg list" where
  "bt_step T s e = snd (bt_handle T e s)"

section \<open>The thread\<close>

definition waits :: "btm \<Rightarrow> int list" where
  "waits s = List.map_filter (\<lambda>c. case c of WaitFor n \<Rightarrow> Some n | _ \<Rightarrow> None) (bm_calls s)"

definition reply_waits :: "btm \<Rightarrow> int list" where
  "reply_waits s = List.map_filter (\<lambda>c. case c of WaitReply n \<Rightarrow> Some n | _ \<Rightarrow> None) (bm_calls s)"

lemma waits_simps [simp]:
  "waits (call (WaitFor n) s) = waits s @ [n]" "waits (call (SetProps ps) s) = waits s" "waits (call (TryConnect a t) s) = waits s"
  "waits (call (WaitReply n) s) = waits s" "waits (call RegisterAgent s) = waits s" "waits (call UnregisterAgent s) = waits s" "waits (call (Scan n) s) = waits s"
  "waits (s\<lparr>bm_config := d\<rparr>) = waits s" "waits (s\<lparr>bm_adapter := ad\<rparr>) = waits s" "waits (s\<lparr>bm_agent := g\<rparr>) = waits s" "waits (s\<lparr>bm_registered := b\<rparr>) = waits s"
  "waits (s\<lparr>bm_stop := b\<rparr>) = waits s" "waits (s\<lparr>bm_active := b\<rparr>) = waits s" "waits (s\<lparr>bm_thread := th\<rparr>) = waits s"
  "waits (s\<lparr>bm_scanning := b\<rparr>) = waits s" "waits (ac_goto pc i c t s) = waits s"
  by (simp_all add: waits_def call_def ac_goto_def map_filter_def)

lemma reply_waits_simps [simp]:
  "reply_waits (call (WaitReply n) s) = reply_waits s @ [n]" "reply_waits (call (WaitFor n) s) = reply_waits s"
  "reply_waits (call (SetProps ps) s) = reply_waits s" "reply_waits (call (TryConnect a t) s) = reply_waits s"
  "reply_waits (call RegisterAgent s) = reply_waits s" "reply_waits (call UnregisterAgent s) = reply_waits s"
  "reply_waits (call (Scan n) s) = reply_waits s" "reply_waits (s\<lparr>bm_config := d\<rparr>) = reply_waits s"
  "reply_waits (s\<lparr>bm_adapter := ad\<rparr>) = reply_waits s" "reply_waits (s\<lparr>bm_agent := g\<rparr>) = reply_waits s"
  "reply_waits (s\<lparr>bm_registered := b\<rparr>) = reply_waits s" "reply_waits (s\<lparr>bm_stop := b\<rparr>) = reply_waits s"
  "reply_waits (s\<lparr>bm_active := b\<rparr>) = reply_waits s" "reply_waits (s\<lparr>bm_thread := th\<rparr>) = reply_waits s"
  "reply_waits (s\<lparr>bm_scanning := b\<rparr>) = reply_waits s" "reply_waits (ac_goto pc i c t s) = reply_waits s"
  by (simp_all add: reply_waits_def call_def ac_goto_def map_filter_def)

lemma call_fields [simp]:
  "bm_config (call k s) = bm_config s" "bm_adapter (call k s) = bm_adapter s" "bm_scanning (call k s) = bm_scanning s"
  "bm_agent (call k s) = bm_agent s" "bm_stop (call k s) = bm_stop s" "bm_active (call k s) = bm_active s"
  "bm_registered (call k s) = bm_registered s" "bm_thread (call k s) = bm_thread s" "bm_calls (call k s) = bm_calls s @ [k]"
  by (simp_all add: call_def)

lemma goto_fields [simp]:
  "bm_config (ac_goto pc b c t s) = bm_config s" "bm_adapter (ac_goto pc b c t s) = bm_adapter s"
  "bm_agent (ac_goto pc b c t s) = bm_agent s" "bm_stop (ac_goto pc b c t s) = bm_stop s" "bm_active (ac_goto pc b c t s) = bm_active s"
  "bm_thread (ac_goto pc b c t s) = Some (AcLoop pc b c t)" "bm_calls (ac_goto pc b c t s) = bm_calls s"
  by (simp_all add: ac_goto_def)

text \<open>The waiting times in closed form.\<close>

definition ac_backoff :: "int \<Rightarrow> int \<Rightarrow> nat \<Rightarrow> int" where
  "ac_backoff i c n = (if n = 0 then i else min (i * 2 ^ n) c)"

lemma ac_backoff_Suc: "0 \<le> c \<Longrightarrow> min (ac_backoff i c n * 2) c = ac_backoff i c (Suc n)"
  by (auto simp: ac_backoff_def min_def)

definition backoff_inv :: "int \<Rightarrow> int \<Rightarrow> btm \<Rightarrow> bool" where
  "backoff_inv i c s \<longleftrightarrow> waits s = map (ac_backoff i c) [0..<length (waits s)] \<and> (\<exists>a. bm_adapter s = Some a \<and> ad_bus a) \<and>
     (case bm_thread s of
        None \<Rightarrow> True | Some AcStarting \<Rightarrow> False
      | Some (AcLoop pc b c' t) \<Rightarrow> b = ac_backoff i c (length (waits s)) \<and> c' = c \<and> pc \<noteq> AcSleeping False)"

lemma ac_cases [case_names none starting loop]:
  assumes "bm_thread s = None \<Longrightarrow> P s" "bm_thread s = Some AcStarting \<Longrightarrow> P s"
    "\<And>pc b c t. bm_thread s = Some (AcLoop pc b c t) \<Longrightarrow> P s"
  shows "P s"
  using assms by (metis ac_thread.exhaust option.exhaust)

lemma backoff_inv_step: "0 \<le> c \<Longrightarrow> backoff_inv i c s \<Longrightarrow> backoff_inv i c (ac_step T objs raised s)"
proof (rule ac_cases [of s])
  fix pc b c' t
  assume *: "0 \<le> c" "backoff_inv i c s" and "bm_thread s = Some (AcLoop pc b c' t)"
  then show "backoff_inv i c (ac_step T objs raised s)"
    by (cases pc) (auto simp: backoff_inv_def ac_step_def ac_backoff_Suc split: list.split)
qed (auto simp: backoff_inv_def ac_step_def)

lemma ac_run: "fst (run_events (bt_step T) s (map (\<lambda>(objs, raised). BtThread objs raised) es)) = foldl (\<lambda>s (objs, raised). ac_step T objs raised s) s es"
  by (induction es arbitrary: s) (auto simp: Let_def bt_step_def eff_ok_def)

text \<open>Bounds of the three settings that the thread reads: the initial pause, its cap and the time of a connection. They are bounds of
  the values that \<^verbatim>\<open>int\<close> takes; on any other value the thread ends before it pauses.\<close>

record pause_range =
  pr_low :: int
  pr_high :: int
  pr_cap_low :: int
  pr_cap_high :: int
  pr_time :: int

definition int_within :: "int res \<Rightarrow> int \<Rightarrow> int \<Rightarrow> bool" where
  "int_within r lo hi = (case r of Inl x \<Rightarrow> True | Inr i \<Rightarrow> lo \<le> i \<and> i \<le> hi)"

definition int_upto :: "int res \<Rightarrow> int \<Rightarrow> bool" where
  "int_upto r hi = (case r of Inl x \<Rightarrow> True | Inr i \<Rightarrow> i \<le> hi)"

definition config_within :: "pause_range \<Rightarrow> payload \<Rightarrow> bool" where
  "config_within R d \<longleftrightarrow>
     int_within (read_int d ''autoconnect_backoff_initial_s'') (pr_low R) (pr_high R) \<and>
     int_within (read_int d ''autoconnect_backoff_cap_s'') (pr_cap_low R) (pr_cap_high R) \<and>
     int_upto (read_int d ''autoconnect_connect_timeout_s'') (pr_time R)"

text \<open>The values that an event puts into the configuration are within the bounds.\<close>

fun sets_within :: "pause_range \<Rightarrow> bt_event \<Rightarrow> bool" where
  "sets_within R (BtLoaded rn rd raised c) = (c = [] \<or> config_within R (merge_config bt_schema c))"
| "sets_within R (BtChanged rn rd k v) =
     (if k = ''autoconnect_backoff_initial_s'' then int_within (py_int v) (pr_low R) (pr_high R)
      else if k = ''autoconnect_backoff_cap_s'' then int_within (py_int v) (pr_cap_low R) (pr_cap_high R)
      else if k = ''autoconnect_connect_timeout_s'' then int_upto (py_int v) (pr_time R) else True)"
| "sets_within R e = True"

definition round_pause_ok :: "pause_range \<Rightarrow> int \<Rightarrow> bool" where
  "round_pause_ok R w \<longleftrightarrow> (0 \<le> min (pr_low R) (pr_cap_low R) \<longrightarrow> min (pr_low R) (pr_cap_low R) \<le> w) \<and> w \<le> max (pr_high R) (pr_cap_high R)"

lemma round_pause_grows:
  "round_pause_ok R b \<Longrightarrow> pr_cap_low R \<le> c \<Longrightarrow> c \<le> pr_cap_high R \<Longrightarrow> round_pause_ok R (min (b * 2) c)"
  by (auto simp: round_pause_ok_def min_def max_def split: if_splits)

definition waits_ok :: "pause_range \<Rightarrow> btm \<Rightarrow> bool" where
  "waits_ok R s \<longleftrightarrow> config_within R (bm_config s) \<and> list_all (round_pause_ok R) (waits s) \<and> list_all (\<lambda>w. w \<le> pr_time R + 1) (reply_waits s) \<and>
     (case bm_thread s of Some (AcLoop pc b c t) \<Rightarrow> round_pause_ok R b \<and> pr_cap_low R \<le> c \<and> c \<le> pr_cap_high R \<and> t \<le> pr_time R | _ \<Rightarrow> True)"

definition same_thread :: "btm \<Rightarrow> btm \<Rightarrow> bool" where
  "same_thread s s' \<longleftrightarrow> bm_config s' = bm_config s \<and> waits s' = waits s \<and> reply_waits s' = reply_waits s \<and> bm_thread s' = bm_thread s \<and> bm_active s' = bm_active s"

lemma same_thread_ok: "same_thread s s' \<Longrightarrow> waits_ok R s \<Longrightarrow> waits_ok R s'"
  by (simp add: same_thread_def waits_ok_def)

lemma same_thread_refl [simp]: "same_thread s s"
  by (simp add: same_thread_def)

lemma apply_same: "same_thread s (fst (snd (apply_config T rn rd s)))"
  by (simp add: apply_config_def eff_ok_def eff_res_def same_thread_def Let_def split: option.split sum.split)

lemma start_ok: "waits_ok R s \<Longrightarrow> waits_ok R (start_autoconnect s)"
  by (simp add: start_autoconnect_def waits_ok_def)

lemma ac_step_ok:
  assumes "waits_ok R s"
  shows "waits_ok R (ac_step T objs raised s)"
proof (cases "bm_thread s = Some AcStarting")
  case True
  then show ?thesis
    using assms by (auto simp: ac_step_def waits_ok_def config_within_def int_within_def int_upto_def round_pause_ok_def rbind_def
        split: sum.splits if_splits)
next
  case False
  then show ?thesis
  proof (cases "bm_thread s")
    case (Some th)
    then obtain pc b c t where th: "bm_thread s = Some (AcLoop pc b c t)" using False by (cases th) auto
    show ?thesis using assms by (cases pc) (auto simp: ac_step_def waits_ok_def th round_pause_grows split: option.split list.split)
  qed (use assms in \<open>simp add: ac_step_def\<close>)
qed

lemma request_same:
  "same_thread s (fst (snd (on_discover p s)))" "same_thread s (fst (snd (scan_ends T polls s)))"
  "same_thread s (fst (snd (on_pair T objs raised p s)))" "same_thread s (fst (snd (on_confirm_pairing p s)))"
  "same_thread s (fst (snd (on_reject_pairing p s)))" "same_thread s (fst (snd (agent_runs T e s)))"
  "same_thread s (fst (snd (on_paired_list T objs s)))" "same_thread s (fst (snd (on_paired_remove T objs objs2 x p s)))"
  "same_thread s (fst (snd (on_paired_connect T objs raised p s)))" "same_thread s (fst (snd (on_paired_disconnect T objs raised p s)))"
  by (auto simp: on_discover_def scan_ends_def on_pair_def on_confirm_pairing_def on_reject_pairing_def agent_runs_def on_paired_list_def
      on_paired_remove_def on_paired_connect_def on_paired_disconnect_def with_agent_def with_device_def eff_ok_def eff_res_def Let_def
      same_thread_def split: option.split sum.split prod.split pyval.split)

lemma start_thread_ok: "waits_ok R s \<Longrightarrow> waits_ok R (s\<lparr>bm_adapter := a\<rparr>)" "waits_ok R s \<Longrightarrow> waits_ok R (s\<lparr>bm_agent := g\<rparr>)"
  "waits_ok R s \<Longrightarrow> waits_ok R (s\<lparr>bm_stop := b\<rparr>)" "waits_ok R s \<Longrightarrow> waits_ok R (s\<lparr>bm_registered := b\<rparr>)" "waits_ok R s \<Longrightarrow> waits_ok R (call RegisterAgent s)"
  "waits_ok R s \<Longrightarrow> waits_ok R (call UnregisterAgent s)" "waits_ok R s \<Longrightarrow> waits_ok R (call (SetProps ps) s)"
  by (simp_all add: waits_ok_def)

lemma loaded_ok:
  assumes "waits_ok R s" "sets_within R (BtLoaded rn rd raised c)"
  shows "waits_ok R (fst (snd (bt_config_loaded T rn rd raised c s)))"
proof -
  define s1 where "s1 = (if c = [] then s else s\<lparr>bm_config := merge_config bt_schema c\<rparr>)"
  have "waits_ok R s1" using assms by (auto simp: s1_def waits_ok_def)
  moreover obtain x s2 ms where a: "apply_config T rn rd s1 = (x, s2, ms)" by (metis prod.exhaust)
  ultimately have s2: "waits_ok R s2" using same_thread_ok [OF apply_same [of s1 T rn rd]] by simp
  show ?thesis
    by (cases x) (use s2 in \<open>simp_all add: bt_config_loaded_def agent_register_def Let_def s1_def [symmetric] a eff_ok_def start_thread_ok start_ok\<close>)
qed

lemma changed_ok:
  assumes "waits_ok R s" "sets_within R (BtChanged rn rd k v)"
  shows "waits_ok R (fst (snd (bt_config_changed T rn rd k v s)))"
proof -
  have "waits_ok R (s\<lparr>bm_config := dset k v (bm_config s)\<rparr>)"
    using assms by (auto simp: waits_ok_def config_within_def read_int_def dindex_def map_of_dset split: if_splits)
  from same_thread_ok [OF apply_same this] show ?thesis
    using assms(1) by (simp add: bt_config_changed_def eff_ok_def)
qed

lemma boot_ok: "waits_ok R s \<Longrightarrow> waits_ok R (fst (snd (bt_system_start env hfp hsp p s)))"
  by (auto simp: bt_system_start_def Let_def eff_ok_def eff_res_def eff_then_def start_thread_ok split: prod.split sum.split)

lemma stop_ok: "waits_ok R s \<Longrightarrow> waits_ok R (bt_system_stop rd raised s)"
  by (simp add: bt_system_stop_def agent_unregister_def stop_autoconnect_def Let_def start_thread_ok split: option.split)

lemma handle_ok: "waits_ok R s \<Longrightarrow> sets_within R e \<Longrightarrow> waits_ok R (fst (bt_step T s e))"
  by (cases e) (simp_all add: bt_step_def eff_ok_def loaded_ok [simplified] changed_ok [simplified] boot_ok stop_ok start_ok ac_step_ok stop_autoconnect_def
      start_thread_ok same_thread_ok [OF request_same(1)] same_thread_ok [OF request_same(2)] same_thread_ok [OF request_same(3)]
      same_thread_ok [OF request_same(4)] same_thread_ok [OF request_same(5)] same_thread_ok [OF request_same(6)] same_thread_ok [OF request_same(7)]
      same_thread_ok [OF request_same(8)] same_thread_ok [OF request_same(9)] same_thread_ok [OF request_same(10)])

lemma run_waits_ok: "waits_ok R s \<Longrightarrow> list_all (sets_within R) es \<Longrightarrow> waits_ok R (fst (run_events (bt_step T) s es))"
  by (induction es arbitrary: s) (auto simp: Let_def handle_ok)

definition schema_range :: pause_range where
  "schema_range = \<lparr>pr_low = 1, pr_high = 30, pr_cap_low = 10, pr_cap_high = 300, pr_time = 30\<rparr>"

lemma new_btm_ok: "config_within R (schema_values bt_schema) \<Longrightarrow> waits_ok R new_btm"
  by (simp add: waits_ok_def new_btm_def waits_def reply_waits_def)

text \<open>The calls that connect.\<close>

definition attempts :: "btm \<Rightarrow> bt_call list" where
  "attempts s = filter (\<lambda>c. case c of TryConnect a t \<Rightarrow> True | _ \<Rightarrow> False) (bm_calls s)"

lemma attempts_simps [simp]:
  "attempts (call (WaitFor n) s) = attempts s" "attempts (s\<lparr>bm_stop := b\<rparr>) = attempts s" "attempts (s\<lparr>bm_active := b\<rparr>) = attempts s"
  "attempts (s\<lparr>bm_thread := th\<rparr>) = attempts s" "attempts (ac_goto pc i c t s) = attempts s"
  by (simp_all add: attempts_def ac_goto_def)

text \<open>How many more steps a thread that is told to stop takes.\<close>

fun steps_left :: "ac_thread option \<Rightarrow> nat" where
  "steps_left None = 0"
| "steps_left (Some AcStarting) = 4"
| "steps_left (Some (AcLoop (AcSleeping grow) b c t)) = 3"
| "steps_left (Some (AcLoop AcLeaving b c t)) = 1"
| "steps_left (Some (AcLoop pc b c t)) = 2"

definition winding_down :: "btm \<Rightarrow> bool" where
  "winding_down s \<longleftrightarrow> bm_stop s \<and> bm_thread s \<noteq> Some AcStarting \<and> bm_active s = (bm_thread s \<noteq> None)"

lemma winding_step:
  "winding_down s \<Longrightarrow> winding_down (ac_step T objs raised s) \<and> attempts (ac_step T objs raised s) = attempts s \<and>
     steps_left (bm_thread (ac_step T objs raised s)) = steps_left (bm_thread s) - 1"
proof (rule ac_cases [of s])
  fix pc b c t
  assume "winding_down s" "bm_thread s = Some (AcLoop pc b c t)"
  then show ?thesis
    by (cases pc) (auto simp: winding_down_def ac_step_def split: list.split)
qed (auto simp: winding_down_def ac_step_def)

lemma winding_run:
  "winding_down s \<Longrightarrow> s' = fst (run_events (bt_step T) s (map (\<lambda>(objs, raised). BtThread objs raised) es)) \<Longrightarrow>
     winding_down s' \<and> attempts s' = attempts s \<and> steps_left (bm_thread s') = steps_left (bm_thread s) - length es"
  unfolding ac_run
proof (induction es arbitrary: s)
  case (Cons e es)
  then show ?case using winding_step [of s T "fst e" "snd e"] by (simp add: split_beta)
qed simp

lemma ended: "steps_left th = 0 \<longleftrightarrow> th = None"
  by (cases th rule: steps_left.cases) auto

section \<open>Properties\<close>

text \<open>C29 Whatever the bus, the agent and BlueZ do, the autoconnect thread pauses by its settings: let \<open>R\<close> bound the defaults and all
  values that the configuration manager delivers for the three settings (the values that \<^verbatim>\<open>int\<close> takes; on any other the thread
  ends). Then every pause after a round lies between the least admitted value, if that is not negative, and the greatest, and every
  wait for a connection ends within the greatest connection time and one second. The ranges of the schema (\<open>schema_range\<close>) give 1 to
  300 s and 31 s, but the manager checks them only in \<^verbatim>\<open>config.set\<close>: a stored 0 is delivered, and all pauses are 0
  (\<open>stored_zero_never_pauses\<close>).\<close>

theorem autoconnect_waits_bounded:
  assumes "config_within R (schema_values bt_schema)" "list_all (sets_within R) es"
    and "s = fst (run_events (bt_step T) new_btm es)"
  shows "list_all (\<lambda>w. w \<le> max (pr_high R) (pr_cap_high R)) (waits s) \<and>
    (0 \<le> min (pr_low R) (pr_cap_low R) \<longrightarrow> list_all (\<lambda>w. min (pr_low R) (pr_cap_low R) \<le> w) (waits s)) \<and>
    list_all (\<lambda>w. w \<le> pr_time R + 1) (reply_waits s)"
  using run_waits_ok [OF new_btm_ok [OF assms(1)] assms(2), of T] assms(3) by (auto simp: waits_ok_def round_pause_ok_def list_all_iff)

text \<open>While no handler interferes and an adapter is there, the pauses of the thread are the exponential
  back-off of the two settings in closed form: the first is the initial one, the \<open>n\<close>-th \<open>min (i * 2\<^sup>n) c\<close>.\<close>

theorem autoconnect_backoff:
  assumes "bm_thread s = Some (AcLoop AcHead i c t)" "waits s = []" "bm_adapter s = Some a" "ad_bus a" "0 \<le> c"
  shows "waits (fst (run_events (bt_step T) s (map (\<lambda>(objs, raised). BtThread objs raised) es))) =
     map (ac_backoff i c) [0..<length (waits (fst (run_events (bt_step T) s (map (\<lambda>(objs, raised). BtThread objs raised) es))))]"
proof -
  have "backoff_inv i c (foldl (\<lambda>s (objs, raised). ac_step T objs raised s) s es)" if "backoff_inv i c s" for s
    using that by (induction es arbitrary: s) (auto simp: backoff_inv_step [OF assms(5)])
  moreover have "backoff_inv i c s" using assms by (simp add: backoff_inv_def ac_backoff_def)
  ultimately show ?thesis unfolding ac_run backoff_inv_def by blast
qed

text \<open>A request to connect again that comes while the thread still winds down after a phone connected is lost:
  whatever the thread does then, no connection is attempted, and after three of its steps it is gone.\<close>

theorem autoconnect_request_lost:
  assumes "bm_thread s = Some (AcLoop pc b c t)" "bm_active s"
    "s' = fst (run_events (bt_step T) s (BtRfcomm p # BtTryAutoconnect # map (\<lambda>(objs, raised). BtThread objs raised) es))"
  shows "attempts s' = attempts s \<and> (3 \<le> length es \<longrightarrow> bm_thread s' = None)"
proof -
  define s1 where "s1 = s\<lparr>bm_stop := True\<rparr>"
  have "s' = fst (run_events (bt_step T) s1 (map (\<lambda>(objs, raised). BtThread objs raised) es))"
    using assms by (simp add: s1_def bt_step_def eff_ok_def stop_autoconnect_def start_autoconnect_def Let_def)
  moreover have "winding_down s1" using assms by (simp add: winding_down_def s1_def)
  ultimately have *: "attempts s' = attempts s1 \<and> steps_left (bm_thread s') = steps_left (bm_thread s1) - length es"
    using winding_run by blast
  have "steps_left (bm_thread s1) \<le> 3" using assms(1) by (cases pc) (simp_all add: s1_def)
  with * show ?thesis using ended [of "bm_thread s'"] by (auto simp: s1_def)
qed

definition demo_objects :: "bluez_objects res" where
  "demo_objects = Inr [(''/hci0'', [(IFACE_ADAPTER, [])]),
     (''/hci0/dev1'', [(IFACE_DEVICE, [(''Address'', PStr ''AA''), (''Paired'', PBool True)])])]"

definition demo_boot :: "bt_event list" where
  "demo_boot = [BtStart (Objects demo_objects) None None [(''priority'', PInt 1)],
     BtLoaded (\<lambda>k. 2) (\<lambda>k. 2) None [(''autoconnect_backoff_cap_s'', PInt 12)], BtThread demo_objects None]"

theorem autoconnect_waits_bounded_witness:
  "let s = fst (run_events (bt_step demo_text) new_btm (demo_boot @ replicate 12 (BtThread demo_objects None))) in
     list_all (\<lambda>w. 1 \<le> w \<and> w \<le> 300) (waits s) \<and> list_all (\<lambda>w. w \<le> 31) (reply_waits s) \<and> waits s = [5, 10, 12] \<and> reply_waits s = [9, 9, 9]"
proof -
  let ?s = "fst (run_events (bt_step demo_text) new_btm (demo_boot @ replicate 12 (BtThread demo_objects None)))"
  have d: "config_within schema_range (schema_values bt_schema)" by code_simp
  have e: "list_all (sets_within schema_range) (demo_boot @ replicate 12 (BtThread demo_objects None))" by code_simp
  have w: "waits ?s = [5, 10, 12] \<and> reply_waits ?s = [9, 9, 9]" by code_simp
  show ?thesis using autoconnect_waits_bounded [OF d e refl, of demo_text] w by (simp add: schema_range_def list_all_iff)
qed

text \<open>A stored initial pause of 0, delivered at the start: the thread goes round and asks for connections without ever pausing.\<close>

theorem stored_zero_never_pauses:
  "waits (fst (run_events (bt_step demo_text) new_btm
     (BtStart (Objects demo_objects) None None [(''priority'', PInt 1)]
      # BtLoaded (\<lambda>k. 2) (\<lambda>k. 2) None [(''autoconnect_backoff_initial_s'', PInt 0)] # replicate 17 (BtThread demo_objects None)))) = [0, 0, 0, 0]"
  by code_simp

definition demo_running :: btm where
  "demo_running = fst (run_events (bt_step demo_text) new_btm demo_boot)"

theorem autoconnect_backoff_witness:
  "waits (fst (run_events (bt_step demo_text) demo_running (map (\<lambda>(objs, raised). BtThread objs raised) (replicate 16 (demo_objects, None)))))
     = map (ac_backoff 5 12) [0..<4]"
proof -
  have "bm_thread demo_running = Some (AcLoop AcHead 5 12 8)" "waits demo_running = []"
    "bm_adapter demo_running = Some \<lparr>ad_bus = True, ad_init = True\<rparr>"
    "length (waits (fst (run_events (bt_step demo_text) demo_running (map (\<lambda>(objs, raised). BtThread objs raised) (replicate 16 (demo_objects, None)))))) = 4"
    by code_simp+
  then show ?thesis
    using autoconnect_backoff [of demo_running 5 12 8 "\<lparr>ad_bus = True, ad_init = True\<rparr>" demo_text "replicate 16 (demo_objects, None)"] by simp
qed

theorem autoconnect_request_lost_witness:
  "attempts (fst (run_events (bt_step demo_text) demo_running
     (BtRfcomm [] # BtTryAutoconnect # map (\<lambda>(objs, raised). BtThread objs raised) (replicate 3 (demo_objects, None))))) = []
   \<and> bm_thread (fst (run_events (bt_step demo_text) demo_running
     (BtRfcomm [] # BtTryAutoconnect # map (\<lambda>(objs, raised). BtThread objs raised) (replicate 3 (demo_objects, None))))) = None"
proof -
  have "bm_thread demo_running = Some (AcLoop AcHead 5 12 8)" "bm_active demo_running" "attempts demo_running = []"
    by code_simp+
  then show ?thesis
    using autoconnect_request_lost [of demo_running AcHead 5 12 8 _ demo_text "[]" "replicate 3 (demo_objects, None)", OF _ _ refl] by simp
qed

end
