(* ===== verification/AudioManager.thy ===== *)
theory AudioManager
  imports PyText ChannelBase
begin

text \<open>
  \<^verbatim>\<open>v2/modules/audio_manager/main.py\<close>: the sinks and sources that the two command line tools list, the selection and
  the volumes. What a command prints (or the exception of running it) is an argument; the commands that set a
  volume are a trace. Text beyond ASCII counts as its UTF-8 bytes.
\<close>

section \<open>Lists of devices\<close>

definition BOX_V :: string where "BOX_V = [CHR 0xE2, CHR 0x94, CHR 0x82]"
definition BOX_T :: string where "BOX_T = [CHR 0xE2, CHR 0x94, CHR 0x9C]"
definition BOX_L :: string where "BOX_L = [CHR 0xE2, CHR 0x94, CHR 0x94]"
definition DOT :: char where "DOT = CHR 0x2E"
definition TAB :: char where "TAB = CHR 0x09"

definition note_device :: "bool \<Rightarrow> string \<Rightarrow> string list \<Rightarrow> string list" where
  "note_device sources name devices =
     (if name \<noteq> [] \<and> \<not> (sources \<and> has_sub ''.monitor'' name) \<and> name \<notin> set devices then devices @ [name] else devices)"

text \<open>\<^verbatim>\<open>line[dot_idx + 1:].strip().split()[0].rstrip(",")\<close>.\<close>

definition wpctl_name :: "string \<Rightarrow> string res" where
  "wpctl_name line =
     (case py_words (py_strip (tl (dropWhile (\<lambda>c. c \<noteq> DOT) line))) of
        [] \<Rightarrow> Inl IndexError
      | w # ws \<Rightarrow> Inr (rev (dropWhile (\<lambda>c. c = CHR '','') (rev w))))"

definition section_over :: "string \<Rightarrow> bool" where
  "section_over line =
     (let stripped = py_strip line in
      stripped = [] \<or> (ends '':'' stripped \<and> \<not> has_sub BOX_V line \<and> \<not> has_sub BOX_T line \<and> \<not> has_sub BOX_L line))"

text \<open>The loop over the lines; the flag tells that the header was seen.\<close>

fun wpctl_scan :: "string \<Rightarrow> bool \<Rightarrow> bool \<Rightarrow> string list \<Rightarrow> string list \<Rightarrow> string list res" where
  "wpctl_scan header sources seen [] devices = Inr devices"
| "wpctl_scan header sources seen (line # ls) devices =
     (if has_sub header (py_strip line) then wpctl_scan header sources True ls devices
      else if \<not> seen then wpctl_scan header sources False ls devices
      else if section_over line then Inr devices
      else if DOT \<notin> set line then wpctl_scan header sources True ls devices
      else rbind (wpctl_name line) (\<lambda>name. wpctl_scan header sources True ls (note_device sources name devices)))"

definition or_default :: "string list res \<Rightarrow> string list" where
  "or_default r = (case r of Inl x \<Rightarrow> [''default''] | Inr ds \<Rightarrow> ds)"

definition enum_wpctl :: "bool \<Rightarrow> string res \<Rightarrow> string list" where
  "enum_wpctl sources out =
     or_default (rbind out (\<lambda>s. wpctl_scan (if sources then ''Sources:'' else ''Sinks:'') sources False (splitlines s) [''default'']))"

fun pactl_scan :: "bool \<Rightarrow> string list \<Rightarrow> string list \<Rightarrow> string list" where
  "pactl_scan sources [] devices = devices"
| "pactl_scan sources (line # ls) devices =
     (case py_split [TAB] line of
        a # b # parts \<Rightarrow> pactl_scan sources ls (note_device sources (py_strip b) devices)
      | _ \<Rightarrow> pactl_scan sources ls devices)"

definition enum_pactl :: "bool \<Rightarrow> string res \<Rightarrow> string list" where
  "enum_pactl sources out = or_default (rbind out (\<lambda>s. Inr (pactl_scan sources (splitlines s) [''default''])))"

text \<open>What the tools answer at one moment: \<^verbatim>\<open>wpctl status\<close> is run for each of the two lists.\<close>

record tool_out =
  wp_sinks :: "string res"
  pa_sinks :: "string res"
  wp_sources :: "string res"
  pa_sources :: "string res"

definition enumerate_sinks :: "tool_out \<Rightarrow> string list" where
  "enumerate_sinks O' = (let r = enum_wpctl False (wp_sinks O') in if 1 < length r then r else enum_pactl False (pa_sinks O'))"

definition enumerate_sources :: "tool_out \<Rightarrow> string list" where
  "enumerate_sources O' = (let r = enum_wpctl True (wp_sources O') in if 1 < length r then r else enum_pactl True (pa_sources O'))"

section \<open>State\<close>

definition device_schema :: "string list \<Rightarrow> string list \<Rightarrow> schema" where
  "device_schema sinks sources =
     [(''sink'', projr (field_enum ''default'' (if sinks = [] then [''default''] else sinks))),
      (''source'', projr (field_enum ''default'' (if sources = [] then [''default''] else sources))),
      (''volume'', field_int 80 (PInt 0) (PInt 100)), (''poll_interval_s'', field_int 30 (PInt 5) (PInt 300)),
      (''volume_ch4'', field_int 100 (PInt 0) (PInt 100)), (''volume_ch6'', field_int 100 (PInt 0) (PInt 100)),
      (''volume_ch10'', field_int 100 (PInt 0) (PInt 100))]"

text \<open>\<open>am_polls\<close> and \<open>am_udevs\<close> count the threads that run.\<close>

record audio_mgr =
  am_sinks :: "string list"
  am_sources :: "string list"
  am_schema :: schema
  am_config :: payload
  am_stop :: bool
  am_polls :: nat
  am_udevs :: nat
  am_cmds :: "string list list"

definition new_audio_mgr :: audio_mgr where
  "new_audio_mgr = \<lparr>am_sinks = [''default''], am_sources = [''default''], am_schema = device_schema [''default''] [''default''],
     am_config = schema_values (device_schema [''default''] [''default'']), am_stop = False, am_polls = 0, am_udevs = 0, am_cmds = []\<rparr>"

section \<open>Volume\<close>

definition run_volume :: "string list \<Rightarrow> audio_mgr \<Rightarrow> audio_mgr" where
  "run_volume cmd s = s\<lparr>am_cmds := am_cmds s @ [cmd]\<rparr>"

text \<open>\<^verbatim>\<open>"%d" % v\<close> and what it raises.\<close>

definition format_d :: "pyval \<Rightarrow> exn option" where
  "format_d v = (case v of PStr s \<Rightarrow> Some TypeError | _ \<Rightarrow> (case py_int v of Inl x \<Rightarrow> Some x | Inr i \<Rightarrow> None))"

text \<open>\<open>ok\<close> tells that the command succeeds. The log line after it can raise as well, inside the \<^verbatim>\<open>try\<close>.\<close>

definition set_global_volume :: "py_text \<Rightarrow> bool \<Rightarrow> pyval \<Rightarrow> audio_mgr \<Rightarrow> bool \<times> audio_mgr" where
  "set_global_volume T ok v s =
     (ok \<and> format_d v = None, run_volume [''wpctl'', ''set-volume'', ''@DEFAULT_SINK@'', py_str T v @ ''%''] s)"

fun index_scan :: "string \<Rightarrow> int option \<Rightarrow> string list \<Rightarrow> int option res" where
  "index_scan name cur [] = Inr None"
| "index_scan name cur (line # ls) =
     (let stripped = py_strip line in
      if starts ''Sink Input #'' stripped then rbind (py_int (PStr (py_split ''#'' stripped ! 1))) (\<lambda>i. index_scan name (Some i) ls)
      else if (starts ''media.name'' stripped \<or> has_sub ''stream.name'' stripped) \<and>
              (has_sub ([CHR 0x22] @ name @ [CHR 0x22]) stripped \<or> has_sub (''= '' @ name) stripped) then Inr cur
      else index_scan name cur ls)"

text \<open>The short list is run and not used; only its failure matters.\<close>

definition get_sink_input_index :: "string res \<Rightarrow> string res \<Rightarrow> string \<Rightarrow> int option" where
  "get_sink_input_index short verbose name =
     (case rbind short (\<lambda>s. rbind verbose (\<lambda>t. index_scan name None (splitlines t))) of Inl x \<Rightarrow> None | Inr r \<Rightarrow> r)"

definition set_channel_volume :: "py_text \<Rightarrow> string res \<Rightarrow> string res \<Rightarrow> bool \<Rightarrow> pyval \<Rightarrow> pyval \<Rightarrow> audio_mgr \<Rightarrow> bool \<times> audio_mgr" where
  "set_channel_volume T short verbose ok ch v s =
     (case get_sink_input_index short verbose (''ch'' @ py_str T ch) of
        None \<Rightarrow> (False, s)
      | Some i \<Rightarrow>
          (ok \<and> format_d ch = None \<and> format_d v = None, run_volume [''pactl'', ''set-sink-input-volume'', str_of_int i, py_str T v @ ''%''] s))"

section \<open>Devices\<close>

definition selected :: "string \<Rightarrow> pyval \<Rightarrow> busmsg" where
  "selected what v = (''audio.'' @ what @ ''.selected'', [(what, v)])"

definition device_list :: "string \<Rightarrow> string list \<Rightarrow> busmsg" where
  "device_list what ds = (''audio.'' @ what @ ''.list'', [(what, PList (map PStr ds))])"

definition available :: "string list \<Rightarrow> pyval \<Rightarrow> bool" where
  "available ds v = (v \<in> set (map PStr ds))"

definition revalidate :: "string \<Rightarrow> string list \<Rightarrow> payload \<Rightarrow> payload" where
  "revalidate key ds config =
     (if available ds (dget_or config key (PStr ''default'')) then config else dset key (PStr ''default'') config)"

definition refresh_devices :: "bool \<Rightarrow> tool_out \<Rightarrow> audio_mgr \<Rightarrow> audio_mgr \<times> busmsg list" where
  "refresh_devices publish O' s =
     (let sinks = enumerate_sinks O'; sources = enumerate_sources O';
          changed = (sinks \<noteq> am_sinks s \<or> sources \<noteq> am_sources s);
          config = revalidate ''source'' sources (revalidate ''sink'' sinks (am_config s));
          s' = s\<lparr>am_sinks := sinks, am_sources := sources, am_schema := device_schema sinks sources, am_config := config\<rparr>
      in (s', (if publish \<or> changed then [device_list ''sinks'' sinks, device_list ''sources'' sources] else [])
              @ [selected ''sink'' (dget_or config ''sink'' (PStr ''default'')), selected ''source'' (dget_or config ''source'' (PStr ''default''))]))"

section \<open>Threads\<close>

text \<open>\<^verbatim>\<open>Event.wait\<close> takes \<^verbatim>\<open>None\<close> or a number up to \<^verbatim>\<open>threading.TIMEOUT_MAX\<close>; anything else ends the thread.\<close>

definition can_wait :: "pyval \<Rightarrow> bool" where
  "can_wait v =
     (case v of
        PNone \<Rightarrow> True | PBool b \<Rightarrow> True | PInt i \<Rightarrow> i \<le> 9223372036
      | PFloat x \<Rightarrow> (case x of Fin r \<Rightarrow> r \<le> 9223372036 | PosInf \<Rightarrow> False | _ \<Rightarrow> True)
      | _ \<Rightarrow> False)"

definition poll_wakes :: "tool_out \<Rightarrow> audio_mgr \<Rightarrow> audio_mgr \<times> busmsg list" where
  "poll_wakes O' s =
     (if am_polls s = 0 then (s, [])
      else if \<not> can_wait (dget_or (am_config s) ''poll_interval_s'' (PInt 30)) \<or> am_stop s then (s\<lparr>am_polls := am_polls s - 1\<rparr>, [])
      else refresh_devices False O' s)"

definition udev_event :: "tool_out \<Rightarrow> string \<Rightarrow> audio_mgr \<Rightarrow> audio_mgr \<times> busmsg list" where
  "udev_event O' action s =
     (if am_udevs s = 0 then (s, [])
      else if am_stop s then (s\<lparr>am_udevs := am_udevs s - 1\<rparr>, [])
      else if action \<in> {''add'', ''remove'', ''change''} then refresh_devices True O' s
      else (s, []))"

section \<open>Configuration\<close>

definition volume_changed :: "pyval \<Rightarrow> busmsg" where
  "volume_changed v = (''audio.volume.changed'', [(''volume'', v)])"

definition audio_ready :: busmsg where
  "audio_ready = (''system.ready'', [(''name'', PStr ''audio_manager''), (''priority'', PInt 1)])"

definition am_config_loaded :: "py_text \<Rightarrow> bool \<Rightarrow> payload \<Rightarrow> audio_mgr \<Rightarrow> audio_mgr effect" where
  "am_config_loaded T ok config s =
     (if config = [] then eff_ok s []
      else (let c = merge_config (am_schema s) config; vol = dget_or c ''volume'' (PInt 80);
                (set_ok, s1) = set_global_volume T ok vol (s\<lparr>am_config := c\<rparr>)
            in eff_ok (s1\<lparr>am_stop := False, am_polls := Suc (am_polls s), am_udevs := Suc (am_udevs s)\<rparr>)
                 ([selected ''sink'' (dget_or c ''sink'' (PStr ''default'')), selected ''source'' (dget_or c ''source'' (PStr ''default''))]
                  @ (if set_ok then [volume_changed vol] else []) @ [audio_ready])))"

definition am_config_changed :: "py_text \<Rightarrow> string res \<Rightarrow> string res \<Rightarrow> bool \<Rightarrow> string \<Rightarrow> pyval \<Rightarrow> audio_mgr \<Rightarrow> audio_mgr effect" where
  "am_config_changed T short verbose ok key v s =
     (if key \<notin> set (dkeys (am_schema s)) \<or> structural v then eff_ok s []
      else (let s1 = s\<lparr>am_config := dset key v (am_config s)\<rparr> in
        if key = ''sink'' then eff_ok s1 [selected ''sink'' v]
        else if key = ''source'' then eff_ok s1 [selected ''source'' v]
        else if key = ''volume'' then
          eff_res s1 (py_int v) (\<lambda>n. (let (set_ok, s2) = set_global_volume T ok (PInt n) s1 in
            eff_ok s2 (if set_ok then [volume_changed (PInt n)] else [])))
        else if starts ''volume_ch'' key then
          (case py_int (PStr (py_split ''volume_ch'' key ! 1)) of
             Inl x \<Rightarrow> eff_ok s1 []
           | Inr ch \<Rightarrow> eff_res s1 (py_int v) (\<lambda>n. eff_ok (snd (set_channel_volume T short verbose ok (PInt ch) (PInt n) s1)) []))
        else (format_d v, s1, [])))"

definition is_int :: "pyval \<Rightarrow> bool" where
  "is_int v = (case v of PInt i \<Rightarrow> True | PBool b \<Rightarrow> True | _ \<Rightarrow> False)"

definition percent :: "pyval \<Rightarrow> bool" where
  "percent v = (case py_int v of Inl x \<Rightarrow> False | Inr i \<Rightarrow> 0 \<le> i \<and> i \<le> 100)"

definition on_audio_volume_set :: "py_text \<Rightarrow> bool \<Rightarrow> payload \<Rightarrow> audio_mgr \<Rightarrow> audio_mgr effect" where
  "on_audio_volume_set T ok p s =
     (let v = dget p ''volume'' in
      if \<not> is_int v \<or> \<not> percent v then eff_ok s []
      else (let (set_ok, s1) = set_global_volume T ok v (s\<lparr>am_config := dset ''volume'' v (am_config s)\<rparr>) in
            eff_ok s1 (if set_ok then [volume_changed v] else [])))"

definition on_audio_channel_volume_set :: "py_text \<Rightarrow> string res \<Rightarrow> string res \<Rightarrow> bool \<Rightarrow> payload \<Rightarrow> audio_mgr \<Rightarrow> audio_mgr effect" where
  "on_audio_channel_volume_set T short verbose ok p s =
     (let ch = dget p ''channel_id''; v = dget p ''volume'' in
      if \<not> is_int ch \<or> \<not> is_int v \<or> \<not> percent v then eff_ok s []
      else eff_ok (snd (set_channel_volume T short verbose ok ch v
                     (s\<lparr>am_config := dset (''volume_ch'' @ py_str T ch) v (am_config s)\<rparr>))) [])"

definition audio_system_start :: "tool_out \<Rightarrow> payload \<Rightarrow> audio_mgr \<Rightarrow> audio_mgr effect" where
  "audio_system_start O' p s =
     (if \<not> py_eq_int (dget p ''priority'') 1 then eff_ok s []
      else (let (s1, ms) = refresh_devices True O' s in
            eff_then (eff_ok s1 ms) (\<lambda>s. eff_res s (client_get ''audio_manager'' None (Some (am_schema s))) (\<lambda>m. eff_ok s [m]))))"

definition audio_system_stop :: "audio_mgr \<Rightarrow> audio_mgr" where
  "audio_system_stop s = s\<lparr>am_stop := True\<rparr>"

datatype am_event =
    AmStart tool_out payload
  | AmLoaded bool payload
  | AmChanged "string res" "string res" bool string pyval
  | AmVolume bool payload
  | AmChannelVolume "string res" "string res" bool payload
  | AmPoll tool_out
  | AmUdev tool_out string
  | AmStop

fun am_handle :: "py_text \<Rightarrow> am_event \<Rightarrow> audio_mgr \<Rightarrow> audio_mgr effect" where
  "am_handle T (AmStart O' p) s = audio_system_start O' p s"
| "am_handle T (AmLoaded ok c) s = am_config_loaded T ok c s"
| "am_handle T (AmChanged short verbose ok k v) s = am_config_changed T short verbose ok k v s"
| "am_handle T (AmVolume ok p) s = on_audio_volume_set T ok p s"
| "am_handle T (AmChannelVolume short verbose ok p) s = on_audio_channel_volume_set T short verbose ok p s"
| "am_handle T (AmPoll O') s = (None, poll_wakes O' s)"
| "am_handle T (AmUdev O' action) s = (None, udev_event O' action s)"
| "am_handle T AmStop s = eff_ok (audio_system_stop s) []"

definition am_step :: "py_text \<Rightarrow> audio_mgr \<Rightarrow> am_event \<Rightarrow> audio_mgr \<times> busmsg list" where
  "am_step T s e = snd (am_handle T e s)"

section \<open>Words of a line\<close>

lemma py_strip_parts: "\<exists>a b. s = a @ py_strip s @ b \<and> list_all u_space a \<and> list_all u_space b"
proof -
  let ?t = "dropWhile u_space s"
  have a: "s = takeWhile u_space s @ ?t" "list_all u_space (takeWhile u_space s)"
    by (auto simp: list_all_iff dest: set_takeWhileD)
  have "rev ?t = takeWhile u_space (rev ?t) @ dropWhile u_space (rev ?t)" by simp
  then have "?t = rev (dropWhile u_space (rev ?t)) @ rev (takeWhile u_space (rev ?t))" by (metis rev_append rev_rev_ident)
  then have "?t = py_strip s @ rev (takeWhile u_space (rev ?t))" unfolding py_strip_def .
  moreover have "list_all u_space (rev (takeWhile u_space (rev ?t)))" by (auto simp: list_all_iff dest: set_takeWhileD)
  ultimately show ?thesis using a by metis
qed

lemma has_sub_strip: "has_sub h (py_strip s) \<Longrightarrow> has_sub h s"
  by (metis append.assoc has_sub_append has_sub_split py_strip_parts)

lemma py_strip_ne: "\<not> list_all u_space s \<Longrightarrow> py_strip s \<noteq> []"
  using py_strip_parts [of s] by (metis append_Nil list_all_append)

lemma words_front: "list_all u_space a \<Longrightarrow> words_acc [] (a @ s) = words_acc [] s"
  by (induction a) auto

lemma words_back: "list_all u_space b \<Longrightarrow> words_acc acc (s @ b) = words_acc acc s"
proof (induction s arbitrary: acc)
  case Nil
  then show ?case by (cases b) (auto simp: words_front [of _ "[]", simplified])
qed auto

lemma py_words_strip: "py_words (py_strip s) = py_words s"
  using py_strip_parts [of s] by (metis py_words_def words_back words_front)

lemma words_first: "list_all (\<lambda>c. \<not> u_space c) w \<Longrightarrow> acc \<noteq> [] \<or> w \<noteq> [] \<Longrightarrow> u_space c \<Longrightarrow>
    words_acc acc (w @ c # s) = (rev acc @ w) # words_acc [] s"
  by (induction w arbitrary: acc) auto

section \<open>What the tools list\<close>

definition noted :: "bool \<Rightarrow> string list \<Rightarrow> string list \<Rightarrow> string list" where
  "noted sources devices names = foldl (\<lambda>ds n. note_device sources n ds) devices names"

text \<open>A device as \<^verbatim>\<open>wpctl status\<close> prints it, inside the tree of its section, and the two headers.\<close>

definition device_line :: "nat \<times> string \<times> string \<Rightarrow> string" where
  "device_line d = (case d of (i, name, rest) \<Rightarrow> '' '' @ BOX_V @ ''      '' @ str_of_nat i @ DOT # '' '' @ name @ CHR '' '' # rest)"

definition dev_name :: "nat \<times> string \<times> string \<Rightarrow> string" where
  "dev_name d = fst (snd d)"

definition header_line :: "string \<Rightarrow> string" where
  "header_line h = '' '' @ BOX_T @ [CHR 0xE2, CHR 0x94, CHR 0x80, CHR '' ''] @ h"

definition gap_line :: string where
  "gap_line = '' '' @ BOX_V @ ''  ''"

text \<open>The name begins with a word that has no comma at its end; the rest of the line is free.\<close>

definition plain_device :: "nat \<times> string \<times> string \<Rightarrow> bool" where
  "plain_device d \<longleftrightarrow> dev_name d \<noteq> [] \<and> list_all (\<lambda>c. \<not> u_space c) (dev_name d) \<and> last (dev_name d) \<noteq> CHR '','' \<and>
     list_all (\<lambda>c. \<not> line_end c) (device_line d) \<and> \<not> has_sub ''Sinks:'' (device_line d)"

lemma dot_prefix: "DOT \<notin> set ('' '' @ BOX_V @ ''      '' @ str_of_nat i)"
  using str_of_nat_digits [of i] by (auto simp: DOT_def BOX_V_def is_digit_def)

lemma dropWhile_to: "c \<notin> set xs \<Longrightarrow> dropWhile (\<lambda>x. x \<noteq> c) (xs @ c # ys) = c # ys"
  by (induction xs) auto

lemma space_chars [simp]: "u_space (CHR '' '')" "\<not> u_space (CHR 0xE2)"
  by (simp_all add: u_space_def Let_def)

lemma wpctl_name_device:
  assumes "plain_device d"
  shows "wpctl_name (device_line d) = Inr (dev_name d)"
proof -
  obtain i name rest where d: "d = (i, name, rest)" by (metis prod.exhaust)
  let ?pre = "'' '' @ BOX_V @ ''      '' @ str_of_nat i"
  have name: "name \<noteq> []" "list_all (\<lambda>c. \<not> u_space c) name" "last name \<noteq> CHR '',''"
    using assms by (auto simp: plain_device_def dev_name_def d)
  have l: "device_line d = ?pre @ DOT # '' '' @ name @ CHR '' '' # rest" by (simp add: device_line_def d)
  have "tl (dropWhile (\<lambda>c. c \<noteq> DOT) (device_line d)) = '' '' @ name @ CHR '' '' # rest"
    unfolding l dropWhile_to [OF dot_prefix] by simp
  moreover have "py_words ('' '' @ name @ CHR '' '' # rest) = name # words_acc [] rest"
    using words_first [of name "[]" "CHR '' ''" rest] name by (simp add: py_words_def)
  moreover have "dropWhile (\<lambda>c. c = CHR '','') (rev name) = rev name"
    using name by (cases name rule: rev_cases) auto
  ultimately show ?thesis by (simp add: wpctl_name_def py_words_strip dev_name_def d)
qed

lemma in_tree: "\<not> section_over ('' '' @ BOX_V @ s)"
proof -
  let ?l = "'' '' @ BOX_V @ s"
  have "has_sub BOX_V ?l" by (rule has_sub_append)
  moreover have "py_strip ?l \<noteq> []" by (intro py_strip_ne) (auto simp: BOX_V_def)
  ultimately show ?thesis by (auto simp: section_over_def Let_def)
qed

lemma scan_devices:
  "list_all plain_device ds \<Longrightarrow>
   wpctl_scan ''Sinks:'' sources True (map device_line ds @ ls) devices = wpctl_scan ''Sinks:'' sources True ls (noted sources devices (map dev_name ds))"
proof (induction ds arbitrary: devices)
  case (Cons d ds)
  have "\<not> has_sub ''Sinks:'' (py_strip (device_line d))" using Cons.prems has_sub_strip by (auto simp: plain_device_def)
  moreover have "\<not> section_over (device_line d)" by (cases d) (simp only: device_line_def prod.case in_tree not_False_eq_True)
  moreover have "DOT \<in> set (device_line d)" by (cases d) (simp add: device_line_def)
  ultimately show ?case using Cons by (simp add: wpctl_name_device noted_def)
qed (simp add: noted_def)

lemma scan_empty [simp]: "wpctl_scan ''Sinks:'' sources True ([] # ls) devices = Inr devices"
  by (simp add: section_over_def py_strip_def)

lemma scan_heads:
  "wpctl_scan ''Sinks:'' sources seen (header_line ''Sinks:'' # ls) devices = wpctl_scan ''Sinks:'' sources True ls devices"
  "wpctl_scan ''Sinks:'' sources True (gap_line # ls) devices = wpctl_scan ''Sinks:'' sources True ls devices"
  "wpctl_scan ''Sinks:'' sources True (header_line ''Sources:'' # ls) devices = wpctl_scan ''Sinks:'' sources True ls devices"
proof -
  have "has_sub ''Sinks:'' (py_strip (header_line ''Sinks:''))" by code_simp
  then show "wpctl_scan ''Sinks:'' sources seen (header_line ''Sinks:'' # ls) devices = wpctl_scan ''Sinks:'' sources True ls devices"
    by simp
  have "\<not> has_sub ''Sinks:'' (py_strip gap_line)" "\<not> section_over gap_line" "DOT \<notin> set gap_line"
    "\<not> has_sub ''Sinks:'' (py_strip (header_line ''Sources:''))" "\<not> section_over (header_line ''Sources:'')" "DOT \<notin> set (header_line ''Sources:'')"
    by code_simp+
  then show "wpctl_scan ''Sinks:'' sources True (gap_line # ls) devices = wpctl_scan ''Sinks:'' sources True ls devices"
    "wpctl_scan ''Sinks:'' sources True (header_line ''Sources:'' # ls) devices = wpctl_scan ''Sinks:'' sources True ls devices"
    by simp_all
qed

definition wpctl_text :: "(nat \<times> string \<times> string) list \<Rightarrow> (nat \<times> string \<times> string) list \<Rightarrow> string list \<Rightarrow> string" where
  "wpctl_text sinks sources others = concat (map (\<lambda>l. l @ [LF])
     (''Audio'' # header_line ''Sinks:'' # map device_line sinks @ gap_line # header_line ''Sources:'' # map device_line sources @ gap_line # [] # others))"

text \<open>\<^verbatim>\<open>wpctl status\<close> draws its sections as one tree, and the scan for sinks ends only at a line without tree characters: it takes the
  sources for sinks as well, and of every name it takes the first word.\<close>

theorem wpctl_sinks_hold_sources:
  assumes "list_all plain_device (sinks @ sources)" "list_all (list_all (\<lambda>c. \<not> line_end c)) others"
  shows "enum_wpctl False (Inr (wpctl_text sinks sources others)) = noted False [''default''] (map dev_name (sinks @ sources))"
proof -
  have dl: "list_all (list_all (\<lambda>c. \<not> line_end c)) (map device_line ds)" if "list_all plain_device ds" for ds
    using that by (auto simp: list_all_iff plain_device_def)
  have fixed: "list_all (\<lambda>c. \<not> line_end c) ''Audio''" "list_all (\<lambda>c. \<not> line_end c) (header_line ''Sinks:'')" "list_all (\<lambda>c. \<not> line_end c) gap_line"
    "list_all (\<lambda>c. \<not> line_end c) (header_line ''Sources:'')"
    by code_simp+
  have lines: "splitlines (wpctl_text sinks sources others) =
     ''Audio'' # header_line ''Sinks:'' # map device_line sinks @ gap_line # header_line ''Sources:'' # map device_line sources @ gap_line # [] # others"
    unfolding wpctl_text_def
    by (rule splitlines_lines) (use assms dl [of sinks] dl [of sources] fixed in simp)
  have audio: "\<not> has_sub ''Sinks:'' (py_strip ''Audio'')" by code_simp
  have "list_all plain_device sinks" "list_all plain_device sources" using assms(1) by simp_all
  then have "wpctl_scan ''Sinks:'' False False (splitlines (wpctl_text sinks sources others)) [''default''] =
      Inr (noted False [''default''] (map dev_name (sinks @ sources)))"
    unfolding lines by (simp add: audio scan_heads scan_devices del: wpctl_scan.simps(2) add: wpctl_scan.simps(2) [of _ _ False "''Audio''"]) (simp add: noted_def)
  then show ?thesis by (simp add: enum_wpctl_def or_default_def)
qed

section \<open>The fallback\<close>

lemma note_prefix: "\<exists>more. note_device sources n ds = ds @ more"
  by (simp add: note_device_def)

lemma note_distinct: "distinct ds \<Longrightarrow> distinct (note_device sources n ds)"
  by (simp add: note_device_def)

lemma noted_fresh:
  "distinct (ds @ names) \<Longrightarrow> [] \<notin> set names \<Longrightarrow>
   noted sources ds names = ds @ filter (\<lambda>n. \<not> (sources \<and> has_sub ''.monitor'' n)) names"
proof (induction names arbitrary: ds)
  case (Cons n names)
  have "noted sources ds (n # names) = noted sources (note_device sources n ds) names" by (simp add: noted_def)
  also have "\<dots> = note_device sources n ds @ filter (\<lambda>n. \<not> (sources \<and> has_sub ''.monitor'' n)) names"
    by (rule Cons.IH) (use Cons.prems in \<open>auto simp: note_device_def\<close>)
  finally show ?case using Cons.prems by (auto simp: note_device_def)
qed (simp add: noted_def)

definition pactl_row :: "nat \<times> string \<times> string \<Rightarrow> string" where
  "pactl_row d = (case d of (i, name, rest) \<Rightarrow> str_of_nat i @ TAB # name @ TAB # rest)"

lemma split_char: "c \<notin> set w \<Longrightarrow> split_acc [c] acc (w @ c # s) = (rev acc @ w) # split_acc [c] [] s"
proof (induction w arbitrary: acc)
  case Nil
  then show ?case by (simp add: split_acc.simps [of _ acc] starts_def)
next
  case (Cons x w)
  have "split_acc [c] acc ((x # w) @ c # s) = split_acc [c] (x # acc) (w @ c # s)"
    using Cons.prems by (auto simp: split_acc.simps [of _ acc] starts_def)
  then show ?case using Cons by simp
qed

lemma tab_digits: "TAB \<notin> set (str_of_nat i)"
  using str_of_nat_digits [of i] by (auto simp: TAB_def is_digit_def)

lemma pactl_rows:
  "list_all (\<lambda>d. list_all (\<lambda>c. \<not> u_space c) (dev_name d)) ds \<Longrightarrow>
   pactl_scan sources (map pactl_row ds) devices = noted sources devices (map dev_name ds)"
proof (induction ds arbitrary: devices)
  case (Cons d ds)
  obtain i name rest where d: "d = (i, name, rest)" by (metis prod.exhaust)
  have name: "\<forall>c \<in> set name. \<not> u_space c" using Cons.prems by (simp add: d dev_name_def list_all_iff)
  then have "TAB \<notin> set name" by (auto simp: TAB_def u_space_def)
  then have "py_split [TAB] (pactl_row d) = str_of_nat i # name # split_acc [TAB] [] rest"
    by (simp add: py_split_def pactl_row_def d split_char tab_digits)
  moreover have "py_strip name = name" using name by (rule py_strip_id)
  ultimately show ?case using Cons by (simp add: noted_def d dev_name_def)
qed (simp add: noted_def)

text \<open>Without \<^verbatim>\<open>wpctl\<close> the devices are the ones \<^verbatim>\<open>pactl\<close> lists, under their names, in order, behind the default; of the sources
  the monitors are left out.\<close>

theorem pactl_devices_listed:
  assumes "wp_sinks t = Inl x" "wp_sources t = Inl y" "pa_sinks t = Inr (concat (map (\<lambda>d. pactl_row d @ [LF]) sinks))"
    "pa_sources t = Inr (concat (map (\<lambda>d. pactl_row d @ [LF]) sources))"
    and "list_all (\<lambda>d. list_all (\<lambda>c. \<not> u_space c) (dev_name d) \<and> dev_name d \<noteq> [] \<and> list_all (\<lambda>c. \<not> line_end c) (pactl_row d)) (sinks @ sources)"
    and "distinct (''default'' # map dev_name sinks)" "distinct (''default'' # map dev_name sources)"
  shows "enumerate_sinks t = ''default'' # map dev_name sinks \<and>
    enumerate_sources t = ''default'' # filter (\<lambda>n. \<not> has_sub ''.monitor'' n) (map dev_name sources)"
proof -
  have *: "enum_pactl b (Inr (concat (map (\<lambda>d. pactl_row d @ [LF]) ds))) =
      ''default'' # filter (\<lambda>n. \<not> (b \<and> has_sub ''.monitor'' n)) (map dev_name ds)"
    if d: "distinct (''default'' # map dev_name ds)"
      and l: "list_all (\<lambda>d. list_all (\<lambda>c. \<not> u_space c) (dev_name d) \<and> dev_name d \<noteq> [] \<and> list_all (\<lambda>c. \<not> line_end c) (pactl_row d)) ds" for b ds
  proof -
    have "splitlines (concat (map (\<lambda>d. pactl_row d @ [LF]) ds)) = map pactl_row ds"
      using splitlines_lines [of "map pactl_row ds"] l by (simp add: list_all_iff comp_def)
    moreover have "pactl_scan b (map pactl_row ds) [''default''] = noted b [''default''] (map dev_name ds)"
      by (rule pactl_rows) (use l in \<open>simp add: list_all_iff\<close>)
    moreover have "noted b [''default''] (map dev_name ds) = [''default''] @ filter (\<lambda>n. \<not> (b \<and> has_sub ''.monitor'' n)) (map dev_name ds)"
      by (rule noted_fresh) (use d l in \<open>auto simp: list_all_iff\<close>)
    ultimately show ?thesis by (simp add: enum_pactl_def or_default_def)
  qed
  have "list_all (\<lambda>d. list_all (\<lambda>c. \<not> u_space c) (dev_name d) \<and> dev_name d \<noteq> [] \<and> list_all (\<lambda>c. \<not> line_end c) (pactl_row d)) sinks"
    "list_all (\<lambda>d. list_all (\<lambda>c. \<not> u_space c) (dev_name d) \<and> dev_name d \<noteq> [] \<and> list_all (\<lambda>c. \<not> line_end c) (pactl_row d)) sources"
    using assms(5) by simp_all
  from * [OF assms(6) this(1)] * [OF assms(7) this(2)] show ?thesis
    using assms(1-4) by (simp add: enumerate_sinks_def enumerate_sources_def enum_wpctl_def or_default_def Let_def)
qed

definition demo_tools :: tool_out where
  "demo_tools = \<lparr>wp_sinks = Inl OSError, pa_sinks = Inr (''0'' @ [TAB] @ ''alsa.pci'' @ [TAB] @ ''s16le'' @ [LF]),
     wp_sources = Inl OSError, pa_sources = Inr (''1'' @ [TAB] @ ''alsa.pci.monitor'' @ [TAB] @ ''s16le'' @ [LF] @ ''2'' @ [TAB] @ ''mic'' @ [TAB] @ [LF])\<rparr>"

theorem pactl_devices_listed_witness:
  "enumerate_sinks demo_tools = [''default'', ''alsa.pci''] \<and> enumerate_sources demo_tools = [''default'', ''mic'']"
proof -
  let ?sinks = "[(0 :: nat, ''alsa.pci'', ''s16le'')]" and ?sources = "[(1 :: nat, ''alsa.pci.monitor'', ''s16le''), (2, ''mic'', [])]"
  have f: "filter (\<lambda>n. \<not> has_sub ''.monitor'' n) (map dev_name ?sources) = [''mic'']" by code_simp
  have "enumerate_sinks demo_tools = ''default'' # map dev_name ?sinks \<and>
    enumerate_sources demo_tools = ''default'' # filter (\<lambda>n. \<not> has_sub ''.monitor'' n) (map dev_name ?sources)"
    by (rule pactl_devices_listed) code_simp+
  then show ?thesis unfolding f by (simp add: dev_name_def)
qed

theorem wpctl_sinks_hold_sources_witness:
  "enum_wpctl False (Inr (wpctl_text [(53, ''Built-in'', ''Audio Analog Stereo'')] [(54, ''USB'', ''Microphone'')] [''Video''])) =
   [''default'', ''Built-in'', ''USB'']"
proof -
  have "noted False [''default''] (map dev_name ([(53, ''Built-in'', ''Audio Analog Stereo'')] @ [(54, ''USB'', ''Microphone'')])) =
      [''default'', ''Built-in'', ''USB'']"
    by code_simp
  moreover have "list_all plain_device ([(53, ''Built-in'', ''Audio Analog Stereo'')] @ [(54, ''USB'', ''Microphone'')])"
    "list_all (list_all (\<lambda>c. \<not> line_end c)) [''Video'']"
    by code_simp+
  ultimately show ?thesis using wpctl_sinks_hold_sources by metis
qed

section \<open>The schema follows the devices\<close>

definition device_list_ok :: "string list \<Rightarrow> bool" where
  "device_list_ok ds \<longleftrightarrow> distinct ds \<and> ''default'' \<in> set ds"

lemma note_ok: "device_list_ok ds \<Longrightarrow> device_list_ok (note_device sources n ds)"
  by (auto simp: device_list_ok_def note_device_def)

lemma wpctl_scan_ok: "device_list_ok ds \<Longrightarrow> wpctl_scan h sources seen ls ds = Inr ds' \<Longrightarrow> device_list_ok ds'"
proof (induction ls arbitrary: seen ds)
  case (Cons line ls)
  show ?case
  proof (cases "wpctl_name line")
    case (Inr n)
    have "device_list_ok (note_device sources n ds)" using Cons.prems(1) by (rule note_ok)
    then show ?thesis using Cons Inr by (simp split: if_splits)
  qed (use Cons in \<open>simp split: if_splits\<close>)
qed simp

lemma pactl_scan_ok: "device_list_ok ds \<Longrightarrow> device_list_ok (pactl_scan sources ls ds)"
  by (induction ls arbitrary: ds) (simp_all add: note_ok split: list.split)

lemma default_ok: "device_list_ok [''default'']"
  by (simp add: device_list_ok_def)

lemma enumerate_ok: "device_list_ok (enumerate_sinks t)" "device_list_ok (enumerate_sources t)"
proof -
  have "device_list_ok (enum_wpctl b r)" "device_list_ok (enum_pactl b r)" for b r
    using default_ok wpctl_scan_ok [OF default_ok] pactl_scan_ok [OF default_ok]
    by (cases r; auto simp: enum_wpctl_def enum_pactl_def or_default_def split: sum.splits)+
  then show "device_list_ok (enumerate_sinks t)" "device_list_ok (enumerate_sources t)"
    by (simp_all add: enumerate_sinks_def enumerate_sources_def Let_def)
qed

definition audio_inv :: "audio_mgr \<Rightarrow> bool" where
  "audio_inv s \<longleftrightarrow> device_list_ok (am_sinks s) \<and> device_list_ok (am_sources s) \<and> am_schema s = device_schema (am_sinks s) (am_sources s)"

lemma volume_fields [simp]:
  "audio_inv (run_volume cmd s) = audio_inv s" "audio_inv (snd (set_channel_volume T short verbose ok ch v s)) = audio_inv s"
  "audio_inv (s\<lparr>am_config := c\<rparr>) = audio_inv s" "audio_inv (s\<lparr>am_stop := b\<rparr>) = audio_inv s" "audio_inv (s\<lparr>am_polls := n\<rparr>) = audio_inv s"
  "audio_inv (s\<lparr>am_udevs := n\<rparr>) = audio_inv s"
  by (auto simp: audio_inv_def set_channel_volume_def run_volume_def split: option.split)

lemma refresh_inv: "audio_inv (fst (refresh_devices p t s))"
  by (simp add: refresh_devices_def Let_def audio_inv_def enumerate_ok)

lemma config_inv: "audio_inv s \<Longrightarrow> audio_inv (fst (snd (am_config_loaded T ok c s)))"
  "audio_inv s \<Longrightarrow> audio_inv (fst (snd (am_config_changed T short verbose ok k v s)))"
  by (simp_all add: am_config_loaded_def am_config_changed_def set_global_volume_def eff_ok_def eff_res_def Let_def split: sum.split)

lemma volume_inv: "audio_inv s \<Longrightarrow> audio_inv (fst (snd (on_audio_volume_set T ok p s)))"
  "audio_inv s \<Longrightarrow> audio_inv (fst (snd (on_audio_channel_volume_set T short verbose ok p s)))"
  by (simp_all add: on_audio_volume_set_def on_audio_channel_volume_set_def set_global_volume_def eff_ok_def Let_def)

lemma start_inv: "audio_inv s \<Longrightarrow> audio_inv (fst (snd (audio_system_start t p s)))"
  using refresh_inv [of True t s] by (auto simp add: audio_system_start_def eff_ok_def eff_res_def eff_then_def Let_def split: prod.split sum.split)

lemma thread_inv: "audio_inv s \<Longrightarrow> audio_inv (fst (poll_wakes t s))" "audio_inv s \<Longrightarrow> audio_inv (fst (udev_event t action s))"
  by (simp_all add: poll_wakes_def udev_event_def refresh_inv)

lemma am_step_inv: "audio_inv s \<Longrightarrow> audio_inv (fst (am_step T s e))"
  by (cases e) (simp_all add: am_step_def config_inv volume_inv start_inv thread_inv audio_system_stop_def eff_ok_def)

interpretation audm: event_machine "am_step T" audio_inv "\<lambda>_. True" for T
  by unfold_locales (simp_all add: am_step_inv)

lemma new_audio_mgr_inv: "audio_inv new_audio_mgr"
  by (simp add: audio_inv_def new_audio_mgr_def default_ok)

lemma device_schema_wf: "device_list_ok sinks \<Longrightarrow> device_list_ok sources \<Longrightarrow> schema_wf (device_schema sinks sources)"
  by (auto simp: schema_wf_def device_schema_def device_list_ok_def field_enum_def)

text \<open>The tools are asked by the start of the module's own priority, by an interval of the polling thread that ends while the
  module is not stopped, and by an event of udev that adds, removes or changes a device.\<close>

fun refresh_tools :: "audio_mgr \<Rightarrow> am_event \<Rightarrow> tool_out option" where
  "refresh_tools s (AmStart O' p) = (if py_eq_int (dget p ''priority'') 1 then Some O' else None)"
| "refresh_tools s (AmPoll O') =
     (if am_polls s > 0 \<and> can_wait (dget_or (am_config s) ''poll_interval_s'' (PInt 30)) \<and> \<not> am_stop s then Some O' else None)"
| "refresh_tools s (AmUdev O' action) =
     (if am_udevs s > 0 \<and> \<not> am_stop s \<and> action \<in> {''add'', ''remove'', ''change''} then Some O' else None)"
| "refresh_tools s _ = None"

fun latest_tools :: "py_text \<Rightarrow> audio_mgr \<Rightarrow> tool_out option \<Rightarrow> am_event list \<Rightarrow> tool_out option" where
  "latest_tools T s t [] = t"
| "latest_tools T s t (e # es) =
     latest_tools T (fst (am_step T s e)) (case refresh_tools s e of None \<Rightarrow> t | Some t' \<Rightarrow> Some t') es"

definition sinks_of :: "tool_out option \<Rightarrow> string list" where
  "sinks_of t = (case t of None \<Rightarrow> [''default''] | Some t \<Rightarrow> enumerate_sinks t)"

definition sources_of :: "tool_out option \<Rightarrow> string list" where
  "sources_of t = (case t of None \<Rightarrow> [''default''] | Some t \<Rightarrow> enumerate_sources t)"

definition announced :: "string \<Rightarrow> busmsg list \<Rightarrow> busmsg list" where
  "announced kind ms = filter (\<lambda>m. fst m = ''audio.'' @ kind @ ''.list'') ms"

lemma announced_simps [simp]:
  "announced kind [] = []" "announced kind (ms @ ms') = announced kind ms @ announced kind ms'"
  "announced kind (m # ms) = (if fst m = ''audio.'' @ kind @ ''.list'' then m # announced kind ms else announced kind ms)"
  by (simp_all add: announced_def)

lemma refresh_lists:
  "am_sinks (fst (refresh_devices p t s)) = enumerate_sinks t" "am_sources (fst (refresh_devices p t s)) = enumerate_sources t"
  "announced ''sinks'' (snd (refresh_devices p t s)) =
     (if p \<or> enumerate_sinks t \<noteq> am_sinks s \<or> enumerate_sources t \<noteq> am_sources s then [device_list ''sinks'' (enumerate_sinks t)] else [])"
  "announced ''sources'' (snd (refresh_devices p t s)) =
     (if p \<or> enumerate_sinks t \<noteq> am_sinks s \<or> enumerate_sources t \<noteq> am_sources s then [device_list ''sources'' (enumerate_sources t)] else [])"
  by (simp_all add: refresh_devices_def Let_def device_list_def selected_def)

text \<open>Of one event: the lists are the ones of the tools it asked, and are announced if they changed.\<close>

definition lists_follow :: "audio_mgr \<Rightarrow> tool_out option \<Rightarrow> audio_mgr \<times> busmsg list \<Rightarrow> bool" where
  "lists_follow s t r \<longleftrightarrow>
     am_sinks (fst r) = (case t of None \<Rightarrow> am_sinks s | Some t \<Rightarrow> enumerate_sinks t) \<and>
     am_sources (fst r) = (case t of None \<Rightarrow> am_sources s | Some t \<Rightarrow> enumerate_sources t) \<and>
     last (device_list ''sinks'' (am_sinks s) # announced ''sinks'' (snd r)) = device_list ''sinks'' (am_sinks (fst r)) \<and>
     last (device_list ''sources'' (am_sources s) # announced ''sources'' (snd r)) = device_list ''sources'' (am_sources (fst r))"

lemma volume_lists:
  "am_sinks (run_volume cmd s) = am_sinks s" "am_sources (run_volume cmd s) = am_sources s"
  "am_sinks (snd (set_channel_volume T short verbose ok ch v s)) = am_sinks s"
  "am_sources (snd (set_channel_volume T short verbose ok ch v s)) = am_sources s"
  "am_sinks (snd (set_global_volume T ok w s)) = am_sinks s" "am_sources (snd (set_global_volume T ok w s)) = am_sources s"
  by (auto simp: set_channel_volume_def set_global_volume_def run_volume_def split: option.split)

lemma config_lists:
  "lists_follow s None (snd (am_config_loaded T ok c s))" "lists_follow s None (snd (am_config_changed T short verbose ok k v s))"
  "lists_follow s None (snd (on_audio_volume_set T ok p s))" "lists_follow s None (snd (on_audio_channel_volume_set T short verbose ok p s))"
  by (auto simp: lists_follow_def am_config_loaded_def am_config_changed_def on_audio_volume_set_def on_audio_channel_volume_set_def
      eff_ok_def eff_res_def selected_def volume_changed_def audio_ready_def volume_lists Let_def split: sum.split prod.split)
    (auto simp: set_global_volume_def run_volume_def)

lemma client_get_topic: "client_get m s r = Inr msg \<Longrightarrow> fst msg = ''config.get''"
  by (auto simp: client_get_def rbind_def split: sum.splits option.splits)

lemma start_lists: "py_eq_int (dget p ''priority'') 1 \<Longrightarrow> lists_follow s (Some t) (snd (audio_system_start t p s))"
  using refresh_lists [of True t s] client_get_topic
  by (auto simp: lists_follow_def audio_system_start_def eff_ok_def eff_res_def eff_then_def Let_def split: prod.split sum.split)

lemma am_step_lists: "lists_follow s (refresh_tools s e) (am_step T s e)"
proof (cases e)
  case (AmStart t p)
  then show ?thesis using start_lists [of p s t] by (simp add: am_step_def) (simp add: audio_system_start_def eff_ok_def lists_follow_def)
next
  case (AmPoll t)
  then show ?thesis by (simp add: am_step_def poll_wakes_def lists_follow_def refresh_lists)
next
  case (AmUdev t a)
  then show ?thesis by (simp add: am_step_def udev_event_def lists_follow_def refresh_lists)
qed (simp_all add: am_step_def config_lists, simp add: audio_system_stop_def eff_ok_def lists_follow_def)

lemma last_after: "last (a # xs) = b \<Longrightarrow> last (a # xs @ ys) = last (b # ys)"
  by (cases ys) auto

lemma run_lists:
  assumes "am_sinks s = sinks_of t" "am_sources s = sources_of t"
  shows "let (s', ms) = run_events (am_step T) s es; t' = latest_tools T s t es in
    am_sinks s' = sinks_of t' \<and> am_sources s' = sources_of t' \<and>
    last (device_list ''sinks'' (am_sinks s) # announced ''sinks'' ms) = device_list ''sinks'' (am_sinks s') \<and>
    last (device_list ''sources'' (am_sources s) # announced ''sources'' ms) = device_list ''sources'' (am_sources s')"
  using assms
proof (induction es arbitrary: s t)
  case (Cons e es)
  obtain s1 ms1 where st: "am_step T s e = (s1, ms1)" by (cases "am_step T s e")
  obtain s2 ms2 where r: "run_events (am_step T) s1 es = (s2, ms2)" by (cases "run_events (am_step T) s1 es")
  let ?t = "case refresh_tools s e of None \<Rightarrow> t | Some t' \<Rightarrow> Some t'"
  have step: "lists_follow s (refresh_tools s e) (s1, ms1)" using am_step_lists [of s e T] by (simp add: st)
  then have "am_sinks s1 = sinks_of ?t" "am_sources s1 = sources_of ?t"
    using Cons.prems by (auto simp: lists_follow_def sinks_of_def sources_of_def split: option.splits)
  from Cons.IH [OF this] step show ?case
    by (simp add: st r lists_follow_def Let_def last_after del: last.simps announced_simps(3))
qed simp

text \<open>C28 After any run the module's own schema (\<^verbatim>\<open>_schema\<close>, against which it merges and checks its configuration) is well-formed
  and offers, for \<^verbatim>\<open>sink\<close> and \<^verbatim>\<open>source\<close>, exactly the devices that the tools listed when they were asked last (at the start, by the
  polling thread or after a udev event; the default alone before that), without repetition and with the default among them.
  The last announcement on the bus names the same devices. A refresh is one step here: the bus, polling and udev threads
  share no lock, and refreshes that overlap are left out. What \<^verbatim>\<open>config_manager\<close> holds is the schema of the start:
  \<open>schema_registered_at_start\<close>.\<close>

theorem schema_lists_devices:
  shows "let (s, ms) = run_events (am_step T) new_audio_mgr es; t = latest_tools T new_audio_mgr None es;
      choice = (\<lambda>ds. Some (NScalar \<lparr>sc_type = PStr ''enum'', sc_default = PStr ''default'', sc_min = PNone, sc_max = PNone,
        sc_choices = PList (map PStr ds)\<rparr>)) in
    schema_wf (am_schema s) \<and>
    map_of (am_schema s) ''sink'' = choice (sinks_of t) \<and> map_of (am_schema s) ''source'' = choice (sources_of t) \<and>
    distinct (sinks_of t) \<and> ''default'' \<in> set (sinks_of t) \<and> distinct (sources_of t) \<and> ''default'' \<in> set (sources_of t) \<and>
    last (device_list ''sinks'' [''default''] # announced ''sinks'' ms) = device_list ''sinks'' (sinks_of t) \<and>
    last (device_list ''sources'' [''default''] # announced ''sources'' ms) = device_list ''sources'' (sources_of t)"
proof -
  obtain s ms where r: "run_events (am_step T) new_audio_mgr es = (s, ms)" by (cases "run_events (am_step T) new_audio_mgr es")
  let ?t = "latest_tools T new_audio_mgr None es"
  have "audio_inv s" using audm.run_inv [OF new_audio_mgr_inv, of T es] by (simp add: r)
  then have i: "device_list_ok (am_sinks s)" "device_list_ok (am_sources s)" "am_schema s = device_schema (am_sinks s) (am_sources s)"
    by (simp_all add: audio_inv_def)
  have new: "am_sinks new_audio_mgr = sinks_of None" "am_sources new_audio_mgr = sources_of None"
    by (simp_all add: new_audio_mgr_def sinks_of_def sources_of_def)
  have l: "am_sinks s = sinks_of ?t" "am_sources s = sources_of ?t"
    "last (device_list ''sinks'' [''default''] # announced ''sinks'' ms) = device_list ''sinks'' (am_sinks s)"
    "last (device_list ''sources'' [''default''] # announced ''sources'' ms) = device_list ''sources'' (am_sources s)"
    using run_lists [OF new, of T es] unfolding r Let_def prod.case unfolding new by (simp_all add: sinks_of_def [of None] sources_of_def [of None])
  have ne: "am_sinks s \<noteq> []" "am_sources s \<noteq> []" using i by (auto simp: device_list_ok_def)
  have d: "distinct (am_sinks s)" "''default'' \<in> set (am_sinks s)" "distinct (am_sources s)" "''default'' \<in> set (am_sources s)"
    using i by (simp_all add: device_list_ok_def)
  have "map_of (am_schema s) ''sink'' = Some (NScalar \<lparr>sc_type = PStr ''enum'', sc_default = PStr ''default'', sc_min = PNone, sc_max = PNone,
        sc_choices = PList (map PStr (am_sinks s))\<rparr>)"
    "map_of (am_schema s) ''source'' = Some (NScalar \<lparr>sc_type = PStr ''enum'', sc_default = PStr ''default'', sc_min = PNone, sc_max = PNone,
        sc_choices = PList (map PStr (am_sources s))\<rparr>)"
    using ne d unfolding i(3) by (simp_all add: device_schema_def field_enum_def)
  then show ?thesis
    using device_schema_wf [OF i(1,2)] d l(3,4) unfolding r Let_def prod.case i(3) [symmetric] l(1,2) [symmetric]
    by (intro conjI)
qed

text \<open>Only the start sends a schema to \<^verbatim>\<open>config_manager\<close>: after a device appeared or went, its choices are the old ones.\<close>

lemma refresh_registers_nothing: "''config.get'' \<notin> fst ` set (snd (refresh_devices p t s))"
  by (auto simp: refresh_devices_def device_list_def selected_def Let_def)

theorem schema_registered_at_start:
  "''config.get'' \<notin> fst ` set (snd (poll_wakes t s)) \<and> ''config.get'' \<notin> fst ` set (snd (udev_event t action s))"
  by (simp add: poll_wakes_def udev_event_def refresh_registers_nothing)

text \<open>Whatever the tools answer, a refresh ends with the announcement of a sink and a source that are among the listed ones; the
  configuration then holds exactly these, and its other keys are as before.\<close>

theorem selection_available:
  "let (s', ms) = refresh_devices p t s in
   \<exists>lists sink source. ms = lists @ [selected ''sink'' sink, selected ''source'' source] \<and>
     sink \<in> set (map PStr (am_sinks s')) \<and> source \<in> set (map PStr (am_sources s')) \<and>
     dget_or (am_config s') ''sink'' (PStr ''default'') = sink \<and> dget_or (am_config s') ''source'' (PStr ''default'') = source \<and>
     map_of (am_config s') |` (- {''sink'', ''source''}) = map_of (am_config s) |` (- {''sink'', ''source''})"
proof -
  have d: "''default'' \<in> set (enumerate_sinks t)" "''default'' \<in> set (enumerate_sources t)"
    using enumerate_ok [of t] by (simp_all add: device_list_ok_def)
  have r: "available ds (dget_or (revalidate k ds c) k (PStr ''default''))" if "''default'' \<in> set ds" for k ds c
    using that by (auto simp: revalidate_def available_def dget_or_def map_of_dset)
  have o': "k' \<noteq> k \<Longrightarrow> map_of (revalidate k ds c) k' = map_of c k'" for k k' ds c
    by (simp add: revalidate_def map_of_dset)
  have "dget_or (revalidate ''source'' ds c) ''sink'' x = dget_or c ''sink'' x" for ds c x
    by (simp add: dget_or_def o')
  then show ?thesis
    using r [OF d(1)] r [OF d(2)] by (simp add: refresh_devices_def Let_def available_def) (simp add: restrict_map_def o' fun_eq_iff)
qed

end
