(* ===== verification/VideoUi.thy ===== *)
theory VideoUi
  imports VideoChannel PyText
begin

text \<open>
  \<^verbatim>\<open>v2/modules/video_ui/main.py\<close>: the choice of a decoder and the text of the pipeline, the state of the connection shown,
  and the way of a picture from the bus to the source of the pipeline. Bus handlers run on their own thread and only queue calls of
  the window's slots, which Qt runs later, first in first out; the decoder calls back on a thread of its own.
  GStreamer is a parameter; widgets, shaders and the clock are left out. Text beyond ASCII is its UTF-8 bytes.
\<close>

section \<open>The pipeline\<close>

text \<open>GStreamer: whether it could be imported, whether an element is found once these paths were scanned, whether a path
  exists, and whether a description parses.\<close>

record gst_env =
  ge_available :: bool
  ge_find :: "string list \<Rightarrow> string \<Rightarrow> bool"
  ge_exists :: "string \<Rightarrow> bool"
  ge_parses :: "string \<Rightarrow> bool"

definition DECODER_CANDIDATES :: "string list" where
  "DECODER_CANDIDATES = [''vaapih264dec'', ''vah264dec'', ''openh264dec'', ''avdec_h264'']"

definition SYSTEM_GST_PLUGIN_PATHS :: "string list" where
  "SYSTEM_GST_PLUGIN_PATHS =
     [''/usr/lib/x86_64-linux-gnu/gstreamer-1.0'', ''/usr/lib/aarch64-linux-gnu/gstreamer-1.0'',
      ''/usr/lib/arm-linux-gnueabihf/gstreamer-1.0'', ''/usr/lib/i386-linux-gnu/gstreamer-1.0'']"

definition LEAKY_QUEUE_BUFFERS :: nat where "LEAKY_QUEUE_BUFFERS = 8"
definition FRAME_DURATION_NS :: nat where "FRAME_DURATION_NS = 1000000000 div 30"

text \<open>The loop over the paths: the paths scanned in the end, and the one that brought the decoder.\<close>

fun scan_paths :: "gst_env \<Rightarrow> string list \<Rightarrow> string list \<Rightarrow> string list \<times> string option" where
  "scan_paths G scanned [] = (scanned, None)"
| "scan_paths G scanned (p # ps) =
     (if \<not> ge_exists G p then scan_paths G scanned ps
      else if ge_find G (scanned @ [p]) ''vaapih264dec'' then (scanned @ [p], Some p)
      else scan_paths G (scanned @ [p]) ps)"

definition try_load_system_vaapi :: "gst_env \<Rightarrow> string list \<times> string option" where
  "try_load_system_vaapi G =
     (if \<not> ge_available G then ([], None)
      else if ge_find G [] ''vaapih264dec'' then ([], Some ''(conda env)'')
      else scan_paths G [] SYSTEM_GST_PLUGIN_PATHS)"

definition pipeline_desc :: "string \<Rightarrow> string \<Rightarrow> string" where
  "pipeline_desc chosen fmt =
     ''appsrc name=src is-live=true format=time '' @ ''caps=video/x-h264,stream-format=byte-stream,alignment=au '' @
     ''! h264parse config-interval=-1 '' @ ''! queue name=predec leaky=downstream '' @
     ''    max-size-buffers='' @ str_of_nat LEAKY_QUEUE_BUFFERS @ '' '' @ ''    max-size-time=0 max-size-bytes=0 '' @
     ''! '' @ chosen @ '' '' @ ''! videoconvert '' @ ''! video/x-raw,format='' @ fmt @ '' '' @
     ''! appsink name=sink emit-signals=true sync=false '' @ ''    max-buffers=4 drop=false''"

text \<open>The description of the pipeline, if there is one, and the format.\<close>

definition build_pipeline :: "gst_env \<Rightarrow> bool \<Rightarrow> (string \<times> string) option" where
  "build_pipeline G use_gl =
     (if \<not> ge_available G then None
      else (let fmt = (if use_gl then ''NV12'' else ''RGB''); scanned = fst (try_load_system_vaapi G) in
        case List.find (ge_find G scanned) DECODER_CANDIDATES of
          None \<Rightarrow> None
        | Some name \<Rightarrow> (let d = pipeline_desc name fmt in if ge_parses G d then Some (d, fmt) else None)))"

section \<open>The window\<close>

text \<open>
  A buffer handed to the entry of the pipeline by \<^verbatim>\<open>appsrc.emit("push-buffer")\<close>: its data, and presentation
  time and duration if it has them. The list \<open>vw_handed\<close> holds the buffers of all these calls. What becomes of
  them is GStreamer's: the source may refuse one (the code logs the result and goes on as if it had not), and
  the leaky queue before the decoder drops compressed frames when the decoder lags.
\<close>

type_synonym gst_buffer = "bytes \<times> (nat \<times> nat) option"

record widget =
  vw_fmt :: string
  vw_source :: bool
  vw_use_gl :: bool
  vw_first :: bool
  vw_pushed :: nat
  vw_decoded :: nat
  vw_pts :: nat
  vw_page :: nat
  vw_label :: "string \<times> string"
  vw_handed :: "gst_buffer list"
  vw_pixels :: "(bytes \<times> int \<times> int) option"

definition DOT_MARK :: string where "DOT_MARK = [CHR 0xE2, CHR 0x97, CHR 0x8F, CHR '' '', CHR '' '']"

definition STATE_LABELS :: "(string, string \<times> string) dict" where
  "STATE_LABELS =
     [(''WAITING_BT'', (''#e05252'', DOT_MARK @ ''In attesa di connessione BT'')), (''HANDSHAKE'', (''#e0b84a'', DOT_MARK @ ''Handshake AA in corso'')),
      (''STREAMING'', (''#4caf50'', DOT_MARK @ ''Stream attivo'')), (''INTERRUPTED'', (''#e05252'', DOT_MARK @ ''Stream interrotto''))]"

text \<open>The widget after its construction; \<open>gl_ok\<close> tells that PyOpenGL and numpy are there.\<close>

definition new_widget :: "gst_env \<Rightarrow> bool \<Rightarrow> widget" where
  "new_widget G gl_ok =
     (let w = \<lparr>vw_fmt = [], vw_source = False, vw_use_gl = False, vw_first = False, vw_pushed = 0, vw_decoded = 0, vw_pts = 0,
               vw_page = 0, vw_label = (''#e05252'', DOT_MARK @ ''In attesa di connessione BT''), vw_handed = [], vw_pixels = None\<rparr>
      in case build_pipeline G gl_ok of
           None \<Rightarrow> w
         | Some (d, fmt) \<Rightarrow> w\<lparr>vw_fmt := fmt, vw_source := True, vw_use_gl := (fmt = ''NV12'' \<and> gl_ok)\<rparr>)"

definition push_frame :: "string \<Rightarrow> bool \<Rightarrow> widget \<Rightarrow> widget" where
  "push_frame data_b64 is_config w =
     (if \<not> vw_source w then w
      else (case py_b64decode data_b64 of
          None \<Rightarrow> w
        | Some raw \<Rightarrow>
            (if is_config then w\<lparr>vw_handed := vw_handed w @ [(raw, None)], vw_pushed := Suc (vw_pushed w)\<rparr>
             else w\<lparr>vw_handed := vw_handed w @ [(raw, Some (vw_pts w * FRAME_DURATION_NS, FRAME_DURATION_NS))],
                    vw_pts := Suc (vw_pts w), vw_pushed := Suc (vw_pushed w)\<rparr>)))"

definition set_streaming :: "bool \<Rightarrow> widget \<Rightarrow> widget" where
  "set_streaming on w =
     (if on then w else w\<lparr>vw_first := False, vw_pts := 0\<rparr>)\<lparr>vw_page := (if on \<and> vw_fmt w \<noteq> [] then 1 else 0)\<rparr>"

datatype slot = PushFrame string bool | SetStreaming bool | SetConn string string | PushPixels bytes int int

fun run_slot :: "slot \<Rightarrow> widget \<Rightarrow> widget" where
  "run_slot (PushFrame d c) w = push_frame d c w"
| "run_slot (SetStreaming b) w = set_streaming b w"
| "run_slot (SetConn color t) w = w\<lparr>vw_label := (color, t)\<rparr>"
| "run_slot (PushPixels d x y) w = w\<lparr>vw_pixels := Some (d, x, y)\<rparr>"

text \<open>A decoded sample: none, or its size and its bytes if the buffer can be mapped.\<close>

definition on_new_sample :: "(int \<times> int \<times> bytes option) option \<Rightarrow> widget \<Rightarrow> widget \<times> slot list" where
  "on_new_sample sample w =
     (case sample of
        None \<Rightarrow> (w, [])
      | Some (width, height, None) \<Rightarrow> (w, [])
      | Some (width, height, Some frame) \<Rightarrow>
          (w\<lparr>vw_decoded := Suc (vw_decoded w), vw_first := True\<rparr>,
           (if vw_first w then [] else [SetStreaming True]) @ [PushPixels frame width height]))"

section \<open>The module\<close>

record video_ui =
  vu_conn :: string
  vu_window :: "widget option"
  vu_slots :: "slot list"

definition new_video_ui :: video_ui where
  "new_video_ui = \<lparr>vu_conn = ''WAITING_BT'', vu_window = None, vu_slots = []\<rparr>"

definition invoke :: "slot \<Rightarrow> video_ui \<Rightarrow> video_ui" where
  "invoke sl s = (if vu_window s = None then s else s\<lparr>vu_slots := vu_slots s @ [sl]\<rparr>)"

definition set_conn_state :: "string \<Rightarrow> video_ui \<Rightarrow> video_ui" where
  "set_conn_state new s =
     (let (color, t) = the (map_of STATE_LABELS new) in invoke (SetConn color t) (s\<lparr>vu_conn := new\<rparr>))"

definition on_video_frame :: "payload \<Rightarrow> video_ui \<Rightarrow> exn option \<times> video_ui" where
  "on_video_frame p s =
     (if vu_window s = None then (None, s)
      else (case dget_or p ''data_b64'' (PStr []) of
          PStr d \<Rightarrow> (None, invoke (PushFrame d (truthy (dget_or p ''is_config'' (PBool False)))) s)
        | _ \<Rightarrow> (Some TypeError, s)))"

definition on_video_state :: "payload \<Rightarrow> video_ui \<Rightarrow> video_ui" where
  "on_video_state p s =
     (let state = dget_or p ''state'' (PStr []) in
      if state = PStr ''PLAYING'' then set_conn_state ''STREAMING'' s
      else if state = PStr ''IDLE'' \<or> state = PStr ''STOPPED'' then
        invoke (SetStreaming False) (if vu_conn s = ''STREAMING'' then set_conn_state ''INTERRUPTED'' s else s)
      else s)"

definition ui_session_active :: "video_ui \<Rightarrow> video_ui" where
  "ui_session_active s = (if vu_conn s \<in> {''WAITING_BT'', ''HANDSHAKE''} then set_conn_state ''HANDSHAKE'' s else s)"

definition ui_session_shutdown :: "video_ui \<Rightarrow> video_ui" where
  "ui_session_shutdown s = invoke (SetStreaming False) (set_conn_state ''WAITING_BT'' s)"

definition on_bluetooth_pairing_completed :: "video_ui \<Rightarrow> video_ui" where
  "on_bluetooth_pairing_completed s = (if vu_conn s = ''WAITING_BT'' then set_conn_state ''HANDSHAKE'' s else s)"

definition video_ui_start :: "int \<Rightarrow> payload \<Rightarrow> video_ui \<Rightarrow> busmsg list" where
  "video_ui_start winid p s =
     (if \<not> py_eq_int (dget p ''priority'') 2 then []
      else (if vu_window s = None then [] else [(''video.ui.winid'', [(''winid'', PInt winid)])])
           @ [(''system.ready'', [(''name'', PStr ''video_ui''), (''priority'', PInt 2)])])"

datatype vu_event =
    VuStart int payload
  | VuWindow gst_env bool
  | VuFrame payload
  | VuState payload
  | VuActive
  | VuShutdown
  | VuPaired
  | QtTurn
  | NewSample "(int \<times> int \<times> bytes option) option"

definition qt_turn :: "video_ui \<Rightarrow> video_ui" where
  "qt_turn s =
     (case vu_slots s of [] \<Rightarrow> s | sl # sls \<Rightarrow> s\<lparr>vu_slots := sls, vu_window := map_option (run_slot sl) (vu_window s)\<rparr>)"

text \<open>The decoder calls back only when there is a pipeline, and its slots go to the window as well.\<close>

definition new_sample :: "(int \<times> int \<times> bytes option) option \<Rightarrow> video_ui \<Rightarrow> video_ui" where
  "new_sample sample s =
     (case vu_window s of
        None \<Rightarrow> s
      | Some w \<Rightarrow>
          (if \<not> vw_source w then s
           else (let (w', sls) = on_new_sample sample w in s\<lparr>vu_window := Some w', vu_slots := vu_slots s @ sls\<rparr>)))"

fun vu_step :: "video_ui \<Rightarrow> vu_event \<Rightarrow> video_ui \<times> busmsg list" where
  "vu_step s (VuStart winid p) = (s, video_ui_start winid p s)"
| "vu_step s (VuWindow G gl_ok) = (if vu_window s = None then s\<lparr>vu_window := Some (new_widget G gl_ok)\<rparr> else s, [])"
| "vu_step s (VuFrame p) = (snd (on_video_frame p s), [])"
| "vu_step s (VuState p) = (on_video_state p s, [])"
| "vu_step s VuActive = (ui_session_active s, [])"
| "vu_step s VuShutdown = (ui_session_shutdown s, [])"
| "vu_step s VuPaired = (on_bluetooth_pairing_completed s, [])"
| "vu_step s QtTurn = (qt_turn s, [])"
| "vu_step s (NewSample sample) = (new_sample sample s, [])"

section \<open>From the bus to the pipeline\<close>

text \<open>What the pipeline was handed, what waits for Qt, and what an event brings: data and the mark of a configuration frame.\<close>

definition handed_content :: "widget \<Rightarrow> (bytes \<times> bool) list" where
  "handed_content w = map (\<lambda>(raw, t). (raw, t = None)) (vw_handed w)"

fun slot_content :: "slot \<Rightarrow> (bytes \<times> bool) list" where
  "slot_content (PushFrame d c) = (case py_b64decode d of None \<Rightarrow> [] | Some raw \<Rightarrow> [(raw, c)])"
| "slot_content sl = []"

definition queued :: "video_ui \<Rightarrow> (bytes \<times> bool) list" where
  "queued s = concat (map slot_content (vu_slots s))"

fun delivered :: "vu_event \<Rightarrow> (bytes \<times> bool) list" where
  "delivered (VuFrame p) =
     (case dget_or p ''data_b64'' (PStr []) of
        PStr d \<Rightarrow> slot_content (PushFrame d (truthy (dget_or p ''is_config'' (PBool False)))) | _ \<Rightarrow> [])"
| "delivered e = []"

text \<open>The window is up with a pipeline, and these pictures are on their way or there.\<close>

definition carries :: "(bytes \<times> bool) list \<Rightarrow> video_ui \<Rightarrow> bool" where
  "carries cs s \<longleftrightarrow> (\<exists>w. vu_window s = Some w \<and> vw_source w \<and> handed_content w @ queued s = cs)"

lemma run_slot_fed: "vw_source w \<Longrightarrow> vw_source (run_slot sl w) \<and> handed_content (run_slot sl w) = handed_content w @ slot_content sl"
  by (cases sl) (auto simp: push_frame_def set_streaming_def handed_content_def split: option.split)

lemma invoke_carries: "carries cs s \<Longrightarrow> carries (cs @ slot_content sl) (invoke sl s)"
  by (auto simp: carries_def invoke_def queued_def)

lemma conn_carries: "carries cs s \<Longrightarrow> carries cs (s\<lparr>vu_conn := c\<rparr>)"
  by (simp add: carries_def queued_def)

lemma set_conn_carries: "carries cs s \<Longrightarrow> carries cs (set_conn_state c s)"
  using invoke_carries [of cs "s\<lparr>vu_conn := c\<rparr>" "SetConn (fst (the (map_of STATE_LABELS c))) (snd (the (map_of STATE_LABELS c)))"]
  by (simp add: set_conn_state_def Let_def split_beta conn_carries)

lemma stop_carries: "carries cs s \<Longrightarrow> carries cs (invoke (SetStreaming b) s)"
  using invoke_carries [of cs s "SetStreaming b"] by simp

lemma turn_carries: "carries cs s \<Longrightarrow> carries cs (qt_turn s)"
  by (auto simp: carries_def qt_turn_def queued_def run_slot_fed split: list.split)

lemma sample_carries: "carries cs s \<Longrightarrow> carries cs (new_sample sample s)"
  by (auto simp: carries_def new_sample_def queued_def on_new_sample_def handed_content_def split: option.split)

lemma carries_step: "carries cs s \<Longrightarrow> carries (cs @ delivered e) (fst (vu_step s e))"
proof (cases e)
  case (VuFrame p)
  moreover assume "carries cs s"
  ultimately show ?thesis
    using invoke_carries [of cs s "PushFrame d c" for d c]
    by (cases "dget_or p ''data_b64'' (PStr [])") (auto simp: on_video_frame_def simp del: slot_content.simps, auto simp: carries_def)
qed (auto simp: on_video_state_def ui_session_active_def ui_session_shutdown_def on_bluetooth_pairing_completed_def Let_def
      set_conn_carries stop_carries turn_carries sample_carries, auto simp: carries_def)

text \<open>No picture is lost, added or overtaken on the way from the bus to the entry of the pipeline: in every order of bus deliveries, Qt turns and
  samples, what the pipeline was handed and what waits is what was there before and then what was delivered.\<close>

lemma pictures_in_order: "carries cs s \<Longrightarrow> carries (cs @ concat (map delivered es)) (fst (run_events vu_step s es))"
proof (induction es arbitrary: cs s)
  case (Cons e es)
  from Cons.IH [OF carries_step [OF Cons.prems, of e]] show ?case by (simp add: Let_def)
qed simp

lemma delivered_frame: "read_frame_msg m = Some (ts, b, c) \<Longrightarrow> delivered (VuFrame (snd m)) = [(b, c)]"
  by (auto simp: read_frame_msg_def dget_def dget_or_def split: pyval.splits option.splits dest!: py_b64decode_strict)

definition frame_payloads :: "vu_event list \<Rightarrow> payload list" where
  "frame_payloads es = List.map_filter (\<lambda>e. case e of VuFrame p \<Rightarrow> Some p | _ \<Rightarrow> None) es"

lemma delivered_payloads: "concat (map delivered es) = concat (map (\<lambda>p. delivered (VuFrame p)) (frame_payloads es))"
proof (induction es)
  case (Cons e es)
  then show ?case by (cases e) (auto simp: frame_payloads_def map_filter_def)
qed (simp add: frame_payloads_def map_filter_def)

lemma delivered_read: "map read_frame_msg ms = map Some vs \<Longrightarrow>
    concat (map (\<lambda>p. delivered (VuFrame p)) (map snd ms)) = map (\<lambda>(ts, d, c). (d, c)) vs"
proof (induction ms arbitrary: vs)
  case (Cons m ms)
  then obtain v vs' where "vs = v # vs'" "read_frame_msg m = Some v" "map read_frame_msg ms = map Some vs'" by (cases vs) auto
  then show ?case using Cons.IH [of vs'] delivered_frame [of m "fst v" "fst (snd v)" "snd (snd v)"] by (simp add: split_beta del: delivered.simps)
qed simp

text \<open>C8 The pictures of the phone reach the entry of the pipeline: when the frames of an open video channel with \<^verbatim>\<open>publish_frames\<close>
  set are handled by the channel module and what it publishes on \<^verbatim>\<open>video.frame\<close> is delivered to a window whose pipeline was built, in whatever order that is mixed with
  other events, then once Qt has run all slots the buffers the window has pushed into the source of the pipeline are exactly the nonempty
  media of the frames, in order, with their configuration marks. What the leaky queue behind the source later drops is not part of this.\<close>

theorem pictures_reach_pipeline:
  assumes "shows_frames v" "ms = snd (run_events (chan_step (video_hooks L)) v (map (frame_of cid) fs))"
    and "bodies = map (\<lambda>(e, mid, enc, body). (mid, body)) fs"
    and "vu_window s = Some w" "vw_source w" "vu_slots s = []" "frame_payloads es = map snd (video_frames ms)"
    and "s' = fst (run_events vu_step s es)" "vu_slots s' = []"
  shows "\<exists>w'. vu_window s' = Some w' \<and>
    handed_content w' = handed_content w @ map (\<lambda>(ts, d, c). (d, c)) (concat (map frame_content bodies))"
proof -
  have "carries (handed_content w) s" using assms(4-6) by (simp add: carries_def queued_def)
  from pictures_in_order [OF this, of es] have "carries (handed_content w @ concat (map delivered es)) s'" by (simp add: assms(8))
  moreover have "concat (map delivered es) = map (\<lambda>(ts, d, c). (d, c)) (concat (map frame_content bodies))"
    unfolding delivered_payloads assms(7) using video_frames_read [OF assms(1-3)] by (rule delivered_read)
  ultimately show ?thesis using assms(9) by (auto simp: carries_def queued_def)
qed

section \<open>Times and states\<close>

fun picture_times :: "gst_buffer list \<Rightarrow> nat list" where
  "picture_times [] = []"
| "picture_times ((raw, None) # bs) = picture_times bs"
| "picture_times ((raw, Some (t, d)) # bs) = t # picture_times bs"

lemma picture_times_append [simp]: "picture_times (xs @ ys) = picture_times xs @ picture_times ys"
  by (induction xs rule: picture_times.induct) auto

definition times_ok :: "nat list \<Rightarrow> nat \<Rightarrow> widget \<Rightarrow> bool" where
  "times_ok before n w \<longleftrightarrow> n \<le> vw_pts w \<and> picture_times (vw_handed w) = before @ map (\<lambda>k. k * FRAME_DURATION_NS) [n..<vw_pts w]"

text \<open>As long as the stream is not stopped the times of the pictures are consecutive multiples of the duration of a frame, one for each
  picture handed to the pipeline; after a stop the pipeline, which goes on running, is given a picture with time 0 again.\<close>

theorem picture_times_consecutive:
  assumes "SetStreaming False \<notin> set sls"
  shows "let w' = fold run_slot sls w in
    picture_times (vw_handed w') = picture_times (vw_handed w) @ map (\<lambda>k. k * FRAME_DURATION_NS) [vw_pts w..<vw_pts w'] \<and>
    picture_times (vw_handed (push_frame (b64encode b) False (set_streaming False w'))) =
      picture_times (vw_handed w') @ (if vw_source w' then [0] else [])"
proof -
  have step: "times_ok before n (run_slot sl w)" if "times_ok before n w" "sl \<noteq> SetStreaming False" for before n w sl
    using that by (cases sl) (auto simp: times_ok_def push_frame_def set_streaming_def split: option.split)
  have "times_ok before n (fold run_slot sls w)" if "times_ok before n w" for before n
    using that assms by (induction sls arbitrary: w) (auto simp: step)
  then have "times_ok (picture_times (vw_handed w)) (vw_pts w) (fold run_slot sls w)" by (simp add: times_ok_def)
  then show ?thesis
    by (simp add: times_ok_def Let_def push_frame_def set_streaming_def py_b64_roundtrip)
qed

datatype conn_signal = Paired | SessionActive | Playing | Stopped | SessionDown

definition signal_event :: "conn_signal \<Rightarrow> vu_event" where
  "signal_event g =
     (case g of Paired \<Rightarrow> VuPaired | SessionActive \<Rightarrow> VuActive | Playing \<Rightarrow> VuState [(''state'', PStr ''PLAYING'')]
      | Stopped \<Rightarrow> VuState [(''state'', PStr ''STOPPED'')] | SessionDown \<Rightarrow> VuShutdown)"

text \<open>The table of transitions in the documentation of the module; what it does not list leaves the state.\<close>

definition documented :: "string \<Rightarrow> conn_signal \<Rightarrow> string" where
  "documented c g =
     (if g = SessionDown then ''WAITING_BT''
      else if c = ''WAITING_BT'' \<and> g = Paired then ''HANDSHAKE''
      else if c = ''HANDSHAKE'' \<and> g = Playing then ''STREAMING''
      else if c = ''STREAMING'' \<and> g = Stopped then ''INTERRUPTED''
      else c)"

text \<open>The state shown follows the documented table except in three places: an active session counts as a handshake also while
  Bluetooth is awaited, and a playing stream is shown as such from every state.\<close>

theorem conn_state_as_documented:
  assumes "vu_conn s \<in> set (dkeys STATE_LABELS)"
  shows "vu_conn (fst (vu_step s (signal_event g))) =
    (if vu_conn s = ''WAITING_BT'' \<and> g = SessionActive then ''HANDSHAKE''
     else if g = Playing then ''STREAMING'' else documented (vu_conn s) g)"
  using assms
  by (cases g) (auto simp: signal_event_def documented_def on_video_state_def ui_session_active_def ui_session_shutdown_def
      on_bluetooth_pairing_completed_def set_conn_state_def invoke_def dget_or_def STATE_LABELS_def dkeys_def Let_def split_beta)

section \<open>Examples\<close>

definition demo_gst :: gst_env where
  "demo_gst = \<lparr>ge_available = True, ge_find = (\<lambda>ps n. n = ''avdec_h264''), ge_exists = (\<lambda>p. False), ge_parses = (\<lambda>d. True)\<rparr>"

definition demo_ui :: video_ui where
  "demo_ui = new_video_ui\<lparr>vu_window := Some (new_widget demo_gst True)\<rparr>"

theorem picture_times_consecutive_witness:
  "picture_times (vw_handed (fold run_slot [PushFrame ''AAAB'' True, PushFrame ''AAAB'' False, PushFrame ''AAAB'' False] (new_widget demo_gst True))) =
   [0, 33333333]"
proof -
  let ?sls = "[PushFrame ''AAAB'' True, PushFrame ''AAAB'' False, PushFrame ''AAAB'' False]" and ?w = "new_widget demo_gst True"
  have d: "py_b64decode ''AAAB'' = Some [0, 0, 1]" "vw_pts ?w = 0" "vw_handed ?w = []" "vw_source ?w" by code_simp+
  have "vw_pts (fold run_slot ?sls ?w) = 2" by (simp add: push_frame_def d)
  moreover have "[0..<2] = [0, Suc 0]" by code_simp
  moreover note d(2,3)
  ultimately show ?thesis
    using picture_times_consecutive [of ?sls ?w "[]"] by (simp add: Let_def FRAME_DURATION_NS_def)
qed

theorem conn_state_as_documented_witness:
  "vu_conn (fst (vu_step new_video_ui (signal_event Paired))) = ''HANDSHAKE''"
  using conn_state_as_documented [of new_video_ui Paired]
  by (simp add: new_video_ui_def STATE_LABELS_def dkeys_def documented_def)

theorem pictures_reach_pipeline_witness:
  "\<exists>w'. vu_window (fst (run_events vu_step demo_ui [VuState [(''state'', PStr ''PLAYING'')],
      VuFrame (snd (''video.frame'', [(''channel_id'', PInt 3), (''ts_us'', PInt 0), (''data_b64'', PStr (b64encode [0, 0, 0, 1, 103])),
        (''codec'', PInt 3), (''codec_sdr'', PInt 3), (''is_config'', PBool True)])), QtTurn, QtTurn])) = Some w' \<and>
    handed_content w' = [([0, 0, 0, 1, 103], True)]"
proof -
  let ?v = "new_video ''video'' 3 (Some [])\<lparr>ch_open := True\<rparr>"
  let ?fs = "[((), AV_START, True, [5]), ((), AV_MEDIA, True, [0, 0, 0, 1, 103])]"
  let ?m = "(''video.frame'', [(''channel_id'', PInt 3), (''ts_us'', PInt 0), (''data_b64'', PStr (b64encode [0, 0, 0, 1, 103])),
        (''codec'', PInt 3), (''codec_sdr'', PInt 3), (''is_config'', PBool True)])"
  let ?es = "[VuState [(''state'', PStr ''PLAYING'')], VuFrame (snd ?m), QtTurn, QtTurn]"
  have v: "shows_frames ?v"
    by (simp add: shows_frames_def new_video_def new_chan_def chan.defs video_schema_def schema_values_def node_default_def
        field_bool_def field_int_def dget_or_def)
  have ms: "video_frames (snd (run_events (chan_step (video_hooks demo_video_lib)) ?v (map (frame_of 3) ?fs))) = [?m]"
    by (simp add: Let_def frame_step new_video_def new_chan_def chan.defs video_hooks_def video_on_frame_def av_ids video_start_indication_def
        video_media_def video_set_state_def publish_video_frame_def video_media_ack_def eff_ok_def eff_then_def demo_video_lib_def video_frames_def
        send_frame_def video_schema_def schema_values_def node_default_def field_bool_def field_int_def dget_or_def CODEC_H264_BP_def
        del: b64encode.simps)
  have w: "vu_window demo_ui = Some (new_widget demo_gst True)" "vw_source (new_widget demo_gst True)" "vu_slots demo_ui = []"
    "handed_content (new_widget demo_gst True) = []"
    by code_simp+
  have slots: "vu_slots (fst (run_events vu_step demo_ui ?es)) = []"
    by (simp add: Let_def demo_ui_def new_video_ui_def on_video_state_def on_video_frame_def set_conn_state_def invoke_def qt_turn_def dget_or_def
        STATE_LABELS_def split_beta del: b64encode.simps)
  have es: "frame_payloads ?es = map snd (video_frames (snd (run_events (chan_step (video_hooks demo_video_lib)) ?v (map (frame_of 3) ?fs))))"
    unfolding ms by (simp add: frame_payloads_def map_filter_def)
  from pictures_reach_pipeline [OF v refl refl w(1-3) es refl slots] show ?thesis
    using w(4) by (simp add: av_ids)
qed

end
