(* ===== verification/ConfigForm.thy ===== *)
theory ConfigForm
  imports ConfigManager PyText
begin

text \<open>
  \<^verbatim>\<open>v2/modules/config_ui/field_widgets.py\<close>, \<^verbatim>\<open>list_editor.py\<close> and \<^verbatim>\<open>form_builder.py\<close>: the form that is built for a schema
  and a value, what the user can do to it, and the value it gives back. A Qt widget is the state the code reads of it: a
  line editor gives back its text, a slider clamps to its range and takes C integers, a combo box has one of its items.
  Layout, labels and colours are left out.
\<close>

section \<open>Floats\<close>

record ui_lib =
  ui_text :: py_text
  ui_json :: "string \<Rightarrow> pyval option"
  ui_fixed :: "pyfloat \<Rightarrow> string"
  ui_fl :: "rat \<Rightarrow> rat"
  ui_round10 :: "pyfloat \<Rightarrow> pyfloat"

text \<open>\<open>ui_fl\<close> rounds to a double; \<open>ui_fixed\<close> is \<^verbatim>\<open>f"\{v:.2f\}"\<close>, \<open>ui_round10\<close> is \<^verbatim>\<open>round(v, 10)\<close>, \<open>ui_json\<close> is \<^verbatim>\<open>json.loads\<close>, \<open>None\<close> where it raises
  \<^verbatim>\<open>ValueError\<close>.\<close>

fun f_sub :: "(rat \<Rightarrow> rat) \<Rightarrow> pyfloat \<Rightarrow> pyfloat \<Rightarrow> pyfloat" where
  "f_sub fl (Fin a) (Fin b) = Fin (fl (a - b))"
| "f_sub fl NaN y = NaN"
| "f_sub fl x NaN = NaN"
| "f_sub fl PosInf PosInf = NaN"
| "f_sub fl NegInf NegInf = NaN"
| "f_sub fl PosInf y = PosInf"
| "f_sub fl NegInf y = NegInf"
| "f_sub fl (Fin a) PosInf = NegInf"
| "f_sub fl (Fin a) NegInf = PosInf"

fun f_neg :: "pyfloat \<Rightarrow> pyfloat" where
  "f_neg (Fin a) = Fin (- a)" | "f_neg PosInf = NegInf" | "f_neg NegInf = PosInf" | "f_neg NaN = NaN"

definition f_add :: "(rat \<Rightarrow> rat) \<Rightarrow> pyfloat \<Rightarrow> pyfloat \<Rightarrow> pyfloat" where
  "f_add fl x y = f_sub fl x (f_neg y)"

definition f_signed :: "rat \<Rightarrow> pyfloat \<Rightarrow> pyfloat" where
  "f_signed s x = (if s = 0 then NaN else if s < 0 then f_neg x else x)"

text \<open>\<^verbatim>\<open>c * x\<close> for a finite \<open>c\<close>, and \<^verbatim>\<open>x / y\<close> for a \<open>y\<close> that is not 0.\<close>

definition f_times :: "(rat \<Rightarrow> rat) \<Rightarrow> rat \<Rightarrow> pyfloat \<Rightarrow> pyfloat" where
  "f_times fl c x = (case x of Fin a \<Rightarrow> Fin (fl (c * a)) | NaN \<Rightarrow> NaN | _ \<Rightarrow> f_signed c x)"

definition f_div :: "(rat \<Rightarrow> rat) \<Rightarrow> pyfloat \<Rightarrow> pyfloat \<Rightarrow> pyfloat" where
  "f_div fl x y =
     (case (x, y) of
        (Fin a, Fin b) \<Rightarrow> Fin (fl (a / b))
      | (NaN, _) \<Rightarrow> NaN | (_, NaN) \<Rightarrow> NaN
      | (Fin a, _) \<Rightarrow> Fin 0
      | (_, Fin b) \<Rightarrow> f_signed b x
      | _ \<Rightarrow> NaN)"

text \<open>\<^verbatim>\<open>round(x)\<close>: halves go to the even neighbour.\<close>

definition py_round :: "pyfloat \<Rightarrow> int res" where
  "py_round x =
     (case x of
        Fin a \<Rightarrow>
          (let n = \<lfloor>a\<rfloor>; d = a - of_int n in
           Inr (if d < 1 / 2 then n else if 1 / 2 < d then n + 1 else if even n then n else n + 1))
      | NaN \<Rightarrow> Inl ValueError | _ \<Rightarrow> Inl OverflowError)"

section \<open>One field\<close>

text \<open>The widgets: a check box, a combo box with its current text, sliders with range and position, line editors.\<close>

datatype field =
    LineEdit string
  | CheckBox bool
  | Combo "string list" string
  | IntSlider int int int
  | IntStep string
  | FloatSlider pyfloat pyfloat int
  | FloatStep string

definition c_int :: "int \<Rightarrow> int res" where
  "c_int i = (if - 2147483648 \<le> i \<and> i \<le> 2147483647 then Inr i else Inl OverflowError)"

definition clamp :: "int \<Rightarrow> int \<Rightarrow> int \<Rightarrow> int" where
  "clamp lo hi i = max lo (min hi i)"

definition build_string :: "ui_lib \<Rightarrow> pyval \<Rightarrow> field" where
  "build_string U v = LineEdit (if v = PNone then [] else py_str (ui_text U) v)"

definition build_bool :: "ui_lib \<Rightarrow> pyval \<Rightarrow> field" where
  "build_bool U v =
     CheckBox (case v of PBool b \<Rightarrow> b | PInt i \<Rightarrow> i \<noteq> 0 | _ \<Rightarrow> map lower_char (py_strip (py_str (ui_text U) v)) \<in> set BOOL_TRUE)"

definition choice_names :: "pyval \<Rightarrow> string list res" where
  "choice_names v =
     (case v of PList l \<Rightarrow> map_res (\<lambda>x. case x of PStr s \<Rightarrow> Inr s | _ \<Rightarrow> Inl TypeError) l | _ \<Rightarrow> Inl TypeError)"

definition build_enum :: "ui_lib \<Rightarrow> pyval \<Rightarrow> pyval \<Rightarrow> field res" where
  "build_enum U v choices =
     rbind (choice_names choices) (\<lambda>cs.
       Inr (Combo cs (if py_str (ui_text U) v \<in> set cs then py_str (ui_text U) v else if cs = [] then [] else hd cs)))"

text \<open>\<^verbatim>\<open>int(value)\<close> and \<^verbatim>\<open>float(value)\<close> with a default for the two exceptions that are caught.\<close>

definition or_zero :: "'a \<Rightarrow> 'a res \<Rightarrow> 'a res" where
  "or_zero z r = (case r of Inl x \<Rightarrow> if x = TypeError \<or> x = ValueError then Inr z else Inl x | Inr i \<Rightarrow> Inr i)"

text \<open>A range that is turned around collapses to its upper end, which Qt sets last.\<close>

definition build_int :: "ui_lib \<Rightarrow> pyval \<Rightarrow> pyval \<Rightarrow> pyval \<Rightarrow> field res" where
  "build_int U v lo hi =
     rbind (or_zero 0 (py_int v)) (\<lambda>i.
       if lo \<noteq> PNone \<and> hi \<noteq> PNone then
         rbind (rbind (py_int lo) c_int) (\<lambda>l. rbind (rbind (py_int hi) c_int) (\<lambda>h. rbind (c_int i) (\<lambda>i.
           Inr (IntSlider (min l h) h (clamp (min l h) h i)))))
       else Inr (IntStep (str_of_int i)))"

definition float_to_slider :: "ui_lib \<Rightarrow> pyfloat \<Rightarrow> pyfloat \<Rightarrow> pyfloat \<Rightarrow> int res" where
  "float_to_slider U lo hi v =
     (let span = f_sub (ui_fl U) hi lo in
      if span = Fin 0 then Inr 0 else py_round (f_times (ui_fl U) 100 (f_div (ui_fl U) (f_sub (ui_fl U) v lo) span)))"

definition slider_to_float :: "ui_lib \<Rightarrow> pyfloat \<Rightarrow> pyfloat \<Rightarrow> int \<Rightarrow> pyfloat" where
  "slider_to_float U lo hi pos = f_add (ui_fl U) lo (f_times (ui_fl U) (ui_fl U (of_int pos / 100)) (f_sub (ui_fl U) hi lo))"

definition build_float :: "ui_lib \<Rightarrow> pyval \<Rightarrow> pyval \<Rightarrow> pyval \<Rightarrow> field res" where
  "build_float U v lo hi =
     rbind (or_zero (Fin 0) (py_float (ui_text U) v)) (\<lambda>x.
       if lo \<noteq> PNone \<and> hi \<noteq> PNone then
         rbind (py_float (ui_text U) lo) (\<lambda>l. rbind (py_float (ui_text U) hi) (\<lambda>h.
         rbind (rbind (float_to_slider U l h x) c_int) (\<lambda>p. Inr (FloatSlider l h (clamp 0 100 p)))))
       else Inr (FloatStep (ui_fixed U x)))"

definition build_field :: "ui_lib \<Rightarrow> pyval \<Rightarrow> scalar option \<Rightarrow> field res" where
  "build_field U v schema =
     (case schema of
        None \<Rightarrow> Inr (build_string U v)
      | Some sc \<Rightarrow>
          (if sc_type sc = PStr ''bool'' then Inr (build_bool U v)
           else if sc_type sc = PStr ''enum'' then build_enum U v (sc_choices sc)
           else if sc_type sc = PStr ''int'' then build_int U v (sc_min sc) (sc_max sc)
           else if sc_type sc = PStr ''float'' then build_float U v (sc_min sc) (sc_max sc)
           else Inr (build_string U v)))"

fun get_field :: "ui_lib \<Rightarrow> field \<Rightarrow> pyval" where
  "get_field U (LineEdit s) = PStr s"
| "get_field U (CheckBox b) = PBool b"
| "get_field U (Combo cs s) = PStr s"
| "get_field U (IntSlider l h i) = PInt i"
| "get_field U (IntStep s) = PStr s"
| "get_field U (FloatSlider l h p) = PFloat (slider_to_float U l h p)"
| "get_field U (FloatStep s) = PStr s"

text \<open>What the user does to a field; an input that does not fit the widget has no effect.\<close>

datatype edit = Typed string | Checked bool | Chosen nat | Moved int | StepBy bool

definition step_int :: "int \<Rightarrow> string \<Rightarrow> string" where
  "step_int delta s = str_of_int (case int_of_str s of Inl x \<Rightarrow> delta | Inr i \<Rightarrow> i + delta)"

definition step_float :: "ui_lib \<Rightarrow> pyfloat \<Rightarrow> string \<Rightarrow> string" where
  "step_float U delta s =
     ui_fixed U (case t_float (ui_text U) s of None \<Rightarrow> delta | Some x \<Rightarrow> ui_round10 U (f_add (ui_fl U) x delta))"

fun edit_field :: "ui_lib \<Rightarrow> edit \<Rightarrow> field \<Rightarrow> field" where
  "edit_field U (Typed s) (LineEdit t) = LineEdit s"
| "edit_field U (Typed s) (IntStep t) = IntStep s"
| "edit_field U (Typed s) (FloatStep t) = FloatStep s"
| "edit_field U (Checked b) (CheckBox c) = CheckBox b"
| "edit_field U (Chosen n) (Combo cs s) = Combo cs (if n < length cs then cs ! n else s)"
| "edit_field U (Moved i) (IntSlider l h j) = IntSlider l h (clamp l h i)"
| "edit_field U (Moved i) (FloatSlider l h j) = FloatSlider l h (clamp 0 100 i)"
| "edit_field U (StepBy up) (IntStep s) = IntStep (step_int (if up then 1 else -1) s)"
| "edit_field U (StepBy up) (FloatStep s) =
     FloatStep (step_float U (Fin (if up then ui_fl U (1 / 10) else - ui_fl U (1 / 10))) s)"
| "edit_field U e f = f"

section \<open>Forms\<close>

text \<open>An oneof keeps its branches, its raw value, the chosen branch and the form of it; the placeholder is no branch.\<close>

datatype editor =
    Field field
  | ScalarList "scalar option" "field list"
  | ItemList node "editor list"
  | OneofEd "(string \<times> node) list" pyval "(string \<times> editor) option"
  | OptionalEd bool editor
  | Form "(string \<times> editor) list"

fun get_value :: "ui_lib \<Rightarrow> editor \<Rightarrow> pyval" where
  "get_value U (Field f) = get_field U f"
| "get_value U (ScalarList sc rows) = PList (map (get_field U) rows)"
| "get_value U (ItemList n items) = PList (map (get_value U) items)"
| "get_value U (OneofEd bs raw body) = (case body of None \<Rightarrow> PNone | Some kb \<Rightarrow> get_value U (snd kb))"
| "get_value U (OptionalEd on body) = (if on then get_value U body else PNone)"
| "get_value U (Form subs) = PDict (filter (\<lambda>kv. snd kv \<noteq> PNone) (map (\<lambda>kw. (fst kw, get_value U (snd kw))) subs))"

definition default_value :: "node \<Rightarrow> pyval" where
  "default_value n =
     (case n of
        NScalar sc \<Rightarrow>
          (if sc_default sc \<noteq> PNone then sc_default sc
           else if sc_type sc = PStr ''int'' then PInt 0 else if sc_type sc = PStr ''float'' then PFloat (Fin 0)
           else if sc_type sc = PStr ''bool'' then PBool False else PStr [])
      | NMessage fs optional \<Rightarrow> PDict []
      | NList item deflt \<Rightarrow> PList []
      | NOneof bs active \<Rightarrow> PNone)"

definition coerce_json :: "ui_lib \<Rightarrow> pyval \<Rightarrow> pyval" where
  "coerce_json U v = (case v of PStr s \<Rightarrow> (case ui_json U s of None \<Rightarrow> v | Some w \<Rightarrow> w) | _ \<Rightarrow> v)"

definition dict_of :: "pyval \<Rightarrow> payload" where
  "dict_of v = (case v of PDict d \<Rightarrow> d | _ \<Rightarrow> [])"

definition list_of :: "pyval \<Rightarrow> pyval list" where
  "list_of v = (case v of PList l \<Rightarrow> l | _ \<Rightarrow> [])"

text \<open>Without a schema the type of the value decides.\<close>

fun build_bare :: "ui_lib \<Rightarrow> pyval \<Rightarrow> editor" where
  "build_bare U (PDict d) = Form (map (\<lambda>kv. (fst kv, build_bare U (snd kv))) d)"
| "build_bare U (PList l) = ScalarList None (map (build_string U) l)"
| "build_bare U v = Field (build_string U v)"

definition scalar_item :: "node \<Rightarrow> scalar option" where
  "scalar_item n = (case n of NScalar sc \<Rightarrow> Some sc | _ \<Rightarrow> None)"

definition first_branch :: "(string \<times> node) list \<Rightarrow> pyval \<Rightarrow> pyval \<Rightarrow> string option" where
  "first_branch bs active raw =
     (if raw = PNone then None
      else (case List.find (\<lambda>b. b \<in> set (dkeys (dict_of raw))) (map fst bs) of
          Some b \<Rightarrow> (if b = [] then None else Some b)
        | None \<Rightarrow> (case active of PStr b \<Rightarrow> (if b \<noteq> [] \<and> b \<in> fst ` set bs then Some b else None) | _ \<Rightarrow> None)))"

definition branch_value :: "string \<Rightarrow> pyval \<Rightarrow> pyval" where
  "branch_value b raw = (case raw of PDict d \<Rightarrow> dget d b | _ \<Rightarrow> raw)"

text \<open>The builder for a node. The flag tells that a string is first tried as JSON, as \<^verbatim>\<open>build_form_for_schema\<close> does and \<^verbatim>\<open>_build_any\<close> does not;
  both try it for messages and lists.\<close>

fun build_node :: "ui_lib \<Rightarrow> bool \<Rightarrow> node \<Rightarrow> pyval \<Rightarrow> editor res"
  and build_fields :: "ui_lib \<Rightarrow> (string \<times> node) list \<Rightarrow> payload \<Rightarrow> (string \<times> editor) list res"
  and build_branch :: "ui_lib \<Rightarrow> string \<Rightarrow> (string \<times> node) list \<Rightarrow> pyval \<Rightarrow> (string \<times> editor) option res" where
  "build_node U co (NScalar sc) v = rbind (build_field U (if co then coerce_json U v else v) (Some sc)) (\<lambda>f. Inr (Field f))"
| "build_node U co (NMessage fs optional) v =
     (if truthy optional then
        (let raw = (if co then coerce_json U v else v) in
         rbind (build_fields U fs (dict_of (coerce_json U (if truthy raw then raw else PDict [])))) (\<lambda>subs.
           Inr (OptionalEd (truthy raw) (Form subs))))
      else rbind (build_fields U fs (dict_of (coerce_json U v))) (\<lambda>subs. Inr (Form subs)))"
| "build_node U co (NList item deflt) v =
     (let vs = list_of (coerce_json U v) in
      case item of
        NMessage fs optional \<Rightarrow> rbind (map_res (build_node U True item) vs) (\<lambda>es. Inr (ItemList item es))
      | NOneof bs active \<Rightarrow> rbind (map_res (build_node U True item) vs) (\<lambda>es. Inr (ItemList item es))
      | _ \<Rightarrow> rbind (map_res (\<lambda>x. build_field U x (scalar_item item)) vs) (\<lambda>fs. Inr (ScalarList (scalar_item item) fs)))"
| "build_node U co (NOneof bs active) v =
     (let raw = (if co then coerce_json U v else v) in
      case first_branch bs active raw of
        None \<Rightarrow> Inr (OneofEd bs raw None)
      | Some b \<Rightarrow> rbind (build_branch U b bs (branch_value b raw)) (\<lambda>body. Inr (OneofEd bs raw body)))"
| "build_fields U [] d = Inr []"
| "build_fields U ((k, n) # fs) d =
     rbind (build_node U False n (dget_or d k (default_value n))) (\<lambda>e. rbind (build_fields U fs d) (\<lambda>es. Inr ((k, e) # es)))"
| "build_branch U b [] v = Inr None"
| "build_branch U b ((k, n) # bs) v =
     (if k = b then rbind (build_node U True n v) (\<lambda>e. Inr (Some (k, e))) else build_branch U b bs v)"

definition build_form :: "ui_lib \<Rightarrow> node option \<Rightarrow> pyval \<Rightarrow> editor res" where
  "build_form U schema v =
     (case schema of None \<Rightarrow> Inr (build_bare U (coerce_json U v)) | Some n \<Rightarrow> build_node U True n v)"

section \<open>Editing a form\<close>

text \<open>The buttons of the list editors, the selector of a oneof and the check box of an optional message.\<close>

fun edit_row :: "ui_lib \<Rightarrow> nat \<Rightarrow> edit \<Rightarrow> editor \<Rightarrow> editor" where
  "edit_row U i e (Field f) = Field (edit_field U e f)"
| "edit_row U i e (ScalarList sc rows) = ScalarList sc (if i < length rows then rows[i := edit_field U e (rows ! i)] else rows)"
| "edit_row U i e ed = ed"

fun delete_row :: "nat \<Rightarrow> editor \<Rightarrow> editor" where
  "delete_row i (ScalarList sc rows) = ScalarList sc (take i rows @ drop (Suc i) rows)"
| "delete_row i (ItemList n items) = ItemList n (take i items @ drop (Suc i) items)"
| "delete_row i ed = ed"

definition default_row :: "scalar option \<Rightarrow> pyval" where
  "default_row sc = (case sc of None \<Rightarrow> PStr [] | Some s \<Rightarrow> sc_default s)"

definition add_row :: "ui_lib \<Rightarrow> editor \<Rightarrow> editor res" where
  "add_row U ed =
     (case ed of
        ScalarList sc rows \<Rightarrow> rbind (build_field U (default_row sc) sc) (\<lambda>f. Inr (ScalarList sc (rows @ [f])))
      | ItemList n items \<Rightarrow> rbind (build_form U (Some n) (default_value n)) (\<lambda>e. Inr (ItemList n (items @ [e])))
      | _ \<Rightarrow> Inr ed)"

definition on_branch_changed :: "ui_lib \<Rightarrow> string option \<Rightarrow> editor \<Rightarrow> editor res" where
  "on_branch_changed U b ed =
     (case ed of
        OneofEd bs raw body \<Rightarrow>
          (case b of
             None \<Rightarrow> Inr (OneofEd bs raw None)
           | Some b \<Rightarrow> rbind (build_branch U b bs PNone) (\<lambda>body. Inr (OneofEd bs PNone body)))
      | _ \<Rightarrow> Inr ed)"

fun on_toggle :: "bool \<Rightarrow> editor \<Rightarrow> editor" where
  "on_toggle b (OptionalEd on body) = OptionalEd b body"
| "on_toggle b ed = ed"

text \<open>A change inside of a form, along a path of keys and positions.\<close>

datatype step_to = AtKey string | AtItem nat | Inside

primrec edit_at :: "step_to list \<Rightarrow> (editor \<Rightarrow> editor res) \<Rightarrow> editor \<Rightarrow> editor res" where
  "edit_at [] f ed = f ed"
| "edit_at (p # path) f ed =
     (case (p, ed) of
        (AtKey k, Form subs) \<Rightarrow>
          rbind (map_res (\<lambda>kw. if fst kw = k then rbind (edit_at path f (snd kw)) (\<lambda>e. Inr (k, e)) else Inr kw) subs) (\<lambda>ss. Inr (Form ss))
      | (AtItem i, ItemList n items) \<Rightarrow>
          (if i < length items then rbind (edit_at path f (items ! i)) (\<lambda>e. Inr (ItemList n (items[i := e]))) else Inr ed)
      | (Inside, OptionalEd on body) \<Rightarrow> rbind (edit_at path f body) (\<lambda>e. Inr (OptionalEd on e))
      | (Inside, OneofEd bs raw (Some kb)) \<Rightarrow> rbind (edit_at path f (snd kb)) (\<lambda>e. Inr (OneofEd bs raw (Some (fst kb, e))))
      | _ \<Rightarrow> Inr ed)"

end
