(* ===== verification/ConfigUi.thy ===== *)
theory ConfigUi
  imports ConfigForm HostapdHelper BtManager
begin

text \<open>
  \<^verbatim>\<open>v2/modules/config_ui/module_tab.py\<close> and \<^verbatim>\<open>main.py\<close>: a tab per module, filled from \<^verbatim>\<open>config.response\<close>, and the values it sends
  with \<^verbatim>\<open>config.set\<close> when the user saves. Bus handlers queue calls of the window's slots. An exception in a slot ends the
  process; here it is the result.
\<close>

section \<open>Equality of values\<close>

text \<open>\<^verbatim>\<open>v == w\<close>: numbers by value, dictionaries without order, a NaN is equal to nothing.\<close>

fun num_eq :: "pyfloat \<Rightarrow> pyfloat \<Rightarrow> bool" where
  "num_eq (Fin a) (Fin b) = (a = b)"
| "num_eq PosInf PosInf = True"
| "num_eq NegInf NegInf = True"
| "num_eq x y = False"

fun py_eq :: "pyval \<Rightarrow> pyval \<Rightarrow> bool"
  and py_eqs :: "pyval list \<Rightarrow> pyval list \<Rightarrow> bool"
  and py_subdict :: "payload \<Rightarrow> payload \<Rightarrow> bool" where
  "py_eq (PStr s) w = (w = PStr s)"
| "py_eq PNone w = (w = PNone)"
| "py_eq (PList xs) w = (case w of PList ys \<Rightarrow> py_eqs xs ys | _ \<Rightarrow> False)"
| "py_eq (PDict d) w = (case w of PDict e \<Rightarrow> length d = length e \<and> py_subdict d e | _ \<Rightarrow> False)"
| "py_eq v w = (case (num_of v, num_of w) of (Some x, Some y) \<Rightarrow> num_eq x y | _ \<Rightarrow> False)"
| "py_eqs [] ys = (ys = [])"
| "py_eqs (x # xs) ys = (case ys of [] \<Rightarrow> False | y # ys \<Rightarrow> py_eq x y \<and> py_eqs xs ys)"
| "py_subdict [] e = True"
| "py_subdict (kv # d) e = ((case map_of e (fst kv) of None \<Rightarrow> False | Some w \<Rightarrow> py_eq (snd kv) w) \<and> py_subdict d e)"

section \<open>A tab\<close>

record tab =
  tb_name :: string
  tb_pid :: int
  tb_status :: string
  tb_original :: payload
  tb_fields :: "(string \<times> field) list"
  tb_editors :: "(string \<times> editor) list"
  tb_schema :: schema
  tb_can_save :: bool
  tb_errors :: "(string, string) dict"
  tb_banner :: "string list"

definition new_tab :: "string \<Rightarrow> int \<Rightarrow> string \<Rightarrow> tab" where
  "new_tab name pid status = \<lparr>tb_name = name, tb_pid = pid, tb_status = status, tb_original = [], tb_fields = [], tb_editors = [],
     tb_schema = [], tb_can_save = False, tb_errors = [], tb_banner = []\<rparr>"

definition parse_schema :: "pyval \<Rightarrow> schema" where
  "parse_schema raw = (case raw of PDict d \<Rightarrow> (case schema_from_dict d of Inl x \<Rightarrow> [] | Inr sch \<Rightarrow> sch) | _ \<Rightarrow> [])"

definition structured :: "node option \<Rightarrow> pyval \<Rightarrow> bool" where
  "structured n v =
     (case n of None \<Rightarrow> structural v | Some (NScalar sc) \<Rightarrow> False | Some _ \<Rightarrow> True)"

fun add_rows :: "ui_lib \<Rightarrow> schema \<Rightarrow> payload \<Rightarrow> tab \<Rightarrow> tab res" where
  "add_rows U sch [] t = Inr t"
| "add_rows U sch ((k, v) # kvs) t =
     (let n = map_of sch k in
      if structured n v then
        rbind (build_form U n v) (\<lambda>ed. add_rows U sch kvs (t\<lparr>tb_editors := dset k ed (tb_editors t)\<rparr>))
      else rbind (build_field U v (case n of Some (NScalar sc) \<Rightarrow> Some sc | _ \<Rightarrow> None)) (\<lambda>f.
        add_rows U sch kvs (t\<lparr>tb_fields := dset k f (tb_fields t)\<rparr>)))"

definition populate :: "ui_lib \<Rightarrow> payload \<Rightarrow> pyval \<Rightarrow> tab \<Rightarrow> tab res" where
  "populate U config schema_raw t =
     (let t1 = t\<lparr>tb_fields := [], tb_editors := [], tb_banner := [], tb_errors := [], tb_original := config, tb_schema := parse_schema schema_raw\<rparr> in
      if config = [] then Inr (t1\<lparr>tb_can_save := False\<rparr>)
      else rbind (add_rows U (tb_schema t1) (sort_key fst config) t1) (\<lambda>t2. Inr (t2\<lparr>tb_can_save := True\<rparr>)))"

definition mark_error :: "string \<Rightarrow> string \<Rightarrow> tab \<Rightarrow> tab" where
  "mark_error key reason t =
     (if key \<in> set (dkeys (tb_fields t)) then t\<lparr>tb_errors := (if reason = [] then ddel key (tb_errors t) else dset key reason (tb_errors t))\<rparr> else t)"

definition collect_all_values :: "ui_lib \<Rightarrow> tab \<Rightarrow> payload" where
  "collect_all_values U t =
     map (\<lambda>kf. (fst kf, get_field U (snd kf))) (tb_fields t)
     @ filter (\<lambda>kv. snd kv \<noteq> PNone) (map (\<lambda>ke. (fst ke, get_value U (snd ke))) (tb_editors t))"

text \<open>The scalar fields without a value. An editor has no errors of its own: of the editors only the optional message has a
  \<^verbatim>\<open>validate\<close>, and that asks the form inside, which has none.\<close>

definition missing_fields :: "ui_lib \<Rightarrow> tab \<Rightarrow> string list" where
  "missing_fields U t = map fst (filter (\<lambda>kf. py_strip (py_str (ui_text U) (get_field U (snd kf))) = []) (tb_fields t))"

definition value_changed :: "ui_lib \<Rightarrow> payload \<Rightarrow> string \<times> pyval \<Rightarrow> bool" where
  "value_changed U original kv =
     (let orig = dget original (fst kv) in
      case snd kv of
        PBool b \<Rightarrow> b \<noteq> (case orig of PBool c \<Rightarrow> c | _ \<Rightarrow> map lower_char (py_strip (py_str (ui_text U) orig)) \<in> set BOOL_TRUE)
      | v \<Rightarrow> \<not> py_eq v orig)"

definition changed_values :: "ui_lib \<Rightarrow> tab \<Rightarrow> payload" where
  "changed_values U t =
     (let current = collect_all_values U t in
      filter (value_changed U (tb_original t)) current
      @ map (\<lambda>k. (k, PNone)) (filter (\<lambda>k. k \<notin> set (dkeys current)) (map fst (tb_original t))))"

definition on_save :: "ui_lib \<Rightarrow> tab \<Rightarrow> tab \<times> busmsg list" where
  "on_save U t =
     (let t1 = t\<lparr>tb_errors := [], tb_banner := []\<rparr>; missing = missing_fields U t; changed = changed_values U t in
      if missing \<noteq> [] then (t1\<lparr>tb_errors := map (\<lambda>k. (k, ''Campo obbligatorio'')) missing, tb_banner := missing\<rparr>, [])
      else if changed = [] then (t1, [])
      else (t1\<lparr>tb_original := dupdate (tb_original t) changed\<rparr>, map (\<lambda>kv. client_set (tb_name t) (fst kv) (snd kv)) changed))"

text \<open>The user edits a scalar field, or something inside of an editor.\<close>

definition edit_key :: "ui_lib \<Rightarrow> string \<Rightarrow> edit \<Rightarrow> tab \<Rightarrow> tab" where
  "edit_key U k e t = t\<lparr>tb_fields := map (\<lambda>kf. if fst kf = k then (k, edit_field U e (snd kf)) else kf) (tb_fields t)\<rparr>"

definition edit_editor :: "string \<Rightarrow> step_to list \<Rightarrow> (editor \<Rightarrow> editor res) \<Rightarrow> tab \<Rightarrow> tab res" where
  "edit_editor k path f t =
     rbind (map_res (\<lambda>ke. if fst ke = k then rbind (edit_at path f (snd ke)) (\<lambda>e. Inr (k, e)) else Inr ke) (tb_editors t))
       (\<lambda>es. Inr (t\<lparr>tb_editors := es\<rparr>))"

section \<open>The window\<close>

definition request_config :: "string \<Rightarrow> busmsg" where
  "request_config m = (''config.get'', [(''module'', PStr m), (''requester'', PStr ''config_ui'')])"

datatype ui_slot = SetStatus | AddTab string int string | PopulateConfig string pyval pyval | ShowError string string string

record config_ui =
  cu_window :: bool
  cu_tabs :: "(string, tab) dict"
  cu_slots :: "ui_slot list"

definition new_config_ui :: config_ui where
  "new_config_ui = \<lparr>cu_window = False, cu_tabs = [], cu_slots = []\<rparr>"

definition ui_invoke :: "ui_slot \<Rightarrow> config_ui \<Rightarrow> config_ui" where
  "ui_invoke sl s = (if cu_window s then s\<lparr>cu_slots := cu_slots s @ [sl]\<rparr> else s)"

definition add_or_update_module_tab :: "string \<Rightarrow> int \<Rightarrow> string \<Rightarrow> config_ui \<Rightarrow> config_ui effect" where
  "add_or_update_module_tab name pid status s =
     (case map_of (cu_tabs s) name of
        Some t \<Rightarrow> eff_ok (s\<lparr>cu_tabs := dset name (t\<lparr>tb_pid := pid, tb_status := status\<rparr>) (cu_tabs s)\<rparr>) []
      | None \<Rightarrow> eff_ok (s\<lparr>cu_tabs := dset name (new_tab name pid status) (cu_tabs s)\<rparr>) [request_config name])"

text \<open>A configuration that is no dictionary, and not empty either, makes \<^verbatim>\<open>populate\<close> raise; which exception depends on it.\<close>

definition populate_module_config :: "ui_lib \<Rightarrow> string \<Rightarrow> pyval \<Rightarrow> pyval \<Rightarrow> config_ui \<Rightarrow> config_ui effect" where
  "populate_module_config U m config schema_raw s =
     (case map_of (cu_tabs s) m of
        None \<Rightarrow> eff_ok s []
      | Some t \<Rightarrow>
          eff_res s (case config of PDict d \<Rightarrow> Inr d | PList [] \<Rightarrow> Inr [] | PStr [] \<Rightarrow> Inr [] | _ \<Rightarrow> Inl TypeError) (\<lambda>d.
            eff_res s (populate U d schema_raw t) (\<lambda>t'. eff_ok (s\<lparr>cu_tabs := dset m t' (cu_tabs s)\<rparr>) [])))"

definition show_config_error :: "string \<Rightarrow> string \<Rightarrow> string \<Rightarrow> config_ui \<Rightarrow> config_ui" where
  "show_config_error m key reason s =
     (case map_of (cu_tabs s) m of None \<Rightarrow> s | Some t \<Rightarrow> s\<lparr>cu_tabs := dset m (mark_error key reason t) (cu_tabs s)\<rparr>)"

fun run_ui_slot :: "ui_lib \<Rightarrow> ui_slot \<Rightarrow> config_ui \<Rightarrow> config_ui effect" where
  "run_ui_slot U SetStatus s = eff_ok s []"
| "run_ui_slot U (AddTab name pid status) s = add_or_update_module_tab name pid status s"
| "run_ui_slot U (PopulateConfig m config schema_raw) s = populate_module_config U m config schema_raw s"
| "run_ui_slot U (ShowError m key reason) s = eff_ok (show_config_error m key reason s) []"

section \<open>Bus handlers\<close>

text \<open>Arguments of another type than the slot's make \<^verbatim>\<open>invokeMethod\<close> raise, when there is a window.\<close>

definition invoke_str :: "config_ui \<Rightarrow> pyval \<Rightarrow> (string \<Rightarrow> config_ui effect) \<Rightarrow> config_ui effect" where
  "invoke_str s v f = (case v of PStr x \<Rightarrow> f x | _ \<Rightarrow> if cu_window s then (Some RuntimeError, s, []) else f [])"

fun invoke_tabs :: "pyval list \<Rightarrow> config_ui \<Rightarrow> config_ui effect" where
  "invoke_tabs [] s = eff_ok (ui_invoke SetStatus s) []"
| "invoke_tabs (m # ms) s =
     (case m of
        PDict d \<Rightarrow>
          eff_res s (py_int (dget_or d ''pid'' (PInt 0))) (\<lambda>pid.
            invoke_str s (dget_or d ''name'' (PStr [])) (\<lambda>name.
              invoke_str s (dget_or d ''status'' (PStr ''unknown'')) (\<lambda>status.
                invoke_tabs ms (ui_invoke (AddTab name pid status) s))))
      | _ \<Rightarrow> (Some AttributeError, s, []))"

definition on_modules_response :: "payload \<Rightarrow> config_ui \<Rightarrow> config_ui effect" where
  "on_modules_response p s = eff_res s (py_list (dget_or p ''modules'' (PList []))) (\<lambda>ms. invoke_tabs ms s)"

definition has_length :: "pyval \<Rightarrow> bool" where
  "has_length v = (case v of PStr s \<Rightarrow> True | PList l \<Rightarrow> True | PDict d \<Rightarrow> True | _ \<Rightarrow> False)"

text \<open>\<open>J\<close> is \<^verbatim>\<open>json.dumps\<close> followed by \<^verbatim>\<open>json.loads\<close> in the slot.\<close>

definition on_config_response :: "(pyval \<Rightarrow> pyval res) \<Rightarrow> payload \<Rightarrow> config_ui \<Rightarrow> config_ui effect" where
  "on_config_response J p s =
     (if dget_or p ''requester'' (PStr []) \<noteq> PStr ''config_ui'' then eff_ok s []
      else if \<not> has_length (dget_or p ''config'' (PDict [])) then (Some TypeError, s, [])
      else eff_res s (J (dget_or p ''config'' (PDict []))) (\<lambda>c.
             eff_res s (if truthy (dget p ''schema'') then J (dget p ''schema'') else Inr PNone) (\<lambda>sch.
               invoke_str s (dget_or p ''module'' (PStr [])) (\<lambda>m. eff_ok (ui_invoke (PopulateConfig m c sch) s) []))))"

definition on_config_error :: "payload \<Rightarrow> config_ui \<Rightarrow> config_ui effect" where
  "on_config_error p s =
     invoke_str s (dget_or p ''module'' (PStr [])) (\<lambda>m. invoke_str s (dget_or p ''key'' (PStr [])) (\<lambda>k.
       invoke_str s (dget_or p ''reason'' (PStr ''errore sconosciuto'')) (\<lambda>r. eff_ok (ui_invoke (ShowError m k r) s) [])))"

definition ui_system_start :: "payload \<Rightarrow> config_ui \<Rightarrow> config_ui effect" where
  "ui_system_start p s =
     (if \<not> py_eq_int (dget p ''priority'') 2 then eff_ok s []
      else eff_ok (ui_invoke SetStatus s)
             [(''system.get_modules'', []), (''system.ready'', [(''name'', PStr ''config_ui''), (''priority'', PInt 2)])])"

datatype ui_event =
    UiStart payload
  | UiWindow
  | UiModules payload
  | UiResponse payload
  | UiError payload
  | UiTurn
  | UiEdit string string edit
  | UiEditor string string "step_to list" "editor \<Rightarrow> editor res"
  | UiSave string
  | UiRefresh string
  | UiRefreshAll
  | UiShutdown bool

definition on_tab :: "string \<Rightarrow> (tab \<Rightarrow> tab res \<times> busmsg list) \<Rightarrow> config_ui \<Rightarrow> config_ui effect" where
  "on_tab m f s =
     (case map_of (cu_tabs s) m of
        None \<Rightarrow> eff_ok s []
      | Some t \<Rightarrow> (case f t of (Inl x, ms) \<Rightarrow> (Some x, s, ms) | (Inr t', ms) \<Rightarrow> (None, s\<lparr>cu_tabs := dset m t' (cu_tabs s)\<rparr>, ms)))"

fun ui_handle :: "ui_lib \<Rightarrow> (pyval \<Rightarrow> pyval res) \<Rightarrow> ui_event \<Rightarrow> config_ui \<Rightarrow> config_ui effect" where
  "ui_handle U J (UiStart p) s = ui_system_start p s"
| "ui_handle U J UiWindow s = eff_ok (s\<lparr>cu_window := True\<rparr>) []"
| "ui_handle U J (UiModules p) s = on_modules_response p s"
| "ui_handle U J (UiResponse p) s = on_config_response J p s"
| "ui_handle U J (UiError p) s = on_config_error p s"
| "ui_handle U J UiTurn s = (case cu_slots s of [] \<Rightarrow> eff_ok s [] | sl # sls \<Rightarrow> run_ui_slot U sl (s\<lparr>cu_slots := sls\<rparr>))"
| "ui_handle U J (UiEdit m k e) s = on_tab m (\<lambda>t. (Inr (edit_key U k e t), [])) s"
| "ui_handle U J (UiEditor m k path f) s = on_tab m (\<lambda>t. (edit_editor k path f t, [])) s"
| "ui_handle U J (UiSave m) s = on_tab m (\<lambda>t. if tb_can_save t then (let (t', ms) = on_save U t in (Inr t', ms)) else (Inr t, [])) s"
| "ui_handle U J (UiRefresh m) s = on_tab m (\<lambda>t. (Inr t, [request_config m])) s"
| "ui_handle U J UiRefreshAll s = eff_ok s [(''system.get_modules'', [])]"
| "ui_handle U J (UiShutdown yes) s = eff_ok s (if yes then [(''system.shutdown'', [])] else [])"

section \<open>Values a form gives back\<close>

text \<open>Scalars that the widget of their type shows as they are.\<close>

definition shown_int :: "pyval \<Rightarrow> pyval \<Rightarrow> int \<Rightarrow> bool" where
  "shown_int lo hi i =
     (case (lo, hi) of (PInt l, PInt h) \<Rightarrow> - 2147483648 \<le> l \<and> l \<le> i \<and> i \<le> h \<and> h \<le> 2147483647 | _ \<Rightarrow> False)"

definition shown_scalar :: "scalar \<Rightarrow> pyval \<Rightarrow> bool" where
  "shown_scalar sc v =
     (if sc_type sc = PStr ''bool'' then (case v of PBool b \<Rightarrow> True | _ \<Rightarrow> False)
      else if sc_type sc = PStr ''enum'' then
        (case (v, choice_names (sc_choices sc)) of (PStr s, Inr cs) \<Rightarrow> s \<in> set cs | _ \<Rightarrow> False)
      else if sc_type sc = PStr ''int'' then (case v of PInt i \<Rightarrow> shown_int (sc_min sc) (sc_max sc) i | _ \<Rightarrow> False)
      else if sc_type sc = PStr ''float'' then False
      else (case v of PStr s \<Rightarrow> True | _ \<Rightarrow> False))"

text \<open>A field that may be missing: its form for the default gives no value.\<close>

definition omitted :: "ui_lib \<Rightarrow> node \<Rightarrow> bool" where
  "omitted U n = (case build_node U False n (default_value n) of Inr ed \<Rightarrow> get_value U ed = PNone | Inl x \<Rightarrow> False)"

fun shown :: "ui_lib \<Rightarrow> bool \<Rightarrow> node \<Rightarrow> pyval \<Rightarrow> bool"
  and shown_fields :: "ui_lib \<Rightarrow> (string \<times> node) list \<Rightarrow> payload \<Rightarrow> bool" where
  "shown U co (NScalar sc) v = (shown_scalar sc v \<and> (co \<longrightarrow> coerce_json U v = v))"
| "shown U co (NMessage fs optional) v =
     (distinct (map fst fs) \<and> (case v of PDict d \<Rightarrow> (truthy optional \<longrightarrow> d \<noteq> []) \<and> shown_fields U fs d | _ \<Rightarrow> False))"
| "shown U co (NList item deflt) v =
     (case v of
        PList vs \<Rightarrow>
          (case item of
             NScalar sc \<Rightarrow> (\<forall>x \<in> set vs. shown_scalar sc x)
           | NMessage fs optional \<Rightarrow> (\<forall>x \<in> set vs. shown U True item x)
           | _ \<Rightarrow> vs = [])
      | _ \<Rightarrow> False)"
| "shown U co (NOneof bs active) v = False"
| "shown_fields U [] d = (d = [])"
| "shown_fields U (kn # fs) d =
     (case d of
        [] \<Rightarrow> omitted U (snd kn) \<and> shown_fields U fs []
      | kv # d' \<Rightarrow>
          (if fst kv = fst kn then shown U False (snd kn) (snd kv) \<and> shown_fields U fs d'
           else omitted U (snd kn) \<and> shown_fields U fs d))"

lemma shown_scalar_field:
  assumes "shown_scalar sc v"
  shows "\<exists>f. build_field U v (Some sc) = Inr f \<and> get_field U f = v"
proof -
  have int: "build_int U (PInt i) lo hi = Inr (IntSlider l h i)" if "lo = PInt l" "hi = PInt h" "- 2147483648 \<le> l" "l \<le> i" "i \<le> h" "h \<le> 2147483647" for i l h lo hi
    using that by (simp add: build_int_def or_zero_def c_int_def clamp_def)
  show ?thesis
    using assms
    by (auto simp: shown_scalar_def shown_int_def build_field_def build_bool_def build_enum_def build_string_def int
        split: if_splits pyval.splits sum.splits)
qed

lemma shown_not_none: "shown U co n v \<Longrightarrow> v \<noteq> PNone"
  by (cases n) (auto simp: shown_scalar_def split: if_splits pyval.splits)

lemma shown_fields_keys: "shown_fields U fs d \<Longrightarrow> fst ` set d \<subseteq> fst ` set fs"
proof (induction fs arbitrary: d)
  case (Cons kn fs)
  then show ?case
  proof (cases d)
    case (Cons kv d')
    show ?thesis
    proof (cases "fst kv = fst kn")
      case True
      then have "fst ` set d' \<subseteq> fst ` set fs" using Cons.prems Cons.IH Cons by simp
      then show ?thesis using Cons True by auto
    next
      case False
      then have "shown_fields U fs d" using Cons.prems Cons by simp
      then have "fst ` set d \<subseteq> fst ` set fs" by (rule Cons.IH)
      then show ?thesis by auto
    qed
  qed simp
qed simp

lemma shown_fields_distinct: "shown_fields U fs d \<Longrightarrow> distinct (map fst fs) \<Longrightarrow> distinct (map fst d)"
proof (induction fs arbitrary: d)
  case (Cons kn fs)
  then show ?case
  proof (cases d)
    case (Cons kv d')
    show ?thesis
    proof (cases "fst kv = fst kn")
      case True
      then have d': "shown_fields U fs d'" using Cons.prems Cons by simp
      have "distinct (map fst d')" using Cons.IH [OF d'] Cons.prems by simp
      moreover have "fst kn \<notin> fst ` set d'" using shown_fields_keys [OF d'] Cons.prems by auto
      ultimately show ?thesis using Cons True by simp
    next
      case False
      then have "shown_fields U fs d" using Cons.prems Cons by simp
      then show ?thesis using Cons.IH Cons.prems by simp
    qed
  qed simp
qed simp

text \<open>Only the entries under its own keys decide what a form is built from.\<close>

lemma build_fields_cong:
  "(\<And>k. k \<in> fst ` set fs \<Longrightarrow> map_of d k = map_of e k) \<Longrightarrow> build_fields U fs d = build_fields U fs e"
proof (induction fs)
  case (Cons kn fs)
  have "dget_or d (fst kn) v = dget_or e (fst kn) v" for v using Cons.prems [of "fst kn"] by (simp add: dget_or_def)
  moreover have "build_fields U fs d = build_fields U fs e" using Cons.prems by (intro Cons.IH) auto
  ultimately show ?case by (cases kn) simp
qed simp

definition kept :: "ui_lib \<Rightarrow> (string \<times> editor) list \<Rightarrow> payload" where
  "kept U es = filter (\<lambda>kv. snd kv \<noteq> PNone) (map (\<lambda>kw. (fst kw, get_value U (snd kw))) es)"

lemma get_form: "get_value U (Form es) = PDict (kept U es)"
  by (simp add: kept_def)

lemma kept_simps [simp]:
  "kept U [] = []"
  "kept U ((k, ed) # es) = (if get_value U ed = PNone then kept U es else (k, get_value U ed) # kept U es)"
  by (simp_all add: kept_def)

lemma rows_read_back:
  "(\<And>x. x \<in> set vs \<Longrightarrow> \<exists>y. f x = Inr y \<and> g y = x) \<Longrightarrow> \<exists>ys. map_res f vs = Inr ys \<and> map g ys = vs"
proof (induction vs)
  case (Cons x vs)
  obtain y where y: "f x = Inr y" "g y = x" using Cons.prems [of x] by auto
  obtain ys where ys: "map_res f vs = Inr ys" "map g ys = vs" using Cons.IH Cons.prems by auto
  show ?case by (rule exI [of _ "y # ys"]) (simp add: y ys)
qed simp

lemma form_field_read_back:
  assumes "distinct (map fst ((k, n) # fs))" "shown_fields U ((k, n) # fs) d"
    and here: "\<And>v d'. d = (k, v) # d' \<Longrightarrow> shown U False n v \<Longrightarrow> \<exists>ed. build_node U False n v = Inr ed \<and> get_value U ed = v"
    and rest: "\<And>d'. d' = (if d \<noteq> [] \<and> fst (hd d) = k then tl d else d) \<Longrightarrow> shown_fields U fs d' \<Longrightarrow> \<exists>es. build_fields U fs d' = Inr es \<and> kept U es = d'"
  shows "\<exists>es. build_fields U ((k, n) # fs) d = Inr es \<and> kept U es = d"
proof (cases "d \<noteq> [] \<and> fst (hd d) = k")
  case True
  then obtain v d' where d: "d = (k, v) # d'" by (cases d) auto
  have sh: "shown U False n v" "shown_fields U fs d'" using assms(2) by (simp_all add: d)
  obtain ed where ed: "build_node U False n v = Inr ed" "get_value U ed = v" using here [OF d sh(1)] by auto
  obtain es where es: "build_fields U fs d' = Inr es" "kept U es = d'" using rest [of d'] sh(2) by (auto simp: d)
  have "build_fields U fs d = build_fields U fs d'" using assms(1) by (intro build_fields_cong) (auto simp: d)
  then show ?thesis using ed es shown_not_none [OF sh(1)] by (simp add: d dget_or_def)
next
  case False
  then have sh: "omitted U n" "shown_fields U fs d" using assms(2) by (auto split: list.splits)
  obtain ed where ed: "build_node U False n (default_value n) = Inr ed" "get_value U ed = PNone"
    using sh(1) by (auto simp: omitted_def split: sum.splits)
  obtain es where es: "build_fields U fs d = Inr es" "kept U es = d" using rest [of d] False sh(2) by auto
  have "k \<notin> fst ` set d" using shown_fields_keys [OF sh(2)] assms(1) by auto
  then have "map_of d k = None" by (simp add: map_of_eq_None_iff)
  then show ?thesis using ed es by (simp add: dget_or_def)
qed

lemma form_read_back:
  "shown U co n v \<Longrightarrow> \<exists>ed. build_node U co n v = Inr ed \<and> get_value U ed = v"
  "shown_fields U fs d \<Longrightarrow> distinct (map fst fs) \<Longrightarrow> \<exists>es. build_fields U fs d = Inr es \<and> kept U es = d"
proof (induction U co n v and U fs d rule: shown_shown_fields.induct)
  case (1 U co sc v)
  then show ?case using shown_scalar_field [of sc v U] by auto
next
  case (2 U co fs optional v)
  then obtain d where d: "v = PDict d" "distinct (map fst fs)" "truthy optional \<Longrightarrow> d \<noteq> []" "shown_fields U fs d"
    by (cases v) auto
  obtain es where es: "build_fields U fs d = Inr es" "kept U es = d" using 2 d by auto
  show ?case
    using d(3) es by (cases "truthy optional") (auto simp: d(1) coerce_json_def dict_of_def get_form Let_def simp del: get_value.simps(6))
next
  case (3 U co item deflt v)
  then obtain vs where v: "v = PList vs" by (cases v) auto
  show ?case
  proof (cases item)
    case (NScalar sc)
    then have "\<exists>fs. map_res (\<lambda>x. build_field U x (scalar_item item)) vs = Inr fs \<and> map (get_field U) fs = vs"
      using 3 v by (intro rows_read_back) (simp add: scalar_item_def shown_scalar_field)
    then show ?thesis by (auto simp: NScalar v coerce_json_def list_of_def)
  next
    case (NMessage fs optional)
    have "\<exists>es. map_res (build_node U True item) vs = Inr es \<and> map (get_value U) es = vs"
      using 3 by (intro rows_read_back) (simp add: v NMessage)
    then show ?thesis by (auto simp: NMessage v coerce_json_def list_of_def simp del: build_node.simps(2))
  qed (use 3 v in \<open>auto simp: coerce_json_def list_of_def\<close>)
next
  case (6 U kn fs d)
  obtain k n where kn: "kn = (k, n)" by (cases kn)
  show ?case
    unfolding kn
  proof (rule form_field_read_back)
    show "distinct (map fst ((k, n) # fs))" "shown_fields U ((k, n) # fs) d" using 6 kn by simp_all
  qed (use 6 kn in \<open>cases d; auto split: if_splits\<close>)+
qed simp_all

lemma py_subdict_self:
  "(\<And>kv. kv \<in> set d \<Longrightarrow> map_of e (fst kv) = Some (snd kv) \<and> py_eq (snd kv) (snd kv)) \<Longrightarrow> py_subdict d e"
  by (induction d) auto

lemma py_eqs_self: "(\<And>x. x \<in> set xs \<Longrightarrow> py_eq x x) \<Longrightarrow> py_eqs xs xs"
  by (induction xs) auto

lemma shown_scalar_eq: "shown_scalar sc v \<Longrightarrow> py_eq v v"
  by (cases v) (auto simp: shown_scalar_def split: if_splits)

lemma shown_eq:
  "shown U co n v \<Longrightarrow> py_eq v v"
  "shown_fields U fs d \<Longrightarrow> \<forall>kv \<in> set d. py_eq (snd kv) (snd kv)"
proof (induction U co n v and U fs d rule: shown_shown_fields.induct)
  case (1 U co sc v)
  then show ?case by (auto intro: shown_scalar_eq)
next
  case (2 U co fs optional v)
  then obtain d where d: "v = PDict d" "distinct (map fst fs)" "shown_fields U fs d" by (cases v) auto
  have "py_subdict d d" using 2 d shown_fields_distinct [OF d(3) d(2)] by (intro py_subdict_self) auto
  then show ?case by (simp add: d(1))
next
  case (3 U co item deflt v)
  then obtain vs where v: "v = PList vs" by (cases v) auto
  have "py_eq x x" if "x \<in> set vs" for x using 3 that by (cases item) (auto simp: v intro: shown_scalar_eq)
  then show ?case by (simp add: v py_eqs_self)
next
  case (6 U kn fs d)
  then show ?case
  proof (cases d)
    case (Cons kv d')
    then show ?thesis using 6 by (cases "fst kv = fst kn") auto
  qed simp
qed simp_all

section \<open>Saving a tab\<close>

text \<open>The entries of a configuration that the tab shows as they are, and the ones whose text is not blank.\<close>

definition shown_entry :: "ui_lib \<Rightarrow> schema \<Rightarrow> string \<times> pyval \<Rightarrow> bool" where
  "shown_entry U sch kv =
     (case map_of sch (fst kv) of
        None \<Rightarrow> (case snd kv of PStr s \<Rightarrow> True | _ \<Rightarrow> False)
      | Some (NScalar sc) \<Rightarrow> shown_scalar sc (snd kv)
      | Some n \<Rightarrow> shown U True n (snd kv))"

definition filled :: "ui_lib \<Rightarrow> pyval \<Rightarrow> bool" where
  "filled U v = (py_strip (py_str (ui_text U) v) \<noteq> [])"

definition in_editor :: "schema \<Rightarrow> string \<times> pyval \<Rightarrow> bool" where
  "in_editor sch kv = structured (map_of sch (fst kv)) (snd kv)"

definition field_values :: "ui_lib \<Rightarrow> (string \<times> field) list \<Rightarrow> payload" where
  "field_values U fs = map (\<lambda>kf. (fst kf, get_field U (snd kf))) fs"

definition editor_values :: "ui_lib \<Rightarrow> (string \<times> editor) list \<Rightarrow> payload" where
  "editor_values U es = map (\<lambda>ke. (fst ke, get_value U (snd ke))) es"

lemma shown_entry_editor:
  assumes "shown_entry U sch kv" "in_editor sch kv"
  shows "\<exists>ed. build_form U (map_of sch (fst kv)) (snd kv) = Inr ed \<and> get_value U ed = snd kv"
proof -
  obtain n where n: "map_of sch (fst kv) = Some n" "shown U True n (snd kv)"
    using assms by (auto simp: shown_entry_def in_editor_def structured_def structural_def split: option.splits node.splits pyval.splits)
  show ?thesis using form_read_back(1) [OF n(2)] by (simp add: n(1) build_form_def)
qed

lemma shown_entry_field:
  assumes "shown_entry U sch kv" "\<not> in_editor sch kv"
  shows "\<exists>f. build_field U (snd kv) (case map_of sch (fst kv) of Some (NScalar sc) \<Rightarrow> Some sc | _ \<Rightarrow> None) = Inr f
           \<and> get_field U f = snd kv"
proof (cases "map_of sch (fst kv)")
  case None
  then obtain s where "snd kv = PStr s" using assms(1) by (auto simp: shown_entry_def split: pyval.splits)
  then show ?thesis using None by (simp add: build_field_def build_string_def)
next
  case (Some n)
  then obtain sc where n: "n = NScalar sc" using assms(2) by (cases n) (simp_all add: in_editor_def structured_def)
  then have sc: "shown_scalar sc (snd kv)" using assms(1) Some by (simp add: shown_entry_def)
  then show ?thesis using shown_scalar_field [OF sc, of U] by (auto simp: Some n)
qed

lemma shown_entry_eq:
  assumes "shown_entry U sch kv"
  shows "py_eq (snd kv) (snd kv)" "snd kv \<noteq> PNone"
proof -
  consider (bare) s where "snd kv = PStr s" | (scalar) sc where "shown_scalar sc (snd kv)" | (node) n where "shown U True n (snd kv)"
    using assms by (auto simp: shown_entry_def simp del: shown.simps split: option.splits node.splits pyval.splits)
  note kinds = this
  show "py_eq (snd kv) (snd kv)" by (cases rule: kinds) (auto intro: shown_scalar_eq shown_eq(1))
  show "snd kv \<noteq> PNone"
    by (cases rule: kinds) (auto simp del: shown.simps dest: shown_not_none, simp add: shown_scalar_def split: if_splits)
qed

lemma add_rows_shown:
  "(\<And>kv. kv \<in> set kvs \<Longrightarrow> shown_entry U sch kv) \<Longrightarrow> distinct (map fst kvs) \<Longrightarrow>
   fst ` set kvs \<inter> (fst ` set (tb_fields t) \<union> fst ` set (tb_editors t)) = {} \<Longrightarrow>
   \<exists>fs es. add_rows U sch kvs t = Inr (t\<lparr>tb_fields := tb_fields t @ fs, tb_editors := tb_editors t @ es\<rparr>)
     \<and> field_values U fs = filter (\<lambda>kv. \<not> in_editor sch kv) kvs \<and> editor_values U es = filter (in_editor sch) kvs"
proof (induction kvs arbitrary: t)
  case Nil
  show ?case by (rule exI [of _ "[]"], rule exI [of _ "[]"]) (simp add: field_values_def editor_values_def)
next
  case (Cons kv kvs)
  obtain k v where kv: "kv = (k, v)" by (cases kv)
  have sh: "shown_entry U sch (k, v)" using Cons.prems kv by simp
  have new: "map_of (tb_fields t) k = None" "map_of (tb_editors t) k = None"
    using Cons.prems(3) by (auto simp: kv map_of_eq_None_iff)
  show ?case
  proof (cases "in_editor sch (k, v)")
    case True
    then obtain ed where ed: "build_form U (map_of sch k) v = Inr ed" "get_value U ed = v" using shown_entry_editor [OF sh] by auto
    let ?t = "t\<lparr>tb_editors := tb_editors t @ [(k, ed)]\<rparr>"
    obtain fs es where r: "add_rows U sch kvs ?t = Inr (?t\<lparr>tb_fields := tb_fields ?t @ fs, tb_editors := tb_editors ?t @ es\<rparr>)"
        "field_values U fs = filter (\<lambda>kv. \<not> in_editor sch kv) kvs" "editor_values U es = filter (in_editor sch) kvs"
      using Cons.IH [of ?t] Cons.prems by (auto simp: kv)
    have "structured (map_of sch k) v" using True by (simp add: in_editor_def)
    then show ?thesis
      using r True ed by (intro exI [of _ fs] exI [of _ "(k, ed) # es"]) (simp add: kv dset_new new editor_values_def)
  next
    case False
    then obtain f where f: "build_field U v (case map_of sch k of Some (NScalar sc) \<Rightarrow> Some sc | _ \<Rightarrow> None) = Inr f" "get_field U f = v"
      using shown_entry_field [OF sh] by auto
    let ?t = "t\<lparr>tb_fields := tb_fields t @ [(k, f)]\<rparr>"
    obtain fs es where r: "add_rows U sch kvs ?t = Inr (?t\<lparr>tb_fields := tb_fields ?t @ fs, tb_editors := tb_editors ?t @ es\<rparr>)"
        "field_values U fs = filter (\<lambda>kv. \<not> in_editor sch kv) kvs" "editor_values U es = filter (in_editor sch) kvs"
      using Cons.IH [of ?t] Cons.prems by (auto simp: kv)
    have "\<not> structured (map_of sch k) v" using False by (simp add: in_editor_def)
    then show ?thesis
      using r False f by (intro exI [of _ "(k, f) # fs"] exI [of _ es]) (simp add: kv dset_new new field_values_def)
  qed
qed

text \<open>What \<^verbatim>\<open>populate\<close> makes of such a configuration.\<close>

lemma populate_shown:
  assumes "config \<noteq> []" "distinct (map fst config)" and "\<And>kv. kv \<in> set config \<Longrightarrow> shown_entry U (parse_schema raw) kv"
  shows "\<exists>t'. populate U config raw t = Inr t' \<and> tb_name t' = tb_name t \<and> tb_original t' = config \<and> tb_can_save t'
           \<and> field_values U (tb_fields t') = filter (\<lambda>kv. \<not> in_editor (parse_schema raw) kv) (sort_key fst config)
           \<and> editor_values U (tb_editors t') = filter (in_editor (parse_schema raw)) (sort_key fst config)"
proof -
  let ?t = "t\<lparr>tb_fields := [], tb_editors := [], tb_banner := [], tb_errors := [], tb_original := config, tb_schema := parse_schema raw\<rparr>"
  have "distinct (map fst (sort_key fst config))" using assms(2) by (simp add: distinct_map)
  then obtain fs es where "add_rows U (parse_schema raw) (sort_key fst config) ?t = Inr (?t\<lparr>tb_fields := fs, tb_editors := es\<rparr>)"
      "field_values U fs = filter (\<lambda>kv. \<not> in_editor (parse_schema raw) kv) (sort_key fst config)"
      "editor_values U es = filter (in_editor (parse_schema raw)) (sort_key fst config)"
    using add_rows_shown [of "sort_key fst config" U "parse_schema raw" ?t] assms(3) by auto
  then show ?thesis using assms(1) by (simp add: populate_def Let_def)
qed

lemma field_values_edit:
  "field_values U (tb_fields (edit_key U k e t))
     = map (\<lambda>kf. (fst kf, get_field U (if fst kf = k then edit_field U e (snd kf) else snd kf))) (tb_fields t)"
  by (simp add: field_values_def edit_key_def comp_def if_distrib cong: if_cong)

lemma filter_one_changed:
  assumes "distinct (map fst xs)" "\<And>kv. kv \<in> set xs \<Longrightarrow> \<not> P kv" "(k, v) \<in> set xs"
  shows "filter P (map (\<lambda>kv. if fst kv = k then (k, w) else kv) xs) = (if P (k, w) then [(k, w)] else [])"
  using assms
proof (induction xs)
  case (Cons kv xs)
  have same: "map (\<lambda>kv. if fst kv = k then (k, w) else kv) ys = ys" if "k \<notin> fst ` set ys" for ys :: "('a \<times> 'b) list"
    using that by (induction ys) auto
  show ?case
  proof (cases "fst kv = k")
    case True
    then have "k \<notin> fst ` set xs" using Cons.prems(1) by auto
    moreover have "filter P xs = []" using Cons.prems(2) by simp
    ultimately show ?thesis using True by (simp add: same)
  next
    case False
    then have "(k, v) \<in> set xs" using Cons.prems(3) by auto
    then show ?thesis using False Cons by auto
  qed
qed simp

lemma changed_values_one:
  assumes "collect_all_values U t = map (\<lambda>kv. if fst kv = k then (k, w) else kv) xs" "tb_original t = config"
    and "distinct (map fst xs)" "set xs = set config" "(k, v) \<in> set xs" "\<And>kv. kv \<in> set xs \<Longrightarrow> \<not> value_changed U config kv"
  shows "changed_values U t = (if value_changed U config (k, w) then [(k, w)] else [])"
proof -
  have "map fst (collect_all_values U t) = map fst xs" by (simp add: assms(1) comp_def if_distrib cong: if_cong)
  then have keys: "set (dkeys (collect_all_values U t)) = fst ` set config" using assms(4) by (metis dkeys_def list.set_map)
  have kept: "filter (value_changed U config) (collect_all_values U t) = (if value_changed U config (k, w) then [(k, w)] else [])"
    unfolding assms(1) by (rule filter_one_changed [OF assms(3) _ assms(5)]) (rule assms(6))
  have none: "filter (\<lambda>k. k \<notin> set (dkeys (collect_all_values U t))) (map fst config) = []"
    by (simp add: keys)
  show ?thesis by (simp only: changed_values_def Let_def assms(2) kept none list.map append_Nil2)
qed

lemma not_changed:
  assumes "distinct (map fst config)" "(k, v) \<in> set config" "shown_entry U sch (k, v)"
  shows "\<not> value_changed U config (k, v)"
proof -
  have "dget config k = v" using assms(1,2) by (simp add: dget_def dget_or_def)
  then show ?thesis using shown_entry_eq(1) [OF assms(3)] by (auto simp: value_changed_def split: pyval.splits)
qed

lemma shown_tab:
  assumes "config \<noteq> []" "distinct (map fst config)" and sh: "\<And>kv. kv \<in> set config \<Longrightarrow> shown_entry U (parse_schema raw) kv"
    and pop: "populate U config raw t = Inr t'"
  shows "\<exists>xs. distinct (map fst xs) \<and> set xs = set config \<and> collect_all_values U t' = xs
           \<and> field_values U (tb_fields t') = filter (\<lambda>kv. \<not> in_editor (parse_schema raw) kv) xs
           \<and> editor_values U (tb_editors t') = filter (in_editor (parse_schema raw)) xs
           \<and> tb_original t' = config \<and> tb_name t' = tb_name t"
proof -
  let ?E = "in_editor (parse_schema raw)" and ?s = "sort_key fst config"
  have t': "tb_name t' = tb_name t" "tb_original t' = config"
      "field_values U (tb_fields t') = filter (\<lambda>kv. \<not> ?E kv) ?s" "editor_values U (tb_editors t') = filter ?E ?s"
    using populate_shown [OF assms(1,2) sh, of t] pop by auto
  have "filter (\<lambda>kv. snd kv \<noteq> PNone) (filter ?E ?s) = filter ?E ?s"
    using shown_entry_eq(2) [OF sh] by (intro filter_True) auto
  then have "collect_all_values U t' = filter (\<lambda>kv. \<not> ?E kv) ?s @ filter ?E ?s"
    using t' by (simp add: collect_all_values_def field_values_def editor_values_def)
  moreover have "distinct (map fst ?s)" using assms(2) by (simp add: distinct_map)
  then have "distinct (map fst (filter (\<lambda>kv. \<not> ?E kv) ?s @ filter ?E ?s))"
    by (auto simp: distinct_map distinct_map_filter inj_on_def)
  ultimately show ?thesis
    using t' by (intro exI [of _ "filter (\<lambda>kv. \<not> ?E kv) ?s @ filter ?E ?s"]) auto
qed

lemma missing_fields_alt:
  "missing_fields U t = map fst (filter (\<lambda>kv. \<not> filled U (snd kv)) (field_values U (tb_fields t)))"
  by (simp add: missing_fields_def field_values_def filled_def filter_map comp_def)

lemma on_save_messages:
  "snd (on_save U t) = (if missing_fields U t \<noteq> [] then [] else map (\<lambda>kv. client_set (tb_name t) (fst kv) (snd kv)) (changed_values U t))"
  by (simp add: on_save_def Let_def)

lemma update_one_id: "distinct (map fst xs) \<Longrightarrow> (k, v) \<in> set xs \<Longrightarrow> map (\<lambda>kv. if fst kv = k then (k, v) else kv) xs = xs"
  by (rule map_idI) (auto simp: distinct_map inj_on_def)

lemma field_values_edit_one:
  assumes "distinct (map fst (tb_fields t))" "map_of (tb_fields t) k = Some f"
  shows "field_values U (tb_fields (edit_key U k e t))
           = map (\<lambda>kv. if fst kv = k then (k, get_field U (edit_field U e f)) else kv) (field_values U (tb_fields t))"
proof -
  have "snd kf = f" if "kf \<in> set (tb_fields t)" "fst kf = k" for kf
    using that assms by (metis map_of_is_SomeI option.inject prod.collapse)
  then show ?thesis unfolding field_values_edit by (auto simp: field_values_def)
qed

lemma collect_edit_one:
  assumes "distinct (map fst (collect_all_values U t))" "map_of (tb_fields t) k = Some f"
  shows "collect_all_values U (edit_key U k e t)
           = map (\<lambda>kv. if fst kv = k then (k, get_field U (edit_field U e f)) else kv) (collect_all_values U t)"
proof -
  let ?E = "filter (\<lambda>kv. snd kv \<noteq> PNone) (editor_values U (tb_editors t))"
  have split: "collect_all_values U t' = field_values U (tb_fields t') @ filter (\<lambda>kv. snd kv \<noteq> PNone) (editor_values U (tb_editors t'))" for t'
    by (simp add: collect_all_values_def field_values_def editor_values_def)
  have keys: "map fst (field_values U (tb_fields t)) = map fst (tb_fields t)" by (simp add: field_values_def)
  have "k \<in> fst ` set (tb_fields t)" using assms(2) by (force dest: map_of_SomeD)
  then have "k \<notin> fst ` set ?E" using assms(1) by (metis split distinct_append keys list.set_map map_append disjoint_iff)
  then have "map (\<lambda>kv. if fst kv = k then (k, get_field U (edit_field U e f)) else kv) ?E = ?E" by (intro map_idI) auto
  moreover have "distinct (map fst (tb_fields t))" using assms(1) by (simp add: split keys)
  ultimately show ?thesis
    using field_values_edit_one [OF _ assms(2)] by (simp add: split) (simp add: edit_key_def)
qed

text \<open>A tab that is saved as it was filled publishes nothing, if every value is one its widget shows and no text is blank.\<close>

theorem untouched_save_silent:
  assumes "config \<noteq> []" "distinct (map fst config)" and sh: "\<And>kv. kv \<in> set config \<Longrightarrow> shown_entry U (parse_schema raw) kv"
    and "\<And>kv. kv \<in> set config \<Longrightarrow> \<not> in_editor (parse_schema raw) kv \<Longrightarrow> filled U (snd kv)"
    and pop: "populate U config raw t = Inr t'"
  shows "missing_fields U t' = [] \<and> snd (on_save U t') = []"
proof -
  obtain xs where xs: "distinct (map fst xs)" "set xs = set config" "collect_all_values U t' = xs" "tb_original t' = config"
      "field_values U (tb_fields t') = filter (\<lambda>kv. \<not> in_editor (parse_schema raw) kv) xs"
    using shown_tab [OF assms(1,2) sh pop] by auto
  obtain k v where kv: "(k, v) \<in> set xs" using assms(1) xs(2) by (cases config) auto
  have same: "\<not> value_changed U config kv" if "kv \<in> set xs" for kv
    using not_changed [OF assms(2), of "fst kv" "snd kv" U "parse_schema raw"] sh [of kv] that xs(2) by simp
  have "changed_values U t' = []"
    using changed_values_one [of U t' k v xs config v] same kv by (simp add: xs update_one_id)
  moreover have "missing_fields U t' = []" using assms(4) xs(2) by (auto simp: missing_fields_alt xs(5) filter_empty_conv)
  ultimately show ?thesis by (simp add: on_save_messages)
qed

text \<open>What \<^verbatim>\<open>populate\<close> makes of any configuration: a field or an editor per key, in which a value that the tab shows is
  read back as it was loaded.\<close>

lemma add_rows_keys:
  "add_rows U sch kvs t = Inr t2 \<Longrightarrow> distinct (map fst kvs) \<Longrightarrow> fst ` set kvs \<inter> (fst ` set (tb_fields t) \<union> fst ` set (tb_editors t)) = {} \<Longrightarrow>
   \<exists>fs es. t2 = t\<lparr>tb_fields := tb_fields t @ fs, tb_editors := tb_editors t @ es\<rparr>
     \<and> map fst fs = map fst (filter (\<lambda>kv. \<not> in_editor sch kv) kvs) \<and> map fst es = map fst (filter (in_editor sch) kvs)
     \<and> {kv \<in> set kvs. shown_entry U sch kv} \<subseteq> set (field_values U fs) \<union> set (editor_values U es)"
proof (induction kvs arbitrary: t)
  case Nil
  then show ?case by (intro exI [of _ "[]"]) simp
next
  case (Cons kv kvs)
  obtain k v where kv: "kv = (k, v)" by (cases kv)
  have new: "map_of (tb_fields t) k = None" "map_of (tb_editors t) k = None"
    using Cons.prems(3) by (auto simp: kv map_of_eq_None_iff)
  show ?case
  proof (cases "in_editor sch (k, v)")
    case True
    then have st: "structured (map_of sch k) v" by (simp add: in_editor_def)
    then obtain ed where ed: "build_form U (map_of sch k) v = Inr ed"
      using Cons.prems(1) by (auto simp: kv rbind_def split: sum.splits)
    let ?t = "t\<lparr>tb_editors := tb_editors t @ [(k, ed)]\<rparr>"
    have shows_it: "get_value U ed = v" if "shown_entry U sch (k, v)" using shown_entry_editor [OF that True] ed by simp
    have "add_rows U sch kvs ?t = Inr t2" using Cons.prems(1) st ed by (simp add: kv dset_new new)
    then obtain fs es where r: "t2 = ?t\<lparr>tb_fields := tb_fields ?t @ fs, tb_editors := tb_editors ?t @ es\<rparr>"
        "map fst fs = map fst (filter (\<lambda>kv. \<not> in_editor sch kv) kvs)" "map fst es = map fst (filter (in_editor sch) kvs)"
        "{kv \<in> set kvs. shown_entry U sch kv} \<subseteq> set (field_values U fs) \<union> set (editor_values U es)"
      using Cons.IH [of ?t] Cons.prems(2,3) by (auto simp: kv)
    show ?thesis
      by (rule exI [of _ fs], rule exI [of _ "(k, ed) # es"]) (use r True shows_it in \<open>auto simp: kv editor_values_def\<close>)
  next
    case False
    then have st: "\<not> structured (map_of sch k) v" by (simp add: in_editor_def)
    then obtain f where f: "build_field U v (case map_of sch k of Some (NScalar sc) \<Rightarrow> Some sc | _ \<Rightarrow> None) = Inr f"
      using Cons.prems(1) by (cases "build_field U v (case map_of sch k of Some (NScalar sc) \<Rightarrow> Some sc | _ \<Rightarrow> None)") (simp_all add: kv)
    let ?t = "t\<lparr>tb_fields := tb_fields t @ [(k, f)]\<rparr>"
    have shows_it: "get_field U f = v" if "shown_entry U sch (k, v)" using shown_entry_field [OF that False] f by simp
    have "add_rows U sch kvs ?t = Inr t2" using Cons.prems(1) st f by (simp add: kv dset_new new)
    then obtain fs es where r: "t2 = ?t\<lparr>tb_fields := tb_fields ?t @ fs, tb_editors := tb_editors ?t @ es\<rparr>"
        "map fst fs = map fst (filter (\<lambda>kv. \<not> in_editor sch kv) kvs)" "map fst es = map fst (filter (in_editor sch) kvs)"
        "{kv \<in> set kvs. shown_entry U sch kv} \<subseteq> set (field_values U fs) \<union> set (editor_values U es)"
      using Cons.IH [of ?t] Cons.prems(2,3) by (auto simp: kv)
    show ?thesis
      by (rule exI [of _ "(k, f) # fs"], rule exI [of _ es]) (use r False shows_it in \<open>auto simp: kv field_values_def\<close>)
  qed
qed

lemma filled_tab:
  assumes "config \<noteq> []" "distinct (map fst config)" and pop: "populate U config raw t = Inr t'"
  shows "tb_name t' = tb_name t \<and> tb_original t' = config \<and> distinct (map fst (tb_fields t'))
           \<and> distinct (map fst (collect_all_values U t')) \<and> fst ` set (collect_all_values U t') \<subseteq> fst ` set config
           \<and> {kv \<in> set config. shown_entry U (parse_schema raw) kv} \<subseteq> set (collect_all_values U t')"
proof -
  let ?t = "t\<lparr>tb_fields := [], tb_editors := [], tb_banner := [], tb_errors := [], tb_original := config, tb_schema := parse_schema raw\<rparr>"
    and ?E = "in_editor (parse_schema raw)" and ?s = "sort_key fst config"
  obtain t2 where t2: "add_rows U (parse_schema raw) ?s ?t = Inr t2" "t' = t2\<lparr>tb_can_save := True\<rparr>"
    using pop assms(1) by (auto simp: populate_def Let_def rbind_def split: sum.splits)
  have d: "distinct (map fst ?s)" using assms(2) by (simp add: distinct_map)
  obtain fs es where r: "t2 = ?t\<lparr>tb_fields := fs, tb_editors := es\<rparr>"
      "map fst fs = map fst (filter (\<lambda>kv. \<not> ?E kv) ?s)" "map fst es = map fst (filter ?E ?s)"
      "{kv \<in> set config. shown_entry U (parse_schema raw) kv} \<subseteq> set (field_values U fs) \<union> set (editor_values U es)"
    using add_rows_keys [OF t2(1) d] by auto
  have coll: "collect_all_values U t' = field_values U fs @ filter (\<lambda>kv. snd kv \<noteq> PNone) (editor_values U es)"
    by (simp add: t2(2) r(1) collect_all_values_def field_values_def editor_values_def)
  have keys: "map fst (field_values U fs) = map fst (filter (\<lambda>kv. \<not> ?E kv) ?s)" "map fst (editor_values U es) = map fst (filter ?E ?s)"
    using r(2,3) by (simp_all add: field_values_def editor_values_def comp_def)
  have sub: "fst ` set (field_values U fs) = fst ` {kv \<in> set config. \<not> ?E kv}" "fst ` set (editor_values U es) = fst ` {kv \<in> set config. ?E kv}"
    using arg_cong [OF keys(1), of set] arg_cong [OF keys(2), of set] by simp_all
  have df: "distinct (map fst (field_values U fs))" "distinct (map fst (editor_values U es))"
    unfolding keys using d by (simp_all add: distinct_map_filter)
  have "fst ` {kv \<in> set config. \<not> ?E kv} \<inter> fst ` {kv \<in> set config. ?E kv} = {}"
    using assms(2) by (auto simp: distinct_map inj_on_def)
  then have "distinct (map fst (collect_all_values U t'))" using df sub unfolding coll
    by (simp add: distinct_map_filter) blast
  moreover have "fst ` set (collect_all_values U t') \<subseteq> fst ` set config" using sub unfolding coll by (auto simp: image_Un)
  moreover have "{kv \<in> set config. shown_entry U (parse_schema raw) kv} \<subseteq> set (collect_all_values U t')"
    using r(4) shown_entry_eq(2) unfolding coll by auto
  moreover have "distinct (map fst (tb_fields t'))" using df(1) by (simp add: t2(2) r(1) field_values_def comp_def)
  ultimately show ?thesis by (simp add: t2(2) r(1))
qed

lemma changed_values_keys:
  assumes "distinct (map fst (collect_all_values U t))" "fst ` set (collect_all_values U t) \<subseteq> fst ` set (tb_original t)"
    and "kv \<in> set (collect_all_values U t)" "\<not> value_changed U (tb_original t) kv"
  shows "fst kv \<notin> fst ` set (changed_values U t)"
proof -
  have same: "x = kv" if "x \<in> set (collect_all_values U t)" "fst x = fst kv" for x
    using that assms(1,3) by (auto simp: distinct_map inj_on_def)
  have "fst kv \<in> set (dkeys (collect_all_values U t))" using assms(3) by (simp add: dkeys_def)
  then show ?thesis using same assms(4) by (auto simp: changed_values_def Let_def image_iff)
qed

lemma changed_values_sub: "fst ` set (changed_values U t) \<subseteq> fst ` set (collect_all_values U t) \<union> fst ` set (tb_original t)"
  by (auto simp: changed_values_def Let_def intro: rev_image_eqI)

lemma changed_values_filter:
  assumes "k \<in> set (dkeys (collect_all_values U t))"
  shows "filter (\<lambda>kv. fst kv = k) (changed_values U t)
           = filter (value_changed U (tb_original t)) (filter (\<lambda>kv. fst kv = k) (collect_all_values U t))"
proof -
  have "filter (\<lambda>kv. fst kv = k) (map (\<lambda>k. (k, PNone)) (filter (\<lambda>k. k \<notin> set (dkeys (collect_all_values U t))) ks)) = []" for ks
    using assms by (auto simp: filter_empty_conv)
  then show ?thesis by (simp add: changed_values_def Let_def conj_commute)
qed

lemma filter_one_key: "distinct (map fst xs) \<Longrightarrow> (k, v) \<in> set xs \<Longrightarrow> filter (\<lambda>kv. fst kv = k) xs = [(k, v)]"
  by (induction xs) (auto simp: filter_empty_conv image_iff)

text \<open>C27 The tab is filled from any configuration and the user edits one scalar field. A save then publishes nothing when the
  text of some scalar field is blank (the edited one, or another that was loaded blank). Otherwise it publishes the changed
  values: the edited field with its new value, unless that compares equal to the one that was loaded; and besides it at
  most keys whose loaded value the tab does not show as it is (\<^verbatim>\<open>shown_entry\<close>). Those are republished or removed by any save: a number
  without a full range or one whose type is not the schema's, shown as text; a float between two positions of its slider; a
  None; a oneof. So a tab of shown values, with no blank text, publishes the edited field alone.\<close>

theorem save_sends_the_edit:
  assumes "config \<noteq> []" "distinct (map fst config)" and pop: "populate U config raw t = Inr t'"
    and f: "map_of (tb_fields t') k = Some f"
    and w: "w = get_field U (edit_field U e f)" and t1: "t1 = edit_key U k e t'"
  shows "snd (on_save U t1)
           = (if \<exists>kv \<in> set (field_values U (tb_fields t1)). \<not> filled U (snd kv) then []
              else map (\<lambda>kv. client_set (tb_name t) (fst kv) (snd kv)) (changed_values U t1))
       \<and> filter (\<lambda>kv. fst kv = k) (changed_values U t1) = (if value_changed U config (k, w) then [(k, w)] else [])
       \<and> fst ` set (changed_values U t1) - {k} \<subseteq> fst ` {kv \<in> set config. \<not> shown_entry U (parse_schema raw) kv}"
proof -
  let ?c = "collect_all_values U t'" and ?upd = "\<lambda>kv. if fst kv = k then (k, w) else kv"
  have t': "tb_name t' = tb_name t" "tb_original t' = config" "distinct (map fst (tb_fields t'))" "distinct (map fst ?c)"
      "fst ` set ?c \<subseteq> fst ` set config" "{kv \<in> set config. shown_entry U (parse_schema raw) kv} \<subseteq> set ?c"
    using filled_tab [OF assms(1,2) pop] by blast+
  have same: "tb_original t1 = config" "tb_name t1 = tb_name t" using t'(1,2) by (simp_all add: t1 edit_key_def)
  have coll: "collect_all_values U t1 = map ?upd ?c" using collect_edit_one [OF t'(4) f] by (simp add: t1 w)
  have keys: "map fst (collect_all_values U t1) = map fst ?c" by (simp add: coll comp_def if_distrib cong: if_cong)
  have "(k, get_field U f) \<in> set (field_values U (tb_fields t'))" using f by (force simp: field_values_def dest: map_of_SomeD)
  then have kc: "(k, get_field U f) \<in> set ?c" by (simp add: collect_all_values_def field_values_def)
  then have kw: "(k, w) \<in> set (collect_all_values U t1)" unfolding coll by force
  have d1: "distinct (map fst (collect_all_values U t1))" using t'(4) by (simp add: keys)
  have sub1: "fst ` set (collect_all_values U t1) \<subseteq> fst ` set (tb_original t1)"
    using t'(5) arg_cong [OF keys, of set] same(1) by simp
  have "k \<in> set (dkeys (collect_all_values U t1))" using kw by (force simp: dkeys_def)
  then have one: "filter (\<lambda>kv. fst kv = k) (changed_values U t1) = (if value_changed U config (k, w) then [(k, w)] else [])"
    by (simp add: changed_values_filter filter_one_key [OF d1 kw] same(1))
  have rest: "fst x \<in> fst ` {kv \<in> set config. \<not> shown_entry U (parse_schema raw) kv}" if x: "x \<in> set (changed_values U t1)" "fst x \<noteq> k" for x
  proof -
    have "fst x \<in> fst ` set config" using subsetD [OF changed_values_sub imageI [OF x(1)]] sub1 same(1) by auto
    then obtain v where v: "(fst x, v) \<in> set config" by auto
    have "\<not> shown_entry U (parse_schema raw) (fst x, v)"
    proof
      assume sh: "shown_entry U (parse_schema raw) (fst x, v)"
      then have "(fst x, v) \<in> set ?c" using t'(6) v by blast
      then have "(fst x, v) \<in> set (collect_all_values U t1)" using x(2) unfolding coll by force
      moreover have "\<not> value_changed U config (fst x, v)" by (rule not_changed [OF assms(2) v sh])
      ultimately have "fst (fst x, v) \<notin> fst ` set (changed_values U t1)" by (intro changed_values_keys [OF d1 sub1]) (simp_all add: same(1))
      then show False using x(1) by simp
    qed
    then show ?thesis using v by (intro rev_image_eqI [of "(fst x, v)"]) simp_all
  qed
  have "(missing_fields U t1 \<noteq> []) = (\<exists>kv \<in> set (field_values U (tb_fields t1)). \<not> filled U (snd kv))"
    by (simp add: missing_fields_alt filter_empty_conv)
  moreover have "fst ` set (changed_values U t1) - {k} \<subseteq> fst ` {kv \<in> set config. \<not> shown_entry U (parse_schema raw) kv}" using rest by blast
  ultimately show ?thesis using one by (simp only: on_save_messages same(2) simp_thms)
qed

text \<open>The tab of \<^verbatim>\<open>hostapd_helper\<close>, filled with that module's own schema and defaults.\<close>

definition hostapd_raw :: pyval where
  "hostapd_raw = PDict (projr (schema_to_dict hostapd_schema))"

lemma hostapd_raw_parsed: "parse_schema hostapd_raw = hostapd_schema"
proof -
  have "schema_from_dict (projr (schema_to_dict hostapd_schema)) = Inr hostapd_schema" by code_simp
  then show ?thesis by (simp add: parse_schema_def hostapd_raw_def)
qed

lemma hostapd_defaults:
  "schema_values hostapd_schema =
     [(''interface'', PStr ''wlan0''), (''ssid'', PStr ''AndroidAutoAP''), (''hw_mode'', PStr ''a''), (''channel'', PInt 36),
      (''ap_password'', PStr []), (''subnet'', PStr ''10.0.0''), (''gateway_ip'', PStr ''10.0.0.1''),
      (''dhcp_range_start'', PStr ''10.0.0.10''), (''dhcp_range_end'', PStr ''10.0.0.50''),
      (''country_code'', PStr ''IT''), (''monitor_timeout'', PInt 30)]"
  by code_simp

lemma hostapd_scalars:
  "map_of hostapd_schema ''interface'' = Some (field_string ''wlan0'')" "map_of hostapd_schema ''ssid'' = Some (field_string ''AndroidAutoAP'')"
  "map_of hostapd_schema ''hw_mode'' = Some (projr (field_enum ''a'' [''a'', ''g'']))"
  "map_of hostapd_schema ''channel'' = Some (field_int 36 (PInt 1) (PInt 196))"
  "map_of hostapd_schema ''ap_password'' = Some (field_string [])" "map_of hostapd_schema ''subnet'' = Some (field_string ''10.0.0'')"
  "map_of hostapd_schema ''gateway_ip'' = Some (field_string ''10.0.0.1'')"
  "map_of hostapd_schema ''dhcp_range_start'' = Some (field_string ''10.0.0.10'')"
  "map_of hostapd_schema ''dhcp_range_end'' = Some (field_string ''10.0.0.50'')"
  "map_of hostapd_schema ''country_code'' = Some (field_string ''IT'')"
  "map_of hostapd_schema ''monitor_timeout'' = Some (field_int 30 (PInt 5) (PInt 120))"
  by (simp_all add: hostapd_schema_def)

lemma hostapd_shown:
  "kv \<in> set (schema_values hostapd_schema) \<Longrightarrow> shown_entry U (parse_schema hostapd_raw) kv \<and> \<not> in_editor (parse_schema hostapd_raw) kv"
  unfolding hostapd_raw_parsed hostapd_defaults
  by (auto simp: shown_entry_def in_editor_def structured_def hostapd_scalars field_string_def field_enum_def field_int_def
      shown_scalar_def shown_int_def choice_names_def)

lemma field_kept:
  assumes "k \<notin> fst ` set edits" "(k, v) \<in> set (field_values U (tb_fields t))"
  shows "(k, v) \<in> set (field_values U (tb_fields (fold (\<lambda>(k, e). edit_key U k e) edits t)))"
  using assms
proof (induction edits arbitrary: t)
  case (Cons ke edits)
  obtain k' e where ke: "ke = (k', e)" by (cases ke)
  have "(k, v) \<in> set (field_values U (tb_fields (edit_key U k' e t)))"
    using Cons.prems unfolding field_values_edit by (force simp: ke field_values_def)
  then show ?case using Cons by (simp add: ke)
qed simp

text \<open>The default password of \<^verbatim>\<open>hostapd_helper\<close> is empty, so its tab publishes nothing, whatever else the user edits.\<close>

theorem hostapd_tab_never_saves:
  assumes pop: "populate U (schema_values hostapd_schema) hostapd_raw t = Inr t'"
    and "''ap_password'' \<notin> fst ` set edits"
  shows "snd (on_save U (fold (\<lambda>(k, e). edit_key U k e) edits t')) = []"
proof -
  have c: "schema_values hostapd_schema \<noteq> []" "distinct (map fst (schema_values hostapd_schema))"
      "(''ap_password'', PStr []) \<in> set (schema_values hostapd_schema)"
    unfolding hostapd_defaults by simp_all
  obtain xs where xs: "set xs = set (schema_values hostapd_schema)"
      "field_values U (tb_fields t') = filter (\<lambda>kv. \<not> in_editor (parse_schema hostapd_raw) kv) xs"
    using shown_tab [OF c(1,2) _ pop] hostapd_shown by auto
  then have "(''ap_password'', PStr []) \<in> set (field_values U (tb_fields t'))" using c(3) hostapd_shown by simp
  then have "(''ap_password'', PStr []) \<in> set (field_values U (tb_fields (fold (\<lambda>(k, e). edit_key U k e) edits t')))"
    by (rule field_kept [OF assms(2)])
  moreover have "\<not> filled U (PStr [])" by (simp add: filled_def py_strip_def)
  ultimately have "missing_fields U (fold (\<lambda>(k, e). edit_key U k e) edits t') \<noteq> []"
    by (force simp: missing_fields_alt filter_empty_conv)
  then show ?thesis by (simp add: on_save_messages)
qed

definition demo_ui :: ui_lib where
  "demo_ui = \<lparr>ui_text = demo_text, ui_json = \<lambda>s. None, ui_fixed = \<lambda>x. [], ui_fl = \<lambda>x. x, ui_round10 = \<lambda>x. x\<rparr>"

definition demo_config :: payload where
  "demo_config = dset ''ap_password'' (PStr ''parola'') (schema_values hostapd_schema)"

lemma demo_config_values:
  "demo_config =
     [(''interface'', PStr ''wlan0''), (''ssid'', PStr ''AndroidAutoAP''), (''hw_mode'', PStr ''a''), (''channel'', PInt 36),
      (''ap_password'', PStr ''parola''), (''subnet'', PStr ''10.0.0''), (''gateway_ip'', PStr ''10.0.0.1''),
      (''dhcp_range_start'', PStr ''10.0.0.10''), (''dhcp_range_end'', PStr ''10.0.0.50''),
      (''country_code'', PStr ''IT''), (''monitor_timeout'', PInt 30)]"
  unfolding demo_config_def hostapd_defaults by simp

lemma demo_config_distinct: "demo_config \<noteq> []" "distinct (map fst demo_config)"
  unfolding demo_config_values by simp_all

lemma demo_config_shown: "kv \<in> set demo_config \<Longrightarrow> shown_entry demo_ui (parse_schema hostapd_raw) kv"
  unfolding hostapd_raw_parsed demo_config_values
  by (auto simp: shown_entry_def hostapd_scalars field_string_def field_enum_def field_int_def shown_scalar_def shown_int_def choice_names_def)

lemma demo_config_filled: "kv \<in> set demo_config \<Longrightarrow> filled demo_ui (snd kv)"
proof -
  have "list_all (\<lambda>kv. filled demo_ui (snd kv)) demo_config" unfolding demo_config_values by code_simp
  then show "kv \<in> set demo_config \<Longrightarrow> filled demo_ui (snd kv)" by (simp add: list_all_iff)
qed

definition demo_tab :: "tab res" where
  "demo_tab = populate demo_ui demo_config hostapd_raw (new_tab ''hostapd_helper'' 7 ''running'')"

lemma demo_tab_filled: "\<exists>t'. demo_tab = Inr t'"
  using populate_shown [OF demo_config_distinct demo_config_shown] unfolding demo_tab_def by blast

lemma untouched_save_silent_witness: "\<exists>t'. demo_tab = Inr t' \<and> snd (on_save demo_ui t') = []"
proof -
  obtain t' where t': "demo_tab = Inr t'" using demo_tab_filled by blast
  then have p: "populate demo_ui demo_config hostapd_raw (new_tab ''hostapd_helper'' 7 ''running'') = Inr t'" by (simp add: demo_tab_def)
  have "missing_fields demo_ui t' = [] \<and> snd (on_save demo_ui t') = []"
    by (rule untouched_save_silent [OF demo_config_distinct _ _ p]) (erule demo_config_shown demo_config_filled)+
  then show ?thesis using t' by blast
qed

lemma demo_ssid: "(case demo_tab of Inr t' \<Rightarrow> map_of (tb_fields t') ''ssid'' = Some (LineEdit ''AndroidAutoAP'') | Inl x \<Rightarrow> False)"
  unfolding demo_tab_def demo_config_values hostapd_raw_def by code_simp

lemma save_sends_the_edit_witness:
  "\<exists>t'. demo_tab = Inr t' \<and> snd (on_save demo_ui (edit_key demo_ui ''ssid'' (Typed ''Casa'') t')) = [client_set ''hostapd_helper'' ''ssid'' (PStr ''Casa'')]
     \<and> snd (on_save demo_ui (edit_key demo_ui ''ssid'' (Typed '' '') t')) = []"
proof -
  obtain t' where t': "demo_tab = Inr t'" using demo_tab_filled by blast
  have p: "populate demo_ui demo_config hostapd_raw (new_tab ''hostapd_helper'' 7 ''running'') = Inr t'" using t' by (simp add: demo_tab_def)
  have f: "map_of (tb_fields t') ''ssid'' = Some (LineEdit ''AndroidAutoAP'')" using demo_ssid by (simp add: t')
  have w: "PStr s = get_field demo_ui (edit_field demo_ui (Typed s) (LineEdit ''AndroidAutoAP''))" for s by simp
  note claim = save_sends_the_edit [OF demo_config_distinct p f w refl]
  let ?t = "\<lambda>s. edit_key demo_ui ''ssid'' (Typed s) t'"
  have shown: "{kv \<in> set demo_config. \<not> shown_entry demo_ui (parse_schema hostapd_raw) kv} = {}" using demo_config_shown by blast
  have c: "value_changed demo_ui demo_config (''ssid'', PStr ''Casa'')" unfolding demo_config_values by code_simp
  have fc: "filter (\<lambda>kv. fst kv = ''ssid'') (changed_values demo_ui (?t ''Casa'')) = [(''ssid'', PStr ''Casa'')]"
      "fst ` set (changed_values demo_ui (?t ''Casa'')) - {''ssid''} \<subseteq> {}"
    using claim [of "''Casa''"] unfolding shown by (simp_all add: c)
  have "filter (\<lambda>kv. fst kv = ''ssid'') (changed_values demo_ui (?t ''Casa'')) = changed_values demo_ui (?t ''Casa'')"
    using fc(2) by (intro filter_True) auto
  then have cv: "changed_values demo_ui (?t ''Casa'') = [(''ssid'', PStr ''Casa'')]" using fc(1) by simp
  have fl: "(case demo_tab of Inr t' \<Rightarrow> list_all (\<lambda>kv. filled demo_ui (snd kv)) (field_values demo_ui (tb_fields (edit_key demo_ui ''ssid'' (Typed ''Casa'') t')))
        \<and> \<not> list_all (\<lambda>kv. filled demo_ui (snd kv)) (field_values demo_ui (tb_fields (edit_key demo_ui ''ssid'' (Typed '' '') t'))) | Inl x \<Rightarrow> False)"
    unfolding demo_tab_def demo_config_values hostapd_raw_def by code_simp
  have "\<not> (\<exists>kv \<in> set (field_values demo_ui (tb_fields (?t ''Casa''))). \<not> filled demo_ui (snd kv))"
       "\<exists>kv \<in> set (field_values demo_ui (tb_fields (?t '' ''))). \<not> filled demo_ui (snd kv)"
    using fl by (auto simp: t' list_all_iff)
  then have "snd (on_save demo_ui (?t ''Casa'')) = [client_set ''hostapd_helper'' ''ssid'' (PStr ''Casa'')]" "snd (on_save demo_ui (?t '' '')) = []"
    using claim [of "''Casa''"] claim [of "'' ''"] cv by (simp_all add: new_tab_def)
  then show ?thesis using t' by blast
qed

lemma hostapd_tab_never_saves_witness:
  "\<exists>t'. populate demo_ui (schema_values hostapd_schema) hostapd_raw (new_tab ''hostapd_helper'' 7 ''running'') = Inr t'
     \<and> snd (on_save demo_ui (fold (\<lambda>(k, e). edit_key demo_ui k e) [(''ssid'', Typed ''Casa'')] t')) = []"
proof -
  have c: "schema_values hostapd_schema \<noteq> []" "distinct (map fst (schema_values hostapd_schema))" unfolding hostapd_defaults by simp_all
  obtain t' where t': "populate demo_ui (schema_values hostapd_schema) hostapd_raw (new_tab ''hostapd_helper'' 7 ''running'') = Inr t'"
    using populate_shown [OF c] hostapd_shown by blast
  have "''ap_password'' \<notin> fst ` set [(''ssid'', Typed ''Casa'')]" by simp
  then show ?thesis using hostapd_tab_never_saves [OF t'] t' by blast
qed

text \<open>A oneof is shown under the branch that its value names, and given back without it: saving the tab publishes the bare
  value of the branch.\<close>

theorem oneof_saved_without_branch:
  assumes "(b, n) \<in> set bs" "distinct (map fst bs)" "b \<noteq> []" "shown U True n x" "co \<longrightarrow> coerce_json U (PDict [(b, x)]) = PDict [(b, x)]"
  shows "\<exists>ed. build_node U co (NOneof bs active) (PDict [(b, x)]) = Inr ed \<and> get_value U ed = x"
proof -
  obtain ed where ed: "build_node U True n x = Inr ed" "get_value U ed = x" using form_read_back(1) [OF assms(4)] by blast
  have find: "List.find (\<lambda>c. c = b) (map fst bs) = Some b"
    using assms(1) by (induction bs) auto
  have "build_branch U b bs x = Inr (Some (b, ed))" using assms(1,2) ed(1) by (induction bs) (auto simp: image_iff)
  then have "build_node U co (NOneof bs active) (PDict [(b, x)]) = Inr (OneofEd bs (PDict [(b, x)]) (Some (b, ed)))"
    using assms(3,5) find
    by (cases co) (auto simp: first_branch_def branch_value_def dict_of_def dkeys_def dget_def dget_or_def coerce_json_def)
  then show ?thesis using ed(2) by simp
qed

lemma oneof_saved_without_branch_witness:
  "\<exists>ed. build_node demo_ui False (NOneof [(''usb'', NMessage [] (PBool False))] (PStr ''usb'')) (PDict [(''usb'', PDict [])]) = Inr ed
     \<and> get_value demo_ui ed = PDict []"
  by (rule oneof_saved_without_branch [of _ "NMessage [] (PBool False)"]) simp_all

end
