(* ===== verification/Logging.thy ===== *)
theory Logging
  imports PyText BusClient "HOL-Library.Sublist"
begin

text \<open>
  \<^verbatim>\<open>v2/shared/logger.py\<close>: the loggers of a process, the console sink whose level they set, and the sink that forwards
  records to the bus over a queue of loguru, a queue of its own and a thread that sends. loguru is used through \<^verbatim>\<open>add\<close> and
  \<^verbatim>\<open>remove\<close>: sinks have numbers that are not used again, a level it does not know and a number it does not have raise
  \<^verbatim>\<open>ValueError\<close>, and a sink is given the records of its level or above. Time stamps are arguments of the call.
\<close>

section \<open>Levels\<close>

text \<open>\<open>lg_sev\<close> is the severity loguru gives a level, \<open>lg_std\<close> is \<^verbatim>\<open>getattr(logging, name)\<close>, \<open>lg_fmt\<close> is \<^verbatim>\<open>msg % args\<close>.\<close>

record log_lib =
  lg_sev :: "string \<Rightarrow> int option"
  lg_std :: "string \<Rightarrow> pyval option"
  lg_fmt :: "string \<Rightarrow> pyval list \<Rightarrow> string res"

definition INT_TO_STR :: "(int, string) dict" where
  "INT_TO_STR = [(10, ''DEBUG''), (20, ''INFO''), (30, ''WARNING''), (40, ''ERROR''), (50, ''CRITICAL'')]"

definition level_str :: "int + string \<Rightarrow> string" where
  "level_str lv = (case lv of Inr s \<Rightarrow> py_upper s | Inl i \<Rightarrow> dget_or INT_TO_STR i ''INFO'')"

section \<open>Sinks\<close>

datatype log_sink = ConsoleSink | BusSink

record loguru =
  lu_next :: nat
  lu_sinks :: "(nat, log_sink \<times> string) dict"

definition lu_add :: "log_lib \<Rightarrow> log_sink \<Rightarrow> string \<Rightarrow> loguru \<Rightarrow> (nat \<times> loguru) res" where
  "lu_add L kind level R =
     (case lg_sev L level of
        None \<Rightarrow> Inl ValueError
      | Some n \<Rightarrow> Inr (lu_next R, R\<lparr>lu_next := Suc (lu_next R), lu_sinks := lu_sinks R @ [(lu_next R, (kind, level))]\<rparr>))"

definition lu_remove :: "nat \<Rightarrow> loguru \<Rightarrow> loguru res" where
  "lu_remove i R = (if map_of (lu_sinks R) i = None then Inl ValueError else Inr (R\<lparr>lu_sinks := ddel i (lu_sinks R)\<rparr>))"

definition lu_takes :: "log_lib \<Rightarrow> string \<Rightarrow> nat \<times> log_sink \<times> string \<Rightarrow> bool" where
  "lu_takes L lv sink =
     (case (lg_sev L lv, lg_sev L (snd (snd sink))) of (Some a, Some b) \<Rightarrow> b \<le> a | _ \<Rightarrow> False)"

section \<open>State\<close>

text \<open>\<open>ls_pending\<close> are the records loguru holds for the bus sink, \<open>ls_queue\<close> is \<^verbatim>\<open>_bus_queue\<close>; \<open>ls_pub\<close> tells that socket and
  context are open. A logger is its name with its level.\<close>

record logging =
  ls_lu :: loguru
  ls_console :: nat
  ls_debug :: bool
  ls_loggers :: "(string, pyval) dict"
  ls_bus :: "nat option"
  ls_running :: bool
  ls_pending :: "payload list"
  ls_queue :: "payload list"
  ls_pub :: bool

definition default_level :: "bool \<Rightarrow> string" where
  "default_level dbg = (if dbg then ''DEBUG'' else ''INFO'')"

definition new_logging :: "bool \<Rightarrow> logging" where
  "new_logging dbg =
     \<lparr>ls_lu = \<lparr>lu_next = 2, lu_sinks = [(1, (ConsoleSink, default_level dbg))]\<rparr>, ls_console = 1, ls_debug = dbg, ls_loggers = [],
      ls_bus = None, ls_running = False, ls_pending = [], ls_queue = [], ls_pub = False\<rparr>"

datatype log_out = ConsoleLine string string string | SentEntry payload

type_synonym log_effect = "exn option \<times> logging \<times> log_out list"

section \<open>The bus sink\<close>

text \<open>\<^verbatim>\<open>remove\<close> hands the records that are still pending to the sink first. An exception of it is swallowed.\<close>

definition drop_sink :: "nat option \<Rightarrow> logging \<Rightarrow> logging" where
  "drop_sink i s =
     (case i of
        None \<Rightarrow> s
      | Some i \<Rightarrow>
          (case lu_remove i (ls_lu s) of
             Inl x \<Rightarrow> s\<lparr>ls_bus := None\<rparr>
           | Inr R \<Rightarrow> s\<lparr>ls_lu := R, ls_bus := None, ls_queue := ls_queue s @ ls_pending s, ls_pending := []\<rparr>))"

text \<open>\<open>k\<close> is how many records the thread still sends before it sees that it has to stop.\<close>

definition attach_bus :: "log_lib \<Rightarrow> nat \<Rightarrow> logging \<Rightarrow> log_effect" where
  "attach_bus L k s =
     (let s1 = drop_sink (ls_bus s) s;
          sent = (if ls_running s then map SentEntry (take k (ls_queue s1)) else []);
          s2 = s1\<lparr>ls_queue := [], ls_running := True, ls_pub := True\<rparr>
      in case lu_add L BusSink (default_level (ls_debug s)) (ls_lu s2) of
           Inl x \<Rightarrow> (Some x, s2, sent)
         | Inr (i, R) \<Rightarrow> (None, s2\<lparr>ls_lu := R, ls_bus := Some i\<rparr>, sent))"

definition atexit_cleanup :: "nat \<Rightarrow> logging \<Rightarrow> log_effect" where
  "atexit_cleanup k s =
     (let s1 = drop_sink (ls_bus s) s;
          n = (if ls_running s then min k (length (ls_queue s1)) else 0);
          s2 = s1\<lparr>ls_running := False, ls_pub := False, ls_queue := drop n (ls_queue s1)\<rparr>
      in (None, (case lu_remove (ls_console s2) (ls_lu s2) of Inl x \<Rightarrow> s2 | Inr R \<Rightarrow> s2\<lparr>ls_lu := R\<rparr>),
          map SentEntry (take n (ls_queue s1))))"

definition bus_sink :: "logging \<Rightarrow> logging" where
  "bus_sink s = (case ls_pending s of [] \<Rightarrow> s | e # es \<Rightarrow> s\<lparr>ls_pending := es, ls_queue := ls_queue s @ [e]\<rparr>)"

text \<open>One turn of the thread; \<open>ok\<close> tells that the socket took the message.\<close>

definition log_drain :: "bool \<Rightarrow> logging \<Rightarrow> log_effect" where
  "log_drain ok s =
     (case ls_queue s of
        [] \<Rightarrow> (None, s, [])
      | e # es \<Rightarrow>
          (if \<not> ls_running s then (None, s, [])
           else (None, s\<lparr>ls_queue := es\<rparr>, if ok \<and> ls_pub s then [SentEntry e] else [])))"

section \<open>Loggers\<close>

definition log_manager_get :: "string \<Rightarrow> int \<Rightarrow> logging \<Rightarrow> logging" where
  "log_manager_get name level s =
     (if map_of (ls_loggers s) name = None
      then s\<lparr>ls_loggers := dset name (PInt (if ls_debug s then 10 else level)) (ls_loggers s)\<rparr> else s)"

definition get_logger :: "log_lib \<Rightarrow> string \<Rightarrow> int \<Rightarrow> nat option \<Rightarrow> logging \<Rightarrow> log_effect" where
  "get_logger L name level bus s =
     (case bus of None \<Rightarrow> (None, log_manager_get name level s, []) | Some k \<Rightarrow> attach_bus L k (log_manager_get name level s))"

definition set_verbosity :: "log_lib \<Rightarrow> string \<Rightarrow> int + string \<Rightarrow> logging \<Rightarrow> log_effect" where
  "set_verbosity L name lv s0 =
     (let s = log_manager_get name 20 s0; u = level_str lv;
          level = (case lv of Inl i \<Rightarrow> PInt i | Inr t \<Rightarrow> (case lg_std L u of None \<Rightarrow> PInt 20 | Some v \<Rightarrow> v));
          s1 = s\<lparr>ls_loggers := dset name level (ls_loggers s)\<rparr>
      in case lu_remove (ls_console s1) (ls_lu s1) of
           Inl x \<Rightarrow> (Some x, s1, [])
         | Inr R \<Rightarrow>
             (case lu_add L ConsoleSink u R of
                Inl x \<Rightarrow> (Some x, s1\<lparr>ls_lu := R\<rparr>, [])
              | Inr (i, R') \<Rightarrow> (None, s1\<lparr>ls_lu := R', ls_console := i\<rparr>, [])))"

fun set_all_verbosity :: "log_lib \<Rightarrow> string list \<Rightarrow> int \<Rightarrow> logging \<Rightarrow> log_effect" where
  "set_all_verbosity L [] lv s = (None, s, [])"
| "set_all_verbosity L (n # ns) lv s =
     (case set_verbosity L n (Inl lv) s of
        (Some x, s', out) \<Rightarrow> (Some x, s', out)
      | (None, s', out) \<Rightarrow> (let (x, s'', out') = set_all_verbosity L ns lv s' in (x, s'', out @ out')))"

definition get_verbosity :: "string \<Rightarrow> logging \<Rightarrow> pyval \<times> logging" where
  "get_verbosity name s0 = (let s = log_manager_get name 20 s0 in (dget (ls_loggers s) name, s))"

text \<open>One record: what \<^verbatim>\<open>debug\<close>, \<^verbatim>\<open>info\<close>, \<^verbatim>\<open>warning\<close>, \<^verbatim>\<open>error\<close> and \<^verbatim>\<open>critical\<close> do with their level.\<close>

definition log_text :: "log_lib \<Rightarrow> string \<Rightarrow> pyval list \<Rightarrow> string res" where
  "log_text L msg args = (if args = [] then Inr msg else lg_fmt L msg args)"

definition log_entry :: "string \<Rightarrow> string \<Rightarrow> string \<Rightarrow> pyval \<Rightarrow> payload" where
  "log_entry name lv text ts = [(''module'', PStr name), (''level'', PStr lv), (''message'', PStr text), (''ts'', ts)]"

definition log_call :: "log_lib \<Rightarrow> string \<Rightarrow> string \<Rightarrow> string \<Rightarrow> pyval list \<Rightarrow> pyval \<Rightarrow> logging \<Rightarrow> log_effect" where
  "log_call L lv name msg args ts s =
     (case log_text L msg args of
        Inl x \<Rightarrow> (Some x, s, [])
      | Inr text \<Rightarrow>
          (let taken = filter (lu_takes L lv) (lu_sinks (ls_lu s)) in
           (None, s\<lparr>ls_pending := ls_pending s @ map (\<lambda>_. log_entry name lv text ts) (filter (\<lambda>k. fst (snd k) = BusSink) taken)\<rparr>,
            map (\<lambda>_. ConsoleLine lv name text) (filter (\<lambda>k. fst (snd k) = ConsoleSink) taken))))"

section \<open>Subprocesses\<close>

text \<open>The lines of a pipe as \<^verbatim>\<open>readline\<close> gives them, each with its end.\<close>

fun lines_keep :: "string \<Rightarrow> string list" where
  "lines_keep [] = []"
| "lines_keep (c # s) =
     (if c = CHR 0x0A then [c] # lines_keep s
      else (case lines_keep s of [] \<Rightarrow> [[c]] | l # ls \<Rightarrow> (c # l) # ls))"

datatype sub_wait = SubExit int | SubTimeout exn

text \<open>What the child does: whether it starts, what it writes, how the wait for it ends.\<close>

record child =
  cp_spawn :: "exn option"
  cp_out :: string
  cp_err :: string
  cp_wait :: sub_wait

datatype sub_result = Completed int "string option" "string option" | CalledError int "string option" "string option" | SubRaised exn

datatype log_line = DebugLine string | ErrorLine string

definition reader :: "(string \<Rightarrow> log_line) \<Rightarrow> string \<Rightarrow> string \<Rightarrow> log_line list \<times> string list" where
  "reader f pre text = (map (\<lambda>l. f (pre @ '' '' @ py_strip l)) (lines_keep text), lines_keep text)"

text \<open>The lines that are logged, of both pipes in some order, and the result. When the wait ends with an exception the
  readers are not joined; what they log is still all that is written.\<close>

definition run_subprocess_and_log :: "bool \<Rightarrow> bool \<Rightarrow> child \<Rightarrow> (log_line list \<times> log_line list) \<times> sub_result" where
  "run_subprocess_and_log capture check c =
     (case cp_spawn c of
        Some x \<Rightarrow> (([], [ErrorLine ''Subprocess spawn failed'']), SubRaised x)
      | None \<Rightarrow>
          (let (o1, l1) = (if capture then reader DebugLine ''[subprocess stdout]'' (cp_out c) else ([], []));
               (o2, l2) = (if capture then reader ErrorLine ''[subprocess stderr]'' (cp_err c) else ([], []));
               out = (if capture then Some (concat l1) else None); err = (if capture then Some (concat l2) else None)
           in case cp_wait c of
                SubTimeout x \<Rightarrow> ((o1, o2 @ [ErrorLine ''Subprocess execution failed'']), SubRaised x)
              | SubExit rc \<Rightarrow>
                  (if check \<and> rc \<noteq> 0
                   then ((o1, o2 @ [ErrorLine ''Subprocess execution failed'']), CalledError rc out err)
                   else ((o1, o2), Completed rc out err))))"

lemma concat_lines_keep [simp]: "concat (lines_keep s) = s"
  by (induction s) (auto split: list.splits)

text \<open>With \<^verbatim>\<open>capture_output\<close> the caller gets the output of the child unchanged, and an error exactly for a bad exit when it asked to check.\<close>

lemma subprocess_output:
  assumes "cp_spawn c = None" "cp_wait c = SubExit rc"
  shows "snd (run_subprocess_and_log True check c)
    = (if check \<and> rc \<noteq> 0 then CalledError rc (Some (cp_out c)) (Some (cp_err c)) else Completed rc (Some (cp_out c)) (Some (cp_err c)))"
  using assms by (cases "check \<and> rc \<noteq> 0") (simp_all add: run_subprocess_and_log_def reader_def split_def Let_def)

section \<open>Runs\<close>

datatype log_event =
    LogCall string string string "pyval list" pyval
  | SinkTurn
  | DrainTurn bool
  | SetVerb string "int + string"
  | GetLogger string int "nat option"
  | AtExit nat

fun log_step :: "log_lib \<Rightarrow> logging \<Rightarrow> log_event \<Rightarrow> logging \<times> log_out list" where
  "log_step L s (LogCall lv name msg args ts) = snd (log_call L lv name msg args ts s)"
| "log_step L s SinkTurn = (bus_sink s, [])"
| "log_step L s (DrainTurn ok) = snd (log_drain ok s)"
| "log_step L s (SetVerb name lv) = snd (set_verbosity L name lv s)"
| "log_step L s (GetLogger name level bus) = snd (get_logger L name level bus s)"
| "log_step L s (AtExit k) = snd (atexit_cleanup k s)"

section \<open>The records that reach the bus\<close>

definition entry_of :: "log_out \<Rightarrow> payload list" where
  "entry_of x = (case x of SentEntry p \<Rightarrow> [p] | _ \<Rightarrow> [])"

definition sent_entries :: "log_out list \<Rightarrow> payload list" where
  "sent_entries out = concat (map entry_of out)"

lemma sent_entries_simps [simp]:
  "sent_entries [] = []" "sent_entries (x # xs) = entry_of x @ sent_entries xs"
  "sent_entries (xs @ ys) = sent_entries xs @ sent_entries ys"
  by (simp_all add: sent_entries_def)

text \<open>The records of a run that the bus sink is there for: those at or above its level whose text can be made.\<close>

definition accepted :: "log_lib \<Rightarrow> string \<Rightarrow> log_event \<Rightarrow> payload list" where
  "accepted L threshold e =
     (case e of
        LogCall lv name msg args ts \<Rightarrow>
          (case log_text L msg args of
             Inl x \<Rightarrow> [] | Inr text \<Rightarrow> if lu_takes L lv (0, BusSink, threshold) then [log_entry name lv text ts] else [])
      | _ \<Rightarrow> [])"

definition bus_sinks :: "logging \<Rightarrow> (nat \<times> log_sink \<times> string) list" where
  "bus_sinks s = filter (\<lambda>k. fst (snd k) = BusSink) (lu_sinks (ls_lu s))"

definition attached :: "logging \<Rightarrow> bool" where
  "attached s \<longleftrightarrow>
     (\<exists>i. bus_sinks s = [(i, (BusSink, default_level (ls_debug s)))] \<and> i \<noteq> ls_console s \<and> i < lu_next (ls_lu s)) \<and>
     ls_running s \<and> ls_pub s"

definition forwarding :: "log_event \<Rightarrow> bool" where
  "forwarding e = (case e of GetLogger name level (Some k) \<Rightarrow> False | AtExit k \<Rightarrow> False | _ \<Rightarrow> True)"

lemma filter_comm: "filter P (filter Q xs) = filter Q (filter P xs)"
  by (induction xs) auto

lemma log_call_bus:
  assumes "attached s"
  shows "ls_pending (fst (log_step L s (LogCall lv name msg args ts)))
           = ls_pending s @ accepted L (default_level (ls_debug s)) (LogCall lv name msg args ts)"
    and "sent_entries (snd (log_step L s (LogCall lv name msg args ts))) = []"
proof -
  obtain i where i: "bus_sinks s = [(i, (BusSink, default_level (ls_debug s)))]" using assms by (auto simp: attached_def)
  have "filter (\<lambda>k. fst (snd k) = BusSink) (filter (lu_takes L lv) (lu_sinks (ls_lu s))) = filter (lu_takes L lv) (bus_sinks s)"
    unfolding bus_sinks_def by (rule filter_comm)
  then show "ls_pending (fst (log_step L s (LogCall lv name msg args ts)))
           = ls_pending s @ accepted L (default_level (ls_debug s)) (LogCall lv name msg args ts)"
    by (auto simp: log_call_def accepted_def i lu_takes_def Let_def split: sum.split)
  show "sent_entries (snd (log_step L s (LogCall lv name msg args ts))) = []"
    by (auto simp: log_call_def Let_def sent_entries_def entry_of_def split: sum.split)
qed

lemma ddel_filter: "ddel i d = filter (\<lambda>k. fst k \<noteq> i) d"
  unfolding ddel_def AList.delete_eq by (rule filter_cong) auto

lemma bus_sinks_remove:
  "i \<noteq> j \<Longrightarrow> bus_sinks s = [(j, (BusSink, v))] \<Longrightarrow> lu_remove i (ls_lu s) = Inr R \<Longrightarrow>
   filter (\<lambda>k. fst (snd k) = BusSink) (lu_sinks R) = [(j, (BusSink, v))]"
proof -
  assume a: "i \<noteq> j" "bus_sinks s = [(j, (BusSink, v))]" "lu_remove i (ls_lu s) = Inr R"
  have "lu_sinks R = filter (\<lambda>k. fst k \<noteq> i) (lu_sinks (ls_lu s))"
    using a(3) by (auto simp: lu_remove_def ddel_filter split: if_splits)
  then have "filter (\<lambda>k. fst (snd k) = BusSink) (lu_sinks R) = filter (\<lambda>k. fst k \<noteq> i) (bus_sinks s)"
    unfolding bus_sinks_def by (simp only: filter_comm [of "\<lambda>k. fst (snd k) = BusSink"])
  then show ?thesis using a by simp
qed

lemma step_attached:
  assumes "attached s" "forwarding e"
  shows "attached (fst (log_step L s e)) \<and> ls_debug (fst (log_step L s e)) = ls_debug s"
proof (cases e)
  case (SetVerb name lv)
  obtain i where i: "bus_sinks s = [(i, (BusSink, default_level (ls_debug s)))]" "i \<noteq> ls_console s" "i < lu_next (ls_lu s)"
    using assms(1) by (auto simp: attached_def)
  have "filter (\<lambda>k. fst (snd k) = BusSink) (lu_sinks R) = [(i, (BusSink, default_level (ls_debug s)))]"
    if "lu_remove (ls_console s) (ls_lu s) = Inr R" for R
    using bus_sinks_remove [OF _ i(1) that] i(2) by auto
  then show ?thesis
    using assms(1) i
    by (auto simp: SetVerb set_verbosity_def log_manager_get_def attached_def bus_sinks_def lu_add_def lu_remove_def Let_def
        split: sum.split option.split if_splits)
next
  case (GetLogger name level bus)
  then show ?thesis using assms by (auto simp: get_logger_def log_manager_get_def attached_def bus_sinks_def forwarding_def split: option.splits)
qed (use assms in \<open>auto simp: attached_def bus_sinks_def forwarding_def log_call_def bus_sink_def log_drain_def Let_def split: sum.split list.split\<close>)

lemma step_entries:
  assumes "attached s" "forwarding e"
  shows "let (s', out) = log_step L s e in
      subseq (sent_entries out @ ls_queue s' @ ls_pending s') (ls_queue s @ ls_pending s @ accepted L (default_level (ls_debug s)) e) \<and>
      (e \<noteq> DrainTurn False \<longrightarrow>
         sent_entries out @ ls_queue s' @ ls_pending s' = ls_queue s @ ls_pending s @ accepted L (default_level (ls_debug s)) e)"
proof (cases e)
  case (LogCall lv name msg args ts)
  have "ls_queue (fst (log_step L s e)) = ls_queue s" by (auto simp: LogCall log_call_def Let_def split: sum.split)
  then show ?thesis using log_call_bus [OF assms(1)] by (simp add: LogCall split_def)
next
  case (DrainTurn ok)
  then show ?thesis
    using assms(1) by (cases ok) (auto simp: log_drain_def attached_def accepted_def sent_entries_def entry_of_def split: list.split)
qed (use assms in \<open>auto simp: forwarding_def bus_sink_def accepted_def set_verbosity_def get_logger_def log_manager_get_def Let_def
      split: list.split sum.split option.splits if_splits\<close>)

lemma log_run_forwarded:
  assumes "attached s" "list_all forwarding es" and run: "run_events (log_step L) s es = (s', out)"
  shows "subseq (sent_entries out @ ls_queue s' @ ls_pending s')
           (ls_queue s @ ls_pending s @ concat (map (accepted L (default_level (ls_debug s))) es)) \<and>
         (DrainTurn False \<notin> set es \<longrightarrow>
           sent_entries out @ ls_queue s' @ ls_pending s' =
             ls_queue s @ ls_pending s @ concat (map (accepted L (default_level (ls_debug s))) es))"
  using assms
proof (induction es arbitrary: s s' out)
  case (Cons e es)
  obtain s1 o1 where 1: "log_step L s e = (s1, o1)" by fastforce
  obtain s2 o2 where 2: "run_events (log_step L) s1 es = (s2, o2)" by fastforce
  have out: "s' = s2" "out = o1 @ o2" using Cons.prems(3) by (simp_all add: 1 2 Let_def)
  have f: "forwarding e" "list_all forwarding es" using Cons.prems(2) by simp_all
  have s1: "attached s1" "ls_debug s1 = ls_debug s" using step_attached [OF Cons.prems(1) f(1), of L] by (simp_all add: 1)
  let ?A = "accepted L (default_level (ls_debug s))"
  have hd: "subseq (sent_entries o1 @ ls_queue s1 @ ls_pending s1) (ls_queue s @ ls_pending s @ ?A e)"
      "e \<noteq> DrainTurn False \<Longrightarrow> sent_entries o1 @ ls_queue s1 @ ls_pending s1 = ls_queue s @ ls_pending s @ ?A e"
    using step_entries [OF Cons.prems(1) f(1), of L] by (simp_all add: 1)
  have tl: "subseq (sent_entries o2 @ ls_queue s2 @ ls_pending s2) (ls_queue s1 @ ls_pending s1 @ concat (map ?A es))"
      "DrainTurn False \<notin> set es \<Longrightarrow> sent_entries o2 @ ls_queue s2 @ ls_pending s2 = ls_queue s1 @ ls_pending s1 @ concat (map ?A es)"
    using Cons.IH [OF s1(1) f(2) 2] by (simp_all add: s1(2))
  have "subseq (sent_entries o1 @ sent_entries o2 @ ls_queue s2 @ ls_pending s2)
      (sent_entries o1 @ ls_queue s1 @ ls_pending s1 @ concat (map ?A es))"
    by (rule list_emb_append_mono [OF subseq_order.order_refl tl(1)])
  moreover have "subseq ((sent_entries o1 @ ls_queue s1 @ ls_pending s1) @ concat (map ?A es))
      ((ls_queue s @ ls_pending s @ ?A e) @ concat (map ?A es))"
    by (rule list_emb_append_mono [OF hd(1) subseq_order.order_refl])
  ultimately have "subseq (sent_entries out @ ls_queue s' @ ls_pending s') (ls_queue s @ ls_pending s @ concat (map ?A (e # es)))"
    unfolding out by (simp add: subseq_order.order_trans)
  moreover have "sent_entries out @ ls_queue s' @ ls_pending s' = ls_queue s @ ls_pending s @ concat (map ?A (e # es))"
    if "DrainTurn False \<notin> set (e # es)"
    using hd(2) tl(2) that unfolding out by (metis append.assoc concat.simps(2) list.map(2) list.set_intros(1,2) sent_entries_simps(3))
  ultimately show ?case by blast
qed simp

text \<open>The records of a process are forwarded in the order of the calls: what was sent, what waits in the queue and what loguru holds
  are together the records accepted, without those whose send failed, whatever the interleaving of the threads and the
  verbosity.\<close>

theorem log_records_forwarded:
  assumes "attached s" "list_all forwarding es" and run: "run_events (log_step L) s es = (s', out)"
  shows "subseq (sent_entries out @ ls_queue s' @ ls_pending s')
           (ls_queue s @ ls_pending s @ concat (map (accepted L (default_level (ls_debug s))) es)) \<and>
         (DrainTurn False \<notin> set es \<longrightarrow>
           sent_entries out @ ls_queue s' @ ls_pending s' =
             ls_queue s @ ls_pending s @ concat (map (accepted L (default_level (ls_debug s))) es))"
  using assms by (rule log_run_forwarded)

definition demo_log :: log_lib where
  "demo_log = \<lparr>lg_sev = map_of [(''DEBUG'', 10), (''INFO'', 20), (''WARNING'', 30), (''ERROR'', 40), (''CRITICAL'', 50)],
     lg_std = \<lambda>s. None, lg_fmt = \<lambda>m args. Inl TypeError\<rparr>"

definition demo_attached :: logging where
  "demo_attached = fst (snd (get_logger demo_log ''m'' 20 (Some 0) (new_logging False)))"

lemma demo_attached_ok: "attached demo_attached"
  by (simp add: demo_attached_def get_logger_def log_manager_get_def attach_bus_def new_logging_def drop_sink_def lu_add_def
      demo_log_def default_level_def attached_def bus_sinks_def Let_def)

lemma log_records_forwarded_witness:
  "\<exists>s' out. run_events (log_step demo_log) demo_attached [LogCall ''INFO'' ''m'' ''hi'' [] (PInt 5), SinkTurn, DrainTurn True] = (s', out) \<and>
     sent_entries out @ ls_queue s' @ ls_pending s' = [log_entry ''m'' ''INFO'' ''hi'' (PInt 5)]"
proof -
  let ?es = "[LogCall ''INFO'' ''m'' ''hi'' [] (PInt 5), SinkTurn, DrainTurn True]"
  obtain s' out where r: "run_events (log_step demo_log) demo_attached ?es = (s', out)" by fastforce
  have f: "list_all forwarding ?es" by (simp add: forwarding_def)
  have e: "ls_queue demo_attached @ ls_pending demo_attached @ concat (map (accepted demo_log (default_level (ls_debug demo_attached))) ?es)
      = [log_entry ''m'' ''INFO'' ''hi'' (PInt 5)]"
    by (simp add: demo_attached_def get_logger_def log_manager_get_def attach_bus_def new_logging_def drop_sink_def lu_add_def
        demo_log_def default_level_def accepted_def log_text_def lu_takes_def Let_def)
  show ?thesis
    using log_records_forwarded [OF demo_attached_ok f r] r unfolding e by auto
qed

section \<open>The console\<close>

definition is_console :: "log_out \<Rightarrow> bool" where
  "is_console x = (case x of ConsoleLine lv name text \<Rightarrow> True | _ \<Rightarrow> False)"

definition muted :: "logging \<Rightarrow> bool" where
  "muted s \<longleftrightarrow> list_all (\<lambda>k. fst (snd k) \<noteq> ConsoleSink) (lu_sinks (ls_lu s)) \<and> map_of (lu_sinks (ls_lu s)) (ls_console s) = None \<and>
     ls_console s < lu_next (ls_lu s)"

lemma muted_remove:
  "list_all (\<lambda>k. fst (snd k) \<noteq> ConsoleSink) (lu_sinks R) \<Longrightarrow> map_of (lu_sinks R) c = None \<Longrightarrow> lu_remove i R = Inr R' \<Longrightarrow>
   list_all (\<lambda>k. fst (snd k) \<noteq> ConsoleSink) (lu_sinks R') \<and> map_of (lu_sinks R') c = None \<and> lu_next R' = lu_next R"
  by (auto simp: lu_remove_def ddel_filter list_all_iff map_of_eq_None_iff split: if_splits)

lemma muted_drop: "muted s \<Longrightarrow> muted (drop_sink i s)"
  using muted_remove [of "ls_lu s" "ls_console s"] by (auto simp: drop_sink_def muted_def split: option.split sum.split)

lemma muted_attach: "muted s \<Longrightarrow> muted (fst (snd (attach_bus L k s)))"
  using muted_drop [of s "ls_bus s"] by (auto simp: attach_bus_def lu_add_def muted_def Let_def split: option.split)

lemma muted_exit: "muted s \<Longrightarrow> muted (fst (snd (atexit_cleanup k s)))"
  using muted_drop [of s "ls_bus s"] by (auto simp: atexit_cleanup_def lu_remove_def muted_def Let_def)

lemma muted_step: "muted s \<Longrightarrow> muted (fst (log_step L s e))"
proof (cases e)
  case (GetLogger name level bus)
  assume m: "muted s"
  then have "muted (log_manager_get name level s)" by (simp add: log_manager_get_def muted_def)
  then show ?thesis using muted_attach by (cases bus) (simp_all add: GetLogger get_logger_def)
next
  case (AtExit k)
  assume "muted s"
  then show ?thesis using muted_exit by (simp add: AtExit)
qed (auto simp: log_call_def bus_sink_def log_drain_def set_verbosity_def log_manager_get_def lu_remove_def muted_def Let_def
      split: sum.split list.split)

lemma muted_out: "muted s \<Longrightarrow> x \<in> set (snd (log_step L s e)) \<Longrightarrow> \<not> is_console x"
  by (cases e)
    (auto simp: log_call_def log_drain_def set_verbosity_def get_logger_def attach_bus_def atexit_cleanup_def log_manager_get_def lu_remove_def
      muted_def is_console_def list_all_iff Let_def split: sum.splits list.splits option.splits if_splits)

interpretation mute: event_machine "log_step L" muted "\<lambda>x. \<not> is_console x" for L
  by unfold_locales (auto simp: muted_step muted_out)

text \<open>The only console sink is the one the module knows.\<close>

definition console_ok :: "logging \<Rightarrow> bool" where
  "console_ok s \<longleftrightarrow> (\<exists>v. filter (\<lambda>k. fst (snd k) = ConsoleSink) (lu_sinks (ls_lu s)) = [(ls_console s, v)]) \<and>
     distinct (map fst (lu_sinks (ls_lu s))) \<and> ls_console s < lu_next (ls_lu s)"

lemma removed_console:
  assumes "console_ok s" "lu_remove (ls_console s) (ls_lu s) = Inr R"
  shows "list_all (\<lambda>k. fst (snd k) \<noteq> ConsoleSink) (lu_sinks R) \<and> map_of (lu_sinks R) (ls_console s) = None \<and> ls_console s < lu_next R"
proof -
  obtain v where v: "filter (\<lambda>k. fst (snd k) = ConsoleSink) (lu_sinks (ls_lu s)) = [(ls_console s, v)]" using assms(1) by (auto simp: console_ok_def)
  have "fst k = ls_console s" if "k \<in> set (lu_sinks (ls_lu s))" "fst (snd k) = ConsoleSink" for k
  proof -
    have "k \<in> set (filter (\<lambda>k. fst (snd k) = ConsoleSink) (lu_sinks (ls_lu s)))" using that by simp
    then show ?thesis unfolding v by simp
  qed
  then show ?thesis
    using assms by (auto simp: lu_remove_def ddel_filter list_all_iff map_of_eq_None_iff console_ok_def split: if_splits)
qed

text \<open>A level name that loguru does not know raises after the console sink has been removed: from then on the process writes
  nothing to its console, whatever it logs and whichever level is set later.\<close>

theorem bad_level_mutes_console:
  assumes "console_ok s" "lg_sev L (py_upper t) = None" "set_verbosity L name (Inr t) s = (x, s', out)"
  shows "x = Some ValueError \<and> list_all (\<lambda>y. \<not> is_console y) (snd (run_events (log_step L) s' es))"
proof -
  have s: "console_ok (log_manager_get name 20 s)" using assms(1) by (simp add: log_manager_get_def console_ok_def)
  have lu: "ls_lu (log_manager_get name 20 s) = ls_lu s" "ls_console (log_manager_get name 20 s) = ls_console s"
    by (simp_all add: log_manager_get_def)
  obtain v where "filter (\<lambda>k. fst (snd k) = ConsoleSink) (lu_sinks (ls_lu s)) = [(ls_console s, v)]" using assms(1) by (auto simp: console_ok_def)
  then have "(ls_console s, v) \<in> set (lu_sinks (ls_lu s))" by (metis filter_is_subset list.set_intros(1) subsetD)
  then have "map_of (lu_sinks (ls_lu s)) (ls_console s) \<noteq> None" by (metis map_of_eq_None_iff image_eqI fst_conv)
  then obtain R where R: "lu_remove (ls_console s) (ls_lu s) = Inr R" by (auto simp: lu_remove_def)
  have "x = Some ValueError \<and> ls_lu s' = R \<and> ls_console s' = ls_console s"
    using assms(2,3) by (auto simp: set_verbosity_def level_str_def lu_add_def lu R Let_def)
  moreover from this have "muted s'" using removed_console [OF assms(1) R] by (simp add: muted_def)
  then have "list_all (\<lambda>y. \<not> is_console y) (snd (run_events (log_step L) s' es))"
    unfolding list_all_iff using mute.run_good by blast
  ultimately show ?thesis by blast
qed

lemma bad_level_mutes_console_witness:
  "fst (set_verbosity demo_log ''m'' (Inr ''warn'') (new_logging False)) = Some ValueError \<and>
   list_all (\<lambda>y. \<not> is_console y) (snd (run_events (log_step demo_log) (fst (snd (set_verbosity demo_log ''m'' (Inr ''warn'') (new_logging False))))
     [SetVerb ''m'' (Inr ''DEBUG''), LogCall ''ERROR'' ''m'' ''lost'' [] (PInt 1)]))"
proof -
  have "console_ok (new_logging False)" by (simp add: console_ok_def new_logging_def)
  moreover have "lg_sev demo_log (py_upper ''warn'') = None" by code_simp
  ultimately show ?thesis
    using bad_level_mutes_console [of "new_logging False" demo_log "''warn''" "''m''"] by (metis prod.collapse)
qed

end
