(* ===== verification/LogViewer.thy ===== *)
theory LogViewer
  imports Logging ChannelBase
begin

text \<open>
  \<^verbatim>\<open>v2/modules/log_viewer/main.py\<close>: records from the bus are buffered, and a timer of the window appends them to the text and
  cuts the oldest rows. The text is its list of blocks; how Qt breaks an inserted text into blocks and a block into rows is a
  parameter. Colours and the scroll bar are left out.
\<close>

section \<open>State\<close>

text \<open>\<open>ve_clock\<close> is the time stamp as text, \<open>ve_now\<close> the time of the call.\<close>

record view_env =
  ve_text :: py_text
  ve_clock :: "pyval \<Rightarrow> string res"
  ve_now :: pyval
  ve_blocks :: "string \<Rightarrow> string list"
  ve_rows :: "string \<Rightarrow> string list"

definition viewer_schema :: schema where
  "viewer_schema = [(''max_lines'', field_int 500 (PInt 50) (PInt 10000))]"

definition LEVEL_ORDER :: "string list" where
  "LEVEL_ORDER = [''DEBUG'', ''INFO'', ''WARNING'', ''ERROR'', ''CRITICAL'']"

type_synonym log_record = "string \<times> string \<times> string \<times> string"

record viewer =
  lv_config :: payload
  lv_listening :: bool
  lv_buffer :: "log_record list"
  lv_doc :: "string list"
  lv_count :: int
  lv_filter :: string

definition new_viewer :: viewer where
  "new_viewer = \<lparr>lv_config = schema_values viewer_schema, lv_listening = False, lv_buffer = [], lv_doc = [], lv_count = 0,
     lv_filter = ''ALL''\<rparr>"

section \<open>Configuration\<close>

definition viewer_ready :: busmsg where
  "viewer_ready = (''system.ready'', [(''name'', PStr ''log_viewer''), (''priority'', PInt 2)])"

definition viewer_config_loaded :: "payload \<Rightarrow> viewer \<Rightarrow> viewer effect" where
  "viewer_config_loaded config s =
     (if config = [] then eff_ok s []
      else eff_ok (s\<lparr>lv_config := merge_config viewer_schema config, lv_listening := True\<rparr>) [viewer_ready])"

definition viewer_config_changed :: "string \<Rightarrow> pyval \<Rightarrow> viewer \<Rightarrow> viewer" where
  "viewer_config_changed key v s =
     (if key \<notin> set (dkeys viewer_schema) \<or> structural v then s else s\<lparr>lv_config := dset key v (lv_config s)\<rparr>)"

definition viewer_system_start :: "payload \<Rightarrow> viewer \<Rightarrow> viewer effect" where
  "viewer_system_start p s =
     (if \<not> py_eq_int (dget p ''priority'') 2 then eff_ok s []
      else eff_res s (client_get ''log_viewer'' None (Some viewer_schema)) (\<lambda>m. eff_ok s [m]))"

section \<open>Records\<close>

definition record_of :: "view_env \<Rightarrow> payload \<Rightarrow> log_record res" where
  "record_of E p =
     rbind (ve_clock E (dget_or p ''ts'' (ve_now E))) (\<lambda>t.
       Inr (t, py_str (ve_text E) (dget_or p ''module'' (PStr ''unknown'')), py_upper (py_str (ve_text E) (dget_or p ''level'' (PStr ''INFO''))),
            py_str (ve_text E) (dget_or p ''message'' (PStr []))))"

definition on_log_entry :: "view_env \<Rightarrow> payload \<Rightarrow> viewer \<Rightarrow> viewer effect" where
  "on_log_entry E p s = eff_res s (record_of E p) (\<lambda>r. eff_ok (s\<lparr>lv_buffer := lv_buffer s @ [r]\<rparr>) [])"

definition rjust :: "nat \<Rightarrow> string \<Rightarrow> string" where
  "rjust n s = replicate (n - length s) CHR '' '' @ s"

definition ljust :: "nat \<Rightarrow> string \<Rightarrow> string" where
  "ljust n s = s @ replicate (n - length s) CHR '' ''"

fun line_of :: "log_record \<Rightarrow> string" where
  "line_of (t, m, l, msg) = ''['' @ t @ ''] ['' @ rjust 20 m @ ''] ['' @ ljust 8 l @ ''] '' @ msg"

fun level_index :: "string list \<Rightarrow> string \<Rightarrow> nat option" where
  "level_index [] l = None"
| "level_index (x # xs) l = (if x = l then Some 0 else map_option Suc (level_index xs l))"

definition level_hidden :: "string \<Rightarrow> string \<Rightarrow> bool" where
  "level_hidden flt l =
     (flt \<noteq> ''ALL'' \<and> (case (level_index LEVEL_ORDER l, level_index LEVEL_ORDER flt) of (Some i, Some j) \<Rightarrow> i < j | _ \<Rightarrow> False))"

section \<open>The text\<close>

text \<open>What is left of the text when its first \<open>k\<close> rows are removed.\<close>

fun drop_rows :: "(string \<Rightarrow> string list) \<Rightarrow> nat \<Rightarrow> string list \<Rightarrow> string list" where
  "drop_rows rows k [] = []"
| "drop_rows rows k (b # bs) =
     (if k = 0 then b # bs
      else if length (rows b) \<le> k then drop_rows rows (k - length (rows b)) bs
      else concat (drop k (rows b)) # bs)"

definition shown_records :: "viewer \<Rightarrow> log_record list" where
  "shown_records s = filter (\<lambda>r. \<not> level_hidden (lv_filter s) (fst (snd (snd r)))) (lv_buffer s)"

definition flush_log_buffer :: "view_env \<Rightarrow> viewer \<Rightarrow> viewer effect" where
  "flush_log_buffer E s =
     (if lv_buffer s = [] then eff_ok s []
      else (let s1 = s\<lparr>lv_buffer := []\<rparr> in
        eff_res s1 (py_int (dget_or (lv_config s) ''max_lines'' (PInt 500))) (\<lambda>m.
          let lines = map line_of (shown_records s);
              s2 = s1\<lparr>lv_doc := lv_doc s @ concat (map (ve_blocks E) lines), lv_count := lv_count s + int (length lines)\<rparr>
          in eff_ok (if m < lv_count s2
                     then s2\<lparr>lv_doc := drop_rows (ve_rows E) (nat (lv_count s2 - m)) (lv_doc s2), lv_count := m\<rparr> else s2) [])))"

definition on_clear_clicked :: "viewer \<Rightarrow> viewer" where
  "on_clear_clicked s = s\<lparr>lv_doc := [], lv_count := 0\<rparr>"

definition on_filter_changed :: "string \<Rightarrow> viewer \<Rightarrow> viewer" where
  "on_filter_changed l s = s\<lparr>lv_filter := l\<rparr>"

section \<open>Events\<close>

datatype view_event =
    VwStart payload
  | VwLoaded payload
  | VwChanged string pyval
  | VwEntry payload
  | VwFlush
  | VwClear
  | VwFilter string

fun view_handle :: "view_env \<Rightarrow> view_event \<Rightarrow> viewer \<Rightarrow> viewer effect" where
  "view_handle E (VwStart p) s = viewer_system_start p s"
| "view_handle E (VwLoaded config) s = viewer_config_loaded config s"
| "view_handle E (VwChanged key v) s = eff_ok (viewer_config_changed key v s) []"
| "view_handle E (VwEntry p) s = (if lv_listening s then on_log_entry E p s else eff_ok s [])"
| "view_handle E VwFlush s = flush_log_buffer E s"
| "view_handle E VwClear s = eff_ok (on_clear_clicked s) []"
| "view_handle E (VwFilter l) s = eff_ok (on_filter_changed l s) []"

definition view_step :: "view_env \<Rightarrow> viewer \<Rightarrow> view_event \<Rightarrow> viewer \<times> busmsg list" where
  "view_step E s e = (eff_state (view_handle E e s), eff_msgs (view_handle E e s))"

section \<open>The newest lines\<close>

definition lastn :: "nat \<Rightarrow> 'a list \<Rightarrow> 'a list" where
  "lastn m xs = drop (length xs - m) xs"

lemma length_lastn [simp]: "length (lastn m xs) = min (length xs) m"
  by (simp add: lastn_def)

lemma lastn_all [simp]: "length xs \<le> m \<Longrightarrow> lastn m xs = xs"
  by (simp add: lastn_def)

text \<open>The promise: lines are appended in order and the newest are kept.\<close>

record view_spec =
  sp_config :: payload
  sp_listening :: bool
  sp_waiting :: "log_record list"
  sp_lines :: "string list"
  sp_filter :: string

definition max_lines :: "payload \<Rightarrow> nat" where
  "max_lines config = (case dget_or config ''max_lines'' (PInt 500) of PInt i \<Rightarrow> nat i | _ \<Rightarrow> 0)"

fun spec_step :: "view_env \<Rightarrow> view_spec \<Rightarrow> view_event \<Rightarrow> view_spec" where
  "spec_step E a (VwLoaded config) =
     (if config = [] then a else a\<lparr>sp_config := merge_config viewer_schema config, sp_listening := True\<rparr>)"
| "spec_step E a (VwChanged key v) =
     (if key \<in> set (dkeys viewer_schema) \<and> \<not> structural v then a\<lparr>sp_config := dset key v (sp_config a)\<rparr> else a)"
| "spec_step E a (VwEntry p) =
     (case record_of E p of Inr r \<Rightarrow> if sp_listening a then a\<lparr>sp_waiting := sp_waiting a @ [r]\<rparr> else a | Inl x \<Rightarrow> a)"
| "spec_step E a VwFlush =
     (if sp_waiting a = [] then a
      else a\<lparr>sp_waiting := [],
        sp_lines := lastn (max_lines (sp_config a))
          (sp_lines a @ map line_of (filter (\<lambda>r. \<not> level_hidden (sp_filter a) (fst (snd (snd r)))) (sp_waiting a)))\<rparr>)"
| "spec_step E a VwClear = a\<lparr>sp_lines := []\<rparr>"
| "spec_step E a (VwFilter l) = a\<lparr>sp_filter := l\<rparr>"
| "spec_step E a (VwStart p) = a"

definition view_abs :: "viewer \<Rightarrow> view_spec" where
  "view_abs s = \<lparr>sp_config = lv_config s, sp_listening = lv_listening s, sp_waiting = lv_buffer s, sp_lines = lv_doc s,
     sp_filter = lv_filter s\<rparr>"

text \<open>A line that Qt keeps as one block of one row, a limit that is a number, and the events that leave both so.\<close>

definition plain :: "view_env \<Rightarrow> string \<Rightarrow> bool" where
  "plain E l \<longleftrightarrow> ve_blocks E l = [l] \<and> length (ve_rows E l) = 1"

definition limit_ok :: "pyval \<Rightarrow> bool" where
  "limit_ok v = (case v of PInt i \<Rightarrow> 0 \<le> i | _ \<Rightarrow> False)"

definition view_inv :: "view_env \<Rightarrow> viewer \<Rightarrow> bool" where
  "view_inv E s \<longleftrightarrow> lv_count s = int (length (lv_doc s)) \<and> list_all (plain E) (lv_doc s) \<and> list_all (\<lambda>r. plain E (line_of r)) (lv_buffer s)
     \<and> limit_ok (dget_or (lv_config s) ''max_lines'' (PInt 500))"

definition view_ok :: "view_env \<Rightarrow> view_event \<Rightarrow> bool" where
  "view_ok E e =
     (case e of
        VwEntry p \<Rightarrow> (case record_of E p of Inr r \<Rightarrow> plain E (line_of r) | Inl x \<Rightarrow> True)
      | VwChanged key v \<Rightarrow> limit_ok v
      | VwLoaded config \<Rightarrow> limit_ok (dget_or (merge_config viewer_schema config) ''max_lines'' (PInt 500))
      | _ \<Rightarrow> True)"

lemma drop_rows_plain:
  "list_all (plain E) bs \<Longrightarrow> drop_rows (ve_rows E) k bs = drop k bs"
  by (induction bs arbitrary: k) (auto simp: plain_def drop_Cons' Suc_le_eq)

lemma concat_plain: "list_all (plain E) ls \<Longrightarrow> concat (map (ve_blocks E) ls) = ls"
  by (induction ls) (auto simp: plain_def)

text \<open>A flush, for lines in any number of rows while the limit is not reached, and for lines of one row in general.\<close>

lemma flush_below:
  assumes "lv_buffer s \<noteq> []" "dget_or (lv_config s) ''max_lines'' (PInt 500) = PInt m"
    and "lv_count s + int (length (shown_records s)) \<le> m"
  shows "flush_log_buffer E s = eff_ok (s\<lparr>lv_buffer := [], lv_doc := lv_doc s @ concat (map (ve_blocks E) (map line_of (shown_records s))),
    lv_count := lv_count s + int (length (shown_records s))\<rparr>) []"
  using assms by (simp add: flush_log_buffer_def Let_def)

lemma flush_plain:
  assumes "lv_buffer s \<noteq> []" "dget_or (lv_config s) ''max_lines'' (PInt 500) = PInt m" "0 \<le> m"
    and "lv_count s = int (length (lv_doc s))" "list_all (plain E) (lv_doc s)" "list_all (plain E) (map line_of (shown_records s))"
  shows "\<exists>s'. flush_log_buffer E s = eff_ok s' [] \<and> lv_doc s' = lastn (nat m) (lv_doc s @ map line_of (shown_records s)) \<and>
    lv_count s' = int (length (lv_doc s')) \<and> lv_buffer s' = [] \<and> lv_config s' = lv_config s \<and> lv_listening s' = lv_listening s \<and>
    lv_filter s' = lv_filter s"
proof -
  define L where "L = map line_of (shown_records s)"
  have p: "list_all (plain E) L" using assms(6) by (simp add: L_def)
  have d: "list_all (plain E) (lv_doc s @ L)" using assms(5) p by simp
  have k: "nat (int (length (lv_doc s)) + int (length L) - m) = length (lv_doc s @ L) - nat m" using assms(3) by simp
  have r: "drop_rows (ve_rows E) (length (lv_doc s @ L) - nat m) (lv_doc s @ L) = lastn (nat m) (lv_doc s @ L)"
    by (simp only: drop_rows_plain [OF d] lastn_def)
  have f: "flush_log_buffer E s =
      eff_ok (if m < int (length (lv_doc s)) + int (length L)
              then s\<lparr>lv_buffer := [], lv_doc := lastn (nat m) (lv_doc s @ L), lv_count := m\<rparr>
              else s\<lparr>lv_buffer := [], lv_doc := lv_doc s @ L, lv_count := int (length (lv_doc s)) + int (length L)\<rparr>) []"
    using assms(1) by (simp add: flush_log_buffer_def assms(2,4) Let_def L_def [symmetric] concat_plain [OF p] k r del: length_append)
  have le: "length (lv_doc s @ L) \<le> nat m" if "\<not> m < int (length (lv_doc s)) + int (length L)" using that by simp
  show ?thesis
    unfolding f L_def [symmetric] using assms(3) le by (cases "m < int (length (lv_doc s)) + int (length L)") auto
qed

lemma flush_newest:
  assumes "view_inv E s" "lv_buffer s \<noteq> []"
  shows "\<exists>s'. flush_log_buffer E s = eff_ok s' [] \<and> lv_doc s' = lastn (max_lines (lv_config s)) (lv_doc s @ map line_of (shown_records s)) \<and>
    lv_count s' = int (length (lv_doc s')) \<and> lv_buffer s' = [] \<and> lv_config s' = lv_config s \<and> lv_listening s' = lv_listening s \<and>
    lv_filter s' = lv_filter s"
proof -
  obtain m where m: "dget_or (lv_config s) ''max_lines'' (PInt 500) = PInt m" "0 \<le> m"
    using assms(1) by (auto simp: view_inv_def limit_ok_def split: pyval.splits)
  have "list_all (plain E) (map line_of (shown_records s))"
    using assms(1) by (auto simp: view_inv_def shown_records_def list_all_iff)
  moreover have "max_lines (lv_config s) = nat m" by (simp add: max_lines_def m)
  ultimately show ?thesis using flush_plain [OF assms(2) m] assms(1) by (simp add: view_inv_def)
qed

lemma lastn_plain: "list_all P xs \<Longrightarrow> list_all P (lastn m xs)"
  by (auto simp: lastn_def list_all_iff dest: in_set_dropD)

lemma view_step_refines:
  assumes "view_inv E s" "view_ok E e"
  shows "view_inv E (fst (view_step E s e)) \<and> view_abs (fst (view_step E s e)) = spec_step E (view_abs s) e"
proof (cases e)
  case VwFlush
  show ?thesis
  proof (cases "lv_buffer s = []")
    case True
    then show ?thesis
      using assms(1) by (simp add: VwFlush view_step_def flush_log_buffer_def eff_state_def eff_ok_def view_abs_def)
  next
    case False
    obtain s' where s': "flush_log_buffer E s = eff_ok s' []"
        "lv_doc s' = lastn (max_lines (lv_config s)) (lv_doc s @ map line_of (shown_records s))"
        "lv_count s' = int (length (lv_doc s'))" "lv_buffer s' = []" "lv_config s' = lv_config s" "lv_listening s' = lv_listening s"
        "lv_filter s' = lv_filter s"
      using flush_newest [OF assms(1) False] by blast
    have "list_all (plain E) (lv_doc s @ map line_of (shown_records s))"
      using assms(1) by (auto simp: view_inv_def shown_records_def list_all_iff)
    then have "list_all (plain E) (lv_doc s')" unfolding s'(2) by (rule lastn_plain)
    then show ?thesis
      using assms(1) False s'
      by (simp add: VwFlush view_step_def eff_state_def eff_ok_def view_abs_def view_inv_def shown_records_def)
  qed
next
  case (VwStart p)
  then show ?thesis
    using assms(1) by (auto simp: view_step_def eff_state_def eff_ok_def viewer_system_start_def eff_res_def view_abs_def split: sum.split)
next
  case (VwEntry p)
  then show ?thesis
    using assms
    by (auto simp: view_step_def eff_state_def eff_ok_def on_log_entry_def eff_res_def view_abs_def view_inv_def view_ok_def split: sum.splits)
next
  case (VwChanged key v)
  then show ?thesis
    using assms
    by (auto simp: view_step_def eff_state_def eff_ok_def viewer_config_changed_def view_abs_def view_inv_def view_ok_def viewer_schema_def
        dkeys_def dget_or_def map_of_dset)
qed (use assms in \<open>auto simp: view_step_def eff_state_def eff_ok_def viewer_config_loaded_def on_clear_clicked_def on_filter_changed_def
      view_abs_def view_inv_def view_ok_def\<close>)

lemma fst_run_cons: "fst (run_events step s (e # es)) = fst (run_events step (fst (step s e)) es)"
  by (simp add: Let_def)

lemma view_run_refines:
  "view_inv E s \<Longrightarrow> list_all (view_ok E) es \<Longrightarrow>
   view_inv E (fst (run_events (view_step E) s es)) \<and> view_abs (fst (run_events (view_step E) s es)) = foldl (spec_step E) (view_abs s) es"
proof (induction es arbitrary: s)
  case (Cons e es)
  have "view_inv E (fst (view_step E s e))" "view_abs (fst (view_step E s e)) = spec_step E (view_abs s) e"
    using view_step_refines [of E s e] Cons.prems by simp_all
  then show ?case using Cons.IH [of "fst (view_step E s e)"] Cons.prems by (simp add: fst_run_cons del: run_events.simps)
qed simp

text \<open>The window refines its promise: for lines that fill one row each, any run of records, flushes, filters, clears and
  configuration changes leaves the text that the promise says, the newest of the lines shown since the last clear, as
  many as the configured limit allows, and the count of lines is exact.\<close>

theorem viewer_keeps_newest:
  assumes "view_inv E s" "list_all (view_ok E) es"
  shows "view_abs (fst (run_events (view_step E) s es)) = foldl (spec_step E) (view_abs s) es \<and>
    lv_count (fst (run_events (view_step E) s es)) = int (length (lv_doc (fst (run_events (view_step E) s es))))"
  using view_run_refines [OF assms] by (simp add: view_inv_def)

section \<open>Lines that are no rows\<close>

definition two_rows :: "view_env \<Rightarrow> string \<Rightarrow> string \<Rightarrow> string \<Rightarrow> bool" where
  "two_rows E l a b \<longleftrightarrow> ve_blocks E l = [a, b] \<and> length (ve_rows E a) = 1 \<and> length (ve_rows E b) = 1"

lemma drop_rows_single: "list_all (\<lambda>b. length (rows b) = 1) bs \<Longrightarrow> drop_rows rows k bs = drop k bs"
  by (induction bs arbitrary: k) (auto simp: drop_Cons' Suc_le_eq)

definition swollen :: "view_env \<Rightarrow> nat \<Rightarrow> nat \<Rightarrow> viewer \<Rightarrow> bool" where
  "swollen E m n s \<longleftrightarrow> lv_listening s \<and> lv_buffer s = [] \<and> lv_filter s = ''ALL'' \<and> dget_or (lv_config s) ''max_lines'' (PInt 500) = PInt (int m) \<and>
     lv_count s = int (min n m) \<and> length (lv_doc s) = n + min n m \<and> list_all (\<lambda>b. length (ve_rows E b) = 1) (lv_doc s)"

lemma swollen_step:
  assumes "swollen E m n s" "record_of E p = Inr r" "two_rows E (line_of r) a b"
  shows "swollen E m (Suc n) (fst (run_events (view_step E) s [VwEntry p, VwFlush]))"
proof -
  have f: "flush_log_buffer E (s\<lparr>lv_buffer := [r]\<rparr>) =
      eff_ok (if m < Suc (min n m)
              then s\<lparr>lv_buffer := [], lv_doc := drop 1 (lv_doc s @ [a, b]), lv_count := int m\<rparr>
              else s\<lparr>lv_buffer := [], lv_doc := lv_doc s @ [a, b], lv_count := int (Suc n)\<rparr>) []"
  proof -
    have "list_all (\<lambda>b. length (ve_rows E b) = 1) (lv_doc s @ [a, b])" using assms(1,3) by (simp add: swollen_def two_rows_def)
    then have d: "drop_rows (ve_rows E) k (lv_doc s @ [a, b]) = drop k (lv_doc s @ [a, b])" for k by (rule drop_rows_single)
    show ?thesis
    proof (cases "n < m")
      case True
      then show ?thesis
        using assms by (simp add: flush_log_buffer_def swollen_def two_rows_def shown_records_def level_hidden_def Let_def min_def add.commute)
    next
      case False
      then have "nat (int m + 1 - int m) = 1" "min n m = m" by simp_all
      then show ?thesis
        using assms d [of 1] False
        by (simp add: flush_log_buffer_def swollen_def two_rows_def shown_records_def level_hidden_def Let_def del: drop_append drop_rows.simps)
    qed
  qed
  have e: "fst (run_events (view_step E) s [VwEntry p, VwFlush]) = eff_state (flush_log_buffer E (s\<lparr>lv_buffer := [r]\<rparr>))"
    using assms(1,2) by (simp add: view_step_def on_log_entry_def swollen_def eff_state_def eff_ok_def Let_def)
  have l: "list_all (\<lambda>b. length (ve_rows E b) = 1) (drop 1 (lv_doc s @ [a, b]))"
    using assms(1,3) by (auto simp: swollen_def two_rows_def list_all_iff dest: in_set_dropD)
  show ?thesis
    unfolding e f using assms(1,3) l by (auto simp: swollen_def eff_state_def eff_ok_def two_rows_def min_def simp del: drop_append)
qed

text \<open>C36 The limit counts records and the cut removes rows: when every record fills two rows the text grows by one row with each
  record for ever, however small the limit.\<close>

theorem two_row_records_outgrow_limit:
  assumes "record_of E p = Inr r" "two_rows E (line_of r) a b" "dget_or config ''max_lines'' (PInt 500) = PInt (int m)"
  shows "length (lv_doc (fst (run_events (view_step E) (new_viewer\<lparr>lv_config := config, lv_listening := True\<rparr>)
      (concat (replicate n [VwEntry p, VwFlush]))))) = n + min n m"
proof -
  have "swollen E m n (fst (run_events (view_step E) (new_viewer\<lparr>lv_config := config, lv_listening := True\<rparr>)
      (concat (replicate n [VwEntry p, VwFlush]))))"
  proof (induction n)
    case 0
    then show ?case using assms(3) by (simp add: swollen_def new_viewer_def)
  next
    case (Suc n)
    have "concat (replicate (Suc n) [VwEntry p, VwFlush]) = concat (replicate n [VwEntry p, VwFlush]) @ [VwEntry p, VwFlush]"
      by (induction n) simp_all
    then show ?case
      using swollen_step [OF Suc assms(1,2)] by (simp only: run_events_append Let_def fst_conv)
  qed
  then show ?thesis by (simp add: swollen_def)
qed

section \<open>From the call to the window\<close>

text \<open>The window between records and flushes, in any order.\<close>

definition entry_payloads :: "view_event list \<Rightarrow> payload list" where
  "entry_payloads es = List.map_filter (\<lambda>e. case e of VwEntry p \<Rightarrow> Some p | _ \<Rightarrow> None) es"

fun arrives_or_flushes :: "view_event \<Rightarrow> bool" where
  "arrives_or_flushes (VwEntry p) = True"
| "arrives_or_flushes VwFlush = True"
| "arrives_or_flushes e = False"

definition shown_lines :: "string \<Rightarrow> log_record list \<Rightarrow> string list" where
  "shown_lines flt rs = map line_of (filter (\<lambda>r. \<not> level_hidden flt (fst (snd (snd r)))) rs)"

lemma shown_lines_append [simp]: "shown_lines flt (xs @ ys) = shown_lines flt xs @ shown_lines flt ys"
  by (simp add: shown_lines_def)

lemma shown_lines_Nil [simp]: "shown_lines flt [] = []"
  by (simp add: shown_lines_def)

lemma shown_records_lines: "map line_of (shown_records s) = shown_lines (lv_filter s) (lv_buffer s)"
  by (simp add: shown_records_def shown_lines_def)

lemma lastn_lastn_append: "lastn m (lastn m xs @ ys) = lastn m (xs @ ys)"
  by (cases "m \<le> length xs") (auto simp: lastn_def add.commute)

lemma entry_payloads_simps [simp]:
  "entry_payloads [] = []" "entry_payloads (VwEntry p # es) = p # entry_payloads es" "entry_payloads (VwFlush # es) = entry_payloads es"
  by (simp_all add: entry_payloads_def map_filter_simps)

lemma entry_step: "lv_listening s \<Longrightarrow> record_of E p = Inr r \<Longrightarrow> fst (view_step E s (VwEntry p)) = s\<lparr>lv_buffer := lv_buffer s @ [r]\<rparr>"
  by (simp add: view_step_def on_log_entry_def eff_state_def eff_ok_def)

lemma flush_step: "flush_log_buffer E s = eff_ok s' [] \<Longrightarrow> fst (view_step E s VwFlush) = s'"
  by (simp add: view_step_def eff_state_def eff_ok_def)

lemma flush_step_idle: "lv_buffer s = [] \<Longrightarrow> fst (view_step E s VwFlush) = s"
  by (simp add: view_step_def flush_log_buffer_def eff_state_def eff_ok_def)

lemma window_below:
  assumes "list_all arrives_or_flushes es" "map_res (record_of E) (entry_payloads es) = Inr rs" "lv_listening s"
    and "dget_or (lv_config s) ''max_lines'' (PInt 500) = PInt m"
    and "lv_count s + int (length (shown_lines (lv_filter s) (lv_buffer s @ rs))) \<le> m"
  shows "lv_doc (fst (run_events (view_step E) s (es @ [VwFlush]))) =
    lv_doc s @ concat (map (ve_blocks E) (shown_lines (lv_filter s) (lv_buffer s @ rs)))"
  using assms
proof (induction es arbitrary: s rs rule: list.induct)
  case Nil
  have n: "length (shown_records s) = length (shown_lines (lv_filter s) (lv_buffer s))"
    by (simp add: shown_lines_def shown_records_def)
  show ?case
    using Nil flush_step_idle [of s E] flush_step [OF flush_below [of s m E]] n
    by (cases "lv_buffer s = []") (simp_all add: fst_run_cons shown_records_lines del: run_events.simps(2) map_map)
next
  case (Cons e es)
  show ?case
  proof (cases e)
    case (VwEntry p)
    then obtain r rs' where r: "record_of E p = Inr r" "map_res (record_of E) (entry_payloads es) = Inr rs'" "rs = r # rs'"
      using Cons.prems(2) by (auto simp: rbind_Inr_iff)
    show ?thesis
      using Cons.IH [OF _ r(2), of "s\<lparr>lv_buffer := lv_buffer s @ [r]\<rparr>"] Cons.prems entry_step [OF Cons.prems(3) r(1)] VwEntry r(3)
      by (simp add: fst_run_cons del: run_events.simps shown_lines_append)
  next
    case VwFlush
    have n: "length (shown_records s) = length (shown_lines (lv_filter s) (lv_buffer s))"
      by (simp add: shown_lines_def shown_records_def)
    show ?thesis
    proof (cases "lv_buffer s = []")
      case True
      then show ?thesis
        using Cons.IH [of rs s] Cons.prems VwFlush flush_step_idle [of s E] by (simp add: fst_run_cons del: run_events.simps)
    next
      case False
      let ?s = "s\<lparr>lv_buffer := [], lv_doc := lv_doc s @ concat (map (ve_blocks E) (map line_of (shown_records s))),
        lv_count := lv_count s + int (length (shown_records s))\<rparr>"
      have f: "flush_log_buffer E s = eff_ok ?s []"
        using Cons.prems n by (intro flush_below [OF False Cons.prems(4)]) simp
      show ?thesis
        using Cons.IH [of rs ?s] Cons.prems VwFlush flush_step [OF f] n
        by (simp add: fst_run_cons shown_records_lines del: run_events.simps map_map)
    qed
  qed (use Cons.prems in simp_all)
qed

lemma window_plain:
  assumes "list_all arrives_or_flushes es" "map_res (record_of E) (entry_payloads es) = Inr rs" "lv_listening s"
    and "dget_or (lv_config s) ''max_lines'' (PInt 500) = PInt (int m)"
    and "lv_count s = int (length (lv_doc s))" "length (lv_doc s) \<le> m"
    and "list_all (plain E) (lv_doc s)" "list_all (plain E) (shown_lines (lv_filter s) (lv_buffer s @ rs))"
  shows "lv_doc (fst (run_events (view_step E) s (es @ [VwFlush]))) =
    lastn m (lv_doc s @ shown_lines (lv_filter s) (lv_buffer s @ rs))"
  using assms
proof (induction es arbitrary: s rs rule: list.induct)
  case Nil
  show ?case
  proof (cases "lv_buffer s = []")
    case True
    then show ?thesis using Nil flush_step_idle [of s E] by (simp add: fst_run_cons del: run_events.simps(2))
  next
    case False
    obtain s' where "flush_log_buffer E s = eff_ok s' []" "lv_doc s' = lastn m (lv_doc s @ map line_of (shown_records s))"
      using flush_plain [OF False Nil.prems(4) _ Nil.prems(5,7)] Nil.prems by (auto simp: shown_records_lines)
    then show ?thesis
      using Nil flush_step [of E s s'] by (simp add: fst_run_cons shown_records_lines del: run_events.simps(2))
  qed
next
  case (Cons e es)
  show ?case
  proof (cases e)
    case (VwEntry p)
    then obtain r rs' where r: "record_of E p = Inr r" "map_res (record_of E) (entry_payloads es) = Inr rs'" "rs = r # rs'"
      using Cons.prems(2) by (auto simp: rbind_Inr_iff)
    show ?thesis
      using Cons.IH [OF _ r(2), of "s\<lparr>lv_buffer := lv_buffer s @ [r]\<rparr>"] Cons.prems entry_step [OF Cons.prems(3) r(1)] VwEntry r(3)
      by (simp add: fst_run_cons del: run_events.simps shown_lines_append)
  next
    case VwFlush
    show ?thesis
    proof (cases "lv_buffer s = []")
      case True
      then show ?thesis
        using Cons.IH [of rs s] Cons.prems VwFlush flush_step_idle [of s E] by (simp add: fst_run_cons del: run_events.simps)
    next
      case False
      obtain s' where s': "flush_log_buffer E s = eff_ok s' []" "lv_doc s' = lastn m (lv_doc s @ shown_lines (lv_filter s) (lv_buffer s))"
          "lv_count s' = int (length (lv_doc s'))" "lv_buffer s' = []" "lv_config s' = lv_config s" "lv_listening s'" "lv_filter s' = lv_filter s"
        using flush_plain [OF False Cons.prems(4) _ Cons.prems(5,7)] Cons.prems by (auto simp: shown_records_lines)
      have "list_all (plain E) (lv_doc s')" unfolding s'(2) using Cons.prems(7,8) by (intro lastn_plain) simp
      moreover have "length (lv_doc s') \<le> m" by (simp add: s'(2))
      ultimately have "lv_doc (fst (run_events (view_step E) s' (es @ [VwFlush]))) = lastn m (lv_doc s' @ shown_lines (lv_filter s) rs)"
        using Cons.IH [of rs s'] Cons.prems VwFlush s' by simp
      then show ?thesis
        using VwFlush flush_step [OF s'(1)] by (simp add: fst_run_cons s'(2) lastn_lastn_append del: run_events.simps)
    qed
  qed (use Cons.prems in simp_all)
qed

text \<open>C11 What a module logs at or above the level of its process is what the log window shows, once the threads have caught up
  and no send failed: when the records reach a cleared window that listens, with its timer firing any number of times in between
  and once at the end, and \<open>lines\<close> are those its level filter lets through, in the order of the calls, then as long as
  they are no more than the limit the text is exactly the blocks Qt makes of them; and when each of them is one block of one row
  (no line break in the message, no line too long for the window) the text is the newest of them up to the limit. Longer
  records make the text outgrow the limit.\<close>

theorem log_calls_reach_window:
  assumes "attached s" "ls_queue s = []" "ls_pending s = []" "list_all forwarding es" "DrainTurn False \<notin> set es"
    and run: "run_events (log_step L) s es = (s', out)" "ls_queue s' = []" "ls_pending s' = []"
    and rs: "map_res (record_of E) (concat (map (accepted L (default_level (ls_debug s))) es)) = Inr rs"
    and v: "lv_listening v" "lv_buffer v = []" "lv_doc v = []" "lv_count v = 0"
    and m: "dget_or (lv_config v) ''max_lines'' (PInt 500) = PInt (int m)"
    and ves: "list_all arrives_or_flushes ves" "entry_payloads ves = sent_entries out"
    and lines: "lines = map line_of (filter (\<lambda>r. \<not> level_hidden (lv_filter v) (fst (snd (snd r)))) rs)"
  shows "(length lines \<le> m \<longrightarrow>
      lv_doc (fst (run_events (view_step E) v (ves @ [VwFlush]))) = concat (map (ve_blocks E) lines)) \<and>
    ((\<forall>l \<in> set lines. ve_blocks E l = [l] \<and> length (ve_rows E l) = 1) \<longrightarrow>
      lv_doc (fst (run_events (view_step E) v (ves @ [VwFlush]))) = lastn m lines)"
proof -
  have "sent_entries out = concat (map (accepted L (default_level (ls_debug s))) es)"
    using log_run_forwarded [OF assms(1,4) run(1)] assms(2,3,5) run(2,3) by simp
  then have r: "map_res (record_of E) (entry_payloads ves) = Inr rs" using rs ves(2) by simp
  have l: "shown_lines (lv_filter v) (lv_buffer v @ rs) = lines" by (simp add: lines v(2) shown_lines_def)
  show ?thesis
    using window_below [OF ves(1) r v(1) m] window_plain [OF ves(1) r v(1) m] v(3,4)
    unfolding l by (auto simp: list_all_iff plain_def)
qed

definition demo_view :: view_env where
  "demo_view = \<lparr>ve_text = demo_text, ve_clock = \<lambda>v. Inr ''10:00:00'', ve_now = PInt 0,
     ve_blocks = \<lambda>l. if l = ''[10:00:00] [                   m] [INFO    ] two'' then [''t'', ''wo''] else [l], ve_rows = \<lambda>b. [b]\<rparr>"

definition demo_viewer :: viewer where
  "demo_viewer = new_viewer\<lparr>lv_config := [(''max_lines'', PInt 1)], lv_listening := True\<rparr>"

lemma demo_viewer_inv: "view_inv demo_view demo_viewer"
  by (simp add: view_inv_def demo_viewer_def new_viewer_def limit_ok_def dget_or_def)

definition demo_entry :: "string \<Rightarrow> payload" where
  "demo_entry msg = log_entry ''m'' ''INFO'' msg (PInt 5)"

definition demo_record :: "string \<Rightarrow> log_record" where
  "demo_record msg = (''10:00:00'', ''m'', ''INFO'', msg)"

lemma demo_record_of: "record_of demo_view (demo_entry msg) = Inr (demo_record msg)"
proof -
  have "py_upper ''INFO'' = ''INFO''" by code_simp
  then show ?thesis by (simp add: record_of_def demo_view_def demo_entry_def demo_record_def log_entry_def dget_or_def)
qed

lemma demo_line: "line_of (demo_record msg) = ''[10:00:00] [                   m] [INFO    ] '' @ msg"
proof -
  have "rjust 20 ''m'' = ''                   m''" "ljust 8 ''INFO'' = ''INFO    ''" by code_simp+
  then show ?thesis by (simp add: demo_record_def)
qed

lemma demo_plain: "msg \<noteq> ''two'' \<Longrightarrow> plain demo_view (line_of (demo_record msg))"
  unfolding demo_line by (simp add: plain_def demo_view_def)

lemma viewer_keeps_newest_witness:
  "view_abs (fst (run_events (view_step demo_view) demo_viewer [VwEntry (demo_entry ''a''), VwEntry (demo_entry ''b''), VwFlush]))
     = foldl (spec_step demo_view) (view_abs demo_viewer) [VwEntry (demo_entry ''a''), VwEntry (demo_entry ''b''), VwFlush]"
proof -
  have "list_all (view_ok demo_view) [VwEntry (demo_entry ''a''), VwEntry (demo_entry ''b''), VwFlush]"
    by (simp add: view_ok_def demo_record_of demo_plain)
  from viewer_keeps_newest [OF demo_viewer_inv this] show ?thesis by blast
qed

lemma two_row_records_outgrow_limit_witness:
  "length (lv_doc (fst (run_events (view_step demo_view) (new_viewer\<lparr>lv_config := [(''max_lines'', PInt 1)], lv_listening := True\<rparr>)
     (concat (replicate 7 [VwEntry (demo_entry ''two''), VwFlush]))))) = 8"
proof -
  have "two_rows demo_view (line_of (demo_record ''two'')) ''t'' ''wo''" unfolding demo_line by (simp add: two_rows_def demo_view_def)
  from two_row_records_outgrow_limit [OF demo_record_of this, of "[(''max_lines'', PInt 1)]" 1 7] show ?thesis
    by (simp add: dget_or_def del: run_events.simps replicate.simps)
qed

lemma log_calls_reach_window_witness:
  "\<exists>s' out. run_events (log_step demo_log) demo_attached [LogCall ''INFO'' ''m'' ''hi'' [] (PInt 5), SinkTurn, DrainTurn True] = (s', out) \<and>
     lv_doc (fst (run_events (view_step demo_view) demo_viewer ([VwFlush, VwEntry (demo_entry ''hi'')] @ [VwFlush])))
       = [''[10:00:00] [                   m] [INFO    ] hi'']"
proof -
  let ?es = "[LogCall ''INFO'' ''m'' ''hi'' [] (PInt 5), SinkTurn, DrainTurn True]"
  obtain s' out where r: "run_events (log_step demo_log) demo_attached ?es = (s', out)" by fastforce
  note defs = demo_attached_def get_logger_def log_manager_get_def attach_bus_def new_logging_def drop_sink_def lu_add_def
    demo_log_def default_level_def lu_takes_def log_text_def Let_def
  have q: "ls_queue demo_attached = []" "ls_pending demo_attached = []" by (simp_all add: defs)
  have f: "list_all forwarding ?es" "DrainTurn False \<notin> set ?es" by (simp_all add: forwarding_def)
  have a: "concat (map (accepted demo_log (default_level (ls_debug demo_attached))) ?es) = [demo_entry ''hi'']"
    by (simp add: defs accepted_def demo_entry_def)
  have "log_step demo_log demo_attached (LogCall ''INFO'' ''m'' ''hi'' [] (PInt 5))
      = (demo_attached\<lparr>ls_pending := [demo_entry ''hi'']\<rparr>, [ConsoleLine ''INFO'' ''m'' ''hi''])"
    by (simp add: defs log_call_def demo_entry_def)
  then have d: "ls_queue s' = []" "ls_pending s' = []"
    using r by (auto simp: bus_sink_def log_drain_def q Let_def split: if_splits)
      (auto simp: defs)
  have rs: "map_res (record_of demo_view) (concat (map (accepted demo_log (default_level (ls_debug demo_attached))) ?es)) = Inr [demo_record ''hi'']"
    unfolding a by (simp add: demo_record_of)
  have out: "sent_entries out = [demo_entry ''hi'']"
    using log_run_forwarded [OF demo_attached_ok f(1) r] q f(2) d a by simp
  have "lv_listening demo_viewer" "lv_buffer demo_viewer = []" "lv_doc demo_viewer = []" "lv_count demo_viewer = 0"
      "dget_or (lv_config demo_viewer) ''max_lines'' (PInt 500) = PInt (int 1)"
    by (simp_all add: demo_viewer_def new_viewer_def dget_or_def)
  note w = log_calls_reach_window [OF demo_attached_ok q f r d rs this, of "[VwFlush, VwEntry (demo_entry ''hi'')]"]
  have "lv_doc (fst (run_events (view_step demo_view) demo_viewer ([VwFlush, VwEntry (demo_entry ''hi'')] @ [VwFlush])))
      = concat (map (ve_blocks demo_view) (map line_of [demo_record ''hi'']))"
    using w out by (simp add: demo_viewer_def new_viewer_def level_hidden_def del: run_events.simps)
  then show ?thesis using r by (auto simp: demo_line demo_view_def simp del: run_events.simps)
qed

end
