(* ===== verification/ZmqTrace.thy ===== *)
theory ZmqTrace
  imports PyText ChannelBase BusClient
begin

text \<open>
  \<^verbatim>\<open>v2/modules/zmq_trace/main.py\<close>: the collector of the trace events that every bus client emits, and the reports made of them.
  An event's type, topic and module are strings, as the clients emit them. JSON, the clock and the outcome of writing the
  file are arguments of the step.
\<close>

section \<open>Counters\<close>

type_synonym counter = "(string, int) dict"

definition bump :: "string \<Rightarrow> int \<Rightarrow> counter \<Rightarrow> counter" where
  "bump k n c = dset k (dget_or c k 0 + n) c"

definition csum :: "counter \<Rightarrow> int" where
  "csum c = sum_list (map snd c)"

text \<open>\<^verbatim>\<open>a - b\<close> for counters keeps the positive differences.\<close>

definition counter_sub :: "counter \<Rightarrow> counter \<Rightarrow> counter" where
  "counter_sub a b =
     filter (\<lambda>kn. 0 < snd kn) (map (\<lambda>kn. (fst kn, snd kn - dget_or b (fst kn) 0)) a)
     @ filter (\<lambda>kn. 0 < snd kn) (map (\<lambda>kn. (fst kn, - snd kn)) (filter (\<lambda>kn. fst kn \<notin> set (dkeys a)) b))"

section \<open>Metrics\<close>

record metrics =
  mt_total :: counter
  mt_window :: counter
  mt_topic_pub :: counter
  mt_topic_recv :: counter
  mt_topic_bytes :: counter
  mt_module_pub :: counter
  mt_module_recv :: counter
  mt_pub_drop :: counter
  mt_seq_gap :: counter
  mt_duplicates :: counter
  mt_cb_error :: counter
  mt_subs :: "(string, string list) dict"
  mt_lat :: "(string, pyfloat list) dict"
  mt_cb :: "(string, pyfloat list) dict"

definition new_metrics :: metrics where
  "new_metrics = \<lparr>mt_total = [], mt_window = [], mt_topic_pub = [], mt_topic_recv = [], mt_topic_bytes = [], mt_module_pub = [],
     mt_module_recv = [], mt_pub_drop = [], mt_seq_gap = [], mt_duplicates = [], mt_cb_error = [], mt_subs = [], mt_lat = [], mt_cb = []\<rparr>"

definition ev_text :: "payload \<Rightarrow> string \<Rightarrow> string \<Rightarrow> string" where
  "ev_text ev k d = (case dget_or ev k (PStr d) of PStr s \<Rightarrow> s | _ \<Rightarrow> [])"

definition ev_int :: "payload \<Rightarrow> string \<Rightarrow> int res" where
  "ev_int ev k = (let v = dget_or ev k (PInt 0) in if truthy v then py_int v else Inr 0)"

text \<open>A deque that keeps the last \<open>n\<close>.\<close>

definition sample :: "nat \<Rightarrow> string \<Rightarrow> pyfloat \<Rightarrow> (string, pyfloat list) dict \<Rightarrow> (string, pyfloat list) dict" where
  "sample n k x d = (let xs = dget_or d k [] @ [x] in dset k (drop (length xs - n) xs) d)"

type_synonym metrics_effect = "exn option \<times> metrics"

definition m_res :: "metrics \<Rightarrow> 'a res \<Rightarrow> ('a \<Rightarrow> metrics_effect) \<Rightarrow> metrics_effect" where
  "m_res m r f = (case r of Inl x \<Rightarrow> (Some x, m) | Inr v \<Rightarrow> f v)"

definition m_sample :: "py_text \<Rightarrow> pyval \<Rightarrow> (pyfloat \<Rightarrow> metrics) \<Rightarrow> metrics \<Rightarrow> (metrics \<Rightarrow> metrics_effect) \<Rightarrow> metrics_effect" where
  "m_sample T v put m f = (if v = PNone then f m else m_res m (py_float T v) (\<lambda>x. f (put x)))"

definition add_counted :: "string \<Rightarrow> metrics \<Rightarrow> metrics" where
  "add_counted et m = m\<lparr>mt_total := bump et 1 (mt_total m), mt_window := bump ''events'' 1 (bump et 1 (mt_window m))\<rparr>"

definition add_recv :: "py_text \<Rightarrow> nat \<Rightarrow> payload \<Rightarrow> string \<Rightarrow> string \<Rightarrow> metrics \<Rightarrow> metrics_effect" where
  "add_recv T n ev topic module_name m0 =
     (let m = m0\<lparr>mt_topic_recv := bump topic 1 (mt_topic_recv m0), mt_module_recv := bump module_name 1 (mt_module_recv m0)\<rparr> in
      m_res m (ev_int ev ''bytes'') (\<lambda>b.
        let m = m\<lparr>mt_topic_bytes := bump topic b (mt_topic_bytes m)\<rparr> in
        m_sample T (dget ev ''latency_us'') (\<lambda>x. m\<lparr>mt_lat := sample n topic x (mt_lat m)\<rparr>) m (\<lambda>m.
        m_sample T (dget ev ''callback_us'') (\<lambda>x. m\<lparr>mt_cb := sample n (module_name @ '':'' @ topic) x (mt_cb m)\<rparr>) m (\<lambda>m.
        m_res m (ev_int ev ''seq_gap'') (\<lambda>g.
          let m = (if 0 < g then m\<lparr>mt_seq_gap := bump topic g (mt_seq_gap m)\<rparr> else m) in
          (None, if truthy (dget ev ''duplicate'') then m\<lparr>mt_duplicates := bump topic 1 (mt_duplicates m)\<rparr> else m))))))"

definition metrics_add :: "py_text \<Rightarrow> nat \<Rightarrow> payload \<Rightarrow> metrics \<Rightarrow> metrics_effect" where
  "metrics_add T n ev m0 =
     (let et = ev_text ev ''type'' ''unknown''; topic = ev_text ev ''topic'' []; module_name = ev_text ev ''module'' [];
          m = add_counted et m0 in
      if et = ''publish_ok'' then
        (let m = m\<lparr>mt_topic_pub := bump topic 1 (mt_topic_pub m), mt_module_pub := bump module_name 1 (mt_module_pub m)\<rparr> in
         m_res m (ev_int ev ''bytes'') (\<lambda>b. (None, m\<lparr>mt_topic_bytes := bump topic b (mt_topic_bytes m)\<rparr>)))
      else if et = ''publish_drop'' \<or> et = ''publish_error'' then (None, m\<lparr>mt_pub_drop := bump topic 1 (mt_pub_drop m)\<rparr>)
      else if et = ''recv_ok'' then add_recv T n ev topic module_name m
      else if et = ''callback_error'' then (None, m\<lparr>mt_cb_error := bump (module_name @ '':'' @ topic) 1 (mt_cb_error m)\<rparr>)
      else if et = ''subscribe'' then
        (let ts = dget_or (mt_subs m) module_name [] in
         (None, m\<lparr>mt_subs := dset module_name (if topic \<in> set ts then ts else ts @ [topic]) (mt_subs m)\<rparr>))
      else (None, m))"

section \<open>Collector\<close>

definition trace_schema :: schema where
  "trace_schema =
     [(''enabled'', field_bool (PBool True)), (''console_enabled'', field_bool (PBool False)), (''jsonl_enabled'', field_bool (PBool True)),
      (''jsonl_path'', field_string ''/tmp/nemobus_trace.jsonl''), (''report_interval_sec'', field_float (Fin 1) (PFloat (Fin (1 / 10))) (PFloat (Fin 60))),
      (''top_n'', field_int 12 (PInt 3) (PInt 100)), (''max_samples_per_key'', field_int 2000 (PInt 100) (PInt 10000)),
      (''publish_summary_on_bus'', field_bool (PBool False)), (''blacklist_prefixes'', field_string ''.'')]"

definition blacklisted :: "py_text \<Rightarrow> payload \<Rightarrow> string \<Rightarrow> bool" where
  "blacklisted T config topic =
     (\<exists>p \<in> set (filter (\<lambda>p. p \<noteq> []) (map py_strip (py_split '','' (py_str T (dget_or config ''blacklist_prefixes'' (PStr [])))))). starts p topic)"

datatype raw_event = Garbage | Event pyval

record summary =
  sm_pub :: int
  sm_recv :: int
  sm_bytes :: int
  sm_drops :: int
  sm_gaps :: int
  sm_events :: int
  sm_elapsed :: rat

text \<open>The totals of the last report are kept for the differences of the next.\<close>

record tracer_mod =
  zt_config :: payload
  zt_metrics :: metrics
  zt_alive :: bool
  zt_lines :: "(string \<times> payload) list"
  zt_pub :: counter
  zt_recv :: counter
  zt_bytes :: counter
  zt_drop :: counter
  zt_gap :: counter

definition new_tracer :: "payload \<Rightarrow> tracer_mod" where
  "new_tracer config = \<lparr>zt_config = config, zt_metrics = new_metrics, zt_alive = True, zt_lines = [], zt_pub = [], zt_recv = [],
     zt_bytes = [], zt_drop = [], zt_gap = []\<rparr>"

definition samples_kept :: "payload \<Rightarrow> nat" where
  "samples_kept config = (case dget config ''max_samples_per_key'' of PInt i \<Rightarrow> nat i | _ \<Rightarrow> 0)"

definition note_event :: "py_text \<Rightarrow> payload \<Rightarrow> tracer_mod \<Rightarrow> tracer_mod" where
  "note_event T ev s = (let (x, m) = metrics_add T (samples_kept (zt_config s)) ev (zt_metrics s) in s\<lparr>zt_metrics := m, zt_alive := (x = None)\<rparr>)"

text \<open>An exception of \<^verbatim>\<open>metrics.add\<close>, or of an event that is no dictionary, ends the thread. \<open>written\<close> is whether the line could be
  written.\<close>

definition collect :: "py_text \<Rightarrow> raw_event \<Rightarrow> bool \<Rightarrow> tracer_mod \<Rightarrow> tracer_mod" where
  "collect T raw written s =
     (if \<not> zt_alive s then s
      else (case raw of
          Garbage \<Rightarrow> note_event T [(''type'', PStr ''collector_parse_error'')] s
        | Event v \<Rightarrow>
            (if \<not> truthy (dget_or (zt_config s) ''enabled'' (PBool True)) then s
             else (case v of
                 PDict ev \<Rightarrow>
                   (if blacklisted T (zt_config s) (ev_text ev ''topic'' []) then s
                    else (let s1 = note_event T ev s in
                      if zt_alive s1 \<and> truthy (dget_or (zt_config s) ''jsonl_enabled'' (PBool True)) then
                        (if written then s1\<lparr>zt_lines := zt_lines s1 @ [(py_str T (dget (zt_config s) ''jsonl_path''), ev)]\<rparr>
                         else note_event T [(''type'', PStr ''jsonl_write_error''), (''module'', PStr ''zmq_trace''), (''topic'', PStr [])] s1)
                      else s1))
               | _ \<Rightarrow> s\<lparr>zt_alive := False\<rparr>))))"

section \<open>Reports\<close>

definition make_summary :: "rat \<Rightarrow> tracer_mod \<Rightarrow> summary" where
  "make_summary elapsed s =
     (let m = zt_metrics s in
      \<lparr>sm_pub = csum (counter_sub (mt_topic_pub m) (zt_pub s)), sm_recv = csum (counter_sub (mt_topic_recv m) (zt_recv s)),
       sm_bytes = csum (counter_sub (mt_topic_bytes m) (zt_bytes s)), sm_drops = csum (counter_sub (mt_pub_drop m) (zt_drop s)),
       sm_gaps = csum (counter_sub (mt_seq_gap m) (zt_gap s)), sm_events = dget_or (mt_window m) ''events'' 0,
       sm_elapsed = max (1 / 1000) elapsed\<rparr>)"

definition rate :: "(rat \<Rightarrow> rat) \<Rightarrow> int \<Rightarrow> rat \<Rightarrow> pyval" where
  "rate fl count interval = PFloat (Fin (if interval \<le> 0 then 0 else fl (of_int count / interval)))"

definition summary_dict :: "(rat \<Rightarrow> rat) \<Rightarrow> summary \<Rightarrow> payload" where
  "summary_dict fl r =
     [(''interval_sec'', PFloat (Fin (sm_elapsed r))), (''publish_per_sec'', rate fl (sm_pub r) (sm_elapsed r)),
      (''receive_per_sec'', rate fl (sm_recv r) (sm_elapsed r)), (''bytes_per_sec'', rate fl (sm_bytes r) (sm_elapsed r)),
      (''publish_drops'', PInt (sm_drops r)), (''seq_gaps'', PInt (sm_gaps r)), (''events_per_sec'', rate fl (sm_events r) (sm_elapsed r))]"

definition zt_report :: "(rat \<Rightarrow> rat) \<Rightarrow> rat \<Rightarrow> tracer_mod \<Rightarrow> tracer_mod \<times> summary \<times> busmsg list" where
  "zt_report fl elapsed s =
     (let m = zt_metrics s; r = make_summary elapsed s in
      (s\<lparr>zt_metrics := m\<lparr>mt_window := []\<rparr>, zt_pub := mt_topic_pub m, zt_recv := mt_topic_recv m, zt_bytes := mt_topic_bytes m,
         zt_drop := mt_pub_drop m, zt_gap := mt_seq_gap m\<rparr>,
       r, if truthy (dget_or (zt_config s) ''publish_summary_on_bus'' (PBool False)) then [(''zmq_trace.summary'', summary_dict fl r)] else []))"

text \<open>\<^verbatim>\<open>_pct\<close>, and the topics that the console lists. \<open>fl\<close> rounds a product to a double.\<close>

definition pct :: "(rat \<Rightarrow> rat) \<Rightarrow> rat list \<Rightarrow> rat \<Rightarrow> rat option" where
  "pct fl values p =
     (if values = [] then None
      else (let n = int (length values) - 1; x = fl (of_int n * p);
                i = (if 0 \<le> x then \<lfloor>x\<rfloor> else \<lceil>x\<rceil>)
            in Some (sort values ! nat (min n (max 0 i)))))"

definition ranked :: "('a \<Rightarrow> rat) \<Rightarrow> nat \<Rightarrow> 'a list \<Rightarrow> 'a list" where
  "ranked score n ts = take n (sort_key (\<lambda>t. - score t) ts)"

definition topic_score :: "counter \<Rightarrow> counter \<Rightarrow> counter \<Rightarrow> string \<Rightarrow> rat" where
  "topic_score d_pub d_recv d_bytes t = of_int (dget_or d_pub t 0 + dget_or d_recv t 0) + of_int (dget_or d_bytes t 0) / 1024"

section \<open>The module\<close>

datatype zt_event = ZtEvent raw_event bool | ZtReport rat

fun zt_step :: "py_text \<Rightarrow> (rat \<Rightarrow> rat) \<Rightarrow> tracer_mod \<Rightarrow> zt_event \<Rightarrow> tracer_mod \<times> (summary \<times> busmsg list) list" where
  "zt_step T fl s (ZtEvent raw written) = (collect T raw written s, [])"
| "zt_step T fl s (ZtReport elapsed) = (let (s', r) = zt_report fl elapsed s in (s', [r]))"

definition zt_config_loaded :: "payload \<Rightarrow> tracer_mod option \<times> busmsg list" where
  "zt_config_loaded config =
     (if config = [] then (None, [])
      else (Some (new_tracer (merge_config trace_schema config)), [(''system.ready'', [(''name'', PStr ''zmq_trace''), (''priority'', PInt 1)])]))"

definition zt_config_changed :: "string \<Rightarrow> pyval \<Rightarrow> tracer_mod \<Rightarrow> tracer_mod" where
  "zt_config_changed key v s =
     (if key \<notin> set (dkeys trace_schema) \<or> structural v then s else s\<lparr>zt_config := dset key v (zt_config s)\<rparr>)"

section \<open>Sums of counters\<close>

lemma dget_or_bump: "dget_or (bump t n c) k 0 = dget_or c k 0 + (if k = t then n else 0)"
  by (simp add: bump_def dget_or_def map_of_dset)

lemma csum_superset:
  assumes "dwf c" "finite S" "set (dkeys c) \<subseteq> S"
  shows "csum c = (\<Sum>k \<in> S. dget_or c k 0)"
proof -
  have d: "distinct (map fst c)" using assms(1) by (simp add: dwf_def)
  have "csum c = (\<Sum>kn \<leftarrow> c. dget_or c (fst kn) 0)"
    unfolding csum_def using d by (intro arg_cong [of _ _ sum_list] map_cong) (auto simp: dget_or_def)
  also have "\<dots> = (\<Sum>k \<leftarrow> map fst c. dget_or c k 0)" by (simp add: comp_def)
  also have "\<dots> = (\<Sum>k \<in> set (dkeys c). dget_or c k 0)" using sum_list_distinct_conv_sum_set [OF d, of "\<lambda>k. dget_or c k 0"] by (simp add: dkeys_def)
  also have "\<dots> = (\<Sum>k \<in> S. dget_or c k 0)"
    using assms by (intro sum.mono_neutral_left) (auto simp: dget_or_def set_dkeys split: option.split)
  finally show ?thesis .
qed

lemma csum_bump:
  assumes "dwf c"
  shows "csum (bump t n c) = csum c + n"
proof -
  let ?S = "insert t (set (dkeys c))"
  have "csum (bump t n c) = (\<Sum>k \<in> ?S. dget_or (bump t n c) k 0)"
    using assms by (intro csum_superset) (auto simp: bump_def set_dkeys_dset)
  also have "\<dots> = (\<Sum>k \<in> ?S. dget_or c k 0) + n" by (simp add: dget_or_bump sum.distrib)
  finally show ?thesis using csum_superset [OF assms, of ?S] by (simp add: subset_insertI)
qed

lemma csum_filter_pos: "(\<And>kn. kn \<in> set c \<Longrightarrow> 0 \<le> snd kn) \<Longrightarrow> csum (filter (\<lambda>kn. 0 < snd kn) c) = csum c"
  by (induction c) (auto simp: csum_def order_le_less)

text \<open>A counter that has grown from another.\<close>

definition grown :: "counter \<Rightarrow> counter \<Rightarrow> bool" where
  "grown b a \<longleftrightarrow> dwf a \<and> dwf b \<and> set (dkeys b) \<subseteq> set (dkeys a) \<and> (\<forall>k. dget_or b k 0 \<le> dget_or a k 0)"

lemma grown_bump: "grown b a \<Longrightarrow> 0 \<le> n \<Longrightarrow> grown b (bump t n a)"
  unfolding grown_def dget_or_bump by (auto simp: bump_def set_dkeys_dset intro: order_trans)

lemma grown_bump_pos: "grown b a \<Longrightarrow> 0 < n \<Longrightarrow> grown b (bump t n a)"
  by (rule grown_bump) simp_all

lemma grown_refl: "dwf a \<Longrightarrow> grown a a"
  by (simp add: grown_def)

lemma csum_sub:
  assumes "grown b a"
  shows "csum (counter_sub a b) = csum a - csum b"
proof -
  have a: "dwf a" "dwf b" "set (dkeys b) \<subseteq> set (dkeys a)" "\<And>k. dget_or b k 0 \<le> dget_or a k 0" using assms by (auto simp: grown_def)
  have no: "filter (\<lambda>kn. fst kn \<notin> set (dkeys a)) b = []" using a(3) by (auto simp: filter_empty_conv dkeys_def)
  let ?d = "map (\<lambda>kn. (fst kn, snd kn - dget_or b (fst kn) 0)) a"
  have "0 \<le> snd kn" if "kn \<in> set ?d" for kn
  proof -
    have "kn \<in> (\<lambda>q. (fst q, snd q - dget_or b (fst q) 0)) ` set a" using that by simp
    then obtain q where q: "kn = (fst q, snd q - dget_or b (fst q) 0)" "q \<in> set a" by (rule imageE)
    obtain k n where kn: "(k, n) \<in> set a" "kn = (k, n - dget_or b k 0)" using q by (cases q) simp
    have "dget_or a k 0 = n" using a(1) kn(1) by (simp add: dwf_def dget_or_def)
    then show ?thesis using a(4) [of k] by (simp add: kn(2))
  qed
  then have "csum (counter_sub a b) = csum ?d" unfolding counter_sub_def no using csum_filter_pos [of ?d] by simp
  also have "\<dots> = csum a - (\<Sum>k \<leftarrow> map fst a. dget_or b k 0)" by (simp add: csum_def comp_def sum_list_subtractf)
  also have "(\<Sum>k \<leftarrow> map fst a. dget_or b k 0) = (\<Sum>k \<in> set (dkeys a). dget_or b k 0)"
    using a(1) sum_list_distinct_conv_sum_set [of "map fst a" "\<lambda>k. dget_or b k 0"] by (simp add: dwf_def dkeys_def)
  also have "\<dots> = csum b" using csum_superset [OF a(2) _ a(3)] by simp
  finally show ?thesis .
qed

section \<open>What the reports add up to\<close>

definition tracked :: "tracer_mod \<Rightarrow> bool" where
  "tracked s \<longleftrightarrow> grown (zt_pub s) (mt_topic_pub (zt_metrics s)) \<and> grown (zt_recv s) (mt_topic_recv (zt_metrics s)) \<and>
     grown (zt_drop s) (mt_pub_drop (zt_metrics s)) \<and> grown (zt_gap s) (mt_seq_gap (zt_metrics s))"

text \<open>The events the collector counts, and what each adds.\<close>

definition collected :: "py_text \<Rightarrow> payload \<Rightarrow> zt_event \<Rightarrow> payload option" where
  "collected T config e =
     (case e of
        ZtEvent (Event (PDict ev)) w \<Rightarrow>
          (if truthy (dget_or config ''enabled'' (PBool True)) \<and> \<not> blacklisted T config (ev_text ev ''topic'' []) then Some ev else None)
      | _ \<Rightarrow> None)"

definition amount :: "string list \<Rightarrow> (payload \<Rightarrow> int) \<Rightarrow> payload option \<Rightarrow> int" where
  "amount ets f ev = (case ev of None \<Rightarrow> 0 | Some ev \<Rightarrow> if ev_text ev ''type'' ''unknown'' \<in> set ets then f ev else 0)"

definition gap_of :: "payload \<Rightarrow> int" where
  "gap_of ev = (case ev_int ev ''seq_gap'' of Inr g \<Rightarrow> max 0 g | Inl x \<Rightarrow> 0)"

lemma add_recv_sums:
  assumes "add_recv T n ev topic mname m = (x, m')" "dwf (mt_topic_recv m)" "dwf (mt_seq_gap m)"
  shows "mt_topic_pub m' = mt_topic_pub m \<and> mt_pub_drop m' = mt_pub_drop m \<and> mt_topic_recv m' = bump topic 1 (mt_topic_recv m) \<and>
    (mt_seq_gap m' = mt_seq_gap m \<or> (\<exists>g > 0. mt_seq_gap m' = bump topic g (mt_seq_gap m))) \<and>
    (x = None \<longrightarrow> csum (mt_seq_gap m') = csum (mt_seq_gap m) + gap_of ev)"
  using assms
  by (auto simp: add_recv_def m_res_def m_sample_def Let_def gap_of_def csum_bump max_def split: sum.splits if_splits)

lemma add_sums:
  assumes "metrics_add T n ev m = (x, m')" "dwf (mt_topic_pub m)" "dwf (mt_topic_recv m)" "dwf (mt_pub_drop m)" "dwf (mt_seq_gap m)"
  shows "csum (mt_topic_pub m') = csum (mt_topic_pub m) + amount [''publish_ok''] (\<lambda>_. 1) (Some ev) \<and>
    csum (mt_topic_recv m') = csum (mt_topic_recv m) + amount [''recv_ok''] (\<lambda>_. 1) (Some ev) \<and>
    csum (mt_pub_drop m') = csum (mt_pub_drop m) + amount [''publish_drop'', ''publish_error''] (\<lambda>_. 1) (Some ev) \<and>
    (x = None \<longrightarrow> csum (mt_seq_gap m') = csum (mt_seq_gap m) + amount [''recv_ok''] gap_of (Some ev))"
proof (cases "ev_text ev ''type'' ''unknown'' = ''recv_ok''")
  case True
  have "add_recv T n ev (ev_text ev ''topic'' []) (ev_text ev ''module'' []) (add_counted ''recv_ok'' m) = (x, m')"
    using assms(1) True by (simp add: metrics_add_def Let_def)
  from add_recv_sums [OF this] assms show ?thesis by (simp add: add_counted_def amount_def True csum_bump)
next
  case False
  then show ?thesis
    using assms by (auto simp: metrics_add_def Let_def add_counted_def amount_def m_res_def csum_bump split: sum.splits if_splits)
qed

definition metrics_grown :: "metrics \<Rightarrow> metrics \<Rightarrow> bool" where
  "metrics_grown m m' \<longleftrightarrow> (\<forall>b. grown b (mt_topic_pub m) \<longrightarrow> grown b (mt_topic_pub m')) \<and> (\<forall>b. grown b (mt_topic_recv m) \<longrightarrow> grown b (mt_topic_recv m')) \<and>
     (\<forall>b. grown b (mt_pub_drop m) \<longrightarrow> grown b (mt_pub_drop m')) \<and> (\<forall>b. grown b (mt_seq_gap m) \<longrightarrow> grown b (mt_seq_gap m'))"

lemma add_grown:
  assumes "metrics_add T n ev m = (x, m')" "dwf (mt_topic_recv m)" "dwf (mt_seq_gap m)"
  shows "metrics_grown m m'"
proof (cases "ev_text ev ''type'' ''unknown'' = ''recv_ok''")
  case True
  have "add_recv T n ev (ev_text ev ''topic'' []) (ev_text ev ''module'' []) (add_counted ''recv_ok'' m) = (x, m')"
    using assms(1) True by (simp add: metrics_add_def Let_def)
  from add_recv_sums [OF this] assms show ?thesis by (auto simp: metrics_grown_def add_counted_def intro: grown_bump grown_bump_pos)
next
  case False
  then show ?thesis
    using assms by (auto simp: metrics_grown_def metrics_add_def Let_def add_counted_def m_res_def grown_bump_pos split: sum.splits if_splits)
qed

lemma grown_dwf: "grown b a \<Longrightarrow> dwf a"
  by (simp add: grown_def)

text \<open>The four totals of a report.\<close>

datatype total_kind = KPub | KRecv | KDrop | KGap

fun mt_of :: "total_kind \<Rightarrow> metrics \<Rightarrow> counter" where
  "mt_of KPub m = mt_topic_pub m" | "mt_of KRecv m = mt_topic_recv m" | "mt_of KDrop m = mt_pub_drop m" | "mt_of KGap m = mt_seq_gap m"

fun zt_of :: "total_kind \<Rightarrow> tracer_mod \<Rightarrow> counter" where
  "zt_of KPub s = zt_pub s" | "zt_of KRecv s = zt_recv s" | "zt_of KDrop s = zt_drop s" | "zt_of KGap s = zt_gap s"

fun sm_of :: "total_kind \<Rightarrow> summary \<Rightarrow> int" where
  "sm_of KPub r = sm_pub r" | "sm_of KRecv r = sm_recv r" | "sm_of KDrop r = sm_drops r" | "sm_of KGap r = sm_gaps r"

fun amounts :: "total_kind \<Rightarrow> payload option \<Rightarrow> int" where
  "amounts KPub ev = amount [''publish_ok''] (\<lambda>_. 1) ev"
| "amounts KRecv ev = amount [''recv_ok''] (\<lambda>_. 1) ev"
| "amounts KDrop ev = amount [''publish_drop'', ''publish_error''] (\<lambda>_. 1) ev"
| "amounts KGap ev = amount [''recv_ok''] gap_of ev"

definition count_sums :: "total_kind \<Rightarrow> tracer_mod \<Rightarrow> int" where
  "count_sums k s = csum (mt_of k (zt_metrics s))"

text \<open>Nothing but metrics, lines and the life of the thread changes when an event is noted.\<close>

lemma note_event_tracked:
  assumes "tracked s"
  shows "tracked (note_event T ev s) \<and> zt_config (note_event T ev s) = zt_config s \<and>
    (zt_alive (note_event T ev s) \<longrightarrow> count_sums k (note_event T ev s) = count_sums k s + amounts k (Some ev)) \<and>
    zt_pub (note_event T ev s) = zt_pub s \<and> zt_recv (note_event T ev s) = zt_recv s \<and> zt_drop (note_event T ev s) = zt_drop s \<and>
    zt_gap (note_event T ev s) = zt_gap s"
proof -
  obtain x m where m: "metrics_add T (samples_kept (zt_config s)) ev (zt_metrics s) = (x, m)" by fastforce
  have d: "dwf (mt_topic_pub (zt_metrics s))" "dwf (mt_topic_recv (zt_metrics s))" "dwf (mt_pub_drop (zt_metrics s))" "dwf (mt_seq_gap (zt_metrics s))"
    using assms by (auto simp: tracked_def dest: grown_dwf)
  show ?thesis
    using add_sums [OF m d] add_grown [OF m d(2,4)] assms
    by (cases k) (auto simp: note_event_def m tracked_def metrics_grown_def count_sums_def)
qed

lemma collect_note:
  "zt_alive s \<Longrightarrow> collect T Garbage w s = note_event T [(''type'', PStr ''collector_parse_error'')] s"
  "zt_alive s \<Longrightarrow> collected T (zt_config s) (ZtEvent (Event (PDict ev)) w) = Some ev \<Longrightarrow>
   collect T (Event (PDict ev)) w s =
     (let s1 = note_event T ev s in
      if zt_alive s1 \<and> truthy (dget_or (zt_config s) ''jsonl_enabled'' (PBool True)) then
        (if w then s1\<lparr>zt_lines := zt_lines s1 @ [(py_str T (dget (zt_config s) ''jsonl_path''), ev)]\<rparr>
         else note_event T [(''type'', PStr ''jsonl_write_error''), (''module'', PStr ''zmq_trace''), (''topic'', PStr [])] s1)
      else s1)"
  by (auto simp: collect_def collected_def Let_def split: if_splits)

lemma collect_skip: "zt_alive s \<Longrightarrow> collected T (zt_config s) (ZtEvent (Event v) w) = None \<Longrightarrow> collect T (Event v) w s = s \<or> \<not> zt_alive (collect T (Event v) w s)"
  by (auto simp: collect_def collected_def Let_def split: pyval.splits if_splits)

lemma amounts_none [simp]: "amounts k None = 0"
  by (cases k) (simp_all add: amount_def)

lemma amounts_internal:
  "amounts k (Some [(''type'', PStr ''collector_parse_error'')]) = 0"
  "amounts k (Some [(''type'', PStr ''jsonl_write_error''), (''module'', PStr ''zmq_trace''), (''topic'', PStr [])]) = 0"
  by (cases k; simp add: amount_def ev_text_def dget_or_def)+

lemma sums_lines [simp]: "count_sums k (s\<lparr>zt_lines := ls\<rparr>) = count_sums k s" "tracked (s\<lparr>zt_lines := ls\<rparr>) = tracked s"
  by (simp_all add: count_sums_def tracked_def)

definition same_last :: "tracer_mod \<Rightarrow> tracer_mod \<Rightarrow> bool" where
  "same_last s s' \<longleftrightarrow> zt_config s' = zt_config s \<and> zt_pub s' = zt_pub s \<and> zt_recv s' = zt_recv s \<and> zt_drop s' = zt_drop s \<and> zt_gap s' = zt_gap s"

lemma collect_sums:
  assumes "tracked s" "zt_alive s" "zt_alive (collect T raw w s)"
  shows "tracked (collect T raw w s) \<and> same_last s (collect T raw w s) \<and>
    count_sums k (collect T raw w s) = count_sums k s + amounts k (collected T (zt_config s) (ZtEvent raw w))"
proof -
  have noted: "tracked (note_event T ev t) \<and> same_last t (note_event T ev t) \<and>
      (zt_alive (note_event T ev t) \<longrightarrow> count_sums k (note_event T ev t) = count_sums k t + amounts k (Some ev))" if "tracked t" for ev t
    using note_event_tracked [OF that] by (simp add: same_last_def)
  show ?thesis
  proof (cases raw)
    case Garbage
    then show ?thesis
      using assms noted [OF assms(1)] collect_note(1) [OF assms(2)] by (simp add: collected_def amounts_internal)
  next
    case (Event v)
    show ?thesis
    proof (cases "collected T (zt_config s) (ZtEvent raw w)")
      case None
      then show ?thesis using assms collect_skip [OF assms(2), of T v w] by (auto simp: Event same_last_def)
    next
      case (Some ev)
      have v: "v = PDict ev" using Some by (auto simp: Event collected_def split: pyval.splits if_splits)
      let ?s1 = "note_event T ev s"
      let ?err = "[(''type'', PStr ''jsonl_write_error''), (''module'', PStr ''zmq_trace''), (''topic'', PStr [])]"
      have c: "collect T raw w s =
          (if zt_alive ?s1 \<and> truthy (dget_or (zt_config s) ''jsonl_enabled'' (PBool True)) then
             (if w then ?s1\<lparr>zt_lines := zt_lines ?s1 @ [(py_str T (dget (zt_config s) ''jsonl_path''), ev)]\<rparr> else note_event T ?err ?s1)
           else ?s1)"
        using collect_note(2) [OF assms(2), of T ev w] Some by (simp add: Event v Let_def)
      have n1: "tracked ?s1" "same_last s ?s1" using noted [OF assms(1)] by auto
      have n2: "tracked (note_event T ?err ?s1)" "same_last ?s1 (note_event T ?err ?s1)"
          "zt_alive (note_event T ?err ?s1) \<Longrightarrow> count_sums k (note_event T ?err ?s1) = count_sums k ?s1"
        using noted [OF n1(1), of ?err] by (auto simp: amounts_internal)
      have alive: "zt_alive ?s1" using assms(3) unfolding c by (auto split: if_splits)
      then have "count_sums k ?s1 = count_sums k s + amounts k (Some ev)" using noted [OF assms(1)] by auto
      then show ?thesis
        using n1 n2 assms(3) unfolding Some c by (auto simp: same_last_def split: if_splits)
    qed
  qed
qed


lemma collect_dead: "zt_alive (collect T raw w s) \<Longrightarrow> zt_alive s"
  by (auto simp: collect_def split: if_splits)

lemma report_sums:
  assumes "tracked s"
  shows "tracked (fst (zt_report fl el s)) \<and> zt_config (fst (zt_report fl el s)) = zt_config s \<and> zt_alive (fst (zt_report fl el s)) = zt_alive s \<and>
    count_sums k (fst (zt_report fl el s)) = count_sums k s \<and> csum (zt_of k (fst (zt_report fl el s))) = count_sums k s \<and>
    sm_of k (fst (snd (zt_report fl el s))) = count_sums k s - csum (zt_of k s)"
  using assms
  by (cases k) (auto simp: zt_report_def make_summary_def tracked_def count_sums_def Let_def csum_sub intro: grown_refl dest: grown_dwf)

lemma step_config: "zt_alive (fst (zt_step T fl s e)) \<Longrightarrow> tracked s \<Longrightarrow> zt_config (fst (zt_step T fl s e)) = zt_config s"
  using collect_sums [of s T] report_sums [of s fl] by (cases e) (auto simp: same_last_def Let_def split_def dest: collect_dead)

lemma step_dead: "zt_alive (fst (zt_step T fl s e)) \<Longrightarrow> zt_alive s"
  by (cases e) (auto simp: zt_report_def Let_def dest: collect_dead)

lemma run_alive: "zt_alive (fst (run_events (zt_step T fl) s es)) \<Longrightarrow> zt_alive s"
proof (induction es arbitrary: s)
  case (Cons e es)
  then have "zt_alive (fst (zt_step T fl s e))" using Cons.IH [of "fst (zt_step T fl s e)"] by (simp add: Let_def)
  then show ?case by (rule step_dead)
qed simp

lemma run_sums:
  "tracked s \<Longrightarrow> zt_alive (fst (run_events (zt_step T fl) s es)) \<Longrightarrow>
   tracked (fst (run_events (zt_step T fl) s es)) \<and>
   count_sums k (fst (run_events (zt_step T fl) s es)) = count_sums k s + sum_list (map (\<lambda>e. amounts k (collected T (zt_config s) e)) es) \<and>
   sum_list (map (\<lambda>r. sm_of k (fst r)) (snd (run_events (zt_step T fl) s es))) = csum (zt_of k (fst (run_events (zt_step T fl) s es))) - csum (zt_of k s)"
proof (induction es arbitrary: s)
  case (Cons e es)
  let ?s = "fst (zt_step T fl s e)"
  have alive: "zt_alive ?s" using Cons.prems(2) run_alive [of T fl ?s es] by (simp add: Let_def)
  have step: "tracked ?s \<and> zt_config ?s = zt_config s \<and> count_sums k ?s = count_sums k s + amounts k (collected T (zt_config s) e) \<and>
      sum_list (map (\<lambda>r. sm_of k (fst r)) (snd (zt_step T fl s e))) = csum (zt_of k ?s) - csum (zt_of k s)"
  proof (cases e)
    case (ZtEvent raw w)
    have a: "zt_alive (collect T raw w s)" using alive by (simp add: ZtEvent)
    from collect_sums [OF Cons.prems(1) collect_dead [OF a] a, of k] show ?thesis
      by (cases k) (auto simp: ZtEvent same_last_def)
  next
    case (ZtReport el)
    show ?thesis using report_sums [OF Cons.prems(1), of fl el k] by (simp add: ZtReport collected_def Let_def split_def)
  qed
  then show ?case using Cons.IH [of ?s] Cons.prems(2) by (simp add: Let_def)
qed simp

lemma reports_sum:
  assumes "run_events (zt_step T fl) (new_tracer config) (es @ [ZtReport el]) = (s', reports)" "zt_alive s'"
  shows "sum_list (map (\<lambda>r. sm_of k (fst r)) reports) = sum_list (map (\<lambda>e. amounts k (collected T config e)) es)"
proof -
  have t: "tracked (new_tracer config)" by (simp add: tracked_def new_tracer_def new_metrics_def grown_def)
  have z: "count_sums k (new_tracer config) = 0" "csum (zt_of k (new_tracer config)) = 0" "zt_config (new_tracer config) = config"
    by (cases k; simp add: count_sums_def new_tracer_def new_metrics_def csum_def)+
  let ?s = "fst (run_events (zt_step T fl) (new_tracer config) es)"
  have s': "s' = fst (zt_report fl el ?s)" using assms(1) by (auto simp: run_events_append Let_def split_def)
  have r: "zt_alive (fst (run_events (zt_step T fl) (new_tracer config) (es @ [ZtReport el])))" using assms by simp
  have "zt_alive ?s" using assms(2) by (simp add: s' zt_report_def Let_def)
  then have 1: "tracked ?s" "count_sums k ?s = sum_list (map (\<lambda>e. amounts k (collected T config e)) es)"
    using run_sums [OF t, of T fl es k] by (simp_all add: z)
  have "csum (zt_of k s') = count_sums k ?s" using report_sums [OF 1(1), of fl el k] by (simp add: s')
  then show ?thesis using run_sums [OF t r, of k] 1(2) assms(1) by (simp add: z)
qed

text \<open>As long as the collector lives, the reports account for every event: what they name as published, received, dropped and
  missed adds up to the events collected before the last report, whatever the moments of the reports.\<close>

theorem reports_account_for_events:
  assumes "run_events (zt_step T fl) (new_tracer config) (es @ [ZtReport el]) = (s', reports)" "zt_alive s'"
  shows "sum_list (map (\<lambda>r. sm_of k (fst r)) reports) = sum_list (map (\<lambda>e. amounts k (collected T config e)) es)"
  using assms by (rule reports_sum)

text \<open>Events that cannot end the collector.\<close>

definition harmless :: "zt_event \<Rightarrow> bool" where
  "harmless e =
     (case e of
        ZtEvent (Event (PDict ev)) w \<Rightarrow> ev_text ev ''type'' ''unknown'' \<noteq> ''recv_ok'' \<and> (case ev_int ev ''bytes'' of Inr i \<Rightarrow> True | Inl x \<Rightarrow> False)
      | ZtEvent (Event v) w \<Rightarrow> False
      | _ \<Rightarrow> True)"

lemma note_harmless:
  "zt_alive s \<Longrightarrow> harmless (ZtEvent (Event (PDict ev)) w) \<Longrightarrow> zt_alive (note_event T ev s) \<and> zt_config (note_event T ev s) = zt_config s"
  by (auto simp: note_event_def metrics_add_def m_res_def harmless_def Let_def split: sum.splits)

lemma internal_harmless:
  "harmless (ZtEvent (Event (PDict [(''type'', PStr ''collector_parse_error'')])) w)"
  "harmless (ZtEvent (Event (PDict [(''type'', PStr ''jsonl_write_error''), (''module'', PStr ''zmq_trace''), (''topic'', PStr [])])) w)"
  by (simp_all add: harmless_def ev_text_def ev_int_def dget_or_def)

lemma harmless_step:
  assumes "zt_alive s" "harmless e"
  shows "zt_alive (fst (zt_step T fl s e))"
proof (cases e)
  case (ZtEvent raw w)
  show ?thesis
  proof (cases raw)
    case Garbage
    then show ?thesis using note_harmless [OF assms(1) internal_harmless(1)] assms(1) by (simp add: ZtEvent collect_def)
  next
    case (Event v)
    then obtain ev where v: "v = PDict ev" using assms(2) by (cases v) (simp_all add: ZtEvent harmless_def)
    have n: "zt_alive (note_event T ev s)" using note_harmless [OF assms(1)] assms(2) by (simp add: ZtEvent Event v)
    then show ?thesis
      using assms(1) note_harmless [OF n internal_harmless(2)] by (simp add: ZtEvent Event v collect_def Let_def)
  qed
qed (use assms in \<open>simp add: zt_report_def Let_def\<close>)

lemma harmless_run: "zt_alive s \<Longrightarrow> list_all harmless es \<Longrightarrow> zt_alive (fst (run_events (zt_step T fl) s es))"
proof (induction es arbitrary: s)
  case (Cons e es)
  then show ?case using Cons.IH [OF harmless_step] by (simp add: Let_def)
qed simp

lemma not_blacklisted: "\<not> blacklisted demo_text [(''jsonl_enabled'', PBool False)] t"
proof -
  have "filter (\<lambda>p. p \<noteq> []) (map py_strip (py_split '','' (py_str demo_text (dget_or [(''jsonl_enabled'', PBool False)] ''blacklist_prefixes'' (PStr []))))) = []"
    by code_simp
  then show ?thesis by (simp add: blacklisted_def)
qed

lemma reports_account_for_events_witness:
  "let es = [ZtEvent (Event (PDict [(''type'', PStr ''publish_ok''), (''topic'', PStr ''t'')])) True, ZtReport 1, ZtEvent Garbage True,
       ZtEvent (Event (PDict [(''type'', PStr ''publish_ok''), (''topic'', PStr ''u'')])) False] in
   sum_list (map (\<lambda>r. sm_of KPub (fst r)) (snd (run_events (zt_step demo_text (\<lambda>x. x)) (new_tracer [(''jsonl_enabled'', PBool False)]) (es @ [ZtReport 2])))) = 2"
proof -
  let ?c = "[(''jsonl_enabled'', PBool False)]"
  let ?es = "[ZtEvent (Event (PDict [(''type'', PStr ''publish_ok''), (''topic'', PStr ''t'')])) True, ZtReport 1, ZtEvent Garbage True,
       ZtEvent (Event (PDict [(''type'', PStr ''publish_ok''), (''topic'', PStr ''u'')])) False]"
  obtain s' reports where r: "run_events (zt_step demo_text (\<lambda>x. x)) (new_tracer ?c) (?es @ [ZtReport 2]) = (s', reports)"
    by (cases "run_events (zt_step demo_text (\<lambda>x. x)) (new_tracer ?c) (?es @ [ZtReport 2])") blast
  have h: "list_all harmless (?es @ [ZtReport 2])" by (simp add: harmless_def ev_text_def ev_int_def dget_or_def)
  have a: "zt_alive s'" using harmless_run [OF _ h, of "new_tracer ?c" demo_text "\<lambda>x. x"] unfolding r by (simp add: new_tracer_def)
  have "sum_list (map (\<lambda>e. amounts KPub (collected demo_text ?c e)) ?es) = 2"
    by (simp add: collected_def not_blacklisted amount_def ev_text_def dget_or_def)
  then show ?thesis using reports_account_for_events [OF r a, of KPub] unfolding Let_def r by simp
qed

section \<open>Percentiles and ranks\<close>

text \<open>Whatever the rounding and the rank asked for, a percentile is one of the values.\<close>

lemma pct_is_value: "values \<noteq> [] \<Longrightarrow> \<exists>v \<in> set values. pct fl values p = Some v"
proof -
  assume v: "values \<noteq> []"
  let ?n = "int (length values) - 1"
  have b: "nat (min ?n (max 0 i)) < length (sort values)" for i using v by (cases "values") auto
  show ?thesis using v nth_mem [OF b] by (auto simp: pct_def Let_def)
qed

text \<open>The topics that are listed score at least as high as the ones left out.\<close>

lemma ranked_highest:
  assumes "t \<in> set (ranked score n ts)" "u \<in> set ts" "u \<notin> set (ranked score n ts)"
  shows "score u \<le> score t"
proof -
  let ?s = "sort_key (\<lambda>t. - score t) ts"
  have "u \<in> set (drop n ?s)" using assms(2,3) by (metis Un_iff append_take_drop_id ranked_def set_append set_sort)
  moreover have "sorted (map (\<lambda>t. - score t) (take n ?s @ drop n ?s))" by simp
  then have "\<forall>x \<in> set (take n ?s). \<forall>y \<in> set (drop n ?s). - score x \<le> - score y"
    unfolding map_append sorted_append by auto
  ultimately show ?thesis using assms(1) by (auto simp: ranked_def)
qed

section \<open>Clients and collector together\<close>

definition trace_dict :: "string \<Rightarrow> int \<Rightarrow> trace_event \<Rightarrow> payload" where
  "trace_dict name ts ev = (case ev of Trace et fs \<Rightarrow> [(''type'', PStr et), (''module'', PStr name), (''ts_ns'', PInt ts)] @ fs)"

text \<open>One publication and the events it leaves for the collector.\<close>

definition traced_step :: "json_lib \<Rightarrow> 'h busclient \<Rightarrow> int \<times> send_outcome \<times> string \<times> pyval \<Rightarrow> 'h busclient \<times> zt_event list" where
  "traced_step J b p =
     (case p of (now, outcome, topic, v) \<Rightarrow>
        (let (r, b', sent, tr) = publish J True now outcome topic v b in
         (b', map (\<lambda>ev. ZtEvent (Event (PDict (trace_dict (bc_name b) now ev))) True) tr)))"

definition tallied :: "py_text \<Rightarrow> payload \<Rightarrow> zt_event list \<Rightarrow> int" where
  "tallied T config es = sum_list (map (\<lambda>e. amounts KPub (collected T config e)) es)"

lemma tallied_simps [simp]:
  "tallied T config [] = 0" "tallied T config (xs @ ys) = tallied T config xs + tallied T config ys"
  by (simp_all add: tallied_def)

lemma traced_step_tally:
  assumes "trace_topic_enabled b topic" "truthy (dget_or config ''enabled'' (PBool True))" "\<not> blacklisted T config topic"
  shows "tallied T config (snd (traced_step J b (now, outcome, topic, v))) = bc_ok (fst (traced_step J b (now, outcome, topic, v))) - bc_ok b"
  using assms
  by (cases outcome)
    (auto simp: traced_step_def publish_def send_frames_out_def next_trace_seq_def trace_dict_def collected_def amount_def ev_text_def dget_or_def
      tallied_def Let_def split: sum.split)

lemma traced_run_tally:
  assumes "truthy (dget_or config ''enabled'' (PBool True))"
  shows "list_all (\<lambda>(now, outcome, topic, v). trace_topic_enabled b topic \<and> \<not> blacklisted T config topic) ps \<Longrightarrow>
    tallied T config (snd (run_events (traced_step J) b ps)) = bc_ok (fst (run_events (traced_step J) b ps)) - bc_ok b"
proof (induction ps arbitrary: b)
  case (Cons p ps)
  obtain now outcome topic v where p: "p = (now, outcome, topic, v)" by (cases p)
  let ?b = "fst (traced_step J b p)"
  have black: "bc_black ?b = bc_black b"
    by (cases outcome) (auto simp: p traced_step_def publish_def send_frames_out_def next_trace_seq_def Let_def split: sum.split)
  have "list_all (\<lambda>(now, outcome, topic, v). trace_topic_enabled ?b topic \<and> \<not> blacklisted T config topic) ps"
    using Cons.prems by (auto simp: list_all_iff trace_topic_enabled_def black)
  moreover have "tallied T config (snd (traced_step J b p)) = bc_ok ?b - bc_ok b"
    using traced_step_tally [of b topic config T J now outcome v] Cons.prems assms by (simp add: p)
  ultimately show ?case using Cons.IH [of ?b] by (simp add: Let_def)
qed simp

text \<open>C12 The report agrees with the client: when every event arrives, the published messages of the reports are as many as the
  client counts itself, for any order of accepted, refused and failing sends.\<close>

theorem reports_agree_with_client:
  assumes "truthy (dget_or config ''enabled'' (PBool True))"
    and "list_all (\<lambda>(now, outcome, topic, v). trace_topic_enabled b topic \<and> \<not> blacklisted T config topic) ps"
    and "run_events (traced_step J) b ps = (b', es)" "run_events (zt_step T fl) (new_tracer config) (es @ [ZtReport el]) = (s', reports)" "zt_alive s'"
  shows "sum_list (map (\<lambda>r. sm_pub (fst r)) reports) = bc_ok b' - bc_ok b"
proof -
  have "sum_list (map (\<lambda>r. sm_of KPub (fst r)) reports) = tallied T config es"
    using reports_sum [OF assms(4,5), of KPub] by (simp add: tallied_def)
  then show ?thesis using traced_run_tally [OF assms(1,2), of J] assms(3) by simp
qed

lemma traced_harmless: "list_all harmless (snd (traced_step J b p))"
  by (cases p)
    (auto simp: traced_step_def publish_def send_frames_out_def trace_dict_def harmless_def ev_int_def ev_text_def dget_or_def Let_def
      split: sum.splits send_outcome.splits prod.splits if_splits)

lemma traced_run_harmless: "list_all harmless (snd (run_events (traced_step J) b ps))"
  by (induction ps arbitrary: b) (auto simp: Let_def traced_harmless)

lemma reports_agree_with_client_witness:
  "\<exists>b' es s' reports. run_events (traced_step demo_json) demo_pub [(1, SendOk, ''a'', PNone), (2, SendAgain, ''a'', PNone)] = (b', es) \<and>
     run_events (zt_step demo_text (\<lambda>x. x)) (new_tracer [(''jsonl_enabled'', PBool False)]) (es @ [ZtReport 1]) = (s', reports) \<and>
     sum_list (map (\<lambda>r. sm_pub (fst r)) reports) = bc_ok b' - bc_ok demo_pub"
proof -
  let ?ps = "[(1, SendOk, ''a'', PNone), (2, SendAgain, ''a'', PNone)]" and ?c = "[(''jsonl_enabled'', PBool False)]"
  obtain b' es where b: "run_events (traced_step demo_json) demo_pub ?ps = (b', es)"
    by (cases "run_events (traced_step demo_json) demo_pub ?ps") blast
  obtain s' reports where r: "run_events (zt_step demo_text (\<lambda>x. x)) (new_tracer ?c) (es @ [ZtReport 1]) = (s', reports)"
    by (cases "run_events (zt_step demo_text (\<lambda>x. x)) (new_tracer ?c) (es @ [ZtReport 1])") blast
  have black: "bc_black demo_pub = [''log.'']" by code_simp
  have en: "list_all (\<lambda>(now, outcome, topic, v). trace_topic_enabled demo_pub topic \<and> \<not> blacklisted demo_text ?c topic) ?ps"
    by (simp add: not_blacklisted trace_topic_enabled_def starts_def black)
  have t: "truthy (dget_or ?c ''enabled'' (PBool True))" by (simp add: dget_or_def)
  have h: "list_all harmless (es @ [ZtReport 1])" using traced_run_harmless [of demo_json demo_pub ?ps] unfolding b by (simp add: harmless_def)
  have a: "zt_alive s'" using harmless_run [OF _ h, of "new_tracer ?c" demo_text "\<lambda>x. x"] unfolding r by (simp add: new_tracer_def)
  show ?thesis using reports_agree_with_client [OF t en b r a] b r by blast
qed

end
