(* ===== verification/BtUi.thy ===== *)
theory BtUi
  imports BtManager
begin

text \<open>
  \<^verbatim>\<open>v2/modules/bluetooth_ui/main.py\<close>: the Bluetooth window. The bus handlers queue slots; the event loop runs them, the nested
  loop of an open dialog too. The state is what the code reads of the widgets: the items of the two lists with the current
  row, the enabled buttons, the dialogs. Labels, the status bar and the layout are left out. PyQt6 ends the process at an
  exception of a slot.
\<close>

section \<open>State\<close>

text \<open>An item of the paired list: the data of \<^verbatim>\<open>UserRole\<close> and of the role after it.\<close>

record paired_item =
  bi_address :: pyval
  bi_connected :: pyval

text \<open>An open dialog with what the code does after it.\<close>

datatype bw_dialog = PinDialog string string | InfoBox | RemoveBox pyval

datatype bw_slot =
    BwSetStatus
  | AddDevice string string int
  | ShowPinDialog string string
  | PairingCompleted string
  | PairingFailed string string
  | RefreshPaired pyval
  | PairedConnected string
  | PairedDisconnected string
  | PairedRemoved string
  | PairedFailed string string

record bt_window =
  bw_open :: bool
  bw_alive :: bool
  bw_listening :: bool
  bw_slots :: "bw_slot list"
  bw_devices :: "(string, string \<times> int) dict"
  bw_found :: "string list"
  bw_found_row :: "nat option"
  bw_pending :: string
  bw_paired :: "paired_item list"
  bw_row :: "nat option"
  bw_pair_on :: bool
  bw_connect_on :: bool
  bw_disconnect_on :: bool
  bw_remove_on :: bool
  bw_dialogs :: "bw_dialog list"

definition new_bt_window :: bt_window where
  "new_bt_window = \<lparr>bw_open = False, bw_alive = True, bw_listening = False, bw_slots = [], bw_devices = [], bw_found = [],
     bw_found_row = None, bw_pending = [], bw_paired = [], bw_row = None, bw_pair_on = False, bw_connect_on = False,
     bw_disconnect_on = False, bw_remove_on = False, bw_dialogs = []\<rparr>"

text \<open>\<^verbatim>\<open>currentItem\<close>: a row outside of the list is none.\<close>

definition current_item :: "'a list \<Rightarrow> nat option \<Rightarrow> 'a option" where
  "current_item xs row = (case row of None \<Rightarrow> None | Some i \<Rightarrow> if i < length xs then Some (xs ! i) else None)"

definition picked :: "'a list \<Rightarrow> nat option \<Rightarrow> nat option" where
  "picked xs row = (if current_item xs row = None then None else row)"

section \<open>Buttons and items\<close>

definition update_paired_buttons :: "bt_window \<Rightarrow> bt_window" where
  "update_paired_buttons s =
     (case current_item (bw_paired s) (bw_row s) of
        None \<Rightarrow> s\<lparr>bw_connect_on := False, bw_disconnect_on := False, bw_remove_on := False\<rparr>
      | Some it \<Rightarrow>
          (let conn = truthy (bi_connected it) in
           s\<lparr>bw_connect_on := \<not> conn, bw_disconnect_on := conn, bw_remove_on := True\<rparr>))"

definition selected_paired_address :: "bt_window \<Rightarrow> pyval" where
  "selected_paired_address s = (case current_item (bw_paired s) (bw_row s) of None \<Rightarrow> PStr [] | Some it \<Rightarrow> bi_address it)"

fun refresh_item_state :: "string \<Rightarrow> bool \<Rightarrow> paired_item list \<Rightarrow> paired_item list" where
  "refresh_item_state a conn [] = []"
| "refresh_item_state a conn (it # its) =
     (if bi_address it = PStr a then it\<lparr>bi_connected := PBool conn\<rparr> # its else it # refresh_item_state a conn its)"

fun row_of :: "string \<Rightarrow> paired_item list \<Rightarrow> nat option" where
  "row_of a [] = None"
| "row_of a (it # its) = (if bi_address it = PStr a then Some 0 else map_option Suc (row_of a its))"

text \<open>The row that is current when row \<open>i\<close> has been taken. Which one Qt makes current in place of a current item that is taken
  is the parameter \<open>nx\<close>.\<close>

definition row_after :: "(nat \<Rightarrow> nat \<Rightarrow> nat option) \<Rightarrow> nat \<Rightarrow> nat \<Rightarrow> nat option \<Rightarrow> nat option" where
  "row_after nx n i row =
     (case row of None \<Rightarrow> None | Some j \<Rightarrow> if j = i then nx i n else if i < j then Some (j - 1) else Some j)"

section \<open>Slots\<close>

definition add_device :: "string \<Rightarrow> string \<Rightarrow> int \<Rightarrow> bt_window \<Rightarrow> bt_window" where
  "add_device a name rssi s =
     (if map_of (bw_devices s) a \<noteq> None then s
      else s\<lparr>bw_devices := dset a (name, rssi) (bw_devices s), bw_found := bw_found s @ [a]\<rparr>)"

definition show_pin_dialog :: "string \<Rightarrow> string \<Rightarrow> bt_window \<Rightarrow> bt_window" where
  "show_pin_dialog a pin s = s\<lparr>bw_pending := a, bw_dialogs := PinDialog a pin # bw_dialogs s\<rparr>"

text \<open>\<^verbatim>\<open>ast.literal_eval(repr(v))\<close> fails for a number that is not finite and gives every other value of JSON back.\<close>

fun literal :: "pyval \<Rightarrow> bool" where
  "literal (PFloat x) = (case x of Fin r \<Rightarrow> True | _ \<Rightarrow> False)"
| "literal (PList vs) = (\<forall>v \<in> set vs. literal v)"
| "literal (PDict d) = (\<forall>kv \<in> set d. literal (snd kv))"
| "literal v = True"

definition literal_list :: "pyval \<Rightarrow> pyval list res" where
  "literal_list v = (if literal v then py_list v else Inr [])"

text \<open>The items made before an exception, and the exception.\<close>

fun paired_items :: "pyval list \<Rightarrow> exn option \<times> paired_item list" where
  "paired_items [] = (None, [])"
| "paired_items (v # vs) =
     (case v of
        PDict d \<Rightarrow>
          (let (x, its) = paired_items vs in
           (x, \<lparr>bi_address = dget_or d ''address'' (PStr []), bi_connected = dget_or d ''connected'' (PBool False)\<rparr> # its))
      | _ \<Rightarrow> (Some AttributeError, []))"

definition refresh_paired_list :: "pyval \<Rightarrow> bt_window \<Rightarrow> bt_window effect" where
  "refresh_paired_list v s =
     (let s1 = s\<lparr>bw_paired := [], bw_row := None\<rparr> in
      eff_res s1 (literal_list v) (\<lambda>vs.
        (case paired_items vs of
           (Some x, its) \<Rightarrow> (Some x, s1\<lparr>bw_paired := its\<rparr>, [])
         | (None, its) \<Rightarrow> eff_ok (update_paired_buttons (s1\<lparr>bw_paired := its\<rparr>)) [])))"

definition paired_state :: "string \<Rightarrow> bool \<Rightarrow> bt_window \<Rightarrow> bt_window" where
  "paired_state a conn s = update_paired_buttons (s\<lparr>bw_paired := refresh_item_state a conn (bw_paired s)\<rparr>)"

definition paired_removed :: "(nat \<Rightarrow> nat \<Rightarrow> nat option) \<Rightarrow> string \<Rightarrow> bt_window \<Rightarrow> bt_window" where
  "paired_removed nx a s =
     update_paired_buttons (case row_of a (bw_paired s) of
        None \<Rightarrow> s
      | Some i \<Rightarrow>
          s\<lparr>bw_paired := take i (bw_paired s) @ drop (Suc i) (bw_paired s), bw_row := row_after nx (length (bw_paired s)) i (bw_row s)\<rparr>)"

definition info_box :: "bt_window \<Rightarrow> bt_window" where
  "info_box s = s\<lparr>bw_dialogs := InfoBox # bw_dialogs s\<rparr>"

fun run_bw_slot :: "(nat \<Rightarrow> nat \<Rightarrow> nat option) \<Rightarrow> bw_slot \<Rightarrow> bt_window \<Rightarrow> bt_window effect" where
  "run_bw_slot nx BwSetStatus s = eff_ok s []"
| "run_bw_slot nx (AddDevice a name rssi) s = eff_ok (add_device a name rssi s) []"
| "run_bw_slot nx (ShowPinDialog a pin) s = eff_ok (show_pin_dialog a pin s) []"
| "run_bw_slot nx (PairingCompleted a) s = eff_ok (info_box s) []"
| "run_bw_slot nx (PairingFailed a e) s = eff_ok (info_box s) []"
| "run_bw_slot nx (RefreshPaired v) s = refresh_paired_list v s"
| "run_bw_slot nx (PairedConnected a) s = eff_ok (paired_state a True s) []"
| "run_bw_slot nx (PairedDisconnected a) s = eff_ok (paired_state a False s) []"
| "run_bw_slot nx (PairedRemoved a) s = eff_ok (paired_removed nx a s) []"
| "run_bw_slot nx (PairedFailed a e) s = eff_ok s []"

section \<open>Bus handlers\<close>

definition bw_invoke :: "bw_slot \<Rightarrow> bt_window \<Rightarrow> bt_window" where
  "bw_invoke sl s = (if bw_open s then s\<lparr>bw_slots := bw_slots s @ [sl]\<rparr> else s)"

text \<open>An argument of another type than the slot's makes \<^verbatim>\<open>invokeMethod\<close> raise, when there is a window.\<close>

definition bw_str :: "payload \<Rightarrow> string \<Rightarrow> string \<Rightarrow> (string \<Rightarrow> bt_window effect) \<Rightarrow> bt_window \<Rightarrow> bt_window effect" where
  "bw_str p k d f s = (case dget_or p k (PStr d) of PStr x \<Rightarrow> f x | _ \<Rightarrow> if bw_open s then (Some RuntimeError, s, []) else f [])"

definition on_device_found :: "payload \<Rightarrow> bt_window \<Rightarrow> bt_window effect" where
  "on_device_found p s =
     eff_res s (py_int (dget_or p ''rssi'' (PInt 0))) (\<lambda>rssi.
       bw_str p ''address'' [] (\<lambda>a. bw_str p ''name'' [] (\<lambda>name. eff_ok (bw_invoke (AddDevice a name rssi) s) []) s) s)"

definition on_discovery_completed :: "payload \<Rightarrow> bt_window \<Rightarrow> bt_window effect" where
  "on_discovery_completed p s =
     eff_res s (py_list (dget_or p ''devices'' (PList []))) (\<lambda>vs. eff_ok (bw_invoke BwSetStatus s) [])"

definition on_pairing_pin :: "payload \<Rightarrow> bt_window \<Rightarrow> bt_window effect" where
  "on_pairing_pin p s =
     bw_str p ''device_address'' [] (\<lambda>a. bw_str p ''pin'' [] (\<lambda>pin. eff_ok (bw_invoke (ShowPinDialog a pin) s) []) s) s"

definition on_address :: "(string \<Rightarrow> bw_slot) \<Rightarrow> payload \<Rightarrow> bt_window \<Rightarrow> bt_window effect" where
  "on_address f p s = bw_str p ''device_address'' [] (\<lambda>a. eff_ok (bw_invoke (f a) s) []) s"

definition on_failure :: "(string \<Rightarrow> string \<Rightarrow> bw_slot) \<Rightarrow> payload \<Rightarrow> bt_window \<Rightarrow> bt_window effect" where
  "on_failure f p s =
     bw_str p ''device_address'' [] (\<lambda>a. bw_str p ''error'' ''errore sconosciuto'' (\<lambda>e. eff_ok (bw_invoke (f a e) s) []) s) s"

definition on_paired_devices :: "payload \<Rightarrow> bt_window \<Rightarrow> bt_window effect" where
  "on_paired_devices p s =
     (let v = dget_or p ''devices'' (PList []) in eff_res s (py_list v) (\<lambda>vs. eff_ok (bw_invoke (RefreshPaired v) s) []))"

definition bw_system_start :: "payload \<Rightarrow> bt_window \<Rightarrow> bt_window effect" where
  "bw_system_start p s =
     (if \<not> py_eq_int (dget p ''priority'') 2 then eff_ok s []
      else eff_ok ((bw_invoke BwSetStatus s)\<lparr>bw_listening := True\<rparr>)
        [(''system.ready'', [(''name'', PStr ''bluetooth_ui''), (''priority'', PInt 2)]), (''bluetooth_manager.paired.list'', [])])"

definition bw_bus :: "string \<Rightarrow> payload \<Rightarrow> bt_window \<Rightarrow> bt_window effect" where
  "bw_bus t p s =
     (if \<not> bw_listening s then eff_ok s []
      else if t = ''bluetooth_manager.device.found'' then on_device_found p s
      else if t = ''bluetooth_manager.discovery.completed'' then on_discovery_completed p s
      else if t = ''bluetooth_manager.pairing.pin'' then on_pairing_pin p s
      else if t = ''bluetooth_manager.pairing.completed'' then on_address PairingCompleted p s
      else if t = ''bluetooth_manager.pairing.failed'' then on_failure PairingFailed p s
      else if t = ''bluetooth_manager.paired.devices'' then on_paired_devices p s
      else if t = ''bluetooth_manager.paired.connected'' then on_address PairedConnected p s
      else if t = ''bluetooth_manager.paired.disconnected'' then on_address PairedDisconnected p s
      else if t = ''bluetooth_manager.paired.removed'' then on_address PairedRemoved p s
      else if t = ''bluetooth_manager.paired.failed'' then on_failure PairedFailed p s
      else eff_ok s [])"

section \<open>Clicks\<close>

datatype bw_button = ScanB | PairB | RefreshB | AutoB | ConnectB | DisconnectB | RemoveB

definition bw_msg :: "string \<Rightarrow> payload \<Rightarrow> busmsg" where
  "bw_msg what p = (''bluetooth_manager.'' @ what, p)"

definition on_scan_clicked :: "bt_window \<Rightarrow> bt_window effect" where
  "on_scan_clicked s =
     eff_ok (s\<lparr>bw_devices := [], bw_found := [], bw_found_row := None, bw_pair_on := False\<rparr>)
       [bw_msg ''discover'' [(''duration_sec'', PInt 10)]]"

definition on_pair_clicked :: "bt_window \<Rightarrow> bt_window effect" where
  "on_pair_clicked s =
     (case current_item (bw_found s) (bw_found_row s) of
        None \<Rightarrow> eff_ok s [] | Some a \<Rightarrow> eff_ok s [bw_msg ''pair'' [(''device_address'', PStr a)]])"

definition on_paired_clicked :: "string \<Rightarrow> bt_window \<Rightarrow> bt_window effect" where
  "on_paired_clicked what s =
     (let a = selected_paired_address s in
      if \<not> truthy a then eff_ok s [] else eff_ok s [bw_msg what [(''device_address'', a)]])"

definition on_remove_clicked :: "bt_window \<Rightarrow> bt_window effect" where
  "on_remove_clicked s =
     (let a = selected_paired_address s in
      if \<not> truthy a then eff_ok s [] else eff_ok (s\<lparr>bw_dialogs := RemoveBox a # bw_dialogs s\<rparr>) [])"

fun button_on :: "bw_button \<Rightarrow> bt_window \<Rightarrow> bool" where
  "button_on PairB s = bw_pair_on s"
| "button_on ConnectB s = bw_connect_on s"
| "button_on DisconnectB s = bw_disconnect_on s"
| "button_on RemoveB s = bw_remove_on s"
| "button_on b s = True"

fun clicked :: "bw_button \<Rightarrow> bt_window \<Rightarrow> bt_window effect" where
  "clicked ScanB s = on_scan_clicked s"
| "clicked PairB s = on_pair_clicked s"
| "clicked RefreshB s = eff_ok s [bw_msg ''paired.list'' []]"
| "clicked AutoB s = eff_ok s [bw_msg ''try_autoconnect'' []]"
| "clicked ConnectB s = on_paired_clicked ''paired.connect'' s"
| "clicked DisconnectB s = on_paired_clicked ''paired.disconnect'' s"
| "clicked RemoveB s = on_remove_clicked s"

text \<open>The user answers the dialog on top.\<close>

definition close_dialog :: "bool \<Rightarrow> bt_window \<Rightarrow> bt_window effect" where
  "close_dialog yes s =
     (case bw_dialogs s of
        [] \<Rightarrow> eff_ok s []
      | d # ds \<Rightarrow>
          eff_ok (s\<lparr>bw_dialogs := ds\<rparr>)
            (case d of
               PinDialog a pin \<Rightarrow> if yes then [bw_msg ''confirm_pairing'' [(''device_address'', PStr a), (''pin'', PStr pin)]] else []
             | InfoBox \<Rightarrow> []
             | RemoveBox a \<Rightarrow> if yes then [bw_msg ''paired.remove'' [(''device_address'', a)]] else []))"

section \<open>Events\<close>

text \<open>A dialog is modal: while one is open the window takes no input.\<close>

datatype bw_event =
    BwOpen
  | BwStart payload
  | BwBus string payload
  | BwTurn
  | BwPickFound "nat option"
  | BwPickPaired "nat option"
  | BwClick bw_button
  | BwDialog bool

definition bw_input :: "(bt_window \<Rightarrow> bt_window effect) \<Rightarrow> bt_window \<Rightarrow> bt_window effect" where
  "bw_input f s = (if bw_open s \<and> bw_dialogs s = [] then f s else eff_ok s [])"

fun bw_handle :: "(nat \<Rightarrow> nat \<Rightarrow> nat option) \<Rightarrow> bw_event \<Rightarrow> bt_window \<Rightarrow> bt_window effect" where
  "bw_handle nx BwOpen s = eff_ok (s\<lparr>bw_open := True\<rparr>) []"
| "bw_handle nx (BwStart p) s = bw_system_start p s"
| "bw_handle nx (BwBus t p) s = bw_bus t p s"
| "bw_handle nx BwTurn s =
     (case bw_slots s of
        [] \<Rightarrow> eff_ok s []
      | sl # sls \<Rightarrow>
          (case run_bw_slot nx sl (s\<lparr>bw_slots := sls\<rparr>) of
             (Some x, s', ms) \<Rightarrow> (Some x, s'\<lparr>bw_alive := False\<rparr>, ms) | (None, s', ms) \<Rightarrow> (None, s', ms)))"
| "bw_handle nx (BwPickFound row) s =
     bw_input (\<lambda>s. eff_ok (s\<lparr>bw_found_row := picked (bw_found s) row, bw_pair_on := (picked (bw_found s) row \<noteq> None)\<rparr>) []) s"
| "bw_handle nx (BwPickPaired row) s = bw_input (\<lambda>s. eff_ok (update_paired_buttons (s\<lparr>bw_row := picked (bw_paired s) row\<rparr>)) []) s"
| "bw_handle nx (BwClick b) s = bw_input (\<lambda>s. if button_on b s then clicked b s else eff_ok s []) s"
| "bw_handle nx (BwDialog yes) s = close_dialog yes s"

definition bw_step :: "(nat \<Rightarrow> nat \<Rightarrow> nat option) \<Rightarrow> bt_window \<Rightarrow> bw_event \<Rightarrow> bt_window \<times> busmsg list" where
  "bw_step nx s e = (if bw_alive s then (eff_state (bw_handle nx e s), eff_msgs (bw_handle nx e s)) else (s, []))"

section \<open>The buttons\<close>

text \<open>What the buttons of the window promise.\<close>

definition buttons_ok :: "bt_window \<Rightarrow> bool" where
  "buttons_ok s \<longleftrightarrow>
     (let it = current_item (bw_paired s) (bw_row s) in
      bw_connect_on s = (case it of None \<Rightarrow> False | Some i \<Rightarrow> \<not> truthy (bi_connected i)) \<and>
      bw_disconnect_on s = (case it of None \<Rightarrow> False | Some i \<Rightarrow> truthy (bi_connected i)) \<and>
      bw_remove_on s = (it \<noteq> None) \<and>
      bw_pair_on s = (current_item (bw_found s) (bw_found_row s) \<noteq> None))"

text \<open>The list of found devices shows each of them once.\<close>

definition found_ok :: "bt_window \<Rightarrow> bool" where
  "found_ok s \<longleftrightarrow> distinct (bw_found s) \<and> set (bw_found s) = set (dkeys (bw_devices s)) \<and>
     (bw_found_row s = None \<or> current_item (bw_found s) (bw_found_row s) \<noteq> None)"

definition bw_inv :: "bt_window \<Rightarrow> bool" where
  "bw_inv s \<longleftrightarrow> (\<not> bw_alive s \<or> buttons_ok s) \<and> found_ok s"

lemma found_ok_cong:
  "bw_found s' = bw_found s \<Longrightarrow> bw_devices s' = bw_devices s \<Longrightarrow> bw_found_row s' = bw_found_row s \<Longrightarrow> found_ok s' = found_ok s"
  by (simp add: found_ok_def)

lemma buttons_ok_cong:
  "bw_paired s' = bw_paired s \<Longrightarrow> bw_row s' = bw_row s \<Longrightarrow> bw_connect_on s' = bw_connect_on s \<Longrightarrow> bw_disconnect_on s' = bw_disconnect_on s \<Longrightarrow>
   bw_remove_on s' = bw_remove_on s \<Longrightarrow> bw_pair_on s' = bw_pair_on s \<Longrightarrow> bw_found s' = bw_found s \<Longrightarrow> bw_found_row s' = bw_found_row s \<Longrightarrow>
   buttons_ok s' = buttons_ok s"
  by (simp add: buttons_ok_def)

lemma update_buttons_fields [simp]:
  "bw_found (update_paired_buttons s) = bw_found s" "bw_devices (update_paired_buttons s) = bw_devices s"
  "bw_found_row (update_paired_buttons s) = bw_found_row s" "bw_pair_on (update_paired_buttons s) = bw_pair_on s"
  "bw_alive (update_paired_buttons s) = bw_alive s" "bw_paired (update_paired_buttons s) = bw_paired s"
  "bw_row (update_paired_buttons s) = bw_row s" "bw_dialogs (update_paired_buttons s) = bw_dialogs s"
  "bw_slots (update_paired_buttons s) = bw_slots s" "bw_listening (update_paired_buttons s) = bw_listening s"
  "bw_open (update_paired_buttons s) = bw_open s"
  by (simp_all add: update_paired_buttons_def Let_def split: option.split)

text \<open>After the update only the pair button needs a reason of its own.\<close>

lemma update_buttons_ok:
  "bw_pair_on s = (current_item (bw_found s) (bw_found_row s) \<noteq> None) \<Longrightarrow> buttons_ok (update_paired_buttons s)"
  unfolding buttons_ok_def update_buttons_fields by (simp add: update_paired_buttons_def Let_def split: option.split)

lemma current_item_Nil: "current_item [] row = None"
  by (simp add: current_item_def split: option.split)

lemma current_item_append: "current_item xs row \<noteq> None \<Longrightarrow> current_item (xs @ ys) row = current_item xs row"
  by (simp add: current_item_def nth_append split: option.splits if_splits)

lemma current_item_picked: "current_item xs (picked xs row) = current_item xs row" "(picked xs row \<noteq> None) = (current_item xs row \<noteq> None)"
  by (auto simp: picked_def current_item_def split: option.splits if_splits)

lemma add_device_ok:
  assumes "buttons_ok s" "found_ok s"
  shows "buttons_ok (add_device a name rssi s) \<and> found_ok (add_device a name rssi s)"
proof -
  have n: "map_of (bw_devices s) a = None \<longleftrightarrow> a \<notin> set (bw_found s)"
    using assms(2) by (cases "map_of (bw_devices s) a") (auto simp: found_ok_def set_dkeys)
  have c: "(current_item (bw_found s @ [a]) (bw_found_row s) \<noteq> None) = (current_item (bw_found s) (bw_found_row s) \<noteq> None)"
    using assms(2) by (cases "bw_found_row s") (auto simp: found_ok_def current_item_def nth_append split: if_splits)
  show ?thesis
    using assms n c by (auto simp: add_device_def buttons_ok_def found_ok_def set_dkeys_dset Let_def)
qed

lemma paired_change_ok:
  assumes "buttons_ok s" "found_ok s" "bw_found t = bw_found s" "bw_found_row t = bw_found_row s" "bw_devices t = bw_devices s"
    "bw_pair_on t = bw_pair_on s"
  shows "buttons_ok (update_paired_buttons t) \<and> found_ok (update_paired_buttons t)"
proof
  have "bw_pair_on s = (current_item (bw_found s) (bw_found_row s) \<noteq> None)" using assms(1) unfolding buttons_ok_def Let_def by blast
  then show "buttons_ok (update_paired_buttons t)" by (intro update_buttons_ok) (simp add: assms(3-6))
  show "found_ok (update_paired_buttons t)" using assms(2) found_ok_cong [of "update_paired_buttons t" s] assms(3-5) by simp
qed

lemma slot_ok:
  assumes "buttons_ok s" "found_ok s"
  shows "(fst (run_bw_slot nx sl s) = None \<longrightarrow> buttons_ok (eff_state (run_bw_slot nx sl s))) \<and> found_ok (eff_state (run_bw_slot nx sl s))"
proof (cases sl)
  case (RefreshPaired v)
  have f: "found_ok (s\<lparr>bw_row := None, bw_paired := its\<rparr>)" "found_ok (s\<lparr>bw_paired := its, bw_row := None\<rparr>)" for its
    using assms(2) found_ok_cong [of "s\<lparr>bw_row := None, bw_paired := its\<rparr>" s] found_ok_cong [of "s\<lparr>bw_paired := its, bw_row := None\<rparr>" s]
    by simp_all
  have u: "buttons_ok (update_paired_buttons (s\<lparr>bw_row := None, bw_paired := its\<rparr>)) \<and>
      found_ok (update_paired_buttons (s\<lparr>bw_row := None, bw_paired := its\<rparr>))" for its
    using paired_change_ok [OF assms, of "s\<lparr>bw_row := None, bw_paired := its\<rparr>"] by simp
  show ?thesis
    using f u by (simp add: RefreshPaired refresh_paired_list_def eff_res_def eff_ok_def eff_state_def Let_def split: sum.split prod.split option.split)
next
  case (PairedRemoved a)
  show ?thesis
    by (simp add: PairedRemoved paired_removed_def eff_ok_def eff_state_def, intro paired_change_ok [OF assms]) (simp_all split: option.split)
next
  case (PairedConnected a)
  show ?thesis by (simp add: PairedConnected paired_state_def eff_ok_def eff_state_def, intro paired_change_ok [OF assms]) simp_all
next
  case (PairedDisconnected a)
  show ?thesis by (simp add: PairedDisconnected paired_state_def eff_ok_def eff_state_def, intro paired_change_ok [OF assms]) simp_all
next
  case (AddDevice a name rssi)
  show ?thesis using add_device_ok [OF assms] by (simp add: AddDevice eff_ok_def eff_state_def)
next
  case (ShowPinDialog a pin)
  show ?thesis
    using assms buttons_ok_cong [of "show_pin_dialog a pin s" s] found_ok_cong [of "show_pin_dialog a pin s" s]
    by (simp add: ShowPinDialog show_pin_dialog_def eff_ok_def eff_state_def)
next
  case (PairingCompleted a)
  show ?thesis
    using assms buttons_ok_cong [of "info_box s" s] found_ok_cong [of "info_box s" s] by (simp add: PairingCompleted info_box_def eff_ok_def eff_state_def)
next
  case (PairingFailed a e)
  show ?thesis
    using assms buttons_ok_cong [of "info_box s" s] found_ok_cong [of "info_box s" s] by (simp add: PairingFailed info_box_def eff_ok_def eff_state_def)
qed (use assms in \<open>simp_all add: eff_ok_def eff_state_def\<close>)

lemma slots_changed_ok [simp]:
  "buttons_ok (s\<lparr>bw_slots := x\<rparr>) = buttons_ok s" "found_ok (s\<lparr>bw_slots := x\<rparr>) = found_ok s"
  "buttons_ok (s\<lparr>bw_dialogs := d\<rparr>) = buttons_ok s" "found_ok (s\<lparr>bw_dialogs := d\<rparr>) = found_ok s"
  "buttons_ok (s\<lparr>bw_listening := b\<rparr>) = buttons_ok s" "found_ok (s\<lparr>bw_listening := b\<rparr>) = found_ok s"
  "buttons_ok (s\<lparr>bw_open := b\<rparr>) = buttons_ok s" "found_ok (s\<lparr>bw_open := b\<rparr>) = found_ok s"
  "buttons_ok (s\<lparr>bw_alive := b\<rparr>) = buttons_ok s" "found_ok (s\<lparr>bw_alive := b\<rparr>) = found_ok s"
  "buttons_ok (bw_invoke sl s) = buttons_ok s" "found_ok (bw_invoke sl s) = found_ok s"
  by (simp_all add: buttons_ok_def found_ok_def bw_invoke_def)

lemma slot_alive: "bw_alive (eff_state (run_bw_slot nx sl s)) = bw_alive s"
  by (cases sl) (auto simp: eff_ok_def eff_state_def eff_res_def add_device_def show_pin_dialog_def info_box_def refresh_paired_list_def
      paired_state_def paired_removed_def Let_def split: sum.split prod.split option.split)

definition buttons_inv :: "bt_window \<Rightarrow> bool" where
  "buttons_inv s \<longleftrightarrow> buttons_ok s \<and> found_ok s"

lemma bw_str_inv:
  "buttons_inv s \<Longrightarrow> (\<And>x. buttons_inv (eff_state (f x))) \<Longrightarrow> buttons_inv (eff_state (bw_str p k d f s))"
  by (simp add: bw_str_def eff_state_def split: pyval.split)

lemma bus_inv: "buttons_inv s \<Longrightarrow> buttons_inv (eff_state (bw_bus t p s))"
  by (simp add: bw_bus_def on_device_found_def on_discovery_completed_def on_pairing_pin_def on_address_def on_failure_def on_paired_devices_def
      eff_res_def Let_def split: sum.split, intro conjI impI allI bw_str_inv)
    (simp_all add: buttons_inv_def eff_ok_def eff_state_def)

lemma click_inv: "buttons_inv s \<Longrightarrow> buttons_inv (eff_state (clicked b s))"
  by (cases b)
    (auto simp: on_scan_clicked_def on_pair_clicked_def on_paired_clicked_def on_remove_clicked_def eff_ok_def eff_state_def buttons_inv_def Let_def
      split: option.split, auto simp: buttons_ok_def found_ok_def current_item_Nil dkeys_def Let_def)

lemma pick_found_inv:
  "buttons_inv s \<Longrightarrow> buttons_inv (s\<lparr>bw_found_row := picked (bw_found s) row, bw_pair_on := (picked (bw_found s) row \<noteq> None)\<rparr>)"
  using current_item_picked [of "bw_found s" row] by (auto simp: buttons_inv_def buttons_ok_def found_ok_def Let_def)

lemma pick_paired_inv: "buttons_inv s \<Longrightarrow> buttons_inv (update_paired_buttons (s\<lparr>bw_row := row\<rparr>))"
  unfolding buttons_inv_def using paired_change_ok [of s "s\<lparr>bw_row := row\<rparr>"] by simp

lemma turn_inv:
  assumes "buttons_inv s"
  shows "bw_inv (eff_state (bw_handle nx BwTurn s))"
proof (cases "bw_slots s")
  case Nil
  then show ?thesis using assms by (simp add: bw_inv_def buttons_inv_def eff_ok_def eff_state_def)
next
  case (Cons sl sls)
  obtain x s' ms where r: "run_bw_slot nx sl (s\<lparr>bw_slots := sls\<rparr>) = (x, s', ms)" by (cases "run_bw_slot nx sl (s\<lparr>bw_slots := sls\<rparr>)")
  have "(x = None \<longrightarrow> buttons_ok s') \<and> found_ok s'"
    using slot_ok [of "s\<lparr>bw_slots := sls\<rparr>" nx sl] assms by (simp add: r buttons_inv_def eff_state_def)
  then show ?thesis by (cases x) (simp_all add: Cons r bw_inv_def eff_state_def)
qed

lemma handle_inv:
  assumes "buttons_inv s"
  shows "bw_inv (eff_state (bw_handle nx e s))"
proof -
  have i: "bw_inv t" if "buttons_inv t" for t using that by (simp add: bw_inv_def buttons_inv_def)
  note eff = eff_ok_def eff_state_def
  show ?thesis
  proof (cases e)
    case BwTurn
    then show ?thesis using turn_inv [OF assms] by simp
  next
    case (BwBus t p)
    then show ?thesis using i [OF bus_inv [OF assms]] by simp
  next
    case (BwClick b)
    then show ?thesis using i [OF click_inv [OF assms]] i [OF assms] by (simp add: bw_input_def eff)
  next
    case (BwPickFound row)
    then show ?thesis using i [OF pick_found_inv [OF assms]] i [OF assms] by (simp add: bw_input_def eff)
  next
    case (BwPickPaired row)
    then show ?thesis using i [OF pick_paired_inv [OF assms]] i [OF assms] by (simp add: bw_input_def eff)
  next
    case (BwDialog yes)
    have "buttons_inv (s\<lparr>bw_dialogs := ds\<rparr>)" for ds using assms by (simp add: buttons_inv_def)
    then show ?thesis using i i [OF assms] by (simp add: BwDialog close_dialog_def eff split: list.split)
  next
    case (BwStart p)
    have "buttons_inv ((bw_invoke sl s)\<lparr>bw_listening := b\<rparr>)" for sl b using assms by (simp add: buttons_inv_def)
    then show ?thesis using i i [OF assms] by (simp add: BwStart bw_system_start_def eff)
  next
    case BwOpen
    have "buttons_inv (s\<lparr>bw_open := True\<rparr>)" using assms by (simp add: buttons_inv_def)
    then show ?thesis using i by (simp add: BwOpen eff)
  qed
qed

lemma bw_step_inv: "bw_inv s \<Longrightarrow> bw_inv (fst (bw_step nx s e))"
  using handle_inv [of s nx e] by (cases "bw_alive s") (simp_all add: bw_step_def bw_inv_def buttons_inv_def)

interpretation bwm: event_machine "bw_step nx" bw_inv "\<lambda>m. True" for nx
  by unfold_locales (auto simp: bw_step_inv)

lemma new_window_inv: "bw_inv new_bt_window"
  by (simp add: bw_inv_def buttons_ok_def found_ok_def new_bt_window_def current_item_def dkeys_def)

lemma reached_ok:
  assumes "bw_alive (fst (run_events (bw_step nx) new_bt_window es))"
  shows "buttons_ok (fst (run_events (bw_step nx) new_bt_window es))"
  using bwm.run_inv [OF new_window_inv, of nx es] assms by (simp add: bw_inv_def)

text \<open>C38 Whatever the bus delivers and the user does, a click on connect asks to connect exactly the selected device, if it is shown as
  not connected, and a click on disconnect asks for the selected device if it is shown as connected; nothing is asked
  while a dialog is open.\<close>

theorem clicks_match_selection:
  assumes "s = fst (run_events (bw_step nx) new_bt_window es)" "bw_alive s" "bw_open s"
  shows "snd (bw_step nx s (BwClick (if wanted then ConnectB else DisconnectB))) =
    (case current_item (bw_paired s) (bw_row s) of
       None \<Rightarrow> []
     | Some it \<Rightarrow>
         if bw_dialogs s = [] \<and> truthy (bi_connected it) = (\<not> wanted) \<and> truthy (bi_address it)
         then [(if wanted then ''bluetooth_manager.paired.connect'' else ''bluetooth_manager.paired.disconnect'', [(''device_address'', bi_address it)])]
         else [])"
proof -
  have "buttons_ok s" using reached_ok [of nx es] assms(1,2) by simp
  then show ?thesis
    using assms(2,3)
    by (auto simp: bw_step_def bw_input_def on_paired_clicked_def selected_paired_address_def buttons_ok_def eff_ok_def eff_msgs_def bw_msg_def
        Let_def split: option.splits)
qed

section \<open>The window and the manager together\<close>

text \<open>The handler of the manager that a message of the dialog reaches.\<close>

definition user_answers :: "busmsg \<Rightarrow> bt_event list" where
  "user_answers m =
     (if fst m = ''bluetooth_manager.confirm_pairing'' then [BtConfirm (snd m)]
      else if fst m = ''bluetooth_manager.reject_pairing'' then [BtReject (snd m)] else [])"

definition from_bus :: "busmsg \<Rightarrow> bw_event" where
  "from_bus m = BwBus (fst m) (snd m)"

text \<open>C31 The passkey that the phone sent is the one the dialog shows and confirms, for the device that asked; but whichever button
  the user presses, and whatever the window published, the phone is answered yes: cancelling publishes nothing, and the
  manager takes silence for consent.\<close>

theorem pin_dialog_always_accepted:
  assumes "bm_agent m = Some g" "bw_alive w" "bw_open w" "bw_listening w" "bw_slots w = []"
    and m1: "bt_step T m (BtAgent (ConfirmRequest path k r)) = (m1, out)"
    and w': "run_events (bw_step nx) w (map from_bus out @ [BwTurn, BwDialog yes]) = (w', msgs)"
    and m2: "fst (run_events (bt_step T) m1 (concat (map user_answers msgs))) = m2"
  shows "msgs = (if yes then [(''bluetooth_manager.confirm_pairing'', [(''device_address'', PStr (path_to_address path)), (''pin'', PStr (passkey_pin k))])] else []) \<and>
    (\<exists>g2. bm_agent m2 = Some g2 \<and> snd (agent_step T g2 WorkerWakes) = [AgentReply r True])"
proof -
  let ?a = "path_to_address path" and ?p = "passkey_pin k"
  let ?g = "fst (handle_confirm_request path k r g)"
  have g: "pa_address ?g = ?a" "pa_pin ?g = ?p" "pa_reply ?g = Some r" "pa_workers ?g \<noteq> 0" "\<not> pa_event ?g"
    by (simp_all add: handle_confirm_request_def Let_def)
  have 1: "bm_agent m1 = Some ?g" "out = [(''bluetooth_manager.pairing.pin'', [(''device_address'', PStr ?a), (''pin'', PStr ?p)])]"
    using m1 assms(1)
    by (auto simp: bt_step_def agent_runs_def eff_ok_def handle_confirm_request_def pairing_pin_def notices_def List.map_filter_def Let_def)
  have 2: "msgs = (if yes then [(''bluetooth_manager.confirm_pairing'', [(''device_address'', PStr ?a), (''pin'', PStr ?p)])] else [])"
    using w' assms(2-5)
    by (auto simp: 1(2) from_bus_def bw_step_def bw_bus_def on_pairing_pin_def bw_str_def dget_or_def bw_invoke_def show_pin_dialog_def
        close_dialog_def bw_msg_def eff_ok_def eff_state_def eff_msgs_def Let_def split: if_splits)
  have "\<exists>g2. bm_agent m2 = Some g2 \<and> snd (agent_step T g2 WorkerWakes) = [AgentReply r True]"
  proof (cases "yes \<and> ?a \<noteq> [] \<and> ?p \<noteq> []")
    case True
    then have "bm_agent m2 = Some (agent_confirm ?a ?p ?g)"
      using m2 1(1)
      by (auto simp: 2 user_answers_def bt_step_def on_confirm_pairing_def with_agent_def addr_arg_def dget_or_def eff_ok_def Let_def)
    moreover have "snd (agent_step T (agent_confirm ?a ?p ?g) WorkerWakes) = [AgentReply r True]"
      using g by (simp add: agent_confirm_def confirm_worker_def Let_def)
    ultimately show ?thesis by blast
  next
    case False
    then have "bm_agent m2 = Some ?g"
      using m2 1(1)
      by (auto simp: 2 user_answers_def bt_step_def on_confirm_pairing_def with_agent_def addr_arg_def dget_or_def eff_ok_def Let_def)
    moreover have "snd (agent_step T ?g WorkerWakes) = [AgentReply r True]" using g by (simp add: confirm_worker_def Let_def)
    ultimately show ?thesis by blast
  qed
  with 2 show ?thesis by blast
qed

lemma literal_devices: "literal (PList (map PDict (list_paired T objs)))"
  by (auto simp: list_paired_def device_to_dict_def split: sum.splits)

lemma paired_items_dicts:
  "paired_items (map PDict ds) =
     (None, map (\<lambda>d. \<lparr>bi_address = dget_or d ''address'' (PStr []), bi_connected = dget_or d ''connected'' (PBool False)\<rparr>) ds)"
  by (induction ds) simp_all

lemma device_dict_keys:
  "d \<in> set (list_paired T objs) \<Longrightarrow> dget_or d ''address'' (PStr []) = dget d ''address'' \<and> dget_or d ''connected'' (PBool False) = dget d ''connected''"
  by (auto simp: list_paired_def device_to_dict_def dget_or_def dget_def split: sum.splits)

text \<open>The window shows the paired devices that BlueZ knows: after the manager's answer the list has their addresses with whether
  they are connected, in order, and nothing is selected.\<close>

theorem paired_list_shown:
  assumes "bm_adapter m \<noteq> None" "bw_alive w" "bw_open w" "bw_listening w" "bw_slots w = []"
    and w': "fst (run_events (bw_step nx) w (map from_bus (snd (bt_step T m (BtPairedList objs))) @ [BwTurn])) = w'"
  shows "map (\<lambda>i. (bi_address i, bi_connected i)) (bw_paired w')
      = map (\<lambda>d. (dget d ''address'', dget d ''connected'')) (list_paired T objs) \<and>
    \<not> bw_connect_on w' \<and> \<not> bw_disconnect_on w' \<and> \<not> bw_remove_on w'"
proof -
  let ?v = "PList (map PDict (list_paired T objs))"
  have o: "snd (bt_step T m (BtPairedList objs)) = [(''bluetooth_manager.paired.devices'', [(''devices'', ?v)])]"
    using assms(1) by (auto simp: bt_step_def on_paired_list_def eff_ok_def)
  have l: "literal_list ?v = Inr (map PDict (list_paired T objs))" unfolding literal_list_def using literal_devices [of T objs] by simp
  have "w' = update_paired_buttons (w\<lparr>bw_slots := [], bw_row := None, bw_paired := snd (paired_items (map PDict (list_paired T objs)))\<rparr>)"
    using w' assms(2-5) paired_items_dicts [of "list_paired T objs"]
    by (auto simp: o from_bus_def bw_step_def bw_bus_def on_paired_devices_def dget_or_def bw_invoke_def refresh_paired_list_def l
        eff_res_def eff_ok_def eff_state_def eff_msgs_def Let_def simp del: literal.simps paired_items.simps)
  then show ?thesis
    using device_dict_keys [of _ T objs] by (simp add: paired_items_dicts update_paired_buttons_def current_item_def)
qed

section \<open>Witnesses\<close>

definition demo_bw :: bt_window where
  "demo_bw = new_bt_window\<lparr>bw_open := True, bw_listening := True\<rparr>"

definition demo_paired :: bt_window where
  "demo_paired = fst (run_events (bw_step (\<lambda>i n. None)) new_bt_window
     [BwOpen, BwStart [(''priority'', PInt 2)], BwTurn,
      BwBus ''bluetooth_manager.paired.devices'' [(''devices'', PList [PDict [(''address'', PStr ''AA''), (''connected'', PBool False)]])],
      BwTurn, BwPickPaired (Some 0)])"

lemma demo_paired_state:
  "bw_alive demo_paired" "bw_open demo_paired" "bw_dialogs demo_paired = []"
  "current_item (bw_paired demo_paired) (bw_row demo_paired) = Some \<lparr>bi_address = PStr ''AA'', bi_connected = PBool False\<rparr>"
  by code_simp+

lemma clicks_match_selection_witness:
  "snd (bw_step (\<lambda>i n. None) demo_paired (BwClick ConnectB)) = [(''bluetooth_manager.paired.connect'', [(''device_address'', PStr ''AA'')])]"
  using clicks_match_selection [OF demo_paired_def demo_paired_state(1,2), of True] demo_paired_state(3,4) by simp

lemma pin_dialog_always_accepted_witness:
  "\<exists>m1 out w' msgs g2.
     bt_step demo_text (new_btm\<lparr>bm_agent := Some new_agent\<rparr>) (BtAgent (ConfirmRequest ''/org/bluez/hci0/dev_AA_01'' 42 7)) = (m1, out) \<and>
     run_events (bw_step (\<lambda>i n. None)) demo_bw (map from_bus out @ [BwTurn, BwDialog False]) = (w', msgs) \<and> msgs = [] \<and>
     bm_agent (fst (run_events (bt_step demo_text) m1 (concat (map user_answers msgs)))) = Some g2 \<and>
     snd (agent_step demo_text g2 WorkerWakes) = [AgentReply 7 True]"
proof -
  let ?m = "new_btm\<lparr>bm_agent := Some new_agent\<rparr>" and ?path = "''/org/bluez/hci0/dev_AA_01''"
  obtain m1 out where 1: "bt_step demo_text ?m (BtAgent (ConfirmRequest ?path 42 7)) = (m1, out)" by fastforce
  obtain w' msgs where 2: "run_events (bw_step (\<lambda>i n. None)) demo_bw (map from_bus out @ [BwTurn, BwDialog False]) = (w', msgs)"
    by (cases "run_events (bw_step (\<lambda>i n. None)) demo_bw (map from_bus out @ [BwTurn, BwDialog False])") blast
  have "bm_agent ?m = Some new_agent" "bw_alive demo_bw" "bw_open demo_bw" "bw_listening demo_bw" "bw_slots demo_bw = []"
    by (simp_all add: demo_bw_def new_bt_window_def)
  from pin_dialog_always_accepted [OF this 1 2 refl]
  have "msgs = []" "\<exists>g2. bm_agent (fst (run_events (bt_step demo_text) m1 (concat (map user_answers msgs)))) = Some g2 \<and>
      snd (agent_step demo_text g2 WorkerWakes) = [AgentReply 7 True]"
    unfolding if_False by blast+
  then show ?thesis using 1 2 by blast
qed

lemma paired_list_shown_witness:
  "map (\<lambda>i. (bi_address i, bi_connected i))
       (bw_paired (fst (run_events (bw_step (\<lambda>i n. None)) demo_bw
         (map from_bus (snd (bt_step demo_text (new_btm\<lparr>bm_adapter := Some new_adapter\<rparr>) (BtPairedList demo_objects))) @ [BwTurn]))))
     = [(PStr ''AA'', PBool False)]"
proof -
  have "bm_adapter (new_btm\<lparr>bm_adapter := Some new_adapter\<rparr>) \<noteq> None" "bw_alive demo_bw" "bw_open demo_bw" "bw_listening demo_bw" "bw_slots demo_bw = []"
    by (simp_all add: demo_bw_def new_bt_window_def)
  then have "map (\<lambda>i. (bi_address i, bi_connected i))
       (bw_paired (fst (run_events (bw_step (\<lambda>i n. None)) demo_bw
         (map from_bus (snd (bt_step demo_text (new_btm\<lparr>bm_adapter := Some new_adapter\<rparr>) (BtPairedList demo_objects))) @ [BwTurn]))))
     = map (\<lambda>d. (dget d ''address'', dget d ''connected'')) (list_paired demo_text demo_objects)"
    using paired_list_shown [OF _ _ _ _ _ refl] by blast
  also have "\<dots> = [(PStr ''AA'', PBool False)]" by code_simp
  finally show ?thesis .
qed

end
