(* ===== verification/MessageNames.thy ===== *)
theory MessageNames
  imports PlainChannels
begin

text \<open>
  \<^verbatim>\<open>v2/modules/tcp_server/message_to_proto.py\<close>: the names and the classes that the log of frames gives to messages. The
  enumerations are the ones the file documents; a class is its name, and parsing with it and printing the result is the
  parameter \<open>mp_parse\<close>. Message ids are numbers, as the callers make them.
\<close>

section \<open>The tables\<close>

type_synonym id_enum = "(string \<times> int) list"

definition AV_IDS :: id_enum where
  "AV_IDS =
     [(''AV_MEDIA_WITH_TIMESTAMP_INDICATION'', 0), (''AV_MEDIA_INDICATION'', 1), (''SETUP_REQUEST'', 32768),
      (''START_INDICATION'', 32769), (''STOP_INDICATION'', 32770), (''SETUP_RESPONSE'', 32771),
      (''AV_MEDIA_ACK_INDICATION'', 32772), (''AV_INPUT_OPEN_REQUEST'', 32773), (''AV_INPUT_OPEN_RESPONSE'', 32774),
      (''VIDEO_FOCUS_REQUEST'', 32775), (''VIDEO_FOCUS_INDICATION'', 32776), (''VIDEO_FOCUS_NOTIFICATION'', 32777),
      (''UPDATE_UI_CONFIG_REQUEST'', 32778), (''UPDATE_UI_CONFIG_REPLY'', 32779), (''AUDIO_UNDERFLOW'', 32780),
      (''ACTION_TAKEN'', 32781), (''OVERLAY_PARAMETERS'', 32782), (''OVERLAY_START'', 32783),
      (''OVERLAY_STOP'', 32784), (''OVERLAY_SESSION_UPDATE'', 32785), (''UPDATE_HU_UI_CONFIG_REQUEST'', 32786),
      (''UPDATE_HU_UI_CONFIG_RESPONSE'', 32787), (''MEDIA_STATS'', 32788), (''MEDIA_OPTIONS'', 32789)]"

definition BLUETOOTH_IDS :: id_enum where
  "BLUETOOTH_IDS =
     [(''NONE'', 0), (''PAIRING_REQUEST'', 32769), (''PAIRING_RESPONSE'', 32770), (''AUTH_DATA'', 32771),
      (''AUTH_RESULT'', 32772)]"

definition CONTROL_IDS :: id_enum where
  "CONTROL_IDS =
     [(''NONE'', 0), (''VERSION_REQUEST'', 1), (''VERSION_RESPONSE'', 2), (''SSL_HANDSHAKE'', 3),
      (''AUTH_COMPLETE'', 4), (''SERVICE_DISCOVERY_REQUEST'', 5), (''SERVICE_DISCOVERY_RESPONSE'', 6),
      (''CHANNEL_OPEN_REQUEST'', 7), (''CHANNEL_OPEN_RESPONSE'', 8), (''PING_REQUEST'', 11), (''PING_RESPONSE'', 12),
      (''NAVIGATION_FOCUS_REQUEST'', 13), (''NAVIGATION_FOCUS_RESPONSE'', 14), (''SHUTDOWN_REQUEST'', 15),
      (''SHUTDOWN_RESPONSE'', 16), (''VOICE_SESSION_REQUEST'', 17), (''AUDIO_FOCUS_REQUEST'', 18),
      (''AUDIO_FOCUS_RESPONSE'', 19), (''CAR_CONNECTED_DEVICES_REQUEST'', 20),
      (''CAR_CONNECTED_DEVICES_RESPONSE'', 21), (''USER_SWITCH_REQUEST'', 22), (''BATTERY_STATUS_NOTIFICATION'', 23),
      (''CALL_AVAILABILITY_STATUS'', 24), (''USER_SWITCH_RESPONSE'', 25), (''SERVICE_DISCOVERY_UPDATE'', 26),
      (''CHANNEL_CLOSE_NOTIFICATION'', 9)]"

definition INPUT_IDS :: id_enum where
  "INPUT_IDS =
     [(''NONE'', 0), (''INPUT_EVENT_INDICATION'', 32769), (''BINDING_REQUEST'', 32770),
      (''BINDING_RESPONSE'', 32771), (''BINDING_NOTIFICATION'', 32772)]"

definition SENSOR_IDS :: id_enum where
  "SENSOR_IDS =
     [(''NONE'', 0), (''SENSOR_REQUEST'', 32769), (''SENSOR_START_RESPONSE'', 32770),
      (''SENSOR_EVENT_INDICATION'', 32771), (''SENSOR_ERROR'', 32772)]"

definition WIFI_IDS :: id_enum where
  "WIFI_IDS =
     [(''NONE'', 0), (''CREDENTIALS_REQUEST'', 32769), (''CREDENTIALS_RESPONSE'', 32770)]"

datatype proto_class = RawBytes | Proto string

definition av_switcher :: "(string, proto_class) dict" where
  "av_switcher =
     [(''AV_MEDIA_WITH_TIMESTAMP_INDICATION'', RawBytes), (''AV_MEDIA_INDICATION'', RawBytes),
      (''SETUP_REQUEST'', Proto ''AVChannelSetupRequest''),
      (''START_INDICATION'', Proto ''AVChannelStartIndication''),
      (''STOP_INDICATION'', Proto ''AVChannelStopIndication''),
      (''SETUP_RESPONSE'', Proto ''AVChannelSetupResponse''),
      (''AV_MEDIA_ACK_INDICATION'', Proto ''AVMediaAckIndication''),
      (''AV_INPUT_OPEN_REQUEST'', Proto ''AVInputOpenRequest''),
      (''AV_INPUT_OPEN_RESPONSE'', Proto ''AVInputOpenResponse''),
      (''VIDEO_FOCUS_REQUEST'', Proto ''VideoFocusRequest''),
      (''VIDEO_FOCUS_INDICATION'', Proto ''VideoFocusIndication''),
      (''VIDEO_FOCUS_NOTIFICATION'', Proto ''VideoFocusNotification''),
      (''UPDATE_UI_CONFIG_REQUEST'', Proto ''UpdateUiConfigRequest''),
      (''UPDATE_UI_CONFIG_REPLY'', Proto ''UpdateUiConfigReply''), (''AUDIO_UNDERFLOW'', RawBytes),
      (''ACTION_TAKEN'', Proto ''MediaPlaybackCommand''), (''OVERLAY_PARAMETERS'', RawBytes),
      (''OVERLAY_START'', Proto ''IntegratedOverlayStartNotification''),
      (''OVERLAY_STOP'', Proto ''IntegratedOverlayStopNotification''), (''OVERLAY_SESSION_UPDATE'', RawBytes),
      (''UPDATE_HU_UI_CONFIG_REQUEST'', Proto ''UpdateHuUiConfigRequest''),
      (''UPDATE_HU_UI_CONFIG_RESPONSE'', Proto ''UpdateHuUiConfigResponse''),
      (''MEDIA_STATS'', Proto ''AVChannelMediaStats''), (''MEDIA_OPTIONS'', Proto ''AVChannelMediaOptions'')]"

definition bluetooth_switcher :: "(string, proto_class) dict" where
  "bluetooth_switcher =
     [(''NONE'', RawBytes), (''PAIRING_REQUEST'', Proto ''BluetoothPairingRequest''),
      (''PAIRING_RESPONSE'', Proto ''BluetoothPairingResponse''),
      (''AUTH_DATA'', Proto ''BluetoothAuthenticationData''),
      (''AUTH_RESULT'', Proto ''BluetoothAuthenticationResult'')]"

definition control_switcher :: "(string, proto_class) dict" where
  "control_switcher =
     [(''NONE'', RawBytes), (''VERSION_REQUEST'', RawBytes), (''VERSION_RESPONSE'', RawBytes),
      (''SSL_HANDSHAKE'', RawBytes), (''AUTH_COMPLETE'', Proto ''AuthCompleteIndication''),
      (''SERVICE_DISCOVERY_REQUEST'', Proto ''ServiceDiscoveryRequest''),
      (''SERVICE_DISCOVERY_RESPONSE'', Proto ''ServiceDiscoveryResponse''),
      (''CHANNEL_OPEN_REQUEST'', Proto ''ChannelOpenRequest''),
      (''CHANNEL_OPEN_RESPONSE'', Proto ''ChannelOpenResponse''), (''PING_REQUEST'', Proto ''PingRequest''),
      (''PING_RESPONSE'', Proto ''PingResponse''), (''NAVIGATION_FOCUS_REQUEST'', Proto ''NavigationFocusRequest''),
      (''NAVIGATION_FOCUS_RESPONSE'', Proto ''NavigationFocusResponse''),
      (''SHUTDOWN_REQUEST'', Proto ''ShutdownRequest''), (''SHUTDOWN_RESPONSE'', Proto ''ByeByeResponse''),
      (''VOICE_SESSION_REQUEST'', Proto ''VoiceSessionRequest''),
      (''AUDIO_FOCUS_REQUEST'', Proto ''AudioFocusRequest''),
      (''AUDIO_FOCUS_RESPONSE'', Proto ''AudioFocusResponse''),
      (''CAR_CONNECTED_DEVICES_REQUEST'', Proto ''CarConnectedDevicesRequest''),
      (''CAR_CONNECTED_DEVICES_RESPONSE'', Proto ''CarConnectedDevicesResponse''),
      (''USER_SWITCH_REQUEST'', Proto ''UserSwitchRequest''),
      (''BATTERY_STATUS_NOTIFICATION'', Proto ''BatteryStatusNotification''),
      (''CALL_AVAILABILITY_STATUS'', Proto ''CallAvailabilityStatus''),
      (''USER_SWITCH_RESPONSE'', Proto ''UserSwitchResponse''),
      (''SERVICE_DISCOVERY_UPDATE'', Proto ''ServiceDiscoveryUpdate''),
      (''CHANNEL_CLOSE_NOTIFICATION'', Proto ''ChannelCloseNotification'')]"

definition input_switcher :: "(string, proto_class) dict" where
  "input_switcher =
     [(''NONE'', RawBytes), (''INPUT_EVENT_INDICATION'', Proto ''InputEventIndication''),
      (''BINDING_REQUEST'', Proto ''BindingRequest''), (''BINDING_RESPONSE'', Proto ''BindingResponse''),
      (''BINDING_NOTIFICATION'', Proto ''InputBindingNotification'')]"

definition sensor_switcher :: "(string, proto_class) dict" where
  "sensor_switcher =
     [(''NONE'', RawBytes), (''SENSOR_REQUEST'', Proto ''SensorRequest''),
      (''SENSOR_START_RESPONSE'', Proto ''SensorStartResponseMessage''),
      (''SENSOR_EVENT_INDICATION'', Proto ''SensorEventIndication''), (''SENSOR_ERROR'', Proto ''SensorError'')]"

definition wifi_switcher :: "(string, proto_class) dict" where
  "wifi_switcher =
     [(''NONE'', RawBytes), (''CREDENTIALS_REQUEST'', Proto ''WifiSecurityRequest''),
      (''CREDENTIALS_RESPONSE'', Proto ''WifiSecurityResponse'')]"

section \<open>Names and classes\<close>

fun id_name :: "id_enum \<Rightarrow> int \<Rightarrow> string option" where
  "id_name [] i = None"
| "id_name ((n, j) # e) i = (if j = i then Some n else id_name e i)"

text \<open>The enumerations are asked in this order.\<close>

fun first_name :: "id_enum list \<Rightarrow> int \<Rightarrow> string" where
  "first_name [] i = ''UnknownMessageId '' @ str_of_int i"
| "first_name (e # es) i = (case id_name e i of Some n \<Rightarrow> n | None \<Rightarrow> first_name es i)"

definition message_id_to_proto_name :: "int \<Rightarrow> string" where
  "message_id_to_proto_name i = first_name [AV_IDS, BLUETOOTH_IDS, CONTROL_IDS, INPUT_IDS, SENSOR_IDS, WIFI_IDS] i"

fun first_class :: "(string, proto_class) dict list \<Rightarrow> string \<Rightarrow> proto_class res" where
  "first_class [] n = Inl ValueError"
| "first_class (d # ds) n = (case map_of d n of Some c \<Rightarrow> Inr c | None \<Rightarrow> first_class ds n)"

definition proto_name_to_class :: "string \<Rightarrow> proto_class res" where
  "proto_name_to_class n = first_class [av_switcher, bluetooth_switcher, control_switcher, input_switcher, sensor_switcher, wifi_switcher] n"

section \<open>Frames\<close>

type_synonym message_parser = "string \<Rightarrow> bytes \<Rightarrow> pyval res"

text \<open>\<^verbatim>\<open>bytes\<close> has no \<^verbatim>\<open>ParseFromString\<close>, which matters on channel 4.\<close>

definition parse_payload :: "message_parser \<Rightarrow> string \<Rightarrow> pyval \<Rightarrow> pyval \<Rightarrow> pyval res" where
  "parse_payload P n ch hex =
     rbind (proto_name_to_class n) (\<lambda>c.
       case c of
         RawBytes \<Rightarrow> if py_eq_int ch 4 then Inl AttributeError else Inr (PDict [(''raw_bytes'', PStr ''0x...'')])
       | Proto cls \<Rightarrow> (case hex of PStr h \<Rightarrow> rbind (fromhex h) (P cls) | _ \<Rightarrow> Inl TypeError))"

definition frame_data_to_dict :: "message_parser \<Rightarrow> int \<Rightarrow> payload \<Rightarrow> payload" where
  "frame_data_to_dict P i fd =
     (let n = message_id_to_proto_name i; hex = dget fd ''payload_hex''; ch = dget fd ''channel_id'' in
      [(''type'', dget fd ''type''), (''channel_id'', ch), (''message_id'', PInt i), (''message_name'', PStr n),
       (''payload_as_dict'', case parse_payload P n ch hex of Inl x \<Rightarrow> hex | Inr v \<Rightarrow> v),
       (''input_size'', dget_or fd ''input_size'' (PInt 0))])"

section \<open>What the names say\<close>

definition names_id :: "id_enum \<Rightarrow> int \<Rightarrow> bool" where
  "names_id e i \<longleftrightarrow> id_name e i \<noteq> None"

lemma names_id_iff: "names_id e i \<longleftrightarrow> i \<in> snd ` set e"
  by (induction e) (auto simp: names_id_def)

lemma media_covers: "names_id e i \<Longrightarrow> list_all (\<lambda>x. names_id AV_IDS (snd x)) e \<Longrightarrow> names_id AV_IDS i"
  unfolding names_id_iff [of e] by (auto simp: list_all_iff)

lemma shadowed:
  "list_all (\<lambda>x. names_id AV_IDS (snd x)) BLUETOOTH_IDS" "list_all (\<lambda>x. names_id AV_IDS (snd x)) INPUT_IDS"
  "list_all (\<lambda>x. names_id AV_IDS (snd x)) SENSOR_IDS" "list_all (\<lambda>x. names_id AV_IDS (snd x)) WIFI_IDS"
  by code_simp+

lemma two_enums_name:
  "message_id_to_proto_name i =
     (case id_name AV_IDS i of
        Some n \<Rightarrow> n
      | None \<Rightarrow> (case id_name CONTROL_IDS i of Some n \<Rightarrow> n | None \<Rightarrow> ''UnknownMessageId '' @ str_of_int i))"
proof (cases "names_id AV_IDS i")
  case True
  then show ?thesis by (auto simp: message_id_to_proto_name_def names_id_def)
next
  case False
  then have "\<not> names_id BLUETOOTH_IDS i" "\<not> names_id INPUT_IDS i" "\<not> names_id SENSOR_IDS i" "\<not> names_id WIFI_IDS i"
    using media_covers shadowed by blast+
  then show ?thesis by (simp add: message_id_to_proto_name_def names_id_def split: option.split)
qed

text \<open>The name of a message is the one of the media enumeration if it has the id, else the one of the control enumeration: the
  Bluetooth, input, sensor and WiFi enumerations never name anything.\<close>

theorem only_two_enums_name:
  "message_id_to_proto_name i =
     (case id_name AV_IDS i of
        Some n \<Rightarrow> n
      | None \<Rightarrow> (case id_name CONTROL_IDS i of Some n \<Rightarrow> n | None \<Rightarrow> ''UnknownMessageId '' @ str_of_int i))"
  by (rule two_enums_name)

text \<open>Every name of the two enumerations has a class, and the name of an unknown id has none.\<close>

definition has_class :: "string \<Rightarrow> bool" where
  "has_class n = (case proto_name_to_class n of Inr c \<Rightarrow> True | Inl x \<Rightarrow> False)"

lemma tables_have_classes: "list_all (\<lambda>x. has_class (fst x)) AV_IDS" "list_all (\<lambda>x. has_class (fst x)) CONTROL_IDS"
  by code_simp+

lemma enum_name_in: "id_name e i = Some n \<Longrightarrow> (n, i) \<in> set e"
  by (induction e) (auto split: if_splits)

lemma unknown_no_class: "\<not> has_class (''UnknownMessageId '' @ s)"
  by (simp add: has_class_def proto_name_to_class_def av_switcher_def bluetooth_switcher_def control_switcher_def input_switcher_def
      sensor_switcher_def wifi_switcher_def)

lemma class_iff_named: "has_class (message_id_to_proto_name i) \<longleftrightarrow> names_id AV_IDS i \<or> names_id CONTROL_IDS i"
  using tables_have_classes unknown_no_class [of "str_of_int i"]
  by (auto simp: two_enums_name names_id_def list_all_iff split: option.split dest!: enum_name_in)

text \<open>The classes by which the four ids after \<^verbatim>\<open>0x8000\<close> are read.\<close>

definition media_class :: "(int, string) dict" where
  "media_class =
     [(32769, ''AVChannelStartIndication''), (32770, ''AVChannelStopIndication''), (32771, ''AVChannelSetupResponse''),
      (32772, ''AVMediaAckIndication'')]"

lemma media_class_names: "list_all (\<lambda>ic. proto_name_to_class (message_id_to_proto_name (fst ic)) = Inr (Proto (snd ic))) media_class"
  by code_simp

text \<open>A message of a Bluetooth, input, sensor or WiFi channel is logged as the media message with its id: its body is parsed with
  that message's class, whatever channel it came from.\<close>

theorem channel_messages_read_as_media:
  assumes "(i, cls) \<in> set media_class" "dget fd ''payload_hex'' = PStr h"
  shows "dget (frame_data_to_dict P i fd) ''message_name'' = PStr (case id_name AV_IDS i of Some n \<Rightarrow> n | None \<Rightarrow> []) \<and>
    dget (frame_data_to_dict P i fd) ''payload_as_dict'' = (case rbind (fromhex h) (P cls) of Inl x \<Rightarrow> PStr h | Inr v \<Rightarrow> v)"
proof -
  have c: "proto_name_to_class (message_id_to_proto_name i) = Inr (Proto cls)" using media_class_names assms(1) by (auto simp: list_all_iff)
  have "list_all (\<lambda>ic. names_id AV_IDS (fst ic)) media_class" by code_simp
  then have "names_id AV_IDS i" using assms(1) by (auto simp: list_all_iff)
  then have n: "message_id_to_proto_name i = (case id_name AV_IDS i of Some n \<Rightarrow> n | None \<Rightarrow> [])"
    by (auto simp: message_id_to_proto_name_def names_id_def)
  show ?thesis using assms(2) by (simp add: frame_data_to_dict_def parse_payload_def c dget_def dget_or_def Let_def flip: n)
qed

lemma channel_messages_read_as_media_witness:
  "dget (frame_data_to_dict (\<lambda>c b. Inr (PStr c)) BT_PAIRING_REQUEST [(''channel_id'', PInt 8), (''payload_hex'', PStr ''0801'')]) ''payload_as_dict''
     = PStr ''AVChannelStartIndication''"
proof -
  have m: "(BT_PAIRING_REQUEST, ''AVChannelStartIndication'') \<in> set media_class" by (simp add: media_class_def BT_PAIRING_REQUEST_def)
  have h: "dget [(''channel_id'', PInt 8), (''payload_hex'', PStr ''0801'')] ''payload_hex'' = PStr ''0801''" by (simp add: dget_def dget_or_def)
  have f: "fromhex ''0801'' = Inr [8, 1]" by code_simp
  show ?thesis using channel_messages_read_as_media [OF m h, of "\<lambda>c b. Inr (PStr c)"] by (simp add: f del: fromhex.simps)
qed

end
