(* ===== verification/TemplateChannel.thy ===== *)
theory TemplateChannel
  imports PlainChannels
begin

text \<open>
  \<^verbatim>\<open>v2/modules/channel_modules/_template/main.py\<close>: the module that new channel modules are copied from. Its handlers are those of
  an audio or video channel, but the frame handler is written for an older base class, and the answer to the request to
  open the channel is sent with a keyword that \<^verbatim>\<open>send_frame\<close> does not have.
\<close>

section \<open>State\<close>

record template = chan +
  tm_session :: int
  tm_state :: string

definition new_template :: "string \<Rightarrow> int \<Rightarrow> payload option \<Rightarrow> template" where
  "new_template name cid sdr = chan.extend (new_chan name cid 1 sdr []) \<lparr>tm_session = 0, tm_state = ''IDLE''\<rparr>"

definition tm_set_state :: "string \<Rightarrow> template \<Rightarrow> template effect" where
  "tm_set_state new s =
     (if tm_state s = new then eff_ok s []
      else eff_ok (s\<lparr>tm_state := new\<rparr>) [(ch_name s @ ''.state'', [(''channel_id'', PInt (ch_id s)), (''state'', PStr new)])])"

text \<open>What the opening, the closing and the end of a session do.\<close>

definition tm_reset :: "template \<Rightarrow> template effect" where
  "tm_reset s = tm_set_state ''IDLE'' (s\<lparr>tm_session := 0\<rparr>)"

definition tm_cleanup :: "template \<Rightarrow> template effect" where
  "tm_cleanup s = tm_set_state ''IDLE'' s"

section \<open>Frames\<close>

definition tm_setup_request :: "av_lib \<Rightarrow> template \<Rightarrow> template effect" where
  "tm_setup_request L s =
     eff_res s (av_setup L (dget_or (ch_config s) ''max_unacked'' (PInt 1))) (\<lambda>body.
       eff_then (eff_ok s [send_frame s AV_SETUP_RESPONSE body]) (tm_set_state ''SETUP''))"

text \<open>\<^verbatim>\<open>send_frame(..., control=True)\<close> is no call of the base class's \<^verbatim>\<open>send_frame\<close>.\<close>

definition tm_open_request :: "template \<Rightarrow> template effect" where
  "tm_open_request s = (Some TypeError, s, [])"

definition tm_start_indication :: "av_lib \<Rightarrow> bytes \<Rightarrow> template \<Rightarrow> template effect" where
  "tm_start_indication L body s =
     tm_set_state ''PLAYING'' (case av_parse_start L body of Inl x \<Rightarrow> s | Inr session \<Rightarrow> s\<lparr>tm_session := session\<rparr>)"

definition tm_stop_indication :: "template \<Rightarrow> template effect" where
  "tm_stop_indication s = tm_set_state ''STOPPED'' (s\<lparr>tm_session := 0\<rparr>)"

definition tm_media_ack :: "av_lib \<Rightarrow> template \<Rightarrow> template effect" where
  "tm_media_ack L s = eff_ok s [send_frame s AV_ACK (av_ack L (tm_session s))]"

text \<open>The time stamp and the payload are only logged.\<close>

definition tm_media_with_timestamp :: "av_lib \<Rightarrow> bytes \<Rightarrow> template \<Rightarrow> template effect" where
  "tm_media_with_timestamp L body s =
     (if tm_session s = 0 then eff_ok s []
      else eff_then (if tm_state s \<notin> {''OPEN'', ''PLAYING''} then tm_set_state ''PLAYING'' s else eff_ok s []) (tm_media_ack L))"

definition tm_on_frame :: "av_lib \<Rightarrow> int \<Rightarrow> bytes \<Rightarrow> template \<Rightarrow> template effect" where
  "tm_on_frame L channel_id data s =
     (case decode_aa_frame data of
        None \<Rightarrow> eff_ok s []
      | Some (mid, body) \<Rightarrow>
          (if mid = AV_SETUP_REQUEST then tm_setup_request L s
           else if mid = AV_OPEN_REQUEST then tm_open_request s
           else if mid = AV_START then tm_start_indication L body s
           else if mid = AV_STOP then tm_stop_indication s
           else if mid = AV_MEDIA then tm_media_ack L s
           else if mid = AV_MEDIA_WITH_TIMESTAMP then tm_media_with_timestamp L body s
           else eff_ok s []))"

section \<open>The module\<close>

text \<open>Its only topic of its own is the end of the session.\<close>

definition tm_hooks :: "av_lib \<Rightarrow> (unit, unit, template) hooks" where
  "tm_hooks L =
     \<lparr>h_init = (\<lambda>_ s. eff_ok s []), h_cleanup = (\<lambda>_. tm_cleanup), h_is_ready = (\<lambda>s. True),
      h_on_open = (\<lambda>_. tm_reset), h_on_close = (\<lambda>_. tm_reset),
      h_on_frame = (\<lambda>_ mid enc data s. call_on_frame (tm_on_frame L) [AInt (ch_id s), AInt mid, ABool enc, ABytes data] s),
      h_loaded = (\<lambda>_ c. base_config_loaded (\<lambda>s. True) c),
      h_changed = (\<lambda>_ k v s. eff_ok (base_config_changed k v s) []), h_own = (\<lambda>_ _. tm_reset)\<rparr>"

lemma state_topic: "x @ ''.state'' \<noteq> y" if "List.last y \<noteq> CHR ''e''"
proof
  assume "x @ ''.state'' = y"
  then have "List.last (x @ ''.state'') = List.last y" by (rule arg_cong)
  then show False using that by simp
qed

lemma state_topics: "x @ ''.state'' \<noteq> ''channel_manager.module_ready''" "x @ ''.state'' \<noteq> ''aa.frame.send''"
  by (rule state_topic, simp)+

lemma hook_tm_set_state: "same_base s0 s \<Longrightarrow> hook_ok s0 (tm_set_state new s)"
  by (simp add: tm_set_state_def hook_ok_def eff_ok_def same_base_def readies_def state_topics)

interpretation tm_mod: channel_module "tm_hooks L" for L
proof unfold_locales
  fix e s c
  show "gate_step s (snd (h_loaded (tm_hooks L) e c s))" by (simp add: tm_hooks_def gate_base_loaded)
next
  fix e x s
  show "gate_step s (snd (h_own (tm_hooks L) e x s))"
    by (simp add: tm_hooks_def tm_reset_def hook_gate hook_tm_set_state same_base_def)
qed (simp_all add: tm_hooks_def tm_reset_def tm_cleanup_def call_on_frame_def hook_still hook_base_changed hook_tm_set_state same_base_def)

section \<open>Properties\<close>

definition tm_idle :: "template \<Rightarrow> bool" where
  "tm_idle s \<longleftrightarrow> tm_state s = ''IDLE'' \<and> tm_session s = 0"

definition quiet :: "busmsg \<Rightarrow> bool" where
  "quiet m \<longleftrightarrow> fst m \<in> {''config.get'', ''channel_manager.module_ready'', ''channel_manager.module_stopped''}"

lemma idle_reset: "tm_idle s \<Longrightarrow> tm_reset s = eff_ok s [] \<and> tm_cleanup s = eff_ok s []"
  by (cases s) (simp add: tm_idle_def tm_reset_def tm_cleanup_def tm_set_state_def)

lemma idle_update [simp]:
  "tm_idle (s\<lparr>ch_open := b\<rparr>) = tm_idle s" "tm_idle (s\<lparr>ch_init_done := b\<rparr>) = tm_idle s" "tm_idle (s\<lparr>ch_published := b\<rparr>) = tm_idle s"
  "tm_idle (s\<lparr>ch_loaded := b\<rparr>) = tm_idle s" "tm_idle (s\<lparr>ch_config := c\<rparr>) = tm_idle s"
  by (simp_all add: tm_idle_def)

lemma idle_ready: "tm_idle s \<Longrightarrow> tm_idle (fst (snd (try_publish_ready r s))) \<and> list_all quiet (snd (snd (try_publish_ready r s)))"
  by (simp add: try_publish_ready_def eff_ok_def quiet_def ready_msg_def)

lemma idle_request: "fst (snd (config_request s)) = s \<and> list_all quiet (snd (snd (config_request s)))"
  by (auto simp: config_request_def eff_ok_def client_get_def rbind_def quiet_def split: sum.split)

lemma template_step:
  assumes "tm_idle s"
  shows "tm_idle (fst (chan_step (tm_hooks L) s ev)) \<and> list_all quiet (snd (chan_step (tm_hooks L) s ev))"
proof (cases ev)
  case (ModuleStart e p)
  obtain x s' ms where c: "config_request s = (x, s', ms)" by (cases "config_request s")
  then have "s' = s" "list_all quiet ms" using idle_request [of s] by simp_all
  then show ?thesis
    using assms idle_ready [of "s\<lparr>ch_init_done := True\<rparr>" "\<lambda>s. True"]
    by (cases x)
      (auto simp: ModuleStart chan_step_def on_module_start_def tm_hooks_def c eff_then_def eff_ok_def split: prod.split)
next
  case (ConfigLoaded e c)
  then show ?thesis
    using assms idle_ready [of "(if c = [] then s else s\<lparr>ch_config := merge_config (ch_schema s) c\<rparr>)\<lparr>ch_loaded := True\<rparr>" "\<lambda>s. True"]
    by (simp add: chan_step_def tm_hooks_def base_config_loaded_def)
qed (use assms in \<open>auto simp: chan_step_def tm_hooks_def on_module_stop_def on_aa_channel_open_def on_aa_channel_close_def on_aa_frame_def
      call_on_frame_def base_config_changed_def idle_reset eff_then_def eff_ok_def quiet_def split: sum.split\<close>)

interpretation tm_machine: event_machine "chan_step (tm_hooks L)" tm_idle quiet for L
  by unfold_locales (use template_step in \<open>auto simp: list_all_iff\<close>)

text \<open>A module made from the template takes part in the boot and in nothing else: whatever the phone sends and the session does, it
  stays idle, publishes no state and sends no frame.\<close>

theorem template_stays_idle:
  "tm_idle (fst (run_events (chan_step (tm_hooks L)) (new_template name cid sdr) es)) \<and>
   filter (\<lambda>m. \<not> quiet m) (snd (run_events (chan_step (tm_hooks L)) (new_template name cid sdr) es)) = []"
proof -
  have i: "tm_idle (new_template name cid sdr)" by (simp add: new_template_def tm_idle_def chan.defs)
  show ?thesis using tm_machine.run_inv [OF i] tm_machine.run_good [OF i] by (auto simp: filter_empty_conv)
qed

text \<open>Even when the handler is called as it was written for, the answers after the setup are those of the protocol but for the
  request to open the channel, which always raises.\<close>

theorem template_answers_but_open:
  assumes "av_setup L (dget_or (ch_config s) ''max_unacked'' (PInt 1)) = Inr body" "tm_state s = ''IDLE''"
  shows "eff_msgs (tm_on_frame L ch (be_bytes 2 AV_SETUP_REQUEST @ b) s)
      = [send_frame s AV_SETUP_RESPONSE body, (ch_name s @ ''.state'', [(''channel_id'', PInt (ch_id s)), (''state'', PStr ''SETUP'')])] \<and>
    tm_on_frame L ch (be_bytes 2 AV_OPEN_REQUEST @ b) s = (Some TypeError, s, [])"
proof -
  have d: "decode_aa_frame (be_bytes 2 mid @ b) = Some (mid, b)" if "0 \<le> mid" "mid < 2 ^ 16" for mid
    using that by (simp add: decode_aa_frame_def be_val_be_bytes)
  show ?thesis
    using assms d [of AV_SETUP_REQUEST] d [of AV_OPEN_REQUEST]
    by (simp add: tm_on_frame_def av_ids tm_setup_request_def tm_open_request_def tm_set_state_def eff_then_def eff_ok_def eff_res_def eff_msgs_def
        send_frame_def)
qed

definition demo_template_lib :: av_lib where
  "demo_template_lib = \<lparr>av_open_ok = [8, 0], av_parse_setup = \<lambda>b. Inr 1, av_setup = \<lambda>v. Inr [8, 2, 16, 1], av_parse_start = \<lambda>b. Inr 1,
     av_ack = \<lambda>n. [8, 1]\<rparr>"

lemma template_answers_but_open_witness:
  "eff_msgs (tm_on_frame demo_template_lib 5 (be_bytes 2 AV_SETUP_REQUEST @ [8, 1]) (new_template ''tpl'' 5 None))
     = [send_frame (new_template ''tpl'' 5 None) AV_SETUP_RESPONSE [8, 2, 16, 1],
        (''tpl.state'', [(''channel_id'', PInt 5), (''state'', PStr ''SETUP'')])]"
proof -
  have s: "tm_state (new_template ''tpl'' 5 None) = ''IDLE''" "ch_name (new_template ''tpl'' 5 None) = ''tpl''" "ch_id (new_template ''tpl'' 5 None) = 5"
    by (simp_all add: new_template_def new_chan_def chan.defs)
  have l: "av_setup demo_template_lib v = Inr [8, 2, 16, 1]" for v by (simp add: demo_template_lib_def)
  from template_answers_but_open [OF l s(1), of 5 "[8, 1]"] show ?thesis unfolding s by simp
qed

end
