(* ===== verification/FirstGeneration.thy ===== *)
theory FirstGeneration
  imports FrameRelay
begin

text \<open>
  The first generation, \<^verbatim>\<open>src/app\<close> and \<^verbatim>\<open>src/services\<close>, which the second replaces: the bus client with its handlers and Qt
  bridges, the connection manager, the wireless daemon with its stub of a Bluetooth manager, the Bluetooth handshake and the
  TCP server, and the renderer of media frames. A message is its topic with payload and binary; msgpack is the parameter
  \<open>v1_codec\<close>. Logging and the sinks' pipelines are left out.
\<close>

section \<open>Bus client\<close>

text \<open>\<open>mp_unpack\<close> is none where \<^verbatim>\<open>unpackb\<close> raises.\<close>

record v1_codec =
  mp_pack :: "payload \<Rightarrow> bytes res"
  mp_unpack :: "bytes \<Rightarrow> pyval option"

text \<open>A handler: the callback, its qualified name, and whether it asked for the main thread.\<close>

type_synonym 'h v1_handler = "'h \<times> string \<times> bool"

record 'h v1_bus =
  v1_handlers :: "(string, 'h v1_handler list) dict"
  v1_filters :: "string list"
  v1_bridges :: "(string, 'h) dict"
  v1_factory :: bool
  v1_running :: bool
  v1_stopped :: bool

definition new_v1_bus :: "'h v1_bus" where
  "new_v1_bus = \<lparr>v1_handlers = [], v1_filters = [''_bus.''], v1_bridges = [], v1_factory = False, v1_running = True, v1_stopped = False\<rparr>"

definition v1_subscribe :: "string \<Rightarrow> 'h v1_handler \<Rightarrow> 'h v1_bus \<Rightarrow> 'h v1_bus" where
  "v1_subscribe t h b =
     (case map_of (v1_handlers b) t of
        None \<Rightarrow> b\<lparr>v1_handlers := dset t [h] (v1_handlers b), v1_filters := v1_filters b @ [t]\<rparr>
      | Some hs \<Rightarrow> b\<lparr>v1_handlers := dset t (hs @ [h]) (v1_handlers b)\<rparr>)"

text \<open>The body of a message: the binary replaces the payload.\<close>

definition v1_body :: "v1_codec \<Rightarrow> payload \<Rightarrow> bytes \<Rightarrow> bytes res" where
  "v1_body C p binary = (if binary \<noteq> [] then Inr binary else mp_pack C p)"

definition v1_publish :: "v1_codec \<Rightarrow> string \<Rightarrow> payload \<Rightarrow> bytes \<Rightarrow> 'h v1_bus \<Rightarrow> (string \<times> bytes) list res" where
  "v1_publish C t p binary b = (if \<not> v1_running b then Inr [] else rbind (v1_body C p binary) (\<lambda>body. Inr [(t, body)]))"

definition v1_stop :: "'h v1_bus \<Rightarrow> 'h v1_bus" where
  "v1_stop b = (if \<not> v1_running b then b else b\<lparr>v1_running := False, v1_stopped := True\<rparr>)"

datatype v1_arg = Unpacked pyval | Binary bytes

definition v1_argument :: "v1_codec \<Rightarrow> bytes \<Rightarrow> v1_arg" where
  "v1_argument C body = (case mp_unpack C body of Some v \<Rightarrow> Unpacked v | None \<Rightarrow> Binary body)"

text \<open>The callbacks that are called, in order, each with whether it runs in the main thread. What they raise is caught.\<close>

fun v1_call_handlers :: "string \<Rightarrow> bool \<Rightarrow> 'h v1_handler list \<Rightarrow> (string, 'h) dict \<Rightarrow> ('h \<times> bool) list \<times> (string, 'h) dict" where
  "v1_call_handlers t factory [] br = ([], br)"
| "v1_call_handlers t factory ((cb, qn, main) # hs) br =
     (if main \<and> factory then
        (let key = t @ '':'' @ qn; br1 = (if map_of br key = None then dset key cb br else br);
             (cs, br2) = v1_call_handlers t factory hs br1
         in ((the (map_of br1 key), True) # cs, br2))
      else (let (cs, br2) = v1_call_handlers t factory hs br in ((cb, False) # cs, br2)))"

definition v1_dispatch :: "string \<Rightarrow> 'h v1_bus \<Rightarrow> ('h \<times> bool) list \<times> 'h v1_bus" where
  "v1_dispatch t b =
     (let (cs, br) = v1_call_handlers t (v1_factory b) (dget_or (v1_handlers b) t []) (v1_bridges b) in (cs, b\<lparr>v1_bridges := br\<rparr>))"

text \<open>One message of the receiving thread: the calls with their argument.\<close>

definition v1_receive :: "v1_codec \<Rightarrow> 'h v1_bus \<Rightarrow> string \<times> bytes \<Rightarrow> 'h v1_bus \<times> ('h \<times> bool \<times> v1_arg) list" where
  "v1_receive C b m =
     (if \<not> v1_running b then (b, [])
      else (let b1 = (if fst m = ''app.shutdown'' then b\<lparr>v1_stopped := True\<rparr> else b); (cs, b2) = v1_dispatch (fst m) b1
            in (b2, map (\<lambda>c. (fst c, snd c, v1_argument C (snd m))) cs)))"

section \<open>Connection manager\<close>

type_synonym v1_msg = "string \<times> payload \<times> bytes"

record v1_conn =
  vc_bluetooth :: bool
  vc_wifi :: bool

definition new_v1_conn :: v1_conn where
  "new_v1_conn = \<lparr>vc_bluetooth = False, vc_wifi = False\<rparr>"

definition v1_status :: "v1_conn \<Rightarrow> string" where
  "v1_status s =
     (if vc_bluetooth s \<and> vc_wifi s then ''connected''
      else if vc_bluetooth s then ''bluetooth_connected''
      else if vc_wifi s then ''wifi_ap_connected'' else ''disconnected'')"

definition v1_notify :: "string \<Rightarrow> pyval \<Rightarrow> v1_msg" where
  "v1_notify status meth = (''connection.status'', [(''status'', PStr status), (''method'', meth)], [])"

definition v1_established :: "payload \<Rightarrow> v1_conn \<Rightarrow> v1_conn \<times> v1_msg list" where
  "v1_established p s =
     (let m = dget_or p ''method'' (PStr ''bluetooth'') in
      (if m = PStr ''bluetooth'' then s\<lparr>vc_bluetooth := True\<rparr> else if m = PStr ''wifi_ap'' then s\<lparr>vc_wifi := True\<rparr> else s,
       [v1_notify ''Connected'' m]))"

text \<open>Messages of other topics are not subscribed.\<close>

definition v1_conn_step :: "v1_conn \<Rightarrow> v1_msg \<Rightarrow> v1_conn \<times> v1_msg list" where
  "v1_conn_step s m =
     (case m of (t, p, b) \<Rightarrow>
        if t = ''wireless.app.ready'' then (s, [v1_notify ''wireless_ready'' (dget_or p ''method'' (PStr ''unknown''))])
        else if t = ''wireless.connection.established'' then v1_established p s
        else if t = ''wireless.connection.failed'' then (s, [v1_notify ''Disconnected'' (dget_or p ''method'' (PStr ''unknown''))])
        else (s, []))"

section \<open>Bluetooth stub\<close>

definition v1_pub :: "string \<Rightarrow> payload \<Rightarrow> v1_msg" where
  "v1_pub t p = (t, p, [])"

definition bt_pub :: "string \<Rightarrow> string \<Rightarrow> string \<Rightarrow> v1_msg" where
  "bt_pub t k v = v1_pub (''wireless.bluetooth.'' @ t) [(k, PStr v)]"

text \<open>\<open>err\<close> is the text of the exception of the socket. The flag is \<^verbatim>\<open>_initialized\<close>.\<close>

definition v1_init_dbus :: "string option \<Rightarrow> bool \<Rightarrow> bool \<times> bool \<times> v1_msg list" where
  "v1_init_dbus err initialized =
     (case err of
        None \<Rightarrow> (True, True, [bt_pub ''discovery.started'' ''status'' ''initialized''])
      | Some e \<Rightarrow> (False, initialized, [bt_pub ''discovery.failed'' ''error'' e]))"

definition v1_register_profiles :: "bool \<Rightarrow> bool \<times> v1_msg list" where
  "v1_register_profiles initialized =
     (if \<not> initialized then (False, [])
      else (True, [bt_pub ''hfp.started'' ''profile'' ''HFP AG'', bt_pub ''hsp.started'' ''profile'' ''HSP HS'',
                   bt_pub ''aa.started'' ''profile'' ''AA RFCOMM'', bt_pub ''registration.completed'' ''status'' ''ok'']))"

definition v1_set_pairing :: "string \<Rightarrow> bool \<Rightarrow> bool \<times> v1_msg list" where
  "v1_set_pairing address initialized = (if \<not> initialized then (False, []) else (True, [bt_pub ''pairing.started'' ''device'' address]))"

definition v1_discover :: "v1_msg list" where
  "v1_discover = [bt_pub ''discovery.started'' ''status'' ''started'', v1_pub ''wireless.bluetooth.discovery.completed'' [(''devices'', PList [])]]"

section \<open>Bluetooth handshake\<close>

text \<open>A connected socket: what it will receive and what it was sent.\<close>

type_synonym v1_sock = "rsock \<times> wsock"

definition v1_send :: "bytes \<Rightarrow> v1_sock \<Rightarrow> exn option \<times> v1_sock" where
  "v1_send data s = (case sock_send data (snd s) of (Inl x, w) \<Rightarrow> (Some x, (fst s, w)) | (Inr n, w) \<Rightarrow> (None, (fst s, w)))"

definition ascii :: "string \<Rightarrow> bytes" where
  "ascii s = map (\<lambda>c. of_nat (of_char c)) s"

text \<open>\<^verbatim>\<open>packet += x\<close> for bytes or a string: only bytes can be appended.\<close>

definition py_append :: "bytes res \<Rightarrow> bytes res + string \<Rightarrow> bytes res" where
  "py_append packet x = rbind packet (\<lambda>a. case x of Inl b \<Rightarrow> rbind b (\<lambda>b. Inr (a @ b)) | Inr t \<Rightarrow> Inl TypeError)"

definition v1_start_packet :: "string \<Rightarrow> int \<Rightarrow> bytes res" where
  "v1_start_packet ip port =
     foldl py_append (Inr []) [Inl (pack_be 2 1), Inl (pack_be 2 1), Inl (pack_be 2 134217728), Inl (pack_be 2 10), Inl (Inr (ascii ip)), Inl (pack_be 2 port)]"

definition v1_info_packet :: "string \<Rightarrow> string \<Rightarrow> string \<Rightarrow> int \<Rightarrow> int \<Rightarrow> bytes res" where
  "v1_info_packet ssid key bssid security ap =
     foldl py_append (Inr []) [Inl (pack_be 2 3), Inl (pack_be 2 3), Inl (Inr (ascii ssid)), Inl (Inr (ascii key)), Inr bssid, Inl (pack_be 2 security), Inl (pack_be 2 ap)]"

text \<open>Build a packet, send it and publish; every exception is caught.\<close>

definition send_stage :: "bytes res \<Rightarrow> v1_msg \<Rightarrow> v1_sock \<Rightarrow> bool \<times> v1_sock \<times> v1_msg list" where
  "send_stage packet m s =
     (case packet of
        Inl x \<Rightarrow> (False, s, [])
      | Inr data \<Rightarrow> (case v1_send data s of (Some x, s') \<Rightarrow> (False, s', []) | (None, s') \<Rightarrow> (True, s', [m])))"

definition send_wifi_start_request :: "string \<Rightarrow> int \<Rightarrow> v1_sock \<Rightarrow> bool \<times> v1_sock \<times> v1_msg list" where
  "send_wifi_start_request ip port s =
     send_stage (v1_start_packet ip port) (v1_pub ''wireless.rfcomm.handshake.started'' [(''stage'', PStr ''WifiStartRequest'')]) s"

definition receive_stage :: "string \<Rightarrow> v1_sock \<Rightarrow> int \<times> v1_sock \<times> v1_msg list" where
  "receive_stage stage s =
     (case recv 1024 (fst s) of
        (Inl x, r) \<Rightarrow> (- 1, (r, snd s), [])
      | (Inr data, r) \<Rightarrow>
          (if data = [] then (- 1, (r, snd s), [])
           else (0, (r, snd s), [v1_pub ''wireless.rfcomm.handshake.completed'' [(''stage'', PStr stage), (''status'', PInt 0)]])))"

definition send_wifi_info_response :: "string \<Rightarrow> string \<Rightarrow> string \<Rightarrow> int \<Rightarrow> int \<Rightarrow> v1_sock \<Rightarrow> bool \<times> v1_sock \<times> v1_msg list" where
  "send_wifi_info_response ssid key bssid security ap s =
     send_stage (v1_info_packet ssid key bssid security ap)
       (v1_pub ''wireless.rfcomm.credentials.exchanged'' [(''ssid'', PStr ssid), (''security'', PInt security), (''ap_type'', PInt ap)]) s"

definition process_handshake :: "v1_sock \<Rightarrow> bool \<times> v1_sock \<times> v1_msg list" where
  "process_handshake s0 =
     (let (ok1, s1, o1) = send_wifi_start_request ''10.0.0.1'' 5288 s0 in
      if \<not> ok1 then (False, s1, o1)
      else (let (r2, s2, o2) = receive_stage ''WifiStartResponse'' s1 in
        if r2 < 0 then (False, s2, o1 @ o2)
        else (let (ok3, s3, o3) = send_wifi_info_response ''Android Auto'' ''password123'' ''DC:A6:32:E7:5A:FE'' 8 1 s2 in
          if \<not> ok3 then (False, s3, o1 @ o2 @ o3)
          else (let (r5, s5, o5) = receive_stage ''WifiConnectStatus'' s3 in
            if r5 < 0 then (False, s5, o1 @ o2 @ o3 @ o5)
            else (True, s5, o1 @ o2 @ o3 @ o5 @ [v1_pub ''wireless.rfcomm.handshake.completed'' [(''status'', PStr ''success'')]])))))"

section \<open>TCP server\<close>

text \<open>\<open>err\<close> is whether the socket could be bound.\<close>

definition v1_tcp_start :: "bool \<Rightarrow> bool \<times> v1_msg list" where
  "v1_tcp_start err =
     (if err then (False, [])
      else (True, [v1_pub ''wireless.tcp.server.started'' [(''host'', PStr ''0.0.0.0''), (''port'', PInt 5288)]]))"

text \<open>\<^verbatim>\<open>socket.accept\<close> takes no argument besides the socket: any other call raises \<^verbatim>\<open>TypeError\<close>. Without a pending
  connection it times out.\<close>

definition sock_accept :: "int list \<Rightarrow> 'c option \<Rightarrow> 'c option res" where
  "sock_accept args pending = (if args = [] then Inr pending else Inl TypeError)"

definition accept_connection :: "int \<Rightarrow> bool \<Rightarrow> ('c \<times> string) option \<Rightarrow> ('c \<times> string) option \<times> v1_msg list" where
  "accept_connection timeout running pending =
     (if \<not> running then (None, [])
      else (case sock_accept [timeout] pending of
              Inl x \<Rightarrow> (None, [])
            | Inr None \<Rightarrow> (None, [])
            | Inr (Some c) \<Rightarrow>
                (Some c, [v1_pub ''wireless.tcp.connection.accepted'' [(''address'', PStr (snd c)), (''port'', PInt 5288)]])))"

section \<open>Wireless daemon\<close>

record v1_daemon =
  vd_running :: bool
  vd_init :: bool
  vd_server :: bool
  vd_tcp :: bool
  vd_audio :: int
  vd_video :: int

definition new_v1_daemon :: v1_daemon where
  "new_v1_daemon = \<lparr>vd_running = False, vd_init = False, vd_server = False, vd_tcp = False, vd_audio = 0, vd_video = 0\<rparr>"

definition startup_failed :: "string \<Rightarrow> v1_msg" where
  "startup_failed c = v1_pub ''wireless.app.startup.failed'' [(''component'', PStr c)]"

definition v1_start :: "string option \<Rightarrow> bool \<Rightarrow> v1_daemon \<Rightarrow> bool \<times> v1_daemon \<times> v1_msg list" where
  "v1_start bt_err tcp_err s =
     (let (ok1, i, o1) = v1_init_dbus bt_err (vd_init s); s1 = s\<lparr>vd_init := i\<rparr> in
      if \<not> ok1 then (False, s1, o1 @ [startup_failed ''bluetooth''])
      else (let (ok2, o2) = v1_register_profiles i in
        if \<not> ok2 then (False, s1, o1 @ o2 @ [startup_failed ''profiles''])
        else (let (ok3, o3) = v1_set_pairing ''00:00:00:00:00:00'' i; (ok4, o4) = v1_tcp_start tcp_err in
          if \<not> ok4 then (False, s1\<lparr>vd_server := True\<rparr>, o1 @ o2 @ o3 @ o4 @ [startup_failed ''tcp_server''])
          else (True, s1\<lparr>vd_server := True, vd_tcp := True, vd_running := True\<rparr>,
                o1 @ o2 @ o3 @ o4 @ [v1_pub ''wireless.app.ready'' [(''status'', PStr ''ready''), (''method'', PStr ''bluetooth'')]]))))"

definition v1_daemon_stop :: "v1_daemon \<Rightarrow> v1_daemon \<times> v1_msg list" where
  "v1_daemon_stop s =
     (s\<lparr>vd_running := False, vd_tcp := False\<rparr>,
      if vd_server s then [v1_pub ''wireless.tcp.connection.closed'' [(''status'', PStr ''stopped'')]] else [])"

text \<open>One frame of the media loop: the message that is published, and the counters.\<close>

definition v1_frame :: "int \<Rightarrow> bytes \<Rightarrow> v1_daemon \<Rightarrow> v1_daemon \<times> v1_msg list" where
  "v1_frame frame_type data s =
     (if frame_type = 1 then
        (s\<lparr>vd_audio := vd_audio s + 1\<rparr>, [(''media.audio.frame'', [(''seq'', PInt (vd_audio s + 1)), (''pts'', PInt 0)], data)])
      else if frame_type = 2 then
        (let idr = 4 < length data \<and> data ! 4 AND 31 = 5 in
         (s\<lparr>vd_video := vd_video s + 1\<rparr>,
          [(''media.video.frame'', [(''seq'', PInt (vd_video s + 1)), (''pts'', PInt 0), (''keyframe'', PBool idr)], data)]))
      else (s, []))"

text \<open>\<open>k\<close> is how many times the loop still finds the daemon running.\<close>

fun v1_media_loop :: "nat \<Rightarrow> rsock \<Rightarrow> v1_daemon \<Rightarrow> v1_daemon \<times> v1_msg list" where
  "v1_media_loop 0 r s = (s, [])"
| "v1_media_loop (Suc k) r s =
     (case recv_exact 8 r of
        (None, r1) \<Rightarrow> (s, [])
      | (Some h, r1) \<Rightarrow>
          (case recv_exact (nat (be_val (drop 4 h))) r1 of
             (None, r2) \<Rightarrow> (s, [])
           | (Some data, r2) \<Rightarrow>
               (if data = [] then (s, [])
                else (let (s1, o1) = v1_frame (be_val (take 4 h)) data s; (s2, o2) = v1_media_loop k r2 s1 in (s2, o1 @ o2)))))"

definition v1_handle_connection :: "nat \<Rightarrow> v1_sock \<Rightarrow> string \<Rightarrow> v1_daemon \<Rightarrow> v1_daemon \<times> v1_msg list" where
  "v1_handle_connection k sock addr s =
     (let (ok, sock', o1) = process_handshake sock in
      if ok then
        (let (s', o2) = v1_media_loop k (fst sock') s in
         (s', o1 @ [v1_pub ''wireless.connection.established'' [(''address'', PStr addr), (''method'', PStr ''bluetooth'')]] @ o2))
      else (s, o1 @ [v1_pub ''wireless.connection.failed'' [(''error'', PStr ''handshake failed''), (''method'', PStr ''bluetooth'')]]))"

text \<open>A turn of the accept loop finds a pending connection or none; the thread of the connection runs for \<open>k\<close> tests.\<close>

datatype v1_event =
    V1Start "string option" bool
  | V1Turn "(v1_sock \<times> string) option" nat
  | V1Pairing
  | V1Shutdown

fun v1_step :: "v1_daemon \<Rightarrow> v1_event \<Rightarrow> v1_daemon \<times> v1_msg list" where
  "v1_step s (V1Start bt_err tcp_err) = snd (v1_start bt_err tcp_err s)"
| "v1_step s (V1Turn pending k) =
     (if \<not> vd_running s then (s, [])
      else (let (c, o1) = accept_connection 30 (vd_tcp s) pending in
        (case c of None \<Rightarrow> (s, o1) | Some (sock, addr) \<Rightarrow> (let (s', o2) = v1_handle_connection k sock addr s in (s', o1 @ o2)))))"
| "v1_step s V1Pairing = (s, if vd_running s then v1_discover else [])"
| "v1_step s V1Shutdown = v1_daemon_stop s"

section \<open>Media renderer\<close>

text \<open>What each sink was given.\<close>

definition media_topics :: "string list" where
  "media_topics = [''media.audio.frame'', ''media.video.frame'']"

definition v1_pushed :: "v1_codec \<Rightarrow> string \<times> bytes \<Rightarrow> (string \<times> bytes) list" where
  "v1_pushed C m =
     (if fst m \<in> set media_topics then (case v1_argument C (snd m) of Binary b \<Rightarrow> [(fst m, b)] | Unpacked v \<Rightarrow> []) else [])"

section \<open>Handlers and bridges\<close>

lemma handlers_called:
  assumes "distinct (map (\<lambda>h. fst (snd h)) (filter (\<lambda>h. snd (snd h)) hs))"
    and "\<forall>h \<in> set hs. snd (snd h) \<longrightarrow> map_of br (t @ '':'' @ fst (snd h)) = None"
  shows "fst (v1_call_handlers t factory hs br) = map (\<lambda>h. (fst h, snd (snd h) \<and> factory)) hs"
  using assms
proof (induction hs arbitrary: br)
  case (Cons h hs)
  obtain cb qn main where h: "h = (cb, qn, main)" by (cases h)
  show ?case
  proof (cases "main \<and> factory")
    case True
    let ?k = "t @ CHR '':'' # qn"
    have n: "map_of br ?k = None" using Cons.prems(2) True by (simp add: h)
    have "\<forall>h \<in> set hs. snd (snd h) \<longrightarrow> map_of (dset ?k cb br) (t @ '':'' @ fst (snd h)) = None"
      using Cons.prems True by (auto simp: h map_of_dset)
    moreover have "distinct (map (\<lambda>h. fst (snd h)) (filter (\<lambda>h. snd (snd h)) hs))" using Cons.prems(1) by (cases main) (simp_all add: h)
    ultimately show ?thesis using Cons.IH [of "dset ?k cb br"] True by (simp add: h n map_of_dset Let_def split_def)
  next
    case False
    have "distinct (map (\<lambda>h. fst (snd h)) (filter (\<lambda>h. snd (snd h)) hs))" using Cons.prems(1) by (cases main) (simp_all add: h)
    then show ?thesis using Cons.IH [of br] Cons.prems(2) False by (auto simp: h Let_def split_def)
  qed
qed simp

lemma bridge_kept:
  "map_of br (t @ '':'' @ q) = Some f \<Longrightarrow> list_all (\<lambda>h. snd h = (q, True)) hs \<Longrightarrow>
   fst (v1_call_handlers t True hs br) = replicate (length hs) (f, True)"
  by (induction hs) (auto simp: Let_def split_def)

text \<open>A message is given to the handlers of its topic, each once and in the order of their subscription, if the handlers for the
  main thread have different names; but handlers of one name, as methods of two objects of a class have, share the bridge
  of the first, which is called in place of the others.\<close>

theorem v1_dispatch_by_name:
  assumes "map_of (v1_handlers b) t = Some hs" "v1_bridges b = []"
  shows "(distinct (map (\<lambda>h. fst (snd h)) (filter (\<lambda>h. snd (snd h)) hs)) \<longrightarrow>
      fst (v1_dispatch t b) = map (\<lambda>h. (fst h, snd (snd h) \<and> v1_factory b)) hs) \<and>
    (hs = (f, q, True) # hs' \<and> list_all (\<lambda>h. snd h = (q, True)) hs' \<and> v1_factory b \<longrightarrow>
      fst (v1_dispatch t b) = replicate (length hs) (f, True))"
proof -
  have d: "fst (v1_dispatch t b) = fst (v1_call_handlers t (v1_factory b) hs [])"
    using assms by (simp add: v1_dispatch_def dget_or_def split_def Let_def)
  have "fst (v1_call_handlers t True ((f, q, True) # hs') []) = replicate (Suc (length hs')) (f, True)" if "list_all (\<lambda>h. snd h = (q, True)) hs'"
    using bridge_kept [of "dset (t @ '':'' @ q) f []" t q f hs'] that by (simp add: map_of_dset Let_def split_def)
  then show ?thesis using handlers_called [of hs "[]" t "v1_factory b"] unfolding d by auto
qed

lemma v1_dispatch_by_name_witness:
  "fst (v1_dispatch ''x'' ((v1_subscribe ''x'' (2::nat, ''A.f'', True) (v1_subscribe ''x'' (1, ''A.f'', True) new_v1_bus))\<lparr>v1_factory := True\<rparr>))
     = [(1, True), (1, True)]"
proof -
  let ?b = "(v1_subscribe ''x'' (2::nat, ''A.f'', True) (v1_subscribe ''x'' (1, ''A.f'', True) new_v1_bus))\<lparr>v1_factory := True\<rparr>"
  have "map_of (v1_handlers ?b) ''x'' = Some [(1, ''A.f'', True), (2, ''A.f'', True)]" "v1_bridges ?b = []" "v1_factory ?b"
    by (simp_all add: v1_subscribe_def new_v1_bus_def map_of_dset)
  then show ?thesis using v1_dispatch_by_name [of ?b "''x''" "[(1, ''A.f'', True), (2, ''A.f'', True)]" 1 "''A.f''" "[(2, ''A.f'', True)]"] by simp
qed

section \<open>The connection that never is\<close>

lemma v1_start_packet_fails: "v1_start_packet ip port = Inl StructError"
  by (simp add: v1_start_packet_def py_append_def pack_be_def)

lemma v1_info_packet_fails: "\<exists>x. v1_info_packet ssid key bssid security ap = Inl x"
  by (simp add: v1_info_packet_def py_append_def pack_be_def)

lemma handshake_fails: "process_handshake s = (False, s, [])"
  by (simp add: process_handshake_def send_wifi_start_request_def send_stage_def v1_start_packet_fails)

definition v1_quiet :: "v1_msg \<Rightarrow> bool" where
  "v1_quiet m \<longleftrightarrow> fst m \<notin> {''wireless.connection.established'', ''wireless.connection.failed'', ''media.audio.frame'', ''media.video.frame'',
     ''wireless.tcp.connection.accepted'', ''wireless.rfcomm.handshake.completed''}"

lemma v1_step_quiet: "list_all v1_quiet (snd (v1_step s e))"
  by (cases e)
    (auto simp: v1_start_def v1_init_dbus_def v1_register_profiles_def v1_set_pairing_def v1_tcp_start_def v1_discover_def v1_daemon_stop_def
      accept_connection_def sock_accept_def startup_failed_def bt_pub_def v1_pub_def v1_quiet_def Let_def split: option.split)

interpretation v1_machine: event_machine v1_step "\<lambda>s. True" v1_quiet
  by unfold_locales (use v1_step_quiet in \<open>auto simp: list_all_iff\<close>)

lemma quiet_conn: "list_all v1_quiet ms \<Longrightarrow> fst (run_events v1_conn_step s ms) = s"
  by (induction ms arbitrary: s) (auto simp: Let_def v1_conn_step_def v1_quiet_def split: prod.split)

text \<open>The first generation cannot connect: the server calls accept with an argument it does not take, and the packet that starts
  the handshake does not fit its field, so whatever connections wait, no connection is accepted, no media is published
  and the connection manager stays disconnected.\<close>

theorem v1_never_connected:
  "list_all v1_quiet (snd (run_events v1_step s es)) \<and>
   v1_status (fst (run_events v1_conn_step new_v1_conn (snd (run_events v1_step s es)))) = ''disconnected'' \<and>
   fst (process_handshake sock) = False"
proof -
  have q: "list_all v1_quiet (snd (run_events v1_step s es))" using v1_machine.run_good by (auto simp: list_all_iff)
  then show ?thesis using quiet_conn [OF q, of new_v1_conn] by (simp add: handshake_fails new_v1_conn_def v1_status_def)
qed

text \<open>Once established, a connection is never taken back: a failure only publishes a status.\<close>

lemma v1_failure_keeps_status:
  "v1_status (fst (v1_conn_step s (v1_pub ''wireless.connection.failed'' p))) = v1_status s"
  by (simp add: v1_conn_step_def v1_pub_def)

section \<open>From the media loop to the sinks\<close>

definition v1_topic :: "int \<Rightarrow> string" where
  "v1_topic ty = (if ty = 1 then ''media.audio.frame'' else ''media.video.frame'')"

definition v1_encode :: "int \<times> bytes \<Rightarrow> bytes" where
  "v1_encode f = be_bytes 4 (fst f) @ be_bytes 4 (int (length (snd f))) @ snd f"

definition v1_media_ok :: "v1_codec \<Rightarrow> int \<times> bytes \<Rightarrow> bool" where
  "v1_media_ok C f \<longleftrightarrow> fst f \<in> {1, 2} \<and> snd f \<noteq> [] \<and> length (snd f) < 2 ^ 32 \<and> mp_unpack C (snd f) = None"

text \<open>What the bus carries of a message.\<close>

definition v1_wire :: "v1_codec \<Rightarrow> v1_msg \<Rightarrow> (string \<times> bytes) list" where
  "v1_wire C m = (case m of (t, p, b) \<Rightarrow> (case v1_publish C t p b (new_v1_bus :: unit v1_bus) of Inr ms \<Rightarrow> ms | Inl x \<Rightarrow> []))"

lemma frame_pushed:
  assumes "v1_media_ok C (ty, data)"
  shows "concat (map (v1_pushed C) (concat (map (v1_wire C) (snd (v1_frame ty data s))))) = [(v1_topic ty, data)]"
  using assms
  by (auto simp: v1_media_ok_def v1_frame_def v1_wire_def v1_publish_def v1_body_def new_v1_bus_def v1_pushed_def media_topics_def v1_argument_def
      v1_topic_def Let_def)

lemma media_loop_step:
  assumes "v1_media_ok C f" "avail r = v1_encode f @ rest"
  shows "\<exists>r'. avail r' = rest \<and>
    v1_media_loop (Suc k) r s = (let (s1, o1) = v1_frame (fst f) (snd f) s; (s2, o2) = v1_media_loop k r' s1 in (s2, o1 @ o2))"
proof -
  let ?h = "be_bytes 4 (fst f) @ be_bytes 4 (int (length (snd f)))"
  have l: "length ?h = 8" by simp
  obtain r1 where r1: "recv_exact 8 r = (Some ?h, r1)" "avail r1 = snd f @ rest"
    using relay_rx.rx_step [of 8 r] assms(2) by (auto simp: v1_encode_def)
  obtain r2 where r2: "recv_exact (length (snd f)) r1 = (Some (snd f), r2)" "avail r2 = rest"
    using relay_rx.rx_step [of "length (snd f)" r1] r1(2) by auto
  have n: "be_val (take 4 ?h) = fst f" "nat (be_val (drop 4 ?h)) = length (snd f)" "snd f \<noteq> []"
    using assms(1) by (auto simp: v1_media_ok_def be_val_be_bytes)
  show ?thesis using r1(1) r2 n by (intro exI [of _ r2]) (simp add: Let_def split_def)
qed

lemma media_loop_pushed:
  "list_all (v1_media_ok C) fs \<Longrightarrow> avail r = concat (map v1_encode fs) \<Longrightarrow> length fs \<le> k \<Longrightarrow>
   concat (map (v1_pushed C) (concat (map (v1_wire C) (snd (v1_media_loop k r s))))) = map (\<lambda>f. (v1_topic (fst f), snd f)) fs"
proof (induction fs arbitrary: k r s)
  case Nil
  have "fst (recv_exact 8 r) = None" using relay_rx.rx_short [of r 8] Nil.prems(2) by simp
  then show ?case by (cases k) (auto split: prod.split option.split)
next
  case (Cons f fs)
  obtain k' where k: "k = Suc k'" using Cons.prems(3) by (cases k) simp_all
  obtain r' where r': "avail r' = concat (map v1_encode fs)"
      "v1_media_loop k r s = (let (s1, o1) = v1_frame (fst f) (snd f) s; (s2, o2) = v1_media_loop k' r' s1 in (s2, o1 @ o2))"
    using media_loop_step [of C f r "concat (map v1_encode fs)" k' s] Cons.prems by (auto simp: k)
  have "concat (map (v1_pushed C) (concat (map (v1_wire C) (snd (v1_frame (fst f) (snd f) s))))) = [(v1_topic (fst f), snd f)]"
    using frame_pushed [of C "fst f" "snd f" s] Cons.prems(1) by simp
  then show ?case using Cons.IH [OF _ r'(1), of k'] Cons.prems(1,3) by (simp add: r'(2) [unfolded k] k Let_def split_def del: v1_media_loop.simps)
qed

text \<open>The frames that a connected phone sends reach the sinks of the renderer: each nonempty frame once, in order and unchanged, if
  it is not by chance a msgpack value, however the stream is cut into blocks.\<close>

theorem v1_media_reaches_sinks:
  assumes "list_all (v1_media_ok C) fs" "avail r = concat (map v1_encode fs)" "length fs \<le> k"
  shows "concat (map (v1_pushed C) (concat (map (v1_wire C) (snd (v1_media_loop k r s))))) = map (\<lambda>f. (v1_topic (fst f), snd f)) fs"
  using assms by (rule media_loop_pushed)

definition demo_codec :: v1_codec where
  "demo_codec = \<lparr>mp_pack = \<lambda>p. Inr [128], mp_unpack = \<lambda>b. if b = [128] then Some (PDict []) else None\<rparr>"

lemma v1_media_reaches_sinks_witness:
  "concat (map (v1_pushed demo_codec) (concat (map (v1_wire demo_codec)
     (snd (v1_media_loop 2 [Data [0, 0, 0, 1, 0], Data [0, 0, 2, 255, 241, 0, 0, 0, 2, 0, 0, 0, 1], Data [101]] new_v1_daemon)))))
   = [(''media.audio.frame'', [255, 241]), (''media.video.frame'', [101])]"
proof -
  have "list_all (v1_media_ok demo_codec) [(1, [255, 241]), (2, [101])]" by (simp add: v1_media_ok_def demo_codec_def)
  moreover have "avail [Data [0, 0, 0, 1, 0], Data [0, 0, 2, 255, 241, 0, 0, 0, 2, 0, 0, 0, 1], Data [101]] = concat (map v1_encode [(1, [255, 241]), (2, [101])])"
    by code_simp
  ultimately show ?thesis using v1_media_reaches_sinks [of demo_codec "[(1, [255, 241]), (2, [101])]" _ 2] by (simp add: v1_topic_def del: v1_media_loop.simps)
qed

end
