(* ===== verification/Spec2Isabelle.thy ===== *)
theory Spec2Isabelle
  imports TcpSession RfcommMain OaaMain Serializer ServiceDiscovery BusClient Orchestrator SessionBoot WirelessSession BtManager AudioManager VideoUi ConfigUi LogViewer ZmqTrace BtUi MessageNames TemplateChannel FirstGeneration
begin

text \<open>
  NemoHeadUnit-Wireless, second generation (\<^verbatim>\<open>src/v2\<close>): the head unit side of a wireless Android Auto
  session, as a set of processes that exchange JSON messages over a ZeroMQ bus.

  \<^bold>\<open>The program.\<close> \<^verbatim>\<open>v2/main.py\<close> discovers the modules, starts them and releases them by priority levels.
  \<^verbatim>\<open>rfcomm_handshake\<close> talks to the phone over Bluetooth until the phone has the credentials of the access
  point. \<^verbatim>\<open>tcp_server\<close> then accepts the phone's connection, relays frames, runs TLS and publishes every
  assembled message on \<^verbatim>\<open>aa.frame.received.ch<N>\<close>. \<^verbatim>\<open>oaa_control_channel\<close> runs the handshake of channel 0 and
  answers the service discovery with the channels of the configuration. \<^verbatim>\<open>channel_manager\<close> starts one
  process per offered channel, tells them to start by priority, and opens the channels when all are
  ready. Every channel process is a subclass of \<^verbatim>\<open>BaseChannelModule\<close>: input, sensor, audio, video,
  microphone, bluetooth, wifi. \<^verbatim>\<open>config_manager\<close> keeps one YAML file per module, against the schema the module
  registers. User interfaces and system managers are further modules on the same bus.

  \<^bold>\<open>Conventions.\<close> A module is a record of its globals or of the object's attributes; a handler is a function from
  the state and the payload to the new state and the messages published, in order; a raised exception
  is \<open>Inl\<close> of a sum or the \<open>Some\<close> of an optional exception beside the messages already out (\<open>Machines\<close>, \<open>PyVal\<close>).
  Values of the bus are \<open>pyval\<close>, dictionaries association lists in insertion order. Bytes are \<open>8 word\<close> lists,
  Python's integers \<open>int\<close>. Log lines and time stamps of traces have no effect in the model, and sleeps only where a
  property is about time (\<open>Orchestrator\<close>, \<open>BtManager\<close>). Threads are steps
  interleaved by a step relation (\<open>TcpSystem\<close>) or events given to a step function in any order.
  Code that is not in the repository (TLS, protobuf classes, YAML, JSON, pacat, ZeroMQ, the operating system)
  is a parameter: a record of functions (\<open>tls_lib\<close>, \<open>ctl_lib\<close>, \<open>pb_lib\<close>, \<open>av_lib\<close>, \<open>yaml\<close>, \<open>json_lib\<close>, ...) or the outcome of the
  call as an argument of the event; what a theorem needs of it is a named hypothesis.

  \<^bold>\<open>Theories.\<close>
  \<^item> \<open>Prelude\<close>, \<open>PyVal\<close>, \<open>PyStr\<close>, \<open>Machines\<close>: lists, exceptions, Python values and strings, and the locales \<open>event_machine\<close> and \<open>observed_machine\<close>
    of modules with an invariant.
  \<^item> \<open>AACryptor\<close> (\<^verbatim>\<open>tcp_server/aa_cryptor.py\<close>), \<open>FrameCodec\<close> (\<^verbatim>\<open>frame_codec.py\<close>), \<open>Transport\<close> (sockets; the
    locales of exact readers and self-delimiting encodings), \<open>FrameRelay\<close> (\<^verbatim>\<open>frame_relay.py\<close>), \<open>TcpServer\<close> (\<^verbatim>\<open>server.py\<close>,
    \<^verbatim>\<open>main.py\<close>), \<open>TcpSystem\<close> (the threads of the module as an inductive relation) and \<open>TcpSession\<close> (both ends of the data
    path): the receive path is total on any segmentation of the stream, channels are independent,
    frames reassemble to the messages sent. The teardown of a session is not atomic: it runs in parts, and at most one server
    thread lives as long as no handshake is taken up between them; a run in which one is has two.
  \<^item> \<open>RfcommPacket\<close>, \<open>RfcommHandshake\<close>, \<open>RfcommMain\<close> (\<^verbatim>\<open>rfcomm_handshake/\<close>): packets, the run of the handshake against
    an abstract protocol, and the accounting of sockets. The run reads at most 20 messages, the code's own
    bound, so it is a structural recursion and always returns.
  \<^item> \<open>OaaHandshake\<close>, \<open>OaaMain\<close>, \<open>Serializer\<close>, \<open>ServiceDiscovery\<close> (\<^verbatim>\<open>oaa_control_channel/\<close>) with \<open>ProtoUtils\<close>, \<open>ProtoSchema\<close>
    (\<^verbatim>\<open>shared/proto_utils.py\<close>) and \<open>SdrDescriptors\<close> (the descriptors of the discovery response): requests are answered,
    discovery is answered only after the channels are known, and the default configuration gives a response from
    which the channel manager resolves a module for every channel. \<open>Serializer\<close> is a \<open>partial_function\<close>: a
    threshold of 0 never returns.
  \<^item> \<open>ChannelLauncher\<close> (\<^verbatim>\<open>registry.py\<close>, \<^verbatim>\<open>launcher.py\<close>), \<open>ChannelManager\<close> (\<^verbatim>\<open>channel_manager/main.py\<close>) and \<open>SessionBoot\<close> (the
    manager and its children together): no process is left behind, starts follow announcements.
  \<^item> \<open>ConfigSchema\<close>, \<open>ConfigManager\<close> (\<^verbatim>\<open>shared/config_schema.py\<close>, \<^verbatim>\<open>config_client.py\<close>, \<^verbatim>\<open>config_manager/main.py\<close>): validation is
    sound, descriptors survive the bus, what is stored is what was set and was valid.
  \<^item> \<open>BusClient\<close> (\<^verbatim>\<open>shared/bus_client.py\<close>, \<^verbatim>\<open>bus_trace.py\<close>) and \<open>Orchestrator\<close> (\<^verbatim>\<open>v2/main.py\<close>): delivery and
    counting of messages; boot and shutdown. The boot's waits are the code's loops with their deadlines (20 s of discovery,
    5 s for each module of a level) and the sleeps around them, run over the clock, with the messages that have arrived at each turn.
  \<^item> \<open>ChannelBase\<close> (\<^verbatim>\<open>base_channel_module.py\<close>; the overridden methods are a record of hooks and the locale
    \<open>channel_module\<close> states what a subclass must keep), \<open>ProtoWire\<close>, \<open>AvProtocol\<close>, \<open>Base64\<close> and the modules \<open>InputChannel\<close>, \<open>SensorChannel\<close>,
    \<open>AudioChannel\<close>, \<open>VideoChannel\<close>, \<open>AvInputChannel\<close>, \<open>PlainChannels\<close>: every module is an interpretation of the locale.
  \<^item> \<open>PyText\<close> (string methods), \<open>ApDetect\<close> and \<open>ApService\<close> (\<^verbatim>\<open>services/ap_manager_service\<close>, the root service that runs the access point),
    \<open>HostapdHelper\<close> (\<^verbatim>\<open>hostapd_helper/main.py\<close>, its client) and \<open>WirelessSession\<close> (service, client and Bluetooth handshake together):
    what nmcli prints is read back, the access point is the one asked for, a failed start is undone, and the phone
    is given the credentials the access point runs with. Commands, processes and files are operations of a trace whose
    answers are the parameter \<open>ap_os\<close>; the handler that calls itself again is a \<open>partial_function\<close>, and
    \<open>rfcomm_handler_returns\<close> says exactly when it returns.
  \<^item> \<open>BtDevices\<close>, \<open>BtPairing\<close>, \<open>BtManager\<close> (\<^verbatim>\<open>bluetooth_manager/\<close>): the object tree of BlueZ, scans, connections with their
    watchdog as a step relation, the pairing agent, whose worker runs in parts beside the other threads, and the autoconnect
    thread, whose pauses are bounded by the values its settings were given (which nothing checks when they are loaded).
    \<open>BtUi\<close> (\<^verbatim>\<open>bluetooth_ui/main.py\<close>): the window of the user, its buttons and dialogs, and its messages with the manager.
  \<^item> \<open>AudioManager\<close> (\<^verbatim>\<open>audio_manager/main.py\<close>): the devices that pactl and wpctl list, the selection, and the module's own schema
    that is rebuilt from them after each look at the tools (the registered one is that of the start). \<open>VideoUi\<close> (\<^verbatim>\<open>video_ui/main.py\<close>): the choice of the decoder and the way of a picture from the
    video channel through the queued slots into the source of the pipeline; what the pipeline's own queue drops is left out.
  \<^item> \<open>ConfigForm\<close>, \<open>ConfigUi\<close> (\<^verbatim>\<open>config_ui/\<close>): the form built for a schema node and the value read back from it, the tabs and
    what a save publishes. Widgets are the state the code reads of them; the lemma \<open>form_read_back\<close> says which values
    come back unchanged, and the theorems apply it to whole tabs: the other values are republished by any save.
  \<^item> \<open>Logging\<close> (\<^verbatim>\<open>shared/logger.py\<close>), \<open>LogViewer\<close> (\<^verbatim>\<open>log_viewer/main.py\<close>): the way of a record from the call through the two
    queues to the bus and into the window, which refines the promise that the newest lines are shown, and the rows for
    which it does not hold. \<open>ZmqTrace\<close> (\<^verbatim>\<open>zmq_trace/main.py\<close>): the counters of the trace collector, whose reports add up
    to the events and agree with the client that emitted them.
  \<^item> \<open>MessageNames\<close> (\<^verbatim>\<open>tcp_server/message_to_proto.py\<close>): the names and classes the log of frames gives to messages, and
    \<open>TemplateChannel\<close> (\<^verbatim>\<open>channel_modules/_template/main.py\<close>): the module to copy, which answers no frame.
  \<^item> \<open>FirstGeneration\<close> (\<^verbatim>\<open>src/app\<close>, \<^verbatim>\<open>src/services\<close>): the bus client, the wireless daemon and the renderer that came before;
    no connection is ever accepted, and the path of media behind it would deliver every frame.
  \<^item> this theory: the contract of frame messages between the socket server and the modules.

  \<^bold>\<open>Not modelled.\<close> Painting, layout, labels and shaders of the Qt windows, the printed layout of the trace reports, GLib
  main loops and D-Bus plumbing, generated protobuf classes and the tools that dump them, the text of log
  messages, and of the first generation (\<^verbatim>\<open>src/app\<close>) the window, the start of the processes and the copies of the wireless
  daemon that run inside of the application.
\<close>

section \<open>The frame contract\<close>

text \<open>C14 The two directions of a frame meet: the message the socket server publishes for an assembled frame is
  read back, by a channel module and by the control channel, as its message number, its encryption flag
  and its body; and what a module or the control channel sends is read back by the socket server as
  channel, number, body and flag.\<close>

theorem frame_contract:
  assumes "2 \<le> length assembled" "tot = 0 \<or> tot = int (length assembled)"
  shows "\<exists>p q. publish_frame full ch enc assembled tot = (None, [q, (ch_topic ch, p)]) \<and>
      frame_args p = Inr (be_val (take 2 assembled), enc, drop 2 assembled) \<and>
      ch0_fields p = Inr (be_val (take 2 assembled), enc, drop 2 assembled) \<and>
      frame_fields (snd (send_frame s mid body)) = Inr (ch_id s, mid, body, True) \<and>
      map (\<lambda>m. frame_fields (snd m)) (oaa_out (Send mid body enc')) = [Inr (0, mid, body, enc')]"
  using assms
  by (auto simp: publish_frame_def Let_def frame_data_def frame_args_def ch0_fields_def send_frame_def frame_fields_def
      dindex_def dget_or_def)

theorem frame_contract_witness:
  "\<exists>p q. publish_frame True 3 True [128, 1, 8, 4] 4 = (None, [q, (ch_topic 3, p)]) \<and>
      frame_args p = Inr (32769, True, [8, 4])"
  using frame_contract [of "[128, 1, 8, 4]" 4 True 3 True demo_mic 0 "[]" True]
  by (auto simp: be_val_def)

end
